(* ===== verification/BF_Prelude.thy ===== *)
theory BF_Prelude
  imports Complex_Main "HOL-Library.AList"
begin

text \<open>
  Shared vocabulary of the development.

  \<^item> A Python \<^verbatim>\<open>dict\<close> keeps insertion order, so it is an association list: \<open>dict_get\<close> reads
    it, \<open>dict_set\<close> overwrites in place or appends, \<open>dict_pop\<close> removes. Tables that the program
    builds only by these operations have distinct keys (\<open>wf_dict\<close>).
  \<^item> \<open>py_slice\<close> is Python's \<^verbatim>\<open>xs[i:j]\<close>, with negative bounds counted from the end.
  \<^item> A raised exception is the left side of a sum; a time stamp is a \<open>real\<close>
    (rounding of IEEE doubles is not modelled).
\<close>

named_theorems dict_simps \<open>reading a dictionary after an update\<close>
named_theorems wf_intros \<open>operations keep dictionary keys distinct\<close>

type_synonym time = real
type_synonym bytes = "char list"
type_synonym ('k, 'v) dict = "('k \<times> 'v) list"

section \<open>Dictionaries\<close>

abbreviation dict_get :: "('k, 'v) dict \<Rightarrow> 'k \<Rightarrow> 'v option" where
  "dict_get \<equiv> map_of"

abbreviation dict_set :: "'k \<Rightarrow> 'v \<Rightarrow> ('k, 'v) dict \<Rightarrow> ('k, 'v) dict" where
  "dict_set \<equiv> AList.update"

abbreviation dict_pop :: "'k \<Rightarrow> ('k, 'v) dict \<Rightarrow> ('k, 'v) dict" where
  "dict_pop \<equiv> AList.delete"

abbreviation dict_keys :: "('k, 'v) dict \<Rightarrow> 'k list" where
  "dict_keys d \<equiv> map fst d"

abbreviation dict_values :: "('k, 'v) dict \<Rightarrow> 'v list" where
  "dict_values d \<equiv> map snd d"

definition dict_mem :: "'k \<Rightarrow> ('k, 'v) dict \<Rightarrow> bool" where
  "dict_mem k d \<longleftrightarrow> dict_get d k \<noteq> None"

definition wf_dict :: "('k, 'v) dict \<Rightarrow> bool" where
  "wf_dict d \<longleftrightarrow> distinct (dict_keys d)"

text \<open>\<open>dict(pairs)\<close> and every dict comprehension: later pairs overwrite earlier ones.\<close>

definition dict_of_list :: "('k \<times> 'v) list \<Rightarrow> ('k, 'v) dict" where
  "dict_of_list ps = foldl (\<lambda>d p. dict_set (fst p) (snd p) d) [] ps"

text \<open>\<open>a | b\<close>, \<open>{**a, **b}\<close> and \<open>a.update(b)\<close>.\<close>

definition dict_merge :: "('k, 'v) dict \<Rightarrow> ('k, 'v) dict \<Rightarrow> ('k, 'v) dict" where
  "dict_merge a b = foldl (\<lambda>d p. dict_set (fst p) (snd p) d) a b"

definition dict_setdefault :: "'k \<Rightarrow> 'v \<Rightarrow> ('k, 'v) dict \<Rightarrow> ('k, 'v) dict" where
  "dict_setdefault k v d = (if dict_mem k d then d else dict_set k v d)"

lemma dict_get_set [simp, dict_simps]:
  "dict_get (dict_set k v d) k' = (if k' = k then Some v else dict_get d k')"
  by (simp add: update_conv')

lemma dict_get_pop [simp, dict_simps]:
  "dict_get (dict_pop k d) k' = (if k' = k then None else dict_get d k')"
  by (simp add: delete_conv')

lemma wf_dict_Nil [simp, wf_intros]: "wf_dict []"
  by (simp add: wf_dict_def)

lemma wf_dict_set [simp, wf_intros]: "wf_dict d \<Longrightarrow> wf_dict (dict_set k v d)"
  by (simp add: wf_dict_def distinct_update)

lemma wf_dict_pop [simp, wf_intros]: "wf_dict d \<Longrightarrow> wf_dict (dict_pop k d)"
  by (simp add: wf_dict_def distinct_delete)

lemma wf_dict_filter [simp, wf_intros]: "wf_dict d \<Longrightarrow> wf_dict (filter P d)"
  by (induction d) (auto simp: wf_dict_def)

lemma dict_mem_keys: "dict_mem k d \<longleftrightarrow> k \<in> set (dict_keys d)"
  by (simp add: dict_mem_def map_of_eq_None_iff)

lemma dict_mem_set [simp]: "dict_mem k (dict_set k' v d) \<longleftrightarrow> k = k' \<or> dict_mem k d"
  by (simp add: dict_mem_def)

lemma dict_mem_pop [simp]: "dict_mem k (dict_pop k' d) \<longleftrightarrow> k \<noteq> k' \<and> dict_mem k d"
  by (simp add: dict_mem_def)

lemma dict_get_Some_in: "dict_get d k = Some v \<Longrightarrow> (k, v) \<in> set d"
  by (rule map_of_SomeD)

lemma dict_get_iff: "wf_dict d \<Longrightarrow> dict_get d k = Some v \<longleftrightarrow> (k, v) \<in> set d"
  by (simp add: wf_dict_def map_of_eq_Some_iff)

lemma dict_get_filter:
  "wf_dict d \<Longrightarrow> dict_get (filter (\<lambda>p. P (snd p)) d) k =
     (case dict_get d k of None \<Rightarrow> None | Some v \<Rightarrow> if P v then Some v else None)"
proof (induction d)
  case Nil
  then show ?case by simp
next
  case (Cons p d)
  have k: "wf_dict d" "fst p \<notin> set (dict_keys d)"
    using Cons.prems by (auto simp: wf_dict_def)
  then have "dict_get d (fst p) = None" by (simp add: map_of_eq_None_iff)
  with k show ?case using Cons.IH by (cases p) (auto split: option.splits)
qed

lemma dict_get_filter_key:
  "dict_get (filter (\<lambda>p. P (fst p)) d) k = (if P k then dict_get d k else None)"
  by (induction d) auto

lemma wf_dict_foldl_set:
  "wf_dict d \<Longrightarrow> wf_dict (foldl (\<lambda>d p. dict_set (fst p) (snd p) d) d ps)"
  by (induction ps arbitrary: d) simp_all

lemma wf_dict_of_list [simp, wf_intros]: "wf_dict (dict_of_list ps)"
  by (simp add: dict_of_list_def wf_dict_foldl_set)

lemma wf_dict_merge [simp, wf_intros]: "wf_dict a \<Longrightarrow> wf_dict (dict_merge a b)"
  by (simp add: dict_merge_def wf_dict_foldl_set)

lemma dict_get_foldl_set:
  "dict_get (foldl (\<lambda>d p. dict_set (fst p) (snd p) d) d ps) k =
     (case dict_get (rev ps) k of None \<Rightarrow> dict_get d k | Some v \<Rightarrow> Some v)"
proof (induction ps arbitrary: d)
  case Nil
  then show ?case by simp
next
  case (Cons p ps)
  show ?case
    by (cases p) (auto simp: Cons.IH map_add_def split: option.splits)
qed

lemma dict_get_of_list: "dict_get (dict_of_list ps) k = dict_get (rev ps) k"
  by (simp add: dict_of_list_def dict_get_foldl_set split: option.splits)

lemma dict_get_merge:
  "dict_get (dict_merge a b) k =
     (case dict_get (rev b) k of None \<Rightarrow> dict_get a k | Some v \<Rightarrow> Some v)"
  by (simp add: dict_merge_def dict_get_foldl_set)

lemma dict_get_setdefault:
  "dict_get (dict_setdefault k v d) k' =
     (if k' = k \<and> \<not> dict_mem k d then Some v else dict_get d k')"
  by (auto simp: dict_setdefault_def)

lemma dict_set_fresh: "\<not> dict_mem k d \<Longrightarrow> dict_set k v d = d @ [(k, v)]"
  by (induction d) (auto simp: dict_mem_def split: if_splits)

lemma dict_of_list_id: "wf_dict ps \<Longrightarrow> dict_of_list ps = ps"
proof -
  have "foldl (\<lambda>d p. dict_set (fst p) (snd p) d) acc ps = acc @ ps"
    if "distinct (dict_keys (acc @ ps))" for acc
    using that
  proof (induction ps arbitrary: acc)
    case Nil
    then show ?case by simp
  next
    case (Cons p ps)
    have "\<not> dict_mem (fst p) acc" using Cons.prems by (auto simp: dict_mem_keys)
    then have "dict_set (fst p) (snd p) acc = acc @ [p]" by (simp add: dict_set_fresh)
    with Cons show ?case by simp
  qed
  from this [of "[]"] show "wf_dict ps \<Longrightarrow> dict_of_list ps = ps"
    by (simp add: dict_of_list_def wf_dict_def)
qed

lemma length_dict_pop: "length (dict_pop k d) \<le> length d"
  by (simp add: AList.length_delete_le)

section \<open>Slices\<close>

text \<open>
  \<^verbatim>\<open>xs[i:j]\<close>: a negative bound counts from the end, both bounds are clipped to the list, and an
  empty interval gives the empty list.
\<close>

definition slice_bound :: "nat \<Rightarrow> int \<Rightarrow> nat" where
  "slice_bound n i = (if i < 0 then nat (int n + i) else min n (nat i))"

definition py_slice :: "'a list \<Rightarrow> int \<Rightarrow> int \<Rightarrow> 'a list" where
  "py_slice xs i j =
     (let n = length xs in take (slice_bound n j - slice_bound n i) (drop (slice_bound n i) xs))"

lemma py_slice_nonneg:
  "0 \<le> i \<Longrightarrow> i \<le> j \<Longrightarrow> py_slice xs i j = take (nat (j - i)) (drop (nat i) xs)"
  by (auto simp: py_slice_def slice_bound_def Let_def min_def nat_diff_distrib)

lemma set_py_slice: "set (py_slice xs i j) \<subseteq> set xs"
  by (auto simp: py_slice_def Let_def dest!: in_set_takeD in_set_dropD)

lemma length_py_slice_nonneg: "0 \<le> i \<Longrightarrow> i \<le> j \<Longrightarrow> length (py_slice xs i j) \<le> nat (j - i)"
  by (simp add: py_slice_nonneg)

lemma py_slice_all: "int (length xs) \<le> n \<Longrightarrow> py_slice xs 0 n = xs"
  by (simp add: py_slice_nonneg)

text \<open>\<^verbatim>\<open>xs[-n:]\<close>; the whole list when \<open>n = 0\<close>.\<close>

definition last_n :: "int \<Rightarrow> 'a list \<Rightarrow> 'a list" where
  "last_n n xs = py_slice xs (- n) (int (length xs))"

section \<open>Generic facts\<close>

lemma filter_eq_self: "(\<And>x. x \<in> set xs \<Longrightarrow> P x) \<Longrightarrow> filter P xs = xs"
  by (simp add: filter_id_conv)

lemma list_all2_map_eq:
  "list_all2 R xs ys \<Longrightarrow>
   (\<And>x y. x \<in> set xs \<Longrightarrow> y \<in> set ys \<Longrightarrow> R x y \<Longrightarrow> f x = g y) \<Longrightarrow> map f xs = map g ys"
  by (induction rule: list_all2_induct) auto

lemma find_SomeD: "find P xs = Some x \<Longrightarrow> x \<in> set xs \<and> P x"
  by (induction xs) (auto split: if_splits)

lemma find_distinct_key:
  "distinct (map f xs) \<Longrightarrow> x \<in> set xs \<Longrightarrow> find (\<lambda>y. f y = f x) xs = Some x"
  by (induction xs) (auto simp: image_iff)

lemma distinct_map_filter: "distinct (map f xs) \<Longrightarrow> distinct (map f (filter P xs))"
  by (simp add: distinct_map inj_on_def)

lemma sum_list_filter_le:
  fixes f :: "'a \<Rightarrow> nat"
  shows "sum_list (map f (filter P xs)) \<le> sum_list (map f xs)"
  by (induction xs) auto

lemma sorted_wrt_snoc: "sorted_wrt R (xs @ [x]) \<longleftrightarrow> sorted_wrt R xs \<and> (\<forall>y\<in>set xs. R y x)"
  by (auto simp: sorted_wrt_append)

end
