(* ===== verification/PyString.thy ===== *)
theory PyString
  imports BF_Prelude
begin

text \<open>
  The Python string operations the program uses, on character lists. A \<open>char\<close> stands for a code
  point below 256, so a \<^verbatim>\<open>str\<close> here is a Latin-1 string and \<open>bytes\<close> are the same lists.
\<close>

section \<open>Tests and trimming\<close>

definition startswith :: "string \<Rightarrow> string \<Rightarrow> bool" where
  "startswith s p \<longleftrightarrow> take (length p) s = p"

definition endswith :: "string \<Rightarrow> string \<Rightarrow> bool" where
  "endswith s p \<longleftrightarrow> startswith (rev s) (rev p)"

text \<open>\<^verbatim>\<open>needle in haystack\<close>.\<close>

fun str_in :: "string \<Rightarrow> string \<Rightarrow> bool" where
  "str_in n [] = (n = [])"
| "str_in n (c # cs) = (startswith (c # cs) n \<or> str_in n cs)"

definition lstrip :: "string \<Rightarrow> string \<Rightarrow> string" where
  "lstrip cs s = dropWhile (\<lambda>c. c \<in> set cs) s"

definition rstrip :: "string \<Rightarrow> string \<Rightarrow> string" where
  "rstrip cs s = rev (dropWhile (\<lambda>c. c \<in> set cs) (rev s))"

definition strip :: "string \<Rightarrow> string \<Rightarrow> string" where
  "strip cs s = lstrip cs (rstrip cs s)"

text \<open>The characters below 256 for which \<^verbatim>\<open>str.isspace\<close> holds.\<close>

definition whitespace :: string where
  "whitespace = map char_of [9, 10, 11, 12, 13, 28, 29, 30, 31, 32, 133, 160::nat]"

definition removeprefix :: "string \<Rightarrow> string \<Rightarrow> string" where
  "removeprefix p s = (if startswith s p then drop (length p) s else s)"

lemma rstrip_last: "rstrip cs s = [] \<or> last (rstrip cs s) \<notin> set cs"
proof (cases "dropWhile (\<lambda>c. c \<in> set cs) (rev s)")
  case (Cons x xs)
  then have "x \<notin> set cs" using hd_dropWhile [of "\<lambda>c. c \<in> set cs" "rev s"] by simp
  then show ?thesis using Cons by (simp add: rstrip_def)
qed (simp add: rstrip_def)

lemma rstrip_id: "s = [] \<or> last s \<notin> set cs \<Longrightarrow> rstrip cs s = s"
  by (cases s rule: rev_cases) (auto simp: rstrip_def)

lemma strip_idem [simp]: "strip cs (strip cs s) = strip cs s"
proof -
  let ?t = "rstrip cs s"
  have "lstrip cs ?t = [] \<or> last (lstrip cs ?t) \<notin> set cs"
  proof (cases "lstrip cs ?t = []")
    case False
    moreover have "?t = takeWhile (\<lambda>c. c \<in> set cs) ?t @ lstrip cs ?t" by (simp add: lstrip_def)
    ultimately have "last ?t = last (lstrip cs ?t)" "?t \<noteq> []" by (metis last_appendR) (use False in \<open>auto simp: lstrip_def\<close>)
    then show ?thesis using rstrip_last [of cs s] by simp
  qed simp
  then have "rstrip cs (lstrip cs ?t) = lstrip cs ?t" by (rule rstrip_id)
  moreover have "lstrip cs (lstrip cs ?t) = lstrip cs ?t" by (simp add: lstrip_def)
  ultimately show ?thesis by (simp add: strip_def)
qed

lemma startswith_append [simp]: "startswith (p @ s) p"
  by (simp add: startswith_def)

lemma startswith_iff: "startswith s p \<longleftrightarrow> (\<exists>t. s = p @ t)"
  by (metis append_eq_conv_conj startswith_def append_take_drop_id)

lemma endswith_iff: "endswith s p \<longleftrightarrow> (\<exists>t. s = t @ p)"
  by (metis endswith_def startswith_iff rev_append rev_rev_ident)

lemma str_in_iff: "str_in n s \<longleftrightarrow> (\<exists>a b. s = a @ n @ b)"
proof (induction s)
  case Nil
  then show ?case by simp
next
  case (Cons c s)
  have "(\<exists>a b. c # s = a @ n @ b) \<longleftrightarrow> (\<exists>b. c # s = n @ b) \<or> (\<exists>a b. s = a @ n @ b)"
    by (metis append_Cons append_Nil list.inject neq_Nil_conv)
  then show ?case using Cons.IH by (simp add: startswith_iff)
qed

lemma removeprefix_append [simp]: "removeprefix p (p @ s) = s"
  by (simp add: removeprefix_def)

lemma set_rstrip: "set (rstrip cs s) \<subseteq> set s"
  by (auto simp: rstrip_def dest: set_dropWhileD)

text \<open>Removable characters at the ends do not matter.\<close>

lemma strip_blanks:
  assumes "set a \<subseteq> set cs" and "set b \<subseteq> set cs"
  shows "strip cs (a @ u @ b) = strip cs u"
proof (cases "set u \<subseteq> set cs")
  case True
  have "strip cs v = []" if "set v \<subseteq> set cs" for v
  proof -
    have "rstrip cs v = []" using that by (auto simp: rstrip_def dropWhile_eq_Nil_conv)
    then show ?thesis by (simp add: strip_def lstrip_def)
  qed
  then show ?thesis using True assms by simp
next
  case False
  then obtain x where x: "x \<in> set u" "x \<notin> set cs" by blast
  have "rstrip cs (a @ u @ b) = a @ rstrip cs u"
  proof -
    have "dropWhile (\<lambda>c. c \<in> set cs) (rev b @ rev u @ rev a) = dropWhile (\<lambda>c. c \<in> set cs) (rev u @ rev a)"
      using assms(2) by (intro dropWhile_append2) auto
    moreover have "dropWhile (\<lambda>c. c \<in> set cs) (rev u @ rev a) = dropWhile (\<lambda>c. c \<in> set cs) (rev u) @ rev a"
      using x by (intro dropWhile_append1) auto
    ultimately show ?thesis by (simp add: rstrip_def)
  qed
  moreover have "dropWhile (\<lambda>c. c \<in> set cs) (a @ rstrip cs u) = dropWhile (\<lambda>c. c \<in> set cs) (rstrip cs u)"
    using assms(1) by (intro dropWhile_append2) auto
  ultimately show ?thesis by (simp add: strip_def lstrip_def)
qed

section \<open>Splitting and joining\<close>

fun split_on :: "char \<Rightarrow> string \<Rightarrow> string list" where
  "split_on c [] = [[]]"
| "split_on c (x # xs) =
     (if x = c then [] # split_on c xs
      else case split_on c xs of [] \<Rightarrow> [[x]] | w # ws \<Rightarrow> (x # w) # ws)"

text \<open>\<^verbatim>\<open>s.split(sep, 1)[0]\<close> and \<^verbatim>\<open>s.partition(sep)\<close> for a one-character separator.\<close>

definition before_first :: "char \<Rightarrow> string \<Rightarrow> string" where
  "before_first c s = takeWhile (\<lambda>x. x \<noteq> c) s"

definition after_first :: "char \<Rightarrow> string \<Rightarrow> string" where
  "after_first c s = tl (dropWhile (\<lambda>x. x \<noteq> c) s)"

fun join :: "string \<Rightarrow> string list \<Rightarrow> string" where
  "join sep [] = []"
| "join sep [w] = w"
| "join sep (w # v # ws) = w @ sep @ join sep (v # ws)"

lemma split_on_not_Nil [simp]: "split_on c s \<noteq> []"
  by (induction s) (auto split: list.splits)

lemma join_Cons: "ws \<noteq> [] \<Longrightarrow> join sep (w # ws) = w @ sep @ join sep ws"
  by (cases ws) auto

lemma join_split_on: "join [c] (split_on c s) = s"
proof (induction s)
  case Nil
  then show ?case by simp
next
  case (Cons x xs)
  show ?case
  proof (cases "x = c")
    case True
    then show ?thesis using Cons.IH by (simp add: join_Cons)
  next
    case False
    obtain w ws where s: "split_on c xs = w # ws"
      by (cases "split_on c xs") (auto simp: split_on_not_Nil)
    with False Cons.IH show ?thesis by (cases ws) auto
  qed
qed

lemma split_on_parts: "w \<in> set (split_on c s) \<Longrightarrow> c \<notin> set w"
  by (induction s arbitrary: w) (force split: if_splits list.splits)+

lemma split_on_single: "c \<notin> set s \<Longrightarrow> split_on c s = [s]"
  by (induction s) auto

lemma split_on_append: "c \<notin> set w \<Longrightarrow> split_on c (w @ c # s) = w # split_on c s"
  by (induction w) auto

text \<open>
  \<^verbatim>\<open>str.splitlines()\<close>: every line boundary below code point 256 ends a line, a carriage return
  followed by a line feed counts once, and a final boundary opens no empty line.
\<close>

definition is_break :: "char \<Rightarrow> bool" where
  "is_break c \<longleftrightarrow> (of_char c :: nat) \<in> {10, 11, 12, 13, 28, 29, 30, 133}"

fun lines_from :: "string \<Rightarrow> string \<Rightarrow> string list" where
  "lines_from cur [] = (if cur = [] then [] else [rev cur])"
| "lines_from cur [c] = (if is_break c then [rev cur] else [rev (c # cur)])"
| "lines_from cur (c # d # s) =
     (if c = CHR 0x0D \<and> d = CHR 0x0A then rev cur # lines_from [] s
      else if is_break c then rev cur # lines_from [] (d # s)
      else lines_from (c # cur) (d # s))"

definition splitlines :: "string \<Rightarrow> string list" where
  "splitlines s = lines_from [] s"

section \<open>Case\<close>

definition lower_char :: "char \<Rightarrow> char" where
  "lower_char c =
     (let n = (of_char c :: nat)
      in if (65 \<le> n \<and> n \<le> 90) \<or> (192 \<le> n \<and> n \<le> 222 \<and> n \<noteq> 215) then char_of (n + 32) else c)"

definition lower :: "string \<Rightarrow> string" where
  "lower s = map lower_char s"

lemma of_lower_char:
  "(of_char (lower_char c) :: nat) =
     (let n = of_char c in
      if (65 \<le> n \<and> n \<le> 90) \<or> (192 \<le> n \<and> n \<le> 222 \<and> n \<noteq> 215) then n + 32 else n)"
  by (simp add: lower_char_def Let_def of_char_of)

lemma lower_char_idem [simp]: "lower_char (lower_char c) = lower_char c"
proof -
  have "(of_char (lower_char (lower_char c)) :: nat) = of_char (lower_char c)"
    by (auto simp: of_lower_char Let_def)
  then show ?thesis by (metis char_of_char)
qed

lemma lower_idem [simp]: "lower (lower s) = lower s"
  by (simp add: lower_def)

section \<open>Numbers and quoting\<close>

fun nat_str :: "nat \<Rightarrow> string" where
  "nat_str n =
     (if n < 10 then [char_of (48 + n)] else nat_str (n div 10) @ [char_of (48 + n mod 10)])"

declare nat_str.simps [simp del]

definition int_str :: "int \<Rightarrow> string" where
  "int_str i = (if i < 0 then CHR ''-'' # nat_str (nat (- i)) else nat_str (nat i))"

lemma nat_str_digits: "c \<in> set (nat_str n) \<Longrightarrow> 48 \<le> (of_char c :: nat) \<and> (of_char c :: nat) \<le> 57"
proof (induction n rule: nat_str.induct)
  case (1 n)
  show ?case
  proof (cases "n < 10")
    case True
    with "1.prems" show ?thesis by (subst (asm) nat_str.simps) (auto simp: of_char_of)
  next
    case False
    have "n mod 10 < 10" by simp
    with False "1.prems" "1.IH" show ?thesis
      by (subst (asm) nat_str.simps) (auto simp: of_char_of)
  qed
qed

text \<open>Reading the digits back.\<close>

fun digits_val :: "nat \<Rightarrow> string \<Rightarrow> nat" where
  "digits_val acc [] = acc"
| "digits_val acc (c # cs) = digits_val (acc * 10 + (of_char c - 48)) cs"

lemma digits_val_append: "digits_val acc (s @ t) = digits_val (digits_val acc s) t"
  by (induction s arbitrary: acc) auto

lemma digits_val_nat_str: "digits_val 0 (nat_str n) = n"
proof (induction n rule: nat_str.induct)
  case (1 n)
  show ?case
  proof (cases "n < 10")
    case True
    then show ?thesis by (subst nat_str.simps) (simp add: of_char_of)
  next
    case False
    have "n mod 10 < 10" by simp
    with False "1.IH" show ?thesis
      by (subst nat_str.simps) (simp add: digits_val_append of_char_of)
  qed
qed

lemma nat_str_inj: "nat_str m = nat_str n \<Longrightarrow> m = n"
  by (metis digits_val_nat_str)

definition hex_digit :: "nat \<Rightarrow> char" where
  "hex_digit n = (if n < 10 then char_of (48 + n) else char_of (87 + n))"

definition hex2 :: "nat \<Rightarrow> string" where
  "hex2 n = [hex_digit (n div 16), hex_digit (n mod 16)]"

text \<open>\<^verbatim>\<open>repr\<close> of a string: single quotes unless the text has one and no double quote.\<close>

definition repr_char :: "char \<Rightarrow> char \<Rightarrow> string" where
  "repr_char q c =
     (let n = (of_char c :: nat)
      in if c = q \<or> c = CHR 0x5C then [CHR 0x5C, c]
         else if n = 9 then [CHR 0x5C, CHR ''t'']
         else if n = 10 then [CHR 0x5C, CHR ''n'']
         else if n = 13 then [CHR 0x5C, CHR ''r'']
         else if n < 32 \<or> (127 \<le> n \<and> n \<le> 160) \<or> n = 173 then [CHR 0x5C, CHR ''x''] @ hex2 n
         else [c])"

definition py_repr :: "string \<Rightarrow> string" where
  "py_repr s =
     (let q = (if CHR 0x27 \<in> set s \<and> CHR 0x22 \<notin> set s then CHR 0x22 else CHR 0x27)
      in [q] @ concat (map (repr_char q) s) @ [q])"

text \<open>The string literal \<^verbatim>\<open>json.dumps\<close> writes (\<^verbatim>\<open>ensure_ascii\<close> on).\<close>

definition json_char :: "char \<Rightarrow> string" where
  "json_char c =
     (let n = (of_char c :: nat)
      in if n = 34 \<or> n = 92 then [CHR 0x5C, c]
         else if n = 10 then [CHR 0x5C, CHR ''n'']
         else if n = 13 then [CHR 0x5C, CHR ''r'']
         else if n = 9 then [CHR 0x5C, CHR ''t'']
         else if n = 12 then [CHR 0x5C, CHR ''f'']
         else if n = 8 then [CHR 0x5C, CHR ''b'']
         else if n < 32 \<or> 127 \<le> n then [CHR 0x5C, CHR ''u'', CHR ''0'', CHR ''0''] @ hex2 n
         else [c])"

definition json_str :: "string \<Rightarrow> string" where
  "json_str s = CHR 0x22 # concat (map json_char s) @ [CHR 0x22]"

lemma of_hex_digit: "n < 16 \<Longrightarrow> 48 \<le> (of_char (hex_digit n) :: nat) \<and> (of_char (hex_digit n) :: nat) \<le> 102"
  by (auto simp: hex_digit_def of_char_of)

lemma json_char_printable:
  "x \<in> set (json_char c) \<Longrightarrow> 32 \<le> (of_char x :: nat) \<and> (of_char x :: nat) \<le> 126"
proof -
  assume x: "x \<in> set (json_char c)"
  have n: "(of_char c :: nat) < 256" by simp
  have h: "(of_char c :: nat) div 16 < 16" "(of_char c :: nat) mod 16 < 16"
    using n by linarith simp
  note hx = of_hex_digit [OF h(1)] of_hex_digit [OF h(2)]
  show ?thesis
    using x hx by (auto simp: json_char_def Let_def hex2_def split: if_splits)
qed

lemma json_str_printable:
  "x \<in> set (json_str s) \<Longrightarrow> 32 \<le> (of_char x :: nat) \<and> (of_char x :: nat) \<le> 126"
  using json_char_printable by (auto simp: json_str_def)

section \<open>Words\<close>

text \<open>\<^verbatim>\<open>str.split()\<close>, \<^verbatim>\<open>str.capitalize()\<close> (of a string whose capitalisation is Latin-1) and the characters of \<^verbatim>\<open>\w\<close> below code point 256.\<close>

definition is_space :: "char \<Rightarrow> bool" where
  "is_space c \<longleftrightarrow> c \<in> set whitespace"

fun words_from :: "string \<Rightarrow> string \<Rightarrow> string list" where
  "words_from cur [] = (if cur = [] then [] else [rev cur])"
| "words_from cur (c # s) =
     (if is_space c then (if cur = [] then words_from [] s else rev cur # words_from [] s)
      else words_from (c # cur) s)"

definition split_ws :: "string \<Rightarrow> string list" where
  "split_ws s = words_from [] s"

definition upper_char :: "char \<Rightarrow> char" where
  "upper_char c =
     (let n = (of_char c :: nat)
      in if (97 \<le> n \<and> n \<le> 122) \<or> (224 \<le> n \<and> n \<le> 254 \<and> n \<noteq> 247) then char_of (n - 32) else c)"

definition capitalize :: "string \<Rightarrow> string" where
  "capitalize s = (case s of [] \<Rightarrow> [] | c # cs \<Rightarrow> upper_char c # lower cs)"

definition is_word_char :: "char \<Rightarrow> bool" where
  "is_word_char c \<longleftrightarrow>
     (let n = (of_char c :: nat)
      in (48 \<le> n \<and> n \<le> 57) \<or> (65 \<le> n \<and> n \<le> 90) \<or> n = 95 \<or> (97 \<le> n \<and> n \<le> 122) \<or>
         n \<in> {170, 178, 179, 181, 185, 186, 188, 189, 190} \<or> (192 \<le> n \<and> n \<noteq> 215 \<and> n \<noteq> 247))"

end
