(* ===== verification/Json_Value.thy ===== *)
theory Json_Value
  imports PyString
begin

text \<open>
  JSON-compatible Python values, and \<^verbatim>\<open>boardfarm3/api/redact.py\<close>: the copy of a value in which
  every entry under a credential-bearing key is replaced. The main facts are that redaction is
  idempotent, that the result holds nothing but the marker under a secret key, and that two values
  that agree outside secret keys have the same redaction.
\<close>

datatype json =
  JNull
| JBool bool
| JInt int
| JReal real
| JStr string
| JList "json list"
| JObj "(string \<times> json) list"

text \<open>\<^verbatim>\<open>bool(value)\<close>.\<close>

fun truthy :: "json \<Rightarrow> bool" where
  "truthy JNull = False"
| "truthy (JBool b) = b"
| "truthy (JInt i) = (i \<noteq> 0)"
| "truthy (JReal r) = (r \<noteq> 0)"
| "truthy (JStr s) = (s \<noteq> [])"
| "truthy (JList xs) = (xs \<noteq> [])"
| "truthy (JObj kvs) = (kvs \<noteq> [])"

lemma size_snd_json [termination_simp]:
  "p \<in> set kvs \<Longrightarrow> size (snd p) < Suc (size_list (size_prod (\<lambda>_. 0) size) kvs)"
proof (induction kvs)
  case Nil
  then show ?case by simp
next
  case (Cons q kvs)
  then show ?case by (cases q) fastforce
qed

lemma size_json_list [termination_simp]: "x \<in> set xs \<Longrightarrow> size (x::json) < Suc (size_list size xs)"
  by (induction xs) auto

section \<open>Redaction\<close>

definition REDACTED :: string where
  "REDACTED = ''***''"

text \<open>The regular expression is an alternation of words, searched for without regard to case.\<close>

definition secret_words :: "string list" where
  "secret_words =
     [''pass'', ''passwd'', ''password'', ''secret'', ''token'', ''key'', ''auth'']"

definition secret_key :: "string \<Rightarrow> bool" where
  "secret_key k \<longleftrightarrow> list_ex (\<lambda>w. str_in w (lower k)) secret_words"

fun redact :: "json \<Rightarrow> json" where
  "redact (JObj kvs) =
     JObj (map (\<lambda>p. (fst p, if secret_key (fst p) then JStr REDACTED else redact (snd p))) kvs)"
| "redact (JList xs) = JList (map redact xs)"
| "redact v = v"

text \<open>Nothing but the marker sits under a secret key, at any depth.\<close>

fun clean :: "json \<Rightarrow> bool" where
  "clean (JObj kvs) =
     list_all (\<lambda>p. if secret_key (fst p) then snd p = JStr REDACTED else clean (snd p)) kvs"
| "clean (JList xs) = list_all clean xs"
| "clean v = True"

lemma clean_redact_aux: "clean (redact v)"
  by (induction v rule: redact.induct) (auto simp: list_all_iff)

lemma redact_clean: "clean v \<Longrightarrow> redact v = v"
proof (induction v rule: redact.induct)
  case (1 kvs)
  have "map (\<lambda>p. (fst p, if secret_key (fst p) then JStr REDACTED else redact (snd p))) kvs = kvs"
  proof (rule map_idI)
    fix p
    assume p: "p \<in> set kvs"
    then have "if secret_key (fst p) then snd p = JStr REDACTED else clean (snd p)"
      using "1.prems" by (auto simp: list_all_iff)
    then show "(fst p, if secret_key (fst p) then JStr REDACTED else redact (snd p)) = p"
      using "1.IH" [OF p] by (cases p) (auto split: if_splits)
  qed
  then show ?case by simp
next
  case (2 xs)
  then show ?case by (simp add: list_all_iff map_idI)
qed simp_all

lemma redact_idem: "redact (redact v) = redact v"
  by (rule redact_clean [OF clean_redact_aux])

text \<open>
  Two values agree in public when they have the same shape, the same keys in the same order, and
  the same scalars, except below secret keys, where anything may stand.
\<close>

fun public_eq :: "json \<Rightarrow> json \<Rightarrow> bool" where
  "public_eq (JObj kvs) (JObj kws) =
     list_all2 (\<lambda>p q. fst p = fst q \<and> (secret_key (fst p) \<or> public_eq (snd p) (snd q))) kvs kws"
| "public_eq (JList xs) (JList ys) = list_all2 public_eq xs ys"
| "public_eq v w = (v = w)"

lemma redact_public_eq_aux: "public_eq v w \<Longrightarrow> redact v = redact w"
proof (induction v w rule: public_eq.induct)
  case (1 kvs kws)
  let ?R = "\<lambda>p q. fst p = fst q \<and> (secret_key (fst p) \<or> public_eq (snd p) (snd q))"
  let ?f = "\<lambda>p. (fst p, if secret_key (fst p) then JStr REDACTED else redact (snd p))"
  have "list_all2 ?R kvs kws" using "1.prems" by simp
  then have "map ?f kvs = map ?f kws"
    by (rule list_all2_map_eq) (use "1.IH" in fastforce)
  then show ?case by simp
next
  case (2 xs ys)
  have "list_all2 public_eq xs ys" using "2.prems" by simp
  then have "map redact xs = map redact ys"
    by (rule list_all2_map_eq) (auto simp: "2.IH")
  then show ?case by simp
qed simp_all

section \<open>Property\<close>

text \<open>C11: Redaction hides every credential. In the result nothing but the marker stands under a key
  that looks secret, at any depth; redacting again changes nothing; and two values that differ only
  below secret keys are redacted to the same value, so nothing about what stood there can be read off
  the result.\<close>

theorem redact_hides:
  assumes "public_eq v w"
  shows "clean (redact v) \<and> redact (redact v) = redact v \<and> redact v = redact w"
  using clean_redact_aux redact_idem redact_public_eq_aux [OF assms] by blast

theorem redact_hides_witness:
  "redact (JObj [(''user'', JStr ''u''), (''Password'', JStr ''abc'')]) =
   redact (JObj [(''user'', JStr ''u''), (''Password'', JInt 5)])"
proof -
  have "secret_key ''Password''" by code_simp
  then show ?thesis
    using redact_hides [of "JObj [(''user'', JStr ''u''), (''Password'', JStr ''abc'')]"
        "JObj [(''user'', JStr ''u''), (''Password'', JInt 5)]"]
    by simp
qed

end
