(* ===== verification/Control_Models.thy ===== *)
theory Control_Models
  imports Json_Value
begin

text \<open>
  The data of the control plane (\<^verbatim>\<open>boardfarm3_control/models.py\<close>) and the exceptions its handlers
  tell apart. Field names carry a prefix per model (\<open>ai_\<close>, \<open>sc_\<close>, \<open>sr_\<close>, \<open>sl_\<close>).
\<close>

section \<open>Models\<close>

record agent_info =
  ai_session_id :: string
  ai_board_name :: string
  ai_runtime_profile :: string
  ai_container_id :: string
  ai_host_port :: int
  ai_created_at :: time
  ai_pid :: "int option"
  ai_agent_url :: string
  ai_state :: string
  ai_ended_at :: "time option"
  ai_artifact_dir :: string

text \<open>The constructor with the defaults of the fields after \<^verbatim>\<open>created_at\<close>.\<close>

definition agent_info_default ::
  "string \<Rightarrow> string \<Rightarrow> string \<Rightarrow> string \<Rightarrow> int \<Rightarrow> time \<Rightarrow> agent_info" where
  "agent_info_default sid board profile cid port created =
     \<lparr>ai_session_id = sid, ai_board_name = board, ai_runtime_profile = profile,
      ai_container_id = cid, ai_host_port = port, ai_created_at = created, ai_pid = None,
      ai_agent_url = [], ai_state = ''live'', ai_ended_at = None,
      ai_artifact_dir = ''/var/log/boardfarm''\<rparr>"

record session_create =
  sc_board_name :: string
  sc_runtime_profile :: string
  sc_payload :: "(string, json) dict"
  sc_options :: "(string, json) dict"
  sc_boot :: bool
  sc_agent_env :: "(string, string) dict"

record session_response =
  sr_session_id :: string
  sr_board_name :: string
  sr_runtime_profile :: string
  sr_state :: json
  sr_boot_job_id :: "json"
  sr_booted :: bool
  sr_agent_url :: string
  sr_pid :: "int option"
  sr_created_at :: time
  sr_last_activity :: "json"
  sr_ended_at :: "time option"
  sr_liveness :: "json"

record session_list_response =
  sl_sessions :: "session_response list"
  sl_total :: int
  sl_offset :: int
  sl_limit :: int

definition live :: "agent_info \<Rightarrow> bool" where
  "live i \<longleftrightarrow> ai_state i = ''live''"

definition dead :: "agent_info \<Rightarrow> bool" where
  "dead i \<longleftrightarrow> ai_state i = ''dead''"

lemma live_not_dead: "live i \<Longrightarrow> \<not> dead i"
  by (simp add: live_def dead_def)

definition opt_time :: "time option \<Rightarrow> json" where
  "opt_time t = (case t of None \<Rightarrow> JNull | Some r \<Rightarrow> JReal r)"

section \<open>Exceptions\<close>

text \<open>
  The classes the handlers distinguish. \<^verbatim>\<open>httpx.HTTPError\<close> covers the transport errors, the
  status errors and the other request errors; \<^verbatim>\<open>httpx.InvalidURL\<close> is not one of its subclasses.
  Every exception carries its message.
\<close>

datatype exc =
  ConnectError string
| TimeoutException string
| OtherTransportError string
| HTTPStatusError string
| OtherHTTPError string
| InvalidURL string
| AsyncTimeout
| OSErr string
| ValueErr string
| TypeErr string
| AttributeErr string
| KeyErr string
| OtherExc string

fun exc_msg :: "exc \<Rightarrow> string" where
  "exc_msg (ConnectError m) = m"
| "exc_msg (TimeoutException m) = m"
| "exc_msg (OtherTransportError m) = m"
| "exc_msg (HTTPStatusError m) = m"
| "exc_msg (OtherHTTPError m) = m"
| "exc_msg (InvalidURL m) = m"
| "exc_msg AsyncTimeout = []"
| "exc_msg (OSErr m) = m"
| "exc_msg (ValueErr m) = m"
| "exc_msg (TypeErr m) = m"
| "exc_msg (AttributeErr m) = m"
| "exc_msg (KeyErr m) = m"
| "exc_msg (OtherExc m) = m"

fun is_transport_error :: "exc \<Rightarrow> bool" where
  "is_transport_error (ConnectError _) = True"
| "is_transport_error (TimeoutException _) = True"
| "is_transport_error (OtherTransportError _) = True"
| "is_transport_error _ = False"

fun is_http_error :: "exc \<Rightarrow> bool" where
  "is_http_error (HTTPStatusError _) = True"
| "is_http_error (OtherHTTPError _) = True"
| "is_http_error e = is_transport_error e"

fun is_invalid_url :: "exc \<Rightarrow> bool" where
  "is_invalid_url (InvalidURL _) = True"
| "is_invalid_url _ = False"

text \<open>
  How a handler ends when it does not return: with an \<^verbatim>\<open>HTTPException\<close> (status and detail), or
  with an exception nobody catches, which the server turns into a 500.
\<close>

datatype failure =
  HTTPExc int json
| Unhandled exc

text \<open>An HTTP response as the handlers read it: status, text, and what \<^verbatim>\<open>.json()\<close> gives.\<close>

record http_response =
  hr_status :: int
  hr_content :: bytes
  hr_text :: string
  hr_json :: "exc + json"

text \<open>\<^verbatim>\<open>response.raise_for_status()\<close>: only 2xx passes.\<close>

definition raise_for_status :: "http_response \<Rightarrow> exc + http_response" where
  "raise_for_status r =
     (if 200 \<le> hr_status r \<and> hr_status r < 300 then Inr r
      else Inl (HTTPStatusError (''status '' @ int_str (hr_status r))))"

text \<open>\<^verbatim>\<open>data.get(key, default)\<close> on a decoded body: only a JSON object has \<^verbatim>\<open>get\<close>.\<close>

definition json_get :: "string \<Rightarrow> json \<Rightarrow> json \<Rightarrow> exc + json" where
  "json_get k d v =
     (case v of
        JObj kvs \<Rightarrow> Inr (case dict_get kvs k of None \<Rightarrow> d | Some x \<Rightarrow> x)
      | _ \<Rightarrow> Inl (AttributeErr ''no attribute get''))"

text \<open>
  \<^verbatim>\<open>float(os.environ.get(name, default))\<close>: \<open>env name\<close> is None when the variable is unset, and
  otherwise what converting its text gives, a number or the \<^verbatim>\<open>ValueError\<close>.
\<close>

type_synonym num_env = "string \<Rightarrow> (exc + time) option"

definition env_float :: "num_env \<Rightarrow> string \<Rightarrow> time \<Rightarrow> exc + time" where
  "env_float env name d = (case env name of None \<Rightarrow> Inr d | Some r \<Rightarrow> r)"

text \<open>The client side of an HTTP exchange: what the peer (or the network) answers.\<close>

datatype http_request =
  HGet string
| HPost string json
| HPostEmpty string
| HDelete string

type_synonym http_client = "http_request \<Rightarrow> exc + http_response"

end
