(* ===== verification/Lease.thy ===== *)
theory Lease
  imports Control_Models
begin

text \<open>
  The board lease table (\<^verbatim>\<open>boardfarm3_control/lease.py\<close>). Every coroutine holds the
  \<^verbatim>\<open>asyncio.Lock\<close> for its whole body, so each operation is one atomic step on the table.
  \<open>lease_iface\<close> states what the rest of the control plane relies on.
\<close>

section \<open>The interface\<close>

locale lease_iface =
  fixes acquire :: "string \<Rightarrow> string \<Rightarrow> 'l \<Rightarrow> bool \<times> 'l"
    and release :: "string \<Rightarrow> 'l \<Rightarrow> 'l"
    and held_by :: "string \<Rightarrow> 'l \<Rightarrow> string option"
    and invar :: "'l \<Rightarrow> bool"
  assumes acquire_granted: "invar l \<Longrightarrow> fst (acquire b s l) \<longleftrightarrow> held_by b l = None"
    and acquire_holder: "invar l \<Longrightarrow>
      held_by b' (snd (acquire b s l)) =
        (if b' = b \<and> held_by b l = None then Some s else held_by b' l)"
    and release_holder: "invar l \<Longrightarrow>
      held_by b' (release s l) = (if held_by b' l = Some s then None else held_by b' l)"
    and acquire_invar: "invar l \<Longrightarrow> invar (snd (acquire b s l))"
    and release_invar: "invar l \<Longrightarrow> invar (release s l)"

datatype lease_op = Acquire string string | Release string

fun lease_ops ::
  "(string \<Rightarrow> string \<Rightarrow> 'l \<Rightarrow> bool \<times> 'l) \<Rightarrow> (string \<Rightarrow> 'l \<Rightarrow> 'l) \<Rightarrow> lease_op list \<Rightarrow> 'l \<Rightarrow> 'l" where
  "lease_ops acq rel [] l = l"
| "lease_ops acq rel (Acquire b s # os) l = lease_ops acq rel os (snd (acq b s l))"
| "lease_ops acq rel (Release s # os) l = lease_ops acq rel os (rel s l)"

text \<open>What a history of operations leaves behind: the abstract table is a partial map.\<close>

fun lease_spec :: "lease_op list \<Rightarrow> (string \<rightharpoonup> string) \<Rightarrow> (string \<rightharpoonup> string)" where
  "lease_spec [] m = m"
| "lease_spec (Acquire b s # os) m =
     lease_spec os (if m b = None then m(b \<mapsto> s) else m)"
| "lease_spec (Release s # os) m =
     lease_spec os (\<lambda>b. if m b = Some s then None else m b)"

context lease_iface begin

lemma ops_refine:
  "invar l \<Longrightarrow> invar (lease_ops acquire release os l) \<and>
     (\<lambda>b. held_by b (lease_ops acquire release os l)) = lease_spec os (\<lambda>b. held_by b l)"
proof (induction os arbitrary: l)
  case Nil
  then show ?case by simp
next
  case (Cons o' os)
  show ?case
  proof (cases o')
    case (Acquire b s)
    have "(\<lambda>b'. held_by b' (snd (acquire b s l))) =
        (if held_by b l = None then (\<lambda>b'. held_by b' l)(b \<mapsto> s) else (\<lambda>b'. held_by b' l))"
      using Cons.prems by (auto simp: acquire_holder fun_eq_iff)
    then show ?thesis
      using Acquire Cons.IH [OF acquire_invar [OF Cons.prems]] by simp
  next
    case (Release s)
    have "(\<lambda>b'. held_by b' (release s l)) =
        (\<lambda>b'. if held_by b' l = Some s then None else held_by b' l)"
      using Cons.prems by (simp add: release_holder fun_eq_iff)
    then show ?thesis
      using Release Cons.IH [OF release_invar [OF Cons.prems]] by simp
  qed
qed

text \<open>A held board is granted to nobody else until its holder releases it.\<close>

lemma held_until_released:
  assumes "invar l" and "held_by b l = Some s" and "Release s \<notin> set os"
  shows "held_by b (lease_ops acquire release os l) = Some s"
  using assms
proof (induction os arbitrary: l)
  case Nil
  then show ?case by simp
next
  case (Cons o' os)
  show ?case
  proof (cases o')
    case (Acquire b' s')
    have "held_by b (snd (acquire b' s' l)) = Some s"
      using Cons.prems by (auto simp: acquire_holder)
    then show ?thesis
      using Acquire Cons.IH [OF acquire_invar] Cons.prems by auto
  next
    case (Release s')
    then have "s' \<noteq> s" using Cons.prems by auto
    then have "held_by b (release s' l) = Some s"
      using Cons.prems by (simp add: release_holder)
    then show ?thesis
      using Release Cons.IH [OF release_invar] Cons.prems by auto
  qed
qed

lemma acquire_release:
  assumes "invar l" and "held_by b l = None" and "\<And>b'. held_by b' l \<noteq> Some s"
  shows "held_by b' (release s (snd (acquire b s l))) = held_by b' l"
  using assms by (auto simp: release_holder acquire_holder acquire_invar)

lemma release_frees: "invar l \<Longrightarrow> held_by b (release s l) \<noteq> Some s"
  by (simp add: release_holder)

lemma release_keeps:
  "invar l \<Longrightarrow> held_by b l = Some s' \<Longrightarrow> s' \<noteq> s \<Longrightarrow> held_by b (release s l) = Some s'"
  by (simp add: release_holder)

end

section \<open>The table\<close>

record lease_table =
  leases :: "(string, string) dict"

definition empty_leases :: lease_table where
  "empty_leases = \<lparr>leases = []\<rparr>"

definition acquire :: "string \<Rightarrow> string \<Rightarrow> lease_table \<Rightarrow> bool \<times> lease_table" where
  "acquire board_name session_id l =
     (if dict_mem board_name (leases l) then (False, l)
      else (True, l\<lparr>leases := dict_set board_name session_id (leases l)\<rparr>))"

definition release :: "string \<Rightarrow> lease_table \<Rightarrow> lease_table" where
  "release session_id l =
     (let to_remove = map fst (filter (\<lambda>p. snd p = session_id) (leases l))
      in l\<lparr>leases := foldl (\<lambda>d k. dict_pop k d) (leases l) to_remove\<rparr>)"

definition rebuild_from :: "agent_info list \<Rightarrow> lease_table \<Rightarrow> lease_table" where
  "rebuild_from sessions l =
     l\<lparr>leases := dict_of_list (map (\<lambda>s. (ai_board_name s, ai_session_id s)) sessions)\<rparr>"

definition held_by :: "string \<Rightarrow> lease_table \<Rightarrow> string option" where
  "held_by board_name l = dict_get (leases l) board_name"

definition wf_leases :: "lease_table \<Rightarrow> bool" where
  "wf_leases l \<longleftrightarrow> wf_dict (leases l)"

lemma dict_get_foldl_pop:
  "dict_get (foldl (\<lambda>d k. dict_pop k d) d ks) k = (if k \<in> set ks then None else dict_get d k)"
  by (induction ks arbitrary: d) auto

lemma wf_dict_foldl_pop [wf_intros]:
  "wf_dict d \<Longrightarrow> wf_dict (foldl (\<lambda>d k. dict_pop k d) d ks)"
  by (induction ks arbitrary: d) auto

lemma held_by_release:
  "wf_leases l \<Longrightarrow>
   held_by b (release s l) = (if held_by b l = Some s then None else held_by b l)"
proof -
  assume "wf_leases l"
  then have "b \<in> set (map fst (filter (\<lambda>p. snd p = s) (leases l))) \<longleftrightarrow> held_by b l = Some s"
    by (auto simp: held_by_def wf_leases_def dict_get_iff image_iff)
  then show ?thesis
    by (auto simp: release_def Let_def held_by_def dict_get_foldl_pop)
qed

interpretation lt: lease_iface acquire release held_by wf_leases
proof unfold_locales
  fix l :: lease_table and b b' s
  assume "wf_leases l"
  then show "wf_leases (snd (acquire b s l))" "wf_leases (release s l)"
    by (auto simp: wf_leases_def acquire_def release_def Let_def wf_dict_foldl_pop)
qed (auto simp: held_by_release acquire_def dict_mem_def,
  auto simp: held_by_def)

lemma wf_empty_leases [simp]: "wf_leases empty_leases"
  by (simp add: wf_leases_def empty_leases_def)

lemma wf_rebuild_from [simp]: "wf_leases (rebuild_from ss l)"
  by (simp add: wf_leases_def rebuild_from_def)

text \<open>A rebuild gives each board to the last listed session on it, and nothing to anyone else.\<close>

lemma held_by_rebuild:
  "held_by b (rebuild_from ss l) =
     map_option ai_session_id (find (\<lambda>s. ai_board_name s = b) (rev ss))"
proof -
  have "dict_get (map (\<lambda>s. (ai_board_name s, ai_session_id s)) xs) b =
      map_option ai_session_id (find (\<lambda>s. ai_board_name s = b) xs)" for xs
    by (induction xs) auto
  then show ?thesis
    by (simp add: held_by_def rebuild_from_def dict_get_of_list rev_map)
qed

lemma held_by_rebuild_distinct:
  assumes "distinct (map ai_board_name ss)" and "i \<in> set ss"
  shows "held_by (ai_board_name i) (rebuild_from ss l) = Some (ai_session_id i)"
  using assms
  by (simp add: held_by_rebuild find_distinct_key rev_map [symmetric])

section \<open>Property\<close>

text \<open>C5: The lease table is a partial map from boards to sessions. Any history of acquire and release
  calls on a new table leaves exactly what the abstract map gives: a board goes to the first session
  that asks while it is free, stays with it whatever others ask, and is freed only by its own holder's
  release, which frees all boards of that holder.\<close>

theorem lease_table_refines:
  "(\<lambda>b. held_by b (lease_ops acquire release os empty_leases)) = lease_spec os (\<lambda>b. None)"
proof -
  have "(\<lambda>b. held_by b empty_leases) = (\<lambda>b. None)" by (simp add: held_by_def empty_leases_def)
  then show ?thesis using lt.ops_refine [of empty_leases os] by simp
qed

end
