(* ===== verification/Registry.thy ===== *)
theory Registry
  imports Control_Models
begin

text \<open>
  The in-memory session registry (\<^verbatim>\<open>boardfarm3_control/registry.py\<close>): two dictionaries, the agent
  infos in registration order and the last-activity stamps. \<^verbatim>\<open>AgentInfo\<close> is frozen, so
  \<open>mark_dead\<close> replaces the entry. \<open>registry_iface\<close> states what the reaper and the teardown
  sequence rely on.
\<close>

section \<open>The interface\<close>

locale registry_iface =
  fixes add :: "agent_info \<Rightarrow> 'r \<Rightarrow> 'r"
    and remove :: "string \<Rightarrow> 'r \<Rightarrow> 'r"
    and get :: "string \<Rightarrow> 'r \<Rightarrow> agent_info option"
    and mark_dead :: "string \<Rightarrow> time \<Rightarrow> 'r \<Rightarrow> 'r"
    and invar :: "'r \<Rightarrow> bool"
  assumes get_add: "get k (add i r) = (if k = ai_session_id i then Some i else get k r)"
    and get_remove: "get k (remove s r) = (if k = s then None else get k r)"
    and get_mark_dead: "get k (mark_dead s t r) =
      (if k = s
       then map_option (\<lambda>i. i\<lparr>ai_state := ''dead'', ai_ended_at := Some t\<rparr>) (get k r)
       else get k r)"
    and add_invar: "invar r \<Longrightarrow> invar (add i r)"
    and remove_invar: "invar r \<Longrightarrow> invar (remove s r)"
    and mark_dead_invar: "invar r \<Longrightarrow> invar (mark_dead s t r)"

context registry_iface begin

lemma get_remove_all:
  "get k (foldl (\<lambda>r s. remove s r) r ss) = (if k \<in> set ss then None else get k r)"
  by (induction ss arbitrary: r) (auto simp: get_remove)

lemma remove_all_invar: "invar r \<Longrightarrow> invar (foldl (\<lambda>r s. remove s r) r ss)"
  by (induction ss arbitrary: r) (auto simp: remove_invar)

lemma mark_dead_not_live: "get s (mark_dead s t r) = Some i \<Longrightarrow> \<not> live i"
  by (auto simp: get_mark_dead live_def)

lemma mark_dead_keeps_identity:
  "get s (mark_dead s t r) = Some i \<Longrightarrow>
   \<exists>j. get s r = Some j \<and> ai_session_id i = ai_session_id j \<and> ai_board_name i = ai_board_name j"
  by (auto simp: get_mark_dead)

text \<open>Neither closing operation can make a session live, or bring one back.\<close>

lemma closing_shrinks_live:
  assumes "r' = remove s r \<or> r' = mark_dead s t r" and "get k r' = Some i" and "live i"
  shows "k \<noteq> s \<and> get k r = Some i"
  using assms by (auto simp: get_remove get_mark_dead live_def split: if_splits)

end

section \<open>The registry\<close>

record registry =
  reg_sessions :: "(string, agent_info) dict"
  reg_last_activity :: "(string, time) dict"

definition empty_registry :: registry where
  "empty_registry = \<lparr>reg_sessions = [], reg_last_activity = []\<rparr>"

definition reg_add :: "agent_info \<Rightarrow> registry \<Rightarrow> registry" where
  "reg_add info r = r\<lparr>reg_sessions := dict_set (ai_session_id info) info (reg_sessions r)\<rparr>"

definition reg_remove :: "string \<Rightarrow> registry \<Rightarrow> registry" where
  "reg_remove session_id r =
     r\<lparr>reg_sessions := dict_pop session_id (reg_sessions r),
       reg_last_activity := dict_pop session_id (reg_last_activity r)\<rparr>"

definition reg_get :: "string \<Rightarrow> registry \<Rightarrow> agent_info option" where
  "reg_get session_id r = dict_get (reg_sessions r) session_id"

definition reg_list_page :: "int \<Rightarrow> int \<Rightarrow> registry \<Rightarrow> agent_info list \<times> int" where
  "reg_list_page offset limit r =
     (let all_sessions = dict_values (reg_sessions r); total = int (length all_sessions)
      in (py_slice all_sessions offset (offset + limit), total))"

definition reg_touch :: "string \<Rightarrow> time \<Rightarrow> registry \<Rightarrow> registry" where
  "reg_touch session_id now r =
     r\<lparr>reg_last_activity := dict_set session_id now (reg_last_activity r)\<rparr>"

definition reg_last :: "string \<Rightarrow> registry \<Rightarrow> time option" where
  "reg_last session_id r = dict_get (reg_last_activity r) session_id"

definition reg_mark_dead :: "string \<Rightarrow> time \<Rightarrow> registry \<Rightarrow> registry" where
  "reg_mark_dead session_id ended r =
     (case dict_get (reg_sessions r) session_id of
        None \<Rightarrow> r
      | Some info \<Rightarrow>
          r\<lparr>reg_sessions :=
              dict_set session_id (info\<lparr>ai_state := ''dead'', ai_ended_at := Some ended\<rparr>)
                (reg_sessions r)\<rparr>)"

text \<open>\<^verbatim>\<open>rebuild\<close> after the launcher has listed its sessions.\<close>

definition reg_rebuild :: "agent_info list \<Rightarrow> registry \<Rightarrow> registry" where
  "reg_rebuild sessions r =
     r\<lparr>reg_sessions := dict_of_list (map (\<lambda>s. (ai_session_id s, s)) sessions),
       reg_last_activity := []\<rparr>"

text \<open>Keys are distinct, and every entry is filed under its own session id.\<close>

definition wf_registry :: "registry \<Rightarrow> bool" where
  "wf_registry r \<longleftrightarrow> wf_dict (reg_sessions r) \<and>
     (\<forall>p\<in>set (reg_sessions r). fst p = ai_session_id (snd p))"

lemma set_dict_set: "set (dict_set k v d) \<subseteq> insert (k, v) (set d)"
  by (induction d) auto

lemma set_dict_pop: "set (dict_pop k d) \<subseteq> set d"
  by (auto simp: AList.delete_eq)

interpretation rg: registry_iface reg_add reg_remove reg_get reg_mark_dead wf_registry
proof unfold_locales
  fix r :: registry and i s t
  assume r: "wf_registry r"
  show "wf_registry (reg_add i r)"
    using r set_dict_set [of "ai_session_id i" i "reg_sessions r"]
    by (auto simp: wf_registry_def reg_add_def)
  show "wf_registry (reg_remove s r)"
    using r set_dict_pop [of s "reg_sessions r"] by (auto simp: wf_registry_def reg_remove_def)
  show "wf_registry (reg_mark_dead s t r)"
  proof (cases "dict_get (reg_sessions r) s")
    case None
    then show ?thesis using r by (simp add: reg_mark_dead_def)
  next
    case (Some j)
    then have "ai_session_id j = s"
      using r by (auto simp: wf_registry_def dest!: map_of_SomeD)
    then show ?thesis
      using r Some set_dict_set [of s "j\<lparr>ai_state := ''dead'', ai_ended_at := Some t\<rparr>" "reg_sessions r"]
      by (auto simp: wf_registry_def reg_mark_dead_def)
  qed
qed (auto simp: reg_get_def reg_add_def reg_remove_def reg_mark_dead_def split: option.splits)

lemma reg_get_touch [simp]: "reg_get k (reg_touch s t r) = reg_get k r"
  by (simp add: reg_get_def reg_touch_def)

lemma wf_reg_touch [simp]: "wf_registry (reg_touch s t r) = wf_registry r"
  by (simp add: wf_registry_def reg_touch_def)

lemma wf_empty_registry [simp]: "wf_registry empty_registry"
  by (simp add: wf_registry_def empty_registry_def)

lemma set_foldl_dict_set:
  "set (foldl (\<lambda>d p. dict_set (fst p) (snd p) d) d ps) \<subseteq> set d \<union> set ps"
proof (induction ps arbitrary: d)
  case Nil
  then show ?case by simp
next
  case (Cons p ps)
  from Cons.IH [of "dict_set (fst p) (snd p) d"] set_dict_set [of "fst p" "snd p" d]
  show ?case by auto
qed

lemma set_dict_of_list: "set (dict_of_list ps) \<subseteq> set ps"
  using set_foldl_dict_set [of "[]" ps] by (simp add: dict_of_list_def)

lemma wf_reg_rebuild [simp]: "wf_registry (reg_rebuild ss r)"
  using set_dict_of_list [of "map (\<lambda>s. (ai_session_id s, s)) ss"]
  by (auto simp: wf_registry_def reg_rebuild_def)

lemma reg_get_rebuild:
  "reg_get k (reg_rebuild ss r) = find (\<lambda>s. ai_session_id s = k) (rev ss)"
proof -
  have "dict_get (map (\<lambda>s. (ai_session_id s, s)) xs) k = find (\<lambda>s. ai_session_id s = k) xs" for xs
    by (induction xs) auto
  then show ?thesis
    by (simp add: reg_get_def reg_rebuild_def dict_get_of_list rev_map)
qed

lemma reg_get_session_id: "wf_registry r \<Longrightarrow> reg_get k r = Some i \<Longrightarrow> ai_session_id i = k"
  by (auto simp: wf_registry_def reg_get_def dest!: map_of_SomeD)

lemma reg_values_get:
  "wf_registry r \<Longrightarrow> i \<in> set (dict_values (reg_sessions r)) \<longleftrightarrow> reg_get (ai_session_id i) r = Some i"
  by (force simp: wf_registry_def reg_get_def dict_get_iff)

lemma reg_page_subset:
  "wf_registry r \<Longrightarrow> i \<in> set (fst (reg_list_page off lm r)) \<Longrightarrow> reg_get (ai_session_id i) r = Some i"
  using set_py_slice [of "dict_values (reg_sessions r)" off "off + lm"]
  by (auto simp: reg_list_page_def Let_def reg_values_get [symmetric])

text \<open>Consecutive pages put together are one page of the combined size.\<close>

lemma reg_pages_append:
  "0 \<le> off \<Longrightarrow> 0 \<le> m \<Longrightarrow> 0 \<le> n \<Longrightarrow>
   fst (reg_list_page off m r) @ fst (reg_list_page (off + m) n r) = fst (reg_list_page off (m + n) r)"
proof -
  assume a: "0 \<le> off" "0 \<le> m" "0 \<le> n"
  then have "nat (off + m) = nat m + nat off" "nat (m + n) = nat m + nat n"
    by (simp_all add: nat_add_distrib)
  with a show ?thesis
    by (simp add: reg_list_page_def Let_def py_slice_nonneg take_add add.commute)
qed

end
