(* ===== verification/Diag_Store.thy ===== *)
theory Diag_Store
  imports Control_Models
begin

text \<open>
  The on-disk diagnostics store (\<^verbatim>\<open>boardfarm3_control/store.py\<close>). The tree below
  \<^verbatim>\<open><root>/sessions\<close> is a dictionary of session directories, each a dictionary from relative paths
  to files, plus stray files that belong to no session directory. A file is opaque bytes, or JSON
  text with its decoded value, or the torn remains of a failed write.

  Writing can fail. \<open>fs_env\<close> says, per session directory, how a write ends and whether
  \<^verbatim>\<open>shutil.rmtree(..., ignore_errors=True)\<close> manages to remove the directory; \<open>fs_json_size\<close> is the
  length in bytes of the text \<^verbatim>\<open>json.dumps(meta, indent=2)\<close> of a value.
\<close>

datatype sfile =
  Opaque bytes
| JsonText json nat
| Torn nat

fun file_size :: "sfile \<Rightarrow> nat" where
  "file_size (Opaque b) = length b"
| "file_size (JsonText _ n) = n"
| "file_size (Torn n) = n"

datatype write_outcome = WriteOk | MkdirFails | OpenFails | WriteFails nat

record fs_env =
  fs_write :: "string \<Rightarrow> write_outcome"
  fs_undeletable :: "string \<Rightarrow> bool"
  fs_json_size :: "json \<Rightarrow> nat"

type_synonym session_files = "(string, sfile) dict"

record store =
  st_root :: string
  st_dirs :: "(string, session_files) dict"
  st_stray :: "(string, sfile) dict"

section \<open>Paths\<close>

text \<open>\<^verbatim>\<open>root or Path(os.environ.get(...) or _DEFAULT_ROOT)\<close>: an empty setting counts as unset.\<close>

definition store_root :: "string option \<Rightarrow> string option \<Rightarrow> string" where
  "store_root root_arg env =
     (case root_arg of
        Some r \<Rightarrow> r
      | None \<Rightarrow> (case env of
            Some e \<Rightarrow> if e \<noteq> [] then e else ''/var/lib/boardfarm-control''
          | None \<Rightarrow> ''/var/lib/boardfarm-control''))"

definition init_store :: "string option \<Rightarrow> string option \<Rightarrow> store" where
  "init_store root_arg env = \<lparr>st_root = store_root root_arg env, st_dirs = [], st_stray = []\<rparr>"

definition session_dir :: "string \<Rightarrow> store \<Rightarrow> string" where
  "session_dir session_id st = st_root st @ ''/sessions/'' @ session_id"

definition bundle_path :: "string \<Rightarrow> store \<Rightarrow> string" where
  "bundle_path session_id st = session_dir session_id st @ ''/bundle.tar.gz''"

section \<open>Operations\<close>

definition session_entry :: "string \<Rightarrow> store \<Rightarrow> session_files" where
  "session_entry session_id st =
     (case dict_get (st_dirs st) session_id of None \<Rightarrow> [] | Some fs \<Rightarrow> fs)"

definition has_bundle :: "string \<Rightarrow> store \<Rightarrow> bool" where
  "has_bundle session_id st = dict_mem ''bundle.tar.gz'' (session_entry session_id st)"

definition put_file :: "string \<Rightarrow> string \<Rightarrow> sfile \<Rightarrow> store \<Rightarrow> store" where
  "put_file session_id name f st =
     st\<lparr>st_dirs := dict_set session_id (dict_set name f (session_entry session_id st)) (st_dirs st)\<rparr>"

definition mkdir_session :: "string \<Rightarrow> store \<Rightarrow> store" where
  "mkdir_session session_id st =
     st\<lparr>st_dirs := dict_set session_id (session_entry session_id st) (st_dirs st)\<rparr>"

text \<open>
  \<^verbatim>\<open>mkdir(parents=True, exist_ok=True)\<close> followed by opening and writing one file: the directory can
  be left behind without the file, and the file can be left torn.
\<close>

definition write_file ::
  "fs_env \<Rightarrow> string \<Rightarrow> string \<Rightarrow> sfile \<Rightarrow> store \<Rightarrow> (exc + unit) \<times> store" where
  "write_file fs session_id name f st =
     (case fs_write fs session_id of
        MkdirFails \<Rightarrow> (Inl (OSErr ''mkdir''), st)
      | OpenFails \<Rightarrow> (Inl (OSErr ''open''), mkdir_session session_id st)
      | WriteFails n \<Rightarrow> (Inl (OSErr ''write''), put_file session_id name (Torn n) st)
      | WriteOk \<Rightarrow> (Inr (), put_file session_id name f st))"

definition write_meta :: "fs_env \<Rightarrow> string \<Rightarrow> json \<Rightarrow> store \<Rightarrow> (exc + unit) \<times> store" where
  "write_meta fs session_id meta st =
     write_file fs session_id ''meta.json'' (JsonText meta (fs_json_size fs meta)) st"

definition read_meta :: "string \<Rightarrow> store \<Rightarrow> json option" where
  "read_meta session_id st =
     (case dict_get (session_entry session_id st) ''meta.json'' of
        Some (JsonText j _) \<Rightarrow> Some j
      | _ \<Rightarrow> None)"

definition write_bundle ::
  "fs_env \<Rightarrow> string \<Rightarrow> bytes list \<Rightarrow> store \<Rightarrow> (exc + nat) \<times> store" where
  "write_bundle fs session_id chunks st =
     (case write_file fs session_id ''bundle.tar.gz'' (Opaque (concat chunks)) st of
        (Inl e, st') \<Rightarrow> (Inl e, st')
      | (Inr _, st') \<Rightarrow> (Inr (foldl (\<lambda>written chunk. written + length chunk) 0 chunks), st'))"

definition store_sessions :: "store \<Rightarrow> string list" where
  "store_sessions st = dict_keys (st_dirs st)"

definition files_size :: "session_files \<Rightarrow> nat" where
  "files_size fs = sum_list (map (\<lambda>p. file_size (snd p)) fs)"

definition total_bytes :: "store \<Rightarrow> nat" where
  "total_bytes st =
     files_size (st_stray st) + sum_list (map (\<lambda>p. files_size (snd p)) (st_dirs st))"

definition store_delete :: "fs_env \<Rightarrow> string \<Rightarrow> store \<Rightarrow> store" where
  "store_delete fs session_id st =
     (if fs_undeletable fs session_id then st
      else st\<lparr>st_dirs := dict_pop session_id (st_dirs st)\<rparr>)"

text \<open>The metadata object the teardown and the snapshot handler write.\<close>

definition session_meta :: "string \<Rightarrow> agent_info \<Rightarrow> time \<Rightarrow> bool \<Rightarrow> string \<Rightarrow> json" where
  "session_meta session_id info ended retained source =
     JObj [(''session_id'', JStr session_id),
           (''board_name'', JStr (ai_board_name info)),
           (''runtime_profile'', JStr (ai_runtime_profile info)),
           (''created_at'', JReal (ai_created_at info)),
           (''ended_at'', JReal ended),
           (''retained'', JBool retained),
           (''bundle_source'', JStr source)]"

definition wf_store :: "store \<Rightarrow> bool" where
  "wf_store st \<longleftrightarrow> wf_dict (st_dirs st)"

section \<open>Facts\<close>

lemma session_entry_put [simp]:
  "session_entry k (put_file s n f st) =
     (if k = s then dict_set n f (session_entry s st) else session_entry k st)"
  by (simp add: session_entry_def put_file_def)

lemma session_entry_mkdir [simp]: "session_entry k (mkdir_session s st) = session_entry k st"
  by (simp add: session_entry_def mkdir_session_def split: option.splits)

lemma session_entry_delete:
  "session_entry k (store_delete fs s st) =
     (if k = s \<and> \<not> fs_undeletable fs s then [] else session_entry k st)"
  by (simp add: session_entry_def store_delete_def)

lemma wf_store_put [simp, wf_intros]: "wf_store st \<Longrightarrow> wf_store (put_file s n f st)"
  by (simp add: wf_store_def put_file_def)

lemma wf_store_mkdir [simp, wf_intros]: "wf_store st \<Longrightarrow> wf_store (mkdir_session s st)"
  by (simp add: wf_store_def mkdir_session_def)

lemma wf_store_delete [simp, wf_intros]: "wf_store st \<Longrightarrow> wf_store (store_delete fs s st)"
  by (simp add: wf_store_def store_delete_def)

lemma wf_store_write_file [wf_intros]: "wf_store st \<Longrightarrow> wf_store (snd (write_file fs s n f st))"
  by (simp add: write_file_def split: write_outcome.splits)

lemma snd_write_bundle: "snd (write_bundle fs s cs st) =
    snd (write_file fs s ''bundle.tar.gz'' (Opaque (concat cs)) st)"
  by (simp add: write_bundle_def split: prod.splits sum.splits)

lemma write_file_other:
  "k \<noteq> s \<Longrightarrow> session_entry k (snd (write_file fs s n f st)) = session_entry k st"
  by (simp add: write_file_def split: write_outcome.splits)

lemma write_bundle_other:
  "k \<noteq> s \<Longrightarrow> session_entry k (snd (write_bundle fs s cs st)) = session_entry k st"
  by (simp add: snd_write_bundle write_file_other)

lemma write_meta_other:
  "k \<noteq> s \<Longrightarrow> session_entry k (snd (write_meta fs s m st)) = session_entry k st"
  by (simp add: write_meta_def write_file_other)

lemma read_after_write_meta:
  "fst (write_meta fs s m st) = Inr () \<Longrightarrow> read_meta s (snd (write_meta fs s m st)) = Some m"
  by (auto simp: write_meta_def write_file_def read_meta_def split: write_outcome.splits)

lemma write_bundle_count:
  "fst (write_bundle fs s cs st) = Inr n \<Longrightarrow> n = length (concat cs)"
proof -
  have "foldl (\<lambda>w c. w + length c) k cs = k + length (concat cs)" for k
    by (induction cs arbitrary: k) auto
  then show "fst (write_bundle fs s cs st) = Inr n \<Longrightarrow> n = length (concat cs)"
    by (auto simp: write_bundle_def split: prod.splits sum.splits)
qed

lemma has_bundle_after_write:
  "fst (write_bundle fs s cs st) = Inr n \<Longrightarrow> has_bundle s (snd (write_bundle fs s cs st))"
  by (auto simp: write_bundle_def write_file_def has_bundle_def
      split: prod.splits sum.splits write_outcome.splits)

lemma total_bytes_delete:
  assumes "wf_store st" and "\<not> fs_undeletable fs s"
  shows "total_bytes (store_delete fs s st) + files_size (session_entry s st) = total_bytes st"
proof -
  have "sum_list (map (\<lambda>p. files_size (snd p)) (dict_pop s d)) +
      files_size (case dict_get d s of None \<Rightarrow> [] | Some fs \<Rightarrow> fs) =
      sum_list (map (\<lambda>p. files_size (snd p)) d)" if "wf_dict d" for d
    using that
  proof (induction d)
    case Nil
    then show ?case by (simp add: files_size_def)
  next
    case (Cons p d)
    show ?case
    proof (cases "fst p = s")
      case True
      then have "s \<notin> fst ` set d" using Cons.prems by (auto simp: wf_dict_def)
      then have "dict_pop s d = d" by (rule AList.delete_id)
      with True show ?thesis by (cases p) simp
    next
      case False
      with Cons show ?thesis by (cases p) (auto simp: wf_dict_def)
    qed
  qed
  with assms show ?thesis
    by (simp add: total_bytes_def store_delete_def session_entry_def wf_store_def)
qed

end
