(* ===== verification/Launchers.thy ===== *)
theory Launchers
  imports Diag_Store
begin

text \<open>
  Container lifecycle (\<^verbatim>\<open>boardfarm3_control/launcher.py\<close>). The \<^verbatim>\<open>Launcher\<close> protocol is a record of
  operations over a launcher state; the control plane is written against that record. The three
  launchers are three such records: \<open>fake_ops\<close>, \<open>process_ops\<close> and \<open>docker_ops\<close>.

  \<^verbatim>\<open>start\<close> of the process launcher writes into the diagnostics store and \<^verbatim>\<open>capture_logs\<close> reads it, so
  these two operations see the store. Clock readings are arguments. What the operating system and
  the Docker daemon answer is the \<open>os_env\<close> and the \<open>docker_client\<close> parameter.
\<close>

section \<open>The protocol\<close>

record 'l launcher_ops =
  l_start :: "time \<Rightarrow> string \<Rightarrow> string \<Rightarrow> string \<Rightarrow> string \<Rightarrow> (string, string) dict option
    \<Rightarrow> 'l \<times> store \<Rightarrow> (exc + agent_info) \<times> 'l \<times> store"
  l_stop :: "time \<Rightarrow> string \<Rightarrow> bool \<Rightarrow> 'l \<Rightarrow> (exc + unit) \<times> 'l"
  l_purge :: "string \<Rightarrow> 'l \<Rightarrow> (exc + unit) \<times> 'l"
  l_capture_logs :: "string \<Rightarrow> 'l \<times> store \<Rightarrow> (exc + bytes) \<times> 'l"
  l_capture_files :: "string \<Rightarrow> string \<Rightarrow> 'l \<Rightarrow> (exc + bytes) \<times> 'l"
  l_list_sessions :: "'l \<Rightarrow> (exc + agent_info list) \<times> 'l"

definition DEFAULT_ARTIFACT_ROOT :: string where
  "DEFAULT_ARTIFACT_ROOT = ''/var/log/boardfarm''"

text \<open>\<^verbatim>\<open>(agent_env or {}).get(...) or default\<close>: an empty override counts as none.\<close>

definition artifact_root :: "(string, string) dict option \<Rightarrow> string" where
  "artifact_root agent_env =
     (case agent_env of
        None \<Rightarrow> DEFAULT_ARTIFACT_ROOT
      | Some env \<Rightarrow> (case dict_get env ''BOARDFARM_ARTIFACT_DIR'' of
            None \<Rightarrow> DEFAULT_ARTIFACT_ROOT
          | Some d \<Rightarrow> if d = [] then DEFAULT_ARTIFACT_ROOT else d))"

text \<open>What every launcher promises about a started session.\<close>

definition started_as ::
  "string \<Rightarrow> string \<Rightarrow> string \<Rightarrow> (string, string) dict option \<Rightarrow> agent_info \<Rightarrow> bool" where
  "started_as sid board profile env i \<longleftrightarrow>
     ai_session_id i = sid \<and> ai_board_name i = board \<and> ai_runtime_profile i = profile \<and>
     live i \<and> ai_ended_at i = None \<and> ai_artifact_dir i = artifact_root env"

locale launcher_starts =
  fixes ops :: "'l launcher_ops"
  assumes start_info: "fst (l_start ops now sid board img profile env w) = Inr i \<Longrightarrow>
    started_as sid board profile env i"

context launcher_starts begin

lemma started_live: "fst (l_start ops now sid board img profile env w) = Inr i \<Longrightarrow> live i \<and> \<not> dead i"
  using start_info live_not_dead by (auto simp: started_as_def)

lemma started_identity:
  "fst (l_start ops now sid board img profile env w) = Inr i \<Longrightarrow>
   ai_session_id i = sid \<and> ai_board_name i = board"
  using start_info by (auto simp: started_as_def)

end

text \<open>What the launchers that keep their own session table promise about it.\<close>

locale launcher_table = launcher_starts ops for ops :: "'l launcher_ops" +
  fixes known :: "string \<Rightarrow> 'l \<Rightarrow> agent_info option"
  assumes known_start: "l_start ops now sid board img profile env (l, st) = (Inr i, l', st') \<Longrightarrow>
      known k l' = (if k = sid then Some i else known k l)"
    and known_stop: "l_stop ops now sid remove l = (Inr (), l') \<Longrightarrow>
      known k l' =
        (if k \<noteq> sid then known k l
         else if remove then None
         else map_option (\<lambda>i. i\<lparr>ai_state := ''dead'', ai_ended_at := Some now\<rparr>) (known sid l))"
    and known_stop_other: "k \<noteq> sid \<Longrightarrow> known k (snd (l_stop ops now sid remove l)) = known k l"
    and known_purge: "l_purge ops sid l = (Inr (), l') \<Longrightarrow>
      known k l' = (if k = sid then None else known k l)"

context launcher_table begin

text \<open>A retained session stays known, and known as dead; a removed one is forgotten.\<close>

lemma retained_is_dead:
  "l_stop ops now sid False l = (Inr (), l') \<Longrightarrow> known sid l' = Some i \<Longrightarrow>
   dead i \<and> ai_ended_at i = Some now"
  by (auto simp: known_stop dead_def)

lemma retain_then_purge:
  "l_stop ops now sid False l = (Inr (), l') \<Longrightarrow> l_purge ops sid l' = (Inr (), l'') \<Longrightarrow>
   known k l'' = (if k = sid then None else known k l)"
  by (simp add: known_stop known_purge)

lemma stop_preserves_others:
  "k \<noteq> sid \<Longrightarrow> known k l = Some i \<Longrightarrow> known k (snd (l_stop ops now sid remove l)) = Some i"
  by (simp add: known_stop_other)

end

section \<open>The in-memory launcher\<close>

record fake_launcher =
  fl_sessions :: "(string, agent_info) dict"
  fl_next_port :: int

definition fake_init :: fake_launcher where
  "fake_init = \<lparr>fl_sessions = [], fl_next_port = 18000\<rparr>"

definition fake_start ::
  "time \<Rightarrow> string \<Rightarrow> string \<Rightarrow> string \<Rightarrow> string \<Rightarrow> (string, string) dict option
   \<Rightarrow> fake_launcher \<times> store \<Rightarrow> (exc + agent_info) \<times> fake_launcher \<times> store" where
  "fake_start now session_id board_name img runtime_profile agent_env w =
     (let l = fst w; port = fl_next_port l;
          info = (agent_info_default session_id board_name runtime_profile
                    (''fake-'' @ session_id) port now)
                   \<lparr>ai_pid := None, ai_agent_url := ''http://localhost:'' @ int_str port,
                    ai_artifact_dir := artifact_root agent_env\<rparr>
      in (Inr info,
          l\<lparr>fl_next_port := port + 1, fl_sessions := dict_set session_id info (fl_sessions l)\<rparr>,
          snd w))"

definition fake_stop ::
  "time \<Rightarrow> string \<Rightarrow> bool \<Rightarrow> fake_launcher \<Rightarrow> (exc + unit) \<times> fake_launcher" where
  "fake_stop now session_id remove l =
     (if remove then (Inr (), l\<lparr>fl_sessions := dict_pop session_id (fl_sessions l)\<rparr>)
      else case dict_get (fl_sessions l) session_id of
          None \<Rightarrow> (Inr (), l)
        | Some info \<Rightarrow>
            (Inr (), l\<lparr>fl_sessions := dict_set session_id
               (info\<lparr>ai_state := ''dead'', ai_ended_at := Some now\<rparr>) (fl_sessions l)\<rparr>))"

definition fake_purge :: "string \<Rightarrow> fake_launcher \<Rightarrow> (exc + unit) \<times> fake_launcher" where
  "fake_purge session_id l = (Inr (), l\<lparr>fl_sessions := dict_pop session_id (fl_sessions l)\<rparr>)"

definition fake_capture_logs ::
  "string \<Rightarrow> fake_launcher \<times> store \<Rightarrow> (exc + bytes) \<times> fake_launcher" where
  "fake_capture_logs session_id w =
     (if \<not> dict_mem session_id (fl_sessions (fst w)) then (Inr [], fst w)
      else (Inr (''fake logs for '' @ session_id @ [CHR 0x0A]), fst w))"

definition fake_capture_files ::
  "string \<Rightarrow> string \<Rightarrow> fake_launcher \<Rightarrow> (exc + bytes) \<times> fake_launcher" where
  "fake_capture_files session_id path l =
     (if \<not> dict_mem session_id (fl_sessions l) then (Inr [], l)
      else (Inr (''fake tar of '' @ path @ '' for '' @ session_id), l))"

definition fake_list_sessions :: "fake_launcher \<Rightarrow> (exc + agent_info list) \<times> fake_launcher" where
  "fake_list_sessions l = (Inr (dict_values (fl_sessions l)), l)"

definition fake_ops :: "fake_launcher launcher_ops" where
  "fake_ops = \<lparr>l_start = fake_start, l_stop = fake_stop, l_purge = fake_purge,
     l_capture_logs = fake_capture_logs, l_capture_files = fake_capture_files,
     l_list_sessions = fake_list_sessions\<rparr>"

definition fake_known :: "string \<Rightarrow> fake_launcher \<Rightarrow> agent_info option" where
  "fake_known k l = dict_get (fl_sessions l) k"

interpretation fake: launcher_table fake_ops fake_known
  by unfold_locales
    (auto simp: fake_ops_def fake_start_def fake_stop_def fake_purge_def fake_known_def
      started_as_def agent_info_default_def live_def Let_def split: option.splits if_splits)

end
