(* ===== verification/Process_Launcher.thy ===== *)
theory Process_Launcher
  imports Launchers
begin

text \<open>
  \<^verbatim>\<open>ProcessLauncher\<close> of \<^verbatim>\<open>boardfarm3_control/launcher.py\<close>: agents as local subprocesses. The state
  holds the session table, the first-call flag, the persistent state file and the processes the
  operating system runs. \<open>os_env\<close> is what the operating system decides: the free port, the result
  of spawning, whether a signal may be sent, whether a process ends within the five seconds it is
  given after SIGTERM, whether the state file can be written, and what tarring a path yields.
\<close>

record os_env =
  oe_free_port :: int
  oe_environ :: "(string, string) dict"
  oe_spawn :: "(string, string) dict \<Rightarrow> exc + int"
  oe_terminate :: "int \<Rightarrow> exc option"
  oe_exits_on_term :: "int \<Rightarrow> bool"
  oe_permitted :: "int \<Rightarrow> bool"
  oe_state_writable :: bool
  oe_fs :: fs_env
  oe_tar :: "string \<Rightarrow> bytes option"

datatype state_file = NoFile | CorruptFile | Saved json

record proc_entry =
  pe_pid :: int
  pe_info :: agent_info
  pe_log_open :: bool

record process_launcher =
  pl_sessions :: "(string, proc_entry) dict"
  pl_started :: bool
  pl_state_file :: state_file
  pl_alive :: "int list"

section \<open>The state file\<close>

text \<open>\<^verbatim>\<open>AgentInfo.model_dump()\<close>.\<close>

definition agent_info_json :: "agent_info \<Rightarrow> json" where
  "agent_info_json i =
     JObj [(''session_id'', JStr (ai_session_id i)), (''board_name'', JStr (ai_board_name i)),
       (''runtime_profile'', JStr (ai_runtime_profile i)),
       (''container_id'', JStr (ai_container_id i)), (''host_port'', JInt (ai_host_port i)),
       (''created_at'', JReal (ai_created_at i)),
       (''pid'', case ai_pid i of None \<Rightarrow> JNull | Some p \<Rightarrow> JInt p),
       (''agent_url'', JStr (ai_agent_url i)), (''state'', JStr (ai_state i)),
       (''ended_at'', opt_time (ai_ended_at i)),
       (''artifact_dir'', JStr (ai_artifact_dir i))]"

text \<open>A failed write is logged and leaves the previous file in place (it goes through a
  temporary file and \<^verbatim>\<open>os.replace\<close>).\<close>

definition save_state :: "os_env \<Rightarrow> process_launcher \<Rightarrow> process_launcher" where
  "save_state os l =
     (if oe_state_writable os
      then l\<lparr>pl_state_file :=
        Saved (JObj (map (\<lambda>p. (fst p, agent_info_json (pe_info (snd p)))) (pl_sessions l)))\<rparr>
      else l)"

section \<open>Starting and stopping\<close>

definition process_start ::
  "os_env \<Rightarrow> time \<Rightarrow> string \<Rightarrow> string \<Rightarrow> string \<Rightarrow> string \<Rightarrow> (string, string) dict option
   \<Rightarrow> process_launcher \<times> store \<Rightarrow> (exc + agent_info) \<times> process_launcher \<times> store" where
  "process_start os now session_id board_name img runtime_profile agent_env w =
     (let l = fst w; st = snd w; host_port = oe_free_port os;
          meta = JObj [(''session_id'', JStr session_id), (''board_name'', JStr board_name),
                       (''runtime_profile'', JStr runtime_profile), (''created_at'', JReal now)];
          wrote = write_meta (oe_fs os) session_id meta st
      in case fs_write (oe_fs os) session_id of
           MkdirFails \<Rightarrow> (Inl (OSErr ''mkdir''), l, st)
         | OpenFails \<Rightarrow> (Inl (OSErr ''open''), l, snd wrote)
         | _ \<Rightarrow>
          (let st' = put_file session_id ''process.log'' (Opaque []) (snd wrote);
               env = dict_merge
                 (dict_merge (oe_environ os)
                   [(''BOARDFARM_SESSION_ID'', session_id), (''BOARDFARM_BOARD_NAME'', board_name),
                    (''BOARDFARM_AGENT_PORT'', int_str host_port)])
                 (case agent_env of None \<Rightarrow> [] | Some e \<Rightarrow> e)
           in case oe_spawn os env of
                Inl e \<Rightarrow> (Inl e, l, st')
              | Inr p \<Rightarrow>
                 (let info = (agent_info_default session_id board_name runtime_profile
                               (int_str p) host_port now)
                             \<lparr>ai_pid := Some p,
                              ai_agent_url := ''http://localhost:'' @ int_str host_port,
                              ai_artifact_dir := artifact_root agent_env\<rparr>;
                      l' = l\<lparr>pl_alive := p # pl_alive l,
                             pl_sessions := dict_set session_id
                               \<lparr>pe_pid = p, pe_info = info, pe_log_open = True\<rparr> (pl_sessions l)\<rparr>
                  in (Inr info, save_state os l', st'))))"

text \<open>
  SIGTERM, up to five seconds of waiting, then SIGKILL and another wait: either way the process is
  gone. \<^verbatim>\<open>terminate()\<close> itself raises when the process had already been reaped.
\<close>

definition end_process :: "os_env \<Rightarrow> int \<Rightarrow> int list \<Rightarrow> int list" where
  "end_process os p alive =
     (let after_term = (if oe_exits_on_term os p then removeAll p alive else alive)
      in if p \<in> set after_term then removeAll p after_term else after_term)"

definition process_stop ::
  "os_env \<Rightarrow> time \<Rightarrow> string \<Rightarrow> bool \<Rightarrow> process_launcher \<Rightarrow> (exc + unit) \<times> process_launcher" where
  "process_stop os now session_id remove l =
     (let popped = (if remove then l\<lparr>pl_sessions := dict_pop session_id (pl_sessions l)\<rparr> else l)
      in case dict_get (pl_sessions l) session_id of
           None \<Rightarrow> (Inr (), popped)
         | Some entry \<Rightarrow>
            (case oe_terminate os (pe_pid entry) of
               Some e \<Rightarrow> (Inl e, popped)
             | None \<Rightarrow>
                (let l1 = popped\<lparr>pl_alive := end_process os (pe_pid entry) (pl_alive popped)\<rparr>;
                     l2 = (if remove then l1
                           else l1\<lparr>pl_sessions := dict_set session_id
                             (entry\<lparr>pe_info := (pe_info entry)
                                \<lparr>ai_state := ''dead'', ai_ended_at := Some now\<rparr>,
                              pe_log_open := False\<rparr>) (pl_sessions l1)\<rparr>)
                 in (Inr (), save_state os l2))))"

definition process_purge ::
  "os_env \<Rightarrow> string \<Rightarrow> process_launcher \<Rightarrow> (exc + unit) \<times> process_launcher" where
  "process_purge os session_id l =
     (Inr (), save_state os (l\<lparr>pl_sessions := dict_pop session_id (pl_sessions l)\<rparr>))"

section \<open>Capturing\<close>

fun file_bytes :: "sfile \<Rightarrow> bytes" where
  "file_bytes (Opaque b) = b"
| "file_bytes _ = []"

definition process_capture_logs ::
  "string \<Rightarrow> process_launcher \<times> store \<Rightarrow> (exc + bytes) \<times> process_launcher" where
  "process_capture_logs session_id w =
     (case dict_get (session_entry session_id (snd w)) ''process.log'' of
        None \<Rightarrow> (Inr [], fst w)
      | Some f \<Rightarrow> (Inr (file_bytes f), fst w))"

text \<open>\<^verbatim>\<open>Path(p).name\<close>: the last component, empty and \<^verbatim>\<open>.\<close> components dropped.\<close>

definition path_name :: "string \<Rightarrow> string" where
  "path_name p =
     (let parts = filter (\<lambda>w. w \<noteq> [] \<and> w \<noteq> ''.'') (split_on (CHR 0x2F) p)
      in if parts = [] then [] else last parts)"

definition process_capture_files ::
  "os_env \<Rightarrow> string \<Rightarrow> string \<Rightarrow> process_launcher \<Rightarrow> (exc + bytes) \<times> process_launcher" where
  "process_capture_files os session_id path l =
     (if path_name path \<noteq> session_id then (Inr [], l)
      else case oe_tar os path of None \<Rightarrow> (Inr [], l) | Some b \<Rightarrow> (Inr b, l))"

section \<open>Listing, and the orphans of a previous run\<close>

text \<open>\<^verbatim>\<open>isinstance(pid, int)\<close>: a JSON boolean is an \<^verbatim>\<open>int\<close> in Python.\<close>

fun entry_pid :: "json \<Rightarrow> int option" where
  "entry_pid (JObj kvs) =
     (case dict_get kvs ''pid'' of
        Some (JInt p) \<Rightarrow> Some p
      | Some (JBool b) \<Rightarrow> Some (of_bool b)
      | _ \<Rightarrow> None)"
| "entry_pid _ = None"

definition reap_orphan :: "os_env \<Rightarrow> int list \<Rightarrow> json \<Rightarrow> int list" where
  "reap_orphan os alive entry =
     (case entry_pid entry of
        None \<Rightarrow> alive
      | Some p \<Rightarrow>
          if p \<notin> set alive \<or> \<not> oe_permitted os p then alive
          else end_process os p alive)"

definition cleanup_orphans :: "os_env \<Rightarrow> process_launcher \<Rightarrow> (exc + unit) \<times> process_launcher" where
  "cleanup_orphans os l =
     (case pl_state_file l of
        NoFile \<Rightarrow> (Inr (), l)
      | CorruptFile \<Rightarrow> (Inr (), l\<lparr>pl_state_file := NoFile\<rparr>)
      | Saved (JObj data) \<Rightarrow>
          (Inr (), save_state os
             (l\<lparr>pl_alive := foldl (reap_orphan os) (pl_alive l) (dict_values data)\<rparr>))
      | Saved _ \<Rightarrow> (Inl (AttributeErr ''values''), l))"

definition process_list_sessions ::
  "os_env \<Rightarrow> process_launcher \<Rightarrow> (exc + agent_info list) \<times> process_launcher" where
  "process_list_sessions os l =
     (let cleaned = (if pl_started l then (Inr (), l)
                     else cleanup_orphans os (l\<lparr>pl_started := True\<rparr>))
      in case cleaned of
           (Inl e, l') \<Rightarrow> (Inl e, l')
         | (Inr _, l') \<Rightarrow> (Inr (map (\<lambda>p. pe_info (snd p)) (pl_sessions l')), l'))"

definition process_ops :: "os_env \<Rightarrow> process_launcher launcher_ops" where
  "process_ops os = \<lparr>l_start = process_start os, l_stop = process_stop os,
     l_purge = process_purge os, l_capture_logs = process_capture_logs,
     l_capture_files = process_capture_files os, l_list_sessions = process_list_sessions os\<rparr>"

definition process_known :: "string \<Rightarrow> process_launcher \<Rightarrow> agent_info option" where
  "process_known k l = map_option pe_info (dict_get (pl_sessions l) k)"

section \<open>Facts\<close>

lemma save_state_fields [simp]:
  "pl_sessions (save_state os l) = pl_sessions l"
  "pl_alive (save_state os l) = pl_alive l"
  "pl_started (save_state os l) = pl_started l"
  by (simp_all add: save_state_def)

lemma set_end_process [simp]: "set (end_process os p alive) = set alive - {p}"
  by (auto simp: end_process_def Let_def)

interpretation proc: launcher_table "process_ops os" process_known for os
proof unfold_locales
  fix now sid board img profile env w i
  assume "fst (l_start (process_ops os) now sid board img profile env w) = Inr i"
  then show "started_as sid board profile env i"
    by (auto simp: process_ops_def process_start_def Let_def started_as_def
        agent_info_default_def live_def split: write_outcome.splits sum.splits)
qed (auto simp: process_ops_def process_start_def process_stop_def process_purge_def
      process_known_def Let_def split: write_outcome.splits sum.splits option.splits if_splits)

text \<open>After a stop that did not raise, the session's process is gone and no other one is.\<close>

lemma process_stop_alive:
  "process_stop os now sid rm l = (Inr (), l') \<Longrightarrow>
   set (pl_alive l') =
     (case dict_get (pl_sessions l) sid of
        None \<Rightarrow> set (pl_alive l) | Some e \<Rightarrow> set (pl_alive l) - {pe_pid e})"
  by (auto simp: process_stop_def Let_def split: option.splits if_splits)

lemma set_reap_orphan:
  "set (reap_orphan os alive e) = set alive - {p. oe_permitted os p \<and> entry_pid e = Some p}"
  by (auto simp: reap_orphan_def split: option.splits)

lemma set_reap_orphans:
  "set (foldl (reap_orphan os) alive es) =
     set alive - {p. oe_permitted os p \<and> (\<exists>e\<in>set es. entry_pid e = Some p)}"
  by (induction es arbitrary: alive) (auto simp: set_reap_orphan)

lemma path_name_snoc:
  assumes "CHR 0x2F \<notin> set s" and "s \<noteq> []" and "s \<noteq> ''.''"
  shows "path_name (d @ CHR 0x2F # s) = s"
proof -
  have "split_on (CHR 0x2F) (d @ CHR 0x2F # s) = split_on (CHR 0x2F) d @ [s]"
  proof (induction d)
    case Nil
    then show ?case using assms(1) by (simp add: split_on_single)
  next
    case (Cons x d)
    then show ?case by (cases "split_on (CHR 0x2F) d") auto
  qed
  then show ?thesis using assms(2,3) by (simp add: path_name_def)
qed

section \<open>Restarting the control plane\<close>

text \<open>A new launcher object on the same machine: only the state file and the processes remain.\<close>

definition restarted :: "process_launcher \<Rightarrow> process_launcher" where
  "restarted l = \<lparr>pl_sessions = [], pl_started = False, pl_state_file = pl_state_file l, pl_alive = pl_alive l\<rparr>"

text \<open>The table records the pid of every process it started.\<close>

definition pids_recorded :: "process_launcher \<Rightarrow> bool" where
  "pids_recorded l \<longleftrightarrow> (\<forall>p\<in>set (pl_sessions l). ai_pid (pe_info (snd p)) = Some (pe_pid (snd p)))"

lemma set_dict_set_subset: "set (dict_set k v d) \<subseteq> insert (k, v) (set d)"
  by (induction d) auto

lemma pids_recorded_save [simp]: "pids_recorded (save_state os l) = pids_recorded l"
  by (simp add: pids_recorded_def)

lemma pids_recorded_start:
  "process_start os now sid board img profile env (l, st) = (r, l', st') \<Longrightarrow> pids_recorded l \<Longrightarrow> pids_recorded l'"
  using set_dict_set_subset
  by (fastforce simp: process_start_def Let_def pids_recorded_def agent_info_default_def
      split: write_outcome.splits sum.splits)

lemma pids_recorded_stop:
  assumes "process_stop os now sid rm l = (r, l')" and "pids_recorded l"
  shows "pids_recorded l'"
proof -
  have "pids_recorded (l\<lparr>pl_sessions := dict_pop sid (pl_sessions l)\<rparr>)"
    using assms(2) by (auto simp: pids_recorded_def AList.delete_eq)
  moreover have "ai_pid (pe_info e) = Some (pe_pid e)" if "dict_get (pl_sessions l) sid = Some e" for e
    using that assms(2) by (auto simp: pids_recorded_def dest!: map_of_SomeD)
  ultimately show ?thesis
    using assms set_dict_set_subset
    by (fastforce simp: process_stop_def Let_def pids_recorded_def split: option.splits if_splits)
qed

lemma entry_pid_info: "entry_pid (agent_info_json i) = ai_pid i"
  by (simp add: agent_info_json_def split: option.splits)

section \<open>Properties\<close>

text \<open>No agent survives a restart unnoticed. After the launcher has saved its table, a control plane
  restarted on the same machine lists no session and has ended every process the table recorded (of
  those it may signal), retained ones included, and no other process.\<close>

theorem process_restart_reaps:
  assumes "pids_recorded l" and "oe_state_writable os" and "\<forall>p. oe_permitted os' p"
  shows "\<exists>l'. process_list_sessions os' (restarted (save_state os l)) = (Inr [], l') \<and>
    set (pl_alive l') = set (pl_alive l) - pe_pid ` snd ` set (pl_sessions l) \<and> pl_sessions l' = []"
proof -
  let ?es = "map (\<lambda>p. agent_info_json (pe_info (snd p))) (pl_sessions l)"
  have "{p. \<exists>e\<in>set ?es. entry_pid e = Some p} = pe_pid ` snd ` set (pl_sessions l)"
    using assms(1) by (force simp: entry_pid_info pids_recorded_def)
  moreover have "map snd (map (\<lambda>p. (fst p, agent_info_json (pe_info (snd p)))) (pl_sessions l)) = ?es"
    by simp
  ultimately show ?thesis
    using assms(2,3)
    by (simp add: process_list_sessions_def restarted_def save_state_def cleanup_orphans_def
        set_reap_orphans comp_def)
qed

definition demo_os :: os_env where
  "demo_os = \<lparr>oe_free_port = 5000, oe_environ = [], oe_spawn = (\<lambda>_. Inr 42), oe_terminate = (\<lambda>_. None),
     oe_exits_on_term = (\<lambda>p. p \<noteq> 42), oe_permitted = (\<lambda>_. True), oe_state_writable = True,
     oe_fs = \<lparr>fs_write = (\<lambda>_. WriteOk), fs_undeletable = (\<lambda>_. False), fs_json_size = (\<lambda>_. 2)\<rparr>,
     oe_tar = (\<lambda>p. Some ''tar'')\<rparr>"

definition demo_process :: process_launcher where
  "demo_process = \<lparr>pl_sessions = [(''s-1'', \<lparr>pe_pid = 42, pe_info =
       (agent_info_default ''s-1'' ''b1'' ''p'' ''42'' 5000 1)\<lparr>ai_pid := Some 42\<rparr>, pe_log_open = True\<rparr>)],
     pl_started = True, pl_state_file = NoFile, pl_alive = [42, 7]\<rparr>"

theorem process_restart_reaps_witness:
  "\<exists>l'. process_list_sessions demo_os (restarted (save_state demo_os demo_process)) = (Inr [], l') \<and>
    set (pl_alive l') = {7}"
  using process_restart_reaps [of demo_process demo_os demo_os]
  by (auto simp: pids_recorded_def demo_process_def demo_os_def agent_info_default_def)

text \<open>Capturing files is confined to the session: asked for the directory the teardown names, the
  artifact directory of the session under the artifact root, the launcher tars it; asked for another
  session's directory it returns nothing and reads nothing. (Session ids are non-empty names without a
  slash.)\<close>

theorem process_capture_confined:
  assumes "CHR 0x2F \<notin> set k" and "k \<noteq> []" and "k \<noteq> ''.''"
  shows "process_capture_files os sid (rstrip ''/'' d @ ''/'' @ k) l =
    (Inr (if k = sid then (case oe_tar os (rstrip ''/'' d @ ''/'' @ k) of None \<Rightarrow> [] | Some b \<Rightarrow> b) else []), l)"
proof -
  have "path_name (rstrip ''/'' d @ ''/'' @ k) = k"
    using path_name_snoc [OF assms] by simp
  then show ?thesis by (simp add: process_capture_files_def split: option.splits)
qed

theorem process_capture_confined_witness:
  "process_capture_files demo_os ''s-1'' (rstrip ''/'' ''/var/log/'' @ ''/'' @ ''s-2'') demo_process =
    (Inr [], demo_process)"
  using process_capture_confined [of "''s-2''" demo_os "''s-1''" "''/var/log/''" demo_process] by simp

end
