(* ===== verification/Docker_Launcher.thy ===== *)
theory Docker_Launcher
  imports Launchers
begin

text \<open>
  \<^verbatim>\<open>DockerLauncher\<close> of \<^verbatim>\<open>boardfarm3_control/launcher.py\<close>. The Docker daemon and docker-py are not
  part of the repository: \<open>docker_client\<close> is the daemon as the launcher sees it, over an arbitrary
  daemon state, together with the conversions of the Python runtime whose text format is not
  modelled (\<^verbatim>\<open>str(float)\<close>, \<^verbatim>\<open>float(str)\<close>, \<^verbatim>\<open>int(str)\<close>, \<^verbatim>\<open>datetime.fromisoformat(..).timestamp()\<close>).
  No law about the daemon is assumed anywhere in this theory.
\<close>

record container =
  ct_id :: string
  ct_labels :: "(string, string) dict"
  ct_status :: string
  ct_ports :: "(string, (string, string) dict list) dict"
  ct_finished_at :: string

record run_spec =
  rs_image :: string
  rs_ports :: "(string, int) dict"
  rs_labels :: "(string, string) dict"
  rs_environment :: "(string, string) dict"

record 'd docker_client =
  dc_run :: "run_spec \<Rightarrow> 'd \<Rightarrow> (exc + string) \<times> 'd"
  dc_list :: "string \<Rightarrow> 'd \<Rightarrow> (exc + container list) \<times> 'd"
  dc_stop :: "string \<Rightarrow> 'd \<Rightarrow> (exc + unit) \<times> 'd"
  dc_remove :: "string \<Rightarrow> bool \<Rightarrow> 'd \<Rightarrow> (exc + unit) \<times> 'd"
  dc_logs :: "string \<Rightarrow> 'd \<Rightarrow> (exc + bytes) \<times> 'd"
  dc_archive :: "string \<Rightarrow> string \<Rightarrow> 'd \<Rightarrow> (exc + bytes) \<times> 'd"
  dc_free_port :: int
  dc_float_str :: "time \<Rightarrow> string"
  dc_float :: "string \<Rightarrow> exc + time"
  dc_int :: "string \<Rightarrow> exc + int"
  dc_iso :: "string \<Rightarrow> time option"

section \<open>The end of a container\<close>

text \<open>
  \<^verbatim>\<open>_finished_at\<close>: the zero value means never stopped; nanoseconds are cut to the six digits
  \<^verbatim>\<open>fromisoformat\<close> accepts.
\<close>

definition finished_raw :: "string \<Rightarrow> string option" where
  "finished_raw raw =
     (if raw = [] \<or> startswith raw ''0001-01-01'' then None
      else if CHR ''.'' \<in> set raw then
        (let head = before_first (CHR ''.'') raw;
             fractional = rstrip ''Z'' (after_first (CHR ''.'') raw)
         in Some (head @ ''.'' @ take 6 fractional @ ''Z''))
      else Some raw)"

definition finished_at :: "(string \<Rightarrow> time option) \<Rightarrow> container \<Rightarrow> time option" where
  "finished_at fromiso c =
     (case finished_raw (ct_finished_at c) of None \<Rightarrow> None | Some raw \<Rightarrow> fromiso raw)"

section \<open>Operations\<close>

text \<open>The arguments of \<^verbatim>\<open>containers.run\<close>; the caller's environment wins over the three defaults.\<close>

definition docker_spec ::
  "'d docker_client \<Rightarrow> time \<Rightarrow> string \<Rightarrow> string \<Rightarrow> string \<Rightarrow> string \<Rightarrow> (string, string) dict option
   \<Rightarrow> run_spec" where
  "docker_spec dc created_at session_id board_name img runtime_profile agent_env =
     \<lparr>rs_image = img, rs_ports = [(''8000/tcp'', dc_free_port dc)],
      rs_labels = [(''boardfarm.session_id'', session_id),
        (''boardfarm.board_name'', board_name),
        (''boardfarm.runtime_profile'', runtime_profile),
        (''boardfarm.created_at'', dc_float_str dc created_at),
        (''boardfarm.artifact_dir'', artifact_root agent_env)],
      rs_environment = dict_merge
        [(''BOARDFARM_SESSION_ID'', session_id),
         (''BOARDFARM_BOARD_NAME'', board_name), (''BOARDFARM_AGENT_PORT'', ''8000'')]
        (case agent_env of None \<Rightarrow> [] | Some e \<Rightarrow> e)\<rparr>"

definition docker_start ::
  "'d docker_client \<Rightarrow> time \<Rightarrow> string \<Rightarrow> string \<Rightarrow> string \<Rightarrow> string \<Rightarrow> (string, string) dict option
   \<Rightarrow> 'd \<times> store \<Rightarrow> (exc + agent_info) \<times> 'd \<times> store" where
  "docker_start dc created_at session_id board_name img runtime_profile agent_env w =
     (let host_port = dc_free_port dc;
          spec = docker_spec dc created_at session_id board_name img runtime_profile agent_env
      in case dc_run dc spec (fst w) of
           (Inl e, d) \<Rightarrow> (Inl e, d, snd w)
         | (Inr cid, d) \<Rightarrow>
             (Inr ((agent_info_default session_id board_name runtime_profile cid host_port created_at)
                     \<lparr>ai_pid := None, ai_agent_url := ''http://localhost:'' @ int_str host_port,
                      ai_artifact_dir := artifact_root agent_env\<rparr>), d, snd w))"

definition docker_find :: "'d docker_client \<Rightarrow> string \<Rightarrow> 'd \<Rightarrow> (exc + container list) \<times> 'd" where
  "docker_find dc session_id d = dc_list dc (''boardfarm.session_id='' @ session_id) d"

fun stop_containers ::
  "'d docker_client \<Rightarrow> bool \<Rightarrow> container list \<Rightarrow> 'd \<Rightarrow> (exc + unit) \<times> 'd" where
  "stop_containers dc remove [] d = (Inr (), d)"
| "stop_containers dc remove (c # cs) d =
     (case dc_stop dc (ct_id c) d of
        (Inl e, d1) \<Rightarrow> (Inl e, d1)
      | (Inr _, d1) \<Rightarrow>
          (if remove
           then (case dc_remove dc (ct_id c) False d1 of
                   (Inl e, d2) \<Rightarrow> (Inl e, d2)
                 | (Inr _, d2) \<Rightarrow> stop_containers dc remove cs d2)
           else stop_containers dc remove cs d1))"

definition docker_stop ::
  "'d docker_client \<Rightarrow> time \<Rightarrow> string \<Rightarrow> bool \<Rightarrow> 'd \<Rightarrow> (exc + unit) \<times> 'd" where
  "docker_stop dc now session_id remove d =
     (case docker_find dc session_id d of
        (Inl e, d') \<Rightarrow> (Inl e, d')
      | (Inr cs, d') \<Rightarrow> stop_containers dc remove cs d')"

fun remove_containers :: "'d docker_client \<Rightarrow> container list \<Rightarrow> 'd \<Rightarrow> (exc + unit) \<times> 'd" where
  "remove_containers dc [] d = (Inr (), d)"
| "remove_containers dc (c # cs) d =
     (case dc_remove dc (ct_id c) True d of
        (Inl e, d') \<Rightarrow> (Inl e, d')
      | (Inr _, d') \<Rightarrow> remove_containers dc cs d')"

definition docker_purge :: "'d docker_client \<Rightarrow> string \<Rightarrow> 'd \<Rightarrow> (exc + unit) \<times> 'd" where
  "docker_purge dc session_id d =
     (case docker_find dc session_id d of
        (Inl e, d') \<Rightarrow> (Inl e, d')
      | (Inr cs, d') \<Rightarrow> remove_containers dc cs d')"

definition docker_capture_logs ::
  "'d docker_client \<Rightarrow> string \<Rightarrow> 'd \<times> store \<Rightarrow> (exc + bytes) \<times> 'd" where
  "docker_capture_logs dc session_id w =
     (case docker_find dc session_id (fst w) of
        (Inl e, d) \<Rightarrow> (Inl e, d)
      | (Inr [], d) \<Rightarrow> (Inr [], d)
      | (Inr (c # _), d) \<Rightarrow> dc_logs dc (ct_id c) d)"

definition docker_capture_files ::
  "'d docker_client \<Rightarrow> string \<Rightarrow> string \<Rightarrow> 'd \<Rightarrow> (exc + bytes) \<times> 'd" where
  "docker_capture_files dc session_id path d =
     (case docker_find dc session_id d of
        (Inl e, d') \<Rightarrow> (Inl e, d')
      | (Inr [], d') \<Rightarrow> (Inr [], d')
      | (Inr (c # _), d') \<Rightarrow>
          (case dc_archive dc (ct_id c) path d' of
             (Inl _, d'') \<Rightarrow> (Inr [], d'')
           | (Inr b, d'') \<Rightarrow> (Inr b, d'')))"

section \<open>Listing\<close>

definition container_port :: "'d docker_client \<Rightarrow> container \<Rightarrow> exc + int" where
  "container_port dc c =
     (let bindings = (case dict_get (ct_ports c) ''8000/tcp'' of None \<Rightarrow> [] | Some bs \<Rightarrow> bs);
          first = (if bindings = [] then [] else hd bindings)
      in case dict_get first ''HostPort'' of None \<Rightarrow> Inr 0 | Some s \<Rightarrow> dc_int dc s)"

definition label :: "string \<Rightarrow> container \<Rightarrow> exc + string" where
  "label k c = (case dict_get (ct_labels c) k of None \<Rightarrow> Inl (KeyErr k) | Some v \<Rightarrow> Inr v)"

definition container_info :: "'d docker_client \<Rightarrow> container \<Rightarrow> exc + agent_info" where
  "container_info dc c =
     (case container_port dc c of Inl e \<Rightarrow> Inl e | Inr port \<Rightarrow>
      case label ''boardfarm.session_id'' c of Inl e \<Rightarrow> Inl e | Inr sid \<Rightarrow>
      case label ''boardfarm.board_name'' c of Inl e \<Rightarrow> Inl e | Inr board \<Rightarrow>
      case label ''boardfarm.runtime_profile'' c of Inl e \<Rightarrow> Inl e | Inr profile \<Rightarrow>
      case (case dict_get (ct_labels c) ''boardfarm.created_at'' of
              None \<Rightarrow> Inr 0 | Some s \<Rightarrow> dc_float dc s) of Inl e \<Rightarrow> Inl e | Inr created \<Rightarrow>
      let running = (ct_status c = ''running'') in
      Inr \<lparr>ai_session_id = sid, ai_board_name = board, ai_runtime_profile = profile,
           ai_container_id = ct_id c, ai_host_port = port, ai_created_at = created, ai_pid = None,
           ai_agent_url = ''http://localhost:'' @ int_str port,
           ai_state = (if running then ''live'' else ''dead''),
           ai_ended_at = (if running then None else finished_at (dc_iso dc) c),
           ai_artifact_dir = (case dict_get (ct_labels c) ''boardfarm.artifact_dir'' of
             None \<Rightarrow> DEFAULT_ARTIFACT_ROOT | Some a \<Rightarrow> a)\<rparr>)"

fun container_infos :: "'d docker_client \<Rightarrow> container list \<Rightarrow> exc + agent_info list" where
  "container_infos dc [] = Inr []"
| "container_infos dc (c # cs) =
     (case container_info dc c of
        Inl e \<Rightarrow> Inl e
      | Inr i \<Rightarrow> (case container_infos dc cs of Inl e \<Rightarrow> Inl e | Inr is \<Rightarrow> Inr (i # is)))"

definition docker_list_sessions :: "'d docker_client \<Rightarrow> 'd \<Rightarrow> (exc + agent_info list) \<times> 'd" where
  "docker_list_sessions dc d =
     (case dc_list dc ''boardfarm.session_id'' d of
        (Inl e, d') \<Rightarrow> (Inl e, d')
      | (Inr cs, d') \<Rightarrow> (container_infos dc cs, d'))"

definition docker_ops :: "'d docker_client \<Rightarrow> 'd launcher_ops" where
  "docker_ops dc = \<lparr>l_start = docker_start dc, l_stop = docker_stop dc, l_purge = docker_purge dc,
     l_capture_logs = docker_capture_logs dc, l_capture_files = docker_capture_files dc,
     l_list_sessions = docker_list_sessions dc\<rparr>"

interpretation dock: launcher_starts "docker_ops dc" for dc
  by unfold_locales
    (auto simp: docker_ops_def docker_start_def started_as_def agent_info_default_def live_def
      Let_def split: sum.splits prod.splits)

section \<open>Facts\<close>

lemma container_info_state:
  "container_info dc c = Inr i \<Longrightarrow>
   (live i \<longleftrightarrow> ct_status c = ''running'') \<and> (dead i \<longleftrightarrow> ct_status c \<noteq> ''running'') \<and>
   (live i \<longrightarrow> ai_ended_at i = None)"
  by (auto simp: container_info_def Let_def live_def dead_def split: sum.splits if_splits)

lemma container_infos_map:
  "container_infos dc cs = Inr is \<Longrightarrow> list_all2 (\<lambda>c i. container_info dc c = Inr i) cs is"
  by (induction cs arbitrary: "is") (auto split: sum.splits)

text \<open>
  What a restart recovers: a running container that carries the labels of its start, the published
  port and an identifier lists as exactly the info its start returned, when the runtime reads back
  the numbers it printed.
\<close>

lemma docker_restart_roundtrip:
  assumes start: "docker_start dc created sid board img profile env (d, st) = (Inr i, d', st')"
    and ids: "ct_id c = ai_container_id i" "ct_status c = ''running''"
    and labels: "ct_labels c = rs_labels (docker_spec dc created sid board img profile env)"
    and port: "dict_get (ct_ports c) ''8000/tcp'' = Some (b # bs)"
      "dict_get b ''HostPort'' = Some p" "dc_int dc p = Inr (dc_free_port dc)"
    and stamp: "dc_float dc (dc_float_str dc created) = Inr created"
  shows "container_info dc c = Inr i"
  using start ids port stamp
  by (auto simp: docker_start_def Let_def container_info_def container_port_def label_def labels
      docker_spec_def agent_info_default_def split: prod.splits sum.splits)

lemma finished_raw_nanoseconds:
  assumes "\<not> startswith h ''0001-01-01''" and "CHR ''.'' \<notin> set h" and "10 \<le> length h"
    and "CHR ''Z'' \<notin> set f"
  shows "finished_raw (h @ ''.'' @ f @ ''Z'') = Some (h @ ''.'' @ take 6 f @ ''Z'')"
proof -
  let ?raw = "h @ ''.'' @ f @ ''Z''"
  have b: "before_first (CHR ''.'') ?raw = h"
    using assms(2) by (simp add: before_first_def takeWhile_append)
  have a: "after_first (CHR ''.'') ?raw = f @ ''Z''"
    using assms(2) by (simp add: after_first_def dropWhile_append)
  have r: "rstrip ''Z'' (f @ ''Z'') = f"
    using assms(4) by (cases f rule: rev_cases) (auto simp: rstrip_def)
  have "\<not> startswith ?raw ''0001-01-01''"
    using assms(1,3) by (simp add: startswith_def)
  with a b r show ?thesis by (simp add: finished_raw_def)
qed

end
