(* ===== verification/Proxy.thy ===== *)
theory Proxy
  imports Control_Models
begin

text \<open>
  The streaming reverse proxy (\<^verbatim>\<open>boardfarm3_control/proxy.py\<close>). httpx is a parameter: \<open>pc_build\<close>
  gives the headers of the request it builds, \<open>pc_send\<close> the answer to a request. An upstream body is
  the list of its chunks and how it ends, cleanly or with an exception. The result of proxying holds
  the chunks the client receives and whether the client connection was closed here.
\<close>

section \<open>Headers and paths\<close>

definition HOP_BY_HOP :: "string list" where
  "HOP_BY_HOP = [''connection'', ''keep-alive'', ''proxy-authenticate'', ''proxy-authorization'',
     ''te'', ''trailer'', ''transfer-encoding'', ''upgrade'']"

type_synonym headers = "(string, string) dict"

definition filter_headers :: "headers \<Rightarrow> headers" where
  "filter_headers hs = filter (\<lambda>p. lower (fst p) \<notin> set HOP_BY_HOP) hs"

definition is_streaming_path :: "string \<Rightarrow> bool" where
  "is_streaming_path path =
     (let clean = strip ''/'' (before_first (CHR ''?'') path)
      in endswith clean ''stream'' \<or> clean = ''diagnostics'' \<or> startswith clean ''diagnostics/'')"

text \<open>Reading a header by name, without regard to case.\<close>

definition header_get :: "string \<Rightarrow> headers \<Rightarrow> string option" where
  "header_get name hs = map_option snd (find (\<lambda>p. lower (fst p) = name) hs)"

record timeouts =
  to_connect :: time
  to_read :: "time option"
  to_write :: time
  to_pool :: time

definition timeout_for :: "num_env \<Rightarrow> string \<Rightarrow> exc + timeouts" where
  "timeout_for env path =
     (case env_float env ''BOARDFARM_PROXY_CONNECT_TIMEOUT'' 10 of
        Inl e \<Rightarrow> Inl e
      | Inr connect \<Rightarrow>
          (if is_streaming_path path
           then Inr \<lparr>to_connect = connect, to_read = None, to_write = 30, to_pool = 10\<rparr>
           else (case env_float env ''BOARDFARM_PROXY_READ_TIMEOUT'' 1800 of
                   Inl e \<Rightarrow> Inl e
                 | Inr read \<Rightarrow>
                     Inr \<lparr>to_connect = connect, to_read = Some read, to_write = 30, to_pool = 10\<rparr>)))"

section \<open>Forwarding the response\<close>

record upstream =
  up_status :: int
  up_headers :: headers
  up_chunks :: "bytes list"
  up_failure :: "exc option"

record forwarded =
  fw_chunks :: "bytes list"
  fw_raised :: "exc option"
  fw_client_closed :: bool

text \<open>\<^verbatim>\<open>json.dumps\<close> of the three-entry error object, and the SSE frame around it.\<close>

definition error_payload :: "string \<Rightarrow> string \<Rightarrow> string" where
  "error_payload message session_id =
     ''{'' @ json_str ''error'' @ '': '' @ json_str ''StreamInterrupted'' @ '', '' @
     json_str ''message'' @ '': '' @ json_str message @ '', '' @
     json_str ''session_id'' @ '': '' @ json_str session_id @ ''}''"

definition error_frame :: "string \<Rightarrow> string \<Rightarrow> bytes" where
  "error_frame message session_id =
     ''event: error'' @ [CHR 0x0A] @ ''data: '' @ error_payload message session_id @ [CHR 0x0A, CHR 0x0A]"

definition forward_stream :: "upstream \<Rightarrow> bool \<Rightarrow> string \<Rightarrow> bool \<Rightarrow> forwarded" where
  "forward_stream response is_sse session_id owns_client =
     (case up_failure response of
        None \<Rightarrow> \<lparr>fw_chunks = up_chunks response, fw_raised = None, fw_client_closed = owns_client\<rparr>
      | Some e \<Rightarrow>
          (if is_transport_error e
           then \<lparr>fw_chunks = up_chunks response @
                   (if is_sse then [error_frame (exc_msg e) session_id] else []),
                 fw_raised = None, fw_client_closed = owns_client\<rparr>
           else \<lparr>fw_chunks = up_chunks response, fw_raised = Some e,
                 fw_client_closed = owns_client\<rparr>))"

section \<open>Proxying a request\<close>

record in_request =
  rq_method :: string
  rq_path :: string
  rq_query :: string
  rq_headers :: headers
  rq_body :: bytes

record out_request =
  or_method :: string
  or_url :: string
  or_headers :: headers
  or_content :: bytes
  or_timeout :: timeouts

record proxy_client =
  pc_build :: "out_request \<Rightarrow> exc + headers"
  pc_send :: "out_request \<Rightarrow> exc + upstream"

record proxy_response =
  px_status :: int
  px_headers :: headers
  px_media_type :: "string option"
  px_body :: forwarded

definition client_or_default :: "proxy_client option \<Rightarrow> proxy_client \<Rightarrow> proxy_client \<times> bool" where
  "client_or_default client fresh =
     (case client of None \<Rightarrow> (fresh, True) | Some c \<Rightarrow> (c, False))"

definition proxy_url :: "in_request \<Rightarrow> string \<Rightarrow> string \<Rightarrow> string" where
  "proxy_url request agent_url path =
     (let url = agent_url @ ''/'' @ lstrip ''/'' path
      in if rq_query request \<noteq> [] then url @ ''?'' @ rq_query request else url)"

text \<open>The request as it is handed to httpx, and as it leaves.\<close>

definition upstream_request ::
  "in_request \<Rightarrow> string \<Rightarrow> string \<Rightarrow> bytes option \<Rightarrow> timeouts \<Rightarrow> out_request" where
  "upstream_request request agent_url path body t =
     \<lparr>or_method = rq_method request, or_url = proxy_url request agent_url path,
      or_headers =
        (let hs = filter_headers (rq_headers request)
         in if body \<noteq> None then dict_pop ''content-length'' hs else hs),
      or_content = (case body of None \<Rightarrow> rq_body request | Some b \<Rightarrow> b), or_timeout = t\<rparr>"

definition send_upstream ::
  "num_env \<Rightarrow> proxy_client \<Rightarrow> in_request \<Rightarrow> string \<Rightarrow> string \<Rightarrow> bytes option \<Rightarrow> exc + upstream" where
  "send_upstream env client request agent_url path body =
     (case timeout_for env path of Inl e \<Rightarrow> Inl e | Inr t \<Rightarrow>
      let up = upstream_request request agent_url path body t in
      case pc_build client up of Inl e \<Rightarrow> Inl e | Inr built \<Rightarrow>
      pc_send client (up\<lparr>or_headers := filter_headers built\<rparr>))"

text \<open>
  The second component is whether the client made for this call was closed before raising. Only
  \<^verbatim>\<open>ConnectError\<close> and \<^verbatim>\<open>TimeoutException\<close> become a 502.
\<close>

definition proxy_request ::
  "num_env \<Rightarrow> proxy_client \<Rightarrow> in_request \<Rightarrow> string \<Rightarrow> string \<Rightarrow> bytes option \<Rightarrow> proxy_client option
   \<Rightarrow> string \<Rightarrow> (failure \<times> bool) + proxy_response" where
  "proxy_request env fresh request agent_url path body client session_id =
     (let (c, owns_client) = client_or_default client fresh
      in case send_upstream env c request agent_url path body of
           Inl (ConnectError m) \<Rightarrow> Inl (HTTPExc 502 (JStr ''agent unreachable''), owns_client)
         | Inl (TimeoutException m) \<Rightarrow> Inl (HTTPExc 502 (JStr ''agent unreachable''), owns_client)
         | Inl e \<Rightarrow> Inl (Unhandled e, False)
         | Inr response \<Rightarrow>
            (let content_type = header_get ''content-type'' (up_headers response);
                 is_sse = (case content_type of None \<Rightarrow> False
                           | Some ct \<Rightarrow> str_in ''text/event-stream'' ct)
             in Inr \<lparr>px_status = up_status response,
                     px_headers = filter_headers (up_headers response),
                     px_media_type = content_type,
                     px_body = forward_stream response is_sse session_id owns_client\<rparr>))"

section \<open>Facts\<close>

lemma filter_headers_get:
  "dict_get (filter_headers hs) k =
     (if lower k \<in> set HOP_BY_HOP then None else dict_get hs k)"
  unfolding filter_headers_def
  by (rule dict_get_filter_key [where P = "\<lambda>k. lower k \<notin> set HOP_BY_HOP", THEN trans]) simp

lemma filter_headers_idem: "filter_headers (filter_headers hs) = filter_headers hs"
  by (simp add: filter_headers_def)

lemma filter_headers_clean: "p \<in> set (filter_headers hs) \<Longrightarrow> lower (fst p) \<notin> set HOP_BY_HOP"
  by (simp add: filter_headers_def)

lemma error_payload_one_line: "CHR 0x0A \<notin> set (error_payload m s)"
proof -
  have "CHR 0x0A \<notin> set (json_str x)" for x
    using json_str_printable [of "CHR 0x0A" x] by auto
  then show ?thesis by (simp add: error_payload_def)
qed

lemma proxy_request_owned:
  "proxy_request env fresh rq url path body (Some c) sid = Inl (f, cl) \<Longrightarrow> \<not> cl"
  by (auto simp: proxy_request_def client_or_default_def Let_def split: sum.splits exc.splits)

lemma proxy_request_sent:
  "proxy_request env fresh rq url path body client sid = Inr r \<Longrightarrow>
   \<exists>up. send_upstream env (fst (client_or_default client fresh)) rq url path body = Inr up \<and>
     px_status r = up_status up \<and> px_headers r = filter_headers (up_headers up)"
  by (auto simp: proxy_request_def Let_def split: sum.splits exc.splits prod.splits)

section \<open>Properties\<close>

definition hop_free :: "headers \<Rightarrow> bool" where
  "hop_free hs \<longleftrightarrow> (\<forall>p\<in>set hs. lower (fst p) \<notin> set HOP_BY_HOP)"

lemma filter_headers_hop_free [simp]: "hop_free (filter_headers hs)"
  by (simp add: hop_free_def filter_headers_def)

text \<open>C10: Hop-by-hop headers never cross the proxy, in either direction. Whatever headers the client
  sends and whatever httpx adds when it builds the request, the request that leaves carries none of
  them (a transport that refuses requests with such a header behaves the same), and neither does the
  response that is passed on.\<close>

theorem proxy_hop_by_hop:
  assumes "proxy_request env fresh rq url path body (Some c) sid = r"
  shows "proxy_request env fresh rq url path body
      (Some (c\<lparr>pc_send := (\<lambda>q. if hop_free (or_headers q) then pc_send c q else Inl (OtherExc ''hop''))\<rparr>)) sid = r \<and>
    (\<forall>resp. r = Inr resp \<longrightarrow> hop_free (px_headers resp))"
proof -
  let ?c = "c\<lparr>pc_send := (\<lambda>q. if hop_free (or_headers q) then pc_send c q else Inl (OtherExc ''hop''))\<rparr>"
  have "send_upstream env ?c rq url path body = send_upstream env c rq url path body"
    by (simp add: send_upstream_def Let_def split: sum.splits)
  then have "proxy_request env fresh rq url path body (Some ?c) sid =
      proxy_request env fresh rq url path body (Some c) sid"
    by (simp add: proxy_request_def client_or_default_def)
  moreover have "hop_free (px_headers resp)" if "r = Inr resp" for resp
    using proxy_request_sent [of env fresh rq url path body "Some c" sid resp] assms that by auto
  ultimately show ?thesis using assms by simp
qed

definition demo_upstream :: upstream where
  "demo_upstream = \<lparr>up_status = 200, up_headers = [(''Content-Type'', ''text/event-stream''),
     (''Transfer-Encoding'', ''chunked'')], up_chunks = [''data: 1''], up_failure = Some (OtherTransportError ''gone'')\<rparr>"

definition demo_stream_client :: proxy_client where
  "demo_stream_client = \<lparr>pc_build = (\<lambda>q. Inr ((''Connection'', ''keep-alive'') # or_headers q)),
     pc_send = (\<lambda>q. Inr demo_upstream)\<rparr>"

definition demo_in_request :: in_request where
  "demo_in_request = \<lparr>rq_method = ''GET'', rq_path = [], rq_query = [],
     rq_headers = [(''Connection'', ''close'')], rq_body = []\<rparr>"

theorem proxy_hop_by_hop_witness:
  "\<exists>resp. proxy_request (\<lambda>_. None) demo_stream_client demo_in_request ''http://a'' ''events/stream'' None
      (Some demo_stream_client) ''s-1'' = Inr resp \<and> hop_free (px_headers resp)"
proof -
  obtain resp where r: "proxy_request (\<lambda>_. None) demo_stream_client demo_in_request ''http://a''
      ''events/stream'' None (Some demo_stream_client) ''s-1'' = Inr resp"
    by (simp add: proxy_request_def send_upstream_def timeout_for_def env_float_def client_or_default_def
        demo_stream_client_def Let_def)
  show ?thesis using proxy_hop_by_hop [OF r] r by simp
qed

lemma error_frame_lines:
  "split_on (CHR 0x0A) (error_frame m sid) = [''event: error'', ''data: '' @ error_payload m sid, [], []]"
proof -
  define line where "line = ''data: '' @ error_payload m sid"
  have nl: "CHR 0x0A \<notin> set line" using error_payload_one_line by (simp add: line_def)
  have frame: "error_frame m sid = ''event: error'' @ CHR 0x0A # (line @ CHR 0x0A # [CHR 0x0A])"
    by (simp add: error_frame_def line_def)
  have "split_on (CHR 0x0A) (line @ CHR 0x0A # [CHR 0x0A]) = [line, [], []]"
    by (subst split_on_append [OF nl]) simp
  then show ?thesis
    unfolding frame line_def [symmetric] by (subst split_on_append) simp_all
qed

text \<open>A stream that breaks is closed for the client in an orderly way. Every chunk received before
  the failure is forwarded unchanged and in order; on a transport failure of an event stream exactly one
  well-formed error event (an event line, a data line, a blank line) is appended whatever the message
  and the session id contain, and on any other stream nothing is; only an exception outside the
  transport is raised; and the client connection is closed exactly when this call opened it.\<close>

theorem forward_stream_outcome:
  "fw_client_closed (forward_stream up sse sid owns) = owns \<and>
   (case up_failure up of
      None \<Rightarrow> fw_chunks (forward_stream up sse sid owns) = up_chunks up \<and>
              fw_raised (forward_stream up sse sid owns) = None
    | Some e \<Rightarrow>
        if is_transport_error e
        then fw_raised (forward_stream up sse sid owns) = None \<and>
          (\<exists>tail. fw_chunks (forward_stream up sse sid owns) = up_chunks up @ tail \<and>
             map (split_on (CHR 0x0A)) tail =
               (if sse then [[''event: error'', ''data: '' @ error_payload (exc_msg e) sid, [], []]] else []))
        else fw_raised (forward_stream up sse sid owns) = Some e \<and>
          fw_chunks (forward_stream up sse sid owns) = up_chunks up)"
  by (auto simp: forward_stream_def error_frame_lines split: option.splits)

end
