(* ===== verification/Teardown.thy ===== *)
theory Teardown
  imports Launchers Registry Lease
begin

text \<open>
  The one teardown sequence (\<^verbatim>\<open>boardfarm3_control/teardown.py\<close>), used by DELETE and by every failed
  session creation. The state is everything the control plane owns: launcher, registry, lease table
  and store. The agent behind an HTTP request, the filesystem and the tar.gz writer are parameters
  (\<open>ctl_env\<close>); the launcher is any record of operations.
\<close>

record 'l control =
  c_launcher :: 'l
  c_registry :: registry
  c_lease :: lease_table
  c_store :: store

record ctl_env =
  ce_http :: http_client
  ce_fs :: fs_env
  ce_tgz :: "(string \<times> bytes) list \<Rightarrow> bytes"

section \<open>Capturing diagnostics\<close>

text \<open>The members of the fallback archive; an empty payload gets no member.\<close>

definition launcher_bundle :: "((string \<times> bytes) list \<Rightarrow> bytes) \<Rightarrow> bytes \<Rightarrow> bytes \<Rightarrow> bytes" where
  "launcher_bundle tgz logs files =
     tgz (filter (\<lambda>p. snd p \<noteq> []) [(''docker.log'', logs), (''artifacts.tar'', files)])"

definition store_bundle ::
  "ctl_env \<Rightarrow> string \<Rightarrow> bytes list \<Rightarrow> string \<Rightarrow> 'l control \<Rightarrow> (exc + string) \<times> 'l control" where
  "store_bundle env session_id chunks source c =
     (case write_bundle (ce_fs env) session_id chunks (c_store c) of
        (Inl e, st) \<Rightarrow> (Inl e, c\<lparr>c_store := st\<rparr>)
      | (Inr _, st) \<Rightarrow> (Inr source, c\<lparr>c_store := st\<rparr>))"

text \<open>
  \<^verbatim>\<open>archive_bundle\<close>: the agent first, then what the launcher can capture. The fallback is taken on
  an HTTP error or an invalid URL; any other exception escapes.
\<close>

definition archive_bundle ::
  "'l launcher_ops \<Rightarrow> ctl_env \<Rightarrow> string \<Rightarrow> string \<Rightarrow> string \<Rightarrow> 'l control
   \<Rightarrow> (exc + string) \<times> 'l control" where
  "archive_bundle ops env session_id agent_url artifact_dir c =
     (case (case ce_http env (HGet (agent_url @ ''/diagnostics/bundle'')) of
              Inl e \<Rightarrow> Inl e | Inr r \<Rightarrow> raise_for_status r) of
        Inr r \<Rightarrow> store_bundle env session_id [hr_content r] ''agent'' c
      | Inl e \<Rightarrow>
         (if \<not> (is_http_error e \<or> is_invalid_url e) then (Inl e, c)
          else case l_capture_logs ops session_id (c_launcher c, c_store c) of
             (Inl e', l) \<Rightarrow> (Inl e', c\<lparr>c_launcher := l\<rparr>)
           | (Inr logs, l) \<Rightarrow>
              (case l_capture_files ops session_id
                      (rstrip ''/'' artifact_dir @ ''/'' @ session_id) l of
                 (Inl e', l') \<Rightarrow> (Inl e', c\<lparr>c_launcher := l'\<rparr>)
               | (Inr files, l') \<Rightarrow>
                  (let c' = c\<lparr>c_launcher := l'\<rparr>
                   in if logs = [] \<and> files = [] then (Inr ''none'', c')
                      else store_bundle env session_id
                             [launcher_bundle (ce_tgz env) logs files] ''launcher'' c'))))"

section \<open>The sequence\<close>

text \<open>
  Step 1 swallows every exception. Writing the metadata is outside its \<^verbatim>\<open>try\<close>. Step 2 swallows HTTP
  errors only. Steps 3 to 5 run together: whatever \<^verbatim>\<open>stop\<close> does, the lease is released, and the
  session is then kept as dead or forgotten.
\<close>

definition capture_step ::
  "'l launcher_ops \<Rightarrow> ctl_env \<Rightarrow> string \<Rightarrow> agent_info \<Rightarrow> 'l control \<Rightarrow> string \<times> 'l control" where
  "capture_step ops env session_id info c =
     (case archive_bundle ops env session_id (ai_agent_url info) (ai_artifact_dir info) c of
        (Inl _, c') \<Rightarrow> (''none'', c')
      | (Inr source, c') \<Rightarrow> (source, c'))"

definition close_books :: "time \<Rightarrow> string \<Rightarrow> bool \<Rightarrow> bool \<Rightarrow> 'l control \<Rightarrow> 'l control" where
  "close_books ended_at session_id retain stop_failed c =
     c\<lparr>c_lease := release session_id (c_lease c),
       c_registry :=
         (if retain \<or> stop_failed then reg_mark_dead session_id ended_at (c_registry c)
          else reg_remove session_id (c_registry c))\<rparr>"

definition closing_step ::
  "'l launcher_ops \<Rightarrow> time \<Rightarrow> time \<Rightarrow> string \<Rightarrow> bool \<Rightarrow> 'l control \<Rightarrow> 'l control" where
  "closing_step ops ended_at now session_id retain c =
     (let stopped = l_stop ops now session_id (\<not> retain) (c_launcher c);
          stop_failed = (case fst stopped of Inl _ \<Rightarrow> True | Inr _ \<Rightarrow> False)
      in close_books ended_at session_id retain stop_failed (c\<lparr>c_launcher := snd stopped\<rparr>))"

definition teardown_session ::
  "'l launcher_ops \<Rightarrow> ctl_env \<Rightarrow> time \<Rightarrow> time \<Rightarrow> string \<Rightarrow> agent_info \<Rightarrow> bool \<Rightarrow> 'l control
   \<Rightarrow> (exc + unit) \<times> 'l control" where
  "teardown_session ops env ended_at now session_id info retain c =
     (let (source, c1) = capture_step ops env session_id info c
      in case write_meta (ce_fs env) session_id
                (session_meta session_id info ended_at retain source) (c_store c1) of
           (Inl e, st) \<Rightarrow> (Inl e, c1\<lparr>c_store := st\<rparr>)
         | (Inr _, st) \<Rightarrow>
            (let c2 = c1\<lparr>c_store := st\<rparr>
             in case ce_http env (HDelete (ai_agent_url info @ ''/session'')) of
                  Inl e \<Rightarrow>
                   (if is_http_error e
                    then (Inr (), closing_step ops ended_at now session_id retain c2)
                    else (Inl e, c2))
                | Inr _ \<Rightarrow> (Inr (), closing_step ops ended_at now session_id retain c2)))"

section \<open>Facts\<close>

lemma store_bundle_frame:
  "store_bundle env sid cs src c = (r, c') \<Longrightarrow>
   c_registry c' = c_registry c \<and> c_lease c' = c_lease c \<and>
   (\<forall>k. k \<noteq> sid \<longrightarrow> session_entry k (c_store c') = session_entry k (c_store c))"
proof -
  assume s: "store_bundle env sid cs src c = (r, c')"
  have "c_store c' = snd (write_bundle (ce_fs env) sid cs (c_store c))"
    and "c_registry c' = c_registry c \<and> c_lease c' = c_lease c"
    using s by (auto simp: store_bundle_def split: prod.splits sum.splits)
  then show ?thesis by (simp add: write_bundle_other)
qed

lemma store_bundle_stored:
  "store_bundle env sid cs src c = (Inr source, c') \<Longrightarrow>
   source = src \<and> has_bundle sid (c_store c')"
proof -
  assume s: "store_bundle env sid cs src c = (Inr source, c')"
  then obtain n st where w: "write_bundle (ce_fs env) sid cs (c_store c) = (Inr n, st)"
    and "source = src" and "c' = c\<lparr>c_store := st\<rparr>"
    by (auto simp: store_bundle_def split: prod.splits sum.splits)
  moreover have "has_bundle sid st"
    using has_bundle_after_write [of "ce_fs env" sid cs "c_store c" n] w by simp
  ultimately show ?thesis by simp
qed

lemma archive_bundle_frame:
  "archive_bundle ops env sid url dir c = (r, c') \<Longrightarrow>
   c_registry c' = c_registry c \<and> c_lease c' = c_lease c \<and>
   (\<forall>k. k \<noteq> sid \<longrightarrow> session_entry k (c_store c') = session_entry k (c_store c))"
  by (auto simp: archive_bundle_def Let_def dest!: store_bundle_frame
      split: sum.splits prod.splits if_splits)

text \<open>Whatever tier answers, the store then has a bundle; \<open>none\<close> means nothing was stored.\<close>

lemma archive_bundle_source:
  "archive_bundle ops env sid url dir c = (Inr source, c') \<Longrightarrow>
   (source = ''none'' \<and> c_store c' = c_store c) \<or>
   (source \<in> {''agent'', ''launcher''} \<and> has_bundle sid (c_store c'))"
  by (auto simp: archive_bundle_def Let_def dest!: store_bundle_stored
      split: sum.splits prod.splits if_splits)

lemma capture_step_frame:
  "capture_step ops env sid info c = (source, c') \<Longrightarrow>
   c_registry c' = c_registry c \<and> c_lease c' = c_lease c"
  by (auto simp: capture_step_def dest!: archive_bundle_frame split: sum.splits prod.splits)

lemma close_books_fields [simp]:
  "c_lease (close_books e sid retain failed c) = release sid (c_lease c)"
  "c_store (close_books e sid retain failed c) = c_store c"
  "c_launcher (close_books e sid retain failed c) = c_launcher c"
  "reg_get sid (c_registry (close_books e sid retain failed c)) =
     (if retain \<or> failed
      then map_option (\<lambda>i. i\<lparr>ai_state := ''dead'', ai_ended_at := Some e\<rparr>) (reg_get sid (c_registry c))
      else None)"
  by (simp_all add: close_books_def rg.get_remove rg.get_mark_dead)

lemma close_books_registry:
  "c_registry (close_books e sid retain failed c) = reg_remove sid (c_registry c) \<or>
   c_registry (close_books e sid retain failed c) = reg_mark_dead sid e (c_registry c)"
  by (simp add: close_books_def)

lemma closing_step_fields [simp]:
  "c_lease (closing_step ops e now sid retain c) = release sid (c_lease c)"
  "c_store (closing_step ops e now sid retain c) = c_store c"
  by (simp_all add: closing_step_def Let_def)

lemma closing_step_registry:
  "c_registry (closing_step ops e now sid retain c) = reg_remove sid (c_registry c) \<or>
   c_registry (closing_step ops e now sid retain c) = reg_mark_dead sid e (c_registry c)"
  using close_books_registry [of e sid retain _
      "c\<lparr>c_launcher := snd (l_stop ops now sid (\<not> retain) (c_launcher c))\<rparr>"]
  by (simp add: closing_step_def Let_def)

lemma teardown_cases:
  assumes "teardown_session ops env e now sid info retain c = (r, c')"
  obtains (closed) c2 where "r = Inr ()" and "c' = closing_step ops e now sid retain c2"
      and "c_registry c2 = c_registry c" and "c_lease c2 = c_lease c"
    | (escaped) x where "r = Inl x" and "c_registry c' = c_registry c" and "c_lease c' = c_lease c"
  using assms
  by (auto simp: teardown_session_def Let_def dest!: capture_step_frame
      split: sum.splits prod.splits if_splits)

lemma teardown_completes:
  assumes "fs_write (ce_fs env) sid = WriteOk"
    and "\<And>x. ce_http env (HDelete (ai_agent_url info @ ''/session'')) = Inl x \<Longrightarrow> is_http_error x"
  shows "fst (teardown_session ops env e now sid info retain c) = Inr ()"
  using assms
  by (auto simp: teardown_session_def Let_def write_meta_def write_file_def
      split: sum.splits prod.splits)

lemma teardown_escape_when_unwritable:
  assumes "fs_write (ce_fs env) sid \<noteq> WriteOk"
  shows "\<exists>m c'. teardown_session ops env e now sid info retain c = (Inl (OSErr m), c') \<and>
    c_lease c' = c_lease c \<and> c_registry c' = c_registry c"
proof -
  obtain source c1 where s: "capture_step ops env sid info c = (source, c1)"
    by (cases "capture_step ops env sid info c")
  from capture_step_frame [OF s] s assms show ?thesis
    by (auto simp: teardown_session_def Let_def write_meta_def write_file_def
        split: write_outcome.splits)
qed

lemma teardown_released:
  assumes "teardown_session ops env e now sid info retain c = (Inr (), c')"
    and "wf_leases (c_lease c)"
  shows "held_by b (c_lease c') = (if held_by b (c_lease c) = Some sid then None else held_by b (c_lease c))"
  using assms(1)
  by (rule teardown_cases) (use assms(2) in \<open>auto simp: lt.release_holder\<close>)

lemma teardown_registry_other:
  assumes "teardown_session ops env e now sid info retain c = (r, c')" and "k \<noteq> sid"
  shows "reg_get k (c_registry c') = reg_get k (c_registry c)"
  using assms(1)
proof (cases rule: teardown_cases)
  case (closed c2)
  then show ?thesis
    using closing_step_registry [of ops e now sid retain c2] assms(2)
    by (auto simp: rg.get_remove rg.get_mark_dead)
qed simp

lemma teardown_not_live:
  assumes "teardown_session ops env e now sid info retain c = (Inr (), c')"
    and "reg_get sid (c_registry c') = Some i"
  shows "dead i \<and> ai_ended_at i = Some e"
  using assms(1)
proof (cases rule: teardown_cases)
  case (closed c2)
  then show ?thesis
    using closing_step_registry [of ops e now sid retain c2] assms(2)
    by (auto simp: rg.get_remove rg.get_mark_dead dead_def)
qed simp

end
