(* ===== verification/Reaper.thy ===== *)
theory Reaper
  imports Launchers Registry "HOL-Library.Char_ord" "HOL-Library.List_Lexorder"
    "HOL-Library.Product_Lexorder"
begin

text \<open>
  The background reaper (\<^verbatim>\<open>boardfarm3_control/reaper.py\<close>): purge dead containers past their time
  to live, delete aged bundles, evict bundles oldest first while the store is over its cap. The
  eviction loop is written over the two store operations it uses, and its accounting is proved once
  for any store that keeps the byte laws of \<open>byte_store\<close>.

  \<open>reap_env\<close> holds the environment variables, as numbers or as the \<^verbatim>\<open>ValueError\<close> their conversion
  raises, the conversion \<^verbatim>\<open>float(str)\<close> for a time stamp stored as text, and the filesystem.
\<close>

record reap_env =
  re_num :: num_env
  re_int :: "string \<Rightarrow> (exc + int) option"
  re_float :: "string \<Rightarrow> exc + time"
  re_fs :: fs_env

section \<open>Dead containers\<close>

fun reap_corpses_loop ::
  "'l launcher_ops \<Rightarrow> time \<Rightarrow> time \<Rightarrow> agent_info list \<Rightarrow> nat \<Rightarrow> 'l \<times> registry
   \<Rightarrow> (exc + nat) \<times> 'l \<times> registry" where
  "reap_corpses_loop ops now ttl [] n s = (Inr n, s)"
| "reap_corpses_loop ops now ttl (info # page) n s =
     (if ai_state info \<noteq> ''dead'' \<or> ai_ended_at info = None then reap_corpses_loop ops now ttl page n s
      else if now - the (ai_ended_at info) \<le> ttl then reap_corpses_loop ops now ttl page n s
      else case l_purge ops (ai_session_id info) (fst s) of
          (Inl e, l) \<Rightarrow> (Inl e, l, snd s)
        | (Inr _, l) \<Rightarrow>
            reap_corpses_loop ops now ttl page (Suc n) (l, reg_remove (ai_session_id info) (snd s)))"

definition reap_corpses ::
  "'l launcher_ops \<Rightarrow> time \<Rightarrow> time \<Rightarrow> 'l \<times> registry \<Rightarrow> (exc + nat) \<times> 'l \<times> registry" where
  "reap_corpses ops now corpse_ttl s =
     reap_corpses_loop ops now corpse_ttl (fst (reg_list_page 0 10000 (snd s))) 0 s"

section \<open>Aged bundles\<close>

text \<open>The size of a session directory, zero when there is none.\<close>

definition session_bytes :: "store \<Rightarrow> string \<Rightarrow> nat" where
  "session_bytes st session_id =
     (case dict_get (st_dirs st) session_id of None \<Rightarrow> 0 | Some fs \<Rightarrow> files_size fs)"

text \<open>\<^verbatim>\<open>float(value)\<close> of a decoded JSON value that is not null.\<close>

fun float_of :: "(string \<Rightarrow> exc + time) \<Rightarrow> json \<Rightarrow> exc + time" where
  "float_of fl (JInt i) = Inr (of_int i)"
| "float_of fl (JReal r) = Inr r"
| "float_of fl (JBool b) = Inr (of_bool b)"
| "float_of fl (JStr s) = fl s"
| "float_of fl _ = Inl (TypeErr ''float'')"

text \<open>
  \<^verbatim>\<open>(store.read_meta(sid) or {}).get("ended_at")\<close>, converted: absent metadata, falsy metadata, a
  missing key and a null all mean not eligible.
\<close>

definition meta_ended_at :: "reap_env \<Rightarrow> string \<Rightarrow> store \<Rightarrow> exc + time option" where
  "meta_ended_at env session_id st =
     (let meta = (case read_meta session_id st of
                    None \<Rightarrow> JObj [] | Some j \<Rightarrow> if truthy j then j else JObj [])
      in case json_get ''ended_at'' JNull meta of
           Inl e \<Rightarrow> Inl e
         | Inr JNull \<Rightarrow> Inr None
         | Inr v \<Rightarrow> (case float_of (re_float env) v of Inl e \<Rightarrow> Inl e | Inr t \<Rightarrow> Inr (Some t)))"

record sweep =
  sw_bundles :: nat
  sw_bytes :: nat
  sw_remaining :: "(time \<times> string) list"

fun reap_aged_loop ::
  "reap_env \<Rightarrow> registry \<Rightarrow> time \<Rightarrow> time \<Rightarrow> string list \<Rightarrow> sweep \<Rightarrow> store \<Rightarrow> (exc + sweep) \<times> store" where
  "reap_aged_loop env reg now ttl [] acc st = (Inr acc, st)"
| "reap_aged_loop env reg now ttl (sid # sids) acc st =
     (if (case reg_get sid reg of None \<Rightarrow> False | Some info \<Rightarrow> ai_state info = ''live'')
      then reap_aged_loop env reg now ttl sids acc st
      else case meta_ended_at env sid st of
          Inl e \<Rightarrow> (Inl e, st)
        | Inr None \<Rightarrow> reap_aged_loop env reg now ttl sids acc st
        | Inr (Some ended) \<Rightarrow>
            (if now - ended > ttl
             then reap_aged_loop env reg now ttl sids
                    (acc\<lparr>sw_bundles := sw_bundles acc + 1,
                         sw_bytes := sw_bytes acc + session_bytes st sid\<rparr>)
                    (store_delete (re_fs env) sid st)
             else reap_aged_loop env reg now ttl sids
                    (acc\<lparr>sw_remaining := sw_remaining acc @ [(ended, sid)]\<rparr>) st))"

definition reap_aged_bundles ::
  "reap_env \<Rightarrow> registry \<Rightarrow> time \<Rightarrow> time \<Rightarrow> store \<Rightarrow> (exc + sweep) \<times> store" where
  "reap_aged_bundles env reg now bundle_ttl st =
     reap_aged_loop env reg now bundle_ttl (store_sessions st)
       \<lparr>sw_bundles = 0, sw_bytes = 0, sw_remaining = []\<rparr> st"

section \<open>Eviction over the cap\<close>

fun evict_from ::
  "('s \<Rightarrow> string \<Rightarrow> nat) \<Rightarrow> (string \<Rightarrow> 's \<Rightarrow> 's) \<Rightarrow> int \<Rightarrow> string list \<Rightarrow> int \<Rightarrow> nat \<times> nat \<Rightarrow> 's
   \<Rightarrow> (nat \<times> nat) \<times> 's" where
  "evict_from size_of del mx [] tot acc s = (acc, s)"
| "evict_from size_of del mx (k # ks) tot acc s =
     (if tot \<le> mx then (acc, s)
      else evict_from size_of del mx ks (tot - int (size_of s k))
             (fst acc + 1, snd acc + size_of s k) (del k s))"

definition evict_over_cap ::
  "fs_env \<Rightarrow> (time \<times> string) list \<Rightarrow> int \<Rightarrow> store \<Rightarrow> (nat \<times> nat) \<times> store" where
  "evict_over_cap fs aged max_bytes st =
     evict_from session_bytes (store_delete fs) max_bytes (map snd (sort aged))
       (int (total_bytes st)) (0, 0) st"

text \<open>
  The accounting rests on two laws of the store: deleting an entry takes its bytes off the total, unless the
  entry cannot be removed, which \<^verbatim>\<open>rmtree(ignore_errors=True)\<close> hides; then nothing changes.
\<close>

locale byte_store =
  fixes size_of :: "'s \<Rightarrow> string \<Rightarrow> nat"
    and total :: "'s \<Rightarrow> nat"
    and del :: "string \<Rightarrow> 's \<Rightarrow> 's"
    and deletable :: "string \<Rightarrow> bool"
    and invar :: "'s \<Rightarrow> bool"
  assumes del_total: "invar s \<Longrightarrow> deletable k \<Longrightarrow> total (del k s) + size_of s k = total s"
    and del_stuck: "\<not> deletable k \<Longrightarrow> del k s = s"
    and del_size: "\<not> deletable k \<Longrightarrow> size_of (del j s) k = size_of s k"
    and del_invar: "invar s \<Longrightarrow> invar (del k s)"

context byte_store begin

text \<open>The bytes of the entries that cannot be removed; the loop counts them as reclaimed.\<close>

definition stuck :: "'s \<Rightarrow> string list \<Rightarrow> nat" where
  "stuck s ks = sum_list (map (size_of s) (filter (\<lambda>k. \<not> deletable k) ks))"

lemma stuck_del: "stuck (del j s) ks = stuck s ks"
  unfolding stuck_def by (intro arg_cong [of _ _ sum_list] map_cong) (auto simp: del_size)

lemma stuck_Cons: "stuck s (k # ks) = (if deletable k then stuck s ks else size_of s k + stuck s ks)"
  by (simp add: stuck_def)

text \<open>
  The loop deletes a prefix of the candidates and stops as soon as the total it has computed is under the cap.
  It reports the bytes the store lost and those that could not be removed.
\<close>

lemma evict_prefix:
  assumes "invar s"
  shows "\<exists>m \<le> length ks.
    evict_from size_of del mx ks (int (total s) - int u) (n, b) s =
      ((n + m, b + (total s - total (fold del (take m ks) s)) + stuck s (take m ks)), fold del (take m ks) s) \<and>
    total (fold del (take m ks) s) \<le> total s \<and>
    (m < length ks \<longrightarrow> int (total (fold del (take m ks) s)) \<le> mx + int u + int (stuck s (take m ks))) \<and>
    (\<forall>j<m. mx + int u + int (stuck s (take j ks)) < int (total (fold del (take j ks) s)))"
  using assms
proof (induction ks arbitrary: s n b u)
  case Nil
  then show ?case by (simp add: stuck_def)
next
  case (Cons k ks)
  show ?case
  proof (cases "int (total s) - int u \<le> mx")
    case True
    then show ?thesis by (intro exI [of _ 0]) (simp add: stuck_def)
  next
    case False
    define u' where "u' = (if deletable k then u else u + size_of s k)"
    have step: "int (total s) - int u - int (size_of s k) = int (total (del k s)) - int u'"
      "total (del k s) \<le> total s"
      "size_of s k = (total s - total (del k s)) + (if deletable k then 0 else size_of s k)"
      by (cases "deletable k"; use del_total [OF Cons.prems, of k] del_stuck [of k s] in \<open>simp add: u'_def\<close>)+
    have u': "int u' + int (stuck s (take j ks)) = int u + int (stuck s (k # take j ks))" for j
      by (simp add: u'_def stuck_Cons)
    obtain m where m: "m \<le> length ks"
      "evict_from size_of del mx ks (int (total (del k s)) - int u') (n + 1, b + size_of s k) (del k s) =
        ((n + 1 + m, b + size_of s k + (total (del k s) - total (fold del (take m ks) (del k s))) + stuck s (take m ks)),
         fold del (take m ks) (del k s))"
      "total (fold del (take m ks) (del k s)) \<le> total (del k s)"
      "m < length ks \<longrightarrow> int (total (fold del (take m ks) (del k s))) \<le> mx + int u' + int (stuck s (take m ks))"
      "\<forall>j<m. mx + int u' + int (stuck s (take j ks)) < int (total (fold del (take j ks) (del k s)))"
      using Cons.IH [OF del_invar [OF Cons.prems, of k], of u' "n + 1" "b + size_of s k"]
      unfolding stuck_del by (elim exE conjE)
    have "\<forall>j<Suc m. mx + int u + int (stuck s (take j (k # ks))) < int (total (fold del (take j (k # ks)) s))"
      using m(5) u' False by (auto simp: less_Suc_eq_0_disj stuck_def algebra_simps)
    moreover have "b + size_of s k + (total (del k s) - total (fold del (take m ks) (del k s))) + stuck s (take m ks) =
        b + (total s - total (fold del (take m ks) (del k s))) + stuck s (k # take m ks)"
    proof (cases "deletable k")
      case True
      then show ?thesis using del_total [OF Cons.prems True] m(3) by (simp add: stuck_Cons)
    next
      case False
      then show ?thesis using del_stuck [OF False, of s] m(3) by (simp add: stuck_Cons)
    qed
    moreover have "evict_from size_of del mx (k # ks) (int (total s) - int u) (n, b) s =
        evict_from size_of del mx ks (int (total (del k s)) - int u') (n + 1, b + size_of s k) (del k s)"
      unfolding evict_from.simps if_not_P [OF False] fst_conv snd_conv step(1) ..
    ultimately show ?thesis
      using m(1,3,4) step(2) u' [of m] unfolding m(2)
      by (intro exI [of _ "Suc m"]) (simp add: add.assoc)
  qed
qed

end

lemma session_bytes_entry: "session_bytes st k = files_size (session_entry k st)"
  by (simp add: session_bytes_def session_entry_def files_size_def split: option.splits)

lemma store_delete_stuck: "fs_undeletable fs k \<Longrightarrow> store_delete fs k st = st"
  by (simp add: store_delete_def)

interpretation bs: byte_store session_bytes total_bytes "store_delete fs"
    "\<lambda>k. \<not> fs_undeletable fs k" wf_store for fs
  by unfold_locales (auto simp: session_bytes_entry total_bytes_delete session_entry_delete store_delete_stuck)

section \<open>One pass, and the endless loop\<close>

record reap_counts =
  rc_containers :: nat
  rc_bundles :: nat
  rc_bytes :: nat

definition env_int :: "(string \<Rightarrow> (exc + int) option) \<Rightarrow> string \<Rightarrow> int \<Rightarrow> exc + int" where
  "env_int env name d = (case env name of None \<Rightarrow> Inr d | Some r \<Rightarrow> r)"

text \<open>The second half of a pass, which never suspends: the sweep, then the eviction.\<close>

definition reap_bundles ::
  "reap_env \<Rightarrow> registry \<Rightarrow> time \<Rightarrow> time \<Rightarrow> int \<Rightarrow> store \<Rightarrow> (exc + nat \<times> nat) \<times> store" where
  "reap_bundles env reg now bundle_ttl max_bytes st =
     (case reap_aged_bundles env reg now bundle_ttl st of
        (Inl e, st') \<Rightarrow> (Inl e, st')
      | (Inr sw, st') \<Rightarrow>
         (case evict_over_cap (re_fs env) (sw_remaining sw) max_bytes st' of
            ((evicted, evicted_bytes), st'') \<Rightarrow>
              (Inr (sw_bundles sw + evicted, sw_bytes sw + evicted_bytes), st'')))"

definition reap_once ::
  "'l launcher_ops \<Rightarrow> reap_env \<Rightarrow> time \<Rightarrow> 'l \<times> registry \<times> store
   \<Rightarrow> (exc + reap_counts) \<times> 'l \<times> registry \<times> store" where
  "reap_once ops env now w =
     (case w of (l, reg, st) \<Rightarrow>
      case env_float (re_num env) ''BOARDFARM_CORPSE_TTL'' 86400 of Inl e \<Rightarrow> (Inl e, w) | Inr corpse_ttl \<Rightarrow>
      case env_float (re_num env) ''BOARDFARM_BUNDLE_TTL'' 604800 of Inl e \<Rightarrow> (Inl e, w) | Inr bundle_ttl \<Rightarrow>
      case env_int (re_int env) ''BOARDFARM_BUNDLE_MAX_BYTES'' (20 * 1024 ^ 3) of
        Inl e \<Rightarrow> (Inl e, w) | Inr max_bytes \<Rightarrow>
      case reap_corpses ops now corpse_ttl (l, reg) of
        (Inl e, l', reg') \<Rightarrow> (Inl e, l', reg', st)
      | (Inr containers, l', reg') \<Rightarrow>
      (case reap_bundles env reg' now bundle_ttl max_bytes st of
         (Inl e, st') \<Rightarrow> (Inl e, l', reg', st')
       | (Inr (bundles, bytes), st') \<Rightarrow>
           (Inr \<lparr>rc_containers = containers, rc_bundles = bundles, rc_bytes = bytes\<rparr>, l', reg', st')))"

text \<open>
  \<^verbatim>\<open>run_reaper\<close> up to any number of wake-ups, given the clock readings: an exception ends the pass,
  not the loop, and what the pass had done so far stays done.
\<close>

fun reaper_passes ::
  "'l launcher_ops \<Rightarrow> reap_env \<Rightarrow> time list \<Rightarrow> 'l \<times> registry \<times> store \<Rightarrow> 'l \<times> registry \<times> store" where
  "reaper_passes ops env [] w = w"
| "reaper_passes ops env (now # clock) w = reaper_passes ops env clock (snd (reap_once ops env now w))"

section \<open>Facts\<close>

lemma reap_corpses_loop_keeps:
  assumes "reap_corpses_loop ops now ttl page n (l, reg) = (r, l', reg')"
    and "\<And>i. i \<in> set page \<Longrightarrow> ai_session_id i = k \<Longrightarrow>
      \<not> dead i \<or> ai_ended_at i = None \<or> now - the (ai_ended_at i) \<le> ttl"
  shows "reg_get k reg' = reg_get k reg"
  using assms
proof (induction page arbitrary: n l reg)
  case Nil
  then show ?case by simp
next
  case (Cons i page)
  have IH: "reg_get k reg' = reg_get k reg1"
    if "reap_corpses_loop ops now ttl page n1 (l1, reg1) = (r, l', reg')" for n1 l1 reg1
    using Cons.IH [OF that] Cons.prems(2) by auto
  show ?case
  proof (cases "\<not> dead i \<or> ai_ended_at i = None \<or> now - the (ai_ended_at i) \<le> ttl")
    case True
    then show ?thesis using Cons.prems(1) IH by (auto simp: dead_def split: if_splits)
  next
    case False
    then have "ai_session_id i \<noteq> k" using Cons.prems(2) [of i] by auto
    moreover have "(\<exists>n1 l1. reap_corpses_loop ops now ttl page n1
        (l1, reg_remove (ai_session_id i) reg) = (r, l', reg')) \<or> reg' = reg"
      using False Cons.prems(1) by (auto simp: dead_def split: prod.splits sum.splits)
    ultimately show ?thesis using IH by (auto simp: rg.get_remove)
  qed
qed

lemma reap_corpses_loop_wf:
  "reap_corpses_loop ops now ttl page n (l, reg) = (r, l', reg') \<Longrightarrow> wf_registry reg \<Longrightarrow> wf_registry reg'"
  by (induction page arbitrary: n l reg) (auto simp: rg.remove_invar split: if_splits prod.splits sum.splits)

lemma reap_corpses_keeps_young:
  assumes "reap_corpses ops now ttl (l, reg) = (r, l', reg')" and "wf_registry reg"
    and "reg_get k reg = Some i"
    and "\<not> dead i \<or> ai_ended_at i = None \<or> now - the (ai_ended_at i) \<le> ttl"
  shows "reg_get k reg' = Some i"
proof -
  have "reg_get k reg' = reg_get k reg"
    using assms(1) unfolding reap_corpses_def
  proof (rule reap_corpses_loop_keeps)
    fix j assume j: "j \<in> set (fst (reg_list_page 0 10000 (snd (l, reg))))" "ai_session_id j = k"
    then have "reg_get k reg = Some j" using reg_page_subset [OF assms(2)] by auto
    then show "\<not> dead j \<or> ai_ended_at j = None \<or> now - the (ai_ended_at j) \<le> ttl"
      using assms(3,4) by simp
  qed
  then show ?thesis using assms(3) by simp
qed

lemma reap_aged_loop_keeps:
  assumes "reap_aged_loop env reg now ttl sids acc st = (r, st')"
    and "reg_get k reg = Some i" and "live i"
  shows "session_entry k st' = session_entry k st"
  using assms(1)
proof (induction sids arbitrary: acc st)
  case Nil
  then show ?case by simp
next
  case (Cons sid sids)
  have "session_entry k (store_delete (re_fs env) sid st) = session_entry k st" if "sid \<noteq> k"
    using that by (simp add: session_entry_delete)
  moreover have "sid = k \<Longrightarrow> reap_aged_loop env reg now ttl sids acc st = (r, st')"
    using Cons.prems assms(2,3) by (simp add: live_def)
  ultimately show ?case
    using Cons.prems Cons.IH by (auto split: if_splits sum.splits option.splits) metis+
qed

lemma reap_aged_remaining:
  assumes "reap_aged_loop env reg now ttl sids acc st = (Inr sw, st')"
  shows "set (sw_remaining sw) \<subseteq> set (sw_remaining acc) \<union>
    {(t, s). s \<in> set sids \<and> \<not> (\<exists>i. reg_get s reg = Some i \<and> live i) \<and> now - t \<le> ttl}"
  using assms
proof (induction sids arbitrary: acc st)
  case Nil
  then show ?case by simp
next
  case (Cons sid sids)
  show ?case
    using Cons.prems
    by (auto simp: live_def split: if_splits sum.splits option.splits dest!: Cons.IH)
qed

lemma evict_from_other:
  "evict_from size_of (store_delete fs) mx ks tot acc st = (res, st') \<Longrightarrow> k \<notin> set ks \<Longrightarrow>
   session_entry k st' = session_entry k st"
  by (induction ks arbitrary: tot acc st) (auto simp: session_entry_delete split: if_splits)

lemma reap_corpses_loop_sub:
  "reap_corpses_loop ops now ttl page n (l, reg) = (r, l', reg') \<Longrightarrow>
   reg_get k reg' = Some i \<Longrightarrow> reg_get k reg = Some i"
  by (induction page arbitrary: n l reg)
    (fastforce simp: rg.get_remove split: if_splits prod.splits sum.splits)+

lemma reap_once_corpses:
  assumes "reap_once ops env now (l, reg, st) = (r, l', reg', st')"
  shows "reg' = reg \<or> (\<exists>ttl res. reap_corpses ops now ttl (l, reg) = (res, l', reg'))"
  using assms unfolding reap_once_def
  by (auto simp: split_beta split: sum.splits) (metis prod.collapse)+

lemma reap_once_registry:
  assumes "reap_once ops env now (l, reg, st) = (r, l', reg', st')" and "wf_registry reg"
  shows "wf_registry reg' \<and> (reg_get k reg' = Some i \<longrightarrow> reg_get k reg = Some i) \<and>
    (reg_get k reg = Some i \<and> live i \<longrightarrow> reg_get k reg' = Some i)"
proof -
  have "wf_registry reg'" "reg_get k reg' = Some i \<Longrightarrow> reg_get k reg = Some i"
    "reg_get k reg = Some i \<Longrightarrow> live i \<Longrightarrow> reg_get k reg' = Some i"
    if "reap_corpses ops now ttl (l, reg) = (res, l', reg')" for ttl res
    using that assms(2) reap_corpses_loop_wf reap_corpses_loop_sub
      reap_corpses_keeps_young [OF that assms(2)] live_not_dead
    by (auto simp: reap_corpses_def)
  then show ?thesis using reap_once_corpses [OF assms(1)] assms(2) by blast
qed

definition expired :: "reap_env \<Rightarrow> registry \<Rightarrow> time \<Rightarrow> time \<Rightarrow> store \<Rightarrow> string \<Rightarrow> bool" where
  "expired env reg now ttl st k \<longleftrightarrow>
     \<not> (\<exists>i. reg_get k reg = Some i \<and> live i) \<and>
     (case meta_ended_at env k st of Inr (Some t) \<Rightarrow> now - t > ttl | _ \<Rightarrow> False)"

lemma meta_ended_at_cong:
  "session_entry k st = session_entry k st' \<Longrightarrow> meta_ended_at env k st = meta_ended_at env k st'"
  by (simp add: meta_ended_at_def read_meta_def)

lemma expired_cong:
  "session_entry k st = session_entry k st' \<Longrightarrow> expired env reg now ttl st k = expired env reg now ttl st' k"
  using meta_ended_at_cong [of k st st' env] by (simp add: expired_def)

lemma reap_aged_loop_spec:
  assumes "reap_aged_loop env reg now ttl sids acc st = (Inr sw, st')"
    and "wf_store st" and "distinct sids" and "\<forall>k\<in>set sids. \<not> fs_undeletable (re_fs env) k"
  shows "(\<forall>k. session_entry k st' =
      (if k \<in> set sids \<and> expired env reg now ttl st k then [] else session_entry k st)) \<and>
    sw_bytes sw + total_bytes st' = sw_bytes acc + total_bytes st \<and> wf_store st'"
  using assms
proof (induction sids arbitrary: acc st)
  case Nil
  then show ?case by simp
next
  case (Cons sid sids)
  let ?live = "\<exists>i. reg_get sid reg = Some i \<and> live i"
  have alive: "(case reg_get sid reg of None \<Rightarrow> False | Some info \<Rightarrow> ai_state info = ''live'') \<longleftrightarrow> ?live"
    by (auto simp: live_def split: option.splits)
  show ?case
  proof (cases "expired env reg now ttl st sid")
    case False
    then obtain acc' where
      "reap_aged_loop env reg now ttl sids acc' st = (Inr sw, st')" "sw_bytes acc' = sw_bytes acc"
      using Cons.prems(1) alive
      by (auto simp: expired_def split: if_splits sum.splits option.splits)
    then show ?thesis using Cons.IH [of acc' st] Cons.prems(2-4) False by auto
  next
    case True
    define st1 where "st1 = store_delete (re_fs env) sid st"
    have st1: "wf_store st1" "total_bytes st1 + session_bytes st sid = total_bytes st"
      "session_entry k st1 = (if k = sid then [] else session_entry k st)" for k
      using Cons.prems(2,4) total_bytes_delete [of st "re_fs env" sid]
      by (simp_all add: st1_def session_entry_delete session_bytes_entry)
    obtain acc' where "reap_aged_loop env reg now ttl sids acc' st1 = (Inr sw, st')"
      "sw_bytes acc' = sw_bytes acc + session_bytes st sid"
      using Cons.prems(1) True alive
      by (auto simp: expired_def st1_def split: if_splits sum.splits option.splits)
    with Cons.IH [of acc' st1] st1(1) Cons.prems(3,4)
    have ih: "\<forall>k. session_entry k st' =
        (if k \<in> set sids \<and> expired env reg now ttl st1 k then [] else session_entry k st1)"
      "sw_bytes sw + total_bytes st' = sw_bytes acc + session_bytes st sid + total_bytes st1" "wf_store st'"
      by auto
    have "expired env reg now ttl st1 k = expired env reg now ttl st k" if "k \<noteq> sid" for k
      using st1(3) that by (intro expired_cong) simp
    then show ?thesis using ih st1(2,3) True by auto
  qed
qed

text \<open>What a pass does to the launcher: purges, of sessions registered as dead that ended longer ago than
  the time to live, and nothing else.\<close>

lemma reap_corpses_loop_purges:
  assumes "reap_corpses_loop ops now ttl page n (l, reg) = (r, l', reg')"
  shows "\<exists>js. l' = fold (\<lambda>j s. snd (l_purge ops j s)) js l \<and>
    (\<forall>j\<in>set js. \<exists>i\<in>set page. ai_session_id i = j \<and> dead i \<and>
       (\<exists>t. ai_ended_at i = Some t \<and> ttl < now - t))"
  using assms
proof (induction page arbitrary: n l reg)
  case Nil
  then show ?case by (intro exI [of _ "[]"]) simp
next
  case (Cons i page)
  let ?good = "\<lambda>page js. \<forall>j\<in>set js. \<exists>i\<in>set page. ai_session_id i = j \<and> dead i \<and>
       (\<exists>t. ai_ended_at i = Some t \<and> ttl < now - t)"
  show ?case
  proof (cases "\<not> dead i \<or> ai_ended_at i = None \<or> now - the (ai_ended_at i) \<le> ttl")
    case True
    then have "reap_corpses_loop ops now ttl page n (l, reg) = (r, l', reg')"
      using Cons.prems by (auto simp: dead_def split: if_splits)
    from Cons.IH [OF this] obtain js where "l' = fold (\<lambda>j s. snd (l_purge ops j s)) js l" "?good page js" by blast
    then show ?thesis by (intro exI [of _ js]) auto
  next
    case False
    then have i: "dead i \<and> (\<exists>t. ai_ended_at i = Some t \<and> ttl < now - t)" by auto
    obtain p l1 where p: "l_purge ops (ai_session_id i) l = (p, l1)" by fastforce
    show ?thesis
    proof (cases p)
      case (Inl e)
      then have "l' = fold (\<lambda>j s. snd (l_purge ops j s)) [ai_session_id i] l"
        using Cons.prems False p by (auto simp: dead_def)
      then show ?thesis using i by (intro exI [of _ "[ai_session_id i]"]) auto
    next
      case (Inr u)
      then have "reap_corpses_loop ops now ttl page (Suc n) (l1, reg_remove (ai_session_id i) reg) = (r, l', reg')"
        using Cons.prems False p by (auto simp: dead_def)
      from Cons.IH [OF this] obtain js where
        "l' = fold (\<lambda>j s. snd (l_purge ops j s)) js l1" "?good page js" by blast
      then show ?thesis using i p by (intro exI [of _ "ai_session_id i # js"]) auto
    qed
  qed
qed

lemma reap_once_purges:
  assumes "reap_once ops env now (l, reg, st) = (r, l', reg', st')" and "wf_registry reg"
  shows "\<exists>js. l' = fold (\<lambda>j s. snd (l_purge ops j s)) js l \<and>
    (\<forall>j\<in>set js. \<exists>i ttl t. reg_get j reg = Some i \<and> dead i \<and> ai_ended_at i = Some t \<and>
       env_float (re_num env) ''BOARDFARM_CORPSE_TTL'' 86400 = Inr ttl \<and> ttl < now - t)"
proof -
  have "l' = l \<or> (\<exists>ttl res reg1. env_float (re_num env) ''BOARDFARM_CORPSE_TTL'' 86400 = Inr ttl \<and>
      reap_corpses ops now ttl (l, reg) = (res, l', reg1))"
    using assms(1) unfolding reap_once_def
    by (auto simp: split_beta split: sum.splits) (metis prod.collapse)+
  then show ?thesis
  proof (elim disjE exE conjE)
    assume "l' = l"
    then show ?thesis by (intro exI [of _ "[]"]) simp
  next
    fix ttl res reg1
    assume ttl: "env_float (re_num env) ''BOARDFARM_CORPSE_TTL'' 86400 = Inr ttl"
      and "reap_corpses ops now ttl (l, reg) = (res, l', reg1)"
    then have "reap_corpses_loop ops now ttl (fst (reg_list_page 0 10000 reg)) 0 (l, reg) = (res, l', reg1)"
      by (simp add: reap_corpses_def)
    from reap_corpses_loop_purges [OF this] show ?thesis
      using ttl reg_page_subset [OF assms(2)] by metis
  qed
qed

section \<open>An example\<close>

definition demo_reap_env :: reap_env where
  "demo_reap_env = \<lparr>re_num = (\<lambda>_. None), re_int = (\<lambda>_. None), re_float = (\<lambda>_. Inl (ValueErr [])),
     re_fs = \<lparr>fs_write = (\<lambda>_. WriteOk), fs_undeletable = (\<lambda>_. False), fs_json_size = (\<lambda>_. 2)\<rparr>\<rparr>"

definition demo_store :: store where
  "demo_store = \<lparr>st_root = ''/d'', st_dirs =
     [(''s-1'', [(''meta.json'', JsonText (JObj [(''ended_at'', JReal 5)]) 2), (''bundle.tar.gz'', Opaque ''abc'')]),
      (''s-2'', [(''meta.json'', JsonText (JObj [(''ended_at'', JReal 3)]) 2), (''bundle.tar.gz'', Opaque ''ab'')]),
      (''s-3'', [(''bundle.tar.gz'', Opaque ''abcd'')])], st_stray = []\<rparr>"

definition demo_registry :: registry where
  "demo_registry = \<lparr>reg_sessions = [(''s-1'', agent_info_default ''s-1'' ''b1'' ''p'' ''c'' 1 2)],
     reg_last_activity = []\<rparr>"

definition demo_aged :: "(time \<times> string) list" where
  "demo_aged = [(5, ''s-1''), (3, ''s-2'')]"

lemmas demo_reap_defs = demo_reap_env_def demo_store_def demo_registry_def agent_info_default_def

section \<open>Properties\<close>

text \<open>C6: The reaper never touches a live session. Whatever the launcher, the clock and the
  configuration are, and even when a pass ends with an exception, a live session stays registered as it
  was and its stored diagnostics stay as they were. All the pass does to the launcher is to purge sessions that
  are registered as dead and ended longer ago than the time to live, so never the container of a live one; it
  never uses the launcher's stop operation, so replacing it by any other operation changes nothing.\<close>

theorem reap_once_spares_live:
  assumes "reap_once ops env now (l, reg, st) = (r, l', reg', st')" and "wf_registry reg"
    and "reg_get k reg = Some i" and "live i"
  shows "reg_get k reg' = Some i \<and> session_entry k st' = session_entry k st \<and>
    (\<exists>js. l' = fold (\<lambda>j s. snd (l_purge ops j s)) js l \<and> k \<notin> set js \<and>
       (\<forall>j\<in>set js. \<exists>i ttl t. reg_get j reg = Some i \<and> dead i \<and> ai_ended_at i = Some t \<and>
          env_float (re_num env) ''BOARDFARM_CORPSE_TTL'' 86400 = Inr ttl \<and> ttl < now - t)) \<and>
    (\<forall>f. reap_once (ops\<lparr>l_stop := f\<rparr>) env now (l, reg, st) = (r, l', reg', st'))"
proof (intro conjI allI)
  show reg: "reg_get k reg' = Some i"
    using reap_once_registry [OF assms(1,2), of k i] assms(3,4) by blast
  have aged: "session_entry k st1 = session_entry k st \<and>
      (\<forall>sw. res = Inr sw \<longrightarrow> k \<notin> snd ` set (sw_remaining sw))"
    if "reap_aged_bundles env reg' now ttl st = (res, st1)" for ttl res st1
    using that reap_aged_loop_keeps [OF _ reg assms(4)] reap_aged_remaining reg assms(4)
    by (fastforce simp: reap_aged_bundles_def)
  have evict: "session_entry k st2 = session_entry k st1"
    if "evict_over_cap (re_fs env) xs mx st1 = (res, st2)" "k \<notin> snd ` set xs" for xs mx res st1 st2
    using that by (intro evict_from_other) (auto simp: evict_over_cap_def)
  show "session_entry k st' = session_entry k st"
    using assms(1) aged evict
    by (auto simp: reap_once_def reap_bundles_def split: sum.splits prod.splits)
next
  show "\<exists>js. l' = fold (\<lambda>j s. snd (l_purge ops j s)) js l \<and> k \<notin> set js \<and>
       (\<forall>j\<in>set js. \<exists>i ttl t. reg_get j reg = Some i \<and> dead i \<and> ai_ended_at i = Some t \<and>
          env_float (re_num env) ''BOARDFARM_CORPSE_TTL'' 86400 = Inr ttl \<and> ttl < now - t)"
    using reap_once_purges [OF assms(1,2)] assms(3,4) live_not_dead by (metis option.inject)
next
  fix f
  have "reap_corpses_loop (ops\<lparr>l_stop := f\<rparr>) t ttl page n s = reap_corpses_loop ops t ttl page n s"
    for t ttl page n s
    by (induction page arbitrary: n s) (auto split: prod.splits sum.splits)
  then have eq: "reap_corpses (ops\<lparr>l_stop := f\<rparr>) = reap_corpses ops"
    by (intro ext) (simp add: reap_corpses_def)
  show "reap_once (ops\<lparr>l_stop := f\<rparr>) env now (l, reg, st) = (r, l', reg', st')"
    using assms(1) unfolding reap_once_def eq .
qed

theorem reap_once_spares_live_witness:
  "\<exists>r l' reg' st'. reap_once fake_ops demo_reap_env 1000000 (fake_init, demo_registry, demo_store) = (r, l', reg', st') \<and>
    session_entry ''s-1'' st' = session_entry ''s-1'' demo_store \<and>
    (\<exists>js. l' = fold (\<lambda>j s. snd (l_purge fake_ops j s)) js fake_init \<and> ''s-1'' \<notin> set js)"
proof -
  obtain r l' reg' st' where r:
    "reap_once fake_ops demo_reap_env 1000000 (fake_init, demo_registry, demo_store) = (r, l', reg', st')"
    by (metis prod.collapse)
  show ?thesis
    using reap_once_spares_live [OF r, of "''s-1''"] r
    by (auto simp: demo_reap_defs wf_registry_def wf_dict_def reg_get_def live_def)
qed

text \<open>The aged sweep deletes exactly the expired bundles: sessions that are not live and whose
  recorded end is longer ago than the time to live. A session without a recorded end is never deleted.
  The reported bytes are exactly what the store lost.\<close>

theorem reap_aged_bundles_exact:
  assumes "reap_aged_bundles env reg now ttl st = (Inr sw, st')"
    and "wf_store st" and "\<forall>k. \<not> fs_undeletable (re_fs env) k"
  shows "(\<forall>k. session_entry k st' = (if expired env reg now ttl st k then [] else session_entry k st)) \<and>
    sw_bytes sw + total_bytes st' = total_bytes st"
proof -
  have d: "distinct (store_sessions st)" using assms(2) by (simp add: store_sessions_def wf_store_def wf_dict_def)
  have "session_entry k st = []" if "k \<notin> set (store_sessions st)" for k
    using that by (force simp: store_sessions_def session_entry_def dest!: map_of_SomeD split: option.splits)
  then show ?thesis
    using reap_aged_loop_spec [OF assms(1) [unfolded reap_aged_bundles_def] assms(2) d] assms(3)
    by fastforce
qed

theorem reap_aged_bundles_exact_witness:
  "\<exists>sw st'. reap_aged_bundles demo_reap_env demo_registry 100 50 demo_store = (Inr sw, st') \<and>
    session_entry ''s-2'' st' = [] \<and> has_bundle ''s-1'' st' \<and> has_bundle ''s-3'' st' \<and>
    sw_bytes sw + total_bytes st' = 13"
proof -
  obtain sw st' where r: "reap_aged_bundles demo_reap_env demo_registry 100 50 demo_store = (Inr sw, st')"
    by (simp add: reap_aged_bundles_def demo_reap_defs store_sessions_def reg_get_def meta_ended_at_def
        read_meta_def session_entry_def json_get_def Let_def store_delete_def)
  have "expired demo_reap_env demo_registry 100 50 demo_store ''s-2''"
    "\<not> expired demo_reap_env demo_registry 100 50 demo_store ''s-1''"
    "\<not> expired demo_reap_env demo_registry 100 50 demo_store ''s-3''"
    by (simp_all add: expired_def demo_reap_defs reg_get_def live_def meta_ended_at_def
        read_meta_def session_entry_def json_get_def Let_def)
  then show ?thesis
    using reap_aged_bundles_exact [OF r] r
    by (auto simp: has_bundle_def wf_store_def wf_dict_def demo_reap_env_def)
      (simp_all add: demo_store_def session_entry_def dict_mem_def total_bytes_def files_size_def)
qed

text \<open>The bytes of the directories that cannot be removed.\<close>

definition stuck_bytes :: "fs_env \<Rightarrow> store \<Rightarrow> string list \<Rightarrow> nat" where
  "stuck_bytes fs st ks = sum_list (map (session_bytes st) (filter (fs_undeletable fs) ks))"

text \<open>C7: Eviction over the size cap is oldest first and minimal in its own account: it deletes a prefix of the
  candidates sorted by their end, stops as soon as the total it has computed is within the cap, and never
  deletes while it already is. It reports the number of candidates it deleted and the bytes of their
  directories: exactly those the store lost, plus those of the directories that \<^verbatim>\<open>rmtree\<close> failed to remove,
  an error the store ignores. So where everything can be removed the counts are exact and the store ends
  within the cap or out of candidates; where something cannot, the store may stay above the cap by what is
  stuck.\<close>

theorem evict_over_cap_minimal:
  assumes "wf_store st"
  shows "\<exists>m \<le> length aged.
    let doomed = map snd (sort aged); gone = (\<lambda>j. fold (store_delete fs) (take j doomed) st);
        stuck = (\<lambda>j. stuck_bytes fs st (take j doomed))
    in evict_over_cap fs aged mx st = ((m, total_bytes st - total_bytes (gone m) + stuck m), gone m) \<and>
       total_bytes (gone m) \<le> total_bytes st \<and>
       (m < length aged \<longrightarrow> int (total_bytes (gone m)) \<le> mx + int (stuck m)) \<and>
       (\<forall>j<m. mx + int (stuck j) < int (total_bytes (gone j)))"
  using bs.evict_prefix [where s = st and fs = fs and mx = mx and ks = "map snd (sort aged)" and u = 0 and n = 0 and b = 0] assms
  by (auto simp: evict_over_cap_def Let_def bs.stuck_def stuck_bytes_def)

definition stuck_fs :: fs_env where
  "stuck_fs = \<lparr>fs_write = (\<lambda>_. WriteOk), fs_undeletable = (\<lambda>k. k = ''s-2''), fs_json_size = (\<lambda>_. 2)\<rparr>"

theorem evict_over_cap_minimal_witness:
  "\<exists>m \<le> length demo_aged.
    let doomed = map snd (sort demo_aged);
        gone = (\<lambda>j. fold (store_delete stuck_fs) (take j doomed) demo_store);
        stuck = (\<lambda>j. stuck_bytes stuck_fs demo_store (take j doomed))
    in evict_over_cap stuck_fs demo_aged 9 demo_store =
         ((m, total_bytes demo_store - total_bytes (gone m) + stuck m), gone m) \<and>
       total_bytes (gone m) \<le> total_bytes demo_store \<and>
       (m < length demo_aged \<longrightarrow> int (total_bytes (gone m)) \<le> 9 + int (stuck m)) \<and>
       (\<forall>j<m. 9 + int (stuck j) < int (total_bytes (gone j)))"
  by (rule evict_over_cap_minimal) (simp add: wf_store_def wf_dict_def demo_store_def)

end
