(* ===== verification/Control_App.thy ===== *)
theory Control_App
  imports Teardown Proxy
begin

text \<open>
  The handlers of the control plane (\<^verbatim>\<open>boardfarm3_control/app.py\<close>) and its entry point
  (\<^verbatim>\<open>__main__.py\<close>). A handler maps the request and the control state to the answer, or to the way it
  fails, and the new state. Session creation is split at its \<^verbatim>\<open>await\<close> points, so that the interleaved
  system can be built from the same pieces.

  \<open>app_env\<close> holds what surrounds the app: the profiles, the agents and the filesystem (\<open>ctl_env\<close>), the
  pooled proxy client, the environment, and \<open>ae_validate\<close>, pydantic's check of the response model.
  The clock readings and the random session id of one creation are in \<open>create_io\<close>; there the agent
  may answer each health request differently.
\<close>

record app_env =
  ae_profiles :: "(string, string) dict"
  ae_ctl :: ctl_env
  ae_client :: proxy_client
  ae_num :: num_env
  ae_validate :: "session_response \<Rightarrow> exc + session_response"

record create_io =
  io_sid :: string
  io_start :: time
  io_poll :: time
  io_clock :: "nat \<Rightarrow> time"
  io_health :: "nat \<Rightarrow> http_client"
  io_ended :: time
  io_stop :: time
  io_touch :: time

definition HEALTH_TIMEOUT :: time where
  "HEALTH_TIMEOUT = 30"

definition HEALTH_INTERVAL :: time where
  "HEALTH_INTERVAL = 1 / 10"

definition MAX_LIMIT :: int where
  "MAX_LIMIT = 100"

definition unknown_session :: "string \<Rightarrow> failure" where
  "unknown_session session_id = HTTPExc 404 (JStr (''unknown session '' @ session_id))"

section \<open>Creating a session\<close>

text \<open>The profile check and the lease; the result is the image to start.\<close>

definition create_admit ::
  "app_env \<Rightarrow> session_create \<Rightarrow> string \<Rightarrow> 'l control \<Rightarrow> (failure + string) \<times> 'l control" where
  "create_admit env body session_id c =
     (case dict_get (ae_profiles env) (sc_runtime_profile body) of
        None \<Rightarrow> (Inl (HTTPExc 400 (JStr (''unknown runtime_profile '' @ py_repr (sc_runtime_profile body)))), c)
      | Some img \<Rightarrow>
         (case acquire (sc_board_name body) session_id (c_lease c) of
            (acquired, ls) \<Rightarrow>
              (if \<not> acquired
               then (Inl (HTTPExc 409 (JStr (''board '' @ sc_board_name body @ '' is held by session '' @
                       (case held_by (sc_board_name body) ls of None \<Rightarrow> ''None'' | Some s \<Rightarrow> s)))),
                     c\<lparr>c_lease := ls\<rparr>)
               else (Inr img, c\<lparr>c_lease := ls\<rparr>))))"

text \<open>Starting the container; \<^verbatim>\<open>body.agent_env or None\<close> turns an empty dictionary into None.\<close>

definition create_launch ::
  "'l launcher_ops \<Rightarrow> session_create \<Rightarrow> string \<Rightarrow> string \<Rightarrow> time \<Rightarrow> 'l control
   \<Rightarrow> (failure + agent_info) \<times> 'l control" where
  "create_launch ops body session_id img now c =
     (case l_start ops now session_id (sc_board_name body) img (sc_runtime_profile body)
             (if sc_agent_env body = [] then None else Some (sc_agent_env body))
             (c_launcher c, c_store c) of
        (Inl e, l, st) \<Rightarrow>
          (Inl (HTTPExc 503 (JStr (''failed to start container: '' @ exc_msg e))),
           c\<lparr>c_launcher := l, c_store := st, c_lease := release session_id (c_lease c)\<rparr>)
      | (Inr info, l, st) \<Rightarrow> (Inr info, c\<lparr>c_launcher := l, c_store := st\<rparr>))"

text \<open>
  The health poll. Attempt \<open>k\<close> first reads the clock; a transport error or another status means one
  more attempt after the sleep, any other exception escapes. The value None means the loop never
  ends.
\<close>

partial_function (option) health_poll ::
  "(nat \<Rightarrow> time) \<Rightarrow> (nat \<Rightarrow> exc + http_response) \<Rightarrow> time \<Rightarrow> nat \<Rightarrow> (exc + bool) option" where
  "health_poll clock answer deadline k =
     (if \<not> clock k < deadline then Some (Inr False)
      else case answer k of
          Inr resp \<Rightarrow>
            (if hr_status resp = 200 then Some (Inr True)
             else health_poll clock answer deadline (Suc k))
        | Inl e \<Rightarrow>
            (if is_transport_error e then health_poll clock answer deadline (Suc k)
             else Some (Inl e)))"

declare health_poll.simps [code]

definition create_healthy :: "create_io \<Rightarrow> string \<Rightarrow> (exc + bool) option" where
  "create_healthy io agent_url =
     health_poll (io_clock io) (\<lambda>k. io_health io k (HGet (agent_url @ ''/health'')))
       (io_poll io + HEALTH_TIMEOUT) 0"

text \<open>How the conversation with the healthy agent ends.\<close>

datatype negotiation =
  Accepted json
| Refused int string string
| Escaped exc

definition config_options :: "session_create \<Rightarrow> (string, json) dict" where
  "config_options body =
     (if \<not> sc_boot body then dict_setdefault ''skip_boot'' (JBool True) (sc_options body)
      else sc_options body)"

definition negotiate :: "http_client \<Rightarrow> session_create \<Rightarrow> string \<Rightarrow> negotiation" where
  "negotiate http body agent_url =
     (case http (HPost (agent_url @ ''/session/config'')
                  (JObj [(''payload'', JObj (sc_payload body)), (''options'', JObj (config_options body))])) of
        Inl e \<Rightarrow> Refused 400 ''AgentConfigRejected'' (''agent rejected config: '' @ exc_msg e)
      | Inr cfg \<Rightarrow>
         (if hr_status cfg \<noteq> 200
          then Refused 400 ''AgentConfigRejected'' (''agent rejected config: '' @ hr_text cfg)
          else case http (HPostEmpty (agent_url @ ''/session/boot?mode=async'')) of
             Inl e \<Rightarrow> Refused 503 ''AgentBootUnreachable'' (''agent boot failed: '' @ exc_msg e)
           | Inr boot \<Rightarrow>
              (if hr_status boot \<noteq> 202
               then Refused 502 ''AgentBootRejected'' (''agent boot rejected: '' @ int_str (hr_status boot))
               else case hr_json boot of
                  Inl e \<Rightarrow> Escaped e
                | Inr j \<Rightarrow> (case json_get ''boot_job_id'' JNull j of
                     Inl e \<Rightarrow> Escaped e | Inr job \<Rightarrow> Accepted job))))"

definition unwind ::
  "'l launcher_ops \<Rightarrow> app_env \<Rightarrow> create_io \<Rightarrow> agent_info \<Rightarrow> int \<Rightarrow> string \<Rightarrow> string \<Rightarrow> 'l control
   \<Rightarrow> failure \<times> 'l control" where
  "unwind ops env io info status error message c =
     (let sid = io_sid io
      in case teardown_session ops (ae_ctl env) (io_ended io) (io_stop io) sid info True
                (c\<lparr>c_registry := reg_add info (c_registry c)\<rparr>) of
           (Inl e, c') \<Rightarrow> (Unhandled e, c')
         | (Inr _, c') \<Rightarrow>
             (HTTPExc status (JObj [(''error'', JStr error), (''message'', JStr message),
                (''session_id'', JStr sid),
                (''diagnostics'', JStr (''/sessions/'' @ sid @ ''/diagnostics''))]), c'))"

definition create_commit :: "create_io \<Rightarrow> agent_info \<Rightarrow> 'l control \<Rightarrow> 'l control" where
  "create_commit io info c =
     c\<lparr>c_registry := reg_touch (io_sid io) (io_touch io) (reg_add info (c_registry c))\<rparr>"

definition created_response ::
  "session_create \<Rightarrow> create_io \<Rightarrow> agent_info \<Rightarrow> json \<Rightarrow> registry \<Rightarrow> session_response" where
  "created_response body io info boot_job_id reg =
     \<lparr>sr_session_id = io_sid io, sr_board_name = ai_board_name info,
      sr_runtime_profile = ai_runtime_profile info,
      sr_state = JStr (if sc_boot body then ''booting'' else ''ready''),
      sr_boot_job_id = boot_job_id, sr_booted = False, sr_agent_url = ai_agent_url info,
      sr_pid = ai_pid info, sr_created_at = ai_created_at info,
      sr_last_activity = opt_time (reg_last (io_sid io) reg), sr_ended_at = None,
      sr_liveness = JNull\<rparr>"

definition validated :: "(session_response \<Rightarrow> exc + session_response) \<Rightarrow> session_response
    \<Rightarrow> failure + session_response" where
  "validated check r = (case check r of Inl e \<Rightarrow> Inl (Unhandled e) | Inr r' \<Rightarrow> Inr r')"

text \<open>From the started container on.\<close>

definition create_finish ::
  "'l launcher_ops \<Rightarrow> app_env \<Rightarrow> session_create \<Rightarrow> create_io \<Rightarrow> agent_info \<Rightarrow> exc + bool \<Rightarrow> 'l control
   \<Rightarrow> (failure + session_response) \<times> 'l control" where
  "create_finish ops env body io info healthy c =
     (case healthy of
        Inl e \<Rightarrow> (Inl (Unhandled e), c)
      | Inr False \<Rightarrow>
          (case unwind ops env io info 503 ''AgentUnhealthy''
                  ''agent did not become healthy within 30.0 s'' c of (f, c') \<Rightarrow> (Inl f, c'))
      | Inr True \<Rightarrow>
          (case negotiate (ce_http (ae_ctl env)) body (ai_agent_url info) of
             Escaped e \<Rightarrow> (Inl (Unhandled e), c)
           | Refused status error message \<Rightarrow>
               (case unwind ops env io info status error message c of (f, c') \<Rightarrow> (Inl f, c'))
           | Accepted job \<Rightarrow>
               (let c' = create_commit io info c
                in (validated (ae_validate env) (created_response body io info job (c_registry c')), c'))))"

text \<open>The whole handler; None when the health poll never ends.\<close>

definition create_session ::
  "'l launcher_ops \<Rightarrow> app_env \<Rightarrow> session_create \<Rightarrow> create_io \<Rightarrow> 'l control
   \<Rightarrow> ((failure + session_response) \<times> 'l control) option" where
  "create_session ops env body io c =
     (case create_admit env body (io_sid io) c of
        (Inl f, c1) \<Rightarrow> Some (Inl f, c1)
      | (Inr img, c1) \<Rightarrow>
         (case create_launch ops body (io_sid io) img (io_start io) c1 of
            (Inl f, c2) \<Rightarrow> Some (Inl f, c2)
          | (Inr info, c2) \<Rightarrow>
              map_option (\<lambda>h. create_finish ops env body io info h c2)
                (create_healthy io (ai_agent_url info))))"

section \<open>Listing\<close>

definition dead_response :: "agent_info \<Rightarrow> registry \<Rightarrow> session_response" where
  "dead_response info reg =
     \<lparr>sr_session_id = ai_session_id info, sr_board_name = ai_board_name info,
      sr_runtime_profile = ai_runtime_profile info, sr_state = JStr ''dead'',
      sr_boot_job_id = JNull, sr_booted = False, sr_agent_url = ai_agent_url info,
      sr_pid = ai_pid info, sr_created_at = ai_created_at info,
      sr_last_activity = opt_time (reg_last (ai_session_id info) reg),
      sr_ended_at = ai_ended_at info, sr_liveness = JNull\<rparr>"

text \<open>
  What the agent reports: state, booted, last activity, liveness. The HTTP call runs under
  \<^verbatim>\<open>asyncio.wait_for\<close>, whose expiry is \<open>AsyncTimeout\<close>.
\<close>

definition agent_report :: "exc + http_response \<Rightarrow> exc + json \<times> bool \<times> json \<times> json" where
  "agent_report answer =
     (case answer of Inl e \<Rightarrow> Inl e | Inr resp \<Rightarrow>
      case hr_json resp of Inl e \<Rightarrow> Inl e | Inr d \<Rightarrow>
      case json_get ''state'' (JStr ''unknown'') d of Inl e \<Rightarrow> Inl e | Inr state \<Rightarrow>
      case json_get ''booted'' (JBool False) d of Inl e \<Rightarrow> Inl e | Inr booted \<Rightarrow>
      case json_get ''last_activity'' JNull d of Inl e \<Rightarrow> Inl e | Inr last_act \<Rightarrow>
      case json_get ''liveness'' JNull d of Inl e \<Rightarrow> Inl e | Inr liveness \<Rightarrow>
      Inr (state, truthy booted, last_act, liveness))"

definition agent_response ::
  "agent_info \<Rightarrow> json \<times> bool \<times> json \<times> json \<Rightarrow> session_response" where
  "agent_response info rep =
     (case rep of (state, booted, last_act, liveness) \<Rightarrow>
       \<lparr>sr_session_id = ai_session_id info, sr_board_name = ai_board_name info,
        sr_runtime_profile = ai_runtime_profile info, sr_state = state,
        sr_boot_job_id = JNull, sr_booted = booted, sr_agent_url = ai_agent_url info,
        sr_pid = ai_pid info, sr_created_at = ai_created_at info,
        sr_last_activity = last_act, sr_ended_at = ai_ended_at info, sr_liveness = liveness\<rparr>)"

fun is_unreachable :: "exc \<Rightarrow> bool" where
  "is_unreachable AsyncTimeout = True"
| "is_unreachable e = is_transport_error e"

definition fetch_state ::
  "app_env \<Rightarrow> time \<Rightarrow> agent_info \<Rightarrow> registry \<Rightarrow> (failure + session_response) \<times> registry" where
  "fetch_state env now info reg =
     (if ai_state info = ''dead'' then (validated (ae_validate env) (dead_response info reg), reg)
      else case agent_report (ce_http (ae_ctl env) (HGet (ai_agent_url info @ ''/session''))) of
         Inr (state, booted, last_act, liveness) \<Rightarrow>
           (validated (ae_validate env) (agent_response info (state, booted, last_act, liveness)),
            if last_act \<noteq> JNull then reg_touch (ai_session_id info) now reg else reg)
       | Inl e \<Rightarrow>
           (if is_unreachable e
            then (validated (ae_validate env) (agent_response info
                    (JStr ''unreachable'', False, opt_time (reg_last (ai_session_id info) reg), JNull)), reg)
            else (Inl (Unhandled e), reg)))"

text \<open>
  The fan-out, in the order of the page: every fetch runs, and the first failure, if any, is the
  handler's.
\<close>

fun gather_states ::
  "app_env \<Rightarrow> time \<Rightarrow> agent_info list \<Rightarrow> registry \<Rightarrow> (failure + session_response list) \<times> registry" where
  "gather_states env now [] reg = (Inr [], reg)"
| "gather_states env now (info # page) reg =
     (case fetch_state env now info reg of (r, reg') \<Rightarrow>
       (case gather_states env now page reg' of (rs, reg'') \<Rightarrow>
         ((case r of Inl f \<Rightarrow> Inl f
           | Inr x \<Rightarrow> (case rs of Inl f \<Rightarrow> Inl f | Inr xs \<Rightarrow> Inr (x # xs))), reg'')))"

definition list_sessions ::
  "app_env \<Rightarrow> time \<Rightarrow> int \<Rightarrow> int \<Rightarrow> 'l control \<Rightarrow> (failure + session_list_response) \<times> 'l control" where
  "list_sessions env now offset limit0 c =
     (let lm = min limit0 MAX_LIMIT;
          (page, tot) = reg_list_page offset lm (c_registry c)
      in case gather_states env now page (c_registry c) of
           (r, reg) \<Rightarrow>
             ((case r of Inl f \<Rightarrow> Inl f
               | Inr ss \<Rightarrow> Inr \<lparr>sl_sessions = ss, sl_total = tot, sl_offset = offset, sl_limit = lm\<rparr>),
              c\<lparr>c_registry := reg\<rparr>))"

section \<open>Deleting\<close>

definition delete_session ::
  "'l launcher_ops \<Rightarrow> app_env \<Rightarrow> time \<Rightarrow> time \<Rightarrow> string \<Rightarrow> bool \<Rightarrow> bool \<Rightarrow> 'l control
   \<Rightarrow> (failure + string) \<times> 'l control" where
  "delete_session ops env ended now session_id retain purge c =
     (case reg_get session_id (c_registry c) of
        None \<Rightarrow> (Inl (unknown_session session_id), c)
      | Some info \<Rightarrow>
         (if retain \<and> purge
          then (Inl (HTTPExc 400 (JStr ''retain and purge are mutually exclusive'')), c)
          else if ai_state info = ''dead'' then
           (if retain then (Inr ''retained'', c)
            else case l_purge ops session_id (c_launcher c) of
               (Inl e, l) \<Rightarrow> (Inl (Unhandled e), c\<lparr>c_launcher := l\<rparr>)
             | (Inr _, l) \<Rightarrow>
                 (Inr ''purged'',
                  c\<lparr>c_launcher := l,
                    c_store := store_delete (ce_fs (ae_ctl env)) session_id (c_store c),
                    c_registry := reg_remove session_id (c_registry c)\<rparr>))
          else case teardown_session ops (ae_ctl env) ended now session_id info retain c of
             (Inl e, c') \<Rightarrow> (Inl (Unhandled e), c')
           | (Inr _, c') \<Rightarrow> (Inr (if retain then ''retained'' else ''released''), c')))"

section \<open>Diagnostics\<close>

definition bundle_size :: "string \<Rightarrow> store \<Rightarrow> nat" where
  "bundle_size session_id st =
     (case dict_get (session_entry session_id st) ''bundle.tar.gz'' of
        None \<Rightarrow> 0 | Some f \<Rightarrow> file_size f)"

definition diagnostics_snapshot ::
  "'l launcher_ops \<Rightarrow> app_env \<Rightarrow> time \<Rightarrow> string \<Rightarrow> 'l control \<Rightarrow> (failure + json) \<times> 'l control" where
  "diagnostics_snapshot ops env captured_at session_id c =
     (case reg_get session_id (c_registry c) of
        None \<Rightarrow> (Inl (unknown_session session_id), c)
      | Some info \<Rightarrow>
         (case archive_bundle ops (ae_ctl env) session_id (ai_agent_url info) (ai_artifact_dir info) c of
            (Inl e, c') \<Rightarrow> (Inl (Unhandled e), c')
          | (Inr source, c') \<Rightarrow>
             (if source = ''none''
              then (Inl (HTTPExc 502
                     (JStr ''agent unreachable and launcher capture produced nothing'')), c')
              else case write_meta (ce_fs (ae_ctl env)) session_id
                          (session_meta session_id info captured_at False source) (c_store c') of
                 (Inl e, st) \<Rightarrow> (Inl (Unhandled e), c'\<lparr>c_store := st\<rparr>)
               | (Inr _, st) \<Rightarrow>
                   (Inr (JObj [(''path'', JStr (bundle_path session_id st)),
                               (''size'', JInt (int (bundle_size session_id st))),
                               (''source'', JStr source),
                               (''captured_at'', JReal captured_at)]),
                    c'\<lparr>c_store := st\<rparr>))))"

datatype diag_answer =
  Proxied proxy_response
| FileAnswer string string

definition archived_answer :: "string \<Rightarrow> store \<Rightarrow> diag_answer" where
  "archived_answer session_id st =
     FileAnswer (bundle_path session_id st) (session_id @ ''-diagnostics.tar.gz'')"

text \<open>Tier 1 of the handler: the answer of the live agent, an attempt to report, or an exception.\<close>

definition diag_from_agent ::
  "app_env \<Rightarrow> in_request \<Rightarrow> string \<Rightarrow> agent_info \<Rightarrow> exc + (string + proxy_response)" where
  "diag_from_agent env request session_id info =
     (if ai_state info = ''live''
      then (case proxy_request (ae_num env) (ae_client env) request (ai_agent_url info)
                  ''diagnostics/bundle'' None (Some (ae_client env)) session_id of
              Inr r \<Rightarrow> Inr (Inr r)
            | Inl (HTTPExc s d, cl) \<Rightarrow> Inr (Inl ''agent: unreachable'')
            | Inl (Unhandled e, cl) \<Rightarrow> Inl e)
      else Inr (Inl ''agent: session is dead''))"

definition diagnostics ::
  "'l launcher_ops \<Rightarrow> app_env \<Rightarrow> in_request \<Rightarrow> string \<Rightarrow> 'l control
   \<Rightarrow> (failure + diag_answer) \<times> 'l control" where
  "diagnostics ops env request session_id c =
     (case reg_get session_id (c_registry c) of
        None \<Rightarrow> (Inl (unknown_session session_id), c)
      | Some info \<Rightarrow>
         (case diag_from_agent env request session_id info of
            Inl e \<Rightarrow> (Inl (Unhandled e), c)
          | Inr (Inr r) \<Rightarrow> (Inr (Proxied r), c)
          | Inr (Inl attempt) \<Rightarrow>
             (if has_bundle session_id (c_store c)
              then (Inr (archived_answer session_id (c_store c)), c)
              else case archive_bundle ops (ae_ctl env) session_id (ai_agent_url info)
                          (ai_artifact_dir info) c of
                 (Inl e, c') \<Rightarrow> (Inl (Unhandled e), c')
               | (Inr source, c') \<Rightarrow>
                  (if source \<noteq> ''none'' then (Inr (archived_answer session_id (c_store c')), c')
                   else (Inl (HTTPExc 404 (JObj [(''error'', JStr ''NoDiagnostics''),
                           (''attempted'', JList [JStr attempt, JStr ''archive: no bundle stored'',
                               JStr ''launcher: capture produced nothing''])])), c')))))"

definition proxy_handler ::
  "app_env \<Rightarrow> time \<Rightarrow> in_request \<Rightarrow> string \<Rightarrow> string \<Rightarrow> 'l control
   \<Rightarrow> (failure + proxy_response) \<times> 'l control" where
  "proxy_handler env now request session_id path c =
     (case reg_get session_id (c_registry c) of
        None \<Rightarrow> (Inl (unknown_session session_id), c)
      | Some info \<Rightarrow>
         ((case proxy_request (ae_num env) (ae_client env) request (ai_agent_url info) path None
                  (Some (ae_client env)) session_id of
             Inl (f, cl) \<Rightarrow> Inl f | Inr r \<Rightarrow> Inr r),
          c\<lparr>c_registry := reg_touch session_id now (c_registry c)\<rparr>))"

section \<open>Start-up\<close>

text \<open>
  The part of the lifespan before serving: the registry takes every session the launcher lists, the
  lease table only those that are live.
\<close>

definition startup :: "'l launcher_ops \<Rightarrow> 'l control \<Rightarrow> (exc + unit) \<times> 'l control" where
  "startup ops c =
     (case l_list_sessions ops (c_launcher c) of
        (Inl e, l) \<Rightarrow> (Inl e, c\<lparr>c_launcher := l\<rparr>)
      | (Inr sessions, l) \<Rightarrow>
         (let c1 = c\<lparr>c_launcher := l, c_registry := reg_rebuild sessions (c_registry c)\<rparr>
          in case l_list_sessions ops l of
               (Inl e, l') \<Rightarrow> (Inl e, c1\<lparr>c_launcher := l'\<rparr>)
             | (Inr existing, l') \<Rightarrow>
                 (Inr (), c1\<lparr>c_launcher := l',
                    c_lease := rebuild_from (filter (\<lambda>s. ai_state s = ''live'') existing) (c_lease c)\<rparr>)))"

text \<open>
  \<^verbatim>\<open>__main__.main\<close> up to serving: the launcher name, the decoded profiles and the port, or the
  \<^verbatim>\<open>ValueError\<close>. JSON decoding and \<^verbatim>\<open>int\<close> of the port text are parameters.
\<close>

definition LAUNCHERS :: "string list" where
  "LAUNCHERS = [''docker'', ''process'']"

definition main_config ::
  "(string \<Rightarrow> string + json) \<Rightarrow> (string \<Rightarrow> exc + int) \<Rightarrow> (string \<Rightarrow> string option)
   \<Rightarrow> exc + string \<times> json \<times> int" where
  "main_config loads to_int environ =
     (let launcher_name = lower (case environ ''BOARDFARM_LAUNCHER'' of None \<Rightarrow> ''docker'' | Some s \<Rightarrow> s)
      in if launcher_name \<notin> set LAUNCHERS
         then Inl (ValueErr (''BOARDFARM_LAUNCHER must be one of: '' @ join '', '' LAUNCHERS @
                '';'' @ '' got '' @ py_repr launcher_name))
         else (let raw = (case environ ''BOARDFARM_PROFILES'' of None \<Rightarrow> [] | Some s \<Rightarrow> s)
               in if raw = []
                  then Inl (ValueErr ''BOARDFARM_PROFILES must be set (JSON: {profile: image, ...})'')
                  else case loads raw of
                      Inl m \<Rightarrow> Inl (ValueErr (''BOARDFARM_PROFILES is not valid JSON: '' @ m))
                    | Inr profiles \<Rightarrow>
                       (case to_int (case environ ''BOARDFARM_CONTROL_PORT'' of None \<Rightarrow> ''9000'' | Some s \<Rightarrow> s) of
                          Inl e \<Rightarrow> Inl e
                        | Inr port \<Rightarrow> Inr (launcher_name, profiles, port))))"

section \<open>Facts\<close>

definition retries :: "exc + http_response \<Rightarrow> bool" where
  "retries a = (case a of Inr r \<Rightarrow> hr_status r \<noteq> 200 | Inl e \<Rightarrow> is_transport_error e)"

definition poll_verdict :: "time \<Rightarrow> time \<Rightarrow> exc + http_response \<Rightarrow> exc + bool" where
  "poll_verdict now deadline a =
     (if \<not> now < deadline then Inr False else case a of Inr _ \<Rightarrow> Inr True | Inl e \<Rightarrow> Inl e)"

lemma health_poll_skip:
  "(\<And>j. j < n \<Longrightarrow> clock (k + j) < d \<and> retries (answer (k + j))) \<Longrightarrow>
   health_poll clock answer d k = health_poll clock answer d (k + n)"
proof (induction n arbitrary: k)
  case 0
  then show ?case by simp
next
  case (Suc n)
  have "clock k < d" "retries (answer k)" using Suc.prems [of 0] by simp_all
  then have "health_poll clock answer d k = health_poll clock answer d (Suc k)"
    by (subst health_poll.simps) (auto simp: retries_def split: sum.splits)
  also have "\<dots> = health_poll clock answer d (Suc k + n)"
    using Suc.prems [of "Suc _"] by (intro Suc.IH) simp
  finally show ?case by simp
qed

lemma health_poll_stop:
  "\<not> (clock n < d \<and> retries (answer n)) \<Longrightarrow>
   health_poll clock answer d n = Some (poll_verdict (clock n) d (answer n))"
  by (subst health_poll.simps) (auto simp: retries_def poll_verdict_def split: sum.splits)

lemma health_poll_first:
  assumes "\<forall>j<n. clock j < d \<and> retries (answer j)" and "\<not> (clock n < d \<and> retries (answer n))"
  shows "health_poll clock answer d 0 = Some (poll_verdict (clock n) d (answer n))"
  using health_poll_skip [of n clock 0 d answer] assms health_poll_stop [of clock n d answer] by simp

lemma clock_advances:
  assumes "\<And>k. clock k + HEALTH_INTERVAL \<le> clock (Suc k)"
  shows "clock 0 + real n * HEALTH_INTERVAL \<le> clock n"
proof (induction n)
  case (Suc n)
  then show ?case using assms [of n] by (simp add: algebra_simps)
qed simp

lemma acquire_cases:
  "acquire b s l = (ok, l') \<Longrightarrow>
   (ok \<and> held_by b l = None \<and> (\<forall>b'. held_by b' l' = (if b' = b then Some s else held_by b' l))) \<or>
   (\<not> ok \<and> held_by b l \<noteq> None \<and> l' = l)"
  by (auto simp: acquire_def held_by_def dict_mem_def split: if_splits)

lemma create_admit_cases:
  assumes "create_admit env body sid c = (r, c')"
  obtains (admitted) img where "r = Inr img" and "c' = c\<lparr>c_lease := c_lease c'\<rparr>"
      and "held_by (sc_board_name body) (c_lease c) = None"
      and "c_lease c' = snd (acquire (sc_board_name body) sid (c_lease c))"
      and "\<forall>b. held_by b (c_lease c') =
        (if b = sc_board_name body then Some sid else held_by b (c_lease c))"
    | (refused) s d where "r = Inl (HTTPExc s d)" and "c' = c"
proof (cases "dict_get (ae_profiles env) (sc_runtime_profile body)")
  case None
  then show ?thesis using assms refused by (auto simp: create_admit_def)
next
  case (Some img)
  obtain ok ls where a: "acquire (sc_board_name body) sid (c_lease c) = (ok, ls)"
    by (cases "acquire (sc_board_name body) sid (c_lease c)")
  show ?thesis
    using acquire_cases [OF a] Some a assms admitted refused
    by (auto simp: create_admit_def)
qed

lemma create_launch_cases:
  assumes "create_launch ops body sid img now c = (r, c')"
  obtains (launched) info where "r = Inr info"
      and "c' = c\<lparr>c_launcher := c_launcher c', c_store := c_store c'\<rparr>"
      and "fst (l_start ops now sid (sc_board_name body) img (sc_runtime_profile body)
        (if sc_agent_env body = [] then None else Some (sc_agent_env body))
        (c_launcher c, c_store c)) = Inr info"
    | (failed) d where "r = Inl (HTTPExc 503 d)"
      and "c' = c\<lparr>c_launcher := c_launcher c', c_store := c_store c',
                   c_lease := release sid (c_lease c)\<rparr>"
  using assms by (auto simp: create_launch_def split: prod.splits sum.splits)

text \<open>What lets an exception out of the handler once the container runs: the unwinding cannot write the metadata,
  or the agent's DELETE raises something that is no HTTP error.\<close>

definition unwind_escapes :: "app_env \<Rightarrow> create_io \<Rightarrow> agent_info \<Rightarrow> bool" where
  "unwind_escapes env io info \<longleftrightarrow>
     fs_write (ce_fs (ae_ctl env)) (io_sid io) \<noteq> WriteOk \<or>
     (\<exists>e. ce_http (ae_ctl env) (HDelete (ai_agent_url info @ ''/session'')) = Inl e \<and> \<not> is_http_error e)"

lemma unwind_cases:
  assumes "unwind ops env io info s err msg c = (f, c')" and "wf_leases (c_lease c)"
  obtains (closed) d where "f = HTTPExc s d"
      and "\<forall>b. held_by b (c_lease c') =
        (if held_by b (c_lease c) = Some (io_sid io) then None else held_by b (c_lease c))"
    | (escaped) e where "f = Unhandled e" and "c_lease c' = c_lease c"
      and "c_registry c' = reg_add info (c_registry c)" and "unwind_escapes env io info"
proof -
  let ?c = "c\<lparr>c_registry := reg_add info (c_registry c)\<rparr>"
  obtain r where t: "teardown_session ops (ae_ctl env) (io_ended io) (io_stop io) (io_sid io) info True ?c = (r, c')"
    and f: "(\<exists>d. r = Inr () \<and> f = HTTPExc s d) \<or> (\<exists>e. r = Inl e \<and> f = Unhandled e)"
    using assms(1) by (auto simp: unwind_def Let_def split: prod.splits sum.splits)
  show ?thesis
  proof (cases r)
    case (Inr u)
    then have t': "teardown_session ops (ae_ctl env) (io_ended io) (io_stop io) (io_sid io) info True ?c
        = (Inr (), c')"
      using t by simp
    show ?thesis
      using teardown_released [OF t'] assms(2) f Inr closed by auto
  next
    case (Inl e)
    have "unwind_escapes env io info"
      using teardown_completes [of "ae_ctl env" "io_sid io" info ops "io_ended io" "io_stop io" True ?c] t Inl
      by (auto simp: unwind_escapes_def)
    with t show ?thesis
      by (cases rule: teardown_cases) (use f Inl escaped in auto)
  qed
qed

text \<open>Everything that makes a creation answer 500: the health poll or the boot request raises outside the
  transport, the unwinding escapes, or the response does not validate.\<close>

definition creation_escapes :: "app_env \<Rightarrow> session_create \<Rightarrow> create_io \<Rightarrow> agent_info \<Rightarrow> bool" where
  "creation_escapes env body io info \<longleftrightarrow>
     (\<exists>e. create_healthy io (ai_agent_url info) = Some (Inl e)) \<or>
     (\<exists>e. negotiate (ce_http (ae_ctl env)) body (ai_agent_url info) = Escaped e) \<or>
     unwind_escapes env io info \<or>
     (\<exists>resp e. ae_validate env resp = Inl e)"

lemma create_finish_cases:
  assumes "create_finish ops env body io info h c = (r, c')" and "wf_leases (c_lease c)"
  obtains (committed) resp job where "r = Inr resp" and "c' = create_commit io info c"
      and "negotiate (ce_http (ae_ctl env)) body (ai_agent_url info) = Accepted job"
      and "ae_validate env (created_response body io info job (c_registry c')) = Inr resp"
    | (refused) s d where "r = Inl (HTTPExc s d)" and "\<forall>b. held_by b (c_lease c') =
        (if held_by b (c_lease c) = Some (io_sid io) then None else held_by b (c_lease c))"
    | (escaped) e where "r = Inl (Unhandled e)" and "c_lease c' = c_lease c"
      and "(\<exists>e. h = Inl e) \<or> (\<exists>e. negotiate (ce_http (ae_ctl env)) body (ai_agent_url info) = Escaped e) \<or>
        unwind_escapes env io info \<or> (\<exists>resp e. ae_validate env resp = Inl e)"
proof -
  have u: thesis if "unwind ops env io info s err msg c = (f, c')" "r = Inl f" for s err msg f
    using that(1) assms(2) by (cases rule: unwind_cases) (use that refused escaped in auto)
  show thesis
  proof (cases h)
    case (Inl e)
    then show thesis using assms(1) escaped by (auto simp: create_finish_def)
  next
    case (Inr ok)
    show thesis
    proof (cases ok)
      case False
      then show thesis using assms(1) Inr u by (auto simp: create_finish_def split: prod.splits)
    next
      case True
      have lease: "c_lease (create_commit io info c) = c_lease c" by (simp add: create_commit_def)
      have invalid: thesis if "r = Inl (Unhandled e)" "c_lease c' = c_lease c" "ae_validate env resp = Inl e" for resp e
        using that escaped by blast
      show thesis
        using assms(1) Inr True u escaped committed lease invalid
        by (auto simp: create_finish_def Let_def validated_def
            split: prod.splits negotiation.splits sum.splits)
    qed
  qed
qed

lemma create_session_cases:
  assumes "create_session ops env body io c = Some (r, c')"
  obtains (refused) s d where "r = Inl (HTTPExc s d)" and "c' = c"
    | (not_started) d l1 where "r = Inl (HTTPExc 503 d)"
      and "\<forall>b. held_by b l1 =
        (if b = sc_board_name body then Some (io_sid io) else held_by b (c_lease c))"
      and "held_by (sc_board_name body) (c_lease c) = None"
      and "c_registry c' = c_registry c" and "c_lease c' = release (io_sid io) l1"
      and "l1 = snd (acquire (sc_board_name body) (io_sid io) (c_lease c))"
    | (started) img info h c2 w where "create_finish ops env body io info h c2 = (r, c')"
      and "\<forall>b. held_by b (c_lease c2) =
        (if b = sc_board_name body then Some (io_sid io) else held_by b (c_lease c))"
      and "held_by (sc_board_name body) (c_lease c) = None"
      and "c_registry c2 = c_registry c"
      and "c_lease c2 = snd (acquire (sc_board_name body) (io_sid io) (c_lease c))"
      and "fst (l_start ops (io_start io) (io_sid io) (sc_board_name body) img
        (sc_runtime_profile body) (if sc_agent_env body = [] then None else Some (sc_agent_env body)) w)
          = Inr info" and "create_healthy io (ai_agent_url info) = Some h"
proof -
  obtain r1 c1 where a: "create_admit env body (io_sid io) c = (r1, c1)"
    by (cases "create_admit env body (io_sid io) c")
  from a show thesis
  proof (cases rule: create_admit_cases)
    case (refused s d)
    then show thesis using assms a that(1) by (auto simp: create_session_def)
  next
    case (admitted img)
    obtain r2 c2 where l: "create_launch ops body (io_sid io) img (io_start io) c1 = (r2, c2)"
      by (cases "create_launch ops body (io_sid io) img (io_start io) c1")
    have reg1: "c_registry c1 = c_registry c" using admitted(2) by (cases c1) (auto)
    from l show thesis
    proof (cases rule: create_launch_cases)
      case (launched info)
      have "c_lease c2 = c_lease c1" "c_registry c2 = c_registry c1"
        by (subst launched(2); simp)+
      moreover obtain h where "create_finish ops env body io info h c2 = (r, c')"
          "create_healthy io (ai_agent_url info) = Some h"
        using assms a admitted(1) l launched(1) by (auto simp: create_session_def)
      ultimately show thesis
        using admitted(3-5) launched(3) reg1
        by (intro that(3) [of info h c2 img "(c_launcher c1, c_store c1)"]) simp_all
    next
      case (failed d)
      have "c_lease c2 = release (io_sid io) (c_lease c1)" "c_registry c2 = c_registry c1"
        by (subst failed(2); simp)+
      then show thesis
        using assms a admitted l failed reg1
        by (intro that(2) [of d "c_lease c1"]) (auto simp: create_session_def)
    qed
  qed
qed

lemma negotiate_escape_body:
  "negotiate http body url = Escaped e \<Longrightarrow>
   \<exists>boot. http (HPostEmpty (url @ ''/session/boot?mode=async'')) = Inr boot \<and> hr_status boot = 202"
  by (auto simp: negotiate_def split: sum.splits if_splits)

section \<open>An example system\<close>

definition answer :: "int \<Rightarrow> json \<Rightarrow> exc + http_response" where
  "answer status j = Inr \<lparr>hr_status = status, hr_content = ''gz'', hr_text = [], hr_json = Inr j\<rparr>"

definition demo_http :: "json \<Rightarrow> http_client" where
  "demo_http boot r =
     (case r of HPostEmpty _ \<Rightarrow> answer 202 boot | _ \<Rightarrow> answer 200 (JObj []))"

definition demo_fs :: fs_env where
  "demo_fs = \<lparr>fs_write = (\<lambda>_. WriteOk), fs_undeletable = (\<lambda>_. False), fs_json_size = (\<lambda>_. 2)\<rparr>"

definition demo_client :: proxy_client where
  "demo_client = \<lparr>pc_build = (\<lambda>r. Inr (or_headers r)), pc_send = (\<lambda>r. Inl (ConnectError ''refused''))\<rparr>"

definition demo_env :: "json \<Rightarrow> app_env" where
  "demo_env boot =
     \<lparr>ae_profiles = [(''p'', ''img'')],
      ae_ctl = \<lparr>ce_http = demo_http boot, ce_fs = demo_fs, ce_tgz = (\<lambda>ms. concat (map snd ms))\<rparr>,
      ae_client = demo_client, ae_num = (\<lambda>_. None), ae_validate = Inr\<rparr>"

definition demo_body :: session_create where
  "demo_body = \<lparr>sc_board_name = ''b1'', sc_runtime_profile = ''p'', sc_payload = [], sc_options = [],
     sc_boot = True, sc_agent_env = []\<rparr>"

definition demo_request :: in_request where
  "demo_request = \<lparr>rq_method = ''GET'', rq_path = ''/sessions/s-1/diagnostics'', rq_query = [],
     rq_headers = [], rq_body = []\<rparr>"

definition demo_io :: "string \<Rightarrow> create_io" where
  "demo_io sid = \<lparr>io_sid = sid, io_start = 1, io_poll = 2, io_clock = (\<lambda>k. 2 + real k),
     io_health = (\<lambda>k _. if k = 0 then Inl (ConnectError []) else answer 200 JNull),
     io_ended = 50, io_stop = 51, io_touch = 40\<rparr>"

definition demo_control :: "fake_launcher control" where
  "demo_control = \<lparr>c_launcher = fake_init, c_registry = empty_registry, c_lease = empty_leases,
     c_store = init_store None None\<rparr>"

lemmas demo_defs = answer_def demo_http_def demo_fs_def demo_client_def demo_env_def demo_body_def
  demo_control_def fake_init_def empty_registry_def empty_leases_def init_store_def

lemmas create_defs = create_session_def create_admit_def create_launch_def
  create_finish_def create_commit_def negotiate_def validated_def created_response_def
  config_options_def acquire_def held_by_def dict_mem_def

lemma demo_io_fields [simp]:
  "io_sid (demo_io s) = s" "io_start (demo_io s) = 1" "io_ended (demo_io s) = 50"
  "io_stop (demo_io s) = 51" "io_touch (demo_io s) = 40"
  by (simp_all add: demo_io_def)

lemma demo_poll [simp]:
  "create_healthy (demo_io sid) url = Some (Inr True)"
  unfolding create_healthy_def
  by (subst health_poll_first [where n = 1])
    (simp_all add: demo_defs demo_io_def HEALTH_TIMEOUT_def retries_def poll_verdict_def)

section \<open>Properties of the handlers\<close>



text \<open>A board that is held is refused with 409, which names the holder, before anything happens:
  no launcher operation runs and no state changes, for every launcher and environment.\<close>

theorem create_session_conflict:
  assumes "dict_get (ae_profiles env) (sc_runtime_profile body) = Some img"
    and "held_by (sc_board_name body) (c_lease c) = Some other"
  shows "create_session ops env body io c =
    Some (Inl (HTTPExc 409 (JStr (''board '' @ sc_board_name body @ '' is held by session '' @ other))), c)"
  using assms
  by (simp add: create_session_def create_admit_def acquire_def held_by_def dict_mem_def)

theorem create_session_conflict_witness:
  "create_session fake_ops (demo_env JNull) demo_body (demo_io ''s-2'')
     (demo_control\<lparr>c_lease := \<lparr>leases = [(''b1'', ''s-1'')]\<rparr>\<rparr>) =
   Some (Inl (HTTPExc 409 (JStr ''board b1 is held by session s-1'')),
     demo_control\<lparr>c_lease := \<lparr>leases = [(''b1'', ''s-1'')]\<rparr>\<rparr>)"
  using create_session_conflict [of "demo_env JNull" demo_body "''img''"
      "demo_control\<lparr>c_lease := \<lparr>leases = [(''b1'', ''s-1'')]\<rparr>\<rparr>" "''s-1''" fake_ops "demo_io ''s-2''"]
  by (simp add: demo_defs held_by_def)

text \<open>C8: The health poll of a new session always ends, when the clock advances by the sleep between
  attempts: after at most 300 requests. Its verdict is that of the first attempt that is past the
  deadline (unhealthy), answered 200 (healthy), or failed outside the transport (the exception).\<close>

theorem create_healthy_decides:
  assumes "\<And>k. io_clock io k + HEALTH_INTERVAL \<le> io_clock io (Suc k)"
    and "io_poll io \<le> io_clock io 0"
  shows "\<exists>n \<le> 300. create_healthy io url =
      Some (poll_verdict (io_clock io n) (io_poll io + HEALTH_TIMEOUT) (io_health io n (HGet (url @ ''/health'')))) \<and>
    (\<forall>j<n. io_clock io j < io_poll io + HEALTH_TIMEOUT \<and> retries (io_health io j (HGet (url @ ''/health''))))"
proof -
  let ?go = "\<lambda>k. io_clock io k < io_poll io + HEALTH_TIMEOUT \<and> retries (io_health io k (HGet (url @ ''/health'')))"
  have late: "\<not> ?go 300"
    using clock_advances [of "io_clock io" 300] assms by (simp add: HEALTH_TIMEOUT_def HEALTH_INTERVAL_def)
  then obtain n where n: "\<not> ?go n" "\<And>j. j < n \<Longrightarrow> ?go j"
    using exists_least_iff [of "\<lambda>k. \<not> ?go k"] by blast
  then have "n \<le> 300" using late not_le by blast
  moreover have "create_healthy io url =
      Some (poll_verdict (io_clock io n) (io_poll io + HEALTH_TIMEOUT) (io_health io n (HGet (url @ ''/health''))))"
    unfolding create_healthy_def by (rule health_poll_first) (use n in auto)
  ultimately show ?thesis using n(2) by blast
qed

theorem create_healthy_decides_witness:
  "\<exists>n \<le> 300. create_healthy (demo_io ''s-1'') ''u'' =
      Some (poll_verdict (io_clock (demo_io ''s-1'') n) (io_poll (demo_io ''s-1'') + HEALTH_TIMEOUT)
        (io_health (demo_io ''s-1'') n (HGet (''u'' @ ''/health'')))) \<and>
    (\<forall>j<n. io_clock (demo_io ''s-1'') j < io_poll (demo_io ''s-1'') + HEALTH_TIMEOUT \<and>
      retries (io_health (demo_io ''s-1'') j (HGet (''u'' @ ''/health''))))"
  by (rule create_healthy_decides) (simp_all add: demo_io_def HEALTH_INTERVAL_def)

text \<open>A creation that escapes strands its board. When the agent is healthy and accepts the boot with a
  body that is not a JSON object, the exception leaves the handler with the lease held by a session
  nobody can delete: it is not registered, and DELETE on it answers 404 and changes nothing.\<close>

theorem create_session_strands_board:
  assumes "create_admit env body (io_sid io) c = (Inr img, c1)"
    and "create_launch ops body (io_sid io) img (io_start io) c1 = (Inr info, c2)"
    and "create_healthy io (ai_agent_url info) = Some (Inr True)"
    and "negotiate (ce_http (ae_ctl env)) body (ai_agent_url info) = Escaped e"
    and "reg_get (io_sid io) (c_registry c) = None"
  shows "create_session ops env body io c = Some (Inl (Unhandled e), c2) \<and>
    held_by (sc_board_name body) (c_lease c2) = Some (io_sid io) \<and>
    delete_session ops env t now (io_sid io) retain purge c2 =
      (Inl (HTTPExc 404 (JStr (''unknown session '' @ io_sid io))), c2)"
proof (intro conjI)
  show "create_session ops env body io c = Some (Inl (Unhandled e), c2)"
    using assms by (simp add: create_session_def create_finish_def)
  have l1: "held_by (sc_board_name body) (c_lease c1) = Some (io_sid io) \<and> c_registry c1 = c_registry c"
    using assms(1) by (auto simp: create_admit_def held_by_def acquire_def
        split: option.splits if_splits prod.splits)
  have l2: "c_lease c2 = c_lease c1 \<and> c_registry c2 = c_registry c1"
    using assms(2) by (auto simp: create_launch_def split: prod.splits sum.splits)
  show "held_by (sc_board_name body) (c_lease c2) = Some (io_sid io)"
    using l1 l2 by simp
  show "delete_session ops env t now (io_sid io) retain purge c2 =
      (Inl (HTTPExc 404 (JStr (''unknown session '' @ io_sid io))), c2)"
    using l1 l2 assms(5) by (simp add: delete_session_def unknown_session_def)
qed

theorem create_session_strands_board_witness:
  "\<exists>c'. create_session fake_ops (demo_env (JList [])) demo_body (demo_io ''s-1'') demo_control =
     Some (Inl (Unhandled (AttributeErr ''no attribute get'')), c') \<and>
   held_by ''b1'' (c_lease c') = Some ''s-1''"
proof -
  obtain c1 where a: "create_admit (demo_env (JList [])) demo_body (io_sid (demo_io ''s-1'')) demo_control =
      (Inr ''img'', c1)" and c1: "c1 = demo_control\<lparr>c_lease := \<lparr>leases = [(''b1'', ''s-1'')]\<rparr>\<rparr>"
    by (simp add: create_defs demo_defs)
  obtain info c2 where l: "create_launch fake_ops demo_body (io_sid (demo_io ''s-1'')) ''img''
      (io_start (demo_io ''s-1'')) c1 = (Inr info, c2)"
    by (simp add: c1 create_defs demo_defs fake_ops_def fake_start_def agent_info_default_def Let_def)
  have n: "negotiate (ce_http (ae_ctl (demo_env (JList [])))) demo_body url =
      Escaped (AttributeErr ''no attribute get'')" for url
    by (simp add: create_defs demo_defs json_get_def)
  have g: "reg_get (io_sid (demo_io ''s-1'')) (c_registry demo_control) = None"
    by (simp add: demo_defs reg_get_def)
  show ?thesis
    using create_session_strands_board [OF a l demo_poll n g]
    by (auto simp: demo_body_def)
qed

text \<open>C4: Deleting a live session always frees its board, whatever the launcher does: with a writable
  store and an agent whose failures are HTTP errors, DELETE succeeds, exactly the leases of this
  session are gone, the session is unknown or dead, and every other session is untouched.\<close>

theorem delete_session_frees_board:
  assumes "reg_get sid (c_registry c) = Some info" and "live info" and "\<not> (retain \<and> purge)"
    and "wf_leases (c_lease c)"
    and "fs_write (ce_fs (ae_ctl env)) sid = WriteOk"
    and "\<And>e. ce_http (ae_ctl env) (HDelete (ai_agent_url info @ ''/session'')) = Inl e \<Longrightarrow> is_http_error e"
  shows "\<exists>c'. delete_session ops env ended now sid retain purge c =
      (Inr (if retain then ''retained'' else ''released''), c') \<and>
    (\<forall>b. held_by b (c_lease c') =
      (if held_by b (c_lease c) = Some sid then None else held_by b (c_lease c))) \<and>
    (\<forall>i. reg_get sid (c_registry c') = Some i \<longrightarrow> dead i) \<and>
    (\<forall>k. k \<noteq> sid \<longrightarrow> reg_get k (c_registry c') = reg_get k (c_registry c))"
proof -
  have "fst (teardown_session ops (ae_ctl env) ended now sid info retain c) = Inr ()"
    using assms(5,6) by (rule teardown_completes)
  then obtain c' where t: "teardown_session ops (ae_ctl env) ended now sid info retain c = (Inr (), c')"
    by (metis prod.collapse)
  then have "delete_session ops env ended now sid retain purge c =
      (Inr (if retain then ''retained'' else ''released''), c')"
    using assms(1-3) by (auto simp: delete_session_def live_def)
  then show ?thesis
    using teardown_released [OF t assms(4)] teardown_not_live [OF t] teardown_registry_other [OF t]
    by blast
qed

theorem delete_session_frees_board_witness:
  "\<exists>c'. delete_session fake_ops (demo_env JNull) 5 6 ''s-1'' False False
      (demo_control\<lparr>c_lease := \<lparr>leases = [(''b1'', ''s-1'')]\<rparr>,
         c_registry := reg_add (agent_info_default ''s-1'' ''b1'' ''p'' ''c'' 1 2) empty_registry\<rparr>) =
      (Inr ''released'', c') \<and> held_by ''b1'' (c_lease c') = None"
  using delete_session_frees_board [of "''s-1''"
      "demo_control\<lparr>c_lease := \<lparr>leases = [(''b1'', ''s-1'')]\<rparr>,
         c_registry := reg_add (agent_info_default ''s-1'' ''b1'' ''p'' ''c'' 1 2) empty_registry\<rparr>"
      "agent_info_default ''s-1'' ''b1'' ''p'' ''c'' 1 2" False False "demo_env JNull" fake_ops 5 6]
  by (auto simp: rg.get_add agent_info_default_def live_def wf_leases_def wf_dict_def demo_defs held_by_def
      split: if_splits)

text \<open>The diagnostics handler looks at the live agent first, then at the archive, then captures.
  A file answer always names a bundle that is in the store when the answer is given; NoDiagnostics is
  answered only when nothing was stored before or during the request; leases and registry are never
  touched.\<close>

theorem diagnostics_tiers:
  assumes "diagnostics ops env rq sid c = (r, c')"
  shows "c_lease c' = c_lease c \<and> c_registry c' = c_registry c \<and>
    (case r of
       Inr (FileAnswer p f) \<Rightarrow> has_bundle sid (c_store c') \<and> p = bundle_path sid (c_store c')
     | Inr (Proxied resp) \<Rightarrow> c' = c \<and> (\<exists>i. reg_get sid (c_registry c) = Some i \<and> live i)
     | Inl (HTTPExc status d) \<Rightarrow> status = 404 \<and> c_store c' = c_store c \<and>
         (reg_get sid (c_registry c) = None \<or> \<not> has_bundle sid (c_store c))
     | Inl (Unhandled e) \<Rightarrow> True)"
proof (cases "reg_get sid (c_registry c)")
  case None
  then show ?thesis using assms by (auto simp: diagnostics_def unknown_session_def)
next
  case (Some info)
  show ?thesis
  proof (cases "diag_from_agent env rq sid info")
    case (Inl e)
    then show ?thesis using assms Some by (auto simp: diagnostics_def)
  next
    case tier1: (Inr a)
    show ?thesis
    proof (cases a)
      case (Inr resp)
      moreover have "live info"
        using tier1 Inr by (auto simp: diag_from_agent_def live_def split: if_splits)
      ultimately show ?thesis using assms Some tier1 by (auto simp: diagnostics_def)
    next
      case (Inl attempt)
      obtain s c1 where ab: "archive_bundle ops (ae_ctl env) sid (ai_agent_url info) (ai_artifact_dir info) c
          = (s, c1)"
        by (cases "archive_bundle ops (ae_ctl env) sid (ai_agent_url info) (ai_artifact_dir info) c")
      note frame = archive_bundle_frame [OF ab]
      have src: "s = Inr x \<Longrightarrow> (x = ''none'' \<and> c_store c1 = c_store c) \<or>
          (x \<noteq> ''none'' \<and> has_bundle sid (c_store c1))" for x
        using archive_bundle_source ab by fastforce
      show ?thesis
        using assms Some tier1 Inl ab frame src
        by (cases s) (auto simp: diagnostics_def archived_answer_def split: if_splits)
    qed
  qed
qed

theorem diagnostics_tiers_witness:
  "case diagnostics fake_ops (demo_env JNull) demo_request ''s-1''
     (demo_control\<lparr>c_registry := reg_add ((agent_info_default ''s-1'' ''b1'' ''p'' ''c'' 1 2)
        \<lparr>ai_state := ''dead''\<rparr>) empty_registry\<rparr>) of
     (Inr (FileAnswer p f), c') \<Rightarrow> has_bundle ''s-1'' (c_store c')
   | _ \<Rightarrow> False"
proof -
  let ?c = "demo_control\<lparr>c_registry := reg_add ((agent_info_default ''s-1'' ''b1'' ''p'' ''c'' 1 2)
        \<lparr>ai_state := ''dead''\<rparr>) empty_registry\<rparr>"
  obtain p f c' where d: "diagnostics fake_ops (demo_env JNull) demo_request ''s-1'' ?c = (Inr (FileAnswer p f), c')"
    by (simp add: diagnostics_def rg.get_add agent_info_default_def diag_from_agent_def has_bundle_def
        session_entry_def demo_defs dict_mem_def archive_bundle_def raise_for_status_def store_bundle_def
        write_bundle_def write_file_def archived_answer_def)
  show ?thesis using diagnostics_tiers [OF d] d by simp
qed

lemma fetch_state_id:
  assumes "\<And>r r'. ae_validate env r = Inr r' \<Longrightarrow> sr_session_id r' = sr_session_id r"
  shows "fst (fetch_state env now info reg) = Inr resp \<Longrightarrow> sr_session_id resp = ai_session_id info"
  by (auto simp: fetch_state_def validated_def dead_response_def agent_response_def
      split: if_splits sum.splits prod.splits dest!: assms)

lemma gather_states_ids:
  assumes "\<And>r r'. ae_validate env r = Inr r' \<Longrightarrow> sr_session_id r' = sr_session_id r"
  shows "fst (gather_states env now page reg) = Inr resps \<Longrightarrow>
    map sr_session_id resps = map ai_session_id page"
proof (induction page arbitrary: reg resps)
  case Nil
  then show ?case by simp
next
  case (Cons info page)
  obtain r reg' rs reg'' where s: "fetch_state env now info reg = (r, reg')"
    "gather_states env now page reg' = (rs, reg'')"
    by (metis prod.collapse)
  with Cons.prems obtain x xs where "r = Inr x" "rs = Inr xs" "resps = x # xs"
    by (auto split: sum.splits)
  then show ?case
    using s Cons.IH [of reg' xs] fetch_state_id [OF assms, where env = env and reg = reg and now = now] by simp
qed

lemma gather_states_registry:
  "reg_get k (snd (gather_states env now page reg)) = reg_get k reg"
proof (induction page arbitrary: reg)
  case (Cons info page)
  have "reg_get k (snd (fetch_state env now info reg)) = reg_get k reg"
    by (auto simp: fetch_state_def split: sum.splits)
  then show ?case
    using Cons.IH [of "snd (fetch_state env now info reg)"] by (auto split: prod.splits)
qed simp

lemma list_sessions_slice:
  assumes "list_sessions env now off lm c = (Inr resp, c')"
    and "\<And>r r'. ae_validate env r = Inr r' \<Longrightarrow> sr_session_id r' = sr_session_id r"
  shows "map sr_session_id (sl_sessions resp) =
      map ai_session_id (py_slice (dict_values (reg_sessions (c_registry c))) off (off + min lm 100)) \<and>
    sl_total resp = int (length (reg_sessions (c_registry c)))"
  using assms(1) gather_states_ids [OF assms(2), where page =
      "py_slice (dict_values (reg_sessions (c_registry c))) off (off + min lm 100)"
      and now = now and reg = "c_registry c" and env = env]
  by (auto simp: list_sessions_def reg_list_page_def MAX_LIMIT_def Let_def split: prod.splits sum.splits)

text \<open>GET /sessions answers with exactly the requested page of the registry, in registration order,
  at most 100 entries long, together with the full count, and listing never adds, drops or changes a
  registered session. (For offset and limit that are not negative; pydantic's validation keeps the
  session id.)\<close>

theorem list_sessions_page:
  assumes "list_sessions env now off lm c = (Inr resp, c')"
    and "\<And>r r'. ae_validate env r = Inr r' \<Longrightarrow> sr_session_id r' = sr_session_id r"
    and "0 \<le> off" and "0 \<le> lm"
  shows "map sr_session_id (sl_sessions resp) =
      map ai_session_id (take (nat (min lm 100)) (drop (nat off) (dict_values (reg_sessions (c_registry c))))) \<and>
    length (sl_sessions resp) \<le> 100 \<and>
    sl_total resp = int (length (reg_sessions (c_registry c))) \<and>
    (\<forall>k. reg_get k (c_registry c') = reg_get k (c_registry c))"
proof -
  have ids: "map sr_session_id (sl_sessions resp) =
      map ai_session_id (take (nat (min lm 100)) (drop (nat off) (dict_values (reg_sessions (c_registry c)))))"
    using list_sessions_slice [OF assms(1,2)] assms(3,4) by (simp add: py_slice_nonneg nat_add_distrib)
  then have "length (sl_sessions resp) \<le> nat (min lm 100)"
    by (metis length_map length_take min.cobounded2)
  moreover have "\<forall>k. reg_get k (c_registry c') = reg_get k (c_registry c)"
    using assms(1) gather_states_registry
    by (auto simp: list_sessions_def Let_def split: prod.splits sum.splits) (metis snd_conv)
  ultimately show ?thesis using ids list_sessions_slice [OF assms(1,2)] by simp
qed

theorem list_sessions_page_witness:
  "\<exists>resp c'. list_sessions (demo_env JNull) 7 0 500
      (demo_control\<lparr>c_registry := reg_add (agent_info_default ''s-1'' ''b1'' ''p'' ''c'' 1 2) empty_registry\<rparr>) =
      (Inr resp, c') \<and> length (sl_sessions resp) \<le> 100"
proof -
  let ?c = "demo_control\<lparr>c_registry := reg_add (agent_info_default ''s-1'' ''b1'' ''p'' ''c'' 1 2) empty_registry\<rparr>"
  obtain resp c' where l: "list_sessions (demo_env JNull) 7 0 500 ?c = (Inr resp, c')"
    by (simp add: list_sessions_def reg_list_page_def reg_add_def demo_defs agent_info_default_def
        py_slice_nonneg MAX_LIMIT_def fetch_state_def agent_report_def json_get_def validated_def Let_def)
  show ?thesis using list_sessions_page [OF l] l by (simp add: demo_defs)
qed

text \<open>The page limit is only an upper bound on the number asked for, not on the answer: with
  limit=-1 every registered session except the last is listed, however many there are.\<close>

theorem list_sessions_negative_limit:
  assumes "list_sessions env now 0 (-1) c = (Inr resp, c')"
    and "\<And>r r'. ae_validate env r = Inr r' \<Longrightarrow> sr_session_id r' = sr_session_id r"
  shows "map sr_session_id (sl_sessions resp) =
    map ai_session_id (butlast (dict_values (reg_sessions (c_registry c))))"
proof -
  have "nat (int n - 1) = n - 1" for n by simp
  then show ?thesis
    using list_sessions_slice [OF assms]
    by (simp add: py_slice_def slice_bound_def butlast_conv_take Let_def)
qed

theorem list_sessions_negative_limit_witness:
  "\<exists>resp c'. list_sessions (demo_env JNull) 7 0 (-1)
      (demo_control\<lparr>c_registry := reg_add (agent_info_default ''s-2'' ''b2'' ''p'' ''c'' 1 2)
        (reg_add (agent_info_default ''s-1'' ''b1'' ''p'' ''c'' 1 2) empty_registry)\<rparr>) =
      (Inr resp, c') \<and> map sr_session_id (sl_sessions resp) = [''s-1'']"
proof -
  let ?c = "demo_control\<lparr>c_registry := reg_add (agent_info_default ''s-2'' ''b2'' ''p'' ''c'' 1 2)
        (reg_add (agent_info_default ''s-1'' ''b1'' ''p'' ''c'' 1 2) empty_registry)\<rparr>"
  obtain resp c' where l: "list_sessions (demo_env JNull) 7 0 (-1) ?c = (Inr resp, c')"
    by (simp add: list_sessions_def reg_list_page_def reg_add_def demo_defs agent_info_default_def
        py_slice_def slice_bound_def MAX_LIMIT_def fetch_state_def agent_report_def json_get_def
        validated_def Let_def)
  show ?thesis
    using list_sessions_negative_limit [OF l] l
    by (auto simp: demo_defs reg_add_def agent_info_default_def)
qed

lemma filter_live: "filter (\<lambda>s. ai_state s = ''live'') = filter live"
  by (intro ext filter_cong) (simp_all add: live_def)

text \<open>C9: After a restart the control plane knows what the launcher knows: the registry holds exactly
  the listed sessions, dead ones included, and the lease table gives each board to the live session
  on it and to nobody else, so a retained corpse never blocks its board. (The listing has distinct
  session ids and at most one live session per board, and is the same when asked twice.)\<close>

theorem startup_recovers:
  assumes "l_list_sessions ops (c_launcher c) = (Inr ss, l)" and "l_list_sessions ops l = (Inr ss, l')"
    and "distinct (map ai_session_id ss)" and "distinct (map ai_board_name (filter live ss))"
  shows "\<exists>c'. startup ops c = (Inr (), c') \<and>
    (\<forall>i. reg_get (ai_session_id i) (c_registry c') = Some i \<longleftrightarrow> i \<in> set ss) \<and>
    (\<forall>b s. held_by b (c_lease c') = Some s \<longleftrightarrow>
      (\<exists>i\<in>set ss. live i \<and> ai_board_name i = b \<and> ai_session_id i = s))"
proof -
  let ?reg = "reg_rebuild ss (c_registry c)" and ?ls = "rebuild_from (filter live ss) (c_lease c)"
  have "reg_get (ai_session_id i) ?reg = Some i \<longleftrightarrow> i \<in> set ss" for i
    using assms(3) find_distinct_key [of ai_session_id "rev ss" i]
    by (auto simp: reg_get_rebuild rev_map [symmetric] dest!: find_SomeD)
  moreover have "held_by b ?ls = Some s \<longleftrightarrow>
      (\<exists>i\<in>set ss. live i \<and> ai_board_name i = b \<and> ai_session_id i = s)" for b s
  proof
    assume "held_by b ?ls = Some s"
    then obtain i where "find (\<lambda>s. ai_board_name s = b) (rev (filter live ss)) = Some i"
      "ai_session_id i = s"
      by (auto simp: held_by_rebuild)
    then show "\<exists>i\<in>set ss. live i \<and> ai_board_name i = b \<and> ai_session_id i = s"
      by (auto dest!: find_SomeD)
  next
    assume "\<exists>i\<in>set ss. live i \<and> ai_board_name i = b \<and> ai_session_id i = s"
    then show "held_by b ?ls = Some s"
      using held_by_rebuild_distinct [OF assms(4)] by auto
  qed
  ultimately show ?thesis
    using assms(1,2) by (simp add: startup_def Let_def filter_live)
qed

theorem startup_recovers_witness:
  "\<exists>c'. startup fake_ops (demo_control\<lparr>c_launcher := \<lparr>fl_sessions =
      [(''s-1'', (agent_info_default ''s-1'' ''b1'' ''p'' ''c'' 1 2)\<lparr>ai_state := ''dead''\<rparr>),
       (''s-2'', agent_info_default ''s-2'' ''b1'' ''p'' ''c'' 1 2)], fl_next_port = 3\<rparr>\<rparr>) = (Inr (), c') \<and>
    held_by ''b1'' (c_lease c') = Some ''s-2''"
  using startup_recovers [of fake_ops "demo_control\<lparr>c_launcher := \<lparr>fl_sessions =
      [(''s-1'', (agent_info_default ''s-1'' ''b1'' ''p'' ''c'' 1 2)\<lparr>ai_state := ''dead''\<rparr>),
       (''s-2'', agent_info_default ''s-2'' ''b1'' ''p'' ''c'' 1 2)], fl_next_port = 3\<rparr>\<rparr>",
      OF _ _]
  by (auto simp: fake_ops_def fake_list_sessions_def agent_info_default_def live_def)

end
