(* ===== verification/Control_System.thy ===== *)
theory Control_System
  imports Control_App Reaper
begin

text \<open>
  The control plane as one event loop. Handlers suspend at every \<^verbatim>\<open>await\<close>, so creations, teardowns, purges
  and the reaper interleave. A suspended handler is a task; a step resumes one task, or starts one.
  The steps are the pieces the handlers are built from: \<open>create_admit\<close>, \<open>create_launch\<close>,
  \<open>negotiate\<close>, \<open>create_commit\<close>, \<open>capture_step\<close>, \<open>write_meta\<close>, the launcher's \<open>stop\<close> and \<open>purge\<close>,
  \<open>close_books\<close>, and of the reaper one entry of its page at a time, then \<open>reap_bundles\<close>. One call of the launcher
  and one capture are one step each. The lease table's lock is never held over an \<^verbatim>\<open>await\<close>, so releasing
  a lease and closing the books is one step.

  The event \<open>Strand\<close> marks a creation that ends with an exception nobody catches. A teardown may end with one at
  two places, at the metadata and at the agent's DELETE; its session then stays registered. Session ids
  are fresh when they are drawn.
\<close>

datatype task =
  Admitted string session_create string
| Launched string session_create agent_info
| Capturing string agent_info bool
| Recording string agent_info bool string
| Stopping string agent_info bool
| Closing string bool bool
| Purging string
| Forgetting string
| Reaping reap_env time time "agent_info list"
| Reaped reap_env time time string "agent_info list"

datatype event = Progress | Strand

type_synonym 'l system = "'l control \<times> task list"

fun creating :: "task \<Rightarrow> string option" where
  "creating (Admitted sid _ _) = Some sid"
| "creating (Launched sid _ _) = Some sid"
| "creating _ = None"

fun task_board :: "task \<Rightarrow> string option" where
  "task_board (Admitted _ body _) = Some (sc_board_name body)"
| "task_board (Launched _ _ info) = Some (ai_board_name info)"
| "task_board _ = None"

fun tearing :: "task \<Rightarrow> string option" where
  "tearing (Capturing sid _ _) = Some sid"
| "tearing (Recording sid _ _ _) = Some sid"
| "tearing (Stopping sid _ _) = Some sid"
| "tearing (Closing sid _ _) = Some sid"
| "tearing _ = None"

text \<open>The sessions a task is going to forget.\<close>

fun purging :: "task \<Rightarrow> string list" where
  "purging (Purging sid) = [sid]"
| "purging (Forgetting sid) = [sid]"
| "purging (Reaping renv now ttl page) = map ai_session_id (filter dead page)"
| "purging (Reaped renv now ttl sid page) = sid # map ai_session_id (filter dead page)"
| "purging _ = []"

definition fresh :: "string \<Rightarrow> 'l system \<Rightarrow> bool" where
  "fresh sid s \<longleftrightarrow>
     reg_get sid (c_registry (fst s)) = None \<and>
     (\<forall>b. held_by b (c_lease (fst s)) \<noteq> Some sid) \<and>
     (\<forall>t\<in>set (snd s). creating t \<noteq> Some sid \<and> tearing t \<noteq> Some sid \<and> sid \<notin> set (purging t))"

text \<open>Whether the reaper passes over an entry of its page.\<close>

definition spared :: "time \<Rightarrow> time \<Rightarrow> agent_info \<Rightarrow> bool" where
  "spared now ttl info \<longleftrightarrow>
     ai_state info \<noteq> ''dead'' \<or> ai_ended_at info = None \<or> now - the (ai_ended_at info) \<le> ttl"

inductive ctl_step ::
  "'l launcher_ops \<Rightarrow> app_env \<Rightarrow> event \<Rightarrow> 'l system \<Rightarrow> 'l system \<Rightarrow> bool"
  for ops env where
  Admit: "create_admit env body sid c = (Inr img, c') \<Longrightarrow> fresh sid (c, ts) \<Longrightarrow>
     ctl_step ops env Progress (c, ts) (c', ts @ [Admitted sid body img])"
| Refuse: "create_admit env body sid c = (Inl f, c') \<Longrightarrow> ctl_step ops env Progress (c, ts) (c', ts)"
| Launch: "create_launch ops body sid img now c = (Inr info, c') \<Longrightarrow>
     ctl_step ops env Progress (c, ts @ Admitted sid body img # us) (c', ts @ Launched sid body info # us)"
| Launch_fails: "create_launch ops body sid img now c = (Inl f, c') \<Longrightarrow>
     ctl_step ops env Progress (c, ts @ Admitted sid body img # us) (c', ts @ us)"
| Unwind: "ctl_step ops env Progress (c, ts @ Launched sid body info # us)
     (c\<lparr>c_registry := reg_add info (c_registry c)\<rparr>, ts @ Capturing sid info True # us)"
| Commit: "io_sid io = sid \<Longrightarrow>
     ctl_step ops env Progress (c, ts @ Launched sid body info # us) (create_commit io info c, ts @ us)"
| Escape: "ctl_step ops env Strand (c, ts @ Launched sid body info # us) (c, ts @ us)"
| Delete: "reg_get sid (c_registry c) = Some info \<Longrightarrow> live info \<Longrightarrow>
     ctl_step ops env Progress (c, ts) (c, ts @ [Capturing sid info retain])"
| Delete_dead: "reg_get sid (c_registry c) = Some info \<Longrightarrow> dead info \<Longrightarrow>
     ctl_step ops env Progress (c, ts) (c, ts @ [Purging sid])"
| Purge: "l_purge ops sid (c_launcher c) = (Inr (), l) \<Longrightarrow>
     ctl_step ops env Progress (c, ts @ Purging sid # us) (c\<lparr>c_launcher := l\<rparr>, ts @ Forgetting sid # us)"
| Purge_fails: "l_purge ops sid (c_launcher c) = (Inl e, l) \<Longrightarrow>
     ctl_step ops env Progress (c, ts @ Purging sid # us) (c\<lparr>c_launcher := l\<rparr>, ts @ us)"
| Forget: "ctl_step ops env Progress (c, ts @ Forgetting sid # us)
     (c\<lparr>c_store := store_delete (ce_fs (ae_ctl env)) sid (c_store c),
        c_registry := reg_remove sid (c_registry c)\<rparr>, ts @ us)"
| Capture: "capture_step ops (ae_ctl env) sid info c = (source, c') \<Longrightarrow>
     ctl_step ops env Progress (c, ts @ Capturing sid info retain # us)
       (c', ts @ Recording sid info retain source # us)"
| Record: "write_meta (ce_fs (ae_ctl env)) sid (session_meta sid info ended retain source) (c_store c)
       = (Inr (), st) \<Longrightarrow>
     ctl_step ops env Progress (c, ts @ Recording sid info retain source # us)
       (c\<lparr>c_store := st\<rparr>, ts @ Stopping sid info retain # us)"
| Record_fails: "write_meta (ce_fs (ae_ctl env)) sid (session_meta sid info ended retain source) (c_store c)
       = (Inl e, st) \<Longrightarrow>
     ctl_step ops env Progress (c, ts @ Recording sid info retain source # us)
       (c\<lparr>c_store := st\<rparr>, ts @ us)"
| Release_escapes: "ctl_step ops env Progress (c, ts @ Stopping sid info retain # us) (c, ts @ us)"
| Stop: "l_stop ops now sid (\<not> retain) (c_launcher c) = (r, l) \<Longrightarrow>
     ctl_step ops env Progress (c, ts @ Stopping sid info retain # us)
       (c\<lparr>c_launcher := l\<rparr>, ts @ Closing sid retain (case r of Inl _ \<Rightarrow> True | Inr _ \<Rightarrow> False) # us)"
| Close: "ctl_step ops env Progress (c, ts @ Closing sid retain failed # us)
     (close_books ended sid retain failed c, ts @ us)"
| Activity: "ctl_step ops env Progress (c, ts) (c\<lparr>c_registry := reg_touch sid now (c_registry c)\<rparr>, ts)"
| Snapshot: "archive_bundle ops (ae_ctl env) sid url dir c = (r, c') \<Longrightarrow>
     ctl_step ops env Progress (c, ts) (c', ts)"
| Snapshot_meta: "write_meta (ce_fs (ae_ctl env)) sid meta (c_store c) = (r, st) \<Longrightarrow>
     ctl_step ops env Progress (c, ts) (c\<lparr>c_store := st\<rparr>, ts)"
| Reap: "env_float (re_num renv) ''BOARDFARM_CORPSE_TTL'' 86400 = Inr ttl \<Longrightarrow>
     ctl_step ops env Progress (c, ts)
       (c, ts @ [Reaping renv now ttl (fst (reg_list_page 0 10000 (c_registry c)))])"
| Reap_spares: "spared now ttl info \<Longrightarrow>
     ctl_step ops env Progress (c, ts @ Reaping renv now ttl (info # page) # us)
       (c, ts @ Reaping renv now ttl page # us)"
| Reap_purges: "\<not> spared now ttl info \<Longrightarrow> l_purge ops (ai_session_id info) (c_launcher c) = (Inr (), l) \<Longrightarrow>
     ctl_step ops env Progress (c, ts @ Reaping renv now ttl (info # page) # us)
       (c\<lparr>c_launcher := l\<rparr>, ts @ Reaped renv now ttl (ai_session_id info) page # us)"
| Reap_fails: "\<not> spared now ttl info \<Longrightarrow> l_purge ops (ai_session_id info) (c_launcher c) = (Inl e, l) \<Longrightarrow>
     ctl_step ops env Progress (c, ts @ Reaping renv now ttl (info # page) # us) (c\<lparr>c_launcher := l\<rparr>, ts @ us)"
| Reap_forgets: "ctl_step ops env Progress (c, ts @ Reaped renv now ttl sid page # us)
     (c\<lparr>c_registry := reg_remove sid (c_registry c)\<rparr>, ts @ Reaping renv now ttl page # us)"
| Reap_sweeps: "reap_bundles renv (c_registry c) now bundle_ttl max_bytes (c_store c) = (r, st) \<Longrightarrow>
     ctl_step ops env Progress (c, ts @ Reaping renv now ttl [] # us) (c\<lparr>c_store := st\<rparr>, ts @ us)"

text \<open>Reachability, with a flag that tells whether a creation has escaped on the way.\<close>

inductive reaches ::
  "'l launcher_ops \<Rightarrow> app_env \<Rightarrow> 'l system \<Rightarrow> bool \<Rightarrow> 'l system \<Rightarrow> bool"
  for ops env s0 where
  start: "reaches ops env s0 False s0"
| next_step: "reaches ops env s0 strand s \<Longrightarrow> ctl_step ops env ev s s' \<Longrightarrow>
     reaches ops env s0 (strand \<or> ev = Strand) s'"

section \<open>The invariant\<close>

definition holds :: "'l control \<Rightarrow> string \<Rightarrow> string \<Rightarrow> bool" where
  "holds c b sid \<longleftrightarrow> held_by b (c_lease c) = Some sid"

definition lease_inv :: "'l system \<Rightarrow> bool" where
  "lease_inv s \<longleftrightarrow> (case s of (c, ts) \<Rightarrow>
     wf_leases (c_lease c) \<and> wf_registry (c_registry c) \<and>
     (\<forall>sid i. reg_get sid (c_registry c) = Some i \<and> live i \<longrightarrow> holds c (ai_board_name i) sid) \<and>
     (\<forall>t\<in>set ts. \<forall>sid. creating t = Some sid \<longrightarrow>
        holds c (the (task_board t)) sid \<and> reg_get sid (c_registry c) = None) \<and>
     (\<forall>t\<in>set ts. \<forall>u\<in>set ts. \<forall>sid. creating t = Some sid \<longrightarrow> tearing u \<noteq> Some sid) \<and>
     (\<forall>sid body info. Launched sid body info \<in> set ts \<longrightarrow> live info \<and> ai_session_id info = sid) \<and>
     distinct (map creating (filter (\<lambda>t. creating t \<noteq> None) ts)))"

text \<open>Every lease is owed to a running creation or to a live session.\<close>

definition accounted :: "'l system \<Rightarrow> bool" where
  "accounted s \<longleftrightarrow> (case s of (c, ts) \<Rightarrow>
     \<forall>b sid. holds c b sid \<longrightarrow>
       (\<exists>t\<in>set ts. creating t = Some sid \<and> task_board t = Some b) \<or>
       (\<exists>i. reg_get sid (c_registry c) = Some i \<and> live i \<and> ai_board_name i = b))"

lemma lease_inv_D:
  assumes "lease_inv (c, ts)"
  shows "wf_leases (c_lease c)" and "wf_registry (c_registry c)"
    and "reg_get sid (c_registry c) = Some i \<Longrightarrow> live i \<Longrightarrow> holds c (ai_board_name i) sid"
    and "t \<in> set ts \<Longrightarrow> creating t = Some sid \<Longrightarrow>
      holds c (the (task_board t)) sid \<and> reg_get sid (c_registry c) = None"
    and "t \<in> set ts \<Longrightarrow> u \<in> set ts \<Longrightarrow> creating t = Some sid \<Longrightarrow> tearing u \<noteq> Some sid"
    and "Launched sid body i \<in> set ts \<Longrightarrow> live i \<and> ai_session_id i = sid"
    and "distinct (map creating (filter (\<lambda>t. creating t \<noteq> None) ts))"
  using assms unfolding lease_inv_def by auto

lemma lease_inv_I:
  assumes "wf_leases (c_lease c)" and "wf_registry (c_registry c)"
    and "\<And>sid i. reg_get sid (c_registry c) = Some i \<Longrightarrow> live i \<Longrightarrow> holds c (ai_board_name i) sid"
    and "\<And>t sid. t \<in> set ts \<Longrightarrow> creating t = Some sid \<Longrightarrow>
      holds c (the (task_board t)) sid \<and> reg_get sid (c_registry c) = None"
    and "\<And>t u sid. t \<in> set ts \<Longrightarrow> u \<in> set ts \<Longrightarrow> creating t = Some sid \<Longrightarrow> tearing u \<noteq> Some sid"
    and "\<And>sid body i. Launched sid body i \<in> set ts \<Longrightarrow> live i \<and> ai_session_id i = sid"
    and "distinct (map creating (filter (\<lambda>t. creating t \<noteq> None) ts))"
  shows "lease_inv (c, ts)"
  unfolding lease_inv_def prod.case by (intro conjI allI ballI impI) (use assms in auto)

lemma creating_unique:
  assumes "distinct (map creating (filter (\<lambda>t. creating t \<noteq> None) (ts @ t # us)))"
    and "creating t = Some sid" and "u \<in> set (ts @ us)"
  shows "creating u \<noteq> Some sid"
proof
  assume "creating u = Some sid"
  then have "Some sid \<in> creating ` set (filter (\<lambda>t. creating t \<noteq> None) (ts @ us))"
    using assms(3) by (intro image_eqI [of _ _ u]) auto
  then show False using assms(1,2) by auto
qed

text \<open>Steps that leave the leases alone and bring no session to life.\<close>

lemma lease_inv_frame:
  assumes "lease_inv (c, ts)"
    and "c_lease c' = c_lease c" and "wf_registry (c_registry c')"
    and "\<And>k i. reg_get k (c_registry c') = Some i \<Longrightarrow> live i \<Longrightarrow> reg_get k (c_registry c) = Some i"
    and "\<And>k. reg_get k (c_registry c) = None \<Longrightarrow> reg_get k (c_registry c') = None"
    and "\<And>t. t \<in> set ts' \<Longrightarrow> creating t \<noteq> None \<Longrightarrow> t \<in> set ts"
    and "distinct (map creating (filter (\<lambda>t. creating t \<noteq> None) ts'))"
    and "\<And>u k. u \<in> set ts' \<Longrightarrow> tearing u = Some k \<Longrightarrow>
      reg_get k (c_registry c) \<noteq> None \<or> (\<exists>u'\<in>set ts. tearing u' = Some k)"
  shows "lease_inv (c', ts')"
proof -
  note d = lease_inv_D [OF assms(1)]
  have h: "holds c' b k = holds c b k" for b k using assms(2) by (simp add: holds_def)
  have sep: "tearing u \<noteq> Some k" if "t \<in> set ts'" "u \<in> set ts'" "creating t = Some k" for t u k
  proof
    assume u: "tearing u = Some k"
    have t: "t \<in> set ts" using that assms(6) by auto
    from assms(8) [OF that(2) u] show False using d(4) [OF t that(3)] d(5) [OF t _ that(3)] by auto
  qed
  have l: "live i \<and> ai_session_id i = k" if "Launched k body i \<in> set ts'" for k body i
    using d(6) assms(6) [OF that] by auto
  have own: "holds c' (the (task_board t)) k \<and> reg_get k (c_registry c') = None"
    if "t \<in> set ts'" "creating t = Some k" for t k
    using that assms(5,6) d(4) h by (metis option.distinct(1))
  show ?thesis
    by (rule lease_inv_I) (use d(1,3) assms(2-4,7) sep l own h in auto)
qed

text \<open>Steps that give back what the session \<open>sid\<close> held.\<close>

lemma lease_inv_release:
  assumes "lease_inv (c, ts)"
    and "c_lease c' = release sid (c_lease c)" and "wf_registry (c_registry c')"
    and "\<And>k i. reg_get k (c_registry c') = Some i \<Longrightarrow> live i \<Longrightarrow> k \<noteq> sid \<and> reg_get k (c_registry c) = Some i"
    and "\<And>k. reg_get k (c_registry c) = None \<Longrightarrow> reg_get k (c_registry c') = None"
    and "\<And>t. t \<in> set ts' \<Longrightarrow> t \<in> set ts"
    and "distinct (map creating (filter (\<lambda>t. creating t \<noteq> None) ts'))"
    and "\<And>t. t \<in> set ts' \<Longrightarrow> creating t \<noteq> Some sid"
  shows "lease_inv (c', ts')"
proof -
  note d = lease_inv_D [OF assms(1)]
  have h: "holds c' b k" if "holds c b k" "k \<noteq> sid" for b k
    using that d(1) assms(2) by (simp add: holds_def lt.release_holder)
  have wf: "wf_leases (c_lease c')" using d(1) assms(2) by (simp add: lt.release_invar)
  have reg: "holds c' (ai_board_name i) k" if "reg_get k (c_registry c') = Some i" "live i" for k i
    using assms(4) [OF that] that(2) d(3) h by blast
  have own: "holds c' (the (task_board t)) k \<and> reg_get k (c_registry c') = None"
    if "t \<in> set ts'" "creating t = Some k" for t k
    using that assms(5,6,8) d(4) h by metis
  have sep: "tearing u \<noteq> Some k" if "t \<in> set ts'" "u \<in> set ts'" "creating t = Some k" for t u k
    using d(5) assms(6) that by blast
  have l: "live i \<and> ai_session_id i = k" if "Launched k body i \<in> set ts'" for k body i
    using d(6) assms(6) that by blast
  show ?thesis
    by (rule lease_inv_I) (use wf reg assms(3,7) own sep l in auto)
qed

lemma lease_inv_admit:
  assumes "lease_inv (c, ts)" and "create_admit env body sid c = (Inr img, c')" and "fresh sid (c, ts)"
  shows "lease_inv (c', ts @ [Admitted sid body img])"
  using assms(2)
proof (cases rule: create_admit_cases)
  case (admitted img')
  note d = lease_inv_D [OF assms(1)]
  have reg: "c_registry c' = c_registry c" by (subst admitted(2)) simp
  have wf: "wf_leases (c_lease c')" using admitted(4) d(1) by (simp add: lt.acquire_invar)
  have h: "holds c' b k" if "holds c b k" for b k
    using that admitted(3,5) by (auto simp: holds_def)
  have new: "holds c' (sc_board_name body) sid" using admitted(5) by (simp add: holds_def)
  have f: "reg_get sid (c_registry c) = None" "\<And>t. t \<in> set ts \<Longrightarrow> creating t \<noteq> Some sid \<and> tearing t \<noteq> Some sid"
    using assms(3) by (auto simp: fresh_def)
  have own: "holds c' (the (task_board t)) k \<and> reg_get k (c_registry c) = None"
    if "t \<in> set (ts @ [Admitted sid body img])" "creating t = Some k" for t k
    using that d(4) h new f by auto
  have live: "holds c' (ai_board_name i) k" if "reg_get k (c_registry c) = Some i" "live i" for k i
    using that d(3) h by blast
  have dist: "distinct (map creating (filter (\<lambda>t. creating t \<noteq> None) (ts @ [Admitted sid body img])))"
    using d(7) f(2) by auto
  have sep: "tearing u \<noteq> Some k"
    if "t \<in> set (ts @ [Admitted sid body img])" "u \<in> set (ts @ [Admitted sid body img])" "creating t = Some k"
    for t u k
    using that d(5) f(2) by auto
  have l: "live i \<and> ai_session_id i = k" if "Launched k b i \<in> set (ts @ [Admitted sid body img])" for k b i
    using d(6) that by auto
  show ?thesis
    by (rule lease_inv_I) (unfold reg, (fact wf d(2) live own sep l dist)+)
qed (use assms(2) in auto)

lemma lease_inv_launch:
  assumes "lease_inv (c, ts @ Admitted sid body img # us)" and "launcher_starts ops"
    and "create_launch ops body sid img now c = (Inr info, c')"
  shows "lease_inv (c', ts @ Launched sid body info # us)"
  using assms(3)
proof (cases rule: create_launch_cases)
  case (launched info')
  note d = lease_inv_D [OF assms(1)]
  have i: "live info \<and> ai_session_id info = sid \<and> ai_board_name info = sc_board_name body"
    using launched launcher_starts.started_identity [OF assms(2)] launcher_starts.started_live [OF assms(2)]
    by blast
  have c: "c_lease c' = c_lease c" "c_registry c' = c_registry c" by (subst launched(2); simp)+
  have h: "holds c' = holds c" by (intro ext) (simp add: holds_def c)
  have old: "holds c (sc_board_name body) sid \<and> reg_get sid (c_registry c) = None"
    using d(4) [of "Admitted sid body img" sid] by simp
  have own: "holds c (the (task_board t)) k \<and> reg_get k (c_registry c) = None"
    if "t \<in> set (ts @ Launched sid body info # us)" "creating t = Some k" for t k
    using that old i d(4) [of t k] by auto
  have sep: "tearing u \<noteq> Some k"
    if "t \<in> set (ts @ Launched sid body info # us)" "u \<in> set (ts @ Launched sid body info # us)"
      "creating t = Some k" for t u k
  proof -
    have "\<exists>t'\<in>set (ts @ Admitted sid body img # us). creating t' = Some k" using that(1,3) by auto
    moreover have "u \<in> set (ts @ Admitted sid body img # us) \<or> tearing u = None" using that(2) by auto
    ultimately show ?thesis using d(5) by fastforce
  qed
  have l: "live i' \<and> ai_session_id i' = k"
    if "Launched k b i' \<in> set (ts @ Launched sid body info # us)" for k b i'
    using that i d(6) by auto
  have dist: "distinct (map creating (filter (\<lambda>t. creating t \<noteq> None) (ts @ Launched sid body info # us)))"
    using d(7) by simp
  show ?thesis
    by (rule lease_inv_I) (unfold c h, (fact d(1-3) own sep l dist)+)
qed simp

lemma lease_inv_commit:
  assumes "lease_inv (c, ts @ Launched sid body info # us)"
    and c: "c_lease c' = c_lease c"
    and get: "\<And>k. reg_get k (c_registry c') = (if k = sid then Some info else reg_get k (c_registry c))"
    and reg: "wf_registry (c_registry c')"
    and us': "us' = us \<or> us' = Capturing sid info True # us"
  shows "lease_inv (c', ts @ us')"
proof -
  note d = lease_inv_D [OF assms(1)]
  have h: "holds c' = holds c" by (intro ext) (simp add: holds_def c)
  have own0: "holds c (ai_board_name info) sid"
    using d(4) [of "Launched sid body info" sid] by simp
  have cr: "t \<in> set (ts @ us)" if "t \<in> set (ts @ us')" "creating t = Some k" for t k
    using that us' by auto
  have ne: "k \<noteq> sid" if "t \<in> set (ts @ us')" "creating t = Some k" for t k
    using creating_unique [OF d(7) _ cr [OF that]] that(2) by auto
  have own: "holds c (the (task_board t)) k \<and> reg_get k (c_registry c') = None"
    if t: "t \<in> set (ts @ us')" "creating t = Some k" for t k
  proof -
    have "t \<in> set (ts @ Launched sid body info # us)" using cr [OF t] by auto
    from d(4) [OF this t(2)] ne [OF t] get show ?thesis by simp
  qed
  have live: "holds c (ai_board_name i) k" if "reg_get k (c_registry c') = Some i" "live i" for k i
    using that own0 d(3) [of k i] get [of k] by (cases "k = sid") auto
  have sep: "tearing u \<noteq> Some k" if t: "t \<in> set (ts @ us')" "u \<in> set (ts @ us')" "creating t = Some k" for t u k
  proof -
    have "t \<in> set (ts @ Launched sid body info # us)" using cr [OF t(1,3)] by auto
    moreover have "u \<in> set (ts @ Launched sid body info # us) \<or> tearing u = Some sid"
      using t(2) us' by auto
    ultimately show ?thesis using d(5) [OF _ _ t(3)] ne [OF t(1,3)] by auto
  qed
  have l: "live i \<and> ai_session_id i = k" if "Launched k b i \<in> set (ts @ us')" for k b i
  proof -
    have "Launched k b i \<in> set (ts @ Launched sid body info # us)" using that us' by auto
    then show ?thesis by (rule d(6))
  qed
  have dist: "distinct (map creating (filter (\<lambda>t. creating t \<noteq> None) (ts @ us')))"
    using us' by (rule disjE) (use d(7) in simp_all)
  show ?thesis
    by (rule lease_inv_I) (unfold c h, (fact d(1) reg live own sep l dist)+)
qed

lemma distinct_creating_drop:
  assumes "distinct (map creating (filter (\<lambda>t. creating t \<noteq> None) (ts @ t # us)))"
    and "creating t' = None"
  shows "distinct (map creating (filter (\<lambda>t. creating t \<noteq> None) (ts @ us)))"
    and "distinct (map creating (filter (\<lambda>t. creating t \<noteq> None) (ts @ t' # us)))"
  using assms by (simp_all split: if_splits)

text \<open>Replacing or dropping a teardown task, with leases and live sessions as they were.\<close>

lemma lease_inv_teardown_task:
  assumes "lease_inv (c, ts @ t # us)"
    and "c_lease c' = c_lease c" and "c_registry c' = c_registry c"
    and "creating t' = None" and "tearing t' = tearing t"
    and "us' = us \<or> us' = t' # us"
  shows "lease_inv (c', ts @ us')"
proof (rule lease_inv_frame [OF assms(1,2)])
  show "wf_registry (c_registry c')" using lease_inv_D(2) [OF assms(1)] assms(3) by simp
  show "distinct (map creating (filter (\<lambda>t. creating t \<noteq> None) (ts @ us')))"
    using assms(6) distinct_creating_drop [OF lease_inv_D(7) [OF assms(1)] assms(4)] by blast
  show "x \<in> set (ts @ t # us)" if "x \<in> set (ts @ us')" "creating x \<noteq> None" for x
    using that assms(4,6) by auto
  show "reg_get k (c_registry c) \<noteq> None \<or> (\<exists>u'\<in>set (ts @ t # us). tearing u' = Some k)"
    if "u \<in> set (ts @ us')" "tearing u = Some k" for u k
    using that assms(5,6) by auto
qed (simp_all add: assms(3))

lemma lease_inv_step:
  assumes "ctl_step ops env ev s s'" and "lease_inv s" and "launcher_starts ops"
  shows "lease_inv s'"
  using assms(1,2)
proof (induction rule: ctl_step.induct)
  case (Admit body sid c img c' ts)
  then show ?case using lease_inv_admit by blast
next
  case (Refuse body sid c f c' ts)
  then show ?case by (auto elim: create_admit_cases)
next
  case (Launch body sid img now c info c' ts us)
  then show ?case using lease_inv_launch assms(3) by blast
next
  case (Launch_fails body sid img now c f c' ts us)
  note d = lease_inv_D [OF Launch_fails.prems]
  have c': "c_lease c' = release sid (c_lease c)" "c_registry c' = c_registry c"
    using Launch_fails.hyps by (auto simp: create_launch_def split: prod.splits sum.splits)
  show ?case
  proof (rule lease_inv_release [OF Launch_fails.prems c'(1)])
    show "creating t \<noteq> Some sid" if "t \<in> set (ts @ us)" for t
      using creating_unique [OF d(7) _ that] by simp
    show "distinct (map creating (filter (\<lambda>t. creating t \<noteq> None) (ts @ us)))"
      by (rule distinct_creating_drop(1) [OF d(7), of "Closing [] False False"]) simp
    show "k \<noteq> sid \<and> reg_get k (c_registry c) = Some i" if "reg_get k (c_registry c') = Some i" for k i
      using that c'(2) d(4) [of "Admitted sid body img" sid] by auto
  qed (use d(2) c'(2) in auto)
next
  case (Unwind c ts sid body info us)
  have "ai_session_id info = sid" using lease_inv_D(6) [OF Unwind] by auto
  then show ?case
    using lease_inv_D(2) [OF Unwind] by (intro lease_inv_commit [OF Unwind]) (simp_all add: rg.get_add rg.add_invar)
next
  case (Commit io sid c ts body info us)
  have "ai_session_id info = sid" using lease_inv_D(6) [OF Commit.prems] by auto
  then show ?case
    using lease_inv_D(2) [OF Commit.prems]
    by (intro lease_inv_commit [OF Commit.prems]) (simp_all add: create_commit_def rg.get_add rg.add_invar)
next
  case (Escape c ts sid body info us)
  note d = lease_inv_D [OF Escape]
  show ?case
    by (rule lease_inv_frame [OF Escape])
      (use d(2) distinct_creating_drop(1) [OF d(7), of "Closing [] False False"] in auto)
next
  case (Delete sid c info ts retain)
  note d = lease_inv_D [OF Delete.prems]
  show ?case
    by (rule lease_inv_frame [OF Delete.prems]) (use Delete.hyps d(2,7) in auto)
next
  case (Delete_dead sid c info ts)
  note d = lease_inv_D [OF Delete_dead.prems]
  show ?case by (rule lease_inv_frame [OF Delete_dead.prems]) (use d(2,7) in auto)
next
  case (Purge sid c l ts us)
  show ?case by (rule lease_inv_teardown_task [OF Purge.prems]) auto
next
  case (Purge_fails sid c e l ts us)
  show ?case by (rule lease_inv_teardown_task [OF Purge_fails.prems, where t' = "Forgetting sid"]) auto
next
  case (Forget c ts sid us)
  note d = lease_inv_D [OF Forget]
  show ?case
    by (rule lease_inv_frame [OF Forget])
      (use d(2,7) in \<open>auto simp: rg.get_remove rg.remove_invar split: if_splits\<close>)
next
  case (Capture sid info c source c' ts retain us)
  then show ?case
    using capture_step_frame [OF Capture.hyps] by (intro lease_inv_teardown_task [OF Capture.prems]) auto
next
  case (Record sid info ended retain source c st ts us)
  show ?case by (rule lease_inv_teardown_task [OF Record.prems]) auto
next
  case (Record_fails sid info ended retain source c e st ts us)
  show ?case by (rule lease_inv_teardown_task [OF Record_fails.prems, where t' = "Closing sid False False"]) auto
next
  case (Release_escapes c ts sid info retain us)
  show ?case by (rule lease_inv_teardown_task [OF Release_escapes, where t' = "Closing sid False False"]) auto
next
  case (Stop now sid retain c r l ts info us)
  show ?case by (rule lease_inv_teardown_task [OF Stop.prems]) auto
next
  case (Close c ts sid retain failed us ended)
  note d = lease_inv_D [OF Close]
  let ?c = "close_books ended sid retain failed c"
  have other: "k \<noteq> sid \<Longrightarrow> reg_get k (c_registry ?c) = reg_get k (c_registry c)" for k
    using close_books_registry [of ended sid retain failed c] by (auto simp: rg.get_remove rg.get_mark_dead)
  show ?case
  proof (rule lease_inv_release [OF Close])
    show "wf_registry (c_registry ?c)"
      using d(2) by (simp add: close_books_def rg.remove_invar rg.mark_dead_invar)
    show "k \<noteq> sid \<and> reg_get k (c_registry c) = Some i" if "reg_get k (c_registry ?c) = Some i" "live i" for k i
      using that other by (cases "k = sid") (auto simp: live_def split: if_splits)
    show "reg_get k (c_registry ?c) = None" if "reg_get k (c_registry c) = None" for k
      using that other by (cases "k = sid") auto
    show "distinct (map creating (filter (\<lambda>t. creating t \<noteq> None) (ts @ us)))" using d(7) by simp
    show "creating t \<noteq> Some sid" if "t \<in> set (ts @ us)" for t
      using d(5) [of t "Closing sid retain failed" sid] that by auto
  qed simp_all
next
  case (Activity c ts sid now)
  note d = lease_inv_D [OF Activity]
  show ?case by (rule lease_inv_frame [OF Activity]) (use d(2,7) in auto)
next
  case (Snapshot sid url dir c r c' ts)
  note d = lease_inv_D [OF Snapshot.prems]
  show ?case
    by (rule lease_inv_frame [OF Snapshot.prems])
      (use d(2,7) archive_bundle_frame [OF Snapshot.hyps] in auto)
next
  case (Snapshot_meta sid meta c r st ts)
  note d = lease_inv_D [OF Snapshot_meta.prems]
  show ?case by (rule lease_inv_frame [OF Snapshot_meta.prems]) (use d(2,7) in auto)
next
  case (Reap renv ttl c ts now)
  note d = lease_inv_D [OF Reap.prems]
  show ?case by (rule lease_inv_frame [OF Reap.prems]) (use d(2,7) in auto)
next
  case (Reap_spares now ttl info c ts renv page us)
  show ?case by (rule lease_inv_teardown_task [OF Reap_spares.prems]) auto
next
  case (Reap_purges now ttl info c l ts renv page us)
  show ?case by (rule lease_inv_teardown_task [OF Reap_purges.prems]) auto
next
  case (Reap_fails now ttl info c e l ts renv page us)
  show ?case by (rule lease_inv_teardown_task [OF Reap_fails.prems, where t' = "Purging []"]) auto
next
  case (Reap_forgets c ts renv now ttl sid page us)
  note d = lease_inv_D [OF Reap_forgets]
  show ?case
    by (rule lease_inv_frame [OF Reap_forgets])
      (use d(2,7) in \<open>auto simp: rg.get_remove rg.remove_invar split: if_splits\<close>)
next
  case (Reap_sweeps renv c now bundle_ttl max_bytes r st ts ttl us)
  show ?case by (rule lease_inv_teardown_task [OF Reap_sweeps.prems, where t' = "Purging []"]) auto
qed

section \<open>Purges\<close>

text \<open>A session that is going to be forgotten is neither live nor being created.\<close>

definition purge_inv :: "'l system \<Rightarrow> bool" where
  "purge_inv s \<longleftrightarrow> (case s of (c, ts) \<Rightarrow>
     \<forall>u\<in>set ts. \<forall>k\<in>set (purging u).
       (\<forall>i. reg_get k (c_registry c) = Some i \<longrightarrow> \<not> live i) \<and> (\<forall>t\<in>set ts. creating t \<noteq> Some k))"

lemma purge_invD:
  assumes "purge_inv (c, ts)" and "u \<in> set ts" and "k \<in> set (purging u)"
  shows "reg_get k (c_registry c) = Some i \<Longrightarrow> \<not> live i" and "t \<in> set ts \<Longrightarrow> creating t \<noteq> Some k"
  using assms by (auto simp: purge_inv_def)

lemma purge_inv_frame:
  assumes "purge_inv (c, ts)"
    and "\<And>k i. reg_get k (c_registry c') = Some i \<Longrightarrow> live i \<Longrightarrow> reg_get k (c_registry c) = Some i"
    and "\<And>t k. t \<in> set ts' \<Longrightarrow> creating t = Some k \<Longrightarrow> \<exists>t0\<in>set ts. creating t0 = Some k"
    and "\<And>u k. u \<in> set ts' \<Longrightarrow> k \<in> set (purging u) \<Longrightarrow> \<exists>u0\<in>set ts. k \<in> set (purging u0)"
  shows "purge_inv (c', ts')"
  unfolding purge_inv_def prod.case
proof (intro ballI conjI allI impI)
  fix u k assume "u \<in> set ts'" "k \<in> set (purging u)"
  then obtain u0 where u0: "u0 \<in> set ts" "k \<in> set (purging u0)" using assms(4) by blast
  note p = purge_invD [OF assms(1) u0]
  show "\<not> live i" if "reg_get k (c_registry c') = Some i" for i
    using p(1) assms(2) [OF that] by blast
  show "creating t \<noteq> Some k" if "t \<in> set ts'" for t
    using p(2) assms(3) [OF that] by blast
qed

text \<open>A task that starts to forget registered sessions that are dead.\<close>

lemma purge_inv_begin:
  assumes "purge_inv (c, ts)" and "lease_inv (c, ts)" and "creating u = None"
    and "\<And>k. k \<in> set (purging u) \<Longrightarrow> \<exists>i. reg_get k (c_registry c) = Some i \<and> dead i"
  shows "purge_inv (c, ts @ [u])"
proof -
  have "\<not> live i" if "k \<in> set (purging u)" "reg_get k (c_registry c) = Some i" for k i
    using assms(4) [OF that(1)] that(2) live_not_dead by auto
  moreover have "creating t \<noteq> Some k" if "k \<in> set (purging u)" "t \<in> set (ts @ [u])" for k t
    using assms(4) [OF that(1)] that(2) lease_inv_D(4) [OF assms(2), of t k] assms(3) by auto
  ultimately show ?thesis using assms(1,3) by (auto simp: purge_inv_def)
qed

text \<open>A creation that enters the registry.\<close>

lemma purge_inv_enter:
  assumes "purge_inv (c, ts @ Launched sid body info # us)"
    and "\<And>k. reg_get k (c_registry c') = (if k = sid then Some info else reg_get k (c_registry c))"
    and "us' = us \<or> us' = Capturing sid info True # us"
  shows "purge_inv (c', ts @ us')"
proof -
  let ?ts = "ts @ Launched sid body info # us"
  have sub: "t \<in> set ?ts \<or> creating t = None \<and> purging t = []" if "t \<in> set (ts @ us')" for t
    using that assms(3) by auto
  have ne: "k \<noteq> sid" if "u \<in> set ?ts" "k \<in> set (purging u)" for u k
    using purge_invD(2) [OF assms(1) that, of "Launched sid body info"] by auto
  show ?thesis
    unfolding purge_inv_def prod.case
  proof (intro ballI conjI allI impI)
    fix u k assume u: "u \<in> set (ts @ us')" "k \<in> set (purging u)"
    then have u': "u \<in> set ?ts" using sub by fastforce
    note p = purge_invD [OF assms(1) u' u(2)]
    show "\<not> live i" if "reg_get k (c_registry c') = Some i" for i
      using that p(1) ne [OF u' u(2)] assms(2) by simp
    show "creating t \<noteq> Some k" if "t \<in> set (ts @ us')" for t using sub [OF that] p(2) by auto
  qed
qed

lemma purge_inv_step:
  assumes "ctl_step ops env ev s s'" and "lease_inv s" and "purge_inv s" and "launcher_starts ops"
  shows "purge_inv s'"
  using assms(1-3)
proof (induction rule: ctl_step.induct)
  case (Admit body sid c img c' ts)
  from Admit.hyps(1) show ?case
  proof (cases rule: create_admit_cases)
    case (admitted img')
    have "c_registry c' = c_registry c" by (subst admitted(2)) simp
    then show ?thesis using Admit.prems(2) Admit.hyps(2) by (auto simp: purge_inv_def fresh_def)
  qed simp
next
  case (Refuse body sid c f c' ts)
  then show ?case by (auto elim: create_admit_cases)
next
  case (Launch body sid img now c info c' ts us)
  from Launch.hyps have "c_registry c' = c_registry c"
    by (auto simp: create_launch_def split: prod.splits sum.splits)
  then show ?case by (intro purge_inv_frame [OF Launch.prems(2)]) auto
next
  case (Launch_fails body sid img now c f c' ts us)
  from Launch_fails.hyps have "c_registry c' = c_registry c"
    by (auto simp: create_launch_def split: prod.splits sum.splits)
  then show ?case by (intro purge_inv_frame [OF Launch_fails.prems(2)]) auto
next
  case (Unwind c ts sid body info us)
  have "ai_session_id info = sid" using lease_inv_D(6) [OF Unwind(1)] by auto
  then show ?case by (intro purge_inv_enter [OF Unwind(2)]) (simp_all add: rg.get_add)
next
  case (Commit io sid c ts body info us)
  have "ai_session_id info = sid" using lease_inv_D(6) [OF Commit.prems(1)] by auto
  then show ?case by (intro purge_inv_enter [OF Commit.prems(2)]) (simp_all add: create_commit_def rg.get_add)
next
  case (Delete_dead sid c info ts)
  then show ?case by (intro purge_inv_begin [OF Delete_dead.prems(2,1)]) auto
next
  case (Reap renv ttl c ts now)
  show ?case
    by (rule purge_inv_begin [OF Reap.prems(2,1)])
      (use reg_page_subset [OF lease_inv_D(2) [OF Reap.prems(1)]] in auto)
next
  case (Forget c ts sid us)
  show ?case by (rule purge_inv_frame [OF Forget(2)]) (auto simp: rg.get_remove split: if_splits)
next
  case (Reap_forgets c ts renv now ttl sid page us)
  show ?case by (rule purge_inv_frame [OF Reap_forgets(2)]) (auto simp: rg.get_remove split: if_splits)
next
  case (Capture sid info c source c' ts retain us)
  show ?case
    by (rule purge_inv_frame [OF Capture.prems(2)]) (use capture_step_frame [OF Capture.hyps] in auto)
next
  case (Snapshot sid url dir c r c' ts)
  show ?case
    by (rule purge_inv_frame [OF Snapshot.prems(2)]) (use archive_bundle_frame [OF Snapshot.hyps] in auto)
next
  case (Close c ts sid retain failed us ended)
  have other: "k \<noteq> sid \<Longrightarrow>
      reg_get k (c_registry (close_books ended sid retain failed c)) = reg_get k (c_registry c)" for k
    using close_books_registry [of ended sid retain failed c] by (auto simp: rg.get_remove rg.get_mark_dead)
  have "reg_get k (c_registry c) = Some i"
    if "reg_get k (c_registry (close_books ended sid retain failed c)) = Some i" "live i" for k i
    using that other by (cases "k = sid") (auto simp: live_def split: if_splits)
  then show ?case by (intro purge_inv_frame [OF Close(2)]) auto
next
  case (Reap_purges now ttl info c l ts renv page us)
  then show ?case by (intro purge_inv_frame [OF Reap_purges.prems(2)]) (auto simp: spared_def dead_def)
qed ((erule purge_inv_frame; auto)+)

lemma invs_reach:
  assumes "reaches ops env s0 strand s" and "lease_inv s0" and "purge_inv s0" and "launcher_starts ops"
  shows "lease_inv s \<and> purge_inv s"
  using assms by (induction rule: reaches.induct) (auto intro: lease_inv_step purge_inv_step)

lemma purge_inv_idle [simp]: "purge_inv (c, [])"
  by (simp add: purge_inv_def)

lemmas lease_inv_reaches = invs_reach [THEN conjunct1]

lemma lease_inv_startup:
  assumes "startup ops c0 = (Inr (), c)"
    and "l_list_sessions ops (c_launcher c0) = (Inr ss, l)" and "l_list_sessions ops l = (Inr ss, l')"
    and "distinct (map ai_board_name (filter live ss))"
  shows "lease_inv (c, [])"
proof -
  have c: "c_registry c = reg_rebuild ss (c_registry c0)"
    "c_lease c = rebuild_from (filter live ss) (c_lease c0)"
    using assms(1-3) by (auto simp: startup_def Let_def filter_live)
  have "holds c (ai_board_name i) sid" if "reg_get sid (c_registry c) = Some i" "live i" for sid i
  proof -
    have i: "i \<in> set (filter live ss)" "ai_session_id i = sid"
      using that by (auto simp: c reg_get_rebuild dest!: find_SomeD)
    show ?thesis
      using held_by_rebuild_distinct [OF assms(4) i(1)] i(2) by (simp add: holds_def c)
  qed
  then show ?thesis by (intro lease_inv_I) (simp_all add: c)
qed

section \<open>Accounting\<close>

definition backed :: "'l system \<Rightarrow> string \<Rightarrow> string \<Rightarrow> bool" where
  "backed s b k \<longleftrightarrow>
     (\<exists>t\<in>set (snd s). creating t = Some k \<and> task_board t = Some b) \<or>
     (\<exists>i. reg_get k (c_registry (fst s)) = Some i \<and> live i \<and> ai_board_name i = b)"

lemma accounted_iff: "accounted s \<longleftrightarrow> (\<forall>b k. holds (fst s) b k \<longrightarrow> backed s b k)"
  by (cases s) (simp add: accounted_def backed_def)

lemma accounted_mono:
  assumes "accounted (c, ts)"
    and "\<And>b k. holds c' b k \<Longrightarrow> holds c b k"
    and "\<And>b k. holds c' b k \<Longrightarrow> backed (c, ts) b k \<Longrightarrow> backed (c', ts') b k"
  shows "accounted (c', ts')"
  using assms by (simp add: accounted_iff)

lemma backed_frame:
  assumes "\<And>t. t \<in> set ts \<Longrightarrow> creating t = Some k \<Longrightarrow> t \<in> set ts'"
    and "\<And>i. reg_get k (c_registry c) = Some i \<Longrightarrow> live i \<Longrightarrow> reg_get k (c_registry c') = Some i"
  shows "backed (c, ts) b k \<Longrightarrow> backed (c', ts') b k"
  using assms by (auto simp: backed_def)

lemma accounted_teardown_task:
  assumes "accounted (c, ts @ t # us)" and "creating t = None"
    and "c_lease c' = c_lease c" and "c_registry c' = c_registry c"
    and "us' = us \<or> us' = t' # us"
  shows "accounted (c', ts @ us')"
proof (rule accounted_mono [OF assms(1)])
  show "holds c' b k \<Longrightarrow> holds c b k" for b k using assms(3) by (simp add: holds_def)
  show "backed (c, ts @ t # us) b k \<Longrightarrow> backed (c', ts @ us') b k" for b k
    using assms(2,4,5) by (elim backed_frame [rotated -1]) auto
qed

lemma accounted_enter:
  assumes "accounted (c, ts @ Launched sid body info # us)" and "live info"
    and "c_lease c' = c_lease c"
    and "\<And>k. reg_get k (c_registry c') = (if k = sid then Some info else reg_get k (c_registry c))"
    and "\<And>k. reg_get sid (c_registry c) = None"
    and "set us \<subseteq> set us'"
  shows "accounted (c', ts @ us')"
proof (rule accounted_mono [OF assms(1)])
  show "holds c' b k \<Longrightarrow> holds c b k" for b k using assms(3) by (simp add: holds_def)
  show "backed (c, ts @ Launched sid body info # us) b k \<Longrightarrow> backed (c', ts @ us') b k" for b k
    using assms(2,4-6) by (auto simp: backed_def)
qed

lemma accounted_step:
  assumes "ctl_step ops env ev s s'" and "ev = Progress" and "lease_inv s" and "accounted s"
    and "launcher_starts ops" and "purge_inv s"
  shows "accounted s'"
  using assms(1-4,6)
proof (induction rule: ctl_step.induct)
  case (Admit body sid c img c' ts)
  from Admit.hyps(1) show ?case
  proof (cases rule: create_admit_cases)
    case (admitted img')
    have "c_registry c' = c_registry c" by (subst admitted(2)) simp
    then show ?thesis
      using Admit.prems(3) admitted(5) by (fastforce simp: accounted_iff backed_def holds_def split: if_splits)
  qed simp
next
  case (Refuse body sid c f c' ts)
  then show ?case by (auto elim: create_admit_cases)
next
  case (Launch body sid img now c info c' ts us)
  from Launch.hyps show ?case
  proof (cases rule: create_launch_cases)
    case (launched info')
    have c: "c_lease c' = c_lease c" "c_registry c' = c_registry c" by (subst launched(2); simp)+
    have "ai_board_name info = sc_board_name body"
      using launcher_starts.started_identity [OF assms(5)] launched by blast
    then show ?thesis
      by (intro accounted_mono [OF Launch.prems(3)]) (auto simp: holds_def backed_def c)
  qed simp
next
  case (Launch_fails body sid img now c f c' ts us)
  have c': "c_lease c' = release sid (c_lease c)" "c_registry c' = c_registry c"
    using Launch_fails.hyps by (auto simp: create_launch_def split: prod.splits sum.splits)
  show ?case
    using lease_inv_D(1) [OF Launch_fails.prems(2)]
    by (intro accounted_mono [OF Launch_fails.prems(3)])
      (auto simp: holds_def c' lt.release_holder backed_def split: if_splits)
next
  case (Unwind c ts sid body info us)
  note d = lease_inv_D [OF Unwind.prems(2)]
  show ?case
    using d(4) [of "Launched sid body info" sid] d(6) [of sid body info]
    by (intro accounted_enter [OF Unwind.prems(3)]) (auto simp: rg.get_add)
next
  case (Commit io sid c ts body info us)
  note d = lease_inv_D [OF Commit.prems(2)]
  show ?case
    using d(4) [of "Launched sid body info" sid] d(6) [of sid body info]
    by (intro accounted_enter [OF Commit.prems(3)]) (auto simp: create_commit_def rg.get_add)
next
  case (Escape c ts sid body info us)
  then show ?case by simp
next
  case (Delete sid c info ts retain)
  show ?case by (rule accounted_mono [OF Delete.prems(3)]) (auto simp: backed_def)
next
  case (Delete_dead sid c info ts)
  show ?case by (rule accounted_mono [OF Delete_dead.prems(3)]) (auto simp: backed_def)
next
  case (Purge sid c l ts us)
  show ?case by (rule accounted_teardown_task [OF Purge.prems(3)]) auto
next
  case (Purge_fails sid c e l ts us)
  show ?case by (rule accounted_teardown_task [OF Purge_fails.prems(3)]) auto
next
  case (Forget c ts sid us)
  have "k \<noteq> sid" if "reg_get k (c_registry c) = Some i" "live i" for k i
    using purge_invD(1) [OF Forget.prems(4), of "Forgetting sid" sid] that by auto
  then show ?case
    by (intro accounted_mono [OF Forget.prems(3)]) (auto simp: holds_def backed_def rg.get_remove)
next
  case (Capture sid info c source c' ts retain us)
  then show ?case
    using capture_step_frame [OF Capture.hyps]
    by (intro accounted_teardown_task [OF Capture.prems(3)]) auto
next
  case (Record sid info ended retain source c st ts us)
  show ?case by (rule accounted_teardown_task [OF Record.prems(3)]) auto
next
  case (Record_fails sid info ended retain source c e st ts us)
  show ?case by (rule accounted_teardown_task [OF Record_fails.prems(3)]) auto
next
  case (Stop now sid retain c r l ts info us)
  show ?case by (rule accounted_teardown_task [OF Stop.prems(3)]) auto
next
  case (Close c ts sid retain failed us ended)
  let ?c = "close_books ended sid retain failed c"
  have other: "k \<noteq> sid \<Longrightarrow> reg_get k (c_registry ?c) = reg_get k (c_registry c)" for k
    using close_books_registry [of ended sid retain failed c] by (auto simp: rg.get_remove rg.get_mark_dead)
  have h: "holds ?c b k \<Longrightarrow> holds c b k \<and> k \<noteq> sid" for b k
    using lease_inv_D(1) [OF Close.prems(2)] by (auto simp: holds_def lt.release_holder split: if_splits)
  show ?case
  proof (rule accounted_mono [OF Close.prems(3)])
    show "holds ?c b k \<Longrightarrow> backed (c, ts @ Closing sid retain failed # us) b k \<Longrightarrow>
        backed (?c, ts @ us) b k" for b k
      using other [of k] h [of b k] by (elim backed_frame [rotated -1]) auto
  qed (use h in blast)
next
  case (Activity c ts sid now)
  show ?case by (rule accounted_mono [OF Activity.prems(3)]) (auto simp: holds_def backed_def)
next
  case (Snapshot sid url dir c r c' ts)
  show ?case
    by (rule accounted_mono [OF Snapshot.prems(3)])
      (use archive_bundle_frame [OF Snapshot.hyps] in \<open>auto simp: holds_def backed_def\<close>)
next
  case (Release_escapes c ts sid info retain us)
  show ?case by (rule accounted_teardown_task [OF Release_escapes.prems(3)]) auto
next
  case (Snapshot_meta sid meta c r st ts)
  show ?case by (rule accounted_mono [OF Snapshot_meta.prems(3)]) (auto simp: holds_def backed_def)
next
  case (Reap renv ttl c ts now)
  show ?case by (rule accounted_mono [OF Reap.prems(3)]) (auto simp: backed_def)
next
  case (Reap_spares now ttl info c ts renv page us)
  show ?case by (rule accounted_teardown_task [OF Reap_spares.prems(3)]) auto
next
  case (Reap_purges now ttl info c l ts renv page us)
  show ?case by (rule accounted_teardown_task [OF Reap_purges.prems(3)]) auto
next
  case (Reap_fails now ttl info c e l ts renv page us)
  show ?case by (rule accounted_teardown_task [OF Reap_fails.prems(3)]) auto
next
  case (Reap_forgets c ts renv now ttl sid page us)
  have "k \<noteq> sid" if "reg_get k (c_registry c) = Some i" "live i" for k i
    using purge_invD(1) [OF Reap_forgets.prems(4), of "Reaped renv now ttl sid page" sid] that by auto
  then show ?case
    by (intro accounted_mono [OF Reap_forgets.prems(3)]) (auto simp: holds_def backed_def rg.get_remove)
next
  case (Reap_sweeps renv c now bundle_ttl max_bytes r st ts ttl us)
  show ?case by (rule accounted_teardown_task [OF Reap_sweeps.prems(3)]) auto
qed

lemma accounted_reaches:
  assumes "reaches ops env s0 strand s" and "lease_inv s0" and "accounted s0" and "launcher_starts ops"
    and "purge_inv s0"
  shows "\<not> strand \<longrightarrow> accounted s"
  using assms
proof (induction rule: reaches.induct)
  case (next_step strand s ev s')
  then show ?case
    using accounted_step [OF next_step.hyps(2)] invs_reach [OF next_step.hyps(1)]
    by (cases ev) auto
qed simp

lemma accounted_startup:
  assumes "startup ops c0 = (Inr (), c)"
    and "l_list_sessions ops (c_launcher c0) = (Inr ss, l)" and "l_list_sessions ops l = (Inr ss, l')"
    and "distinct (map ai_session_id ss)"
  shows "accounted (c, [])"
proof -
  have c: "c_registry c = reg_rebuild ss (c_registry c0)"
    "c_lease c = rebuild_from (filter live ss) (c_lease c0)"
    using assms(1-3) by (auto simp: startup_def Let_def filter_live)
  have "\<exists>i. reg_get k (c_registry c) = Some i \<and> live i \<and> ai_board_name i = b" if h: "holds c b k" for b k
  proof -
    obtain i where i: "i \<in> set ss" "live i" "ai_board_name i = b" "ai_session_id i = k"
      using h by (auto simp: holds_def c held_by_rebuild dest!: find_SomeD)
    then have "find (\<lambda>s. ai_session_id s = k) (rev ss) = Some i"
      using find_distinct_key [of ai_session_id "rev ss" i] assms(4) by (simp add: rev_map [symmetric])
    with i show ?thesis by (simp add: c reg_get_rebuild)
  qed
  then show ?thesis by (simp add: accounted_iff backed_def)
qed

definition demo_restart :: "fake_launcher control" where
  "demo_restart = demo_control\<lparr>c_launcher := \<lparr>fl_sessions =
     [(''s-1'', agent_info_default ''s-1'' ''b1'' ''p'' ''c'' 1 2)], fl_next_port = 3\<rparr>\<rparr>"

lemma demo_startup:
  "startup fake_ops demo_restart = (Inr (), snd (startup fake_ops demo_restart))"
  "l_list_sessions fake_ops (c_launcher demo_restart) =
     (Inr [agent_info_default ''s-1'' ''b1'' ''p'' ''c'' 1 2], c_launcher demo_restart)"
  "reg_get ''s-1'' (c_registry (snd (startup fake_ops demo_restart))) =
     Some (agent_info_default ''s-1'' ''b1'' ''p'' ''c'' 1 2)"
  by (simp_all add: demo_restart_def startup_def fake_ops_def fake_list_sessions_def
      agent_info_default_def reg_get_rebuild Let_def)

text \<open>C1: Mutual exclusion on boards. Start the control plane on any launcher whose live sessions are
  on distinct boards, and let requests, teardowns and reaper passes interleave in any way, with agents,
  network and filesystem failing as they like: a live session always holds the lease of its board, so
  no board ever has two live sessions, nor a live session and another one being created.\<close>

theorem board_exclusive:
  assumes "startup ops c0 = (Inr (), c)"
    and "l_list_sessions ops (c_launcher c0) = (Inr ss, l)" and "l_list_sessions ops l = (Inr ss, l')"
    and "distinct (map ai_board_name (filter live ss))"
    and "launcher_starts ops"
    and "reaches ops env (c, []) strand (c', ts)"
    and "reg_get s1 (c_registry c') = Some i1" and "live i1"
  shows "held_by (ai_board_name i1) (c_lease c') = Some s1 \<and>
    (\<forall>s2 i2. reg_get s2 (c_registry c') = Some i2 \<and> live i2 \<and> ai_board_name i2 = ai_board_name i1 \<longrightarrow>
      s2 = s1) \<and>
    (\<forall>t\<in>set ts. task_board t \<noteq> Some (ai_board_name i1))"
proof -
  have inv: "lease_inv (c', ts)"
    using lease_inv_reaches [OF assms(6) lease_inv_startup [OF assms(1-4)] purge_inv_idle assms(5)] .
  note d = lease_inv_D [OF inv]
  have own: "held_by (ai_board_name i1) (c_lease c') = Some s1"
    using d(3) assms(7,8) by (simp add: holds_def)
  moreover have "task_board t \<noteq> Some (ai_board_name i1)" if "t \<in> set ts" for t
    using d(4) [OF that] own assms(7) by (cases t) (auto simp: holds_def)
  moreover have "s2 = s1" if "reg_get s2 (c_registry c') = Some i2" "live i2"
    "ai_board_name i2 = ai_board_name i1" for s2 i2
    using d(3) [OF that(1,2)] own that(3) by (simp add: holds_def)
  ultimately show ?thesis by blast
qed

theorem board_exclusive_witness:
  "held_by ''b1'' (c_lease (snd (startup fake_ops demo_restart))) = Some ''s-1''"
proof -
  let ?c = "snd (startup fake_ops demo_restart)"
  have "reaches fake_ops (demo_env JNull) (?c, [])
      (False \<or> Progress = Strand) (?c\<lparr>c_registry := reg_touch ''s-1'' 9 (c_registry ?c)\<rparr>, [])"
    by (rule reaches.next_step [OF reaches.start Activity])
  from board_exclusive [OF demo_startup(1) demo_startup(2) demo_startup(2) _
      fake.launcher_starts_axioms this, of "''s-1''"]
  show ?thesis by (simp add: demo_startup(3)) (simp add: agent_info_default_def live_def)
qed

text \<open>C2: No board is lost. As long as no creation escapes with an uncaught exception, whenever the
  control plane is idle every lease belongs to a registered live session on that very board, which can
  be deleted; failed creations and teardowns, in any interleaving, leave none behind.\<close>

theorem no_board_lost:
  assumes "startup ops c0 = (Inr (), c)"
    and "l_list_sessions ops (c_launcher c0) = (Inr ss, l)" and "l_list_sessions ops l = (Inr ss, l')"
    and "distinct (map ai_session_id ss)" and "distinct (map ai_board_name (filter live ss))"
    and "launcher_starts ops"
    and "reaches ops env (c, []) False (c', [])"
    and "held_by b (c_lease c') = Some sid"
  shows "\<exists>i. reg_get sid (c_registry c') = Some i \<and> live i \<and> ai_board_name i = b"
proof -
  have "accounted (c', [])"
    using accounted_reaches [OF assms(7) lease_inv_startup [OF assms(1-3,5)]
        accounted_startup [OF assms(1-4)] assms(6)] by simp
  then show ?thesis using assms(8) by (simp add: accounted_iff backed_def holds_def)
qed

theorem no_board_lost_witness:
  "\<exists>i. reg_get ''s-1'' (c_registry (snd (startup fake_ops demo_restart))) = Some i \<and> live i \<and>
     ai_board_name i = ''b1''"
proof -
  let ?c = "snd (startup fake_ops demo_restart)"
  have "reaches fake_ops (demo_env JNull) (?c, []) (False \<or> Progress = Strand)
      (?c\<lparr>c_registry := reg_touch ''s-1'' 9 (c_registry ?c)\<rparr>, [])"
    by (rule reaches.next_step [OF reaches.start Activity])
  then have r: "reaches fake_ops (demo_env JNull) (?c, []) False
      (?c\<lparr>c_registry := reg_touch ''s-1'' 9 (c_registry ?c)\<rparr>, [])" by simp
  have h: "held_by ''b1'' (c_lease (?c\<lparr>c_registry := reg_touch ''s-1'' 9 (c_registry ?c)\<rparr>)) = Some ''s-1''"
    by (simp add: demo_restart_def startup_def fake_ops_def fake_list_sessions_def
      agent_info_default_def held_by_rebuild Let_def)
  show ?thesis
    using no_board_lost [OF demo_startup(1) demo_startup(2) demo_startup(2) _ _
        fake.launcher_starts_axioms r h] by simp
qed

end
