(* ===== verification/Console.thy ===== *)
theory Console
  imports BF_Prelude PyString
begin

text \<open>
  Capture of console and framework output (\<^verbatim>\<open>boardfarm3/api/console.py\<close>): the bounded event buffer
  with cursors and live subscribers, the logging handler that feeds it, and the server-sent event
  stream of \<^verbatim>\<open>GET /console/stream\<close> (\<^verbatim>\<open>boardfarm3/api/app.py\<close>), which replays history and then follows
  its subscription. Subscriber queues are named by numbers, as Python names them by identity.
\<close>

section \<open>The event buffer\<close>

record console_event =
  ev_seq :: int
  ev_ts :: time
  ev_stream :: string
  ev_device :: "string option"
  ev_job :: "string option"
  ev_line :: string

record event_buffer =
  eb_events :: "console_event list"
  eb_maxlen :: nat
  eb_next_seq :: int
  eb_subscribers :: "(nat, console_event list) dict"
  eb_last_event :: "console_event option"
  eb_last_event_ts :: time

definition init_buffer :: "nat \<Rightarrow> time \<Rightarrow> event_buffer" where
  "init_buffer maxlen now =
     \<lparr>eb_events = [], eb_maxlen = maxlen, eb_next_seq = 0, eb_subscribers = [],
      eb_last_event = None, eb_last_event_ts = now\<rparr>"

text \<open>Appending to a \<^verbatim>\<open>deque(maxlen=n)\<close> drops from the left.\<close>

definition deque_append :: "nat \<Rightarrow> 'a \<Rightarrow> 'a list \<Rightarrow> 'a list" where
  "deque_append n x xs = drop (Suc (length xs) - n) (xs @ [x])"

definition buffer_append ::
  "time \<Rightarrow> string \<Rightarrow> string option \<Rightarrow> string option \<Rightarrow> string \<Rightarrow> event_buffer
   \<Rightarrow> console_event \<times> event_buffer" where
  "buffer_append now stream device job_id line b =
     (let event = \<lparr>ev_seq = eb_next_seq b, ev_ts = now, ev_stream = stream, ev_device = device,
                   ev_job = job_id, ev_line = line\<rparr>
      in (event,
          b\<lparr>eb_next_seq := eb_next_seq b + 1,
            eb_events := deque_append (eb_maxlen b) event (eb_events b),
            eb_last_event := Some event,
            eb_last_event_ts := ev_ts event,
            eb_subscribers := map (\<lambda>q. (fst q, snd q @ [event])) (eb_subscribers b)\<rparr>))"

definition matches ::
  "int \<Rightarrow> string option \<Rightarrow> string option \<Rightarrow> string option \<Rightarrow> console_event \<Rightarrow> bool" where
  "matches cursor device stream job_id e \<longleftrightarrow>
     \<not> ev_seq e < cursor \<and>
     \<not> (device \<noteq> None \<and> ev_device e \<noteq> device) \<and>
     \<not> (stream \<noteq> None \<and> Some (ev_stream e) \<noteq> stream) \<and>
     \<not> (job_id \<noteq> None \<and> ev_job e \<noteq> job_id)"

text \<open>The scan of \<^verbatim>\<open>read\<close>: the selected events, and whether it stopped early.\<close>

fun scan_events ::
  "(console_event \<Rightarrow> bool) \<Rightarrow> int \<Rightarrow> console_event list \<Rightarrow> console_event list
   \<Rightarrow> console_event list \<times> bool" where
  "scan_events wanted limit [] selected = (selected, False)"
| "scan_events wanted limit (e # es) selected =
     (if \<not> wanted e then scan_events wanted limit es selected
      else (let selected' = selected @ [e]
            in if int (length selected') \<ge> limit then (selected', True)
               else scan_events wanted limit es selected'))"

definition buffer_read ::
  "int \<Rightarrow> string option \<Rightarrow> string option \<Rightarrow> string option \<Rightarrow> int \<Rightarrow> event_buffer
   \<Rightarrow> console_event list \<times> int" where
  "buffer_read cursor device stream job_id limit b =
     (let (selected, truncated) =
            scan_events (matches cursor device stream job_id) limit (eb_events b) []
      in (selected, if truncated then ev_seq (last selected) + 1 else eb_next_seq b))"

definition last_line :: "event_buffer \<Rightarrow> string option" where
  "last_line b = map_option ev_line (eb_last_event b)"

section \<open>Subscribers\<close>

definition subscribe :: "nat \<Rightarrow> event_buffer \<Rightarrow> event_buffer" where
  "subscribe q b = b\<lparr>eb_subscribers := eb_subscribers b @ [(q, [])]\<rparr>"

text \<open>\<^verbatim>\<open>await queue.get()\<close>, when there is something to get.\<close>

definition queue_get :: "nat \<Rightarrow> event_buffer \<Rightarrow> console_event option \<times> event_buffer" where
  "queue_get q b =
     (case dict_get (eb_subscribers b) q of
        Some (e # es) \<Rightarrow> (Some e, b\<lparr>eb_subscribers := dict_set q es (eb_subscribers b)\<rparr>)
      | _ \<Rightarrow> (None, b))"

definition unsubscribe :: "nat \<Rightarrow> event_buffer \<Rightarrow> event_buffer" where
  "unsubscribe q b = b\<lparr>eb_subscribers := dict_pop q (eb_subscribers b)\<rparr>"

section \<open>The logging handler\<close>

text \<open>
  The part of \<^verbatim>\<open>logging\<close> the handler touches: per logger the propagation flag, the handlers (by
  number) and the level. A record carries the logger's name, the formatted message and, when it has
  exception information, the formatted traceback.
\<close>

record logger =
  lg_propagate :: bool
  lg_handlers :: "nat list"
  lg_level :: int

record log_record =
  lr_name :: string
  lr_message :: string
  lr_exc_text :: "string option"

record console_capture =
  cc_self :: nat
  cc_previous :: "(string, bool) dict"

definition CONSOLE_LOGGER :: string where
  "CONSOLE_LOGGER = ''pexpect''"

definition FRAMEWORK_LOGGER :: string where
  "FRAMEWORK_LOGGER = ''boardfarm3''"

text \<open>Which stream and device a record belongs to, by the name of its logger.\<close>

definition record_source :: "string \<Rightarrow> string \<times> string option" where
  "record_source name =
     (if name = CONSOLE_LOGGER \<or> startswith name (CONSOLE_LOGGER @ ''.'')
      then (''console'',
            (let parts = split_on (CHR ''.'') name in if length parts > 2 then Some (parts ! 1) else None))
      else (''framework'', None))"

definition capture_emit ::
  "time \<Rightarrow> string option \<Rightarrow> log_record \<Rightarrow> event_buffer \<Rightarrow> event_buffer" where
  "capture_emit now current_job r b =
     (let (stream, device) = record_source (lr_name r);
          line = (case lr_exc_text r of None \<Rightarrow> lr_message r
                  | Some t \<Rightarrow> lr_message r @ [CHR 0x0A] @ t)
      in snd (buffer_append now stream device current_job line b))"

definition install_on :: "string \<Rightarrow> console_capture \<times> (string \<Rightarrow> logger) \<Rightarrow> console_capture \<times> (string \<Rightarrow> logger)" where
  "install_on name s =
     (let cc = fst s; lg = snd s name;
          cc' = (if \<not> dict_mem name (cc_previous cc)
                 then cc\<lparr>cc_previous := dict_set name (lg_propagate lg) (cc_previous cc)\<rparr> else cc);
          lg' = (if cc_self cc \<notin> set (lg_handlers lg)
                 then lg\<lparr>lg_handlers := lg_handlers lg @ [cc_self cc]\<rparr> else lg)
      in (cc', (snd s)(name := lg'\<lparr>lg_level := 10\<rparr>)))"

definition capture_install ::
  "console_capture \<times> (string \<Rightarrow> logger) \<Rightarrow> console_capture \<times> (string \<Rightarrow> logger)" where
  "capture_install s =
     (let (cc, lgs) = install_on FRAMEWORK_LOGGER (install_on CONSOLE_LOGGER s)
      in (cc, lgs(CONSOLE_LOGGER := (lgs CONSOLE_LOGGER)\<lparr>lg_propagate := False\<rparr>)))"

fun restore_loggers :: "nat \<Rightarrow> (string, bool) dict \<Rightarrow> (string \<Rightarrow> logger) \<Rightarrow> (string \<Rightarrow> logger)" where
  "restore_loggers self [] lgs = lgs"
| "restore_loggers self ((name, propagate) # d) lgs =
     restore_loggers self d
       (lgs(name := (lgs name)\<lparr>lg_handlers := remove1 self (lg_handlers (lgs name)), lg_propagate := propagate\<rparr>))"

definition capture_uninstall ::
  "console_capture \<times> (string \<Rightarrow> logger) \<Rightarrow> console_capture \<times> (string \<Rightarrow> logger)" where
  "capture_uninstall s =
     ((fst s)\<lparr>cc_previous := []\<rparr>, restore_loggers (cc_self (fst s)) (cc_previous (fst s)) (snd s))"

section \<open>The event stream\<close>

text \<open>
  What one client of the stream is sent, up to a disconnect. Other threads may append at any time:
  \<open>early\<close> lines between the subscription and the snapshot of the head, \<open>late\<close> lines between the
  snapshot and the read of the history, \<open>later\<close> lines after it. A line is its stream, device, job and
  text, with its time stamp.
\<close>

type_synonym log_line = "time \<times> string \<times> string option \<times> string option \<times> string"

fun append_lines :: "log_line list \<Rightarrow> event_buffer \<Rightarrow> event_buffer" where
  "append_lines [] b = b"
| "append_lines ((now, stream, device, job, line) # ls) b =
     append_lines ls (snd (buffer_append now stream device job line b))"

text \<open>Everything waiting in a queue, filtered as the live loop does.\<close>

definition live_events :: "nat \<Rightarrow> string option \<Rightarrow> event_buffer \<Rightarrow> console_event list" where
  "live_events q device b =
     filter (\<lambda>e. \<not> (device \<noteq> None \<and> ev_device e \<noteq> device))
       (case dict_get (eb_subscribers b) q of None \<Rightarrow> [] | Some es \<Rightarrow> es)"

definition console_stream ::
  "nat \<Rightarrow> int \<Rightarrow> string option \<Rightarrow> log_line list \<Rightarrow> log_line list \<Rightarrow> log_line list \<Rightarrow> event_buffer
   \<Rightarrow> console_event list" where
  "console_stream q cursor device early late later b =
     (let b1 = append_lines early (subscribe q b);
          live_from = eb_next_seq b1;
          b2 = append_lines late b1;
          past = fst (buffer_read cursor device None None 50000 b2);
          b3 = append_lines later b2
      in filter (\<lambda>e. ev_seq e < live_from) past @ live_events q device b3)"

section \<open>Facts\<close>

abbreviation seq_sorted :: "console_event list \<Rightarrow> bool" where
  "seq_sorted \<equiv> sorted_wrt (\<lambda>a b. ev_seq a < ev_seq b)"

definition wf_buffer :: "event_buffer \<Rightarrow> bool" where
  "wf_buffer b \<longleftrightarrow> length (eb_events b) \<le> eb_maxlen b \<and> seq_sorted (eb_events b) \<and>
     (\<forall>e\<in>set (eb_events b). ev_seq e < eb_next_seq b)"

lemma wf_init_buffer [simp]: "wf_buffer (init_buffer n now)"
  by (simp add: wf_buffer_def init_buffer_def)

text \<open>The events a list of lines turns into, numbered from \<open>n\<close>.\<close>

fun logged :: "int \<Rightarrow> log_line list \<Rightarrow> console_event list" where
  "logged n [] = []"
| "logged n ((now, stream, device, job, line) # ls) =
     \<lparr>ev_seq = n, ev_ts = now, ev_stream = stream, ev_device = device, ev_job = job, ev_line = line\<rparr>
       # logged (n + 1) ls"

lemma length_logged [simp]: "length (logged n ls) = length ls"
  by (induction n ls rule: logged.induct) auto

lemma logged_append: "logged n (ls @ ms) = logged n ls @ logged (n + int (length ls)) ms"
  by (induction n ls rule: logged.induct) (auto simp: algebra_simps)

lemma logged_seq: "e \<in> set (logged n ls) \<Longrightarrow> n \<le> ev_seq e \<and> ev_seq e < n + int (length ls)"
  by (induction n ls rule: logged.induct) auto

lemma seq_sorted_logged [simp]: "seq_sorted (logged n ls)"
  by (induction n ls rule: logged.induct) (auto dest: logged_seq)

lemma seq_sorted_append:
  "seq_sorted xs \<Longrightarrow> \<forall>e\<in>set xs. ev_seq e < n \<Longrightarrow> seq_sorted (xs @ logged n ls)"
  by (auto simp: sorted_wrt_append dest!: logged_seq)

lemma append_lines_next [simp]: "eb_next_seq (append_lines ls b) = eb_next_seq b + int (length ls)"
  by (induction ls b rule: append_lines.induct) (auto simp: buffer_append_def Let_def)

lemma append_lines_maxlen [simp]: "eb_maxlen (append_lines ls b) = eb_maxlen b"
  by (induction ls b rule: append_lines.induct) (auto simp: buffer_append_def Let_def)

lemma append_lines_subscribers:
  "eb_subscribers (append_lines ls b) =
     map (\<lambda>q. (fst q, snd q @ logged (eb_next_seq b) ls)) (eb_subscribers b)"
  by (induction ls b rule: append_lines.induct) (auto simp: buffer_append_def Let_def comp_def)

lemma drop_deque:
  assumes "length xs \<le> n"
  shows "drop (length (drop (Suc (length xs) - n) (xs @ [x])) + length zs - n)
      (drop (Suc (length xs) - n) (xs @ [x]) @ zs) = drop (Suc (length xs + length zs) - n) (xs @ x # zs)"
proof -
  let ?k = "Suc (length xs) - n"
  have "drop ?k (xs @ [x]) @ zs = drop ?k ((xs @ [x]) @ zs)"
    by (cases "n = 0") (use assms in \<open>simp_all add: Suc_diff_le del: append_assoc\<close>)
  moreover have "length (drop ?k (xs @ [x])) + length zs - n + ?k = Suc (length xs + length zs) - n"
    using assms by auto
  ultimately show ?thesis by (simp add: drop_drop del: drop_append)
qed

text \<open>The buffer keeps the newest \<open>maxlen\<close> events.\<close>

lemma append_lines_events:
  "length (eb_events b) \<le> eb_maxlen b \<Longrightarrow>
   eb_events (append_lines ls b) =
     drop (length (eb_events b) + length ls - eb_maxlen b) (eb_events b @ logged (eb_next_seq b) ls)"
proof (induction ls b rule: append_lines.induct)
  case (1 b)
  then show ?case by simp
next
  case (2 now stream device job line ls b)
  let ?b = "snd (buffer_append now stream device job line b)"
  let ?e = "fst (buffer_append now stream device job line b)"
  have ev: "eb_events ?b = drop (Suc (length (eb_events b)) - eb_maxlen b) (eb_events b @ [?e])"
    "eb_next_seq ?b = eb_next_seq b + 1" "eb_maxlen ?b = eb_maxlen b"
    by (simp_all add: buffer_append_def deque_append_def Let_def)
  have e: "logged (eb_next_seq b) ((now, stream, device, job, line) # ls) = ?e # logged (eb_next_seq b + 1) ls"
    by (simp add: buffer_append_def Let_def)
  have "length (eb_events ?b) \<le> eb_maxlen ?b" unfolding ev by simp
  from "2.IH" [OF this] have "eb_events (append_lines ls ?b) =
      drop (Suc (length (eb_events b) + length (logged (eb_next_seq b + 1) ls)) - eb_maxlen b)
        (eb_events b @ ?e # logged (eb_next_seq b + 1) ls)"
    unfolding ev drop_deque [OF "2.prems", symmetric] by simp
  then show ?case unfolding e by simp
qed

lemma wf_append_lines [simp]:
  assumes "wf_buffer b"
  shows "wf_buffer (append_lines ls b)"
proof -
  let ?all = "eb_events b @ logged (eb_next_seq b) ls"
  have ev: "eb_events (append_lines ls b) = drop (length (eb_events b) + length ls - eb_maxlen b) ?all"
    using assms by (simp add: append_lines_events wf_buffer_def del: drop_append)
  have "seq_sorted ?all"
    using assms by (intro seq_sorted_append) (auto simp: wf_buffer_def)
  then have "seq_sorted (eb_events (append_lines ls b))"
    unfolding ev by (rule sorted_wrt_drop)
  moreover have "ev_seq e < eb_next_seq b + int (length ls)" if "e \<in> set ?all" for e
    using that assms by (fastforce simp: wf_buffer_def dest!: logged_seq)
  then have "\<forall>e\<in>set (eb_events (append_lines ls b)). ev_seq e < eb_next_seq b + int (length ls)"
    unfolding ev by (meson in_set_dropD)
  ultimately show ?thesis
    by (simp add: wf_buffer_def ev del: drop_append)
qed

lemma append_lines_keeps:
  assumes "wf_buffer b" and "length (eb_events b) + length ls \<le> eb_maxlen b"
  shows "eb_events (append_lines ls b) = eb_events b @ logged (eb_next_seq b) ls"
  using assms by (simp add: append_lines_events wf_buffer_def)

section \<open>Reading\<close>

lemma scan_events_spec:
  assumes "int (length sel) < limit"
  shows "scan_events w limit es sel =
    (let m = sel @ filter w es in
     if limit \<le> int (length m) then (take (nat limit) m, True) else (m, False))"
  using assms
proof (induction es arbitrary: sel)
  case Nil
  then show ?case by simp
next
  case (Cons e es)
  show ?case
  proof (cases "w e")
    case False
    then show ?thesis using Cons by simp
  next
    case True
    show ?thesis
    proof (cases "limit \<le> int (length (sel @ [e]))")
      case True
      then have "limit = int (Suc (length sel))" using Cons.prems by simp
      then show ?thesis using \<open>w e\<close> by (simp add: Let_def del: of_nat_Suc)
    next
      case False
      then show ?thesis using \<open>w e\<close> Cons.IH [of "sel @ [e]"] by (simp add: Let_def)
    qed
  qed
qed

lemma buffer_read_spec:
  assumes "1 \<le> limit"
  shows "buffer_read cursor device stream job limit b =
    (let m = filter (matches cursor device stream job) (eb_events b) in
     if limit \<le> int (length m) then (take (nat limit) m, ev_seq (m ! (nat limit - 1)) + 1)
     else (m, eb_next_seq b))"
proof -
  have "last (take (nat limit) m) = m ! (nat limit - 1)" if "limit \<le> int (length m)" for m :: "console_event list"
  proof -
    have "length (take (nat limit) m) = nat limit" "0 < nat limit" using that assms by auto
    then show ?thesis by (subst last_conv_nth) (auto simp del: length_take)
  qed
  then show ?thesis
    using assms by (auto simp: buffer_read_def scan_events_spec Let_def)
qed

lemma seq_sorted_drop:
  "seq_sorted m \<Longrightarrow> k < length m \<Longrightarrow> filter (\<lambda>e. ev_seq (m ! k) < ev_seq e) m = drop (Suc k) m"
proof (induction m arbitrary: k)
  case Nil
  then show ?case by simp
next
  case (Cons e m)
  show ?case
  proof (cases k)
    case 0
    then show ?thesis using Cons.prems by (auto simp: filter_id_conv)
  next
    case (Suc j)
    then have "m ! j \<in> set m" using Cons.prems by simp
    then have "ev_seq e < ev_seq (m ! j)" using Cons.prems(1) by simp
    then have "\<not> ev_seq (m ! j) < ev_seq e" by simp
    then show ?thesis using Suc Cons.prems Cons.IH [of j] by simp
  qed
qed

lemma matches_later:
  "cursor \<le> c' \<Longrightarrow> matches c' device stream job e \<longleftrightarrow> c' \<le> ev_seq e \<and> matches cursor device stream job e"
  by (auto simp: matches_def)

lemma wf_subscribe [simp]: "wf_buffer (subscribe q b) = wf_buffer b"
  by (simp add: wf_buffer_def subscribe_def)

lemma fst_read_all:
  assumes "1 \<le> limit" and "int (length (eb_events b)) \<le> limit"
  shows "fst (buffer_read cursor device stream job limit b) =
    filter (matches cursor device stream job) (eb_events b)"
proof -
  let ?m = "filter (matches cursor device stream job) (eb_events b)"
  have "length ?m \<le> nat limit" using assms length_filter_le [of "matches cursor device stream job" "eb_events b"] by linarith
  then show ?thesis using assms(1) by (simp add: buffer_read_spec Let_def)
qed

lemma append_lines_append: "append_lines (ls @ ms) b = append_lines ms (append_lines ls b)"
  by (induction ls b rule: append_lines.induct) auto

text \<open>What the stream sends: of the events stored at the snapshot, those the buffer still holds when it is
  read, then everything logged since the subscription.\<close>

lemma console_stream_eq:
  assumes "wf_buffer b" and "q \<notin> set (dict_keys (eb_subscribers b))" and "eb_maxlen b \<le> 50000"
  shows "console_stream q cursor device early late later b =
    filter (matches cursor device None None)
      (drop (length (eb_events b) + length early + length late - eb_maxlen b)
        (eb_events b @ logged (eb_next_seq b) early)) @
    filter (\<lambda>e. \<not> (device \<noteq> None \<and> ev_device e \<noteq> device)) (logged (eb_next_seq b) (early @ late @ later))"
proof -
  let ?n = "eb_next_seq b" and ?d = "length (eb_events b) + length early + length late - eb_maxlen b"
  let ?old = "eb_events b @ logged ?n early" and ?new = "logged (?n + int (length early)) late"
  define b1 where "b1 = append_lines early (subscribe q b)"
  define b2 where "b2 = append_lines late b1"
  define b3 where "b3 = append_lines later b2"
  have sub: "eb_events (subscribe q b) = eb_events b" "eb_next_seq (subscribe q b) = ?n"
    "eb_maxlen (subscribe q b) = eb_maxlen b" "eb_subscribers (subscribe q b) = eb_subscribers b @ [(q, [])]"
    by (simp_all add: subscribe_def)
  have b1: "eb_next_seq b1 = ?n + int (length early)" by (simp add: b1_def sub)
  have b2: "wf_buffer b2" "eb_maxlen b2 = eb_maxlen b" using assms(1) by (simp_all add: b2_def b1_def sub)
  have "b2 = append_lines (early @ late) (subscribe q b)" by (simp add: b2_def b1_def append_lines_append)
  then have ev: "eb_events b2 = drop ?d ?old @ drop (?d - length ?old) ?new"
    using assms(1) by (simp add: append_lines_events sub wf_buffer_def logged_append ac_simps)
  have past: "fst (buffer_read cursor device None None 50000 b2) =
      filter (matches cursor device None None) (eb_events b2)"
    using b2 assms(3) by (intro fst_read_all) (auto simp: wf_buffer_def)
  have "ev_seq e < eb_next_seq b1" if "e \<in> set ?old" for e
    using that assms(1) by (fastforce simp: wf_buffer_def b1 dest!: logged_seq)
  then have "filter (\<lambda>e. ev_seq e < eb_next_seq b1) (drop ?d ?old) = drop ?d ?old"
    by (meson filter_eq_self in_set_dropD)
  moreover have "filter (\<lambda>e. ev_seq e < eb_next_seq b1) (drop (?d - length ?old) ?new) = []"
    by (auto simp: filter_empty_conv b1 dest!: in_set_dropD logged_seq)
  ultimately have old: "filter (\<lambda>e. ev_seq e < eb_next_seq b1) (eb_events b2) = drop ?d ?old"
    by (simp only: ev filter_append append_Nil2)
  have "eb_subscribers b3 = map (\<lambda>p. (fst p, snd p @ logged ?n (early @ late @ later))) (eb_subscribers b @ [(q, [])])"
    by (simp add: b3_def b2_def b1_def append_lines_subscribers sub logged_append comp_def algebra_simps)
  then have live: "dict_get (eb_subscribers b3) q = Some (logged ?n (early @ late @ later))"
    using assms(2) by (simp add: map_add_def comp_def map_of_eq_None_iff [THEN iffD2] image_iff split: option.splits)
  have "filter (\<lambda>e. ev_seq e < eb_next_seq b1) (filter (matches cursor device None None) (eb_events b2)) =
      filter (matches cursor device None None) (drop ?d ?old)"
    unfolding old [symmetric] filter_filter by (rule filter_cong) auto
  then show ?thesis
    using past live
    by (simp add: console_stream_def Let_def b1_def [symmetric] b2_def [symmetric] b3_def [symmetric] live_events_def
        del: drop_append)
qed

text \<open>A limit of zero still returns the first match.\<close>

lemma buffer_read_limit_zero:
  assumes "limit \<le> 0" and "filter (matches cursor device stream job) (eb_events b) = e # es"
  shows "fst (buffer_read cursor device stream job limit b) = [e]"
proof -
  have "scan_events w limit xs [] = ([e], True)" if "filter w xs = e # es" for w xs
    using that assms(1) by (induction xs) (auto split: if_splits)
  then show ?thesis using assms(2) by (simp add: buffer_read_def)
qed

lemma matches_filter_later:
  assumes "seq_sorted xs" and "m = filter (matches cursor device stream job) xs" and "k < length m"
  shows "filter (matches (ev_seq (m ! k) + 1) device stream job) xs = drop (Suc k) m"
proof -
  have "m ! k \<in> set m" using assms(3) by simp
  then have "cursor \<le> ev_seq (m ! k) + 1" using assms(2) by (auto simp: matches_def)
  then have "filter (matches (ev_seq (m ! k) + 1) device stream job) xs =
      filter (\<lambda>e. ev_seq (m ! k) + 1 \<le> ev_seq e) m"
    unfolding assms(2) filter_filter by (intro filter_cong) (auto simp: matches_later)
  also have "\<dots> = filter (\<lambda>e. ev_seq (m ! k) < ev_seq e) m"
    by (rule filter_cong) auto
  also have "\<dots> = drop (Suc k) m"
    using assms by (intro seq_sorted_drop) (simp_all add: sorted_wrt_filter)
  finally show ?thesis .
qed

section \<open>Properties\<close>

text \<open>Reading with a cursor loses nothing and repeats nothing. Whatever is logged after a read, the
  events wanted from the old cursor on are exactly those the read returned followed by those wanted
  from the new cursor on; so a client that reads again and again with the cursor it was given sees every
  matching event once, in order. (As long as the bounded buffer overwrites nothing in between and the
  cursor is not beyond the end.)\<close>

theorem buffer_read_resumes:
  assumes "wf_buffer b" and "1 \<le> limit" and "cursor \<le> eb_next_seq b"
    and "length (eb_events b) + length ls \<le> eb_maxlen b"
    and "buffer_read cursor device stream job limit b = (es, cursor')"
  shows "filter (matches cursor device stream job) (eb_events (append_lines ls b)) =
      es @ filter (matches cursor' device stream job) (eb_events (append_lines ls b)) \<and>
    int (length es) \<le> limit \<and> cursor' \<le> eb_next_seq b"
proof -
  define xs where "xs = eb_events b"
  define new where "new = logged (eb_next_seq b) ls"
  define m where "m = filter (matches cursor device stream job) xs"
  have ev: "eb_events (append_lines ls b) = xs @ new"
    using assms(1,4) by (simp add: append_lines_keeps xs_def new_def)
  have old: "seq_sorted xs" "\<And>e. e \<in> set xs \<Longrightarrow> ev_seq e < eb_next_seq b"
    using assms(1) by (auto simp: wf_buffer_def xs_def)
  have later: "filter (matches c device stream job) new = filter (matches cursor device stream job) new"
    if "c \<le> eb_next_seq b" for c
    using that assms(3) by (intro filter_cong) (auto simp: new_def matches_def dest!: logged_seq)
  show ?thesis
  proof (cases "limit \<le> int (length m)")
    case True
    let ?k = "nat limit - 1"
    have k: "?k < length m" "Suc ?k = nat limit" using True assms(2) by auto
    have es: "es = take (nat limit) m" "cursor' = ev_seq (m ! ?k) + 1"
      using assms(2,5) True by (simp_all add: buffer_read_spec m_def xs_def Let_def)
    have "m ! ?k \<in> set xs" using k(1) nth_mem [of ?k m] by (auto simp: m_def)
    then have c: "cursor' \<le> eb_next_seq b" using old(2) es(2) by fastforce
    have "filter (matches cursor' device stream job) xs = drop (nat limit) m"
      using matches_filter_later [OF old(1) m_def k(1)] k(2) es(2) by simp
    then show ?thesis
      using es(1) c later [OF c] assms(2) by (simp add: ev m_def [symmetric])
  next
    case False
    then have es: "es = m" "cursor' = eb_next_seq b"
      using assms(2,5) by (simp_all add: buffer_read_spec m_def xs_def Let_def)
    have "filter (matches (eb_next_seq b) device stream job) xs = []"
      using old(2) by (auto simp: filter_empty_conv matches_def)
    then show ?thesis using es False later [of cursor'] by (simp add: ev m_def [symmetric])
  qed
qed

definition demo_line :: "string \<Rightarrow> log_line" where
  "demo_line s = (1, ''console'', Some ''cpe'', None, s)"

definition demo_buffer :: event_buffer where
  "demo_buffer = append_lines [demo_line ''a'', demo_line ''b''] (init_buffer 10 0)"

lemma demo_buffer_wf [simp]: "wf_buffer demo_buffer"
  by (simp add: demo_buffer_def)

lemma demo_buffer_fields [simp]:
  "eb_next_seq demo_buffer = 2" "eb_maxlen demo_buffer = 10" "eb_subscribers demo_buffer = []"
  "eb_events demo_buffer = logged 0 [demo_line ''a'', demo_line ''b'']"
  by (simp_all add: demo_buffer_def demo_line_def init_buffer_def buffer_append_def deque_append_def Let_def)

theorem buffer_read_resumes_witness:
  "\<exists>es cursor'. buffer_read 0 None None None 1 demo_buffer = (es, cursor') \<and>
    map ev_line (es @ filter (matches cursor' None None None) (eb_events (append_lines [demo_line ''c''] demo_buffer))) =
      [''a'', ''b'', ''c'']"
proof -
  obtain es cursor' where r: "buffer_read 0 None None None 1 demo_buffer = (es, cursor')"
    by (metis prod.collapse)
  have "map ev_line (filter (matches 0 None None None) (eb_events (append_lines [demo_line ''c''] demo_buffer))) =
      [''a'', ''b'', ''c'']"
    by (subst append_lines_keeps) (simp_all add: demo_line_def matches_def)
  moreover have "filter (matches 0 None None None) (eb_events (append_lines [demo_line ''c''] demo_buffer)) =
      es @ filter (matches cursor' None None None) (eb_events (append_lines [demo_line ''c''] demo_buffer))"
    by (rule buffer_read_resumes [OF demo_buffer_wf _ _ _ r, THEN conjunct1]) simp_all
  ultimately show ?thesis using r by simp
qed

lemma count_list_distinct: "distinct xs \<Longrightarrow> count_list xs x = of_bool (x \<in> set xs)"
  by (induction xs) auto

lemma seq_sorted_distinct: "seq_sorted xs \<Longrightarrow> distinct xs"
  by (induction xs) auto

text \<open>C15: What the console stream delivers, whatever other threads log meanwhile. It is a history followed
  by a live part, each in order. An event of the asked device that was stored before the subscription is
  sent once if it is not below the cursor and the buffer still holds it when it is read; an event logged
  after the snapshot of the head is sent once; an event logged between the subscription and that
  snapshot is sent twice, once from the history and once live, or only live if it is below the cursor
  or already overwritten; nothing else is sent. So no live event is lost, and only that window
  duplicates.\<close>

theorem console_stream_delivery:
  assumes "wf_buffer b" and "q \<notin> set (dict_keys (eb_subscribers b))" and "eb_maxlen b \<le> 50000"
    and "held = set (drop (length (eb_events b) + length early + length late - eb_maxlen b)
      (eb_events b @ logged (eb_next_seq b) early))"
    and "wanted = {e. device = None \<or> ev_device e = device}"
  shows "(\<exists>past live. console_stream q cursor device early late later b = past @ live \<and>
      seq_sorted past \<and> set past = {e \<in> held. cursor \<le> ev_seq e} \<inter> wanted \<and>
      seq_sorted live \<and> set live = set (logged (eb_next_seq b) (early @ late @ later)) \<inter> wanted) \<and>
    (\<forall>e. count_list (console_stream q cursor device early late later b) e =
      (if e \<notin> wanted then 0
       else if e \<in> set (logged (eb_next_seq b) early) then (if e \<in> held \<and> cursor \<le> ev_seq e then 2 else 1)
       else if e \<in> set (logged (eb_next_seq b + int (length early)) (late @ later)) then 1
       else if e \<in> set (eb_events b) \<and> e \<in> held \<and> cursor \<le> ev_seq e then 1 else 0))"
proof -
  let ?n = "eb_next_seq b"
  let ?all = "logged ?n (early @ late @ later)"
  let ?kept = "drop (length (eb_events b) + length early + length late - eb_maxlen b) (eb_events b @ logged ?n early)"
  define past where "past = filter (matches cursor device None None) ?kept"
  define live where "live = filter (\<lambda>e. \<not> (device \<noteq> None \<and> ev_device e \<noteq> device)) ?all"
  have eq: "console_stream q cursor device early late later b = past @ live"
    unfolding past_def live_def by (rule console_stream_eq [OF assms(1-3)])
  have sets: "set past = {e \<in> held. cursor \<le> ev_seq e} \<inter> wanted" "set live = set ?all \<inter> wanted"
    by (auto simp: past_def live_def assms(4,5) matches_def simp del: drop_append)
  have "seq_sorted (eb_events b @ logged ?n early)"
    using assms(1) by (intro seq_sorted_append) (auto simp: wf_buffer_def)
  then have "seq_sorted past" unfolding past_def by (intro sorted_wrt_filter sorted_wrt_drop)
  moreover have "seq_sorted live" unfolding live_def by (intro sorted_wrt_filter seq_sorted_logged)
  ultimately have s: "seq_sorted past" "seq_sorted live" by blast+
  have sub: "held \<subseteq> set (eb_events b) \<union> set (logged ?n early)"
    unfolding assms(4) set_append [symmetric] by (rule set_drop_subset)
  have low: "ev_seq e < ?n" if "e \<in> set (eb_events b)" for e using that assms(1) by (auto simp: wf_buffer_def)
  have split: "e \<in> set ?all \<longleftrightarrow> e \<in> set (logged ?n early) \<or> e \<in> set (logged (?n + int (length early)) (late @ later))" for e
    by (auto simp: logged_append)
  have c: "count_list (past @ live) e = of_bool (e \<in> set past) + of_bool (e \<in> set live)" for e
    using s seq_sorted_distinct count_list_distinct [of past e] count_list_distinct [of live e] by auto
  have new: "e \<notin> set (eb_events b)" if "e \<in> set ?all" for e
    using that low [of e] logged_seq [of e ?n "early @ late @ later"] by fastforce
  have once: "e \<notin> set (logged (?n + int (length early)) (late @ later))" if "e \<in> set (logged ?n early)" for e
    using logged_seq [OF that] logged_seq [of e "?n + int (length early)" "late @ later"] by fastforce
  have "count_list (past @ live) e =
      (if e \<notin> wanted then 0
       else if e \<in> set (logged ?n early) then (if e \<in> held \<and> cursor \<le> ev_seq e then 2 else 1)
       else if e \<in> set (logged (?n + int (length early)) (late @ later)) then 1
       else if e \<in> set (eb_events b) \<and> e \<in> held \<and> cursor \<le> ev_seq e then 1 else 0)" for e
    unfolding c sets using sub split [of e] new [of e] once [of e] by (cases "e \<in> set ?all") auto
  then show ?thesis using eq s sets by auto
qed

theorem console_stream_delivery_witness:
  "count_list (console_stream 7 1 None [demo_line ''c''] [demo_line ''d''] [demo_line ''e''] demo_buffer)
     (hd (logged 2 [demo_line ''c''])) = 2 \<and>
   count_list (console_stream 7 1 None [demo_line ''c''] [demo_line ''d''] [demo_line ''e''] demo_buffer)
     (hd (logged 3 [demo_line ''d''])) = 1"
  using console_stream_delivery [OF demo_buffer_wf _ _ HOL.refl HOL.refl, where q = 7 and early = "[demo_line ''c'']"
      and late = "[demo_line ''d'']" and cursor = 1 and device = None and later = "[demo_line ''e'']", THEN conjunct2, rule_format]
  by (simp add: demo_line_def)

text \<open>The loggers after one installation, and after any number of them.\<close>

definition installed :: "console_capture \<Rightarrow> (string \<Rightarrow> logger) \<Rightarrow> console_capture \<times> (string \<Rightarrow> logger) \<Rightarrow> bool" where
  "installed cc lgs s \<longleftrightarrow>
     fst s = cc\<lparr>cc_previous := [(''pexpect'', lg_propagate (lgs ''pexpect'')),
       (''boardfarm3'', lg_propagate (lgs ''boardfarm3''))]\<rparr> \<and>
     snd s = lgs(''pexpect'' := (lgs ''pexpect'')\<lparr>lg_propagate := False,
         lg_handlers := lg_handlers (lgs ''pexpect'') @ [cc_self cc], lg_level := 10\<rparr>,
       ''boardfarm3'' := (lgs ''boardfarm3'')\<lparr>
         lg_handlers := lg_handlers (lgs ''boardfarm3'') @ [cc_self cc], lg_level := 10\<rparr>)"

lemmas install_defs = installed_def capture_install_def install_on_def CONSOLE_LOGGER_def FRAMEWORK_LOGGER_def
  dict_mem_def Let_def split_beta fun_eq_iff

lemma installed_first:
  assumes "cc_previous cc = []" and "\<And>name. cc_self cc \<notin> set (lg_handlers (lgs name))"
  shows "installed cc lgs (capture_install (cc, lgs))"
  using assms by (simp add: install_defs)

lemma installed_again: "installed cc lgs s \<Longrightarrow> installed cc lgs (capture_install s)"
  by (simp add: install_defs)

lemma uninstall_installed:
  assumes "installed cc lgs s" and "\<And>name. cc_self cc \<notin> set (lg_handlers (lgs name))"
  shows "cc_previous (fst (capture_uninstall s)) = []"
    and "lg_propagate (snd (capture_uninstall s) name) = lg_propagate (lgs name)"
    and "lg_handlers (snd (capture_uninstall s) name) = lg_handlers (lgs name)"
  using assms by (simp_all add: installed_def capture_uninstall_def remove1_append)

text \<open>Capture is undone completely: after installing any number of times and uninstalling once,
  every logger propagates as it did before and has the handlers it had before, when the handler was
  attached nowhere.\<close>

theorem capture_uninstall_restores:
  assumes "cc_previous cc = []" and "\<And>name. cc_self cc \<notin> set (lg_handlers (lgs name))"
  shows "case capture_uninstall ((capture_install ^^ Suc n) (cc, lgs)) of (cc', lgs') \<Rightarrow>
    cc_previous cc' = [] \<and>
    (\<forall>name. lg_propagate (lgs' name) = lg_propagate (lgs name) \<and> lg_handlers (lgs' name) = lg_handlers (lgs name))"
proof -
  have "installed cc lgs ((capture_install ^^ Suc n) (cc, lgs))"
    by (induction n)
      (use installed_first [OF assms] installed_again in \<open>simp_all only: funpow.simps comp_apply id_apply\<close>)
  from uninstall_installed [OF this assms(2)] show ?thesis by (simp add: split_beta)
qed

theorem capture_uninstall_restores_witness:
  "case capture_uninstall ((capture_install ^^ Suc 1)
       (\<lparr>cc_self = 5, cc_previous = []\<rparr>, \<lambda>_. \<lparr>lg_propagate = True, lg_handlers = [1], lg_level = 30\<rparr>)) of
     (cc', lgs') \<Rightarrow> cc_previous cc' = [] \<and>
       (\<forall>name. lg_propagate (lgs' name) = True \<and> lg_handlers (lgs' name) = [1])"
  using capture_uninstall_restores [of "\<lparr>cc_self = 5, cc_previous = []\<rparr>"
      "\<lambda>_. \<lparr>lg_propagate = True, lg_handlers = [1], lg_level = 30\<rparr>" 1]
  by (simp split: prod.splits)

end
