(* ===== verification/API_Errors.thy ===== *)
theory API_Errors
  imports Console Json_Value
begin

text \<open>
  The exception hierarchy (\<^verbatim>\<open>boardfarm3/exceptions.py\<close>) and its mapping to HTTP statuses and the
  error envelope (\<^verbatim>\<open>boardfarm3/api/errors.py\<close>). A class is a value of \<open>exc_class\<close>, its base is
  \<open>base_class\<close>, and \<^verbatim>\<open>isinstance\<close> walks up the bases. pexpect's two classes and the rest of Python's
  exceptions are leaves outside the hierarchy.
\<close>

section \<open>Classes\<close>

datatype exc_class =
  BoardfarmException | DeviceConnectionError | SSHConnectionError | SCPConnectionError
| EnvConfigError | DeviceRequirementError | DeviceNotFound | FileLockTimeout | ConfigurationFailure
| DeviceBootFailure | TR069ResponseError | TR069FaultCode | UseCaseFailure | NotSupportedError
| SNMPError | VoiceError | TeardownError | ContingencyCheckError | WifiError | MulticastError | CodeError
| PexpectTimeout | PexpectEOF | PyValueError | PyTypeError | PyRuntimeError | PyException

fun base_class :: "exc_class \<Rightarrow> exc_class option" where
  "base_class SSHConnectionError = Some DeviceConnectionError"
| "base_class SCPConnectionError = Some DeviceConnectionError"
| "base_class BoardfarmException = Some PyException"
| "base_class PexpectTimeout = Some PyException"
| "base_class PexpectEOF = Some PyException"
| "base_class PyValueError = Some PyException"
| "base_class PyTypeError = Some PyException"
| "base_class PyRuntimeError = Some PyException"
| "base_class PyException = None"
| "base_class _ = Some BoardfarmException"

text \<open>The classes an exception is an instance of, most specific first: no chain has more than four.\<close>

fun bases_upto :: "nat \<Rightarrow> exc_class \<Rightarrow> exc_class list" where
  "bases_upto 0 c = []"
| "bases_upto (Suc n) c = c # (case base_class c of None \<Rightarrow> [] | Some b \<Rightarrow> bases_upto n b)"

definition mro :: "exc_class \<Rightarrow> exc_class list" where
  "mro c = bases_upto 4 c"

definition isinstance :: "exc_class \<Rightarrow> exc_class \<Rightarrow> bool" where
  "isinstance c d \<longleftrightarrow> d \<in> set (mro c)"

lemma mro_complete: "d \<in> set (mro c) \<Longrightarrow> base_class d = Some b \<Longrightarrow> b \<in> set (mro c)"
  by (cases c) (auto simp: mro_def eval_nat_numeral)

section \<open>Statuses\<close>

definition STATUS_BY_EXCEPTION :: "(exc_class \<times> int) list" where
  "STATUS_BY_EXCEPTION =
     [(DeviceNotFound, 404), (NotSupportedError, 501), (EnvConfigError, 400), (UseCaseFailure, 422),
      (TR069FaultCode, 502), (TR069ResponseError, 502), (DeviceConnectionError, 502),
      (PexpectTimeout, 504)]"

fun first_status :: "(exc_class \<times> int) list \<Rightarrow> exc_class \<Rightarrow> int" where
  "first_status [] c = 500"
| "first_status ((d, status) # table) c = (if isinstance c d then status else first_status table c)"

definition http_status_for :: "exc_class \<Rightarrow> int" where
  "http_status_for c = first_status STATUS_BY_EXCEPTION c"

section \<open>The envelope\<close>

record raised =
  rx_class :: exc_class
  rx_name :: string
  rx_message :: string
  rx_traceback :: "string list"

definition opt_str :: "string option \<Rightarrow> json" where
  "opt_str s = (case s of None \<Rightarrow> JNull | Some x \<Rightarrow> JStr x)"

definition error_envelope ::
  "raised \<Rightarrow> string \<Rightarrow> string option \<Rightarrow> string option \<Rightarrow> string \<Rightarrow> json" where
  "error_envelope e session_id job_id device console_tail =
     JObj [(''error'', JStr (rx_name e)), (''message'', JStr (rx_message e)), (''device'', opt_str device),
           (''session_id'', JStr session_id), (''job_id'', opt_str job_id),
           (''console_tail'', JStr console_tail), (''traceback'', JList (map JStr (rx_traceback e)))]"

definition console_tail_from :: "event_buffer \<Rightarrow> string option \<Rightarrow> int \<Rightarrow> string" where
  "console_tail_from b job_id lines =
     join [CHR 0x0A] (map ev_line (last_n lines (fst (buffer_read 0 None None job_id 1000000 b))))"

section \<open>Facts\<close>

text \<open>No class of the table is a base of another, so the order of its entries does not matter.\<close>

lemma status_classes_disjoint:
  "c \<in> fst ` set STATUS_BY_EXCEPTION \<Longrightarrow> d \<in> fst ` set STATUS_BY_EXCEPTION \<Longrightarrow>
   isinstance e c \<Longrightarrow> isinstance e d \<Longrightarrow> c = d"
  by (cases e) (auto simp: STATUS_BY_EXCEPTION_def isinstance_def mro_def eval_nat_numeral)

lemma first_status_cases:
  obtains (none) "\<forall>d\<in>fst ` set table. \<not> isinstance c d" and "first_status table c = 500"
    | (found) d where "(d, first_status table c) \<in> set table" and "isinstance c d"
proof (induction table arbitrary: thesis)
  case Nil
  then show ?case by simp
next
  case (Cons p table)
  obtain d s where p: "p = (d, s)" by (cases p)
  show ?case
  proof (cases "isinstance c d")
    case True
    then show ?thesis using Cons.prems(2) [of d] p by simp
  next
    case False
    show ?thesis
    proof (rule Cons.IH)
      assume "\<forall>d\<in>fst ` set table. \<not> isinstance c d" "first_status table c = 500"
      then show ?thesis using Cons.prems(1) False p by simp
    next
      fix d' assume "(d', first_status table c) \<in> set table" "isinstance c d'"
      then show ?thesis using Cons.prems(2) [of d'] False p by simp
    qed
  qed
qed

lemma status_functional:
  "(d, s) \<in> set STATUS_BY_EXCEPTION \<Longrightarrow> (d, s') \<in> set STATUS_BY_EXCEPTION \<Longrightarrow> s = s'"
  by (auto simp: STATUS_BY_EXCEPTION_def)

lemma last_n_drop: "0 < n \<Longrightarrow> last_n n xs = drop (length xs - nat n) xs"
proof -
  assume "0 < n"
  then have "nat (int (length xs) - n) = length xs - nat n" by linarith
  then show ?thesis using \<open>0 < n\<close> by (auto simp: last_n_def py_slice_def slice_bound_def Let_def)
qed

section \<open>Properties\<close>

text \<open>The status of an exception depends only on its class, not on the order of the table the source
  keeps most specific first: any table with the same entries in any order gives every exception the
  same status, and every status other than 500 comes from an entry the exception is an instance of.\<close>

theorem http_status_order_free:
  assumes "set table = set STATUS_BY_EXCEPTION"
  shows "first_status table c = http_status_for c \<and>
    (http_status_for c \<noteq> 500 \<longrightarrow>
      (\<exists>d. (d, http_status_for c) \<in> set STATUS_BY_EXCEPTION \<and> isinstance c d))"
proof -
  have agree: "first_status t1 c = first_status t2 c"
    if "set t1 = set STATUS_BY_EXCEPTION" "set t2 = set STATUS_BY_EXCEPTION" for t1 t2
  proof (cases rule: first_status_cases [of t1 c])
    case none
    then show ?thesis using that by (cases rule: first_status_cases [of t2 c]) force+
  next
    case (found d)
    then show ?thesis
    proof (cases rule: first_status_cases [of t2 c])
      case none
      then show ?thesis using found that by force
    next
      case (found d')
      have "d = d'"
        using \<open>(d, first_status t1 c) \<in> set t1\<close> \<open>isinstance c d\<close> found that
        by (intro status_classes_disjoint [of d d' c]) force+
      then show ?thesis
        using \<open>(d, first_status t1 c) \<in> set t1\<close> found(1) that status_functional by metis
    qed
  qed
  show ?thesis
  proof (intro conjI impI)
    show "first_status table c = http_status_for c"
      unfolding http_status_for_def by (rule agree) (simp_all add: assms)
    assume "http_status_for c \<noteq> 500"
    then show "\<exists>d. (d, http_status_for c) \<in> set STATUS_BY_EXCEPTION \<and> isinstance c d"
      unfolding http_status_for_def by (cases rule: first_status_cases [of STATUS_BY_EXCEPTION c]) auto
  qed
qed

theorem http_status_order_free_witness:
  "first_status (rev STATUS_BY_EXCEPTION) SSHConnectionError = http_status_for SSHConnectionError"
  using http_status_order_free [of "rev STATUS_BY_EXCEPTION" SSHConnectionError] by simp

end
