(* ===== verification/Job_Queue.thy ===== *)
theory Job_Queue
  imports API_Errors
begin

text \<open>
  The execution queue (\<^verbatim>\<open>boardfarm3/api/execution.py\<close>): one worker thread, first in first out. \<open>Job\<close>
  objects are shared by the queue, the executor and their submitters, so they live in a heap, a list
  indexed by object number; the queue's \<^verbatim>\<open>OrderedDict\<close> maps identifiers to objects and may evict an
  object the executor still holds. The executor's own queue is the list of waiting objects.

  The event loop and the worker thread run concurrently. \<open>jq_step\<close> interleaves their atomic steps; the
  bookkeeping after a failure is two steps (the state first, the error afterwards), because other
  threads read both without the lock.
\<close>

datatype job_state = Queued | Running | Done | Errored | Cancelled

record job =
  jb_id :: string
  jb_state :: job_state
  jb_result :: json
  jb_error :: "raised option"
  jb_created_at :: time
  jb_started_at :: "time option"
  jb_finished_at :: "time option"

datatype worker = Idle | Working nat | Failing nat raised

record job_queue =
  jq_heap :: "job list"
  jq_jobs :: "(string, nat) dict"
  jq_max_jobs :: nat
  jq_waiting :: "nat list"
  jq_worker :: worker
  jq_running :: "nat option"
  jq_shutdown :: bool

definition init_queue :: "nat \<Rightarrow> job_queue" where
  "init_queue max_jobs =
     \<lparr>jq_heap = [], jq_jobs = [], jq_max_jobs = max_jobs, jq_waiting = [], jq_worker = Idle,
      jq_running = None, jq_shutdown = False\<rparr>"

definition new_job :: "string \<Rightarrow> time \<Rightarrow> job" where
  "new_job jid now =
     \<lparr>jb_id = jid, jb_state = Queued, jb_result = JNull, jb_error = None, jb_created_at = now,
      jb_started_at = None, jb_finished_at = None\<rparr>"

definition job_at :: "nat \<Rightarrow> job_queue \<Rightarrow> job" where
  "job_at r q = jq_heap q ! r"

definition set_job :: "nat \<Rightarrow> (job \<Rightarrow> job) \<Rightarrow> job_queue \<Rightarrow> job_queue" where
  "set_job r f q = q\<lparr>jq_heap := (jq_heap q)[r := f (jq_heap q ! r)]\<rparr>"

section \<open>Operations\<close>

text \<open>\<^verbatim>\<open>while len(self._jobs) > self._max_jobs: popitem(last=False)\<close>.\<close>

fun evict_jobs :: "nat \<Rightarrow> (string, nat) dict \<Rightarrow> (string, nat) dict" where
  "evict_jobs mx [] = []"
| "evict_jobs mx (p # d) = (if length (p # d) > mx then evict_jobs mx d else p # d)"

definition record_job :: "string \<Rightarrow> nat \<Rightarrow> job_queue \<Rightarrow> job_queue" where
  "record_job jid r q = q\<lparr>jq_jobs := evict_jobs (jq_max_jobs q) (dict_set jid r (jq_jobs q))\<rparr>"

text \<open>
  \<^verbatim>\<open>submit\<close> up to its first suspension: the job is recorded, then handed to the executor, which
  refuses new work after a shutdown.
\<close>

definition submit_job :: "string \<Rightarrow> time \<Rightarrow> job_queue \<Rightarrow> (raised + nat) \<times> job_queue" where
  "submit_job jid now q =
     (let r = length (jq_heap q);
          q1 = record_job jid r (q\<lparr>jq_heap := jq_heap q @ [new_job jid now]\<rparr>)
      in if jq_shutdown q
         then (Inl \<lparr>rx_class = PyRuntimeError, rx_name = ''RuntimeError'',
                    rx_message = ''cannot schedule new futures after shutdown'', rx_traceback = []\<rparr>, q1)
         else (Inr r, q1\<lparr>jq_waiting := jq_waiting q1 @ [r]\<rparr>))"

definition get_job :: "string \<Rightarrow> job_queue \<Rightarrow> nat option" where
  "get_job jid q = dict_get (jq_jobs q) jid"

definition running_job :: "job_queue \<Rightarrow> job option" where
  "running_job q = map_option (\<lambda>r. job_at r q) (jq_running q)"

definition all_jobs :: "job_queue \<Rightarrow> job list" where
  "all_jobs q = map (\<lambda>p. job_at (snd p) q) (jq_jobs q)"

definition cancel_job :: "string \<Rightarrow> time \<Rightarrow> job_queue \<Rightarrow> bool \<times> job_queue" where
  "cancel_job jid now q =
     (case get_job jid q of
        None \<Rightarrow> (False, q)
      | Some r \<Rightarrow>
         (if jb_state (job_at r q) \<noteq> Queued then (False, q)
          else (True, set_job r (\<lambda>j. j\<lparr>jb_state := Cancelled, jb_finished_at := Some now\<rparr>) q)))"

definition shutdown_queue :: "job_queue \<Rightarrow> job_queue" where
  "shutdown_queue q = q\<lparr>jq_waiting := [], jq_shutdown := True\<rparr>"

section \<open>The worker\<close>

text \<open>Under the lock: a cancelled job is skipped, any other starts.\<close>

definition pick_job :: "time \<Rightarrow> job_queue \<Rightarrow> job_queue" where
  "pick_job now q =
     (case (jq_worker q, jq_waiting q) of
        (Idle, r # rs) \<Rightarrow>
          (if jb_state (job_at r q) = Cancelled then q\<lparr>jq_waiting := rs\<rparr>
           else (set_job r (\<lambda>j. j\<lparr>jb_state := Running, jb_started_at := Some now\<rparr>) q)
                  \<lparr>jq_waiting := rs, jq_worker := Working r, jq_running := Some r\<rparr>)
      | _ \<Rightarrow> q)"

text \<open>The callable returned.\<close>

definition finish_job :: "json \<Rightarrow> time \<Rightarrow> job_queue \<Rightarrow> job_queue" where
  "finish_job res now q =
     (case jq_worker q of
        Working r \<Rightarrow>
          (set_job r (\<lambda>j. j\<lparr>jb_result := res, jb_state := Done, jb_finished_at := Some now\<rparr>) q)
            \<lparr>jq_worker := Idle, jq_running := None\<rparr>
      | _ \<Rightarrow> q)"

text \<open>The callable raised: first the state, then the error and the rest.\<close>

definition fail_job :: "raised \<Rightarrow> job_queue \<Rightarrow> job_queue" where
  "fail_job e q =
     (case jq_worker q of
        Working r \<Rightarrow> (set_job r (\<lambda>j. j\<lparr>jb_state := Errored\<rparr>) q)\<lparr>jq_worker := Failing r e\<rparr>
      | _ \<Rightarrow> q)"

definition record_failure :: "time \<Rightarrow> job_queue \<Rightarrow> job_queue" where
  "record_failure now q =
     (case jq_worker q of
        Failing r e \<Rightarrow>
          (set_job r (\<lambda>j. j\<lparr>jb_error := Some e, jb_finished_at := Some now\<rparr>) q)
            \<lparr>jq_worker := Idle, jq_running := None\<rparr>
      | _ \<Rightarrow> q)"

inductive jq_step :: "job_queue \<Rightarrow> job_queue \<Rightarrow> bool" where
  Submit: "jq_step q (snd (submit_job jid now q))"
| Cancel: "jq_step q (snd (cancel_job jid now q))"
| Shutdown: "jq_step q (shutdown_queue q)"
| Pick: "jq_step q (pick_job now q)"
| Finish: "jq_step q (finish_job res now q)"
| Fail: "jq_step q (fail_job e q)"
| Record: "jq_step q (record_failure now q)"

inductive jq_steps :: "job_queue \<Rightarrow> job_queue \<Rightarrow> bool" where
  refl: "jq_steps q q"
| step: "jq_steps q q' \<Longrightarrow> jq_step q' q'' \<Longrightarrow> jq_steps q q''"

section \<open>The invariant\<close>

definition busy :: "worker \<Rightarrow> nat option" where
  "busy w = (case w of Idle \<Rightarrow> None | Working r \<Rightarrow> Some r | Failing r e \<Rightarrow> Some r)"

definition worker_state :: "worker \<Rightarrow> job_state \<Rightarrow> bool" where
  "worker_state w s \<longleftrightarrow> (case w of Idle \<Rightarrow> False | Working r \<Rightarrow> s = Running | Failing r e \<Rightarrow> s = Errored)"

text \<open>
  Only the worker's job is running; waiting jobs are queued or cancelled and wait in the order of
  their submission, behind every job that has started; every queued job waits unless the executor
  was shut down; a job has a start time exactly when it is running or over without being cancelled.
\<close>

definition wf_queue :: "job_queue \<Rightarrow> bool" where
  "wf_queue q \<longleftrightarrow>
     jq_running q = busy (jq_worker q) \<and>
     (\<forall>r. busy (jq_worker q) = Some r \<longrightarrow> r < length (jq_heap q) \<and> worker_state (jq_worker q) (jb_state (job_at r q))) \<and>
     (\<forall>r<length (jq_heap q). jb_state (job_at r q) = Running \<longrightarrow> busy (jq_worker q) = Some r) \<and>
     sorted_wrt (<) (jq_waiting q) \<and>
     (\<forall>r\<in>set (jq_waiting q). r < length (jq_heap q) \<and> jb_state (job_at r q) \<in> {Queued, Cancelled}) \<and>
     (\<forall>r<length (jq_heap q). jb_state (job_at r q) \<in> {Queued, Cancelled} \<longleftrightarrow> jb_started_at (job_at r q) = None) \<and>
     (\<forall>r<length (jq_heap q). \<forall>w\<in>set (jq_waiting q). jb_started_at (job_at r q) \<noteq> None \<longrightarrow> r < w) \<and>
     (\<forall>p\<in>set (jq_jobs q). snd p < length (jq_heap q) \<and> jb_id (job_at (snd p) q) = fst p) \<and>
     (\<forall>r<length (jq_heap q). jb_state (job_at r q) = Queued \<longrightarrow> jq_shutdown q \<or> r \<in> set (jq_waiting q))"

lemma evict_jobs_drop: "evict_jobs mx d = drop (length d - mx) d"
  by (induction d) (auto simp: Suc_diff_le)

lemma length_set_job [simp]: "length (jq_heap (set_job r f q)) = length (jq_heap q)"
  by (simp add: set_job_def)

lemma job_at_set_job:
  "k < length (jq_heap q) \<Longrightarrow> job_at k (set_job r f q) = (if k = r then f (job_at r q) else job_at k q)"
  by (auto simp: job_at_def set_job_def)

lemma set_job_fields [simp]:
  "jq_jobs (set_job r f q) = jq_jobs q" "jq_max_jobs (set_job r f q) = jq_max_jobs q"
  "jq_waiting (set_job r f q) = jq_waiting q" "jq_worker (set_job r f q) = jq_worker q"
  "jq_running (set_job r f q) = jq_running q" "jq_shutdown (set_job r f q) = jq_shutdown q"
  by (simp_all add: set_job_def)

lemma job_at_update [simp]:
  "job_at k (q\<lparr>jq_waiting := w\<rparr>) = job_at k q" "job_at k (q\<lparr>jq_worker := wk\<rparr>) = job_at k q"
  "job_at k (q\<lparr>jq_running := rn\<rparr>) = job_at k q" "job_at k (q\<lparr>jq_jobs := js\<rparr>) = job_at k q"
  "job_at k (q\<lparr>jq_shutdown := sd\<rparr>) = job_at k q"
  by (simp_all add: job_at_def)

lemma wf_init_queue [simp]: "wf_queue (init_queue n)"
  by (simp add: wf_queue_def init_queue_def busy_def)

lemma wf_queue_D:
  assumes "wf_queue q"
  shows "jq_running q = busy (jq_worker q)"
    and "busy (jq_worker q) = Some r \<Longrightarrow> r < length (jq_heap q) \<and> worker_state (jq_worker q) (jb_state (job_at r q))"
    and "r < length (jq_heap q) \<Longrightarrow> jb_state (job_at r q) = Running \<Longrightarrow> busy (jq_worker q) = Some r"
    and "sorted_wrt (<) (jq_waiting q)"
    and "r \<in> set (jq_waiting q) \<Longrightarrow> r < length (jq_heap q) \<and> jb_state (job_at r q) \<in> {Queued, Cancelled}"
    and "r < length (jq_heap q) \<Longrightarrow>
      jb_state (job_at r q) \<in> {Queued, Cancelled} \<longleftrightarrow> jb_started_at (job_at r q) = None"
    and "r < length (jq_heap q) \<Longrightarrow> w \<in> set (jq_waiting q) \<Longrightarrow> jb_started_at (job_at r q) \<noteq> None \<Longrightarrow> r < w"
    and "p \<in> set (jq_jobs q) \<Longrightarrow> snd p < length (jq_heap q) \<and> jb_id (job_at (snd p) q) = fst p"
    and "r < length (jq_heap q) \<Longrightarrow> jb_state (job_at r q) = Queued \<Longrightarrow> jq_shutdown q \<or> r \<in> set (jq_waiting q)"
proof -
  note w = assms [unfolded wf_queue_def]
  show "jq_running q = busy (jq_worker q)" by (rule w [THEN conjunct1])
  show "busy (jq_worker q) = Some r \<Longrightarrow> r < length (jq_heap q) \<and> worker_state (jq_worker q) (jb_state (job_at r q))"
    by (rule w [THEN conjunct2, THEN conjunct1, rule_format])
  show "r < length (jq_heap q) \<Longrightarrow> jb_state (job_at r q) = Running \<Longrightarrow> busy (jq_worker q) = Some r"
    by (rule w [THEN conjunct2, THEN conjunct2, THEN conjunct1, rule_format])
  show "sorted_wrt (<) (jq_waiting q)" by (rule w [THEN conjunct2, THEN conjunct2, THEN conjunct2, THEN conjunct1])
  show "r \<in> set (jq_waiting q) \<Longrightarrow> r < length (jq_heap q) \<and> jb_state (job_at r q) \<in> {Queued, Cancelled}"
    by (rule w [THEN conjunct2, THEN conjunct2, THEN conjunct2, THEN conjunct2, THEN conjunct1, rule_format])
  show "r < length (jq_heap q) \<Longrightarrow>
      jb_state (job_at r q) \<in> {Queued, Cancelled} \<longleftrightarrow> jb_started_at (job_at r q) = None"
    by (rule w [THEN conjunct2, THEN conjunct2, THEN conjunct2, THEN conjunct2, THEN conjunct2, THEN conjunct1, rule_format])
  show "r < length (jq_heap q) \<Longrightarrow> w \<in> set (jq_waiting q) \<Longrightarrow> jb_started_at (job_at r q) \<noteq> None \<Longrightarrow> r < w"
    by (rule w [THEN conjunct2, THEN conjunct2, THEN conjunct2, THEN conjunct2, THEN conjunct2, THEN conjunct2, THEN conjunct1, rule_format])
  show "p \<in> set (jq_jobs q) \<Longrightarrow> snd p < length (jq_heap q) \<and> jb_id (job_at (snd p) q) = fst p"
    by (rule w [THEN conjunct2, THEN conjunct2, THEN conjunct2, THEN conjunct2, THEN conjunct2, THEN conjunct2, THEN conjunct2, THEN conjunct1, rule_format])
  show "r < length (jq_heap q) \<Longrightarrow> jb_state (job_at r q) = Queued \<Longrightarrow> jq_shutdown q \<or> r \<in> set (jq_waiting q)"
    by (rule w [THEN conjunct2, THEN conjunct2, THEN conjunct2, THEN conjunct2, THEN conjunct2, THEN conjunct2, THEN conjunct2, THEN conjunct2, rule_format])
qed

lemma wf_queue_I:
  assumes "jq_running q = busy (jq_worker q)"
    and "\<And>r. busy (jq_worker q) = Some r \<Longrightarrow>
      r < length (jq_heap q) \<and> worker_state (jq_worker q) (jb_state (job_at r q))"
    and "\<And>r. r < length (jq_heap q) \<Longrightarrow> jb_state (job_at r q) = Running \<Longrightarrow> busy (jq_worker q) = Some r"
    and "sorted_wrt (<) (jq_waiting q)"
    and "\<And>r. r \<in> set (jq_waiting q) \<Longrightarrow> r < length (jq_heap q) \<and> jb_state (job_at r q) \<in> {Queued, Cancelled}"
    and "\<And>r. r < length (jq_heap q) \<Longrightarrow>
      jb_state (job_at r q) \<in> {Queued, Cancelled} \<longleftrightarrow> jb_started_at (job_at r q) = None"
    and "\<And>r w. r < length (jq_heap q) \<Longrightarrow> w \<in> set (jq_waiting q) \<Longrightarrow> jb_started_at (job_at r q) \<noteq> None \<Longrightarrow> r < w"
    and "\<And>p. p \<in> set (jq_jobs q) \<Longrightarrow> snd p < length (jq_heap q) \<and> jb_id (job_at (snd p) q) = fst p"
    and "\<And>r. r < length (jq_heap q) \<Longrightarrow> jb_state (job_at r q) = Queued \<Longrightarrow> jq_shutdown q \<or> r \<in> set (jq_waiting q)"
  shows "wf_queue q"
  unfolding wf_queue_def
proof (intro conjI)
  show "jq_running q = busy (jq_worker q)" by (rule assms(1))
  show "\<forall>r. busy (jq_worker q) = Some r \<longrightarrow>
      r < length (jq_heap q) \<and> worker_state (jq_worker q) (jb_state (job_at r q))"
    by (intro allI impI) (rule assms(2))
  show "\<forall>r<length (jq_heap q). jb_state (job_at r q) = Running \<longrightarrow> busy (jq_worker q) = Some r"
    by (intro allI impI) (rule assms(3))
  show "sorted_wrt (<) (jq_waiting q)" by (rule assms(4))
  show "\<forall>r\<in>set (jq_waiting q). r < length (jq_heap q) \<and> jb_state (job_at r q) \<in> {Queued, Cancelled}"
    by (intro ballI) (rule assms(5))
  show "\<forall>r<length (jq_heap q).
      (jb_state (job_at r q) \<in> {Queued, Cancelled}) = (jb_started_at (job_at r q) = None)"
    by (intro allI impI) (rule assms(6))
  show "\<forall>r<length (jq_heap q). \<forall>w\<in>set (jq_waiting q). jb_started_at (job_at r q) \<noteq> None \<longrightarrow> r < w"
    by (intro allI impI ballI) (rule assms(7))
  show "\<forall>p\<in>set (jq_jobs q). snd p < length (jq_heap q) \<and> jb_id (job_at (snd p) q) = fst p"
    by (intro ballI) (rule assms(8))
  show "\<forall>r<length (jq_heap q). jb_state (job_at r q) = Queued \<longrightarrow> jq_shutdown q \<or> r \<in> set (jq_waiting q)"
    by (intro allI impI) (rule assms(9))
qed

lemma set_dict_set_sub: "set (dict_set k v d) \<subseteq> insert (k, v) (set d)"
  by (induction d) auto

lemma wf_submit:
  assumes "wf_queue q"
  shows "wf_queue (snd (submit_job jid now q))"
proof -
  note d = wf_queue_D [OF assms]
  let ?q = "snd (submit_job jid now q)" and ?n = "length (jq_heap q)"
  have f: "jq_heap ?q = jq_heap q @ [new_job jid now]" "jq_worker ?q = jq_worker q" "jq_running ?q = jq_running q"
    "jq_shutdown ?q = jq_shutdown q" "jq_waiting ?q = jq_waiting q @ (if jq_shutdown q then [] else [?n])"
    "jq_jobs ?q = drop (length (dict_set jid ?n (jq_jobs q)) - jq_max_jobs q) (dict_set jid ?n (jq_jobs q))"
    by (simp_all add: submit_job_def record_job_def Let_def evict_jobs_drop)
  have at: "job_at r ?q = (if r < ?n then job_at r q else new_job jid now)" if "r < Suc ?n" for r
    using that by (auto simp: job_at_def f nth_append)
  have new: "jb_state (new_job jid now) = Queued" "jb_started_at (new_job jid now) = None" "jb_id (new_job jid now) = jid"
    by (simp_all add: new_job_def)
  show ?thesis
  proof (rule wf_queue_I)
    show "sorted_wrt (<) (jq_waiting ?q)" using d(4,5) by (auto simp: f sorted_wrt_append)
    show "snd p < length (jq_heap ?q) \<and> jb_id (job_at (snd p) ?q) = fst p" if "p \<in> set (jq_jobs ?q)" for p
    proof -
      have "p \<in> insert (jid, ?n) (set (jq_jobs q))"
        using that set_dict_set_sub by (fastforce simp: f dest!: in_set_dropD)
      then show ?thesis using d(8) [of p] at [of "snd p"] new by (auto simp: f)
    qed
    show "r < w" if "r < length (jq_heap ?q)" "w \<in> set (jq_waiting ?q)" "jb_started_at (job_at r ?q) \<noteq> None" for r w
      using that at [of r] d(7) [of r w] new by (auto simp: f split: if_splits)
    show "r < length (jq_heap ?q) \<and> jb_state (job_at r ?q) \<in> {Queued, Cancelled}" if "r \<in> set (jq_waiting ?q)" for r
    proof (cases "r = ?n")
      case True
      then show ?thesis using at [of r] new by (simp add: f)
    next
      case False
      then have "r \<in> set (jq_waiting q)" using that by (auto simp: f split: if_splits)
      then show ?thesis using d(5) [of r] at [of r] by (simp add: f)
    qed
    show "jq_running ?q = busy (jq_worker ?q)" using d(1) by (simp add: f)
    show "r < length (jq_heap ?q) \<and> worker_state (jq_worker ?q) (jb_state (job_at r ?q))"
      if "busy (jq_worker ?q) = Some r" for r
      using that d(2) [of r] at [of r] by (simp add: f)
    show "busy (jq_worker ?q) = Some r" if "r < length (jq_heap ?q)" "jb_state (job_at r ?q) = Running" for r
      using that d(3) [of r] at [of r] new by (simp add: f split: if_splits)
    show "jb_state (job_at r ?q) \<in> {Queued, Cancelled} \<longleftrightarrow> jb_started_at (job_at r ?q) = None"
      if "r < length (jq_heap ?q)" for r
      using that d(6) [of r] at [of r] new by (simp add: f split: if_splits)
    show "jq_shutdown ?q \<or> r \<in> set (jq_waiting ?q)" if "r < length (jq_heap ?q)" "jb_state (job_at r ?q) = Queued" for r
      using that d(9) [of r] at [of r] by (auto simp: f less_Suc_eq split: if_splits)
  qed
qed

text \<open>
  Changing one job that is not the worker's from queued to cancelled, or the worker's to its next
  state, keeps the rest.
\<close>

lemma wf_cancel:
  assumes "wf_queue q"
  shows "wf_queue (snd (cancel_job jid now q))"
proof (cases "\<exists>r. get_job jid q = Some r \<and> jb_state (job_at r q) = Queued")
  case False
  then have "snd (cancel_job jid now q) = q" by (auto simp: cancel_job_def split: option.splits)
  then show ?thesis using assms by simp
next
  case True
  note d = wf_queue_D [OF assms]
  from True obtain c where c: "get_job jid q = Some c" "jb_state (job_at c q) = Queued" by blast
  let ?f = "\<lambda>j. j\<lparr>jb_state := Cancelled, jb_finished_at := Some now\<rparr>"
  have q': "snd (cancel_job jid now q) = set_job c ?f q" using c by (simp add: cancel_job_def)
  have at: "job_at r (set_job c ?f q) = (if r = c then ?f (job_at c q) else job_at r q)"
    if "r < length (jq_heap q)" for r
    using that by (rule job_at_set_job)
  show ?thesis
    unfolding q'
  proof (rule wf_queue_I)
    show "r < length (jq_heap (set_job c ?f q)) \<and>
        worker_state (jq_worker (set_job c ?f q)) (jb_state (job_at r (set_job c ?f q)))"
      if "busy (jq_worker (set_job c ?f q)) = Some r" for r
      using that d(2) [of r] at [of r] c(2) by (auto simp: worker_state_def split: worker.splits)
    show "jb_state (job_at r (set_job c ?f q)) \<in> {Queued, Cancelled} \<longleftrightarrow>
        jb_started_at (job_at r (set_job c ?f q)) = None"
      if "r < length (jq_heap (set_job c ?f q))" for r
      using that d(6) [of r] at [of r] c(2) by auto
    show "r < w"
      if "r < length (jq_heap (set_job c ?f q))" "w \<in> set (jq_waiting (set_job c ?f q))"
        "jb_started_at (job_at r (set_job c ?f q)) \<noteq> None" for r w
      using that d(7) [of r w] at [of r] by (auto split: if_splits)
    show "snd p < length (jq_heap (set_job c ?f q)) \<and> jb_id (job_at (snd p) (set_job c ?f q)) = fst p"
      if "p \<in> set (jq_jobs (set_job c ?f q))" for p
      using that d(8) [of p] at [of "snd p"] by auto
  qed (use d(1,3,4,5,9) at in \<open>auto split: if_splits\<close>)
qed

lemma wf_shutdown:
  assumes "wf_queue q"
  shows "wf_queue (shutdown_queue q)"
proof -
  note d = wf_queue_D [OF assms]
  have f: "jq_heap (shutdown_queue q) = jq_heap q" "jq_worker (shutdown_queue q) = jq_worker q"
    "jq_running (shutdown_queue q) = jq_running q" "jq_jobs (shutdown_queue q) = jq_jobs q"
    "jq_waiting (shutdown_queue q) = []" "jq_shutdown (shutdown_queue q)"
    "job_at r (shutdown_queue q) = job_at r q" for r
    by (simp_all add: shutdown_queue_def job_at_def)
  show ?thesis
    by (rule wf_queue_I; unfold f) (fact d(1), fact d(2), fact d(3), simp, simp, fact d(6), simp, fact d(8), simp add: f)
qed

text \<open>
  The worker takes the head of the line, or its job moves on: \<open>q'\<close> differs from \<open>q\<close> in the job \<open>c\<close>,
  in what the worker does and in the head of the line.
\<close>

lemma wf_worker_step:
  assumes "wf_queue q" and c: "c < length (jq_heap q)"
    and heap: "length (jq_heap q') = length (jq_heap q)"
    and at: "\<And>r. r < length (jq_heap q) \<Longrightarrow> job_at r q' = (if r = c then j else job_at r q)"
    and same: "jq_jobs q' = jq_jobs q" "jq_shutdown q' = jq_shutdown q" "jb_id j = jb_id (job_at c q)"
    and run: "jq_running q' = busy (jq_worker q')"
    and wk: "busy (jq_worker q') = Some c \<and> worker_state (jq_worker q') (jb_state j) \<or>
      jq_worker q' = Idle \<and> jb_state j \<noteq> Running"
    and mine: "\<And>r. busy (jq_worker q) = Some r \<Longrightarrow> r = c"
    and j: "jb_state j \<notin> {Queued, Cancelled}" "jb_started_at j \<noteq> None"
    and wait: "jq_waiting q = jq_waiting q' \<and> busy (jq_worker q) = Some c \<or> jq_waiting q = c # jq_waiting q'"
  shows "wf_queue q'"
proof -
  note d = wf_queue_D [OF assms(1)]
  have sub: "set (jq_waiting q') \<subseteq> set (jq_waiting q)" using wait by auto
  have behind: "c < w" if "w \<in> set (jq_waiting q')" for w
  proof -
    consider "jq_waiting q = c # jq_waiting q'" | "busy (jq_worker q) = Some c" "jq_waiting q = jq_waiting q'"
      using wait by blast
    then show ?thesis
    proof cases
      case 1
      then show ?thesis using d(4) that by simp
    next
      case 2
      then have "worker_state (jq_worker q) (jb_state (job_at c q))" using d(2) by blast
      then have "jb_started_at (job_at c q) \<noteq> None"
        using d(6) [OF c] by (auto simp: worker_state_def split: worker.splits)
      then show ?thesis using d(7) [OF c _, of w] that 2(2) by simp
    qed
  qed
  have atc: "job_at c q' = j" using at [OF c] by simp
  have ato: "r < length (jq_heap q) \<Longrightarrow> r \<noteq> c \<Longrightarrow> job_at r q' = job_at r q" for r using at [of r] by simp
  show ?thesis
  proof (rule wf_queue_I; (unfold heap same)?)
    show "jq_running q' = busy (jq_worker q')" by (rule run)
    show "r < length (jq_heap q) \<and> worker_state (jq_worker q') (jb_state (job_at r q'))"
      if b: "busy (jq_worker q') = Some r" for r
    proof -
      have "busy (jq_worker q') = Some c" "worker_state (jq_worker q') (jb_state j)"
        using wk b by (auto simp: busy_def)
      then show ?thesis using b c atc by simp
    qed
    show "busy (jq_worker q') = Some r" if r: "r < length (jq_heap q)" "jb_state (job_at r q') = Running" for r
    proof (cases "r = c")
      case True
      then show ?thesis using wk r atc by auto
    next
      case False
      then have "busy (jq_worker q) = Some r" using r ato [of r] d(3) [of r] by simp
      then show ?thesis using mine False by blast
    qed
    show "sorted_wrt (<) (jq_waiting q')" using d(4) wait by (elim disjE) simp_all
    show "r < length (jq_heap q) \<and> jb_state (job_at r q') \<in> {Queued, Cancelled}" if r: "r \<in> set (jq_waiting q')" for r
    proof -
      have "r \<in> set (jq_waiting q)" "r \<noteq> c" using sub behind [OF r] r by auto
      then show ?thesis using d(5) [of r] ato [of r] by simp
    qed
    show "jb_state (job_at r q') \<in> {Queued, Cancelled} \<longleftrightarrow> jb_started_at (job_at r q') = None"
      if r: "r < length (jq_heap q)" for r
    proof (cases "r = c")
      case True
      then show ?thesis using atc j by simp
    next
      case False
      then show ?thesis using d(6) [OF r] ato [OF r] by simp
    qed
    show "r < w" if r: "r < length (jq_heap q)" "w \<in> set (jq_waiting q')" "jb_started_at (job_at r q') \<noteq> None" for r w
    proof (cases "r = c")
      case True
      then show ?thesis using behind [OF r(2)] by simp
    next
      case False
      moreover have "w \<in> set (jq_waiting q)" using sub r(2) by blast
      ultimately show ?thesis using d(7) [of r w] ato [of r] r by simp
    qed
    show "snd p < length (jq_heap q) \<and> jb_id (job_at (snd p) q') = fst p" if p: "p \<in> set (jq_jobs q)" for p
      using d(8) [OF p] atc ato [of "snd p"] same(3) by (cases "snd p = c") simp_all
    show "jq_shutdown q \<or> r \<in> set (jq_waiting q')" if r: "r < length (jq_heap q)" "jb_state (job_at r q') = Queued" for r
    proof -
      have "r \<noteq> c" using r(2) atc j(1) by auto
      then have "jq_shutdown q \<or> r \<in> set (jq_waiting q)" using d(9) [of r] r ato [of r] by simp
      then show ?thesis using wait \<open>r \<noteq> c\<close> by (elim disjE) auto
    qed
  qed
qed

lemma wf_pick:
  assumes "wf_queue q"
  shows "wf_queue (pick_job now q)"
proof (cases "jq_worker q = Idle \<and> jq_waiting q \<noteq> []")
  case False
  then have "pick_job now q = q" by (auto simp: pick_job_def split: worker.splits list.splits)
  then show ?thesis using assms by simp
next
  case True
  note d = wf_queue_D [OF assms]
  from True obtain r rs where w: "jq_worker q = Idle" "jq_waiting q = r # rs" by (cases "jq_waiting q") auto
  have r: "r < length (jq_heap q)" "jb_state (job_at r q) \<in> {Queued, Cancelled}" using d(5) [of r] w by auto
  show ?thesis
  proof (cases "jb_state (job_at r q) = Cancelled")
    case True
    then have q': "pick_job now q = q\<lparr>jq_waiting := rs\<rparr>" using w by (simp add: pick_job_def)
    show ?thesis
      unfolding q'
    proof (rule wf_queue_I)
      show "jq_shutdown (q\<lparr>jq_waiting := rs\<rparr>) \<or> k \<in> set (jq_waiting (q\<lparr>jq_waiting := rs\<rparr>))"
        if "k < length (jq_heap (q\<lparr>jq_waiting := rs\<rparr>))" "jb_state (job_at k (q\<lparr>jq_waiting := rs\<rparr>)) = Queued" for k
        using that d(9) [of k] w True by auto
      show "k < v" if "k < length (jq_heap (q\<lparr>jq_waiting := rs\<rparr>))" "v \<in> set (jq_waiting (q\<lparr>jq_waiting := rs\<rparr>))"
        "jb_started_at (job_at k (q\<lparr>jq_waiting := rs\<rparr>)) \<noteq> None" for k v
        using that d(7) [of k v] w by simp
      show "k < length (jq_heap (q\<lparr>jq_waiting := rs\<rparr>)) \<and> jb_state (job_at k (q\<lparr>jq_waiting := rs\<rparr>)) \<in> {Queued, Cancelled}"
        if "k \<in> set (jq_waiting (q\<lparr>jq_waiting := rs\<rparr>))" for k
        using that d(5) [of k] w by simp
      show "jb_state (job_at k (q\<lparr>jq_waiting := rs\<rparr>)) \<in> {Queued, Cancelled} \<longleftrightarrow>
          jb_started_at (job_at k (q\<lparr>jq_waiting := rs\<rparr>)) = None"
        if "k < length (jq_heap (q\<lparr>jq_waiting := rs\<rparr>))" for k
        using that d(6) [of k] by simp
      show "busy (jq_worker (q\<lparr>jq_waiting := rs\<rparr>)) = Some k"
        if "k < length (jq_heap (q\<lparr>jq_waiting := rs\<rparr>))" "jb_state (job_at k (q\<lparr>jq_waiting := rs\<rparr>)) = Running" for k
        using that d(3) [of k] by simp
      show "snd p < length (jq_heap (q\<lparr>jq_waiting := rs\<rparr>)) \<and> jb_id (job_at (snd p) (q\<lparr>jq_waiting := rs\<rparr>)) = fst p"
        if "p \<in> set (jq_jobs (q\<lparr>jq_waiting := rs\<rparr>))" for p
        using that d(8) [of p] by simp
      show "sorted_wrt (<) (jq_waiting (q\<lparr>jq_waiting := rs\<rparr>))" using d(4) w by simp
    qed (simp_all add: d(1) w busy_def)
  next
    case False
    then have q': "pick_job now q = (set_job r (\<lambda>j. j\<lparr>jb_state := Running, jb_started_at := Some now\<rparr>) q)
        \<lparr>jq_waiting := rs, jq_worker := Working r, jq_running := Some r\<rparr>"
      using w by (simp add: pick_job_def)
    show ?thesis
      unfolding q'
      by (rule wf_worker_step [OF assms r(1),
            where j = "(job_at r q)\<lparr>jb_state := Running, jb_started_at := Some now\<rparr>"])
        (use w in \<open>auto simp: job_at_set_job busy_def worker_state_def\<close>)
  qed
qed

lemma wf_work:
  assumes "wf_queue q"
  shows "wf_queue (finish_job res now q)" and "wf_queue (fail_job e q)" and "wf_queue (record_failure now q)"
proof -
  note d = wf_queue_D [OF assms]
  have st: "r < length (jq_heap q)" "jb_started_at (job_at r q) \<noteq> None" if "busy (jq_worker q) = Some r" for r
  proof -
    show "r < length (jq_heap q)" using d(2) [OF that] by simp
    then show "jb_started_at (job_at r q) \<noteq> None"
      using d(2) [OF that] d(6) [of r] by (auto simp: worker_state_def split: worker.splits)
  qed
  show "wf_queue (finish_job res now q)"
  proof (cases "jq_worker q")
    case (Working r)
    then have b: "busy (jq_worker q) = Some r" by (simp add: busy_def)
    have q': "finish_job res now q =
        (set_job r (\<lambda>j. j\<lparr>jb_result := res, jb_state := Done, jb_finished_at := Some now\<rparr>) q)
          \<lparr>jq_worker := Idle, jq_running := None\<rparr>"
      using Working by (simp add: finish_job_def)
    show ?thesis
      unfolding q'
      by (rule wf_worker_step [OF assms st(1) [OF b], where j =
            "(job_at r q)\<lparr>jb_result := res, jb_state := Done, jb_finished_at := Some now\<rparr>"])
        (use b st(2) [OF b] in \<open>auto simp: job_at_set_job busy_def [of Idle]\<close>)
  qed (use assms in \<open>simp_all add: finish_job_def\<close>)
  show "wf_queue (fail_job e q)"
  proof (cases "jq_worker q")
    case (Working r)
    then have b: "busy (jq_worker q) = Some r" by (simp add: busy_def)
    have q': "fail_job e q = (set_job r (\<lambda>j. j\<lparr>jb_state := Errored\<rparr>) q)\<lparr>jq_worker := Failing r e\<rparr>"
      using Working by (simp add: fail_job_def)
    show ?thesis
      unfolding q'
      by (rule wf_worker_step [OF assms st(1) [OF b], where j = "(job_at r q)\<lparr>jb_state := Errored\<rparr>"])
        (use b st(2) [OF b] d(1) in \<open>auto simp: job_at_set_job busy_def [of "Failing r e"] worker_state_def\<close>)
  qed (use assms in \<open>simp_all add: fail_job_def\<close>)
  show "wf_queue (record_failure now q)"
  proof (cases "jq_worker q")
    case (Failing r x)
    then have b: "busy (jq_worker q) = Some r" by (simp add: busy_def)
    have q': "record_failure now q =
        (set_job r (\<lambda>j. j\<lparr>jb_error := Some x, jb_finished_at := Some now\<rparr>) q)\<lparr>jq_worker := Idle, jq_running := None\<rparr>"
      using Failing by (simp add: record_failure_def)
    have "jb_state (job_at r q) = Errored" using d(2) [OF b] Failing by (simp add: worker_state_def)
    then show ?thesis
      unfolding q'
      by (intro wf_worker_step [OF assms st(1) [OF b], where j =
            "(job_at r q)\<lparr>jb_error := Some x, jb_finished_at := Some now\<rparr>"])
        (use b st(2) [OF b] in \<open>auto simp: job_at_set_job busy_def [of Idle]\<close>)
  qed (use assms in \<open>simp_all add: record_failure_def\<close>)
qed

lemma wf_queue_step: "jq_step q q' \<Longrightarrow> wf_queue q \<Longrightarrow> wf_queue q'"
  by (induction rule: jq_step.induct) (simp_all add: wf_submit wf_cancel wf_shutdown wf_pick wf_work)

lemma wf_queue_steps: "jq_steps q q' \<Longrightarrow> wf_queue q \<Longrightarrow> wf_queue q'"
  by (induction rule: jq_steps.induct) (auto intro: wf_queue_step)

section \<open>Jobs over time\<close>

definition over :: "job_state \<Rightarrow> bool" where
  "over s \<longleftrightarrow> s \<in> {Done, Errored, Cancelled}"

lemma step_heap_grows: "jq_step q q' \<Longrightarrow> length (jq_heap q) \<le> length (jq_heap q')"
  by (induction rule: jq_step.induct)
    (auto simp: submit_job_def record_job_def cancel_job_def shutdown_queue_def pick_job_def finish_job_def
      fail_job_def record_failure_def Let_def split: option.splits worker.splits list.splits)

lemma terminal_set_job:
  assumes "r < length (jq_heap q)" and "jb_state (job_at r q) = s" and "r = c \<Longrightarrow> jb_state (f (job_at c q)) = s"
  shows "jb_state (job_at r (set_job c f q)) = s"
  using assms by (simp add: job_at_set_job)

lemma step_terminal:
  assumes "jq_step q q'" and "wf_queue q" and "r < length (jq_heap q)" and "over (jb_state (job_at r q))"
  shows "jb_state (job_at r q') = jb_state (job_at r q)"
  using assms(1)
proof (cases rule: jq_step.cases)
  case (Submit jid now)
  then show ?thesis using assms(3) by (simp add: submit_job_def record_job_def job_at_def nth_append Let_def)
next
  case (Cancel jid now)
  then show ?thesis
    using assms(3,4) by (auto simp: cancel_job_def over_def job_at_set_job split: option.splits)
next
  case Shutdown
  then show ?thesis by (simp add: shutdown_queue_def job_at_def)
next
  case (Pick now)
  have "c \<in> set (jq_waiting q) \<Longrightarrow> c = r \<Longrightarrow> jb_state (job_at c q) = Cancelled" for c
    using wf_queue_D(5) [OF assms(2), of c] assms(4) by (auto simp: over_def)
  then show ?thesis
    using Pick assms(3) by (auto simp: pick_job_def job_at_set_job split: worker.splits list.splits)
next
  case (Finish res now)
  have "jq_worker q = Working c \<Longrightarrow> c \<noteq> r" for c
    using wf_queue_D(2) [OF assms(2), of c] assms(4) by (auto simp: over_def busy_def worker_state_def)
  then show ?thesis using Finish assms(3) by (auto simp: finish_job_def job_at_set_job split: worker.splits)
next
  case (Fail e)
  have "jq_worker q = Working c \<Longrightarrow> c \<noteq> r" for c
    using wf_queue_D(2) [OF assms(2), of c] assms(4) by (auto simp: over_def busy_def worker_state_def)
  then show ?thesis using Fail assms(3) by (auto simp: fail_job_def job_at_set_job split: worker.splits)
next
  case (Record now)
  then show ?thesis using assms(3) by (auto simp: record_failure_def job_at_set_job split: worker.splits)
qed

lemma steps_terminal:
  "jq_steps q q' \<Longrightarrow> wf_queue q \<Longrightarrow> r < length (jq_heap q) \<Longrightarrow> over (jb_state (job_at r q)) \<Longrightarrow>
   r < length (jq_heap q') \<and> jb_state (job_at r q') = jb_state (job_at r q)"
proof (induction rule: jq_steps.induct)
  case (step q q' q'')
  then show ?case
    using step_terminal [OF step.hyps(2) wf_queue_steps [OF step.hyps(1)], of r] step_heap_grows [OF step.hyps(2)]
    by auto
qed simp

text \<open>One turn of an idle worker whose callable returns.\<close>

definition turn :: "json \<Rightarrow> time \<Rightarrow> job_queue \<Rightarrow> job_queue" where
  "turn res now q = finish_job res now (pick_job now q)"

lemma turn_head:
  assumes "wf_queue q" and "jq_worker q = Idle" and "jq_waiting q = r # rs"
  shows "jq_worker (turn res now q) = Idle" and "jq_waiting (turn res now q) = rs"
    and "length (jq_heap (turn res now q)) = length (jq_heap q)"
    and "k < length (jq_heap q) \<Longrightarrow> jb_state (job_at k (turn res now q)) =
      (if k = r \<and> jb_state (job_at r q) = Queued then Done else jb_state (job_at k q))"
  using assms wf_queue_D(5) [OF assms(1), of r]
  by (auto simp: turn_def pick_job_def finish_job_def job_at_set_job)

section \<open>Properties\<close>

text \<open>C13: One operation at a time, in order. In every reachable state of the queue, with submitters, the
  worker and cancellations interleaved in any way, at most one job is running; every job that has
  started was submitted before every job still waiting; and a cancelled job has never started.\<close>

theorem job_queue_serial:
  assumes "jq_steps (init_queue n) q" and "r < length (jq_heap q)" and "s < length (jq_heap q)"
  shows "(jb_state (job_at r q) = Running \<and> jb_state (job_at s q) = Running \<longrightarrow> r = s) \<and>
    (jb_started_at (job_at r q) \<noteq> None \<and> s \<in> set (jq_waiting q) \<longrightarrow> r < s) \<and>
    (jb_state (job_at r q) = Cancelled \<longrightarrow> jb_started_at (job_at r q) = None)"
proof -
  have wf: "wf_queue q" using wf_queue_steps [OF assms(1)] by simp
  note d = wf_queue_D [OF wf]
  show ?thesis
    using d(3) [OF assms(2)] d(3) [OF assms(3)] d(6) [OF assms(2)] d(7) [OF assms(2), of s] by auto
qed

definition demo_queue :: job_queue where
  "demo_queue = pick_job 3 (snd (submit_job ''j-2'' 2 (snd (submit_job ''j-1'' 1 (init_queue 200)))))"

lemma demo_queue_steps: "jq_steps (init_queue 200) demo_queue"
  unfolding demo_queue_def by (intro jq_steps.step [OF _ Pick] jq_steps.step [OF _ Submit] jq_steps.refl)

lemmas queue_eval = demo_queue_def submit_job_def record_job_def init_queue_def new_job_def pick_job_def
  job_at_def set_job_def Let_def

theorem job_queue_serial_witness:
  "jb_state (job_at 0 demo_queue) = Running \<and> jq_waiting demo_queue = [1] \<and>
   \<not> (jb_state (job_at 1 demo_queue) = Running)"
  using job_queue_serial [OF demo_queue_steps, of 0 1] by (simp add: queue_eval)

text \<open>Cancelling is final. Once cancel has answered yes, the job is cancelled in every later state and
  never starts, whatever the worker and the other threads do.\<close>

theorem cancelled_never_runs:
  assumes "jq_steps (init_queue n) q" and "cancel_job jid now q = (True, q')" and "get_job jid q = Some r"
    and "jq_steps q' q''"
  shows "jb_state (job_at r q'') = Cancelled \<and> jb_started_at (job_at r q'') = None"
proof -
  have wf: "wf_queue q" using wf_queue_steps [OF assms(1)] by simp
  have wf': "wf_queue q'" using wf_cancel [OF wf, of jid now] assms(2) by simp
  have r: "r < length (jq_heap q)"
    using wf_queue_D(8) [OF wf, of "(jid, r)"] assms(3) by (auto simp: get_job_def dest!: map_of_SomeD)
  have "r < length (jq_heap q') \<and> jb_state (job_at r q') = Cancelled"
    using assms(2,3) r by (auto simp: cancel_job_def job_at_set_job split: if_splits)
  then have "r < length (jq_heap q'') \<and> jb_state (job_at r q'') = Cancelled"
    using steps_terminal [OF assms(4) wf', of r] by (simp add: over_def)
  then show ?thesis
    using wf_queue_D(6) [OF wf_queue_steps [OF assms(4) wf'], of r] by simp
qed

theorem cancelled_never_runs_witness:
  "\<exists>q'. cancel_job ''j-2'' 4 demo_queue = (True, q') \<and> jb_state (job_at 1 q') = Cancelled"
proof -
  obtain q' where c: "cancel_job ''j-2'' 4 demo_queue = (True, q')"
    by (simp add: cancel_job_def get_job_def queue_eval)
  have "get_job ''j-2'' demo_queue = Some 1" by (simp add: get_job_def queue_eval)
  from cancelled_never_runs [OF demo_queue_steps c this jq_steps.refl] c show ?thesis by simp
qed

text \<open>C14: Every submitted job is eventually executed: an idle worker whose callables return empties its
  line in as many turns as jobs wait, and then every job that was queued is done and every cancelled
  one is still cancelled.\<close>

theorem queue_drains:
  assumes "wf_queue q" and "jq_worker q = Idle" and "\<not> jq_shutdown q"
  shows "jq_waiting ((turn res now ^^ length (jq_waiting q)) q) = [] \<and>
    (\<forall>r<length (jq_heap q). jb_state (job_at r ((turn res now ^^ length (jq_waiting q)) q)) =
      (if jb_state (job_at r q) = Queued then Done else jb_state (job_at r q)))"
proof -
  have "jq_waiting ((turn res now ^^ length ws) q) = [] \<and>
    (\<forall>r<length (jq_heap q). jb_state (job_at r ((turn res now ^^ length ws) q)) =
      (if r \<in> set ws \<and> jb_state (job_at r q) = Queued then Done else jb_state (job_at r q)))"
    if "wf_queue q" "jq_worker q = Idle" "jq_waiting q = ws" for ws q
    using that
  proof (induction ws arbitrary: q)
    case Nil
    then show ?case by simp
  next
    case (Cons w ws)
    note h = turn_head [OF Cons.prems]
    have wf: "wf_queue (turn res now q)" unfolding turn_def by (intro wf_work(1) wf_pick Cons.prems(1))
    note ih = Cons.IH [OF wf h(1) h(2)]
    have "w \<notin> set ws" using wf_queue_D(4) [OF Cons.prems(1)] Cons.prems(3) by auto
    moreover have "(turn res now ^^ length (w # ws)) q = (turn res now ^^ length ws) (turn res now q)"
      by (simp add: funpow_swap1)
    moreover have "jb_state (job_at r ((turn res now ^^ length ws) (turn res now q))) =
        (if r \<in> set (w # ws) \<and> jb_state (job_at r q) = Queued then Done else jb_state (job_at r q))"
      if r: "r < length (jq_heap q)" for r
      using ih h(4) [OF r, of res now] h(3) r \<open>w \<notin> set ws\<close> by auto
    ultimately show ?case using ih by simp
  qed
  from this [OF assms(1,2) HOL.refl] show ?thesis
    using wf_queue_D(9) [OF assms(1)] assms(3) by auto
qed

definition demo_line_up :: job_queue where
  "demo_line_up = snd (submit_job ''j-2'' 2 (snd (submit_job ''j-1'' 1 (init_queue 200))))"

theorem queue_drains_witness:
  "jb_state (job_at 0 ((turn JNull 9 ^^ 2) demo_line_up)) = Done \<and>
   jb_state (job_at 1 ((turn JNull 9 ^^ 2) demo_line_up)) = Done"
proof -
  have "wf_queue demo_line_up" unfolding demo_line_up_def by (intro wf_submit wf_init_queue)
  moreover have "jq_worker demo_line_up = Idle" "\<not> jq_shutdown demo_line_up"
    "length (jq_heap demo_line_up) = 2" "length (jq_waiting demo_line_up) = 2"
    "\<forall>r<2. jb_state (job_at r demo_line_up) = Queued"
    by (simp_all add: demo_line_up_def queue_eval less_2_cases_iff nth_append)
  ultimately show ?thesis
    using queue_drains [of demo_line_up JNull 9] by simp
qed

end
