(* ===== verification/Py_Values.thy ===== *)
theory Py_Values
  imports API_Errors
begin

text \<open>
  Python built-ins the library modules share: the exceptions of the language, reading dictionaries and
  nested JSON values with their errors, \<^verbatim>\<open>int(s)\<close>, and \<^verbatim>\<open>str.replace\<close>.
\<close>

section \<open>Exceptions\<close>

definition py_error :: "exc_class \<Rightarrow> string \<Rightarrow> string \<Rightarrow> raised" where
  "py_error c name m = \<lparr>rx_class = c, rx_name = name, rx_message = m, rx_traceback = []\<rparr>"

definition env_error :: "string \<Rightarrow> raised" where
  "env_error m = py_error EnvConfigError ''EnvConfigError'' m"

definition key_error :: "string \<Rightarrow> raised" where
  "key_error k = py_error PyException ''KeyError'' (py_repr k)"

definition attribute_error :: "raised" where
  "attribute_error = py_error PyException ''AttributeError'' []"

definition type_error :: "raised" where
  "type_error = py_error PyTypeError ''TypeError'' []"

definition value_error :: "string \<Rightarrow> raised" where
  "value_error m = py_error PyValueError ''ValueError'' m"

definition use_case_failure :: "string \<Rightarrow> raised" where
  "use_case_failure m = py_error UseCaseFailure ''UseCaseFailure'' m"

definition index_error :: "raised" where
  "index_error = py_error PyException ''IndexError'' ''list index out of range''"

section \<open>Reading values\<close>

text \<open>\<^verbatim>\<open>d.get(key)\<close> and \<^verbatim>\<open>d[key]\<close>.\<close>

definition get_or_none :: "(string, json) dict \<Rightarrow> string \<Rightarrow> json" where
  "get_or_none d k = (case dict_get d k of None \<Rightarrow> JNull | Some v \<Rightarrow> v)"

definition get_item :: "(string, json) dict \<Rightarrow> string \<Rightarrow> raised + json" where
  "get_item d k = (case dict_get d k of None \<Rightarrow> Inl (key_error k) | Some v \<Rightarrow> Inr v)"

text \<open>\<^verbatim>\<open>v[key]\<close> with a text key on any JSON value, and a chain of such accesses.\<close>

definition json_item :: "json \<Rightarrow> string \<Rightarrow> raised + json" where
  "json_item v k = (case v of JObj d \<Rightarrow> get_item d k | _ \<Rightarrow> Inl type_error)"

fun json_path :: "json \<Rightarrow> string list \<Rightarrow> raised + json" where
  "json_path v [] = Inr v"
| "json_path v (k # ks) = (case json_item v k of Inl e \<Rightarrow> Inl e | Inr w \<Rightarrow> json_path w ks)"

section \<open>Numbers in text\<close>

text \<open>\<^verbatim>\<open>int(s)\<close> of a text: blanks around it, a sign, digits with single underscores between them.\<close>

definition is_digit :: "char \<Rightarrow> bool" where
  "is_digit c \<longleftrightarrow> (let n = (of_char c :: nat) in 48 \<le> n \<and> n \<le> 57)"

definition py_int :: "string \<Rightarrow> int option" where
  "py_int s =
     (let t = strip whitespace s;
          (sign, u) = (case t of c # r \<Rightarrow> (if c = CHR ''-'' then (-1, r) else if c = CHR ''+'' then (1, r) else (1, t))
                       | [] \<Rightarrow> (1, []));
          groups = split_on (CHR ''_'') u
      in if list_all (\<lambda>g. g \<noteq> [] \<and> list_all is_digit g) groups
         then Some (sign * int (digits_val 0 (concat groups))) else None)"

definition int_of_text :: "string \<Rightarrow> raised + int" where
  "int_of_text s =
     (case py_int s of
        Some n \<Rightarrow> Inr n
      | None \<Rightarrow> Inl (value_error (''invalid literal for int() with base 10: '' @ py_repr s)))"

text \<open>\<^verbatim>\<open>int(v)\<close> of a JSON value.\<close>

definition int_of_json :: "json \<Rightarrow> raised + int" where
  "int_of_json v =
     (case v of
        JStr s \<Rightarrow> int_of_text s
      | JInt i \<Rightarrow> Inr i
      | JBool b \<Rightarrow> Inr (if b then 1 else 0)
      | JReal r \<Rightarrow> Inr (if r < 0 then - \<lfloor>- r\<rfloor> else \<lfloor>r\<rfloor>)
      | _ \<Rightarrow> Inl type_error)"

section \<open>Replacing text\<close>

text \<open>\<^verbatim>\<open>s.replace(old, new)\<close> for a non-empty \<open>old\<close>: leftmost occurrences, not overlapping.\<close>

function py_replace :: "string \<Rightarrow> string \<Rightarrow> string \<Rightarrow> string" where
  "py_replace old new [] = []"
| "py_replace old new (c # s) =
     (if old \<noteq> [] \<and> startswith (c # s) old then new @ py_replace old new (drop (length old) (c # s))
      else c # py_replace old new s)"
  by pat_completeness auto

termination
  by (relation "measure (\<lambda>(old, new, s). length s)") (auto simp: neq_Nil_conv)

end
