(* ===== verification/Agent_Session.thy ===== *)
theory Agent_Session
  imports Job_Queue Py_Values
begin

text \<open>
  The runtime agent's session: the runtime of one board (\<^verbatim>\<open>boardfarm3/api/runtime.py\<close>) and the session
  state machine around it (\<^verbatim>\<open>boardfarm3/api/session.py\<close>). What the plugins do is the \<open>hooks\<close> parameter:
  resolving a payload to a configuration of type \<open>'c\<close>, registering devices in a manager of type
  \<open>'d\<close>, booting and releasing. Options are set by attribute name, so they are a dictionary of
  fields, with the plugin arguments apart. A coroutine that waits for the worker is split at the
  wait; \<open>configure_session\<close> and \<open>release_session\<close> put the pieces together for an idle worker. A boot is
  not put together: \<open>boot_step\<close> interleaves its pieces with the worker and everything else.
\<close>

type_synonym namespace = "(string, json) dict"

record ('c, 'd) hooks =
  hk_resolve :: "json \<Rightarrow> namespace \<Rightarrow> raised + 'c"
  hk_register :: "'c \<Rightarrow> namespace \<Rightarrow> raised + 'd"
  hk_boot :: "'c \<Rightarrow> namespace \<Rightarrow> 'd \<Rightarrow> raised option"
  hk_release :: "'c \<Rightarrow> namespace \<Rightarrow> json \<Rightarrow> 'd \<Rightarrow> raised option"

section \<open>The runtime\<close>

record runtime_options =
  ro_fields :: "(string, json) dict"
  ro_plugin_args :: "(string, json) dict"

definition default_options :: "string \<Rightarrow> string \<Rightarrow> runtime_options" where
  "default_options board_name save_console_logs =
     \<lparr>ro_fields =
        [(''board_name'', JStr board_name), (''skip_boot'', JBool False), (''legacy'', JBool False),
         (''skip_contingency_checks'', JBool False), (''save_console_logs'', JStr save_console_logs),
         (''ignore_devices'', JStr []), (''quiet_after'', JReal 600)],
      ro_plugin_args = []\<rparr>"

definition option_field :: "string \<Rightarrow> runtime_options \<Rightarrow> json" where
  "option_field name o' = (case dict_get (ro_fields o') name of None \<Rightarrow> JNull | Some v \<Rightarrow> v)"

record ('c, 'd) runtime =
  rt_options :: runtime_options
  rt_cmdline :: namespace
  rt_config :: "'c option"
  rt_manager :: "'d option"

text \<open>The arguments \<^verbatim>\<open>_build_cmdline_args\<close> passes by name before the plugin arguments.\<close>

definition fixed_args :: "runtime_options \<Rightarrow> namespace" where
  "fixed_args o' =
     [(''board_name'', option_field ''board_name'' o'), (''legacy'', option_field ''legacy'' o'),
      (''skip_boot'', option_field ''skip_boot'' o'),
      (''skip_contingency_checks'', option_field ''skip_contingency_checks'' o'),
      (''save_console_logs'', option_field ''save_console_logs'' o'),
      (''ignore_devices'', option_field ''ignore_devices'' o'),
      (''inventory_config'', JStr []), (''env_config'', JStr []), (''flash_image'', JNull),
      (''flash_strategy'', JNull), (''flash_sku'', JNull), (''dependent_image'', JNull),
      (''dependent_strategy'', JStr ''bootloader'')]"

text \<open>A keyword given both by name and through \<^verbatim>\<open>**\<close> is a \<^verbatim>\<open>TypeError\<close>; so is a second \<^verbatim>\<open>self\<close>.\<close>

definition build_cmdline_args :: "runtime_options \<Rightarrow> raised + namespace" where
  "build_cmdline_args o' =
     (case find (\<lambda>k. k = ''self'' \<or> dict_mem k (fixed_args o')) (dict_keys (ro_plugin_args o')) of
        Some k \<Rightarrow> Inl (py_error PyTypeError ''TypeError''
                    (''argparse.Namespace() got multiple values for keyword argument '' @ py_repr k))
      | None \<Rightarrow> Inr (fixed_args o' @ ro_plugin_args o'))"

definition refresh_cmdline_args :: "('c, 'd) runtime \<Rightarrow> (raised + unit) \<times> ('c, 'd) runtime" where
  "refresh_cmdline_args rt =
     (case build_cmdline_args (rt_options rt) of
        Inl e \<Rightarrow> (Inl e, rt)
      | Inr ns \<Rightarrow> (Inr (), rt\<lparr>rt_cmdline := ns\<rparr>))"

definition init_runtime :: "runtime_options \<Rightarrow> raised + ('c, 'd) runtime" where
  "init_runtime o' =
     (case build_cmdline_args o' of
        Inl e \<Rightarrow> Inl e
      | Inr ns \<Rightarrow> Inr \<lparr>rt_options = o', rt_cmdline = ns, rt_config = None, rt_manager = None\<rparr>)"

definition resolve_payload ::
  "('c, 'd) hooks \<Rightarrow> json \<Rightarrow> ('c, 'd) runtime \<Rightarrow> (raised + 'c) \<times> ('c, 'd) runtime" where
  "resolve_payload hk payload rt =
     (case hk_resolve hk payload (rt_cmdline rt) of
        Inl e \<Rightarrow> (Inl e, rt)
      | Inr config \<Rightarrow> (Inr config, rt\<lparr>rt_config := Some config\<rparr>))"

definition register_devices_rt ::
  "('c, 'd) hooks \<Rightarrow> ('c, 'd) runtime \<Rightarrow> (raised + 'd) \<times> ('c, 'd) runtime" where
  "register_devices_rt hk rt =
     (case rt_config rt of
        None \<Rightarrow> (Inl (py_error PyRuntimeError ''RuntimeError''
                   ''resolve() must be called before register_devices()''), rt)
      | Some config \<Rightarrow>
         (case hk_register hk config (rt_cmdline rt) of
            Inl e \<Rightarrow> (Inl e, rt)
          | Inr d \<Rightarrow> (Inr d, rt\<lparr>rt_manager := Some d\<rparr>)))"

definition boot_runtime :: "('c, 'd) hooks \<Rightarrow> ('c, 'd) runtime \<Rightarrow> raised + unit" where
  "boot_runtime hk rt =
     (case (rt_config rt, rt_manager rt) of
        (Some config, Some d) \<Rightarrow>
          (case hk_boot hk config (rt_cmdline rt) d of None \<Rightarrow> Inr () | Some e \<Rightarrow> Inl e)
      | _ \<Rightarrow> Inl (py_error PyRuntimeError ''RuntimeError''
                ''register_devices() must be called before boot()''))"

definition release_runtime :: "('c, 'd) hooks \<Rightarrow> json \<Rightarrow> ('c, 'd) runtime \<Rightarrow> raised + unit" where
  "release_runtime hk deployment_status rt =
     (case (rt_config rt, rt_manager rt) of
        (Some config, Some d) \<Rightarrow>
          (case hk_release hk config (rt_cmdline rt) deployment_status d of None \<Rightarrow> Inr () | Some e \<Rightarrow> Inl e)
      | _ \<Rightarrow> Inr ())"

section \<open>The session\<close>

datatype session_state = Created | Configured | Booting | Ready | Failed

fun state_value :: "session_state \<Rightarrow> string" where
  "state_value Created = ''created''"
| "state_value Configured = ''configured''"
| "state_value Booting = ''booting''"
| "state_value Ready = ''ready''"
| "state_value Failed = ''failed''"

record ('c, 'd) session =
  ss_id :: string
  ss_runtime :: "('c, 'd) runtime"
  ss_queue :: job_queue
  ss_buffer :: event_buffer
  ss_capture :: console_capture
  ss_loggers :: "string \<Rightarrow> logger"
  ss_state :: session_state
  ss_created_at :: time
  ss_last_activity :: time
  ss_error :: "json"
  ss_payload :: "json"
  ss_boot_job :: "nat option"

definition init_session ::
  "string \<Rightarrow> ('c, 'd) runtime \<Rightarrow> nat \<Rightarrow> (string \<Rightarrow> logger) \<Rightarrow> time \<Rightarrow> ('c, 'd) session" where
  "init_session sid rt self lgs now =
     (let (cc, lgs') = capture_install (\<lparr>cc_self = self, cc_previous = []\<rparr>, lgs)
      in \<lparr>ss_id = sid, ss_runtime = rt, ss_queue = init_queue 200, ss_buffer = init_buffer 50000 now,
          ss_capture = cc, ss_loggers = lgs', ss_state = Created, ss_created_at = now,
          ss_last_activity = now, ss_error = JNull, ss_payload = JObj [], ss_boot_job = None\<rparr>)"

text \<open>
  \<^verbatim>\<open>plugin_args.update(value)\<close>: an object merges, a sequence sets one pair after the other (a
  two-character string and a two-key object are pairs too), anything else raises, after the pairs
  before it were set.
\<close>

fun as_pair :: "json \<Rightarrow> (string \<times> json) option" where
  "as_pair (JList [JStr k, v]) = Some (k, v)"
| "as_pair (JStr [a, b]) = Some ([a], JStr [b])"
| "as_pair (JObj [(k, _), (l, _)]) = Some (k, JStr l)"
| "as_pair _ = None"

fun update_pairs :: "json list \<Rightarrow> (string, json) dict \<Rightarrow> (raised + unit) \<times> (string, json) dict" where
  "update_pairs [] d = (Inr (), d)"
| "update_pairs (x # xs) d =
     (case as_pair x of
        None \<Rightarrow> (Inl (py_error PyTypeError ''TypeError'' ''cannot convert dictionary update sequence element''), d)
      | Some (k, v) \<Rightarrow> update_pairs xs (dict_set k v d))"

definition update_args :: "json \<Rightarrow> (string, json) dict \<Rightarrow> (raised + unit) \<times> (string, json) dict" where
  "update_args value d =
     (case value of
        JObj kvs \<Rightarrow> (Inr (), dict_merge d kvs)
      | JList xs \<Rightarrow> update_pairs xs d
      | JStr s \<Rightarrow> update_pairs (map (\<lambda>c. JStr [c]) s) d
      | _ \<Rightarrow> (Inl (py_error PyTypeError ''TypeError'' ''object is not iterable''), d))"

text \<open>One option override. Plugin arguments merge; an empty console log override is ignored.\<close>

definition apply_option :: "string \<times> json \<Rightarrow> runtime_options \<Rightarrow> (raised + unit) \<times> runtime_options" where
  "apply_option p o' =
     (let (field_name, value) = p
      in if field_name = ''save_console_logs'' \<and> \<not> truthy value then (Inr (), o')
         else if field_name = ''plugin_args''
         then (case update_args value (ro_plugin_args o') of (r, d) \<Rightarrow> (r, o'\<lparr>ro_plugin_args := d\<rparr>))
         else if dict_mem field_name (ro_fields o')
         then (Inr (), o'\<lparr>ro_fields := dict_set field_name value (ro_fields o')\<rparr>)
         else (Inr (), o'\<lparr>ro_plugin_args := dict_set field_name value (ro_plugin_args o')\<rparr>))"

fun apply_options ::
  "(string, json) dict \<Rightarrow> runtime_options \<Rightarrow> (raised + unit) \<times> runtime_options" where
  "apply_options [] o' = (Inr (), o')"
| "apply_options (p # options) o' =
     (case apply_option p o' of
        (Inl e, o1) \<Rightarrow> (Inl e, o1)
      | (Inr _, o1) \<Rightarrow> apply_options options o1)"

text \<open>
  \<^verbatim>\<open>configure\<close> up to the submission. The options object is shared with the runtime: payload and options
  stay changed when an option or the refresh raises.
\<close>

definition configure_begin ::
  "json \<Rightarrow> (string, json) dict \<Rightarrow> ('c, 'd) session \<Rightarrow> (raised + unit) \<times> ('c, 'd) session" where
  "configure_begin payload options s =
     (case apply_options options (rt_options (ss_runtime s)) of
        (r, o') \<Rightarrow>
          (let s1 = s\<lparr>ss_payload := payload, ss_runtime := (ss_runtime s)\<lparr>rt_options := o'\<rparr>\<rparr>
           in case r of
                Inl e \<Rightarrow> (Inl e, s1)
              | Inr _ \<Rightarrow>
                 (case refresh_cmdline_args (ss_runtime s1) of
                    (r', rt) \<Rightarrow> (r', s1\<lparr>ss_runtime := rt\<rparr>))))"

text \<open>The callable the worker runs.\<close>

definition configure_call ::
  "('c, 'd) hooks \<Rightarrow> json \<Rightarrow> ('c, 'd) runtime \<Rightarrow> (raised + unit) \<times> ('c, 'd) runtime" where
  "configure_call hk payload rt =
     (case resolve_payload hk payload rt of
        (Inl e, rt1) \<Rightarrow> (Inl e, rt1)
      | (Inr _, rt1) \<Rightarrow>
         (case register_devices_rt hk rt1 of
            (Inl e, rt2) \<Rightarrow> (Inl e, rt2)
          | (Inr _, rt2) \<Rightarrow> (Inr (), rt2)))"

text \<open>The idle worker takes the job it was just given and runs it to its end.\<close>

definition run_idle :: "time \<Rightarrow> raised + unit \<Rightarrow> job_queue \<Rightarrow> job_queue" where
  "run_idle now outcome q =
     (case outcome of
        Inr _ \<Rightarrow> finish_job JNull now (pick_job now q)
      | Inl e \<Rightarrow> record_failure now (fail_job e (pick_job now q)))"

definition configure_session ::
  "('c, 'd) hooks \<Rightarrow> string \<Rightarrow> time \<Rightarrow> json \<Rightarrow> (string, json) dict \<Rightarrow> ('c, 'd) session
   \<Rightarrow> (raised + unit) \<times> ('c, 'd) session" where
  "configure_session hk jid now payload options s =
     (case configure_begin payload options s of
        (Inl e, s1) \<Rightarrow> (Inl e, s1)
      | (Inr _, s1) \<Rightarrow>
         (case submit_job jid now (ss_queue s1) of
            (Inl e, q) \<Rightarrow> (Inl e, s1\<lparr>ss_queue := q\<rparr>)
          | (Inr r, q) \<Rightarrow>
             (case configure_call hk payload (ss_runtime s1) of
                (out, rt) \<Rightarrow>
                  (let s2 = s1\<lparr>ss_runtime := rt, ss_queue := run_idle now out q\<rparr>
                   in case out of
                        Inl e \<Rightarrow> (Inl e, s2)
                      | Inr _ \<Rightarrow> (Inr (), s2\<lparr>ss_state := Configured, ss_last_activity := now\<rparr>)))))"

section \<open>Booting\<close>

definition boot_begin :: "string \<Rightarrow> time \<Rightarrow> ('c, 'd) session \<Rightarrow> (raised + nat) \<times> ('c, 'd) session" where
  "boot_begin jid now s =
     (if ss_state s \<noteq> Configured
      then (Inl (py_error PyRuntimeError ''RuntimeError'' ''configure() must succeed before boot()''), s)
      else (case submit_job jid now (ss_queue s) of
              (r, q) \<Rightarrow>
                (let s1 = s\<lparr>ss_state := Booting, ss_last_activity := now, ss_queue := q\<rparr>
                 in case r of Inl e \<Rightarrow> (Inl e, s1) | Inr k \<Rightarrow> (Inr k, s1\<lparr>ss_boot_job := Some k\<rparr>))))"

text \<open>
  The polling loop ends as soon as the boot job is neither queued nor running; only then is its error
  looked at, and the console tail taken. A job that is over stays over, so nothing is lost by reading
  its state and its error in one step.
\<close>

definition boot_poll :: "job \<Rightarrow> bool" where
  "boot_poll j \<longleftrightarrow> jb_state j \<in> {Queued, Running}"

definition boot_end :: "nat \<Rightarrow> time \<Rightarrow> ('c, 'd) session \<Rightarrow> ('c, 'd) session" where
  "boot_end k now s =
     (let j = job_at k (ss_queue s)
      in if boot_poll j then s
         else (case jb_error j of
                 Some e \<Rightarrow>
                   s\<lparr>ss_state := Failed, ss_last_activity := now,
                     ss_error := error_envelope e (ss_id s) (Some (jb_id j)) None
                       (console_tail_from (ss_buffer s) (Some (jb_id j)) 40)\<rparr>
               | None \<Rightarrow> s\<lparr>ss_state := Ready, ss_last_activity := now\<rparr>))"

text \<open>
  What may happen while \<^verbatim>\<open>boot\<close> sleeps between two polls, one atomic step after the other: the queue's
  own steps (other requests submit and cancel jobs or shut the queue down, the worker picks the next
  job or records a failure), the other jobs of the worker end, the worker enters the boot chain and
  leaves it, lines are logged, and other handlers change the rest of the session. The second component
  remembers the runtime on which the chain was entered, \<^verbatim>\<open>None\<close> as long as it was not.
\<close>

inductive boot_step ::
  "('c, 'd) hooks \<Rightarrow> nat \<Rightarrow> ('c, 'd) session \<times> ('c, 'd) runtime option
   \<Rightarrow> ('c, 'd) session \<times> ('c, 'd) runtime option \<Rightarrow> bool" for hk k where
  Submitted: "boot_step hk k (s, o') (s\<lparr>ss_queue := snd (submit_job jid t (ss_queue s))\<rparr>, o')"
| Withdrawn: "boot_step hk k (s, o') (s\<lparr>ss_queue := snd (cancel_job jid t (ss_queue s))\<rparr>, o')"
| Closed: "boot_step hk k (s, o') (s\<lparr>ss_queue := shutdown_queue (ss_queue s)\<rparr>, o')"
| Picked: "boot_step hk k (s, o') (s\<lparr>ss_queue := pick_job t (ss_queue s)\<rparr>, o')"
| Recorded: "boot_step hk k (s, o') (s\<lparr>ss_queue := record_failure t (ss_queue s)\<rparr>, o')"
| Other_returned: "jq_worker (ss_queue s) \<noteq> Working k \<Longrightarrow>
    boot_step hk k (s, o') (s\<lparr>ss_queue := finish_job res t (ss_queue s)\<rparr>, o')"
| Other_raised: "jq_worker (ss_queue s) \<noteq> Working k \<Longrightarrow>
    boot_step hk k (s, o') (s\<lparr>ss_queue := fail_job e (ss_queue s)\<rparr>, o')"
| Entered: "jq_worker (ss_queue s) = Working k \<Longrightarrow> boot_step hk k (s, None) (s, Some (ss_runtime s))"
| Returned: "jq_worker (ss_queue s) = Working k \<Longrightarrow> boot_runtime hk rt = Inr () \<Longrightarrow>
    boot_step hk k (s, Some rt) (s\<lparr>ss_queue := finish_job JNull t (ss_queue s)\<rparr>, Some rt)"
| Raised: "jq_worker (ss_queue s) = Working k \<Longrightarrow> boot_runtime hk rt = Inl e \<Longrightarrow>
    boot_step hk k (s, Some rt) (s\<lparr>ss_queue := fail_job e (ss_queue s)\<rparr>, Some rt)"
| Logged: "boot_step hk k (s, o') (s\<lparr>ss_buffer := snd (buffer_append t stream device job line (ss_buffer s))\<rparr>, o')"
| Elsewhere: "boot_step hk k (s, o')
    (s\<lparr>ss_runtime := rt, ss_state := st, ss_last_activity := t, ss_error := err, ss_payload := pl,
       ss_boot_job := bj\<rparr>, o')"

inductive boot_steps ::
  "('c, 'd) hooks \<Rightarrow> nat \<Rightarrow> ('c, 'd) session \<times> ('c, 'd) runtime option
   \<Rightarrow> ('c, 'd) session \<times> ('c, 'd) runtime option \<Rightarrow> bool" for hk k where
  refl: "boot_steps hk k x x"
| step: "boot_steps hk k x y \<Longrightarrow> boot_step hk k y z \<Longrightarrow> boot_steps hk k x z"

section \<open>Releasing\<close>

definition release_status :: "('c, 'd) session \<Rightarrow> json" where
  "release_status s =
     (if ss_state s = Ready then JObj [(''status'', JStr ''success'')]
      else JObj [(''status'', JStr ''failed''), (''exception'', ss_error s)])"

definition release_session ::
  "('c, 'd) hooks \<Rightarrow> string \<Rightarrow> time \<Rightarrow> ('c, 'd) session \<Rightarrow> (raised + unit) \<times> ('c, 'd) session" where
  "release_session hk jid now s =
     (case submit_job jid now (ss_queue s) of
        (Inl e, q) \<Rightarrow> (Inl e, s\<lparr>ss_queue := q\<rparr>)
      | (Inr r, q) \<Rightarrow>
         (let out = release_runtime hk (release_status s) (ss_runtime s);
              s1 = s\<lparr>ss_queue := run_idle now out q\<rparr>
          in case out of
               Inl e \<Rightarrow> (Inl e, s1)
             | Inr _ \<Rightarrow>
                 (let (cc, lgs) = capture_uninstall (ss_capture s1, ss_loggers s1)
                  in (Inr (), s1\<lparr>ss_capture := cc, ss_loggers := lgs,
                                ss_queue := shutdown_queue (ss_queue s1)\<rparr>))))"

section \<open>Status\<close>

definition json_time :: "json \<Rightarrow> time" where
  "json_time j = (case j of JReal r \<Rightarrow> r | JInt i \<Rightarrow> of_int i | _ \<Rightarrow> 0)"

definition opt_line :: "string option \<Rightarrow> json" where
  "opt_line l = (case l of None \<Rightarrow> JNull | Some x \<Rightarrow> JStr x)"

definition liveness :: "time \<Rightarrow> ('c, 'd) session \<Rightarrow> json" where
  "liveness now s =
     (let last_ts = eb_last_event_ts (ss_buffer s); line = opt_line (last_line (ss_buffer s));
          idle = JObj [(''quiet'', JBool False), (''running_for'', JNull), (''idle_for'', JNull),
                       (''last_line'', line), (''last_event_ts'', JReal last_ts)]
      in case running_job (ss_queue s) of
           None \<Rightarrow> idle
         | Some j \<Rightarrow>
            (case jb_started_at j of
               None \<Rightarrow> idle
             | Some started \<Rightarrow>
                (let idle_for = now - max started last_ts
                 in JObj [(''quiet'', JBool (idle_for >
                             json_time (option_field ''quiet_after'' (rt_options (ss_runtime s))))),
                          (''running_for'', JReal (now - started)), (''idle_for'', JReal idle_for),
                          (''last_line'', line), (''last_event_ts'', JReal last_ts)])))"

definition session_status :: "time \<Rightarrow> ('c, 'd) session \<Rightarrow> json" where
  "session_status now s =
     JObj [(''session_id'', JStr (ss_id s)),
           (''board_name'', option_field ''board_name'' (rt_options (ss_runtime s))),
           (''state'', JStr (state_value (ss_state s))), (''liveness'', liveness now s),
           (''booted'', JBool (ss_state s = Ready \<and>
              \<not> truthy (option_field ''skip_boot'' (rt_options (ss_runtime s))))),
           (''created_at'', JReal (ss_created_at s)), (''last_activity'', JReal (ss_last_activity s)),
           (''error'', ss_error s),
           (''boot_job_id'', case ss_boot_job s of None \<Rightarrow> JNull
              | Some k \<Rightarrow> JStr (jb_id (job_at k (ss_queue s))))]"

section \<open>Facts\<close>

text \<open>What the boot job knows of the chain it runs, in every state it can be in.\<close>

definition boot_known ::
  "('c, 'd) hooks \<Rightarrow> nat \<Rightarrow> string \<Rightarrow> job_queue \<Rightarrow> ('c, 'd) runtime option \<Rightarrow> bool" where
  "boot_known hk k jid q o' \<longleftrightarrow>
     k < length (jq_heap q) \<and> jb_id (job_at k q) = jid \<and>
     (case jb_state (job_at k q) of
        Queued \<Rightarrow> o' = None \<and> jb_error (job_at k q) = None
      | Cancelled \<Rightarrow> o' = None \<and> jb_error (job_at k q) = None
      | Running \<Rightarrow> jb_error (job_at k q) = None
      | Done \<Rightarrow> (\<exists>rt. o' = Some rt \<and> boot_runtime hk rt = Inr ()) \<and> jb_error (job_at k q) = None
      | Errored \<Rightarrow> (\<exists>rt e. o' = Some rt \<and> boot_runtime hk rt = Inl e \<and>
          (if busy (jq_worker q) = Some k then jq_worker q = Failing k e \<and> jb_error (job_at k q) = None
           else jb_error (job_at k q) = Some e)))"

text \<open>A step that leaves the job alone, and does not make the worker enter or leave it.\<close>

lemma boot_known_frame:
  assumes "boot_known hk k jid q o'" and "k < length (jq_heap q')" and "job_at k q' = job_at k q"
    and "busy (jq_worker q') = Some k \<longleftrightarrow> busy (jq_worker q) = Some k"
    and "busy (jq_worker q) = Some k \<Longrightarrow> jq_worker q' = jq_worker q"
  shows "boot_known hk k jid q' o'"
proof (cases "busy (jq_worker q) = Some k")
  case True
  then have w: "jq_worker q' = jq_worker q" by (rule assms(5))
  show ?thesis using assms(1,2) unfolding boot_known_def assms(3) w by blast
next
  case False
  then have "busy (jq_worker q') \<noteq> Some k" using assms(4) by simp
  then show ?thesis using assms(1,2) False unfolding boot_known_def assms(3) if_not_P [OF False]
    by (cases "jb_state (job_at k q)") simp_all
qed

lemma job_at_submit: "r < length (jq_heap q) \<Longrightarrow> job_at r (snd (submit_job jid now q)) = job_at r q"
  "length (jq_heap (snd (submit_job jid now q))) = Suc (length (jq_heap q))"
  "jq_worker (snd (submit_job jid now q)) = jq_worker q"
  by (simp_all add: submit_job_def record_job_def Let_def job_at_def nth_append)

lemma boot_known_cancel:
  assumes "boot_known hk k jid q o'"
  shows "boot_known hk k jid (snd (cancel_job j t q)) o'"
  using assms
  by (cases "get_job j q")
    (auto simp: cancel_job_def boot_known_def job_at_set_job split: job_state.splits if_splits)

lemma boot_known_pick:
  assumes "boot_known hk k jid q o'" and "wf_queue q"
  shows "boot_known hk k jid (pick_job t q) o'"
proof (cases "jq_worker q = Idle \<and> jq_waiting q \<noteq> []")
  case True
  then obtain r rs where q: "jq_worker q = Idle" "jq_waiting q = r # rs" by (cases "jq_waiting q") auto
  then have "jb_state (job_at r q) \<in> {Queued, Cancelled}" using wf_queue_D(5) [OF assms(2), of r] by simp
  then show ?thesis
    using assms(1) q by (cases "r = k")
      (auto simp: pick_job_def boot_known_def job_at_set_job busy_def split: job_state.splits)
next
  case False
  then have "pick_job t q = q" by (auto simp: pick_job_def split: worker.splits list.splits)
  then show ?thesis using assms(1) by simp
qed

lemma boot_known_record:
  assumes "boot_known hk k jid q o'" and "wf_queue q"
  shows "boot_known hk k jid (record_failure t q) o'"
proof (cases "\<exists>r e. jq_worker q = Failing r e")
  case True
  then obtain r e where q: "jq_worker q = Failing r e" by blast
  then have "jb_state (job_at r q) = Errored"
    using wf_queue_D(2) [OF assms(2), of r] by (simp add: busy_def worker_state_def)
  then show ?thesis
    using assms(1) q by (cases "r = k")
      (auto simp: record_failure_def boot_known_def job_at_set_job busy_def split: job_state.splits)
next
  case False
  then have "record_failure t q = q" by (auto simp: record_failure_def split: worker.splits)
  then show ?thesis using assms(1) by simp
qed

lemma boot_known_other:
  assumes "boot_known hk k jid q o'" and "jq_worker q \<noteq> Working k"
  shows "boot_known hk k jid (finish_job res t q) o'" and "boot_known hk k jid (fail_job e q) o'"
proof -
  have k: "k < length (jq_heap q)" using assms(1) by (simp add: boot_known_def)
  have "boot_known hk k jid (finish_job res t q) o' \<and> boot_known hk k jid (fail_job e q) o'"
  proof (cases "jq_worker q")
    case (Working r)
    then have r: "r \<noteq> k" "k \<noteq> r" using assms(2) by auto
    show ?thesis
      by (intro conjI; rule boot_known_frame [OF assms(1)])
        (simp_all add: finish_job_def fail_job_def Working job_at_set_job k r busy_def)
  qed (use assms(1) in \<open>simp_all add: finish_job_def fail_job_def\<close>)
  then show "boot_known hk k jid (finish_job res t q) o'" and "boot_known hk k jid (fail_job e q) o'" by blast+
qed

lemma boot_known_mine:
  assumes "boot_known hk k jid q o'" and "jq_worker q = Working k" and "wf_queue q"
  shows "boot_known hk k jid q o''"
    and "boot_runtime hk rt = Inr () \<Longrightarrow> boot_known hk k jid (finish_job JNull t q) (Some rt)"
    and "boot_runtime hk rt = Inl e \<Longrightarrow> boot_known hk k jid (fail_job e q) (Some rt)"
proof -
  have "jb_state (job_at k q) = Running"
    using wf_queue_D(2) [OF assms(3), of k] assms(2) by (simp add: busy_def worker_state_def)
  then show "boot_known hk k jid q o''"
    and "boot_runtime hk rt = Inr () \<Longrightarrow> boot_known hk k jid (finish_job JNull t q) (Some rt)"
    and "boot_runtime hk rt = Inl e \<Longrightarrow> boot_known hk k jid (fail_job e q) (Some rt)"
    using assms(1,2) by (simp_all add: boot_known_def finish_job_def fail_job_def job_at_set_job busy_def)
qed

lemma boot_known_submit:
  assumes "boot_known hk k jid q o'"
  shows "boot_known hk k jid (snd (submit_job j t q)) o'" and "boot_known hk k jid (shutdown_queue q) o'"
proof -
  have k: "k < length (jq_heap q)" using assms by (simp add: boot_known_def)
  show "boot_known hk k jid (snd (submit_job j t q)) o'"
    by (rule boot_known_frame [OF assms]) (simp_all add: job_at_submit k less_SucI)
  show "boot_known hk k jid (shutdown_queue q) o'"
    by (rule boot_known_frame [OF assms]) (simp_all add: shutdown_queue_def job_at_def k)
qed

lemmas queue_steps_wf = jq_step.intros [THEN wf_queue_step]

lemmas boot_known_keeps = boot_known_submit boot_known_cancel boot_known_pick boot_known_record boot_known_other

lemma boot_step_keeps:
  assumes "boot_step hk k x y" and "wf_queue (ss_queue (fst x))" and "boot_known hk k jid (ss_queue (fst x)) (snd x)"
  shows "wf_queue (ss_queue (fst y)) \<and> boot_known hk k jid (ss_queue (fst y)) (snd y) \<and> ss_id (fst y) = ss_id (fst x)"
  using assms
proof (cases rule: boot_step.cases)
  case (Entered s)
  then show ?thesis using assms(2) boot_known_mine(1) [of hk k jid "ss_queue s"] assms(3) by simp
next
  case (Returned s rt t)
  then show ?thesis using assms(2) boot_known_mine(2) [of hk k jid "ss_queue s"] assms(3) by (simp add: queue_steps_wf)
next
  case (Raised s rt e)
  then show ?thesis using assms(2) boot_known_mine(3) [of hk k jid "ss_queue s"] assms(3) by (simp add: queue_steps_wf)
qed (use assms(2,3) in \<open>simp_all add: queue_steps_wf boot_known_keeps\<close>)

lemma boot_steps_keep:
  assumes "boot_steps hk k x y" and "wf_queue (ss_queue (fst x))" and "boot_known hk k jid (ss_queue (fst x)) (snd x)"
  shows "wf_queue (ss_queue (fst y)) \<and> boot_known hk k jid (ss_queue (fst y)) (snd y) \<and> ss_id (fst y) = ss_id (fst x)"
  using assms by (induction rule: boot_steps.induct) (simp, use boot_step_keeps in fastforce)

lemma boot_begin_known:
  assumes "boot_begin jid now s0 = (Inr k, s)" and "wf_queue (ss_queue s0)"
  shows "wf_queue (ss_queue s)" and "boot_known hk k jid (ss_queue s) None" and "ss_id s = ss_id s0"
    and "ss_state s0 = Configured"
proof -
  have c: "ss_state s0 = Configured" "fst (submit_job jid now (ss_queue s0)) = Inr k"
    "ss_queue s = snd (submit_job jid now (ss_queue s0))" "ss_id s = ss_id s0"
    using assms(1) by (auto simp: boot_begin_def Let_def split: if_splits prod.splits sum.splits)
  then have k: "k = length (jq_heap (ss_queue s0))" "\<not> jq_shutdown (ss_queue s0)"
    by (auto simp: submit_job_def Let_def split: if_splits)
  have "busy (jq_worker (ss_queue s0)) \<noteq> Some k" using wf_queue_D(2) [OF assms(2), of k] k(1) by auto
  then show "boot_known hk k jid (ss_queue s) None"
    using k by (simp add: c(3) boot_known_def submit_job_def record_job_def Let_def job_at_def new_job_def)
  show "wf_queue (ss_queue s)" "ss_id s = ss_id s0" "ss_state s0 = Configured"
    using c wf_queue_step [OF jq_step.Submit assms(2)] by simp_all
qed

text \<open>The plugin arguments only grow, whatever the options are.\<close>

lemma update_pairs_keeps: "dict_mem k d \<Longrightarrow> dict_mem k (snd (update_pairs xs d))"
  by (induction xs d rule: update_pairs.induct) (auto split: option.splits)

lemma dict_mem_merge: "dict_mem k (dict_merge a b) \<longleftrightarrow> dict_mem k a \<or> dict_mem k b"
proof -
  have "dict_mem k (rev b) \<longleftrightarrow> dict_mem k b" by (simp add: dict_mem_keys)
  then show ?thesis by (auto simp: dict_mem_def dict_get_merge split: option.splits)
qed

lemma update_args_keeps: "dict_mem k d \<Longrightarrow> dict_mem k (snd (update_args value d))"
  by (auto simp: update_args_def dict_mem_merge update_pairs_keeps split: json.splits)

lemma apply_option_keeps:
  "dict_mem k (ro_plugin_args o') \<Longrightarrow> dict_mem k (ro_plugin_args (snd (apply_option p o')))"
  using update_args_keeps [of k "ro_plugin_args o'" "snd p"]
  by (auto simp: apply_option_def Let_def split: prod.splits)

lemma apply_options_keeps:
  "dict_mem k (ro_plugin_args o') \<Longrightarrow> dict_mem k (ro_plugin_args (snd (apply_options options o')))"
proof (induction options o' rule: apply_options.induct)
  case (2 p options o')
  then show ?case using apply_option_keeps [OF 2(2), of p] by (auto split: prod.splits sum.splits)
qed simp

lemma apply_option_field_keys:
  "dict_mem f (ro_fields (snd (apply_option p o'))) \<longleftrightarrow> dict_mem f (ro_fields o')"
  by (auto simp: apply_option_def Let_def split: prod.splits)

lemma fixed_args_keys: "dict_mem k (fixed_args o') \<longleftrightarrow> dict_mem k (fixed_args o'')"
  by (simp add: dict_mem_keys fixed_args_def)

lemma build_cmdline_args_conflict:
  assumes "dict_mem k (ro_plugin_args o')" and "k = ''self'' \<or> dict_mem k (fixed_args o')"
  shows "\<exists>e. build_cmdline_args o' = Inl e \<and> rx_class e = PyTypeError"
proof -
  have "find (\<lambda>k. k = ''self'' \<or> dict_mem k (fixed_args o')) (dict_keys (ro_plugin_args o')) \<noteq> None"
    using assms by (auto simp: find_None_iff dict_mem_keys)
  then show ?thesis by (auto simp: build_cmdline_args_def py_error_def)
qed

lemma configure_begin_conflict:
  assumes "dict_mem k (ro_plugin_args (rt_options (ss_runtime s)))" and "k = ''self'' \<or> dict_mem k (fixed_args o'')"
  shows "\<exists>e. fst (configure_begin payload options s) = Inl e \<and>
    dict_mem k (ro_plugin_args (rt_options (ss_runtime (snd (configure_begin payload options s)))))"
proof -
  obtain r o1 where a: "apply_options options (rt_options (ss_runtime s)) = (r, o1)" by fastforce
  have m: "dict_mem k (ro_plugin_args o1)" using apply_options_keeps [OF assms(1), of options] a by simp
  moreover have "\<exists>e. build_cmdline_args o1 = Inl e"
    using build_cmdline_args_conflict [OF m] assms(2) fixed_args_keys [of k o'' o1] by auto
  ultimately show ?thesis
    by (cases r) (auto simp: configure_begin_def a refresh_cmdline_args_def Let_def)
qed

text \<open>What a poll makes of each state of the job.\<close>

lemma boot_end_known:
  assumes "boot_known hk k jid (ss_queue s) o' \<and> ss_id s = sid"
  shows "case jb_state (job_at k (ss_queue s)) of
      Queued \<Rightarrow> o' = None \<and> boot_end k now s = s
    | Running \<Rightarrow> boot_end k now s = s
    | Done \<Rightarrow> (\<exists>rt. o' = Some rt \<and> boot_runtime hk rt = Inr ()) \<and>
        ss_state (boot_end k now s) = Ready \<and> ss_error (boot_end k now s) = ss_error s
    | Errored \<Rightarrow> (\<exists>rt e. o' = Some rt \<and> boot_runtime hk rt = Inl e \<and>
        (if jq_worker (ss_queue s) = Failing k e then ss_state (boot_end k now s) = Ready
         else ss_state (boot_end k now s) = Failed \<and>
           ss_error (boot_end k now s) = error_envelope e sid (Some jid) None
             (console_tail_from (ss_buffer s) (Some jid) 40)))
    | Cancelled \<Rightarrow> o' = None \<and> ss_state (boot_end k now s) = Ready"
proof (cases "jb_state (job_at k (ss_queue s))")
  case Errored
  then obtain rt e where e: "o' = Some rt" "boot_runtime hk rt = Inl e"
      "if busy (jq_worker (ss_queue s)) = Some k
       then jq_worker (ss_queue s) = Failing k e \<and> jb_error (job_at k (ss_queue s)) = None
       else jb_error (job_at k (ss_queue s)) = Some e"
    using assms by (auto simp: boot_known_def)
  have "if jq_worker (ss_queue s) = Failing k e then ss_state (boot_end k now s) = Ready
      else ss_state (boot_end k now s) = Failed \<and>
        ss_error (boot_end k now s) = error_envelope e sid (Some jid) None
          (console_tail_from (ss_buffer s) (Some jid) 40)"
    using e(3) assms Errored
    by (cases "busy (jq_worker (ss_queue s)) = Some k")
      (auto simp: boot_end_def boot_poll_def boot_known_def busy_def Let_def)
  then show ?thesis using e(1,2) Errored by auto
qed (use assms in \<open>simp_all add: boot_known_def boot_end_def boot_poll_def Let_def\<close>)

definition idle_queue :: "job_queue \<Rightarrow> bool" where
  "idle_queue q \<longleftrightarrow> jq_worker q = Idle \<and> jq_waiting q = [] \<and> \<not> jq_shutdown q"

lemma idle_init [simp]: "idle_queue (init_queue n)"
  by (simp add: idle_queue_def init_queue_def)

text \<open>Submitting a job to an idle queue and running it to its end.\<close>

lemma submit_idle:
  assumes "idle_queue q"
  shows "fst (submit_job jid now q) = Inr (length (jq_heap q))"
    and "jq_waiting (snd (submit_job jid now q)) = [length (jq_heap q)]"
    and "jq_worker (snd (submit_job jid now q)) = Idle"
    and "\<not> jq_shutdown (snd (submit_job jid now q))"
    and "jq_heap (snd (submit_job jid now q)) = jq_heap q @ [new_job jid now]"
  using assms by (simp_all add: idle_queue_def submit_job_def record_job_def Let_def)

lemma run_idle_submitted:
  assumes "idle_queue q"
  shows "idle_queue (run_idle now' out (snd (submit_job jid now q)))"
    and "jb_state (job_at (length (jq_heap q)) (run_idle now' out (snd (submit_job jid now q)))) =
      (case out of Inr _ \<Rightarrow> Done | Inl _ \<Rightarrow> Errored)"
    and "jb_error (job_at (length (jq_heap q)) (run_idle now' out (snd (submit_job jid now q)))) =
      (case out of Inr _ \<Rightarrow> None | Inl e \<Rightarrow> Some e)"
    and "jb_id (job_at (length (jq_heap q)) (run_idle now' out (snd (submit_job jid now q)))) = jid"
  using submit_idle [OF assms, of jid now]
  by (cases out; simp add: run_idle_def pick_job_def finish_job_def fail_job_def record_failure_def idle_queue_def
      set_job_def job_at_def nth_append new_job_def)+

lemma submit_cases: "submit_job jid now q = (fst (submit_job jid now q), snd (submit_job jid now q))"
  by simp

section \<open>Properties\<close>

text \<open>C12: Booting, interleaved with everything else the agent does. Unless the session is configured, boot
  raises and changes nothing; on a queue that was shut down it raises and leaves the session booting.
  Otherwise the job of the boot goes through the queue of the agent while other requests and jobs
  proceed, and each poll of it decides as follows: while the job is queued or running nothing changes;
  after the boot chain returned the session is ready; after the chain raised it is failed, with the
  envelope of that exception, attributed to the boot job, and the console tail of the time of the poll,
  except that a poll between the two assignments with which the worker records the failure finds no
  error yet and declares the session ready; and after the job was cancelled before it started the
  session is declared ready although the chain was never entered.\<close>

theorem boot_session_outcome:
  assumes "jq_steps (init_queue n) (ss_queue s0)"
  shows "case boot_begin jid t s0 of
      (Inl e, s1) \<Rightarrow> rx_class e = PyRuntimeError \<and>
        (if ss_state s0 \<noteq> Configured then s1 = s0 else jq_shutdown (ss_queue s0) \<and> ss_state s1 = Booting)
    | (Inr k, s1) \<Rightarrow> ss_state s0 = Configured \<and> ss_state s1 = Booting \<and>
        (\<forall>s o'. boot_steps hk k (s1, None) (s, o') \<longrightarrow>
          (case jb_state (job_at k (ss_queue s)) of
             Queued \<Rightarrow> o' = None \<and> boot_end k now s = s
           | Running \<Rightarrow> boot_end k now s = s
           | Done \<Rightarrow> (\<exists>rt. o' = Some rt \<and> boot_runtime hk rt = Inr ()) \<and>
               ss_state (boot_end k now s) = Ready \<and> ss_error (boot_end k now s) = ss_error s
           | Errored \<Rightarrow> (\<exists>rt e. o' = Some rt \<and> boot_runtime hk rt = Inl e \<and>
               (if jq_worker (ss_queue s) = Failing k e then ss_state (boot_end k now s) = Ready
                else ss_state (boot_end k now s) = Failed \<and>
                  ss_error (boot_end k now s) = error_envelope e (ss_id s0) (Some jid) None
                    (console_tail_from (ss_buffer s) (Some jid) 40)))
           | Cancelled \<Rightarrow> o' = None \<and> ss_state (boot_end k now s) = Ready))"
proof -
  have wf: "wf_queue (ss_queue s0)" by (rule wf_queue_steps [OF assms]) simp
  show ?thesis
  proof (cases "boot_begin jid t s0")
    case (Pair r s1)
    show ?thesis
    proof (cases r)
      case (Inl e)
      then show ?thesis
        using Pair by (auto simp: boot_begin_def submit_job_def py_error_def Let_def split: if_splits)
    next
      case (Inr k)
      have b: "boot_begin jid t s0 = (Inr k, s1)" using Pair Inr by simp
      note known = boot_begin_known [OF b wf]
      have "boot_known hk k jid (ss_queue s) o' \<and> ss_id s = ss_id s0"
        if "boot_steps hk k (s1, None) (s, o')" for s o'
        using boot_steps_keep [OF that, of jid] known(1,3) known(2) [of hk] by simp
      moreover have "ss_state s1 = Booting"
        using b by (auto simp: boot_begin_def Let_def split: if_splits prod.splits sum.splits)
      ultimately show ?thesis
        unfolding b prod.case sum.case using known(4) boot_end_known by blast
    qed
  qed
qed

text \<open>A board for the witnesses: hooks over trivial configurations and devices whose boot raises when the
  payload asked for it.\<close>

definition demo_hooks :: "(bool, unit) hooks" where
  "demo_hooks =
     \<lparr>hk_resolve = \<lambda>payload ns. Inr (payload = JBool True),
      hk_register = \<lambda>c ns. Inr (),
      hk_boot = \<lambda>c ns d. if c then None else Some (py_error DeviceBootFailure ''DeviceBootFailure'' ''no''),
      hk_release = \<lambda>c ns st d. if c then None else Some (py_error PyValueError ''ValueError'' ''stuck'')\<rparr>"

definition demo_runtime :: "bool option \<Rightarrow> (bool, unit) runtime" where
  "demo_runtime c =
     \<lparr>rt_options = default_options ''b1'' ''/tmp'', rt_cmdline = fixed_args (default_options ''b1'' ''/tmp''),
      rt_config = c, rt_manager = map_option (\<lambda>_. ()) c\<rparr>"

definition demo_loggers :: "string \<Rightarrow> logger" where
  "demo_loggers name = \<lparr>lg_propagate = True, lg_handlers = [1], lg_level = 30\<rparr>"

definition demo_session :: "bool \<Rightarrow> (bool, unit) session" where
  "demo_session c = (init_session ''s1'' (demo_runtime (Some c)) 9 demo_loggers 1)\<lparr>ss_state := Configured\<rparr>"

lemma demo_session_fields [simp]:
  "ss_queue (demo_session c) = init_queue 200" "ss_state (demo_session c) = Configured"
  "ss_runtime (demo_session c) = demo_runtime (Some c)" "ss_boot_job (demo_session c) = None"
  by (simp_all add: demo_session_def init_session_def Let_def split_beta)

text \<open>The boot of the demonstration board, up to the moment its chain has ended.\<close>

definition demo_booting :: "bool \<Rightarrow> (bool, unit) session" where
  "demo_booting c = snd (boot_begin ''j-1'' 2 (demo_session c))"

definition demo_ended :: "bool \<Rightarrow> (bool, unit) session" where
  "demo_ended c = (demo_booting c)\<lparr>ss_queue :=
     (if c then finish_job JNull 4 else fail_job (py_error DeviceBootFailure ''DeviceBootFailure'' ''no''))
       (pick_job 3 (ss_queue (demo_booting c)))\<rparr>"

lemma demo_booting:
  "boot_begin ''j-1'' 2 (demo_session c) = (Inr 0, demo_booting c)"
  "jq_steps (init_queue n) (ss_queue (demo_session c)) \<longleftrightarrow> jq_steps (init_queue n) (init_queue 200)"
  "ss_queue (demo_booting c) = snd (submit_job ''j-1'' 2 (init_queue 200))"
  "ss_runtime (demo_booting c) = demo_runtime (Some c)"
  by (simp_all add: demo_booting_def boot_begin_def submit_job_def record_job_def init_queue_def Let_def)

lemma demo_ended:
  "boot_steps demo_hooks 0 (demo_booting c, None) (demo_ended c, Some (demo_runtime (Some c)))"
proof -
  let ?s = "(demo_booting c)\<lparr>ss_queue := pick_job 3 (ss_queue (demo_booting c))\<rparr>"
  have w: "jq_worker (ss_queue ?s) = Working 0"
    by (simp add: demo_booting pick_job_def submit_job_def record_job_def init_queue_def job_at_def new_job_def Let_def)
  have "boot_steps demo_hooks 0 (demo_booting c, None) (?s, Some (ss_runtime ?s))"
    by (rule boot_steps.step [OF boot_steps.step [OF boot_steps.refl Picked] Entered [OF w]])
  moreover have "boot_step demo_hooks 0 (?s, Some (ss_runtime ?s)) (demo_ended c, Some (ss_runtime ?s))"
    using Returned [OF w, of demo_hooks "demo_runtime (Some c)" 4]
      Raised [OF w, of demo_hooks "demo_runtime (Some c)" "py_error DeviceBootFailure ''DeviceBootFailure'' ''no''"]
    by (cases c) (simp_all add: demo_ended_def demo_booting boot_runtime_def demo_runtime_def demo_hooks_def)
  ultimately show ?thesis using boot_steps.step by (fastforce simp: demo_booting)
qed

theorem boot_session_outcome_witness:
  "ss_state (boot_end 0 9 (demo_ended True)) = Ready \<and>
   ss_state (boot_end 0 9 (demo_ended False)) = Ready \<and>
   ss_state (boot_end 0 9 ((demo_ended False)\<lparr>ss_queue := record_failure 5 (ss_queue (demo_ended False))\<rparr>)) = Failed \<and>
   ss_state (boot_end 0 9 ((demo_booting True)\<lparr>ss_queue :=
     snd (cancel_job ''j-1'' 3 (ss_queue (demo_booting True)))\<rparr>)) = Ready"
proof -
  have r: "jq_steps (init_queue 200) (ss_queue (demo_session c))" for c by (simp add: jq_steps.refl)
  note p = boot_session_outcome [OF r, where jid = "''j-1''" and t = 2 and hk = demo_hooks and now = 9, unfolded demo_booting prod.case sum.case,
      THEN conjunct2, THEN conjunct2, rule_format]
  have cancelled: "boot_steps demo_hooks 0 (demo_booting True, None)
      ((demo_booting True)\<lparr>ss_queue := snd (cancel_job ''j-1'' 3 (ss_queue (demo_booting True)))\<rparr>, None)"
    by (rule boot_steps.step [OF boot_steps.refl Withdrawn])
  show ?thesis
    using p [OF demo_ended [of True]] p [OF demo_ended [of False]]
      p [OF boot_steps.step [OF demo_ended [of False] Recorded [where t = 5]]] p [OF cancelled]
    by (simp add: demo_ended_def demo_booting pick_job_def finish_job_def fail_job_def record_failure_def
        cancel_job_def get_job_def submit_job_def record_job_def init_queue_def job_at_def new_job_def set_job_def
        evict_jobs_drop boot_runtime_def demo_runtime_def demo_hooks_def Let_def)
qed

text \<open>The queue of the witnesses: a job waits behind a running one.\<close>

definition demo_waiting :: "(bool, unit) session" where
  "demo_waiting = (demo_session True)\<lparr>ss_queue := demo_queue, ss_boot_job := Some 1\<rparr>"

text \<open>A plugin argument that names one of the fixed arguments breaks the session for good: the
  synthesised namespace raises a TypeError, and so does every later configuration, whatever its payload
  and options are, because the name stays among the plugin arguments.\<close>

theorem plugin_args_sticky:
  assumes "dict_mem k (fixed_args (rt_options (ss_runtime s)))" and "dict_mem k kvs"
  shows "(\<exists>e. fst (configure_begin payload [(''plugin_args'', JObj kvs)] s) = Inl e \<and> rx_class e = PyTypeError) \<and>
    (\<exists>e. fst (configure_begin payload' options'
       (fold (\<lambda>c s. snd (configure_begin (fst c) (snd c) s)) later
         (snd (configure_begin payload [(''plugin_args'', JObj kvs)] s)))) = Inl e)"
proof -
  have fixed: "dict_mem k (fixed_args o')" for o'
    using assms(1) fixed_args_keys by blast
  let ?o = "rt_options (ss_runtime s)" let ?o' = "?o\<lparr>ro_plugin_args := dict_merge (ro_plugin_args ?o) kvs\<rparr>"
  have app: "apply_options [(''plugin_args'', JObj kvs)] ?o = (Inr (), ?o')"
    by (simp add: apply_option_def update_args_def)
  have m: "dict_mem k (ro_plugin_args ?o')" using assms(2) by (simp add: dict_mem_merge)
  obtain e where e: "build_cmdline_args ?o' = Inl e" "rx_class e = PyTypeError"
    using build_cmdline_args_conflict [OF m] fixed by auto
  let ?has = "\<lambda>s. dict_mem k (ro_plugin_args (rt_options (ss_runtime s)))"
  have first: "fst (configure_begin payload [(''plugin_args'', JObj kvs)] s) = Inl e"
      "?has (snd (configure_begin payload [(''plugin_args'', JObj kvs)] s))"
    using m by (simp_all add: configure_begin_def app refresh_cmdline_args_def e Let_def del: apply_options.simps)
  have "?has (fold (\<lambda>c s. snd (configure_begin (fst c) (snd c) s)) later s0)" if "?has s0" for s0
    using that
  proof (induction later arbitrary: s0)
    case (Cons c later)
    then show ?case using configure_begin_conflict [OF Cons.prems, of _ "fst c" "snd c"] fixed by simp
  qed simp
  from configure_begin_conflict [OF this [OF first(2)] disjI2 [OF fixed]] first(1) e(2) show ?thesis by blast
qed

theorem plugin_args_sticky_witness:
  "\<exists>e. fst (configure_begin (JObj []) []
     (snd (configure_begin (JObj []) [(''plugin_args'', JObj [(''flash_image'', JStr ''fw.bin'')])] (demo_session True)))) = Inl e"
  using plugin_args_sticky [where k = "''flash_image''" and s = "demo_session True" and later = "[]"
      and kvs = "[(''flash_image'', JStr ''fw.bin'')]" and payload = "JObj []" and payload' = "JObj []" and options' = "[]"]
  by (simp add: fixed_args_def dict_mem_def)

text \<open>Releasing. On an idle worker a session that still captures the loggers ends with every logger as
  it was found and a queue that takes no more work exactly when the runtime's release succeeds; when
  that raises, the exception is handed on, the capture stays attached and the queue open.\<close>

theorem release_restores_logging:
  assumes "idle_queue (ss_queue s)" and "installed cc lgs (ss_capture s, ss_loggers s)"
    and "\<And>name. cc_self cc \<notin> set (lg_handlers (lgs name))"
  shows "case release_session hk jid now s of (r, s') \<Rightarrow>
    (case release_runtime hk (release_status s) (ss_runtime s) of
       Inr _ \<Rightarrow> r = Inr () \<and> jq_shutdown (ss_queue s') \<and>
         (\<forall>name. lg_propagate (ss_loggers s' name) = lg_propagate (lgs name) \<and>
            lg_handlers (ss_loggers s' name) = lg_handlers (lgs name))
     | Inl e \<Rightarrow> r = Inl e \<and> idle_queue (ss_queue s') \<and> cc_self cc \<in> set (lg_handlers (ss_loggers s' ''pexpect'')))"
proof -
  note q = submit_idle [OF assms(1), of jid now] run_idle_submitted [OF assms(1), of now _ jid now]
  note u = uninstall_installed [OF assms(2,3)]
  show ?thesis
    using q(1) q(6) u assms(2)
    by (cases "release_runtime hk (release_status s) (ss_runtime s)")
      (simp_all add: release_session_def split_beta Let_def shutdown_queue_def installed_def)
qed

theorem release_restores_logging_witness:
  "ss_loggers (demo_session True) ''pexpect'' \<noteq> demo_loggers ''pexpect'' \<and>
   lg_handlers (ss_loggers (snd (release_session demo_hooks ''j-9'' 5 (demo_session True))) ''pexpect'') = [1]"
proof -
  let ?cc = "\<lparr>cc_self = 9, cc_previous = []\<rparr>"
  have i: "installed ?cc demo_loggers (ss_capture (demo_session True), ss_loggers (demo_session True))"
    using installed_first [of ?cc demo_loggers]
    by (simp add: demo_session_def init_session_def demo_loggers_def split_beta Let_def)
  then have "ss_loggers (demo_session True) ''pexpect'' \<noteq> demo_loggers ''pexpect''"
    by (simp add: installed_def demo_loggers_def)
  moreover have "release_runtime demo_hooks st (demo_runtime (Some True)) = Inr ()" for st
    by (simp add: release_runtime_def demo_runtime_def demo_hooks_def)
  ultimately show ?thesis
    using release_restores_logging [OF _ i, of demo_hooks "''j-9''" 5]
    by (simp add: demo_loggers_def split_beta)
qed

definition is_quiet :: "json \<Rightarrow> bool" where
  "is_quiet j = (case j of JObj kvs \<Rightarrow> dict_get kvs ''quiet'' = Some (JBool True) | _ \<Rightarrow> False)"

text \<open>Quiet means that a job is running and that nothing was logged for longer than the threshold since
  it started, and it is reversible: as soon as one more line is captured the session is not quiet until
  the threshold has passed again.\<close>

theorem quiet_reversible:
  assumes "jq_steps (init_queue n) (ss_queue s)" and "quiet_after = json_time (option_field ''quiet_after'' (rt_options (ss_runtime s)))"
  shows "(is_quiet (liveness now s) \<longleftrightarrow>
      (\<exists>k started. busy (jq_worker (ss_queue s)) = Some k \<and> jb_started_at (job_at k (ss_queue s)) = Some started \<and>
        now - max started (eb_last_event_ts (ss_buffer s)) > quiet_after)) \<and>
    (now' - now \<le> quiet_after \<longrightarrow>
      \<not> is_quiet (liveness now' (s\<lparr>ss_buffer := snd (buffer_append now stream device job line (ss_buffer s))\<rparr>)))"
proof -
  have wf: "wf_queue (ss_queue s)" by (rule wf_queue_steps [OF assms(1)]) simp
  have q: "jq_running (ss_queue s) = busy (jq_worker (ss_queue s))" by (rule wf_queue_D(1) [OF wf])
  have ts: "eb_last_event_ts (snd (buffer_append now stream device job line b)) = now" for b
    by (simp add: buffer_append_def Let_def)
  show ?thesis
    unfolding assms(2)
    by (auto simp: liveness_def is_quiet_def running_job_def q ts Let_def split: option.splits)
qed

theorem quiet_reversible_witness:
  "is_quiet (liveness 900 demo_waiting) \<and>
   \<not> is_quiet (liveness 1000 (demo_waiting\<lparr>ss_buffer :=
     snd (buffer_append 900 ''console'' None None ''ok'' (ss_buffer demo_waiting))\<rparr>))"
proof -
  have "jq_steps (init_queue 200) (ss_queue demo_waiting)"
    unfolding demo_waiting_def by (simp add: demo_queue_steps)
  from quiet_reversible [OF this HOL.refl, of 900 1000 "''console''" None None "''ok''"] show ?thesis
    by (simp add: demo_waiting_def demo_session_def init_session_def init_buffer_def demo_runtime_def
        default_options_def option_field_def json_time_def queue_eval busy_def split_beta)
qed

end
