(* ===== verification/Agent_App.thy ===== *)
theory Agent_App
  imports Agent_Session "HOL-Library.Char_ord" "HOL-Library.List_Lexorder"
begin

text \<open>
  The runtime agent's application (\<^verbatim>\<open>boardfarm3/api/app.py\<close>, \<^verbatim>\<open>__main__.py\<close>), the artifact directories and
  the agent log (\<^verbatim>\<open>logs.py\<close>), the rendering of thread stacks (\<^verbatim>\<open>diagnostics.py\<close>) and the diagnostics
  bundle (\<^verbatim>\<open>bundle.py\<close>). A handler maps the agent's state to an answer or a fault and the new state;
  \<open>respond\<close> turns faults into responses as the registered exception handlers do.

  Environment variables, the filesystem and the process's threads are in \<open>agent_env\<close>. Writing JSON text
  and compressing are not modelled: a text member of the bundle is the value written.
\<close>

record thread_info =
  ti_name :: string
  ti_ident :: int
  ti_daemon :: bool
  ti_stack :: "string list"

record agent_env =
  av_environ :: "(string, string) dict"
  av_exists :: "string \<Rightarrow> bool"
  av_is_dir :: "string \<Rightarrow> bool"
  av_is_file :: "string \<Rightarrow> bool"
  av_writable :: "string \<Rightarrow> bool"
  av_tempdir :: string
  av_version :: string
  av_threads :: "thread_info list"
  av_num :: "real \<Rightarrow> string"

section \<open>Artifact directories and the agent log\<close>

text \<open>\<^verbatim>\<open>a / b\<close> for a relative or absolute second part.\<close>

definition path_div :: "string \<Rightarrow> string \<Rightarrow> string" where
  "path_div a b = (if startswith b ''/'' then b else if endswith a ''/'' then a @ b else a @ ''/'' @ b)"

definition log_root :: "agent_env \<Rightarrow> string" where
  "log_root env =
     (case dict_get (av_environ env) ''BOARDFARM_ARTIFACT_DIR'' of
        Some (c # cs) \<Rightarrow> c # cs
      | _ \<Rightarrow>
        (let probe = (if av_exists env ''/var/log/boardfarm'' then ''/var/log/boardfarm'' else ''/var/log'')
         in if av_writable env probe then ''/var/log/boardfarm'' else path_div (av_tempdir env) ''boardfarm''))"

definition artifact_dir :: "agent_env \<Rightarrow> string \<Rightarrow> string" where
  "artifact_dir env session_id = path_div (log_root env) session_id"

text \<open>
  The loggers after \<^verbatim>\<open>install_agent_log\<close>: \<open>opened\<close> says whether the directory could be made and the file
  opened, \<open>handler\<close> names the new file handler.
\<close>

definition ATTACH_TO :: "string list" where
  "ATTACH_TO = [''boardfarm3'', ''uvicorn'', ''uvicorn.error'', ''uvicorn.access'']"

definition install_agent_log ::
  "agent_env \<Rightarrow> bool \<Rightarrow> nat \<Rightarrow> string \<Rightarrow> (string \<Rightarrow> logger) \<Rightarrow> string option \<times> (string \<Rightarrow> logger)" where
  "install_agent_log env opened handler session_id lgs =
     (if \<not> opened then (None, lgs)
      else (Some (path_div (artifact_dir env session_id) ''agent.log''),
            foldl (\<lambda>m name. m(name := (m name)\<lparr>
                lg_handlers := (if handler \<in> set (lg_handlers (m name)) then lg_handlers (m name)
                                else lg_handlers (m name) @ [handler]), lg_level := 10\<rparr>)) lgs ATTACH_TO))"

section \<open>Thread stacks\<close>

text \<open>A frame of the snapshot, and the text of the bundle's \<^verbatim>\<open>threads.txt\<close>.\<close>

definition is_worker :: "thread_info \<Rightarrow> bool" where
  "is_worker t \<longleftrightarrow> startswith (ti_name t) ''bf''"

definition thread_snapshot :: "agent_env \<Rightarrow> time \<Rightarrow> json" where
  "thread_snapshot env now =
     JObj [(''captured_at'', JReal now),
           (''threads'', JList (map (\<lambda>t. JObj
              [(''name'', JStr (ti_name t)), (''ident'', JInt (ti_ident t)), (''worker'', JBool (is_worker t)),
               (''daemon'', JBool (ti_daemon t)), (''stack'', JList (map JStr (ti_stack t)))]) (av_threads env)))]"

definition thread_lines :: "thread_info \<Rightarrow> string list" where
  "thread_lines t =
     (''--- '' @ ti_name t @ '' (ident='' @ int_str (ti_ident t) @ '')'' @
        (if is_worker t then '' [WORKER]'' else [])) #
     map (rstrip whitespace) (ti_stack t) @ ['''']"

definition format_threads :: "agent_env \<Rightarrow> time \<Rightarrow> string" where
  "format_threads env now =
     join [CHR 0x0A] ((''captured_at: '' @ av_num env now) # '''' # concat (map thread_lines (av_threads env)))"

section \<open>The diagnostics bundle\<close>

fun job_state_value :: "job_state \<Rightarrow> string" where
  "job_state_value Queued = ''queued''"
| "job_state_value Running = ''running''"
| "job_state_value Done = ''done''"
| "job_state_value Errored = ''error''"
| "job_state_value Cancelled = ''cancelled''"

definition json_opt_time :: "time option \<Rightarrow> json" where
  "json_opt_time t = (case t of None \<Rightarrow> JNull | Some x \<Rightarrow> JReal x)"

definition job_payload :: "string \<Rightarrow> job \<Rightarrow> json" where
  "job_payload session_id j =
     JObj [(''job_id'', JStr (jb_id j)), (''state'', JStr (job_state_value (jb_state j))),
           (''created_at'', JReal (jb_created_at j)), (''started_at'', json_opt_time (jb_started_at j)),
           (''finished_at'', json_opt_time (jb_finished_at j)),
           (''error'', case jb_error j of None \<Rightarrow> JNull
              | Some e \<Rightarrow> error_envelope e session_id (Some (jb_id j)) None [])]"

definition jobs_payload :: "('c, 'd) session \<Rightarrow> json" where
  "jobs_payload s = JList (map (job_payload (ss_id s)) (all_jobs (ss_queue s)))"

definition event_json :: "console_event \<Rightarrow> json" where
  "event_json e =
     JObj [(''seq'', JInt (ev_seq e)), (''ts'', JReal (ev_ts e)), (''stream'', JStr (ev_stream e)),
           (''device'', opt_str (ev_device e)), (''job_id'', opt_str (ev_job e)), (''line'', JStr (ev_line e))]"

definition REDACTED_MEMBERS :: "string list" where
  "REDACTED_MEMBERS = [''session.json'', ''config.json'']"

text \<open>A member of the archive: a value written as JSON, one value a line, plain text, or a path that is added.\<close>

datatype member = JsonMember json | JsonLines "json list" | TextMember string | PathMember string

text \<open>The option as a path; the agent always sets a string.\<close>

definition console_dir :: "('c, 'd) session \<Rightarrow> string" where
  "console_dir s = (case option_field ''save_console_logs'' (rt_options (ss_runtime s)) of JStr d \<Rightarrow> d | _ \<Rightarrow> [])"

definition has_console :: "agent_env \<Rightarrow> ('c, 'd) session \<Rightarrow> bool" where
  "has_console env s \<longleftrightarrow> console_dir s \<noteq> [] \<and> av_is_dir env (console_dir s)"

definition agent_log :: "agent_env \<Rightarrow> ('c, 'd) session \<Rightarrow> string" where
  "agent_log env s = path_div (artifact_dir env (ss_id s)) ''agent.log''"

definition absent_members :: "agent_env \<Rightarrow> ('c, 'd) session \<Rightarrow> string list" where
  "absent_members env s =
     map fst (filter (\<lambda>p. \<not> snd p)
       [(''console-logs'', has_console env s), (''agent.log'', av_is_file env (agent_log env s))])"

definition bundle_manifest :: "agent_env \<Rightarrow> time \<Rightarrow> ('c, 'd) session \<Rightarrow> json" where
  "bundle_manifest env now s =
     JObj [(''schema_version'', JInt 1), (''session_id'', JStr (ss_id s)),
           (''board_name'', option_field ''board_name'' (rt_options (ss_runtime s))),
           (''agent_version'', JStr (av_version env)), (''created_at'', JReal (ss_created_at s)),
           (''captured_at'', JReal now), (''state'', JStr (state_value (ss_state s))),
           (''redacted'', JList (map JStr REDACTED_MEMBERS)),
           (''absent'', JList (map JStr (absent_members env s)))]"

definition write_agent_bundle ::
  "agent_env \<Rightarrow> time \<Rightarrow> ('c, 'd) session \<Rightarrow> json \<times> (string \<times> member) list" where
  "write_agent_bundle env now s =
     (let manifest = bundle_manifest env now s;
          events = fst (buffer_read 0 None None None 1000000 (ss_buffer s))
      in (manifest,
          [(''manifest.json'', JsonMember manifest),
           (''session.json'', JsonMember (redact (session_status now s))),
           (''config.json'', JsonMember (redact (ss_payload s))),
           (''jobs.json'', JsonMember (jobs_payload s)),
           (''events.jsonl'', JsonLines (map event_json events)),
           (''threads.txt'', TextMember (format_threads env now))] @
          (if av_is_file env (agent_log env s) then [(''agent.log'', PathMember (agent_log env s))] else []) @
          (if has_console env s then [(''console-logs'', PathMember (console_dir s))] else [])))"

section \<open>OpenAPI descriptions\<close>

text \<open>The text before the first line that starts, after blanks, with a colon.\<close>

definition strip_sphinx_params :: "string \<Rightarrow> string" where
  "strip_sphinx_params text =
     rstrip whitespace (join [CHR 0x0A]
       (takeWhile (\<lambda>line. \<not> startswith (lstrip whitespace line) '':'') (splitlines text)))"

definition strip_operation_desc :: "json \<Rightarrow> json" where
  "strip_operation_desc operation =
     (case operation of
        JObj kvs \<Rightarrow>
          (case dict_get kvs ''description'' of
             Some (JStr desc) \<Rightarrow>
               (if desc \<noteq> [] then JObj (dict_set ''description'' (JStr (strip_sphinx_params desc)) kvs) else JObj kvs)
           | _ \<Rightarrow> JObj kvs)
      | other \<Rightarrow> other)"

definition clean_path_item :: "json \<Rightarrow> json" where
  "clean_path_item item =
     (case item of JObj ops \<Rightarrow> JObj (map (\<lambda>p. (fst p, strip_operation_desc (snd p))) ops) | other \<Rightarrow> other)"

definition clean_openapi :: "(string, json) dict \<Rightarrow> (string, json) dict" where
  "clean_openapi schema =
     (case dict_get schema ''paths'' of
        Some (JObj paths) \<Rightarrow>
          dict_set ''paths'' (JObj (map (\<lambda>p. (fst p, clean_path_item (snd p))) paths)) schema
      | _ \<Rightarrow> schema)"

section \<open>The application\<close>

record skipped_method =
  sk_template :: string
  sk_method :: string
  sk_reason :: string

record ('c, 'd) agent =
  ag_session :: "('c, 'd) session"
  ag_released :: bool
  ag_skipped :: "skipped_method list"

text \<open>What the handlers read off a device manager: names, class names and the classes of the MRO that
  have abstract methods.\<close>

record device_desc =
  dd_type :: string
  dd_mro :: "(string \<times> bool) list"

datatype agent_fault = AgentHTTP int json | AgentRaised raised

datatype agent_answer = AgentJson int json | AgentFile string "(string \<times> member) list"

text \<open>The body of \<^verbatim>\<open>POST /session/config\<close> and \<^verbatim>\<open>model_dump(exclude_none=True)\<close> of its options.\<close>

record runtime_overrides =
  co_skip_boot :: "bool option"
  co_legacy :: "bool option"
  co_skip_contingency_checks :: "bool option"
  co_save_console_logs :: "string option"
  co_ignore_devices :: "string option"
  co_quiet_after :: "real option"
  co_plugin_args :: "(string, json) dict"

definition given :: "string \<Rightarrow> ('a \<Rightarrow> json) \<Rightarrow> 'a option \<Rightarrow> (string, json) dict" where
  "given name f v = (case v of None \<Rightarrow> [] | Some x \<Rightarrow> [(name, f x)])"

definition dump_options :: "runtime_overrides \<Rightarrow> (string, json) dict" where
  "dump_options o' =
     given ''skip_boot'' JBool (co_skip_boot o') @ given ''legacy'' JBool (co_legacy o') @
     given ''skip_contingency_checks'' JBool (co_skip_contingency_checks o') @
     given ''save_console_logs'' JStr (co_save_console_logs o') @
     given ''ignore_devices'' JStr (co_ignore_devices o') @ given ''quiet_after'' JReal (co_quiet_after o') @
     [(''plugin_args'', JObj (co_plugin_args o'))]"

text \<open>Start and end of the application's lifespan. \<open>release_once\<close> marks the session before it releases it.\<close>

definition agent_start ::
  "agent_env \<Rightarrow> string \<Rightarrow> string \<Rightarrow> nat \<Rightarrow> (string \<Rightarrow> logger) \<Rightarrow> time \<Rightarrow> skipped_method list
   \<Rightarrow> raised + ('c, 'd) agent" where
  "agent_start env session_id board_name self lgs now skipped =
     (case init_runtime (default_options board_name (path_div (artifact_dir env session_id) ''console'')) of
        Inl e \<Rightarrow> Inl e
      | Inr rt \<Rightarrow> Inr \<lparr>ag_session = init_session session_id rt self lgs now, ag_released = False, ag_skipped = skipped\<rparr>)"

definition release_once ::
  "('c, 'd) hooks \<Rightarrow> string \<Rightarrow> time \<Rightarrow> ('c, 'd) agent \<Rightarrow> (raised + unit) \<times> ('c, 'd) agent" where
  "release_once hk jid now a =
     (if ag_released a then (Inr (), a)
      else case release_session hk jid now (ag_session a) of
             (r, s) \<Rightarrow> (r, a\<lparr>ag_released := True, ag_session := s\<rparr>))"

definition health_agent :: "time \<Rightarrow> ('c, 'd) agent \<Rightarrow> agent_answer" where
  "health_agent now a = AgentJson 200 (session_status now (ag_session a))"

definition configure_handler ::
  "('c, 'd) hooks \<Rightarrow> string \<Rightarrow> time \<Rightarrow> json \<Rightarrow> runtime_overrides \<Rightarrow> ('c, 'd) agent
   \<Rightarrow> (agent_fault + agent_answer) \<times> ('c, 'd) agent" where
  "configure_handler hk jid now payload options a =
     (case configure_session hk jid now payload (dump_options options) (ag_session a) of
        (Inl e, s) \<Rightarrow> (Inl (AgentRaised e), a\<lparr>ag_session := s\<rparr>)
      | (Inr _, s) \<Rightarrow> (Inr (AgentJson 200 (session_status now s)), a\<lparr>ag_session := s\<rparr>))"

text \<open>
  Booting asynchronously answers after the submission, and whatever the task raises is dropped; booting
  synchronously has no answer yet (\<open>None\<close>) and gives it with the poll that ends the boot.
\<close>

definition boot_handler ::
  "string \<Rightarrow> time \<Rightarrow> bool \<Rightarrow> ('c, 'd) agent \<Rightarrow> (agent_fault + agent_answer option) \<times> ('c, 'd) agent" where
  "boot_handler jid now async a =
     (let s = ag_session a
      in if ss_state s \<noteq> Configured
         then (Inl (AgentHTTP 409 (JStr (''cannot boot from state '' @ state_value (ss_state s)))), a)
         else (case boot_begin jid now s of
                 (r, s1) \<Rightarrow>
                   (if async then Inr (Some (AgentJson 202 (session_status now s1)))
                    else case r of Inl e \<Rightarrow> Inl (AgentRaised e) | Inr _ \<Rightarrow> Inr None,
                    a\<lparr>ag_session := s1\<rparr>)))"

definition boot_handler_poll :: "nat \<Rightarrow> time \<Rightarrow> ('c, 'd) agent \<Rightarrow> agent_answer option \<times> ('c, 'd) agent" where
  "boot_handler_poll k now a =
     (let s = boot_end k now (ag_session a)
      in (if boot_poll (job_at k (ss_queue s)) then None else Some (AgentJson 202 (session_status now s)),
          a\<lparr>ag_session := s\<rparr>))"

definition release_handler ::
  "('c, 'd) hooks \<Rightarrow> string \<Rightarrow> time \<Rightarrow> ('c, 'd) agent \<Rightarrow> (agent_fault + agent_answer) \<times> ('c, 'd) agent" where
  "release_handler hk jid now a =
     (case release_once hk jid now a of
        (Inl e, a') \<Rightarrow> (Inl (AgentRaised e), a')
      | (Inr _, a') \<Rightarrow> (Inr (AgentJson 200 (JObj [(''status'', JStr ''released'')])), a'))"

definition device_json :: "string \<times> device_desc \<Rightarrow> json" where
  "device_json p =
     JObj [(''name'', JStr (fst p)), (''type'', JStr (dd_type (snd p))),
           (''templates'', JList (map JStr (sort (map fst (filter snd (dd_mro (snd p)))))))]"

definition devices_handler :: "('d \<Rightarrow> (string, device_desc) dict) \<Rightarrow> ('c, 'd) agent \<Rightarrow> agent_answer" where
  "devices_handler found a =
     AgentJson 200 (JObj [(''devices'', JList
       (case rt_manager (ss_runtime (ag_session a)) of None \<Rightarrow> [] | Some d \<Rightarrow> map device_json (found d)))])"

definition events_answer :: "console_event list \<times> int \<Rightarrow> agent_answer" where
  "events_answer p = AgentJson 200 (JObj [(''events'', JList (map event_json (fst p))), (''cursor'', JInt (snd p))])"

definition console_handler ::
  "int \<Rightarrow> string option \<Rightarrow> string option \<Rightarrow> int \<Rightarrow> ('c, 'd) agent \<Rightarrow> agent_answer" where
  "console_handler cursor device stream limit a =
     events_answer (buffer_read cursor device stream None limit (ss_buffer (ag_session a)))"

definition console_archive ::
  "agent_env \<Rightarrow> ('c, 'd) agent \<Rightarrow> agent_fault + agent_answer" where
  "console_archive env a =
     (if \<not> has_console env (ag_session a)
      then Inl (AgentHTTP 404 (JStr ''save_console_logs is not enabled for this session''))
      else Inr (AgentFile (ss_id (ag_session a) @ ''-console-logs.tar.gz'')
                  [(''console-logs'', PathMember (console_dir (ag_session a)))]))"

text \<open>An exception is true in a boolean context, so the envelope is there whenever the job has an error.\<close>

definition job_handler :: "string \<Rightarrow> ('c, 'd) agent \<Rightarrow> agent_fault + agent_answer" where
  "job_handler job_id a =
     (let q = ss_queue (ag_session a)
      in case get_job job_id q of
           None \<Rightarrow> Inl (AgentHTTP 404 (JStr (''unknown job '' @ job_id)))
         | Some k \<Rightarrow>
            (let j = job_at k q
             in Inr (AgentJson 200 (JObj
                  [(''job_id'', JStr (jb_id j)), (''state'', JStr (job_state_value (jb_state j))),
                   (''result'', jb_result j),
                   (''error'', case jb_error j of None \<Rightarrow> JNull
                      | Some e \<Rightarrow> error_envelope e (ss_id (ag_session a)) (Some (jb_id j)) None [])]))))"

definition job_console :: "string \<Rightarrow> int \<Rightarrow> ('c, 'd) agent \<Rightarrow> agent_answer" where
  "job_console job_id cursor a =
     events_answer (buffer_read cursor None None (Some job_id) 1000 (ss_buffer (ag_session a)))"

definition skipped_routes :: "('c, 'd) agent \<Rightarrow> agent_answer" where
  "skipped_routes a =
     AgentJson 200 (JObj [(''skipped'', JList (map (\<lambda>s. JObj
       [(''template'', JStr (sk_template s)), (''method'', JStr (sk_method s)), (''reason'', JStr (sk_reason s))])
       (ag_skipped a)))])"

definition diagnostics_bundle :: "agent_env \<Rightarrow> time \<Rightarrow> ('c, 'd) agent \<Rightarrow> agent_answer" where
  "diagnostics_bundle env now a =
     AgentFile (ss_id (ag_session a) @ ''-diagnostics.tar.gz'') (snd (write_agent_bundle env now (ag_session a)))"

text \<open>Faults: the handlers registered for boardfarm's and pexpect's exceptions; the server's own otherwise.\<close>

definition respond :: "('c, 'd) agent \<Rightarrow> agent_fault \<Rightarrow> int \<times> json" where
  "respond a f =
     (case f of
        AgentHTTP st detail \<Rightarrow> (st, JObj [(''detail'', detail)])
      | AgentRaised e \<Rightarrow>
         (if list_ex (isinstance (rx_class e)) [BoardfarmException, PexpectTimeout, PexpectEOF]
          then (http_status_for (rx_class e),
                error_envelope e (ss_id (ag_session a)) None None (console_tail_from (ss_buffer (ag_session a)) None 40))
          else (500, JStr ''Internal Server Error'')))"

text \<open>The entry point: the identity of the agent, from the environment.\<close>

definition build_app_from_env :: "agent_env \<Rightarrow> raised + string \<times> string" where
  "build_app_from_env env =
     (let board_name = (case dict_get (av_environ env) ''BOARDFARM_BOARD_NAME'' of None \<Rightarrow> [] | Some b \<Rightarrow> b)
      in if board_name = [] then Inl (py_error PyValueError ''ValueError'' ''BOARDFARM_BOARD_NAME must be set'')
         else Inr (case dict_get (av_environ env) ''BOARDFARM_SESSION_ID'' of None \<Rightarrow> ''s-local'' | Some s \<Rightarrow> s, board_name))"

section \<open>Properties\<close>

text \<open>The manifest of a diagnostics bundle is truthful. The archive's names are distinct; every member the
  manifest calls redacted is there and holds nothing but the marker under credential-bearing keys; and
  the names it calls absent are exactly the optional members that are missing, each present one being
  added from a path that exists.\<close>

theorem bundle_manifest_truthful:
  shows "case write_agent_bundle env now s of (manifest, members) \<Rightarrow>
    dict_get members ''manifest.json'' = Some (JsonMember manifest) \<and>
    distinct (map fst members) \<and>
    (\<forall>n\<in>set REDACTED_MEMBERS. \<exists>j. dict_get members n = Some (JsonMember j) \<and> clean j) \<and>
    (\<forall>n. n \<in> set (absent_members env s) \<longleftrightarrow>
       n \<in> {''console-logs'', ''agent.log''} \<and> n \<notin> set (map fst members)) \<and>
    (\<forall>n p. (n, PathMember p) \<in> set members \<longrightarrow> av_is_dir env p \<or> av_is_file env p)"
  by (auto simp: write_agent_bundle_def REDACTED_MEMBERS_def absent_members_def has_console_def Let_def
      clean_redact_aux)

definition demo_agent_env :: agent_env where
  "demo_agent_env =
     \<lparr>av_environ = [], av_exists = \<lambda>_. True, av_is_dir = \<lambda>p. p = ''/tmp'', av_is_file = \<lambda>_. False,
      av_writable = \<lambda>_. True, av_tempdir = ''/tmp'', av_version = ''1'', av_threads = [], av_num = \<lambda>_. ''0''\<rparr>"

theorem bundle_manifest_truthful_witness:
  "\<exists>j. dict_get (snd (write_agent_bundle demo_agent_env 1 (demo_session True))) ''config.json'' = Some (JsonMember j) \<and> clean j"
proof -
  note b = bundle_manifest_truthful [where env = demo_agent_env and now = 1 and s = "demo_session True", unfolded split_beta]
  from b [THEN conjunct2, THEN conjunct2, THEN conjunct1]
  show ?thesis unfolding REDACTED_MEMBERS_def by simp
qed

text \<open>The session is released at most once: after the first attempt, whatever its outcome, every further
  DELETE answers that it is released and changes nothing. So a release that raised is reported as done the
  second time, although the console capture is still attached to the loggers and the queue open.\<close>

theorem release_at_most_once:
  assumes "idle_queue (ss_queue (ag_session a))" and "\<not> ag_released a"
    and "installed cc lgs (ss_capture (ag_session a), ss_loggers (ag_session a))"
  shows "case release_handler hk jid now a of (r, a1) \<Rightarrow>
    release_handler hk jid' now' a1 = (Inr (AgentJson 200 (JObj [(''status'', JStr ''released'')])), a1) \<and>
    (case release_runtime hk (release_status (ag_session a)) (ss_runtime (ag_session a)) of
       Inr _ \<Rightarrow> jq_shutdown (ss_queue (ag_session a1))
     | Inl e \<Rightarrow> r = Inl (AgentRaised e) \<and> \<not> jq_shutdown (ss_queue (ag_session a1)) \<and>
         cc_self cc \<in> set (lg_handlers (ss_loggers (ag_session a1) ''pexpect'')))"
proof -
  let ?s = "ag_session a"
  note q = submit_idle [OF assms(1), of jid now] run_idle_submitted(1) [OF assms(1), of now _ jid now]
  have "ag_released (snd (release_once hk jid now a))" by (simp add: release_once_def assms(2) split_beta)
  then have again: "ag_released (snd (release_handler hk jid now a))"
    by (auto simp: release_handler_def split: prod.splits sum.splits)
  have second: "release_handler hk jid' now' a1 = (Inr (AgentJson 200 (JObj [(''status'', JStr ''released'')])), a1)"
    if "ag_released a1" for a1 :: "('a, 'b) agent"
    using that by (simp add: release_handler_def release_once_def)
  show ?thesis
    using q assms(2,3) second again
    by (cases "release_runtime hk (release_status ?s) (ss_runtime ?s)")
      (simp_all add: release_handler_def release_once_def release_session_def split_beta Let_def shutdown_queue_def
        installed_def idle_queue_def)
qed

definition demo_agent :: "bool \<Rightarrow> (bool, unit) agent" where
  "demo_agent c = \<lparr>ag_session = demo_session c, ag_released = False, ag_skipped = []\<rparr>"

theorem release_at_most_once_witness:
  "\<exists>a1. release_handler demo_hooks ''j-9'' 5 (demo_agent False) =
     (Inl (AgentRaised (py_error PyValueError ''ValueError'' ''stuck'')), a1) \<and>
   9 \<in> set (lg_handlers (ss_loggers (ag_session a1) ''pexpect'')) \<and>
   fst (release_handler demo_hooks ''j-10'' 6 a1) = Inr (AgentJson 200 (JObj [(''status'', JStr ''released'')]))"
proof -
  let ?cc = "\<lparr>cc_self = 9, cc_previous = []\<rparr>"
  have i: "installed ?cc demo_loggers (ss_capture (demo_session c), ss_loggers (demo_session c))" for c
    using installed_first [of ?cc demo_loggers]
    by (simp add: demo_session_def init_session_def demo_loggers_def split_beta Let_def)
  have "release_runtime demo_hooks st (demo_runtime (Some False)) = Inl (py_error PyValueError ''ValueError'' ''stuck'')" for st
    by (simp add: release_runtime_def demo_runtime_def demo_hooks_def)
  then show ?thesis
    using release_at_most_once [where a = "demo_agent False" and cc = ?cc and lgs = demo_loggers and hk = demo_hooks
        and jid = "''j-9''" and now = 5 and jid' = "''j-10''" and now' = 6] i [of False]
    by (auto simp: demo_agent_def split_beta prod_eq_iff)
qed

end
