(* ===== verification/Annotations.thy ===== *)
theory Annotations
  imports BF_Prelude PyString
begin

text \<open>
  Type annotations and the translation of request bodies (\<^verbatim>\<open>boardfarm3/api/routers/_generator.py\<close>): which
  annotations can cross the API, the field type a body gets for one (an enumeration becomes its member
  names, a tuple a list), and \<open>coerce\<close>, which turns the validated body value back. \<open>has_type\<close> is
  the reference: which values an annotation admits. A validated body value has its field's type, as
  pydantic documents.

  Unions are written \<^verbatim>\<open>X | Y\<close>; \<open>union_of\<close> is the normalisation \<^verbatim>\<open>typing.Union[...]\<close> performs.
\<close>

datatype pyval =
  VNone | VBool bool | VInt int | VReal real | VStr string
| VList "pyval list" | VTuple "pyval list" | VDict "(string \<times> pyval) list" | VEnum string string

datatype prim = PStr | PInt | PFloat | PBool | PDict | PList

datatype annotation =
  AnnNone | AnnAny | AnnPrim prim
| AnnEnum string "string list"
| AnnTypedDict string "(string \<times> annotation) list"
| AnnTuple "annotation list" | AnnTupleOf annotation
| AnnUnion "annotation list" | AnnList "annotation list" | AnnDict "annotation list"
| AnnLiteral "string list"
| AnnClass string string
| AnnOther string

lemma size_snd_annotation [termination_simp]:
  "(k, a) \<in> set fs \<Longrightarrow> size (a::annotation) < Suc (size_list (size_prod (\<lambda>_. 0) size) fs)"
  by (induction fs) fastforce+

section \<open>Which annotations cross the API\<close>

fun is_serialisable :: "annotation \<Rightarrow> bool" where
  "is_serialisable AnnNone = True"
| "is_serialisable AnnAny = True"
| "is_serialisable (AnnPrim p) = True"
| "is_serialisable (AnnEnum c ms) = True"
| "is_serialisable (AnnTypedDict c fs) = (\<forall>(k, a)\<in>set fs. is_serialisable a)"
| "is_serialisable (AnnTuple as) = (\<forall>a\<in>set as. is_serialisable a)"
| "is_serialisable (AnnTupleOf a) = is_serialisable a"
| "is_serialisable (AnnUnion as) = (\<forall>a\<in>set as. is_serialisable a)"
| "is_serialisable (AnnList as) = (\<forall>a\<in>set as. is_serialisable a)"
| "is_serialisable (AnnDict as) = (\<forall>a\<in>set as. is_serialisable a)"
| "is_serialisable (AnnLiteral ms) = False"
| "is_serialisable (AnnClass m c) = False"
| "is_serialisable (AnnOther r) = False"

section \<open>Field types\<close>

definition union_args :: "annotation list \<Rightarrow> annotation list" where
  "union_args as = rev (remdups (rev (concat (map (\<lambda>a. case a of AnnUnion bs \<Rightarrow> bs | _ \<Rightarrow> [a]) as))))"

definition union_of :: "annotation list \<Rightarrow> annotation" where
  "union_of as = (case union_args as of [a] \<Rightarrow> a | bs \<Rightarrow> AnnUnion bs)"

fun field_type :: "annotation \<Rightarrow> annotation" where
  "field_type (AnnEnum c ms) = AnnLiteral ms"
| "field_type (AnnTuple []) = AnnPrim PList"
| "field_type (AnnTupleOf a) = AnnList [field_type a]"
| "field_type (AnnTuple (a # as)) = AnnList [if as = [] then field_type a else union_of (map field_type (a # as))]"
| "field_type (AnnList (a # as)) = AnnList [field_type a]"
| "field_type (AnnDict [a, b]) = AnnDict [field_type a, field_type b]"
| "field_type (AnnUnion (a # as)) = union_of (map field_type (a # as))"
| "field_type a = a"

text \<open>Whether the substitution built a new annotation object; only then is the parameter coerced.\<close>

fun rebuilt :: "annotation \<Rightarrow> bool" where
  "rebuilt (AnnEnum c ms) = True"
| "rebuilt (AnnTuple as) = True"
| "rebuilt (AnnTupleOf a) = True"
| "rebuilt (AnnList as) = (as \<noteq> [])"
| "rebuilt (AnnDict as) = (length as = 2)"
| "rebuilt (AnnUnion as) = (as \<noteq> [])"
| "rebuilt _ = False"

section \<open>Coercion\<close>

datatype coerce_error = KeyErr | TypeErr

text \<open>What iterating over a value gives: the items, the characters, the keys.\<close>

fun iter_items :: "pyval \<Rightarrow> pyval list option" where
  "iter_items (VList xs) = Some xs"
| "iter_items (VTuple xs) = Some xs"
| "iter_items (VStr s) = Some (map (\<lambda>c. VStr [c]) s)"
| "iter_items (VDict kvs) = Some (map (\<lambda>p. VStr (fst p)) kvs)"
| "iter_items _ = None"

fun traverse :: "('a \<Rightarrow> 'e + 'b) \<Rightarrow> 'a list \<Rightarrow> 'e + 'b list" where
  "traverse f [] = Inr []"
| "traverse f (x # xs) =
     (case f x of
        Inl e \<Rightarrow> Inl e
      | Inr y \<Rightarrow> (case traverse f xs of Inl e \<Rightarrow> Inl e | Inr ys \<Rightarrow> Inr (y # ys)))"

lemma traverse_cong [fundef_cong]:
  "xs = ys \<Longrightarrow> (\<And>x. x \<in> set ys \<Longrightarrow> f x = g x) \<Longrightarrow> traverse f xs = traverse g ys"
  by (induction xs arbitrary: ys) (auto split: sum.splits)

text \<open>The first candidate that does not raise.\<close>

fun first_ok :: "('a \<Rightarrow> 'e + 'b) \<Rightarrow> 'a list \<Rightarrow> 'b option" where
  "first_ok f [] = None"
| "first_ok f (x # xs) = (case f x of Inr y \<Rightarrow> Some y | Inl e \<Rightarrow> first_ok f xs)"

lemma first_ok_cong [fundef_cong]:
  "xs = ys \<Longrightarrow> (\<And>x. x \<in> set ys \<Longrightarrow> f x = g x) \<Longrightarrow> first_ok f xs = first_ok g ys"
  by (induction xs arbitrary: ys) (auto split: sum.splits)

definition coerce_enum :: "string \<Rightarrow> string list \<Rightarrow> pyval \<Rightarrow> coerce_error + pyval" where
  "coerce_enum c ms v =
     (case v of
        VStr m \<Rightarrow> (if m \<in> set ms then Inr (VEnum c m) else Inl KeyErr)
      | VList xs \<Rightarrow> Inl TypeErr
      | VDict kvs \<Rightarrow> Inl TypeErr
      | _ \<Rightarrow> Inl KeyErr)"

definition with_items ::
  "(pyval list \<Rightarrow> coerce_error + pyval list) \<Rightarrow> (pyval list \<Rightarrow> pyval) \<Rightarrow> pyval \<Rightarrow> coerce_error + pyval" where
  "with_items f mk v =
     (case iter_items v of
        None \<Rightarrow> Inl TypeErr
      | Some xs \<Rightarrow> (case f xs of Inl e \<Rightarrow> Inl e | Inr ys \<Rightarrow> Inr (mk ys)))"

lemma with_items_cong [fundef_cong]:
  "v = w \<Longrightarrow> mk = mk' \<Longrightarrow> (\<And>xs. f xs = g xs) \<Longrightarrow> with_items f mk v = with_items g mk' w"
  by (auto simp: with_items_def split: option.splits)

lemma size_zip_annotation [termination_simp]:
  "p \<in> set (zip xs as) \<Longrightarrow> size (snd p :: annotation) < Suc (size_list size as)"
  by (cases p) (auto dest!: set_zip_rightD intro: le_imp_less_Suc size_list_estimation' [OF _ order_refl])

fun coerce :: "pyval \<Rightarrow> annotation \<Rightarrow> coerce_error + pyval" where
  "coerce v (AnnEnum c ms) = (if v = VNone then Inr VNone else coerce_enum c ms v)"
| "coerce v (AnnUnion as) =
     (if v = VNone then Inr VNone
      else case first_ok (\<lambda>a. coerce v a) (filter (\<lambda>a. a \<noteq> AnnNone) as) of None \<Rightarrow> Inr v | Some w \<Rightarrow> Inr w)"
| "coerce v (AnnTupleOf a) =
     (if v = VNone then Inr VNone else with_items (\<lambda>xs. traverse (\<lambda>x. coerce x a) xs) VTuple v)"
| "coerce v (AnnTuple as) =
     (if v = VNone then Inr VNone
      else with_items (\<lambda>xs. traverse (\<lambda>p. coerce (fst p) (snd p)) (zip xs as)) VTuple v)"
| "coerce v (AnnList (a # as)) =
     (if v = VNone then Inr VNone else with_items (\<lambda>xs. traverse (\<lambda>x. coerce x a) xs) VList v)"
| "coerce v _ = Inr v"

section \<open>The reference\<close>

fun prim_type :: "prim \<Rightarrow> pyval \<Rightarrow> bool" where
  "prim_type PStr (VStr s) = True"
| "prim_type PInt (VInt i) = True"
| "prim_type PInt (VBool b) = True"
| "prim_type PFloat (VReal r) = True"
| "prim_type PFloat (VInt i) = True"
| "prim_type PBool (VBool b) = True"
| "prim_type PDict (VDict kvs) = True"
| "prim_type PList (VList xs) = True"
| "prim_type _ _ = False"

fun has_type :: "annotation \<Rightarrow> pyval \<Rightarrow> bool" where
  "has_type AnnNone v = (v = VNone)"
| "has_type AnnAny v = True"
| "has_type (AnnPrim p) v = prim_type p v"
| "has_type (AnnEnum c ms) v = (\<exists>m\<in>set ms. v = VEnum c m)"
| "has_type (AnnTypedDict c fs) v =
     (case v of VDict kvs \<Rightarrow> (\<forall>kv\<in>set kvs. \<exists>(k, a)\<in>set fs. k = fst kv \<and> has_type a (snd kv)) | _ \<Rightarrow> False)"
| "has_type (AnnTuple as) v =
     (case v of VTuple xs \<Rightarrow> length xs = length as \<and> (\<forall>p\<in>set (zip xs as). has_type (snd p) (fst p)) | _ \<Rightarrow> False)"
| "has_type (AnnTupleOf a) v = (case v of VTuple xs \<Rightarrow> (\<forall>x\<in>set xs. has_type a x) | _ \<Rightarrow> False)"
| "has_type (AnnUnion as) v = (\<exists>a\<in>set as. has_type a v)"
| "has_type (AnnList []) v = (case v of VList xs \<Rightarrow> True | _ \<Rightarrow> False)"
| "has_type (AnnList (a # as)) v = (case v of VList xs \<Rightarrow> (\<forall>x\<in>set xs. has_type a x) | _ \<Rightarrow> False)"
| "has_type (AnnDict as) v =
     (case v of
        VDict kvs \<Rightarrow> (case as of [a, b] \<Rightarrow> (\<forall>kv\<in>set kvs. has_type a (VStr (fst kv)) \<and> has_type b (snd kv)) | _ \<Rightarrow> True)
      | _ \<Rightarrow> False)"
| "has_type (AnnLiteral ms) v = (\<exists>m\<in>set ms. v = VStr m)"
| "has_type (AnnClass m c) v = False"
| "has_type (AnnOther r) v = False"

text \<open>How a client writes a value of an annotation in a request body.\<close>

definition non_none :: "annotation list \<Rightarrow> annotation list" where
  "non_none as = filter (\<lambda>a. a \<noteq> AnnNone) as"

lemma non_none_cong [fundef_cong]:
  "as = bs \<Longrightarrow> (\<And>a cs. non_none bs = a # cs \<Longrightarrow> a \<in> set bs \<Longrightarrow> f a cs = g a cs) \<Longrightarrow>
   (case non_none as of [] \<Rightarrow> z | a # cs \<Rightarrow> f a cs) = (case non_none bs of [] \<Rightarrow> z | a # cs \<Rightarrow> g a cs)"
proof -
  assume e: "as = bs" and h: "\<And>a cs. non_none bs = a # cs \<Longrightarrow> a \<in> set bs \<Longrightarrow> f a cs = g a cs"
  have "a \<in> set bs" if "non_none bs = a # cs" for a cs
    using that by (metis non_none_def filter_is_subset list.set_intros(1) subsetD)
  then show ?thesis using e h by (auto split: list.splits)
qed

lemma non_none_mem: "non_none as = a # cs \<Longrightarrow> a \<in> set as"
  unfolding non_none_def by (metis filter_is_subset list.set_intros(1) subsetD)

lemma size_non_none [termination_simp]:
  "non_none as = a # cs \<Longrightarrow> size a < Suc (size_list size as)"
  using non_none_mem [of as a cs] by (auto intro: le_imp_less_Suc size_list_estimation' [OF _ order_refl])

fun encode_as :: "annotation \<Rightarrow> pyval \<Rightarrow> pyval" where
  "encode_as (AnnEnum c ms) v = (case v of VEnum _ m \<Rightarrow> VStr m | _ \<Rightarrow> v)"
| "encode_as (AnnTuple as) v =
     (case v of VTuple xs \<Rightarrow> VList (map (\<lambda>p. encode_as (snd p) (fst p)) (zip xs as)) | _ \<Rightarrow> v)"
| "encode_as (AnnTupleOf a) v = (case v of VTuple xs \<Rightarrow> VList (map (encode_as a) xs) | _ \<Rightarrow> v)"
| "encode_as (AnnList (a # as)) v = (case v of VList xs \<Rightarrow> VList (map (encode_as a) xs) | _ \<Rightarrow> v)"
| "encode_as (AnnUnion as) v =
     (if v = VNone then VNone
      else case non_none as of [] \<Rightarrow> v | a # bs \<Rightarrow> if bs = [] then encode_as a v else v)"
| "encode_as _ v = v"

section \<open>Annotations that survive\<close>

text \<open>Candidates that take any value as it is; annotations whose values come back unchanged.\<close>

fun atomic :: "annotation \<Rightarrow> bool" where
  "atomic (AnnEnum c ms) = False"
| "atomic (AnnTuple as) = False"
| "atomic (AnnTupleOf a) = False"
| "atomic (AnnUnion as) = False"
| "atomic (AnnList (a # as)) = False"
| "atomic _ = True"

fun inert :: "annotation \<Rightarrow> bool" where
  "inert (AnnEnum c ms) = False"
| "inert (AnnTuple as) = False"
| "inert (AnnTupleOf a) = False"
| "inert (AnnList (a # as)) = inert a"
| "inert (AnnDict as) = (length as = 2 \<longrightarrow> (\<forall>a\<in>set as. inert a))"
| "inert (AnnUnion as) =
     ((\<forall>a\<in>set as. inert a) \<and> (case non_none as of [] \<Rightarrow> True | a # bs \<Rightarrow> bs = [] \<or> atomic a))"
| "inert _ = True"

text \<open>
  What the translation gets right: enumerations and tuples anywhere but inside a dictionary or next to
  another alternative, and unions of inert alternatives whose first is atomic. \<open>fixed\<close> says whether
  tuples of a fixed length may occur.
\<close>

fun coercible :: "bool \<Rightarrow> annotation \<Rightarrow> bool" where
  "coercible fixed (AnnTuple as) = (fixed \<and> as \<noteq> [] \<and> (\<forall>a\<in>set as. coercible fixed a))"
| "coercible fixed (AnnTupleOf a) = coercible fixed a"
| "coercible fixed (AnnList (a # as)) = coercible fixed a"
| "coercible fixed (AnnDict as) = inert (AnnDict as)"
| "coercible fixed (AnnUnion as) =
     (case non_none as of [] \<Rightarrow> True
      | a # bs \<Rightarrow> if bs = [] then coercible fixed a else inert (AnnUnion as))"
| "coercible fixed _ = True"

section \<open>Facts\<close>

lemma has_type_union_of: "has_type (union_of as) v \<longleftrightarrow> (\<exists>a\<in>set as. has_type a v)"
proof -
  have flat: "(\<exists>b\<in>set (case a of AnnUnion bs \<Rightarrow> bs | _ \<Rightarrow> [a]). has_type b v) \<longleftrightarrow> has_type a v" for a
    by (cases a) auto
  have "has_type (union_of as) v \<longleftrightarrow> (\<exists>b\<in>set (union_args as). has_type b v)"
    by (simp add: union_of_def split: list.splits)
  also have "\<dots> \<longleftrightarrow> (\<exists>a\<in>set as. has_type a v)"
    using flat by (auto simp: union_args_def)
  finally show ?thesis .
qed

lemma coerce_VNone [simp]: "coerce VNone a = Inr VNone"
  by (cases "(VNone, a)" rule: coerce.cases) auto

lemma coerce_atomic: "atomic a \<Longrightarrow> coerce v a = Inr v"
  by (cases a rule: atomic.cases) auto

lemma non_none_typed:
  "has_type (AnnUnion as) v \<Longrightarrow> v \<noteq> VNone \<Longrightarrow> \<exists>a\<in>set (non_none as). has_type a v"
  by (auto simp: non_none_def)

lemma coerce_union:
  "v \<noteq> VNone \<Longrightarrow> coerce v (AnnUnion as) =
    (case first_ok (coerce v) (non_none as) of None \<Rightarrow> Inr v | Some w \<Rightarrow> Inr w)"
  by (simp add: non_none_def)

lemma traverse_Inr: "(\<And>x. x \<in> set xs \<Longrightarrow> f x = Inr (h x)) \<Longrightarrow> traverse f xs = Inr (map h xs)"
  by (induction xs) auto

lemma traverse_some:
  "(\<And>x. x \<in> set xs \<Longrightarrow> \<exists>y. f x = Inr y \<and> P y) \<Longrightarrow> \<exists>ys. traverse f xs = Inr ys \<and> (\<forall>y\<in>set ys. P y)"
proof (induction xs)
  case (Cons x xs)
  then obtain y ys where "f x = Inr y" "P y" "traverse f xs = Inr ys" "\<forall>y\<in>set ys. P y" by (meson list.set_intros)
  then show ?case by auto
qed simp

lemma inert_field_type: "inert a \<Longrightarrow> has_type (field_type a) v \<longleftrightarrow> has_type a v"
proof (induction a v rule: has_type.induct)
  case (8 as v)
  have "has_type (field_type (AnnUnion as)) v \<longleftrightarrow> (\<exists>a\<in>set (map field_type as). has_type a v)"
    by (cases as) (simp_all only: field_type.simps has_type_union_of has_type.simps list.map)
  then show ?case using 8 by auto
next
  case (10 a as v)
  then show ?case by (auto split: pyval.splits)
next
  case (11 as v)
  show ?case
  proof (cases "\<exists>a b. as = [a, b]")
    case True
    then obtain a b where ab: "as = [a, b]" by blast
    show ?thesis
    proof (cases v)
      case (VDict kvs)
      have "has_type (field_type a) (VStr (fst kv)) = has_type a (VStr (fst kv))"
        "has_type (field_type b) (snd kv) = has_type b (snd kv)" if "kv \<in> set kvs" for kv
        using 11(1) [OF VDict ab HOL.refl HOL.refl that] 11(2) [OF VDict ab HOL.refl HOL.refl that] 11(3) ab by auto
      then show ?thesis by (simp add: VDict ab)
    qed (simp_all add: ab)
  next
    case False
    then have "field_type (AnnDict as) = AnnDict as" by (cases "AnnDict as" rule: field_type.cases) auto
    then show ?thesis by simp
  qed
qed auto

lemma inert_coerce: "inert a \<Longrightarrow> has_type a v \<Longrightarrow> coerce v a = Inr v"
proof (induction a v rule: has_type.induct)
  case (8 as v)
  show ?case
  proof (cases "v = VNone")
    case False
    obtain a where a: "a \<in> set (non_none as)" "has_type a v" using non_none_typed [OF 8(3) False] by blast
    then obtain b bs where b: "non_none as = b # bs" by (cases "non_none as") auto
    have "coerce v b = Inr v"
    proof (cases "bs = []")
      case True
      then have "b = a" using a(1) b by simp
      moreover have "a \<in> set as" using a(1) by (simp add: non_none_def)
      ultimately show ?thesis using 8(1) [of a] 8(2) a(2) by simp
    next
      case False
      then show ?thesis using 8(2) b by (simp add: coerce_atomic)
    qed
    then show ?thesis by (simp add: coerce_union [OF False] b del: coerce.simps)
  qed simp
next
  case (10 a as v)
  then obtain xs where xs: "v = VList xs" "\<And>x. x \<in> set xs \<Longrightarrow> has_type a x" by (auto split: pyval.splits)
  have "traverse (\<lambda>x. coerce x a) xs = Inr (map (\<lambda>x. x) xs)"
    by (rule traverse_Inr) (use 10 xs in auto)
  then show ?case by (simp add: xs with_items_def)
qed auto

lemma field_type_union: "has_type (field_type (AnnUnion as)) v \<longleftrightarrow> (\<exists>a\<in>set as. has_type (field_type a) v)"
proof (cases as)
  case (Cons a bs)
  then have "field_type (AnnUnion as) = union_of (map field_type as)" by simp
  then show ?thesis by (simp only: has_type_union_of) auto
qed simp

lemma encode_not_None: "v \<noteq> VNone \<Longrightarrow> encode_as a v \<noteq> VNone"
  by (induction a v rule: encode_as.induct) (auto dest: non_none_mem split: pyval.splits list.splits)

lemma snd_zip: "p \<in> set (zip xs ys) \<Longrightarrow> snd p \<in> set ys"
  by (cases p) (auto dest: set_zip_rightD)

lemma traverse_zip:
  assumes "length xs = length as" and "\<And>p. p \<in> set (zip xs as) \<Longrightarrow> f (e p) (snd p) = Inr (fst p)"
  shows "traverse (\<lambda>p. f (fst p) (snd p)) (zip (map e (zip xs as)) as) = Inr xs"
  using assms
proof (induction xs as rule: list_induct2)
  case (Cons x xs a as)
  then show ?case by auto
qed simp

lemma inert_union_encode: "non_none as = a # bs \<Longrightarrow> bs \<noteq> [] \<Longrightarrow> encode_as (AnnUnion as) v = v"
  by simp

lemma none_field_type: "has_type a VNone \<Longrightarrow> has_type (field_type a) VNone"
proof (induction a "VNone" rule: has_type.induct)
  case (8 as)
  then obtain a where "a \<in> set as" "has_type a VNone" by auto
  then show ?case using 8(1) [of a] by (auto simp: field_type_union)
qed auto

lemma encode_roundtrip:
  "coercible True a \<Longrightarrow> has_type a v \<Longrightarrow>
   has_type (field_type a) (encode_as a v) \<and> coerce (encode_as a v) a = Inr v"
proof (induction a v rule: has_type.induct)
  case (4 c ms v)
  then show ?case by (auto simp: coerce_enum_def)
next
  case (6 as v)
  then obtain xs where xs: "v = VTuple xs" "length xs = length as"
    "\<And>p. p \<in> set (zip xs as) \<Longrightarrow> has_type (snd p) (fst p)" by (auto split: pyval.splits)
  let ?e = "\<lambda>p. encode_as (snd p) (fst p)"
  have each: "has_type (field_type (snd p)) (?e p) \<and> coerce (?e p) (snd p) = Inr (fst p)"
    if "p \<in> set (zip xs as)" for p
    using 6(1) [OF xs(1) that] 6(2) xs(3) [OF that] snd_zip [OF that] by simp
  have bk: "traverse (\<lambda>p. coerce (fst p) (snd p)) (zip (map ?e (zip xs as)) as) = Inr xs"
    by (rule traverse_zip) (use xs(2) each in auto)
  have "has_type (field_type (AnnTuple as)) (VList (map ?e (zip xs as)))"
  proof (cases as)
    case Nil
    then show ?thesis by simp
  next
    case (Cons a bs)
    show ?thesis
    proof (cases "bs = []")
      case True
      then have "p \<in> set (zip xs as) \<Longrightarrow> snd p = a" for p using snd_zip [of p xs as] Cons by simp
      then show ?thesis using each True Cons by (force simp: Cons)
    next
      case False
      then have "field_type (AnnTuple as) = AnnList [union_of (map field_type as)]" using Cons by simp
      moreover have "has_type (union_of (map field_type as)) (?e p)" if "p \<in> set (zip xs as)" for p
        using each [OF that] snd_zip [OF that] by (auto simp: has_type_union_of)
      ultimately show ?thesis by auto
    qed
  qed
  then show ?case using bk by (simp add: xs(1) with_items_def)
next
  case (7 a v)
  then obtain xs where xs: "v = VTuple xs" "\<And>x. x \<in> set xs \<Longrightarrow> has_type a x" by (auto split: pyval.splits)
  have each: "has_type (field_type a) (encode_as a x) \<and> coerce (encode_as a x) a = Inr x" if "x \<in> set xs" for x
    using 7(1) [OF xs(1) that] 7(2) xs(2) [OF that] by simp
  then have "traverse (\<lambda>x. coerce x a) (map (encode_as a) xs) = Inr xs" by (induction xs) auto
  then show ?case using each by (simp add: xs(1) with_items_def)
next
  case (8 as v)
  show ?case
  proof (cases "v = VNone")
    case True
    then show ?thesis using none_field_type [of "AnnUnion as"] 8(3) by simp
  next
    case False
    obtain a where a: "a \<in> set (non_none as)" "has_type a v" using non_none_typed [OF 8(3) False] by blast
    then have mem: "a \<in> set as" by (simp add: non_none_def)
    obtain b bs where b: "non_none as = b # bs" using a(1) by (cases "non_none as") auto
    show ?thesis
    proof (cases "bs = []")
      case True
      then have ab: "a = b" using a(1) b by simp
      have ih: "has_type (field_type a) (encode_as a v) \<and> coerce (encode_as a v) a = Inr v"
        using 8(1) [OF mem] 8(2) a(2) b True ab by simp
      have e: "encode_as (AnnUnion as) v = encode_as a v" using False b True ab by simp
      have "coerce (encode_as a v) (AnnUnion as) = Inr v"
        using ih b True ab by (simp add: coerce_union [OF encode_not_None [OF False]] del: coerce.simps)
      then show ?thesis using ih e mem by (auto simp: field_type_union simp del: encode_as.simps coerce.simps field_type.simps)
    next
      case False
      then have i: "inert (AnnUnion as)" using 8(2) b by simp
      then show ?thesis
        using inert_coerce [OF i 8(3)] inert_field_type [OF i, of v] 8(3) inert_union_encode [OF b False] by simp
    qed
  qed
next
  case (10 a as v)
  then obtain xs where xs: "v = VList xs" "\<And>x. x \<in> set xs \<Longrightarrow> has_type a x" by (auto split: pyval.splits)
  have each: "has_type (field_type a) (encode_as a x) \<and> coerce (encode_as a x) a = Inr x" if "x \<in> set xs" for x
    using 10(1) [OF xs(1) that] 10(2) xs(2) [OF that] by simp
  then have "traverse (\<lambda>x. coerce x a) (map (encode_as a) xs) = Inr xs" by (induction xs) auto
  then show ?case using each by (simp add: xs(1) with_items_def)
next
  case (11 as v)
  then have i: "inert (AnnDict as)" by simp
  show ?case using inert_coerce [OF i 11(4)] inert_field_type [OF i, of v] 11(4) by simp
qed auto

lemma coerce_well_typed:
  "coercible False a \<Longrightarrow> has_type (field_type a) j \<Longrightarrow> \<exists>v. coerce j a = Inr v \<and> has_type a v"
proof (induction False a arbitrary: j rule: coercible.induct)
  case (2 a)
  then obtain xs where xs: "j = VList xs" "\<And>x. x \<in> set xs \<Longrightarrow> has_type (field_type a) x" by (auto split: pyval.splits)
  obtain ys where "traverse (\<lambda>x. coerce x a) xs = Inr ys" "\<forall>y\<in>set ys. has_type a y"
    using traverse_some [of xs "\<lambda>x. coerce x a" "has_type a"] 2 xs(2) by auto
  then show ?case by (simp add: xs(1) with_items_def)
next
  case (3 a as)
  then obtain xs where xs: "j = VList xs" "\<And>x. x \<in> set xs \<Longrightarrow> has_type (field_type a) x" by (auto split: pyval.splits)
  obtain ys where "traverse (\<lambda>x. coerce x a) xs = Inr ys" "\<forall>y\<in>set ys. has_type a y"
    using traverse_some [of xs "\<lambda>x. coerce x a" "has_type a"] 3 xs(2) by auto
  then show ?case by (simp add: xs(1) with_items_def)
next
  case (4 as)
  then have i: "inert (AnnDict as)" by simp
  then show ?case using inert_field_type [OF i, of j] inert_coerce [OF i, of j] 4(2) by simp
next
  case (5 as)
  obtain a where a: "a \<in> set as" "has_type (field_type a) j" using 5(3) by (auto simp: field_type_union)
  show ?case
  proof (cases "non_none as")
    case Nil
    then have "a = AnnNone" using a(1) by (auto simp: non_none_def filter_empty_conv)
    then show ?thesis using a by (auto intro: bexI [of _ AnnNone])
  next
    case (Cons b bs)
    show ?thesis
    proof (cases "bs = []")
      case True
      have sub: "coercible False b" using 5(2) Cons True by simp
      show ?thesis
      proof (cases "a = AnnNone")
        case True
        then show ?thesis using a by (auto intro: bexI [of _ AnnNone])
      next
        case False
        then have "a \<in> set (non_none as)" using a(1) by (simp add: non_none_def)
        then have ab: "a = b" using Cons True by simp
        obtain v where v: "coerce j b = Inr v" "has_type b v"
          using 5(1) [OF Cons non_none_mem [OF Cons] True, of j] sub a(2) ab by auto
        have "coerce j (AnnUnion as) = Inr v"
        proof (cases "j = VNone")
          case True
          then show ?thesis using v(1) by simp
        next
          case False
          then show ?thesis using v(1) Cons \<open>bs = []\<close> by (simp add: coerce_union del: coerce.simps)
        qed
        then show ?thesis using v(2) a(1) ab by auto
      qed
    next
      case False
      then have i: "inert (AnnUnion as)" using 5(2) Cons by simp
      then show ?thesis using inert_field_type [OF i, of j] inert_coerce [OF i, of j] 5(3) by blast
    qed
  qed
qed (auto simp: coerce_enum_def)

section \<open>Properties\<close>

text \<open>C16: Where request parameters survive the translation, and where not. For an annotation in which
  enumerations and tuples stand only in lists, tuples and optional types, and in which a union of
  several alternatives is of plain ones whose first is not a list, a value written the way a client writes
  it is accepted by the field type the generated model has, and coercion gives the very value back. An
  enumeration inside a dictionary does not survive, its values arrive as strings; nor does a
  dictionary where a list of dictionaries or a dictionary is expected (the ACS call SPA), it arrives as
  the list of its keys.\<close>

theorem coerce_roundtrip:
  assumes "coercible True ann" and "has_type ann v"
    and "spa = AnnUnion [AnnList [AnnPrim PDict], AnnPrim PDict]" and "modes = AnnDict [AnnPrim PStr, AnnEnum c ms]"
  shows "has_type (field_type ann) (encode_as ann v) \<and> coerce (encode_as ann v) ann = Inr v \<and>
    coerce (VDict kvs) spa = Inr (VList (map (\<lambda>p. VStr (fst p)) kvs)) \<and>
    coerce (VDict (map (\<lambda>p. (fst p, VStr (snd p))) opts)) modes = Inr (VDict (map (\<lambda>p. (fst p, VStr (snd p))) opts))"
proof -
  have "traverse (\<lambda>x. coerce x (AnnPrim PDict)) (map (\<lambda>p. VStr (fst p)) kvs) = Inr (map (\<lambda>p. VStr (fst p)) kvs)"
    by (induction kvs) auto
  then show ?thesis
    using encode_roundtrip [OF assms(1,2)]
    by (simp add: assms(3,4) with_items_def union_args_def)
qed

definition demo_record :: annotation where
  "demo_record =
     AnnUnion [AnnList [AnnTuple [AnnList [AnnPrim PStr], AnnPrim PStr, AnnEnum ''Mode'' [''IN'', ''EX'']]], AnnNone]"

lemma demo_record_coercible: "coercible True demo_record"
  by (simp add: demo_record_def non_none_def)

theorem coerce_roundtrip_witness:
  "coerce (VList [VList [VList [VStr ''a''], VStr ''g'', VStr ''EX'']]) demo_record =
   Inr (VList [VTuple [VList [VStr ''a''], VStr ''g'', VEnum ''Mode'' ''EX'']])"
  using coerce_roundtrip [OF demo_record_coercible _ HOL.refl HOL.refl,
      of "VList [VTuple [VList [VStr ''a''], VStr ''g'', VEnum ''Mode'' ''EX'']]"]
  by (simp add: demo_record_def non_none_def)

text \<open>Coercion is type-safe: whatever body value the field type admits, coercion of it never raises and
  gives a value of the original annotation, for the same annotations without tuples of a fixed length.\<close>

theorem coerce_typed:
  assumes "coercible False ann" and "has_type (field_type ann) j"
  shows "\<exists>v. coerce j ann = Inr v \<and> has_type ann v"
  using coerce_well_typed [OF assms] .

theorem coerce_typed_witness:
  "\<exists>v. coerce (VList [VStr ''IN'', VStr ''EX'']) (AnnTupleOf (AnnEnum ''Mode'' [''IN'', ''EX''])) = Inr v \<and>
     has_type (AnnTupleOf (AnnEnum ''Mode'' [''IN'', ''EX''])) v"
  by (rule coerce_typed) simp_all

text \<open>What the translation gets wrong. A dictionary given where a list of dictionaries or a dictionary is
  expected (the ACS call SPA) arrives as the list of its keys; an enumeration inside a dictionary stays
  a string; and a tuple of a fixed length is cut to the shorter of the value and the annotation, so
  that a body the field type accepts gives a value the annotation excludes.\<close>

theorem coerce_misreads:
  shows "coerce (VDict kvs) (AnnUnion [AnnList [AnnPrim PDict], AnnPrim PDict]) = Inr (VList (map (\<lambda>p. VStr (fst p)) kvs)) \<and>
    has_type (field_type (AnnUnion [AnnList [AnnPrim PDict], AnnPrim PDict])) (VDict kvs) \<and>
    coerce (VDict [(k, VStr m)]) (AnnDict [AnnPrim PStr, AnnEnum c ms]) = Inr (VDict [(k, VStr m)]) \<and>
    \<not> has_type (AnnDict [AnnPrim PStr, AnnEnum c ms]) (VDict [(k, VStr m)]) \<and>
    coerce (VList [VInt i]) (AnnTuple [AnnPrim PInt, AnnPrim PInt]) = Inr (VTuple [VInt i]) \<and>
    has_type (field_type (AnnTuple [AnnPrim PInt, AnnPrim PInt])) (VList [VInt i]) \<and>
    \<not> has_type (AnnTuple [AnnPrim PInt, AnnPrim PInt]) (VTuple [VInt i])"
proof -
  have "traverse (\<lambda>x. coerce x (AnnPrim PDict)) (map (\<lambda>p. VStr (fst p)) kvs) = Inr (map (\<lambda>p. VStr (fst p)) kvs)"
    by (induction kvs) auto
  then show ?thesis
    by (simp add: with_items_def field_type_union union_of_def union_args_def)
qed

end
