(* ===== verification/Route_Gen.thy ===== *)
theory Route_Gen
  imports Annotations Agent_App
begin

text \<open>
  The generator of template routes (\<^verbatim>\<open>boardfarm3/api/routers/_generator.py\<close>), the device lookup and the
  plugin bundles it shares with the control plane (\<^verbatim>\<open>routers/__init__.py\<close>), and the handlers it makes.

  What introspection delivers is data: a class has a name and its members in the order of
  \<^verbatim>\<open>inspect.getmembers\<close>; a member is a property, a class or static method, something not callable, or a
  callable whose signature could be read or not. \<open>rp\<close> is \<^verbatim>\<open>repr\<close> of an annotation. The dash in the
  message of an unbooted session is an em dash in the source.
\<close>

section \<open>Parameter descriptions in docstrings\<close>

text \<open>
  The regular expression \<^verbatim>\<open>:param\s+(\w+):\s*(.+?)(?=\n\s*:|$)\<close>, with the dot matching newlines: the
  blanks after the colon are skipped as long as one character is left, that character belongs to the
  description whatever it is, and the description ends before a line that starts with a colon, or
  at the end of the string or before its last newline.
\<close>

definition ends_description :: "string \<Rightarrow> bool" where
  "ends_description s \<longleftrightarrow>
     s = [] \<or> s = [CHR 0x0A] \<or>
     (\<exists>t. s = CHR 0x0A # t \<and> startswith (lstrip whitespace t) '':'')"

lemma ends_description_code [code]:
  "ends_description s =
     (case s of [] \<Rightarrow> True | c # t \<Rightarrow> c = CHR 0x0A \<and> (t = [] \<or> startswith (lstrip whitespace t) '':''))"
  by (auto simp: ends_description_def split: list.splits)

fun take_description :: "string \<Rightarrow> string" where
  "take_description [] = []"
| "take_description (c # s) = c # (if ends_description s then [] else take_description s)"

definition match_param :: "string \<Rightarrow> (string \<times> string \<times> string) option" where
  "match_param s =
     (if \<not> startswith s '':param'' then None
      else let s1 = drop 6 s; s2 = lstrip whitespace s1;
               name = takeWhile is_word_char s2; s3 = dropWhile is_word_char s2
           in if length s2 = length s1 \<or> name = [] then None
              else case s3 of
                [] \<Rightarrow> None
              | c # s4 \<Rightarrow>
                 (if c \<noteq> CHR '':'' then None
                  else let s5 = lstrip whitespace s4;
                           s6 = (if s5 = [] then drop (length s4 - 1) s4 else s5);
                           desc = take_description s6
                       in if s6 = [] then None else Some (name, desc, drop (length desc) s6)))"

lemma take_description_length: "s \<noteq> [] \<Longrightarrow> 0 < length (take_description s)"
  by (cases s) auto

lemma length_lstrip: "length (lstrip cs s) \<le> length s"
  by (simp add: lstrip_def length_dropWhile_le)

lemma match_param_shorter:
  assumes "match_param s = Some (name, desc, rest)"
  shows "length rest < length s"
proof -
  from assms have "startswith s '':param''" by (auto simp: match_param_def split: if_splits)
  then have "6 \<le> length s" by (auto simp: startswith_iff)
  moreover have "length rest \<le> length (drop 6 s)"
  proof -
    obtain s3 c s4 where "s3 = dropWhile is_word_char (lstrip whitespace (drop 6 s))" "s3 = c # s4"
      and r: "length rest \<le> length s4"
    proof -
      from assms obtain c s4 where s4: "dropWhile is_word_char (lstrip whitespace (drop 6 s)) = c # s4"
        by (auto simp: match_param_def Let_def split: if_splits list.splits)
      then have "length rest \<le> length s4"
        using assms length_lstrip [of whitespace s4]
        by (auto simp: match_param_def Let_def split: if_splits)
      then show thesis using that s4 by blast
    qed
    then have "Suc (length s4) \<le> length (lstrip whitespace (drop 6 s))"
      by (metis length_Cons length_dropWhile_le)
    then show ?thesis using r length_lstrip [of whitespace "drop 6 s"] by simp
  qed
  ultimately show ?thesis by simp
qed

function find_params :: "string \<Rightarrow> (string \<times> string) list" where
  "find_params [] = []"
| "find_params (c # s) =
     (case match_param (c # s) of
        Some (name, desc, rest) \<Rightarrow> (name, desc) # find_params rest
      | None \<Rightarrow> find_params s)"
  by pat_completeness auto

termination
  by (relation "measure length") (auto dest: match_param_shorter)

definition parse_sphinx_params :: "string option \<Rightarrow> (string, string) dict" where
  "parse_sphinx_params docstring =
     (case docstring of
        None \<Rightarrow> []
      | Some d \<Rightarrow> dict_of_list (map (\<lambda>p. (fst p, join '' '' (split_ws (snd p)))) (find_params d)))"

section \<open>Signatures and request models\<close>

datatype param_kind = OrdinaryParam | VarPositional | VarKeyword

record param =
  pa_name :: string
  pa_kind :: param_kind
  pa_ann :: "annotation option"
  pa_default :: "pyval option"

record signature =
  sg_params :: "param list"
  sg_return :: "annotation option"

record model_field =
  mf_name :: string
  mf_type :: annotation
  mf_default :: "pyval option"
  mf_description :: "string option"

record request_model =
  rm_name :: string
  rm_fields :: "model_field list"

type_synonym coercion_plan = "(string, annotation) dict"

definition model_name :: "string \<Rightarrow> string" where
  "model_name method_name = concat (map capitalize (split_on (CHR ''_'') method_name)) @ ''Request''"

text \<open>The parameters \<^verbatim>\<open>_validate_sig\<close> lets through all have an annotation.\<close>

definition annotation_of :: "param \<Rightarrow> annotation" where
  "annotation_of p = (case pa_ann p of None \<Rightarrow> AnnOther ''inspect._empty'' | Some a \<Rightarrow> a)"

definition described :: "(string, string) dict \<Rightarrow> string \<Rightarrow> string option" where
  "described ds name = (case dict_get ds name of None \<Rightarrow> None | Some d \<Rightarrow> if d = [] then None else Some d)"

definition make_request_model ::
  "string \<Rightarrow> signature \<Rightarrow> string option \<Rightarrow> request_model \<times> coercion_plan" where
  "make_request_model method_name sig docstring =
     (let ds = parse_sphinx_params docstring;
          ps = filter (\<lambda>p. pa_name p \<noteq> ''self'') (sg_params sig)
      in (\<lparr>rm_name = model_name method_name,
           rm_fields = map (\<lambda>p. \<lparr>mf_name = pa_name p, mf_type = field_type (annotation_of p),
             mf_default = pa_default p, mf_description = described ds (pa_name p)\<rparr>) ps\<rparr>,
          map (\<lambda>p. (pa_name p, annotation_of p)) (filter (\<lambda>p. rebuilt (annotation_of p)) ps)))"

section \<open>Which members become routes\<close>

definition skip :: "string \<Rightarrow> string \<Rightarrow> string \<Rightarrow> skipped_method" where
  "skip template method reason = \<lparr>sk_template = template, sk_method = method, sk_reason = reason\<rparr>"

definition validate_sig ::
  "(annotation \<Rightarrow> string) \<Rightarrow> string \<Rightarrow> string \<Rightarrow> signature \<Rightarrow> skipped_method option" where
  "validate_sig rp template_name name sig =
     (let ps = sg_params sig;
          missing = map pa_name (filter (\<lambda>p. pa_name p \<noteq> ''self'' \<and> pa_ann p = None) ps);
          unroutable = map (\<lambda>p. pa_name p @ '': '' @ rp (annotation_of p))
            (filter (\<lambda>p. pa_name p \<noteq> ''self'' \<and> \<not> is_serialisable (annotation_of p)) ps)
      in if list_ex (\<lambda>p. pa_kind p \<in> {VarPositional, VarKeyword}) ps
         then Some (skip template_name name ''has *args or **kwargs'')
         else if missing \<noteq> [] then Some (skip template_name name (''missing annotation on: '' @ join '', '' missing))
         else if unroutable \<noteq> []
         then Some (skip template_name name (''non-serialisable param type: '' @ join '', '' unroutable))
         else case sg_return sig of
                None \<Rightarrow> Some (skip template_name name ''missing return annotation'')
              | Some ret \<Rightarrow>
                 (if \<not> is_serialisable ret
                  then Some (skip template_name name (''non-serialisable return type: '' @ rp ret)) else None))"

datatype raw_member = RawProperty | RawClassOrStatic | RawPlain

datatype sig_result = SigOK signature | SigUnavailable | SigNameError

record class_member =
  cm_name :: string
  cm_raw :: raw_member
  cm_callable :: bool
  cm_sig :: sig_result
  cm_doc :: "string option"

record template_class =
  tc_name :: string
  tc_members :: "class_member list"

datatype 'a outcome = Skipped skipped_method | Ignored | Accepted 'a

definition process_member ::
  "(annotation \<Rightarrow> string) \<Rightarrow> template_class \<Rightarrow> class_member \<Rightarrow> (request_model \<times> coercion_plan) outcome" where
  "process_member rp introspect m =
     (if cm_raw m = RawProperty then Skipped (skip (tc_name introspect) (cm_name m) ''property'')
      else if \<not> cm_callable m \<or> cm_raw m = RawClassOrStatic then Ignored
      else case cm_sig m of
             SigUnavailable \<Rightarrow> Ignored
           | SigNameError \<Rightarrow> Skipped (skip (tc_name introspect) (cm_name m) ''unevaluable annotation'')
           | SigOK sig \<Rightarrow>
              (case validate_sig rp (tc_name introspect) (cm_name m) sig of
                 Some s \<Rightarrow> Skipped s
               | None \<Rightarrow> Accepted (make_request_model (cm_name m) sig (cm_doc m))))"

section \<open>Routers\<close>

record template_mount =
  tm_mount :: string
  tm_resolve_as :: template_class
  tm_introspect :: template_class
  tm_accessor :: "string option"

record handler =
  ha_name :: string
  ha_doc :: string
  ha_resolve_as :: string
  ha_method :: string
  ha_accessor :: "string option"
  ha_model :: request_model
  ha_plan :: coercion_plan

record router =
  ro_prefix :: string
  ro_tags :: "string list"
  ro_routes :: "(string \<times> handler) list"

datatype mount_item = BareTemplate template_class | Mount template_mount

definition normalise_mount :: "mount_item \<Rightarrow> template_mount" where
  "normalise_mount item =
     (case item of
        Mount m \<Rightarrow> m
      | BareTemplate c \<Rightarrow>
          \<lparr>tm_mount = lower (tc_name c), tm_resolve_as = c, tm_introspect = c, tm_accessor = None\<rparr>)"

definition make_handler ::
  "template_mount \<Rightarrow> string \<Rightarrow> request_model \<Rightarrow> coercion_plan \<Rightarrow> handler" where
  "make_handler spec method_name model plan =
     \<lparr>ha_name = lower (tc_name (tm_introspect spec)) @ ''_'' @ method_name,
      ha_doc = capitalize (map (\<lambda>c. if c = CHR ''_'' then CHR '' '' else c) method_name) @ '' on '' @
        tc_name (tm_introspect spec) @ '' device at *index*.'',
      ha_resolve_as = tc_name (tm_resolve_as spec), ha_method = method_name, ha_accessor = tm_accessor spec,
      ha_model = model, ha_plan = plan\<rparr>"

record mount_build =
  mb_mount :: string
  mb_router :: router
  mb_seen :: "string set"
  mb_skipped :: "skipped_method list"

definition register_member ::
  "(annotation \<Rightarrow> string) \<Rightarrow> template_mount \<Rightarrow> class_member \<Rightarrow> mount_build \<Rightarrow> mount_build" where
  "register_member rp spec m b =
     (let c = tm_introspect spec; name = cm_name m
      in if startswith name ''__'' then b
         else if startswith name ''_'' then b\<lparr>mb_skipped := mb_skipped b @ [skip (tc_name c) name ''private'']\<rparr>
         else if name \<in> mb_seen b
         then b\<lparr>mb_skipped := mb_skipped b @ [skip (tc_name c) name (''duplicate in mount '' @ [CHR 0x27] @ mb_mount b @ [CHR 0x27])]\<rparr>
         else case process_member rp c m of
                Ignored \<Rightarrow> b
              | Skipped s \<Rightarrow> b\<lparr>mb_skipped := mb_skipped b @ [s]\<rparr>
              | Accepted (model, plan) \<Rightarrow>
                 (let h = make_handler spec name model plan
                  in b\<lparr>mb_seen := insert name (mb_seen b),
                       mb_router := (mb_router b)\<lparr>ro_routes := ro_routes (mb_router b) @
                         [(''/'' @ name, h), (''/{index}/'' @ name, h)]\<rparr>\<rparr>))"

definition register_spec ::
  "(annotation \<Rightarrow> string) \<Rightarrow> template_mount \<Rightarrow> mount_build \<Rightarrow> mount_build" where
  "register_spec rp spec b = fold (register_member rp spec) (tc_members (tm_introspect spec)) b"

definition group_mounts :: "template_mount list \<Rightarrow> (string, template_mount list) dict" where
  "group_mounts mounts =
     fold (\<lambda>spec d. dict_set (tm_mount spec)
       ((case dict_get d (tm_mount spec) of None \<Rightarrow> [] | Some ss \<Rightarrow> ss) @ [spec]) d) mounts []"

definition build_mount ::
  "(annotation \<Rightarrow> string) \<Rightarrow> string \<times> template_mount list \<Rightarrow> skipped_method list \<Rightarrow> mount_build" where
  "build_mount rp g skipped =
     fold (register_spec rp) (snd g)
       \<lparr>mb_mount = fst g,
        mb_router = \<lparr>ro_prefix = ''/templates/'' @ fst g, ro_tags = [''templates:'' @ fst g], ro_routes = []\<rparr>,
        mb_seen = {}, mb_skipped = skipped\<rparr>"

definition generate_template_routers ::
  "(annotation \<Rightarrow> string) \<Rightarrow> mount_item list \<Rightarrow> router list \<times> skipped_method list" where
  "generate_template_routers rp templates =
     fold (\<lambda>g (routers, skipped).
         (let b = build_mount rp g skipped in (routers @ [mb_router b], mb_skipped b)))
       (group_mounts (map normalise_mount templates)) ([], [])"

section \<open>Calling a route\<close>

text \<open>
  A device is found by its template and its position in registration order; \<open>found\<close> is the device
  manager's \<^verbatim>\<open>get_devices_by_type\<close>.
\<close>

definition resolve_device ::
  "('d \<Rightarrow> string \<Rightarrow> 'v list) \<Rightarrow> 'd option \<Rightarrow> string \<Rightarrow> int \<Rightarrow> agent_fault + 'v" where
  "resolve_device found manager template index =
     (case manager of
        None \<Rightarrow> Inl (AgentHTTP 409 (JStr ''session is not booted - device_manager unavailable''))
      | Some d \<Rightarrow>
         (let devices = found d template
          in if index < 0 \<or> index \<ge> int (length devices)
             then Inl (AgentHTTP 404 (JStr (''no '' @ template @ '' device at index '' @ int_str index)))
             else Inr (devices ! nat index)))"

definition coerce_error_raised :: "coerce_error \<Rightarrow> raised" where
  "coerce_error_raised e =
     (case e of KeyErr \<Rightarrow> py_error PyException ''KeyError'' [] | TypeErr \<Rightarrow> py_error PyTypeError ''TypeError'' [])"

text \<open>\<^verbatim>\<open>for p_name, orig_ann in coercions: if p_name in data: data[p_name] = _coerce(...)\<close>.\<close>

fun coerce_args :: "coercion_plan \<Rightarrow> (string, pyval) dict \<Rightarrow> coerce_error + (string, pyval) dict" where
  "coerce_args [] data = Inr data"
| "coerce_args ((p, ann) # plan) data =
     (case dict_get data p of
        None \<Rightarrow> coerce_args plan data
      | Some v \<Rightarrow>
         (case coerce v ann of Inl e \<Rightarrow> Inl e | Inr w \<Rightarrow> coerce_args plan (dict_set p w data)))"

text \<open>The callable the worker runs: \<open>invoke\<close> is the call of the device's method.\<close>

definition template_run ::
  "('v \<Rightarrow> string \<Rightarrow> (string, pyval) dict \<Rightarrow> raised + json) \<Rightarrow> 'v \<Rightarrow> handler \<Rightarrow> (string, pyval) dict \<Rightarrow> raised + json" where
  "template_run invoke target h data =
     (case coerce_args (ha_plan h) data of
        Inl e \<Rightarrow> Inl (coerce_error_raised e)
      | Inr args \<Rightarrow> invoke target (ha_method h) args)"

definition async_response :: "job \<Rightarrow> agent_answer" where
  "async_response j =
     AgentJson 202 (JObj [(''job_id'', JStr (jb_id j)), (''state'', JStr (job_state_value (jb_state j)))])"

text \<open>Submitting work on an idle worker and, in the synchronous mode, waiting for it.\<close>

definition run_job :: "time \<Rightarrow> raised + json \<Rightarrow> job_queue \<Rightarrow> job_queue" where
  "run_job now outcome q =
     (case outcome of
        Inr v \<Rightarrow> finish_job v now (pick_job now q)
      | Inl e \<Rightarrow> record_failure now (fail_job e (pick_job now q)))"

definition submit_answer ::
  "string \<Rightarrow> time \<Rightarrow> bool \<Rightarrow> raised + json \<Rightarrow> ('c, 'd) agent
   \<Rightarrow> (agent_fault + agent_answer) \<times> ('c, 'd) agent" where
  "submit_answer jid now async outcome a =
     (let s = ag_session a
      in case submit_job jid now (ss_queue s) of
           (Inl e, q) \<Rightarrow> (Inl (AgentRaised e), a\<lparr>ag_session := s\<lparr>ss_queue := q\<rparr>\<rparr>)
         | (Inr k, q) \<Rightarrow>
            (if async then (Inr (async_response (job_at k q)), a\<lparr>ag_session := s\<lparr>ss_queue := q\<rparr>\<rparr>)
             else let q' = run_job now outcome q
                  in (case outcome of Inl e \<Rightarrow> Inl (AgentRaised e)
                      | Inr _ \<Rightarrow> Inr (AgentJson 200 (JObj [(''result'', jb_result (job_at k q'))])),
                      a\<lparr>ag_session := s\<lparr>ss_queue := q'\<rparr>\<rparr>)))"

definition template_handler ::
  "('d \<Rightarrow> string \<Rightarrow> 'v list) \<Rightarrow> ('v \<Rightarrow> string \<Rightarrow> raised + 'v)
   \<Rightarrow> ('v \<Rightarrow> string \<Rightarrow> (string, pyval) dict \<Rightarrow> raised + json) \<Rightarrow> handler \<Rightarrow> string \<Rightarrow> time \<Rightarrow> int \<Rightarrow> bool
   \<Rightarrow> (string, pyval) dict \<Rightarrow> ('c, 'd) agent \<Rightarrow> (agent_fault + agent_answer) \<times> ('c, 'd) agent" where
  "template_handler found getattr invoke h jid now index async data a =
     (case resolve_device found (rt_manager (ss_runtime (ag_session a))) (ha_resolve_as h) index of
        Inl f \<Rightarrow> (Inl f, a)
      | Inr device \<Rightarrow>
         (case (case ha_accessor h of None \<Rightarrow> Inr device | Some acc \<Rightarrow> getattr device acc) of
            Inl e \<Rightarrow> (Inl (AgentRaised e), a)
          | Inr target \<Rightarrow> submit_answer jid now async (template_run invoke target h data) a))"

section \<open>Plugin bundles\<close>

record router_bundle =
  bu_namespace :: string
  bu_routers :: "router list"
  bu_skipped :: "skipped_method list"

text \<open>What each plugin's hook gives: the lists its implementations return, or the exception.\<close>

type_synonym plugin = "string \<times> (raised + router_bundle list list)"

definition iter_plugin_bundles :: "plugin list \<Rightarrow> router_bundle list" where
  "iter_plugin_bundles plugins =
     concat (map (\<lambda>p. case snd p of Inl e \<Rightarrow> [] | Inr bundle_lists \<Rightarrow> concat bundle_lists) plugins)"

definition make_wrapper :: "router_bundle \<Rightarrow> router" where
  "make_wrapper b =
     \<lparr>ro_prefix = ''/'' @ bu_namespace b, ro_tags = [],
      ro_routes = concat (map (\<lambda>r. map (\<lambda>p. (ro_prefix r @ fst p, snd p)) (ro_routes r)) (bu_routers b))\<rparr>"

text \<open>\<open>loaded\<close> is None when the entry points could not be loaded.\<close>

definition load_plugin_routers :: "plugin list option \<Rightarrow> router list \<times> skipped_method list" where
  "load_plugin_routers loaded =
     (case loaded of
        None \<Rightarrow> ([], [])
      | Some plugins \<Rightarrow>
         (let bs = iter_plugin_bundles plugins in (map make_wrapper bs, concat (map bu_skipped bs))))"

section \<open>Facts\<close>

text \<open>The reference: what the members of a mount's specs offer, the first offer of a name kept.\<close>

definition offers ::
  "(annotation \<Rightarrow> string) \<Rightarrow> template_mount \<times> class_member \<Rightarrow> (string \<times> handler) list" where
  "offers rp sm =
     (if startswith (cm_name (snd sm)) ''_'' then []
      else case process_member rp (tm_introspect (fst sm)) (snd sm) of
             Accepted (model, plan) \<Rightarrow> [(cm_name (snd sm), make_handler (fst sm) (cm_name (snd sm)) model plan)]
           | _ \<Rightarrow> [])"

fun first_by :: "'k set \<Rightarrow> ('k \<times> 'v) list \<Rightarrow> ('k \<times> 'v) list" where
  "first_by seen [] = []"
| "first_by seen (p # ps) =
     (if fst p \<in> seen then first_by seen ps else p # first_by (insert (fst p) seen) ps)"

definition spec_members :: "template_mount list \<Rightarrow> (template_mount \<times> class_member) list" where
  "spec_members specs = concat (map (\<lambda>s. map (Pair s) (tc_members (tm_introspect s))) specs)"

definition both_paths :: "string \<times> handler \<Rightarrow> (string \<times> handler) list" where
  "both_paths p = [(''/'' @ fst p, snd p), (''/{index}/'' @ fst p, snd p)]"

lemma first_by_sub: "p \<in> set (first_by seen ps) \<Longrightarrow> p \<in> set ps \<and> fst p \<notin> seen"
proof (induction seen ps rule: first_by.induct)
  case (2 seen q ps)
  then show ?case by (cases "fst q \<in> seen") auto
qed simp

lemma first_by_distinct: "distinct (map fst (first_by seen ps))"
proof (induction seen ps rule: first_by.induct)
  case (2 seen q ps)
  have "fst q \<notin> fst ` set (first_by (insert (fst q) seen) ps)"
    using first_by_sub [of _ "insert (fst q) seen" ps] by fastforce
  then show ?case using 2 by (cases "fst q \<in> seen") auto
qed simp

lemma first_by_keys: "fst ` set (first_by seen ps) = fst ` set ps - seen"
proof (induction seen ps rule: first_by.induct)
  case (2 seen q ps)
  then show ?case by (cases "fst q \<in> seen") auto
qed simp

lemma dunder: "startswith name ''__'' \<Longrightarrow> startswith name ''_''"
  by (auto simp: startswith_iff)

lemma register_member_offers:
  "mb_seen (register_member rp spec m b) = mb_seen b \<union> fst ` set (first_by (mb_seen b) (offers rp (spec, m)))"
  "ro_routes (mb_router (register_member rp spec m b)) =
     ro_routes (mb_router b) @ concat (map both_paths (first_by (mb_seen b) (offers rp (spec, m))))"
proof -
  have "mb_seen (register_member rp spec m b) = mb_seen b \<union> fst ` set (first_by (mb_seen b) (offers rp (spec, m))) \<and>
    ro_routes (mb_router (register_member rp spec m b)) =
      ro_routes (mb_router b) @ concat (map both_paths (first_by (mb_seen b) (offers rp (spec, m))))"
  proof (cases "startswith (cm_name m) ''_''")
    case True
    then show ?thesis by (simp add: register_member_def offers_def Let_def)
  next
    case False
    then have d: "\<not> startswith (cm_name m) ''__''" using dunder [of "cm_name m"] by blast
    show ?thesis
    proof (cases "process_member rp (tm_introspect spec) m")
      case (Accepted mp)
      then show ?thesis
        using False d by (cases mp) (simp add: register_member_def offers_def both_paths_def Let_def)
    qed (simp_all add: False d register_member_def offers_def Let_def)
  qed
  then show
    "mb_seen (register_member rp spec m b) = mb_seen b \<union> fst ` set (first_by (mb_seen b) (offers rp (spec, m)))"
    "ro_routes (mb_router (register_member rp spec m b)) =
      ro_routes (mb_router b) @ concat (map both_paths (first_by (mb_seen b) (offers rp (spec, m))))"
    by simp_all
qed

lemma first_by_append:
  "first_by seen (ps @ qs) = first_by seen ps @ first_by (seen \<union> fst ` set ps) qs"
proof (induction seen ps rule: first_by.induct)
  case (2 seen p ps)
  then show ?case by (cases "fst p \<in> seen") (simp_all add: insert_absorb)
qed simp

lemma first_by_seen: "seen \<union> fst ` set (first_by seen ps) = seen \<union> fst ` set ps"
  by (auto simp: first_by_keys)

lemma register_members:
  "mb_seen (fold (\<lambda>sm. register_member rp (fst sm) (snd sm)) sms b) =
     mb_seen b \<union> fst ` set (concat (map (offers rp) sms)) \<and>
   ro_routes (mb_router (fold (\<lambda>sm. register_member rp (fst sm) (snd sm)) sms b)) =
     ro_routes (mb_router b) @ concat (map both_paths (first_by (mb_seen b) (concat (map (offers rp) sms))))"
proof (induction sms arbitrary: b)
  case (Cons sm sms)
  let ?b = "register_member rp (fst sm) (snd sm) b"
  have s: "mb_seen ?b = mb_seen b \<union> fst ` set (offers rp sm)"
    using register_member_offers(1) [of rp "fst sm" "snd sm" b] first_by_seen by simp
  show ?case
    using Cons.IH [of ?b] s register_member_offers(2) [of rp "fst sm" "snd sm" b]
    by (simp add: first_by_append image_Un Un_assoc)
qed simp

lemma register_specs:
  "fold (register_spec rp) specs b = fold (\<lambda>sm. register_member rp (fst sm) (snd sm)) (spec_members specs) b"
  by (induction specs arbitrary: b) (simp_all add: register_spec_def spec_members_def fold_map comp_def)

lemma accepted_serialisable:
  assumes "process_member rp c m = Accepted (model, plan)" and "f \<in> set (rm_fields model)"
  shows "\<exists>a. is_serialisable a \<and> mf_type f = field_type a"
proof -
  obtain sig where v: "validate_sig rp (tc_name c) (cm_name m) sig = None"
    and mk: "make_request_model (cm_name m) sig (cm_doc m) = (model, plan)"
    using assms(1) by (auto simp: process_member_def split: if_splits sig_result.splits option.splits)
  have "filter (\<lambda>p. pa_name p \<noteq> ''self'' \<and> \<not> is_serialisable (annotation_of p)) (sg_params sig) = []"
    using v by (auto simp: validate_sig_def Let_def split: if_splits)
  moreover obtain p where "p \<in> set (sg_params sig)" "pa_name p \<noteq> ''self''" "mf_type f = field_type (annotation_of p)"
    using mk assms(2) by (auto simp: make_request_model_def Let_def)
  ultimately show ?thesis by (auto simp: filter_empty_conv)
qed

lemma not_rebuilt: "\<not> rebuilt a \<Longrightarrow> field_type a = a"
  by (cases a rule: field_type.cases) auto

lemma coerce_args_typed:
  assumes "distinct (dict_keys plan)"
    and "\<And>p ann. (p, ann) \<in> set plan \<Longrightarrow>
      \<exists>v. dict_get data p = Some v \<and> coercible False ann \<and> has_type (field_type ann) v"
  shows "\<exists>args. coerce_args plan data = Inr args \<and>
    (\<forall>(p, ann)\<in>set plan. \<exists>w. dict_get args p = Some w \<and> has_type ann w) \<and>
    (\<forall>k. k \<notin> set (dict_keys plan) \<longrightarrow> dict_get args k = dict_get data k)"
  using assms
proof (induction plan data rule: coerce_args.induct)
  case (2 p ann plan data)
  obtain v where v: "dict_get data p = Some v" "coercible False ann" "has_type (field_type ann) v"
    using 2(4) by force
  obtain w where w: "coerce v ann = Inr w" "has_type ann w" using coerce_well_typed [OF v(2,3)] by blast
  have "\<exists>v. dict_get (dict_set p w data) p' = Some v \<and> coercible False ann' \<and> has_type (field_type ann') v"
    if m: "(p', ann') \<in> set plan" for p' ann'
  proof -
    have "p' \<noteq> p" using m 2(3) by force
    then show ?thesis using 2(4) [of p' ann'] m by simp
  qed
  with 2(2) [OF v(1) w(1)] 2(3) obtain args where a: "coerce_args plan (dict_set p w data) = Inr args"
      "\<forall>(p, ann)\<in>set plan. \<exists>w. dict_get args p = Some w \<and> has_type ann w"
      "\<forall>k. k \<notin> set (dict_keys plan) \<longrightarrow> dict_get args k = dict_get (dict_set p w data) k" by auto
  have "dict_get args p = Some w" using a(3) 2(3) by simp
  then show ?case using v(1) w a by auto
qed simp

section \<open>Properties\<close>

text \<open>C17: The generated router is exactly what the mount's classes offer: for every public member with a
  routable signature, in the order of the specs and of their members, one route under its name and one
  under an index, the first spec winning where several offer the same name; no name is registered twice,
  and every field of every request model stands for a type that can be written as JSON.\<close>

theorem template_routes_exact:
  shows "\<exists>hs. hs = first_by {} (concat (map (offers rp) (spec_members specs))) \<and>
    ro_routes (mb_router (build_mount rp (mount, specs) skipped)) = concat (map both_paths hs) \<and>
    distinct (map fst hs) \<and>
    (\<forall>p\<in>set hs. \<not> startswith (fst p) ''_'' \<and>
       (\<forall>f\<in>set (rm_fields (ha_model (snd p))). \<exists>a. is_serialisable a \<and> mf_type f = field_type a))"
proof -
  let ?os = "concat (map (offers rp) (spec_members specs))" let ?hs = "first_by {} ?os"
  have routes: "ro_routes (mb_router (build_mount rp (mount, specs) skipped)) = concat (map both_paths ?hs)"
    by (simp add: build_mount_def register_specs register_members)
  have "\<not> startswith (fst p) ''_'' \<and>
      (\<forall>f\<in>set (rm_fields (ha_model (snd p))). \<exists>a. is_serialisable a \<and> mf_type f = field_type a)"
    if "p \<in> set ?hs" for p
  proof -
    have "p \<in> set ?os" using first_by_sub that by blast
    then obtain sm where sm: "p \<in> set (offers rp sm)" by auto
    then have n: "\<not> startswith (cm_name (snd sm)) ''_''" by (auto simp: offers_def split: if_splits)
    with sm obtain model plan where a: "process_member rp (tm_introspect (fst sm)) (snd sm) = Accepted (model, plan)"
      and "p = (cm_name (snd sm), make_handler (fst sm) (cm_name (snd sm)) model plan)"
      by (cases "process_member rp (tm_introspect (fst sm)) (snd sm)") (auto simp: offers_def)
    then show ?thesis using n accepted_serialisable [OF a] by (simp add: make_handler_def)
  qed
  then show ?thesis using routes first_by_distinct [of "{}" ?os] by blast
qed

definition demo_method :: "string \<Rightarrow> class_member" where
  "demo_method name =
     \<lparr>cm_name = name, cm_raw = RawPlain, cm_callable = True,
      cm_sig = SigOK \<lparr>sg_params = [\<lparr>pa_name = ''self'', pa_kind = OrdinaryParam, pa_ann = None, pa_default = None\<rparr>,
          \<lparr>pa_name = ''hosts'', pa_kind = OrdinaryParam,
           pa_ann = Some (AnnTupleOf (AnnPrim PStr)), pa_default = None\<rparr>],
        sg_return = Some AnnNone\<rparr>,
      cm_doc = Some '':param hosts: the hosts''\<rparr>"

definition demo_class :: template_class where
  "demo_class = \<lparr>tc_name = ''LAN'', tc_members = [demo_method ''_x'', demo_method ''ping'']\<rparr>"

definition demo_mount :: template_mount where
  "demo_mount = normalise_mount (BareTemplate demo_class)"

theorem template_routes_exact_witness:
  "\<exists>h. ro_routes (mb_router (build_mount (\<lambda>_. []) (''lan'', [demo_mount, demo_mount]) [])) =
     [(''/ping'', h), (''/{index}/ping'', h)] \<and>
   (\<forall>f\<in>set (rm_fields (ha_model h)). \<exists>a. is_serialisable a \<and> mf_type f = field_type a)"
proof -
  have h: "\<exists>h. first_by {} (concat (map (offers (\<lambda>_. [])) (spec_members [demo_mount, demo_mount]))) = [(''ping'', h)]"
    by (simp add: spec_members_def demo_mount_def normalise_mount_def demo_class_def demo_method_def offers_def
        process_member_def validate_sig_def annotation_of_def startswith_def make_request_model_def Let_def)
  then show ?thesis
    using template_routes_exact [where rp = "\<lambda>_. []" and specs = "[demo_mount, demo_mount]" and mount = "''lan''" and skipped = "[]"]
    by (auto simp: both_paths_def)
qed

text \<open>The arguments of a call: every declared parameter is bound to a value of its annotation.\<close>

lemma make_request_model_fields:
  assumes "make_request_model name sig doc = (model, plan)"
  shows "plan = map (\<lambda>p. (pa_name p, annotation_of p))
           (filter (\<lambda>p. rebuilt (annotation_of p)) (filter (\<lambda>p. pa_name p \<noteq> ''self'') (sg_params sig)))"
    and "rm_fields model = map (\<lambda>p. \<lparr>mf_name = pa_name p, mf_type = field_type (annotation_of p),
           mf_default = pa_default p, mf_description = described (parse_sphinx_params doc) (pa_name p)\<rparr>)
           (filter (\<lambda>p. pa_name p \<noteq> ''self'') (sg_params sig))"
  using assms by (auto simp: make_request_model_def Let_def)

lemma rebuilt_in_plan:
  assumes "distinct (map pa_name ps)" and "p \<in> set ps" and "\<not> rebuilt (annotation_of p)"
  shows "pa_name p \<notin> pa_name ` set (filter (\<lambda>p. rebuilt (annotation_of p)) (filter (\<lambda>p. pa_name p \<noteq> ''self'') ps))"
proof
  assume "pa_name p \<in> pa_name ` set (filter (\<lambda>p. rebuilt (annotation_of p)) (filter (\<lambda>p. pa_name p \<noteq> ''self'') ps))"
  then obtain q where "q \<in> set ps" "rebuilt (annotation_of q)" "pa_name q = pa_name p" by auto
  moreover from this have "q = p" using assms(1,2) by (auto simp: distinct_map inj_on_def)
  ultimately show False using assms(3) by simp
qed

text \<open>A template call reaches the device with arguments of the declared types. When the body satisfies the
  generated model and no parameter is a fixed-length tuple or a union the translation cannot tell apart,
  the worker calls the method with every parameter present and of its annotation's type, and coercion
  never raises.\<close>

theorem template_call_typed:
  assumes "make_request_model name sig doc = (model, plan)" and "ha_plan h = plan"
    and "distinct (map pa_name (sg_params sig))"
    and "\<And>p. p \<in> set (sg_params sig) \<Longrightarrow> coercible False (annotation_of p)"
    and "\<And>f. f \<in> set (rm_fields model) \<Longrightarrow> \<exists>v. dict_get data (mf_name f) = Some v \<and> has_type (mf_type f) v"
  shows "\<exists>args. template_run invoke target h data = invoke target (ha_method h) args \<and>
    (\<forall>p\<in>set (sg_params sig). pa_name p \<noteq> ''self'' \<longrightarrow>
       (\<exists>v. dict_get args (pa_name p) = Some v \<and> has_type (annotation_of p) v))"
proof -
  let ?ps = "filter (\<lambda>p. pa_name p \<noteq> ''self'') (sg_params sig)"
  note plan = make_request_model_fields(1) [OF assms(1)] and fields = make_request_model_fields(2) [OF assms(1)]
  have typed: "\<exists>v. dict_get data (pa_name p) = Some v \<and> has_type (field_type (annotation_of p)) v"
    if "p \<in> set ?ps" for p
    using assms(5) that unfolding fields by force
  have d: "distinct (dict_keys plan)"
    using assms(3) by (simp add: plan comp_def distinct_map_filter)
  obtain args where args: "coerce_args plan data = Inr args"
      "\<forall>(p, ann)\<in>set plan. \<exists>w. dict_get args p = Some w \<and> has_type ann w"
      "\<forall>k. k \<notin> set (dict_keys plan) \<longrightarrow> dict_get args k = dict_get data k"
  proof -
    have "\<exists>v. dict_get data p = Some v \<and> coercible False ann \<and> has_type (field_type ann) v"
      if "(p, ann) \<in> set plan" for p ann
      using that typed assms(4) unfolding plan by fastforce
    from coerce_args_typed [OF d this] show thesis using that by blast
  qed
  have "\<exists>v. dict_get args (pa_name p) = Some v \<and> has_type (annotation_of p) v"
    if p: "p \<in> set (sg_params sig)" "pa_name p \<noteq> ''self''" for p
  proof (cases "rebuilt (annotation_of p)")
    case True
    then have "(pa_name p, annotation_of p) \<in> set plan" using p by (auto simp: plan)
    then show ?thesis using args(2) by auto
  next
    case False
    have "pa_name p \<notin> set (dict_keys plan)"
      using rebuilt_in_plan [OF assms(3) p(1) False] by (auto simp: plan)
    then show ?thesis using args(3) typed [of p] p not_rebuilt [OF False] by auto
  qed
  then show ?thesis using args(1) assms(2) by (auto simp: template_run_def)
qed

definition demo_sig :: signature where
  "demo_sig = (case cm_sig (demo_method ''ping'') of SigOK s \<Rightarrow> s | _ \<Rightarrow> \<lparr>sg_params = [], sg_return = None\<rparr>)"

definition demo_handler :: handler where
  "demo_handler =
     make_handler demo_mount ''ping'' (fst (make_request_model ''ping'' demo_sig None)) (snd (make_request_model ''ping'' demo_sig None))"

theorem template_call_typed_witness:
  "\<exists>args. template_run (\<lambda>_ _ args. Inr (JInt (int (length args)))) () demo_handler [(''hosts'', VList [VStr ''a''])] =
     Inr (JInt (int (length (args :: (string, pyval) dict))))"
proof -
  have "\<exists>args. template_run (\<lambda>_ _ args. Inr (JInt (int (length args)))) () demo_handler [(''hosts'', VList [VStr ''a''])] =
      (\<lambda>_ _ args. Inr (JInt (int (length args)))) () (ha_method demo_handler) args \<and>
    (\<forall>p\<in>set (sg_params demo_sig). pa_name p \<noteq> ''self'' \<longrightarrow>
       (\<exists>v. dict_get args (pa_name p) = Some v \<and> has_type (annotation_of p) v))"
    by (rule template_call_typed [where name = "''ping''" and doc = None])
      (auto simp: demo_handler_def make_handler_def demo_sig_def demo_method_def annotation_of_def
        make_request_model_def Let_def)
  then show ?thesis by blast
qed

end
