(* ===== verification/Usecase_Gen.thy ===== *)
theory Usecase_Gen
  imports Route_Gen
begin

text \<open>
  The generator of use-case routes (\<^verbatim>\<open>boardfarm3/api/routers/_usecase_generator.py\<close>): parameters that are
  templates become device names, which the handler resolves in the registry; the others come from the
  body. A class is known by its module and name (\<open>AnnClass\<close>); a device by \<open>is_a\<close>, the classes it
  is an instance of.
\<close>

section \<open>Parameters\<close>

definition is_template :: "annotation \<Rightarrow> bool" where
  "is_template ann =
     (case ann of
        AnnClass m c \<Rightarrow> m = ''boardfarm3.templates'' \<or> startswith m ''boardfarm3.templates.''
      | _ \<Rightarrow> False)"

definition non_none_args :: "annotation \<Rightarrow> annotation list" where
  "non_none_args ann = (case ann of AnnUnion as \<Rightarrow> non_none as | _ \<Rightarrow> [])"

definition template_types :: "annotation \<Rightarrow> annotation list" where
  "template_types ann = (if is_template ann then [ann] else filter is_template (non_none_args ann))"

datatype param_class = DeviceParam | PrimitiveParam | UnroutableParam

definition is_literal :: "annotation \<Rightarrow> bool" where
  "is_literal ann = (case ann of AnnLiteral ms \<Rightarrow> True | _ \<Rightarrow> False)"

definition classify_param :: "annotation \<Rightarrow> param_class" where
  "classify_param ann =
     (let args = non_none_args ann
      in if is_template ann then DeviceParam
         else if args \<noteq> [] \<and> list_all is_template args then DeviceParam
         else if is_literal ann then PrimitiveParam
         else if is_serialisable ann then PrimitiveParam
         else UnroutableParam)"

record param_plan =
  pp_name :: string
  pp_is_device :: bool
  pp_templates :: "annotation list"

fun plan_params :: "string \<Rightarrow> string \<Rightarrow> param list \<Rightarrow> skipped_method + param_plan list" where
  "plan_params module_name fn_name [] = Inr []"
| "plan_params module_name fn_name (p # ps) =
     (if pa_kind p \<in> {VarPositional, VarKeyword} then Inl (skip module_name fn_name ''has *args or **kwargs'')
      else case pa_ann p of
        None \<Rightarrow> Inl (skip module_name fn_name (''missing annotation on: '' @ pa_name p))
      | Some ann \<Rightarrow>
         (if classify_param ann = UnroutableParam
          then Inl (skip module_name fn_name (''unroutable parameter: '' @ pa_name p))
          else case plan_params module_name fn_name ps of
                 Inl s \<Rightarrow> Inl s
               | Inr plans \<Rightarrow>
                   Inr (\<lparr>pp_name = pa_name p, pp_is_device = (classify_param ann = DeviceParam),
                         pp_templates = template_types ann\<rparr> # plans)))"

definition check_return_type ::
  "(annotation \<Rightarrow> string) \<Rightarrow> string \<Rightarrow> string \<Rightarrow> annotation option \<Rightarrow> skipped_method option" where
  "check_return_type rp module_name fn_name ret =
     (case ret of
        None \<Rightarrow> Some (skip module_name fn_name ''missing return annotation'')
      | Some r \<Rightarrow>
         (if r = AnnAny \<or> \<not> is_serialisable r
          then Some (skip module_name fn_name (''non-serialisable return type: '' @ rp r)) else None))"

definition field_of :: "(string, string) dict \<Rightarrow> param \<Rightarrow> model_field" where
  "field_of ds p =
     (if classify_param (annotation_of p) = DeviceParam
      then \<lparr>mf_name = pa_name p, mf_type = AnnPrim PStr, mf_default = pa_default p, mf_description = None\<rparr>
      else \<lparr>mf_name = pa_name p, mf_type = field_type (annotation_of p), mf_default = pa_default p,
            mf_description = described ds (pa_name p)\<rparr>)"

definition build_request_model ::
  "string \<Rightarrow> signature \<Rightarrow> string option \<Rightarrow> request_model \<times> coercion_plan" where
  "build_request_model fn_name sig docstring =
     (\<lparr>rm_name = model_name fn_name, rm_fields = map (field_of (parse_sphinx_params docstring)) (sg_params sig)\<rparr>,
      map (\<lambda>p. (pa_name p, annotation_of p))
        (filter (\<lambda>p. classify_param (annotation_of p) \<noteq> DeviceParam \<and> rebuilt (annotation_of p)) (sg_params sig)))"

section \<open>Functions\<close>

record usecase_fn =
  uf_name :: string
  uf_module :: string
  uf_sig :: sig_result
  uf_doc :: "string option"

definition signature_or_skip :: "string \<Rightarrow> usecase_fn \<Rightarrow> skipped_method + signature" where
  "signature_or_skip module_name f =
     (case uf_sig f of
        SigOK sig \<Rightarrow> Inr sig
      | SigUnavailable \<Rightarrow> Inl (skip module_name (uf_name f) ''unintrospectable signature'')
      | SigNameError \<Rightarrow> Inl (skip module_name (uf_name f) ''unevaluable annotation''))"

definition plan_function ::
  "(annotation \<Rightarrow> string) \<Rightarrow> string \<Rightarrow> usecase_fn
   \<Rightarrow> skipped_method + (request_model \<times> param_plan list \<times> coercion_plan)" where
  "plan_function rp module_name f =
     (case signature_or_skip module_name f of
        Inl s \<Rightarrow> Inl s
      | Inr sig \<Rightarrow>
         (case plan_params module_name (uf_name f) (sg_params sig) of
            Inl s \<Rightarrow> Inl s
          | Inr plans \<Rightarrow>
             (case check_return_type rp module_name (uf_name f) (sg_return sig) of
                Some s \<Rightarrow> Inl s
              | None \<Rightarrow>
                 (case build_request_model (uf_name f) sig (uf_doc f) of
                    (model, plan) \<Rightarrow> Inr (model, plans, plan)))))"

record usecase_module =
  um_name :: string
  um_functions :: "usecase_fn list"

definition short_name :: "string \<Rightarrow> string" where
  "short_name m = last (split_on (CHR ''.'') m)"

type_synonym usecase_route = "string \<times> usecase_fn \<times> request_model \<times> param_plan list \<times> coercion_plan"

definition usecase_routes ::
  "(annotation \<Rightarrow> string) \<Rightarrow> usecase_module \<Rightarrow> (skipped_method + usecase_route) list" where
  "usecase_routes rp m =
     map (\<lambda>f. case plan_function rp (short_name (um_name m)) f of
         Inl s \<Rightarrow> Inl s | Inr r \<Rightarrow> Inr (''/'' @ uf_name f, f, r))
       (filter (\<lambda>f. \<not> startswith (uf_name f) ''_'' \<and> uf_module f = um_name m) (um_functions m))"

definition lefts :: "('a + 'b) list \<Rightarrow> 'a list" where
  "lefts xs = concat (map (\<lambda>x. case x of Inl a \<Rightarrow> [a] | Inr b \<Rightarrow> []) xs)"

definition rights :: "('a + 'b) list \<Rightarrow> 'b list" where
  "rights xs = concat (map (\<lambda>x. case x of Inl a \<Rightarrow> [] | Inr b \<Rightarrow> [b]) xs)"

text \<open>One router for each module, with its prefix, and all skipped functions.\<close>

definition generate_usecase_routers ::
  "(annotation \<Rightarrow> string) \<Rightarrow> usecase_module list
   \<Rightarrow> (string \<times> usecase_route list) list \<times> skipped_method list" where
  "generate_usecase_routers rp modules =
     (map (\<lambda>m. (''/use_cases/'' @ short_name (um_name m), rights (usecase_routes rp m))) modules,
      concat (map (\<lambda>m. lefts (usecase_routes rp m)) modules))"

section \<open>Calling a use case\<close>

datatype 'v argument = Value pyval | Device 'v

text \<open>
  The keyword arguments, in the order of the plans; \<open>lookup\<close> is \<^verbatim>\<open>get_device_by_name\<close>, \<open>is_a\<close> an
  instance check, \<open>cname\<close> a class's name. The body has every field of the model.
\<close>

definition class_label :: "annotation \<Rightarrow> string" where
  "class_label a = (case a of AnnClass m c \<Rightarrow> c | _ \<Rightarrow> [])"

definition resolve_argument ::
  "(pyval \<Rightarrow> 'v option) \<Rightarrow> ('v \<Rightarrow> annotation \<Rightarrow> bool) \<Rightarrow> (pyval \<Rightarrow> string) \<Rightarrow> coercion_plan
   \<Rightarrow> (string, pyval) dict \<Rightarrow> param_plan \<Rightarrow> agent_fault + 'v argument" where
  "resolve_argument lookup is_a vrepr plan data p =
     (let raw = (case dict_get data (pp_name p) of None \<Rightarrow> VNone | Some v \<Rightarrow> v)
      in if \<not> pp_is_device p
         then (case dict_get plan (pp_name p) of
                 None \<Rightarrow> Inr (Value raw)
               | Some ann \<Rightarrow>
                  (case coerce raw ann of
                     Inl e \<Rightarrow> Inl (AgentRaised (coerce_error_raised e))
                   | Inr v \<Rightarrow> Inr (Value v)))
         else (case lookup raw of
                 None \<Rightarrow> Inl (AgentHTTP 404 (JStr (''no device named '' @ vrepr raw)))
               | Some device \<Rightarrow>
                  (if \<not> list_ex (is_a device) (pp_templates p)
                   then Inl (AgentHTTP 422 (JStr (''device '' @ vrepr raw @ '' is not one of ['' @
                          join '', '' (map (\<lambda>t. py_repr (class_label t)) (pp_templates p)) @ '']'')))
                   else Inr (Device device))))"

fun resolve_arguments ::
  "(pyval \<Rightarrow> 'v option) \<Rightarrow> ('v \<Rightarrow> annotation \<Rightarrow> bool) \<Rightarrow> (pyval \<Rightarrow> string) \<Rightarrow> coercion_plan
   \<Rightarrow> (string, pyval) dict \<Rightarrow> param_plan list \<Rightarrow> agent_fault + (string, 'v argument) dict" where
  "resolve_arguments lookup is_a vrepr plan data [] = Inr []"
| "resolve_arguments lookup is_a vrepr plan data (p # ps) =
     (case resolve_argument lookup is_a vrepr plan data p of
        Inl f \<Rightarrow> Inl f
      | Inr a \<Rightarrow>
         (case resolve_arguments lookup is_a vrepr plan data ps of
            Inl f \<Rightarrow> Inl f
          | Inr kwargs \<Rightarrow> Inr ((pp_name p, a) # kwargs)))"

definition usecase_handler ::
  "('d \<Rightarrow> pyval \<Rightarrow> 'v option) \<Rightarrow> ('v \<Rightarrow> annotation \<Rightarrow> bool) \<Rightarrow> (pyval \<Rightarrow> string)
   \<Rightarrow> ((string, 'v argument) dict \<Rightarrow> raised + json) \<Rightarrow> param_plan list \<Rightarrow> coercion_plan
   \<Rightarrow> string \<Rightarrow> time \<Rightarrow> bool \<Rightarrow> (string, pyval) dict \<Rightarrow> ('c, 'd) agent
   \<Rightarrow> (agent_fault + agent_answer) \<times> ('c, 'd) agent" where
  "usecase_handler lookup is_a vrepr fn plans plan jid now async data a =
     (case rt_manager (ss_runtime (ag_session a)) of
        None \<Rightarrow> (Inl (AgentHTTP 409 (JStr ''session is not booted - device_manager unavailable'')), a)
      | Some d \<Rightarrow>
         (case resolve_arguments (lookup d) is_a vrepr plan data plans of
            Inl f \<Rightarrow> (Inl f, a)
          | Inr kwargs \<Rightarrow> submit_answer jid now async (fn kwargs) a))"

section \<open>Facts\<close>

definition plan_of :: "param \<Rightarrow> param_plan" where
  "plan_of p =
     \<lparr>pp_name = pa_name p, pp_is_device = (classify_param (annotation_of p) = DeviceParam),
      pp_templates = template_types (annotation_of p)\<rparr>"

lemma plan_params_Inr:
  "plan_params m n ps = Inr plans \<Longrightarrow>
   plans = map plan_of ps \<and> (\<forall>p\<in>set ps. classify_param (annotation_of p) \<noteq> UnroutableParam)"
proof (induction m n ps arbitrary: plans rule: plan_params.induct)
  case (2 m n p ps)
  then obtain ann plans' where "pa_ann p = Some ann" "classify_param ann \<noteq> UnroutableParam"
      "plan_params m n ps = Inr plans'"
      "plans = \<lparr>pp_name = pa_name p, pp_is_device = (classify_param ann = DeviceParam), pp_templates = template_types ann\<rparr> # plans'"
    by (auto split: if_splits option.splits sum.splits)
  moreover have "pa_kind p \<notin> {VarPositional, VarKeyword}" using 2(2) by (auto split: if_splits)
  ultimately show ?case using 2(1) by (auto simp: plan_of_def annotation_of_def)
qed simp

lemma plan_function_Inr:
  assumes "plan_function rp m f = Inr (model, plans, plan)"
  obtains sig where "uf_sig f = SigOK sig" and "plans = map plan_of (sg_params sig)"
    and "\<forall>p\<in>set (sg_params sig). classify_param (annotation_of p) \<noteq> UnroutableParam"
    and "build_request_model (uf_name f) sig (uf_doc f) = (model, plan)"
proof -
  from assms obtain sig where s: "signature_or_skip m f = Inr sig"
    and p: "plan_params m (uf_name f) (sg_params sig) = Inr plans"
    and b: "build_request_model (uf_name f) sig (uf_doc f) = (model, plan)"
    by (auto simp: plan_function_def split: sum.splits option.splits prod.splits)
  from s have "uf_sig f = SigOK sig" by (auto simp: signature_or_skip_def split: sig_result.splits)
  then show thesis using that plan_params_Inr [OF p] b by blast
qed

text \<open>Either the first argument that cannot be had decides, or all are there, in order.\<close>

lemma resolve_arguments_cases:
  obtains (refused) ys p zs f where "ps = ys @ p # zs"
      and "\<forall>y\<in>set ys. \<exists>a. resolve_argument lookup is_a vrepr plan data y = Inr a"
      and "resolve_argument lookup is_a vrepr plan data p = Inl f"
      and "resolve_arguments lookup is_a vrepr plan data ps = Inl f"
  | (bound) kwargs where "resolve_arguments lookup is_a vrepr plan data ps = Inr kwargs"
      and "map fst kwargs = map pp_name ps"
      and "list_all2 (\<lambda>p kv. resolve_argument lookup is_a vrepr plan data p = Inr (snd kv)) ps kwargs"
proof (induction ps arbitrary: thesis)
  case (Cons p ps)
  show ?case
  proof (cases "resolve_argument lookup is_a vrepr plan data p")
    case (Inl f)
    then show ?thesis using Cons.prems(1) [of "[]" p ps f] by simp
  next
    case (Inr a)
    show ?thesis
    proof (rule Cons.IH)
      fix ys q zs f
      assume "ps = ys @ q # zs" "\<forall>y\<in>set ys. \<exists>a. resolve_argument lookup is_a vrepr plan data y = Inr a"
        "resolve_argument lookup is_a vrepr plan data q = Inl f" "resolve_arguments lookup is_a vrepr plan data ps = Inl f"
      then show ?thesis using Inr Cons.prems(1) [of "p # ys" q zs f] by simp
    next
      fix kwargs
      assume "resolve_arguments lookup is_a vrepr plan data ps = Inr kwargs" "map fst kwargs = map pp_name ps"
        "list_all2 (\<lambda>p kv. resolve_argument lookup is_a vrepr plan data p = Inr (snd kv)) ps kwargs"
      then show ?thesis using Inr Cons.prems(2) [of "(pp_name p, a) # kwargs"] by simp
    qed
  qed
qed simp

text \<open>
  What a use case may be called with, parameter by parameter, for the value the body gives the parameter:
  the device of that name, or the value converted; and why an argument may be refused.
\<close>

definition body_value :: "(string, pyval) dict \<Rightarrow> param \<Rightarrow> pyval" where
  "body_value data p = (case dict_get data (pa_name p) of None \<Rightarrow> VNone | Some v \<Rightarrow> v)"

definition good_argument ::
  "(pyval \<Rightarrow> 'v option) \<Rightarrow> ('v \<Rightarrow> annotation \<Rightarrow> bool) \<Rightarrow> annotation \<Rightarrow> pyval \<Rightarrow> 'v argument \<Rightarrow> bool" where
  "good_argument lookup is_a ann raw arg =
     (if classify_param ann = DeviceParam
      then case arg of
             Device v \<Rightarrow> lookup raw = Some v \<and> list_ex (is_a v) (template_types ann)
           | Value x \<Rightarrow> False
      else case arg of
             Value x \<Rightarrow> coerce raw ann = Inr x \<and>
               (coercible False ann \<and> has_type (field_type ann) raw \<longrightarrow> has_type ann x)
           | Device v \<Rightarrow> False)"

definition refused_argument ::
  "(pyval \<Rightarrow> 'v option) \<Rightarrow> ('v \<Rightarrow> annotation \<Rightarrow> bool) \<Rightarrow> annotation \<Rightarrow> pyval \<Rightarrow> agent_fault \<Rightarrow> bool" where
  "refused_argument lookup is_a ann raw f =
     (if classify_param ann = DeviceParam
      then case lookup raw of
             None \<Rightarrow> (\<exists>m. f = AgentHTTP 404 m)
           | Some v \<Rightarrow> \<not> list_ex (is_a v) (template_types ann) \<and> (\<exists>m. f = AgentHTTP 422 m)
      else \<not> (coercible False ann \<and> has_type (field_type ann) raw) \<and>
        (\<exists>e. coerce raw ann = Inl e \<and> f = AgentRaised (coerce_error_raised e)))"

text \<open>The conversion plan holds exactly the annotations to convert, and the model one field per parameter.\<close>

lemma build_request_model_plan:
  assumes "build_request_model name sig doc = (model, plan)"
  shows "plan = map (\<lambda>p. (pa_name p, annotation_of p))
      (filter (\<lambda>p. classify_param (annotation_of p) \<noteq> DeviceParam \<and> rebuilt (annotation_of p)) (sg_params sig))"
  using assms by (auto simp: build_request_model_def Let_def)

lemma plan_lookup:
  assumes "build_request_model name sig doc = (model, plan)" and "distinct (map pa_name (sg_params sig))"
    and "p \<in> set (sg_params sig)" and "classify_param (annotation_of p) \<noteq> DeviceParam"
  shows "dict_get plan (pa_name p) = (if rebuilt (annotation_of p) then Some (annotation_of p) else None)"
proof -
  note plan = build_request_model_plan [OF assms(1)]
  show ?thesis
  proof (cases "rebuilt (annotation_of p)")
    case True
    have "distinct (map fst plan)" using assms(2) by (simp add: plan comp_def distinct_map_filter)
    moreover have "(pa_name p, annotation_of p) \<in> set plan" using assms(3,4) True by (auto simp: plan)
    ultimately show ?thesis using True by (simp add: map_of_is_SomeI)
  next
    case False
    have "pa_name p \<notin> fst ` set plan"
    proof
      assume "pa_name p \<in> fst ` set plan"
      then obtain q where q: "q \<in> set (sg_params sig)" "rebuilt (annotation_of q)" "pa_name q = pa_name p"
        by (auto simp: plan)
      then have "q = p" using assms(2,3) by (simp add: distinct_map inj_on_def)
      then show False using False q(2) by simp
    qed
    then show ?thesis using False by (simp add: map_of_eq_None_iff)
  qed
qed

lemma coerce_not_rebuilt: "\<not> rebuilt a \<Longrightarrow> coerce j a = Inr j"
  by (cases a rule: field_type.cases) (auto split: pyval.splits)

text \<open>One argument: refused for its reason, or a good value.\<close>

lemma resolve_argument_good:
  assumes "build_request_model name sig doc = (model, plan)" and "distinct (map pa_name (sg_params sig))"
    and "p \<in> set (sg_params sig)"
  shows "resolve_argument lookup is_a vrepr plan data (plan_of p) = Inr arg \<Longrightarrow>
      good_argument lookup is_a (annotation_of p) (body_value data p) arg"
    and "resolve_argument lookup is_a vrepr plan data (plan_of p) = Inl f \<Longrightarrow>
      refused_argument lookup is_a (annotation_of p) (body_value data p) f"
proof -
  let ?ann = "annotation_of p" and ?raw = "body_value data p"
  let ?r = "resolve_argument lookup is_a vrepr plan data (plan_of p)"
  have "(\<forall>arg. ?r = Inr arg \<longrightarrow> good_argument lookup is_a ?ann ?raw arg) \<and>
      (\<forall>f. ?r = Inl f \<longrightarrow> refused_argument lookup is_a ?ann ?raw f)"
  proof (cases "classify_param ?ann = DeviceParam")
    case True
    then show ?thesis
      by (auto simp: resolve_argument_def plan_of_def good_argument_def refused_argument_def body_value_def Let_def
          split: option.splits)
  next
    case False
    have r: "?r = (case coerce ?raw ?ann of Inl e \<Rightarrow> Inl (AgentRaised (coerce_error_raised e)) | Inr v \<Rightarrow> Inr (Value v))"
      using plan_lookup [OF assms False] coerce_not_rebuilt [of ?ann ?raw] False
      by (cases "rebuilt ?ann") (simp_all add: resolve_argument_def plan_of_def body_value_def Let_def)
    show ?thesis
      using coerce_well_typed [of ?ann ?raw] False
      by (cases "coerce ?raw ?ann") (auto simp: r good_argument_def refused_argument_def)
  qed
  then show "?r = Inr arg \<Longrightarrow> good_argument lookup is_a ?ann ?raw arg"
    and "?r = Inl f \<Longrightarrow> refused_argument lookup is_a ?ann ?raw f" by blast+
qed

section \<open>Properties\<close>

text \<open>C18: A generated use-case route calls its function with good arguments or not at all, whatever the body.
  Without a device manager it answers 409. Otherwise the parameters are taken in their order: the
  first that is refused decides, with 404 when the body's value for it names no device, 422 when the
  device of that name is an instance of none of its templates, and the exception of the conversion when
  that raises, which it cannot for a value of the field's type and an annotation without tuples of a
  fixed length or enumerations inside dictionaries (C16); then nothing is called or changed. When none is
  refused exactly one call is submitted, in which every parameter is bound, in order, to the device the
  body names, an instance of one of its templates, or to the body's value converted, which then has
  the parameter's type. (The names of a function's parameters are distinct.)\<close>

theorem usecase_call_checked:
  assumes "plan_function rp m f = Inr (model, plans, plan)" and "uf_sig f = SigOK sig"
    and "distinct (map pa_name (sg_params sig))"
  shows "case rt_manager (ss_runtime (ag_session a)) of
      None \<Rightarrow> (\<exists>msg. usecase_handler lookup is_a vrepr fn plans plan jid now async data a = (Inl (AgentHTTP 409 msg), a))
    | Some d \<Rightarrow>
        (\<exists>before p rest fault. sg_params sig = before @ p # rest \<and>
          (\<forall>q\<in>set before. \<exists>arg. good_argument (lookup d) is_a (annotation_of q) (body_value data q) arg) \<and>
          refused_argument (lookup d) is_a (annotation_of p) (body_value data p) fault \<and>
          usecase_handler lookup is_a vrepr fn plans plan jid now async data a = (Inl fault, a)) \<or>
        (\<exists>kwargs. map fst kwargs = map pa_name (sg_params sig) \<and>
          list_all2 (\<lambda>p kv. good_argument (lookup d) is_a (annotation_of p) (body_value data p) (snd kv))
            (sg_params sig) kwargs \<and>
          usecase_handler lookup is_a vrepr fn plans plan jid now async data a = submit_answer jid now async (fn kwargs) a)"
proof (cases "rt_manager (ss_runtime (ag_session a))")
  case None
  then show ?thesis by (simp add: usecase_handler_def)
next
  case (Some d)
  have "plans = map plan_of (sg_params sig) \<and> build_request_model (uf_name f) sig (uf_doc f) = (model, plan)"
    using assms(2) by (rule_tac plan_function_Inr [OF assms(1)]) simp
  then have plans: "plans = map plan_of (sg_params sig)" and b: "build_request_model (uf_name f) sig (uf_doc f) = (model, plan)"
    by blast+
  note good = resolve_argument_good [OF b assms(3)]
  show ?thesis
  proof (cases rule: resolve_arguments_cases [of plans "lookup d" is_a vrepr plan data])
    case (refused ys p zs fault)
    then obtain before q rest where q: "sg_params sig = before @ q # rest" "ys = map plan_of before" "p = plan_of q"
      unfolding plans by (auto simp: map_eq_append_conv)
    have "\<forall>x\<in>set before. \<exists>arg. good_argument (lookup d) is_a (annotation_of x) (body_value data x) arg"
      using refused(2) good(1) q(1,2) by fastforce
    moreover have "refused_argument (lookup d) is_a (annotation_of q) (body_value data q) fault"
      using good(2) [of q] refused(3) q(1,3) by simp
    ultimately show ?thesis using q(1) refused(4) by (auto simp: usecase_handler_def Some)
  next
    case (bound kwargs)
    have "map fst kwargs = map pa_name (sg_params sig)" using bound(2) by (simp add: plans plan_of_def)
    moreover have "list_all2 (\<lambda>p kv. good_argument (lookup d) is_a (annotation_of p) (body_value data p) (snd kv))
        (sg_params sig) kwargs"
      using bound(3) unfolding plans list_all2_map1 by (rule list.rel_mono_strong) (rule good(1))
    ultimately show ?thesis using bound(1) by (auto simp: usecase_handler_def Some)
  qed
qed

definition demo_fn :: usecase_fn where
  "demo_fn =
     \<lparr>uf_name = ''ping'', uf_module = ''boardfarm3.use_cases.net'',
      uf_sig = SigOK \<lparr>sg_params =
          [\<lparr>pa_name = ''lan'', pa_kind = OrdinaryParam, pa_ann = Some (AnnClass ''boardfarm3.templates.lan'' ''LAN''), pa_default = None\<rparr>,
           \<lparr>pa_name = ''count'', pa_kind = OrdinaryParam, pa_ann = Some (AnnPrim PInt), pa_default = None\<rparr>],
        sg_return = Some (AnnPrim PBool)\<rparr>, uf_doc = None\<rparr>"

theorem usecase_call_checked_witness:
  "\<exists>model plans plan. plan_function (\<lambda>_. []) ''net'' demo_fn = Inr (model, plans, plan) \<and>
   (let h = \<lambda>data. usecase_handler (\<lambda>_ v. if v = VStr ''lan1'' then Some () else None) (\<lambda>_ _. True) (\<lambda>_. [])
              (\<lambda>kwargs. Inr (JInt (int (length kwargs)))) plans plan ''j-1'' 2 False data (demo_agent True)
    in h [(''lan'', VStr ''lan1''), (''count'', VInt 3)] = submit_answer ''j-1'' 2 False (Inr (JInt 2)) (demo_agent True) \<and>
       (\<exists>m. h [(''lan'', VStr ''lan9''), (''count'', VInt 3)] = (Inl (AgentHTTP 404 m), demo_agent True)))"
proof -
  let ?sig = "case uf_sig demo_fn of SigOK s \<Rightarrow> s | _ \<Rightarrow> \<lparr>sg_params = [], sg_return = None\<rparr>"
  have sig: "uf_sig demo_fn = SigOK ?sig" by (simp add: demo_fn_def)
  have "\<exists>r. plan_function (\<lambda>_. []) ''net'' demo_fn = Inr r"
    by (simp add: plan_function_def signature_or_skip_def demo_fn_def classify_param_def is_template_def
        non_none_args_def startswith_def check_return_type_def is_literal_def Let_def split: prod.splits)
  then obtain model plans plan where p: "plan_function (\<lambda>_. []) ''net'' demo_fn = Inr (model, plans, plan)"
    by (metis surj_pair)
  have d: "distinct (map pa_name (sg_params ?sig))" by (simp add: demo_fn_def)
  let ?h = "\<lambda>data. usecase_handler (\<lambda>_ v. if v = VStr ''lan1'' then Some () else None) (\<lambda>_ _. True) (\<lambda>_. [])
      (\<lambda>kwargs. Inr (JInt (int (length kwargs)))) plans plan ''j-1'' 2 False data (demo_agent True)"
  note c = usecase_call_checked [OF p sig d, where lookup = "\<lambda>_ v. if v = VStr ''lan1'' then Some () else None"
      and is_a = "\<lambda>_ _. True" and vrepr = "\<lambda>_. []" and fn = "\<lambda>kwargs. Inr (JInt (int (length kwargs)))"
      and jid = "''j-1''" and now = 2 and async = False and a = "demo_agent True"]
  have m: "rt_manager (ss_runtime (ag_session (demo_agent True))) = Some ()"
    by (simp add: demo_agent_def demo_runtime_def)
  obtain lan count where ps: "sg_params ?sig = [lan, count]" "pa_name lan = ''lan''" "pa_name count = ''count''"
    and ann: "annotation_of lan = AnnClass ''boardfarm3.templates.lan'' ''LAN''" "annotation_of count = AnnPrim PInt"
    by (simp add: demo_fn_def annotation_of_def)
  have cl: "classify_param (annotation_of lan) = DeviceParam" "classify_param (annotation_of count) \<noteq> DeviceParam"
    "template_types (annotation_of lan) \<noteq> []"
    by (simp_all add: ann classify_param_def is_template_def non_none_args_def startswith_def template_types_def)
  let ?L = "\<lambda>v. if v = VStr ''lan1'' then Some () else None"
  let ?ok = "[(''lan'', VStr ''lan1''), (''count'', VInt 3)]" and ?bad = "[(''lan'', VStr ''lan9''), (''count'', VInt 3)]"
  have body: "body_value ?ok lan = VStr ''lan1''" "body_value ?bad lan = VStr ''lan9''"
    "body_value ?ok count = VInt 3" "body_value ?bad count = VInt 3"
    by (simp_all add: body_value_def ps)
  have "\<not> refused_argument ?L (\<lambda>_ _. True) (annotation_of q) (body_value ?ok q) f" if "q \<in> {lan, count}" for q f
    using that cl by (cases "template_types (annotation_of lan)") (auto simp: refused_argument_def body ann(2))
  then have "\<nexists>before p rest fault. sg_params ?sig = before @ p # rest \<and>
      refused_argument ?L (\<lambda>_ _. True) (annotation_of p) (body_value ?ok p) fault"
    unfolding ps by (metis in_set_conv_decomp list.simps(15) list.set(1))
  then have "?h ?ok = submit_answer ''j-1'' 2 False (Inr (JInt 2)) (demo_agent True)"
    using c [of ?ok, unfolded m option.case] by (auto simp: ps list_all2_Cons1)
  moreover have "\<not> good_argument ?L (\<lambda>_ _. True) (annotation_of lan) (body_value ?bad lan) arg" for arg
    using cl(1) by (simp add: good_argument_def body split: argument.splits)
  then have "\<exists>m. ?h ?bad = (Inl (AgentHTTP 404 m), demo_agent True)"
    using c [of ?bad, unfolded m option.case] cl(1)
    by (auto simp: ps list_all2_Cons1 Cons_eq_append_conv refused_argument_def body)
  ultimately show ?thesis using p unfolding Let_def by blast
qed

end
