(* ===== verification/Lib_Utils.thy ===== *)
theory Lib_Utils
  imports Py_Values
begin

text \<open>
  Common utilities (\<^verbatim>\<open>boardfarm3/lib/utils.py\<close>): address pools, retries, the recursive dictionary lookup
  and the static address of a device's options. An IPv4 address is a number below \<open>2 ^ 32\<close>, and adding
  beyond the last raises, as in \<^verbatim>\<open>ipaddress\<close>. A callable is a function from the number of earlier calls
  to its outcome. Parsing an interface with \<^verbatim>\<open>ipaddress\<close> is a parameter.
\<close>

section \<open>Address pools\<close>

definition MAX_IPV4 :: nat where
  "MAX_IPV4 = 2 ^ 32 - 1"

definition ip_succ :: "nat \<Rightarrow> raised + nat" where
  "ip_succ ip =
     (if ip < MAX_IPV4 then Inr (ip + 1)
      else Inl (py_error PyValueError ''AddressValueError'' ''4294967296 (>= 2**32) is not permitted as an IPv4 address''))"

text \<open>The loop; the conjunction evaluates \<^verbatim>\<open>end_ip + 1\<close> only while \<^verbatim>\<open>end_ip >= start_ip\<close>.\<close>

function ip_pool_loop :: "nat \<Rightarrow> nat \<Rightarrow> nat list \<Rightarrow> raised + nat list" where
  "ip_pool_loop start_ip end_ip ip_list =
     (if \<not> start_ip \<le> end_ip then Inr ip_list
      else case ip_succ end_ip of
             Inl e \<Rightarrow> Inl e
           | Inr beyond \<Rightarrow>
              (if start_ip = beyond then Inr ip_list
               else case ip_succ start_ip of
                      Inl e \<Rightarrow> Inl e
                    | Inr next_ip \<Rightarrow> ip_pool_loop next_ip end_ip (ip_list @ [start_ip])))"
  by pat_completeness auto

termination
  by (relation "measure (\<lambda>(s, e, xs). Suc e - s)") (auto simp: ip_succ_def split: if_splits)

declare ip_pool_loop.simps [simp del]

definition ip_pool_to_list :: "nat \<Rightarrow> nat \<Rightarrow> raised + nat list" where
  "ip_pool_to_list start_ip end_ip = ip_pool_loop start_ip end_ip []"

section \<open>Retries\<close>

text \<open>
  \<^verbatim>\<open>retry_on_exception\<close>: up to \<^verbatim>\<open>retries - 1\<close> guarded calls, then one that may raise. The result comes
  with the number of calls and the number of sleeps.
\<close>

fun retry_loop :: "(nat \<Rightarrow> raised + 'a) \<Rightarrow> nat \<Rightarrow> nat \<Rightarrow> (raised + 'a) \<times> nat \<times> nat" where
  "retry_loop call 0 k = (call k, Suc k, k)"
| "retry_loop call (Suc n) k =
     (case call k of Inr v \<Rightarrow> (Inr v, Suc k, k) | Inl e \<Rightarrow> retry_loop call n (Suc k))"

definition retry_on_exception :: "(nat \<Rightarrow> raised + 'a) \<Rightarrow> int \<Rightarrow> (raised + 'a) \<times> nat \<times> nat" where
  "retry_on_exception call retries = retry_loop call (nat (retries - 1)) 0"

text \<open>\<^verbatim>\<open>retry\<close>: until the output is true and not the text \<^verbatim>\<open>False\<close>; exceptions are not caught.\<close>

definition accepted :: "json \<Rightarrow> bool" where
  "accepted output \<longleftrightarrow> truthy output \<and> output \<noteq> JStr ''False''"

fun retry_output :: "(nat \<Rightarrow> raised + json) \<Rightarrow> nat \<Rightarrow> nat \<Rightarrow> (raised + json) \<times> nat" where
  "retry_output func 0 k = (func k, Suc k)"
| "retry_output func (Suc n) k =
     (case func k of
        Inl e \<Rightarrow> (Inl e, Suc k)
      | Inr output \<Rightarrow> if accepted output then (Inr output, Suc k) else retry_output func n (Suc k))"

definition retry :: "(nat \<Rightarrow> raised + json) \<Rightarrow> int \<Rightarrow> (raised + json) \<times> nat" where
  "retry func max_retry = retry_output func (nat (max_retry - 1)) 0"

section \<open>Dictionaries and options\<close>

text \<open>Depth first; a nested null is passed over.\<close>

fun get_value_from_dict :: "string \<Rightarrow> (string, json) dict \<Rightarrow> json" where
  "get_value_from_dict key [] = JNull"
| "get_value_from_dict key ((name, value) # d) =
     (if name = key then value
      else case value of
             JObj sub \<Rightarrow>
               (if get_value_from_dict key sub \<noteq> JNull then get_value_from_dict key sub
                else get_value_from_dict key d)
           | _ \<Rightarrow> get_value_from_dict key d)"

text \<open>\<^verbatim>\<open>s.split(sep)[1]\<close> when the separator occurs: the text up to its next occurrence.\<close>

fun upto_sub :: "string \<Rightarrow> string \<Rightarrow> string" where
  "upto_sub sep [] = []"
| "upto_sub sep (c # s) = (if startswith (c # s) sep then [] else c # upto_sub sep s)"

fun after_sub :: "string \<Rightarrow> string \<Rightarrow> string" where
  "after_sub sep [] = []"
| "after_sub sep (c # s) = (if startswith (c # s) sep then drop (length sep) (c # s) else after_sub sep s)"

definition second_part :: "string \<Rightarrow> string \<Rightarrow> string" where
  "second_part sep s = upto_sub sep (after_sub sep s)"

definition get_static_ipaddress ::
  "(string \<Rightarrow> string \<Rightarrow> raised + string) \<Rightarrow> string \<Rightarrow> string \<Rightarrow> raised + string option" where
  "get_static_ipaddress interface_ip options ip_version =
     (let prefix = (if ip_version = ''ipv4'' then ''wan-static-ip:'' else ''wan-static-ipv6:'')
      in case find (str_in prefix) (split_on (CHR '','') options) of
           None \<Rightarrow> Inr None
         | Some option \<Rightarrow>
            (let m = second_part prefix (strip whitespace option)
             in if m = [] then Inr None
                else case interface_ip ip_version m of Inl e \<Rightarrow> Inl e | Inr ip \<Rightarrow> Inr (Some ip)))"

section \<open>Facts\<close>

lemma ip_pool_loop_upto:
  "end_ip < MAX_IPV4 \<Longrightarrow> ip_pool_loop start_ip end_ip acc = Inr (acc @ [start_ip..<Suc end_ip])"
proof (induction start_ip end_ip acc rule: ip_pool_loop.induct)
  case (1 start_ip end_ip acc)
  show ?case
  proof (cases "start_ip \<le> end_ip")
    case True
    then have "ip_pool_loop (start_ip + 1) end_ip (acc @ [start_ip]) =
        Inr ((acc @ [start_ip]) @ [start_ip + 1..<Suc end_ip])"
      using 1 by (simp add: ip_succ_def)
    then show ?thesis
      using True 1(2) by (simp add: ip_pool_loop.simps [of start_ip] ip_succ_def upt_conv_Cons)
  next
    case False
    then show ?thesis by (simp add: ip_pool_loop.simps)
  qed
qed

lemma retry_loop_spec:
  "retry_loop call n k =
    (let m = (LEAST i. i = n \<or> (\<exists>v. call (k + i) = Inr v)) in (call (k + m), Suc (k + m), k + m))"
proof (induction call n k rule: retry_loop.induct)
  case (1 call k)
  have "(LEAST i. i = 0 \<or> (\<exists>v. call (k + i) = Inr v)) = 0" by (rule Least_equality) auto
  then show ?case by simp
next
  case (2 call n k)
  show ?case
  proof (cases "call k")
    case (Inr v)
    then have "(LEAST i. i = Suc n \<or> (\<exists>v. call (k + i) = Inr v)) = 0" by (intro Least_equality) auto
    then show ?thesis using Inr by simp
  next
    case (Inl e)
    have "(LEAST i. i = Suc n \<or> (\<exists>v. call (k + i) = Inr v)) =
        Suc (LEAST i. Suc i = Suc n \<or> (\<exists>v. call (k + Suc i) = Inr v))"
      by (rule Least_Suc [where n = "Suc n"]) (use Inl in auto)
    then show ?thesis using 2 Inl by (simp add: Let_def)
  qed
qed

section \<open>Properties\<close>

text \<open>An address pool is expanded to exactly the addresses from the first to the last, in order, and to
  nothing when the bounds are reversed; only a pool that ends at the very last IPv4 address cannot be
  expanded: whatever its size, it raises AddressValueError.\<close>

theorem ip_pool_exact:
  assumes "start_ip \<le> MAX_IPV4" and "end_ip \<le> MAX_IPV4"
  shows "if end_ip < MAX_IPV4 then ip_pool_to_list start_ip end_ip = Inr [start_ip..<Suc end_ip]
    else \<exists>e. ip_pool_to_list start_ip end_ip = Inl e \<and> rx_name e = ''AddressValueError''"
proof (cases "end_ip < MAX_IPV4")
  case True
  then show ?thesis by (simp add: ip_pool_to_list_def ip_pool_loop_upto)
next
  case False
  then show ?thesis
    using assms by (simp add: ip_pool_to_list_def ip_pool_loop.simps ip_succ_def py_error_def)
qed

theorem ip_pool_exact_witness:
  "ip_pool_to_list 3232235777 3232235779 = Inr [3232235777..<3232235780] \<and>
   (\<exists>e. ip_pool_to_list 4294967294 4294967295 = Inl e)"
  using ip_pool_exact [of 3232235777 3232235779] ip_pool_exact [of 4294967294 4294967295]
  by (auto simp: MAX_IPV4_def)

text \<open>Retrying calls the call until it returns, at most \<open>retries\<close> times and at least once, sleeps once
  between two calls, and hands on the first value, or the exception of the last call.\<close>

theorem retry_on_exception_bounded:
  shows "\<exists>m. retry_on_exception call retries = (call m, Suc m, m) \<and>
    int m \<le> max 0 (retries - 1) \<and> (\<forall>i<m. \<exists>e. call i = Inl e) \<and>
    ((\<exists>v. call m = Inr v) \<or> m = nat (retries - 1))"
proof -
  let ?P = "\<lambda>i. i = nat (retries - 1) \<or> (\<exists>v. call (0 + i) = Inr v)"
  let ?m = "LEAST i. ?P i"
  have at: "?P ?m" by (rule LeastI [of ?P "nat (retries - 1)"]) simp
  have le: "?m \<le> nat (retries - 1)" by (rule Least_le) simp
  have "\<exists>e. call i = Inl e" if "i < ?m" for i
    using not_less_Least [OF that] by (cases "call i") auto
  moreover have "retry_on_exception call retries = (call ?m, Suc ?m, ?m)"
    by (simp add: retry_on_exception_def retry_loop_spec Let_def)
  ultimately show ?thesis using at le by (intro exI [of _ ?m]) auto
qed

theorem retry_on_exception_bounded_witness:
  "retry_on_exception (\<lambda>i. if i < 2 then Inl (py_error PyValueError ''ValueError'' []) else Inr i) 10 = (Inr 2, 3, 2)"
proof -
  let ?m = "\<lambda>i::nat. if i < 2 then Inl (py_error PyValueError ''ValueError'' []) else Inr i"
  from retry_on_exception_bounded [of ?m 10] obtain m where
    m: "retry_on_exception ?m 10 = (?m m, Suc m, m)" "\<forall>i<m. \<exists>e. ?m i = Inl e" "(\<exists>v. ?m m = Inr v) \<or> m = 9"
    by auto
  have "\<not> 2 < m" using m(2) by auto
  moreover have "\<not> m < 2" using m(3) by auto
  ultimately have "m = 2" by simp
  then show ?thesis using m(1) by simp
qed

end
