(* ===== verification/Board_Config.thy ===== *)
theory Board_Config
  imports Lib_Utils "HOL-Library.Multiset" "HOL-Library.Char_ord" "HOL-Library.List_Lexorder"
begin

text \<open>
  The environment configuration (\<^verbatim>\<open>boardfarm3/lib/boardfarm_config.py\<close>): selecting a board's inventory,
  merging it with the requested environment, matching the requested LAN and Wi-Fi clients to the
  devices at hand, and the queries on the result. Configurations are JSON; a device's configuration is
  a dictionary. \<open>merge\<close> is \<^verbatim>\<open>jsonmerge.merge\<close>, a third-party function.

  \<^verbatim>\<open>select_inventory\<close> changes the configuration it is given, so it returns it too.
\<close>

type_synonym device = "(string, json) dict"

section \<open>The configuration object\<close>

record board_config =
  bc_devices :: "device list"
  bc_env :: device
  bc_inventory :: device

definition get_device_config :: "string \<Rightarrow> board_config \<Rightarrow> raised + device" where
  "get_device_config device_name c =
     (case find (\<lambda>d. get_or_none d ''name'' = JStr device_name) (bc_devices c) of
        Some d \<Rightarrow> Inr d
      | None \<Rightarrow> Inl (env_error (device_name @ '' - Unknown device name'')))"

definition resource_name :: "board_config \<Rightarrow> raised + json" where
  "resource_name c =
     (case get_device_config ''board'' c of Inl e \<Rightarrow> Inl e | Inr conf \<Rightarrow> get_item conf ''resource_name'')"

definition get_board_station_number :: "board_config \<Rightarrow> raised + int" where
  "get_board_station_number c =
     (case resource_name c of
        Inl e \<Rightarrow> Inl e
      | Inr (JStr s) \<Rightarrow>
         (case py_int (last (split_on (CHR ''-'') s)) of
            Some n \<Rightarrow> Inr n
          | None \<Rightarrow> Inl (py_error PyValueError ''ValueError'' (''invalid literal for int() with base 10: '' @
                       py_repr (last (split_on (CHR ''-'') s)))))
      | Inr _ \<Rightarrow> Inl attribute_error)"

definition get_dut_def :: "board_config \<Rightarrow> raised + device" where
  "get_dut_def c =
     (case (case dict_get (bc_env c) ''environment_def'' of None \<Rightarrow> JObj [] | Some v \<Rightarrow> v) of
        JObj environment_def \<Rightarrow>
          (let board = get_or_none environment_def ''board'';
               dut = (if truthy board then board else get_or_none environment_def ''ntu'')
           in case dut of
                JObj d \<Rightarrow> Inr d
              | _ \<Rightarrow> Inl (env_error ''No 'board' or 'ntu' definition found in env config.''))
      | _ \<Rightarrow> Inl attribute_error)"

text \<open>The three queries differ in the key and the message; a missing key or definition is reported alike,
  an error of the configuration passes.\<close>

definition dut_item :: "string \<Rightarrow> string \<Rightarrow> board_config \<Rightarrow> raised + json" where
  "dut_item k msg c =
     (case get_dut_def c of
        Inl e \<Rightarrow> (if rx_class e = EnvConfigError then Inl e else Inl (env_error msg))
      | Inr d \<Rightarrow> (case get_item d k of Inl e \<Rightarrow> Inl (env_error msg) | Inr v \<Rightarrow> Inr v))"

definition get_board_sku :: "board_config \<Rightarrow> raised + json" where
  "get_board_sku c = dut_item ''SKU'' ''Board SKU is not found in env config.'' c"

definition get_board_model :: "board_config \<Rightarrow> raised + json" where
  "get_board_model c = dut_item ''model'' ''Unable to find board.model entry in env config.'' c"

definition get_prov_mode :: "board_config \<Rightarrow> raised + json" where
  "get_prov_mode c =
     dut_item ''eRouter_Provisioning_mode'' ''Unable to find eRouter_Provisioning_mode entry in env config.'' c"

section \<open>Requested clients\<close>

text \<open>A requested list as its entries; null means that nothing is requested.\<close>

fun as_dicts :: "json list \<Rightarrow> device list option" where
  "as_dicts [] = Some []"
| "as_dicts (JObj d # xs) = map_option ((#) d) (as_dicts xs)"
| "as_dicts (x # xs) = None"

definition requested :: "string \<Rightarrow> device \<Rightarrow> raised + device list option" where
  "requested key env =
     (case get_value_from_dict key env of
        JNull \<Rightarrow> Inr None
      | JList xs \<Rightarrow> (case as_dicts xs of Some ds \<Rightarrow> Inr (Some ds) | None \<Rightarrow> Inl attribute_error)
      | _ \<Rightarrow> Inl type_error)"

text \<open>\<^verbatim>\<open>sorted(..., key=lambda x: x.get("band"))\<close>: texts, or numbers, or at most one entry.\<close>

fun band_text :: "json \<Rightarrow> string" where
  "band_text (JStr s) = s"
| "band_text _ = []"

fun band_number :: "json \<Rightarrow> real" where
  "band_number (JInt i) = of_int i"
| "band_number (JReal r) = r"
| "band_number (JBool b) = (if b then 1 else 0)"
| "band_number _ = 0"

definition band :: "device \<Rightarrow> json" where
  "band d = get_or_none d ''band''"

definition sort_by_band :: "device list \<Rightarrow> raised + device list" where
  "sort_by_band ds =
     (if length ds \<le> 1 then Inr ds
      else if list_all (\<lambda>d. case band d of JStr s \<Rightarrow> True | _ \<Rightarrow> False) ds
      then Inr (sort_key (\<lambda>d. band_text (band d)) ds)
      else if list_all (\<lambda>d. case band d of JInt i \<Rightarrow> True | JReal r \<Rightarrow> True | JBool b \<Rightarrow> True | _ \<Rightarrow> False) ds
      then Inr (sort_key (\<lambda>d. band_number (band d)) ds)
      else Inl type_error)"

definition serves :: "device \<Rightarrow> device \<Rightarrow> bool" where
  "serves device client \<longleftrightarrow> band device = band client \<or> band device = JStr ''dual''"

text \<open>The matching loop: the first device of the client's band or of both bands, taken out of the copy. The
  message leaves out the client's rendering.\<close>

fun match_clients :: "device list \<Rightarrow> device list \<Rightarrow> raised + device list" where
  "match_clients devices [] = Inr []"
| "match_clients devices (client # clients) =
     (case find (\<lambda>d. serves d client) devices of
        None \<Rightarrow> Inl (env_error ''Unable to find a wifi device for an env config Wi-Fi client in inventory config'')
      | Some d \<Rightarrow>
         (case match_clients (if d \<noteq> [] then remove1 d devices else devices) clients of
            Inl e \<Rightarrow> Inl e
          | Inr merged \<Rightarrow> Inr (dict_merge d client # merged)))"

definition merge_with_wifi_config :: "device list \<Rightarrow> device \<Rightarrow> raised + device list" where
  "merge_with_wifi_config wifi_devices env =
     (case requested ''wifi_clients'' env of
        Inl e \<Rightarrow> Inl e
      | Inr None \<Rightarrow> Inr []
      | Inr (Some clients) \<Rightarrow>
         (if length wifi_devices < length clients
          then Inl (env_error (''Inventory config doesn't have '' @ int_str (int (length clients)) @
                 '' Wi-Fi clients requested by env config''))
          else case sort_by_band clients of
                 Inl e \<Rightarrow> Inl e
               | Inr cs \<Rightarrow> (case sort_by_band wifi_devices of Inl e \<Rightarrow> Inl e | Inr ds \<Rightarrow> match_clients ds cs)))"

definition merge_with_lan_config :: "device list \<Rightarrow> device \<Rightarrow> raised + device list" where
  "merge_with_lan_config lan_devices env =
     (case requested ''lan_clients'' env of
        Inl e \<Rightarrow> Inl e
      | Inr None \<Rightarrow> Inr []
      | Inr (Some clients) \<Rightarrow>
         (if length lan_devices < length clients
          then Inl (env_error (''Inventory config doesn't have '' @ int_str (int (length clients)) @
                 '' LAN clients requested by env config''))
          else Inr (map (\<lambda>(d, c). dict_merge d c) (zip lan_devices clients))))"

section \<open>Selecting the inventory\<close>

text \<open>
  Each result carries the full configuration as it is afterwards. The location's name is removed
  before it is looked up.
\<close>

fun stamp_board :: "string \<Rightarrow> json list \<Rightarrow> raised + json list" where
  "stamp_board resource [] = Inr []"
| "stamp_board resource (JObj d # ds) =
     (case get_item d ''name'' of
        Inl e \<Rightarrow> Inl e
      | Inr n \<Rightarrow>
         (if n = JStr ''board'' then Inr (JObj (dict_set ''resource_name'' (JStr resource) d) # ds)
          else case stamp_board resource ds of Inl e \<Rightarrow> Inl e | Inr ds' \<Rightarrow> Inr (JObj d # ds')))"
| "stamp_board resource (x # ds) = Inl type_error"

definition stamp_devices :: "string \<Rightarrow> device \<Rightarrow> raised + device" where
  "stamp_devices resource iv =
     (case dict_get iv ''devices'' of
        None \<Rightarrow> Inr iv
      | Some (JList ds) \<Rightarrow>
         (case stamp_board resource ds of Inl e \<Rightarrow> Inl e | Inr ds' \<Rightarrow> Inr (dict_set ''devices'' (JList ds') iv))
      | Some _ \<Rightarrow> Inl type_error)"

text \<open>What the location adds: its devices, or nothing when it lists none.\<close>

definition location_devices :: "json \<Rightarrow> device \<Rightarrow> raised + json list" where
  "location_devices location locations =
     (case location of
        JStr l \<Rightarrow>
          (case dict_get locations l of
             None \<Rightarrow> Inl (key_error l)
           | Some (JObj loc) \<Rightarrow>
              (case dict_get loc ''devices'' of
                 None \<Rightarrow> Inr [] | Some (JList ds) \<Rightarrow> Inr ds | Some _ \<Rightarrow> Inl type_error)
           | Some _ \<Rightarrow> Inl attribute_error)
      | _ \<Rightarrow> Inl (key_error []))"

definition add_location :: "device \<Rightarrow> device \<Rightarrow> (raised + unit) \<times> device" where
  "add_location full iv =
     (case dict_get iv ''location'' of
        None \<Rightarrow> (Inr (), iv)
      | Some location \<Rightarrow>
         (case (case dict_get full ''locations'' of None \<Rightarrow> JObj [] | Some l \<Rightarrow> l) of
            JObj locations \<Rightarrow>
              (if locations = []
               then (Inl (env_error ((case location of JStr l \<Rightarrow> py_repr l | _ \<Rightarrow> []) @ '' invalid location config'')), iv)
               else case get_item iv ''devices'' of
                      Inl e \<Rightarrow> (Inl e, iv)
                    | Inr devices \<Rightarrow>
                       (let inv1 = dict_pop ''location'' iv
                        in case location_devices location locations of
                             Inl e \<Rightarrow> (Inl e, inv1)
                           | Inr extra \<Rightarrow>
                              (case devices of
                                 JList ds \<Rightarrow> (Inr (), dict_set ''devices'' (JList (ds @ extra)) inv1)
                               | _ \<Rightarrow> (Inl type_error, inv1))))
          | _ \<Rightarrow> (Inl type_error, iv)))"

definition select_inventory :: "device \<Rightarrow> string \<Rightarrow> (raised + device) \<times> device" where
  "select_inventory full resource =
     (case dict_get full resource of
        None \<Rightarrow> (Inl (env_error (py_repr resource @ '' resource not found in inventory config'')), full)
      | Some (JObj iv) \<Rightarrow>
         (case add_location full iv of
            (Inl e, inv1) \<Rightarrow> (Inl e, dict_set resource (JObj inv1) full)
          | (Inr _, inv1) \<Rightarrow>
             (case stamp_devices resource inv1 of
                Inl e \<Rightarrow> (Inl e, dict_set resource (JObj inv1) full)
              | Inr inv2 \<Rightarrow> (Inr inv2, dict_set resource (JObj inv2) full)))
      | Some _ \<Rightarrow> (Inl type_error, full))"

section \<open>Parsing\<close>

definition of_types :: "string list \<Rightarrow> device \<Rightarrow> bool" where
  "of_types ts d \<longleftrightarrow> (case get_or_none d ''type'' of JStr s \<Rightarrow> s \<in> set ts | _ \<Rightarrow> False)"

definition wifi_type :: "device \<Rightarrow> bool" where
  "wifi_type d \<longleftrightarrow> of_types [''bf_wlan'', ''debian_wifi''] d"

definition lan_type :: "device \<Rightarrow> bool" where
  "lan_type d \<longleftrightarrow> of_types [''bf_lan'', ''debian_lan''] d"

text \<open>
  The other devices, each merged with its entry of the environment definition. A null or missing
  definition raises as soon as there is a device to look up.
\<close>

fun merge_others :: "(json \<Rightarrow> json \<Rightarrow> raised + device) \<Rightarrow> json \<Rightarrow> device list \<Rightarrow> raised + device list" where
  "merge_others merge environment_def [] = Inr []"
| "merge_others merge environment_def (d # ds) =
     (case environment_def of
        JObj ed \<Rightarrow>
          (case (case get_or_none d ''name'' of
                   JStr n \<Rightarrow> (case dict_get ed n of Some v \<Rightarrow> merge (JObj d) v | None \<Rightarrow> Inr d)
                 | JList _ \<Rightarrow> Inl type_error
                 | JObj _ \<Rightarrow> Inl type_error
                 | _ \<Rightarrow> Inr d) of
             Inl e \<Rightarrow> Inl e
           | Inr m \<Rightarrow> (case merge_others merge environment_def ds of Inl e \<Rightarrow> Inl e | Inr ms \<Rightarrow> Inr (m # ms)))
      | _ \<Rightarrow> Inl type_error)"

definition parse_boardfarm_config ::
  "(json \<Rightarrow> json \<Rightarrow> raised + device) \<Rightarrow> device \<Rightarrow> device \<Rightarrow> raised + board_config" where
  "parse_boardfarm_config merge inventory env =
     (case get_item inventory ''devices'' of
        Inl e \<Rightarrow> Inl e
      | Inr (JList xs) \<Rightarrow>
         (case as_dicts xs of
            None \<Rightarrow> Inl type_error
          | Some ds \<Rightarrow>
             (if list_ex (\<lambda>d. dict_get d ''type'' = None) ds then Inl (key_error ''type'')
              else let wifi = filter wifi_type ds; lan = filter lan_type ds;
                       others = filter (\<lambda>d. d \<notin> set (wifi @ lan)) ds
                   in case merge_others merge (get_or_none env ''environment_def'') others of
                        Inl e \<Rightarrow> Inl e
                      | Inr m1 \<Rightarrow>
                         (case merge_with_lan_config lan env of
                            Inl e \<Rightarrow> Inl e
                          | Inr m2 \<Rightarrow>
                             (case merge_with_wifi_config wifi env of
                                Inl e \<Rightarrow> Inl e
                              | Inr m3 \<Rightarrow>
                                  Inr \<lparr>bc_devices = m1 @ m2 @ m3, bc_env = env, bc_inventory = inventory\<rparr>))))
      | Inr _ \<Rightarrow> Inl type_error)"

section \<open>Facts\<close>

text \<open>A band that is a text no greater than the word for both.\<close>

definition ordered_band :: "device \<Rightarrow> bool" where
  "ordered_band d \<longleftrightarrow> (\<exists>b. band d = JStr b \<and> b \<le> ''dual'')"

definition assigned :: "device list \<Rightarrow> device list \<Rightarrow> device list \<Rightarrow> bool" where
  "assigned devices clients ds \<longleftrightarrow> mset ds \<subseteq># mset devices \<and> list_all2 serves ds clients"

lemma serves_not_Nil: "ordered_band c \<Longrightarrow> serves d c \<Longrightarrow> d \<noteq> []"
  by (auto simp: serves_def ordered_band_def band_def get_or_none_def)

text \<open>In sorted devices the loop prefers a device of the client's own band.\<close>

lemma find_prefers_own:
  assumes s: "sorted (map (\<lambda>d. band_text (band d)) devices)" and c: "ordered_band c"
    and f: "find (\<lambda>d. serves d c) devices = Some d" and o': "\<forall>d\<in>set devices. ordered_band d"
  shows "band d = band c \<or> (band d = JStr ''dual'' \<and> (\<forall>d'\<in>set devices. band d' \<noteq> band c))"
proof (rule disjCI)
  assume n: "\<not> (band d = JStr ''dual'' \<and> (\<forall>d'\<in>set devices. band d' \<noteq> band c))"
  obtain i where i: "i < length devices" "devices ! i = d" "serves d c" "\<forall>j<i. \<not> serves (devices ! j) c"
    using f by (auto simp: find_Some_iff)
  show "band d = band c"
  proof (rule ccontr)
    assume ne: "band d \<noteq> band c"
    then have dual: "band d = JStr ''dual''" using i(3) by (simp add: serves_def)
    with n obtain j where j: "j < length devices" "band (devices ! j) = band c" by (metis in_set_conv_nth)
    then have "serves (devices ! j) c" by (simp add: serves_def)
    then have "i \<le> j" using i(4) by (meson not_le_imp_less)
    then have "band_text (band (devices ! i)) \<le> band_text (band (devices ! j))"
      using sorted_nth_mono [OF s, of i j] i(1) j(1) by simp
    moreover obtain b where "band c = JStr b" "b \<le> ''dual''" using c by (auto simp: ordered_band_def)
    ultimately show False using j(2) i(2) dual ne by simp
  qed
qed

lemma exchange:
  assumes a: "assigned devices (c # cs) (d0 # ds)" and d: "d \<in> set devices" "serves d c"
    and pref: "band d = band c \<or> (band d = JStr ''dual'' \<and> (\<forall>d'\<in>set devices. band d' \<noteq> band c))"
  shows "\<exists>ds'. assigned (remove1 d devices) cs ds'"
proof -
  have m: "mset ds + {#d0#} \<subseteq># mset devices" and l: "list_all2 serves ds cs" and s0: "serves d0 c"
    using a by (auto simp: assigned_def)
  have cnt: "count (mset ds) x + (if x = d0 then 1 else 0) \<le> count (mset devices) x" for x
    using m [unfolded subseteq_mset_def, rule_format, of x] by (auto split: if_splits)
  have d0: "d0 \<in> set devices" using m by (metis add_mset_add_single mset_subset_eq_insertD set_mset_mset)
  show ?thesis
  proof (cases "d \<in> set ds \<and> d \<noteq> d0")
    case True
    then obtain i where i: "i < length ds" "ds ! i = d" by (auto simp: in_set_conv_nth)
    have "serves d (cs ! i)" using l i by (auto simp: list_all2_conv_all_nth)
    then have s: "serves d0 (cs ! i)" using s0 pref d0 by (auto simp: serves_def)
    have "mset (ds[i := d0]) = mset ds - {#d#} + {#d0#}" using i by (simp add: mset_update)
    also have "\<dots> \<subseteq># mset devices - {#d#}"
      unfolding subseteq_mset_def
    proof
      fix x
      have "1 \<le> count (mset ds) d" using True by simp
      then show "count (mset ds - {#d#} + {#d0#}) x \<le> count (mset devices - {#d#}) x"
        using cnt [of x] cnt [of d] True by (cases "x = d"; cases "x = d0") auto
    qed
    finally have "mset (ds[i := d0]) \<subseteq># mset (remove1 d devices)" by simp
    moreover have "list_all2 serves (ds[i := d0]) cs"
      using l s i by (auto simp: list_all2_conv_all_nth nth_list_update)
    ultimately show ?thesis by (auto simp: assigned_def)
  next
    case False
    have "count (mset ds) x \<le> count (mset devices - {#d#}) x" for x
    proof (cases "x = d \<and> d \<noteq> d0")
      case True
      then have "x \<notin> set ds" using False by simp
      then have "count (mset ds) x = 0" by (simp only: count_eq_zero_iff set_mset_mset) simp
      then show ?thesis by linarith
    next
      case False
      then show ?thesis using cnt [of x] by (auto split: if_splits)
    qed
    then have "mset ds \<subseteq># mset (remove1 d devices)" by (simp add: subseteq_mset_def)
    then show ?thesis using l by (auto simp: assigned_def)
  qed
qed

lemma match_clients_sound:
  assumes "\<forall>c\<in>set clients. ordered_band c" and "match_clients devices clients = Inr ms"
  shows "\<exists>ds. assigned devices clients ds \<and> ms = map (\<lambda>(d, c). dict_merge d c) (zip ds clients)"
  using assms
proof (induction devices clients arbitrary: ms rule: match_clients.induct)
  case (1 devices)
  then show ?case by (auto simp: assigned_def)
next
  case (2 devices c cs)
  then obtain d ms' where d: "find (\<lambda>d. serves d c) devices = Some d"
    and ms: "ms = dict_merge d c # ms'" "match_clients (if d \<noteq> [] then remove1 d devices else devices) cs = Inr ms'"
    by (auto split: option.splits sum.splits)
  have s: "d \<in> set devices" "serves d c" using find_SomeD [OF d] by auto
  have "d \<noteq> []" using serves_not_Nil 2(2) s(2) by auto
  then obtain ds where "assigned (remove1 d devices) cs ds" "ms' = map (\<lambda>(d, c). dict_merge d c) (zip ds cs)"
    using 2(1) [OF d] 2(2) ms(2) by auto
  then show ?case
    using s ms(1) by (intro exI [of _ "d # ds"]) (auto simp: assigned_def insert_subset_eq_iff)
qed

lemma match_clients_complete:
  assumes "\<forall>c\<in>set clients. ordered_band c" and "\<forall>d\<in>set devices. ordered_band d"
    and "sorted (map (\<lambda>d. band_text (band d)) devices)" and "assigned devices clients ds"
  shows "\<exists>ms. match_clients devices clients = Inr ms"
  using assms
proof (induction devices clients arbitrary: ds rule: match_clients.induct)
  case (2 devices c cs)
  from 2(5) obtain d0 ds' where ds: "ds = d0 # ds'" by (cases ds) (auto simp: assigned_def)
  have d0: "d0 \<in> set devices" "serves d0 c"
    using 2(5) ds by (auto simp: assigned_def insert_subset_eq_iff)
  then obtain d where d: "find (\<lambda>d. serves d c) devices = Some d"
    by (cases "find (\<lambda>d. serves d c) devices") (auto simp: find_None_iff)
  have s: "d \<in> set devices" "serves d c" using find_SomeD [OF d] by auto
  have ne: "d \<noteq> []" using serves_not_Nil 2(2) s(2) by auto
  have "band d = band c \<or> (band d = JStr ''dual'' \<and> (\<forall>d'\<in>set devices. band d' \<noteq> band c))"
    by (rule find_prefers_own [OF 2(4) _ d 2(3)]) (use 2(2) in simp)
  from exchange [OF 2(5) [unfolded ds] s this] obtain ds2 where a: "assigned (remove1 d devices) cs ds2" by blast
  have "sorted (map (\<lambda>d. band_text (band d)) (remove1 d devices))"
    by (rule sorted_map_remove1 [OF 2(4)])
  then obtain ms where "match_clients (remove1 d devices) cs = Inr ms"
    using 2(1) [OF d, of ds2] 2(2,3) a ne by (auto dest: notin_set_remove1)
  then show ?case using d ne by simp
qed simp

lemma sort_by_band_text:
  assumes "\<forall>d\<in>set ds. ordered_band d"
  obtains ds' where "sort_by_band ds = Inr ds'" and "mset ds' = mset ds"
    and "sorted (map (\<lambda>d. band_text (band d)) ds')"
proof (cases "length ds \<le> 1")
  case True
  then have "sorted (map (\<lambda>d. band_text (band d)) ds)" by (cases ds) (auto simp: le_Suc_eq)
  then show thesis using that [of ds] True by (simp add: sort_by_band_def)
next
  case False
  have "list_all (\<lambda>d. case band d of JStr s \<Rightarrow> True | _ \<Rightarrow> False) ds"
    using assms by (auto simp: list_all_iff ordered_band_def split: json.splits)
  then show thesis
    using that [of "sort_key (\<lambda>d. band_text (band d)) ds"] False by (simp add: sort_by_band_def)
qed

section \<open>Properties\<close>

lemma assigned_permute:
  assumes "assigned wifi xs ds" and "mset ys = mset xs"
  shows "\<exists>ds'. assigned wifi ys ds'"
proof -
  have "list_all2 (\<lambda>c d. serves d c) xs ds"
    using assms(1) by (auto simp: assigned_def list_all2_conv_all_nth)
  from list_all2_reorder_left_invariance [OF this assms(2)]
  obtain ds' where "list_all2 (\<lambda>c d. serves d c) ys ds'" "mset ds' = mset ds" by blast
  then have "assigned wifi ys ds'" using assms(1) by (simp add: assigned_def list_all2_conv_all_nth)
  then show ?thesis by blast
qed

text \<open>C19: Wi-Fi clients are matched whenever they can be. When every band is a text up to the word dual, the
  request succeeds exactly if distinct inventory devices exist that serve the clients one by one: the
  greedy loop over the sorted lists misses no assignment. On success every client, in the order of the
  bands, is merged into a device that serves it, and no device is used twice.\<close>

theorem wifi_matching_complete:
  assumes "requested ''wifi_clients'' env = Inr (Some clients)"
    and "\<forall>c\<in>set clients. ordered_band c" and "\<forall>d\<in>set wifi. ordered_band d"
  shows "((\<exists>ms. merge_with_wifi_config wifi env = Inr ms) \<longleftrightarrow> (\<exists>ds. assigned wifi clients ds)) \<and>
    (\<forall>ms. merge_with_wifi_config wifi env = Inr ms \<longrightarrow>
      (\<exists>cs ds. mset cs = mset clients \<and> sorted (map (\<lambda>c. band_text (band c)) cs) \<and> assigned wifi cs ds \<and>
         ms = map (\<lambda>(d, c). dict_merge d c) (zip ds cs)))"
proof -
  obtain cs where cs: "sort_by_band clients = Inr cs" "mset cs = mset clients"
      "sorted (map (\<lambda>c. band_text (band c)) cs)" using sort_by_band_text [OF assms(2)] .
  obtain ws where ws: "sort_by_band wifi = Inr ws" "mset ws = mset wifi"
      "sorted (map (\<lambda>d. band_text (band d)) ws)" using sort_by_band_text [OF assms(3)] .
  have sets: "set cs = set clients" "set ws = set wifi" using cs(2) ws(2) by (metis set_mset_mset)+
  have as: "assigned ws cs ds \<longleftrightarrow> assigned wifi cs ds" for ds using ws(2) by (simp add: assigned_def)
  have run: "merge_with_wifi_config wifi env =
      (if length wifi < length clients
       then Inl (env_error (''Inventory config doesn't have '' @ int_str (int (length clients)) @ '' Wi-Fi clients requested by env config''))
       else match_clients ws cs)"
    by (simp add: merge_with_wifi_config_def assms(1) cs(1) ws(1))
  note perm = assigned_permute
  have enough: "length clients \<le> length wifi" if "assigned wifi clients ds" for ds
    using that size_mset_mono [of "mset ds" "mset wifi"] by (auto simp: assigned_def dest: list_all2_lengthD)
  have sound: "\<exists>ds. assigned wifi cs ds \<and> ms = map (\<lambda>(d, c). dict_merge d c) (zip ds cs)"
    if "match_clients ws cs = Inr ms" for ms
    using match_clients_sound [OF _ that] assms(2) sets(1) as by auto
  have "\<exists>ms. merge_with_wifi_config wifi env = Inr ms" if a: "assigned wifi clients ds" for ds
  proof -
    obtain ds' where "assigned ws cs ds'" using perm [OF a cs(2)] as by blast
    then show ?thesis
      using match_clients_complete [of cs ws ds'] assms(2,3) sets ws(3) enough [OF a] by (auto simp: run)
  qed
  moreover have "\<exists>ds. assigned wifi clients ds" if "merge_with_wifi_config wifi env = Inr ms" for ms
  proof -
    have "match_clients ws cs = Inr ms" using that by (auto simp: run split: if_splits)
    from sound [OF this] obtain ds where "assigned wifi cs ds" by blast
    from perm [OF this cs(2) [symmetric]] show ?thesis .
  qed
  moreover have "\<exists>cs ds. mset cs = mset clients \<and> sorted (map (\<lambda>c. band_text (band c)) cs) \<and> assigned wifi cs ds \<and>
       ms = map (\<lambda>(d, c). dict_merge d c) (zip ds cs)" if "merge_with_wifi_config wifi env = Inr ms" for ms
  proof -
    have "match_clients ws cs = Inr ms" using that by (auto simp: run split: if_splits)
    then show ?thesis using sound cs(2,3) by blast
  qed
  ultimately show ?thesis by blast
qed

definition demo_client :: "string \<Rightarrow> string \<Rightarrow> device" where
  "demo_client n b = [(''name'', JStr n), (''band'', JStr b)]"

definition demo_env :: device where
  "demo_env = [(''environment_def'', JObj [(''board'', JObj
     [(''wifi_clients'', JList [JObj (demo_client ''c1'' ''5''), JObj (demo_client ''c2'' ''2.4'')])])])]"

theorem wifi_matching_complete_witness:
  "\<exists>ms. merge_with_wifi_config [demo_client ''w1'' ''dual'', demo_client ''w2'' ''5''] demo_env = Inr ms"
proof -
  let ?cs = "[demo_client ''c1'' ''5'', demo_client ''c2'' ''2.4'']"
  let ?ws = "[demo_client ''w1'' ''dual'', demo_client ''w2'' ''5'']"
  have r: "requested ''wifi_clients'' demo_env = Inr (Some ?cs)"
    by (simp add: requested_def demo_env_def)
  have o': "\<forall>c\<in>set ?cs. ordered_band c" "\<forall>d\<in>set ?ws. ordered_band d"
    by (auto simp: ordered_band_def band_def get_or_none_def demo_client_def less_char_def less_eq_char_def)
  have "assigned ?ws ?cs [demo_client ''w2'' ''5'', demo_client ''w1'' ''dual'']"
    by (simp add: assigned_def serves_def band_def get_or_none_def demo_client_def add_mset_commute)
  then show ?thesis using wifi_matching_complete [OF r o'] by blast
qed

lemma dict_set_same: "dict_get d k = Some v \<Longrightarrow> dict_set k v d = d"
  by (induction d) (auto split: if_splits)

definition is_board :: "json \<Rightarrow> bool" where
  "is_board x \<longleftrightarrow> (case x of JObj d \<Rightarrow> dict_get d ''name'' = Some (JStr ''board'') | _ \<Rightarrow> False)"

lemma stamp_board_stable:
  "stamp_board resource ds = Inr ds' \<Longrightarrow> stamp_board resource ds' = Inr ds' \<and>
    (\<forall>d. find is_board ds' = Some (JObj d) \<longrightarrow> dict_get d ''resource_name'' = Some (JStr resource))"
proof (induction resource ds arbitrary: ds' rule: stamp_board.induct)
  case (2 resource d ds)
  then obtain n where n: "dict_get d ''name'' = Some n" by (auto simp: get_item_def split: option.splits)
  show ?case
  proof (cases "n = JStr ''board''")
    case True
    then have "ds' = JObj (dict_set ''resource_name'' (JStr resource) d) # ds" using 2(2) n by (simp add: get_item_def)
    then show ?thesis using n True by (simp add: get_item_def is_board_def dict_set_same)
  next
    case False
    then obtain es where "stamp_board resource ds = Inr es" "ds' = JObj d # es"
      using 2(2) n by (auto simp: get_item_def split: sum.splits)
    then show ?thesis using 2(1) n False by (auto simp: get_item_def is_board_def)
  qed
qed auto

lemma stamp_devices_stable:
  assumes "stamp_devices resource iv = Inr iv'"
  shows "stamp_devices resource iv' = Inr iv'" and "dict_get iv' ''location'' = dict_get iv ''location''"
    and "dict_get iv' ''devices'' = Some (JList ds) \<Longrightarrow> find is_board ds = Some (JObj d) \<Longrightarrow>
      dict_get d ''resource_name'' = Some (JStr resource)"
proof -
  consider (none) "dict_get iv ''devices'' = None" "iv' = iv"
    | (some) ds ds' where "dict_get iv ''devices'' = Some (JList ds)" "stamp_board resource ds = Inr ds'"
      "iv' = dict_set ''devices'' (JList ds') iv"
    using assms by (auto simp: stamp_devices_def split: option.splits json.splits sum.splits)
  then have "stamp_devices resource iv' = Inr iv' \<and> dict_get iv' ''location'' = dict_get iv ''location'' \<and>
    (dict_get iv' ''devices'' = Some (JList ds) \<longrightarrow> find is_board ds = Some (JObj d) \<longrightarrow>
      dict_get d ''resource_name'' = Some (JStr resource))"
  proof cases
    case none
    then show ?thesis using assms by simp
  next
    case some
    then show ?thesis using stamp_board_stable [OF some(2)] by (auto simp: stamp_devices_def dict_set_same)
  qed
  then show "stamp_devices resource iv' = Inr iv'" "dict_get iv' ''location'' = dict_get iv ''location''"
    "dict_get iv' ''devices'' = Some (JList ds) \<Longrightarrow> find is_board ds = Some (JObj d) \<Longrightarrow>
      dict_get d ''resource_name'' = Some (JStr resource)" by auto
qed

lemma add_location_used: "add_location full iv = (Inr (), iv') \<Longrightarrow> dict_get iv' ''location'' = None"
  by (auto simp: add_location_def Let_def split: option.splits json.splits if_splits sum.splits)

lemma select_inventory_again:
  assumes "select_inventory full resource = (Inr iv, full')"
  shows "select_inventory full' resource = (Inr iv, full')" and "dict_get iv ''location'' = None"
    and "\<forall>ds d. dict_get iv ''devices'' = Some (JList ds) \<and> find is_board ds = Some (JObj d) \<longrightarrow>
       dict_get d ''resource_name'' = Some (JStr resource)"
    and "\<forall>k. k \<noteq> resource \<longrightarrow> dict_get full' k = dict_get full k"
proof -
  obtain iv0 iv1 where i: "dict_get full resource = Some (JObj iv0)" "add_location full iv0 = (Inr (), iv1)"
      "stamp_devices resource iv1 = Inr iv" "full' = dict_set resource (JObj iv) full"
    using assms by (auto simp: select_inventory_def split: option.splits json.splits prod.splits sum.splits)
  note s = stamp_devices_stable [OF i(3)]
  have loc: "dict_get iv ''location'' = None" using s(2) add_location_used [OF i(2)] by simp
  have "add_location full' iv = (Inr (), iv)" by (simp add: add_location_def loc)
  then show "select_inventory full' resource = (Inr iv, full')"
    using s(1) by (simp add: select_inventory_def i(4) dict_set_same)
  show "dict_get iv ''location'' = None" by (rule loc)
  show "\<forall>ds d. dict_get iv ''devices'' = Some (JList ds) \<and> find is_board ds = Some (JObj d) \<longrightarrow>
      dict_get d ''resource_name'' = Some (JStr resource)" using s(3) by blast
  show "\<forall>k. k \<noteq> resource \<longrightarrow> dict_get full' k = dict_get full k" by (simp add: i(4))
qed

text \<open>Selecting an inventory is stable. When it succeeds, the board among its devices carries the
  resource's name, the location is used up, nothing but this resource's entry has changed in the full
  configuration, and selecting again from what is left gives the same inventory: no location's
  devices are added twice.\<close>

theorem select_inventory_stable:
  assumes "select_inventory full resource = (Inr iv, full')"
  shows "select_inventory full' resource = (Inr iv, full') \<and>
    dict_get iv ''location'' = None \<and>
    (\<forall>ds d. dict_get iv ''devices'' = Some (JList ds) \<and> find is_board ds = Some (JObj d) \<longrightarrow>
       dict_get d ''resource_name'' = Some (JStr resource)) \<and>
    (\<forall>k. k \<noteq> resource \<longrightarrow> dict_get full' k = dict_get full k)"
  using select_inventory_again [OF assms] by blast

definition demo_inventory :: device where
  "demo_inventory =
     [(''locations'', JObj [(''lab'', JObj [(''devices'', JList [JObj [(''name'', JStr ''acs'')]])])]),
      (''rack-1'', JObj [(''devices'', JList [JObj [(''name'', JStr ''board'')]]), (''location'', JStr ''lab'')])]"

theorem select_inventory_stable_witness:
  "\<exists>iv full'. select_inventory demo_inventory ''rack-1'' = (Inr iv, full') \<and>
     select_inventory full' ''rack-1'' = (Inr iv, full')"
proof -
  have "\<exists>iv full'. select_inventory demo_inventory ''rack-1'' = (Inr iv, full')"
    by (simp add: demo_inventory_def select_inventory_def add_location_def get_item_def location_devices_def
        stamp_devices_def)
  then show ?thesis using select_inventory_stable by blast
qed

end
