(* ===== verification/Deployment.thy ===== *)
theory Deployment
  imports Board_Config
begin

text \<open>
  Deploying a test bed: the device manager (\<^verbatim>\<open>boardfarm3/lib/device_manager.py\<close>), the getters on top of
  it (\<^verbatim>\<open>use_cases/device_getters.py\<close>), the registration of a configuration's devices
  (\<^verbatim>\<open>plugins/core.py\<close>), the boot chain (\<^verbatim>\<open>plugins/setup_environment.py\<close>) and the command
  (\<^verbatim>\<open>boardfarm3/main.py\<close>).

  A plugin manager keeps its plugins by name, in the order of their registration; a blocked name is
  kept with no plugin, and registering it does nothing, as pluggy documents. The process's one
  device manager is the flag \<open>dm_initialized\<close>. A device class is a constructor that may raise.
\<close>

section \<open>The device manager\<close>

record 'v manager =
  dm_initialized :: bool
  dm_plugins :: "(string, 'v option) dict"

definition not_found :: "string \<Rightarrow> raised" where
  "not_found m = py_error DeviceNotFound ''DeviceNotFound'' m"

definition init_manager :: "'v manager \<Rightarrow> (raised + unit) \<times> 'v manager" where
  "init_manager m =
     (if dm_initialized m then (Inl (value_error ''DeviceManager is already initialized.''), m)
      else (Inr (), m\<lparr>dm_initialized := True\<rparr>))"

definition get_devices_by_type :: "('v \<Rightarrow> bool) \<Rightarrow> 'v manager \<Rightarrow> (string, 'v) dict" where
  "get_devices_by_type is_a m =
     concat (map (\<lambda>p. case snd p of Some v \<Rightarrow> if is_a v then [(fst p, v)] else [] | None \<Rightarrow> []) (dm_plugins m))"

definition get_device_by_type :: "('v \<Rightarrow> bool) \<Rightarrow> string \<Rightarrow> 'v manager \<Rightarrow> raised + 'v" where
  "get_device_by_type is_a label m =
     (case get_devices_by_type is_a m of
        [] \<Rightarrow> Inl (not_found (''No device available of type '' @ label))
      | p # ps \<Rightarrow> Inr (snd p))"

definition get_device_by_name :: "string \<Rightarrow> 'v manager \<Rightarrow> raised + 'v" where
  "get_device_by_name name m =
     (case dict_get (dm_plugins m) name of
        Some (Some v) \<Rightarrow> Inr v
      | _ \<Rightarrow> Inl (not_found (''No device registered with name '' @ name)))"

definition register_device :: "string \<Rightarrow> 'v \<Rightarrow> 'v manager \<Rightarrow> (raised + unit) \<times> 'v manager" where
  "register_device name v m =
     (case dict_get (dm_plugins m) name of
        None \<Rightarrow> (Inr (), m\<lparr>dm_plugins := dm_plugins m @ [(name, Some v)]\<rparr>)
      | Some None \<Rightarrow> (Inr (), m)
      | Some (Some _) \<Rightarrow> (Inl (value_error (''Plugin name already registered: '' @ name)), m))"

definition unregister_device :: "string \<Rightarrow> 'v manager \<Rightarrow> 'v manager" where
  "unregister_device name m = m\<lparr>dm_plugins := dict_pop name (dm_plugins m) @ [(name, None)]\<rparr>"

definition get_device_manager :: "'v manager \<Rightarrow> raised + 'v manager" where
  "get_device_manager m =
     (if dm_initialized m then Inr m else Inl (value_error ''DeviceManager is not instantiated.''))"

text \<open>\<^verbatim>\<open>get_lan_clients\<close> and \<^verbatim>\<open>get_wan_clients\<close> differ in the type and its label.\<close>

definition get_clients :: "('v \<Rightarrow> bool) \<Rightarrow> string \<Rightarrow> int \<Rightarrow> 'v manager \<Rightarrow> raised + 'v list" where
  "get_clients is_a label amount m =
     (case get_device_manager m of
        Inl e \<Rightarrow> Inl e
      | Inr dm \<Rightarrow>
         (let devices = map snd (get_devices_by_type is_a dm)
          in if \<not> (0 < amount \<and> amount \<le> int (length devices))
             then Inl (not_found (''Invalid count provided. Only '' @ int_str (int (length devices)) @ '' '' @
                    label @ '' clients available''))
             else Inr (take (nat amount) devices)))"

definition device_getter :: "('v \<Rightarrow> bool) \<Rightarrow> string \<Rightarrow> 'v manager \<Rightarrow> raised + 'v" where
  "device_getter is_a label m =
     (case get_device_manager m of
        Inl e \<Rightarrow> Inl e
      | Inr dm \<Rightarrow>
         (case get_devices_by_type is_a dm of
            [] \<Rightarrow> Inl (value_error (''There are no '' @ label @ '' devices available''))
          | [p] \<Rightarrow> Inr (snd p)
          | _ \<Rightarrow> Inl (value_error (''More than 1 '' @ label @ '' devices found''))))"

section \<open>Registering the devices of a configuration\<close>

type_synonym 'v device_class = "device \<Rightarrow> raised + 'v"

text \<open>\<^verbatim>\<open>ChainMap(*maps)\<close>: the first map that has the key.\<close>

fun chain_get :: "(string, 'a) dict list \<Rightarrow> json \<Rightarrow> 'a option" where
  "chain_get [] k = None"
| "chain_get (m # ms) k =
     (case k of
        JStr s \<Rightarrow> (case dict_get m s of Some v \<Rightarrow> Some v | None \<Rightarrow> chain_get ms k)
      | _ \<Rightarrow> None)"

definition ignored :: "string \<Rightarrow> device \<Rightarrow> bool" where
  "ignored ignore_devices d \<longleftrightarrow>
     (case get_or_none d ''name'' of JStr n \<Rightarrow> n \<in> set (split_on (CHR '','') ignore_devices) | _ \<Rightarrow> False)"

definition device_name :: "device \<Rightarrow> string" where
  "device_name d = (case get_or_none d ''name'' of JStr n \<Rightarrow> n | _ \<Rightarrow> [])"

text \<open>The text of the message; the type of a known device is a hashable value.\<close>

fun type_text :: "json \<Rightarrow> string" where
  "type_text (JStr t) = t"
| "type_text (JInt n) = int_str n"
| "type_text (JBool b) = (if b then ''True'' else ''False'')"
| "type_text JNull = ''None''"
| "type_text v = []"

definition unknown_device :: "json \<Rightarrow> raised" where
  "unknown_device t =
     (case t of
        JList xs \<Rightarrow> type_error
      | JObj kvs \<Rightarrow> type_error
      | _ \<Rightarrow> env_error (type_text t @ '' - Unknown boardfarm device, please register '' @ type_text t @
               '' device using boardfarm_add_devices hook''))"

fun register_all ::
  "(string, 'v device_class) dict list \<Rightarrow> string \<Rightarrow> device list \<Rightarrow> 'v manager \<Rightarrow> (raised + unit) \<times> 'v manager" where
  "register_all known ignore_devices [] m = (Inr (), m)"
| "register_all known ignore_devices (d # ds) m =
     (if ignored ignore_devices d then register_all known ignore_devices ds m
      else case chain_get known (get_or_none d ''type'') of
             None \<Rightarrow> (Inl (unknown_device (get_or_none d ''type'')), m)
           | Some cls \<Rightarrow>
              (case cls d of
                 Inl e \<Rightarrow> (Inl e, m)
               | Inr v \<Rightarrow>
                  (case register_device (device_name d) v m of
                     (Inl e, m') \<Rightarrow> (Inl e, m')
                   | (Inr _, m') \<Rightarrow> register_all known ignore_devices ds m')))"

definition register_devices ::
  "(string, 'v device_class) dict list \<Rightarrow> string \<Rightarrow> board_config \<Rightarrow> 'v manager \<Rightarrow> (raised + unit) \<times> 'v manager" where
  "register_devices known ignore_devices config m =
     (case init_manager m of
        (Inl e, m1) \<Rightarrow> (Inl e, m1)
      | (Inr _, m1) \<Rightarrow> register_all known ignore_devices (bc_devices config) m1)"

section \<open>The boot chain\<close>

text \<open>
  \<open>has\<close> says whether a device implements a hook. A stage runs concurrently only when every device that
  implements the blocking hook implements the asynchronous one and conversely; \<open>run\<close> is the hook call,
  on the state of the test bed.
\<close>

definition is_async_hook_supported :: "bool \<Rightarrow> ('v \<Rightarrow> string \<Rightarrow> bool) \<Rightarrow> string \<Rightarrow> 'v list \<Rightarrow> bool" where
  "is_async_hook_supported taskgroup has hook devices \<longleftrightarrow>
     taskgroup \<and> filter (\<lambda>d. has d (hook @ ''_async'')) devices = filter (\<lambda>d. has d hook) devices"

definition run_hook ::
  "(bool \<Rightarrow> string \<Rightarrow> 'w \<Rightarrow> raised option \<times> 'w) \<Rightarrow> bool \<Rightarrow> ('v \<Rightarrow> string \<Rightarrow> bool) \<Rightarrow> 'v list \<Rightarrow> string \<Rightarrow> 'w
   \<Rightarrow> raised option \<times> 'w" where
  "run_hook run taskgroup has devices hook w = run (is_async_hook_supported taskgroup has hook devices) hook w"

definition BOOT_HOOKS :: "string list" where
  "BOOT_HOOKS =
     [''validate_device_requirements'', ''boardfarm_server_boot'', ''boardfarm_server_configure'',
      ''boardfarm_device_boot'', ''boardfarm_device_configure'', ''boardfarm_attached_device_boot'',
      ''boardfarm_attached_device_configure'']"

fun run_hooks :: "(string \<Rightarrow> 'w \<Rightarrow> raised option \<times> 'w) \<Rightarrow> string list \<Rightarrow> 'w \<Rightarrow> raised option \<times> 'w" where
  "run_hooks run [] w = (None, w)"
| "run_hooks run (h # hs) w = (case run h w of (Some e, w') \<Rightarrow> (Some e, w') | (None, w') \<Rightarrow> run_hooks run hs w')"

definition setup_env ::
  "(bool \<Rightarrow> string \<Rightarrow> 'w \<Rightarrow> raised option \<times> 'w) \<Rightarrow> bool \<Rightarrow> ('v \<Rightarrow> string \<Rightarrow> bool) \<Rightarrow> 'v list \<Rightarrow> bool \<Rightarrow> 'w
   \<Rightarrow> raised option \<times> 'w" where
  "setup_env run taskgroup has devices skip_boot w =
     (if skip_boot then run_hook run taskgroup has devices ''boardfarm_skip_boot'' w
      else run_hooks (run_hook run taskgroup has devices) BOOT_HOOKS w)"

section \<open>The command\<close>

text \<open>
  The part of \<^verbatim>\<open>main\<close> after the configuration is parsed. \<open>register\<close>, \<open>setup\<close> and \<open>post\<close> may raise;
  \<open>release\<close> is the release hook with the deployment status. When registering raised, the name
  \<^verbatim>\<open>device_manager\<close> is unbound in the \<^verbatim>\<open>finally\<close> clause, so reading it raises in turn.
\<close>

record 'w deployment =
  de_register :: "'w \<Rightarrow> raised option \<times> 'w"
  de_setup :: "'w \<Rightarrow> raised option \<times> 'w"
  de_post :: "'w \<Rightarrow> raised option \<times> 'w"
  de_release :: "json \<Rightarrow> 'w \<Rightarrow> raised option \<times> 'w"

definition failed_status :: "raised \<Rightarrow> json" where
  "failed_status e = JObj [(''status'', JStr ''failed''), (''exception'', JStr (rx_message e))]"

definition release_after :: "'w deployment \<Rightarrow> raised option \<Rightarrow> 'w \<Rightarrow> raised option \<times> 'w" where
  "release_after d r w =
     (case de_release d (case r of None \<Rightarrow> JObj [(''status'', JStr ''success'')] | Some e \<Rightarrow> failed_status e) w of
        (Some e', w') \<Rightarrow> (Some e', w')
      | (None, w') \<Rightarrow> (r, w'))"

definition deploy :: "'w deployment \<Rightarrow> 'w \<Rightarrow> raised option \<times> 'w" where
  "deploy d w =
     (case de_register d w of
        (Some e, w1) \<Rightarrow>
          (Some (py_error PyException ''UnboundLocalError''
             ''cannot access local variable 'device_manager' where it is not associated with a value''), w1)
      | (None, w1) \<Rightarrow>
         (case de_setup d w1 of
            (Some e, w2) \<Rightarrow> release_after d (Some e) w2
          | (None, w2) \<Rightarrow> (case de_post d w2 of (r, w3) \<Rightarrow> release_after d r w3)))"

section \<open>Facts\<close>

lemma init_manager_twice:
  "dm_initialized (snd (init_manager m))"
  by (simp add: init_manager_def)

lemma register_device_flag [simp]: "dm_initialized (snd (register_device n v m)) = dm_initialized m"
  by (simp add: register_device_def split: option.splits)

lemma register_all_flag: "dm_initialized (snd (register_all known ig ds m)) = dm_initialized m"
proof (induction known ig ds m rule: register_all.induct)
  case (2 known ig d ds m)
  show ?case
  proof (cases "ignored ig d")
    case False
    show ?thesis
    proof (cases "chain_get known (get_or_none d ''type'')")
      case (Some cls)
      show ?thesis
      proof (cases "cls d")
        case (Inr v)
        obtain r m' where r: "register_device (device_name d) v m = (r, m')" by fastforce
        then have "dm_initialized m' = dm_initialized m" using register_device_flag [of "device_name d" v m] by simp
        then show ?thesis using False Some Inr r 2(2) [OF False Some Inr r [symmetric]] by (cases r) auto
      qed (use False Some in simp)
    qed (use False in simp)
  qed (use 2 in simp)
qed simp

lemma get_by_type_empty [simp]: "get_devices_by_type is_a (m\<lparr>dm_initialized := b\<rparr>) = get_devices_by_type is_a m"
  by (simp add: get_devices_by_type_def)

text \<open>A successful registration of devices on a table with no blocked name.\<close>

lemma register_all_Inr:
  assumes "register_all known ig ds m = (Inr (), m')" and "\<forall>p\<in>set (dm_plugins m). snd p \<noteq> None"
  shows "\<exists>vs. dm_plugins m' = dm_plugins m @ zip (map device_name (filter (\<lambda>d. \<not> ignored ig d) ds)) (map Some vs) \<and>
    list_all2 (\<lambda>d v. \<exists>cls. chain_get known (get_or_none d ''type'') = Some cls \<and> cls d = Inr v)
      (filter (\<lambda>d. \<not> ignored ig d) ds) vs"
  using assms
proof (induction known ig ds m rule: register_all.induct)
  case (2 known ig d ds m)
  show ?case
  proof (cases "ignored ig d")
    case True
    then show ?thesis using 2 by simp
  next
    case False
    then obtain cls v m1 where c: "chain_get known (get_or_none d ''type'') = Some cls" "cls d = Inr v"
      and r: "register_device (device_name d) v m = (Inr (), m1)" "register_all known ig ds m1 = (Inr (), m')"
      using 2(3) by (auto split: option.splits sum.splits prod.splits)
    have m1: "dm_plugins m1 = dm_plugins m @ [(device_name d, Some v)]"
      using r(1) 2(4) by (auto simp: register_device_def split: option.splits dest!: map_of_SomeD)
    have "\<forall>p\<in>set (dm_plugins m1). snd p \<noteq> None" using 2(4) m1 by auto
    from 2(2) [OF False c r(1) [symmetric] _ r(2) this]
    obtain vs where vs: "dm_plugins m' = dm_plugins m1 @ zip (map device_name (filter (\<lambda>d. \<not> ignored ig d) ds)) (map Some vs)"
      "list_all2 (\<lambda>d v. \<exists>cls. chain_get known (get_or_none d ''type'') = Some cls \<and> cls d = Inr v)
        (filter (\<lambda>d. \<not> ignored ig d) ds) vs" by auto
    then show ?thesis using False c m1 by (intro exI [of _ "v # vs"]) auto
  qed
qed simp

text \<open>A run is a chain of states, one stage from each to the next, and ends at the first stage that raises.\<close>

lemma run_hooks_trace:
  "\<exists>ws. ws \<noteq> [] \<and> length ws \<le> Suc (length hs) \<and> ws ! 0 = w \<and>
    (\<forall>i. Suc i < length ws \<longrightarrow> run (hs ! i) (ws ! i) = (None, ws ! Suc i)) \<and>
    (if length ws = Suc (length hs) then run_hooks run hs w = (None, last ws)
     else fst (run (hs ! (length ws - 1)) (last ws)) \<noteq> None \<and>
       run_hooks run hs w = run (hs ! (length ws - 1)) (last ws))"
proof (induction hs arbitrary: w)
  case Nil
  then show ?case by (intro exI [of _ "[w]"]) simp
next
  case (Cons h hs)
  show ?case
  proof (cases "run h w")
    case (Pair r w1)
    show ?thesis
    proof (cases r)
      case None
      from Cons [of w1] obtain ws where ws: "ws \<noteq> []" "length ws \<le> Suc (length hs)" "ws ! 0 = w1"
        "\<forall>i. Suc i < length ws \<longrightarrow> run (hs ! i) (ws ! i) = (None, ws ! Suc i)"
        "if length ws = Suc (length hs) then run_hooks run hs w1 = (None, last ws)
         else fst (run (hs ! (length ws - 1)) (last ws)) \<noteq> None \<and>
           run_hooks run hs w1 = run (hs ! (length ws - 1)) (last ws)" by blast
      have step: "\<forall>i. Suc i < length (w # ws) \<longrightarrow> run ((h # hs) ! i) ((w # ws) ! i) = (None, (w # ws) ! Suc i)"
        using ws(1,3,4) None Pair by (auto simp: nth_Cons split: nat.splits)
      have "(h # hs) ! (length (w # ws) - 1) = hs ! (length ws - 1)" using ws(1) by (cases ws) auto
      then show ?thesis using ws(1,2,5) step None Pair by (intro exI [of _ "w # ws"]) (auto split: if_splits)
    next
      case (Some e)
      then show ?thesis using Pair by (intro exI [of _ "[w]"]) simp
    qed
  qed
qed

section \<open>Properties\<close>

text \<open>A process registers devices at most once. When registering succeeds, the plugin table has grown
  by exactly one entry for each device that is not ignored, in the order of the configuration, under
  its name and built by the class of its type. Whether it succeeded or raised half-way, every further
  attempt raises and changes nothing, so neither a failed registration can be retried nor a session
  configured again.\<close>

theorem register_devices_once:
  assumes "register_devices known ig config m = (r, m')" and "\<not> dm_initialized m"
    and "\<forall>p\<in>set (dm_plugins m). snd p \<noteq> None"
  shows "(r = Inr () \<longrightarrow> (\<exists>vs.
      dm_plugins m' = dm_plugins m @ zip (map device_name (filter (\<lambda>d. \<not> ignored ig d) (bc_devices config))) (map Some vs) \<and>
      list_all2 (\<lambda>d v. \<exists>cls. chain_get known (get_or_none d ''type'') = Some cls \<and> cls d = Inr v)
        (filter (\<lambda>d. \<not> ignored ig d) (bc_devices config)) vs)) \<and>
    (\<exists>e. register_devices known' ig' config' m' = (Inl e, m') \<and> rx_class e = PyValueError)"
proof -
  let ?m = "m\<lparr>dm_initialized := True\<rparr>"
  have run: "register_all known ig (bc_devices config) ?m = (r, m')"
    using assms(1,2) by (simp add: register_devices_def init_manager_def)
  have "dm_initialized m'" using register_all_flag [of known ig "bc_devices config" ?m] run by simp
  then have "\<exists>e. register_devices known' ig' config' m' = (Inl e, m') \<and> rx_class e = PyValueError"
    by (simp add: register_devices_def init_manager_def value_error_def py_error_def)
  then show ?thesis using register_all_Inr [of known ig "bc_devices config" ?m m'] run assms(3) by auto
qed

definition demo_config :: board_config where
  "demo_config =
     \<lparr>bc_devices = [[(''name'', JStr ''lan''), (''type'', JStr ''bf_lan'')], [(''name'', JStr ''x''), (''type'', JStr ''bf_x'')]],
      bc_env = [], bc_inventory = []\<rparr>"

definition demo_manager :: "nat manager" where
  "demo_manager = \<lparr>dm_initialized = False, dm_plugins = []\<rparr>"

theorem register_devices_once_witness:
  "\<exists>e e' m'. register_devices [[(''bf_lan'', \<lambda>d. Inr 1)]] [] demo_config demo_manager = (Inl e, m') \<and>
     register_devices [[(''bf_lan'', \<lambda>d. Inr 1), (''bf_x'', \<lambda>d. Inr 2)]] [] demo_config m' = (Inl e', m')"
proof -
  obtain e m' where r: "register_devices [[(''bf_lan'', \<lambda>d. Inr 1)]] [] demo_config demo_manager = (Inl e, m')"
    by (simp add: register_devices_def init_manager_def demo_config_def demo_manager_def ignored_def get_or_none_def
        register_device_def device_name_def)
  have "\<not> dm_initialized demo_manager" "\<forall>p\<in>set (dm_plugins demo_manager). snd p \<noteq> None"
    by (simp_all add: demo_manager_def)
  from register_devices_once [OF r this] r show ?thesis by blast
qed

text \<open>The boot chain runs its stages strictly in order and stops at the first that raises. There is
  a chain of states from the given one: each stage, run concurrently exactly when the devices allow it,
  returned normally and led to the next state. The chain either has all seven stages and the boot
  returns in its last state, or the stage after it raised and the boot is that stage's outcome. With the
  skip option the single skip stage runs instead.\<close>

theorem setup_env_stages:
  "if skip_boot
   then setup_env run tg has devices skip_boot w =
     run (is_async_hook_supported tg has ''boardfarm_skip_boot'' devices) ''boardfarm_skip_boot'' w
   else \<exists>ws. ws \<noteq> [] \<and> length ws \<le> 8 \<and> ws ! 0 = w \<and>
     (\<forall>i. Suc i < length ws \<longrightarrow>
        run (is_async_hook_supported tg has (BOOT_HOOKS ! i) devices) (BOOT_HOOKS ! i) (ws ! i) = (None, ws ! Suc i)) \<and>
     (if length ws = 8 then setup_env run tg has devices skip_boot w = (None, last ws)
      else let h = BOOT_HOOKS ! (length ws - 1);
               out = run (is_async_hook_supported tg has h devices) h (last ws)
           in fst out \<noteq> None \<and> setup_env run tg has devices skip_boot w = out)"
proof (cases skip_boot)
  case False
  have len: "Suc (length BOOT_HOOKS) = 8" by (simp add: BOOT_HOOKS_def)
  show ?thesis
    using run_hooks_trace [where run = "run_hook run tg has devices" and hs = BOOT_HOOKS and w = w]
    unfolding len setup_env_def if_not_P [OF False] run_hook_def Let_def .
qed (simp add: setup_env_def run_hook_def)

definition demo_run :: "bool \<Rightarrow> string \<Rightarrow> string list \<Rightarrow> raised option \<times> string list" where
  "demo_run a h w = (if h = ''boardfarm_device_boot'' then Some (value_error ''no'') else None, w @ [h])"

theorem setup_env_stages_witness:
  "\<exists>ws::string list list. ws \<noteq> [] \<and> length ws \<noteq> 8 \<and> ws ! 0 = [] \<and>
     setup_env demo_run True (\<lambda>d h. True) [()] False [] =
       demo_run True (BOOT_HOOKS ! (length ws - 1)) (last ws)"
proof -
  have raised: "fst (setup_env demo_run True (\<lambda>d h. True) [()] False []) \<noteq> None"
    by (simp add: setup_env_def BOOT_HOOKS_def run_hook_def demo_run_def)
  have async: "is_async_hook_supported True (\<lambda>d h. True) h [()] = True" for h
    by (simp add: is_async_hook_supported_def)
  obtain ws where ws: "ws \<noteq> []" "ws ! 0 = []"
    "if length ws = 8 then setup_env demo_run True (\<lambda>d h. True) [()] False [] = (None, last ws)
     else setup_env demo_run True (\<lambda>d h. True) [()] False [] =
       demo_run True (BOOT_HOOKS ! (length ws - 1)) (last ws)"
    using setup_env_stages [where skip_boot = False and run = demo_run and tg = True and has = "\<lambda>d h. True"
        and devices = "[()]" and w = "[]", unfolded if_False async Let_def] by metis
  then have "length ws \<noteq> 8" using raised by auto
  then show ?thesis using ws by (intro exI [of _ ws]) simp
qed

section \<open>A failed registration in the command\<close>

text \<open>Whatever registering raises is replaced by the error of the unbound name, and nothing is released.\<close>

lemma deploy_register_failure:
  assumes "de_register d w = (Some e, w1)"
  shows "\<exists>e'. deploy d w = (Some e', w1) \<and> rx_name e' = ''UnboundLocalError''"
  using assms by (simp add: deploy_def py_error_def)

end
