(* ===== verification/Plugin_Routes.thy ===== *)
theory Plugin_Routes
  imports Control_App Route_Gen
begin

text \<open>
  The plugin routes of the control plane (\<^verbatim>\<open>boardfarm3_control/openapi.py\<close>): the bundles plugins
  contribute are flattened to fully qualified routes, each route's endpoint is wrapped in one that takes
  the session id in the body, and a call is forwarded to the agent of that session. FastAPI's routers
  are lists of routes, pydantic models lists of fields; serialising a model is a parameter.
\<close>

section \<open>Routes and endpoints\<close>

record body_model =
  bm_name :: string
  bm_fields :: "(string, string) dict"

text \<open>A parameter's annotation: none, the text of a postponed one, a pydantic model, another class.\<close>

datatype hint = NoHint | TextHint string | ModelHint body_model | ClassHint string

record ep_param =
  ep_name :: string
  ep_hint :: hint

text \<open>\<open>en_hints\<close> is what \<^verbatim>\<open>typing.get_type_hints\<close> gives, None when it raises.\<close>

record endpoint =
  en_name :: string
  en_doc :: "string option"
  en_params :: "ep_param list"
  en_hints :: "(string, hint) dict option"

record api_route =
  pr_path :: string
  pr_endpoint :: endpoint
  pr_methods :: "string list"
  pr_response_model :: "string option"
  pr_tags :: "string list"
  pr_summary :: "string option"
  pr_description :: string
  pr_status :: "int option"

datatype route = APIRoute api_route | OtherRoute string

record inner_router =
  ir_prefix :: string
  ir_routes :: "route list"

record plugin_bundle =
  pb_namespace :: string
  pb_routers :: "inner_router list"

definition api_routes :: "route list \<Rightarrow> api_route list" where
  "api_routes rs = concat (map (\<lambda>r. case r of APIRoute a \<Rightarrow> [a] | OtherRoute p \<Rightarrow> []) rs)"

section \<open>Flattening\<close>

definition flat_route :: "string \<Rightarrow> string \<Rightarrow> api_route \<Rightarrow> api_route" where
  "flat_route namespace inner_pfx r =
     r\<lparr>pr_path := ''/'' @ namespace @ inner_pfx @ removeprefix inner_pfx (pr_path r),
       pr_methods := (if pr_methods r = [] then [''POST''] else pr_methods r)\<rparr>"

definition flatten_bundle :: "plugin_bundle \<Rightarrow> route list" where
  "flatten_bundle b =
     concat (map (\<lambda>ir. map (\<lambda>r. APIRoute (flat_route (pb_namespace b) (ir_prefix ir) r)) (api_routes (ir_routes ir)))
       (pb_routers b))"

text \<open>
  \<open>loaded\<close> is None when loading the entry points raised, else what each plugin's hook gives: its
  bundles, or nothing when it raised.
\<close>

definition control_plugin_routers :: "plugin_bundle list option list option \<Rightarrow> route list list" where
  "control_plugin_routers loaded =
     (case loaded of
        None \<Rightarrow> []
      | Some plugins \<Rightarrow>
         map flatten_bundle (concat (map (\<lambda>p. case p of None \<Rightarrow> [] | Some bs \<Rightarrow> bs) plugins)))"

section \<open>Wrapping an endpoint\<close>

definition resolve_hint :: "(string, hint) dict \<Rightarrow> ep_param \<Rightarrow> ep_param" where
  "resolve_hint hints p =
     (case dict_get hints (ep_name p) of
        Some h \<Rightarrow> if ep_hint p \<noteq> NoHint then p\<lparr>ep_hint := h\<rparr> else p
      | None \<Rightarrow> p)"

definition proxied_model :: "body_model \<Rightarrow> exc + body_model" where
  "proxied_model m =
     (if dict_mem ''session_id'' (bm_fields m)
      then Inl (exc.TypeErr (''create_model() got multiple values for keyword argument '' @ py_repr ''session_id''))
      else Inr \<lparr>bm_name = ''Proxied'' @ bm_name m, bm_fields = (''session_id'', ''str'') # bm_fields m\<rparr>)"

text \<open>The first parameter named body, when its annotation is a model, gets the extended model.\<close>

fun extend_body :: "ep_param list \<Rightarrow> exc + ep_param list" where
  "extend_body [] = Inr []"
| "extend_body (p # ps) =
     (if ep_name p = ''body''
      then case ep_hint p of
             ModelHint m \<Rightarrow>
               (case proxied_model m of Inl e \<Rightarrow> Inl e | Inr m' \<Rightarrow> Inr (p\<lparr>ep_hint := ModelHint m'\<rparr> # ps))
           | _ \<Rightarrow> Inr (p # ps)
      else case extend_body ps of Inl e \<Rightarrow> Inl e | Inr ps' \<Rightarrow> Inr (p # ps'))"

definition make_proxy_endpoint :: "endpoint \<Rightarrow> exc + endpoint" where
  "make_proxy_endpoint original =
     (let hints = (case en_hints original of None \<Rightarrow> [] | Some hs \<Rightarrow> hs);
          existing = map (resolve_hint hints) (en_params original)
      in case extend_body existing of
           Inl e \<Rightarrow> Inl e
         | Inr ps \<Rightarrow>
            Inr (original\<lparr>en_name := ''proxy_'' @ en_name original,
                 en_params := (if ''request'' \<in> ep_name ` set ps then ps
                               else \<lparr>ep_name = ''request'', ep_hint = ClassHint ''Request''\<rparr> # ps)\<rparr>))"

section \<open>Registering\<close>

definition wrap_route :: "api_route \<Rightarrow> exc + api_route" where
  "wrap_route r =
     (case make_proxy_endpoint (pr_endpoint r) of
        Inl e \<Rightarrow> Inl e
      | Inr e \<Rightarrow>
         Inr (r\<lparr>pr_path := ''/'' @ lstrip ''/'' (pr_path r), pr_endpoint := e,
                pr_methods := (if pr_methods r = [] then [''GET''] else pr_methods r), pr_status := None\<rparr>))"

fun wrap_routes :: "api_route list \<Rightarrow> exc + api_route list" where
  "wrap_routes [] = Inr []"
| "wrap_routes (r # rs) =
     (case wrap_route r of
        Inl e \<Rightarrow> Inl e
      | Inr w \<Rightarrow> (case wrap_routes rs of Inl e \<Rightarrow> Inl e | Inr ws \<Rightarrow> Inr (w # ws)))"

definition register_plugin_routes :: "route list list \<Rightarrow> exc + api_route list" where
  "register_plugin_routes routers = wrap_routes (concat (map api_routes routers))"

section \<open>A call\<close>

text \<open>
  FastAPI calls the endpoint with one value per parameter. \<open>dump\<close> is \<^verbatim>\<open>model_dump_json().encode()\<close> of
  the fields that are left. The call makes its own client, and names no session to the proxy.
\<close>

datatype call_arg = ModelArg "(string, json) dict" | RequestArg in_request | OtherArg json

definition proxy_endpoint ::
  "((string, json) dict \<Rightarrow> bytes) \<Rightarrow> num_env \<Rightarrow> proxy_client \<Rightarrow> registry \<Rightarrow> (string, call_arg) dict
   \<Rightarrow> failure + proxy_response" where
  "proxy_endpoint dump env fresh r kwargs =
     (case dict_get kwargs ''body'' of
        None \<Rightarrow> Inl (Unhandled (exc.KeyErr ''body''))
      | Some body \<Rightarrow>
         (case dict_get kwargs ''request'' of
            Some (RequestArg request) \<Rightarrow>
              (case body of
                 ModelArg data \<Rightarrow>
                   (case dict_get data ''session_id'' of
                      Some (JStr session_id) \<Rightarrow>
                        (case reg_get session_id r of
                           None \<Rightarrow> Inl (unknown_session session_id)
                         | Some info \<Rightarrow>
                            (case proxy_request env fresh request (ai_agent_url info) (lstrip ''/'' (rq_path request))
                                    (Some (dump (dict_pop ''session_id'' data))) None [] of
                               Inl (f, cl) \<Rightarrow> Inl f | Inr p \<Rightarrow> Inr p))
                    | _ \<Rightarrow> Inl (Unhandled (AttributeErr ''session_id'')))
               | _ \<Rightarrow> Inl (Unhandled (AttributeErr ''session_id'')))
          | _ \<Rightarrow> Inl (Unhandled (exc.KeyErr ''request''))))"

section \<open>Facts\<close>

lemma api_routes_simps [simp]:
  "api_routes [] = []"
  "api_routes (APIRoute a # rs) = a # api_routes rs"
  "api_routes (OtherRoute p # rs) = api_routes rs"
  by (simp_all add: api_routes_def)

lemma api_routes_APIRoute [simp]: "api_routes (map (\<lambda>x. APIRoute (f x)) xs) = map f xs"
  by (induction xs) simp_all

lemma api_routes_append: "api_routes (xs @ ys) = api_routes xs @ api_routes ys"
  by (simp add: api_routes_def)

lemma api_routes_concat: "api_routes (concat rss) = concat (map api_routes rss)"
  by (induction rss) (simp_all add: api_routes_append)

lemma lstrip_slash_idem [simp]: "lstrip cs (lstrip cs s) = lstrip cs s"
  by (simp add: lstrip_def)

lemma lstrip_slash_path: "n \<noteq> [] \<Longrightarrow> hd n \<noteq> CHR ''/'' \<Longrightarrow> ''/'' @ lstrip ''/'' (''/'' @ n @ s) = ''/'' @ n @ s"
  by (cases n) (simp_all add: lstrip_def)

lemma wrap_routes_paths:
  "wrap_routes rs = Inr ws \<Longrightarrow> map pr_path ws = map (\<lambda>r. ''/'' @ lstrip ''/'' (pr_path r)) rs"
  by (induction rs arbitrary: ws) (auto simp: wrap_route_def split: sum.splits)

lemma flat_route_path:
  "pr_path r = pfx @ rel \<Longrightarrow> pr_path (flat_route ns pfx r) = ''/'' @ ns @ pfx @ rel"
  by (simp add: flat_route_def)

text \<open>The control plane's view of a bundle that the agent builds: FastAPI keeps the prefix in the paths.\<close>

definition control_bundle :: "(handler \<Rightarrow> api_route) \<Rightarrow> router_bundle \<Rightarrow> plugin_bundle" where
  "control_bundle as_route b =
     \<lparr>pb_namespace = bu_namespace b,
      pb_routers = map (\<lambda>r. \<lparr>ir_prefix = ro_prefix r,
          ir_routes = map (\<lambda>p. APIRoute (as_route (snd p)\<lparr>pr_path := ro_prefix r @ fst p\<rparr>)) (ro_routes r)\<rparr>) (bu_routers b)\<rparr>"

definition control_plugin :: "(handler \<Rightarrow> api_route) \<Rightarrow> plugin \<Rightarrow> plugin_bundle list option" where
  "control_plugin as_route p =
     (case snd p of Inl e \<Rightarrow> None | Inr bundle_lists \<Rightarrow> Some (map (control_bundle as_route) (concat bundle_lists)))"

definition router_paths :: "router \<Rightarrow> string list" where
  "router_paths w = map (\<lambda>p. ro_prefix w @ fst p) (ro_routes w)"

lemma flatten_control_bundle:
  "map pr_path (api_routes (flatten_bundle (control_bundle as_route b))) = router_paths (make_wrapper b)"
proof -
  have one: "pr_path (flat_route ns (ro_prefix r) (as_route h\<lparr>pr_path := ro_prefix r @ q\<rparr>)) = ''/'' @ ns @ ro_prefix r @ q"
    for ns r h q by (rule flat_route_path) simp
  show ?thesis
    by (simp add: flatten_bundle_def control_bundle_def router_paths_def make_wrapper_def api_routes_concat map_concat comp_def
        one [simplified])
qed

lemma control_plugin_bundles:
  "control_plugin_routers (Some (map (control_plugin as_route) plugins)) =
     map (\<lambda>b. flatten_bundle (control_bundle as_route b)) (iter_plugin_bundles plugins)"
  by (induction plugins) (auto simp: control_plugin_routers_def iter_plugin_bundles_def control_plugin_def split: sum.splits)

section \<open>Properties\<close>

text \<open>The unified API has exactly the agents' paths. From the same plugins, the routes the control plane
  registers have, in the same order, the very paths under which an agent mounts the plugins' routers, so
  a path that is forwarded unchanged reaches the route it was generated from.\<close>

theorem plugin_routes_agree:
  assumes "register_plugin_routes (control_plugin_routers (Some (map (control_plugin as_route) plugins))) = Inr ws"
    and "\<forall>b\<in>set (iter_plugin_bundles plugins). bu_namespace b \<noteq> [] \<and> hd (bu_namespace b) \<noteq> CHR ''/''"
  shows "map pr_path ws = concat (map router_paths (fst (load_plugin_routers (Some plugins))))"
proof -
  let ?bs = "iter_plugin_bundles plugins"
  let ?fl = "\<lambda>b. api_routes (flatten_bundle (control_bundle as_route b))"
  have "map pr_path ws = map (\<lambda>r. ''/'' @ lstrip ''/'' (pr_path r)) (concat (map ?fl ?bs))"
    using wrap_routes_paths [of "concat (map ?fl ?bs)" ws] assms(1)
    by (simp add: register_plugin_routes_def control_plugin_bundles comp_def)
  also have "\<dots> = map (\<lambda>p. ''/'' @ lstrip ''/'' p) (concat (map (\<lambda>b. router_paths (make_wrapper b)) ?bs))"
  proof -
    have "map (\<lambda>r. ''/'' @ lstrip ''/'' (pr_path r)) (?fl b) = map (\<lambda>p. ''/'' @ lstrip ''/'' p) (router_paths (make_wrapper b))" for b
      by (simp add: flatten_control_bundle [where as_route = as_route, symmetric])
    then show ?thesis by (simp only: map_concat map_map comp_def)
  qed
  also have "\<dots> = concat (map (\<lambda>b. router_paths (make_wrapper b)) ?bs)"
  proof (rule map_idI)
    fix p assume "p \<in> set (concat (map (\<lambda>b. router_paths (make_wrapper b)) ?bs))"
    then obtain b t where "b \<in> set ?bs" "p = ''/'' @ bu_namespace b @ t"
      by (auto simp: router_paths_def make_wrapper_def)
    then show "''/'' @ lstrip ''/'' p = p" using assms(2) lstrip_slash_path [of "bu_namespace b" t] by auto
  qed
  also have "\<dots> = concat (map router_paths (fst (load_plugin_routers (Some plugins))))"
    by (simp add: load_plugin_routers_def Let_def comp_def)
  finally show ?thesis .
qed

definition demo_as_route :: "handler \<Rightarrow> api_route" where
  "demo_as_route h =
     \<lparr>pr_path = [],
      pr_endpoint = \<lparr>en_name = ha_method h, en_doc = None,
         en_params = [\<lparr>ep_name = ''body'', ep_hint = TextHint ''PingRequest''\<rparr>],
         en_hints = Some [(''body'', ModelHint \<lparr>bm_name = ''PingRequest'', bm_fields = [(''hosts'', ''list'')]\<rparr>)]\<rparr>,
      pr_methods = [''POST''], pr_response_model = None, pr_tags = [], pr_summary = None, pr_description = [],
      pr_status = Some 200\<rparr>"

definition demo_plugins :: "plugin list" where
  "demo_plugins =
     [(''broken'', Inl \<lparr>rx_class = PyException, rx_name = ''Exception'', rx_message = [], rx_traceback = []\<rparr>),
      (''core'', Inr [[\<lparr>bu_namespace = ''core'',
          bu_routers = [\<lparr>ro_prefix = ''/templates/lan'', ro_tags = [], ro_routes = [(''/ping'', demo_handler)]\<rparr>],
          bu_skipped = []\<rparr>]])]"

theorem plugin_routes_agree_witness:
  "\<exists>ws. register_plugin_routes (control_plugin_routers (Some (map (control_plugin demo_as_route) demo_plugins))) = Inr ws \<and>
     map pr_path ws = [''/core/templates/lan/ping'']"
proof -
  obtain ws where ws: "register_plugin_routes (control_plugin_routers (Some (map (control_plugin demo_as_route) demo_plugins))) = Inr ws"
    unfolding control_plugin_bundles
    by (simp add: demo_plugins_def iter_plugin_bundles_def register_plugin_routes_def
        flatten_bundle_def control_bundle_def flat_route_def wrap_route_def make_proxy_endpoint_def demo_as_route_def
        resolve_hint_def proxied_model_def dict_mem_def)
  have "map pr_path ws = concat (map router_paths (fst (load_plugin_routers (Some demo_plugins))))"
    by (rule plugin_routes_agree [OF ws]) (simp add: demo_plugins_def iter_plugin_bundles_def)
  then show ?thesis
    using ws by (simp add: demo_plugins_def load_plugin_routers_def iter_plugin_bundles_def make_wrapper_def router_paths_def)
qed

text \<open>A plugin call reaches the session's agent and nothing else. With an unknown session the answer is
  404 whatever the transport would do. With a known one, the only request the transport ever sees goes
  to the agent's URL under the path and query of the call, with its method, without hop-by-hop headers,
  and with the body's fields but the session id: a transport that refuses any other request makes no
  difference. The answer streams what the agent sent and closes the client made for the call; a broken
  event stream ends with an error event that names no session, although the session is known.\<close>

theorem plugin_call_forwards:
  assumes "dict_get kwargs ''body'' = Some (ModelArg data)" and "dict_get data ''session_id'' = Some (JStr sid)"
    and "dict_get kwargs ''request'' = Some (RequestArg rq)" and "rq_path rq = CHR ''/'' # p" and "lstrip ''/'' p = p"
  shows "case reg_get sid r of
      None \<Rightarrow> proxy_endpoint dump env fresh r kwargs = Inl (unknown_session sid)
    | Some info \<Rightarrow>
       (let exact = (\<lambda>q. or_method q = rq_method rq \<and> hop_free (or_headers q) \<and>
             or_url q = ai_agent_url info @ rq_path rq @ (if rq_query rq = [] then [] else ''?'' @ rq_query rq) \<and>
             or_content q = dump (dict_pop ''session_id'' data))
        in proxy_endpoint dump env
             (fresh\<lparr>pc_send := \<lambda>q. if exact q then pc_send fresh q else Inl (OtherExc ''refused'')\<rparr>) r kwargs =
           proxy_endpoint dump env fresh r kwargs) \<and>
       (\<forall>px. proxy_endpoint dump env fresh r kwargs = Inr px \<longrightarrow>
          (\<exists>up q sse. pc_send fresh q = Inr up \<and> px_status px = up_status up \<and>
             px_body px = forward_stream up sse [] True))"
proof (cases "reg_get sid r")
  case None
  then show ?thesis using assms by (simp add: proxy_endpoint_def)
next
  case (Some info)
  let ?b = "Some (dump (dict_pop ''session_id'' data))"
  let ?g = "\<lambda>q. or_method q = rq_method rq \<and> hop_free (or_headers q) \<and>
     or_url q = ai_agent_url info @ rq_path rq @ (if rq_query rq = [] then [] else ''?'' @ rq_query rq) \<and>
     or_content q = dump (dict_pop ''session_id'' data)"
  let ?f = "fresh\<lparr>pc_send := \<lambda>q. if ?g q then pc_send fresh q else Inl (OtherExc ''refused'')\<rparr>"
  have path: "lstrip ''/'' (rq_path rq) = p" using assms(4,5) by (simp add: lstrip_def)
  have "send_upstream env ?f rq (ai_agent_url info) p ?b = send_upstream env fresh rq (ai_agent_url info) p ?b"
    using assms(4,5) by (simp add: send_upstream_def upstream_request_def proxy_url_def Let_def split: sum.splits)
  then have same: "proxy_request env ?f rq (ai_agent_url info) p ?b None [] =
      proxy_request env fresh rq (ai_agent_url info) p ?b None []"
    by (simp add: proxy_request_def client_or_default_def)
  have call: "proxy_endpoint dump env c r kwargs =
      (case proxy_request env c rq (ai_agent_url info) p ?b None [] of Inl (f, cl) \<Rightarrow> Inl f | Inr px \<Rightarrow> Inr px)" for c
    using assms(1-3) Some by (simp add: proxy_endpoint_def path)
  have "\<exists>up q sse. pc_send fresh q = Inr up \<and> px_status px = up_status up \<and> px_body px = forward_stream up sse [] True"
    if sent: "proxy_request env fresh rq (ai_agent_url info) p ?b None [] = Inr px" for px
  proof -
    obtain up where up: "send_upstream env fresh rq (ai_agent_url info) p ?b = Inr up"
      using proxy_request_sent [OF sent] by (auto simp: client_or_default_def)
    then have "\<exists>q. pc_send fresh q = Inr up" by (auto simp: send_upstream_def Let_def split: sum.splits)
    moreover have "\<exists>sse. px_status px = up_status up \<and> px_body px = forward_stream up sse [] True"
      using sent up by (auto simp: proxy_request_def client_or_default_def Let_def)
    ultimately show ?thesis by blast
  qed
  then show ?thesis by (auto simp: Some call same Let_def split: sum.splits)
qed

definition demo_call :: "(string, call_arg) dict" where
  "demo_call =
     [(''body'', ModelArg [(''session_id'', JStr ''s-1''), (''hosts'', JList [])]),
      (''request'', RequestArg \<lparr>rq_method = ''POST'', rq_path = ''/core/templates/lan/ping'', rq_query = [],
          rq_headers = [], rq_body = []\<rparr>)]"

definition demo_sessions :: registry where
  "demo_sessions = reg_add (agent_info_default ''s-1'' ''b1'' ''p'' ''c'' 1 2) empty_registry"

theorem plugin_call_forwards_witness:
  "\<exists>px. proxy_endpoint (\<lambda>_. []) (\<lambda>_. None) demo_stream_client demo_sessions demo_call = Inr px \<and> px_status px = 200"
proof -
  have info: "reg_get ''s-1'' demo_sessions = Some (agent_info_default ''s-1'' ''b1'' ''p'' ''c'' 1 2)"
    by (simp add: demo_sessions_def reg_get_def reg_add_def empty_registry_def agent_info_default_def)
  have "\<exists>px. proxy_endpoint (\<lambda>_. []) (\<lambda>_. None) demo_stream_client demo_sessions demo_call = Inr px"
    by (simp add: proxy_endpoint_def demo_call_def info proxy_request_def client_or_default_def send_upstream_def
        timeout_for_def env_float_def demo_stream_client_def Let_def)
  then obtain px where px: "proxy_endpoint (\<lambda>_. []) (\<lambda>_. None) demo_stream_client demo_sessions demo_call = Inr px" ..
  have "\<exists>up q sse. pc_send demo_stream_client q = Inr up \<and> px_status px = up_status up \<and>
      px_body px = forward_stream up sse [] True"
    using plugin_call_forwards [where kwargs = demo_call and sid = "''s-1''" and r = demo_sessions and env = "\<lambda>_. None"
        and fresh = demo_stream_client and dump = "\<lambda>_. []" and p = "''core/templates/lan/ping''"] px
    by (simp add: demo_call_def info lstrip_def Let_def)
  then show ?thesis using px by (auto simp: demo_stream_client_def demo_upstream_def)
qed

end
