(* ===== verification/Api_Plugin.thy ===== *)
theory Api_Plugin
  imports Usecase_Gen Board_Config
begin

text \<open>
  The built-in plugin of the agent (\<^verbatim>\<open>boardfarm3/api/plugin.py\<close>): resolving a native session payload,
  and the routers of the core bundle. What reflection gives for a template class or a use-case module
  is a parameter.
\<close>

section \<open>Resolving a payload\<close>

text \<open>
  The result carries the payload as it is afterwards, since selecting an inventory normalises it in
  place. \<open>parse\<close> is the parse hook, whose built-in implementation is \<^const>\<open>parse_boardfarm_config\<close>.
\<close>

definition api_resolve_config ::
  "(device \<Rightarrow> json \<Rightarrow> raised + board_config) \<Rightarrow> device \<Rightarrow> string \<Rightarrow> (raised + board_config) \<times> device" where
  "api_resolve_config parse payload board_name =
     (case get_item payload ''inventory'' of
        Inl e \<Rightarrow> (Inl e, payload)
      | Inr (JObj full) \<Rightarrow>
         (case select_inventory full board_name of
            (Inl e, full') \<Rightarrow> (Inl e, dict_set ''inventory'' (JObj full') payload)
          | (Inr inventory, full') \<Rightarrow>
             (let payload' = dict_set ''inventory'' (JObj full') payload
              in case get_item payload' ''env'' of
                   Inl e \<Rightarrow> (Inl e, payload')
                 | Inr env \<Rightarrow> (parse inventory env, payload')))
      | Inr _ \<Rightarrow> (Inl type_error, payload))"

definition native_parse ::
  "(json \<Rightarrow> json \<Rightarrow> raised + device) \<Rightarrow> device \<Rightarrow> json \<Rightarrow> raised + board_config" where
  "native_parse merge inventory env =
     (case env of JObj e \<Rightarrow> parse_boardfarm_config merge inventory e | _ \<Rightarrow> Inl attribute_error)"

section \<open>The core bundle\<close>

definition core_mounts :: "(string \<Rightarrow> template_class) \<Rightarrow> mount_item list" where
  "core_mounts cls =
     map (\<lambda>n. BareTemplate (cls n))
       [''LAN'', ''WAN'', ''WLAN'', ''ACS'', ''Provisioner'', ''SIPServer'', ''SIPPhone'', ''CoreRouter''] @
     map (\<lambda>(m, r, i, a). Mount \<lparr>tm_mount = m, tm_resolve_as = cls r, tm_introspect = cls i, tm_accessor = Some a\<rparr>)
       [(''cpe'', ''CPE'', ''CPESW'', ''sw''), (''cpe'', ''CPE'', ''CPEHW'', ''hw''),
        (''ntu'', ''NTU'', ''CPESW'', ''sw''), (''ntu'', ''NTU'', ''CPEHW'', ''hw'')]"

definition core_usecases :: "(string \<Rightarrow> usecase_module) \<Rightarrow> usecase_module list" where
  "core_usecases uc = map uc [''cpe'', ''dhcp'', ''networking'', ''wifi'', ''iperf'', ''voice'']"

record core_bundle =
  cb_namespace :: string
  cb_templates :: "router list"
  cb_usecases :: "(string \<times> usecase_route list) list"
  cb_skipped :: "skipped_method list"

definition add_api_routers ::
  "(annotation \<Rightarrow> string) \<Rightarrow> (string \<Rightarrow> template_class) \<Rightarrow> (string \<Rightarrow> usecase_module) \<Rightarrow> core_bundle" where
  "add_api_routers rp cls uc =
     (let (routers, skipped) = generate_template_routers rp (core_mounts cls);
          (uc_routers, uc_skipped) = generate_usecase_routers rp (core_usecases uc)
      in \<lparr>cb_namespace = ''core'', cb_templates = routers, cb_usecases = uc_routers, cb_skipped = skipped @ uc_skipped\<rparr>)"

section \<open>Facts\<close>

lemma resolve_config_payload:
  "dict_get (snd (api_resolve_config parse payload board)) ''env'' = dict_get payload ''env''"
  by (auto simp: api_resolve_config_def Let_def dict_get_set split: sum.splits json.splits prod.splits)

text \<open>
  Resolving the payload a second time, after a first resolution that selected the inventory, gives the
  same configuration and leaves the payload alone: posting a configuration again is harmless here.
\<close>

lemma resolve_config_again:
  assumes "api_resolve_config parse payload board = (Inr config, payload')"
  shows "api_resolve_config parse payload' board = (Inr config, payload')"
proof -
  obtain full iv full' env where i: "get_item payload ''inventory'' = Inr (JObj full)"
      "select_inventory full board = (Inr iv, full')" "payload' = dict_set ''inventory'' (JObj full') payload"
      "get_item payload' ''env'' = Inr env" "parse iv env = Inr config"
    using assms by (auto simp: api_resolve_config_def Let_def split: sum.splits json.splits prod.splits)
  have "get_item payload' ''inventory'' = Inr (JObj full')" by (simp add: i(3) get_item_def)
  moreover have "dict_set ''inventory'' (JObj full') payload' = payload'"
    by (rule dict_set_same) (simp add: i(3))
  ultimately show ?thesis
    using i(4,5) select_inventory_again(1) [OF i(2)] by (simp add: api_resolve_config_def Let_def)
qed

lemma core_mount_names:
  assumes "\<forall>n. tc_name (cls n) = n"
  shows "dict_keys (group_mounts (map normalise_mount (core_mounts cls))) =
     map lower [''LAN'', ''WAN'', ''WLAN'', ''ACS'', ''Provisioner'', ''SIPServer'', ''SIPPhone'', ''CoreRouter''] @ [''cpe'', ''ntu'']"
proof -
  have l: "map lower [''LAN'', ''WAN'', ''WLAN'', ''ACS'', ''Provisioner'', ''SIPServer'', ''SIPPhone'', ''CoreRouter''] =
      [''lan'', ''wan'', ''wlan'', ''acs'', ''provisioner'', ''sipserver'', ''sipphone'', ''corerouter'']"
    by code_simp
  show ?thesis
    using l assms by (simp add: group_mounts_def core_mounts_def normalise_mount_def)
qed

end
