(* ===== verification/Json_Text.thy ===== *)
theory Json_Text
  imports Json_Value
begin

text \<open>
  Reading JSON text, as \<^verbatim>\<open>json.JSONDecoder.decode\<close> of the standard library does: what is built from the
  members of an object is the parameter \<open>hook\<close> (\<^verbatim>\<open>object_pairs_hook\<close>), applied to the pairs in order,
  duplicates included. Text is a list of characters below 256, so a text that escapes a larger code
  point, and the non-standard constants \<^verbatim>\<open>NaN\<close> and \<^verbatim>\<open>Infinity\<close>, are not modelled: they are rejected.
  The parser's fuel bounds the nesting and the number of members; one more than the length of the text
  is always enough (\<open>decode_fuel\<close>).
\<close>

section \<open>Tokens\<close>

definition json_ws :: "string \<Rightarrow> string" where
  "json_ws s = dropWhile (\<lambda>c. (of_char c :: nat) \<in> {9, 10, 13, 32}) s"

definition digit :: "char \<Rightarrow> bool" where
  "digit c \<longleftrightarrow> (let n = (of_char c :: nat) in 48 \<le> n \<and> n \<le> 57)"

definition hex_val :: "char \<Rightarrow> nat option" where
  "hex_val c =
     (let n = (of_char c :: nat)
      in if 48 \<le> n \<and> n \<le> 57 then Some (n - 48)
         else if 97 \<le> n \<and> n \<le> 102 then Some (n - 87)
         else if 65 \<le> n \<and> n \<le> 70 then Some (n - 55) else None)"

definition escape :: "char \<Rightarrow> char option" where
  "escape e =
     (if e = CHR 0x22 \<or> e = CHR 0x5C \<or> e = CHR ''/'' then Some e
      else if e = CHR ''b'' then Some (CHR 0x08) else if e = CHR ''f'' then Some (CHR 0x0C)
      else if e = CHR ''n'' then Some (CHR 0x0A) else if e = CHR ''r'' then Some (CHR 0x0D)
      else if e = CHR ''t'' then Some (CHR 0x09) else None)"

definition unicode_escape :: "char \<Rightarrow> char \<Rightarrow> char \<Rightarrow> char \<Rightarrow> char option" where
  "unicode_escape a b c d =
     (case (hex_val a, hex_val b, hex_val c, hex_val d) of
        (Some 0, Some 0, Some x, Some y) \<Rightarrow> Some (char_of (16 * x + y))
      | _ \<Rightarrow> None)"

text \<open>The rest of a string after its opening quote.\<close>

fun scan_str :: "string \<Rightarrow> (string \<times> string) option" where
  "scan_str [] = None"
| "scan_str (c # s) =
     (if c = CHR 0x22 then Some ([], s)
      else if c = CHR 0x5C then
        (case s of
           [] \<Rightarrow> None
         | e # s1 \<Rightarrow>
            (if e = CHR ''u'' then
               (case s1 of
                  h1 # h2 # h3 # h4 # s2 \<Rightarrow>
                    (case unicode_escape h1 h2 h3 h4 of
                       None \<Rightarrow> None
                     | Some x \<Rightarrow> (case scan_str s2 of None \<Rightarrow> None | Some (t, r) \<Rightarrow> Some (x # t, r)))
                | _ \<Rightarrow> None)
             else case escape e of
                    None \<Rightarrow> None
                  | Some x \<Rightarrow> (case scan_str s1 of None \<Rightarrow> None | Some (t, r) \<Rightarrow> Some (x # t, r))))
      else if (of_char c :: nat) < 32 then None
      else case scan_str s of None \<Rightarrow> None | Some (t, r) \<Rightarrow> Some (c # t, r))"

text \<open>\<^verbatim>\<open>(-?(?:0|[1-9][0-9]*))(\.[0-9]+)?([eE][-+]?[0-9]+)?\<close>.\<close>

fun scan_sign :: "string \<Rightarrow> string \<Rightarrow> int \<times> string" where
  "scan_sign signs [] = (1, [])"
| "scan_sign signs (c # t) = (if c \<in> set signs then (if c = CHR ''-'' then -1 else 1, t) else (1, c # t))"

definition scan_int :: "string \<Rightarrow> (int \<times> string) option" where
  "scan_int s =
     (let (sign, u) = scan_sign ''-'' s
      in case u of
           [] \<Rightarrow> None
         | c # t \<Rightarrow>
            (if c = CHR ''0'' then Some (0, t)
             else if digit c then Some (sign * int (digits_val 0 (takeWhile digit u)), dropWhile digit u)
             else None))"

definition scan_frac :: "string \<Rightarrow> (string \<times> string) option" where
  "scan_frac s =
     (case s of
        c # t \<Rightarrow> if c = CHR ''.'' \<and> takeWhile digit t \<noteq> [] then Some (takeWhile digit t, dropWhile digit t) else None
      | [] \<Rightarrow> None)"

definition scan_exp :: "string \<Rightarrow> (int \<times> string) option" where
  "scan_exp s =
     (case s of
        c # t \<Rightarrow>
          (if c = CHR ''e'' \<or> c = CHR ''E'' then
             (let (sign, u) = scan_sign ''+-'' t
              in if takeWhile digit u \<noteq> [] then Some (sign * int (digits_val 0 (takeWhile digit u)), dropWhile digit u)
                 else None)
           else None)
      | [] \<Rightarrow> None)"

definition decimal :: "bool \<Rightarrow> int \<Rightarrow> string \<Rightarrow> int \<Rightarrow> real" where
  "decimal neg i ds e =
     (let m = real (digits_val 0 ds) / 10 ^ length ds
      in (of_int i + (if neg then - m else m)) * (if e < 0 then 1 / 10 ^ nat (- e) else 10 ^ nat e))"

definition scan_number :: "string \<Rightarrow> (json \<times> string) option" where
  "scan_number s =
     (case scan_int s of
        None \<Rightarrow> None
      | Some (i, r) \<Rightarrow>
         (let neg = (take 1 s = ''-'')
          in case scan_frac r of
               None \<Rightarrow>
                 (case scan_exp r of
                    None \<Rightarrow> Some (JInt i, r)
                  | Some (e, r') \<Rightarrow> Some (JReal (decimal neg i [] e), r'))
             | Some (f, r1) \<Rightarrow>
                 (case scan_exp r1 of
                    None \<Rightarrow> Some (JReal (decimal neg i f 0), r1)
                  | Some (e, r2) \<Rightarrow> Some (JReal (decimal neg i f e), r2))))"

section \<open>Values\<close>

fun p_value :: "((string \<times> json) list \<Rightarrow> json) \<Rightarrow> nat \<Rightarrow> string \<Rightarrow> (json \<times> string) option"
  and p_members :: "((string \<times> json) list \<Rightarrow> json) \<Rightarrow> nat \<Rightarrow> string \<Rightarrow> (string \<times> json) list \<Rightarrow> (json \<times> string) option"
  and p_elems :: "((string \<times> json) list \<Rightarrow> json) \<Rightarrow> nat \<Rightarrow> string \<Rightarrow> json list \<Rightarrow> (json \<times> string) option" where
  "p_value hook 0 s = None"
| "p_value hook (Suc n) s =
     (case s of
        [] \<Rightarrow> None
      | c # t \<Rightarrow>
         (if c = CHR 0x22 then (case scan_str t of None \<Rightarrow> None | Some (x, r) \<Rightarrow> Some (JStr x, r))
          else if c = CHR 0x7B then
            (case json_ws t of
               [] \<Rightarrow> None
             | d # u \<Rightarrow> if d = CHR 0x7D then Some (hook [], u) else p_members hook n (d # u) [])
          else if c = CHR 0x5B then
            (case json_ws t of
               [] \<Rightarrow> None
             | d # u \<Rightarrow> if d = CHR 0x5D then Some (JList [], u) else p_elems hook n (d # u) [])
          else if startswith s ''null'' then Some (JNull, drop 4 s)
          else if startswith s ''true'' then Some (JBool True, drop 4 s)
          else if startswith s ''false'' then Some (JBool False, drop 5 s)
          else scan_number s))"
| "p_members hook 0 s acc = None"
| "p_members hook (Suc n) s acc =
     (case s of
        [] \<Rightarrow> None
      | c # t \<Rightarrow>
         (if c \<noteq> CHR 0x22 then None
          else case scan_str t of
                 None \<Rightarrow> None
               | Some (k, r) \<Rightarrow>
                  (case json_ws r of
                     [] \<Rightarrow> None
                   | d # u \<Rightarrow>
                      (if d \<noteq> CHR '':'' then None
                       else case p_value hook n (json_ws u) of
                              None \<Rightarrow> None
                            | Some (v, r2) \<Rightarrow>
                               (case json_ws r2 of
                                  [] \<Rightarrow> None
                                | e # w \<Rightarrow>
                                   (if e = CHR '','' then p_members hook n (json_ws w) (acc @ [(k, v)])
                                    else if e = CHR 0x7D then Some (hook (acc @ [(k, v)]), w)
                                    else None))))))"
| "p_elems hook 0 s acc = None"
| "p_elems hook (Suc n) s acc =
     (case p_value hook n s of
        None \<Rightarrow> None
      | Some (v, r) \<Rightarrow>
         (case json_ws r of
            [] \<Rightarrow> None
          | e # w \<Rightarrow>
             (if e = CHR '','' then p_elems hook n (json_ws w) (acc @ [v])
              else if e = CHR 0x5D then Some (JList (acc @ [v]), w)
              else None)))"

definition json_decode :: "((string \<times> json) list \<Rightarrow> json) \<Rightarrow> string \<Rightarrow> json option" where
  "json_decode hook s =
     (case p_value hook (2 * length s + 2) (json_ws s) of
        None \<Rightarrow> None
      | Some (v, r) \<Rightarrow> if json_ws r = [] then Some v else None)"

section \<open>The fuel is enough\<close>

lemma json_ws_length: "length (json_ws s) \<le> length s"
  by (simp add: json_ws_def length_dropWhile_le)

lemma json_ws_Cons: "json_ws s = c # t \<Longrightarrow> length t < length s"
  using json_ws_length [of s] by simp

lemma scan_str_length: "scan_str s = Some (x, r) \<Longrightarrow> length r < length s"
proof (induction s arbitrary: x rule: scan_str.induct)
  case (2 c s)
  then show ?case
    by (fastforce split: if_splits list.splits option.splits prod.splits)
qed simp

lemma scan_sign_length: "scan_sign signs s = (g, u) \<Longrightarrow> length u \<le> length s"
  by (cases s) (auto split: if_splits)

lemma digits_rest: "takeWhile digit s \<noteq> [] \<Longrightarrow> length (dropWhile digit s) < length s"
  by (cases s) (auto simp: length_dropWhile_le le_imp_less_Suc split: if_splits)

lemma scan_int_length: 
  assumes "scan_int s = Some (i, r)"
  shows "length r < length s"
proof -
  obtain g u where u: "scan_sign ''-'' s = (g, u)" by fastforce
  have "length r < length u"
    using assms digits_rest [of u] by (auto simp: scan_int_def u split: list.splits if_splits)
  then show ?thesis using scan_sign_length [OF u] by simp
qed

lemma scan_frac_length: "scan_frac s = Some (f, r) \<Longrightarrow> length r < length s"
  using length_dropWhile_le [of digit] by (auto simp: scan_frac_def le_imp_less_Suc split: list.splits if_splits)

lemma scan_exp_length:
  assumes "scan_exp s = Some (e, r)"
  shows "length r < length s"
proof (cases s)
  case (Cons c t)
  obtain g u where u: "scan_sign ''+-'' t = (g, u)" by fastforce
  have "length r < length u"
    using assms digits_rest [of u] by (auto simp: scan_exp_def Cons u split: if_splits)
  then show ?thesis using scan_sign_length [OF u] by (simp add: Cons)
qed (use assms in \<open>simp add: scan_exp_def\<close>)

lemma scan_number_length:
  assumes "scan_number s = Some (v, r)"
  shows "length r < length s"
proof -
  obtain i u where i: "scan_int s = Some (i, u)" using assms by (auto simp: scan_number_def split: option.splits)
  have "length r \<le> length u"
    using assms scan_frac_length [of u] scan_exp_length i
    by (force simp: scan_number_def Let_def split: option.splits prod.splits dest: scan_exp_length scan_frac_length)
  then show ?thesis using scan_int_length [OF i] by simp
qed

lemma parse_length:
  "(\<forall>s v r. p_value hook n s = Some (v, r) \<longrightarrow> length r < length s) \<and>
   (\<forall>s acc v r. p_members hook n s acc = Some (v, r) \<longrightarrow> length r < length s) \<and>
   (\<forall>s acc v r. p_elems hook n s acc = Some (v, r) \<longrightarrow> length r < length s)"
proof (induction n)
  case (Suc n)
  have v: "p_value hook n s = Some (v, r) \<Longrightarrow> length r < length s"
    and m: "p_members hook n s acc = Some (v, r) \<Longrightarrow> length r < length s"
    and e: "p_elems hook n s as = Some (v, r) \<Longrightarrow> length r < length s" for s acc as v r
    using Suc by blast+
  have "length r < length s" if "p_value hook (Suc n) s = Some (v, r)" for s v r
  proof (cases s)
    case (Cons c t)
    show ?thesis
      using that unfolding Cons p_value.simps list.case
      by (auto split: if_splits list.splits option.splits prod.splits simp: Let_def
          dest!: m e scan_str_length scan_number_length json_ws_Cons)
  qed (use that in simp)
  moreover have "length r < length s" if run: "p_members hook (Suc n) s acc = Some (v, r)" for s acc v r
  proof -
    obtain c t where s: "s = c # t" using run by (cases s) auto
    obtain k r1 where k: "scan_str t = Some (k, r1)" using run s by (auto split: if_splits option.splits)
    obtain d u where d: "json_ws r1 = d # u" using run s k by (auto split: if_splits list.splits)
    obtain x r2 where x: "p_value hook n (json_ws u) = Some (x, r2)"
      using run s k d by (auto split: if_splits option.splits)
    obtain f w where f: "json_ws r2 = f # w" using run s k d x by (auto split: if_splits list.splits)
    have "length r \<le> length w"
      using run s k d x f m [of "json_ws w" "acc @ [(k, x)]" v r] json_ws_length [of w] by (auto split: if_splits)
    then show ?thesis
      using s scan_str_length [OF k] json_ws_Cons [OF d] v [OF x] json_ws_length [of u] json_ws_Cons [OF f] by simp
  qed
  moreover have "length r < length s" if run: "p_elems hook (Suc n) s acc = Some (v, r)" for s acc v r
  proof -
    obtain x r2 where x: "p_value hook n s = Some (x, r2)" using run by (auto split: option.splits)
    obtain f w where f: "json_ws r2 = f # w" using run x by (auto split: list.splits)
    have "length r \<le> length w"
      using run x f e [of "json_ws w" "acc @ [x]" v r] json_ws_length [of w] by (auto split: if_splits)
    then show ?thesis using v [OF x] json_ws_Cons [OF f] by simp
  qed
  ultimately show ?case by blast
qed simp

lemma p_value_length: "p_value hook n s = Some (v, r) \<Longrightarrow> length r < length s"
  using parse_length by blast

lemma parse_fuel:
  "(\<forall>s. 2 * length s < n \<longrightarrow> p_value hook (Suc n) s = p_value hook n s) \<and>
   (\<forall>s acc. 2 * length s < n \<longrightarrow> p_members hook (Suc n) s acc = p_members hook n s acc) \<and>
   (\<forall>s acc. 2 * length s + 1 < n \<longrightarrow> p_elems hook (Suc n) s acc = p_elems hook n s acc)"
proof (induction n)
  case (Suc n)
  have v: "2 * length s < n \<Longrightarrow> p_value hook (Suc n) s = p_value hook n s"
    and m: "2 * length s < n \<Longrightarrow> p_members hook (Suc n) s acc = p_members hook n s acc"
    and e: "2 * length s + 1 < n \<Longrightarrow> p_elems hook (Suc n) s as = p_elems hook n s as" for s acc as
    using Suc by blast+
  have "p_value hook (Suc (Suc n)) s = p_value hook (Suc n) s" if l: "2 * length s < Suc n" for s
  proof (cases s)
    case (Cons c t)
    have "p_members hook (Suc n) (d # u) [] = p_members hook n (d # u) []"
      "p_elems hook (Suc n) (d # u) [] = p_elems hook n (d # u) []" if "json_ws t = d # u" for d u
      using m [of "d # u" "[]"] e [of "d # u" "[]"] l json_ws_length [of t] that Cons by auto
    then show ?thesis
      unfolding Cons p_value.simps list.case by (auto split: list.splits)
  qed simp
  moreover have "p_members hook (Suc (Suc n)) s acc = p_members hook (Suc n) s acc" if l: "2 * length s < Suc n" for s acc
  proof (cases s)
    case (Cons c t)
    have inner: "p_value hook (Suc n) (json_ws u) = p_value hook n (json_ws u)" 
      "p_value hook n (json_ws u) = Some (x, r2) \<Longrightarrow> json_ws r2 = f # w \<Longrightarrow>
         p_members hook (Suc n) (json_ws w) a = p_members hook n (json_ws w) a"
      if k: "scan_str t = Some (k, r)" and d: "json_ws r = d # u" for k r d u x r2 f w a
    proof -
      have u: "length (json_ws u) + 2 < length s"
        using scan_str_length [OF k] json_ws_Cons [OF d] json_ws_length [of u] Cons by simp
      then show "p_value hook (Suc n) (json_ws u) = p_value hook n (json_ws u)" using v [of "json_ws u"] l by simp
      assume x: "p_value hook n (json_ws u) = Some (x, r2)" and f: "json_ws r2 = f # w"
      have "length (json_ws w) < length (json_ws u)"
        using p_value_length [OF x] json_ws_Cons [OF f] json_ws_length [of w] by simp
      then show "p_members hook (Suc n) (json_ws w) a = p_members hook n (json_ws w) a"
        using m [of "json_ws w" a] u l by simp
    qed
    show ?thesis
    proof (cases "scan_str t")
      case (Some kr)
      obtain k r where k: "scan_str t = Some (k, r)" using Some by (cases kr) auto
      show ?thesis
      proof (cases "json_ws r")
        case d: (Cons d u)
        note value_same = inner(1) [OF k d]
        show ?thesis
        proof (cases "p_value hook n (json_ws u)")
          case (Some xr)
          obtain x r2 where x: "p_value hook n (json_ws u) = Some (x, r2)" using Some by (cases xr) auto
          show ?thesis
          proof (cases "json_ws r2")
            case f: (Cons f w)
            show ?thesis
              unfolding Cons p_members.simps(2) [of hook "Suc n" "c # t" acc] p_members.simps(2) [of hook n "c # t" acc]
                list.case k option.case prod.case d value_same x f inner(2) [OF k d x f] ..
          qed (simp add: Cons k d x value_same del: p_value.simps)
        qed (simp add: Cons k d value_same del: p_value.simps)
      qed (simp add: Cons k)
    qed (simp add: Cons)
  qed simp
  moreover have "p_elems hook (Suc (Suc n)) s acc = p_elems hook (Suc n) s acc" if l: "2 * length s + 1 < Suc n" for s acc
  proof -
    have "p_elems hook (Suc n) (json_ws w) a = p_elems hook n (json_ws w) a"
      if "p_value hook n s = Some (x, r)" "json_ws r = f # w" for x r f w a
      using e [of "json_ws w" a] p_value_length [OF that(1)] json_ws_Cons [OF that(2)] json_ws_length [of w] l by simp
    moreover have "p_value hook (Suc n) s = p_value hook n s" using v [of s] l by simp
    ultimately show ?thesis
      unfolding p_elems.simps by (auto split: list.splits option.splits)
  qed
  ultimately show ?case by blast
qed simp

text \<open>More fuel never changes what is decoded.\<close>

lemma decode_fuel:
  assumes "2 * length s < n"
  shows "p_value hook (n + k) s = p_value hook n s"
proof (induction k)
  case (Suc k)
  have "p_value hook (Suc (n + k)) s = p_value hook (n + k) s"
    using parse_fuel [of "n + k" hook] assms by simp
  then show ?case using Suc by simp
qed simp

end
