(* ===== verification/Dhcp_Trace.thy ===== *)
theory Dhcp_Trace
  imports Py_Values Json_Text
begin

text \<open>
  The DHCP use cases (\<^verbatim>\<open>boardfarm3/use_cases/dhcp.py\<close>, \<^verbatim>\<open>boardfarm3/lib/dataclass/dhcp.py\<close>): reading
  the DHCP packets of a capture from the JSON text tshark prints, selecting packets and options, and the
  client configuration of option 125. What tshark prints, or the exception of running it, is a
  parameter; so is a console, a function from a command and the state of the host to the output and
  the new state. The message of a JSON syntax error is not modelled.
\<close>

section \<open>Duplicate members\<close>

definition index_suffix :: "nat \<Rightarrow> string" where
  "index_suffix n = (if n = 0 then [] else CHR ''_'' # nat_str n)"

fun dup_step :: "(string, json) dict \<times> (string \<Rightarrow> nat) \<Rightarrow> string \<times> json \<Rightarrow> (string, json) dict \<times> (string \<Rightarrow> nat)" where
  "dup_step (d, k_counter) (key, v) =
     (dict_set (key @ index_suffix (k_counter key)) v d, k_counter(key := k_counter key + 1))"

definition manage_duplicates :: "(string \<times> json) list \<Rightarrow> (string, json) dict" where
  "manage_duplicates pairs = fst (foldl dup_step ([], \<lambda>_. 0) pairs)"

text \<open>The text from the first bracket on, without line ends, decoded.\<close>

definition json_part :: "string \<Rightarrow> string" where
  "json_part out =
     CHR ''['' # py_replace [CHR 0x0D, CHR 0x0A] [] (if CHR ''['' \<in> set out then after_first (CHR ''['') out else out)"

definition json_decode_error :: raised where
  "json_decode_error = py_error PyValueError ''JSONDecodeError'' []"

definition decode_trace :: "string \<Rightarrow> raised + json" where
  "decode_trace s =
     (case json_decode (\<lambda>ps. JObj (manage_duplicates ps)) s of None \<Rightarrow> Inl json_decode_error | Some v \<Rightarrow> Inr v)"

section \<open>DHCPv4\<close>

record ip_addresses =
  ia_ipv4 :: json
  ia_ipv6 :: json
  ia_link_local :: json

record dhcp_trace =
  dt_source :: ip_addresses
  dt_destination :: ip_addresses
  dt_packet :: json
  dt_type :: int

definition trace_element :: "json \<Rightarrow> raised + dhcp_trace" where
  "trace_element element =
     (case json_path element [''_source'', ''layers'', ''ip'', ''ip.src''] of Inl e \<Rightarrow> Inl e | Inr src \<Rightarrow>
      case json_path element [''_source'', ''layers'', ''ip'', ''ip.dst''] of Inl e \<Rightarrow> Inl e | Inr dst \<Rightarrow>
      case json_path element [''_source'', ''layers'', ''dhcp''] of Inl e \<Rightarrow> Inl e | Inr pkt \<Rightarrow>
      case json_path pkt [''dhcp.option.type_tree'', ''dhcp.option.dhcp''] of Inl e \<Rightarrow> Inl e | Inr t \<Rightarrow>
      case int_of_json t of Inl e \<Rightarrow> Inl e | Inr n \<Rightarrow>
        Inr \<lparr>dt_source = \<lparr>ia_ipv4 = src, ia_ipv6 = JNull, ia_link_local = JNull\<rparr>,
             dt_destination = \<lparr>ia_ipv4 = dst, ia_ipv6 = JNull, ia_link_local = JNull\<rparr>,
             dt_packet = pkt, dt_type = n\<rparr>)"

fun each :: "('a \<Rightarrow> raised + 'b) \<Rightarrow> 'a list \<Rightarrow> raised + 'b list" where
  "each f [] = Inr []"
| "each f (x # xs) =
     (case f x of Inl e \<Rightarrow> Inl e | Inr y \<Rightarrow> (case each f xs of Inl e \<Rightarrow> Inl e | Inr ys \<Rightarrow> Inr (y # ys)))"

definition read_dhcp_trace :: "raised + string \<Rightarrow> raised + dhcp_trace list" where
  "read_dhcp_trace out =
     (case out of Inl e \<Rightarrow> Inl e | Inr text \<Rightarrow>
      case decode_trace (py_replace ''bootp'' ''dhcp'' (json_part text)) of Inl e \<Rightarrow> Inl e
        | Inr (JList elements) \<Rightarrow> each trace_element elements
        | Inr _ \<Rightarrow> Inl type_error)"

definition parse_dhcp_trace :: "raised + string \<Rightarrow> raised + dhcp_trace list" where
  "parse_dhcp_trace out =
     (case read_dhcp_trace out of
        Inl e \<Rightarrow> Inl (use_case_failure (''Failed to parse DHCP packets due to '' @ rx_message e @ '' ''))
      | Inr ts \<Rightarrow> Inr ts)"

definition dhcp_message_dict :: "(string, int) dict" where
  "dhcp_message_dict =
     [(''DHCPDISCOVER'', 1), (''DHCPOFFER'', 2), (''DHCPREQUEST'', 3), (''DHCPDECLINE'', 4), (''DHCPACK'', 5),
      (''DHCPNAK'', 6), (''DHCPRELEASE'', 7), (''DHCPINFORM'', 8)]"

definition get_dhcp_packet_by_message :: "dhcp_trace list \<Rightarrow> string \<Rightarrow> dhcp_trace list" where
  "get_dhcp_packet_by_message trace message_type =
     filter (\<lambda>p. dict_get dhcp_message_dict message_type = Some (dt_type p)) trace"

definition get_all_dhcp_options :: "dhcp_trace \<Rightarrow> raised + (string, json) dict" where
  "get_all_dhcp_options packet =
     (case dt_packet packet of
        JObj d \<Rightarrow> Inr (filter (\<lambda>p. str_in ''dhcp.option.type'' (fst p)) d)
      | _ \<Rightarrow> Inl attribute_error)"

text \<open>\<^verbatim>\<open>re.search(r"_\d", key)\<close>.\<close>

fun has_index :: "string \<Rightarrow> bool" where
  "has_index (c # d # s) \<longleftrightarrow> c = CHR ''_'' \<and> is_digit d \<or> has_index (d # s)"
| "has_index _ \<longleftrightarrow> False"

definition tree_key :: "string \<Rightarrow> string" where
  "tree_key key =
     (if has_index key
      then hd (split_on (CHR ''_'') key) @ ''_tree_'' @ last (split_on (CHR ''_'') key)
      else key @ ''_tree'')"

text \<open>
  The loop over the members: a member with an index ends it, one without does not. \<open>wanted\<close> is the test
  on key and value, \<open>missing\<close> the error of a tree that is not there.
\<close>

fun find_tree ::
  "(string \<Rightarrow> json \<Rightarrow> bool) \<Rightarrow> raised \<Rightarrow> (string, json) dict \<Rightarrow> (string, json) dict \<Rightarrow> json option \<Rightarrow> raised + json option" where
  "find_tree wanted missing full [] out = Inr out"
| "find_tree wanted missing full ((key, v) # ps) out =
     (if wanted key v then
        (case dict_get full (tree_key key) of
           None \<Rightarrow> Inl missing
         | Some t \<Rightarrow> if has_index key then Inr (Some t) else find_tree wanted missing full ps (Some t))
      else find_tree wanted missing full ps out)"

definition unbound_out :: raised where
  "unbound_out = py_error PyException ''UnboundLocalError''
     (''cannot access local variable '' @ py_repr ''out'' @ '' where it is not associated with a value'')"

definition get_dhcp_option_details :: "dhcp_trace \<Rightarrow> int \<Rightarrow> raised + json" where
  "get_dhcp_option_details packet option =
     (case get_all_dhcp_options packet of
        Inl e \<Rightarrow> Inl e
      | Inr ds \<Rightarrow>
         (case find_tree (\<lambda>k v. v = JStr (int_str option)) (use_case_failure (''Failed to find option '' @ int_str option)) ds ds None of
            Inl e \<Rightarrow> Inl e
          | Inr None \<Rightarrow> Inl unbound_out
          | Inr (Some t) \<Rightarrow> Inr t))"

text \<open>The message of a suboption that is not there ends with the suboptions, which are not printed here.\<close>

definition get_dhcp_suboption_details :: "dhcp_trace \<Rightarrow> int \<Rightarrow> int \<Rightarrow> raised + json" where
  "get_dhcp_suboption_details packet option suboption =
     (case get_dhcp_option_details packet option of Inl e \<Rightarrow> Inl e | Inr data \<Rightarrow>
      case (if option = 125 then json_item data ''dhcp.option.vi.enterprise_tree'' else Inr data) of
        Inl e \<Rightarrow> Inl e
      | Inr (JObj ds) \<Rightarrow>
         (case find_tree (\<lambda>k v. str_in ''suboption'' k \<and> v = JStr (int_str suboption))
                 (use_case_failure (''Failed to find suboption '' @ int_str suboption @ '' '')) ds ds None of
            Inl e \<Rightarrow> Inl e
          | Inr out \<Rightarrow>
             (let t = (case out of None \<Rightarrow> JObj [] | Some x \<Rightarrow> x)
              in if truthy t then Inr t
                 else Inl (use_case_failure (''Failed to fetch suboption '' @ int_str suboption @ '' for option '' @
                        int_str option @ '' in''))))
      | Inr _ \<Rightarrow> Inl attribute_error)"

section \<open>DHCPv6\<close>

text \<open>
  The parser of one packet appends to two lists, of keys and of values, that the caller hands in: they
  are threaded. \<open>own_parts\<close> is what one packet appends.
\<close>

fun format_parts :: "(string, json) dict \<Rightarrow> string list \<times> json list" where
  "format_parts [] = ([], [])"
| "format_parts ((key, v) # ps) =
     (let (ks, vs) = format_parts ps
      in case v of
           JStr t \<Rightarrow> if startswith key ''dhcpv6.option.type_str'' then (t # ks, vs) else (key # ks, v # vs)
         | _ \<Rightarrow> if startswith key ''dhcpv6.option.type_str_tree'' then (ks, v # vs) else (key # ks, v # vs))"

definition modify_format :: "(string, json) dict \<Rightarrow> json" where
  "modify_format nested = (let (ks, vs) = format_parts nested in JObj (dict_of_list (zip ks vs)))"

fun own_parts :: "(string, json) dict \<Rightarrow> string list \<times> json list" where
  "own_parts [] = ([], [])"
| "own_parts ((key, v) # ps) =
     (let (ks, vs) = own_parts ps
      in case v of
           JStr t \<Rightarrow> if startswith key ''dhcpv6.option.type_str'' then (t # ks, vs) else (key # ks, v # vs)
         | JObj d \<Rightarrow> if startswith key ''dhcpv6.option.type_str_tree'' then (ks, modify_format d # vs) else (key # ks, v # vs)
         | _ \<Rightarrow> (key # ks, v # vs))"

definition parse_options ::
  "(string, json) dict \<Rightarrow> string list \<times> json list \<Rightarrow> (string, json) dict \<times> string list \<times> json list" where
  "parse_options pkt_dict acc =
     (let (ks, vs) = own_parts pkt_dict; key_list = fst acc @ ks; val_list = snd acc @ vs
      in (dict_of_list (zip key_list val_list), key_list, val_list))"

definition update_trace_data :: "json \<Rightarrow> json \<Rightarrow> raised + dhcp_trace" where
  "update_trace_data msg element =
     (case json_path element [''_source'', ''layers'', ''ipv6'', ''ipv6.src''] of Inl e \<Rightarrow> Inl e | Inr src \<Rightarrow>
      case json_path element [''_source'', ''layers'', ''ipv6'', ''ipv6.dst''] of Inl e \<Rightarrow> Inl e | Inr dst \<Rightarrow>
      case json_path element [''_source'', ''layers'', ''dhcpv6'', ''dhcpv6.msgtype''] of Inl e \<Rightarrow> Inl e | Inr t \<Rightarrow>
      case int_of_json t of Inl e \<Rightarrow> Inl e | Inr n \<Rightarrow>
        Inr \<lparr>dt_source = \<lparr>ia_ipv4 = JNull, ia_ipv6 = src, ia_link_local = JNull\<rparr>,
             dt_destination = \<lparr>ia_ipv4 = JNull, ia_ipv6 = dst, ia_link_local = JNull\<rparr>,
             dt_packet = msg, dt_type = n\<rparr>)"

text \<open>\<^verbatim>\<open>k in v\<close>: a key of an object, an element of a list, a part of a text.\<close>

definition json_in :: "string \<Rightarrow> json \<Rightarrow> raised + bool" where
  "json_in k v =
     (case v of
        JObj d \<Rightarrow> Inr (dict_mem k d)
      | JList xs \<Rightarrow> Inr (JStr k \<in> set xs)
      | JStr s \<Rightarrow> Inr (str_in k s)
      | _ \<Rightarrow> Inl type_error)"

definition trace_element6 ::
  "json \<Rightarrow> string list \<times> json list \<Rightarrow> raised + dhcp_trace \<times> string list \<times> json list" where
  "trace_element6 element acc =
     (case json_path element [''_source'', ''layers'', ''dhcpv6''] of Inl e \<Rightarrow> Inl e | Inr pkt \<Rightarrow>
      case json_in ''Relay Message'' pkt of Inl e \<Rightarrow> Inl e
      | Inr True \<Rightarrow> (case update_trace_data pkt element of Inl e \<Rightarrow> Inl e | Inr t \<Rightarrow> Inr (t, acc))
      | Inr False \<Rightarrow>
         (case pkt of
            JObj d \<Rightarrow>
              (case parse_options d acc of (dhcp_dict, acc') \<Rightarrow>
                 (case update_trace_data (JObj dhcp_dict) element of Inl e \<Rightarrow> Inl e | Inr t \<Rightarrow> Inr (t, acc')))
          | _ \<Rightarrow> Inl attribute_error))"

fun trace_elements6 :: "json list \<Rightarrow> string list \<times> json list \<Rightarrow> raised + dhcp_trace list" where
  "trace_elements6 [] acc = Inr []"
| "trace_elements6 (x # xs) acc =
     (case trace_element6 x acc of
        Inl e \<Rightarrow> Inl e
      | Inr (t, acc') \<Rightarrow> (case trace_elements6 xs acc' of Inl e \<Rightarrow> Inl e | Inr ts \<Rightarrow> Inr (t # ts)))"

definition trace_failure :: "raised \<Rightarrow> raised" where
  "trace_failure e =
     (if rx_name e = ''KeyError''
      then use_case_failure (''Failed due to missing key '' @ rx_message e @ '' in dictionary'')
      else if rx_class e = PyTypeError then use_case_failure (''Failed due to type error: '' @ rx_message e)
      else e)"

definition parse_dhcpv6_trace :: "raised + string \<Rightarrow> raised + dhcp_trace list" where
  "parse_dhcpv6_trace out =
     (case out of Inl e \<Rightarrow> Inl e | Inr text \<Rightarrow>
      case decode_trace (json_part text) of
        Inl e \<Rightarrow> Inl (use_case_failure (''Failed to parse JSON due to '' @ rx_message e @ '' ''))
      | Inr obj \<Rightarrow>
         (case obj of
            JList elements \<Rightarrow>
              (case trace_elements6 elements ([], []) of Inl e \<Rightarrow> Inl (trace_failure e) | Inr ts \<Rightarrow> Inr ts)
          | _ \<Rightarrow> Inl (trace_failure type_error)))"

definition dhcpv6_message_dict :: "(string, int) dict" where
  "dhcpv6_message_dict =
     [(''SOLICIT'', 1), (''ADVERTISE'', 2), (''REQUEST'', 3), (''CONFIRM'', 4), (''RENEW'', 5), (''REBIND'', 6),
      (''REPLY'', 7), (''RELEASE'', 8), (''DECLINE'', 9), (''RECONFIGURE'', 10), (''INFORMATION-REQUEST'', 11),
      (''RELAY-FORW'', 12), (''RELAY-REPLY'', 13)]"

definition get_dhcpv6_packet_by_message :: "dhcp_trace list \<Rightarrow> string \<Rightarrow> dhcp_trace list" where
  "get_dhcpv6_packet_by_message trace message_type =
     filter (\<lambda>p. dict_get dhcpv6_message_dict message_type = Some (dt_type p)) trace"

definition get_all_dhcpv6_options :: "dhcp_trace \<Rightarrow> raised + (string, json) dict" where
  "get_all_dhcpv6_options packet =
     (case (if dt_type packet \<in> {12, 13} then json_path (dt_packet packet) [''Relay Message'', ''DHCPv6'']
            else Inr (dt_packet packet)) of
        Inl e \<Rightarrow> Inl e
      | Inr (JObj d) \<Rightarrow> Inr d
      | Inr _ \<Rightarrow> Inl attribute_error)"

text \<open>The members the properties \<^verbatim>\<open>option_1\<close> to \<^verbatim>\<open>option_64\<close> read; a missing one is None.\<close>

definition option_path :: "(nat, string list) dict" where
  "option_path =
     [(3, [''Identity Association for Non-temporary Address'']),
      (5, [''Identity Association for Non-temporary Address'', ''IA Address'']),
      (25, [''Identity Association for Prefix Delegation'']),
      (26, [''Identity Association for Prefix Delegation'', ''IA Prefix'']),
      (8, [''Elapsed time'']), (2, [''Server Identifier'']), (1, [''Client Identifier'']),
      (20, [''Reconfigure Accept'']), (16, [''Vendor Class'']), (17, [''Vendor-specific Information'']),
      (6, [''Vendor-specific Information'']), (23, [''Option Request'']), (24, [''Domain Search List'']),
      (64, [''Dual-Stack Lite AFTR Name'']), (14, [''Rapid Commit''])]"

definition dhcpv6_option :: "nat \<Rightarrow> (string, json) dict \<Rightarrow> raised + json" where
  "dhcpv6_option n option_data =
     (case dict_get option_path n of
        None \<Rightarrow> Inl attribute_error
      | Some path \<Rightarrow>
         (case json_path (JObj option_data) path of
            Inl e \<Rightarrow> if rx_name e = ''KeyError'' then Inr JNull else Inl e
          | Inr v \<Rightarrow> Inr v))"

section \<open>Configuring a client\<close>

type_synonym 'w host_console = "string \<Rightarrow> 'w \<Rightarrow> string \<times> 'w"

fun run_commands :: "'w host_console \<Rightarrow> string list \<Rightarrow> 'w \<Rightarrow> 'w" where
  "run_commands exec [] w = w"
| "run_commands exec (c # cs) w = run_commands exec cs (snd (exec c w))"

definition configure_dhcp_inform :: "'w host_console \<Rightarrow> 'w \<Rightarrow> 'w" where
  "configure_dhcp_inform exec w =
     (let msg_type = ''send dhcp-message-type 8;'';
          (out, w1) = exec (''egrep '' @ [CHR 0x27] @ msg_type @ [CHR 0x27] @ '' /etc/dhcp/dhclient.conf'') w
      in if str_in msg_type out then w1
         else run_commands exec [''cat>>/etc/dhcp/dhclient.conf<<EOF'', msg_type, ''EOF''] w1)"

definition remove_dhcp_inform_config :: "'w host_console \<Rightarrow> 'w \<Rightarrow> 'w" where
  "remove_dhcp_inform_config exec w =
     run_commands exec [''sed -i '' @ [CHR 0x27] @ ''/dhcp-message-type 8/d'' @ [CHR 0x27] @ '' /etc/dhcp/dhclient.conf''] w"

text \<open>\<^verbatim>\<open>hex(n).replace("0x", "").zfill(2)\<close> and the bytes of a text in hexadecimal.\<close>

fun hex_str :: "nat \<Rightarrow> string" where
  "hex_str n = (if n < 16 then [hex_digit n] else hex_str (n div 16) @ [hex_digit (n mod 16)])"

declare hex_str.simps [simp del]

definition zfill2 :: "string \<Rightarrow> string" where
  "zfill2 s = replicate (2 - length s) (CHR ''0'') @ s"

definition upper :: "string \<Rightarrow> string" where
  "upper s = map upper_char s"

definition vendor_value :: "string \<Rightarrow> string" where
  "vendor_value mac = ''VAAU'' @ upper (concat (take 4 (split_on (CHR '':'') mac)))"

definition option_125 :: "string \<Rightarrow> string" where
  "option_125 value =
     ''00:00:0D:E9:'' @ zfill2 (hex_str (18 + length value)) @ '':01:06:44:38:42:36:42:37:02:'' @
     zfill2 (hex_str (length value)) @ '':'' @ join '':'' (map (\<lambda>c. hex2 (of_char c)) value) @
     '':03:06:42:46:43:4c:41:4e''"

definition configure_dhcp_option125 :: "'w host_console \<Rightarrow> ('w \<Rightarrow> string \<times> 'w) \<Rightarrow> 'w \<Rightarrow> 'w" where
  "configure_dhcp_option125 exec macaddr w =
     (let q = [CHR 0x27];
          (out, w1) = exec (''egrep '' @ q @ ''request option-125'' @ q @ '' /etc/dhcp/dhclient.conf'') w
      in if str_in ''request option-125,'' out then w1
         else let w2 = snd (exec (''sed -i -e '' @ q @ ''s|request |'' @ [CHR 0x5C] @ ''noption option-125 code 125 = string;'' @
                       [CHR 0x5C] @ ''n'' @ [CHR 0x5C] @ ''nrequest option-125, |'' @ q @ '' /etc/dhcp/dhclient.conf'') w1);
                  (mac, w3) = macaddr w2
              in run_commands exec
                   [''cat >> /etc/dhcp/dhclient.conf << EOF'',
                    ''send option-125 = '' @ option_125 (vendor_value mac) @ '';'', [], ''EOF''] w3)"

definition remove_dhcp_option125 :: "'w host_console \<Rightarrow> 'w \<Rightarrow> 'w" where
  "remove_dhcp_option125 exec w =
     run_commands exec
       [''sed -i -e '' @ [CHR 0x27] @ ''s|request option-125,|request |'' @ [CHR 0x27] @ '' /etc/dhcp/dhclient.conf'',
        ''sed -i '' @ [CHR 0x27] @ ''/option-125/d'' @ [CHR 0x27] @ '' /etc/dhcp/dhclient.conf''] w"

section \<open>Facts\<close>

text \<open>The DHCPv6 layer of a packet that is not relayed.\<close>

definition direct_layer :: "json \<Rightarrow> (string, json) dict option" where
  "direct_layer x =
     (case json_path x [''_source'', ''layers'', ''dhcpv6''] of
        Inr (JObj d) \<Rightarrow> if dict_mem ''Relay Message'' d then None else Some d
      | _ \<Rightarrow> None)"

definition direct_layers :: "json list \<Rightarrow> (string, json) dict list" where
  "direct_layers xs = List.map_filter direct_layer xs"

definition keys_of :: "(string, json) dict list \<Rightarrow> string list" where
  "keys_of ds = concat (map (\<lambda>d. fst (own_parts d)) ds)"

definition values_of :: "(string, json) dict list \<Rightarrow> json list" where
  "values_of ds = concat (map (\<lambda>d. snd (own_parts d)) ds)"

lemma direct_layers_simps [simp]:
  "direct_layers [] = []"
  "direct_layers (x # xs) = (case direct_layer x of None \<Rightarrow> [] | Some d \<Rightarrow> [d]) @ direct_layers xs"
  by (simp_all add: direct_layers_def List.map_filter_def split: option.splits)

lemma parts_of_simps [simp]:
  "keys_of [] = []" "keys_of (d # ds) = fst (own_parts d) @ keys_of ds"
  "values_of [] = []" "values_of (d # ds) = snd (own_parts d) @ values_of ds"
  by (simp_all add: keys_of_def values_of_def)

lemma update_trace_packet: "update_trace_data msg x = Inr t \<Longrightarrow> dt_packet t = msg"
  by (auto simp: update_trace_data_def split: sum.splits)

lemma trace_element6_Inr:
  assumes "trace_element6 x (ks, vs) = Inr (t, acc)"
  shows "acc = (ks @ keys_of (direct_layers [x]), vs @ values_of (direct_layers [x]))"
    and "direct_layer x = Some d \<Longrightarrow> dt_packet t = JObj (dict_of_list (zip (ks @ fst (own_parts d)) (vs @ snd (own_parts d))))"
proof -
  obtain pkt b where p: "json_path x [''_source'', ''layers'', ''dhcpv6''] = Inr pkt" "json_in ''Relay Message'' pkt = Inr b"
    using assms by (auto simp: trace_element6_def split: sum.splits)
  show "acc = (ks @ keys_of (direct_layers [x]), vs @ values_of (direct_layers [x]))"
    using assms p by (auto simp: trace_element6_def direct_layer_def json_in_def parse_options_def Let_def
        split: sum.splits json.splits bool.splits prod.splits if_splits)
  show "dt_packet t = JObj (dict_of_list (zip (ks @ fst (own_parts d)) (vs @ snd (own_parts d))))" if "direct_layer x = Some d"
    using assms p that by (auto simp: trace_element6_def direct_layer_def json_in_def parse_options_def Let_def
        split: sum.splits json.splits bool.splits prod.splits if_splits dest!: update_trace_packet)
qed

lemma trace_elements6_packets:
  "trace_elements6 xs (ks, vs) = Inr ts \<Longrightarrow>
   length ts = length xs \<and>
   (\<forall>i<length xs. \<forall>d. direct_layer (xs ! i) = Some d \<longrightarrow>
      dt_packet (ts ! i) = JObj (dict_of_list
        (zip (ks @ keys_of (direct_layers (take (Suc i) xs))) (vs @ values_of (direct_layers (take (Suc i) xs))))))"
proof (induction xs arbitrary: ks vs ts)
  case (Cons x xs)
  obtain t acc ts' where t: "trace_element6 x (ks, vs) = Inr (t, acc)" "trace_elements6 xs acc = Inr ts'" "ts = t # ts'"
    using Cons.prems by (auto split: sum.splits)
  note e = trace_element6_Inr [OF t(1)]
  note IH = Cons.IH [OF t(2) [unfolded e(1)]]
  have "dt_packet (ts ! i) = JObj (dict_of_list
        (zip (ks @ keys_of (direct_layers (take (Suc i) (x # xs)))) (vs @ values_of (direct_layers (take (Suc i) (x # xs))))))"
    if "i < length (x # xs)" "direct_layer ((x # xs) ! i) = Some d" for i d
  proof (cases i)
    case 0
    then show ?thesis using e(2) that t(3) by simp
  next
    case (Suc j)
    have a: "keys_of (ds @ ds') = keys_of ds @ keys_of ds'" "values_of (ds @ ds') = values_of ds @ values_of ds'" for ds ds'
      by (simp_all add: keys_of_def values_of_def)
    show ?thesis using IH that t(3) Suc by (simp add: a)
  qed
  then show ?case using IH t(3) by simp
qed simp

text \<open>The members of a list of options: a type and its tree, numbered from the second option on.\<close>

definition type_key :: "nat \<Rightarrow> string" where
  "type_key i = ''dhcp.option.type'' @ index_suffix i"

definition type_tree_key :: "nat \<Rightarrow> string" where
  "type_tree_key i = ''dhcp.option.type_tree'' @ index_suffix i"

fun option_members :: "nat \<Rightarrow> (string \<times> (string, json) dict) list \<Rightarrow> (string, json) dict" where
  "option_members i [] = []"
| "option_members i ((v, t) # os) = (type_key i, JStr v) # (type_tree_key i, JObj t) # option_members (Suc i) os"

definition option_pairs :: "(string \<times> (string, json) dict) list \<Rightarrow> (string \<times> json) list" where
  "option_pairs os = concat (map (\<lambda>(v, t). [(''dhcp.option.type'', JStr v), (''dhcp.option.type_tree'', JObj t)]) os)"

lemma index_suffix_inj [simp]: "index_suffix i = index_suffix j \<longleftrightarrow> i = j"
  by (auto simp: index_suffix_def dest: nat_str_inj)

lemma index_suffix_tree: "''_tree'' @ index_suffix i \<noteq> index_suffix j"
proof
  assume eq: "''_tree'' @ index_suffix i = index_suffix j"
  then have "nat_str j = ''tree'' @ index_suffix i" by (auto simp: index_suffix_def split: if_splits)
  then have "CHR ''t'' \<in> set (nat_str j)" by simp
  then have "(of_char (CHR ''t'') :: nat) \<le> 57" using nat_str_digits by blast
  then show False by simp
qed

lemma option_keys_distinct [simp]:
  "type_key i = type_key j \<longleftrightarrow> i = j"
  "type_tree_key i = type_tree_key j \<longleftrightarrow> i = j"
  "type_key j \<noteq> type_tree_key i" "type_tree_key i \<noteq> type_key j"
  using index_suffix_tree [of i j] by (auto simp: type_key_def type_tree_key_def)

lemma option_members_keys:
  "k \<in> set (dict_keys (option_members i os)) \<Longrightarrow> \<exists>j\<ge>i. k = type_key j \<or> k = type_tree_key j"
proof (induction i os rule: option_members.induct)
  case (2 i v t os)
  then show ?case using Suc_leD by fastforce
qed simp

lemma option_members_fresh:
  assumes "j < i"
  shows "type_key j \<notin> set (dict_keys (option_members i os))" and "type_tree_key j \<notin> set (dict_keys (option_members i os))"
  using option_members_keys [of "type_key j" i os] option_members_keys [of "type_tree_key j" i os] assms
  by (auto simp del: set_map)

lemma option_members_append:
  "option_members i (os @ [(v, t)]) =
     option_members i os @ [(type_key (i + length os), JStr v), (type_tree_key (i + length os), JObj t)]"
  by (induction i os rule: option_members.induct) auto

lemma option_members_unused:
  "\<not> dict_mem (type_key (i + length os)) (option_members i os) \<and> \<not> dict_mem (type_tree_key (i + length os)) (option_members i os)"
proof (induction i os rule: option_members.induct)
  case (2 i v t os)
  then show ?case by (simp add: dict_mem_def)
qed (simp add: dict_mem_def)

lemma manage_duplicates_options: "manage_duplicates (option_pairs os) = option_members 0 os"
proof -
  have "\<exists>c. foldl dup_step ([], \<lambda>_. 0) (option_pairs os) = (option_members 0 os, c) \<and>
      c ''dhcp.option.type'' = length os \<and> c ''dhcp.option.type_tree'' = length os"
  proof (induction os rule: rev_induct)
    case Nil
    then show ?case by (simp add: option_pairs_def)
  next
    case (snoc o' os)
    obtain v t where o': "o' = (v, t)" by (cases o')
    have fresh: "\<not> dict_mem (type_key (length os)) (option_members 0 os)"
      "\<not> dict_mem (type_tree_key (length os)) (option_members 0 os)"
      using option_members_unused [of 0 os] by simp_all
    have "\<not> dict_mem (type_tree_key (length os)) (option_members 0 os @ [(type_key (length os), JStr v)])"
      using fresh(2) by (simp add: dict_mem_keys)
    then show ?case
      using snoc fresh
      by (auto simp: o' option_pairs_def option_members_append type_key_def [symmetric] type_tree_key_def [symmetric] dict_set_fresh
          simp flip: append_Cons)
  qed
  then show ?thesis by (auto simp: manage_duplicates_def)
qed

lemma nat_str_ends: "nat_str n \<noteq> [] \<and> is_digit (hd (nat_str n))"
proof -
  have "nat_str n \<noteq> []" by (subst nat_str.simps) simp
  moreover from this have "hd (nat_str n) \<in> set (nat_str n)" by simp
  ultimately show ?thesis using nat_str_digits [of "hd (nat_str n)" n] by (simp add: is_digit_def)
qed

lemma has_index_append: "has_index s \<Longrightarrow> has_index (r @ s)"
proof (induction r)
  case (Cons c r)
  then show ?case by (cases "r @ s") auto
qed simp

lemma has_index_type_key: "has_index (type_key i) \<longleftrightarrow> i \<noteq> 0"
proof (cases "i = 0")
  case True
  have "\<not> has_index ''dhcp.option.type''" by (simp add: is_digit_def)
  then show ?thesis using True by (simp add: type_key_def index_suffix_def)
next
  case False
  obtain c r where "nat_str i = c # r" "is_digit c" using nat_str_ends [of i] by (cases "nat_str i") auto
  then have "has_index (index_suffix i)" using False by (simp add: index_suffix_def)
  then have "has_index (''dhcp.option.type'' @ index_suffix i)" by (rule has_index_append)
  then show ?thesis using False by (simp add: type_key_def)
qed

lemma tree_key_type_key: "tree_key (type_key i) = type_tree_key i"
proof (cases "i = 0")
  case True
  then show ?thesis using has_index_type_key [of i] by (simp add: tree_key_def) (simp add: type_key_def type_tree_key_def index_suffix_def)
next
  case False
  have d: "CHR ''_'' \<notin> set (nat_str i)" using nat_str_digits [of "CHR ''_''" i] by auto
  have "split_on (CHR ''_'') (''dhcp.option.type'' @ CHR ''_'' # nat_str i) = [''dhcp.option.type'', nat_str i]"
    using split_on_append [of "CHR ''_''" "''dhcp.option.type''" "nat_str i"] split_on_single [OF d] by simp
  then have "split_on (CHR ''_'') (type_key i) = [''dhcp.option.type'', nat_str i]"
    using False by (simp add: type_key_def index_suffix_def)
  then show ?thesis
    using False has_index_type_key [of i] by (simp add: tree_key_def type_tree_key_def index_suffix_def)
qed

lemma option_members_tree:
  "j < length os \<Longrightarrow> dict_get (option_members i os) (type_tree_key (i + j)) = Some (JObj (snd (os ! j)))"
proof (induction i os arbitrary: j rule: option_members.induct)
  case (2 i v t os)
  show ?case
  proof (cases j)
    case (Suc k)
    then show ?thesis using 2(1) [of k] 2(2) by simp
  qed simp
qed simp

lemma find_tree_indexed:
  assumes "\<forall>j<length os. dict_get full (type_tree_key (i + j)) = Some (JObj (snd (os ! j)))" and "0 < i"
  shows "find_tree (\<lambda>k v. v = JStr w) e full (option_members i os) out =
    Inr (case find (\<lambda>x. fst x = w) os of Some x \<Rightarrow> Some (JObj (snd x)) | None \<Rightarrow> out)"
  using assms
proof (induction i os rule: option_members.induct)
  case (2 i v t os)
  have "dict_get full (type_tree_key i) = Some (JObj t)" using 2(2) by force
  moreover have "\<forall>j<length os. dict_get full (type_tree_key (Suc i + j)) = Some (JObj (snd (os ! j)))"
    using 2(2) by (metis add_Suc_shift length_Cons nat_add_left_cancel_less nth_Cons_Suc plus_1_eq_Suc)
  ultimately show ?case
    using 2(1,3) by (simp add: tree_key_type_key has_index_type_key)
qed simp

text \<open>The other members of a packet do not matter: numbering the duplicates and selecting the options
  commute, because an index never completes the text that marks an option.\<close>

abbreviation is_option :: "string \<Rightarrow> bool" where
  "is_option key \<equiv> str_in ''dhcp.option.type'' key"

lemma index_suffix_chars: "c \<in> set (index_suffix n) \<Longrightarrow> c = CHR ''_'' \<or> of_char c \<le> (57 :: nat)"
  using nat_str_digits [of c n] by (auto simp: index_suffix_def split: if_splits)

lemma str_in_append:
  assumes "pat \<noteq> []" and "last pat \<notin> set end"
  shows "str_in pat (key @ end) \<longleftrightarrow> str_in pat key"
proof
  assume "str_in pat (key @ end)"
  then obtain u w where "key @ end = (u @ pat) @ w" by (auto simp: str_in_iff)
  then obtain us where us: "key = (u @ pat) @ us \<or> key @ us = u @ pat \<and> end = us @ w"
    unfolding append_eq_append_conv2 by blast
  show "str_in pat key"
  proof (cases "us = []")
    case False
    have "last us = last pat" if "key @ us = u @ pat"
      using arg_cong [OF that, of last] False assms(1) by simp
    then have "\<not> (key @ us = u @ pat \<and> end = us @ w)" using last_in_set [OF False] assms(2) by auto
    then show ?thesis using us by (auto simp: str_in_iff)
  qed (use us in \<open>auto simp: str_in_iff intro: exI [of _ "[]"]\<close>)
next
  assume "str_in pat key"
  then obtain u w where "key @ end = u @ pat @ (w @ end)" by (auto simp: str_in_iff)
  then show "str_in pat (key @ end)" unfolding str_in_iff by blast
qed

lemma is_option_index: "is_option (key @ index_suffix n) \<longleftrightarrow> is_option key"
proof (rule str_in_append)
  show "last ''dhcp.option.type'' \<notin> set (index_suffix n)"
    using index_suffix_chars [of "CHR ''e''" n] by auto
qed simp

lemma filter_dict_set:
  "filter (\<lambda>p. Q (fst p)) (dict_set k v d) =
     (if Q k then dict_set k v (filter (\<lambda>p. Q (fst p)) d) else filter (\<lambda>p. Q (fst p)) d)"
  by (induction d) auto

lemma filter_dup_steps:
  assumes "\<forall>k. is_option k \<longrightarrow> c' k = c k"
  shows "fst (foldl dup_step (filter (\<lambda>p. is_option (fst p)) d, c') (filter (\<lambda>p. is_option (fst p)) ps)) =
    filter (\<lambda>p. is_option (fst p)) (fst (foldl dup_step (d, c) ps))"
  using assms
proof (induction ps arbitrary: d c c')
  case (Cons m ps)
  obtain key v where m: "m = (key, v)" by (cases m)
  let ?d = "dict_set (key @ index_suffix (c key)) v d"
  have "\<forall>k. is_option k \<longrightarrow> (c'(key := c' key + 1)) k = (c(key := c key + 1)) k"
    and "\<not> is_option key \<Longrightarrow> \<forall>k. is_option k \<longrightarrow> c' k = (c(key := c key + 1)) k"
    using Cons.prems by auto
  note IH = Cons.IH [OF this(1), of ?d] Cons.IH [OF this(2), of ?d]
  show ?case
    using IH Cons.prems by (cases "is_option key") (simp_all add: m filter_dict_set is_option_index del: fun_upd_apply)
qed simp

lemma filter_manage_duplicates:
  "filter (\<lambda>p. is_option (fst p)) (manage_duplicates ps) = manage_duplicates (filter (\<lambda>p. is_option (fst p)) ps)"
  using filter_dup_steps [of "\<lambda>_. 0" "\<lambda>_. 0" "[]" ps] by (simp add: manage_duplicates_def)

section \<open>Properties\<close>

text \<open>C20: Looking up an option of a DHCP packet as the trace reader decodes it, whatever other members the packet
  has, gives the tree of the first option of that number after the very first option of the packet, and
  the first option only if no later one matches: of a number that is repeated the second occurrence is
  returned when the first opens the packet, else the first. A number that does not occur is not reported
  as a use-case failure, as documented, but raises UnboundLocalError.\<close>

theorem dhcp_option_lookup:
  assumes "dt_packet p = JObj (manage_duplicates ms)" and "filter (\<lambda>m. is_option (fst m)) ms = option_pairs os"
  shows "get_dhcp_option_details p option =
    (case find (\<lambda>x. fst x = int_str option) (tl os @ take 1 os) of
       Some x \<Rightarrow> Inr (JObj (snd x))
     | None \<Rightarrow> Inl unbound_out) \<and> rx_class unbound_out \<noteq> UseCaseFailure"
proof (cases os)
  case Nil
  then show ?thesis
    by (simp add: assms get_dhcp_option_details_def get_all_dhcp_options_def filter_manage_duplicates
        manage_duplicates_options unbound_out_def py_error_def)
next
  case (Cons x rest)
  obtain v t where x: "x = (v, t)" by (cases x)
  let ?w = "int_str option"
  let ?full = "option_members 0 os"
  have trees: "\<forall>j<length rest. dict_get ?full (type_tree_key (1 + j)) = Some (JObj (snd (rest ! j)))"
    using option_members_tree [of _ rest 1] by (simp add: Cons x)
  have first: "dict_get ?full (type_tree_key 0) = Some (JObj t)" by (simp add: Cons x)
  have "find_tree (\<lambda>k v. v = JStr ?w) e ?full ?full None =
      find_tree (\<lambda>k v. v = JStr ?w) e ?full (option_members 1 rest) (if v = ?w then Some (JObj t) else None)" for e
    using first by (simp add: Cons x tree_key_type_key has_index_type_key)
  then have run: "find_tree (\<lambda>k v. v = JStr ?w) e ?full ?full None =
      Inr (case find (\<lambda>x. fst x = ?w) rest of Some x \<Rightarrow> Some (JObj (snd x))
           | None \<Rightarrow> if v = ?w then Some (JObj t) else None)" (is "?l e = _") for e
    by (simp only: find_tree_indexed [OF trees zero_less_one])
  have find_app: "find P (xs @ ys) = (case find P xs of Some y \<Rightarrow> Some y | None \<Rightarrow> find P ys)" for P and xs ys :: "'a list"
    by (induction xs) auto
  show ?thesis
    unfolding get_dhcp_option_details_def get_all_dhcp_options_def assms json.case filter_manage_duplicates
      manage_duplicates_options sum.case run
    by (auto simp: Cons x find_app unbound_out_def py_error_def split: option.splits)
qed

definition demo_options :: "(string \<times> (string, json) dict) list" where
  "demo_options =
     [(''53'', [(''dhcp.option.dhcp'', JStr ''1'')]), (''60'', []), (''53'', [(''dhcp.option.dhcp'', JStr ''3'')])]"

text \<open>The members of the layer: some of the header, two of them of one name, then the options and the padding.\<close>

definition demo_layer :: "(string \<times> json) list" where
  "demo_layer =
     [(''dhcp.type'', JStr ''1''), (''dhcp.flags'', JStr ''0''), (''dhcp.ip'', JStr ''a''), (''dhcp.ip'', JStr ''b'')] @
     option_pairs demo_options @ [(''dhcp.option.padding'', JStr ''00'')]"

definition demo_packet :: dhcp_trace where
  "demo_packet =
     \<lparr>dt_source = \<lparr>ia_ipv4 = JNull, ia_ipv6 = JNull, ia_link_local = JNull\<rparr>,
      dt_destination = \<lparr>ia_ipv4 = JNull, ia_ipv6 = JNull, ia_link_local = JNull\<rparr>,
      dt_packet = JObj (manage_duplicates demo_layer), dt_type = 1\<rparr>"

theorem dhcp_option_lookup_witness:
  "get_dhcp_option_details demo_packet 53 = Inr (JObj [(''dhcp.option.dhcp'', JStr ''3'')]) \<and>
   get_dhcp_option_details demo_packet 50 = Inl unbound_out"
proof -
  have p: "dt_packet demo_packet = JObj (manage_duplicates demo_layer)" by (simp add: demo_packet_def)
  have o: "filter (\<lambda>m. is_option (fst m)) demo_layer = option_pairs demo_options" by code_simp
  have n: "int_str 53 = ''53''" "int_str 50 = ''50''" by code_simp+
  show ?thesis
    using dhcp_option_lookup [OF p o, of 53] dhcp_option_lookup [OF p o, of 50] by (simp add: n demo_options_def)
qed

text \<open>Packets of one DHCPv6 capture run into each other. In a trace that parses, the options of the i-th
  packet that is not relayed are read off the keys and values of all such packets up to it, and when
  every packet lists as many keys as values, each option of an earlier packet is present in it: only the
  first packet has just its own options.\<close>

theorem dhcpv6_trace_accumulates:
  assumes "parse_dhcpv6_trace (Inr text) = Inr ts" and "decode_trace (json_part text) = Inr (JList xs)"
    and "i < length ts" and "direct_layer (xs ! i) = Some d"
  shows "length ts = length xs \<and>
    (let ds = direct_layers (take (Suc i) xs); opts = dict_of_list (zip (keys_of ds) (values_of ds))
     in dt_packet (ts ! i) = JObj opts \<and>
        ((\<forall>x\<in>set ds. length (fst (own_parts x)) = length (snd (own_parts x))) \<longrightarrow>
           (\<forall>j\<le>i. \<forall>d'. direct_layer (xs ! j) = Some d' \<longrightarrow> (\<forall>k\<in>set (fst (own_parts d')). dict_mem k opts))))"
proof -
  have "trace_elements6 xs ([], []) = Inr ts"
    using assms(1,2) by (auto simp: parse_dhcpv6_trace_def split: sum.splits)
  note t = trace_elements6_packets [OF this]
  let ?ds = "direct_layers (take (Suc i) xs)"
  have mem: "dict_mem k (dict_of_list (zip (keys_of ?ds) (values_of ?ds)))"
    if b: "\<forall>x\<in>set ?ds. length (fst (own_parts x)) = length (snd (own_parts x))"
      and j: "j \<le> i" "direct_layer (xs ! j) = Some d'" "k \<in> set (fst (own_parts d'))" for j d' k
  proof -
    have "length (keys_of ds) = length (values_of ds)"
      if "\<forall>x\<in>set ds. length (fst (own_parts x)) = length (snd (own_parts x))" for ds
      using that by (induction ds) auto
    from this [OF b] have len: "length (keys_of ?ds) = length (values_of ?ds)" .
    have "xs ! j \<in> set (take (Suc i) xs)"
      using j(1) assms(3) t by (auto simp: in_set_conv_nth intro!: exI [of _ j])
    then have "d' \<in> set ?ds" using j(2) by (force simp: direct_layers_def List.map_filter_def)
    then have "k \<in> set (keys_of ?ds)" using j(3) by (auto simp: keys_of_def)
    then have "k \<in> fst ` set (rev (zip (keys_of ?ds) (values_of ?ds)))"
      using len by (metis list.set_map map_fst_zip set_rev)
    then show ?thesis by (simp add: dict_mem_def dict_get_of_list map_of_eq_None_iff)
  qed
  show ?thesis using t assms(3,4) mem by (simp add: Let_def)
qed

text \<open>Two packets, the first with a rapid-commit option; the quotes of the JSON text are written as percent signs.\<close>

definition demo_capture :: string where
  "demo_capture = map (\<lambda>c. if c = CHR ''%'' then CHR 0x22 else c)
     (''Running as root.[{%_source%:{%layers%:{%ipv6%:{%ipv6.src%:%a%,%ipv6.dst%:%b%},'' @
      ''%dhcpv6%:{%dhcpv6.msgtype%:%1%,%Rapid Commit%:%1%}}}},'' @
      ''{%_source%:{%layers%:{%ipv6%:{%ipv6.src%:%a%,%ipv6.dst%:%b%},%dhcpv6%:{%dhcpv6.msgtype%:%7%}}}}]'')"

definition demo_element :: "(string, json) dict \<Rightarrow> json" where
  "demo_element d =
     JObj [(''_source'', JObj [(''layers'', JObj
       [(''ipv6'', JObj [(''ipv6.src'', JStr ''a''), (''ipv6.dst'', JStr ''b'')]), (''dhcpv6'', JObj d)])])]"

lemma demo_capture_decoded:
  "decode_trace (json_part demo_capture) =
     Inr (JList [demo_element [(''dhcpv6.msgtype'', JStr ''1''), (''Rapid Commit'', JStr ''1'')],
                 demo_element [(''dhcpv6.msgtype'', JStr ''7'')]])"
  by code_simp

theorem dhcpv6_trace_accumulates_witness:
  "\<exists>ts. parse_dhcpv6_trace (Inr demo_capture) = Inr ts \<and> length ts = 2 \<and>
     (\<exists>opts. dt_packet (ts ! 1) = JObj opts \<and> dict_mem ''Rapid Commit'' opts)"
proof -
  have "\<not> isl (parse_dhcpv6_trace (Inr demo_capture))" by code_simp
  then obtain ts where ts: "parse_dhcpv6_trace (Inr demo_capture) = Inr ts"
    by (cases "parse_dhcpv6_trace (Inr demo_capture)") auto
  let ?ds = "[demo_element [(''dhcpv6.msgtype'', JStr ''1''), (''Rapid Commit'', JStr ''1'')], demo_element [(''dhcpv6.msgtype'', JStr ''7'')]]"
  have layers: "direct_layer (demo_element d) = (if dict_mem ''Relay Message'' d then None else Some d)" for d
    by (simp add: direct_layer_def demo_element_def json_item_def get_item_def)
  have len: "length ts = 2"
    using ts by (auto simp: parse_dhcpv6_trace_def demo_capture_decoded split: sum.splits if_splits prod.splits)
  have one: "1 < length ts" "direct_layer (?ds ! 1) = Some [(''dhcpv6.msgtype'', JStr ''7'')]"
    by (simp_all add: len layers dict_mem_def)
  let ?ls = "direct_layers (take (Suc 1) ?ds)"
  let ?opts = "dict_of_list (zip (keys_of ?ls) (values_of ?ls))"
  note r = dhcpv6_trace_accumulates [OF ts demo_capture_decoded one, unfolded Let_def]
  have "direct_layer (?ds ! 0) = Some [(''dhcpv6.msgtype'', JStr ''1''), (''Rapid Commit'', JStr ''1'')]"
    by (simp add: layers dict_mem_def)
  moreover have "\<forall>x\<in>set ?ls. length (fst (own_parts x)) = length (snd (own_parts x))"
    by (simp add: layers dict_mem_def startswith_def)
  moreover have "''Rapid Commit'' \<in> set (fst (own_parts [(''dhcpv6.msgtype'', JStr ''1''), (''Rapid Commit'', JStr ''1'')]))"
    by (simp add: startswith_def)
  ultimately have "dict_mem ''Rapid Commit'' ?opts" using r by blast
  then show ?thesis using r ts len by blast
qed

section \<open>Option 125\<close>

text \<open>The bytes of the option, two hexadecimal digits each.\<close>

definition option_bytes :: "string \<Rightarrow> string list" where
  "option_bytes value =
     [''00'', ''00'', ''0D'', ''E9'', hex2 (18 + length value), ''01'', ''06'', ''44'', ''38'', ''42'', ''36'', ''42'', ''37'',
      ''02'', hex2 (length value)] @ map (\<lambda>c. hex2 (of_char c)) value @ [''03'', ''06'', ''42'', ''46'', ''43'', ''4c'', ''41'', ''4e'']"

definition byte_val :: "string \<Rightarrow> nat" where
  "byte_val b = (case map hex_val b of [Some x, Some y] \<Rightarrow> 16 * x + y | _ \<Rightarrow> 0)"

lemma hex_str_small: "n < 256 \<Longrightarrow> zfill2 (hex_str n) = hex2 n"
proof -
  assume n: "n < 256"
  have z: "hex_digit 0 = CHR ''0''" by code_simp
  show ?thesis
  proof (cases "n < 16")
    case True
    then show ?thesis using z by (subst hex_str.simps) (simp add: zfill2_def hex2_def)
  next
    case False
    have "n div 16 < 16" using n by simp
    then have "hex_str (n div 16) = [hex_digit (n div 16)]" by (subst hex_str.simps) simp
    then show ?thesis using False by (subst hex_str.simps) (simp add: zfill2_def hex2_def)
  qed
qed

lemma hex_val_digit: "n < 16 \<Longrightarrow> hex_val (hex_digit n) = Some n"
  by (simp add: hex_val_def hex_digit_def of_char_of Let_def)

lemma byte_val_hex2: "n < 256 \<Longrightarrow> byte_val (hex2 n) = n"
  by (simp add: byte_val_def hex2_def hex_val_digit)

lemma hex2_shape: "n < 256 \<Longrightarrow> length (hex2 n) = 2 \<and> CHR '':'' \<notin> set (hex2 n)"
proof -
  have "hex_val (CHR '':'') = None" by code_simp
  then have "hex_digit m \<noteq> CHR '':''" if "m < 16" for m using hex_val_digit [OF that] by auto
  then show "n < 256 \<Longrightarrow> length (hex2 n) = 2 \<and> CHR '':'' \<notin> set (hex2 n)" by (auto simp: hex2_def dest: sym)
qed

lemma split_join: "ws \<noteq> [] \<Longrightarrow> \<forall>w\<in>set ws. c \<notin> set w \<Longrightarrow> split_on c (join [c] ws) = ws"
proof (induction "[c]" ws rule: join.induct)
  case (3 w v ws)
  then show ?case using split_on_append [of c w "join [c] (v # ws)"] by simp
qed (simp_all add: split_on_single)

lemma join_append: "xs \<noteq> [] \<Longrightarrow> ys \<noteq> [] \<Longrightarrow> join sep (xs @ ys) = join sep xs @ sep @ join sep ys"
proof (induction xs)
  case (Cons x xs)
  then show ?case by (cases xs) (simp_all add: join_Cons)
qed simp

lemma option_125_bytes:
  assumes "value \<noteq> []" and "length value < 238"
  shows "split_on (CHR '':'') (option_125 value) = option_bytes value"
proof -
  have "\<forall>w\<in>set (option_bytes value). CHR '':'' \<notin> set w"
    using assms(2) hex2_shape by (auto simp: option_bytes_def)
  then have "split_on (CHR '':'') (join '':'' (option_bytes value)) = option_bytes value"
    by (intro split_join) (simp add: option_bytes_def)
  moreover have "join '':'' (option_bytes value) = option_125 value"
    using assms by (simp add: option_bytes_def option_125_def join_Cons join_append hex_str_small)
  ultimately show ?thesis by simp
qed

text \<open>The option 125 written to a client's configuration is well formed for every value that fits. The text is a
  list of two-digit bytes, the length byte of the option counts exactly the bytes after it, and the
  length byte of suboption 2 delimits bytes that spell the value.\<close>

theorem option_125_wellformed:
  assumes "value \<noteq> []" and "length value \<le> 237"
  shows "let bs = split_on (CHR '':'') (option_125 value)
    in (\<forall>b\<in>set bs. length b = 2) \<and> byte_val (bs ! 4) = length bs - 5 \<and> bs ! 13 = ''02'' \<and>
       map (\<lambda>b. char_of (byte_val b)) (take (byte_val (bs ! 14)) (drop 15 bs)) = value"
proof -
  have small: "length value < 238" "18 + length value < 256" using assms(2) by simp_all
  have "(\<forall>b\<in>set (option_bytes value). length b = 2)" using hex2_shape small by (auto simp: option_bytes_def)
  moreover have "map (\<lambda>b. char_of (byte_val b)) (map (\<lambda>c. hex2 (of_char c)) value) = value"
    by (simp add: comp_def byte_val_hex2)
  ultimately show ?thesis
    unfolding option_125_bytes [OF assms(1) small(1)] Let_def
    using small by (simp add: option_bytes_def byte_val_hex2)
qed

theorem option_125_wellformed_witness:
  "split_on (CHR '':'') (option_125 (vendor_value ''aa:bb:cc:dd:ee:ff'')) ! 4 = ''1e'' \<and>
   (let bs = split_on (CHR '':'') (option_125 (vendor_value ''aa:bb:cc:dd:ee:ff''))
    in map (\<lambda>b. char_of (byte_val b)) (take (byte_val (bs ! 14)) (drop 15 bs)) = ''VAAUAABBCCDD'')"
proof -
  have v: "vendor_value ''aa:bb:cc:dd:ee:ff'' = ''VAAUAABBCCDD''" by code_simp
  have "split_on (CHR '':'') (option_125 ''VAAUAABBCCDD'') ! 4 = ''1e''" by code_simp
  then show ?thesis using option_125_wellformed [of "''VAAUAABBCCDD''"] by (simp add: v Let_def)
qed

end
