(* ===== verification/Py_Regex.thy ===== *)
theory Py_Regex
  imports Py_Values
begin

text \<open>
  The regular expressions of Python's \<^verbatim>\<open>re\<close> module, as far as the program uses them. A position in a text
  is what precedes it, reversed, and what follows; matching an expression at a position gives all
  outcomes in the order in which backtracking tries them, so the first is the match. A repetition stops
  after an iteration that consumes nothing, which bounds its unrolling by the length of the text.
\<close>

section \<open>Expressions\<close>

datatype rx =
  Eps
| Cls "char \<Rightarrow> bool"
| Cat rx rx
| Alt rx rx
| Rep rx nat "nat option" bool
| Grp nat rx
| Bol
| Eol
| WordB
| Look rx
| NotLook rx
| Behind string

record rpos =
  rp_before :: string
  rp_after :: string
  rp_groups :: "(nat, string) dict"

definition at_word :: "string \<Rightarrow> bool" where
  "at_word s = (case s of [] \<Rightarrow> False | c # t \<Rightarrow> is_word_char c)"

text \<open>Between \<open>lo\<close> and \<open>hi\<close> iterations of one step; \<open>fuel\<close> bounds them all.\<close>

fun repeat :: "(rpos \<Rightarrow> rpos list) \<Rightarrow> bool \<Rightarrow> nat \<Rightarrow> nat \<Rightarrow> nat option \<Rightarrow> rpos \<Rightarrow> rpos list" where
  "repeat step greedy 0 lo hi p = (if lo = 0 then [p] else [])"
| "repeat step greedy (Suc fuel) lo hi p =
     (let more =
        (if hi = Some 0 then []
         else concat (map (repeat step greedy fuel (lo - 1) (map_option (\<lambda>n. n - 1) hi))
                (filter (\<lambda>q. 0 < lo \<or> length (rp_after q) < length (rp_after p)) (step p))));
        stop = (if lo = 0 then [p] else [])
      in if greedy then more @ stop else stop @ more)"

primrec rmatch :: "rx \<Rightarrow> rpos \<Rightarrow> rpos list" where
  "rmatch Eps p = [p]"
| "rmatch (Cls P) p =
     (case rp_after p of
        [] \<Rightarrow> []
      | c # s \<Rightarrow> if P c then [p\<lparr>rp_before := c # rp_before p, rp_after := s\<rparr>] else [])"
| "rmatch (Cat r q) p = concat (map (rmatch q) (rmatch r p))"
| "rmatch (Alt r q) p = rmatch r p @ rmatch q p"
| "rmatch (Rep r lo hi greedy) p = repeat (rmatch r) greedy (lo + length (rp_after p)) lo hi p"
| "rmatch (Grp n r) p =
     map (\<lambda>q. q\<lparr>rp_groups := dict_set n (take (length (rp_after p) - length (rp_after q)) (rp_after p)) (rp_groups q)\<rparr>)
       (rmatch r p)"
| "rmatch Bol p = (if rp_before p = [] then [p] else [])"
| "rmatch Eol p = (if rp_after p = [] \<or> rp_after p = [CHR 0x0A] then [p] else [])"
| "rmatch WordB p = (if at_word (rp_before p) \<noteq> at_word (rp_after p) then [p] else [])"
| "rmatch (Look r) p = (case rmatch r p of [] \<Rightarrow> [] | q # qs \<Rightarrow> [p\<lparr>rp_groups := rp_groups q\<rparr>])"
| "rmatch (NotLook r) p = (if rmatch r p = [] then [p] else [])"
| "rmatch (Behind w) p = (if startswith (rp_before p) (rev w) then [p] else [])"

section \<open>Searching\<close>

text \<open>A match: the text before it, reversed, its text, its groups, and the text after it.\<close>

record match =
  ma_before :: string
  ma_text :: string
  ma_groups :: "(nat, string) dict"
  ma_after :: string

definition as_match :: "rpos \<Rightarrow> rpos \<Rightarrow> match" where
  "as_match p q =
     \<lparr>ma_before = rp_before p, ma_text = take (length (rp_after p) - length (rp_after q)) (rp_after p),
      ma_groups = rp_groups q, ma_after = rp_after q\<rparr>"

definition match_at :: "rx \<Rightarrow> bool \<Rightarrow> string \<Rightarrow> string \<Rightarrow> match option" where
  "match_at r must_advance before s =
     (let p = \<lparr>rp_before = before, rp_after = s, rp_groups = []\<rparr>
      in case filter (\<lambda>q. must_advance \<longrightarrow> length (rp_after q) < length s) (rmatch r p) of
           [] \<Rightarrow> None
         | q # qs \<Rightarrow> Some (as_match p q))"

fun search_from :: "rx \<Rightarrow> bool \<Rightarrow> string \<Rightarrow> string \<Rightarrow> match option" where
  "search_from r must_advance before [] = match_at r must_advance before []"
| "search_from r must_advance before (c # s) =
     (case match_at r must_advance before (c # s) of
        Some m \<Rightarrow> Some m
      | None \<Rightarrow> search_from r False (c # before) s)"

text \<open>\<^verbatim>\<open>re.search\<close>, \<^verbatim>\<open>re.match\<close>, and group \<open>n\<close> of a match, the empty text when it took no part.\<close>

definition re_search :: "rx \<Rightarrow> string \<Rightarrow> match option" where
  "re_search r s = search_from r False [] s"

definition re_match :: "rx \<Rightarrow> string \<Rightarrow> match option" where
  "re_match r s = match_at r False [] s"

definition re_found :: "rx \<Rightarrow> string \<Rightarrow> bool" where
  "re_found r s \<longleftrightarrow> re_search r s \<noteq> None"

definition group :: "nat \<Rightarrow> match \<Rightarrow> string" where
  "group n m = (case dict_get (ma_groups m) n of None \<Rightarrow> [] | Some t \<Rightarrow> t)"

text \<open>\<^verbatim>\<open>re.finditer\<close>: after an empty match the next one has to advance. Each step consumes the text or the flag.\<close>

fun find_iter :: "rx \<Rightarrow> nat \<Rightarrow> bool \<Rightarrow> string \<Rightarrow> string \<Rightarrow> match list" where
  "find_iter r 0 must_advance before s = []"
| "find_iter r (Suc fuel) must_advance before s =
     (case search_from r must_advance before s of
        None \<Rightarrow> []
      | Some m \<Rightarrow> m # find_iter r fuel (ma_text m = []) (rev (ma_text m) @ ma_before m) (ma_after m))"

definition re_finditer :: "rx \<Rightarrow> string \<Rightarrow> match list" where
  "re_finditer r s = find_iter r (2 * length s + 2) False [] s"

definition re_findall :: "rx \<Rightarrow> string \<Rightarrow> string list" where
  "re_findall r s = map ma_text (re_finditer r s)"

definition re_findall1 :: "rx \<Rightarrow> string \<Rightarrow> string list" where
  "re_findall1 r s = map (group 1) (re_finditer r s)"

text \<open>\<^verbatim>\<open>re.sub\<close> with a replacement that names no group, and \<^verbatim>\<open>re.split\<close> without groups.\<close>

fun pieces :: "match list \<Rightarrow> nat \<Rightarrow> string \<Rightarrow> string list" where
  "pieces [] start s = [drop start s]"
| "pieces (m # ms) start s =
     take (length (ma_before m) - start) (drop start s) # pieces ms (length (ma_before m) + length (ma_text m)) s"

definition re_split :: "rx \<Rightarrow> string \<Rightarrow> string list" where
  "re_split r s = pieces (re_finditer r s) 0 s"

definition re_sub :: "rx \<Rightarrow> string \<Rightarrow> string \<Rightarrow> string" where
  "re_sub r new s = join new (re_split r s)"

section \<open>Writing expressions\<close>

definition chr :: "char \<Rightarrow> rx" where "chr c = Cls (\<lambda>x. x = c)"

fun lit :: "string \<Rightarrow> rx" where
  "lit [] = Eps"
| "lit [c] = chr c"
| "lit (c # d # s) = Cat (chr c) (lit (d # s))"

fun cats :: "rx list \<Rightarrow> rx" where
  "cats [] = Eps"
| "cats [r] = r"
| "cats (r # q # rs) = Cat r (cats (q # rs))"

fun alts :: "rx list \<Rightarrow> rx" where
  "alts [] = Cls (\<lambda>_. False)"
| "alts [r] = r"
| "alts (r # q # rs) = Alt r (alts (q # rs))"

definition one_of :: "string \<Rightarrow> rx" where "one_of cs = Cls (\<lambda>c. c \<in> set cs)"
definition none_of :: "string \<Rightarrow> rx" where "none_of cs = Cls (\<lambda>c. c \<notin> set cs)"
definition between :: "char \<Rightarrow> char \<Rightarrow> rx" where
  "between a b = Cls (\<lambda>c. (of_char a :: nat) \<le> of_char c \<and> (of_char c :: nat) \<le> of_char b)"
definition dot :: rx where "dot = Cls (\<lambda>c. c \<noteq> CHR 0x0A)"
definition any_char :: rx where "any_char = Cls (\<lambda>_. True)"
definition blank :: rx where "blank = Cls (\<lambda>c. c \<in> set whitespace)"
definition non_blank :: rx where "non_blank = Cls (\<lambda>c. c \<notin> set whitespace)"
definition dgt :: rx where "dgt = Cls is_digit"
definition wordc :: rx where "wordc = Cls is_word_char"
definition star :: "rx \<Rightarrow> rx" where "star r = Rep r 0 None True"
definition plus :: "rx \<Rightarrow> rx" where "plus r = Rep r 1 None True"
definition opt :: "rx \<Rightarrow> rx" where "opt r = Rep r 0 (Some 1) True"
definition lazy_star :: "rx \<Rightarrow> rx" where "lazy_star r = Rep r 0 None False"
definition lazy_plus :: "rx \<Rightarrow> rx" where "lazy_plus r = Rep r 1 None False"
definition times :: "rx \<Rightarrow> nat \<Rightarrow> rx" where "times r n = Rep r n (Some n) True"

section \<open>Facts\<close>

text \<open>The whole text, and that an outcome is later in it.\<close>

definition whole :: "rpos \<Rightarrow> string" where
  "whole p = rev (rp_before p) @ rp_after p"

lemma repeat_keeps:
  assumes "\<And>p q. q \<in> set (step p) \<Longrightarrow> whole q = whole p \<and> length (rp_after q) \<le> length (rp_after p)"
  shows "q \<in> set (repeat step greedy fuel lo hi p) \<Longrightarrow> whole q = whole p \<and> length (rp_after q) \<le> length (rp_after p)"
proof (induction fuel arbitrary: lo hi p)
  case 0
  then show ?case by (simp split: if_splits)
next
  case (Suc fuel)
  have more: "whole q = whole p \<and> length (rp_after q) \<le> length (rp_after p)"
    if "x \<in> set (step p)" "q \<in> set (repeat step greedy fuel (lo - 1) h x)" for x h
    using Suc.IH [OF that(2)] assms [OF that(1)] by simp
  show ?case using Suc.prems more by (auto simp: Let_def split: if_splits)
qed

lemma rmatch_keeps:
  "q \<in> set (rmatch r p) \<Longrightarrow> whole q = whole p \<and> length (rp_after q) \<le> length (rp_after p)"
proof (induction r arbitrary: p q)
  case (Cls P)
  then show ?case by (cases "rp_after p") (auto simp: whole_def split: if_splits)
next
  case (Cat r1 r2)
  then obtain x where "x \<in> set (rmatch r1 p)" "q \<in> set (rmatch r2 x)" by auto
  then show ?case using Cat.IH(1) [of x p] Cat.IH(2) [of q x] by simp
next
  case (Rep r lo hi g)
  from Rep.prems have "q \<in> set (repeat (rmatch r) g (lo + length (rp_after p)) lo hi p)" by simp
  then show ?case using repeat_keeps [of "rmatch r", OF Rep.IH] by blast
next
  case (Grp n r)
  then obtain x where x: "x \<in> set (rmatch r p)" "whole q = whole x" "rp_after q = rp_after x"
    by (auto simp: whole_def)
  then show ?case using Grp.IH [of x p] by simp
next
  case (Look r)
  then show ?case by (auto simp: whole_def split: list.splits)
qed (auto split: if_splits)

lemma as_match_parts:
  assumes "q \<in> set (rmatch r p)"
  shows "rp_after p = ma_text (as_match p q) @ ma_after (as_match p q)"
proof -
  note k = rmatch_keeps [OF assms]
  define n where "n = length (rp_after p) - length (rp_after q)"
  have "whole p = rev (rp_before q) @ rp_after q" using k by (simp add: whole_def)
  then have "rp_after q = drop (length (whole p) - length (rp_after q)) (whole p)" by simp
  also have "length (whole p) - length (rp_after q) = length (rp_before p) + n"
    using k by (simp add: whole_def n_def)
  also have "drop (length (rp_before p) + n) (whole p) = drop n (rp_after p)" by (simp add: whole_def)
  finally have "rp_after q = drop n (rp_after p)" .
  moreover have "ma_text (as_match p q) = take n (rp_after p)" "ma_after (as_match p q) = rp_after q"
    by (simp_all add: as_match_def n_def)
  ultimately show ?thesis by (metis append_take_drop_id)
qed

text \<open>A match found in a text is a part of it.\<close>

lemma match_at_parts:
  assumes "match_at r a before s = Some m"
  shows "s = ma_text m @ ma_after m" and "ma_before m = before"
proof -
  let ?p = "\<lparr>rp_before = before, rp_after = s, rp_groups = []\<rparr>"
  obtain q qs where q: "filter (\<lambda>q. a \<longrightarrow> length (rp_after q) < length s) (rmatch r ?p) = q # qs" "m = as_match ?p q"
    using assms by (auto simp: match_at_def Let_def split: list.splits)
  then have "q \<in> set (rmatch r ?p)" by (metis filter_is_subset list.set_intros(1) subsetD)
  from as_match_parts [OF this] show "s = ma_text m @ ma_after m" by (simp add: q(2))
  show "ma_before m = before" by (simp add: q(2) as_match_def)
qed

lemma search_from_parts:
  "search_from r a before s = Some m \<Longrightarrow> rev before @ s = rev (ma_before m) @ ma_text m @ ma_after m"
proof (induction r a before s rule: search_from.induct)
  case (1 r a before)
  then show ?case using match_at_parts [of r a before "[]" m] by auto
next
  case (2 r a before c s)
  show ?case
  proof (cases "match_at r a before (c # s)")
    case None
    then show ?thesis using 2 by simp
  next
    case (Some m')
    then have m: "m' = m" using 2(2) by simp
    show ?thesis using match_at_parts [OF Some] by (simp add: m)
  qed
qed

lemma re_search_parts: "re_search r s = Some m \<Longrightarrow> s = rev (ma_before m) @ ma_text m @ ma_after m"
  using search_from_parts [of r False "[]" s m] by (simp add: re_search_def)

section \<open>First outcomes\<close>

text \<open>The outcome backtracking tries first; where each part of a sequence has one, no backtracking is needed.\<close>

definition first :: "rx \<Rightarrow> rpos \<Rightarrow> rpos \<Rightarrow> bool" where
  "first r p q \<longleftrightarrow> (\<exists>qs. rmatch r p = q # qs)"

lemma first_Eps [intro]: "first Eps p p"
  by (simp add: first_def)

lemma first_Cls:
  "P c \<Longrightarrow> first (Cls P) \<lparr>rp_before = b, rp_after = c # s, rp_groups = g\<rparr> \<lparr>rp_before = c # b, rp_after = s, rp_groups = g\<rparr>"
  by (simp add: first_def)

lemma first_Cat: "first r p q \<Longrightarrow> first s q x \<Longrightarrow> first (Cat r s) p x"
  by (auto simp: first_def)

lemma first_Grp:
  "first r p q \<Longrightarrow> first (Grp n r) p
     (q\<lparr>rp_groups := dict_set n (take (length (rp_after p) - length (rp_after q)) (rp_after p)) (rp_groups q)\<rparr>)"
  by (auto simp: first_def)

lemma repeat_step:
  assumes "\<And>c s b. P c \<Longrightarrow> step \<lparr>rp_before = b, rp_after = c # s, rp_groups = g\<rparr> = [\<lparr>rp_before = c # b, rp_after = s, rp_groups = g\<rparr>]"
    and "\<And>b. step \<lparr>rp_before = b, rp_after = rest, rp_groups = g\<rparr> = []"
  shows "list_all P ds \<Longrightarrow> length ds \<le> fuel \<Longrightarrow> lo \<le> length ds \<Longrightarrow>
    \<exists>qs. repeat step True fuel lo None \<lparr>rp_before = b, rp_after = ds @ rest, rp_groups = g\<rparr> =
         \<lparr>rp_before = rev ds @ b, rp_after = rest, rp_groups = g\<rparr> # qs"
proof (induction ds arbitrary: fuel lo b)
  case Nil
  then show ?case using assms(2) by (cases fuel) auto
next
  case (Cons d ds)
  then obtain f where f: "fuel = Suc f" "length ds \<le> f" by (cases fuel) auto
  have le: "lo - 1 \<le> length ds" using Cons.prems(3) by simp
  obtain qs where "repeat step True f (lo - 1) None \<lparr>rp_before = d # b, rp_after = ds @ rest, rp_groups = g\<rparr> =
      \<lparr>rp_before = rev ds @ d # b, rp_after = rest, rp_groups = g\<rparr> # qs"
    using Cons.IH [OF _ f(2) le, of "d # b"] Cons.prems by auto
  then show ?case using Cons.prems(1) f assms(1) by auto
qed

lemma repeat_Cls:
  assumes "list_all P ds" and "rest = [] \<or> \<not> P (hd rest)" and "length ds \<le> fuel" and "lo \<le> length ds"
  shows "\<exists>qs. repeat (rmatch (Cls P)) True fuel lo None \<lparr>rp_before = b, rp_after = ds @ rest, rp_groups = g\<rparr> =
         \<lparr>rp_before = rev ds @ b, rp_after = rest, rp_groups = g\<rparr> # qs"
  using assms by (intro repeat_step [of P]) (cases rest; auto)+

lemma first_plus_Cls:
  assumes "list_all P ds" and "ds \<noteq> []" and "rest = [] \<or> \<not> P (hd rest)"
  shows "first (plus (Cls P)) \<lparr>rp_before = b, rp_after = ds @ rest, rp_groups = g\<rparr>
    \<lparr>rp_before = rev ds @ b, rp_after = rest, rp_groups = g\<rparr>"
proof -
  have "1 \<le> length ds" using assms(2) by (cases ds) auto
  then have "\<exists>qs. repeat (rmatch (Cls P)) True (1 + length (ds @ rest)) 1 None \<lparr>rp_before = b, rp_after = ds @ rest, rp_groups = g\<rparr> =
      \<lparr>rp_before = rev ds @ b, rp_after = rest, rp_groups = g\<rparr> # qs"
    by (intro repeat_Cls [OF assms(1,3)]) simp_all
  then show ?thesis unfolding first_def plus_def rmatch.simps by simp
qed

lemma first_star_Cls:
  assumes "list_all P ds" and "rest = [] \<or> \<not> P (hd rest)"
  shows "first (star (Cls P)) \<lparr>rp_before = b, rp_after = ds @ rest, rp_groups = g\<rparr>
    \<lparr>rp_before = rev ds @ b, rp_after = rest, rp_groups = g\<rparr>"
proof -
  have "\<exists>qs. repeat (rmatch (Cls P)) True (0 + length (ds @ rest)) 0 None \<lparr>rp_before = b, rp_after = ds @ rest, rp_groups = g\<rparr> =
      \<lparr>rp_before = rev ds @ b, rp_after = rest, rp_groups = g\<rparr> # qs"
    by (intro repeat_Cls [OF assms]) simp_all
  then show ?thesis unfolding first_def star_def rmatch.simps by simp
qed

text \<open>A search over text at none of whose positions the expression matches.\<close>

lemma search_from_skip:
  assumes "\<And>b c s. c \<in> set pre \<Longrightarrow> match_at r False b (c # s) = None"
  shows "search_from r False b (pre @ s) = search_from r False (rev pre @ b) s"
  using assms by (induction pre arbitrary: b) auto

lemma match_at_first:
  assumes "first r \<lparr>rp_before = b, rp_after = s, rp_groups = []\<rparr> q"
  shows "match_at r False b s = Some (as_match \<lparr>rp_before = b, rp_after = s, rp_groups = []\<rparr> q)"
  using assms by (auto simp: first_def match_at_def Let_def)

lemma search_first:
  assumes "first r \<lparr>rp_before = b, rp_after = s, rp_groups = []\<rparr> q"
  shows "search_from r False b s = Some (as_match \<lparr>rp_before = b, rp_after = s, rp_groups = []\<rparr> q)"
  using match_at_first [OF assms] by (cases s) auto

end
