(* ===== verification/Device_IO.thy ===== *)
theory Device_IO
  imports Py_Regex
begin

text \<open>
  Code that talks to a device: a computation takes the state of the world outside, of any type, and
  gives an exception or a value with the new state. A pexpect session (\<^verbatim>\<open>pexpect.spawn\<close>, a third-party
  package) is a record of such computations, and the console the libraries work on adds the methods of
  \<^verbatim>\<open>BoardfarmPexpect\<close> to it.
\<close>

section \<open>Computations\<close>

type_synonym ('w, 'a) io = "'w \<Rightarrow> (raised + 'a) \<times> 'w"

definition ret :: "'a \<Rightarrow> ('w, 'a) io" where
  "ret x w = (Inr x, w)"

definition throw :: "raised \<Rightarrow> ('w, 'a) io" where
  "throw e w = (Inl e, w)"

definition seq :: "('w, 'a) io \<Rightarrow> ('a \<Rightarrow> ('w, 'b) io) \<Rightarrow> ('w, 'b) io" where
  "seq m f w = (case m w of (Inl e, w') \<Rightarrow> (Inl e, w') | (Inr x, w') \<Rightarrow> f x w')"

definition andthen :: "('w, 'a) io \<Rightarrow> ('w, 'b) io \<Rightarrow> ('w, 'b) io" where
  "andthen m k = seq m (\<lambda>_. k)"

text \<open>\<^verbatim>\<open>try: m except e: handler(e)\<close> for the exceptions \<open>caught\<close> holds of, and \<^verbatim>\<open>finally\<close>.\<close>

definition catch :: "('w, 'a) io \<Rightarrow> (raised \<Rightarrow> bool) \<Rightarrow> (raised \<Rightarrow> ('w, 'a) io) \<Rightarrow> ('w, 'a) io" where
  "catch m caught handler w =
     (case m w of (Inl e, w') \<Rightarrow> if caught e then handler e w' else (Inl e, w') | (Inr x, w') \<Rightarrow> (Inr x, w'))"

definition lastly :: "('w, 'a) io \<Rightarrow> ('w, unit) io \<Rightarrow> ('w, 'a) io" where
  "lastly m k w =
     (let (r, w1) = m w; (s, w2) = k w1 in case s of Inl e \<Rightarrow> (Inl e, w2) | Inr _ \<Rightarrow> (r, w2))"

definition lift_sum :: "raised + 'a \<Rightarrow> ('w, 'a) io" where
  "lift_sum r w = (r, w)"

definition when_io :: "bool \<Rightarrow> ('w, unit) io \<Rightarrow> ('w, unit) io" where
  "when_io b m = (if b then m else ret ())"

text \<open>A loop over a list, collecting the results, and one that only acts.\<close>

fun io_traverse :: "('a \<Rightarrow> ('w, 'b) io) \<Rightarrow> 'a list \<Rightarrow> ('w, 'b list) io" where
  "io_traverse f [] = ret []"
| "io_traverse f (x # xs) = seq (f x) (\<lambda>y. seq (io_traverse f xs) (\<lambda>ys. ret (y # ys)))"

fun for_each :: "('a \<Rightarrow> ('w, unit) io) \<Rightarrow> 'a list \<Rightarrow> ('w, unit) io" where
  "for_each f [] = ret ()"
| "for_each f (x # xs) = andthen (f x) (for_each f xs)"

text \<open>The value a computation succeeds with.\<close>

lemma ret_ok [simp]: "ret x w = (Inr y, w') \<longleftrightarrow> x = y \<and> w = w'"
  by (simp add: ret_def)

lemma throw_ok [simp]: "throw e w = (Inr y, w') \<longleftrightarrow> False"
  by (simp add: throw_def)

lemma ret_err [simp]: "ret x w = (Inl e, w') \<longleftrightarrow> False"
  by (simp add: ret_def)

lemma throw_err [simp]: "throw e w = (Inl e', w') \<longleftrightarrow> e = e' \<and> w = w'"
  by (simp add: throw_def)

lemma seq_ok: "seq m f w = (Inr y, w') \<longleftrightarrow> (\<exists>x w1. m w = (Inr x, w1) \<and> f x w1 = (Inr y, w'))"
  by (auto simp: seq_def split: prod.splits sum.splits)

lemma seq_err:
  "seq m f w = (Inl e, w') \<longleftrightarrow> m w = (Inl e, w') \<or> (\<exists>x w1. m w = (Inr x, w1) \<and> f x w1 = (Inl e, w'))"
  by (auto simp: seq_def split: prod.splits sum.splits)

lemma andthen_ok: "andthen m k w = (Inr y, w') \<longleftrightarrow> (\<exists>x w1. m w = (Inr x, w1) \<and> k w1 = (Inr y, w'))"
  by (simp add: andthen_def seq_ok)

lemma andthen_err:
  "andthen m k w = (Inl e, w') \<longleftrightarrow> m w = (Inl e, w') \<or> (\<exists>x w1. m w = (Inr x, w1) \<and> k w1 = (Inl e, w'))"
  by (simp add: andthen_def seq_err)

lemma lift_sum_ok [simp]: "lift_sum r w = (Inr y, w') \<longleftrightarrow> r = Inr y \<and> w = w'"
  by (auto simp: lift_sum_def)

lemma catch_ok:
  "catch m caught h w = (Inr y, w') \<longleftrightarrow>
     m w = (Inr y, w') \<or> (\<exists>e w1. m w = (Inl e, w1) \<and> caught e \<and> h e w1 = (Inr y, w'))"
  by (auto simp: catch_def split: prod.splits sum.splits)

lemma lastly_ok: "lastly m k w = (Inr y, w') \<longleftrightarrow> (\<exists>w1 u. m w = (Inr y, w1) \<and> k w1 = (Inr u, w'))"
  by (auto simp: lastly_def Let_def split: prod.splits sum.splits)

text \<open>The monad laws: how a program is bracketed does not matter.\<close>

lemma seq_ret [simp]: "seq (ret x) f = f x"
  by (simp add: seq_def ret_def fun_eq_iff)

lemma seq_right_ret [simp]: "seq m ret = m"
  by (auto simp: seq_def ret_def fun_eq_iff split: prod.splits sum.splits)

lemma seq_assoc: "seq (seq m f) g = seq m (\<lambda>x. seq (f x) g)"
  by (auto simp: seq_def fun_eq_iff split: prod.splits sum.splits)

lemma seq_throw [simp]: "seq (throw e) f = throw e"
  by (simp add: seq_def throw_def fun_eq_iff)

lemma traverse_ok_Cons:
  "io_traverse f (x # xs) w = (Inr zs, w') \<longleftrightarrow>
     (\<exists>y ys w1. zs = y # ys \<and> f x w = (Inr y, w1) \<and> io_traverse f xs w1 = (Inr ys, w'))"
  by (auto simp: seq_ok)

lemma for_each_append: "for_each f (xs @ ys) = andthen (for_each f xs) (for_each f ys)"
  by (induction xs) (simp_all add: andthen_def seq_assoc)

definition or_else :: "'a option \<Rightarrow> 'a option \<Rightarrow> 'a option" where
  "or_else x y = (case x of None \<Rightarrow> y | Some v \<Rightarrow> Some v)"

section \<open>Sessions and consoles\<close>

datatype pattern = Text string | Timeout | Eof

text \<open>
  What the code uses of a pexpect session; a negative timeout is the default one. \<open>sp_before\<close>,
  \<open>sp_after\<close> and \<open>sp_group\<close> read the last match; \<open>sp_sleep\<close> lets time pass.
\<close>

record 'w spawn =
  sp_sendline :: "string \<Rightarrow> ('w, unit) io"
  sp_send :: "string \<Rightarrow> ('w, unit) io"
  sp_sendcontrol :: "string \<Rightarrow> ('w, unit) io"
  sp_expect :: "pattern list \<Rightarrow> int \<Rightarrow> ('w, nat) io"
  sp_expect_exact :: "pattern list \<Rightarrow> int \<Rightarrow> ('w, nat) io"
  sp_before :: "'w \<Rightarrow> string"
  sp_after :: "'w \<Rightarrow> string"
  sp_group :: "nat \<Rightarrow> 'w \<Rightarrow> string"
  sp_close :: "bool \<Rightarrow> ('w, unit) io"
  sp_wait :: "('w, int) io"
  sp_sleep :: "int \<Rightarrow> ('w, unit) io"

record 'w console = "'w spawn" +
  c_execute :: "string \<Rightarrow> int \<Rightarrow> ('w, string) io"
  c_sudo_sendline :: "string \<Rightarrow> ('w, unit) io"
  c_login :: "string option \<Rightarrow> ('w, unit) io"

text \<open>A command with the default timeout; one whose output nobody reads; waiting for the prompt.\<close>

definition run_cmd :: "('w, 'x) console_scheme \<Rightarrow> string \<Rightarrow> ('w, string) io" where
  "run_cmd c cmd = c_execute c cmd (-1)"

definition do_cmd :: "('w, 'x) console_scheme \<Rightarrow> string \<Rightarrow> ('w, unit) io" where
  "do_cmd c cmd = seq (run_cmd c cmd) (\<lambda>_. ret ())"

definition prompts :: "string list \<Rightarrow> pattern list" where
  "prompts ps = map Text ps"

definition at_prompt :: "('w, 'x) spawn_scheme \<Rightarrow> string list \<Rightarrow> int \<Rightarrow> ('w, unit) io" where
  "at_prompt c ps t = seq (sp_expect c (prompts ps) t) (\<lambda>_. ret ())"

definition reading :: "('w \<Rightarrow> 'a) \<Rightarrow> ('w, 'a) io" where
  "reading f w = (Inr (f w), w)"

lemma reading_ok [simp]: "reading f w = (Inr y, w') \<longleftrightarrow> f w = y \<and> w = w'"
  by (simp add: reading_def)

lemma do_cmd_ok: "do_cmd c cmd w = (Inr u, w') \<longleftrightarrow> (\<exists>out. c_execute c cmd (-1) w = (Inr out, w'))"
  by (simp add: do_cmd_def run_cmd_def seq_ok)

definition is_timeout :: "raised \<Rightarrow> bool" where
  "is_timeout e \<longleftrightarrow> rx_class e = PexpectTimeout"

definition is_eof :: "raised \<Rightarrow> bool" where
  "is_eof e \<longleftrightarrow> rx_class e = PexpectEOF"

definition connection_error :: "string \<Rightarrow> raised" where
  "connection_error m = py_error DeviceConnectionError ''DeviceConnectionError'' m"

definition boardfarm_error :: "string \<Rightarrow> raised" where
  "boardfarm_error m = py_error BoardfarmException ''BoardfarmException'' m"

definition code_error :: "string \<Rightarrow> raised" where
  "code_error m = py_error CodeError ''CodeError'' m"

definition scp_error :: "string \<Rightarrow> raised" where
  "scp_error m = py_error SCPConnectionError ''SCPConnectionError'' m"

definition file_not_found :: "string \<Rightarrow> raised" where
  "file_not_found m = py_error PyException ''FileNotFoundError'' m"

section \<open>A recorded device\<close>

text \<open>
  The most general deterministic device: what it answers may depend on everything done to it so far. The
  state is that history, so a statement about the state is one about what the code sends.
\<close>

datatype action =
  Sent string
| Wrote string
| Control string
| Expected "pattern list" int
| ExpectedExact "pattern list" int
| Executed string int
| Sudo string
| Login "string option"
| Closed bool
| Waited
| Slept int

record answers =
  dv_index :: "action list \<Rightarrow> raised + nat"
  dv_output :: "action list \<Rightarrow> raised + string"
  dv_before :: "action list \<Rightarrow> string"
  dv_after :: "action list \<Rightarrow> string"
  dv_group :: "nat \<Rightarrow> action list \<Rightarrow> string"
  dv_exit :: "action list \<Rightarrow> int"

definition record_action :: "action \<Rightarrow> (action list, unit) io" where
  "record_action a tr = (Inr (), tr @ [a])"

definition recorded :: "answers \<Rightarrow> action list console" where
  "recorded d =
     \<lparr>sp_sendline = \<lambda>s. record_action (Sent s), sp_send = \<lambda>s. record_action (Wrote s), sp_sendcontrol = \<lambda>s. record_action (Control s),
      sp_expect = \<lambda>ps t tr. (let tr' = tr @ [Expected ps t] in (dv_index d tr', tr')),
      sp_expect_exact = \<lambda>ps t tr. (let tr' = tr @ [ExpectedExact ps t] in (dv_index d tr', tr')),
      sp_before = dv_before d, sp_after = dv_after d, sp_group = dv_group d,
      sp_close = \<lambda>f. record_action (Closed f),
      sp_wait = \<lambda>tr. (Inr (dv_exit d tr), tr @ [Waited]), sp_sleep = \<lambda>n. record_action (Slept n),
      c_execute = \<lambda>s t tr. (let tr' = tr @ [Executed s t] in (dv_output d tr', tr')),
      c_sudo_sendline = \<lambda>s. record_action (Sudo s), c_login = \<lambda>p. record_action (Login p)\<rparr>"

lemma recorded_simps [simp]:
  "c_execute (recorded d) s t tr = (dv_output d (tr @ [Executed s t]), tr @ [Executed s t])"
  "sp_expect (recorded d) ps t tr = (dv_index d (tr @ [Expected ps t]), tr @ [Expected ps t])"
  "sp_expect_exact (recorded d) ps t tr = (dv_index d (tr @ [ExpectedExact ps t]), tr @ [ExpectedExact ps t])"
  "sp_sendline (recorded d) s tr = (Inr (), tr @ [Sent s])"
  "sp_send (recorded d) s tr = (Inr (), tr @ [Wrote s])"
  "sp_sendcontrol (recorded d) s tr = (Inr (), tr @ [Control s])"
  "c_sudo_sendline (recorded d) s tr = (Inr (), tr @ [Sudo s])"
  "c_login (recorded d) p tr = (Inr (), tr @ [Login p])"
  "sp_close (recorded d) f tr = (Inr (), tr @ [Closed f])"
  "sp_wait (recorded d) tr = (Inr (dv_exit d tr), tr @ [Waited])"
  "sp_sleep (recorded d) n tr = (Inr (), tr @ [Slept n])"
  "sp_before (recorded d) = dv_before d"
  "sp_after (recorded d) = dv_after d"
  "sp_group (recorded d) = dv_group d"
  by (simp_all add: recorded_def record_action_def Let_def)

text \<open>What a computation adds to the history, and that it adds at all.\<close>

definition extends :: "(action list, 'a) io \<Rightarrow> bool" where
  "extends m \<longleftrightarrow> (\<forall>tr. \<exists>more. snd (m tr) = tr @ more)"

lemma extends_ret [intro]: "extends (ret x)"
  by (simp add: extends_def ret_def)

lemma extends_throw [intro]: "extends (throw e)"
  by (simp add: extends_def throw_def)

lemma extends_seq [intro]:
  assumes "extends m" and "\<And>x. extends (f x)"
  shows "extends (seq m f)"
  unfolding extends_def
proof
  fix tr
  obtain a where a: "snd (m tr) = tr @ a" using assms(1) unfolding extends_def by blast
  show "\<exists>more. snd (seq m f tr) = tr @ more"
  proof (cases "m tr")
    case (Pair r tr1)
    then have tr1: "tr1 = tr @ a" using a by simp
    show ?thesis
    proof (cases r)
      case (Inl e)
      then show ?thesis using Pair tr1 by (simp add: seq_def)
    next
      case (Inr x)
      obtain b where "snd (f x tr1) = tr1 @ b" using assms(2) [of x] unfolding extends_def by blast
      then show ?thesis using Pair Inr tr1 by (simp add: seq_def)
    qed
  qed
qed

lemma extends_recorded [intro]:
  "extends (c_execute (recorded d) s t)" "extends (sp_expect (recorded d) ps t)"
  "extends (sp_expect_exact (recorded d) ps t)" "extends (sp_sendline (recorded d) s)"
  "extends (sp_sendcontrol (recorded d) s)" "extends (c_sudo_sendline (recorded d) s)"
  "extends (sp_sleep (recorded d) n)"
  by (simp_all add: extends_def)

section \<open>What a program keeps of its own state\<close>

text \<open>
  Beside the world a device has attributes. Work on the world alone and assignments to the attributes, and a
  relation between the attributes before and after that every path of a program respects.
\<close>

definition on_host :: "('w, 'a) io \<Rightarrow> ('w \<times> 's, 'a) io" where
  "on_host m s = (case m (fst s) of (r, w) \<Rightarrow> (r, (w, snd s)))"

definition assign :: "('s \<Rightarrow> 's) \<Rightarrow> ('w \<times> 's, unit) io" where
  "assign f s = (Inr (), (fst s, f (snd s)))"

definition keeps :: "('s \<Rightarrow> 's \<Rightarrow> bool) \<Rightarrow> ('w \<times> 's, 'a) io \<Rightarrow> bool" where
  "keeps R m \<longleftrightarrow> (\<forall>s. R (snd s) (snd (snd (m s))))"

named_theorems keeping

lemma keepsD: "keeps R m \<Longrightarrow> R (snd s) (snd (snd (m s)))"
  unfolding keeps_def by blast

lemma keeps_ret [keeping]: "reflp R \<Longrightarrow> keeps R (ret x)"
  by (simp add: keeps_def ret_def reflp_def)

lemma keeps_throw [keeping]: "reflp R \<Longrightarrow> keeps R (throw e)"
  by (simp add: keeps_def throw_def reflp_def)

lemma keeps_lift [keeping]: "reflp R \<Longrightarrow> keeps R (lift_sum r)"
  by (simp add: keeps_def lift_sum_def reflp_def)

lemma keeps_seq [keeping]:
  assumes "transp R" and "keeps R m" and "\<And>x. keeps R (f x)"
  shows "keeps R (seq m f)"
  unfolding keeps_def
proof
  fix s
  obtain r s1 where m: "m s = (r, s1)" by (cases "m s")
  have 1: "R (snd s) (snd s1)" using assms(2) m unfolding keeps_def by (metis snd_conv)
  show "R (snd s) (snd (snd (seq m f s)))"
  proof (cases r)
    case (Inr x)
    have "R (snd s1) (snd (snd (f x s1)))" using assms(3) unfolding keeps_def by blast
    then show ?thesis using 1 assms(1) m Inr by (auto simp: seq_def elim: transpE)
  qed (use m 1 in \<open>simp add: seq_def\<close>)
qed

lemma keeps_andthen [keeping]: "transp R \<Longrightarrow> keeps R m \<Longrightarrow> keeps R k \<Longrightarrow> keeps R (andthen m k)"
  unfolding andthen_def by (rule keeps_seq)

lemma keeps_catch [keeping]:
  assumes "transp R" and "keeps R m" and "\<And>e. keeps R (h e)"
  shows "keeps R (catch m c h)"
  unfolding keeps_def
proof
  fix s
  obtain r s1 where m: "m s = (r, s1)" by (cases "m s")
  have 1: "R (snd s) (snd s1)" using assms(2) m unfolding keeps_def by (metis snd_conv)
  show "R (snd s) (snd (snd (catch m c h s)))"
  proof (cases r)
    case (Inl e)
    have "R (snd s1) (snd (snd (h e s1)))" using assms(3) unfolding keeps_def by blast
    then show ?thesis using 1 assms(1) m Inl by (auto simp: catch_def elim: transpE)
  qed (use m 1 in \<open>simp add: catch_def\<close>)
qed

lemma keeps_when [keeping]: "reflp R \<Longrightarrow> keeps R m \<Longrightarrow> keeps R (when_io b m)"
  by (simp add: when_io_def keeps_ret)

lemma keeps_if [keeping]: "keeps R m \<Longrightarrow> keeps R k \<Longrightarrow> keeps R (if b then m else k)"
  by simp

lemma keeps_with_state: "(\<And>st. keeps R (f st)) \<Longrightarrow> keeps R (\<lambda>s. f (snd s) s)"
  by (simp add: keeps_def)

lemma keeps_for_each [keeping]:
  assumes "reflp R" "transp R" "\<And>x. keeps R (f x)"
  shows "keeps R (for_each f xs)"
  by (induction xs) (simp_all add: keeps_ret keeps_andthen assms)

lemma keeps_on_host [keeping]: "reflp R \<Longrightarrow> keeps R (on_host m)"
  by (simp add: keeps_def on_host_def reflp_def split: prod.splits)

lemma keeps_assign: "(\<And>st. R st (f st)) \<Longrightarrow> keeps R (assign f)"
  by (simp add: keeps_def assign_def)

end
