(* ===== verification/Console_Text.thy ===== *)
theory Console_Text
  imports Py_Regex
begin

text \<open>
  The console log of a session (\<^verbatim>\<open>boardfarm3/lib/boardfarm_pexpect.py\<close>): what a terminal printed is cut
  into lines, erased characters and control sequences are removed, and the lines are logged. Text comes
  in chunks of any size.
\<close>

section \<open>Erased characters\<close>

definition erase_seq :: rx where
  "erase_seq = lit [CHR 0x08, CHR 0x1B, CHR 0x5B, CHR 0x4B]"

definition erase_blank :: rx where
  "erase_blank = lit [CHR 0x08, CHR 0x20, CHR 0x08]"

definition erased_char :: rx where
  "erased_char = Alt (Grp 1 (Cat dot erase_seq)) (Grp 2 (Cat dot erase_blank))"

definition erase_only :: rx where
  "erase_only = Alt (Grp 1 erase_seq) (Grp 2 erase_blank)"

text \<open>\<^verbatim>\<open>re.sub(r, "", s, count=1)\<close>; it shortens the text or leaves it as it is.\<close>

definition re_remove1 :: "rx \<Rightarrow> string \<Rightarrow> string" where
  "re_remove1 r s = (case re_search r s of None \<Rightarrow> s | Some m \<Rightarrow> rev (ma_before m) @ ma_after m)"

lemma re_remove1_length: "length (re_remove1 r s) \<le> length s"
proof (cases "re_search r s")
  case (Some m)
  have "s = rev (ma_before m) @ ma_text m @ ma_after m" using re_search_parts [OF Some] .
  then have "length s = length (ma_before m) + (length (ma_text m) + length (ma_after m))"
    by (metis length_append length_rev)
  then show ?thesis using Some by (simp add: re_remove1_def)
qed (simp add: re_remove1_def)

function apply_backspace :: "string \<Rightarrow> string" where
  "apply_backspace s =
     (let t = re_remove1 erased_char s
      in if length s = length t then re_sub erase_only [] t else apply_backspace t)"
  by pat_completeness auto

termination
  by (relation "measure length") (use re_remove1_length [of erased_char] in \<open>auto simp: le_neq_implies_less\<close>)

declare apply_backspace.simps [simp del]

section \<open>The log\<close>

text \<open>\<^verbatim>\<open>str.splitlines(True)\<close>: the lines with their ends.\<close>

function keep_from :: "string \<Rightarrow> string \<Rightarrow> string list" where
  "keep_from cur [] = (if cur = [] then [] else [rev cur])"
| "keep_from cur (c # s) =
     (if c = CHR 0x0D \<and> startswith s [CHR 0x0A] then rev (CHR 0x0A # c # cur) # keep_from [] (tl s)
      else if is_break c then rev (c # cur) # keep_from [] s
      else keep_from (c # cur) s)"
  by pat_completeness auto

termination
  by (relation "measure (\<lambda>(cur, s). length s)") auto

definition chars_to_remove :: rx where
  "chars_to_remove =
     alts [Cat (chr (CHR 0x1B))
             (Alt (Cls (\<lambda>c. let n = (of_char c :: nat) in (64 \<le> n \<and> n \<le> 90) \<or> (92 \<le> n \<and> n \<le> 95)))
                  (cats [lit ''['', star (between (CHR ''0'') (CHR ''?'')), star (between (CHR 0x20) (CHR ''/'')),
                         between (CHR ''@'') (CHR ''~'')])),
           chr (CHR 0x0D), chr (CHR 0x0A), Cat (chr (CHR 0x1B)) (one_of ''78''), chr (CHR 0x07),
           Grp 1 (lit [CHR 0x1B, CHR 0x5B, CHR 0x48, CHR 0x1B, CHR 0x5B, CHR 0x4A])]"

definition clean_line :: "string \<Rightarrow> string" where
  "clean_line line =
     rstrip whitespace (py_replace [CHR 0x09] ''  '' (re_sub chars_to_remove [] (apply_backspace line)))"

text \<open>
  One call of \<^verbatim>\<open>write\<close>: from the unfinished line kept so far and the new text to the lines handed to the
  logger and the line to keep.
\<close>

definition split_log :: "string \<Rightarrow> string list \<times> string" where
  "split_log s =
     (let ls = filter (\<lambda>l. l \<noteq> [CHR 0x0D]) (keep_from [] s)
      in if ls \<noteq> [] \<and> \<not> endswith s [CHR 0x0A] then (butlast ls, last ls) else (ls, []))"

definition log_write :: "string \<Rightarrow> string \<Rightarrow> string list \<times> string" where
  "log_write lastline s = (let (ls, keep) = split_log (lastline @ s) in (map clean_line ls, keep))"

fun log_writes :: "string \<Rightarrow> string list \<Rightarrow> string list \<times> string" where
  "log_writes lastline [] = ([], lastline)"
| "log_writes lastline (s # ss) =
     (let (ls, keep) = log_write lastline s; (ls', keep') = log_writes keep ss in (ls @ ls', keep'))"

section \<open>Facts about lines\<close>

lemma concat_keep_from: "concat (keep_from cur s) = rev cur @ s"
proof (induction cur s rule: keep_from.induct)
  case (2 cur c s)
  have "s = CHR 0x0A # tl s" if "startswith s [CHR 0x0A]"
    using that by (cases s) (auto simp: startswith_def)
  then show ?case using 2 by auto
qed simp

lemma keep_from_step:
  "c \<noteq> CHR 0x0D \<Longrightarrow> keep_from cur (c # s) = (if is_break c then rev (c # cur) # keep_from [] s else keep_from (c # cur) s)"
  by simp

declare keep_from.simps(2) [simp del]

lemma keep_from_whole:
  assumes "list_all (\<lambda>c. \<not> is_break c) cur"
  shows "keep_from acc (rev cur @ s) = keep_from (cur @ acc) s"
  using assms
proof (induction cur arbitrary: s)
  case (Cons c cur)
  have "c \<noteq> CHR 0x0D" using Cons.prems by (auto simp: is_break_def)
  then show ?case using Cons.IH [of "c # s"] Cons.prems by (simp add: keep_from_step)
qed simp

text \<open>Text that follows a complete line starts a line; text that does not continues the last.\<close>

lemma keep_from_append:
  assumes "CHR 0x0D \<notin> set s" and "endswith s [CHR 0x0A]"
  shows "keep_from cur (s @ t) = keep_from cur s @ keep_from [] t"
  using assms
proof (induction s arbitrary: cur)
  case Nil
  then show ?case by (simp add: endswith_iff)
next
  case (Cons c s)
  have c: "c \<noteq> CHR 0x0D" using Cons.prems by auto
  show ?case
  proof (cases "s = []")
    case True
    then have "c = CHR 0x0A" using Cons.prems by (simp add: endswith_iff)
    then show ?thesis using True by (simp add: keep_from_step is_break_def)
  next
    case False
    then have "endswith s [CHR 0x0A]"
      using Cons.prems(2) by (auto simp: endswith_iff Cons_eq_append_conv)
    then show ?thesis using Cons.IH Cons.prems c by (simp add: keep_from_step)
  qed
qed

lemma keep_from_continue:
  assumes "CHR 0x0D \<notin> set s" and "list_all (\<lambda>c. \<not> is_break c) cur" and "keep_from cur s = ls @ [l]"
  shows "keep_from cur (s @ t) = ls @ keep_from [] (l @ t)"
  using assms
proof (induction s arbitrary: cur ls)
  case Nil
  then have "ls = []" "l = rev cur" by (auto split: if_splits simp: append_eq_Cons_conv Cons_eq_append_conv)
  then show ?case using keep_from_whole [OF Nil.prems(2), of "[]" t] by simp
next
  case (Cons c s)
  have c: "c \<noteq> CHR 0x0D" using Cons.prems by auto
  show ?case
  proof (cases "is_break c")
    case False
    then show ?thesis using Cons.IH [of "c # cur" ls] Cons.prems c by (simp add: keep_from_step)
  next
    case True
    then have eq: "rev (c # cur) # keep_from [] s = ls @ [l]" using Cons.prems c by (simp add: keep_from_step)
    show ?thesis
    proof (cases ls)
      case Nil
      then have "l = rev (c # cur)" "s = []"
        using eq concat_keep_from [of "[]" s] by auto
      then show ?thesis using Nil True c keep_from_whole [OF Cons.prems(2), of "[]" "c # t"]
        by (simp add: keep_from_step)
    next
      case (Cons x ls')
      then have "x = rev (c # cur)" "keep_from [] s = ls' @ [l]" using eq by auto
      then show ?thesis using Cons.IH [of "[]" ls'] Cons.prems(1) True c Cons by (simp add: keep_from_step)
    qed
  qed
qed

lemma keep_from_no_cr: "CHR 0x0D \<notin> set s \<Longrightarrow> CHR 0x0D \<notin> set cur \<Longrightarrow> l \<in> set (keep_from cur s) \<Longrightarrow> l \<noteq> [CHR 0x0D]"
proof -
  assume a: "CHR 0x0D \<notin> set s" "CHR 0x0D \<notin> set cur" "l \<in> set (keep_from cur s)"
  have "set l \<subseteq> set (concat (keep_from cur s))" using a(3) by auto
  then show "l \<noteq> [CHR 0x0D]" using a(1,2) by (auto simp: concat_keep_from)
qed

lemma split_log_lines:
  assumes "CHR 0x0D \<notin> set s"
  shows "split_log s = (if s \<noteq> [] \<and> \<not> endswith s [CHR 0x0A] then (butlast (keep_from [] s), last (keep_from [] s))
                        else (keep_from [] s, []))"
proof -
  have f: "filter (\<lambda>l. l \<noteq> [CHR 0x0D]) (keep_from [] s) = keep_from [] s"
    using keep_from_no_cr [OF assms, of "[]"] by (simp add: filter_id_conv)
  have "keep_from [] s = [] \<longleftrightarrow> s = []"
    using concat_keep_from [of "[]" s] by (cases s) auto
  then show ?thesis by (auto simp: split_log_def Let_def f)
qed

text \<open>What has been written, split at once, is what was handed on and what is kept.\<close>

lemma split_log_append:
  assumes "CHR 0x0D \<notin> set (s @ t)" and "split_log s = (ls, l)"
  shows "split_log (s @ t) = (let (ls', l') = split_log (l @ t) in (ls @ ls', l'))"
proof (cases "s \<noteq> [] \<and> \<not> endswith s [CHR 0x0A]")
  case True
  then have "keep_from [] s \<noteq> []" using concat_keep_from [of "[]" s] by auto
  then have k: "keep_from [] s = ls @ [l]" using assms True by (auto simp: split_log_lines)
  have kt: "keep_from [] (s @ t) = ls @ keep_from [] (l @ t)"
    using keep_from_continue [OF _ _ k] assms(1) by simp
  have l: "set l \<subseteq> set s" using concat_keep_from [of "[]" s] k by auto
  have nl: "l \<noteq> []" "\<not> endswith l [CHR 0x0A]"
  proof -
    have s: "s = concat ls @ l" using concat_keep_from [of "[]" s] k by simp
    show "\<not> endswith l [CHR 0x0A]" using True s by (auto simp: endswith_iff)
    show "l \<noteq> []"
    proof
      assume "l = []"
      have "[] \<notin> set (keep_from cur s)" for cur s
        by (induction cur s rule: keep_from.induct) (auto simp: keep_from.simps(2))
      then show False using k \<open>l = []\<close> by (metis in_set_conv_decomp)
    qed
  qed
  have e: "endswith (s @ t) [CHR 0x0A] \<longleftrightarrow> endswith (l @ t) [CHR 0x0A]"
  proof (cases t rule: rev_cases)
    case Nil
    then show ?thesis using nl True by simp
  qed (simp add: endswith_def startswith_def)
  have "keep_from [] (l @ t) \<noteq> []" using nl(1) concat_keep_from [of "[]" "l @ t"] by auto
  moreover have "CHR 0x0D \<notin> set (l @ t)" using l assms(1) by auto
  ultimately show ?thesis
    using assms(1) nl(1) True kt e by (simp add: split_log_lines [OF assms(1)] split_log_lines [of "l @ t"] butlast_append)
next
  case False
  then have l: "ls = keep_from [] s" "l = []" using assms by (auto simp: split_log_lines)
  have kt: "keep_from [] (s @ t) = ls @ keep_from [] t"
    using False keep_from_append [of s "[]" t] assms(1) l(1) by auto
  show ?thesis
  proof (cases "t = []")
    case True
    then show ?thesis using assms(2) l(2) by (simp add: split_log_def)
  next
    case t: False
    then have e: "endswith (s @ t) [CHR 0x0A] \<longleftrightarrow> endswith t [CHR 0x0A]"
      by (cases t rule: rev_cases) (auto simp: endswith_def startswith_def)
    have "keep_from [] t \<noteq> []" using t concat_keep_from [of "[]" t] by auto
    then show ?thesis
      using t l kt e assms(1)
      by (auto simp: split_log_lines [OF assms(1)] split_log_lines [of t] butlast_append)
  qed
qed

lemma log_writes_at_once:
  "CHR 0x0D \<notin> set (l @ concat ss) \<Longrightarrow> split_log l = ([], l) \<Longrightarrow> log_writes l ss = log_write l (concat ss)"
proof (induction ss arbitrary: l)
  case (Cons s ss)
  obtain ls k where k: "split_log (l @ s) = (ls, k)" by (cases "split_log (l @ s)")
  have cr: "CHR 0x0D \<notin> set (l @ s)" using Cons.prems(1) by auto
  have ka: "split_log (k @ []) = ([], k)"
    using split_log_append [of "l @ s" "[]" ls k] cr k by (auto split: prod.splits)
  have "set k \<subseteq> set (l @ s)"
  proof -
    have "set (concat (keep_from [] (l @ s))) = set (l @ s)" by (simp add: concat_keep_from)
    moreover have "k = [] \<or> k \<in> set (keep_from [] (l @ s))"
      using k split_log_lines [OF cr] concat_keep_from [of "[]" "l @ s"]
      by (auto split: if_splits intro!: last_in_set)
    ultimately show ?thesis by auto
  qed
  then have "log_writes k ss = log_write k (concat ss)"
    using Cons.IH [of k] Cons.prems(1) ka by auto
  then show ?case
    using split_log_append [of "l @ s" "concat ss" ls k] k Cons.prems(1)
    by (auto simp: log_write_def split: prod.splits)
qed (simp add: log_write_def)

section \<open>Facts about erasing\<close>

lemmas regex_defs =
  match_at_def as_match_def Let_def erased_char_def erase_only_def erase_seq_def erase_blank_def chr_def dot_def

definition erase_text :: "bool \<Rightarrow> string" where
  "erase_text clears =
     (if clears then [CHR 0x08, CHR 0x1B, CHR 0x5B, CHR 0x4B] else [CHR 0x08, CHR 0x20, CHR 0x08])"

lemma no_erase_here:
  "s = [] \<or> hd s \<noteq> CHR 0x08 \<Longrightarrow> match_at erased_char False b (c # s) = None"
  by (cases s) (auto simp: regex_defs)

lemma erase_here:
  assumes "c \<noteq> CHR 0x0A"
  shows "\<exists>m. match_at erased_char False b (c # erase_text k @ t) = Some m \<and> ma_before m = b \<and> ma_after m = t"
  using assms by (cases k) (simp_all add: regex_defs erase_text_def)

lemma search_erase:
  assumes "CHR 0x08 \<notin> set s" and "c \<notin> {CHR 0x08, CHR 0x0A}"
  shows "\<exists>m. search_from erased_char False b (s @ c # erase_text k @ t) = Some m \<and>
    ma_before m = rev s @ b \<and> ma_after m = t"
  using assms
proof (induction s arbitrary: b)
  case Nil
  then show ?case using erase_here [of c b k t] by auto
next
  case (Cons x s)
  have "match_at erased_char False b (x # s @ c # erase_text k @ t) = None"
    using Cons.prems by (intro no_erase_here) (cases s; auto)
  then show ?case using Cons.IH [of "x # b"] Cons.prems by simp
qed

lemma search_no_erase: "CHR 0x08 \<notin> set s \<Longrightarrow> search_from erased_char False b s = None"
proof (induction s arbitrary: b)
  case (Cons x s)
  have "match_at erased_char False b (x # s) = None"
    using Cons.prems by (intro no_erase_here) (cases s; auto)
  then show ?case using Cons by simp
qed (simp add: regex_defs)

lemma search_no_erase_only: "CHR 0x08 \<notin> set s \<Longrightarrow> search_from erase_only False b s = None"
  by (induction s arbitrary: b) (auto simp: regex_defs)

lemma apply_backspace_plain:
  assumes "CHR 0x08 \<notin> set s"
  shows "apply_backspace s = s"
proof -
  have "re_remove1 erased_char s = s" using search_no_erase [OF assms] by (simp add: re_remove1_def re_search_def)
  moreover have "re_sub erase_only [] s = s"
    using search_no_erase_only [OF assms] by (simp add: re_sub_def re_split_def re_finditer_def)
  ultimately show ?thesis by (subst apply_backspace.simps) (simp add: Let_def)
qed

lemma apply_backspace_erase:
  assumes "CHR 0x08 \<notin> set s" and "c \<notin> {CHR 0x08, CHR 0x0A}"
  shows "apply_backspace (s @ c # erase_text k @ t) = apply_backspace (s @ t)"
proof -
  have "re_remove1 erased_char (s @ c # erase_text k @ t) = s @ t"
    using search_erase [OF assms, of "[]" k t] by (auto simp: re_remove1_def re_search_def)
  then show ?thesis by (subst apply_backspace.simps) (simp add: Let_def)
qed

text \<open>
  Keys at a terminal that echoes: a character, or the erasure of the last one in either of the two ways a
  terminal shows it. \<open>edited\<close> is the text that is left, reversed while typing.
\<close>

datatype key = Typed char | Erased bool

fun echo :: "key list \<Rightarrow> string" where
  "echo [] = []"
| "echo (Typed c # ks) = c # echo ks"
| "echo (Erased k # ks) = erase_text k @ echo ks"

fun edited :: "string \<Rightarrow> key list \<Rightarrow> string" where
  "edited acc [] = rev acc"
| "edited acc (Typed c # ks) = edited (c # acc) ks"
| "edited acc (Erased k # ks) = edited (tl acc) ks"

text \<open>Never erasing where nothing is left, and typing neither backspaces nor line ends.\<close>

fun good_keys :: "nat \<Rightarrow> key list \<Rightarrow> bool" where
  "good_keys n [] = True"
| "good_keys n (Typed c # ks) = (c \<notin> {CHR 0x08, CHR 0x0A} \<and> good_keys (Suc n) ks)"
| "good_keys n (Erased k # ks) = (0 < n \<and> good_keys (n - 1) ks)"

lemma apply_backspace_edits:
  "good_keys (length acc) ks \<Longrightarrow> \<forall>c\<in>set acc. c \<notin> {CHR 0x08, CHR 0x0A} \<Longrightarrow>
   apply_backspace (rev acc @ echo ks) = edited acc ks"
proof (induction acc ks rule: edited.induct)
  case (1 acc)
  then show ?case using apply_backspace_plain [of "rev acc"] by auto
next
  case (2 acc c ks)
  then show ?case by auto
next
  case (3 acc k ks)
  then obtain c rest where acc: "acc = c # rest" by (cases acc) auto
  then have "apply_backspace (rev acc @ echo (Erased k # ks)) = apply_backspace (rev rest @ echo ks)"
    using apply_backspace_erase [of "rev rest" c k "echo ks"] 3(3) by auto
  then show ?case using 3 acc by simp
qed

section \<open>Properties\<close>

text \<open>erasing a character at a terminal erases it in the log: for keys that never erase beyond the
  start of the line, in either of the two ways terminals show an erasure and in any order, what
  \<^verbatim>\<open>_apply_backspace\<close> leaves of the echoed text is exactly the text the keys edit.\<close>

theorem backspace_edits:
  assumes "good_keys 0 ks"
  shows "apply_backspace (echo ks) = edited [] ks"
  using apply_backspace_edits [of "[]" ks] assms by simp

theorem backspace_edits_witness:
  "apply_backspace (echo [Typed CHR ''l'', Typed CHR ''z'', Typed CHR ''q'', Erased True, Erased False, Typed CHR ''s'']) = ''ls''"
  using backspace_edits [of "[Typed CHR ''l'', Typed CHR ''z'', Typed CHR ''q'', Erased True, Erased False, Typed CHR ''s'']"]
  by simp

text \<open>the log does not depend on how the output of a device is cut into chunks: as long as no carriage
  return is in it, writing it chunk by chunk hands the same lines to the logger in the same order, and
  keeps the same unfinished line, as writing it at once.\<close>

theorem log_writes_chunks:
  assumes "CHR 0x0D \<notin> set (concat chunks)"
  shows "log_writes [] chunks = log_write [] (concat chunks)"
  using log_writes_at_once [of "[]" chunks] assms by (simp add: split_log_def)

theorem log_writes_chunks_witness:
  "log_writes [] [''a'', ''b'' @ [CHR 0x0A] @ ''c'', ''d'' @ [CHR 0x0A]] =
   log_write [] (''ab'' @ [CHR 0x0A] @ ''cd'' @ [CHR 0x0A])"
  using log_writes_chunks [of "[''a'', ''b'' @ [CHR 0x0A] @ ''c'', ''d'' @ [CHR 0x0A]]"] by simp

text \<open>With carriage returns it does: of the three characters below, in three chunks, an empty line is lost.\<close>

theorem carriage_return_lost:
  "fst (log_writes [] [''a'' @ [CHR 0x0D], [CHR 0x0D], [CHR 0x0A]]) = [''a''] \<and>
   fst (log_write [] (''a'' @ [CHR 0x0D, CHR 0x0D, CHR 0x0A])) = [''a'', []]"
  by code_simp

end
