(* ===== verification/Connections.thy ===== *)
theory Connections
  imports Device_IO
begin

text \<open>
  The connection classes (\<^verbatim>\<open>boardfarm3/lib/connections\<close>), the factory that chooses one
  (\<^verbatim>\<open>lib/connection_factory.py\<close>), connecting on demand (\<^verbatim>\<open>connections/connect_and_run.py\<close>) and the Python
  interpreter on a console (\<^verbatim>\<open>lib/python_executor.py\<close>). A connection is a value with its class; a method is
  a function of the connection and its pexpect session. Awaiting a pexpect call is the call.
\<close>

section \<open>Connections\<close>

datatype conn_class = SSHConnection | LdapAuthenticatedSerial | LocalCmd | SerialConnection | TelnetConnection | Ser2NetConnection

record connection =
  cn_class :: conn_class
  cn_command :: string
  cn_args :: "string list"
  cn_prompt :: "string list"
  cn_username :: string
  cn_password :: "string option"
  cn_ip_addr :: string
  cn_port :: string

text \<open>How a value shows in a formatted string, and the texts of a list.\<close>

definition shown :: "json \<Rightarrow> string" where
  "shown v = (case v of JStr s \<Rightarrow> s | JInt i \<Rightarrow> int_str i | JNull \<Rightarrow> ''None'' | JBool b \<Rightarrow> (if b then ''True'' else ''False'') | _ \<Rightarrow> [])"

definition text_items :: "json \<Rightarrow> string list" where
  "text_items v = (case v of JList vs \<Rightarrow> map shown vs | _ \<Rightarrow> [])"

definition text_or_none :: "json \<Rightarrow> string option" where
  "text_or_none v = (case v of JStr s \<Rightarrow> Some s | _ \<Rightarrow> None)"

text \<open>Binding keyword arguments: a required parameter that is missing is a \<^verbatim>\<open>TypeError\<close>.\<close>

definition bind_required :: "string list \<Rightarrow> (string, json) dict \<Rightarrow> raised + unit" where
  "bind_required names kwargs = (if list_all (\<lambda>n. dict_mem n kwargs) names then Inr () else Inl type_error)"

definition kwarg :: "(string, json) dict \<Rightarrow> string \<Rightarrow> json \<Rightarrow> json" where
  "kwarg kwargs n dflt = (case dict_get kwargs n of None \<Rightarrow> dflt | Some v \<Rightarrow> v)"

definition ssh_init :: "string \<Rightarrow> string \<Rightarrow> string list \<Rightarrow> string \<Rightarrow> string option \<Rightarrow> connection" where
  "ssh_init ip_addr username shell_prompt port password =
     \<lparr>cn_class = SSHConnection, cn_command = ''ssh'',
      cn_args = [username @ ''@'' @ ip_addr, ''-p '' @ port, ''-o StrictHostKeyChecking=no'',
        ''-o UserKnownHostsFile=/dev/null'', ''-o ServerAliveInterval=60'', ''-o ServerAliveCountMax=10'',
        ''-o IdentitiesOnly=yes'', ''-o HostKeyAlgorithms=+ssh-rsa''],
      cn_prompt = shell_prompt, cn_username = username, cn_password = password,
      cn_ip_addr = ip_addr, cn_port = port\<rparr>"

definition ldap_init :: "string \<Rightarrow> string \<Rightarrow> string list \<Rightarrow> string \<Rightarrow> raised + connection" where
  "ldap_init ip_addr ldap_credentials shell_prompt port =
     (if CHR '';'' \<notin> set ldap_credentials then Inl (value_error ''Invalid LDAP credentials'')
      else case split_on (CHR '';'') ldap_credentials of
             [username, password] \<Rightarrow>
               Inr ((ssh_init ip_addr username shell_prompt port (Some password))\<lparr>cn_class := LdapAuthenticatedSerial\<rparr>)
           | _ \<Rightarrow> Inl (value_error ''too many values to unpack (expected 2)''))"

definition local_init :: "string \<Rightarrow> string list \<Rightarrow> string list option \<Rightarrow> connection" where
  "local_init conn_command shell_prompt args =
     \<lparr>cn_class = LocalCmd, cn_command = conn_command, cn_args = (case args of None \<Rightarrow> [] | Some xs \<Rightarrow> xs),
      cn_prompt = shell_prompt, cn_username = [], cn_password = None, cn_ip_addr = [], cn_port = []\<rparr>"

text \<open>
  The serial connection splits its command, raising for an empty one, and waits for the terminal as part
  of its construction.
\<close>

definition serial_init :: "string \<Rightarrow> string list \<Rightarrow> string list option \<Rightarrow> raised + connection" where
  "serial_init conn_command shell_prompt args =
     (case args of
        Some xs \<Rightarrow> Inr ((local_init conn_command shell_prompt (Some xs))\<lparr>cn_class := SerialConnection\<rparr>)
      | None \<Rightarrow>
         (case split_ws conn_command of
            [] \<Rightarrow> Inl index_error
          | c # xs \<Rightarrow> Inr ((local_init c shell_prompt (Some xs))\<lparr>cn_class := SerialConnection\<rparr>)))"

definition serial_ready :: "('w, 'x) spawn_scheme \<Rightarrow> ('w, unit) io" where
  "serial_ready sp =
     catch (seq (sp_expect sp [Text ''Terminal ready''] 5) (\<lambda>_. ret ())) is_eof
       (\<lambda>e. seq (reading (sp_before sp)) (\<lambda>b. throw (connection_error b)))"

definition telnet_init :: "conn_class \<Rightarrow> string \<Rightarrow> string \<Rightarrow> string list \<Rightarrow> connection" where
  "telnet_init cls ip_addr port shell_prompt =
     \<lparr>cn_class = cls, cn_command = ''telnet'', cn_args = [ip_addr, port], cn_prompt = shell_prompt,
      cn_username = [], cn_password = None, cn_ip_addr = ip_addr, cn_port = port\<rparr>"

section \<open>Logging in\<close>

text \<open>Sending a password that is \<^verbatim>\<open>None\<close> raises.\<close>

definition send_password :: "('w, 'x) spawn_scheme \<Rightarrow> string option \<Rightarrow> ('w, unit) io" where
  "send_password sp password = (case password of None \<Rightarrow> throw type_error | Some p \<Rightarrow> sp_sendline sp p)"

definition fail_if :: "bool \<Rightarrow> raised \<Rightarrow> ('w, unit) io" where
  "fail_if b e = (if b then throw e else ret ())"

definition ssh_login :: "connection \<Rightarrow> ('w, 'x) spawn_scheme \<Rightarrow> string option \<Rightarrow> ('w, unit) io" where
  "ssh_login c sp password =
     seq (sp_expect sp [Text ''password:'', Eof, Timeout] (-1)) (\<lambda>i.
     if i \<noteq> 0 then throw (connection_error ''Connection failed to SSH server'') else
     andthen (send_password sp (or_else password (cn_password c)))
     (seq (sp_expect sp (Eof # Timeout # prompts (cn_prompt c)) (-1)) (\<lambda>j.
     fail_if (j < 2) (connection_error ''Connection failed to SSH server''))))"

definition ldap_login :: "connection \<Rightarrow> ('w, 'x) spawn_scheme \<Rightarrow> string option \<Rightarrow> ('w, unit) io" where
  "ldap_login c sp password =
     seq (sp_expect sp [Text ''Password:'', Eof, Timeout] (-1)) (\<lambda>i.
     if i \<noteq> 0 then throw (connection_error ''Failed to connect to device via serial'') else
     andthen (send_password sp (or_else password (cn_password c)))
     (seq (sp_expect_exact sp [Text ''OpenGear Serial Server'', Timeout, Eof] 10) (\<lambda>j.
     if j = 2 then throw (connection_error ''Failed to connect to device via serial'') else
     andthen (sp_sendline sp [])
     (andthen (sp_sendline sp [])
     (seq (sp_expect sp [Timeout] 5) (\<lambda>_. ret ()))))))"

definition local_login :: "connection \<Rightarrow> ('w, 'x) spawn_scheme \<Rightarrow> string option \<Rightarrow> ('w, unit) io" where
  "local_login c sp password =
     andthen
      (case password of
         None \<Rightarrow> ret ()
       | Some p \<Rightarrow>
           seq (sp_expect sp [Text ''password:'', Eof, Timeout] (-1)) (\<lambda>i.
           if i \<noteq> 0 then throw (connection_error ''Connection failed with Local Command'') else sp_sendline sp p))
     (if cn_prompt c = [] then throw (value_error ''Shell prompt is not available'') else
      seq (sp_expect sp (Eof # Timeout # prompts (cn_prompt c)) (-1)) (\<lambda>j.
      fail_if (j < 2) (connection_error ''Connection failed with Local Command'')))"

definition telnet_failed :: "connection \<Rightarrow> string" where
  "telnet_failed c = ''Failed to run '' @ [CHR 0x27] @ ''telnet '' @ cn_ip_addr c @ '' '' @ cn_port c @ [CHR 0x27]"

definition telnet_greetings :: "connection \<Rightarrow> pattern list" where
  "telnet_greetings c =
     [Text (''Connected to '' @ cn_ip_addr c), Text (''Escape character is '' @ [CHR 0x27] @ ''^]'' @ [CHR 0x27] @ ''.''), Timeout]"

definition telnet_login :: "connection \<Rightarrow> ('w, 'x) spawn_scheme \<Rightarrow> string option \<Rightarrow> ('w, unit) io" where
  "telnet_login c sp password =
     (if password \<noteq> None then throw (connection_error ''Authenticated Telnet not supported.'') else
      seq (sp_expect sp (telnet_greetings c) 10) (\<lambda>i. fail_if (i \<noteq> 0) (connection_error (telnet_failed c))))"

definition telnet_login_async :: "connection \<Rightarrow> ('w, 'x) spawn_scheme \<Rightarrow> string option \<Rightarrow> ('w, unit) io" where
  "telnet_login_async c sp password =
     (if password \<noteq> None then throw (connection_error ''Authenticated Telnet not supported.'') else
      seq (sp_expect sp (telnet_greetings c) 10) (\<lambda>i. fail_if (1 < i) (connection_error (telnet_failed c))))"

definition ser2net_login :: "connection \<Rightarrow> ('w, 'x) spawn_scheme \<Rightarrow> string option \<Rightarrow> ('w, unit) io" where
  "ser2net_login c sp password =
     andthen (telnet_login c sp password)
     (seq (sp_expect sp [Text (''ser2net port.*'' @ cn_port c), Timeout] 10) (\<lambda>i.
     fail_if (i \<noteq> 0) (connection_error (''ser2net: '' @ telnet_failed c))))"

definition ser2net_login_async :: "connection \<Rightarrow> ('w, 'x) spawn_scheme \<Rightarrow> string option \<Rightarrow> ('w, unit) io" where
  "ser2net_login_async c sp password =
     andthen (telnet_login_async c sp password)
     (seq (sp_expect sp [Text (''ser2net port.*'' @ cn_port c), Timeout] 10) (\<lambda>i.
     fail_if (i = 1) (connection_error (''ser2net: '' @ telnet_failed c))))"

definition login_to_server :: "connection \<Rightarrow> ('w, 'x) spawn_scheme \<Rightarrow> string option \<Rightarrow> ('w, unit) io" where
  "login_to_server c =
     (case cn_class c of
        SSHConnection \<Rightarrow> ssh_login c
      | LdapAuthenticatedSerial \<Rightarrow> ldap_login c
      | LocalCmd \<Rightarrow> local_login c
      | SerialConnection \<Rightarrow> (\<lambda>_ _. ret ())
      | TelnetConnection \<Rightarrow> telnet_login c
      | Ser2NetConnection \<Rightarrow> ser2net_login c)"

section \<open>Commands\<close>

definition get_last_output :: "('w, 'x) spawn_scheme \<Rightarrow> ('w, string) io" where
  "get_last_output sp = reading (\<lambda>w. strip whitespace (sp_before sp w))"

definition get_next_output :: "('w, 'x) spawn_scheme \<Rightarrow> ('w, string) io" where
  "get_next_output sp = reading (\<lambda>w. strip whitespace (sp_after sp w))"

definition ssh_execute :: "connection \<Rightarrow> ('w, 'x) spawn_scheme \<Rightarrow> string \<Rightarrow> int \<Rightarrow> ('w, string) io" where
  "ssh_execute c sp command timeout =
     andthen (sp_sendline sp command)
     (andthen (sp_expect_exact sp [Text command] (-1))
     (andthen (sp_expect sp [Text [CHR 0x0A]] (-1))
     (andthen (sp_expect sp (prompts (cn_prompt c)) timeout)
     (get_last_output sp))))"

definition telnet_execute :: "connection \<Rightarrow> ('w, 'x) spawn_scheme \<Rightarrow> string \<Rightarrow> int \<Rightarrow> ('w, string) io" where
  "telnet_execute c sp command timeout =
     andthen (sp_sendline sp command)
     (andthen (sp_expect_exact sp [Text command] (-1))
     (andthen (sp_expect sp (prompts (cn_prompt c)) timeout)
     (get_last_output sp)))"

text \<open>The local and the serial connection repeat the steps of the SSH connection.\<close>

definition local_execute :: "connection \<Rightarrow> ('w, 'x) spawn_scheme \<Rightarrow> string \<Rightarrow> int \<Rightarrow> ('w, string) io" where
  "local_execute c sp command timeout =
     andthen (sp_sendline sp command)
     (andthen (sp_expect_exact sp [Text command] (-1))
     (andthen (sp_expect sp [Text [CHR 0x0A]] (-1))
     (andthen (sp_expect sp (prompts (cn_prompt c)) timeout)
     (get_last_output sp))))"

definition execute_command :: "connection \<Rightarrow> ('w, 'x) spawn_scheme \<Rightarrow> string \<Rightarrow> int \<Rightarrow> ('w, string) io" where
  "execute_command c =
     (case cn_class c of
        SSHConnection \<Rightarrow> ssh_execute c
      | LdapAuthenticatedSerial \<Rightarrow> ssh_execute c
      | LocalCmd \<Rightarrow> local_execute c
      | SerialConnection \<Rightarrow> local_execute c
      | TelnetConnection \<Rightarrow> telnet_execute c
      | Ser2NetConnection \<Rightarrow> telnet_execute c)"

definition check_output :: "connection \<Rightarrow> string \<Rightarrow> ('w, 'x) spawn_scheme \<Rightarrow> string \<Rightarrow> int \<Rightarrow> ('w, string) io" where
  "check_output c name sp cmd timeout =
     andthen (sp_sendline sp (CHR 0x0A # cmd))
     (andthen (sp_expect_exact sp [Text cmd] timeout)
     (andthen
       (catch (at_prompt sp (cn_prompt c) timeout) (\<lambda>_. True) (\<lambda>_.
          andthen (sp_sendcontrol sp ''c'')
            (throw (boardfarm_error (''Command did not complete within '' @ int_str timeout @ '' seconds. '' @ name @ '' prompt was not seen.'')))))
     (get_last_output sp)))"

definition sudo_sendline :: "connection \<Rightarrow> ('w, 'x) spawn_scheme \<Rightarrow> string \<Rightarrow> ('w, unit) io" where
  "sudo_sendline c sp cmd =
     (if cn_username c = ''root'' then sp_sendline sp cmd
      else
        andthen (sp_sendline sp ''sudo true'')
        (seq (sp_expect sp (prompts (cn_prompt c) @ [Text ''password for .*:'', Text ''Password:'']) (-1)) (\<lambda>i.
        andthen (when_io (i \<noteq> 0) (andthen (send_password sp (cn_password c)) (at_prompt sp (cn_prompt c) (-1))))
        (sp_sendline sp (''sudo '' @ cmd)))))"

definition telnet_close :: "('w, 'x) spawn_scheme \<Rightarrow> bool \<Rightarrow> ('w, unit) io" where
  "telnet_close sp force =
     andthen (sp_sendcontrol sp '']'') (andthen (sp_sendline sp ''q'') (sp_close sp force))"

text \<open>The console of a connection, as the libraries see it: only the SSH classes have \<^verbatim>\<open>sudo_sendline\<close>.\<close>

definition has_sudo :: "connection \<Rightarrow> bool" where
  "has_sudo c \<longleftrightarrow> cn_class c \<in> {SSHConnection, LdapAuthenticatedSerial}"

definition console_of :: "connection \<Rightarrow> 'w spawn \<Rightarrow> 'w console" where
  "console_of c sp =
     spawn.extend sp
       \<lparr>c_execute = execute_command c sp,
        c_sudo_sendline = (if has_sudo c then sudo_sendline c sp else (\<lambda>_. throw attribute_error)),
        c_login = login_to_server c sp\<rparr>"

section \<open>The factory\<close>

definition telnet_param_parser :: "(string, json) dict \<Rightarrow> raised + connection" where
  "telnet_param_parser kwargs =
     (case get_item kwargs ''save_console_logs'' of Inl e \<Rightarrow> Inl e | Inr _ \<Rightarrow>
      case get_item kwargs ''ip_addr'' of Inl e \<Rightarrow> Inl e | Inr ip \<Rightarrow>
      case get_item kwargs ''port'' of Inl e \<Rightarrow> Inl e | Inr port \<Rightarrow>
      case get_item kwargs ''shell_prompt'' of Inl e \<Rightarrow> Inl e | Inr ps \<Rightarrow>
        Inr (telnet_init TelnetConnection (shown ip) (shown port) (text_items ps)))"

definition ser2net_param_parser :: "(string, json) dict \<Rightarrow> raised + connection" where
  "ser2net_param_parser kwargs =
     (case get_item kwargs ''ip_addr'' of Inl e \<Rightarrow> Inl e | Inr ip \<Rightarrow>
      case get_item kwargs ''port'' of Inl e \<Rightarrow> Inl e | Inr port \<Rightarrow>
      case get_item kwargs ''shell_prompt'' of Inl e \<Rightarrow> Inl e | Inr ps \<Rightarrow>
        Inr (telnet_init Ser2NetConnection (shown ip) (shown port) (text_items ps)))"

text \<open>Calling a class with keyword arguments.\<close>

definition call_ssh :: "(string, json) dict \<Rightarrow> raised + connection" where
  "call_ssh kwargs =
     (case bind_required [''ip_addr'', ''username'', ''shell_prompt''] kwargs of
        Inl e \<Rightarrow> Inl e
      | Inr _ \<Rightarrow> Inr (ssh_init (shown (get_or_none kwargs ''ip_addr'')) (shown (get_or_none kwargs ''username''))
                   (text_items (get_or_none kwargs ''shell_prompt'')) (shown (kwarg kwargs ''port'' (JInt 22)))
                   (text_or_none (get_or_none kwargs ''password''))))"

definition call_ldap :: "(string, json) dict \<Rightarrow> raised + connection" where
  "call_ldap kwargs =
     (case bind_required [''ip_addr'', ''ldap_credentials'', ''shell_prompt''] kwargs of
        Inl e \<Rightarrow> Inl e
      | Inr _ \<Rightarrow> ldap_init (shown (get_or_none kwargs ''ip_addr'')) (shown (get_or_none kwargs ''ldap_credentials''))
                   (text_items (get_or_none kwargs ''shell_prompt'')) (shown (kwarg kwargs ''port'' (JInt 22))))"

definition arg_list :: "json \<Rightarrow> string list option" where
  "arg_list v = (case v of JList vs \<Rightarrow> Some (map shown vs) | _ \<Rightarrow> None)"

definition call_local :: "(string, json) dict \<Rightarrow> raised + connection" where
  "call_local kwargs =
     (case bind_required [''conn_command'', ''save_console_logs''] kwargs of
        Inl e \<Rightarrow> Inl e
      | Inr _ \<Rightarrow> Inr (local_init (shown (get_or_none kwargs ''conn_command''))
                   (text_items (get_or_none kwargs ''shell_prompt'')) (arg_list (get_or_none kwargs ''args''))))"

definition call_serial :: "(string, json) dict \<Rightarrow> raised + connection" where
  "call_serial kwargs =
     (case bind_required [''conn_command'', ''save_console_logs''] kwargs of
        Inl e \<Rightarrow> Inl e
      | Inr _ \<Rightarrow> serial_init (shown (get_or_none kwargs ''conn_command''))
                   (text_items (get_or_none kwargs ''shell_prompt'')) (arg_list (get_or_none kwargs ''args'')))"

definition connection_dispatcher :: "(string, (string, json) dict \<Rightarrow> raised + connection) dict" where
  "connection_dispatcher =
     [(''ssh_connection'', call_ssh), (''authenticated_ssh'', call_ssh), (''ldap_authenticated_serial'', call_ldap),
      (''local_cmd'', call_local), (''serial'', call_serial), (''ser2net'', ser2net_param_parser),
      (''telnet'', telnet_param_parser)]"

definition connection_factory :: "json \<Rightarrow> (string, json) dict \<Rightarrow> raised + connection" where
  "connection_factory connection_type kwargs =
     (case (case connection_type of JStr t \<Rightarrow> dict_get connection_dispatcher t | _ \<Rightarrow> None) of
        None \<Rightarrow> Inl (env_error (''Unsupported connection type: '' @ shown connection_type))
      | Some call \<Rightarrow>
          if connection_type = JStr ''ssh_connection'' then
            (if dict_mem ''password'' kwargs then call (dict_pop ''password'' kwargs) else Inl (key_error ''password''))
          else call kwargs)"

section \<open>Connecting on demand\<close>

text \<open>
  The decorator's instance: whether it follows the protocol, whether it is connected, and its connecting
  and disconnecting; \<open>func\<close> is the decorated call. Ten attempts, fifteen seconds apart.
\<close>

record 'w connectable =
  rc_is_connectable :: bool
  rc_connected :: "'w \<Rightarrow> bool"
  rc_connect :: "('w, unit) io"
  rc_disconnect :: "('w, unit) io"
  rc_sleep :: "int \<Rightarrow> ('w, unit) io"

definition is_connection_error :: "raised \<Rightarrow> bool" where
  "is_connection_error e \<longleftrightarrow> isinstance (rx_class e) DeviceConnectionError"

fun connect_attempts :: "'w connectable \<Rightarrow> nat \<Rightarrow> raised \<Rightarrow> ('w, unit) io" where
  "connect_attempts r 0 conn_exception = throw conn_exception"
| "connect_attempts r (Suc n) conn_exception =
     seq (catch (seq (rc_connect r) (\<lambda>_. ret None)) is_connection_error
            (\<lambda>e. andthen (rc_sleep r 15) (ret (Some e))))
       (\<lambda>failed. case failed of None \<Rightarrow> ret () | Some e \<Rightarrow> connect_attempts r n e)"

definition disconnect_if :: "'w connectable \<Rightarrow> ('w, unit) io" where
  "disconnect_if r = seq (reading (rc_connected r)) (\<lambda>b. when_io b (rc_disconnect r))"

definition connect_and_run :: "'w connectable \<Rightarrow> ('w, 'a) io \<Rightarrow> ('w, 'a) io" where
  "connect_and_run r func =
     (if \<not> rc_is_connectable r then throw type_error
      else
        seq (reading (rc_connected r)) (\<lambda>b.
        andthen (if b then ret () else connect_attempts r 10 type_error)
        (lastly func (disconnect_if r))))"

section \<open>Python on a console\<close>

definition python_run :: "('w, 'x) spawn_scheme \<Rightarrow> string \<Rightarrow> string \<Rightarrow> ('w, string) io" where
  "python_run c cmd expected =
     andthen (sp_sendline c cmd)
     (seq (if expected = []
           then andthen (sp_expect c [Text ''>>>''] (-1)) (reading (sp_before c))
           else andthen (sp_expect c [Text expected] (-1))
                 (seq (reading (sp_before c)) (\<lambda>out. andthen (sp_expect c [Text ''>>>''] (-1)) (ret out)))) (\<lambda>out.
     if str_in ''Traceback'' out
     then throw (connection_error (''Failed to execute on python console command:'' @ [CHR 0x0A] @ cmd @ [CHR 0x0A] @ ''Output:'' @ out))
     else ret out))"

definition python_init :: "('w, 'x) console_scheme \<Rightarrow> ('w, unit) io" where
  "python_init c =
     andthen (run_cmd c ''kill -9 $(pgrep python3)'') (seq (python_run c ''python3'' []) (\<lambda>_. ret ()))"

definition exit_python :: "('w, 'x) spawn_scheme \<Rightarrow> string list \<Rightarrow> ('w, unit) io" where
  "exit_python c shell_prompt =
     catch
       (andthen (sp_sendcontrol c ''c'')
       (andthen (sp_expect c [Text ''>>>''] (-1))
       (andthen (sp_sendcontrol c ''d'')
       (at_prompt c shell_prompt (-1)))))
       is_timeout (\<lambda>_. ret ())"

section \<open>What running a command means\<close>

text \<open>
  The contract of \<^verbatim>\<open>execute_command\<close>: the command is sent first, a successful run has seen it echoed and
  ends at the prompt, and its value is the trimmed text before that prompt.
\<close>

locale shell =
  fixes sp :: "'w spawn"
    and prompt :: "string list"
    and run :: "string \<Rightarrow> int \<Rightarrow> ('w, string) io"
  assumes sends_first: "\<exists>rest. run cmd t = andthen (sp_sendline sp cmd) (rest :: ('w, string) io)"
    and at_prompt_after: "run cmd t w = (Inr out, w') \<Longrightarrow>
      (\<exists>w0 i. sp_expect sp (prompts prompt) t w0 = (Inr i, w')) \<and> out = strip whitespace (sp_before sp w')"
    and echoed: "run cmd t w = (Inr out, w') \<Longrightarrow>
      \<exists>w1 w2 i. sp_expect_exact sp [Text cmd] (-1) w1 = (Inr i, w2)"
begin

lemma send_failure: "sp_sendline sp cmd w = (Inl e, w') \<Longrightarrow> run cmd t w = (Inl e, w')"
proof -
  assume f: "sp_sendline sp cmd w = (Inl e, w')"
  obtain rest :: "('w, string) io" where "run cmd t = andthen (sp_sendline sp cmd) rest"
    using sends_first by blast
  then show ?thesis using f by (simp add: andthen_err)
qed

text \<open>A timeout at the prompt, or a command that is not echoed, never becomes an output.\<close>

lemma no_prompt_no_output:
  assumes "\<And>w0 i w1. sp_expect sp (prompts prompt) t w0 \<noteq> (Inr i, w1)"
  shows "fst (run cmd t w) \<noteq> Inr out"
proof
  assume "fst (run cmd t w) = Inr out"
  then have "run cmd t w = (Inr out, snd (run cmd t w))" by (metis prod.collapse)
  then show False using at_prompt_after assms by blast
qed

lemma no_echo_no_output:
  assumes "\<And>w1 i w2. sp_expect_exact sp [Text cmd] (-1) w1 \<noteq> (Inr i, w2)"
  shows "fst (run cmd t w) \<noteq> Inr out"
proof
  assume "fst (run cmd t w) = Inr out"
  then have "run cmd t w = (Inr out, snd (run cmd t w))" by (metis prod.collapse)
  then show False using echoed assms by blast
qed

lemma output_trimmed: "run cmd t w = (Inr out, w') \<Longrightarrow> strip whitespace out = out"
proof -
  assume "run cmd t w = (Inr out, w')"
  then have "out = strip whitespace (sp_before sp w')" using at_prompt_after by blast
  then show ?thesis by simp
qed

end

text \<open>Every connection class provides it.\<close>

lemma get_last_output_ok: "get_last_output sp w = (Inr out, w') \<longleftrightarrow> w = w' \<and> out = strip whitespace (sp_before sp w')"
  by (auto simp: get_last_output_def)

interpretation ssh_shell: shell sp "cn_prompt c" "ssh_execute c sp" for c :: connection and sp :: "'w spawn"
  by unfold_locales (fastforce simp: ssh_execute_def andthen_ok get_last_output_ok)+

interpretation local_shell: shell sp "cn_prompt c" "local_execute c sp" for c :: connection and sp :: "'w spawn"
  by unfold_locales (fastforce simp: local_execute_def andthen_ok get_last_output_ok)+

interpretation telnet_shell: shell sp "cn_prompt c" "telnet_execute c sp" for c :: connection and sp :: "'w spawn"
  by unfold_locales (fastforce simp: telnet_execute_def andthen_ok get_last_output_ok)+

interpretation conn_shell: shell sp "cn_prompt c" "execute_command c sp" for c :: connection and sp :: "'w spawn"
proof unfold_locales
  fix cmd t
  show "\<exists>rest. execute_command c sp cmd t = andthen (sp_sendline sp cmd) (rest :: ('w, string) io)"
    by (cases "cn_class c")
      (auto simp: execute_command_def ssh_shell.sends_first local_shell.sends_first telnet_shell.sends_first)
next
  fix cmd t w out w'
  assume r: "execute_command c sp cmd t w = (Inr out, w')"
  show "(\<exists>w0 i. sp_expect sp (prompts (cn_prompt c)) t w0 = (Inr i, w')) \<and> out = strip whitespace (sp_before sp w')"
    using r ssh_shell.at_prompt_after local_shell.at_prompt_after telnet_shell.at_prompt_after
    by (cases "cn_class c") (simp_all add: execute_command_def)
  show "\<exists>w1 w2 i. sp_expect_exact sp [Text cmd] (-1) w1 = (Inr i, w2)"
    using r ssh_shell.echoed local_shell.echoed telnet_shell.echoed
    by (cases "cn_class c") (simp_all add: execute_command_def)
qed

section \<open>Facts\<close>

lemma disconnect_if_ok:
  assumes "\<And>v v' u. rc_disconnect r v = (Inr u, v') \<Longrightarrow> \<not> rc_connected r v'"
    and "disconnect_if r w = (Inr u, w')"
  shows "\<not> rc_connected r w'"
  using assms by (cases "rc_connected r w") (auto simp: disconnect_if_def when_io_def seq_ok)

text \<open>The connection attempts before the one that decides: connection errors only, fifteen seconds apart.\<close>

lemma connect_attempts_fail:
  assumes "\<And>v. \<exists>e v'. rc_connect r v = (Inl e, v') \<and> is_connection_error e"
    and "\<And>v. \<exists>v'. rc_sleep r 15 v = (Inr (), v')"
    and "0 < n \<or> is_connection_error e0"
  shows "\<exists>e w'. connect_attempts r n e0 w = (Inl e, w') \<and> is_connection_error e"
  using assms(3)
proof (induction n arbitrary: e0 w)
  case (Suc n)
  obtain e v where e: "rc_connect r w = (Inl e, v)" "is_connection_error e" using assms(1) by blast
  obtain v' where v': "rc_sleep r 15 v = (Inr (), v')" using assms(2) by blast
  have "connect_attempts r (Suc n) e0 w = connect_attempts r n e v'"
    using e v' by (simp add: seq_def catch_def andthen_def ret_def)
  then show ?case using Suc.IH [of e v'] e(2) by simp
qed (simp add: throw_def)

lemma lastly_cases:
  "lastly m k w = (Inl e, w') \<longleftrightarrow>
     (\<exists>w1 u. m w = (Inl e, w1) \<and> k w1 = (Inr u, w')) \<or> (\<exists>r w1. m w = (r, w1) \<and> k w1 = (Inl e, w'))"
  by (auto simp: lastly_def Let_def split: prod.splits sum.splits)

lemma truncate_recorded [simp]:
  "sp_expect (spawn.truncate c) = sp_expect c" "sp_expect_exact (spawn.truncate c) = sp_expect_exact c"
  "sp_sendline (spawn.truncate c) = sp_sendline c" "sp_before (spawn.truncate c) = sp_before c"
  by (simp_all add: spawn.truncate_def)

section \<open>Properties\<close>

text \<open>C22: what a command returns is what the device printed for it. Whatever the class of the connection, a
  run that returns has sent the command, seen it echoed and ended by matching the prompt within the given
  timeout, and its value is the text before that prompt without surrounding blanks.\<close>

theorem command_output_at_prompt:
  fixes sp :: "'w spawn"
  assumes "execute_command c sp cmd t w = (Inr out, w')"
  shows "(\<exists>w1. sp_sendline sp cmd w = (Inr (), w1)) \<and>
    (\<exists>w1 w2 i. sp_expect_exact sp [Text cmd] (-1) w1 = (Inr i, w2)) \<and>
    (\<exists>w0 i. sp_expect sp (prompts (cn_prompt c)) t w0 = (Inr i, w')) \<and>
    out = strip whitespace (sp_before sp w') \<and> strip whitespace out = out"
proof -
  have "\<exists>w1. sp_sendline sp cmd w = (Inr (), w1)"
  proof (cases "sp_sendline sp cmd w")
    case (Pair r w1)
    then show ?thesis using conn_shell.send_failure [of sp cmd w _ w1 c t] assms by (cases r) auto
  qed
  then show ?thesis
    using conn_shell.echoed [OF assms] conn_shell.at_prompt_after [OF assms] conn_shell.output_trimmed [OF assms] by blast
qed

definition sample_device :: "nat \<Rightarrow> answers" where
  "sample_device i =
     \<lparr>dv_index = \<lambda>_. Inr i, dv_output = \<lambda>_. Inr [], dv_before = \<lambda>_. '' up  '', dv_after = \<lambda>_. [],
      dv_group = \<lambda>_ _. [], dv_exit = \<lambda>_. 0\<rparr>"

theorem command_output_at_prompt_witness:
  "let sp = spawn.truncate (recorded (sample_device 0)); c = ssh_init ''10.0.0.1'' ''root'' [''#''] ''22'' None;
       w' = [Sent ''ls'', ExpectedExact [Text ''ls''] (-1), Expected [Text [CHR 0x0A]] (-1), Expected [Text ''#''] 30]
   in execute_command c sp ''ls'' 30 [] = (Inr ''up'', w') \<and> ''up'' = strip whitespace (sp_before sp w')"
proof -
  let ?sp = "spawn.truncate (recorded (sample_device 0))" and ?c = "ssh_init ''10.0.0.1'' ''root'' [''#''] ''22'' None"
  let ?w = "[Sent ''ls'', ExpectedExact [Text ''ls''] (-1), Expected [Text [CHR 0x0A]] (-1), Expected [Text ''#''] 30]"
  have s: "strip whitespace '' up  '' = ''up''" by code_simp
  have r: "execute_command ?c ?sp ''ls'' 30 [] = (Inr ''up'', ?w)"
    by (simp add: execute_command_def ssh_execute_def ssh_init_def andthen_def seq_def get_last_output_def reading_def
        sample_device_def prompts_def s)
  show ?thesis using command_output_at_prompt [OF r] r by (simp add: Let_def)
qed

text \<open>a decorated method always leaves the console disconnected. If disconnecting works, then after the
  method has returned, and after it has raised, the console is not connected, and the value or the
  exception is the method's own; only an exception of connecting or of disconnecting can replace it.\<close>

theorem connect_and_run_disconnects:
  assumes "rc_is_connectable r"
    and "\<And>v v' u. rc_disconnect r v = (Inr u, v') \<Longrightarrow> \<not> rc_connected r v'"
    and "connect_and_run r func w = (result, w')"
  shows "(\<exists>w1 w2. func w1 = (result, w2)) \<and> \<not> rc_connected r w' \<or>
    (\<exists>e w1 w2. result = Inl e \<and> (connect_attempts r 10 type_error w1 = (Inl e, w2) \<or> rc_disconnect r w1 = (Inl e, w2)))"
proof -
  let ?first = "if rc_connected r w then ret () else connect_attempts r 10 type_error"
  have run: "andthen ?first (lastly func (disconnect_if r)) w = (result, w')"
    using assms(1,3) by (simp add: connect_and_run_def seq_def reading_def)
  have dis: "rc_disconnect r v = (Inl e, v')" if "disconnect_if r v = (Inl e, v')" for v e v'
    using that by (auto simp: disconnect_if_def when_io_def seq_err reading_def ret_def split: if_splits)
  show ?thesis
  proof (cases result)
    case (Inr x)
    then obtain w1 w2 u where "func w1 = (Inr x, w2)" "disconnect_if r w2 = (Inr u, w')"
      using run by (auto simp: andthen_ok lastly_ok)
    then have "\<not> rc_connected r w'" by (intro disconnect_if_ok [of r w2 u w'] assms(2))
    then show ?thesis using \<open>func w1 = (Inr x, w2)\<close> Inr by blast
  next
    case (Inl e)
    then consider (conn) "?first w = (Inl e, w')"
      | (own) w1 w2 u where "func w1 = (Inl e, w2)" "disconnect_if r w2 = (Inr u, w')"
      | (disc) w1 where "disconnect_if r w1 = (Inl e, w')"
      using run by (auto simp: andthen_err lastly_cases)
    then show ?thesis
    proof cases
      case conn
      then show ?thesis using Inl by (auto simp: ret_def split: if_splits)
    next
      case own
      then have "\<not> rc_connected r w'" by (intro disconnect_if_ok [of r w2 u w'] assms(2))
      then show ?thesis using own(1) Inl by blast
    next
      case (disc w1)
      then show ?thesis using dis Inl by blast
    qed
  qed
qed

definition sample_connectable :: "bool connectable" where
  "sample_connectable =
     \<lparr>rc_is_connectable = True, rc_connected = (\<lambda>b. b), rc_connect = \<lambda>_. (Inr (), True),
      rc_disconnect = \<lambda>_. (Inr (), False), rc_sleep = \<lambda>_ b. (Inr (), b)\<rparr>"

theorem connect_and_run_disconnects_witness:
  "connect_and_run sample_connectable (throw (code_error ''x'') :: (bool, unit) io) False = (Inl (code_error ''x''), False) \<and>
   \<not> rc_connected sample_connectable False"
proof -
  have r: "connect_and_run sample_connectable (throw (code_error ''x'') :: (bool, unit) io) False = (Inl (code_error ''x''), False)"
    by (simp add: connect_and_run_def sample_connectable_def seq_def reading_def andthen_def ret_def lastly_def
        disconnect_if_def when_io_def throw_def catch_def eval_nat_numeral)
  have c: "connect_attempts sample_connectable 10 e v = (Inr (), True)" for e v
    by (simp add: sample_connectable_def seq_def catch_def ret_def eval_nat_numeral)
  from connect_and_run_disconnects [OF _ _ r] show ?thesis using r c
    by (auto simp: sample_connectable_def)
qed

text \<open>the synchronous telnet login accepts less than the asynchronous one: whenever it succeeds, so does
  the other, with the same session after it; but a server whose first recognised line is the second
  greeting is accepted by the asynchronous login and refused by the synchronous one.\<close>

theorem telnet_login_narrower:
  "(telnet_login c sp password w = (Inr (), w') \<longrightarrow> telnet_login_async c sp password w = (Inr (), w')) \<and>
   (\<exists>d. telnet_login_async c (recorded d) None [] = (Inr (), [Expected (telnet_greetings c) 10]) \<and>
        telnet_login c (recorded d) None [] =
          (Inl (connection_error (telnet_failed c)), [Expected (telnet_greetings c) 10]))"
proof
  show "telnet_login c sp password w = (Inr (), w') \<longrightarrow> telnet_login_async c sp password w = (Inr (), w')"
    by (auto simp: telnet_login_def telnet_login_async_def seq_ok fail_if_def split: if_splits)
  show "\<exists>d. telnet_login_async c (recorded d) None [] = (Inr (), [Expected (telnet_greetings c) 10]) \<and>
        telnet_login c (recorded d) None [] =
          (Inl (connection_error (telnet_failed c)), [Expected (telnet_greetings c) 10])"
    by (rule exI [of _ "sample_device 1"])
      (simp add: telnet_login_def telnet_login_async_def seq_def fail_if_def sample_device_def ret_def throw_def)
qed

theorem telnet_login_narrower_witness:
  "telnet_login_async (telnet_init TelnetConnection ''h'' ''23'' [''#'']) (recorded (sample_device 0)) None [] =
   (Inr (), [Expected (telnet_greetings (telnet_init TelnetConnection ''h'' ''23'' [''#''])) 10])"
proof -
  let ?c = "telnet_init TelnetConnection ''h'' ''23'' [''#'']"
  have "telnet_login ?c (recorded (sample_device 0)) None [] = (Inr (), [Expected (telnet_greetings ?c) 10])"
    by (simp add: telnet_login_def seq_def fail_if_def sample_device_def ret_def)
  then show ?thesis using telnet_login_narrower [of ?c "recorded (sample_device 0)" None "[]"] by blast
qed

text \<open>\<^verbatim>\<open>sudo_sendline\<close> of a user other than root sends the password for every answer but the first
  prompt. With one prompt pattern that is right; with a second one, a console already at that prompt gets
  the password as a command.\<close>

theorem sudo_password_sent:
  assumes "cn_username c \<noteq> ''root''" and "cn_password c = Some p" and "p \<noteq> ''sudo true''" and "p \<noteq> ''sudo '' @ cmd"
    and "dv_index d [Sent ''sudo true'', Expected (prompts (cn_prompt c) @ [Text ''password for .*:'', Text ''Password:'']) (-1)] = Inr i"
  shows "Sent p \<in> set (snd (sudo_sendline c (recorded d) cmd [])) \<longleftrightarrow> i \<noteq> 0"
  using assms
  by (auto simp: sudo_sendline_def andthen_def seq_def when_io_def send_password_def at_prompt_def ret_def
      split: sum.splits)

theorem sudo_password_sent_witness:
  "let c = ssh_init ''h'' ''user'' [''#'', ''>''] ''22'' (Some ''secret'')
   in (prompts (cn_prompt c) @ [Text ''password for .*:'', Text ''Password:'']) ! 1 = Text ''>'' \<and>
      Sent ''secret'' \<in> set (snd (sudo_sendline c (recorded (sample_device 1)) ''reboot'' []))"
proof -
  let ?c = "ssh_init ''h'' ''user'' [''#'', ''>''] ''22'' (Some ''secret'')"
  have "Sent ''secret'' \<in> set (snd (sudo_sendline ?c (recorded (sample_device 1)) ''reboot'' [])) \<longleftrightarrow> (1::nat) \<noteq> 0"
    by (rule sudo_password_sent) (simp_all add: ssh_init_def sample_device_def)
  then show ?thesis by (simp add: ssh_init_def prompts_def)
qed

end
