(* ===== verification/Power_Units.thy ===== *)
theory Power_Units
  imports Device_IO
begin

text \<open>
  Switching the power of an outlet (\<^verbatim>\<open>boardfarm3/lib/power.py\<close>, \<^verbatim>\<open>devices/power/net_io.py\<close>,
  \<^verbatim>\<open>devices/power/raritan_pdu.py\<close>). The HTTP client and the SNMP library are parameters: a request gives
  the text of the answer or raises; setting an object gives what went wrong, if anything.
\<close>

section \<open>Units\<close>

datatype pdu = RaritanPDU string string | NetIOPDU string string string

definition two_parts :: "string \<Rightarrow> raised + string \<times> string" where
  "two_parts uri =
     (case split_on (CHR '';'') uri of
        [a, b] \<Rightarrow> Inr (a, b)
      | [a] \<Rightarrow> Inl (value_error ''not enough values to unpack (expected 2, got 1)'')
      | _ \<Rightarrow> Inl (value_error ''too many values to unpack (expected 2)''))"

definition netio_init :: "string \<Rightarrow> raised + pdu" where
  "netio_init uri =
     (case two_parts uri of
        Inl e \<Rightarrow> Inl e
      | Inr (ip_port, outlet) \<Rightarrow>
         (let ip_addr = hd (split_on (CHR '':'') ip_port);
              port = (if CHR '':'' \<in> set ip_port then CHR '':'' # split_on (CHR '':'') ip_port ! 1 else [])
          in Inr (NetIOPDU (''http://'' @ ip_addr @ port @ ''/netio.cgi'') (''output'' @ strip whitespace outlet) ''bigfoot1'')))"

definition raritan_init :: "string \<Rightarrow> raised + pdu" where
  "raritan_init uri =
     (case two_parts uri of
        Inl e \<Rightarrow> Inl e
      | Inr (pdu_ip, outlet_id) \<Rightarrow>
          if CHR '':'' \<in> set pdu_ip
          then Inl (value_error (''RaritanPDU uses snmp, no port in '' @ uri @ '' allowed''))
          else Inr (RaritanPDU pdu_ip outlet_id))"

definition pdu_dict :: "(string \<times> (string \<Rightarrow> raised + pdu)) list" where
  "pdu_dict = [(''px2://'', raritan_init), (''px3://'', raritan_init), (''netio://'', netio_init)]"

fun first_pdu :: "(string \<times> (string \<Rightarrow> raised + pdu)) list \<Rightarrow> string \<Rightarrow> raised + pdu" where
  "first_pdu [] uri = Inl (value_error (''PDU uri: '' @ py_repr uri @ '' not recognised''))"
| "first_pdu ((pdu_name, pdu_type) # ps) uri =
     (if startswith uri pdu_name then pdu_type (py_replace pdu_name [] uri) else first_pdu ps uri)"

definition get_pdu :: "string \<Rightarrow> raised + pdu" where
  "get_pdu uri = first_pdu pdu_dict uri"

section \<open>Switching\<close>

record 'w power_net =
  pn_http :: "string \<Rightarrow> (string \<times> string) list \<Rightarrow> ('w, string) io"
  pn_snmp :: "string \<Rightarrow> string \<Rightarrow> nat \<Rightarrow> ('w, string option \<times> string option) io"

definition netio_perform_get :: "'w power_net \<Rightarrow> string \<Rightarrow> string \<Rightarrow> string \<Rightarrow> string \<Rightarrow> ('w, bool) io" where
  "netio_perform_get net url outlet pass operation =
     seq (pn_http net url [(''pass='', pass), (outlet, operation)]) (\<lambda>text. ret (text = ''OK''))"

definition raritan_perform_snmpset :: "'w power_net \<Rightarrow> string \<Rightarrow> string \<Rightarrow> nat \<Rightarrow> ('w, bool) io" where
  "raritan_perform_snmpset net pdu_ip outlet_id operation_id =
     seq (pn_snmp net pdu_ip (''.1.3.6.1.4.1.13742.6.4.1.2.1.2.1.'' @ outlet_id) operation_id)
       (\<lambda>(error_indication, error_status). ret (error_indication = None \<and> error_status = None))"

definition pdu_operation :: "'w power_net \<Rightarrow> nat \<Rightarrow> pdu \<Rightarrow> ('w, bool) io" where
  "pdu_operation net n p =
     (case p of
        RaritanPDU ip outlet \<Rightarrow> raritan_perform_snmpset net ip outlet n
      | NetIOPDU url outlet pass \<Rightarrow> netio_perform_get net url outlet pass (nat_str n))"

definition power_off :: "'w power_net \<Rightarrow> pdu \<Rightarrow> ('w, bool) io" where
  "power_off net p = pdu_operation net 0 p"

definition power_on :: "'w power_net \<Rightarrow> pdu \<Rightarrow> ('w, bool) io" where
  "power_on net p = pdu_operation net 1 p"

definition power_cycle :: "'w power_net \<Rightarrow> pdu \<Rightarrow> ('w, bool) io" where
  "power_cycle net p = pdu_operation net 2 p"

section \<open>Facts\<close>

lemma py_replace_absent: "(\<And>a b. s \<noteq> a @ old @ b) \<Longrightarrow> py_replace old new s = s"
proof (induction s)
  case (Cons c s)
  have "\<not> startswith (c # s) old" using Cons.prems [of "[]"] by (auto simp: startswith_iff)
  moreover have "s \<noteq> a @ old @ b" for a b using Cons.prems [of "c # a" b] by auto
  ultimately show ?case using Cons.IH by simp
qed simp

lemma py_replace_prefix:
  assumes "old \<noteq> []" and "\<And>a b. s \<noteq> a @ old @ b"
  shows "py_replace old [] (old @ s) = s"
proof -
  obtain c t where o: "old = c # t" using assms(1) by (cases old) auto
  have "py_replace old [] (c # (t @ s)) = py_replace old [] (drop (length old) (c # (t @ s)))"
    using o startswith_append [of old s] by simp
  then show ?thesis using o py_replace_absent [OF assms(2)] by simp
qed

lemma slash_absent: "CHR ''/'' \<in> set old \<Longrightarrow> CHR ''/'' \<notin> set s \<Longrightarrow> s \<noteq> a @ old @ b"
  by auto

lemma split_on_two:
  assumes "c \<notin> set a" and "c \<notin> set b"
  shows "split_on c (a @ c # b) = [a, b]"
proof -
  have one: "split_on c b = [b]" using assms(2) by (induction b) auto
  show ?thesis using assms(1) by (induction a) (auto simp: one)
qed

lemma split_on_one: "c \<notin> set b \<Longrightarrow> split_on c b = [b]"
  by (induction b) auto

section \<open>Properties\<close>

text \<open>what a power URI means. A Netio URI with or without a port gives the unit at that address and
  port and the trimmed outlet; a Raritan URI gives its address and outlet as written, but with a port, as
  in the examples of the documentation, it is refused.\<close>

theorem get_pdu_forms:
  assumes "set ip \<inter> {CHR '';'', CHR '':'', CHR ''/''} = {}" and "set port \<inter> {CHR '';'', CHR '':'', CHR ''/''} = {}"
    and "set outlet \<inter> {CHR '';'', CHR ''/''} = {}"
  shows "get_pdu (''netio://'' @ ip @ '';'' @ outlet) =
           Inr (NetIOPDU (''http://'' @ ip @ ''/netio.cgi'') (''output'' @ strip whitespace outlet) ''bigfoot1'') \<and>
    get_pdu (''netio://'' @ ip @ '':'' @ port @ '';'' @ outlet) =
           Inr (NetIOPDU (''http://'' @ ip @ '':'' @ port @ ''/netio.cgi'') (''output'' @ strip whitespace outlet) ''bigfoot1'') \<and>
    get_pdu (''px2://'' @ ip @ '';'' @ outlet) = Inr (RaritanPDU ip outlet) \<and>
    isl (get_pdu (''px2://'' @ ip @ '':'' @ port @ '';'' @ outlet))"
proof -
  have slash: "CHR ''/'' \<notin> set (ip @ '';'' @ outlet)" "CHR ''/'' \<notin> set (ip @ '':'' @ port @ '';'' @ outlet)"
    using assms by auto
  have r: "py_replace old [] (old @ s) = s" if "CHR ''/'' \<in> set old" "CHR ''/'' \<notin> set s" for old s
    by (rule py_replace_prefix) (use that slash_absent in \<open>auto\<close>)
  have n: "get_pdu (''netio://'' @ s) = netio_init s" and p: "get_pdu (''px2://'' @ s) = raritan_init s"
    if "CHR ''/'' \<notin> set s" for s
    using r [of "''netio://''" s] r [of "''px2://''" s] that by (simp_all add: get_pdu_def pdu_dict_def startswith_def)
  have t1: "two_parts (ip @ '';'' @ outlet) = Inr (ip, outlet)"
    using split_on_two [of "CHR '';''" ip outlet] assms by (auto simp: two_parts_def)
  have t2: "two_parts (ip @ '':'' @ port @ '';'' @ outlet) = Inr (ip @ '':'' @ port, outlet)"
    using split_on_two [of "CHR '';''" "ip @ '':'' @ port" outlet] assms by (auto simp: two_parts_def)
  have s1: "split_on (CHR '':'') ip = [ip]" using assms by (intro split_on_one) auto
  have s2: "split_on (CHR '':'') (ip @ '':'' @ port) = [ip, port]"
    using split_on_two [of "CHR '':''" ip port] assms by auto
  have i: "CHR '':'' \<notin> set ip" using assms by auto
  show ?thesis
    using n [OF slash(1)] n [OF slash(2)] p [OF slash(1)] p [OF slash(2)] i s1 s2
    by (simp add: netio_init_def raritan_init_def t1 [simplified] t2 [simplified])
qed

theorem get_pdu_forms_witness:
  "get_pdu ''netio://10.64.40.34:80; 2'' = Inr (NetIOPDU ''http://10.64.40.34:80/netio.cgi'' ''output2'' ''bigfoot1'') \<and>
   isl (get_pdu ''px2://10.71.10.53:23; 2'')"
proof -
  have "strip whitespace '' 2'' = ''2''" by code_simp
  then show ?thesis using get_pdu_forms [of "''10.64.40.34''" "''80''" "'' 2''"] get_pdu_forms [of "''10.71.10.53''" "''23''" "'' 2''"]
    by simp
qed

end
