(* ===== verification/Net_Text.thy ===== *)
theory Net_Text
  imports Device_IO
begin

text \<open>
  Parsers of command output: iptables (\<^verbatim>\<open>lib/parsers/iptables_parser.py\<close>), netstat
  (\<^verbatim>\<open>lib/parsers/netstat_parser.py\<close>), nslookup (\<^verbatim>\<open>lib/parsers/nslookup_parser.py\<close>), and the regular
  expressions of addresses (\<^verbatim>\<open>lib/regexlib.py\<close>). A pandas table is its list of rows. The messages of the
  errors of netstat parsing are cut short.
\<close>

section \<open>Text\<close>

text \<open>\<^verbatim>\<open>s.split(sep)\<close> for a separator of any positive length, which is also \<^verbatim>\<open>re.split\<close> of a literal.\<close>

function split_text :: "string \<Rightarrow> string \<Rightarrow> string \<Rightarrow> string list" where
  "split_text sep cur [] = [rev cur]"
| "split_text sep cur (c # s) =
     (if sep \<noteq> [] \<and> startswith (c # s) sep then rev cur # split_text sep [] (drop (length sep) (c # s))
      else split_text sep (c # cur) s)"
  by pat_completeness auto

termination
  by (relation "measure (\<lambda>(sep, cur, s). length s)") (auto simp: neq_Nil_conv)

definition split_str :: "string \<Rightarrow> string \<Rightarrow> string list" where
  "split_str sep s = split_text sep [] s"

definition is_alpha :: "char \<Rightarrow> bool" where
  "is_alpha c \<longleftrightarrow> (let n = (of_char c :: nat) in (65 \<le> n \<and> n \<le> 90) \<or> (97 \<le> n \<and> n \<le> 122))"

text \<open>\<^verbatim>\<open>s[:1].isdigit()\<close>; below code point 256 the superscripts count as digits.\<close>

definition starts_digit :: "string \<Rightarrow> bool" where
  "starts_digit s = (case s of [] \<Rightarrow> False | c # t \<Rightarrow> is_digit c \<or> (of_char c :: nat) \<in> {178, 179, 185})"

definition unbound_local :: "string \<Rightarrow> raised" where
  "unbound_local v = py_error PyException ''UnboundLocalError''
     (''cannot access local variable '' @ py_repr v @ '' where it is not associated with a value'')"

definition assertion_error :: "string \<Rightarrow> raised" where
  "assertion_error m = py_error PyException ''AssertionError'' m"

section \<open>iptables\<close>

definition get_headers :: "string \<Rightarrow> raised + string list" where
  "get_headers ip_tables =
     (case filter (\<lambda>line. startswith line ''num'') (splitlines ip_tables) of
        [] \<Rightarrow> Inl (unbound_local ''header'')
      | line # _ \<Rightarrow> Inr (split_ws line))"

text \<open>\<^verbatim>\<open>re.match(r"\s[A-Za-z]", rule)\<close>.\<close>

definition names_chain :: "string \<Rightarrow> bool" where
  "names_chain rule = (case rule of c # d # s \<Rightarrow> is_space c \<and> is_alpha d | _ \<Rightarrow> False)"

definition chain_name :: "string \<Rightarrow> raised + string" where
  "chain_name rule = (case split_on (CHR '' '') rule of _ # name # _ \<Rightarrow> Inr name | _ \<Rightarrow> Inl index_error)"

text \<open>The columns of one rule: header and value by position, \<open>skip\<close> the headers left out.\<close>

fun row_details ::
  "(string \<Rightarrow> bool) \<Rightarrow> string list \<Rightarrow> nat \<Rightarrow> string list \<Rightarrow> (string, string) dict \<Rightarrow> raised + (string, string) dict" where
  "row_details skip [] cnt values d = Inr d"
| "row_details skip (h # hs) cnt values d =
     (if skip h then row_details skip hs (Suc cnt) values d
      else if cnt < length values then row_details skip hs (Suc cnt) values (dict_set h (values ! cnt) d)
      else Inl index_error)"

definition rule_row :: "(string \<Rightarrow> bool) \<Rightarrow> nat \<Rightarrow> string list \<Rightarrow> string \<Rightarrow> raised + (string, string) dict" where
  "rule_row skip width headers rule =
     (let values = split_ws rule
      in case row_details skip (tl headers) 1 values [] of
           Inl e \<Rightarrow> Inl e
         | Inr d \<Rightarrow> Inr (if width < length values then dict_set ''to-target'' (join '' '' (drop width values)) d else d))"

text \<open>The lines of one part of the listing: the chain they name, and their rules.\<close>

fun chain_lines ::
  "(string \<Rightarrow> raised + (string, string) dict) \<Rightarrow> string list \<Rightarrow> string option \<Rightarrow> (string, string) dict list \<Rightarrow>
   raised + string option \<times> (string, string) dict list" where
  "chain_lines row [] key rules = Inr (key, rules)"
| "chain_lines row (rule # rest) key rules =
     (if names_chain rule then
        (case chain_name rule of Inl e \<Rightarrow> Inl e | Inr k \<Rightarrow> chain_lines row rest (Some k) rules)
      else if starts_digit rule then
        (case row rule of Inl e \<Rightarrow> Inl e | Inr d \<Rightarrow> chain_lines row rest key (rules @ [d]))
      else chain_lines row rest key rules)"

text \<open>The key of one part is still set in the next.\<close>

fun all_chains ::
  "(string \<Rightarrow> raised + (string, string) dict) \<Rightarrow> string list \<Rightarrow> string option \<Rightarrow>
   (string, (string, string) dict list) dict \<Rightarrow> raised + (string, (string, string) dict list) dict" where
  "all_chains row [] key table = Inr table"
| "all_chains row (part # parts) key table =
     (case chain_lines row (splitlines part) key [] of
        Inl e \<Rightarrow> Inl e
      | Inr (k, rules) \<Rightarrow>
          all_chains row parts k
            (case k of None \<Rightarrow> table | Some name \<Rightarrow> if name = [] then table else dict_set name rules table))"

definition valid_table :: "(string, 'a) dict \<Rightarrow> raised + (string, 'a) dict" where
  "valid_table t = (if t = [] then Inl (assertion_error (''Invalid table name or Table doesn'' @ [CHR 0x27] @ ''t exist'')) else Inr t)"

definition parse_iptables :: "string \<Rightarrow> raised + (string, (string, string) dict list) dict" where
  "parse_iptables ip_tables =
     (case get_headers ip_tables of
        Inl e \<Rightarrow> Inl e
      | Inr headers \<Rightarrow>
         (case all_chains (rule_row (\<lambda>h. str_in h ''opt'') 10 headers) (split_str ''Chain'' ip_tables) None [] of
            Inl e \<Rightarrow> Inl e
          | Inr t \<Rightarrow> valid_table t))"

definition parse_ip6tables :: "string \<Rightarrow> raised + (string, (string, string) dict list) dict" where
  "parse_ip6tables ip6_tables =
     (case get_headers ip6_tables of
        Inl e \<Rightarrow> Inl e
      | Inr header \<Rightarrow>
          if ''opt'' \<notin> set header then Inl (value_error ''list.remove(x): x not in list'')
          else
            (case all_chains (rule_row (\<lambda>_. False) 9 (remove1 ''opt'' header)) (split_str ''Chain'' ip6_tables) None [] of
               Inl e \<Rightarrow> Inl e
             | Inr t \<Rightarrow> valid_table t))"

text \<open>\<^verbatim>\<open>re.search(r"\((.*?)\)", line)[1]\<close>.\<close>

definition in_parens :: "string \<Rightarrow> raised + string" where
  "in_parens line =
     (case re_search (cats [chr (CHR ''(''), Grp 1 (lazy_star dot), chr (CHR '')'')]) line of
        None \<Rightarrow> Inl type_error
      | Some m \<Rightarrow> Inr (group 1 m))"

fun policies :: "string list \<Rightarrow> (string, string) dict \<Rightarrow> raised + (string, string) dict" where
  "policies [] d = Inr d"
| "policies (p # ps) d =
     (let ls = split_on (CHR 0x0A) (strip whitespace p)
      in if 1 < length ls then
           (case split_ws (hd ls) of
              [] \<Rightarrow> Inl index_error
            | k # _ \<Rightarrow> (case in_parens (hd ls) of Inl e \<Rightarrow> Inl e | Inr v \<Rightarrow> policies ps (dict_set k v d)))
         else policies ps d)"

definition iptables_policy :: "string \<Rightarrow> raised + (string, string) dict" where
  "iptables_policy ip_tables = policies (split_str ''Chain'' ip_tables) []"

section \<open>netstat\<close>

text \<open>\<^verbatim>\<open>BytesIO.readlines\<close>: lines end at line feeds only, and keep them.\<close>

fun raw_lines :: "string \<Rightarrow> string \<Rightarrow> string list" where
  "raw_lines cur [] = (if cur = [] then [] else [rev cur])"
| "raw_lines cur (c # s) = (if c = CHR 0x0A then rev (c # cur) # raw_lines [] s else raw_lines (c # cur) s)"

text \<open>Reading up to the header: the header, if any line was read for it, and the lines after it.\<close>

fun find_header :: "nat \<Rightarrow> string \<Rightarrow> string list \<Rightarrow> string option \<Rightarrow> raised + string option \<times> string list" where
  "find_header 0 value ls header = Inl (value_error ''Invalid netstat output'')"
| "find_header (Suc n) value ls header =
     (if str_in ''Proto'' value then Inr (header, ls)
      else
        (let l = (case ls of [] \<Rightarrow> [] | x # _ \<Rightarrow> x)
         in find_header n (take 5 l) (tl ls) (Some l)))"

definition crlf :: string where
  "crlf = [CHR 0x0D, CHR 0x0A]"

definition netstat_fields :: "string \<Rightarrow> string list" where
  "netstat_fields line =
     map (py_replace crlf []) (filter (\<lambda>w. w \<notin> {'' '', [], crlf}) (split_on (CHR '' '') line))"

definition header_fields :: "string \<Rightarrow> string list" where
  "header_fields header =
     filter (\<lambda>w. \<not> str_in w ''Address'' \<and> \<not> str_in w ''name'')
       (map (py_replace ''-'' [])
         (filter (\<lambda>w. w \<noteq> '' '' \<and> w \<noteq> [] \<and> \<not> str_in w crlf) (split_on (CHR '' '') header)))"

definition column_names :: "string \<Rightarrow> string list" where
  "column_names v =
     (if v = ''Foreign'' then [''ForeignAddress'', ''ForeignPort'']
      else if v = ''Local'' then [''LocalAddress'', ''LocalPort'']
      else if v = ''PID/Program'' then [''PID'', ''Program'']
      else [v])"

text \<open>A name \<^verbatim>\<open>namedtuple\<close> accepts, keywords apart.\<close>

definition is_field_name :: "string \<Rightarrow> bool" where
  "is_field_name v = (case v of [] \<Rightarrow> False | c # s \<Rightarrow> list_all is_word_char v \<and> \<not> is_digit c \<and> c \<noteq> CHR ''_'')"

definition rsplit_colon :: "string \<Rightarrow> string \<times> string" where
  "rsplit_colon s =
     (if CHR '':'' \<in> set s
      then (let n = length (takeWhile (\<lambda>c. c \<noteq> CHR '':'') (rev s))
            in (take (length s - n - 1) s, drop (length s - n) s))
      else (butlast s, s))"

text \<open>
  The value of the column at \<open>idx\<close>, \<open>None\<close> where Python raises; a negative index counts from the end.
\<close>

definition netstat_column :: "string list \<Rightarrow> nat \<Rightarrow> string \<Rightarrow> (string \<times> string) list option" where
  "netstat_column words idx h =
     (let udp = map upper_char (hd words) = ''UDP''
      in if h = ''Local'' \<or> h = ''Foreign'' then
           (if idx < length words
            then (let (a, p) = rsplit_colon (words ! idx) in Some [(h @ ''Address'', a), (h @ ''Port'', p)]) else None)
         else if udp \<and> h = ''State'' then Some [(''State'', [])]
         else if str_in ''PID'' h then
           (let i = (if udp then int idx - 1 else int idx); j = nat (if i < 0 then i + int (length words) else i)
            in if j < length words
               then (case split_on (CHR ''/'') (words ! j) of [pid, prog] \<Rightarrow> Some [(''PID'', pid), (''Program'', prog)] | _ \<Rightarrow> None)
               else None)
         else if idx < length words then Some [(py_replace ''-'' [] h, words ! idx)] else None)"

fun netstat_columns :: "string list \<Rightarrow> nat \<Rightarrow> string list \<Rightarrow> (string, string) dict \<Rightarrow> (string, string) dict option" where
  "netstat_columns words idx [] d = Some d"
| "netstat_columns words idx (h # hs) d =
     (case netstat_column words idx h of
        None \<Rightarrow> None
      | Some kvs \<Rightarrow> netstat_columns words (Suc idx) hs (foldl (\<lambda>d (k, v). dict_set k v d) d kvs))"

definition parse_inet_connection :: "string \<Rightarrow> string \<Rightarrow> raised + string list \<times> (string, string) dict" where
  "parse_inet_connection line header =
     (let words = netstat_fields line; fields1 = header_fields header;
          inet_header = concat (map column_names fields1);
          problem = value_error ''Problem in parsing the output for the line''
      in if \<not> list_all is_field_name inet_header \<or> \<not> distinct inet_header then Inl (value_error ''namedtuple'')
         else if words = [] then Inl type_error
         else
           (case netstat_columns words 0 fields1 [] of
              None \<Rightarrow> Inl problem
            | Some d \<Rightarrow> if set (map fst d) = set inet_header then Inr (inet_header, d) else Inl problem))"

text \<open>\<open>columns\<close> is the header of the last line parsed: without one there is no table.\<close>

fun netstat_lines ::
  "string option \<Rightarrow> string list \<Rightarrow> (string, string) dict list \<Rightarrow> string list option \<Rightarrow>
   (raised + string list \<times> (string, string) dict list)" where
  "netstat_lines header [] rows columns =
     (case columns of None \<Rightarrow> Inl (unbound_local ''inet_header'') | Some cs \<Rightarrow> Inr (cs, rows))"
| "netstat_lines header (line # rest) rows columns =
     (if str_in ''Active UNIX domain sockets'' line then netstat_lines header [] rows columns
      else
        (case header of
           None \<Rightarrow> Inl (unbound_local ''header'')
         | Some h \<Rightarrow>
             (case parse_inet_connection line h of
                Inl e \<Rightarrow> Inl e
              | Inr (cs, row) \<Rightarrow> netstat_lines header rest (rows @ [row]) (Some cs))))"

definition parse_netstat_output :: "string \<Rightarrow> raised + string list \<times> (string, string) dict list" where
  "parse_netstat_output output =
     (let ls = raw_lines [] output; l = (case ls of [] \<Rightarrow> [] | x # _ \<Rightarrow> x)
      in case find_header 20 (take 5 l) (tl ls) None of
           Inl e \<Rightarrow> Inl e
         | Inr (header, rest) \<Rightarrow> netstat_lines header rest [] None)"

section \<open>Addresses\<close>

definition upto_times :: "rx \<Rightarrow> nat \<Rightarrow> rx" where
  "upto_times r n = Rep r 0 (Some n) True"

text \<open>\<^verbatim>\<open>ValidIpv4AddressRegex\<close>.\<close>

definition octet_v4 :: rx where
  "octet_v4 =
     alts [Cat (lit ''25'') (between (CHR ''0'') (CHR ''5'')),
           cats [chr (CHR ''2''), between (CHR ''0'') (CHR ''4''), dgt],
           cats [opt (one_of ''01''), dgt, opt dgt]]"

definition ValidIpv4AddressRegex :: rx where
  "ValidIpv4AddressRegex =
     cats [Grp 1 octet_v4, chr (CHR ''.''), Grp 2 octet_v4, chr (CHR ''.''), Grp 3 octet_v4, chr (CHR ''.''), Grp 4 octet_v4]"

text \<open>\<^verbatim>\<open>AllValidIpv6AddressesRegex\<close>: sixteen bits, thirty-two bits at the end, and the nine forms.\<close>

definition hex16 :: rx where
  "hex16 = Rep (Cls (\<lambda>c. is_digit c \<or> c \<in> set ''abcdefABCDEF'')) 1 (Some 4) True"

definition hex_colon :: rx where
  "hex_colon = Cat hex16 (chr (CHR '':''))"

definition octet_v6 :: rx where
  "octet_v6 =
     Alt (Cat (lit ''25'') (between (CHR ''0'') (CHR ''5'')))
         (Cat (opt (alts [between (CHR ''1'') (CHR ''9''), Cat (chr (CHR ''1'')) dgt,
                          Cat (chr (CHR ''2'')) (between (CHR ''0'') (CHR ''4''))])) dgt)"

definition last32 :: rx where
  "last32 = Alt (cats [hex16, chr (CHR '':''), hex16]) (Cat (times (Cat octet_v6 (chr (CHR ''.''))) 3) octet_v6)"

definition leading :: "nat \<Rightarrow> rx" where
  "leading n = opt (Cat (upto_times hex_colon n) hex16)"

definition AllValidIpv6AddressesRegex :: rx where
  "AllValidIpv6AddressesRegex =
     alts [Cat (times hex_colon 6) last32,
           cats [lit ''::'', times hex_colon 5, last32],
           cats [opt hex16, lit ''::'', times hex_colon 4, last32],
           cats [leading 1, lit ''::'', times hex_colon 3, last32],
           cats [leading 2, lit ''::'', times hex_colon 2, last32],
           cats [leading 3, lit ''::'', hex_colon, last32],
           cats [leading 4, lit ''::'', last32],
           cats [leading 5, lit ''::'', hex16],
           cats [leading 6, lit ''::'']]"

text \<open>\<^verbatim>\<open>LinuxMacFormat\<close>.\<close>

definition hex_pair :: rx where
  "hex_pair = times (Cls (\<lambda>c. is_digit c \<or> c \<in> set ''abcdef'')) 2"

definition LinuxMacFormat :: rx where
  "LinuxMacFormat = Grp 1 (Cat hex_pair (times (Cat (chr (CHR '':'')) hex_pair) 5))"

section \<open>nslookup\<close>

definition alnum_rx :: rx where
  "alnum_rx = Cls (\<lambda>c. is_digit c \<or> is_alpha c)"

definition domain_rx :: rx where
  "domain_rx =
     cats [WordB,
           plus (cats [alnum_rx,
                       opt (Cat (upto_times (Cls (\<lambda>c. is_digit c \<or> is_alpha c \<or> c = CHR ''-'')) 61) alnum_rx),
                       chr (CHR ''.'')]),
           Rep (Cls is_alpha) 2 None True, WordB]"

definition found_text :: "rx \<Rightarrow> string \<Rightarrow> string option" where
  "found_text r s = map_option ma_text (re_search r s)"

text \<open>The server's address found in an earlier block is still bound in a later one.\<close>

definition nslookup_server :: "string \<Rightarrow> string option \<Rightarrow> string option" where
  "nslookup_server block old =
     (case found_text ValidIpv4AddressRegex block of
        Some a \<Rightarrow> Some a
      | None \<Rightarrow> or_else (found_text AllValidIpv6AddressesRegex block) old)"

fun nslookup_blocks ::
  "string list \<Rightarrow> string option \<Rightarrow> (string, json) dict \<Rightarrow> raised + (string, json) dict" where
  "nslookup_blocks [] server d = Inr d"
| "nslookup_blocks (i # rest) server d =
     (if str_in ''Server'' i then
        (case nslookup_server i server of
           None \<Rightarrow> Inl (unbound_local ''matches'')
         | Some a \<Rightarrow> nslookup_blocks rest (Some a) (dict_set ''dns_server'' (JStr a) d))
      else if str_in ''Name'' i then
        (case found_text domain_rx i of
           None \<Rightarrow> Inl type_error
         | Some n \<Rightarrow>
             nslookup_blocks rest server
               (dict_set ''domain_ip_addr''
                 (JList (map JStr (re_findall ValidIpv4AddressRegex i @ re_findall AllValidIpv6AddressesRegex i)))
                 (dict_set ''domain_name'' (JStr n) d)))
      else if str_in ''AAAA'' i then
        (case found_text domain_rx i of
           None \<Rightarrow> Inl type_error
         | Some n \<Rightarrow>
             nslookup_blocks rest server
               (dict_set ''domain_ipv6_addr'' (JList (map JStr (re_findall AllValidIpv6AddressesRegex i)))
                 (dict_set ''domain_name'' (JStr n) d)))
      else nslookup_blocks rest server d)"

definition parse_nslookup_output :: "string \<Rightarrow> raised + (string, json) dict" where
  "parse_nslookup_output response =
     (let val = py_replace [CHR 0x09] '' '' (py_replace [CHR 0x09, CHR 0x09] '' '' response)
      in case nslookup_blocks (split_str (crlf @ crlf) val) None [] of
           Inl e \<Rightarrow> Inl e
         | Inr d \<Rightarrow> if d = [] then Inl (assertion_error (''Error response: '' @ response)) else Inr d)"

section \<open>Facts\<close>

lemma split_text_none:
  "\<not> str_in sep s \<Longrightarrow> split_text sep cur s = [rev cur @ s]"
  by (induction s arbitrary: cur) auto

lemma split_text_piece:
  assumes "sep \<noteq> []" and "\<not> str_in sep b" and "b = [] \<or> last b \<notin> set sep"
  shows "split_text sep cur (b @ sep @ s) = (rev cur @ b) # split_text sep [] s"
  using assms(2,3)
proof (induction b arbitrary: cur)
  case Nil
  obtain c t where sep: "sep = c # t" using assms(1) by (cases sep) auto
  have "split_text sep cur (c # (t @ s)) = rev cur # split_text sep [] (drop (length sep) (c # (t @ s)))"
    using assms(1) sep startswith_append [of sep s] by simp
  then show ?case using sep by simp
next
  case (Cons x b)
  have "\<not> startswith (x # b @ sep @ s) sep"
  proof
    assume a: "startswith (x # b @ sep @ s) sep"
    show False
    proof (cases "length sep \<le> length (x # b)")
      case True
      then have "take (length sep) ((x # b) @ sep @ s) = take (length sep) (x # b)"
        by (simp only: take_append) simp
      then have "startswith (x # b) sep" using a by (simp add: startswith_def)
      then show False using Cons.prems(1) by simp
    next
      case False
      then have "take (length sep) (x # b @ sep @ s) = (x # b) @ take (length sep - length (x # b)) (sep @ s)"
        using take_append [of "length sep" "x # b" "sep @ s"] by simp
      then have "sep = (x # b) @ take (length sep - length (x # b)) (sep @ s)"
        using a unfolding startswith_def by simp
      then have "last (x # b) \<in> set sep" by (metis Un_iff last_in_set list.distinct(1) set_append)
      then show False using Cons.prems(2) by blast
    qed
  qed
  then show ?case using Cons.IH [of "x # cur"] Cons.prems by (auto split: if_splits)
qed

text \<open>A text without a separator spans no part that has it.\<close>

lemma str_in_sep:
  assumes "pat \<noteq> []" and "c \<notin> set pat"
  shows "str_in pat (a @ c # b) \<longleftrightarrow> str_in pat a \<or> str_in pat b"
proof
  assume "str_in pat (a @ c # b)"
  then obtain u w where "a @ c # b = u @ (pat @ w)" by (auto simp: str_in_iff)
  then obtain us where "a = u @ us \<and> us @ c # b = pat @ w \<or> a @ us = u \<and> c # b = us @ (pat @ w)"
    unfolding append_eq_append_conv2 by blast
  then show "str_in pat a \<or> str_in pat b"
  proof
    assume us: "a = u @ us \<and> us @ c # b = pat @ w"
    then obtain vs where "us = pat @ vs \<and> vs @ c # b = w \<or> us @ vs = pat \<and> c # b = vs @ w"
      unfolding append_eq_append_conv2 by blast
    then have "us = pat @ vs \<or> us = pat" using assms(2) by (cases vs) auto
    then have "\<exists>vs. a = u @ pat @ vs" using us by (metis append_Nil2)
    then show ?thesis unfolding str_in_iff by blast
  next
    assume us: "a @ us = u \<and> c # b = us @ (pat @ w)"
    show ?thesis
    proof (cases us)
      case Nil
      then show ?thesis using us assms by (cases pat) auto
    next
      case (Cons d us')
      then have "b = us' @ pat @ w" using us by simp
      then show ?thesis unfolding str_in_iff by blast
    qed
  qed
next
  assume "str_in pat a \<or> str_in pat b"
  then have "\<exists>u w. a @ c # b = u @ pat @ w"
  proof
    assume "str_in pat a"
    then obtain u w where "a = u @ pat @ w" by (auto simp: str_in_iff)
    then have "a @ c # b = u @ pat @ (w @ c # b)" by simp
    then show ?thesis by blast
  next
    assume "str_in pat b"
    then obtain u w where "b = u @ pat @ w" by (auto simp: str_in_iff)
    then have "a @ c # b = (a @ c # u) @ pat @ w" by simp
    then show ?thesis by blast
  qed
  then show "str_in pat (a @ c # b)" unfolding str_in_iff .
qed

lemma lines_from_line:
  "list_all (\<lambda>c. \<not> is_break c) l \<Longrightarrow> lines_from cur (l @ CHR 0x0A # s) = (rev cur @ l) # lines_from [] s"
proof (induction l arbitrary: cur)
  case Nil
  then show ?case by (cases s) (auto simp: is_break_def)
next
  case (Cons c l)
  obtain d t where dt: "l @ CHR 0x0A # s = d # t" by (cases "l @ CHR 0x0A # s") auto
  have "c \<noteq> CHR 0x0D" "\<not> is_break c" using Cons.prems by (auto simp: is_break_def)
  then have "lines_from cur (c # (l @ CHR 0x0A # s)) = lines_from (c # cur) (l @ CHR 0x0A # s)"
    unfolding dt by simp
  then show ?case using Cons by simp
qed

definition unlines :: "string list \<Rightarrow> string" where
  "unlines ls = concat (map (\<lambda>l. l @ [CHR 0x0A]) ls)"

lemma splitlines_unlines:
  "\<forall>l\<in>set ls. list_all (\<lambda>c. \<not> is_break c) l \<Longrightarrow> splitlines (unlines ls) = ls"
  unfolding splitlines_def unlines_def by (induction ls) (auto simp: lines_from_line)

lemma words_from_word: "list_all (\<lambda>c. \<not> is_space c) w \<Longrightarrow> words_from cur (w @ s) = words_from (rev w @ cur) s"
  by (induction w arbitrary: cur) auto

definition good_word :: "string \<Rightarrow> bool" where
  "good_word w \<longleftrightarrow> w \<noteq> [] \<and> list_all (\<lambda>c. \<not> is_space c) w"

text \<open>Cells padded with blanks: at least one after every cell but the last.\<close>

type_synonym cell = "string \<times> nat"

fun padded :: "cell list \<Rightarrow> string" where
  "padded [] = []"
| "padded ((w, n) # cs) = w @ replicate n (CHR '' '') @ padded cs"

definition good_cells :: "cell list \<Rightarrow> bool" where
  "good_cells cs \<longleftrightarrow> (\<forall>c\<in>set cs. good_word (fst c)) \<and> (\<forall>c\<in>set (butlast cs). 0 < snd c)"

lemma good_cells_Cons:
  "good_cells ((w, n) # cs) \<longleftrightarrow> good_word w \<and> (cs \<noteq> [] \<longrightarrow> 0 < n) \<and> good_cells cs"
  by (auto simp: good_cells_def)

lemma words_from_blanks: "words_from [] (replicate n (CHR '' '') @ s) = words_from [] s"
proof -
  have "is_space CHR '' ''" by code_simp
  then show ?thesis by (induction n) auto
qed

lemma split_ws_padded: "good_cells cs \<Longrightarrow> split_ws (padded cs) = map fst cs"
proof (induction cs)
  case (Cons c cs)
  obtain w n where c: "c = (w, n)" by (cases c)
  have g: "w \<noteq> []" "list_all (\<lambda>c. \<not> is_space c) w" "cs \<noteq> [] \<Longrightarrow> 0 < n" "good_cells cs"
    using Cons.prems by (auto simp: c good_cells_Cons good_word_def)
  have sp: "is_space CHR '' ''" by code_simp
  have "words_from (rev w) (replicate n (CHR '' '') @ padded cs) = w # words_from [] (padded cs)"
  proof (cases n)
    case 0
    then show ?thesis using g(1,3) by (cases "cs = []") auto
  next
    case (Suc m)
    then show ?thesis using g(1) sp by (simp add: words_from_blanks)
  qed
  then show ?case using Cons.IH g words_from_word [OF g(2), of "[]"] by (simp add: c split_ws_def)
qed (simp add: split_ws_def)

section \<open>Listings\<close>

text \<open>
  What \<^verbatim>\<open>iptables -nvL --line-number\<close> prints, as a console gives it: for each chain its name and in
  parentheses its policy or the number of its references, the header and the rules, in columns padded
  with blanks; the lines end with \<open>eol\<close>, a blank line separates two chains, and the last line may or
  may not end with \<open>eol\<close>.
\<close>

definition iptables_header :: "string list" where
  "iptables_header = [''num'', ''pkts'', ''bytes'', ''target'', ''prot'', ''opt'', ''in'', ''out'', ''source'', ''destination'']"

type_synonym chain = "string \<times> string \<times> cell list \<times> cell list list"

fun chain_part :: "chain \<Rightarrow> string list" where
  "chain_part (name, info, header, rows) =
     ('' '' @ name @ '' ('' @ info @ '')'') # padded header # map padded rows"

fun listing :: "string \<Rightarrow> nat \<Rightarrow> chain list \<Rightarrow> string" where
  "listing eol n [] = []"
| "listing eol n [c] = ''Chain'' @ join eol (chain_part c) @ concat (replicate n eol)"
| "listing eol n (c # d # cs) = ''Chain'' @ join eol (chain_part c) @ eol @ eol @ listing eol n (d # cs)"

definition is_eol :: "string \<Rightarrow> bool" where
  "is_eol eol \<longleftrightarrow> eol = [CHR 0x0A] \<or> eol = [CHR 0x0D, CHR 0x0A]"

text \<open>The record of a rule: its columns under the header, without \<open>num\<close> and \<open>opt\<close>, and what follows them.\<close>

definition rule_record :: "string list \<Rightarrow> (string, string) dict" where
  "rule_record ws =
     filter (\<lambda>p. fst p \<noteq> ''opt'') (zip (tl iptables_header) (tl ws)) @
     (if 10 < length ws then [(''to-target'', join '' '' (drop 10 ws))] else [])"

fun good_part :: "chain \<Rightarrow> bool" where
  "good_part (name, info, header, rows) \<longleftrightarrow>
     good_word name \<and> list_all (\<lambda>c. \<not> is_break c) info \<and> map fst header = iptables_header \<and> good_cells header \<and>
     (\<forall>r\<in>set rows. 10 \<le> length r \<and> is_digit (hd (fst (hd r))) \<and> good_cells r) \<and>
     (\<forall>l\<in>set (chain_part (name, info, header, rows)). \<not> str_in ''Chain'' l)"

text \<open>Chains with a name the parser recognises.\<close>

definition named :: "chain \<Rightarrow> bool" where
  "named c \<longleftrightarrow> is_alpha (hd (fst c))"

lemma char_of_image:
  fixes N :: "nat set"
  assumes "\<And>n. n \<in> N \<Longrightarrow> n < 256"
  shows "c \<in> char_of ` N \<longleftrightarrow> of_char c \<in> N"
proof
  assume "c \<in> char_of ` N"
  then obtain n where "n \<in> N" "c = char_of n" by blast
  then show "of_char c \<in> N" using assms [of n] by (simp add: of_char_of)
next
  assume "of_char c \<in> N"
  then show "c \<in> char_of ` N" by (metis char_of_char image_eqI)
qed

lemma is_space_code: "is_space c \<longleftrightarrow> (of_char c :: nat) \<in> {9, 10, 11, 12, 13, 28, 29, 30, 31, 32, 133, 160}"
proof -
  have "set whitespace = char_of ` {9, 10, 11, 12, 13, 28, 29, 30, 31, 32, 133, 160::nat}"
    by (simp only: whitespace_def set_map list.set)
  then show ?thesis unfolding is_space_def by (simp only:) (rule char_of_image, auto)
qed

lemma space_break: "is_break c \<Longrightarrow> is_space c"
  by (auto simp: is_break_def is_space_code)

lemma good_word_no_break: "good_word w \<Longrightarrow> list_all (\<lambda>c. \<not> is_break c) w"
  using space_break by (auto simp: good_word_def list_all_iff)

lemma padded_no_break: "good_cells cs \<Longrightarrow> list_all (\<lambda>c. \<not> is_break c) (padded cs)"
proof (induction cs rule: padded.induct)
  case (2 w n cs)
  have "\<not> is_break CHR '' ''" by code_simp
  then show ?case using 2 good_word_no_break by (auto simp: good_cells_Cons list_all_iff)
qed simp

lemma digit_not_space: "is_digit c \<Longrightarrow> \<not> is_space c"
  by (auto simp: is_digit_def Let_def is_space_code)

lemma chain_part_no_break:
  assumes "good_part c" and "l \<in> set (chain_part c)"
  shows "list_all (\<lambda>c. \<not> is_break c) l"
proof -
  obtain name info header rows where c: "c = (name, info, header, rows)" by (cases c) auto
  have lits: "list_all (\<lambda>c. \<not> is_break c) '' (''" "\<not> is_break CHR '' ''" "\<not> is_break CHR '')''" by code_simp+
  have n: "list_all (\<lambda>c. \<not> is_break c) name" "list_all (\<lambda>c. \<not> is_break c) info"
    using assms(1) c good_word_no_break by auto
  from assms(2) c consider "l = '' '' @ name @ '' ('' @ info @ '')''" | "l = padded header"
    | r where "l = padded r" "r \<in> set rows" by auto
  then show ?thesis
    using lits n assms(1) c padded_no_break by cases auto
qed

text \<open>Lines with their ends, one after the other.\<close>

abbreviation ended :: "string \<Rightarrow> string list \<Rightarrow> string" where
  "ended eol ls \<equiv> concat (map (\<lambda>l. l @ eol) ls)"

lemma join_ended: "ls \<noteq> [] \<Longrightarrow> join eol ls @ eol = ended eol ls"
  by (induction ls rule: induct_list012) auto

lemma ended_append: "ls \<noteq> [] \<Longrightarrow> join eol ls @ eol @ s = ended eol ls @ s"
  using join_ended [of ls eol] by (metis append.assoc)

lemma splitlines_ended:
  assumes "is_eol eol" and "\<forall>l\<in>set ls. list_all (\<lambda>c. \<not> is_break c) l"
  shows "splitlines (ended eol ls @ s) = ls @ splitlines s"
  using assms(2)
proof (induction ls)
  case (Cons l ls)
  have l: "lines_from cur (l @ eol @ x) = (rev cur @ l) # lines_from [] x"
    if "list_all (\<lambda>c. \<not> is_break c) l" for cur l x
    using that
  proof (induction l arbitrary: cur)
    case Nil
    have "is_break CHR 0x0A" "is_break CHR 0x0D" by code_simp+
    then show ?case using assms(1) by (cases x) (auto simp: is_eol_def)
  next
    case (Cons c l)
    obtain d y where dy: "l @ eol @ x = d # y" using assms(1) by (cases "l @ eol @ x") (auto simp: is_eol_def)
    have "c \<noteq> CHR 0x0D" "\<not> is_break c" using Cons.prems by (auto simp: is_break_def)
    then have "lines_from cur (c # (l @ eol @ x)) = lines_from (c # cur) (l @ eol @ x)" unfolding dy by simp
    then show ?case using Cons by simp
  qed
  show ?case using Cons l [of l "[]"] by (simp add: splitlines_def)
qed simp

lemma splitlines_one: "l \<noteq> [] \<Longrightarrow> list_all (\<lambda>c. \<not> is_break c) l \<Longrightarrow> splitlines l = [l]"
proof -
  have "lines_from cur l = [rev cur @ l]" if "cur \<noteq> [] \<or> l \<noteq> []" "list_all (\<lambda>c. \<not> is_break c) l" for cur l
    using that
  proof (induction cur l rule: lines_from.induct)
    case (3 cur c d s)
    then have "c \<noteq> CHR 0x0D" by (auto simp: is_break_def)
    then show ?case using 3 by simp
  qed auto
  then show "l \<noteq> [] \<Longrightarrow> list_all (\<lambda>c. \<not> is_break c) l \<Longrightarrow> splitlines l = [l]" by (simp add: splitlines_def)
qed

lemma splitlines_join:
  assumes "is_eol eol" and "\<forall>l\<in>set ls. list_all (\<lambda>c. \<not> is_break c) l" and "ls \<noteq> []" and "last ls \<noteq> []"
  shows "\<exists>m. splitlines (join eol ls @ concat (replicate n eol)) = ls @ replicate m []"
proof (cases n)
  case 0
  obtain ks l where ls: "ls = ks @ [l]" using assms(3) by (cases ls rule: rev_cases) auto
  have "join eol (ks @ [l]) = ended eol ks @ l" by (induction ks rule: induct_list012) auto
  then have "splitlines (join eol ls) = ls"
    using splitlines_ended [OF assms(1), of ks l] splitlines_one [of l] assms(2,4) by (simp add: ls)
  then show ?thesis using 0 by (intro exI [of _ 0]) simp
next
  case (Suc m)
  have "concat (replicate m eol) = ended eol (replicate m [])" by (induction m) auto
  then have "splitlines (join eol ls @ concat (replicate n eol)) =
      splitlines (ended eol ls @ ended eol (replicate m []) @ [])"
    by (simp add: Suc ended_append [OF assms(3)])
  also have "\<dots> = ls @ replicate m []"
    using splitlines_ended [OF assms(1), of ls] splitlines_ended [OF assms(1), of "replicate m []" "[]"] assms(2)
    by (simp add: splitlines_def)
  finally show ?thesis by blast
qed

text \<open>The text between two occurrences of the word Chain.\<close>

abbreviation part_text :: "string \<Rightarrow> nat \<Rightarrow> chain \<Rightarrow> string" where
  "part_text eol n c \<equiv> join eol (chain_part c) @ concat (replicate n eol)"

fun part_texts :: "string \<Rightarrow> nat \<Rightarrow> chain list \<Rightarrow> string list" where
  "part_texts eol n [] = []"
| "part_texts eol n [c] = [part_text eol n c]"
| "part_texts eol n (c # d # cs) = part_text eol 2 c # part_texts eol n (d # cs)"

lemma no_chain_eol:
  assumes "is_eol eol"
  shows "str_in ''Chain'' (a @ eol @ b) \<longleftrightarrow> str_in ''Chain'' a \<or> str_in ''Chain'' b"
proof -
  have s: "str_in ''Chain'' (a @ c # b) \<longleftrightarrow> str_in ''Chain'' a \<or> str_in ''Chain'' b"
    if "c \<in> {CHR 0x0A, CHR 0x0D}" for a b c
    by (rule str_in_sep) (use that in auto)
  have "\<not> str_in ''Chain'' []" by code_simp
  then show ?thesis
    using assms s [of "CHR 0x0A" a b] s [of "CHR 0x0D" a "CHR 0x0A # b"] s [of "CHR 0x0A" "[]" b]
    by (auto simp: is_eol_def simp del: str_in.simps)
qed

lemma part_text_no_chain:
  assumes "is_eol eol" and "good_part c"
  shows "\<not> str_in ''Chain'' (part_text eol n c)"
proof -
  have e: "\<not> str_in ''Chain'' []" by code_simp
  have blank: "\<not> str_in ''Chain'' (concat (replicate n eol))" for n
    using e no_chain_eol [OF assms(1), of "[]"] by (induction n) (simp_all del: str_in.simps)
  have one: "str_in ''Chain'' (w @ concat (replicate n eol)) \<longleftrightarrow> str_in ''Chain'' w" for w
    using blank no_chain_eol [OF assms(1), of w] by (cases n) (simp_all del: str_in.simps)
  have "\<not> str_in ''Chain'' (join eol ls @ concat (replicate n eol))"
    if "\<forall>l\<in>set ls. \<not> str_in ''Chain'' l" for ls
    using that
    by (induction ls rule: induct_list012)
      (simp_all add: blank one no_chain_eol [OF assms(1)] del: str_in.simps)
  moreover have "\<forall>l\<in>set (chain_part c). \<not> str_in ''Chain'' l"
    using assms(2) by (cases c) (auto simp only: good_part.simps)
  ultimately show ?thesis by blast
qed

lemma split_listing:
  assumes "is_eol eol" and "\<forall>c\<in>set cs. good_part c"
  shows "split_str ''Chain'' (listing eol n cs) = [] # part_texts eol n cs"
proof -
  have e: "\<not> str_in ''Chain'' []" by code_simp
  have two: "last (part_text eol 2 c) \<notin> set ''Chain''" for c :: chain
    using assms(1) by (auto simp: is_eol_def numeral_2_eq_2)
  have piece: "split_text ''Chain'' [] (part_text eol 2 c @ ''Chain'' @ s) = part_text eol 2 c # split_text ''Chain'' [] s"
    if "good_part c" for c s
    using split_text_piece [of "''Chain''" "part_text eol 2 c" "[]" s] part_text_no_chain [OF assms(1) that, of 2] two [of c]
    by simp
  have rest: "split_text ''Chain'' [] (''Chain'' @ s) = [] # split_text ''Chain'' [] s" for s
    using split_text_piece [of "''Chain''" "[]" "[]" s] e by simp
  have body: "listing eol n (c # cs) = ''Chain'' @ drop 5 (listing eol n (c # cs)) \<and>
      split_text ''Chain'' [] (drop 5 (listing eol n (c # cs))) = part_texts eol n (c # cs)"
    if "\<forall>d\<in>set (c # cs). good_part d" for c cs
    using that
  proof (induction cs arbitrary: c)
    case Nil
    then show ?case
      using split_text_none [OF part_text_no_chain [OF assms(1), of c n], of "[]"] by simp
  next
    case (Cons d cs)
    have l: "drop 5 (listing eol n (c # d # cs)) = part_text eol 2 c @ ''Chain'' @ drop 5 (listing eol n (d # cs))"
      using Cons.IH [of d] Cons.prems by (simp add: numeral_2_eq_2)
    have g: "good_part c" "\<forall>e\<in>set (d # cs). good_part e" using Cons.prems by simp_all
    show ?case
    proof (intro conjI)
      show "listing eol n (c # d # cs) = ''Chain'' @ drop 5 (listing eol n (c # d # cs))" by simp
      show "split_text ''Chain'' [] (drop 5 (listing eol n (c # d # cs))) = part_texts eol n (c # d # cs)"
        unfolding l piece [OF g(1)] Cons.IH [OF g(2), THEN conjunct2] part_texts.simps ..
    qed
  qed
  show ?thesis
  proof (cases cs)
    case Nil
    then show ?thesis by (simp add: split_str_def)
  next
    case (Cons c cs')
    then show ?thesis using body [of c cs'] rest assms(2) unfolding split_str_def by metis
  qed
qed

lemma row_details_zip:
  "cnt + length hs \<le> length values \<Longrightarrow> distinct hs \<Longrightarrow> fst ` set d \<inter> set hs = {} \<Longrightarrow>
   row_details skip hs cnt values d = Inr (d @ filter (\<lambda>p. \<not> skip (fst p)) (zip hs (drop cnt values)))"
proof (induction hs arbitrary: cnt d)
  case (Cons h hs)
  have z: "zip (h # hs) (drop cnt values) = (h, values ! cnt) # zip hs (drop (Suc cnt) values)"
    using Cons.prems(1) by (simp add: Cons_nth_drop_Suc [symmetric])
  have "dict_set h x d = d @ [(h, x)]" for x
    using Cons.prems(3) by (intro dict_set_fresh) (auto simp: dict_mem_def map_of_eq_None_iff)
  then show ?case using Cons.prems Cons.IH [of "Suc cnt" d] Cons.IH [of "Suc cnt" "d @ [(h, values ! cnt)]"]
    by (auto simp: z)
qed simp

lemma header_columns:
  "filter (\<lambda>p. \<not> str_in (fst p) ''opt'') (zip (tl iptables_header) vs) = filter (\<lambda>p. fst p \<noteq> ''opt'') (zip (tl iptables_header) vs)"
proof (rule filter_cong [OF refl])
  fix p :: "string \<times> 'a" assume "p \<in> set (zip (tl iptables_header) vs)"
  then have "fst p \<in> set (tl iptables_header)" by (metis in_set_zipE prod.collapse)
  moreover have "\<forall>h\<in>set (tl iptables_header). (\<not> str_in h ''opt'') = (h \<noteq> ''opt'')" by code_simp
  ultimately show "(\<not> str_in (fst p) ''opt'') = (fst p \<noteq> ''opt'')" by blast
qed

lemma rule_row_record:
  assumes "10 \<le> length r" and "good_cells r"
  shows "rule_row (\<lambda>h. str_in h ''opt'') 10 iptables_header (padded r) = Inr (rule_record (map fst r))"
proof -
  define ws where "ws = map fst r"
  let ?d = "filter (\<lambda>p. fst p \<noteq> ''opt'') (zip (tl iptables_header) (tl ws))"
  have h: "length (tl iptables_header) = 9" "distinct (tl iptables_header)" "''to-target'' \<notin> set (tl iptables_header)"
    by code_simp+
  have "drop 1 ws = tl ws" by (simp add: drop_Suc)
  then have d: "row_details (\<lambda>h. str_in h ''opt'') (tl iptables_header) 1 ws [] = Inr ?d"
    using row_details_zip [of 1 "tl iptables_header" ws "[]" "\<lambda>h. str_in h ''opt''"] assms(1) h(1,2) header_columns [of "tl ws"]
    by (simp add: ws_def del: str_in.simps)
  have "''to-target'' \<notin> fst ` set ?d" using h(3) by (auto dest: set_zip_leftD)
  then have t: "dict_set ''to-target'' x ?d = ?d @ [(''to-target'', x)]" for x
    by (intro dict_set_fresh) (simp add: dict_mem_def map_of_eq_None_iff)
  have s: "split_ws (padded r) = ws" by (simp add: split_ws_padded [OF assms(2)] ws_def)
  show ?thesis
    unfolding rule_row_def s ws_def [symmetric] rule_record_def Let_def d by (simp add: t)
qed

lemma padded_first: "good_cells cs \<Longrightarrow> cs \<noteq> [] \<Longrightarrow> \<exists>s. padded cs = hd (fst (hd cs)) # s"
  by (cases cs rule: padded.cases) (auto simp: good_cells_Cons good_word_def neq_Nil_conv)

lemma chain_lines_rows:
  assumes "\<forall>r\<in>set rows. 10 \<le> length r \<and> is_digit (hd (fst (hd r))) \<and> good_cells r"
  shows "chain_lines (rule_row (\<lambda>h. str_in h ''opt'') 10 iptables_header) (map padded rows) key acc =
    Inr (key, acc @ map (\<lambda>r. rule_record (map fst r)) rows)"
  using assms
proof (induction rows arbitrary: acc)
  case (Cons r rows)
  have "r \<noteq> []" using Cons.prems by auto
  then obtain s where line: "padded r = hd (fst (hd r)) # s" "is_digit (hd (fst (hd r)))"
    using padded_first [of r] Cons.prems by auto
  have "rule_row (\<lambda>h. str_in h ''opt'') 10 iptables_header (padded r) = Inr (rule_record (map fst r))"
    using rule_row_record [of r] Cons.prems by simp
  moreover have "\<not> names_chain (padded r)"
    using digit_not_space [OF line(2)] by (simp add: names_chain_def line(1) split: list.splits)
  moreover have "starts_digit (padded r)" using line(2) by (simp add: starts_digit_def line(1))
  ultimately show ?case using Cons by simp
qed simp

lemma chain_lines_blank: "chain_lines row (ls @ replicate m []) key acc = chain_lines row ls key acc"
proof (induction row ls key acc rule: chain_lines.induct)
  case (1 row key rules)
  show ?case by (induction m) (simp_all add: names_chain_def starts_digit_def)
qed (auto split: sum.splits)

lemma chain_part_last: "good_part c \<Longrightarrow> chain_part c \<noteq> [] \<and> last (chain_part c) \<noteq> []"
proof (cases c)
  case (fields name info header rows)
  assume g: "good_part c"
  have "header \<noteq> []" using g by (auto simp: fields iptables_header_def)
  then have h: "padded header \<noteq> []" using g padded_first [of header] by (auto simp: fields)
  have r: "padded r \<noteq> []" if "r \<in> set rows" for r
    using that g padded_first [of r] by (force simp: fields)
  show ?thesis using h r by (simp add: fields last_map)
qed

lemma part_text_lines:
  assumes "is_eol eol" and "good_part c"
  shows "\<exists>m. splitlines (part_text eol n c) = chain_part c @ replicate m []"
  using splitlines_join [OF assms(1), of "chain_part c" n] chain_part_no_break [OF assms(2)] chain_part_last [OF assms(2)]
  by blast

lemma chain_lines_part:
  assumes "is_eol eol" and "good_part (name, info, header, rows)"
  shows "chain_lines (rule_row (\<lambda>h. str_in h ''opt'') 10 iptables_header)
    (splitlines (part_text eol n (name, info, header, rows))) key [] =
    Inr (if is_alpha (hd name) then Some name else key, map (\<lambda>r. rule_record (map fst r)) rows)"
proof -
  obtain m where lines: "splitlines (part_text eol n (name, info, header, rows)) =
      chain_part (name, info, header, rows) @ replicate m []"
    using part_text_lines [OF assms] by blast
  obtain c s where name: "name = c # s" using assms(2) by (cases name) (auto simp: good_word_def)
  have sp: "is_space CHR '' ''" by code_simp
  have nosp: "CHR '' '' \<notin> set name" using assms(2) sp by (auto simp: good_word_def list_all_iff)
  have split: "split_on (CHR '' '') (a @ CHR '' '' # b) = a # split_on (CHR '' '') b" if "CHR '' '' \<notin> set a" for a b
    using that by (induction a) auto
  have n: "names_chain ('' '' @ name @ '' ('' @ info @ '')'') = is_alpha (hd name)"
    using name sp by (simp add: names_chain_def)
  have d: "\<not> starts_digit ('' '' @ name @ '' ('' @ info @ '')'')" by (simp add: starts_digit_def is_digit_def)
  have k: "chain_name ('' '' @ name @ '' ('' @ info @ '')'') = Inr name"
    using split [of "[]"] split [OF nosp] by (simp add: chain_name_def split: list.splits)
  have "map fst header = iptables_header" "good_cells header" using assms(2) by simp_all
  then obtain x where hx: "padded header = CHR ''n'' # x"
    using padded_first [of header] by (cases header) (auto simp: iptables_header_def)
  have "\<not> is_space CHR ''n''" by code_simp
  then have h: "\<not> names_chain (padded header)" "\<not> starts_digit (padded header)"
    by (simp_all add: hx names_chain_def starts_digit_def is_digit_def split: list.splits)
  have rows: "\<forall>r\<in>set rows. 10 \<le> length r \<and> is_digit (hd (fst (hd r))) \<and> good_cells r" using assms(2) by simp
  show ?thesis
    unfolding lines chain_lines_blank using n d k h chain_lines_rows [OF rows] by simp
qed

fun chain_rules :: "chain \<Rightarrow> string \<times> (string, string) dict list" where
  "chain_rules (name, info, header, rows) = (name, map (\<lambda>r. rule_record (map fst r)) rows)"

lemma all_chains_named:
  assumes "is_eol eol" and "\<forall>c\<in>set cs. good_part c \<and> named c" and "distinct (map fst cs)"
    and "fst ` set table \<inter> fst ` set cs = {}"
  shows "all_chains (rule_row (\<lambda>h. str_in h ''opt'') 10 iptables_header) (part_texts eol n cs) key table =
    Inr (table @ map chain_rules cs)"
  using assms(2-)
proof (induction cs arbitrary: key table)
  case (Cons c cs)
  obtain name info header rows where c: "c = (name, info, header, rows)" by (cases c) auto
  have g: "good_part (name, info, header, rows)" "is_alpha (hd name)" "name \<noteq> []"
    using Cons.prems(1) c by (auto simp: named_def good_word_def)
  have "dict_set name x table = table @ [(name, x)]" for x
    using Cons.prems(3) c by (intro dict_set_fresh) (auto simp: dict_mem_def map_of_eq_None_iff)
  moreover have "fst ` set (table @ [(name, x)]) \<inter> fst ` set cs = {}" for x
    using Cons.prems(2,3) c by auto
  moreover obtain k where "part_texts eol n (c # cs) = part_text eol k c # part_texts eol n cs" by (cases cs) auto
  ultimately show ?case
    using Cons.IH [of "table @ [(name, map (\<lambda>r. rule_record (map fst r)) rows)]" "Some name"] Cons.prems(1,2) c g(2,3)
      chain_lines_part [OF assms(1) g(1), of k key] by (simp del: chain_part.simps)
qed simp

lemma headers_of_listing:
  assumes "is_eol eol" and "good_part c"
  shows "get_headers (listing eol n (c # cs)) = Inr iptables_header"
proof -
  obtain name info header rows where c: "c = (name, info, header, rows)" by (cases c) auto
  let ?first = "'' '' @ name @ '' ('' @ info @ '')''"
  let ?ls = "(''Chain'' @ ?first) # padded header # map padded rows"
  have ch: "list_all (\<lambda>c. \<not> is_break c) ''Chain''" by code_simp
  have part: "chain_part c = ?first # padded header # map padded rows" by (simp add: c)
  note nb = chain_part_no_break [OF assms(2), unfolded part]
  have lines: "\<forall>l\<in>set ?ls. list_all (\<lambda>c. \<not> is_break c) l"
  proof
    fix l assume "l \<in> set ?ls"
    then consider "l = ''Chain'' @ ?first" | "l \<in> set (padded header # map padded rows)" by (metis set_ConsD)
    then show "list_all (\<lambda>c. \<not> is_break c) l"
      using ch nb [of ?first] nb [of l] by cases (simp_all only: list_all_append list.set_intros simp_thms)
  qed
  have join: "''Chain'' @ join eol (chain_part c) = join eol ?ls" by (simp add: part)
  have last: "last ?ls \<noteq> []" using chain_part_last [OF assms(2)] unfolding part by simp
  have "\<exists>zs. splitlines (listing eol n (c # cs)) = ?ls @ zs"
  proof (cases cs)
    case Nil
    then have "listing eol n (c # cs) = join eol ?ls @ concat (replicate n eol)"
      using join by (simp del: chain_part.simps)
    then show ?thesis using splitlines_join [OF assms(1) lines _ last, of n] by auto
  next
    case (Cons d cs')
    have "listing eol n (c # cs) = join eol ?ls @ eol @ (eol @ listing eol n (d # cs'))"
      using join Cons by (simp del: chain_part.simps listing.simps(2) add: listing.simps(3))
    also have "\<dots> = ended eol ?ls @ (eol @ listing eol n (d # cs'))" by (rule ended_append) simp
    finally show ?thesis using splitlines_ended [OF assms(1) lines] by metis
  qed
  then obtain zs where l: "splitlines (listing eol n (c # cs)) = ?ls @ zs" by blast
  have h: "map fst header = iptables_header" "good_cells header" using assms(2) c by simp_all
  then obtain k hs where "header = (''num'', k) # hs" by (cases header) (auto simp: iptables_header_def)
  then have "startswith (padded header) ''num''" by (simp add: startswith_def)
  moreover have "\<not> startswith (''Chain'' @ x) ''num''" for x by (simp add: startswith_def)
  ultimately show ?thesis
    using split_ws_padded [OF h(2)] h(1) unfolding get_headers_def l by simp
qed

section \<open>Properties\<close>

text \<open>C21: parsing undoes printing. Take any chains with distinct names that start with a letter, whose rules
  fill all ten columns (so they have a target) and may have further text, and in whose lines the word
  Chain does not occur. Of their listing, with columns padded in any way, blank lines between the chains
  and either kind of line end, the parser returns exactly those chains in order, each with its rules in
  order, and of each rule every column under its header except \<open>num\<close> and \<open>opt\<close>, and the words
  after the columns as \<open>to-target\<close>.\<close>

theorem iptables_roundtrip:
  assumes "is_eol eol" and "cs \<noteq> []" and "\<forall>c\<in>set cs. good_part c \<and> named c" and "distinct (map fst cs)"
  shows "parse_iptables (listing eol n cs) = Inr (map chain_rules cs)"
proof -
  obtain c cs' where cs: "cs = c # cs'" using assms(2) by (cases cs) auto
  have h: "get_headers (listing eol n cs) = Inr iptables_header"
    using headers_of_listing [OF assms(1), of c n cs'] assms(3) cs by simp
  have s: "split_str ''Chain'' (listing eol n cs) = [] # part_texts eol n cs"
    using assms(3) by (intro split_listing [OF assms(1)]) blast
  have a: "all_chains (rule_row (\<lambda>h. str_in h ''opt'') 10 iptables_header) ([] # part_texts eol n cs) None [] =
      Inr (map chain_rules cs)"
    using all_chains_named [OF assms(1,3,4), of "[]" n None] by (simp add: splitlines_def)
  show ?thesis by (simp only: parse_iptables_def h s sum.case a) (simp add: valid_table_def cs)
qed

text \<open>A header and a rule as iptables lays them out.\<close>

definition sample_header :: "cell list" where
  "sample_header = zip iptables_header [3, 1, 1, 5, 1, 1, 5, 4, 15, 9]"

definition sample_row :: "string \<Rightarrow> cell list" where
  "sample_row port =
     [(''1'', 8), (''0'', 5), (''0'', 1), (''DROP'', 7), (''tcp'', 2), (''--'', 2), (''*'', 6), (''*'', 7), (''0.0.0.0/0'', 12),
      (''0.0.0.0/0'', 12), (''tcp'', 1), (''dpt:'' @ port, 0)]"

definition crlf_eol :: string where
  "crlf_eol = [CHR 0x0D, CHR 0x0A]"

theorem iptables_roundtrip_witness:
  "parse_iptables (listing crlf_eol 0
     [(''INPUT'', ''policy ACCEPT 0 packets, 0 bytes'', sample_header, [sample_row ''22'']),
      (''docker0'', ''1 references'', sample_header, [])]) =
   Inr [(''INPUT'', [rule_record (map fst (sample_row ''22''))]), (''docker0'', [])]"
proof -
  have g: "good_part (''INPUT'', ''policy ACCEPT 0 packets, 0 bytes'', sample_header, [sample_row ''22''])"
    "good_part (''docker0'', ''1 references'', sample_header, [])"
    "named (''INPUT'', ''policy ACCEPT 0 packets, 0 bytes'', sample_header, [sample_row ''22''])"
    "named (''docker0'', ''1 references'', sample_header, [])" "is_eol crlf_eol"
    by code_simp+
  show ?thesis
    using iptables_roundtrip [OF g(5), of "[(''INPUT'', ''policy ACCEPT 0 packets, 0 bytes'', sample_header, [sample_row ''22'']),
        (''docker0'', ''1 references'', sample_header, [])]" 0] g(1-4)
    by (simp del: good_part.simps listing.simps)
qed

text \<open>a chain whose name does not start with a letter is not recognised, and its rules replace those of
  the chain listed before it: the rules of that chain are lost.\<close>

theorem iptables_chain_lost:
  assumes "is_eol eol" and "good_part (name, info, header, rows)" and "named (name, info, header, rows)"
    and "good_part (name', info', header', rows')" and "\<not> named (name', info', header', rows')"
  shows "parse_iptables (listing eol n [(name, info, header, rows), (name', info', header', rows')]) =
    Inr [(name, map (\<lambda>r. rule_record (map fst r)) rows')]"
proof -
  let ?c = "(name, info, header, rows)" and ?d = "(name', info', header', rows')"
  let ?row = "rule_row (\<lambda>h. str_in h ''opt'') 10 iptables_header"
  have h: "get_headers (listing eol n [?c, ?d]) = Inr iptables_header" using headers_of_listing [OF assms(1,2)] .
  have s: "split_str ''Chain'' (listing eol n [?c, ?d]) = [] # part_texts eol n [?c, ?d]"
    using assms by (intro split_listing) simp_all
  have "name \<noteq> []" using assms(2) by (simp add: good_word_def)
  then have a: "all_chains ?row ([] # part_texts eol n [?c, ?d]) None [] =
      Inr [(name, map (\<lambda>r. rule_record (map fst r)) rows')]"
    using chain_lines_part [OF assms(1,2), of 2 None] chain_lines_part [OF assms(1,4), of n "Some name"] assms(3,5)
    by (simp add: splitlines_def [of "[]"] named_def del: chain_part.simps)
  show ?thesis by (simp only: parse_iptables_def h s sum.case a) (simp add: valid_table_def)
qed

theorem iptables_chain_lost_witness:
  "parse_iptables (listing crlf_eol 1
     [(''FORWARD'', ''policy ACCEPT'', sample_header, [sample_row ''22'']), (''_guest'', ''1 references'', sample_header, [])]) =
   Inr [(''FORWARD'', [])]"
proof -
  have g: "good_part (''FORWARD'', ''policy ACCEPT'', sample_header, [sample_row ''22''])"
    "good_part (''_guest'', ''1 references'', sample_header, [])"
    "named (''FORWARD'', ''policy ACCEPT'', sample_header, [sample_row ''22''])"
    "\<not> named (''_guest'', ''1 references'', sample_header, [])" "is_eol crlf_eol"
    by code_simp+
  from iptables_chain_lost [OF g(5,1,3,2,4), of 1] show ?thesis by (simp only: list.map)
qed

end
