(* ===== verification/IP_Address.thy ===== *)
theory IP_Address
  imports Device_IO
begin

text \<open>
  Addresses as \<^verbatim>\<open>ipaddress\<close> of the standard library reads and prints them: an address is a number. Its
  registry of special networks (\<^verbatim>\<open>is_global\<close> and the like) is a parameter where it is used.
\<close>

section \<open>Version 4\<close>

definition octet :: "string \<Rightarrow> nat option" where
  "octet s =
     (if s \<noteq> [] \<and> list_all is_digit s \<and> length s \<le> 3 \<and> (length s = 1 \<or> hd s \<noteq> CHR ''0'') \<and> digits_val 0 s \<le> 255
      then Some (digits_val 0 s) else None)"

definition parse_ipv4 :: "string \<Rightarrow> int option" where
  "parse_ipv4 s =
     (case map octet (split_on (CHR ''.'') s) of
        [Some a, Some b, Some c, Some d] \<Rightarrow> Some (((int a * 256 + int b) * 256 + int c) * 256 + int d)
      | _ \<Rightarrow> None)"

definition show_ipv4 :: "int \<Rightarrow> string" where
  "show_ipv4 n =
     join ''.'' [int_str (n div 16777216), int_str (n div 65536 mod 256), int_str (n div 256 mod 256), int_str (n mod 256)]"

section \<open>Version 6\<close>

definition hex_value :: "char \<Rightarrow> int option" where
  "hex_value c =
     (let n = (of_char c :: int)
      in if 48 \<le> n \<and> n \<le> 57 then Some (n - 48)
         else if 97 \<le> n \<and> n \<le> 102 then Some (n - 87)
         else if 65 \<le> n \<and> n \<le> 70 then Some (n - 55)
         else None)"

fun hex_number :: "int \<Rightarrow> string \<Rightarrow> int option" where
  "hex_number acc [] = Some acc"
| "hex_number acc (c # s) = (case hex_value c of None \<Rightarrow> None | Some v \<Rightarrow> hex_number (acc * 16 + v) s)"

definition hextet :: "string \<Rightarrow> int option" where
  "hextet s = (if s = [] \<or> 4 < length s then None else hex_number 0 s)"

fun hextets :: "int \<Rightarrow> string list \<Rightarrow> int option" where
  "hextets acc [] = Some acc"
| "hextets acc (s # ss) = (case hextet s of None \<Rightarrow> None | Some v \<Rightarrow> hextets (acc * 65536 + v) ss)"

function hex_text :: "int \<Rightarrow> string" where
  "hex_text n = (if n < 16 then [hex_digit (nat n)] else hex_text (n div 16) @ [hex_digit (nat (n mod 16))])"
  by pat_completeness auto

termination
  by (relation "measure nat") auto

declare hex_text.simps [simp del]

text \<open>The last part may be an address of version 4, which stands for two parts.\<close>

definition expand_v4 :: "string list \<Rightarrow> string list option" where
  "expand_v4 parts =
     (if CHR ''.'' \<in> set (last parts) then
        (case parse_ipv4 (last parts) of
           None \<Rightarrow> None
         | Some n \<Rightarrow> Some (butlast parts @ [hex_text (n div 65536 mod 65536), hex_text (n mod 65536)]))
      else Some parts)"

text \<open>The parts before and after a double colon, an empty part at either end belonging to it.\<close>

definition parse_parts :: "string list \<Rightarrow> int option" where
  "parse_parts parts =
     (let inner = filter (\<lambda>i. parts ! i = []) [1..<length parts - 1]
      in case inner of
           [] \<Rightarrow> if length parts = 8 then hextets 0 parts else None
         | [i] \<Rightarrow>
             (let hi = take i parts; lo = drop (Suc i) parts;
                  hi' = (if hd parts = [] then tl hi else hi); lo' = (if last parts = [] then butlast lo else lo)
              in if hd parts = [] \<and> hi' \<noteq> [] \<or> last parts = [] \<and> lo' \<noteq> [] \<or> 7 < length hi' + length lo' then None
                 else case hextets 0 hi' of
                        None \<Rightarrow> None
                      | Some h \<Rightarrow> hextets (h * 65536 ^ (8 - (length hi' + length lo'))) lo')
         | _ \<Rightarrow> None)"

definition parse_ipv6 :: "string \<Rightarrow> int option" where
  "parse_ipv6 s =
     (let addr = before_first (CHR ''%'') s;
          scope = (if CHR ''%'' \<in> set s then Some (after_first (CHR ''%'') s) else None);
          parts = split_on (CHR '':'') addr
      in if CHR ''/'' \<in> set s \<or> addr = [] \<or> length parts < 3
           \<or> (case scope of None \<Rightarrow> False | Some sc \<Rightarrow> sc = [] \<or> CHR ''%'' \<in> set sc) then None
         else case expand_v4 parts of
                None \<Rightarrow> None
              | Some ps \<Rightarrow> if 9 < length ps then None else parse_parts ps)"

text \<open>\<^verbatim>\<open>str(address)\<close>: the first longest run of at least two zero parts becomes a double colon.\<close>

fun zero_run :: "int list \<Rightarrow> nat" where
  "zero_run [] = 0"
| "zero_run (h # hs) = (if h = 0 then Suc (zero_run hs) else 0)"

definition parts_of :: "int \<Rightarrow> int list" where
  "parts_of n = map (\<lambda>i. n div 65536 ^ (7 - i) mod 65536) [0..<8]"

definition longest_run :: "int list \<Rightarrow> nat \<times> nat" where
  "longest_run hs =
     foldl (\<lambda>(start, len) i. let r = zero_run (drop i hs) in if len < r then (i, r) else (start, len)) (0, 0) [0..<length hs]"

definition show_ipv6 :: "int \<Rightarrow> string" where
  "show_ipv6 n =
     (let hs = parts_of n; (start, len) = longest_run hs; show_parts = (\<lambda>xs. join '':'' (map hex_text xs))
      in if len < 2 then show_parts hs
         else show_parts (take start hs) @ ''::'' @ show_parts (drop (start + len) hs))"

text \<open>\<^verbatim>\<open>ip_address(s)\<close>: the version of the address, or \<^verbatim>\<open>ValueError\<close>.\<close>

datatype address = V4 int | V6 int

definition ip_address :: "string \<Rightarrow> raised + address" where
  "ip_address s =
     (case parse_ipv4 s of
        Some n \<Rightarrow> Inr (V4 n)
      | None \<Rightarrow>
         (case parse_ipv6 s of
            Some n \<Rightarrow> Inr (V6 n)
          | None \<Rightarrow> Inl (value_error (py_repr s @ '' does not appear to be an IPv4 or IPv6 address''))))"

definition MAX_ADDR6 :: int where
  "MAX_ADDR6 = 2 ^ 128 - 1"

definition MAX_ADDR4 :: int where
  "MAX_ADDR4 = 2 ^ 32 - 1"

text \<open>\<^verbatim>\<open>address + n\<close>, and \<^verbatim>\<open>str\<close>.\<close>

definition addr_add :: "address \<Rightarrow> int \<Rightarrow> raised + address" where
  "addr_add a k =
     (case a of
        V4 n \<Rightarrow> if n + k \<le> MAX_ADDR4 then Inr (V4 (n + k)) else Inl (py_error PyValueError ''AddressValueError'' [])
      | V6 n \<Rightarrow> if n + k \<le> MAX_ADDR6 then Inr (V6 (n + k)) else Inl (py_error PyValueError ''AddressValueError'' []))"

definition addr_str :: "address \<Rightarrow> string" where
  "addr_str a = (case a of V4 n \<Rightarrow> show_ipv4 n | V6 n \<Rightarrow> show_ipv6 n)"

section \<open>Facts\<close>

lemma nat_str_ne: "nat_str n \<noteq> []"
  by (subst nat_str.simps) simp

lemma nat_str_hd: "0 < n \<Longrightarrow> hd (nat_str n) \<noteq> CHR ''0''"
proof (induction n rule: nat_str.induct)
  case (1 n)
  show ?case
  proof (cases "n < 10")
    case True
    have "(of_char (char_of (48 + n) :: char) :: nat) = 48 + n" using True by (simp add: of_char_of)
    moreover have "(of_char CHR ''0'' :: nat) = 48" by simp
    ultimately have "char_of (48 + n) \<noteq> CHR ''0''" using 1(2) by (metis add_cancel_right_right not_less0)
    then show ?thesis using True by (subst nat_str.simps) simp
  next
    case False
    then show ?thesis using 1 nat_str_ne [of "n div 10"] by (subst nat_str.simps) auto
  qed
qed

lemma nat_str_length: "n < 10 ^ k \<Longrightarrow> 0 < k \<Longrightarrow> length (nat_str n) \<le> k"
proof (induction k arbitrary: n)
  case (Suc k)
  show ?case
  proof (cases "n < 10")
    case False
    then have "0 < k" using Suc.prems(1) by (cases k) auto
    moreover have "n div 10 < 10 ^ k" using Suc.prems(1) by (simp add: less_mult_imp_div_less mult.commute)
    ultimately show ?thesis using Suc.IH [of "n div 10"] False by (subst nat_str.simps) simp
  qed (subst nat_str.simps, simp)
qed simp

lemma nat_str_is_digit: "list_all is_digit (nat_str n)"
  using nat_str_digits [of _ n] by (auto simp: list_all_iff is_digit_def Let_def)

lemma octet_nat_str:
  assumes "n < 256"
  shows "octet (nat_str n) = Some n"
proof -
  have "length (nat_str n) \<le> 3" using nat_str_length [of n 3] assms by simp
  moreover have "length (nat_str n) = 1 \<or> hd (nat_str n) \<noteq> CHR ''0''"
    using nat_str_hd [of n] by (cases "n = 0") (auto simp: nat_str.simps [of 0])
  ultimately show ?thesis
    using assms nat_str_ne [of n] nat_str_is_digit [of n] by (simp add: octet_def digits_val_nat_str)
qed

lemma split_on_join:
  "\<forall>w\<in>set ws. c \<notin> set w \<Longrightarrow> ws \<noteq> [] \<Longrightarrow> split_on c (join [c] ws) = ws"
proof (induction ws rule: induct_list012)
  case (2 w)
  then show ?case by (induction w) auto
next
  case (3 v w ws)
  have "split_on c (v @ c # t) = v # split_on c t" for t
    using 3(3) by (induction v) auto
  then show ?case using 3 by simp
qed simp

lemma int_str_nonneg: "0 \<le> n \<Longrightarrow> int_str n = nat_str (nat n)"
  by (simp add: int_str_def)

lemma parse_show_ipv4:
  assumes "0 \<le> n" and "n < 2 ^ 32"
  shows "parse_ipv4 (show_ipv4 n) = Some n"
proof -
  have "\<not> is_digit CHR ''.''" by (simp add: is_digit_def)
  then have no_dot: "CHR ''.'' \<notin> set (nat_str m)" for m
    using nat_str_is_digit [of m] by (auto simp: list_all_iff)
  define q1 where "q1 = n div 256"
  define q2 where "q2 = q1 div 256"
  define q3 where "q3 = q2 div 256"
  have d: "n div 65536 = q2" "n div 16777216 = q3"
    using zdiv_zmult2_eq [of 256 n 256] zdiv_zmult2_eq [of 256 "n div 256" 256] zdiv_zmult2_eq [of 65536 n 256]
    by (simp_all add: q1_def q2_def q3_def)
  have b: "0 \<le> q3" "q3 < 256" using assms by (auto simp flip: d)
  let ?bytes = "[q3, q2 mod 256, q1 mod 256, n mod 256]"
  have "map octet (split_on (CHR ''.'') (show_ipv4 n)) = map (\<lambda>x. Some (nat x)) ?bytes"
  proof -
    have "split_on (CHR ''.'') (show_ipv4 n) = map (\<lambda>x. nat_str (nat x)) ?bytes"
      unfolding show_ipv4_def d q1_def [symmetric] using no_dot b(1)
      by (subst split_on_join) (auto simp: int_str_nonneg)
    moreover have "octet (nat_str (nat x)) = Some (nat x)" if "x \<in> set ?bytes" for x
      using that b by (intro octet_nat_str) (auto simp: nat_less_iff)
    ultimately show ?thesis by simp
  qed
  moreover have "((q3 * 256 + q2 mod 256) * 256 + q1 mod 256) * 256 + n mod 256 = n"
    by (simp add: q3_def q2_def q1_def)
  ultimately show ?thesis using b(1) by (simp add: parse_ipv4_def)
qed

end
