(* ===== verification/Networking.thy ===== *)
theory Networking
  imports Net_Text IP_Address
begin

text \<open>
  Network tools on a console (\<^verbatim>\<open>boardfarm3/lib/networking.py\<close>, \<^verbatim>\<open>lib/network_utils.py\<close>, \<^verbatim>\<open>lib/dmcli.py\<close>):
  packet captures, copying files, the firewall, name lookups, the table of DNS names, HTTP requests and
  the RDK-B command line. Parsers of third-party packages (\<^verbatim>\<open>jc\<close>, BeautifulSoup) are parameters.
\<close>

section \<open>Captures and copies\<close>

text \<open>\<^verbatim>\<open>re.search(r"(\[\d+\]\s(\d+))", output)[2]\<close>: the process started in the background.\<close>

definition job_rx :: rx where
  "job_rx = Grp 1 (cats [chr (CHR ''[''), plus dgt, chr (CHR '']''), blank, Grp 2 (plus dgt)])"

definition job_pid :: "string \<Rightarrow> raised + string" where
  "job_pid output = (case re_search job_rx output of None \<Rightarrow> Inl type_error | Some m \<Rightarrow> Inr (group 2 m))"

definition filter_text :: "(string \<times> string) list option \<Rightarrow> string" where
  "filter_text filters =
     (case filters of None \<Rightarrow> [] | Some fs \<Rightarrow> join '' '' (map (\<lambda>(k, v). k @ '' '' @ v) fs))"

definition start_tcpdump ::
  "('w, 'x) console_scheme \<Rightarrow> string \<Rightarrow> string option \<Rightarrow> string \<Rightarrow> (string \<times> string) list option \<Rightarrow> string option \<Rightarrow> ('w, string) io" where
  "start_tcpdump c interface port output_file filters additional_filters =
     (let command = ''tcpdump -U -i '' @ interface @ '' -n -w '' @ output_file @ '' ''
      in case additional_filters of
           None \<Rightarrow> throw type_error
         | Some more_filters \<Rightarrow>
             (let filter_str = filter_text filters @ more_filters
              in seq (run_cmd c
                   (case port of
                      Some p \<Rightarrow> if p = [] then command @ '' '' @ filter_str @ '' &''
                                else command @ '' '' @ [CHR 0x27] @ ''portrange '' @ p @ [CHR 0x27] @ '' '' @ filter_str @ '' &''
                    | None \<Rightarrow> command @ '' '' @ filter_str @ '' &'')) (\<lambda>output.
                 seq (sp_expect_exact c [Text (''tcpdump: listening on '' @ interface), Timeout] (-1)) (\<lambda>i.
                 if i \<noteq> 0 then throw (value_error (''Failed to start tcpdump on '' @ interface))
                 else lift_sum (job_pid output)))))"

definition next_output :: "('w, 'x) spawn_scheme \<Rightarrow> ('w, string) io" where
  "next_output c = reading (\<lambda>w. strip whitespace (sp_after c w))"

definition stop_tcpdump :: "('w, 'x) console_scheme \<Rightarrow> string \<Rightarrow> ('w, unit) io" where
  "stop_tcpdump c process_id =
     seq (run_cmd c (''kill '' @ process_id)) (\<lambda>output.
     andthen
       (if str_in ''packets captured'' output then ret ()
        else
          seq (next_output c) (\<lambda>more_output.
          if str_in ''packets captured'' (output @ '' '' @ more_output) then ret ()
          else
            seq (sp_expect_exact c [Text ''captured'', Timeout] (-1)) (\<lambda>idx.
            if idx \<noteq> 0 then throw (value_error (''Failed to stop tcpdump process with PID '' @ process_id)) else ret ())))
     (do_cmd c ''sync''))"

definition tcpdump_read ::
  "('w, 'x) console_scheme \<Rightarrow> string \<Rightarrow> string \<Rightarrow> string \<Rightarrow> int \<Rightarrow> bool \<Rightarrow> ('w, string) io" where
  "tcpdump_read c capture_file protocol opts timeout rm_pcap =
     (let extra_opts = join '' and '' (filter (\<lambda>x. x \<noteq> []) [protocol, opts])
      in seq (c_execute c (''tcpdump -n -r '' @ capture_file @ '' '' @ extra_opts) timeout) (\<lambda>tcpdump_output.
         andthen (when_io rm_pcap (do_cmd c (''rm '' @ capture_file))) (ret tcpdump_output)))"

definition scp_command :: "string \<Rightarrow> string \<Rightarrow> string \<Rightarrow> string \<Rightarrow> string \<Rightarrow> bool \<Rightarrow> string" where
  "scp_command host port username src_path dst_path download =
     ''scp -o StrictHostKeyChecking=no -o UserKnownHostsFile=/dev/null'' @
     (if download then '' -P '' @ port @ '' '' @ username @ ''@'' @ host @ '':'' @ src_path @ '' '' @ dst_path
      else '' -P '' @ port @ '' '' @ src_path @ '' '' @ username @ ''@'' @ host @ '':'' @ dst_path)"

definition scp ::
  "('w, 'x) console_scheme \<Rightarrow> string \<Rightarrow> string \<Rightarrow> string \<Rightarrow> string \<Rightarrow> string \<Rightarrow> string \<Rightarrow> string \<Rightarrow> int \<Rightarrow> ('w, unit) io" where
  "scp c host port username password src_path dst_path action timeout =
     seq (lift_sum (ip_address host)) (\<lambda>a.
     let host' = (case a of V4 _ \<Rightarrow> host | V6 _ \<Rightarrow> ''['' @ host @ '']'')
     in andthen (sp_sendline c (scp_command host' port username src_path dst_path (action = ''download'')))
        (seq (sp_expect c [Timeout, Text ''continue connecting?''] 10) (\<lambda>i.
        andthen (when_io (i \<noteq> 0) (sp_sendline c ''y''))
        (seq (sp_expect c [Timeout, Text ''assword:''] 10) (\<lambda>j.
        andthen (when_io (j \<noteq> 0) (sp_sendline c password))
        (seq (sp_expect_exact c [Text ''100%'', Timeout] timeout) (\<lambda>k.
        if k \<noteq> 0 then throw (scp_error (''Failed to scp from '' @ src_path @ '' to '' @ dst_path)) else ret ())))))))"

definition traceroute_host :: "('w, 'x) console_scheme \<Rightarrow> string \<Rightarrow> string \<Rightarrow> string \<Rightarrow> ('w, string) io" where
  "traceroute_host c host_ip version options =
     c_execute c (''traceroute'' @ version @ '' '' @ options @ '' '' @ host_ip) 90"

section \<open>The firewall\<close>

definition get_iptables_list ::
  "('w, 'x) console_scheme \<Rightarrow> string \<Rightarrow> string \<Rightarrow> ('w, (string, (string, string) dict list) dict) io" where
  "get_iptables_list c opts extra_opts =
     seq (run_cmd c (''iptables '' @ opts @ '' '' @ extra_opts)) (\<lambda>out. lift_sum (parse_iptables out))"

definition get_ip6tables_list ::
  "('w, 'x) console_scheme \<Rightarrow> string \<Rightarrow> string \<Rightarrow> ('w, (string, (string, string) dict list) dict) io" where
  "get_ip6tables_list c opts extra_opts =
     seq (run_cmd c (''ip6tables '' @ opts @ '' '' @ extra_opts)) (\<lambda>out. lift_sum (parse_ip6tables out))"

definition is_iptable_empty :: "('w, 'x) console_scheme \<Rightarrow> string \<Rightarrow> string \<Rightarrow> ('w, bool) io" where
  "is_iptable_empty c opts extra_opts =
     seq (get_iptables_list c opts extra_opts) (\<lambda>t. ret (list_all (\<lambda>rules. rules = []) (dict_values t)))"

definition is_ip6table_empty :: "('w, 'x) console_scheme \<Rightarrow> string \<Rightarrow> string \<Rightarrow> ('w, bool) io" where
  "is_ip6table_empty c opts extra_opts =
     seq (get_ip6tables_list c opts extra_opts) (\<lambda>t. ret (list_all (\<lambda>rules. rules = []) (dict_values t)))"

definition get_iptables_policy :: "('w, 'x) console_scheme \<Rightarrow> string \<Rightarrow> string \<Rightarrow> ('w, (string, string) dict) io" where
  "get_iptables_policy c opts extra_opts =
     seq (run_cmd c (''iptables '' @ opts @ '' '' @ extra_opts)) (\<lambda>out. lift_sum (iptables_policy out))"

definition get_ip6tables_policy :: "('w, 'x) console_scheme \<Rightarrow> string \<Rightarrow> string \<Rightarrow> ('w, (string, string) dict) io" where
  "get_ip6tables_policy c opts extra_opts =
     seq (run_cmd c (''ip6tables '' @ opts @ '' '' @ extra_opts)) (\<lambda>out. lift_sum (iptables_policy out))"

text \<open>An address put into a regular expression: its dots match any character.\<close>

definition interpolated :: "string \<Rightarrow> rx" where
  "interpolated s = cats (map (\<lambda>c. if c = CHR ''.'' then dot else chr c) s)"

definition not_found_rx :: "string \<Rightarrow> rx" where
  "not_found_rx valid_ip = cats [lit ''host/network'', star dot, interpolated valid_ip, star dot, lit ''not found'']"

definition add_drop_rule :: "string \<Rightarrow> ('w, 'x) console_scheme \<Rightarrow> string \<Rightarrow> string \<Rightarrow> ('w, unit) io" where
  "add_drop_rule tool c option valid_ip =
     seq (run_cmd c (tool @ '' -C INPUT '' @ option @ '' '' @ valid_ip @ '' -j DROP'')) (\<lambda>iptables_output.
     andthen
       (when_io (str_in ''Bad rule'' iptables_output)
          (do_cmd c (tool @ '' -I INPUT 1 '' @ option @ '' '' @ valid_ip @ '' -j DROP'')))
       (if re_found (not_found_rx valid_ip) iptables_output
        then throw (value_error (''Firewall rule cannot be added as the ip address: '' @ valid_ip @ '' could not be found''))
        else ret ()))"

definition add_drop_rule_iptables :: "('w, 'x) console_scheme \<Rightarrow> string \<Rightarrow> string \<Rightarrow> ('w, unit) io" where
  "add_drop_rule_iptables c option valid_ip = add_drop_rule ''iptables'' c option valid_ip"

definition add_drop_rule_ip6tables :: "('w, 'x) console_scheme \<Rightarrow> string \<Rightarrow> string \<Rightarrow> ('w, unit) io" where
  "add_drop_rule_ip6tables c option valid_ip = add_drop_rule ''ip6tables'' c option valid_ip"

definition del_drop_rule_iptables :: "('w, 'x) console_scheme \<Rightarrow> string \<Rightarrow> string \<Rightarrow> ('w, unit) io" where
  "del_drop_rule_iptables c option valid_ip = do_cmd c (''iptables -D INPUT '' @ option @ '' '' @ valid_ip @ '' -j DROP'')"

definition del_drop_rule_ip6tables :: "('w, 'x) console_scheme \<Rightarrow> string \<Rightarrow> string \<Rightarrow> ('w, unit) io" where
  "del_drop_rule_ip6tables c option valid_ip = do_cmd c (''ip6tables -D INPUT '' @ option @ '' '' @ valid_ip @ '' -j DROP'')"

section \<open>Names\<close>

definition nslookup :: "('w, 'x) console_scheme \<Rightarrow> string \<Rightarrow> string \<Rightarrow> string \<Rightarrow> ('w, (string, json) dict) io" where
  "nslookup c domain_name opts extra_opts =
     seq (run_cmd c (''nslookup '' @ opts @ '' '' @ domain_name @ '' '' @ extra_opts)) (\<lambda>out. lift_sum (parse_nslookup_output out))"

text \<open>
  The table of names of a device. Its lists hold addresses and, after \<^verbatim>\<open>configure_hosts\<close>, their texts.
\<close>

datatype host = Address address | Shown string

record dns =
  dns_auxv4 :: "address option"
  dns_auxv6 :: "address option"
  dnsv4 :: "(string, host list) dict"
  dnsv6 :: "(string, host list) dict"
  hosts_v4 :: "(string, host list) dict"
  hosts_v6 :: "(string, host list) dict"
  fqdn :: string

text \<open>\<^verbatim>\<open>d[k].append(x)\<close> on a \<^verbatim>\<open>defaultdict(list)\<close>.\<close>

definition default_list :: "(string, 'a list) dict \<Rightarrow> string \<Rightarrow> 'a list" where
  "default_list d k = (case dict_get d k of None \<Rightarrow> [] | Some xs \<Rightarrow> xs)"

definition append_at :: "string \<Rightarrow> 'a \<Rightarrow> (string, 'a list) dict \<Rightarrow> (string, 'a list) dict" where
  "append_at k x d = dict_set k (default_list d k @ [x]) d"

definition own_addresses :: "string \<Rightarrow> string option \<Rightarrow> address option \<Rightarrow> string option \<Rightarrow> (string, host list) dict" where
  "own_addresses name address aux aux_url =
     (let d0 = (case address of None \<Rightarrow> [] | Some a \<Rightarrow> append_at name (Shown a) []);
          d1 = (case aux of
                  None \<Rightarrow> d0
                | Some x \<Rightarrow>
                    (let d = append_at name (Address x) d0
                     in case aux_url of None \<Rightarrow> d | Some u \<Rightarrow> append_at u (Address x) d))
      in d1)"

definition dns_init ::
  "string \<Rightarrow> string option \<Rightarrow> string option \<Rightarrow> address option \<Rightarrow> address option \<Rightarrow> string option \<Rightarrow> dns" where
  "dns_init device_name ipv4_address ipv6_address ipv4_aux ipv6_aux aux_url =
     (let name = device_name @ ''.boardfarm.com'';
          v4 = own_addresses name ipv4_address ipv4_aux aux_url; v6 = own_addresses name ipv6_address ipv6_aux aux_url
      in \<lparr>dns_auxv4 = ipv4_aux, dns_auxv6 = ipv6_aux, dnsv4 = v4, dnsv6 = v6,
          hosts_v4 = dict_merge [] v4, hosts_v6 = dict_merge [] v6, fqdn = name\<rparr>)"

text \<open>
  The unreachable addresses follow the auxiliary one. The result is the list so far with the exception
  that ended the loop: a missing auxiliary address, or one beyond the last.
\<close>

fun add_unreachable :: "address option \<Rightarrow> nat \<Rightarrow> nat \<Rightarrow> host list \<Rightarrow> raised option \<times> host list" where
  "add_unreachable aux val 0 hosts = (None, hosts)"
| "add_unreachable aux val (Suc n) hosts =
     (case aux of
        None \<Rightarrow> (Some type_error, hosts)
      | Some a \<Rightarrow>
          (case addr_add a (int val + 1) of
             Inl e \<Rightarrow> (Some e, hosts)
           | Inr b \<Rightarrow> add_unreachable aux (Suc val) n (hosts @ [Shown (addr_str b)])))"

definition configure_hosts :: "int \<Rightarrow> int \<Rightarrow> int \<Rightarrow> int \<Rightarrow> dns \<Rightarrow> raised option \<times> dns" where
  "configure_hosts reachable_ipv4 unreachable_ipv4 reachable_ipv6 unreachable_ipv6 t =
     (let val_v4 = py_slice (default_list (hosts_v4 t) (fqdn t)) 0 reachable_ipv4;
          val_v6 = py_slice (default_list (hosts_v6 t) (fqdn t)) 0 reachable_ipv6;
          (e4, l4) = add_unreachable (dns_auxv4 t) 0 (nat unreachable_ipv4) val_v4
      in case e4 of
           Some e \<Rightarrow> (Some e, t\<lparr>hosts_v4 := dict_set (fqdn t) l4 (hosts_v4 t), hosts_v6 := dict_set (fqdn t) val_v6 (hosts_v6 t)\<rparr>)
         | None \<Rightarrow>
             (let (e6, l6) = add_unreachable (dns_auxv6 t) 0 (nat unreachable_ipv6) val_v6
              in (e6, t\<lparr>hosts_v4 := dict_set (fqdn t) l4 (hosts_v4 t), hosts_v6 := dict_set (fqdn t) l6 (hosts_v6 t)\<rparr>)))"

section \<open>HTTP\<close>

record http_result =
  hr_response :: string
  hr_raw :: string
  hr_code :: string
  hr_beautified :: string

definition raw_rx :: rx where
  "raw_rx = cats [chr (CHR ''<''), one_of ''!DOC|head'', Cls (\<lambda>c. \<not> is_space c \<or> c = CHR 0x0A \<or> c = CHR '' ''), plus any_char, lit ''body>'']"

definition code_rx :: rx where
  "code_rx = cats [lit ''< HTTP/'', star dot, blank, Grp 1 (plus dgt)]"

definition parse_response :: "(string \<Rightarrow> string) \<Rightarrow> string \<Rightarrow> raised + http_result" where
  "parse_response prettify response =
     (if list_ex (\<lambda>err. str_in err response) [''Connection refused'', ''Connection timed out'', ''Failed to connect'']
      then Inl (use_case_failure (''Curl Failure due to the following reason '' @ response))
      else
        (let raw = (case re_findall raw_rx response of [] \<Rightarrow> [] | x # _ \<Rightarrow> x);
             code = (case re_findall1 code_rx response of [] \<Rightarrow> [] | x # _ \<Rightarrow> x)
         in Inr \<lparr>hr_response = response, hr_raw = raw, hr_code = code, hr_beautified = (if raw = [] then [] else prettify raw)\<rparr>))"

definition http_get :: "(string \<Rightarrow> string) \<Rightarrow> ('w, 'x) console_scheme \<Rightarrow> string \<Rightarrow> int \<Rightarrow> string \<Rightarrow> ('w, http_result) io" where
  "http_get prettify c url timeout options =
     seq (run_cmd c (''curl -v '' @ options @ '' --connect-timeout '' @ int_str timeout @ '' '' @ url)) (\<lambda>out.
     lift_sum (parse_response prettify out))"

definition dns_lookup :: "(string \<Rightarrow> raised + 'r) \<Rightarrow> ('w, 'x) console_scheme \<Rightarrow> string \<Rightarrow> string \<Rightarrow> string \<Rightarrow> ('w, 'r) io" where
  "dns_lookup dig_parse c domain_name record_type opts =
     seq (run_cmd c (''dig '' @ opts @ '' '' @ record_type @ '' '' @ domain_name)) (\<lambda>out.
     lift_sum (dig_parse (if CHR '';'' \<in> set out then after_first (CHR '';'') out else out)))"

definition is_link_up :: "('w, 'x) console_scheme \<Rightarrow> string \<Rightarrow> string \<Rightarrow> ('w, bool) io" where
  "is_link_up c interface pattern =
     seq (run_cmd c (''ip link show '' @ interface)) (\<lambda>out. ret (str_in pattern out))"

section \<open>Utilities of a device\<close>

definition nw_netstat :: "('w, 'x) console_scheme \<Rightarrow> string \<Rightarrow> string \<Rightarrow> ('w, string list \<times> (string, string) dict list) io" where
  "nw_netstat c opts extra_opts =
     seq (run_cmd c (''netstat '' @ opts @ '' '' @ extra_opts)) (\<lambda>out. lift_sum (parse_netstat_output out))"

definition nw_start_tcpdump :: "('w, 'x) console_scheme \<Rightarrow> string \<Rightarrow> string \<Rightarrow> (string \<times> string) list option \<Rightarrow> ('w, string) io" where
  "nw_start_tcpdump c fname interface filters = start_tcpdump c interface None fname filters (Some [])"

definition nw_scp ::
  "('w, 'x) console_scheme \<Rightarrow> string \<Rightarrow> string \<Rightarrow> string \<Rightarrow> string \<Rightarrow> string \<Rightarrow> string \<Rightarrow> string \<Rightarrow> ('w, unit) io" where
  "nw_scp c ip port user pwd source_path dest_path action = scp c ip port user pwd source_path dest_path action 30"

definition nw_tftp :: "('w, 'x) console_scheme \<Rightarrow> string \<Rightarrow> string \<Rightarrow> string \<Rightarrow> int \<Rightarrow> ('w, unit) io" where
  "nw_tftp c tftp_server_ip source_file dest_file timeout =
     seq (c_execute c (''tftp -pl '' @ source_file @ '' '' @ tftp_server_ip @ '' -r '' @ dest_file) timeout) (\<lambda>output.
     if str_in (''can'' @ [CHR 0x27] @ ''t open'') output \<or> str_in ''No such file or directory'' output
     then throw (file_not_found (''Unable to perform tftp '' @ output)) else ret ())"

definition gen_uuid :: "('w, 'x) console_scheme \<Rightarrow> ('w, string) io" where
  "gen_uuid c = run_cmd c ''uuidgen''"

section \<open>The RDK-B command line\<close>

record dmcli_out =
  dm_status :: string
  dm_rtype :: string
  dm_rval :: string
  dm_console_out :: string

definition dmcli_error :: "string \<Rightarrow> raised" where
  "dmcli_error m = py_error BoardfarmException ''DMCLIError'' m"

definition status_rx :: rx where
  "status_rx =
     Alt (cats [lit ''Execution '', Grp 1 (Alt (lit ''fail'') (lit ''succeed'')), Grp 2 (star dot)])
         (Grp 3 (lit (''Can'' @ [CHR 0x27] @ ''t find destination component'')))"

definition type_rx :: rx where
  "type_rx = cats [star dot, lit ''type:'', star blank, Grp 1 (star dot), chr (CHR '',''), plus blank]"

definition value_rx :: rx where
  "value_rx = cats [star dot, lit ''value:'', star blank, Grp 1 (star dot), lit [CHR 0x20, CHR 0x0D]]"

definition last_group :: "rx \<Rightarrow> string \<Rightarrow> raised + string" where
  "last_group r s = (case re_findall1 r s of [] \<Rightarrow> Inl index_error | x # xs \<Rightarrow> Inr (last (x # xs)))"

definition dmcli_values :: "string \<Rightarrow> string \<Rightarrow> string \<Rightarrow> string \<Rightarrow> raised + dmcli_out" where
  "dmcli_values operation param status out =
     (let r = \<lparr>dm_status = status, dm_rtype = [], dm_rval = [], dm_console_out = out\<rparr>
      in if str_in ''value:'' out \<and> str_in ''getv'' operation then
           (case last_group type_rx out of Inl e \<Rightarrow> Inl e | Inr t \<Rightarrow>
            case last_group value_rx out of Inl e \<Rightarrow> Inl e | Inr v \<Rightarrow> Inr (r\<lparr>dm_rtype := t, dm_rval := v\<rparr>))
         else if str_in ''is added'' out \<and> str_in ''addt'' operation then
           (case re_search (Cat (interpolated param) (Grp 1 (plus dgt))) out of
              None \<Rightarrow> Inl type_error
            | Some m \<Rightarrow> Inr (r\<lparr>dm_rval := group 1 m, dm_rtype := ''string''\<rparr>))
         else Inr r)"

definition trigger_dmcli_cmd :: "('w, 'x) console_scheme \<Rightarrow> string \<Rightarrow> string \<Rightarrow> int \<Rightarrow> ('w, dmcli_out) io" where
  "trigger_dmcli_cmd c operation param sleep_timeout =
     seq (c_execute c (''dmcli eRT '' @ operation @ '' '' @ param) 60) (\<lambda>command_output.
     andthen (sp_sleep c sleep_timeout)
     (case re_search status_rx command_output of
        None \<Rightarrow> throw (dmcli_error ''Failed to get dmcli command execution status'')
      | Some m \<Rightarrow>
          if \<not> str_in ''succeed'' (ma_text m) then throw (dmcli_error (''DMCLI command execution failed: '' @ ma_text m))
          else lift_sum (dmcli_values operation param (ma_text m) command_output)))"

definition AddObject :: "('w, 'x) console_scheme \<Rightarrow> string \<Rightarrow> ('w, dmcli_out) io" where
  "AddObject c param = trigger_dmcli_cmd c ''addtable'' param 0"

definition SPV :: "('w, 'x) console_scheme \<Rightarrow> string \<Rightarrow> string \<Rightarrow> string \<Rightarrow> int \<Rightarrow> ('w, dmcli_out) io" where
  "SPV c param value type_set sleep_timeout =
     trigger_dmcli_cmd c ''setvalues'' (param @ '' '' @ type_set @ '' '' @ value) sleep_timeout"

definition GPV :: "('w, 'x) console_scheme \<Rightarrow> string \<Rightarrow> ('w, dmcli_out) io" where
  "GPV c param = trigger_dmcli_cmd c ''getvalues'' param 0"

definition DelObject :: "('w, 'x) console_scheme \<Rightarrow> string \<Rightarrow> ('w, dmcli_out) io" where
  "DelObject c param = trigger_dmcli_cmd c ''deltable'' param 0"

section \<open>Facts\<close>

lemma job_rx_first:
  assumes "list_all is_digit n" "n \<noteq> []" "list_all is_digit p" "p \<noteq> []" "post = [] \<or> \<not> is_digit (hd post)"
  shows "\<exists>q. first job_rx \<lparr>rp_before = b, rp_after = CHR ''['' # n @ '']'' @ '' '' @ p @ post, rp_groups = []\<rparr> q \<and>
    dict_get (rp_groups q) 2 = Some p"
proof -
  let ?P = "\<lambda>b s g. \<lparr>rp_before = b, rp_after = s, rp_groups = g\<rparr> :: rpos"
  have "\<not> is_digit (CHR '']'')" by code_simp
  then have n: "first (plus dgt) (?P (CHR ''['' # b) (n @ '']'' @ '' '' @ p @ post) []) (?P (rev n @ CHR ''['' # b) ('']'' @ '' '' @ p @ post) [])"
    unfolding dgt_def using assms(1,2) by (intro first_plus_Cls) auto
  have p: "first (plus dgt) (?P b' (p @ post) []) (?P (rev p @ b') post [])" for b'
    unfolding dgt_def using assms(3-5) by (intro first_plus_Cls) auto
  have sp: "CHR '' '' \<in> set whitespace" by code_simp
  let ?b2 = "CHR '' '' # CHR '']'' # rev n @ CHR ''['' # b"
  let ?q = "(?P (rev p @ ?b2) post [])\<lparr>rp_groups := dict_set 2 (take (length (p @ post) - length post) (p @ post)) []\<rparr>"
  have "first (cats [chr (CHR ''[''), plus dgt, chr (CHR '']''), blank, Grp 2 (plus dgt)])
      (?P b (CHR ''['' # n @ '']'' @ '' '' @ p @ post) []) ?q"
    unfolding cats.simps chr_def blank_def
    by (rule first_Cat [OF first_Cls], simp, rule first_Cat [OF n], unfold append.simps)
      (rule first_Cat [OF first_Cls], simp, rule first_Cat [OF first_Cls], rule sp,
       use first_Grp [OF p [of ?b2], of 2] in simp)
  from first_Grp [OF this, of 1] show ?thesis unfolding job_rx_def by fastforce
qed

lemma job_rx_bracket: "c \<noteq> CHR ''['' \<Longrightarrow> match_at job_rx False b (c # s) = None"
  by (simp add: match_at_def job_rx_def chr_def Let_def)

lemma job_pid_shell:
  assumes "CHR ''['' \<notin> set pre" and "list_all is_digit n" "n \<noteq> []" "list_all is_digit p" "p \<noteq> []"
    and "post = [] \<or> \<not> is_digit (hd post)"
  shows "job_pid (pre @ ''['' @ n @ ''] '' @ p @ post) = Inr p"
proof -
  obtain q where q: "first job_rx \<lparr>rp_before = rev pre, rp_after = CHR ''['' # n @ '']'' @ '' '' @ p @ post, rp_groups = []\<rparr> q"
    "dict_get (rp_groups q) 2 = Some p"
    using job_rx_first [OF assms(2-6)] by blast
  have "search_from job_rx False [] (pre @ ''['' @ n @ '']'' @ '' '' @ p @ post) =
      search_from job_rx False (rev pre) (CHR ''['' # n @ '']'' @ '' '' @ p @ post)"
    using search_from_skip [of pre job_rx "[]" "''['' @ n @ '']'' @ '' '' @ p @ post"] job_rx_bracket assms(1)
    by (metis append_Cons append_Nil append_Nil2)
  then show ?thesis using search_first [OF q(1)] q(2)
    by (simp add: job_pid_def re_search_def group_def as_match_def)
qed

lemma add_unreachable_all:
  assumes "\<And>i. i < n \<Longrightarrow> addr_add a (int (val + i) + 1) = Inr (f i)"
  shows "add_unreachable (Some a) val n hosts = (None, hosts @ map (\<lambda>i. Shown (addr_str (f i))) [0..<n])"
  using assms
proof (induction n arbitrary: val hosts f)
  case (Suc n)
  have "addr_add a (int (Suc val + i) + 1) = Inr (f (Suc i))" if "i < n" for i
    using Suc.prems [of "Suc i"] that by simp
  from Suc.IH [OF this] show ?case
    using Suc.prems [of 0] by (simp add: upt_conv_Cons map_Suc_upt [symmetric] del: upt_Suc)
qed simp

section \<open>Properties\<close>

text \<open>the process a tool leaves in the background is the one the shell names. For any job number, any
  process id and any text around the shell's line, as long as no bracket comes before it, the id that
  starting a capture, an HTTP service or a probe reads is that process id.\<close>

theorem background_pid:
  assumes "CHR ''['' \<notin> set pre" and "post = [] \<or> \<not> is_digit (hd post)"
  shows "job_pid (pre @ ''['' @ nat_str n @ ''] '' @ nat_str p @ post) = Inr (nat_str p)"
  using job_pid_shell [OF assms(1) nat_str_is_digit nat_str_ne nat_str_is_digit nat_str_ne assms(2)] .

theorem background_pid_witness:
  "job_pid (''[1] 47'' @ [CHR 0x0D]) = Inr ''47''"
proof -
  have "nat_str 1 = ''1''" "nat_str 47 = ''47''" "\<not> is_digit (CHR 0x0D)" by code_simp+
  then show ?thesis using background_pid [of "[]" "[CHR 0x0D]" 1 47] by simp
qed

text \<open>C37: the host table after \<^verbatim>\<open>configure_hosts\<close>, for a device with both auxiliary addresses and room after
  them for as many addresses as are asked. The name of the device maps to the first entries it mapped to
  before, as many as asked or all there were if they are fewer, followed by exactly the asked number of
  addresses after the auxiliary one, in order; every other name and the table of real addresses stay as
  they were. Nothing checks that the kept entries are reachable: addresses that a former call added as
  unreachable are kept like any other, so after it fewer than the asked number may be reachable.\<close>

theorem configure_hosts_exact:
  assumes "dns_auxv4 t = Some (V4 a)" and "a + int u4 \<le> MAX_ADDR4"
    and "dns_auxv6 t = Some (V6 b)" and "b + int u6 \<le> MAX_ADDR6"
    and "configure_hosts (int r4) (int u4) (int r6) (int u6) t = (e, t')"
    and "v4 = default_list (hosts_v4 t) (fqdn t)" and "v6 = default_list (hosts_v6 t) (fqdn t)"
  shows "e = None \<and>
    default_list (hosts_v4 t') (fqdn t) = take r4 v4 @ map (\<lambda>i. Shown (show_ipv4 (a + int i + 1))) [0..<u4] \<and>
    default_list (hosts_v6 t') (fqdn t) = take r6 v6 @ map (\<lambda>i. Shown (show_ipv6 (b + int i + 1))) [0..<u6] \<and>
    length (default_list (hosts_v4 t') (fqdn t)) = min (length v4) r4 + u4 \<and>
    length (default_list (hosts_v6 t') (fqdn t)) = min (length v6) r6 + u6 \<and>
    (\<forall>name. name \<noteq> fqdn t \<longrightarrow> default_list (hosts_v4 t') name = default_list (hosts_v4 t) name \<and>
                              default_list (hosts_v6 t') name = default_list (hosts_v6 t) name) \<and>
    dnsv4 t' = dnsv4 t \<and> dnsv6 t' = dnsv6 t \<and> fqdn t' = fqdn t \<and> dns_auxv4 t' = dns_auxv4 t \<and> dns_auxv6 t' = dns_auxv6 t"
proof -
  have 4: "addr_add (V4 a) (int (0 + i) + 1) = Inr (V4 (a + int i + 1))" if "i < u4" for i
    using that assms(2) by (simp add: addr_add_def)
  have 6: "addr_add (V6 b) (int (0 + i) + 1) = Inr (V6 (b + int i + 1))" if "i < u6" for i
    using that assms(4) by (simp add: addr_add_def)
  have s: "py_slice xs 0 (int n) = take n xs" for xs :: "host list" and n by (simp add: py_slice_nonneg)
  show ?thesis
    using assms(5) add_unreachable_all [of u4 "V4 a" 0, OF 4] add_unreachable_all [of u6 "V6 b" 0, OF 6] assms(1,3)
    by (auto simp: configure_hosts_def Let_def default_list_def addr_str_def s assms(6,7))
qed

definition sample_dns :: dns where
  "sample_dns =
     dns_init ''acs'' (Some ''10.0.0.2'') (Some ''2001::2'') (map_option V4 (parse_ipv4 ''10.0.0.9''))
       (map_option V6 (parse_ipv6 ''2001::9'')) None"

theorem configure_hosts_exact_witness:
  "default_list (hosts_v4 (snd (configure_hosts 1 2 0 0 sample_dns))) ''acs.boardfarm.com'' =
     [Shown ''10.0.0.2'', Shown ''10.0.0.10'', Shown ''10.0.0.11'']"
proof -
  have aux: "dns_auxv4 sample_dns = Some (V4 167772169)" "dns_auxv6 sample_dns = Some (V6 42540488161975842760550356425300246537)"
    "fqdn sample_dns = ''acs.boardfarm.com''" by code_simp+
  have le: "167772169 + int 2 \<le> MAX_ADDR4" "42540488161975842760550356425300246537 + int 0 \<le> MAX_ADDR6"
    by (simp_all add: MAX_ADDR4_def MAX_ADDR6_def)
  have old: "take 1 (default_list (hosts_v4 sample_dns) (fqdn sample_dns)) = [Shown ''10.0.0.2'']" by code_simp
  have shown: "show_ipv4 167772170 = ''10.0.0.10''" "show_ipv4 167772171 = ''10.0.0.11''" by code_simp+
  have "configure_hosts (int 1) (int 2) (int 0) (int 0) sample_dns =
      (fst (configure_hosts (int 1) (int 2) (int 0) (int 0) sample_dns),
       snd (configure_hosts (int 1) (int 2) (int 0) (int 0) sample_dns))" by simp
  from configure_hosts_exact [OF aux(1) le(1) aux(2) le(2) this HOL.refl HOL.refl]
  show ?thesis using aux(3) old shown by (simp add: upt_conv_Cons)
qed

text \<open>C36: copying a file is reported as done only when the copy reached its end, and the password is sent
  only after the remote side asked for it: whatever the console answers, a run that returns has seen
  \<open>100%\<close> within the timeout, and a run that sends the password has matched the password prompt.\<close>

theorem scp_checked:
  assumes "scp (recorded d) host port username password src dst action timeout [] = (r, tr)"
  shows "(r = Inr () \<longrightarrow> (\<exists>h. dv_index d (h @ [ExpectedExact [Text ''100%'', Timeout] timeout]) = Inr 0)) \<and>
    (Sent password \<in> set tr \<and> password \<noteq> ''y'' \<and> \<not> startswith password ''scp '' \<longrightarrow>
       (\<exists>h i. dv_index d (h @ [Expected [Timeout, Text ''assword:''] 10]) = Inr (Suc i)))"
proof -
  have cmd: "\<not> startswith password ''scp '' \<Longrightarrow> password \<noteq> scp_command h' port username src dst b" for h' b
    by (auto simp: scp_command_def startswith_def)
  show ?thesis
  proof (cases "ip_address host")
    case (Inl e)
    then show ?thesis using assms by (auto simp: scp_def seq_def lift_sum_def)
  next
    case (Inr a)
    let ?cmd = "scp_command (case a of V4 _ \<Rightarrow> host | V6 _ \<Rightarrow> ''['' @ host @ '']'') port username src dst (action = ''download'')"
    let ?t1 = "[Sent ?cmd, Expected [Timeout, Text ''continue connecting?''] 10]"
    show ?thesis
    proof (cases "dv_index d ?t1")
      case (Inl e)
      then show ?thesis using assms Inr cmd by (auto simp: scp_def seq_def lift_sum_def andthen_def Let_def)
    next
      case i: (Inr i)
      let ?t2 = "?t1 @ (if i \<noteq> 0 then [Sent ''y''] else []) @ [Expected [Timeout, Text ''assword:''] 10]"
      show ?thesis
      proof (cases "dv_index d ?t2")
        case (Inl e)
        then show ?thesis using assms Inr i cmd
          by (auto simp: scp_def seq_def lift_sum_def andthen_def when_io_def ret_def Let_def split: if_splits)
      next
        case j: (Inr j)
        let ?t3 = "?t2 @ (if j \<noteq> 0 then [Sent password] else []) @ [ExpectedExact [Text ''100%'', Timeout] timeout]"
        have run: "(r, tr) = (case dv_index d ?t3 of
            Inl e \<Rightarrow> (Inl e, ?t3)
          | Inr k \<Rightarrow> if k \<noteq> 0 then (Inl (scp_error (''Failed to scp from '' @ src @ '' to '' @ dst)), ?t3) else (Inr (), ?t3))"
          using assms Inr i j
          by (auto simp: scp_def seq_def lift_sum_def andthen_def when_io_def ret_def throw_def Let_def split: if_splits sum.splits)
        have fin: "r = Inr () \<Longrightarrow> dv_index d ((?t2 @ (if j \<noteq> 0 then [Sent password] else [])) @ [ExpectedExact [Text ''100%'', Timeout] timeout]) = Inr 0"
          using run by (auto split: sum.splits if_splits)
        have "tr = ?t3" using run by (auto split: sum.splits if_splits)
        then have "Sent password \<in> set tr \<and> password \<noteq> ''y'' \<and> \<not> startswith password ''scp '' \<Longrightarrow> j \<noteq> 0"
          using cmd by (auto split: if_splits)
        moreover have "j \<noteq> 0 \<Longrightarrow> dv_index d ((?t1 @ (if i \<noteq> 0 then [Sent ''y''] else [])) @ [Expected [Timeout, Text ''assword:''] 10]) = Inr (Suc (j - 1))"
          using j by simp
        ultimately show ?thesis using fin by blast
      qed
    qed
  qed
qed

definition copying_device :: answers where
  "copying_device =
     \<lparr>dv_index = \<lambda>tr. Inr (case last tr of ExpectedExact _ _ \<Rightarrow> 0 | _ \<Rightarrow> 1), dv_output = \<lambda>_. Inr [], dv_before = \<lambda>_. [],
      dv_after = \<lambda>_. [], dv_group = \<lambda>_ _. [], dv_exit = \<lambda>_. 0\<rparr>"

theorem scp_checked_witness:
  "\<exists>tr. scp (recorded copying_device) ''10.0.0.1'' ''22'' ''root'' ''secret'' ''a'' ''b'' ''upload'' 30 [] = (Inr (), tr) \<and>
     Sent ''secret'' \<in> set tr \<and>
     (\<exists>h. dv_index copying_device (h @ [ExpectedExact [Text ''100%'', Timeout] 30]) = Inr 0) \<and>
     (\<exists>h i. dv_index copying_device (h @ [Expected [Timeout, Text ''assword:''] 10]) = Inr (Suc i))"
proof -
  define cmd where "cmd = scp_command ''10.0.0.1'' ''22'' ''root'' ''a'' ''b'' False"
  let ?tr = "[Sent cmd, Expected [Timeout, Text ''continue connecting?''] 10, Sent ''y'',
     Expected [Timeout, Text ''assword:''] 10, Sent ''secret'', ExpectedExact [Text ''100%'', Timeout] 30]"
  have a: "ip_address ''10.0.0.1'' = Inr (V4 167772161)" by code_simp
  have r: "scp (recorded copying_device) ''10.0.0.1'' ''22'' ''root'' ''secret'' ''a'' ''b'' ''upload'' 30 [] = (Inr (), ?tr)"
    by (simp add: scp_def a seq_def lift_sum_def andthen_def when_io_def ret_def copying_device_def cmd_def)
  have s: "\<not> startswith ''secret'' ''scp ''" by code_simp
  have m: "Sent ''secret'' \<in> set ?tr" by simp
  have p: "(\<exists>h. dv_index copying_device (h @ [ExpectedExact [Text ''100%'', Timeout] 30]) = Inr 0) \<and>
     (\<exists>h i. dv_index copying_device (h @ [Expected [Timeout, Text ''assword:''] 10]) = Inr (Suc i))"
    using scp_checked [OF r] s by simp
  show ?thesis by (rule exI [of _ ?tr]) (intro conjI r m conjunct1 [OF p] conjunct2 [OF p])
qed

end
