(* ===== verification/Linux_Device.thy ===== *)
theory Linux_Device
  imports Connections Networking
begin

text \<open>
  The Linux device (\<^verbatim>\<open>boardfarm3/devices/base_devices/linux_device.py\<close>): its options, its connection, the
  addresses of its interfaces and its static routes. A method takes the device and its console. The
  state of the connection methods is the world together with the console the device holds, if any.
\<close>

section \<open>Options\<close>

record linux_device =
  ld_config :: "(string, json) dict"
  ld_prompt :: "string list"
  ld_static_route :: string
  ld_mgmt_dns :: "int option"
  ld_dante :: bool
  ld_eth :: string
  ld_wlan :: string
  ld_internet :: string

definition DEFAULT_BASH_SHELL_PROMPT_PATTERN :: string where
  "DEFAULT_BASH_SHELL_PROMPT_PATTERN =
     ''['' @ [CHR 0x5C] @ ''w-]+@['' @ [CHR 0x5C] @ ''w-]+:['' @ [CHR 0x5C] @ ''w/~]+#''"

text \<open>\<^verbatim>\<open>IPv4Interface(s).ip\<close>: an address, and after a slash a prefix length, a netmask or a host mask.\<close>

definition is_mask :: "int \<Rightarrow> bool" where
  "is_mask n \<longleftrightarrow> list_ex (\<lambda>p. n = 2 ^ 32 - 2 ^ p \<or> n = 2 ^ p - 1) [0..<33]"

definition good_prefix :: "string \<Rightarrow> bool" where
  "good_prefix s \<longleftrightarrow>
     s \<noteq> [] \<and> list_all is_digit s \<and> digits_val 0 s \<le> 32 \<or> (case parse_ipv4 s of None \<Rightarrow> False | Some n \<Rightarrow> is_mask n)"

definition interface_v4 :: "string \<Rightarrow> raised + int" where
  "interface_v4 s =
     (case split_on (CHR ''/'') s of
        [a] \<Rightarrow> (case parse_ipv4 a of Some n \<Rightarrow> Inr n | None \<Rightarrow> Inl (py_error PyValueError ''AddressValueError'' []))
      | [a, p] \<Rightarrow>
          (case parse_ipv4 a of
             Some n \<Rightarrow> if good_prefix p then Inr n else Inl (py_error PyValueError ''NetmaskValueError'' [])
           | None \<Rightarrow> Inl (py_error PyValueError ''AddressValueError'' []))
      | _ \<Rightarrow> Inl (py_error PyValueError ''AddressValueError'' []))"

definition option_list :: "string \<Rightarrow> string list" where
  "option_list s = map (strip whitespace) (split_on (CHR '','') s)"

text \<open>One option; an option other than \<open>mgmt-dns\<close> sets the server back to the default.\<close>

definition init_option :: "string \<Rightarrow> linux_device \<Rightarrow> raised + linux_device" where
  "init_option entry d =
     (let d1 = (if startswith entry ''static-route:''
                then d\<lparr>ld_static_route := py_replace ''-'' '' via '' (py_replace ''static-route:'' [] entry)\<rparr> else d)
      in case (if startswith entry ''mgmt-dns:'' then interface_v4 (py_replace ''mgmt-dns:'' [] entry) else Inr 0x08080808) of
           Inl e \<Rightarrow> Inl e
         | Inr ip \<Rightarrow>
             (let d2 = d1\<lparr>ld_mgmt_dns := Some ip\<rparr>
              in Inr (if entry = ''dante'' then d2\<lparr>ld_dante := True\<rparr> else d2)))"

fun init_options :: "string list \<Rightarrow> linux_device \<Rightarrow> raised + linux_device" where
  "init_options [] d = Inr d"
| "init_options (entry # entries) d = (case init_option entry d of Inl e \<Rightarrow> Inl e | Inr d' \<Rightarrow> init_options entries d')"

definition linux_init :: "(string, json) dict \<Rightarrow> raised + linux_device" where
  "linux_init config =
     (let d = \<lparr>ld_config = config, ld_prompt = [DEFAULT_BASH_SHELL_PROMPT_PATTERN], ld_static_route = [], ld_mgmt_dns = None,
               ld_dante = False, ld_eth = ''eth1'', ld_wlan = ''wlan1'', ld_internet = []\<rparr>
      in case dict_get config ''options'' of
           None \<Rightarrow> Inr d
         | Some (JStr s) \<Rightarrow> init_options (option_list s) d
         | Some _ \<Rightarrow> Inl attribute_error)"

definition suboption :: "string \<Rightarrow> (string, string) dict \<Rightarrow> (string, string) dict" where
  "suboption entry parsed =
     (let o' = strip whitespace entry
      in if CHR '':'' \<in> set o'
         then dict_set (strip whitespace (before_first (CHR '':'') o')) (strip whitespace (after_first (CHR '':'') o')) parsed
         else dict_set o' [] parsed)"

definition parse_device_suboptions :: "linux_device \<Rightarrow> raised + (string, string) dict" where
  "parse_device_suboptions d =
     (case dict_get (ld_config d) ''options'' of
        None \<Rightarrow> Inr []
      | Some (JStr s) \<Rightarrow> Inr (fold suboption (option_list s) [])
      | Some _ \<Rightarrow> Inl attribute_error)"

definition ipaddr :: "linux_device \<Rightarrow> json" where
  "ipaddr d = get_or_none (ld_config d) ''ipaddr''"

definition ssh_port :: "linux_device \<Rightarrow> json" where
  "ssh_port d = kwarg (ld_config d) ''port'' (JStr ''22'')"

definition username :: "linux_device \<Rightarrow> json" where
  "username d = kwarg (ld_config d) ''username'' (JStr ''root'')"

definition password :: "linux_device \<Rightarrow> json" where
  "password d = kwarg (ld_config d) ''password'' (JStr ''bigfoot1'')"

definition own_name :: "linux_device \<Rightarrow> string" where
  "own_name d = shown (get_or_none (ld_config d) ''name'')"

section \<open>Connecting\<close>

text \<open>
  Starting the session of a connection is a parameter, \<open>spawn\<close>; a serial connection also waits for its
  terminal. The console is stored before the login: it stays when the login fails.
\<close>

definition connection_kwargs :: "json \<Rightarrow> linux_device \<Rightarrow> (string, json) dict" where
  "connection_kwargs save_console_logs d =
     [(''username'', username d), (''password'', password d), (''ip_addr'', ipaddr d), (''port'', ssh_port d),
      (''shell_prompt'', JList (map JStr (ld_prompt d))), (''save_console_logs'', save_console_logs)]"

definition open_console :: "(connection \<Rightarrow> ('w, 'w spawn) io) \<Rightarrow> connection \<Rightarrow> ('w, 'w console) io" where
  "open_console spawn c =
     seq (spawn c) (\<lambda>sp.
     andthen (if cn_class c = SerialConnection then serial_ready sp else ret ()) (ret (console_of c sp)))"

type_synonym 'w held = "'w \<times> 'w console option"

text \<open>Work on the world alone, and storing the console.\<close>

definition on_world :: "('w, 'a) io \<Rightarrow> ('w held, 'a) io" where
  "on_world m s = (let (r, w) = m (fst s) in (r, (w, snd s)))"

definition hold :: "'w console option \<Rightarrow> ('w held, unit) io" where
  "hold c s = (Inr (), (fst s, c))"

definition connect ::
  "(connection \<Rightarrow> ('w, 'w spawn) io) \<Rightarrow> json \<Rightarrow> linux_device \<Rightarrow> ('w held, unit) io" where
  "connect spawn save_console_logs d =
     seq (reading snd) (\<lambda>held.
     if held \<noteq> None then ret ()
     else
       seq (lift_sum (connection_factory (get_or_none (ld_config d) ''connection_type'') (connection_kwargs save_console_logs d))) (\<lambda>conn.
       seq (on_world (open_console spawn conn)) (\<lambda>c.
       andthen (hold (Some c))
       (andthen (on_world (c_login c (text_or_none (password d))))
       (on_world (do_cmd c ''stty columns 400; export TERM=xterm''))))))"

definition disconnect :: "('w held, unit) io" where
  "disconnect =
     seq (reading snd) (\<lambda>held.
     case held of
       None \<Rightarrow> ret ()
     | Some c \<Rightarrow> andthen (on_world (sp_close c True)) (hold None))"

definition get_interactive_consoles :: "'w held \<Rightarrow> (string, 'w console) dict" where
  "get_interactive_consoles s = (case snd s of None \<Rightarrow> [] | Some c \<Rightarrow> [(''console'', c)])"

section \<open>Addresses\<close>

text \<open>\<^verbatim>\<open>r"inet\s(?:addr:)?\s*([^\s/]+)"\<close>.\<close>

definition address_rx :: "bool \<Rightarrow> rx" where
  "address_rx is_ipv6 =
     cats [lit (if is_ipv6 then ''inet6'' else ''inet''), blank, opt (lit ''addr:''), star blank,
           Grp 1 (plus (Cls (\<lambda>c. \<not> is_space c \<and> c \<noteq> CHR ''/'')))]"

definition not_supported :: raised where
  "not_supported = py_error NotSupportedError ''NotSupportedError'' []"

definition get_nw_interface_ip_address :: "'w console option \<Rightarrow> string \<Rightarrow> bool \<Rightarrow> ('w, string list) io" where
  "get_nw_interface_ip_address held interface_name is_ipv6 =
     (case held of
        None \<Rightarrow> throw not_supported
      | Some c \<Rightarrow> seq (run_cmd c (''ifconfig '' @ interface_name)) (\<lambda>output. ret (re_findall1 (address_rx is_ipv6) output)))"

definition get_nw_interface_ipv4_address :: "'w console option \<Rightarrow> string \<Rightarrow> ('w, string) io" where
  "get_nw_interface_ipv4_address held network_interface =
     seq (get_nw_interface_ip_address held network_interface False) (\<lambda>ips. ret (case ips of [] \<Rightarrow> [] | ip # _ \<Rightarrow> ip))"

text \<open>
  The first address of the wanted type; \<open>flag\<close> is the attribute of that name, \<open>None\<close> where there is none.
  Addresses after it are not looked at.
\<close>

fun first_of_type :: "(string \<Rightarrow> int \<Rightarrow> bool option) \<Rightarrow> string \<Rightarrow> string list \<Rightarrow> raised + string" where
  "first_of_type flag t [] = Inr []"
| "first_of_type flag t (ip # ips) =
     (case parse_ipv6 ip of
        None \<Rightarrow> Inl (py_error PyValueError ''AddressValueError'' [])
      | Some n \<Rightarrow>
          (case flag t n of
             None \<Rightarrow> Inl attribute_error
           | Some b \<Rightarrow> if b then Inr ip else first_of_type flag t ips))"

definition get_nw_interface_ipv6_address ::
  "(string \<Rightarrow> int \<Rightarrow> bool option) \<Rightarrow> 'w console option \<Rightarrow> string \<Rightarrow> string \<Rightarrow> ('w, string) io" where
  "get_nw_interface_ipv6_address flag held network_interface address_type =
     seq (get_nw_interface_ip_address held network_interface True) (\<lambda>ips.
     lift_sum (first_of_type flag (py_replace ''-'' ''_'' address_type) ips))"

definition get_eth_interface_ipv4_address :: "linux_device \<Rightarrow> 'w console option \<Rightarrow> ('w, string) io" where
  "get_eth_interface_ipv4_address d held = get_nw_interface_ipv4_address held (ld_eth d)"

definition get_eth_interface_ipv6_address ::
  "(string \<Rightarrow> int \<Rightarrow> bool option) \<Rightarrow> linux_device \<Rightarrow> 'w console option \<Rightarrow> string \<Rightarrow> ('w, string) io" where
  "get_eth_interface_ipv6_address flag d held address_type = get_nw_interface_ipv6_address flag held (ld_eth d) address_type"

definition get_interface_ipv6addr :: "(string \<Rightarrow> int \<Rightarrow> bool option) \<Rightarrow> 'w console option \<Rightarrow> string \<Rightarrow> ('w, string) io" where
  "get_interface_ipv6addr flag held interface = get_nw_interface_ipv6_address flag held interface ''global''"

definition get_interface_link_local_ipv6addr ::
  "(string \<Rightarrow> int \<Rightarrow> bool option) \<Rightarrow> 'w console option \<Rightarrow> string \<Rightarrow> ('w, string) io" where
  "get_interface_link_local_ipv6addr flag held interface = get_nw_interface_ipv6_address flag held interface ''link-local''"

text \<open>The cached properties: computed once, until the cache is cleared.\<close>

definition cached :: "('w, string) io \<Rightarrow> ('w \<times> string option, string) io" where
  "cached m s =
     (case snd s of
        Some v \<Rightarrow> (Inr v, s)
      | None \<Rightarrow>
          (case m (fst s) of
             (Inl e, w) \<Rightarrow> (Inl e, (w, None))
           | (Inr v, w) \<Rightarrow> (Inr v, (w, Some v))))"

definition ipv4_addr :: "linux_device \<Rightarrow> 'w console option \<Rightarrow> ('w \<times> string option, string) io" where
  "ipv4_addr d held = cached (get_nw_interface_ipv4_address held (ld_eth d))"

definition ipv6_addr ::
  "(string \<Rightarrow> int \<Rightarrow> bool option) \<Rightarrow> linux_device \<Rightarrow> 'w console option \<Rightarrow> ('w \<times> string option, string) io" where
  "ipv6_addr flag d held = cached (get_nw_interface_ipv6_address flag held (ld_eth d) ''global'')"

definition mask_rx :: rx where
  "mask_rx = cats [opt (lit ''net''), one_of ''Mm'', lit ''ask'', plus blank, Grp 1 (plus non_blank)]"

definition get_interface_mask :: "'w console \<Rightarrow> string \<Rightarrow> ('w, string) io" where
  "get_interface_mask c interface =
     seq (run_cmd c (''ifconfig '' @ interface)) (\<lambda>out.
     case re_search mask_rx out of None \<Rightarrow> throw attribute_error | Some m \<Rightarrow> ret (group 1 m))"

section \<open>Static routes\<close>

definition route_parts :: "string \<Rightarrow> raised + string \<times> string" where
  "route_parts route_entry =
     (case map (strip whitespace) (split_on (CHR ''-'') route_entry) of
        [destination, gateway] \<Rightarrow> Inr (destination, gateway)
      | [_] \<Rightarrow> Inl (value_error ''not enough values to unpack (expected 2, got 1)'')
      | _ \<Rightarrow> Inl (value_error ''too many values to unpack (expected 2)''))"

definition is_type_error :: "raised \<Rightarrow> bool" where
  "is_type_error e \<longleftrightarrow> rx_class e = PyTypeError"

definition set_route :: "'w console \<Rightarrow> string \<Rightarrow> string \<Rightarrow> ('w, unit) io" where
  "set_route c opt_val route_entry =
     catch
       (catch
         (seq (lift_sum (route_parts route_entry)) (\<lambda>(destination, gateway).
          andthen (do_cmd c (''ip route del '' @ destination))
          (do_cmd c (''ip route add '' @ destination @ '' via '' @ gateway))))
         is_timeout (\<lambda>_. ret ()))
       is_type_error
       (\<lambda>_. throw (value_error (''Validate the syntax of static-route for '' @ opt_val @ ''.'')))"

definition setup_static_routes :: "linux_device \<Rightarrow> 'w console \<Rightarrow> ('w, unit) io" where
  "setup_static_routes d c =
     seq (lift_sum (parse_device_suboptions d)) (\<lambda>options.
     for_each (\<lambda>(option, opt_val).
       if option = ''static-route'' then for_each (set_route c opt_val) (split_on (CHR '';'') opt_val) else ret ()) options)"

section \<open>Facts\<close>

lemma init_option_dns:
  "init_option e d = Inr d' \<Longrightarrow>
   (if startswith e ''mgmt-dns:'' then map_option Inr (ld_mgmt_dns d') = Some (interface_v4 (py_replace ''mgmt-dns:'' [] e))
    else ld_mgmt_dns d' = Some 0x08080808)"
  by (auto simp: init_option_def Let_def split: sum.splits if_splits)

lemma init_options_snoc:
  "init_options (es @ [e]) d = (case init_options es d of Inl x \<Rightarrow> Inl x | Inr d' \<Rightarrow> init_option e d')"
  by (induction es arbitrary: d) (auto split: sum.splits)

lemma kwargs_simps [simp]:
  "dict_mem ''username'' (connection_kwargs v d)" "dict_mem ''password'' (connection_kwargs v d)"
  "\<not> dict_mem ''ldap_credentials'' (connection_kwargs v d)" "\<not> dict_mem ''conn_command'' (connection_kwargs v d)"
  by (simp_all add: connection_kwargs_def dict_mem_def)

lemma factory_kinds:
  assumes "connection_factory t (connection_kwargs v d) = Inr c"
  shows "t = JStr ''ssh_connection'' \<or> t = JStr ''authenticated_ssh'' \<or> cn_class c = TelnetConnection \<or> cn_class c = Ser2NetConnection"
proof -
  obtain s where t: "t = JStr s" using assms by (cases t) (auto simp: connection_factory_def)
  have kinds: "s = ''ssh_connection'' \<or> s = ''authenticated_ssh'' \<or> s = ''ldap_authenticated_serial'' \<or>
      s = ''local_cmd'' \<or> s = ''serial'' \<or> s = ''ser2net'' \<or> s = ''telnet''"
  proof -
    obtain call where "dict_get connection_dispatcher s = Some call"
      using assms t by (auto simp: connection_factory_def split: option.splits)
    then have "s \<in> set (dict_keys connection_dispatcher)" by (force dest: map_of_SomeD)
    then show ?thesis by (simp only: connection_dispatcher_def list.map fst_conv list.set insert_iff empty_iff simp_thms)
  qed
  show ?thesis using kinds assms t
    by (elim disjE) (auto simp: connection_factory_def connection_dispatcher_def call_ldap_def call_local_def call_serial_def
        bind_required_def ser2net_param_parser_def telnet_param_parser_def telnet_init_def split: sum.splits)
qed

lemma on_world_ok [simp]: "on_world m s = (Inr x, s') \<longleftrightarrow> (\<exists>w. m (fst s) = (Inr x, w) \<and> s' = (w, snd s))"
  by (auto simp: on_world_def Let_def split: prod.splits)

lemma console_of_login [simp]: "c_login (console_of c sp) = login_to_server c sp"
  by (simp add: console_of_def spawn.defs console.defs)

lemma open_console_ok:
  "open_console spawn c w = (Inr x, w') \<Longrightarrow> \<exists>sp. x = console_of c sp"
  by (auto simp: open_console_def seq_ok andthen_ok)

lemma suboption_keys: "wf_dict ps \<Longrightarrow> wf_dict (suboption e ps)"
  by (simp add: suboption_def Let_def wf_dict_def distinct_update)

lemma suboptions_wf: "parse_device_suboptions d = Inr ps \<Longrightarrow> wf_dict ps"
proof -
  have "wf_dict ps \<Longrightarrow> wf_dict (fold suboption es ps)" for es ps
    by (induction es arbitrary: ps) (auto simp: suboption_keys)
  moreover have "wf_dict []" by (simp add: wf_dict_def)
  ultimately show "parse_device_suboptions d = Inr ps \<Longrightarrow> wf_dict ps"
    by (auto simp: parse_device_suboptions_def split: option.splits json.splits)
qed

lemma for_each_trace:
  "(\<And>x tr. x \<in> set xs \<Longrightarrow> m x tr = (Inr (), tr @ f x)) \<Longrightarrow> for_each m xs tr = (Inr (), tr @ concat (map f xs))"
  by (induction xs arbitrary: tr) (simp_all add: ret_def andthen_def seq_def)

definition route_actions :: "string \<times> string \<Rightarrow> action list" where
  "route_actions p =
     [Executed (''ip route del '' @ fst p) (-1), Executed (''ip route add '' @ fst p @ '' via '' @ snd p) (-1)]"

lemma other_keys: "distinct (map fst (as @ (k, v) # bs)) \<Longrightarrow> p \<in> set as \<union> set bs \<Longrightarrow> fst p \<noteq> k"
  by auto

lemma set_route_trace:
  assumes "route_parts e = Inr p" and "\<And>h. \<exists>out. dv_output dv h = Inr out"
  shows "set_route (recorded dv) v e tr = (Inr (), tr @ route_actions p)"
proof -
  obtain a b where p: "p = (a, b)" by (cases p)
  obtain o1 where o1: "dv_output dv (tr @ [Executed (''ip route del '' @ a) (-1)]) = Inr o1" using assms(2) by blast
  obtain o2 where o2: "dv_output dv (tr @ [Executed (''ip route del '' @ a) (-1), Executed (''ip route add '' @ a @ '' via '' @ b) (-1)]) = Inr o2"
    using assms(2) by blast
  show ?thesis using assms(1) o1 o2 p
    by (simp add: set_route_def catch_def seq_def lift_sum_def andthen_def do_cmd_def run_cmd_def ret_def route_actions_def)
qed

lemma set_route_syntax:
  assumes "route_parts e = Inl x"
  shows "set_route (recorded dv) v e tr = (Inl x, tr)"
proof -
  have "rx_class x = PyValueError"
    using assms by (auto simp: route_parts_def value_error_def py_error_def split: list.splits)
  then show ?thesis using assms
    by (simp add: set_route_def catch_def seq_def lift_sum_def is_timeout_def is_type_error_def)
qed

section \<open>Properties\<close>

text \<open>the management DNS server of a device is decided by its last option alone: it is the configured
  one exactly when \<^verbatim>\<open>mgmt-dns\<close> comes last, and the default in every other case.\<close>

theorem mgmt_dns_last:
  assumes "init_options (es @ [e]) d = Inr d'"
  shows "ld_mgmt_dns d' =
    (if startswith e ''mgmt-dns:'' then
       (case interface_v4 (py_replace ''mgmt-dns:'' [] e) of Inr ip \<Rightarrow> Some ip | Inl _ \<Rightarrow> None)
     else Some 0x08080808)"
proof -
  obtain d1 where "init_option e d1 = Inr d'" using assms by (auto simp: init_options_snoc split: sum.splits)
  from init_option_dns [OF this] show ?thesis by (auto split: if_splits sum.splits)
qed

theorem mgmt_dns_last_witness:
  "\<exists>d'. linux_init [(''options'', JStr ''mgmt-dns:10.0.0.53, dante'')] = Inr d' \<and> ld_mgmt_dns d' = Some 0x08080808"
proof -
  have l: "option_list ''mgmt-dns:10.0.0.53, dante'' = [''mgmt-dns:10.0.0.53''] @ [''dante'']" by code_simp
  let ?d = "\<lparr>ld_config = [(''options'', JStr ''mgmt-dns:10.0.0.53, dante'')], ld_prompt = [DEFAULT_BASH_SHELL_PROMPT_PATTERN],
    ld_static_route = [], ld_mgmt_dns = None, ld_dante = False, ld_eth = ''eth1'', ld_wlan = ''wlan1'', ld_internet = []\<rparr>"
  have s: "\<not> startswith ''dante'' ''mgmt-dns:''" by code_simp
  have "\<not> isl (init_options ([''mgmt-dns:10.0.0.53''] @ [''dante'']) ?d)" by code_simp
  then obtain d' where d': "init_options ([''mgmt-dns:10.0.0.53''] @ [''dante'']) ?d = Inr d'"
    by (cases "init_options ([''mgmt-dns:10.0.0.53''] @ [''dante'']) ?d") auto
  then have "linux_init [(''options'', JStr ''mgmt-dns:10.0.0.53, dante'')] = Inr d'" by (simp add: linux_init_def l Let_def)
  then show ?thesis using mgmt_dns_last [OF d'] s by simp
qed

text \<open>a Linux device with a password connects only through SSH. Whatever the session answers, connecting
  succeeds only for the two SSH connection types: the arguments the device passes are not those the local,
  the serial and the LDAP connection need, and telnet refuses any password.\<close>

theorem linux_connects_by_ssh:
  assumes "connect spawn save d (w, None) = (Inr (), s')" and "text_or_none (password d) = Some p"
  shows "get_or_none (ld_config d) ''connection_type'' \<in> {JStr ''ssh_connection'', JStr ''authenticated_ssh''}"
proof -
  obtain conn c w1 w2 where f: "connection_factory (get_or_none (ld_config d) ''connection_type'') (connection_kwargs save d) = Inr conn"
    and o: "open_console spawn conn w = (Inr c, w1)" and l: "c_login c (Some p) w1 = (Inr (), w2)"
    using assms by (auto simp: connect_def seq_ok andthen_ok hold_def)
  obtain sp where c: "c = console_of conn sp" using open_console_ok [OF o] by blast
  have "\<not> (cn_class conn = TelnetConnection \<or> cn_class conn = Ser2NetConnection)"
    using l c by (auto simp: login_to_server_def telnet_login_def ser2net_login_def andthen_ok)
  then show ?thesis using factory_kinds [OF f] by blast
qed

definition sample_linux :: linux_device where
  "sample_linux =
     \<lparr>ld_config = [(''connection_type'', JStr ''authenticated_ssh''), (''ipaddr'', JStr ''10.0.0.1'')],
      ld_prompt = [''#''], ld_static_route = [], ld_mgmt_dns = None, ld_dante = False, ld_eth = ''eth1'',
      ld_wlan = ''wlan1'', ld_internet = []\<rparr>"

text \<open>A device that answers the login with a prompt, and then every command.\<close>

definition login_device :: "nat \<Rightarrow> answers" where
  "login_device greeting =
     (sample_device 0)\<lparr>dv_index := \<lambda>h. Inr (case last h of Expected (Eof # _) _ \<Rightarrow> 2 | Expected (Text _ # Eof # _) _ \<Rightarrow> greeting | _ \<Rightarrow> 0)\<rparr>"

abbreviation sample_spawn :: "nat \<Rightarrow> connection \<Rightarrow> (action list, action list spawn) io" where
  "sample_spawn greeting \<equiv> \<lambda>c. ret (spawn.truncate (recorded (login_device greeting)))"

lemmas connect_defs =
  connect_def seq_def reading_def lift_sum_def on_world_def open_console_def andthen_def hold_def ret_def
  login_to_server_def ssh_login_def send_password_def or_else_def fail_if_def

lemma sample_factory:
  "connection_factory (get_or_none (ld_config sample_linux) ''connection_type'') (connection_kwargs JNull sample_linux) =
   Inr (ssh_init ''10.0.0.1'' ''root'' [''#''] ''22'' (Some ''bigfoot1''))"
  by (simp add: sample_linux_def connection_factory_def connection_dispatcher_def connection_kwargs_def call_ssh_def
      bind_required_def dict_mem_def get_or_none_def username_def password_def ipaddr_def ssh_port_def kwarg_def
      shown_def text_items_def text_or_none_def)

theorem linux_connects_by_ssh_witness:
  "fst (connect (sample_spawn 0) JNull sample_linux ([], None)) = Inr () \<and>
   get_or_none (ld_config sample_linux) ''connection_type'' \<in> {JStr ''ssh_connection'', JStr ''authenticated_ssh''}"
proof -
  have p: "text_or_none (password sample_linux) = Some ''bigfoot1''"
    by (simp add: password_def sample_linux_def kwarg_def text_or_none_def)
  have run: "fst (connect (sample_spawn 0) JNull sample_linux ([], None)) = Inr ()"
    using sample_factory p
    by (simp add: connect_defs ssh_init_def do_cmd_def run_cmd_def console_of_def spawn.defs console.defs
        execute_command_def ssh_execute_def get_last_output_def login_device_def sample_device_def prompts_def
        split: prod.splits)
  then obtain s' where "connect (sample_spawn 0) JNull sample_linux ([], None) = (Inr (), s')" by (metis prod.collapse)
  from linux_connects_by_ssh [OF this p] run show ?thesis by blast
qed

text \<open>a failed login is remembered as a connection. When the login of a new console fails, the attempt
  raises but the console stays; every later attempt returns at once, without logging in.\<close>

theorem failed_login_sticks:
  assumes "connection_factory (get_or_none (ld_config d) ''connection_type'') (connection_kwargs save d) = Inr conn"
    and "open_console spawn conn w = (Inr c, w1)"
    and "c_login c (text_or_none (password d)) w1 = (Inl e, w2)"
  shows "connect spawn save d (w, None) = (Inl e, (w2, Some c)) \<and>
    connect spawn save d (w2, Some c) = (Inr (), (w2, Some c))"
  using assms by (simp add: connect_def seq_def reading_def lift_sum_def on_world_def andthen_def hold_def ret_def)

theorem failed_login_sticks_witness:
  "\<exists>e w2 c. connect (sample_spawn 1) JNull sample_linux ([], None) = (Inl e, (w2, Some c)) \<and>
     connect (sample_spawn 1) JNull sample_linux (w2, Some c) = (Inr (), (w2, Some c))"
proof -
  let ?conn = "ssh_init ''10.0.0.1'' ''root'' [''#''] ''22'' (Some ''bigfoot1'')"
  let ?c = "console_of ?conn (spawn.truncate (recorded (login_device 1)))"
  have o: "open_console (sample_spawn 1) ?conn [] = (Inr ?c, [])"
    by (simp add: open_console_def seq_def ret_def andthen_def ssh_init_def)
  have l: "c_login ?c (text_or_none (password sample_linux)) [] =
      (Inl (connection_error ''Connection failed to SSH server''), [Expected [Text ''password:'', Eof, Timeout] (-1)])"
    by (simp add: login_to_server_def ssh_login_def ssh_init_def seq_def login_device_def throw_def)
  from failed_login_sticks [OF sample_factory o l] show ?thesis by blast
qed

text \<open>static routes are set in the order of the configuration: each entry of the option deletes and then
  adds its route, up to the first entry that is not a destination and a gateway, whose unpacking error
  is what escapes. The error that asks to validate the syntax is never raised for it.\<close>

theorem static_routes_in_order:
  assumes "parse_device_suboptions d = Inr ps" and "dict_get ps ''static-route'' = Some v"
    and "split_on (CHR '';'') v = es @ rest" and "\<And>e. e \<in> set es \<Longrightarrow> route_parts e = Inr (f e)"
    and "rest = [] \<or> route_parts (hd rest) = Inl x"
    and "\<And>h. \<exists>out. dv_output dv h = Inr out"
  shows "setup_static_routes d (recorded dv) [] =
    (if rest = [] then Inr () else Inl x, concat (map (\<lambda>e. route_actions (f e)) es))"
proof -
  let ?m = "\<lambda>(option, opt_val). if option = ''static-route'' then for_each (set_route (recorded dv) opt_val) (split_on (CHR '';'') opt_val) else ret ()"
  obtain as bs where ps: "ps = as @ (''static-route'', v) # bs" and
    others: "\<And>p. p \<in> set as \<union> set bs \<Longrightarrow> fst p \<noteq> ''static-route''"
  proof -
    obtain as bs where ps: "ps = as @ (''static-route'', v) # bs" using map_of_SomeD [OF assms(2)] by (metis split_list)
    have d: "distinct (map fst (as @ (''static-route'', v) # bs))" using suboptions_wf [OF assms(1)] ps by (simp only: wf_dict_def)
    show ?thesis by (rule that [OF ps other_keys [OF d]])
  qed
  have skip: "for_each ?m qs tr = (Inr (), tr)" if "\<And>p. p \<in> set qs \<Longrightarrow> fst p \<noteq> ''static-route''" for qs tr
    using for_each_trace [of qs ?m "\<lambda>_. []" tr] that by (auto simp: ret_def)
  have es: "for_each (set_route (recorded dv) v) es [] = (Inr (), concat (map (\<lambda>e. route_actions (f e)) es))"
    using for_each_trace [of es "set_route (recorded dv) v" "\<lambda>e. route_actions (f e)" "[]"] set_route_trace assms(4,6) by simp
  have run: "for_each (set_route (recorded dv) v) (es @ rest) [] =
      (if rest = [] then Inr () else Inl x, concat (map (\<lambda>e. route_actions (f e)) es))"
    using es assms(5) set_route_syntax [of "hd rest" x dv v]
    by (cases rest) (auto simp: for_each_append andthen_def seq_def ret_def)
  have "for_each ?m ps [] = (if rest = [] then Inr () else Inl x, concat (map (\<lambda>e. route_actions (f e)) es))"
    unfolding ps for_each_append
    using skip [of as "[]"] skip [of bs] run others assms(3) by (auto simp: andthen_def seq_def)
  then show ?thesis using assms(1) by (simp add: setup_static_routes_def seq_def lift_sum_def)
qed

theorem static_routes_in_order_witness:
  "let d = sample_linux\<lparr>ld_config := [(''options'', JStr ''static-route:10.0.0.0/8 - 10.1.1.1;bad'')]\<rparr>
   in setup_static_routes d (recorded (sample_device 0)) [] =
      (Inl (value_error ''not enough values to unpack (expected 2, got 1)''),
       [Executed ''ip route del 10.0.0.0/8'' (-1), Executed ''ip route add 10.0.0.0/8 via 10.1.1.1'' (-1)])"
proof -
  let ?d = "sample_linux\<lparr>ld_config := [(''options'', JStr ''static-route:10.0.0.0/8 - 10.1.1.1;bad'')]\<rparr>"
  have f: "fold suboption (option_list ''static-route:10.0.0.0/8 - 10.1.1.1;bad'') [] = [(''static-route'', ''10.0.0.0/8 - 10.1.1.1;bad'')]"
    by code_simp
  have ps: "parse_device_suboptions ?d = Inr [(''static-route'', ''10.0.0.0/8 - 10.1.1.1;bad'')]"
    by (simp add: parse_device_suboptions_def f)
  have s: "split_on (CHR '';'') ''10.0.0.0/8 - 10.1.1.1;bad'' = [''10.0.0.0/8 - 10.1.1.1''] @ [''bad'']" by code_simp
  have g: "route_parts ''10.0.0.0/8 - 10.1.1.1'' = Inr (''10.0.0.0/8'', ''10.1.1.1'')" by code_simp
  have b: "map (strip whitespace) (split_on (CHR ''-'') ''bad'') = [''bad'']" by code_simp
  have rb: "route_parts ''bad'' = Inl (value_error ''not enough values to unpack (expected 2, got 1)'')"
    unfolding route_parts_def b by simp
  have "setup_static_routes ?d (recorded (sample_device 0)) [] =
      (if [''bad''] = ([] :: string list) then Inr () else Inl (value_error ''not enough values to unpack (expected 2, got 1)''),
       concat (map (\<lambda>e. route_actions (''10.0.0.0/8'', ''10.1.1.1'')) [''10.0.0.0/8 - 10.1.1.1'']))"
    by (rule static_routes_in_order [OF ps _ s]) (simp_all add: g rb sample_device_def)
  then show ?thesis by (simp add: route_actions_def Let_def)
qed

end
