(* ===== verification/Linux_Tools.thy ===== *)
theory Linux_Tools
  imports Linux_Device
begin

text \<open>
  The commands of the Linux device (\<^verbatim>\<open>boardfarm3/devices/base_devices/linux_device.py\<close>), on its console and
  the patterns of its prompt. The parsers of \<^verbatim>\<open>jc\<close> and \<^verbatim>\<open>xmltodict\<close>, files of the host, and starting a
  local program are parameters. A coroutine that is called and not awaited does nothing.
\<close>

section \<open>Copying and fetching\<close>

text \<open>\<open>run_local\<close> starts a program with its arguments and gives its session.\<close>

definition scp_local_files ::
  "(string \<Rightarrow> string list \<Rightarrow> ('w, 'w spawn) io) \<Rightarrow> linux_device \<Rightarrow> string \<Rightarrow> string \<Rightarrow> ('w, unit) io" where
  "scp_local_files run_local d source destination =
     (let args = [''-P '' @ shown (ssh_port d), ''-o StrictHostKeyChecking=no'', ''-o UserKnownHostsFile=/dev/null'',
                  ''-o ServerAliveInterval=60'', ''-o ServerAliveCountMax=5'', source, destination]
      in seq (run_local ''scp'' args) (\<lambda>session.
         seq (sp_expect session [Text '' password:'', Text ([CHR 0x5C] @ ''d+%''), Timeout, Eof] 20) (\<lambda>match_index.
         if match_index \<in> {2, 3}
         then throw (scp_error (''Failed to perform SCP from '' @ source @ '' to '' @ destination))
         else
           andthen (when_io (match_index = 0) (send_password session (text_or_none (password d))))
           (andthen (sp_expect session [Eof] 90)
           (seq (sp_wait session) (\<lambda>code.
           if code \<noteq> 0 then throw (scp_error (''Failed to SCP file from '' @ source @ '' to '' @ destination)) else ret ()))))))"

definition remote_path :: "linux_device \<Rightarrow> string \<Rightarrow> string" where
  "remote_path d path = shown (username d) @ ''@'' @ shown (ipaddr d) @ '':'' @ path"

definition scp_device_file_to_local ::
  "(string \<Rightarrow> string list \<Rightarrow> ('w, 'w spawn) io) \<Rightarrow> linux_device \<Rightarrow> string \<Rightarrow> string \<Rightarrow> ('w, unit) io" where
  "scp_device_file_to_local run_local d local_path source_path = scp_local_files run_local d (remote_path d source_path) local_path"

definition scp_local_file_to_device ::
  "(string \<Rightarrow> string list \<Rightarrow> ('w, 'w spawn) io) \<Rightarrow> linux_device \<Rightarrow> string \<Rightarrow> string \<Rightarrow> ('w, unit) io" where
  "scp_local_file_to_device run_local d local_path destination_path =
     scp_local_files run_local d local_path (remote_path d destination_path)"

definition configuration_failure :: "string \<Rightarrow> raised" where
  "configuration_failure m = py_error ConfigurationFailure ''ConfigurationFailure'' m"

definition download_file_from_uri ::
  "(string \<Rightarrow> string list \<Rightarrow> ('w, 'w spawn) io) \<Rightarrow> linux_device \<Rightarrow> 'w console \<Rightarrow> string \<Rightarrow> string \<Rightarrow> string \<Rightarrow> ('w, string) io" where
  "download_file_from_uri run_local d c file_uri destination_dir internet_access_cmd =
     (let file_name = last (split_on (CHR ''/'') file_uri)
      in if startswith file_uri ''file:///''
         then andthen (scp_local_file_to_device run_local d (py_replace ''file://'' [] file_uri) destination_dir) (ret file_name)
         else
           (let access = (if internet_access_cmd = [] then ld_internet d else internet_access_cmd);
                file_path = destination_dir @ ''/'' @ file_name
            in seq (c_execute c (access @ '' wget '' @ py_repr file_uri @ '' -O '' @ file_path @
                     '' --tries=5 --timeout=30 --waitretry=5'') 180) (\<lambda>output.
               if \<not> str_in '' saved ['' output
               then throw (configuration_failure (''Failed to download file from '' @ file_uri)) else ret file_name)))"

definition web_address :: "string \<Rightarrow> string \<Rightarrow> json \<Rightarrow> string" where
  "web_address url protocol port =
     (if truthy port then
        protocol @ ''://'' @
        (if re_found AllValidIpv6AddressesRegex url \<and> CHR ''['' \<notin> set url then ''['' @ url @ '']'' else url) @
        '':'' @ shown port
      else protocol @ ''://'' @ url)"

definition curl :: "linux_device \<Rightarrow> 'w console \<Rightarrow> string \<Rightarrow> string \<Rightarrow> json \<Rightarrow> string \<Rightarrow> ('w, bool) io" where
  "curl d c url protocol port options =
     andthen (sp_sendline c (''curl -v '' @ options @ '' '' @ web_address url protocol port))
     (seq (sp_expect c
        (map Text [''Connected to'', ''DOCTYPE html PUBLIC'', ''doctype html'', ''Connection timed out'', ''Failed to connect to'',
                   ''Couldn'' @ [CHR 0x27] @ ''t connect to server'']) 100) (\<lambda>index.
     andthen
       (catch (at_prompt c (ld_prompt d) (-1)) is_timeout
          (\<lambda>_. andthen (sp_sendcontrol c ''c'') (at_prompt c (ld_prompt d) (-1))))
       (ret (index \<in> {0, 1, 2}))))"

section \<open>Interfaces\<close>

definition set_link_state :: "linux_device \<Rightarrow> 'w console \<Rightarrow> string \<Rightarrow> string \<Rightarrow> ('w, unit) io" where
  "set_link_state d c interface state =
     andthen (c_sudo_sendline c (''ip link set '' @ interface @ '' '' @ state)) (at_prompt c (ld_prompt d) (-1))"

definition get_interface_macaddr :: "linux_device \<Rightarrow> 'w console \<Rightarrow> string \<Rightarrow> ('w, string) io" where
  "get_interface_macaddr d c interface =
     andthen (sp_sendline c (''cat /sys/class/net/'' @ interface @ ''/address | '' @ [CHR 0x5C]))
     (andthen (sp_sendline c (''awk '' @ [CHR 0x27] @ ''{print '' @ [CHR 0x22] @ ''bft_macaddr : '' @ [CHR 0x22] @ ''$1}'' @ [CHR 0x27]))
     (andthen (sp_expect c [Text ''bft_macaddr : ([0-9a-f]{2}(?::[0-9a-f]{2}){5})''] (-1))
     (seq (reading (sp_group c 1)) (\<lambda>macaddr.
     andthen (at_prompt c (ld_prompt d) (-1)) (ret macaddr)))))"

section \<open>Reachability\<close>

datatype 'j ping_result = Verdict bool | Parsed 'j

definition ping_rx :: "string \<Rightarrow> rx" where
  "ping_rx n =
     cats [lit (n @ '' packets transmitted, '' @ n @ '' ''), star (one_of ''packets ''), lit ''received, 0% packet loss'']"

definition arping_rx :: "string \<Rightarrow> rx" where
  "arping_rx n =
     cats [lit (n @ '' packets transmitted, '' @ n @ '' packets received,''), plus blank, lit ''0% unanswered'']"

definition ping_command :: "string \<Rightarrow> string \<Rightarrow> int \<Rightarrow> string option \<Rightarrow> string \<Rightarrow> string" where
  "ping_command tool ping_ip ping_count ping_interface options =
     tool @ '' -c '' @ int_str ping_count @ '' '' @ ping_ip @
     (case ping_interface of None \<Rightarrow> [] | Some i \<Rightarrow> if i = [] then [] else '' -I '' @ i) @ '' '' @ options"

definition ping ::
  "(string \<Rightarrow> raised + 'j) \<Rightarrow> linux_device \<Rightarrow> 'w console \<Rightarrow> string \<Rightarrow> int \<Rightarrow> string option \<Rightarrow> string \<Rightarrow> int \<Rightarrow> bool \<Rightarrow>
   ('w, 'j ping_result) io" where
  "ping parse d c ping_ip ping_count ping_interface options timeout json_output =
     andthen (sp_sendline c (ping_command ''ping'' ping_ip ping_count ping_interface options))
     (andthen (at_prompt c (ld_prompt d) timeout)
     (seq (reading (sp_before c)) (\<lambda>before.
     if json_output
     then seq (lift_sum (parse (py_replace (''pipe '' @ int_str ping_count @ crlf) [] before))) (\<lambda>j. ret (Parsed j))
     else ret (Verdict (re_found (ping_rx (int_str ping_count)) before)))))"

definition arping ::
  "(string \<Rightarrow> raised + 'j) \<Rightarrow> linux_device \<Rightarrow> 'w console \<Rightarrow> string \<Rightarrow> int \<Rightarrow> string option \<Rightarrow> string \<Rightarrow> int \<Rightarrow> bool \<Rightarrow>
   ('w, 'j ping_result) io" where
  "arping parse d c ping_ip ping_count ping_interface options timeout json_output =
     andthen (sp_sendline c (ping_command ''arping'' ping_ip ping_count ping_interface options))
     (andthen (at_prompt c (ld_prompt d) timeout)
     (seq (reading (sp_before c)) (\<lambda>before.
     if json_output then seq (lift_sum (parse before)) (\<lambda>j. ret (Parsed j))
     else ret (Verdict (re_found (arping_rx (int_str ping_count)) before)))))"

definition traceroute ::
  "linux_device \<Rightarrow> 'w console \<Rightarrow> string \<Rightarrow> string \<Rightarrow> string \<Rightarrow> int \<Rightarrow> ('w, string option) io" where
  "traceroute d c host_ip version options timeout =
     (let cmd = ''traceroute'' @ version @ '' '' @ options @ '' '' @ host_ip
      in catch
          (andthen (sp_sendline c cmd)
          (andthen (sp_expect_exact c [Text cmd] (-1))
          (andthen (at_prompt c (ld_prompt d) timeout)
          (seq (reading (sp_before c)) (\<lambda>b. ret (Some b))))))
          is_timeout
          (\<lambda>_. andthen (sp_sendcontrol c ''c'') (andthen (at_prompt c (ld_prompt d) (-1)) (ret None))))"

section \<open>Reading captures\<close>

definition run_command_with_args ::
  "linux_device \<Rightarrow> 'w console \<Rightarrow> string \<Rightarrow> string \<Rightarrow> string option \<Rightarrow> int \<Rightarrow> ('w, string) io" where
  "run_command_with_args d c command fname additional_args timeout =
     andthen (c_sudo_sendline c (command @ '' '' @ fname @ '' '' @ (case additional_args of None \<Rightarrow> [] | Some a \<Rightarrow> a)))
     (andthen (at_prompt c (ld_prompt d) timeout) (reading (sp_before c)))"

definition text_option :: "string option \<Rightarrow> string" where
  "text_option x = (case x of None \<Rightarrow> ''None'' | Some s \<Rightarrow> s)"

definition remove_capture :: "linux_device \<Rightarrow> 'w console \<Rightarrow> string \<Rightarrow> ('w, unit) io" where
  "remove_capture d c fname = andthen (c_sudo_sendline c (''rm '' @ fname)) (at_prompt c (ld_prompt d) (-1))"

definition tcpdump_read_pcap ::
  "linux_device \<Rightarrow> 'w console \<Rightarrow> string \<Rightarrow> string option \<Rightarrow> int \<Rightarrow> bool \<Rightarrow> ('w, string) io" where
  "tcpdump_read_pcap d c fname additional_args timeout rm_pcap =
     seq (run_command_with_args d c ''tcpdump -n -r'' fname additional_args timeout) (\<lambda>output.
     if str_in ''No such file or directory'' output
     then throw (file_not_found (''pcap file '' @ fname @ '' not found on '' @ own_name d @ '' device''))
     else if str_in ''syntax error in filter expression'' output
     then throw (boardfarm_error (''Invalid filters for tcpdump read, review additional_args='' @ text_option additional_args))
     else andthen (when_io rm_pcap (remove_capture d c fname)) (ret output))"

definition tshark_read_pcap ::
  "linux_device \<Rightarrow> 'w console \<Rightarrow> string \<Rightarrow> string option \<Rightarrow> int \<Rightarrow> bool \<Rightarrow> ('w, string) io" where
  "tshark_read_pcap d c fname additional_args timeout rm_pcap =
     seq (run_command_with_args d c ''tshark -r'' fname additional_args timeout) (\<lambda>output.
     if str_in (''The file '' @ [CHR 0x22] @ fname @ [CHR 0x22] @ '' doesn'' @ [CHR 0x27] @ ''t exist'') output
     then throw (file_not_found (''pcap file not found '' @ fname @ '' on device '' @ own_name d))
     else if str_in ''was unexpected in this context'' output
     then throw (boardfarm_error (''Invalid filters for tshark read, review additional_args='' @ text_option additional_args))
     else andthen (when_io rm_pcap (remove_capture d c fname)) (ret output))"

section \<open>DHCP clients\<close>

definition release_dhcp :: "linux_device \<Rightarrow> 'w console \<Rightarrow> string \<Rightarrow> ('w, unit) io" where
  "release_dhcp d c interface = andthen (c_sudo_sendline c (''dhclient -r '' @ interface)) (at_prompt c (ld_prompt d) (-1))"

definition prompt_or_timeout :: "linux_device \<Rightarrow> 'w console \<Rightarrow> int \<Rightarrow> ('w, bool) io" where
  "prompt_or_timeout d c t = seq (sp_expect c (Timeout # prompts (ld_prompt d)) t) (\<lambda>i. ret (i = 0))"

definition renew_dhcp :: "linux_device \<Rightarrow> 'w console \<Rightarrow> string \<Rightarrow> ('w, unit) io" where
  "renew_dhcp d c interface =
     andthen (c_sudo_sendline c (''dhclient -v '' @ interface))
     (seq (prompt_or_timeout d c 30) (\<lambda>late.
     when_io late (andthen (sp_sendcontrol c ''c'') (at_prompt c (ld_prompt d) (-1)))))"

text \<open>The coroutine does not await the prompt after interrupting.\<close>

definition renew_dhcp_async :: "linux_device \<Rightarrow> 'w console \<Rightarrow> string \<Rightarrow> ('w, unit) io" where
  "renew_dhcp_async d c interface =
     andthen (c_sudo_sendline c (''dhclient -v '' @ interface))
     (seq (prompt_or_timeout d c 30) (\<lambda>late. when_io late (sp_sendcontrol c ''c'')))"

definition dhclient_mode :: "bool \<Rightarrow> string" where
  "dhclient_mode stateless = (if stateless then ''-S'' else ''-6'')"

definition release_ipv6 :: "linux_device \<Rightarrow> 'w console \<Rightarrow> string \<Rightarrow> bool \<Rightarrow> ('w, unit) io" where
  "release_ipv6 d c interface stateless =
     andthen (c_sudo_sendline c (''dhclient '' @ dhclient_mode stateless @ '' -r '' @ interface)) (at_prompt c (ld_prompt d) (-1))"

definition renew_ipv6 :: "linux_device \<Rightarrow> 'w console \<Rightarrow> string \<Rightarrow> bool \<Rightarrow> ('w, unit) io" where
  "renew_ipv6 d c interface stateless =
     andthen (c_sudo_sendline c (''dhclient '' @ dhclient_mode stateless @ '' -v '' @ interface))
     (seq (prompt_or_timeout d c 15) (\<lambda>late.
     when_io late (andthen (sp_sendcontrol c ''c'') (at_prompt c (ld_prompt d) (-1)))))"

section \<open>Services\<close>

definition start_http_service :: "'w console \<Rightarrow> string \<Rightarrow> string \<Rightarrow> ('w, string) io" where
  "start_http_service c port ip_version =
     seq (run_cmd c (''webfsd -F -p '' @ port @ '' -'' @ ip_version @ '' &'')) (\<lambda>cmd_output.
     if str_in ''Address already in use'' cmd_output
     then throw (boardfarm_error (''Failed to start http service on port '' @ port @ ''.''))
     else lift_sum (job_pid cmd_output))"

definition webfsd_ps :: "string \<Rightarrow> string" where
  "webfsd_ps port = ''ps auxwww | grep '' @ [CHR 0x22] @ ''webfsd -F -p '' @ port @ [CHR 0x22] @ '' | grep -v grep''"

definition webfsd_kill :: "string \<Rightarrow> string" where
  "webfsd_kill port =
     webfsd_ps port @ '' | awk -F '' @ [CHR 0x27, CHR 0x20, CHR 0x27, CHR 0x20, CHR 0x27] @ ''{print $2}'' @ [CHR 0x27] @ '' | xargs kill -9 ''"

definition lists_nothing :: "'w console \<Rightarrow> string \<Rightarrow> ('w, bool) io" where
  "lists_nothing c cmd = seq (run_cmd c cmd) (\<lambda>out. ret (splitlines out = []))"

fun await_gone :: "'w console \<Rightarrow> string \<Rightarrow> int \<Rightarrow> nat \<Rightarrow> ('w, bool) io" where
  "await_gone c cmd pause 0 = ret False"
| "await_gone c cmd pause (Suc n) =
     seq (lists_nothing c cmd) (\<lambda>gone. if gone then ret True else andthen (sp_sleep c pause) (await_gone c cmd pause n))"

definition stop_http_service :: "'w console \<Rightarrow> string \<Rightarrow> ('w, unit) io" where
  "stop_http_service c port =
     seq (lists_nothing c (webfsd_ps port)) (\<lambda>none.
     if none then ret ()
     else
       andthen (do_cmd c (webfsd_kill port))
       (seq (await_gone c (webfsd_ps port) 4 4) (\<lambda>gone.
       if gone then ret ()
       else throw (boardfarm_error (''Failed to kill webfsd process running on port '' @ port)))))"

definition nmap ::
  "(string \<Rightarrow> raised + 'x) \<Rightarrow> 'w console \<Rightarrow> string \<Rightarrow> string \<Rightarrow> json \<Rightarrow> string option \<Rightarrow> json \<Rightarrow> json \<Rightarrow> string option \<Rightarrow> int \<Rightarrow>
   ('w, 'x) io" where
  "nmap xml_parse c address ip_type port protocol max_retries min_rate opts timeout =
     (if ip_type \<notin> {''ipv4'', ''ipv6''} then throw (boardfarm_error ''Invalid ip type, should be either ipv4 or ipv6'')
      else
        (let retries = (if truthy max_retries then ''-max-retries '' @ shown max_retries else []);
             rate = (if truthy min_rate then ''-min-rate '' @ shown min_rate else []);
             p = (if truthy port then ''-p '' @ shown port else []);
             or_empty = (\<lambda>x. case x of None \<Rightarrow> [] | Some s \<Rightarrow> s)
         in seq (c_execute c (''nmap '' @ or_empty protocol @ '' '' @ p @ '' -Pn -r '' @ or_empty opts @ '' '' @ address @ '' '' @
                   retries @ '' '' @ rate @ '' -oX -'') timeout) (\<lambda>out. lift_sum (xml_parse out))))"

definition dante_config :: "string \<Rightarrow> string list" where
  "dante_config interface =
     [''cat > /etc/danted.conf <<EOF'', ''logoutput: stderr'', ''internal: 0.0.0.0 port = 8080'', ''external: '' @ interface,
      ''clientmethod: none'', ''socksmethod: username none #rfc931'', ''user.privileged: root'', ''user.unprivileged: nobody'',
      ''user.libwrap: nobody'', ''client pass {'', ''    from: 0.0.0.0/0 to: 0.0.0.0/0'', ''    log: connect disconnect error'',
      ''}'', ''socks pass {'', ''    from: 0.0.0.0/0 to: 0.0.0.0/0'', ''    log: connect disconnect error'', ''}'', ''EOF'']"

definition start_danteproxy :: "linux_device \<Rightarrow> 'w console \<Rightarrow> string \<Rightarrow> ('w, unit) io" where
  "start_danteproxy d c iface =
     (if \<not> ld_dante d then ret ()
      else
        (let interface = (if iface = ''eth'' then ld_eth d else ld_wlan d)
         in andthen (sp_sendline c (join [CHR 0x0A] (dante_config interface)))
            (andthen (at_prompt c (ld_prompt d) (-1)) (do_cmd c ''service danted stop; sleep 3;service danted start''))))"

definition stop_danteproxy :: "'w console \<Rightarrow> ('w, unit) io" where
  "stop_danteproxy c = do_cmd c ''service danted stop''"

text \<open>The coroutine of the command is created and dropped.\<close>

definition stop_danteproxy_async :: "'w console \<Rightarrow> ('w, unit) io" where
  "stop_danteproxy_async c = ret ()"

section \<open>Traffic\<close>

definition flag_text :: "string \<Rightarrow> json \<Rightarrow> string" where
  "flag_text flag v = (if truthy v then flag @ shown v else [])"

text \<open>The process of the first line with the pattern: \<open>.*\<close>, the text, \<open>.*\<close>, and the second word of it.\<close>

definition listed_pid :: "string \<Rightarrow> string \<Rightarrow> raised + int" where
  "listed_pid pattern output =
     (case re_search (cats [star dot, lit pattern, star dot]) output of
        None \<Rightarrow> Inl attribute_error
      | Some m \<Rightarrow> (case split_ws (ma_text m) of _ # pid # _ \<Rightarrow> int_of_text pid | _ \<Rightarrow> Inl index_error))"

definition started_pid :: "'w console \<Rightarrow> string \<Rightarrow> string \<Rightarrow> string \<Rightarrow> string \<Rightarrow> ('w, int \<times> string) io" where
  "started_pid c version pattern log_file_path problem =
     seq (run_cmd c (''sleep 2; ps auxwwww|grep iperf'' @ version @ ''|grep -v grep'')) (\<lambda>output.
     if str_in (''iperf'' @ version) output \<and> \<not> str_in ''Exit 1'' output
     then seq (lift_sum (listed_pid pattern output)) (\<lambda>pid. ret (pid, log_file_path))
     else throw (code_error problem))"

definition start_traffic_receiver ::
  "string \<Rightarrow> 'w console \<Rightarrow> int \<Rightarrow> json \<Rightarrow> json \<Rightarrow> bool \<Rightarrow> ('w, int \<times> string) io" where
  "start_traffic_receiver tempdir c traffic_port bind_to_ip ip_version udp_only =
     (let log_file_path = tempdir @ ''/iperf_server_logs.txt''; p = int_str traffic_port
      in andthen
          (do_cmd c
            (if udp_only
             then ''iperf -s -p '' @ p @ flag_text '' -B '' bind_to_ip @ '' -u > '' @ log_file_path @ '' 2>&1 &''
             else ''iperf3'' @ flag_text '' -'' ip_version @ '' -s -p '' @ p @ flag_text '' -B '' bind_to_ip @ '' > '' @ log_file_path @ '' 2>&1 &''))
          (started_pid c (if udp_only then [] else ''3'') ('' -p '' @ p) log_file_path ''Unable to start iperf server''))"

definition flag_suffix :: "string \<Rightarrow> json \<Rightarrow> string \<Rightarrow> string" where
  "flag_suffix flag v suffix = (if truthy v then flag @ shown v @ suffix else [])"

text \<open>The pattern for the sender joins \<^verbatim>\<open>.* -c\<close>, the host (dots match any character), \<^verbatim>\<open>-p\<close> and the port.\<close>

definition sender_pid :: "string \<Rightarrow> string \<Rightarrow> string \<Rightarrow> raised + int" where
  "sender_pid host p output =
     (case re_search (cats [star dot, lit '' -c '', interpolated host, lit ('' -p '' @ p), star dot]) output of
        None \<Rightarrow> Inl attribute_error
      | Some m \<Rightarrow> (case split_ws (ma_text m) of _ # pid # _ \<Rightarrow> int_of_text pid | _ \<Rightarrow> Inl index_error))"

definition start_traffic_sender ::
  "string \<Rightarrow> 'w console \<Rightarrow> string \<Rightarrow> int \<Rightarrow> json \<Rightarrow> json \<Rightarrow> string option \<Rightarrow> json \<Rightarrow> bool \<Rightarrow> int \<Rightarrow> json \<Rightarrow> bool \<Rightarrow>
   ('w, int \<times> string) io" where
  "start_traffic_sender tempdir c host traffic_port bandwidth bind_to_ip direction ip_version udp_protocol time client_port udp_only =
     (let log_file_path = tempdir @ ''/iperf_client_logs.txt''; p = int_str traffic_port;
          version = (if udp_only then [] else ''3'');
          dir = (case direction of None \<Rightarrow> [] | Some s \<Rightarrow> s)
      in andthen
          (do_cmd c
            (if udp_only
             then ''iperf -c '' @ host @ '' '' @ ''-p '' @ p @ flag_text '' -B '' bind_to_ip @ '' '' @ flag_suffix '' -b '' bandwidth ''m'' @
                  '' -t '' @ int_str time @ '' '' @ dir @ '' -u > '' @ log_file_path @ ''  2>&1  &''
             else ''iperf3'' @ flag_text '' -'' ip_version @ '' -c '' @ host @ '' '' @ ''-p '' @ p @ flag_text '' -B '' bind_to_ip @ '' '' @
                  flag_suffix '' -b '' bandwidth ''m'' @ '' -t '' @ int_str time @ '' '' @ dir @ '' '' @ flag_text '' --cport '' client_port @
                  (if udp_protocol then '' -u'' else []) @ '' > '' @ log_file_path @ ''  2>&1  &''))
          (seq (run_cmd c (''sleep 2; ps auxwwww|grep iperf'' @ version @ ''|grep -v grep'')) (\<lambda>output.
           if str_in (''iperf'' @ version) output \<and> \<not> str_in ''Exit 1'' output
           then seq (lift_sum (sender_pid host p output)) (\<lambda>pid. ret (pid, log_file_path))
           else throw (code_error ''Unable to start iperf client''))))"

definition get_iperf_logs ::
  "(string \<Rightarrow> string list \<Rightarrow> ('w, 'w spawn) io) \<Rightarrow> (string \<Rightarrow> ('w, string) io) \<Rightarrow> linux_device \<Rightarrow> string \<Rightarrow> ('w, string) io" where
  "get_iperf_logs run_local read_text d log_file =
     andthen (scp_device_file_to_local run_local d log_file log_file) (read_text log_file)"

definition stop_traffic :: "'w console \<Rightarrow> int option \<Rightarrow> ('w, bool) io" where
  "stop_traffic c pid =
     (let p = (case pid of None \<Rightarrow> None | Some n \<Rightarrow> if n = 0 then None else Some (int_str n))
      in seq (run_cmd c ''pgrep iperf'') (\<lambda>found.
         (let iperf = (if found \<noteq> [] then ''iperf'' else ''iperf3'')
          in andthen (do_cmd c (case p of Some n \<Rightarrow> ''kill -9 '' @ n | None \<Rightarrow> ''killall -9 '' @ iperf))
             (seq (run_cmd c (''ps auxwwww|grep '' @ iperf @ ''|grep -v grep'')) (\<lambda>output.
             ret (case p of Some n \<Rightarrow> \<not> str_in n output | None \<Rightarrow> \<not> str_in iperf output))))))"

section \<open>System\<close>

definition delete_file :: "'w console \<Rightarrow> string \<Rightarrow> ('w, unit) io" where
  "delete_file c filename = do_cmd c (''rm '' @ filename)"

definition sixty :: rx where
  "sixty = Cat (between (CHR ''0'') (CHR ''5'')) dgt"

definition date_rx :: rx where
  "date_rx =
     Grp 1 (cats [plus wordc, chr (CHR '',''), blank, plus wordc, blank, plus dgt, chr (CHR '',''), blank, plus dgt, blank,
                  Grp 2 (Alt (Grp 3 (Cat (opt (one_of ''01'')) dgt)) (Grp 4 (Cat (chr (CHR ''2'')) (between (CHR ''0'') (CHR ''3''))))),
                  chr (CHR '':''), sixty, chr (CHR '':''), sixty])"

definition get_date :: "'w console \<Rightarrow> ('w, string option) io" where
  "get_date c =
     seq (run_cmd c (''date '' @ [CHR 0x27] @ ''+%A, %B %d, %Y %T'' @ [CHR 0x27])) (\<lambda>out. ret (found_text date_rx out))"

definition set_date :: "'w console \<Rightarrow> string \<Rightarrow> string \<Rightarrow> ('w, bool) io" where
  "set_date c option date_string =
     seq (run_cmd c (''date '' @ option @ '' '' @ [CHR 0x27] @ date_string @ [CHR 0x27])) (\<lambda>cmd_out.
     ret (str_in date_string cmd_out \<and> \<not> str_in ''invalid date'' cmd_out))"

definition send_multicast_report ::
  "'w console \<Rightarrow> string \<Rightarrow> (string list \<times> string \<times> string) list \<Rightarrow> ('w, string) io" where
  "send_multicast_report c command mcast_group_record =
     (let args = concat (map (\<lambda>(sources, group, rtype).
            ''-mr '' @ [CHR 0x22] @ join '','' sources @ '';'' @ group @ '';'' @ rtype @ '' '' @ [CHR 0x22]) mcast_group_record)
      in seq (run_cmd c (command @ '' '' @ args)) (\<lambda>out.
         if str_in ''Traceback'' out then throw (code_error (''Failed to send the report!!'' @ [CHR 0x0A] @ out)) else ret out))"

definition send_mldv2_report ::
  "linux_device \<Rightarrow> 'w console \<Rightarrow> (string list \<times> string \<times> string) list \<Rightarrow> int \<Rightarrow> ('w, unit) io" where
  "send_mldv2_report d c mcast_group_record count =
     seq (send_multicast_report c (''send_mld_report -i '' @ ld_eth d @ '' -c '' @ int_str count) mcast_group_record) (\<lambda>out.
     if \<not> str_in (''Sent '' @ int_str count @ '' packets'') out
     then throw (code_error (''Failed to execute send_mld_report command:'' @ [CHR 0x0A] @ out)) else ret ())"

definition set_static_ip :: "'w console \<Rightarrow> string \<Rightarrow> address \<Rightarrow> address \<Rightarrow> ('w, unit) io" where
  "set_static_ip c interface ip_addr netmask =
     andthen (do_cmd c (''ifconfig '' @ interface @ '' '' @ addr_str ip_addr @ '' netmask '' @ addr_str netmask @ '' up''))
     (seq (get_nw_interface_ipv4_address (Some c) interface) (\<lambda>ip.
     if ip \<noteq> addr_str ip_addr
     then throw (code_error (''Running IP: ip='' @ py_repr ip @ '' is different than expected: ip_address=IPv4Address('' @
            py_repr (addr_str ip_addr) @ '')''))
     else ret ()))"

definition remove_static_ip :: "'w console \<Rightarrow> string \<Rightarrow> ('w, unit) io" where
  "remove_static_ip c interface =
     andthen (do_cmd c (''ip addr flush dev '' @ interface))
     (seq (get_nw_interface_ipv4_address (Some c) interface) (\<lambda>ip.
     if ip \<noteq> [] then throw (code_error (''IP removal failed: running IP is still '' @ ip)) else ret ()))"

definition del_default_route :: "'w console \<Rightarrow> string option \<Rightarrow> ('w, unit) io" where
  "del_default_route c interface =
     do_cmd c (''ip route del default '' @
       (case interface of None \<Rightarrow> [] | Some i \<Rightarrow> if i = [] then [] else ''dev '' @ i))"

definition set_default_gw :: "'w console \<Rightarrow> address \<Rightarrow> string \<Rightarrow> ('w, unit) io" where
  "set_default_gw c ip_addr interface =
     andthen (do_cmd c ''ip route del default'')
     (seq (run_cmd c ''ip route show default'') (\<lambda>out.
     if drop 1 out \<noteq> []
     then throw (code_error (''Failed to remove existing defualt route '' @ out @ '', unable to proceed with set default gatway command ''))
     else
       andthen (do_cmd c (''route add default gw '' @ addr_str ip_addr @ '' dev '' @ interface))
       (seq (run_cmd c ''ip route show default'') (\<lambda>out.
       if \<not> str_in (addr_str ip_addr) (lower out)
       then throw (code_error (''Failed to add default route, ip route output: '' @ out)) else ret ()))))"

definition start_nping ::
  "'w console \<Rightarrow> string \<Rightarrow> bool \<Rightarrow> string \<Rightarrow> string \<Rightarrow> string \<Rightarrow> string \<Rightarrow> string \<Rightarrow> ('w, string) io" where
  "start_nping c interface_ip ipv6_flag extra_args port_range hit_count rate mode =
     seq (run_cmd c (''nping -'' @ mode @ '' -c '' @ hit_count @ '' -p '' @ port_range @ '' '' @ (if ipv6_flag then ''-6'' else []) @ '' '' @
            interface_ip @ '' --rate '' @ rate @ '' -g 80 '' @ extra_args @ '' &'')) (\<lambda>output.
     if output = [] then throw (value_error ''Unable to start nping'')
     else
       seq (lift_sum (job_pid output)) (\<lambda>pid.
       seq (run_cmd c (''ps --pid '' @ pid @ '' -o stat='')) (\<lambda>process_status.
       if process_status \<noteq> [] \<and> process_status \<noteq> ''T'' then ret pid else throw (value_error ''Unable to start nping''))))"

fun nping_done :: "'w console \<Rightarrow> string \<Rightarrow> nat \<Rightarrow> ('w, bool) io" where
  "nping_done c cmd 0 = ret False"
| "nping_done c cmd (Suc n) =
     seq (run_cmd c cmd) (\<lambda>out. if out \<noteq> [] then andthen (sp_sleep c 10) (nping_done c cmd n) else ret True)"

definition stop_nping :: "'w console \<Rightarrow> string \<Rightarrow> ('w, unit) io" where
  "stop_nping c process_id =
     seq (nping_done c (''ps --pid '' @ process_id @ '' -o stat='') 3600) (\<lambda>finished.
     andthen (when_io (\<not> finished) (andthen (do_cmd c (''kill -9 '' @ process_id)) (do_cmd c ''sync'')))
     (seq (run_cmd c ''pgrep nping'') (\<lambda>out.
     if splitlines out \<noteq> [] then throw (boardfarm_error ''Unable to stop nping process'') else ret ())))"

definition hping_flood :: "'w console \<Rightarrow> string \<Rightarrow> string \<Rightarrow> string \<Rightarrow> string option \<Rightarrow> string \<Rightarrow> ('w, string) io" where
  "hping_flood c protocol target packet_count extra_args pkt_interval =
     run_cmd c (''hping3 -c '' @ packet_count @ '' -'' @ protocol @ '' '' @ target @ '' '' @
       (if pkt_interval = [] then [] else '' -i '' @ pkt_interval) @
       (case extra_args of None \<Rightarrow> [] | Some a \<Rightarrow> if a = [] then [] else '' '' @ a))"

definition hostname :: "'w console \<Rightarrow> ('w, string) io" where
  "hostname c = run_cmd c ''echo $HOSTNAME''"

definition get_process_id :: "'w console \<Rightarrow> string \<Rightarrow> ('w, string list option) io" where
  "get_process_id c process_name =
     seq (run_cmd c (''pidof '' @ process_name)) (\<lambda>out.
     (let pid_output = strip whitespace out
      in ret (if pid_output = [] then None else Some (split_on (CHR '' '') pid_output))))"

definition kill_process :: "'w console \<Rightarrow> int \<Rightarrow> int \<Rightarrow> ('w, unit) io" where
  "kill_process c pid signal =
     andthen (do_cmd c (''kill -'' @ int_str signal @ '' '' @ int_str pid))
     (seq (run_cmd c (''ps -p '' @ int_str pid)) (\<lambda>out.
     if str_in (int_str pid) out then throw (value_error (''Unable to kill process '' @ int_str pid)) else ret ()))"

definition create_upnp_rule ::
  "'w console \<Rightarrow> string \<Rightarrow> string \<Rightarrow> string \<Rightarrow> string \<Rightarrow> string \<Rightarrow> string \<Rightarrow> string \<Rightarrow> ('w, string) io" where
  "create_upnp_rule c interface address int_port ext_port protocol extra_args url =
     run_cmd c (''upnpc -u '' @ url @ '' -m '' @ interface @ '' -a '' @ address @ '' '' @ int_port @ '' '' @ ext_port @ '' '' @
       replicate 12 CHR 0x20 @ protocol @ '' '' @ extra_args)"

definition delete_upnp_rule :: "'w console \<Rightarrow> string \<Rightarrow> string \<Rightarrow> string \<Rightarrow> string \<Rightarrow> ('w, string) io" where
  "delete_upnp_rule c interface ext_port protocol url =
     run_cmd c (''upnpc -u '' @ url @ '' -m '' @ interface @ '' -d '' @ ext_port @ '' '' @ protocol)"

definition get_resolv_conf :: "'w console \<Rightarrow> ('w, string) io" where
  "get_resolv_conf c =
     seq (run_cmd c ''cat /etc/resolv.conf'') (\<lambda>resolv_conf.
     ret (join [CHR 0x0A] (filter (str_in ''nameserver'') (split_on (CHR 0x0A) resolv_conf))))"

section \<open>Facts\<close>

text \<open>A search finds the literal an expression starts with, where it occurs first.\<close>

lemma literal_no_match:
  "\<not> startswith s l \<Longrightarrow> l \<noteq> [] \<Longrightarrow> rmatch (lit l) \<lparr>rp_before = b, rp_after = s, rp_groups = g\<rparr> = []"
proof (induction l arbitrary: s b rule: lit.induct)
  case (2 c)
  then show ?case by (cases s) (auto simp: chr_def startswith_def)
next
  case (3 c d l)
  then show ?case by (cases s) (auto simp: chr_def startswith_def)
qed simp

lemma first_lit:
  "first (lit l) \<lparr>rp_before = b, rp_after = l @ s, rp_groups = g\<rparr> \<lparr>rp_before = rev l @ b, rp_after = s, rp_groups = g\<rparr>"
proof (induction l arbitrary: b rule: lit.induct)
  case (2 c)
  then show ?case by (simp add: first_def chr_def)
next
  case (3 c d l)
  have "first (chr c) \<lparr>rp_before = b, rp_after = c # d # l @ s, rp_groups = g\<rparr> \<lparr>rp_before = c # b, rp_after = d # l @ s, rp_groups = g\<rparr>"
    by (simp add: first_def chr_def)
  from first_Cat [OF this] 3 [of "c # b"] show ?case by simp
qed (simp add: first_def)

lemma search_literal:
  assumes "l \<noteq> []" and "\<And>u v. pre = u @ v \<Longrightarrow> v \<noteq> [] \<Longrightarrow> \<not> startswith (v @ l @ s) l"
  shows "search_from (Cat (lit l) r) False b (pre @ l @ s) = search_from (Cat (lit l) r) False (rev pre @ b) (l @ s)"
  using assms(2)
proof (induction pre arbitrary: b)
  case (Cons c pre)
  have "\<not> startswith (c # pre @ l @ s) l" using Cons.prems [of "[]" "c # pre"] by simp
  then have "match_at (Cat (lit l) r) False b (c # pre @ l @ s) = None"
    using literal_no_match [OF _ assms(1)] by (simp add: match_at_def Let_def)
  moreover have "\<not> startswith (v @ l @ s) l" if "pre = u @ v" "v \<noteq> []" for u v
    using Cons.prems [of "c # u" v] that by simp
  ultimately show ?case using Cons.IH [of "c # b"] by simp
qed simp

lemma findall1_first:
  assumes "search_from r False [] s = Some m"
  shows "\<exists>rest. re_findall1 r s = group 1 m # rest"
  using assms by (auto simp: re_findall1_def re_finditer_def)

text \<open>The address expression at its literal: one blank, the address, and something that ends it.\<close>

lemma address_rx_first:
  assumes "list_all (\<lambda>c. \<not> is_space c \<and> c \<noteq> CHR ''/'') a" and "is_digit (hd a)" and "a \<noteq> []"
    and "s = [] \<or> is_space (hd s) \<or> hd s = CHR ''/''"
  shows "\<exists>q. first (address_rx False) \<lparr>rp_before = b, rp_after = ''inet'' @ '' '' @ a @ s, rp_groups = []\<rparr> q \<and>
    dict_get (rp_groups q) 1 = Some a"
proof -
  let ?P = "\<lambda>b s g. \<lparr>rp_before = b, rp_after = s, rp_groups = g\<rparr> :: rpos" and ?w = "\<lambda>c. \<not> is_space c \<and> c \<noteq> CHR ''/''"
  have sp: "CHR '' '' \<in> set whitespace" by code_simp
  obtain x a' where a: "a = x # a'" "is_digit x" using assms(2,3) by (cases a) auto
  let ?b1 = "rev ''inet'' @ b" and ?b2 = "CHR '' '' # rev ''inet'' @ b"
  have x: "x \<noteq> CHR ''a''" "x \<notin> set whitespace"
    using a digit_not_space [of x] by (auto simp: is_digit_def is_space_def)
  have blank: "first blank (?P ?b1 ('' '' @ a @ s) []) (?P ?b2 (a @ s) [])"
    unfolding blank_def using sp by (simp add: first_def)
  have o: "first (opt (lit ''addr:'')) (?P ?b2 (a @ s) []) (?P ?b2 (a @ s) [])"
    using x(1) a(1) by (simp add: first_def opt_def chr_def Let_def)
  have st: "first (star Py_Regex.blank) (?P ?b2 (a @ s) []) (?P ?b2 (a @ s) [])"
    using first_star_Cls [of "\<lambda>c. c \<in> set whitespace" "[]" "a @ s" ?b2 "[]"] x(2) a(1) by (simp add: blank_def)
  have g: "first (plus (Cls ?w)) (?P ?b2 (a @ s) []) (?P (rev a @ ?b2) s [])"
    using assms(1,3,4) by (intro first_plus_Cls) auto
  from first_Grp [OF g, of 1]
  have g1: "first (Grp 1 (plus (Cls ?w))) (?P ?b2 (a @ s) []) (?P (rev a @ ?b2) s [(1, a)])" by simp
  have l: "first (lit ''inet'') (?P b (''inet'' @ '' '' @ a @ s) []) (?P ?b1 ('' '' @ a @ s) [])" by (rule first_lit)
  have "first (address_rx False) (?P b (''inet'' @ '' '' @ a @ s) []) (?P (rev a @ ?b2) s [(1, a)])"
    unfolding address_rx_def cats.simps if_False
    by (rule first_Cat [OF l first_Cat [OF blank first_Cat [OF o first_Cat [OF st g1]]]])
  then show ?thesis by fastforce
qed

lemma await_gone_checked:
  "await_gone (recorded d) cmd pause n tr = (Inr b, tr') \<Longrightarrow>
   (b \<longrightarrow> (\<exists>out. last tr' = Executed cmd (-1) \<and> dv_output d tr' = Inr out \<and> splitlines out = [])) \<and>
   length tr' \<le> length tr + 2 * n"
proof (induction n arbitrary: tr)
  case 0
  then show ?case by (simp add: ret_def)
next
  case (Suc n)
  obtain out where out: "dv_output d (tr @ [Executed cmd (-1)]) = Inr out"
    using Suc.prems by (cases "dv_output d (tr @ [Executed cmd (-1)])") (auto simp: seq_def lists_nothing_def run_cmd_def)
  show ?case
  proof (cases "splitlines out = []")
    case True
    then show ?thesis using Suc.prems out by (auto simp: seq_def lists_nothing_def run_cmd_def ret_def)
  next
    case False
    then have "await_gone (recorded d) cmd pause n (tr @ [Executed cmd (-1), Slept pause]) = (Inr b, tr')"
      using Suc.prems out by (simp add: seq_def lists_nothing_def run_cmd_def ret_def andthen_def)
    from Suc.IH [OF this] show ?thesis by auto
  qed
qed

text \<open>Deleting, checking, setting and checking again.\<close>

lemma checked_setting:
  assumes "andthen (do_cmd (recorded d) c1) (seq (run_cmd (recorded d) c2) (\<lambda>out. if p out then throw (e1 out) else
      andthen (do_cmd (recorded d) c3) (seq (run_cmd (recorded d) c4) (\<lambda>out. if q out then throw (e2 out) else ret ())))) [] = (Inr (), tr)"
  shows "\<exists>out. dv_output d tr = Inr out \<and> last tr = Executed c4 (-1) \<and> \<not> q out"
  using assms by (auto simp: andthen_ok seq_ok do_cmd_ok run_cmd_def split: if_splits)

section \<open>Properties\<close>

text \<open>the address of an interface is the first one \<^verbatim>\<open>ifconfig\<close> prints: whatever comes before the word
  \<^verbatim>\<open>inet\<close> and a blank, and whatever follows the address after a blank or a slash.\<close>

theorem interface_ipv4_read:
  assumes "\<And>u v. pre = u @ v \<Longrightarrow> v \<noteq> [] \<Longrightarrow> \<not> startswith (v @ ''inet'' @ '' '' @ a @ s) ''inet''"
    and "list_all (\<lambda>c. \<not> is_space c \<and> c \<noteq> CHR ''/'') a" and "a \<noteq> []" and "is_digit (hd a)"
    and "s = [] \<or> is_space (hd s) \<or> hd s = CHR ''/''"
    and "c_execute c (''ifconfig '' @ i) (-1) w = (Inr (pre @ ''inet '' @ a @ s), w')"
  shows "get_nw_interface_ipv4_address (Some c) i w = (Inr a, w')"
proof -
  obtain q where q: "first (address_rx False) \<lparr>rp_before = rev pre, rp_after = ''inet'' @ '' '' @ a @ s, rp_groups = []\<rparr> q"
    "dict_get (rp_groups q) 1 = Some a"
    using address_rx_first [OF assms(2,4,3,5)] by blast
  obtain r where r: "address_rx False = Cat (lit ''inet'') r"
    by (simp add: address_rx_def cats.simps)
  have "search_from (address_rx False) False [] (pre @ ''inet'' @ '' '' @ a @ s) =
      search_from (address_rx False) False (rev pre @ []) (''inet'' @ '' '' @ a @ s)"
    unfolding r using assms(1) by (intro search_literal) simp_all
  then have "search_from (address_rx False) False [] (pre @ ''inet '' @ a @ s) =
      Some (as_match \<lparr>rp_before = rev pre, rp_after = ''inet'' @ '' '' @ a @ s, rp_groups = []\<rparr> q)"
    using search_first [OF q(1)] by simp
  moreover have "group 1 (as_match \<lparr>rp_before = rev pre, rp_after = ''inet'' @ '' '' @ a @ s, rp_groups = []\<rparr> q) = a"
    using q(2) by (simp add: group_def as_match_def)
  ultimately obtain rest where "re_findall1 (address_rx False) (pre @ ''inet '' @ a @ s) = a # rest"
    using findall1_first by metis
  then show ?thesis using assms(6)
    by (simp add: get_nw_interface_ipv4_address_def get_nw_interface_ip_address_def seq_def run_cmd_def ret_def)
qed

definition ifconfig_device :: answers where
  "ifconfig_device = (sample_device 0)\<lparr>dv_output := \<lambda>_. Inr (''eth1: '' @ ''inet '' @ ''10.0.0.7'' @ ''/24'')\<rparr>"

theorem interface_ipv4_read_witness:
  "get_nw_interface_ipv4_address (Some (recorded ifconfig_device)) ''eth1'' [] = (Inr ''10.0.0.7'', [Executed ''ifconfig eth1'' (-1)])"
proof (rule interface_ipv4_read)
  show "list_all (\<lambda>c. \<not> is_space c \<and> c \<noteq> CHR ''/'') ''10.0.0.7''" "is_digit (hd ''10.0.0.7'')" by code_simp+
  show "\<not> startswith (v @ ''inet'' @ '' '' @ ''10.0.0.7'' @ ''/24'') ''inet''" if "''eth1: '' = u @ v" "v \<noteq> []" for u v
    using that by (auto simp: Cons_eq_append_conv startswith_def)
qed (simp_all add: ifconfig_device_def)

text \<open>stopping the HTTP service is verified: a call that returns ends with a process listing without the
  service, and it never makes more than five listings and four pauses; otherwise it raises.\<close>

theorem stop_http_service_checked:
  assumes "stop_http_service (recorded d) port [] = (Inr (), tr)"
  shows "last tr = Executed (webfsd_ps port) (-1) \<and> (\<exists>out. dv_output d tr = Inr out \<and> splitlines out = []) \<and> length tr \<le> 10"
proof -
  let ?ps = "Executed (webfsd_ps port) (-1)"
  obtain out where out: "dv_output d [?ps] = Inr out"
    using assms by (cases "dv_output d [?ps]") (auto simp: stop_http_service_def seq_def lists_nothing_def run_cmd_def)
  show ?thesis
  proof (cases "splitlines out = []")
    case True
    then show ?thesis using assms out by (auto simp: stop_http_service_def seq_def lists_nothing_def run_cmd_def ret_def)
  next
    case False
    let ?t1 = "[?ps, Executed (webfsd_kill port) (-1)]"
    have "\<exists>b. await_gone (recorded d) (webfsd_ps port) 4 4 ?t1 = (Inr b, tr) \<and> b"
      using assms out False
      by (auto simp: stop_http_service_def seq_def lists_nothing_def run_cmd_def ret_def andthen_def do_cmd_def throw_def
          split: sum.splits prod.splits if_splits simp del: await_gone.simps)
    then have g: "await_gone (recorded d) (webfsd_ps port) 4 4 ?t1 = (Inr True, tr)" by auto
    from await_gone_checked [OF g] show ?thesis by simp
  qed
qed

theorem stop_http_service_checked_witness:
  "stop_http_service (recorded (sample_device 0)) ''80'' [] = (Inr (), [Executed (webfsd_ps ''80'') (-1)]) \<and>
   splitlines [] = []"
proof -
  have s: "splitlines [] = []" by (simp add: splitlines_def)
  have r: "stop_http_service (recorded (sample_device 0)) ''80'' [] = (Inr (), [Executed (webfsd_ps ''80'') (-1)])"
    by (simp add: stop_http_service_def seq_def lists_nothing_def run_cmd_def ret_def sample_device_def s)
  from stop_http_service_checked [OF r] r s show ?thesis by simp
qed

text \<open>setting an address or the default gateway is verified against the device's own report: a call that
  returns ends with the interface listing whose first address is the one set, or with a default route
  that names the gateway.\<close>

theorem setters_verified:
  "(set_static_ip (recorded d) i a m [] = (Inr (), tr) \<longrightarrow>
      last tr = Executed (''ifconfig '' @ i) (-1) \<and>
      (\<exists>out rest. dv_output d tr = Inr out \<and> (re_findall1 (address_rx False) out = addr_str a # rest \<or> addr_str a = []))) \<and>
   (set_default_gw (recorded d) a i [] = (Inr (), tr) \<longrightarrow>
      last tr = Executed ''ip route show default'' (-1) \<and>
      (\<exists>out. dv_output d tr = Inr out \<and> str_in (addr_str a) (lower out)))"
proof (intro conjI impI)
  assume r: "set_static_ip (recorded d) i a m [] = (Inr (), tr)"
  let ?set = "Executed (''ifconfig '' @ i @ '' '' @ addr_str a @ '' netmask '' @ addr_str m @ '' up'') (-1)"
  let ?get = "Executed (''ifconfig '' @ i) (-1)"
  obtain out where out: "dv_output d [?set, ?get] = Inr out" "tr = [?set, ?get]"
    and ip: "(case re_findall1 (address_rx False) out of [] \<Rightarrow> [] | ip # _ \<Rightarrow> ip) = addr_str a"
    using r by (auto simp: set_static_ip_def andthen_ok seq_ok do_cmd_ok get_nw_interface_ipv4_address_def
        get_nw_interface_ip_address_def run_cmd_def split: if_splits)
  show "last tr = ?get" using out(2) by simp
  show "\<exists>out rest. dv_output d tr = Inr out \<and> (re_findall1 (address_rx False) out = addr_str a # rest \<or> addr_str a = [])"
    using out ip by (cases "re_findall1 (address_rx False) out") auto
next
  assume r: "set_default_gw (recorded d) a i [] = (Inr (), tr)"
  from checked_setting [OF r [unfolded set_default_gw_def]]
  obtain out where out: "dv_output d tr = Inr out" "last tr = Executed ''ip route show default'' (-1)" "str_in (addr_str a) (lower out)"
    by blast
  show "last tr = Executed ''ip route show default'' (-1)" by (rule out(2))
  show "\<exists>out. dv_output d tr = Inr out \<and> str_in (addr_str a) (lower out)" using out by blast
qed

theorem setters_verified_witness:
  "let tr = [Executed (''ifconfig eth1 10.0.0.7 netmask 255.0.0.0 up'') (-1), Executed ''ifconfig eth1'' (-1)]
   in set_static_ip (recorded ifconfig_device) ''eth1'' (V4 167772167) (V4 4278190080) [] = (Inr (), tr) \<and>
      last tr = Executed ''ifconfig eth1'' (-1)"
proof -
  let ?tr = "[Executed (''ifconfig eth1 10.0.0.7 netmask 255.0.0.0 up'') (-1), Executed ''ifconfig eth1'' (-1)]"
  have a: "addr_str (V4 167772167) = ''10.0.0.7''" "addr_str (V4 4278190080) = ''255.0.0.0''" by code_simp+
  have f: "re_findall1 (address_rx False) ''eth1: inet 10.0.0.7/24'' = [''10.0.0.7'']" by code_simp
  have r: "set_static_ip (recorded ifconfig_device) ''eth1'' (V4 167772167) (V4 4278190080) [] = (Inr (), ?tr)"
    by (simp add: set_static_ip_def a andthen_def seq_def do_cmd_def run_cmd_def ret_def ifconfig_device_def
        get_nw_interface_ipv4_address_def get_nw_interface_ip_address_def f)
  from setters_verified [of ifconfig_device "''eth1''" "V4 167772167" "V4 4278190080" ?tr] r show ?thesis
    by (simp add: Let_def)
qed

text \<open>two coroutines leave out what they create and do not await. After a renewal that timed out the
  synchronous method waits for the prompt and the coroutine does not; stopping the proxy executes the
  command in the synchronous method and nothing at all in the coroutine.\<close>

theorem unawaited_coroutines:
  assumes "dv_index d [Sudo (''dhclient -v '' @ i), Expected (Timeout # prompts (ld_prompt l)) 30] = Inr 0"
  shows "snd (renew_dhcp l (recorded d) i []) = snd (renew_dhcp_async l (recorded d) i []) @ [Expected (prompts (ld_prompt l)) (-1)] \<and>
    snd (stop_danteproxy (recorded d) []) = [Executed ''service danted stop'' (-1)] \<and>
    stop_danteproxy_async (recorded d) [] = (Inr (), [])"
  using assms
  by (simp add: renew_dhcp_def renew_dhcp_async_def andthen_def seq_def prompt_or_timeout_def when_io_def ret_def
      at_prompt_def stop_danteproxy_def stop_danteproxy_async_def do_cmd_def run_cmd_def split: sum.splits)

theorem unawaited_coroutines_witness:
  "stop_danteproxy_async (recorded (sample_device 0)) [] = (Inr (), []) \<and>
   last (snd (renew_dhcp sample_linux (recorded (sample_device 0)) ''eth1'' [])) = Expected [Text ''#''] (-1)"
  using unawaited_coroutines [of "sample_device 0" "''eth1''" sample_linux]
  by (simp add: sample_device_def sample_linux_def prompts_def)

end
