(* ===== verification/Packet_Scan.thy ===== *)
theory Packet_Scan
  imports BF_Prelude
begin

text \<open>
  Finding an expected sequence in a capture, the loop that \<^verbatim>\<open>lib/multicast.py\<close> and
  \<^verbatim>\<open>use_cases/networking.py\<close> share: each expected packet is looked for from the place of the last one
  found, that place included. What it ought to decide is \<open>lies_in_order\<close>, at places that strictly increase.
\<close>

fun positions :: "('e \<Rightarrow> 'c \<Rightarrow> bool) \<Rightarrow> 'c list \<Rightarrow> 'e list \<Rightarrow> nat \<Rightarrow> nat option list" where
  "positions ok captured [] last_check = []"
| "positions ok captured (p # ps) last_check =
     (case find (\<lambda>i. ok p (captured ! i)) [last_check..<length captured] of
        Some i \<Rightarrow> Some i # positions ok captured ps i
      | None \<Rightarrow> None # positions ok captured ps last_check)"

lemma find_upt_Some:
  "find P [a..<n] = Some i \<longleftrightarrow> a \<le> i \<and> i < n \<and> P i \<and> (\<forall>j. a \<le> j \<and> j < i \<longrightarrow> \<not> P j)"
proof (induction "n - a" arbitrary: a)
  case 0
  then show ?case by auto
next
  case (Suc d)
  then have a: "a < n" "d = n - Suc a" by simp_all
  then have u: "[a..<n] = a # [Suc a..<n]" by (simp add: upt_conv_Cons)
  show ?case
  proof (cases "P a")
    case True
    then show ?thesis using u a by (auto dest: spec [of _ a] simp: le_less)
  next
    case False
    then have "find P [a..<n] = find P [Suc a..<n]" by (simp add: u)
    then show ?thesis using Suc.hyps(1) [OF a(2)] False by (metis Suc_leD Suc_leI le_less)
  qed
qed

lemma find_upt_None: "find P [a..<n] = None \<longleftrightarrow> (\<forall>i. a \<le> i \<and> i < n \<longrightarrow> \<not> P i)"
  by (auto simp: find_None_iff)

lemma length_positions [simp]: "length (positions ok cap ps k) = length ps"
  by (induction ps arbitrary: k) (auto split: option.splits)

text \<open>What is found: places in order, of packets that fit.\<close>

definition fits :: "('e \<Rightarrow> 'c \<Rightarrow> bool) \<Rightarrow> 'c list \<Rightarrow> 'e \<Rightarrow> nat \<Rightarrow> bool" where
  "fits ok captured p i \<longleftrightarrow> i < length captured \<and> ok p (captured ! i)"

definition found_places :: "nat option list \<Rightarrow> nat list" where
  "found_places = map the \<circ> filter (\<lambda>k. k \<noteq> None)"

lemma positions_fit: "list_all2 (\<lambda>p k. k = None \<or> fits ok cap p (the k)) ps (positions ok cap ps a)"
  by (induction ps arbitrary: a) (auto simp: fits_def find_upt_Some split: option.splits)

lemma positions_sorted: "sorted (a # found_places (positions ok cap ps a))"
proof (induction ps arbitrary: a)
  case Nil
  then show ?case by (simp add: found_places_def)
next
  case (Cons p ps)
  show ?case
  proof (cases "find (\<lambda>i. ok p (cap ! i)) [a..<length cap]")
    case None
    then show ?thesis using Cons.IH [of a] by (simp add: found_places_def)
  next
    case (Some i)
    then have "a \<le> i" by (simp add: find_upt_Some)
    then show ?thesis using Cons.IH [of i] Some by (auto simp: found_places_def)
  qed
qed

text \<open>
  What the loop finds exactly: places that never go back, so that one packet of the capture may serve
  several expected ones in a row.
\<close>

definition embedded :: "('e \<Rightarrow> 'c \<Rightarrow> bool) \<Rightarrow> 'c list \<Rightarrow> 'e list \<Rightarrow> nat \<Rightarrow> bool" where
  "embedded ok captured ps a \<longleftrightarrow> (\<exists>ks. list_all2 (fits ok captured) ps ks \<and> sorted (a # ks))"

lemma positions_complete:
  "list_all2 (fits ok cap) ps ks \<Longrightarrow> sorted (a # ks) \<Longrightarrow> None \<notin> set (positions ok cap ps a)"
proof (induction ps arbitrary: a ks)
  case (Cons p ps)
  then obtain k ks' where ks: "ks = k # ks'" "fits ok cap p k" "list_all2 (fits ok cap) ps ks'"
    by (auto simp: list_all2_Cons1)
  then have "\<exists>i. find (\<lambda>i. ok p (cap ! i)) [a..<length cap] = Some i \<and> i \<le> k"
    using Cons.prems(2) by (cases "find (\<lambda>i. ok p (cap ! i)) [a..<length cap]")
      (auto simp: find_upt_None find_upt_Some fits_def not_le [symmetric])
  then obtain i where i: "find (\<lambda>i. ok p (cap ! i)) [a..<length cap] = Some i" "i \<le> k" by blast
  have "sorted (i # ks')" using Cons.prems(2) ks(1) i(2) by auto
  then have "None \<notin> set (positions ok cap ps i)" by (rule Cons.IH [OF ks(3)])
  then show ?case by (simp add: i(1))
qed simp

lemma found_places_all: "None \<notin> set ks \<Longrightarrow> found_places ks = map the ks"
  by (induction ks) (auto simp: found_places_def not_None_eq [symmetric] simp del: not_None_eq)

lemma all_found: "None \<notin> set (positions ok cap ps a) \<longleftrightarrow> embedded ok cap ps a"
proof
  assume n: "None \<notin> set (positions ok cap ps a)"
  then have f: "found_places (positions ok cap ps a) = map the (positions ok cap ps a)" by (rule found_places_all)
  have "list_all2 (fits ok cap) ps (map the (positions ok cap ps a))"
    using positions_fit [of ok cap ps a] n by (auto simp: list_all2_conv_all_nth) (metis length_positions nth_mem)
  then show "embedded ok cap ps a"
    using positions_sorted [of a ok cap ps] unfolding embedded_def f by blast
next
  assume "embedded ok cap ps a"
  then show "None \<notin> set (positions ok cap ps a)" using positions_complete unfolding embedded_def by blast
qed

text \<open>
  What the loop is meant to find: the expected packets at places of the capture that strictly increase, each
  captured packet used once. Looking greedily misses no such sequence. It finds more only where one captured
  packet fits two expected ones that follow each other.
\<close>

definition lies_in_order :: "('e \<Rightarrow> 'c \<Rightarrow> bool) \<Rightarrow> 'c list \<Rightarrow> 'e list \<Rightarrow> bool" where
  "lies_in_order ok captured ps \<longleftrightarrow> (\<exists>ks. list_all2 (fits ok captured) ps ks \<and> sorted_wrt (<) ks)"

definition told_apart :: "('e \<Rightarrow> 'c \<Rightarrow> bool) \<Rightarrow> 'c list \<Rightarrow> 'e list \<Rightarrow> bool" where
  "told_apart ok captured ps \<longleftrightarrow> successively (\<lambda>p q. \<forall>c\<in>set captured. \<not> (ok p c \<and> ok q c)) ps"

lemma lies_found: "lies_in_order ok cap ps \<Longrightarrow> None \<notin> set (positions ok cap ps 0)"
proof -
  assume "lies_in_order ok cap ps"
  then obtain ks where ks: "list_all2 (fits ok cap) ps ks" "sorted_wrt (<) ks" by (auto simp: lies_in_order_def)
  then have "sorted (0 # ks)" by (auto intro: sorted_wrt_mono_rel [of _ "(<)" "(\<le>)"])
  then show ?thesis by (rule positions_complete [OF ks(1)])
qed

lemma apart_strict:
  "list_all2 (fits ok cap) ps ks \<Longrightarrow> sorted ks \<Longrightarrow> told_apart ok cap ps \<Longrightarrow> sorted_wrt (<) ks"
proof (induction ps ks rule: list_all2_induct)
  case (Cons p ps k ks)
  note fit = Cons.hyps(1)
  show ?case
  proof (cases ks)
    case (Cons k' ks')
    then obtain p' ps' where ps: "ps = p' # ps'" "fits ok cap p' k'"
      using Cons.hyps(2) by (auto simp: list_all2_Cons2)
    have apart: "\<forall>c\<in>set cap. \<not> (ok p c \<and> ok p' c)" "told_apart ok cap ps"
      using \<open>told_apart ok cap (p # ps)\<close> by (simp_all add: told_apart_def ps(1))
    have "k \<noteq> k'"
    proof
      assume "k = k'"
      then show False using fit ps(2) apart(1) by (auto simp: fits_def)
    qed
    moreover have "k \<le> k'" using \<open>sorted (k # ks)\<close> Cons by simp
    ultimately have "k < k'" by simp
    moreover have "sorted_wrt (<) ks" using Cons.IH \<open>sorted (k # ks)\<close> apart(2) by simp
    ultimately show ?thesis using Cons by fastforce
  qed simp
qed simp

lemma found_iff_lies:
  assumes "told_apart ok cap ps"
  shows "None \<notin> set (positions ok cap ps 0) \<longleftrightarrow> lies_in_order ok cap ps"
proof
  assume "None \<notin> set (positions ok cap ps 0)"
  then obtain ks where "list_all2 (fits ok cap) ps ks" "sorted ks" by (auto simp: all_found embedded_def)
  then show "lies_in_order ok cap ps" using apart_strict assms unfolding lies_in_order_def by blast
qed (rule lies_found)

end
