(* ===== verification/Multicast.thy ===== *)
theory Multicast
  imports Linux_Tools Packet_Scan
begin

text \<open>
  Multicast traffic (\<^verbatim>\<open>boardfarm3/lib/multicast.py\<close> and \<^verbatim>\<open>boardfarm3/use_cases/multicast.py\<close>): captures,
  iperf sessions on a console, and membership reports. The table pandas makes of a report is a
  parameter, \<open>frame\<close>, with its columns.
\<close>

section \<open>Sessions and results\<close>

datatype record_type =
  MODE_IS_INCLUDE | MODE_IS_EXCLUDE | CHANGE_TO_INCLUDE_MODE | CHANGE_TO_EXCLUDE_MODE | ALLOW_NEW_SOURCES | BLOCK_OLD_SOURCES

fun record_value :: "record_type \<Rightarrow> int" where
  "record_value MODE_IS_INCLUDE = 1"
| "record_value MODE_IS_EXCLUDE = 2"
| "record_value CHANGE_TO_INCLUDE_MODE = 3"
| "record_value CHANGE_TO_EXCLUDE_MODE = 4"
| "record_value ALLOW_NEW_SOURCES = 5"
| "record_value BLOCK_OLD_SOURCES = 6"

record 'd iperf_session =
  is_device :: "'d option"
  is_pid :: string
  is_address :: string
  is_port :: int
  is_output :: string

record 'd iperf_stream = "'d iperf_session" +
  is_time :: int

text \<open>The result of a session: a table, or nothing. \<open>last_cell\<close> is the last value of a column, \<open>mbps\<close> a
  value divided by a million, as text.\<close>

definition bandwidth :: "('t \<Rightarrow> string \<Rightarrow> raised + json) \<Rightarrow> (json \<Rightarrow> string) \<Rightarrow> 't option \<Rightarrow> raised + string option" where
  "bandwidth last_cell mbps data =
     (case data of None \<Rightarrow> Inr None | Some t \<Rightarrow> map_sum id (\<lambda>v. Some (mbps v)) (last_cell t ''bandwidth''))"

definition total_loss :: "('t \<Rightarrow> string \<Rightarrow> raised + json) \<Rightarrow> 't option \<Rightarrow> raised + string option" where
  "total_loss last_cell data =
     (case data of None \<Rightarrow> Inr None | Some t \<Rightarrow> map_sum id (\<lambda>v. Some (shown v)) (last_cell t ''lost''))"

record multicast =
  mc_name :: string
  mc_iface :: string
  mc_prompt :: "string list"

definition multicast_error :: "string \<Rightarrow> raised" where
  "multicast_error m = py_error MulticastError ''MulticastError'' m"

definition kill_all_iperf_sessions :: "multicast \<Rightarrow> 'w console \<Rightarrow> ('w, unit) io" where
  "kill_all_iperf_sessions m c =
     andthen (sp_sendcontrol c ''c'')
     (andthen (at_prompt c (mc_prompt m) (-1)) (do_cmd c ''for i in $(pgrep iperf); do kill -9 $i; done''))"

section \<open>Captures\<close>

text \<open>
  The lines after the one with the warning, each cut at the commas. Without a warning the loop ends on
  the last line, and nothing follows it; without a line at all, the loop variable of the second reader
  is unbound.
\<close>

definition after_warning :: "string list \<Rightarrow> string list" where
  "after_warning ls =
     (case find (\<lambda>i. str_in ''This could be dangerous.'' (ls ! i)) [0..<length ls] of
        Some i \<Rightarrow> drop (i + 1) ls
      | None \<Rightarrow> drop (length ls - 1 + 1) ls)"

definition trace_row :: "string \<Rightarrow> string list" where
  "trace_row line = split_on (CHR '','') (strip whitespace line)"

definition ipv4_trace_command :: "string \<Rightarrow> string" where
  "ipv4_trace_command fname =
     ''tshark -r '' @ fname @ '' -E separator=, -Y '' @ [CHR 0x22] @ ''igmp or udp'' @ [CHR 0x22] @
     '' -T fields -e ip.src -e ip.dst -e eth.src -e eth.dst -e ip.proto -e igmp.version -e igmp.record_type '' @
     ''-e igmp.maddr -e igmp.saddr''"

definition ipv6_trace_command :: "string \<Rightarrow> string" where
  "ipv6_trace_command fname =
     ''tshark -r '' @ fname @ '' -E separator=, -Y '' @ [CHR 0x22] @ ''icmpv6.type==143 or icmpv6.type==130 or udp'' @ [CHR 0x22] @
     '' -T fields -e ipv6.src -e ipv6.dst -e eth.src -e eth.dst -e ipv6.nxt -e icmpv6.type '' @
     ''-e icmpv6.mldr.mar.record_type -e icmpv6.mldr.mar.multicast_address -e icmpv6.mldr.mar.source_address''"

definition read_mcast_ipv4_trace :: "'w console \<Rightarrow> string \<Rightarrow> ('w, string list list) io" where
  "read_mcast_ipv4_trace c fname =
     seq (run_cmd c (ipv4_trace_command fname)) (\<lambda>out. ret (map trace_row (after_warning (splitlines out))))"

definition read_mcast_ipv6_trace :: "'w console \<Rightarrow> string \<Rightarrow> ('w, string list list) io" where
  "read_mcast_ipv6_trace c fname =
     seq (run_cmd c (ipv6_trace_command fname)) (\<lambda>out.
     if splitlines out = [] then throw (unbound_local ''_index'')
     else ret (map trace_row (after_warning (splitlines out))))"

text \<open>A star stands for any value; columns beyond the shorter of the two rows are not compared.\<close>

definition row_matches :: "string list \<Rightarrow> string list \<Rightarrow> bool" where
  "row_matches packet captured = list_all (\<lambda>(expected, actual). expected \<noteq> ''*'' \<longrightarrow> expected = actual) (zip packet captured)"

text \<open>
  The matched rows, an empty one for a packet that is missing. Both log messages read the first four
  columns of the expected packet.
\<close>

definition matched_rows :: "string list list \<Rightarrow> string list list \<Rightarrow> raised + string list list" where
  "matched_rows captured expected_sequence =
     (if list_ex (\<lambda>p. length p < 4) expected_sequence then Inl index_error
      else Inr (map (\<lambda>k. case k of Some i \<Rightarrow> captured ! i | None \<Rightarrow> []) (positions row_matches captured expected_sequence 0)))"

definition parse_mcast_trace :: "'w console \<Rightarrow> string \<Rightarrow> string list list \<Rightarrow> int \<Rightarrow> ('w, string list list) io" where
  "parse_mcast_trace c fname expected_sequence ip_version =
     (if ip_version = 4 then seq (read_mcast_ipv4_trace c fname) (\<lambda>rows. lift_sum (matched_rows rows expected_sequence))
      else if ip_version = 6 then seq (read_mcast_ipv6_trace c fname) (\<lambda>rows. lift_sum (matched_rows rows expected_sequence))
      else throw (value_error (''Invalid IP version: '' @ int_str ip_version)))"

section \<open>Groups\<close>

definition is_multicast :: "address \<Rightarrow> bool" where
  "is_multicast a = (case a of V4 n \<Rightarrow> n div 2 ^ 28 = 14 | V6 n \<Rightarrow> n div 2 ^ 120 = 255)"

definition is_v6 :: "address \<Rightarrow> bool" where
  "is_v6 a = (case a of V4 _ \<Rightarrow> False | V6 _ \<Rightarrow> True)"

definition not_multicast :: "string \<Rightarrow> string" where
  "not_multicast multicast_address = multicast_address @ '' is not a multicast address''"

definition sessions_query :: "int \<Rightarrow> string \<Rightarrow> string \<Rightarrow> string" where
  "sessions_query port bar addr = ''pgrep iperf -a | grep '' @ int_str port @ bar @ ''grep '' @ addr"

text \<open>\<open>name\<close> is how a message names the device, and \<open>bad\<close> and \<open>busy\<close> the exceptions of the caller.\<close>

definition already_running :: "string \<Rightarrow> int \<Rightarrow> string \<Rightarrow> string" where
  "already_running name port addr =
     name @ '' already has an iperf session with port '' @ int_str port @ '' and multicast address '' @ addr"

definition stream_active :: "(string \<Rightarrow> raised) \<Rightarrow> 'w console \<Rightarrow> string \<Rightarrow> int \<Rightarrow> ('w, bool) io" where
  "stream_active bad c multicast_address port =
     seq (lift_sum (ip_address multicast_address)) (\<lambda>a.
     if \<not> is_multicast a then throw (bad (not_multicast multicast_address))
     else seq (run_cmd c (sessions_query port '' | '' multicast_address)) (\<lambda>out. ret (out \<noteq> [])))"

definition iperf_session_check :: "multicast \<Rightarrow> 'w console \<Rightarrow> string \<Rightarrow> int \<Rightarrow> ('w, unit) io" where
  "iperf_session_check m c multicast_address port =
     seq (stream_active value_error c multicast_address port) (\<lambda>active.
     if active then throw (multicast_error (already_running (mc_name m) port multicast_address)) else ret ())"

definition v6_flag :: "string \<Rightarrow> raised + string" where
  "v6_flag addr = map_sum id (\<lambda>a. if is_v6 a then ''-V'' else []) (ip_address addr)"

definition ssm_flag :: "string \<Rightarrow> string \<Rightarrow> raised + string" where
  "ssm_flag source_addr group_addr =
     (case ip_address source_addr of
        Inl e \<Rightarrow> Inl e
      | Inr a \<Rightarrow> if is_v6 a then v6_flag group_addr else Inr [])"

definition receiver_file :: "int \<Rightarrow> string" where
  "receiver_file port = ''mclient_'' @ int_str port @ ''.txt''"

definition receiver_command :: "string \<Rightarrow> int \<Rightarrow> string \<Rightarrow> string option \<Rightarrow> string" where
  "receiver_command flag port group_addr source =
     ''iperf '' @ flag @ '' -s -f m -u -U -p '' @ int_str port @ '' -B '' @ group_addr @
     (case source of None \<Rightarrow> [] | Some s \<Rightarrow> '' --ssm-host '' @ s) @ '' -i 1 -y C > '' @ receiver_file port @ '' &''"

definition pid_query :: "int \<Rightarrow> string" where
  "pid_query port =
     ''pgrep iperf -a | grep '' @ int_str port @ '' | awk '' @ [CHR 0x27] @ ''{print$1}'' @ [CHR 0x27]"

text \<open>Starting the receiver, and the session of it.\<close>

definition start_receiver :: "'d option \<Rightarrow> 'w console \<Rightarrow> string \<Rightarrow> int \<Rightarrow> string \<Rightarrow> string option \<Rightarrow> ('w, 'd iperf_session) io" where
  "start_receiver dev c flag port group_addr source =
     andthen (do_cmd c (receiver_command flag port group_addr source))
     (seq (run_cmd c (pid_query port)) (\<lambda>pid.
     ret \<lparr>is_device = dev, is_pid = pid, is_address = group_addr, is_port = port, is_output = receiver_file port\<rparr>))"

definition join_iperf_multicast_ssm_group ::
  "multicast \<Rightarrow> 'w console \<Rightarrow> string \<Rightarrow> string \<Rightarrow> int \<Rightarrow> ('w, 'd iperf_session) io" where
  "join_iperf_multicast_ssm_group m c source_addr group_addr port =
     seq (lift_sum (ssm_flag source_addr group_addr)) (\<lambda>flag.
     andthen (iperf_session_check m c group_addr port) (start_receiver None c flag port group_addr (Some source_addr)))"

definition join_iperf_multicast_asm_group :: "multicast \<Rightarrow> 'w console \<Rightarrow> string \<Rightarrow> int \<Rightarrow> ('w, 'd iperf_session) io" where
  "join_iperf_multicast_asm_group m c group_addr port =
     seq (lift_sum (v6_flag group_addr)) (\<lambda>flag.
     andthen (iperf_session_check m c group_addr port) (start_receiver None c flag port group_addr None))"

definition report_columns :: "string list" where
  "report_columns =
     [''timestamp'', ''source_address'', ''source_port'', ''destination_address'', ''destination_port'', ''id'', ''interval'',
      ''transferred_bytes'', ''bandwidth'', ''jitter'', ''lost'', ''total'']"

text \<open>Stopping the receiver and reading its report: the file is removed before the report is read.\<close>

definition collect_report ::
  "(string \<Rightarrow> string list \<Rightarrow> raised + 't) \<Rightarrow> 'w console \<Rightarrow> ('d, 'x) iperf_session_scheme \<Rightarrow> ('w, 't option) io" where
  "collect_report frame c session =
     andthen (do_cmd c (''kill -15 '' @ is_pid session))
     (seq (run_cmd c (''cat '' @ is_output session)) (\<lambda>output.
     andthen (do_cmd c (''rm '' @ is_output session))
     (if strip whitespace output = [] then ret None
      else seq (lift_sum (frame (strip whitespace output) report_columns)) (\<lambda>t. ret (Some t)))))"

definition leave_iperf_multicast_group ::
  "(string \<Rightarrow> string list \<Rightarrow> raised + 't) \<Rightarrow> multicast \<Rightarrow> 'w console \<Rightarrow> 'd iperf_session \<Rightarrow> ('w, 't option) io" where
  "leave_iperf_multicast_group frame m c session =
     seq (run_cmd c (sessions_query (is_port session) ''| '' (is_address session))) (\<lambda>out.
     if out = []
     then throw (multicast_error (''iperf session with port '' @ int_str (is_port session) @ '' and '' @ is_address session @
            '' multicast group does not exist on '' @ mc_name m))
     else collect_report frame c session)"

definition stream_file :: "int \<Rightarrow> string" where
  "stream_file port = ''mserver_'' @ int_str port @ ''.txt''"

definition start_stream ::
  "'d option \<Rightarrow> 'w console \<Rightarrow> string \<Rightarrow> string \<Rightarrow> int \<Rightarrow> int \<Rightarrow> string \<Rightarrow> ('w, 'd iperf_stream) io" where
  "start_stream dev c flag group_addr port time bit_rate =
     andthen
       (do_cmd c (''iperf '' @ flag @ '' -u -f m -c '' @ group_addr @ '' -p '' @ int_str port @ '' --ttl 5 -t '' @ int_str time @
          '' -b '' @ bit_rate @ ''m > '' @ stream_file port @ '' &''))
     (seq (run_cmd c (pid_query port)) (\<lambda>pid.
     ret \<lparr>is_device = dev, is_pid = pid, is_address = group_addr, is_port = port, is_output = stream_file port, is_time = time\<rparr>))"

definition start_iperf_multicast_stream ::
  "multicast \<Rightarrow> 'w console \<Rightarrow> string \<Rightarrow> int \<Rightarrow> int \<Rightarrow> string \<Rightarrow> ('w, 'd iperf_stream) io" where
  "start_iperf_multicast_stream m c group_addr port time bit_rate =
     andthen (iperf_session_check m c group_addr port)
     (seq (lift_sum (v6_flag group_addr)) (\<lambda>flag. start_stream None c flag group_addr port time bit_rate))"

text \<open>Asking \<open>n\<close> times, a second apart, whether the command lists nothing.\<close>

fun await_quiet :: "'w console \<Rightarrow> string \<Rightarrow> nat \<Rightarrow> ('w, bool) io" where
  "await_quiet c cmd 0 = ret False"
| "await_quiet c cmd (Suc n) =
     seq (run_cmd c cmd) (\<lambda>out. if out = [] then ret True else andthen (sp_sleep c 1) (await_quiet c cmd n))"

text \<open>Waiting for a stream, killing it when it is still there; whether it ended by itself.\<close>

definition finish_stream :: "'w console \<Rightarrow> ('d, 'x) iperf_stream_scheme \<Rightarrow> ('w, bool) io" where
  "finish_stream c s =
     seq (await_quiet c (sessions_query (is_port s) ''| '' (is_address s)) 2) (\<lambda>ended.
     andthen (when_io (\<not> ended) (do_cmd c (''kill -9 '' @ is_pid s)))
     (andthen (do_cmd c (''rm '' @ is_output s)) (ret ended)))"

text \<open>The second half of the message is not a format string: the name of the field appears in it.\<close>

definition wait_for_multicast_stream_to_end :: "'w console \<Rightarrow> 'd iperf_stream \<Rightarrow> ('w, unit) io" where
  "wait_for_multicast_stream_to_end c s =
     seq (finish_stream c s) (\<lambda>ended.
     if ended then ret ()
     else throw (multicast_error (is_address s @ '':'' @ int_str (is_port s) @ '' did not exit within {iperf_stream.time}s'')))"

section \<open>Membership reports\<close>

definition report_args :: "(string list \<times> string \<times> record_type) list \<Rightarrow> string" where
  "report_args records =
     concat (map (\<lambda>(sources, group, rtype).
       ''-mr '' @ [CHR 0x22] @ join '','' sources @ '';'' @ group @ '';'' @ int_str (record_value rtype) @ '' '' @ [CHR 0x22]) records)"

definition send_records :: "'w console \<Rightarrow> string \<Rightarrow> (string list \<times> string \<times> record_type) list \<Rightarrow> ('w, string) io" where
  "send_records c command records =
     seq (run_cmd c (command @ '' '' @ report_args records)) (\<lambda>output.
     if str_in ''Traceback'' output then throw (multicast_error (''Failed to send the report!!'' @ [CHR 0x0A] @ output))
     else ret output)"

definition checked_report :: "'w console \<Rightarrow> string \<Rightarrow> (string list \<times> string \<times> record_type) list \<Rightarrow> int \<Rightarrow> ('w, unit) io" where
  "checked_report c command records count =
     seq (send_records c command records) (\<lambda>output.
     if \<not> str_in (''Sent '' @ int_str count @ '' packets'') output
     then throw (multicast_error (''Failed to execute send_mld_report command:'' @ [CHR 0x0A] @ output))
     else ret ())"

definition send_igmpv3_report :: "multicast \<Rightarrow> 'w console \<Rightarrow> (string list \<times> string \<times> record_type) list \<Rightarrow> int \<Rightarrow> ('w, unit) io" where
  "send_igmpv3_report m c records count =
     checked_report c (''send_igmp_report -i '' @ mc_iface m @ '' -c '' @ int_str count) records count"

definition mcast_mldv2_report :: "multicast \<Rightarrow> 'w console \<Rightarrow> (string list \<times> string \<times> record_type) list \<Rightarrow> int \<Rightarrow> ('w, unit) io" where
  "mcast_mldv2_report m c records count =
     checked_report c (''send_mld_report -i '' @ mc_iface m @ '' -c '' @ int_str count) records count"

text \<open>\<^verbatim>\<open>findall(...)[0]\<close>; of an address only the dots are special in an expression.\<close>

definition first_group :: "rx \<Rightarrow> string \<Rightarrow> raised + string" where
  "first_group r s = (case re_findall1 r s of [] \<Rightarrow> Inl index_error | g # _ \<Rightarrow> Inr g)"

definition gateway_mac_addr :: "multicast \<Rightarrow> 'w console \<Rightarrow> ('w, string) io" where
  "gateway_mac_addr m c =
     seq (run_cmd c ''ip route show default'') (\<lambda>route.
     seq (lift_sum (first_group (cats [lit ''default via '', Grp 1 (star dot), lit '' dev'']) route)) (\<lambda>gw_ip.
     seq (run_cmd c (''arp -i '' @ mc_iface m @ '' -a'')) (\<lambda>output.
     lift_sum (first_group
       (cats [chr (CHR ''(''), interpolated gw_ip, lit '') at'', blank, Grp 1 (star dot), blank, chr (CHR ''['')]) output))))"

section \<open>The use cases\<close>

text \<open>
  A device of a use case: its text in messages, its console, its multicast component, and the operations
  that start and stop a capture on its interface.
\<close>

record 'w mcast_device =
  md_text :: string
  md_console :: "'w console"
  md_multicast :: multicast
  md_start_tcpdump :: "string \<Rightarrow> string option \<Rightarrow> ('w, string) io"
  md_stop_tcpdump :: "string \<Rightarrow> ('w, unit) io"

definition kill_all_iperf :: "'w mcast_device list \<Rightarrow> ('w, unit) io" where
  "kill_all_iperf = for_each (\<lambda>d. kill_all_iperf_sessions (md_multicast d) (md_console d))"

text \<open>
  The capture around a block. When it does not start, the \<^verbatim>\<open>finally\<close> clause reads a variable that was
  never set, and its error replaces the one of the device.
\<close>

definition tcpdump :: "'w mcast_device \<Rightarrow> string \<Rightarrow> string option \<Rightarrow> (string \<Rightarrow> ('w, 'a) io) \<Rightarrow> ('w, 'a) io" where
  "tcpdump dev fname filters body w =
     (case md_start_tcpdump dev fname filters w of
        (Inl e, w') \<Rightarrow> (Inl (unbound_local ''pid''), w')
      | (Inr pid, w') \<Rightarrow> lastly (body pid) (md_stop_tcpdump dev pid) w')"

definition parse_trace_of :: "'w mcast_device \<Rightarrow> string \<Rightarrow> string list list \<Rightarrow> int \<Rightarrow> ('w, string list list) io" where
  "parse_trace_of dev fname expected_sequence ip_version = parse_mcast_trace (md_console dev) fname expected_sequence ip_version"

text \<open>A receiver or a stream starts only where none runs.\<close>

definition unless_active :: "'w mcast_device \<Rightarrow> string \<Rightarrow> int \<Rightarrow> ('w, 'a) io \<Rightarrow> ('w, 'a) io" where
  "unless_active dev group_addr port start =
     seq (stream_active multicast_error (md_console dev) group_addr port) (\<lambda>active.
     if active then throw (use_case_failure (already_running (md_text dev) port group_addr)) else start)"

definition join_ssm :: "'w mcast_device \<Rightarrow> string \<Rightarrow> string \<Rightarrow> int \<Rightarrow> ('w, 'w mcast_device iperf_session) io" where
  "join_ssm dev source_addr group_addr port =
     seq (lift_sum (ssm_flag source_addr group_addr)) (\<lambda>flag.
     unless_active dev group_addr port (start_receiver (Some dev) (md_console dev) flag port group_addr (Some source_addr)))"

definition join_asm :: "'w mcast_device \<Rightarrow> string \<Rightarrow> int \<Rightarrow> ('w, 'w mcast_device iperf_session) io" where
  "join_asm dev group_addr port =
     seq (lift_sum (v6_flag group_addr)) (\<lambda>flag.
     unless_active dev group_addr port (start_receiver (Some dev) (md_console dev) flag port group_addr None))"

definition leave_group ::
  "(string \<Rightarrow> string list \<Rightarrow> raised + 't) \<Rightarrow> 'w mcast_device \<Rightarrow> 'w mcast_device iperf_session \<Rightarrow> ('w, 't option) io" where
  "leave_group frame dev session =
     seq (stream_active multicast_error (md_console dev) (is_address session) (is_port session)) (\<lambda>active.
     if \<not> active
     then throw (use_case_failure (''iperf session with port '' @ int_str (is_port session) @ '' and '' @ is_address session @
            '' multicast group does not exist on '' @ md_text dev))
     else collect_report frame (md_console dev) session)"

definition start_stream_on ::
  "'w mcast_device \<Rightarrow> string \<Rightarrow> int \<Rightarrow> int \<Rightarrow> string \<Rightarrow> ('w, 'w mcast_device iperf_stream) io" where
  "start_stream_on dev group_addr port time bit_rate =
     seq (lift_sum (v6_flag group_addr)) (\<lambda>flag.
     unless_active dev group_addr port (start_stream (Some dev) (md_console dev) flag group_addr port time bit_rate))"

text \<open>
  Waiting for streams, each with its console. The message is the heading joined between the failures, not
  before them.
\<close>

definition stream_failure :: "('d, 'x) iperf_stream_scheme \<Rightarrow> string" where
  "stream_failure s =
     is_address s @ '':'' @ int_str (is_port s) @ '' did not exit within '' @ int_str (is_time s) @ ''s''"

definition wait_for_streams :: "(int \<Rightarrow> ('w, unit) io) \<Rightarrow> ('w console \<times> 'd iperf_stream) list \<Rightarrow> ('w, unit) io" where
  "wait_for_streams sleep stream_list =
     (if stream_list = [] then throw (value_error ''Cannot pass an empty session list!'')
      else
        andthen (sleep (foldl max (is_time (snd (hd stream_list))) (map (\<lambda>(c, s). is_time s) (tl stream_list))))
        (seq (io_traverse (\<lambda>(c, s). seq (finish_stream c s) (\<lambda>ended. ret (if ended then [] else [stream_failure s]))) stream_list)
           (\<lambda>rs. if concat rs = [] then ret ()
                 else throw (use_case_failure (join (''Following sessions failed:'' @ [CHR 0x0A]) (concat rs))))))"

section \<open>Properties\<close>

text \<open>The rows of a capture are never empty.\<close>

lemma trace_row_ne: "trace_row line \<noteq> []"
  by (cases "strip whitespace line") (auto simp: trace_row_def split: list.splits)

definition read_mcast_trace :: "'w console \<Rightarrow> string \<Rightarrow> int \<Rightarrow> ('w, string list list) io" where
  "read_mcast_trace c fname ip_version =
     (if ip_version = 4 then read_mcast_ipv4_trace c fname else read_mcast_ipv6_trace c fname)"

lemma read_mcast_rows: "read_mcast_trace c fname v w = (Inr cap, w') \<Longrightarrow> [] \<notin> set cap"
  by (auto simp: read_mcast_trace_def read_mcast_ipv4_trace_def read_mcast_ipv6_trace_def seq_ok ret_def throw_def
      trace_row_ne trace_row_ne [symmetric] image_iff split: if_splits)

text \<open>C38: what matching a capture gives. There is one row for each expected packet: a row of the capture that
  fits it, or an empty one; the rows found come in the order of the capture. No row is empty when the expected
  packets lie in the capture in order, each at a place of its own. The converse holds where no captured row
  fits two expected packets that follow each other; without that it does not: the search goes on from the
  place last found and not after it, so a packet that is captured once is found as often as it is expected.\<close>

theorem mcast_trace_matched:
  assumes "parse_mcast_trace c fname ps v w = (Inr rows, w')"
  shows "\<exists>cap ks. read_mcast_trace c fname v w = (Inr cap, w') \<and>
    rows = map (\<lambda>k. case k of None \<Rightarrow> [] | Some i \<Rightarrow> cap ! i) ks \<and> sorted (found_places ks) \<and>
    list_all2 (\<lambda>p k. k = None \<or> fits row_matches cap p (the k)) ps ks \<and>
    (lies_in_order row_matches cap ps \<longrightarrow> [] \<notin> set rows) \<and>
    (told_apart row_matches cap ps \<longrightarrow> [] \<notin> set rows \<longrightarrow> lies_in_order row_matches cap ps) \<and>
    (\<forall>p r. ps = [p, p] \<and> cap = [r] \<and> row_matches p r \<longrightarrow> rows = [r, r])"
proof -
  obtain cap where cap: "read_mcast_trace c fname v w = (Inr cap, w')" and m: "matched_rows cap ps = Inr rows"
    using assms by (auto simp: parse_mcast_trace_def read_mcast_trace_def seq_ok split: if_splits)
  let ?ks = "positions row_matches cap ps 0"
  have rows: "rows = map (\<lambda>k. case k of None \<Rightarrow> [] | Some i \<Rightarrow> cap ! i) ?ks"
    using m by (auto simp: matched_rows_def split: if_splits option.splits)
  have fit: "list_all2 (\<lambda>p k. k = None \<or> fits row_matches cap p (the k)) ps ?ks" by (rule positions_fit)
  have "(case k of None \<Rightarrow> [] | Some i \<Rightarrow> cap ! i) = [] \<longleftrightarrow> k = None" if "k \<in> set ?ks" for k
  proof (cases k)
    case (Some i)
    with that fit have "i < length cap" by (auto simp: in_set_conv_nth list_all2_conv_all_nth fits_def)
    then show ?thesis using read_mcast_rows [OF cap] Some by (auto dest: nth_mem)
  qed simp
  then have all: "[] \<notin> set rows \<longleftrightarrow> None \<notin> set ?ks" unfolding rows by force
  have "rows = [r, r]" if "ps = [p, p]" "cap = [r]" "row_matches p r" for p r
    using that rows by simp
  then show ?thesis
    using cap rows fit all lies_found [of row_matches cap ps] found_iff_lies [of row_matches cap ps]
      positions_sorted [of 0 row_matches cap ps]
    by (intro exI [of _ cap] exI [of _ ?ks]) auto
qed

definition capture_device :: answers where
  "capture_device = (sample_device 0)\<lparr>dv_output := \<lambda>_. Inr (unlines [''This could be dangerous.'', ''a,b,c,d'', ''e,f,g,h''])\<rparr>"

theorem mcast_trace_matched_witness:
  "parse_mcast_trace (recorded capture_device) ''x'' [[''*'',''b'',''c'',''d''], [''a'',''*'',''c'',''d''], [''z'',''z'',''z'',''z'']] 4 [] =
     (Inr [[''a'',''b'',''c'',''d''], [''a'',''b'',''c'',''d''], []], [Executed (ipv4_trace_command ''x'') (-1)]) \<and>
   (\<exists>cap ks. read_mcast_trace (recorded capture_device) ''x'' 4 [] = (Inr cap, [Executed (ipv4_trace_command ''x'') (-1)]) \<and>
      sorted (found_places ks) \<and>
      list_all2 (\<lambda>p k. k = None \<or> fits row_matches cap p (the k))
        [[''*'',''b'',''c'',''d''], [''a'',''*'',''c'',''d''], [''z'',''z'',''z'',''z'']] ks)"
proof -
  have out: "dv_output capture_device tr = Inr (unlines [''This could be dangerous.'', ''a,b,c,d'', ''e,f,g,h''])" for tr
    by (simp add: capture_device_def)
  have m: "matched_rows (map trace_row (after_warning (splitlines (unlines [''This could be dangerous.'', ''a,b,c,d'', ''e,f,g,h'']))))
      [[''*'',''b'',''c'',''d''], [''a'',''*'',''c'',''d''], [''z'',''z'',''z'',''z'']] =
      Inr [[''a'',''b'',''c'',''d''], [''a'',''b'',''c'',''d''], []]" by code_simp
  have r: "parse_mcast_trace (recorded capture_device) ''x'' [[''*'',''b'',''c'',''d''], [''a'',''*'',''c'',''d''], [''z'',''z'',''z'',''z'']] 4 [] =
     (Inr [[''a'',''b'',''c'',''d''], [''a'',''b'',''c'',''d''], []], [Executed (ipv4_trace_command ''x'') (-1)])"
    by (simp only: parse_mcast_trace_def read_mcast_ipv4_trace_def seq_def run_cmd_def recorded_simps out if_True prod.case sum.case
        ret_def m lift_sum_def append.simps refl)
  from mcast_trace_matched [OF r] show ?thesis
    by (elim exE conjE) (rule conjI [OF r], intro exI conjI; assumption)
qed

text \<open>a receiver starts only for a multicast group, and only when the device has just listed no session
  for its port and group: whatever the device answers, the command that starts it follows a query that
  was answered with nothing.\<close>

theorem join_asm_guarded:
  assumes "join_asm dev group_addr port [] = (r, tr)" and "md_console dev = recorded d"
    and "Executed (receiver_command flag port group_addr None) (-1) \<in> set tr"
  shows "(\<exists>a. ip_address group_addr = Inr a \<and> is_multicast a) \<and>
    dv_output d [Executed (sessions_query port '' | '' group_addr) (-1)] = Inr []"
proof -
  have q: "receiver_command flag port group_addr None \<noteq> sessions_query port '' | '' group_addr"
    by (simp add: receiver_command_def sessions_query_def)
  show ?thesis
    using assms q unfolding join_asm_def v6_flag_def unless_active_def stream_active_def
    by (cases "ip_address group_addr"; cases "dv_output d [Executed (sessions_query port '' | '' group_addr) (-1)]")
       (auto simp: seq_def lift_sum_def run_cmd_def throw_def ret_def split: if_splits)
qed

theorem join_asm_guarded_witness:
  "let dev = \<lparr>md_text = ''lan'', md_console = recorded (sample_device 0), md_multicast = \<lparr>mc_name = ''lan'', mc_iface = ''eth1'', mc_prompt = []\<rparr>,
              md_start_tcpdump = \<lambda>_ _. ret [], md_stop_tcpdump = \<lambda>_. ret ()\<rparr>
   in Executed (receiver_command [] 5001 ''239.0.0.1'' None) (-1) \<in> set (snd (join_asm dev ''239.0.0.1'' 5001 [])) \<and>
      (\<exists>a. ip_address ''239.0.0.1'' = Inr a \<and> is_multicast a)"
proof -
  let ?dev = "\<lparr>md_text = ''lan'', md_console = recorded (sample_device 0), md_multicast = \<lparr>mc_name = ''lan'', mc_iface = ''eth1'', mc_prompt = []\<rparr>,
              md_start_tcpdump = \<lambda>_ _. ret [], md_stop_tcpdump = \<lambda>_. ret ()\<rparr> :: action list mcast_device"
  have a: "ip_address ''239.0.0.1'' = Inr (V4 4009754625)" by code_simp
  have m: "Executed (receiver_command [] 5001 ''239.0.0.1'' None) (-1) \<in> set (snd (join_asm ?dev ''239.0.0.1'' 5001 []))"
    by (simp add: join_asm_def v6_flag_def a is_v6_def unless_active_def stream_active_def is_multicast_def seq_def lift_sum_def
        run_cmd_def start_receiver_def andthen_def do_cmd_def ret_def sample_device_def)
  have "join_asm ?dev ''239.0.0.1'' 5001 [] = (fst (join_asm ?dev ''239.0.0.1'' 5001 []), snd (join_asm ?dev ''239.0.0.1'' 5001 []))" by simp
  from join_asm_guarded [OF this _ m, of "sample_device 0"] m show ?thesis by (simp add: Let_def)
qed

text \<open>A capture that does not start hides why: the error of the device is replaced.\<close>

lemma tcpdump_hides_failure:
  assumes "md_start_tcpdump dev fname filters w = (Inl e, w')"
  shows "tcpdump dev fname filters body w = (Inl (unbound_local ''pid''), w')"
  using assms by (simp add: tcpdump_def)

text \<open>A single stream that did not end is reported without the heading.\<close>

lemma heading_lost:
  assumes "finish_stream c s w' = (Inr False, w'')" and "sleep (is_time s) w = (Inr (), w')"
  shows "wait_for_streams sleep [(c, s)] w = (Inl (use_case_failure (stream_failure s)), w'')"
  using assms by (simp add: wait_for_streams_def andthen_def seq_def ret_def throw_def)

end
