(* ===== verification/Snmp.thy ===== *)
theory Snmp
  imports Linux_Tools Dhcp_Trace
begin

text \<open>
  SNMP over the tools of a device (\<^verbatim>\<open>boardfarm3/lib/SNMPv2.py\<close>): the commands, and the reading of their
  output. Running a command on the device is a parameter, \<open>execute\<close>, and so is the table of the compiled
  MIBs, \<open>compiled\<close>.
\<close>

section \<open>Identifiers\<close>

definition arc_rx :: rx where
  "arc_rx = Alt (Cat (between (CHR ''1'') (CHR ''9'')) (upto_times dgt 6)) (chr (CHR ''0''))"

definition oid_rx :: rx where
  "oid_rx = cats [Bol, arc_rx, Rep (Cat (chr (CHR ''.'')) arc_rx) 3 (Some 30) True, Eol]"

definition snmp_error :: "string \<Rightarrow> raised" where
  "snmp_error m = py_error SNMPError ''SNMPError'' m"

definition mib_missing :: "raised \<Rightarrow> raised" where
  "mib_missing e = snmp_error (''MIB not available, Error: '' @ rx_message e)"

definition get_oid_from_compiler :: "(string \<Rightarrow> raised + string) \<Rightarrow> string \<Rightarrow> raised + string" where
  "get_oid_from_compiler compiled mib_name =
     (case compiled mib_name of
        Inl e \<Rightarrow> Inl (if rx_class e = PyValueError then mib_missing e else e)
      | Inr oid \<Rightarrow> Inr oid)"

definition get_mib_oid :: "(string \<Rightarrow> raised + string) \<Rightarrow> string \<Rightarrow> raised + string" where
  "get_mib_oid compiled mib_name =
     (if re_match oid_rx mib_name \<noteq> None then Inr mib_name else get_oid_from_compiler compiled mib_name)"

section \<open>Commands\<close>

record 'w snmp =
  sn_execute :: "string \<Rightarrow> int \<Rightarrow> ('w, string) io"
  sn_target :: string
  sn_compiled :: "string \<Rightarrow> raised + string"

text \<open>What the callers pass besides the name: community, extra arguments, timeouts and retries.\<close>

record snmp_options =
  so_community :: string
  so_extra :: string
  so_timeout :: int
  so_retries :: int
  so_cmd_timeout :: int

definition create_snmp_cmd :: "'w snmp \<Rightarrow> string \<Rightarrow> snmp_options \<Rightarrow> string \<Rightarrow> string \<Rightarrow> string" where
  "create_snmp_cmd s action os oid set_value =
     (let extra = (if so_extra os = [] then [] else '' '' @ strip whitespace (so_extra os))
      in action @ '' -v 2c -On'' @ extra @ '' -c '' @ so_community os @ '' -t '' @ int_str (so_timeout os) @ '' -r '' @
         int_str (so_retries os) @ '' '' @ sn_target s @ '' '' @ oid @ '' '' @ set_value)"

definition run_snmp_command :: "'w snmp \<Rightarrow> string \<Rightarrow> snmp_options \<Rightarrow> string \<Rightarrow> string \<Rightarrow> ('w, string) io" where
  "run_snmp_command s action os oid set_value = sn_execute s (create_snmp_cmd s action os oid set_value) (so_cmd_timeout os)"

section \<open>Reading the output\<close>

text \<open>\<^verbatim>\<open>rf".{oid}\s+\=\s+(\S+)\:\s+(\"?.*\"?)"\<close>; of an identifier only the dots are special.\<close>

definition quote_opt :: rx where
  "quote_opt = opt (chr (CHR 0x22))"

definition snmp_value_rx :: "nat \<Rightarrow> rx list" where
  "snmp_value_rx n =
     [plus blank, chr (CHR ''=''), plus blank, Grp n (plus non_blank), chr (CHR '':''), plus blank,
      Grp (Suc n) (cats [quote_opt, star dot, quote_opt])]"

definition result_rx :: "string \<Rightarrow> rx" where
  "result_rx oid = cats (dot # interpolated oid # snmp_value_rx 1)"

definition walk_rx :: "string \<Rightarrow> rx" where
  "walk_rx oid =
     cats (dot # Grp 1 (Cat (interpolated oid) (star (Cls (\<lambda>c. c = CHR ''.'' \<or> is_digit c \<or> c = CHR ''+'')))) # snmp_value_rx 2)"

definition unquoted :: "string \<Rightarrow> string" where
  "unquoted = filter (\<lambda>c. c \<noteq> CHR 0x22)"

text \<open>
  The value that was set, if there is one, has to occur in the output; stripped of quotes and then of every
  leading and trailing \<open>0\<close> and \<open>x\<close>.
\<close>

definition compared_value :: "string \<Rightarrow> string" where
  "compared_value value = strip ''0x'' (strip [CHR 0x27] value)"

definition parse_snmp_output :: "string \<Rightarrow> string \<Rightarrow> string option \<Rightarrow> raised + string \<times> string \<times> string" where
  "parse_snmp_output oid output value =
     (case re_search (result_rx oid) output of
        None \<Rightarrow> Inl (snmp_error output)
      | Some m \<Rightarrow>
          (let v = (case value of None \<Rightarrow> [] | Some v \<Rightarrow> v)
           in if v \<noteq> [] \<and> \<not> str_in (compared_value v) (group 2 m)
              then Inl (assertion_error (''Set value did not match with output value: Expected: '' @ compared_value v @
                     '' Actual: '' @ group 2 m))
              else Inr (unquoted (group 2 m), group 1 m, ma_text m)))"

definition parse_snmpwalk_output :: "string \<Rightarrow> string \<Rightarrow> raised + (string, string list) dict \<times> string" where
  "parse_snmpwalk_output oid output =
     (case re_finditer (walk_rx oid) output of
        [] \<Rightarrow> Inl (snmp_error output)
      | ms \<Rightarrow> Inr (fold (\<lambda>m. dict_set (group 1 m) [unquoted (group 3 m), group 2 m]) ms [], output))"

definition bulk_rx :: rx where
  "bulk_rx =
     cats [lit ''iso'', star (Cls (\<lambda>c. c = CHR ''.'' \<or> is_digit c \<or> c = CHR ''+'')), blank, chr (CHR ''=''), blank,
           Grp 2 (plus non_blank), chr (CHR '':''), blank, Grp 3 (plus dgt)]"

definition parse_snmpbulk_output :: "string \<Rightarrow> raised + (string \<times> string \<times> string) list" where
  "parse_snmpbulk_output output =
     (case re_finditer bulk_rx output of
        [] \<Rightarrow> Inl (snmp_error ''Failed to parse the SNMP Bulk get output'')
      | ms \<Rightarrow> Inr (map (\<lambda>m. (ma_text m, group 2 m, group 3 m)) ms))"

section \<open>Operations\<close>

definition indexed :: "string \<Rightarrow> int \<Rightarrow> string" where
  "indexed oid index = oid @ ''.'' @ int_str index"

definition snmpget :: "'w snmp \<Rightarrow> string \<Rightarrow> int \<Rightarrow> snmp_options \<Rightarrow> ('w, string \<times> string \<times> string) io" where
  "snmpget s mib_name index os =
     seq (lift_sum (get_mib_oid (sn_compiled s) mib_name)) (\<lambda>o'.
     seq (run_snmp_command s ''snmpget'' os (indexed o' index) []) (\<lambda>output.
     lift_sum (parse_snmp_output (indexed o' index) output None)))"

text \<open>The value as it is sent: a string with a blank is quoted once by \<^verbatim>\<open>repr\<close>, and everything is quoted again.\<close>

definition sent_value :: "string \<Rightarrow> string \<Rightarrow> string" where
  "sent_value value stype =
     (if list_ex (\<lambda>c. c \<in> set whitespace) (strip whitespace value) \<and> stype = ''s'' then py_repr value else value)"

definition set_argument :: "string \<Rightarrow> string \<Rightarrow> string" where
  "set_argument v stype =
     (if startswith (lower v) ''0x'' then stype @ '' '' @ [CHR 0x27] @ upper (drop 2 v) @ [CHR 0x27]
      else stype @ '' '' @ [CHR 0x27] @ v @ [CHR 0x27])"

definition snmpset ::
  "'w snmp \<Rightarrow> string \<Rightarrow> string \<Rightarrow> string \<Rightarrow> int \<Rightarrow> snmp_options \<Rightarrow> ('w, string \<times> string \<times> string) io" where
  "snmpset s mib_name value stype index os =
     seq (lift_sum (get_mib_oid (sn_compiled s) mib_name)) (\<lambda>o'.
     seq (run_snmp_command s ''snmpset'' os (indexed o' index) (set_argument (sent_value value stype) stype)) (\<lambda>output.
     lift_sum (parse_snmp_output (indexed o' index) output (Some (sent_value value stype)))))"

text \<open>
  The identifier of a walk: none for no name, and the index when it is given and not zero. An error of the
  name is wrapped, also when it is one already.
\<close>

definition walk_oid :: "'w snmp \<Rightarrow> string \<Rightarrow> int option \<Rightarrow> raised + string" where
  "walk_oid s mib_name index =
     (if mib_name = [] then Inr []
      else
        (case get_mib_oid (sn_compiled s) mib_name of
           Inl e \<Rightarrow> Inl (if rx_class e = PyValueError \<or> rx_class e = SNMPError then mib_missing e else e)
         | Inr o' \<Rightarrow> Inr (case index of Some i \<Rightarrow> if i = 0 then o' else indexed o' i | None \<Rightarrow> o')))"

definition snmpwalk :: "'w snmp \<Rightarrow> string \<Rightarrow> int option \<Rightarrow> snmp_options \<Rightarrow> ('w, (string, string list) dict \<times> string) io" where
  "snmpwalk s mib_name index os =
     seq (lift_sum (walk_oid s mib_name index)) (\<lambda>o'.
     seq (run_snmp_command s ''snmpwalk'' os o' []) (\<lambda>output. lift_sum (parse_snmpwalk_output o' output)))"

text \<open>The extra arguments follow \<open>-On\<close> without a blank, and without them there is no \<open>-On\<close>.\<close>

definition bulk_command :: "'w snmp \<Rightarrow> string \<Rightarrow> int \<Rightarrow> int \<Rightarrow> snmp_options \<Rightarrow> string" where
  "bulk_command s oid non_repeaters max_repetitions os =
     ''snmpbulkget -v2c'' @ (if so_extra os = [] then [] else '' -On'' @ so_extra os) @ '' -Cn'' @ int_str non_repeaters @
     '' -Cr'' @ int_str max_repetitions @ '' -c '' @ so_community os @ '' -t '' @ int_str (so_timeout os) @ '' -r '' @
     int_str (so_retries os) @ '' '' @ sn_target s @ '' '' @ oid"

definition snmpbulkget ::
  "'w snmp \<Rightarrow> string \<Rightarrow> int option \<Rightarrow> int \<Rightarrow> int \<Rightarrow> snmp_options \<Rightarrow> ('w, (string \<times> string \<times> string) list) io" where
  "snmpbulkget s mib_name index non_repeaters max_repetitions os =
     seq (lift_sum (walk_oid s mib_name index)) (\<lambda>o'.
     seq (sn_execute s (bulk_command s o' non_repeaters max_repetitions os) (so_cmd_timeout os)) (\<lambda>output.
     lift_sum (parse_snmpbulk_output output)))"

section \<open>Facts\<close>

text \<open>A greedy repetition gives back its last character when what follows needs it.\<close>

lemma repeat_two:
  assumes "\<And>c s b. P c \<Longrightarrow> step \<lparr>rp_before = b, rp_after = c # s, rp_groups = g\<rparr> = [\<lparr>rp_before = c # b, rp_after = s, rp_groups = g\<rparr>]"
    and "\<And>b. step \<lparr>rp_before = b, rp_after = rest, rp_groups = g\<rparr> = []" and "P d"
  shows "list_all P ds \<Longrightarrow> length ds < fuel \<Longrightarrow> lo \<le> length ds \<Longrightarrow>
    \<exists>qs. repeat step True fuel lo None \<lparr>rp_before = b, rp_after = ds @ d # rest, rp_groups = g\<rparr> =
         \<lparr>rp_before = d # rev ds @ b, rp_after = rest, rp_groups = g\<rparr> #
         \<lparr>rp_before = rev ds @ b, rp_after = d # rest, rp_groups = g\<rparr> # qs"
proof (induction ds arbitrary: fuel lo b)
  case Nil
  then obtain f where f: "fuel = Suc f" by (cases fuel) auto
  have "repeat step True f 0 None \<lparr>rp_before = d # b, rp_after = rest, rp_groups = g\<rparr> =
      [\<lparr>rp_before = d # b, rp_after = rest, rp_groups = g\<rparr>]"
    using assms(2) by (cases f) auto
  then show ?case using Nil f assms(1) [OF assms(3)] by auto
next
  case (Cons e ds)
  then obtain f where f: "fuel = Suc f" "length ds < f" by (cases fuel) auto
  have le: "lo - 1 \<le> length ds" using Cons.prems(3) by simp
  obtain qs where "repeat step True f (lo - 1) None \<lparr>rp_before = e # b, rp_after = ds @ d # rest, rp_groups = g\<rparr> =
      \<lparr>rp_before = d # rev ds @ e # b, rp_after = rest, rp_groups = g\<rparr> #
      \<lparr>rp_before = rev ds @ e # b, rp_after = d # rest, rp_groups = g\<rparr> # qs"
    using Cons.IH [OF _ f(2) le, of "e # b"] Cons.prems by auto
  then show ?case using Cons.prems(1) f assms(1) by auto
qed

lemma first_give_back:
  assumes "list_all P ds" and "ds \<noteq> []" and "P d" and "rest = [] \<or> \<not> P (hd rest)"
    and "\<And>b g. rmatch r \<lparr>rp_before = b, rp_after = rest, rp_groups = g\<rparr> = []"
    and "first r \<lparr>rp_before = rev ds @ b, rp_after = d # rest, rp_groups = dict_set n ds g\<rparr> q"
  shows "first (Cat (Grp n (plus (Cls P))) r) \<lparr>rp_before = b, rp_after = ds @ d # rest, rp_groups = g\<rparr> q"
proof -
  let ?p = "\<lparr>rp_before = b, rp_after = ds @ d # rest, rp_groups = g\<rparr>"
  have "1 \<le> length ds" using assms(2) by (cases ds) auto
  then obtain qs where "rmatch (plus (Cls P)) ?p = \<lparr>rp_before = d # rev ds @ b, rp_after = rest, rp_groups = g\<rparr> #
         \<lparr>rp_before = rev ds @ b, rp_after = d # rest, rp_groups = g\<rparr> # qs"
    using repeat_two [of P "rmatch (Cls P)" g rest d ds "1 + length (ds @ d # rest)" 1 b] assms(1,3,4)
    unfolding plus_def rmatch.simps by (cases rest) auto
  then show ?thesis using assms(5,6) by (auto simp: first_def)
qed

lemma first_interpolated:
  assumes "list_all (\<lambda>c. c \<noteq> CHR 0x0A) l"
  shows "first (interpolated l) \<lparr>rp_before = b, rp_after = l @ s, rp_groups = g\<rparr> \<lparr>rp_before = rev l @ b, rp_after = s, rp_groups = g\<rparr>"
  using assms
proof (induction l arbitrary: b)
  case Nil
  then show ?case by (simp add: first_def interpolated_def)
next
  case (Cons c l)
  have c: "first (if c = CHR ''.'' then dot else chr c) \<lparr>rp_before = b, rp_after = c # l @ s, rp_groups = g\<rparr>
      \<lparr>rp_before = c # b, rp_after = l @ s, rp_groups = g\<rparr>"
    using Cons.prems by (simp add: first_def chr_def dot_def)
  show ?case
  proof (cases l)
    case Nil
    then show ?thesis using c by (simp add: interpolated_def)
  next
    case (Cons d l')
    have "interpolated (c # l) = Cat (if c = CHR ''.'' then dot else chr c) (interpolated l)" by (simp add: interpolated_def Cons)
    moreover have "first (interpolated l) \<lparr>rp_before = c # b, rp_after = l @ s, rp_groups = g\<rparr>
        \<lparr>rp_before = rev l @ c # b, rp_after = s, rp_groups = g\<rparr>"
      using Cons.IH Cons.prems by simp
    ultimately show ?thesis using first_Cat [OF c] by simp
  qed
qed

text \<open>One blank, the value up to the end of its line.\<close>

lemma first_one_blank:
  assumes "s \<noteq> [] \<Longrightarrow> hd s \<notin> set whitespace"
  shows "first (plus blank) \<lparr>rp_before = b, rp_after = CHR '' '' # s, rp_groups = g\<rparr> \<lparr>rp_before = CHR '' '' # b, rp_after = s, rp_groups = g\<rparr>"
proof -
  have "CHR '' '' \<in> set whitespace" by code_simp
  then show ?thesis
    using first_plus_Cls [of "\<lambda>c. c \<in> set whitespace" "[CHR '' '']" s b g] assms unfolding blank_def by (cases s) auto
qed

lemma repeat_stop [simp]: "repeat step greedy fuel 0 (Some 0) p = [p]"
  by (cases fuel) (simp_all add: Let_def)

lemma first_value:
  assumes "list_all (\<lambda>c. c \<noteq> CHR 0x0A) v" and "tl' = [] \<or> hd tl' = CHR 0x0A"
  shows "first (cats [quote_opt, star dot, quote_opt]) \<lparr>rp_before = b, rp_after = v @ tl', rp_groups = g\<rparr>
     \<lparr>rp_before = rev v @ b, rp_after = tl', rp_groups = g\<rparr>"
proof -
  have dots: "first (star dot) \<lparr>rp_before = b', rp_after = u @ tl', rp_groups = g\<rparr> \<lparr>rp_before = rev u @ b', rp_after = tl', rp_groups = g\<rparr>"
    if "list_all (\<lambda>c. c \<noteq> CHR 0x0A) u" for u b'
    unfolding dot_def using that assms(2) by (intro first_star_Cls) auto
  have none: "first quote_opt \<lparr>rp_before = b', rp_after = tl', rp_groups = g\<rparr> \<lparr>rp_before = b', rp_after = tl', rp_groups = g\<rparr>" for b'
    using assms(2) by (cases tl') (auto simp: first_def quote_opt_def opt_def chr_def)
  show ?thesis
  proof (cases "\<exists>u. v = CHR 0x22 # u")
    case True
    then obtain u where u: "v = CHR 0x22 # u" by blast
    have "first quote_opt \<lparr>rp_before = b, rp_after = v @ tl', rp_groups = g\<rparr> \<lparr>rp_before = CHR 0x22 # b, rp_after = u @ tl', rp_groups = g\<rparr>"
      using u by (auto simp: first_def quote_opt_def opt_def chr_def Let_def)
    moreover have "list_all (\<lambda>c. c \<noteq> CHR 0x0A) u" using assms(1) u by simp
    ultimately show ?thesis unfolding cats.simps using first_Cat first_Cat [OF dots none] u by fastforce
  next
    case False
    then have "first quote_opt \<lparr>rp_before = b, rp_after = v @ tl', rp_groups = g\<rparr> \<lparr>rp_before = b, rp_after = v @ tl', rp_groups = g\<rparr>"
      using assms(2) by (cases v; cases tl') (auto simp: first_def quote_opt_def opt_def chr_def Let_def)
    then show ?thesis unfolding cats.simps using first_Cat first_Cat [OF dots [OF assms(1)] none] by blast
  qed
qed

text \<open>The line of one value.\<close>

definition value_line :: "string \<Rightarrow> string \<Rightarrow> string \<Rightarrow> string" where
  "value_line oid stype v = ''.'' @ oid @ '' = '' @ stype @ '': '' @ v"

definition good_value :: "string \<Rightarrow> bool" where
  "good_value v \<longleftrightarrow> v \<noteq> [] \<and> hd v \<notin> set whitespace \<and> list_all (\<lambda>c. c \<noteq> CHR 0x0A) v"

definition good_type :: "string \<Rightarrow> bool" where
  "good_type t \<longleftrightarrow> t \<noteq> [] \<and> list_all (\<lambda>c. c \<notin> set whitespace) t"

lemma result_rx_line:
  assumes "list_all (\<lambda>c. c \<noteq> CHR 0x0A) oid" and "good_type stype" and "good_value v" and "tl' = [] \<or> hd tl' = CHR 0x0A"
  shows "\<exists>m. re_search (result_rx oid) (value_line oid stype v @ tl') = Some m \<and>
    group 1 m = stype \<and> group 2 m = v \<and> ma_text m = value_line oid stype v"
proof -
  let ?P = "\<lambda>b s g. \<lparr>rp_before = b, rp_after = s, rp_groups = g\<rparr> :: rpos"
  let ?s5 = "v @ tl'" let ?s4 = "CHR '' '' # ?s5" let ?s3 = "stype @ CHR '':'' # ?s4"
  let ?s2 = "CHR ''='' # CHR '' '' # ?s3" let ?s1 = "CHR '' '' # ?s2"
  let ?b1 = "rev oid @ [CHR ''.'']" let ?b2 = "CHR '' '' # ?b1" let ?b3 = "CHR '' '' # CHR ''='' # ?b2"
  let ?b4 = "rev stype @ ?b3" let ?b5 = "CHR '' '' # CHR '':'' # ?b4"
  have ty: "stype \<noteq> []" "list_all (\<lambda>c. c \<notin> set whitespace) stype" using assms(2) by (auto simp: good_type_def)
  have v: "v \<noteq> []" "hd v \<notin> set whitespace" "list_all (\<lambda>c. c \<noteq> CHR 0x0A) v" using assms(3) by (auto simp: good_value_def)
  have chars: "CHR ''='' \<notin> set whitespace" "CHR '':'' \<notin> set whitespace" "CHR '' '' \<in> set whitespace" by code_simp+
  have g5: "first (Grp 2 (cats [quote_opt, star dot, quote_opt])) (?P ?b5 ?s5 [(1, stype)]) (?P (rev v @ ?b5) tl' [(1, stype), (2, v)])"
    using first_Grp [OF first_value [OF v(3) assms(4), of ?b5 "[(1, stype)]"], of 2] by simp
  have g4: "first (plus blank) (?P (CHR '':'' # ?b4) ?s4 [(1, stype)]) (?P ?b5 ?s5 [(1, stype)])"
    using v by (intro first_one_blank) (cases v; simp)
  have g3: "first (Cat (chr (CHR '':'')) (Cat (plus blank) (Grp 2 (cats [quote_opt, star dot, quote_opt]))))
      (?P ?b4 (CHR '':'' # ?s4) [(1, stype)]) (?P (rev v @ ?b5) tl' [(1, stype), (2, v)])"
    by (rule first_Cat [OF _ first_Cat [OF g4 g5]]) (simp add: first_def chr_def)
  have t: "first (Cat (Grp 1 (plus non_blank)) (Cat (chr (CHR '':'')) (Cat (plus blank) (Grp 2 (cats [quote_opt, star dot, quote_opt])))))
      (?P ?b3 ?s3 []) (?P (rev v @ ?b5) tl' [(1, stype), (2, v)])"
    unfolding non_blank_def using ty chars g3 by (intro first_give_back) (auto simp: chr_def)
  have e: "first (Cat (plus blank) (Cat (chr (CHR ''='')) (Cat (plus blank) (Cat (Grp 1 (plus non_blank)) (Cat (chr (CHR '':''))
        (Cat (plus blank) (Grp 2 (cats [quote_opt, star dot, quote_opt]))))))))
      (?P ?b1 ?s1 []) (?P (rev v @ ?b5) tl' [(1, stype), (2, v)])"
  proof (rule first_Cat)
    show "first (plus blank) (?P ?b1 ?s1 []) (?P ?b2 ?s2 [])" using chars by (intro first_one_blank) simp
    show "first (Cat (chr (CHR ''='')) (Cat (plus blank) (Cat (Grp 1 (plus non_blank)) (Cat (chr (CHR '':''))
        (Cat (plus blank) (Grp 2 (cats [quote_opt, star dot, quote_opt])))))))
      (?P ?b2 ?s2 []) (?P (rev v @ ?b5) tl' [(1, stype), (2, v)])"
    proof (rule first_Cat)
      show "first (chr (CHR ''='')) (?P ?b2 ?s2 []) (?P (CHR ''='' # ?b2) (CHR '' '' # ?s3) [])" by (simp add: first_def chr_def)
      have "first (plus blank) (?P (CHR ''='' # ?b2) (CHR '' '' # ?s3) []) (?P ?b3 ?s3 [])"
        using ty by (intro first_one_blank) (cases stype; simp)
      from first_Cat [OF this t] show "first (Cat (plus blank) (Cat (Grp 1 (plus non_blank)) (Cat (chr (CHR '':''))
        (Cat (plus blank) (Grp 2 (cats [quote_opt, star dot, quote_opt]))))))
        (?P (CHR ''='' # ?b2) (CHR '' '' # ?s3) []) (?P (rev v @ ?b5) tl' [(1, stype), (2, v)])" .
    qed
  qed
  have whole: "first (result_rx oid) (?P [] (value_line oid stype v @ tl') []) (?P (rev v @ ?b5) tl' [(1, stype), (2, v)])"
  proof -
    have "first dot (?P [] (CHR ''.'' # oid @ ?s1) []) (?P [CHR ''.''] (oid @ ?s1) [])" by (simp add: first_def dot_def)
    from first_Cat [OF this first_Cat [OF first_interpolated [OF assms(1)] e]]
    show ?thesis by (simp add: result_rx_def snmp_value_rx_def value_line_def numeral_2_eq_2)
  qed
  from search_first [OF whole] show ?thesis
    by (intro exI [of _ "as_match (?P [] (value_line oid stype v @ tl') []) (?P (rev v @ ?b5) tl' [(1, stype), (2, v)])"])
       (simp add: re_search_def as_match_def group_def)
qed

section \<open>Properties\<close>

text \<open>reading a value back: if the tool prints the line of the identifier that was asked for, alone or
  followed by more lines, \<^verbatim>\<open>snmpget\<close> returns its value without the quotes, its type and the line.\<close>

theorem snmpget_reads_line:
  assumes "get_mib_oid (sn_compiled s) mib = Inr o'" and "list_all (\<lambda>c. c \<noteq> CHR 0x0A) (indexed o' index)"
    and "good_type stype" and "good_value v" and "tl' = [] \<or> hd tl' = CHR 0x0A"
    and "run_snmp_command s ''snmpget'' os (indexed o' index) [] w = (Inr (value_line (indexed o' index) stype v @ tl'), w')"
  shows "snmpget s mib index os w = (Inr (unquoted v, stype, value_line (indexed o' index) stype v), w')"
proof -
  obtain m where "re_search (result_rx (indexed o' index)) (value_line (indexed o' index) stype v @ tl') = Some m"
    "group 1 m = stype" "group 2 m = v" "ma_text m = value_line (indexed o' index) stype v"
    using result_rx_line [OF assms(2-5)] by blast
  then have "parse_snmp_output (indexed o' index) (value_line (indexed o' index) stype v @ tl') None =
      Inr (unquoted v, stype, value_line (indexed o' index) stype v)"
    by (simp add: parse_snmp_output_def)
  then show ?thesis using assms(1,6) by (simp add: snmpget_def seq_def lift_sum_def)
qed

definition sample_snmp :: "unit snmp" where
  "sample_snmp =
     \<lparr>sn_execute = \<lambda>cmd t. ret (''.1.3.6.1.2.0 = STRING: '' @ [CHR 0x22] @ ''cpe'' @ [CHR 0x22]),
      sn_target = ''10.0.0.1'', sn_compiled = \<lambda>_. Inr ''1.3.6.1.2''\<rparr>"

definition default_options :: snmp_options where
  "default_options = \<lparr>so_community = ''private'', so_extra = [], so_timeout = 10, so_retries = 3, so_cmd_timeout = 30\<rparr>"

theorem snmpget_reads_line_witness:
  "snmpget sample_snmp ''sysName'' 0 default_options () = (Inr (''cpe'', ''STRING'', ''.1.3.6.1.2.0 = STRING: '' @ [CHR 0x22] @ ''cpe'' @ [CHR 0x22]), ())"
proof -
  let ?v = "[CHR 0x22] @ ''cpe'' @ [CHR 0x22]"
  have o': "get_mib_oid (sn_compiled sample_snmp) ''sysName'' = Inr ''1.3.6.1.2''" by code_simp
  have i: "indexed ''1.3.6.1.2'' 0 = ''1.3.6.1.2.0''" by code_simp
  have l: "value_line ''1.3.6.1.2.0'' ''STRING'' ?v = ''.1.3.6.1.2.0 = STRING: '' @ ?v" by code_simp
  have g: "list_all (\<lambda>c. c \<noteq> CHR 0x0A) ''1.3.6.1.2.0''" "good_type ''STRING''" "good_value ?v" "unquoted ?v = ''cpe''" by code_simp+
  have r: "run_snmp_command sample_snmp ''snmpget'' default_options ''1.3.6.1.2.0'' [] () =
      (Inr (value_line ''1.3.6.1.2.0'' ''STRING'' ?v @ []), ())"
    unfolding l by (simp add: run_snmp_command_def sample_snmp_def ret_def)
  have r': "run_snmp_command sample_snmp ''snmpget'' default_options (indexed ''1.3.6.1.2'' 0) [] () =
      (Inr (value_line (indexed ''1.3.6.1.2'' 0) ''STRING'' ?v @ []), ())" unfolding i by (rule r)
  have ok: "list_all (\<lambda>c. c \<noteq> CHR 0x0A) (indexed ''1.3.6.1.2'' 0)" unfolding i by (rule g(1))
  from snmpget_reads_line [OF o' ok g(2,3) _ r'] show ?thesis unfolding i l g(4) by blast
qed

text \<open>
  Comparing the value that was set is weak: zeros at its ends do not count, so setting 100 accepts the
  answer 17. And the output of a numeric bulk request never has the word the parser looks for.
\<close>

lemma set_accepts_other:
  "parse_snmp_output ''1.3.6.1.2.0'' ''.1.3.6.1.2.0 = INTEGER: 17'' (Some ''100'') =
     Inr (''17'', ''INTEGER'', ''.1.3.6.1.2.0 = INTEGER: 17'')"
  by code_simp

lemma bulk_numeric_fails:
  "parse_snmpbulk_output ''.1.3.6.1.2.0 = INTEGER: 17'' = Inl (snmp_error ''Failed to parse the SNMP Bulk get output'')"
  by code_simp

end
