(* ===== verification/Linux_LAN.thy ===== *)
theory Linux_LAN
  imports Multicast Dhcp_Trace Lib_Utils
begin

text \<open>
  The LAN client (\<^verbatim>\<open>boardfarm3/devices/linux_lan.py\<close>) on top of the Linux device. \<open>ln_query\<close> is how the
  synchronous methods run a command whose output they read (\<^verbatim>\<open>check_output\<close>), and the asynchronous ones
  use \<^verbatim>\<open>execute_command\<close>. \<open>flag\<close> tells the types of an address of version 6. The attribute
  \<^verbatim>\<open>lan_fixed_route_to_wan\<close> is set nowhere, so \<open>ln_fixed_route\<close> is false of every device of the program.
\<close>

section \<open>The client\<close>

record 'w lan =
  ln_device :: linux_device
  ln_console :: "'w console"
  ln_query :: "string \<Rightarrow> ('w, string) io"
  ln_fixed_route :: bool

text \<open>What the object remembers besides its console: whether its client started, and the cached addresses.\<close>

record lan_memory =
  lm_started :: bool
  lm_ipv4 :: "string option"
  lm_ipv6 :: "string option"

type_synonym 'w remembering = "'w \<times> lan_memory"

definition outside :: "('w, 'a) io \<Rightarrow> ('w remembering, 'a) io" where
  "outside m s = (let (r, w) = m (fst s) in (r, (w, snd s)))"

definition remember :: "(lan_memory \<Rightarrow> lan_memory) \<Rightarrow> ('w remembering, unit) io" where
  "remember f s = (Inr (), (fst s, f (snd s)))"

definition clear_cache :: "lan_memory \<Rightarrow> lan_memory" where
  "clear_cache m = m\<lparr>lm_ipv4 := None, lm_ipv6 := None\<rparr>"

definition iface_dut :: "'w lan \<Rightarrow> string" where
  "iface_dut l = ld_eth (ln_device l)"

definition ln_prompt :: "'w lan \<Rightarrow> string list" where
  "ln_prompt l = ld_prompt (ln_device l)"

definition lan_multicast :: "'w lan \<Rightarrow> multicast" where
  "lan_multicast l = \<lparr>mc_name = own_name (ln_device l), mc_iface = iface_dut l, mc_prompt = ln_prompt l\<rparr>"

definition LAN_GATEWAY :: string where
  "LAN_GATEWAY = ''192.168.178.1''"

text \<open>A line sent, and the prompt after it.\<close>

definition at_shell :: "'w lan \<Rightarrow> string \<Rightarrow> ('w, unit) io" where
  "at_shell l s = andthen (sp_sendline (ln_console l) s) (at_prompt (ln_console l) (ln_prompt l) (-1))"

definition act :: "'w lan \<Rightarrow> string \<Rightarrow> ('w, unit) io" where
  "act l s = do_cmd (ln_console l) s"

definition quoted :: "string \<Rightarrow> string" where
  "quoted s = [CHR 0x27] @ s @ [CHR 0x27]"

definition DHCLIENT_CONF :: string where
  "DHCLIENT_CONF = ''/etc/dhcp/dhclient.conf''"

section \<open>Checks\<close>

definition get_default_gateway :: "'w lan \<Rightarrow> ('w, int) io" where
  "get_default_gateway l =
     seq (run_cmd (ln_console l) (''ip route list 0/0 | awk '' @ quoted ''{print $3}'')) (\<lambda>out.
     ret (case parse_ipv4 (strip whitespace out) of Some n \<Rightarrow> n | None \<Rightarrow> 3232281089))"

definition check_dut_iface :: "'w lan \<Rightarrow> (string \<Rightarrow> ('w, string) io) \<Rightarrow> ('w, string) io" where
  "check_dut_iface l query =
     (let i = iface_dut l
      in seq (query (''ip link show '' @ i)) (\<lambda>output.
         if \<not> str_in i output \<or> str_in (''Device '' @ [CHR 0x22] @ i @ [CHR 0x22] @ '' does not exist'') output
         then seq (query ''ip link'') (\<lambda>all.
              throw (boardfarm_error (own_name (ln_device l) @ '': '' @ i @ '' NOT found'' @ [CHR 0x0A] @ all)))
         else ret output))"

text \<open>The check of the environment before a test: \<open>mode\<close> is the provisioning mode of the board.\<close>

definition lan_contingency_check ::
  "(string \<Rightarrow> int \<Rightarrow> bool option) \<Rightarrow> 'w lan \<Rightarrow> bool \<Rightarrow> (string, json) dict \<Rightarrow> ('w, string) io \<Rightarrow> ('w, unit) io" where
  "lan_contingency_check flag l skip_checks env_req mode =
     (if skip_checks \<or> get_value_from_dict ''lan_clients'' env_req = JNull then ret ()
      else
        seq (run_cmd (ln_console l) ''echo FOO'') (\<lambda>out.
        if \<not> str_in ''FOO'' out then throw (py_error ContingencyCheckError ''ContingencyCheckError'' ''LAN device console in not responding'')
        else
          seq mode (\<lambda>m.
          andthen
            (when_io (m \<in> {''ipv4'', ''dual''})
               (seq (get_eth_interface_ipv4_address (ln_device l) (Some (ln_console l))) (\<lambda>_. ret ())))
            (when_io (m \<in> {''ipv6'', ''dual''})
               (seq (get_eth_interface_ipv6_address flag (ln_device l) (Some (ln_console l)) ''global'') (\<lambda>_. ret ()))))))"

section \<open>DHCP options of the client\<close>

text \<open>
  Options 60 and 61 of both kinds of methods: the asynchronous one of option 60 adds the class when it is
  there already.
\<close>

definition option60_lines :: "string list" where
  "option60_lines =
     [''cat >> /etc/dhcp/dhclient.conf << EOF'', ''send vendor-class-identifier '' @ [CHR 0x22] @ ''BFClient'' @ [CHR 0x22] @ '';'', ''EOF'']"

definition write_lines :: "'w lan \<Rightarrow> string list \<Rightarrow> ('w, unit) io" where
  "write_lines l ls = andthen (for_each (sp_sendline (ln_console l)) ls) (at_prompt (ln_console l) (ln_prompt l) (-1))"

definition option60_with :: "'w lan \<Rightarrow> (string \<Rightarrow> ('w, string) io) \<Rightarrow> (bool \<Rightarrow> bool) \<Rightarrow> bool \<Rightarrow> ('w, unit) io" where
  "option60_with l query add_when enable =
     (if enable
      then
        seq (query (''egrep '' @ quoted ''vendor-class-identifier'' @ '' '' @ DHCLIENT_CONF)) (\<lambda>out.
        when_io (add_when (str_in ''vendor-class-identifier'' out)) (write_lines l option60_lines))
      else at_shell l (''sed -i '' @ quoted ''/vendor-class-identifier/d'' @ '' '' @ DHCLIENT_CONF))"

definition configure_dhclient_option60 :: "'w lan \<Rightarrow> bool \<Rightarrow> ('w, unit) io" where
  "configure_dhclient_option60 l = option60_with l (ln_query l) Not"

definition configure_dhclient_option60_async :: "'w lan \<Rightarrow> bool \<Rightarrow> ('w, unit) io" where
  "configure_dhclient_option60_async l = option60_with l (run_cmd (ln_console l)) id"

definition option61_with :: "'w lan \<Rightarrow> (string \<Rightarrow> ('w, string) io) \<Rightarrow> bool \<Rightarrow> ('w, unit) io" where
  "option61_with l query enable =
     seq
       (if enable
        then seq (get_interface_macaddr (ln_device l) (ln_console l) (iface_dut l)) (\<lambda>mac.
             ret (''sed -i -e '' @ quoted (''s/^#'' @ [CHR 0x5C] @ ''{0,'' @ [CHR 0x5C] @
                    ''}send dhcp-client-identifier.*/send dhcp-client-identifier '' @ mac @ '';/'') @ '' '' @ DHCLIENT_CONF))
        else ret (''sed -i -e '' @ quoted ''s/^send dhcp-client-identifier/#send dhcp-client-identifier/'' @ '' '' @ DHCLIENT_CONF))
       (\<lambda>cmd.
     andthen (query cmd) (seq (query ''cat /etc/dhcp/dhclient.conf |grep dhcp-client-identifier'') (\<lambda>_. ret ())))"

definition configure_dhclient_option61 :: "'w lan \<Rightarrow> bool \<Rightarrow> ('w, unit) io" where
  "configure_dhclient_option61 l = option61_with l (ln_query l)"

definition configure_dhclient_option61_async :: "'w lan \<Rightarrow> bool \<Rightarrow> ('w, unit) io" where
  "configure_dhclient_option61_async l = option61_with l (run_cmd (ln_console l))"

definition configure_dhclient_option125 :: "'w lan \<Rightarrow> bool \<Rightarrow> ('w, unit) io" where
  "configure_dhclient_option125 l enable =
     (if \<not> enable
      then andthen (at_shell l (''sed -i -e '' @ quoted ''s|request option-125,|request |'' @ '' '' @ DHCLIENT_CONF))
             (at_shell l (''sed -i '' @ quoted ''/option-125/d'' @ '' '' @ DHCLIENT_CONF))
      else
        seq (ln_query l (''egrep '' @ quoted ''request option-125'' @ '' '' @ DHCLIENT_CONF)) (\<lambda>out.
        if str_in ''request option-125,'' out then ret ()
        else
          andthen (at_shell l (''sed -i -e '' @ quoted (''s|request |'' @ [CHR 0x5C] @ ''noption option-125 code 125 = string;'' @
                     [CHR 0x5C] @ ''n'' @ [CHR 0x5C] @ ''nrequest option-125, |'') @ '' '' @ DHCLIENT_CONF))
          (seq (get_interface_macaddr (ln_device l) (ln_console l) (iface_dut l)) (\<lambda>mac.
           write_lines l [''cat >> /etc/dhcp/dhclient.conf << EOF'', ''send option-125 = '' @ option_125 (vendor_value mac) @ '';'', [], ''EOF'']))))"

text \<open>
  Option 17 looks in the configuration for \<^verbatim>\<open>request dhcp6.vendor-opts,\<close>, a text that its own edit never
  produces.
\<close>

definition option_17 :: "string \<Rightarrow> string" where
  "option_17 name =
     ''00:00:0D:E9:00:0b:00:06:42:46:56:45:52:30:00:0c:00:'' @ zfill2 (hex_str (length name)) @ '':'' @
     join '':'' (map (\<lambda>c. hex2 (of_char c)) name) @ '':00:0d:00:06:42:46:43:4c:41:4e''"

definition configure_dhcpv6_option17 :: "'w lan \<Rightarrow> bool \<Rightarrow> ('w, unit) io" where
  "configure_dhcpv6_option17 l enable =
     (if \<not> enable
      then andthen (at_shell l (''sed -i -e '' @ quoted ''s|ntp-servers, dhcp6.vendor-opts|ntp-servers|'' @ '' '' @ DHCLIENT_CONF))
             (at_shell l (''sed -i '' @ quoted ''/dhcp6.vendor-opts/d'' @ '' '' @ DHCLIENT_CONF))
      else
        seq (ln_query l (''egrep '' @ quoted ''dhcp6.vendor-opts'' @ '' '' @ DHCLIENT_CONF)) (\<lambda>out.
        if re_found (cats [lit ''request dhcp6'', dot, lit ''vendor-opts,'']) out then ret ()
        else
          andthen (at_shell l (''sed -i -e '' @ quoted ''s|ntp-servers;|ntp-servers, dhcp6.vendor-opts; |'' @ '' '' @ DHCLIENT_CONF))
          (write_lines l
             [''cat >> /etc/dhcp/dhclient.conf << EOF'', ''send dhcp6.vendor-opts '' @ option_17 (own_name (ln_device l)) @ '';'', [], ''EOF''])))"

section \<open>Starting the clients\<close>

text \<open>Releasing the lease and ending every client; the same for both kinds of methods.\<close>

definition kill_dhclient :: "'w lan \<Rightarrow> bool \<Rightarrow> ('w, unit) io" where
  "kill_dhclient l ipv4 =
     (let c = ln_console l; i = iface_dut l; dhclient_str = ''dhclient '' @ (if ipv4 then ''-4'' else ''-6'')
      in andthen (if ipv4 then release_dhcp (ln_device l) c i else release_ipv6 (ln_device l) c i False)
         (andthen (sp_sendline c ''ps aux'')
         (seq (sp_expect c (Text dhclient_str # prompts (ln_prompt l)) (-1)) (\<lambda>found.
         andthen (when_io (found = 0) (at_shell l (''pkill --signal 9 -f '' @ dhclient_str @ ''.*'' @ i)))
         (at_shell l (''kill $(</run/dhclient'' @ (if ipv4 then [] else ''6'') @ ''.pid)''))))))"

text \<open>At most \<open>n\<close> attempts: only an attempt that raises is followed by another.\<close>

fun attempts :: "nat \<Rightarrow> ('w, 'a) io \<Rightarrow> ('w, unit) io \<Rightarrow> ('w, 'a option) io" where
  "attempts 0 m recover = ret None"
| "attempts (Suc n) m recover =
     seq (catch (seq m (\<lambda>x. ret (Some x))) (\<lambda>_. True) (\<lambda>_. andthen recover (ret None)))
       (\<lambda>r. case r of Some x \<Rightarrow> ret (Some x) | None \<Rightarrow> attempts n m recover)"

definition interrupt :: "'w lan \<Rightarrow> ('w, unit) io" where
  "interrupt l = andthen (sp_sendcontrol (ln_console l) ''c'') (at_prompt (ln_console l) (ln_prompt l) (-1))"

definition lan_ipv4 :: "'w lan \<Rightarrow> ('w, string) io" where
  "lan_ipv4 l = get_nw_interface_ipv4_address (Some (ln_console l)) (iface_dut l)"

definition mgmt_lines :: "int option \<Rightarrow> string list" where
  "mgmt_lines dns =
     (case dns of
        None \<Rightarrow> []
      | Some a \<Rightarrow>
          [''sed '' @ quoted (''/append domain-name-servers '' @ show_ipv4 a @ ''/d'') @ '' -i '' @ DHCLIENT_CONF,
           ''echo '' @ [CHR 0x22] @ ''append domain-name-servers '' @ show_ipv4 a @ '';'' @ [CHR 0x22] @ '' >> '' @ DHCLIENT_CONF])"

text \<open>Clearing the interface and the leases before the client asks for an address.\<close>

definition reset_lines :: "'w lan \<Rightarrow> string list" where
  "reset_lines l =
     [CHR 0x0A # ''ifconfig '' @ iface_dut l @ '' 0.0.0.0'', ''rm /var/lib/dhcp/dhclient.leases'',
      ''sed -e '' @ quoted ''s/mv -f $new_resolv_conf $resolv_conf/cat $new_resolv_conf > $resolv_conf/g'' @ '' -i /sbin/dhclient-script'']
     @ mgmt_lines (ld_mgmt_dns (ln_device l))"

definition flap :: "'w lan \<Rightarrow> string" where
  "flap l = ''ip link set down '' @ iface_dut l @ '' && ip link set up '' @ iface_dut l"

text \<open>An echoed command: the line, its echo, the prompt.\<close>

definition echoed :: "'w lan \<Rightarrow> string \<Rightarrow> ('w, unit) io" where
  "echoed l s =
     andthen (sp_sendline (ln_console l) s)
     (andthen (sp_expect_exact (ln_console l) [Text s] (-1)) (at_prompt (ln_console l) (ln_prompt l) (-1)))"

definition fixed_route :: "'w lan \<Rightarrow> string option \<Rightarrow> (string \<Rightarrow> ('w, unit) io) \<Rightarrow> ('w, unit) io" where
  "fixed_route l wan_gw send =
     (case wan_gw of
        Some gw \<Rightarrow> when_io (ln_fixed_route l) (send (''ip route add '' @ gw @ '' via '' @ LAN_GATEWAY))
      | None \<Rightarrow> ret ())"

text \<open>From the cleared interface to the address.\<close>

definition obtain_ipv4 ::
  "'w lan \<Rightarrow> ('w, unit) io \<Rightarrow> ('w, unit) io \<Rightarrow> ('w, unit) io \<Rightarrow> string option \<Rightarrow> bool \<Rightarrow> (string \<Rightarrow> ('w, string) io) \<Rightarrow> ('w, string) io" where
  "obtain_ipv4 l option60 option61 renew wan_gw prep_iface query =
     (let c = ln_console l; i = iface_dut l
      in andthen (check_dut_iface l query)
         (andthen (when_io prep_iface (at_shell l (flap l)))
         (seq (run_cmd c (''ip route list | grep '' @ i)) (\<lambda>routes.
         andthen (when_io (\<not> str_in ''default'' routes) (act l ''ip route flush default''))
         (andthen (kill_dhclient l True)
         (andthen (for_each (at_shell l) (reset_lines l))
         (andthen option60
         (andthen option61
         (andthen (attempts 5 (seq renew (\<lambda>_. lan_ipv4 l)) (interrupt l))
         (andthen (at_shell l ''cat /etc/resolv.conf'')
         (andthen (at_shell l (''ip addr show dev '' @ i))
         (andthen (sp_sendline c ''ip route'')
         (seq (sp_expect c [Text (''default via '' @ LAN_GATEWAY @ '' dev '' @ i), Timeout] 5) (\<lambda>k.
         andthen
           (when_io (k = 1)
              (andthen (echoed l (''ip route list 0/0 | awk '' @ quoted ''{print $3}''))
              (seq (lan_ipv4 l) (\<lambda>ip_addr. echoed l (''ip route | grep '' @ ip_addr @ '' | awk '' @ quoted ''{print $1}'')))))
           (andthen (fixed_route l wan_gw (at_shell l)) (lan_ipv4 l))))))))))))))))"

definition started_with :: "'w lan \<Rightarrow> string \<Rightarrow> ('w remembering, string) io" where
  "started_with l ipv4 =
     andthen
       (if ipv4 = [] then ret ()
        else andthen (remember (\<lambda>m. m\<lparr>lm_started := True\<rparr>)) (outside (start_danteproxy (ln_device l) (ln_console l) ''eth'')))
       (ret ipv4)"

definition start_ipv4_lan_client :: "'w lan \<Rightarrow> string option \<Rightarrow> bool \<Rightarrow> ('w remembering, string) io" where
  "start_ipv4_lan_client l wan_gw prep_iface =
     andthen (remember clear_cache)
     (andthen (outside (stop_danteproxy (ln_console l)))
     (seq (outside (obtain_ipv4 l (configure_dhclient_option60 l True) (configure_dhclient_option61 l True)
             (renew_dhcp (ln_device l) (ln_console l) (iface_dut l)) wan_gw prep_iface (ln_query l)))
        (started_with l)))"

definition start_ipv4_lan_client_async :: "'w lan \<Rightarrow> string option \<Rightarrow> bool \<Rightarrow> ('w remembering, string) io" where
  "start_ipv4_lan_client_async l wan_gw prep_iface =
     andthen (outside (stop_danteproxy_async (ln_console l)))
     (seq (outside (obtain_ipv4 l (configure_dhclient_option60_async l True) (configure_dhclient_option61_async l True)
             (renew_dhcp_async (ln_device l) (ln_console l) (iface_dut l)) wan_gw prep_iface (run_cmd (ln_console l))))
        (started_with l))"

text \<open>
  The two flags of a router advertisement: the lines of the output that name them, which have to be two,
  when a prefix is advertised.
\<close>

definition ra_flags :: "string \<Rightarrow> raised + bool \<times> bool" where
  "ra_flags output =
     (if str_in ''Prefix'' output
      then
        (case re_findall (cats [lit ''Stateful'', star dot, Cls (\<lambda>c. \<not> is_word_char c)]) output of
           [m, o'] \<Rightarrow> Inr (str_in ''Yes'' m, str_in ''Yes'' o')
         | [] \<Rightarrow> Inl (value_error ''not enough values to unpack (expected 2, got 0)'')
         | [_] \<Rightarrow> Inl (value_error ''not enough values to unpack (expected 2, got 1)'')
         | _ \<Rightarrow> Inl (value_error ''too many values to unpack (expected 2)''))
      else Inr (True, True))"

definition ipv6_settings :: "string \<Rightarrow> string list" where
  "ipv6_settings i =
     [''sysctl net.ipv6.conf.'' @ i @ ''.disable_ipv6=1'', ''sysctl net.ipv6.conf.'' @ i @ ''.accept_ra=2'',
      ''sysctl net.ipv6.conf.'' @ i @ ''.disable_ipv6=0'', ''sysctl -w net.ipv6.conf.'' @ i @ ''.accept_dad=0'']"

definition ipv6_lan_client ::
  "(string \<Rightarrow> int \<Rightarrow> bool option) \<Rightarrow> 'w lan \<Rightarrow> (string \<Rightarrow> ('w, string) io) \<Rightarrow> string option \<Rightarrow> bool \<Rightarrow> ('w, string option) io" where
  "ipv6_lan_client flag l query wan_gw prep_iface =
     (let c = ln_console l; i = iface_dut l
      in andthen (check_dut_iface l query)
         (andthen (when_io prep_iface (act l (flap l)))
         (andthen (kill_dhclient l False)
         (andthen (for_each (act l) (ipv6_settings i))
         (seq (c_execute c (''rdisc6 -1 --retry 10 --wait 30000 '' @ i) 400) (\<lambda>output.
         seq (lift_sum (ra_flags output)) (\<lambda>(m_bit, o_bit).
         seq (attempts 5
               (andthen
                  (if \<not> m_bit \<and> o_bit then renew_ipv6 (ln_device l) c i True
                   else when_io (m_bit \<and> o_bit) (renew_ipv6 (ln_device l) c i False))
                  (get_interface_ipv6addr flag (Some c) i))
               (andthen (kill_dhclient l False) (interrupt l))) (\<lambda>ipv6.
         andthen (fixed_route l wan_gw (act l)) (ret ipv6)))))))))"

definition start_ipv6_lan_client ::
  "(string \<Rightarrow> int \<Rightarrow> bool option) \<Rightarrow> 'w lan \<Rightarrow> string option \<Rightarrow> bool \<Rightarrow> ('w, string option) io" where
  "start_ipv6_lan_client flag l = ipv6_lan_client flag l (ln_query l)"

definition start_ipv6_lan_client_async ::
  "(string \<Rightarrow> int \<Rightarrow> bool option) \<Rightarrow> 'w lan \<Rightarrow> string option \<Rightarrow> bool \<Rightarrow> ('w, string option) io" where
  "start_ipv6_lan_client_async flag l = ipv6_lan_client flag l (run_cmd (ln_console l))"

text \<open>The hooks that configure the client: version 4 first, and version 6 unless the board has version 4 alone.\<close>

definition lan_configure ::
  "(string \<Rightarrow> int \<Rightarrow> bool option) \<Rightarrow> 'w lan \<Rightarrow> raised + json \<Rightarrow> ('w remembering, unit) io" where
  "lan_configure flag l prov_mode =
     andthen (outside (setup_static_routes (ln_device l) (ln_console l)))
     (seq (lift_sum prov_mode) (\<lambda>mode.
     andthen (start_ipv4_lan_client l None False)
     (if mode = JStr ''ipv4'' then ret ()
      else seq (outside (start_ipv6_lan_client flag l None False)) (\<lambda>_. ret ()))))"

definition lan_configure_async ::
  "(string \<Rightarrow> int \<Rightarrow> bool option) \<Rightarrow> 'w lan \<Rightarrow> raised + json \<Rightarrow> ('w remembering, unit) io" where
  "lan_configure_async flag l prov_mode =
     andthen (outside (setup_static_routes (ln_device l) (ln_console l)))
     (seq (lift_sum prov_mode) (\<lambda>mode.
     andthen (start_ipv4_lan_client_async l None False)
     (if mode = JStr ''ipv4'' then ret ()
      else seq (outside (start_ipv6_lan_client_async flag l None False)) (\<lambda>_. ret ()))))"

section \<open>Small operations\<close>

definition enable_ipv6 :: "'w lan \<Rightarrow> ('w, unit) io" where
  "enable_ipv6 l =
     andthen (act l (''sysctl net.ipv6.conf.'' @ iface_dut l @ ''.accept_ra=2''))
       (act l (''sysctl net.ipv6.conf.'' @ iface_dut l @ ''.disable_ipv6=0''))"

definition disable_ipv6 :: "'w lan \<Rightarrow> ('w, unit) io" where
  "disable_ipv6 l =
     andthen (act l (''sysctl net.ipv6.conf.'' @ iface_dut l @ ''.disable_ipv6=1''))
       (act l (''sysctl net.ipv6.conf.'' @ iface_dut l @ ''.disable_ipv6=1''))"

definition lan_netcat :: "'w lan \<Rightarrow> string \<Rightarrow> string \<Rightarrow> string \<Rightarrow> ('w, unit) io" where
  "lan_netcat l host_ip port additional_args = throw (py_error PyException ''NotImplementedError'' [])"

text \<open>The size jc reads from the output, if it reads an interface at all.\<close>

definition lan_mtu_size :: "(string \<Rightarrow> raised + 'm option) \<Rightarrow> 'w lan \<Rightarrow> string \<Rightarrow> ('w, 'm) io" where
  "lan_mtu_size parse l interface =
     seq (run_cmd (ln_console l) (''ifconfig '' @ interface)) (\<lambda>out.
     seq (lift_sum (parse out)) (\<lambda>d.
     case d of Some m \<Rightarrow> ret m | None \<Rightarrow> throw (value_error (''ifconfig '' @ interface @ '' is not available''))))"

text \<open>
  The hosts file. A line is written with the address first, and looked for, blanks aside, with the name
  first.
\<close>

definition update_file_entry :: "'w lan \<Rightarrow> string list \<Rightarrow> ('w, unit) io" where
  "update_file_entry l hosts_data = write_lines l (''cat > /etc/hosts << EOF'' # hosts_data @ [''EOF''])"

definition hosts_line :: "string \<Rightarrow> string \<Rightarrow> string" where
  "hosts_line ip host_name = ip @ ''    '' @ host_name"

definition add_hosts_entry :: "'w lan \<Rightarrow> string \<Rightarrow> string \<Rightarrow> ('w, unit) io" where
  "add_hosts_entry l ip host_name =
     seq (run_cmd (ln_console l) ''cat /etc/hosts'') (\<lambda>hosts. update_file_entry l (splitlines hosts @ [hosts_line ip host_name]))"

definition kept_hosts :: "string \<Rightarrow> string \<Rightarrow> string list \<Rightarrow> string list" where
  "kept_hosts host_name ip = filter (\<lambda>line. \<not> str_in (host_name @ ip) (filter (\<lambda>c. c \<noteq> CHR '' '') line))"

definition delete_hosts_entry :: "'w lan \<Rightarrow> string \<Rightarrow> string \<Rightarrow> ('w, unit) io" where
  "delete_hosts_entry l host_name ip =
     seq (run_cmd (ln_console l) ''cat /etc/hosts'') (\<lambda>hosts. update_file_entry l (kept_hosts host_name ip (splitlines hosts)))"

definition flush_arp_cache :: "'w lan \<Rightarrow> ('w, unit) io" where
  "flush_arp_cache l = act l ''ip neigh flush all''"

definition get_arp_table :: "'w lan \<Rightarrow> ('w, string) io" where
  "get_arp_table l = run_cmd (ln_console l) ''arp -n''"

definition delete_arp_table_entry :: "'w lan \<Rightarrow> string \<Rightarrow> string \<Rightarrow> ('w, unit) io" where
  "delete_arp_table_entry l ip intf = act l (''ip neigh del '' @ ip @ '' dev '' @ intf)"

definition add_vlan_interface :: "'w lan \<Rightarrow> string \<Rightarrow> ('w, string) io" where
  "add_vlan_interface l vlan_id =
     (let iface = iface_dut l @ ''.'' @ vlan_id
      in andthen (act l (''ip link add link '' @ iface_dut l @ '' name '' @ iface @ '' type vlan id '' @ vlan_id))
         (andthen (act l (''ip link set up '' @ iface)) (ret iface)))"

definition delete_vlan_interface :: "'w lan \<Rightarrow> string \<Rightarrow> ('w, unit) io" where
  "delete_vlan_interface l vlan_id = act l (''ip link del '' @ iface_dut l @ ''.'' @ vlan_id)"

definition execute_time_sync :: "'w lan \<Rightarrow> string \<Rightarrow> ('w, string) io" where
  "execute_time_sync l time_server = run_cmd (ln_console l) (''ntpdate-debian '' @ time_server)"

definition get_interface_stats :: "'w lan \<Rightarrow> string \<Rightarrow> ('w, string) io" where
  "get_interface_stats l iface = run_cmd (ln_console l) (''ip -s link show '' @ iface)"

section \<open>Properties\<close>

lemma outside_ok: "outside m s = (Inr x, s') \<longleftrightarrow> (\<exists>w. m (fst s) = (Inr x, w) \<and> s' = (w, snd s))"
  by (auto simp: outside_def split: prod.splits)

lemma remember_ok: "remember f s = (Inr u, s') \<longleftrightarrow> s' = (fst s, f (snd s))"
  by (auto simp: remember_def)

lemma started_with_ok:
  "started_with l a s = (Inr b, s') \<Longrightarrow>
   b = a \<and> snd s' = (if a = [] then snd s else (snd s)\<lparr>lm_started := True\<rparr>)"
  by (auto simp: started_with_def andthen_ok outside_ok remember_ok split: if_splits)

text \<open>What a start remembers: the client counts as started exactly when it got an address, now or before.
  The synchronous start forgets the cached addresses and the asynchronous one keeps them, so the address it
  reports can differ from the cached one.\<close>

theorem lan_start_remembers:
  "(start_ipv4_lan_client l gw prep (w, m) = (Inr a, (w', m')) \<longrightarrow>
      m' = clear_cache m\<lparr>lm_started := lm_started m \<or> a \<noteq> []\<rparr>) \<and>
   (start_ipv4_lan_client_async l gw prep (w, m) = (Inr a, (w', m')) \<longrightarrow>
      m' = m\<lparr>lm_started := lm_started m \<or> a \<noteq> []\<rparr>)"
proof (intro conjI impI)
  assume "start_ipv4_lan_client l gw prep (w, m) = (Inr a, (w', m'))"
  then obtain w1 x where "started_with l x (w1, clear_cache m) = (Inr a, (w', m'))"
    by (auto simp: start_ipv4_lan_client_def andthen_ok seq_ok outside_ok remember_ok)
  from started_with_ok [OF this] show "m' = clear_cache m\<lparr>lm_started := lm_started m \<or> a \<noteq> []\<rparr>"
    by (cases m) (auto simp: clear_cache_def)
next
  assume "start_ipv4_lan_client_async l gw prep (w, m) = (Inr a, (w', m'))"
  then obtain w1 x where "started_with l x (w1, m) = (Inr a, (w', m'))"
    by (auto simp: start_ipv4_lan_client_async_def andthen_ok seq_ok outside_ok)
  from started_with_ok [OF this] show "m' = m\<lparr>lm_started := lm_started m \<or> a \<noteq> []\<rparr>"
    by (cases m) auto
qed

text \<open>Attempts: at most \<open>n\<close> failures, and what comes out is the outcome of the first that does not raise.\<close>

lemma attempts_first: "m w = (Inr x, w') \<Longrightarrow> attempts (Suc n) m recover w = (Inr (Some x), w')"
  by (simp add: seq_def catch_def ret_def)

text \<open>So an address that does not come is not asked for again: an empty one ends the loop.\<close>

lemma empty_address_accepted:
  assumes "renew w = (Inr (), w1)" and "lan_ipv4 l w1 = (Inr [], w2)"
  shows "attempts 5 (seq renew (\<lambda>_. lan_ipv4 l)) recover w = (Inr (Some []), w2)"
  using attempts_first [of "seq renew (\<lambda>_. lan_ipv4 l)" w "[]" w2 4] assms by (simp add: seq_def)

text \<open>an entry that was added stays when it is deleted: the line of an address and a name is looked for
  with the name first, so unless the two texts happen to overlap the deletion writes the file back with it.\<close>

theorem hosts_entry_survives:
  assumes "\<not> str_in (host_name @ ip) (ip @ host_name)" and "CHR '' '' \<notin> set ip" and "CHR '' '' \<notin> set host_name"
    and "run_cmd (ln_console l) ''cat /etc/hosts'' w = (Inr out, w1)" and "splitlines out = ls @ [hosts_line ip host_name] @ ls'"
  shows "\<exists>us vs. delete_hosts_entry l host_name ip w = update_file_entry l (us @ [hosts_line ip host_name] @ vs) w1"
proof -
  have "filter (\<lambda>c. c \<noteq> CHR '' '') s = s" if "CHR '' '' \<notin> set s" for s
    using that by (auto simp: filter_id_conv)
  then have "filter (\<lambda>c. c \<noteq> CHR '' '') (hosts_line ip host_name) = ip @ host_name"
    using assms(2,3) by (simp add: hosts_line_def)
  then have "kept_hosts host_name ip (splitlines out) =
      kept_hosts host_name ip ls @ [hosts_line ip host_name] @ kept_hosts host_name ip ls'"
    using assms(1,5) by (simp add: kept_hosts_def)
  then show ?thesis using assms(4) by (auto simp: delete_hosts_entry_def seq_def)
qed

definition sample_lan :: "answers \<Rightarrow> action list lan" where
  "sample_lan dv = \<lparr>ln_device = sample_linux, ln_console = recorded dv, ln_query = run_cmd (recorded dv), ln_fixed_route = False\<rparr>"

theorem hosts_entry_survives_witness:
  "\<exists>us vs. delete_hosts_entry (sample_lan ((sample_device 0)\<lparr>dv_output := \<lambda>_. Inr ''10.0.0.2    acs''\<rparr>)) ''acs'' ''10.0.0.2'' [] =
     update_file_entry (sample_lan ((sample_device 0)\<lparr>dv_output := \<lambda>_. Inr ''10.0.0.2    acs''\<rparr>)) (us @ [hosts_line ''10.0.0.2'' ''acs''] @ vs)
       [Executed ''cat /etc/hosts'' (-1)]"
proof (rule hosts_entry_survives)
  show "\<not> str_in (''acs'' @ ''10.0.0.2'') (''10.0.0.2'' @ ''acs'')" by code_simp
  show "run_cmd (ln_console (sample_lan ((sample_device 0)\<lparr>dv_output := \<lambda>_. Inr ''10.0.0.2    acs''\<rparr>))) ''cat /etc/hosts'' [] =
      (Inr ''10.0.0.2    acs'', [Executed ''cat /etc/hosts'' (-1)])"
    by (simp add: run_cmd_def sample_lan_def)
  show "splitlines ''10.0.0.2    acs'' = [] @ [hosts_line ''10.0.0.2'' ''acs''] @ []" by code_simp
qed simp_all

text \<open>option 60 of the asynchronous start is inverted: where the configuration has no vendor class it
  stays without one, and where it has one a second is written. The synchronous one adds it exactly when it
  is missing.\<close>

theorem option60_inverted:
  assumes "dv_output d [Executed q (-1)] = Inr out" and "q = ''egrep '' @ quoted ''vendor-class-identifier'' @ '' '' @ DHCLIENT_CONF"
    and "ln_console l = recorded d" and "ln_query l = run_cmd (recorded d)"
  shows "(Sent (option60_lines ! 1) \<in> set (snd (configure_dhclient_option60 l True [])) \<longleftrightarrow> \<not> str_in ''vendor-class-identifier'' out) \<and>
    (Sent (option60_lines ! 1) \<in> set (snd (configure_dhclient_option60_async l True [])) \<longleftrightarrow> str_in ''vendor-class-identifier'' out)"
proof -
  let ?T = "write_lines l option60_lines"
  have t: "Sent (option60_lines ! 1) \<in> set (snd (?T tr))" for tr
    using assms(3) by (auto simp: write_lines_def option60_lines_def andthen_def seq_def at_prompt_def ret_def split: sum.splits)
  have run: "option60_with l (run_cmd (recorded d)) f True [] =
      when_io (f (str_in ''vendor-class-identifier'' out)) ?T [Executed q (-1)]" for f
    using assms(1,2) by (simp add: option60_with_def seq_def run_cmd_def)
  have "Sent (option60_lines ! 1) \<in> set (snd (configure_dhclient_option60 l True [])) \<longleftrightarrow> \<not> str_in ''vendor-class-identifier'' out"
    using t unfolding configure_dhclient_option60_def assms(4) run by (auto simp: when_io_def ret_def)
  moreover have "Sent (option60_lines ! 1) \<in> set (snd (configure_dhclient_option60_async l True [])) \<longleftrightarrow> str_in ''vendor-class-identifier'' out"
    using t unfolding configure_dhclient_option60_async_def assms(3) run by (auto simp: when_io_def ret_def)
  ultimately show ?thesis by blast
qed

theorem option60_inverted_witness:
  "Sent (option60_lines ! 1) \<in> set (snd (configure_dhclient_option60 (sample_lan (sample_device 0)) True [])) \<and>
   Sent (option60_lines ! 1) \<notin> set (snd (configure_dhclient_option60_async (sample_lan (sample_device 0)) True []))"
proof -
  have d: "dv_output (sample_device 0) [Executed q (-1)] = Inr []" for q by (simp add: sample_device_def)
  have n: "\<not> str_in ''vendor-class-identifier'' []" by code_simp
  show ?thesis
    using option60_inverted [of "sample_device 0" _ "[]" "sample_lan (sample_device 0)", OF d refl] n by (simp add: sample_lan_def)
qed

end
