(* ===== verification/Linux_WAN.thy ===== *)
theory Linux_WAN
  imports Snmp Linux_LAN
begin

text \<open>
  The WAN host (\<^verbatim>\<open>boardfarm3/devices/linux_wan.py\<close>) on top of the Linux device: its options, the names it
  serves, and the SNMP commands it runs. The tables jc reads are parameters.
\<close>

section \<open>Interfaces as addresses with a prefix\<close>

text \<open>
  \<^verbatim>\<open>IPv4Interface(s)\<close> and \<^verbatim>\<open>IPv6Interface(s)\<close>: an address and the length of its prefix, given as such, or
  for version 4 also as a netmask or a host mask.
\<close>

definition mask_prefix :: "int \<Rightarrow> nat option" where
  "mask_prefix n =
     (case find (\<lambda>p. n = 2 ^ 32 - 2 ^ (32 - p)) [0..<33] of
        Some p \<Rightarrow> Some p
      | None \<Rightarrow> find (\<lambda>p. n = 2 ^ (32 - p) - 1) [0..<33])"

definition prefix_length :: "nat \<Rightarrow> string \<Rightarrow> nat option" where
  "prefix_length bound s = (if s \<noteq> [] \<and> list_all is_digit s \<and> digits_val 0 s \<le> bound then Some (digits_val 0 s) else None)"

definition address_value_error :: raised where
  "address_value_error = py_error PyValueError ''AddressValueError'' []"

definition netmask_error :: raised where
  "netmask_error = py_error PyValueError ''NetmaskValueError'' []"

definition IPv4Interface :: "string \<Rightarrow> raised + int \<times> nat" where
  "IPv4Interface s =
     (case split_on (CHR ''/'') s of
        [a] \<Rightarrow> (case parse_ipv4 a of Some n \<Rightarrow> Inr (n, 32) | None \<Rightarrow> Inl address_value_error)
      | [a, p] \<Rightarrow>
          (case parse_ipv4 a of
             None \<Rightarrow> Inl address_value_error
           | Some n \<Rightarrow>
               (case or_else (prefix_length 32 p) (case parse_ipv4 p of None \<Rightarrow> None | Some m \<Rightarrow> mask_prefix m) of
                  None \<Rightarrow> Inl netmask_error
                | Some k \<Rightarrow> Inr (n, k)))
      | _ \<Rightarrow> Inl address_value_error)"

definition IPv6Interface :: "string \<Rightarrow> raised + int \<times> nat" where
  "IPv6Interface s =
     (case split_on (CHR ''/'') s of
        [a] \<Rightarrow> (case parse_ipv6 a of Some n \<Rightarrow> Inr (n, 128) | None \<Rightarrow> Inl address_value_error)
      | [a, p] \<Rightarrow>
          (case parse_ipv6 a of
             None \<Rightarrow> Inl address_value_error
           | Some n \<Rightarrow> (case prefix_length 128 p of None \<Rightarrow> Inl netmask_error | Some k \<Rightarrow> Inr (n, k)))
      | _ \<Rightarrow> Inl address_value_error)"

definition show_interface4 :: "int \<times> nat \<Rightarrow> string" where
  "show_interface4 i = show_ipv4 (fst i) @ ''/'' @ nat_str (snd i)"

definition show_interface6 :: "int \<times> nat \<Rightarrow> string" where
  "show_interface6 i = show_ipv6 (fst i) @ ''/'' @ nat_str (snd i)"

section \<open>The host and its options\<close>

record wan =
  wn_device :: linux_device
  wn_dhcp :: bool
  wn_no_eth0 :: bool
  wn_dhcp_server :: bool
  wn_dhcpv6 :: bool

definition wan_init :: "(string, json) dict \<Rightarrow> raised + wan" where
  "wan_init config =
     (case linux_init config of
        Inl e \<Rightarrow> Inl e
      | Inr d \<Rightarrow> Inr \<lparr>wn_device = d, wn_dhcp = False, wn_no_eth0 = False, wn_dhcp_server = False, wn_dhcpv6 = False\<rparr>)"

definition wan_iface :: "wan \<Rightarrow> string" where
  "wan_iface h = ld_eth (wn_device h)"

text \<open>The names of the devices with a fixed address, two lines for each address.\<close>

definition dns_lines :: "string \<Rightarrow> string \<Rightarrow> string \<Rightarrow> string list" where
  "dns_lines ip name suffix = [ip @ ''    '' @ name @ ''.boardfarm.com'', ip @ ''    '' @ name @ suffix @ ''.boardfarm.com'']"

definition device_dns :: "linux_device \<Rightarrow> raised + string list" where
  "device_dns d =
     (case parse_device_suboptions d of
        Inl e \<Rightarrow> Inl e
      | Inr os \<Rightarrow>
          (let field = (\<lambda>k. case dict_get os k of Some v \<Rightarrow> v | None \<Rightarrow> []);
               v4 = field ''wan-static-ip''; v6 = field ''wan-static-ipv6''
           in case (if v4 = [] then Inr [] else map_sum id (\<lambda>i. dns_lines (show_ipv4 (fst i)) (own_name d) ''-ipv4'') (IPv4Interface v4)) of
                Inl e \<Rightarrow> Inl e
              | Inr l4 \<Rightarrow>
                  map_sum id (\<lambda>l6. l4 @ l6)
                    (if v6 = [] then Inr [] else map_sum id (\<lambda>i. dns_lines (show_ipv6 (fst i)) (own_name d) ''-ipv6'') (IPv6Interface v6))))"

fun all_dns :: "linux_device list \<Rightarrow> raised + string list" where
  "all_dns [] = Inr []"
| "all_dns (d # ds) =
     (case device_dns d of Inl e \<Rightarrow> Inl e | Inr ls \<Rightarrow> map_sum id (\<lambda>rest. ls @ rest) (all_dns ds))"

definition configure_dns :: "wan \<Rightarrow> 'w console \<Rightarrow> linux_device list \<Rightarrow> ('w, unit) io" where
  "configure_dns h c devices =
     seq (lift_sum (all_dns devices)) (\<lambda>dns_hosts.
     andthen
       (when_io (dns_hosts \<noteq> [])
          (andthen (for_each (sp_sendline c) [''cat > /etc/dnsmasq.hosts << EOF'', join [CHR 0x0A] dns_hosts, ''EOF''])
             (at_prompt c (ld_prompt (wn_device h)) (-1))))
       (do_cmd c ''service dnsmasq restart''))"

text \<open>
  One option. The static address of version 6 is kept when the value of the option, prefix included, occurs
  in the address the interface has.
\<close>

definition replace_address :: "'w console \<Rightarrow> string \<Rightarrow> string \<Rightarrow> string \<Rightarrow> ('w, unit) io" where
  "replace_address c version address iface =
     andthen (do_cmd c (''ip '' @ version @ '' addr del '' @ address @ '' dev '' @ iface))
       (do_cmd c (''ip '' @ version @ '' addr add '' @ address @ '' dev '' @ iface))"

definition static_ipv6 :: "(string \<Rightarrow> int \<Rightarrow> bool option) \<Rightarrow> wan \<Rightarrow> 'w console \<Rightarrow> string \<Rightarrow> ('w, unit) io" where
  "static_ipv6 flag h c opt_val =
     seq (lift_sum (IPv6Interface opt_val)) (\<lambda>i.
     andthen (do_cmd c (''sysctl -w net.ipv6.conf.'' @ wan_iface h @ ''.accept_dad=0''))
     (seq (get_interface_ipv6addr flag (Some c) (wan_iface h)) (\<lambda>current.
     if str_in opt_val current then ret () else replace_address c ''-6'' (show_interface6 i) (wan_iface h))))"

definition setup_option ::
  "(string \<Rightarrow> int \<Rightarrow> bool option) \<Rightarrow> linux_device list \<Rightarrow> 'w console \<Rightarrow> string \<times> string \<Rightarrow> wan \<Rightarrow> ('w, wan) io" where
  "setup_option flag devices c p h =
     (let same = (\<lambda>m. seq m (\<lambda>_. ret h))
      in if fst p = ''internet-access-on-mgmt'' then ret (h\<lparr>wn_device := (wn_device h)\<lparr>ld_internet := ''mgmt''\<rparr>\<rparr>)
         else if fst p = ''wan-dhcp-client'' then ret (h\<lparr>wn_dhcp := True\<rparr>)
         else if fst p = ''dante'' then same (start_danteproxy (wn_device h) c ''eth'')
         else if fst p = ''wan-no-eth0'' then ret (h\<lparr>wn_no_eth0 := True\<rparr>)
         else if fst p = ''wan-no-dhcp-server'' then ret (h\<lparr>wn_dhcp_server := False\<rparr>)
         else if fst p = ''wan-dhcp-client-v6'' then ret (h\<lparr>wn_dhcpv6 := True\<rparr>)
         else if fst p = ''wan-static-ipv6'' then same (static_ipv6 flag h c (snd p))
         else if fst p = ''wan-static-ip''
         then same (seq (lift_sum (IPv4Interface (snd p))) (\<lambda>i. replace_address c ''-4'' (show_interface4 i) (wan_iface h)))
         else if fst p = ''dns-server'' then same (configure_dns h c devices)
         else ret h)"

fun setup_options ::
  "(string \<Rightarrow> int \<Rightarrow> bool option) \<Rightarrow> linux_device list \<Rightarrow> 'w console \<Rightarrow> (string \<times> string) list \<Rightarrow> wan \<Rightarrow> ('w, wan) io" where
  "setup_options flag devices c [] h = ret h"
| "setup_options flag devices c (p # ps) h = seq (setup_option flag devices c p h) (setup_options flag devices c ps)"

definition setup_wan ::
  "(string \<Rightarrow> int \<Rightarrow> bool option) \<Rightarrow> linux_device list \<Rightarrow> 'w console \<Rightarrow> wan \<Rightarrow> ('w, wan) io" where
  "setup_wan flag devices c h =
     seq (lift_sum (parse_device_suboptions (wn_device h))) (\<lambda>options.
     seq (setup_options flag devices c options h) (\<lambda>h'.
     andthen (setup_static_routes (wn_device h') c) (ret h')))"

section \<open>Checks\<close>

text \<open>Counting the addresses of the wanted version that answer and those that do not.\<close>

fun count_reachable :: "(string \<Rightarrow> ('w, bool) io) \<Rightarrow> string \<Rightarrow> string list \<Rightarrow> int \<times> int \<Rightarrow> ('w, int \<times> int) io" where
  "count_reachable answers_ping prov_mode [] n = ret n"
| "count_reachable answers_ping prov_mode (a # as) n =
     (if (if re_match AllValidIpv6AddressesRegex a \<noteq> None then ''ipv6'' else ''ipv4'') \<noteq> prov_mode
      then count_reachable answers_ping prov_mode as n
      else
        seq (answers_ping a) (\<lambda>up.
        count_reachable answers_ping prov_mode as (if up then (fst n + 1, snd n) else (fst n, snd n + 1))))"

text \<open>The message is partly a literal: the numbers are not in it.\<close>

definition dns_mismatch :: "string \<Rightarrow> string \<Rightarrow> raised" where
  "dns_mismatch ip_version status =
     py_error ContingencyCheckError ''ContingencyCheckError''
       (''DNS check failed for '' @ ip_version @ '' '' @ status @
        '' servers - requested: {acs_server_config[ip_version][status]}, actual: {value}'')"

fun compare_counts :: "string \<Rightarrow> (string, json) dict \<Rightarrow> (string \<times> int) list \<Rightarrow> raised option" where
  "compare_counts v wanted [] = None"
| "compare_counts v wanted ((status, value) # rest) =
     (case dict_get wanted status of
        None \<Rightarrow> compare_counts v wanted rest
      | Some j \<Rightarrow> if j \<noteq> JInt value then Some (dns_mismatch v status) else compare_counts v wanted rest)"

definition validate_dns_env_request ::
  "'w console \<Rightarrow> (string \<Rightarrow> ('w, bool) io) \<Rightarrow> (string, (string, json) dict) dict \<Rightarrow> string \<Rightarrow> ('w, unit) io" where
  "validate_dns_env_request c answers_ping acs_server_config prov_mode =
     seq (nslookup c ''acs_server.boardfarm.com'' [] []) (\<lambda>output.
     seq (count_reachable answers_ping prov_mode (text_items (kwarg output ''domain_ip_addr'' (JList []))) (0, 0)) (\<lambda>n.
     if prov_mode \<notin> {''ipv4'', ''ipv6''} then ret ()
     else
       (case dict_get acs_server_config prov_mode of
          None \<Rightarrow> ret ()
        | Some wanted \<Rightarrow>
            (case compare_counts prov_mode wanted [(''reachable'', fst n), (''unreachable'', snd n)] of
               None \<Rightarrow> ret ()
             | Some e \<Rightarrow> throw e))))"

definition wan_contingency_check ::
  "(string \<Rightarrow> int \<Rightarrow> bool option) \<Rightarrow> wan \<Rightarrow> 'w console \<Rightarrow> bool \<Rightarrow> (string, (string, json) dict) dict option \<Rightarrow>
   ('w, string) io \<Rightarrow> (string \<Rightarrow> ('w, bool) io) \<Rightarrow> ('w, unit) io" where
  "wan_contingency_check flag h c skip_checks acs_server mode answers_ping =
     (if skip_checks then ret ()
      else
        seq (get_eth_interface_ipv4_address (wn_device h) (Some c)) (\<lambda>_.
        seq (get_eth_interface_ipv6_address flag (wn_device h) (Some c) ''global'') (\<lambda>_.
        case acs_server of
          None \<Rightarrow> ret ()
        | Some [] \<Rightarrow> ret ()
        | Some config \<Rightarrow> seq mode (\<lambda>m. validate_dns_env_request c answers_ping config m))))"

section \<open>Operations\<close>

text \<open>A variable that is there is extended, unless its value contains the new one.\<close>

definition add_env_variable ::
  "(string \<Rightarrow> raised + (string, string) dict) \<Rightarrow> 'w console \<Rightarrow> (string, string) dict \<Rightarrow> string \<Rightarrow> ('w, unit) io" where
  "add_env_variable parse c env_param sep =
     seq (run_cmd c ''env'') (\<lambda>out.
     seq (lift_sum (parse out)) (\<lambda>env.
     for_each (\<lambda>(k, v).
       case dict_get env k of
         None \<Rightarrow> do_cmd c (''export '' @ k @ ''='' @ v)
       | Some old \<Rightarrow> when_io (\<not> str_in v old) (do_cmd c (''export '' @ k @ ''=${'' @ k @ ''}'' @ sep @ v))) env_param))"

definition TFTPBOOT :: string where
  "TFTPBOOT = ''/tftpboot''"

definition copy_local_file_to_tftpboot ::
  "(string \<Rightarrow> string list \<Rightarrow> ('w, 'w spawn) io) \<Rightarrow> wan \<Rightarrow> string \<Rightarrow> ('w, unit) io" where
  "copy_local_file_to_tftpboot run_local h local_file_path = scp_local_file_to_device run_local (wn_device h) local_file_path TFTPBOOT"

text \<open>The random name of the image is a parameter.\<close>

definition download_image_to_tftpboot ::
  "(string \<Rightarrow> string list \<Rightarrow> ('w, 'w spawn) io) \<Rightarrow> wan \<Rightarrow> 'w console \<Rightarrow> string \<Rightarrow> string \<Rightarrow> ('w, string) io" where
  "download_image_to_tftpboot run_local h c filename image_uri =
     seq (download_file_from_uri run_local (wn_device h) c image_uri TFTPBOOT []) (\<lambda>tempfile.
     andthen (do_cmd c (''mv '' @ TFTPBOOT @ ''/'' @ tempfile @ '' '' @ TFTPBOOT @ ''/'' @ filename)) (ret filename))"

definition execute_snmp_command :: "'w console \<Rightarrow> string \<Rightarrow> int \<Rightarrow> ('w, string) io" where
  "execute_snmp_command c snmp_command timeout =
     (if \<not> startswith snmp_command ''snmp'' then throw (value_error (py_repr snmp_command @ '' is not a SNMP command''))
      else c_execute c snmp_command timeout)"

definition rssh_command :: "string \<Rightarrow> string \<Rightarrow> string" where
  "rssh_command rssh_username port =
     ''ssh '' @ rssh_username @ ''@localhost -p '' @ port @
     '' -o StrictHostKeyChecking=no -o UserKnownHostsFile=/dev/null /sbin/ifconfig erouter0''"

definition reverse_ssh_successful :: "'w console \<Rightarrow> string \<Rightarrow> string option \<Rightarrow> string \<Rightarrow> ('w, bool) io" where
  "reverse_ssh_successful c rssh_username rssh_password port =
     (if rssh_password \<noteq> None
      then throw (value_error ''It is unexpected that a password must be used to connect to the CPE'')
      else
        seq (run_cmd c (rssh_command rssh_username port)) (\<lambda>output.
        if str_in ''erouter0'' output then ret True
        else if str_in ''Connection refused'' output then ret False
        else throw (value_error (''Unable to login the CPE- '' @ rssh_command rssh_username port @ '' '' @ output))))"

definition get_network_statistics :: "(string \<Rightarrow> raised + 'n) \<Rightarrow> 'w console \<Rightarrow> ('w, 'n) io" where
  "get_network_statistics parse c = seq (run_cmd c ''netstat -an'') (\<lambda>out. lift_sum (parse out))"

definition wan_add_route :: "'w console \<Rightarrow> string \<Rightarrow> string \<Rightarrow> ('w, unit) io" where
  "wan_add_route c destination gw_interface =
     seq (get_nw_interface_ipv4_address (Some c) gw_interface) (\<lambda>gw.
     andthen (do_cmd c (''ip route add '' @ destination @ '' via '' @ gw @ '' dev '' @ gw_interface))
     (seq (run_cmd c ''echo $?'') (\<lambda>code.
     if strip whitespace code \<noteq> ''0'' then throw (value_error (''Failed to add route to '' @ destination)) else ret ())))"

definition wan_delete_route :: "'w console \<Rightarrow> string \<Rightarrow> ('w, unit) io" where
  "wan_delete_route c destination = andthen (do_cmd c ''sync'') (do_cmd c (''ip route del '' @ destination))"

definition config_or :: "(string, json) dict \<Rightarrow> string \<Rightarrow> string \<Rightarrow> json" where
  "config_or config key otherwise = kwarg config key (JStr otherwise)"

definition rssh_username :: "wan \<Rightarrow> json" where
  "rssh_username h = config_or (ld_config (wn_device h)) ''rssh_username'' ''root''"

definition rssh_password :: "wan \<Rightarrow> json" where
  "rssh_password h = config_or (ld_config (wn_device h)) ''rssh_password'' ''bigfoot1''"

section \<open>Properties\<close>

lemma slash_not_digit: "list_all is_digit s \<Longrightarrow> CHR ''/'' \<notin> set s"
  by (auto simp: list_all_iff is_digit_def)

lemma slash_not_in_ipv4: "0 \<le> n \<Longrightarrow> CHR ''/'' \<notin> set (show_ipv4 n)"
  using slash_not_digit [OF nat_str_is_digit] by (auto simp: show_ipv4_def int_str_nonneg)

text \<open>An interface of version 4 is read back from its text.\<close>

theorem interface4_roundtrip:
  assumes "0 \<le> n" and "n < 2 ^ 32" and "k \<le> 32"
  shows "IPv4Interface (show_interface4 (n, k)) = Inr (n, k)"
proof -
  have parts: "split_on (CHR ''/'') (show_interface4 (n, k)) = [show_ipv4 n, nat_str k]"
    using split_on_join [of "[show_ipv4 n, nat_str k]" "CHR ''/''"] slash_not_in_ipv4 [OF assms(1)] slash_not_digit [OF nat_str_is_digit]
    by (simp add: show_interface4_def)
  have "prefix_length 32 (nat_str k) = Some k"
    using assms(3) nat_str_ne nat_str_is_digit digits_val_nat_str by (simp add: prefix_length_def)
  then show ?thesis using parse_show_ipv4 [OF assms(1,2)] parts by (simp add: IPv4Interface_def or_else_def)
qed

text \<open>
  The static address of version 6 is replaced at every boot when the option gives a prefix: an address the
  interface has is shown without one.
\<close>

lemma static_ipv6_replaced:
  assumes "CHR ''/'' \<in> set opt_val" and "CHR ''/'' \<notin> set current"
  shows "\<not> str_in opt_val current"
  using assms by (auto simp: str_in_iff)

text \<open>The SNMP library over the WAN host.\<close>

definition wan_snmp :: "'w console \<Rightarrow> string \<Rightarrow> (string \<Rightarrow> raised + string) \<Rightarrow> 'w snmp" where
  "wan_snmp c target compiled = \<lparr>sn_execute = execute_snmp_command c, sn_target = target, sn_compiled = compiled\<rparr>"

lemma snmp_accepted: "execute_snmp_command c (''snmp'' @ s) = c_execute c (''snmp'' @ s)"
  by (auto simp: execute_snmp_command_def fun_eq_iff startswith_def)

text \<open>The command of a single value, as the console of the host gets it.\<close>

definition snmp_arguments :: "string \<Rightarrow> string \<Rightarrow> snmp_options \<Rightarrow> string" where
  "snmp_arguments target oid os =
     '' -v 2c -On'' @ (if so_extra os = [] then [] else '' '' @ strip whitespace (so_extra os)) @
     '' -c '' @ so_community os @ '' -t '' @ int_str (so_timeout os) @ '' -r '' @ int_str (so_retries os) @
     '' '' @ target @ '' '' @ oid @ '' ''"

lemma wan_runs:
  "run_snmp_command (wan_snmp (recorded d) target compiled) (''snmp'' @ a) os oid v tr =
    (let cmd = Executed (''snmp'' @ a @ snmp_arguments target oid os @ v) (so_cmd_timeout os)
     in (dv_output d (tr @ [cmd]), tr @ [cmd]))"
proof -
  have "create_snmp_cmd (wan_snmp (recorded d) target compiled) (''snmp'' @ a) os oid v =
      ''snmp'' @ (a @ snmp_arguments target oid os @ v)"
    by (simp add: create_snmp_cmd_def snmp_arguments_def wan_snmp_def Let_def)
  then show ?thesis
    by (simp only: run_snmp_command_def wan_snmp_def snmp.simps snmp_accepted recorded_simps Let_def)
qed

text \<open>What the parser makes of an answer that starts with the line of the value.\<close>

lemma parse_line:
  assumes "list_all (\<lambda>c. c \<noteq> CHR 0x0A) oid" and "good_type stype" and "good_value v" and "rest = [] \<or> hd rest = CHR 0x0A"
  shows "parse_snmp_output oid (value_line oid stype v @ rest) value =
    (case value of
       None \<Rightarrow> Inr (unquoted v, stype, value_line oid stype v)
     | Some x \<Rightarrow>
         if str_in (compared_value x) v then Inr (unquoted v, stype, value_line oid stype v)
         else Inl (assertion_error (''Set value did not match with output value: Expected: '' @ compared_value x @
                '' Actual: '' @ v)))"
proof -
  obtain m where m: "re_search (result_rx oid) (value_line oid stype v @ rest) = Some m"
    "group 1 m = stype" "group 2 m = v" "ma_text m = value_line oid stype v"
    using result_rx_line [OF assms] by blast
  have "str_in (compared_value []) v" by (cases v) (simp_all add: compared_value_def strip_def lstrip_def rstrip_def startswith_def)
  then show ?thesis using m by (auto simp: parse_snmp_output_def Let_def split: option.splits)
qed

text \<open>C39: reading and setting a value with SNMP through the WAN host, from the call to the console and back.
  For a name that has an identifier, each operation runs exactly one command on the host: the tool for
  the operation, version 2c with numeric output, the extra arguments, the community, the timeout, the
  retries, the target and the identifier with its index, in this order, for a set followed by the type
  and the value in quotes, and waits for it as long as the caller allows. What the console raises is
  raised. When the answer starts with the line of the identifier, reading returns the line's value
  without quotes, its type and the line; setting a value without blanks and hexadecimal prefix returns
  the same if the value, stripped of quotes and then of zeros and x at its ends, occurs in the line's
  value, and raises an AssertionError if not.\<close>

theorem snmp_over_wan:
  assumes "get_mib_oid compiled mib = Inr o'" and "oid = o' @ ''.'' @ int_str index" and "CHR 0x0A \<notin> set oid"
    and "good_type stype" and "good_value v" and "rest = [] \<or> hd rest = CHR 0x0A"
    and "args = '' -v 2c -On'' @ (if so_extra os = [] then [] else '' '' @ strip whitespace (so_extra os)) @
      '' -c '' @ so_community os @ '' -t '' @ int_str (so_timeout os) @ '' -r '' @ int_str (so_retries os) @
      '' '' @ target @ '' '' @ oid @ '' ''"
    and "get = Executed (''snmpget'' @ args) (so_cmd_timeout os)"
    and "put = Executed (''snmpset'' @ args @ ty @ '' '' @ [CHR 0x27] @ value @ [CHR 0x27]) (so_cmd_timeout os)"
    and "\<not> list_ex (\<lambda>c. c \<in> set whitespace) value" and "\<not> startswith (lower value) ''0x''"
    and "line = ''.'' @ oid @ '' = '' @ stype @ '': '' @ v"
  shows "(\<exists>r. snmpget (wan_snmp (recorded d) target compiled) mib index os tr = (r, tr @ [get]) \<and>
      (case dv_output d (tr @ [get]) of
         Inl e \<Rightarrow> r = Inl e
       | Inr out \<Rightarrow> out = line @ rest \<longrightarrow> r = Inr (filter (\<lambda>c. c \<noteq> CHR 0x22) v, stype, line))) \<and>
    (\<exists>r. snmpset (wan_snmp (recorded d) target compiled) mib value ty index os tr = (r, tr @ [put]) \<and>
      (case dv_output d (tr @ [put]) of
         Inl e \<Rightarrow> r = Inl e
       | Inr out \<Rightarrow> out = line @ rest \<longrightarrow>
           (if str_in (strip ''0x'' (strip [CHR 0x27] value)) v
            then r = Inr (filter (\<lambda>c. c \<noteq> CHR 0x22) v, stype, line) else \<exists>m. r = Inl (assertion_error m))))"
proof -
  let ?s = "wan_snmp (recorded d) target compiled"
  have i: "indexed o' index = oid" by (simp add: indexed_def assms(2))
  have c: "sn_compiled ?s = compiled" by (simp add: wan_snmp_def)
  have a: "args = snmp_arguments target oid os" by (simp add: assms(7) snmp_arguments_def)
  have l: "line = value_line oid stype v" by (simp add: assms(12) value_line_def)
  have "list_all (\<lambda>c. c \<noteq> CHR 0x0A) oid" using assms(3) by (auto simp: list_all_iff)
  note parse = parse_line [OF this assms(4-6), folded l]
  have "set (strip whitespace value) \<subseteq> set value"
    using set_rstrip [of whitespace "value"] by (auto simp: strip_def lstrip_def dest: set_dropWhileD)
  then have "\<not> list_ex (\<lambda>c. c \<in> set whitespace) (strip whitespace value)"
    using assms(10) by (auto simp: list_ex_iff)
  then have sent: "sent_value value ty = value" by (simp add: sent_value_def)
  have set_run: "run_snmp_command ?s ''snmpset'' os oid (set_argument value ty) tr = (dv_output d (tr @ [put]), tr @ [put])"
    using wan_runs [of d target compiled "''set''" os oid "set_argument value ty" tr]
    by (simp add: assms(9,11) a set_argument_def Let_def)
  have get_run: "run_snmp_command ?s ''snmpget'' os oid [] tr = (dv_output d (tr @ [get]), tr @ [get])"
    using wan_runs [of d target compiled "''get''" os oid "[]" tr] by (simp add: assms(8) a Let_def)
  have g: "snmpget ?s mib index os tr = (case dv_output d (tr @ [get]) of
      Inl e \<Rightarrow> (Inl e, tr @ [get]) | Inr out \<Rightarrow> (parse_snmp_output oid out None, tr @ [get]))"
    by (simp add: snmpget_def c assms(1) i seq_def lift_sum_def get_run split: sum.splits)
  have p: "snmpset ?s mib value ty index os tr = (case dv_output d (tr @ [put]) of
      Inl e \<Rightarrow> (Inl e, tr @ [put]) | Inr out \<Rightarrow> (parse_snmp_output oid out (Some value), tr @ [put]))"
    by (simp add: snmpset_def c assms(1) i seq_def lift_sum_def sent set_run split: sum.splits)
  show ?thesis
  proof (intro conjI)
    show "\<exists>r. snmpget ?s mib index os tr = (r, tr @ [get]) \<and>
        (case dv_output d (tr @ [get]) of
           Inl e \<Rightarrow> r = Inl e
         | Inr out \<Rightarrow> out = line @ rest \<longrightarrow> r = Inr (filter (\<lambda>c. c \<noteq> CHR 0x22) v, stype, line))"
      unfolding g using parse [of None] by (cases "dv_output d (tr @ [get])") (auto simp: unquoted_def)
    show "\<exists>r. snmpset ?s mib value ty index os tr = (r, tr @ [put]) \<and>
        (case dv_output d (tr @ [put]) of
           Inl e \<Rightarrow> r = Inl e
         | Inr out \<Rightarrow> out = line @ rest \<longrightarrow>
             (if str_in (strip ''0x'' (strip [CHR 0x27] value)) v
              then r = Inr (filter (\<lambda>c. c \<noteq> CHR 0x22) v, stype, line) else \<exists>m. r = Inl (assertion_error m)))"
    proof (cases "dv_output d (tr @ [put])")
      case (Inr out)
      then show ?thesis
        unfolding p using parse [of "Some value"]
        by (intro exI [of _ "parse_snmp_output oid out (Some value)"]) (auto simp: unquoted_def compared_value_def)
    qed (simp add: p)
  qed
qed

text \<open>A host whose tool prints the line of the name.\<close>

definition snmp_host :: answers where
  "snmp_host = (sample_device 0)\<lparr>dv_output := \<lambda>_. Inr (''.1.3.6.1.2.0 = STRING: '' @ [CHR 0x22] @ ''cpe'' @ [CHR 0x22])\<rparr>"

theorem snmp_over_wan_witness:
  "snmpget (wan_snmp (recorded snmp_host) ''10.0.0.1'' (\<lambda>_. Inr ''1.3.6.1.2'')) ''sysName'' 0 default_options [] =
     (Inr (''cpe'', ''STRING'', ''.1.3.6.1.2.0 = STRING: '' @ [CHR 0x22] @ ''cpe'' @ [CHR 0x22]),
      [Executed ''snmpget -v 2c -On -c private -t 10 -r 3 10.0.0.1 1.3.6.1.2.0 '' 30])"
proof -
  let ?v = "[CHR 0x22] @ ''cpe'' @ [CHR 0x22]" and ?c = "\<lambda>_. Inr ''1.3.6.1.2'' :: raised + string"
  have o': "get_mib_oid ?c ''sysName'' = Inr ''1.3.6.1.2''" by code_simp
  have i: "int_str 0 = ''0''" "int_str 10 = ''10''" "int_str 3 = ''3''" by code_simp+
  have g: "good_type ''STRING''" "good_value ?v" "\<not> list_ex (\<lambda>c. c \<in> set whitespace) ''cpe''"
    "\<not> startswith (lower ''cpe'') ''0x''" "filter (\<lambda>c. c \<noteq> CHR 0x22) ?v = ''cpe''" by code_simp+
  show ?thesis
    using snmp_over_wan [OF o' HOL.refl _ g(1,2) _ HOL.refl HOL.refl HOL.refl g(3,4) HOL.refl,
        where index = 0 and rest = "[]" and os = default_options and target = "''10.0.0.1''" and d = snmp_host and tr = "[]"
          and ty = "''s''"] g(5)
    by (simp add: i snmp_host_def default_options_def)
qed

end
