(* ===== verification/Linux_WLAN.thy ===== *)
theory Linux_WLAN
  imports Linux_WAN
begin

text \<open>
  The wireless client (\<^verbatim>\<open>boardfarm3/devices/linux_wlan.py\<close>) and the use cases on wireless networks
  (\<^verbatim>\<open>boardfarm3/use_cases/wifi.py\<close>). The wireless software of the board is the interface of
  \<^verbatim>\<open>lib/hal/cpe_wifi.py\<close>, a record of its operations.
\<close>

section \<open>The client\<close>

record 'w wlan =
  wl_device :: linux_device
  wl_console :: "'w console"

definition WLAN_IFACE :: string where
  "WLAN_IFACE = ''wlan1''"

definition wlan_field :: "'w wlan \<Rightarrow> string \<Rightarrow> json" where
  "wlan_field c key = get_or_none (ld_config (wl_device c)) key"

definition wlan_band :: "'w wlan \<Rightarrow> json" where "wlan_band c = wlan_field c ''band''"
definition network :: "'w wlan \<Rightarrow> json" where "network c = wlan_field c ''network''"
definition authentication :: "'w wlan \<Rightarrow> json" where "authentication c = wlan_field c ''authentication''"
definition protocol_of :: "'w wlan \<Rightarrow> json" where "protocol_of c = wlan_field c ''protocol''"

definition lan_network :: "'w wlan \<Rightarrow> raised + int \<times> nat" where
  "lan_network c =
     map_sum id (\<lambda>(n, k). (n - n mod 2 ^ (32 - k), k)) (IPv4Interface (shown (kwarg (ld_config (wl_device c)) ''lan_network'' (JStr ''192.168.178.0/24''))))"

definition lan_gateway :: "'w wlan \<Rightarrow> raised + int" where
  "lan_gateway c = map_sum id fst (IPv4Interface (shown (kwarg (ld_config (wl_device c)) ''lan_gateway'' (JStr ''192.168.178.1/24''))))"

definition wl_act :: "'w wlan \<Rightarrow> string \<Rightarrow> ('w, unit) io" where
  "wl_act c s = do_cmd (wl_console c) s"

definition wl_ask :: "'w wlan \<Rightarrow> string \<Rightarrow> ('w, string) io" where
  "wl_ask c s = run_cmd (wl_console c) s"

section \<open>The interface\<close>

definition enable_wifi :: "'w wlan \<Rightarrow> ('w, unit) io" where
  "enable_wifi c = set_link_state (wl_device c) (wl_console c) WLAN_IFACE ''up''"

definition disable_wifi :: "'w wlan \<Rightarrow> ('w, unit) io" where
  "disable_wifi c =
     andthen (wl_act c (''rm /etc/wpa_supplicant/'' @ WLAN_IFACE))
     (andthen (wl_act c ''killall wpa_supplicant'') (set_link_state (wl_device c) (wl_console c) WLAN_IFACE ''down''))"

definition reset_wifi_iface :: "'w wlan \<Rightarrow> ('w, unit) io" where
  "reset_wifi_iface c = andthen (disable_wifi c) (enable_wifi c)"

definition dhcp_release_wlan_iface :: "'w wlan \<Rightarrow> ('w, unit) io" where
  "dhcp_release_wlan_iface c = release_dhcp (wl_device c) (wl_console c) WLAN_IFACE"

text \<open>Asking for an address; a client that does not answer is interrupted inside the request already.\<close>

definition start_ipv4_wlan_client :: "'w wlan \<Rightarrow> ('w, bool) io" where
  "start_ipv4_wlan_client c =
     andthen (for_each (wl_act c)
        [''ifconfig '' @ WLAN_IFACE @ '' 0.0.0.0'', ''ip route flush default'', ''dhclient -r '' @ WLAN_IFACE, ''kill -9 $(pgrep dhclient)''])
     (catch (andthen (renew_dhcp (wl_device c) (wl_console c) WLAN_IFACE) (ret True))
        is_timeout
        (\<lambda>_. andthen (sp_sendcontrol (wl_console c) ''c'')
              (andthen (at_prompt (wl_console c) (ld_prompt (wl_device c)) (-1))
              (andthen (wl_act c ''killall dhclient'') (ret False)))))"

definition ipv6_key :: "string \<Rightarrow> string" where
  "ipv6_key setting = ''sysctl net.ipv6.conf.'' @ WLAN_IFACE @ ''.'' @ setting"

definition wlan_enable_ipv6 :: "'w wlan \<Rightarrow> ('w, unit) io" where
  "wlan_enable_ipv6 c = for_each (wl_act c) [ipv6_key ''accept_ra=2'', ipv6_key ''disable_ipv6=0'']"

definition wlan_disable_ipv6 :: "'w wlan \<Rightarrow> ('w, unit) io" where
  "wlan_disable_ipv6 c = for_each (wl_act c) [ipv6_key ''disable_ipv6=1'', ipv6_key ''disable_ipv6=1'']"

definition start_ipv6_wlan_client :: "'w wlan \<Rightarrow> ('w, unit) io" where
  "start_ipv6_wlan_client c =
     andthen (for_each (wl_act c) [''ip -6 route flush default'', ''dhclient -6 -r '' @ WLAN_IFACE, ''dhclient -6 -v '' @ WLAN_IFACE])
     (andthen (wlan_disable_ipv6 c) (wlan_enable_ipv6 c))"

definition set_wlan_scan_channel :: "'w wlan \<Rightarrow> string \<Rightarrow> ('w, unit) io" where
  "set_wlan_scan_channel c channel = wl_act c (''iwconfig '' @ WLAN_IFACE @ '' channel '' @ channel)"

definition channel_rx :: "string \<Rightarrow> rx" where
  "channel_rx wifi_band = cats [lit ''Channel '', plus dgt, lit '' : '', interpolated wifi_band, dot, plus dgt, lit '' GHz'']"

definition iwlist_supported_channels :: "'w wlan \<Rightarrow> string \<Rightarrow> ('w, string list) io" where
  "iwlist_supported_channels c wifi_band =
     seq (wl_ask c (''iwlist '' @ WLAN_IFACE @ '' channel'')) (\<lambda>out.
     ret (concat (map (\<lambda>line. case re_search (channel_rx wifi_band) line of
                                None \<Rightarrow> [] | Some m \<Rightarrow> [split_on (CHR '' '') (ma_text m) ! 1]) (splitlines out))))"

section \<open>Networks\<close>

definition wifi_error :: "string \<Rightarrow> raised" where
  "wifi_error m = py_error WifiError ''WifiError'' m"

definition is_wlan_connected :: "'w wlan \<Rightarrow> ('w, bool) io" where
  "is_wlan_connected c = seq (wl_ask c (''iw '' @ WLAN_IFACE @ '' link'')) (\<lambda>out. ret (str_in ''Connected'' out))"

definition scan_command :: string where
  "scan_command = ''iw dev '' @ WLAN_IFACE @ '' scan | grep SSID: | sed '' @ quoted ''s/[[:space:]]*SSID: //g''"

text \<open>Up to \<open>n\<close> scans: a busy card is unblocked, when it is not connected, and asked again.\<close>

fun scan_attempts :: "'w wlan \<Rightarrow> nat \<Rightarrow> ('w, string list) io" where
  "scan_attempts c 0 = throw (wifi_error ''Device failed to scan for SSID due to resource busy!'')"
| "scan_attempts c (Suc n) =
     seq (wl_ask c scan_command) (\<lambda>out.
     if \<not> str_in ''Device or resource busy'' out then ret (splitlines out)
     else
       seq (is_wlan_connected c) (\<lambda>connected.
       andthen (when_io (\<not> connected) (wl_act c ''rfkill unblock all'')) (scan_attempts c n)))"

definition list_wifi_ssids :: "'w wlan \<Rightarrow> ('w, string list) io" where
  "list_wifi_ssids c = scan_attempts c 3"

text \<open>
  The configuration of the supplicant, and how it is written: from the passphrase for the modes with one,
  as it is for the others. It has no braces around the network.
\<close>

definition wifi_config :: "string \<Rightarrow> string \<Rightarrow> string \<Rightarrow> string \<Rightarrow> bool \<Rightarrow> string \<Rightarrow> (string, string) dict" where
  "wifi_config ssid_name security_mode hotspot_id hotspot_pwd broadcast bssid =
     [(''ssid'', ssid_name), (''key_mgmt'', security_mode)] @
     (if security_mode = ''WPA-EAP'' then [(''eap'', ''PEAP''), (''identity'', hotspot_id), (''password'', hotspot_pwd)] else []) @
     [(''scan_ssid'', if broadcast then ''0'' else ''1'')] @ (if bssid = [] then [] else [(''bssid'', bssid)])"

definition config_line :: "string \<times> string \<Rightarrow> string" where
  "config_line p =
     fst p @ ''='' @
     (if fst p \<in> {''ssid'', ''psk'', ''identity'', ''password''} then [CHR 0x22] @ snd p @ [CHR 0x22] else snd p) @ [CHR 0x0A]"

definition final_config :: "(string, string) dict \<Rightarrow> string" where
  "final_config config =
     ''ctrl_interface=DIR='' @ [CHR 0x22] @ ''/etc/wpa_supplicant GROUP=root'' @ [CHR 0x0A] @ ''        network='' @ [CHR 0x0A] @
     concat (map config_line config)"

definition write_config :: "string \<Rightarrow> string \<Rightarrow> string \<Rightarrow> string \<Rightarrow> string \<Rightarrow> string" where
  "write_config ssid_name pass security_mode bssid config =
     (if security_mode \<in> {''WPA-PSK'', ''WPA2-PSK''}
      then ''wpa_passphrase '' @ quoted ssid_name @ '' '' @ quoted pass @ '' | sed -e '' @
           quoted (''/^network[[:space:]]*=/a'' @ [CHR 0x5C, CHR 0x5C] @ ''tkey_mgmt='' @ security_mode @ [CHR 0x5C] @ ''n'' @
             [CHR 0x5C] @ ''tbssid='' @ bssid) @ '' > '' @ ssid_name @ ''.conf''
      else ''echo -e '' @ quoted config @ '' > '' @ ssid_name @ ''.conf'')"

definition wifi_connect :: "'w wlan \<Rightarrow> string \<Rightarrow> string \<Rightarrow> string \<Rightarrow> string \<Rightarrow> string \<Rightarrow> bool \<Rightarrow> string option \<Rightarrow> ('w, bool) io" where
  "wifi_connect c ssid_name pass security_mode hotspot_id hotspot_pwd broadcast bssid =
     (let b = (case bssid of None \<Rightarrow> [] | Some x \<Rightarrow> x);
          config = final_config (wifi_config ssid_name security_mode hotspot_id hotspot_pwd broadcast b)
      in andthen (for_each (wl_act c)
            [''rm '' @ ssid_name @ ''.conf'', write_config ssid_name pass security_mode (text_option bssid) config,
             ''cat '' @ ssid_name @ ''.conf''])
         (seq (wl_ask c (''wpa_supplicant -B -D nl80211 -i '' @ WLAN_IFACE @ '' -c '' @ ssid_name @ ''.conf -d'')) (\<lambda>out.
          ret (str_in ''Daemonize..'' out))))"

definition disconnect_wpa :: "'w wlan \<Rightarrow> ('w, unit) io" where
  "disconnect_wpa c = wl_act c ''killall wpa_supplicant''"

definition wifi_disconnect :: "'w wlan \<Rightarrow> ('w, unit) io" where
  "wifi_disconnect c = andthen (disconnect_wpa c) (wl_act c (''iw dev '' @ WLAN_IFACE @ '' disconnect''))"

definition change_wifi_region :: "'w wlan \<Rightarrow> string \<Rightarrow> ('w, unit) io" where
  "change_wifi_region c country =
     andthen (wl_act c (''iw reg set '' @ country))
     (seq (wl_ask c ''iw reg get'') (\<lambda>out.
     if \<not> str_in country out then throw (wifi_error (''Wifi region could not be changed to: '' @ country)) else ret ()))"

text \<open>Waiting is expecting a timeout.\<close>

definition await_timeout :: "'w wlan \<Rightarrow> int \<Rightarrow> ('w, unit) io" where
  "await_timeout c t = seq (sp_expect (wl_console c) [Timeout] t) (\<lambda>_. ret ())"

definition wifi_client_connect :: "'w wlan \<Rightarrow> string option \<Rightarrow> string option \<Rightarrow> string option \<Rightarrow> string option \<Rightarrow> ('w, unit) io" where
  "wifi_client_connect c ssid_name pass security_mode bssid =
     andthen (reset_wifi_iface c)
     (andthen (await_timeout c 20)
     (seq (list_wifi_ssids c) (\<lambda>ssids.
     if ssid_name \<notin> Some ` set ssids
     then throw (wifi_error (text_option ssid_name @ '' network is not found. Aborting connection process''))
     else
       andthen (wifi_connect c (text_option ssid_name) (text_option pass) (text_option security_mode) ''cbn'' ''cbn'' True bssid)
       (andthen (await_timeout c (-1))
       (seq (is_wlan_connected c) (\<lambda>connected.
       if \<not> connected then throw (wifi_error (''Wlan client failed to connect to '' @ text_option ssid_name @ '' network''))
       else seq (start_ipv4_wlan_client c) (\<lambda>_. ret ())))))))"

definition enable_monitor_mode :: "'w wlan \<Rightarrow> ('w, unit) io" where
  "enable_monitor_mode c =
     andthen (disable_wifi c) (andthen (wl_act c (''iw dev '' @ WLAN_IFACE @ '' set type monitor'')) (enable_wifi c))"

definition disable_monitor_mode :: "'w wlan \<Rightarrow> ('w, unit) io" where
  "disable_monitor_mode c =
     andthen (disable_wifi c) (andthen (wl_act c (''iw dev '' @ WLAN_IFACE @ '' set type managed'')) (enable_wifi c))"

definition is_monitor_mode_enabled :: "'w wlan \<Rightarrow> ('w, bool) io" where
  "is_monitor_mode_enabled c = seq (wl_ask c (''iw dev '' @ WLAN_IFACE @ '' info'')) (\<lambda>out. ret (str_in ''type monitor'' out))"

section \<open>The wireless software of the board\<close>

record 'w wifi_hal =
  wh_ifaces :: "json \<Rightarrow> string \<Rightarrow> raised + string"
  wh_ssid :: "json \<Rightarrow> json \<Rightarrow> ('w, string option) io"
  wh_bssid :: "json \<Rightarrow> json \<Rightarrow> ('w, string option) io"
  wh_passphrase :: "string \<Rightarrow> ('w, string) io"
  wh_enable :: "json \<Rightarrow> json \<Rightarrow> ('w, string \<times> string \<times> string) io"
  wh_radar :: "json \<Rightarrow> ('w, string) io"
  wh_status :: "json \<Rightarrow> json \<Rightarrow> ('w, string) io"

definition not_implemented :: "string \<Rightarrow> raised" where
  "not_implemented m = py_error PyException ''NotImplementedError'' m"

text \<open>The hook that configures a client; one with a missing detail is left alone.\<close>

definition wlan_configure :: "'w wifi_hal \<Rightarrow> 'w wlan \<Rightarrow> raised + json \<Rightarrow> ('w, unit) io" where
  "wlan_configure wifi c prov_mode =
     (if \<not> list_all truthy [wlan_band c, network c, protocol_of c, authentication c] then ret ()
      else
        seq (wh_enable wifi (network c) (wlan_band c)) (\<lambda>(ssid, bssid, passphrase).
        andthen (wifi_client_connect c (Some ssid) (Some passphrase) (text_or_none (authentication c)) (Some bssid))
        (andthen (setup_static_routes (wl_device c) (wl_console c))
        (seq (lift_sum prov_mode) (\<lambda>mode.
        seq (start_ipv4_wlan_client c) (\<lambda>_.
        andthen (if mode = JStr ''ipv4'' then ret () else start_ipv6_wlan_client c)
          (start_danteproxy (wl_device c) (wl_console c) ''wlan'')))))))"

section \<open>The use cases\<close>

definition get_wifi_clients :: "json \<Rightarrow> json \<Rightarrow> 'w wlan list \<Rightarrow> 'w wlan list" where
  "get_wifi_clients net b = filter (\<lambda>c. network c = net \<and> wlan_band c = b)"

definition console_mode :: "string \<Rightarrow> ('w, 'a) io \<Rightarrow> ('w, 'a) io" where
  "console_mode mode m = (if mode = ''console'' then m else throw (not_implemented ''Not implemented for modes other than console''))"

definition get_ssid :: "'w wifi_hal \<Rightarrow> json \<Rightarrow> json \<Rightarrow> string \<Rightarrow> ('w, string option) io" where
  "get_ssid wifi net b mode = console_mode mode (wh_ssid wifi net b)"

definition get_bssid :: "'w wifi_hal \<Rightarrow> json \<Rightarrow> json \<Rightarrow> string \<Rightarrow> ('w, string option) io" where
  "get_bssid wifi net b mode = console_mode mode (wh_bssid wifi net b)"

definition get_passphrase :: "'w wifi_hal \<Rightarrow> json \<Rightarrow> ('w, string) io" where
  "get_passphrase wifi net = seq (lift_sum (wh_ifaces wifi net ''5'')) (wh_passphrase wifi)"

definition given_or :: "string option \<Rightarrow> ('w, string option) io \<Rightarrow> ('w, string option) io" where
  "given_or x m = (case x of Some s \<Rightarrow> if s = [] then m else ret (Some s) | None \<Rightarrow> m)"

definition connect_wifi_client :: "'w wifi_hal \<Rightarrow> 'w wlan \<Rightarrow> string option \<Rightarrow> string option \<Rightarrow> string option \<Rightarrow> ('w, unit) io" where
  "connect_wifi_client wifi c ssid pass bssid =
     seq (given_or ssid (get_ssid wifi (network c) (wlan_band c) ''console'')) (\<lambda>s.
     seq (given_or bssid (get_bssid wifi (network c) (wlan_band c) ''console'')) (\<lambda>b.
     seq (given_or pass (seq (get_passphrase wifi (network c)) (\<lambda>p. ret (Some p)))) (\<lambda>p.
     wifi_client_connect c s p (text_or_none (authentication c)) b)))"

definition check_and_connect_to_wifi :: "'w wifi_hal \<Rightarrow> 'w wlan \<Rightarrow> ('w, unit) io" where
  "check_and_connect_to_wifi wifi c =
     seq (wh_enable wifi (network c) (wlan_band c)) (\<lambda>(ssid, bssid, passphrase).
     wifi_client_connect c (Some ssid) (Some passphrase) (text_or_none (authentication c)) (Some bssid))"

definition wifi_check_ssid :: "'w wlan \<Rightarrow> string option \<Rightarrow> ('w, bool) io" where
  "wifi_check_ssid c ssid_name =
     seq (list_wifi_ssids c) (\<lambda>ssids. ret (case ssid_name of None \<Rightarrow> False | Some s \<Rightarrow> s \<in> set ssids))"

definition scan_ssid_name :: "'w wifi_hal \<Rightarrow> 'w wlan \<Rightarrow> ('w, bool) io" where
  "scan_ssid_name wifi c = seq (get_ssid wifi (network c) (wlan_band c) ''console'') (wifi_check_ssid c)"

definition with_monitor_mode :: "'w wlan \<Rightarrow> ('w, 'a) io \<Rightarrow> ('w, 'a) io" where
  "with_monitor_mode c body = lastly (andthen (enable_monitor_mode c) body) (disable_monitor_mode c)"

definition trigger_radar_event :: "'w wifi_hal \<Rightarrow> json \<Rightarrow> ('w, unit) io" where
  "trigger_radar_event wifi net =
     seq (wh_radar wifi net) (\<lambda>out.
     if str_in ''wl: Bad Channel'' out
     then throw (use_case_failure (''Failed to trigger radar event for '' @ shown net @ '' network''))
     else if str_in ''wl: Bad Argument'' out then throw (use_case_failure ''Incorrect parameter passed to the wl command'')
     else ret ())"

definition get_wireless_interface_status :: "'w wifi_hal \<Rightarrow> json \<Rightarrow> json \<Rightarrow> ('w, string) io" where
  "get_wireless_interface_status wifi net b =
     seq (wh_status wifi net b) (\<lambda>out.
     if str_in ''wl: wl driver adapter not found'' out
     then throw (use_case_failure ''Failed to get the wireless interface status from the CPE console'')
     else ret out)"

section \<open>Properties\<close>

text \<open>The scan of a recorded device: what it asks, and when it gives up.\<close>

lemma connected_run:
  "is_wlan_connected \<lparr>wl_device = v, wl_console = recorded d\<rparr> tr =
     (case dv_output d (tr @ [Executed (''iw '' @ WLAN_IFACE @ '' link'') (-1)]) of
        Inl e \<Rightarrow> (Inl e, tr @ [Executed (''iw '' @ WLAN_IFACE @ '' link'') (-1)])
      | Inr out \<Rightarrow> (Inr (str_in ''Connected'' out), tr @ [Executed (''iw '' @ WLAN_IFACE @ '' link'') (-1)]))"
  by (simp add: is_wlan_connected_def wl_ask_def run_cmd_def seq_def ret_def split: sum.splits)

lemma scan_attempts_outcome:
  "scan_attempts \<lparr>wl_device = v, wl_console = recorded d\<rparr> n tr = (r, tr') \<Longrightarrow>
   (\<forall>ssids. r = Inr ssids \<longrightarrow> (\<exists>out. last tr' = Executed scan_command (-1) \<and> dv_output d tr' = Inr out \<and>
      \<not> str_in ''Device or resource busy'' out \<and> ssids = splitlines out)) \<and>
   length (filter (\<lambda>a. a = Executed scan_command (-1)) tr') \<le> length (filter (\<lambda>a. a = Executed scan_command (-1)) tr) + n"
proof (induction n arbitrary: tr)
  case 0
  then show ?case by (auto simp: throw_def)
next
  case (Suc n)
  let ?c = "\<lparr>wl_device = v, wl_console = recorded d\<rparr>" and ?t1 = "tr @ [Executed scan_command (-1)]"
  let ?link = "Executed (''iw '' @ WLAN_IFACE @ '' link'') (-1)" and ?kill = "Executed ''rfkill unblock all'' (-1)"
  have d: "?link \<noteq> Executed scan_command (-1)" "?kill \<noteq> Executed scan_command (-1)"
    by (simp_all add: scan_command_def)
  show ?case
  proof (cases "dv_output d ?t1")
    case (Inl e)
    then show ?thesis using Suc.prems by (auto simp: seq_def wl_ask_def run_cmd_def)
  next
    case (Inr out)
    show ?thesis
    proof (cases "str_in ''Device or resource busy'' out")
      case False
      then show ?thesis using Suc.prems Inr by (auto simp: seq_def wl_ask_def run_cmd_def ret_def)
    next
      case True
      have run: "(r, tr') = seq (is_wlan_connected ?c) (\<lambda>connected.
          andthen (when_io (\<not> connected) (wl_act ?c ''rfkill unblock all'')) (scan_attempts ?c n)) ?t1"
        using Suc.prems Inr True by (simp add: seq_def wl_ask_def run_cmd_def)
      show ?thesis
      proof (cases "dv_output d (?t1 @ [?link])")
        case (Inl e)
        then show ?thesis using run d by (auto simp: seq_def connected_run)
      next
        case (Inr link)
        show ?thesis
        proof (cases "str_in ''Connected'' link")
          case True
          then have "scan_attempts ?c n (?t1 @ [?link]) = (r, tr')"
            using run Inr by (simp add: seq_def connected_run andthen_def when_io_def ret_def)
          from Suc.IH [OF this] show ?thesis using d by auto
        next
          case False
          show ?thesis
          proof (cases "dv_output d (?t1 @ [?link, ?kill])")
            case (Inl e)
            then show ?thesis using run Inr False d
              by (auto simp: seq_def connected_run andthen_def when_io_def ret_def wl_act_def do_cmd_def run_cmd_def \<open>dv_output d (?t1 @ [?link]) = Inr link\<close>)
          next
            case (Inr x)
            then have "scan_attempts ?c n (?t1 @ [?link, ?kill]) = (r, tr')"
              using run False \<open>dv_output d (?t1 @ [?link]) = Inr link\<close>
              by (simp add: seq_def connected_run andthen_def when_io_def ret_def wl_act_def do_cmd_def run_cmd_def)
            from Suc.IH [OF this] show ?thesis using d by auto
          qed
        qed
      qed
    qed
  qed
qed

text \<open>scanning is bounded and honest: whatever the device answers, at most three scans are made, and the
  names it returns are the lines of an answer that did not say the card is busy.\<close>

theorem wifi_scan_bounded:
  assumes "list_wifi_ssids \<lparr>wl_device = v, wl_console = recorded d\<rparr> [] = (r, tr)"
  shows "length (filter (\<lambda>a. a = Executed scan_command (-1)) tr) \<le> 3 \<and>
    (\<forall>ssids. r = Inr ssids \<longrightarrow> (\<exists>out. dv_output d tr = Inr out \<and> \<not> str_in ''Device or resource busy'' out \<and> ssids = splitlines out))"
  using scan_attempts_outcome [OF assms [unfolded list_wifi_ssids_def]] by auto

theorem wifi_scan_bounded_witness:
  "list_wifi_ssids \<lparr>wl_device = sample_linux, wl_console = recorded ((sample_device 0)\<lparr>dv_output := \<lambda>_. Inr ''home''\<rparr>)\<rparr> [] =
     (Inr [''home''], [Executed scan_command (-1)]) \<and>
   length (filter (\<lambda>a. a = Executed scan_command (-1)) [Executed scan_command (-1)]) \<le> 3"
proof -
  let ?d = "(sample_device 0)\<lparr>dv_output := \<lambda>_. Inr ''home''\<rparr>"
  have s: "\<not> str_in ''Device or resource busy'' ''home''" "splitlines ''home'' = [''home'']" by code_simp+
  have r: "list_wifi_ssids \<lparr>wl_device = sample_linux, wl_console = recorded ?d\<rparr> [] = (Inr [''home''], [Executed scan_command (-1)])"
    by (simp add: list_wifi_ssids_def numeral_3_eq_3 seq_def wl_ask_def run_cmd_def ret_def s del: str_in.simps)
  show ?thesis using wifi_scan_bounded [OF r] r by blast
qed

text \<open>A client that gets no answer counts as started: the timeout is handled inside the request.\<close>

lemma ipv4_client_always_started:
  assumes "for_each (wl_act c)
        [''ifconfig '' @ WLAN_IFACE @ '' 0.0.0.0'', ''ip route flush default'', ''dhclient -r '' @ WLAN_IFACE, ''kill -9 $(pgrep dhclient)''] w
        = (Inr (), w1)"
    and "renew_dhcp (wl_device c) (wl_console c) WLAN_IFACE w1 = (Inr (), w2)"
  shows "start_ipv4_wlan_client c w = (Inr True, w2)"
  using assms by (simp add: start_ipv4_wlan_client_def andthen_def seq_def catch_def ret_def)

end
