(* ===== verification/Net_Cases.thy ===== *)
theory Net_Cases
  imports Linux_WAN
begin

text \<open>
  The use cases on the network (\<^verbatim>\<open>boardfarm3/use_cases/networking.py\<close>) and the scan of
  \<^verbatim>\<open>boardfarm3/lib/networking.py\<close> they share. A context manager takes the block it surrounds as an argument.
\<close>

section \<open>Devices of the use cases\<close>

text \<open>
  A host (LAN, WAN, WLAN or ACS) carries its tools itself, a board (CPE) those of its software. The
  addresses of a device are those of its interface: the one to the board, or the \<^verbatim>\<open>erouter\<close> of a board.
\<close>

record 'w node =
  nd_is_board :: bool
  nd_iface :: string
  nd_ipv4 :: "string \<Rightarrow> ('w, string) io"
  nd_ipv6 :: "string \<Rightarrow> ('w, string) io"
  nd_console :: "'w console"
  nd_software :: "'w console"
  nd_erouter :: string

definition tools_of :: "'w node \<Rightarrow> 'w console" where
  "tools_of d = (if nd_is_board d then nd_software d else nd_console d)"

section \<open>Scans\<close>

definition scan_address :: "'w node \<Rightarrow> string \<Rightarrow> ('w, string) io" where
  "scan_address destination_device ip_type =
     (let iface = (if nd_is_board destination_device then nd_erouter destination_device else nd_iface destination_device)
      in if ip_type = ''ipv4'' then nd_ipv4 destination_device iface
         else seq (nd_ipv6 destination_device iface) (\<lambda>a. ret (''-6 '' @ a)))"

definition nmap_between ::
  "(string \<Rightarrow> raised + 'x) \<Rightarrow> 'w console \<Rightarrow> 'w node \<Rightarrow> string \<Rightarrow> json \<Rightarrow> string option \<Rightarrow> json \<Rightarrow> json \<Rightarrow> string option \<Rightarrow> int \<Rightarrow>
   ('w, 'x) io" where
  "nmap_between xml_parse source destination ip_type port protocol max_retries min_rate opts timeout =
     seq (scan_address destination ip_type) (\<lambda>ipaddr.
     nmap xml_parse source ipaddr ip_type port protocol max_retries min_rate opts timeout)"

definition create_udp_session where
  "create_udp_session xml_parse source destination ip_type port max_retries timeout =
     nmap_between xml_parse source destination ip_type port (Some ''-sU'') (JInt max_retries) JNull None timeout"

definition create_tcp_session where
  "create_tcp_session xml_parse source destination ip_type port max_retries timeout =
     nmap_between xml_parse source destination ip_type port (Some ''-sT'') (JInt max_retries) JNull None timeout"

definition create_tcp_udp_session where
  "create_tcp_udp_session xml_parse source destination ip_type port max_retries timeout =
     nmap_between xml_parse source destination ip_type port (Some ''-sU -sT'') (JInt max_retries) JNull None timeout"

definition trigger_ip_flood where
  "trigger_ip_flood xml_parse source destination ip_type port min_rate max_retries timeout =
     nmap_between xml_parse source destination ip_type port (Some ''-sS'') (JInt max_retries) (JInt min_rate) None timeout"

definition nmap_scan where
  "nmap_scan xml_parse source destination ip_type timeout =
     nmap_between xml_parse source destination ip_type JNull None JNull JNull (Some ''-F'') timeout"

section \<open>HTTP and names\<close>

text \<open>The server around a block: one that runs is stopped first, and the one started is stopped at the end.\<close>

definition with_http_server :: "'w console \<Rightarrow> json \<Rightarrow> json \<Rightarrow> (string \<Rightarrow> ('w, 'a) io) \<Rightarrow> ('w, 'a) io" where
  "with_http_server c port ip_version body =
     (if shown ip_version \<notin> {''4'', ''6''} then throw (value_error (''Invalid ip_version argument '' @ shown ip_version @ ''.''))
      else
        andthen (stop_http_service c (shown port))
        (lastly (seq (start_http_service c (shown port) (shown ip_version)) body) (stop_http_service c (shown port))))"

definition http_options :: "bool \<Rightarrow> bool \<Rightarrow> bool \<Rightarrow> string" where
  "http_options no_proxy is_insecure follow_redirects =
     (if no_proxy then ''--noproxy '' @ quoted ''*'' @ '' '' else []) @ (if is_insecure then ''-k '' else []) @
     (if follow_redirects then ''-L '' else [])"

definition http_get_case :: "(string \<Rightarrow> string) \<Rightarrow> 'w console \<Rightarrow> string \<Rightarrow> int \<Rightarrow> bool \<Rightarrow> bool \<Rightarrow> bool \<Rightarrow> ('w, http_result) io" where
  "http_get_case prettify c url timeout no_proxy is_insecure follow_redirects =
     http_get prettify c url timeout (http_options no_proxy is_insecure follow_redirects)"

text \<open>\<open>dig_parse\<close> reads the answers; none at all is a failure.\<close>

definition dns_lookup_case :: "(string \<Rightarrow> raised + 'r list) \<Rightarrow> 'w console \<Rightarrow> string \<Rightarrow> bool \<Rightarrow> string \<Rightarrow> ('w, 'r list) io" where
  "dns_lookup_case dig_parse c domain_name ipv6 opts =
     seq (dns_lookup dig_parse c domain_name (if ipv6 then ''AAAA'' else ''A'') opts) (\<lambda>result.
     if result \<noteq> [] then ret result else throw (use_case_failure (''Failed to resolve '' @ domain_name)))"

section \<open>Packets\<close>

record icmp_packet =
  ic_query_code :: int
  ic_source :: string
  ic_destination :: string

definition is_icmp_packet_present :: "icmp_packet list \<Rightarrow> icmp_packet list \<Rightarrow> bool" where
  "is_icmp_packet_present captured_sequence expected_sequence =
     list_all (\<lambda>k. k \<noteq> None) (positions (\<lambda>e c. c = e) captured_sequence expected_sequence 0)"

definition verify_tunnel_packets :: "string list list \<Rightarrow> string list list \<Rightarrow> raised + bool" where
  "verify_tunnel_packets captured_sequence expected_sequence =
     map_sum id (list_all (\<lambda>r. r \<noteq> [])) (matched_rows captured_sequence expected_sequence)"

section \<open>Addresses and tables\<close>

definition is_client_ip_in_pool :: "nat \<times> nat \<Rightarrow> 'w node \<Rightarrow> ('w, bool) io" where
  "is_client_ip_in_pool pool_bounds client =
     seq (nd_ipv4 client (nd_iface client)) (\<lambda>text.
     case parse_ipv4 text of
       None \<Rightarrow> throw address_value_error
     | Some n \<Rightarrow> seq (lift_sum (ip_pool_to_list (fst pool_bounds) (snd pool_bounds))) (\<lambda>ip_range. ret (nat n \<in> set ip_range)))"

definition interface_mac_addr :: "linux_device \<Rightarrow> 'w node \<Rightarrow> (string \<Rightarrow> ('w, string) io) \<Rightarrow> string \<Rightarrow> ('w, string) io" where
  "interface_mac_addr d node software_mac interface =
     (if nd_is_board node then software_mac interface else get_interface_macaddr d (nd_console node) interface)"

definition iptables_list where "iptables_list node opts extra_opts = get_iptables_list (tools_of node) opts extra_opts"
definition ip6tables_list where "ip6tables_list node opts extra_opts = get_ip6tables_list (tools_of node) opts extra_opts"
definition iptable_empty where "iptable_empty node opts extra_opts = is_iptable_empty (tools_of node) opts extra_opts"
definition ip6table_empty where "ip6table_empty node opts extra_opts = is_ip6table_empty (tools_of node) opts extra_opts"
definition iptables_policy_of where "iptables_policy_of node opts extra_opts = get_iptables_policy (tools_of node) opts extra_opts"
definition ip6tables_policy_of where "ip6tables_policy_of node opts extra_opts = get_ip6tables_policy (tools_of node) opts extra_opts"

definition get_nslookup_data where
  "get_nslookup_data c domain_name opts extra_opts = nslookup c domain_name opts extra_opts"

text \<open>The sockets of a device, by its network utility; the three cases differ in their default options only.\<close>

definition netstat_case where
  "netstat_case node opts extra_opts = nw_netstat (tools_of node) opts extra_opts"

text \<open>The lines of the ARP table after the heading that have five columns, the first an address.\<close>

definition arp_rx :: rx where
  "arp_rx =
     cats [Grp 1 (cats [plus dgt, dot, plus dgt, dot, plus dgt, dot, plus dgt]), plus blank, Grp 2 (plus non_blank), plus blank,
           Grp 3 (plus non_blank), plus blank, Grp 4 (plus non_blank), plus blank, Grp 5 (plus non_blank)]"

definition arp_entry :: "match \<Rightarrow> (string, string) dict" where
  "arp_entry m =
     [(''address'', group 1 m), (''hw_type'', group 2 m), (''hw_address'', group 3 m), (''flags_mask'', group 4 m), (''iface'', group 5 m)]"

definition get_arp_table_info :: "'w lan \<Rightarrow> ('w, (string, string) dict list) io" where
  "get_arp_table_info l =
     seq (get_arp_table l) (\<lambda>out.
     ret (concat (map (\<lambda>entry. case re_search arp_rx entry of None \<Rightarrow> [] | Some m \<Rightarrow> [arp_entry m]) (drop 1 (splitlines out)))))"

section \<open>Sessions\<close>

text \<open>A flood of packets around a block, ended with it; a start that fails is ended with no process.\<close>

definition with_nping ::
  "'w console \<Rightarrow> string \<Rightarrow> bool \<Rightarrow> string \<Rightarrow> string \<Rightarrow> string \<Rightarrow> string \<Rightarrow> string \<Rightarrow> (string \<Rightarrow> ('w, 'a) io) \<Rightarrow> ('w, 'a) io" where
  "with_nping c interface_ip ipv6 extra_args port_range hit_count rate mode body w =
     (case start_nping c interface_ip ipv6 extra_args port_range hit_count rate mode w of
        (Inl e, w') \<Rightarrow> lastly (throw e) (stop_nping c []) w'
      | (Inr pid, w') \<Rightarrow> lastly (body pid) (stop_nping c pid) w')"

definition connect_command :: "string \<Rightarrow> string \<Rightarrow> string" where
  "connect_command user address =
     ''ssh -o StrictHostKeyChecking=no -o ConnectTimeout=5         -o UserKnownHostsFile=/dev/null '' @ user @ ''@'' @ address @ '' exit''"

text \<open>
  Whether a login by password works. A host that lets the user in without asking for one counts as not
  connected.
\<close>

definition login_prompts :: "pattern list" where
  "login_prompts = [Text ''assword:'', Text DEFAULT_BASH_SHELL_PROMPT_PATTERN]"

definition connect_via_ssh ::
  "'w console \<Rightarrow> ('w, string) io \<Rightarrow> ('w, string) io \<Rightarrow> int \<Rightarrow> string \<Rightarrow> string \<Rightarrow> ('w, bool) io" where
  "connect_via_ssh c to_ipv4 to_ipv6 protocol user pw =
     seq (if protocol = 4 then to_ipv4 else to_ipv6) (\<lambda>address.
     andthen (sp_sendline c (connect_command user address))
     (seq (sp_expect c login_prompts (-1)) (\<lambda>i.
     if i \<noteq> 0 then ret False
     else
       andthen (sp_sendline c pw)
       (seq (sp_expect c login_prompts (-1)) (\<lambda>j.
       if j = 0
       then andthen (sp_sendcontrol c ''c'') (andthen (at_prompt c [DEFAULT_BASH_SHELL_PROMPT_PATTERN] (-1)) (ret False))
       else
         seq (run_cmd c ''echo $?'') (\<lambda>code.
         if code \<noteq> ''0'' then throw (py_error PyException ''ConnectionError'' ''SSH not successful - needs troubleshooting.'')
         else ret True))))))"

section \<open>Properties\<close>

lemma tunnel_decided:
  assumes "[] \<notin> set rows" and "\<forall>p\<in>set packets. 4 \<le> length p"
  shows "verify_tunnel_packets rows packets = Inr (None \<notin> set (positions row_matches rows packets 0))"
proof -
  define row where "row k = (case k of Some i \<Rightarrow> rows ! i | None \<Rightarrow> [])" for k
  let ?ks = "positions row_matches rows packets 0"
  have m: "matched_rows rows packets = Inr (map row ?ks)"
    using assms(2) by (auto simp: matched_rows_def row_def list_ex_iff fun_eq_iff)
  have "row k \<noteq> [] \<longleftrightarrow> k \<noteq> None" if "k \<in> set ?ks" for k
  proof (cases k)
    case (Some i)
    with that positions_fit [of row_matches rows packets 0] have "i < length rows"
      by (auto simp: in_set_conv_nth list_all2_conv_all_nth fits_def)
    then show ?thesis using assms(1) Some by (auto simp: row_def dest: nth_mem)
  qed (simp add: row_def)
  then have "list_all (\<lambda>x. x \<noteq> []) (map row ?ks) \<longleftrightarrow> None \<notin> set ?ks" unfolding list_all_iff set_map ball_simps by metis
  then show ?thesis by (simp add: verify_tunnel_packets_def m)
qed

lemma icmp_decided: "is_icmp_packet_present captured expected \<longleftrightarrow> None \<notin> set (positions (\<lambda>e c. c = e) captured expected 0)"
  unfolding is_icmp_packet_present_def list_all_iff by metis



text \<open>A repeated packet need not appear twice.\<close>

lemma one_packet_serves_twice:
  "is_icmp_packet_present [p] [p, p]"
  by (simp add: is_icmp_packet_present_def)

text \<open>the server of the block is always stopped: whatever happens in the block, and also when the server
  does not start, stopping is what happens last, and an exception of the block comes out only when stopping
  succeeds.\<close>

theorem http_server_stopped:
  assumes "shown ip_version \<in> {''4'', ''6''}" and "stop_http_service c (shown port) w = (Inr (), w1)"
    and "with_http_server c port ip_version body w = (r, w')"
  shows "\<exists>w2. (stop_http_service c (shown port) w2 = (Inr (), w') \<and>
       seq (start_http_service c (shown port) (shown ip_version)) body w1 = (r, w2)) \<or>
    (\<exists>e. stop_http_service c (shown port) w2 = (Inl e, w') \<and> r = Inl e)"
proof -
  obtain r2 w2 where b: "seq (start_http_service c (shown port) (shown ip_version)) body w1 = (r2, w2)" by fastforce
  have v: "\<not> shown ip_version \<notin> {''4'', ''6''}" using assms(1) by blast
  have run: "with_http_server c port ip_version body w =
      lastly (seq (start_http_service c (shown port) (shown ip_version)) body) (stop_http_service c (shown port)) w1"
    using assms(2) unfolding with_http_server_def if_not_P [OF v] by (simp add: andthen_def seq_def)
  show ?thesis
    using assms(3) unfolding run lastly_def b Let_def prod.case
    by (cases "stop_http_service c (shown port) w2") (auto split: sum.splits intro!: exI [of _ w2] simp: b)
qed

theorem http_server_stopped_witness:
  "\<exists>r w2 w'. with_http_server (recorded (sample_device 0)) (JInt 80) (JInt 4) (\<lambda>_. ret ()) [] = (r, w') \<and>
     ((stop_http_service (recorded (sample_device 0)) ''80'' w2 = (Inr (), w') \<and>
        seq (start_http_service (recorded (sample_device 0)) ''80'' ''4'') (\<lambda>_. ret ()) [Executed (webfsd_ps ''80'') (-1)] = (r, w2)) \<or>
      (\<exists>e. stop_http_service (recorded (sample_device 0)) ''80'' w2 = (Inl e, w') \<and> r = Inl e))"
proof -
  let ?c = "recorded (sample_device 0)"
  have s: "splitlines [] = []" by code_simp
  have p: "shown (JInt 80) = ''80''" "shown (JInt 4) = ''4''" by code_simp+
  have stop: "stop_http_service ?c (shown (JInt 80)) [] = (Inr (), [Executed (webfsd_ps ''80'') (-1)])"
    unfolding p by (simp add: stop_http_service_def seq_def lists_nothing_def run_cmd_def ret_def sample_device_def s)
  have v: "shown (JInt 4) \<in> {''4'', ''6''}" unfolding p by simp
  obtain r w' where run: "with_http_server ?c (JInt 80) (JInt 4) (\<lambda>_. ret ()) [] = (r, w')" by fastforce
  from http_server_stopped [OF v stop run] run show ?thesis unfolding p by blast
qed

text \<open>A host that asks for no password is reported as unreachable.\<close>

lemma passwordless_refused:
  assumes "to_ipv4 w = (Inr a, w1)" and "sp_sendline c (connect_command user a) w1 = (Inr (), w2)"
    and "sp_expect c login_prompts (-1) w2 = (Inr 1, w3)"
  shows "connect_via_ssh c to_ipv4 to_ipv6 4 user pw w = (Inr False, w3)"
  using assms by (simp add: connect_via_ssh_def seq_def andthen_def ret_def)

text \<open>The client's address is in the pool exactly when it lies between the bounds.\<close>

lemma client_in_pool:
  assumes "nd_ipv4 client (nd_iface client) w = (Inr (show_ipv4 n), w')" and "0 \<le> n" and "n < 2 ^ 32"
    and "lo \<le> MAX_IPV4" and "hi < MAX_IPV4"
  shows "is_client_ip_in_pool (lo, hi) client w = (Inr (lo \<le> nat n \<and> nat n \<le> hi), w')"
  using assms parse_show_ipv4 [OF assms(2,3)]
  by (auto simp: is_client_ip_in_pool_def seq_def lift_sum_def ret_def ip_pool_to_list_def ip_pool_loop_upto)

end
