(* ===== verification/Traffic.thy ===== *)
theory Traffic
  imports Linux_Tools
begin

text \<open>
  Traffic between two devices (\<^verbatim>\<open>boardfarm3/use_cases/iperf.py\<close>, the generator of
  \<^verbatim>\<open>lib/dataclass/network_models.py\<close>). A device is the operations the use cases call; the locale states what
  they rely on, that a process reported as stopped is not listed any more, and the Linux device provides it.
\<close>

section \<open>Devices and generators\<close>

record traffic_request =
  tr_bind :: "string option"
  tr_version :: int
  tr_udp_only :: "bool option"

record sender_request = traffic_request +
  tr_direction :: "string option"
  tr_udp :: bool
  tr_time :: int
  tr_client_port :: "int option"

record 'w endpoint =
  ep_ipv4 :: "('w, string) io"
  ep_ipv6 :: "('w, string) io"
  ep_receive :: "int \<Rightarrow> traffic_request \<Rightarrow> ('w, int \<times> string) io"
  ep_send :: "string \<Rightarrow> int \<Rightarrow> sender_request \<Rightarrow> ('w, int \<times> string) io"
  ep_stop :: "int \<Rightarrow> ('w, bool) io"
  ep_logs :: "string \<Rightarrow> ('w, string) io"
  ep_link :: "string \<Rightarrow> string \<Rightarrow> ('w, unit) io"

record 'w generator =
  gn_sender :: "'w endpoint"
  gn_sender_pid :: "int option"
  gn_receiver :: "'w endpoint"
  gn_receiver_pid :: "int option"
  gn_server_log :: string
  gn_client_log :: string

text \<open>The Linux device as such a device.\<close>

definition json_text :: "string option \<Rightarrow> json" where
  "json_text x = (case x of None \<Rightarrow> JNull | Some s \<Rightarrow> JStr s)"

definition json_int :: "int option \<Rightarrow> json" where
  "json_int x = (case x of None \<Rightarrow> JNull | Some n \<Rightarrow> JInt n)"

definition linux_endpoint ::
  "string \<Rightarrow> (string \<Rightarrow> string list \<Rightarrow> ('w, 'w spawn) io) \<Rightarrow> (string \<Rightarrow> ('w, string) io) \<Rightarrow> (string \<Rightarrow> int \<Rightarrow> bool option) \<Rightarrow>
   linux_device \<Rightarrow> 'w console \<Rightarrow> 'w endpoint" where
  "linux_endpoint tempdir run_local read_text flag d c =
     \<lparr>ep_ipv4 = get_nw_interface_ipv4_address (Some c) (ld_eth d),
      ep_ipv6 = get_interface_ipv6addr flag (Some c) (ld_eth d),
      ep_receive = \<lambda>port q. start_traffic_receiver tempdir c port (json_text (tr_bind q)) (JInt (tr_version q)) (tr_udp_only q = Some True),
      ep_send = \<lambda>host port q.
        start_traffic_sender tempdir c host port (JInt 5) (json_text (tr_bind q)) (tr_direction q) (JInt (tr_version q)) (tr_udp q)
          (tr_time q) (json_int (tr_client_port q)) (tr_udp_only q = Some True),
      ep_stop = \<lambda>pid. stop_traffic c (Some pid),
      ep_logs = get_iperf_logs run_local read_text d,
      ep_link = set_link_state d c\<rparr>"

section \<open>Stopping\<close>

text \<open>A process number of zero counts as none, and so does a device that reports a failure.\<close>

definition live_pid :: "int option \<Rightarrow> int option" where
  "live_pid p = (case p of Some n \<Rightarrow> if n = 0 then None else Some n | None \<Rightarrow> None)"

definition stop_side :: "'w endpoint \<Rightarrow> int option \<Rightarrow> ('w, bool option) io" where
  "stop_side e pid = (case live_pid pid of None \<Rightarrow> ret None | Some n \<Rightarrow> seq (ep_stop e n) (\<lambda>b. ret (Some b)))"

definition shown_flag :: "bool option \<Rightarrow> string" where
  "shown_flag b = (case b of None \<Rightarrow> ''None'' | Some True \<Rightarrow> ''True'' | Some False \<Rightarrow> ''False'')"

definition cannot_kill :: "bool option \<Rightarrow> bool option \<Rightarrow> raised" where
  "cannot_kill sender receiver =
     use_case_failure (''('' @ py_repr ''Either Sender(Client) or Receiver(Server) process cannot be killed:'' @ '', '' @
       py_repr (''sender='' @ shown_flag sender @ '' - receiver='' @ shown_flag receiver) @ '')'')"

definition stop_iperf_traffic :: "'w generator \<Rightarrow> ('w, unit) io" where
  "stop_iperf_traffic g =
     seq (stop_side (gn_sender g) (gn_sender_pid g)) (\<lambda>sender.
     seq (stop_side (gn_receiver g) (gn_receiver_pid g)) (\<lambda>receiver.
     if (live_pid (gn_sender_pid g) \<noteq> None \<and> sender \<noteq> Some True) \<or> (live_pid (gn_receiver_pid g) \<noteq> None \<and> receiver \<noteq> Some True)
     then throw (cannot_kill sender receiver)
     else ret ()))"

section \<open>Starting\<close>

text \<open>
  The receiver listens on the destination port, the port of the source when none is given; the sender is
  told the port of the source. A sender that does not start is answered by stopping the receiver, whose
  number the generator keeps.
\<close>

definition is_code_error :: "raised \<Rightarrow> bool" where
  "is_code_error e \<longleftrightarrow> rx_class e = CodeError"

record iperf_request =
  iq_port :: int
  iq_time :: int
  iq_udp :: bool
  iq_direction :: "string option"
  iq_destination_port :: "int option"
  iq_bind_sender :: "string option"
  iq_bind_receiver :: "string option"
  iq_destination_ip :: "string option"
  iq_client_port :: "int option"
  iq_udp_only :: "bool option"

definition receiver_port :: "iperf_request \<Rightarrow> int" where
  "receiver_port q = (case iq_destination_port q of None \<Rightarrow> iq_port q | Some p \<Rightarrow> p)"

definition receive_request :: "int \<Rightarrow> iperf_request \<Rightarrow> traffic_request" where
  "receive_request version q = \<lparr>tr_bind = iq_bind_receiver q, tr_version = version, tr_udp_only = iq_udp_only q\<rparr>"

definition send_request :: "int \<Rightarrow> iperf_request \<Rightarrow> sender_request" where
  "send_request version q =
     \<lparr>tr_bind = iq_bind_sender q, tr_version = version, tr_udp_only = iq_udp_only q, tr_direction = iq_direction q,
      tr_udp = iq_udp q, tr_time = iq_time q, tr_client_port = iq_client_port q\<rparr>"

definition start_iperf :: "int \<Rightarrow> ('w endpoint \<Rightarrow> ('w, string) io) \<Rightarrow> 'w endpoint \<Rightarrow> 'w endpoint \<Rightarrow> iperf_request \<Rightarrow> ('w, 'w generator) io" where
  "start_iperf version address source destination q =
     seq (case iq_destination_ip q of None \<Rightarrow> address destination | Some ip \<Rightarrow> ret ip) (\<lambda>dest_ip.
     seq (ep_receive destination (receiver_port q) (receive_request version q)) (\<lambda>(dest_pid, server_log).
     seq
       (catch
          (seq (ep_send source dest_ip (iq_port q) (send_request version q)) (\<lambda>(pid, log). ret (Some pid, log)))
          is_code_error
          (\<lambda>_. andthen
             (stop_iperf_traffic
                \<lparr>gn_sender = source, gn_sender_pid = None, gn_receiver = destination, gn_receiver_pid = Some dest_pid,
                 gn_server_log = [], gn_client_log = []\<rparr>)
             (ret (None, []))))
       (\<lambda>(source_pid, client_log).
        ret \<lparr>gn_sender = source, gn_sender_pid = source_pid, gn_receiver = destination, gn_receiver_pid = Some dest_pid,
             gn_server_log = server_log, gn_client_log = client_log\<rparr>)))"

definition start_iperf_ipv4 :: "'w endpoint \<Rightarrow> 'w endpoint \<Rightarrow> iperf_request \<Rightarrow> ('w, 'w generator) io" where
  "start_iperf_ipv4 = start_iperf 4 ep_ipv4"

definition start_iperf_ipv6 :: "'w endpoint \<Rightarrow> 'w endpoint \<Rightarrow> iperf_request \<Rightarrow> ('w, 'w generator) io" where
  "start_iperf_ipv6 = start_iperf 6 ep_ipv6"

text \<open>The directions: no client port, and the option for it.\<close>

definition directed :: "string \<Rightarrow> iperf_request \<Rightarrow> iperf_request" where
  "directed option q = q\<lparr>iq_direction := Some option, iq_client_port := None\<rparr>"

definition start_iperf_ipv4_bidirectional where
  "start_iperf_ipv4_bidirectional source destination q = start_iperf_ipv4 source destination (directed ''--bidir'' q)"

definition start_iperf_ipv6_bidirectional where
  "start_iperf_ipv6_bidirectional source destination q = start_iperf_ipv6 source destination (directed ''--bidir'' q)"

definition start_iperf_ipv4_downstream where
  "start_iperf_ipv4_downstream source destination q = start_iperf_ipv4 source destination (directed ''--reverse'' q)"

definition start_iperf_ipv6_downstream where
  "start_iperf_ipv6_downstream source destination q = start_iperf_ipv6 source destination (directed ''--reverse'' q)"

definition set_device_interface_state :: "'w endpoint \<Rightarrow> string \<Rightarrow> string \<Rightarrow> ('w, unit) io" where
  "set_device_interface_state device interface action = ep_link device interface action"

section \<open>Logs\<close>

definition iperf_logs_of :: "'w generator \<Rightarrow> ('w, (string, string) dict) io" where
  "iperf_logs_of g =
     seq (ep_logs (gn_receiver g) (gn_server_log g)) (\<lambda>server_logs.
     seq (ep_logs (gn_sender g) (gn_client_log g)) (\<lambda>client_logs.
     ret [(''client_logs'', client_logs), (''server_logs'', server_logs)]))"

definition decimal :: rx where
  "decimal = plus (Cls (\<lambda>c. is_digit c \<or> c = CHR ''.''))"

definition log_rx :: "rx \<Rightarrow> rx" where
  "log_rx search_pattern =
     cats [Grp 1 (cats [decimal, chr (CHR ''-''), decimal]), plus blank, lit ''sec'', plus blank,
           Grp 2 (cats [decimal, plus blank, opt wordc, lit ''Bytes'']), plus blank,
           Grp 3 (cats [decimal, plus blank, opt wordc, lit ''bits/sec'']), plus blank, search_pattern]"

definition log_end :: "bool \<Rightarrow> bool option \<Rightarrow> rx" where
  "log_end is_client_log udp_only =
     (if udp_only = Some True then Eps
      else if is_client_log then cats [plus dgt, plus blank, lit ''sender''] else lit ''receiver'')"

definition parse_iperf_logs :: "string \<Rightarrow> bool \<Rightarrow> bool option \<Rightarrow> raised + (string, string) dict" where
  "parse_iperf_logs iperf_logs is_client_log udp_only =
     (case re_search (log_rx (log_end is_client_log udp_only)) iperf_logs of
        None \<Rightarrow> Inl (use_case_failure ''Sender / Receiver data not found in the output.'')
      | Some m \<Rightarrow> Inr [(''Interval'', group 1 m), (''Transfer'', group 2 m), (''Bitrate'', group 3 m)])"

section \<open>The contract of a device\<close>

text \<open>\<open>gone n w\<close> says that process \<open>n\<close> is not listed in world \<open>w\<close>.\<close>

locale traffic_device =
  fixes e :: "'w endpoint" and gone :: "int \<Rightarrow> 'w \<Rightarrow> bool"
  assumes stop_true: "n \<noteq> 0 \<Longrightarrow> ep_stop e n w = (Inr True, w') \<Longrightarrow> gone n w'"
begin

lemma stop_side_true: "stop_side e (Some n) w = (Inr b, w') \<Longrightarrow> n \<noteq> 0 \<Longrightarrow> b = Some True \<Longrightarrow> gone n w'"
  by (auto simp: stop_side_def live_pid_def seq_ok intro: stop_true)

lemma receiver_stopped:
  assumes "stop_iperf_traffic g w = (Inr (), w')" and "gn_receiver g = e" and "gn_receiver_pid g = Some n" and "n \<noteq> 0"
  shows "gone n w'"
proof -
  obtain s r w1 where "stop_side (gn_receiver g) (gn_receiver_pid g) w1 = (Inr r, w')"
    "\<not> ((live_pid (gn_sender_pid g) \<noteq> None \<and> s \<noteq> Some True) \<or> (live_pid (gn_receiver_pid g) \<noteq> None \<and> r \<noteq> Some True))"
    using assms(1) by (auto simp: stop_iperf_traffic_def seq_ok split: if_splits)
  moreover have "live_pid (gn_receiver_pid g) \<noteq> None" using assms(3,4) by (simp add: live_pid_def)
  ultimately show ?thesis using assms(2,3,4) stop_side_true [of n w1 r w'] by auto
qed

text \<open>A generator without a sender has no receiver running.\<close>

lemma no_sender_no_receiver:
  assumes "start_iperf v address source e q w = (Inr g, w')" and "gn_sender_pid g = None"
  shows "\<exists>n. gn_receiver_pid g = Some n \<and> (n = 0 \<or> gone n w')"
proof -
  obtain n w1 where "gn_receiver_pid g = Some n" and "stop_iperf_traffic
       \<lparr>gn_sender = source, gn_sender_pid = None, gn_receiver = e, gn_receiver_pid = Some n, gn_server_log = [], gn_client_log = []\<rparr> w1
       = (Inr (), w')"
    using assms unfolding start_iperf_def by (fastforce simp: seq_ok catch_ok andthen_ok)
  then show ?thesis using receiver_stopped by (cases "n = 0") auto
qed

end

text \<open>
  The Linux device stops a process and looks for its number in the list: the contract holds of it, with
  the list it was last shown.
\<close>

definition unlisted :: "answers \<Rightarrow> int \<Rightarrow> action list \<Rightarrow> bool" where
  "unlisted d n tr \<longleftrightarrow> (\<exists>out. dv_output d tr = Inr out \<and> \<not> str_in (int_str n) out)"

lemma stop_traffic_unlisted:
  "n \<noteq> 0 \<Longrightarrow> stop_traffic (recorded d) (Some n) w = (Inr True, w') \<Longrightarrow> unlisted d n w'"
  by (auto simp: stop_traffic_def Let_def seq_ok andthen_ok run_cmd_def do_cmd_ok unlisted_def)

interpretation linux_traffic: traffic_device "linux_endpoint tempdir run_local read_text flag dev (recorded d)" "unlisted d"
  by unfold_locales (auto simp: linux_endpoint_def intro: stop_traffic_unlisted)

section \<open>Properties\<close>

text \<open>a failed sender leaves no receiver: between Linux devices, whatever they answer, a generator that is
  returned without a sender names a receiver that was stopped and is no longer in the list of processes the
  device last showed.\<close>

theorem failed_sender_stops_receiver:
  assumes "start_iperf_ipv4 source (linux_endpoint tempdir run_local read_text flag dev (recorded d)) q w = (Inr g, w')"
    and "gn_sender_pid g = None"
  shows "\<exists>n. gn_receiver_pid g = Some n \<and> (n = 0 \<or> unlisted d n w')"
  using linux_traffic.no_sender_no_receiver [OF assms(1) [unfolded start_iperf_ipv4_def] assms(2)] .

definition listing_device :: answers where
  "listing_device = (sample_device 0)\<lparr>dv_output := \<lambda>tr. Inr
     (if length tr = 2 then ''root 47 1 iperf3 -s -p 80''
      else if length tr = 4 then ''root 47 Exit 1'' else [])\<rparr>"

definition sample_request :: iperf_request where
  "sample_request =
     \<lparr>iq_port = 80, iq_time = 10, iq_udp = False, iq_direction = None, iq_destination_port = None, iq_bind_sender = None,
      iq_bind_receiver = None, iq_destination_ip = Some ''10.0.0.1'', iq_client_port = None, iq_udp_only = None\<rparr>"

theorem failed_sender_stops_receiver_witness:
  "\<exists>g w'. start_iperf_ipv4 (linux_endpoint [] (\<lambda>_ _. throw type_error) (\<lambda>_. ret []) (\<lambda>_ _. None) sample_linux (recorded listing_device))
       (linux_endpoint [] (\<lambda>_ _. throw type_error) (\<lambda>_. ret []) (\<lambda>_ _. None) sample_linux (recorded listing_device)) sample_request []
       = (Inr g, w') \<and> gn_sender_pid g = None \<and> gn_receiver_pid g = Some 47 \<and> unlisted listing_device 47 w'"
proof -
  let ?c = "recorded listing_device"
  let ?e = "linux_endpoint [] (\<lambda>_ _. throw type_error) (\<lambda>_. ret []) (\<lambda>_ _. None) sample_linux ?c"
  define first where "first = ''root 47 1 iperf3 -s -p 80''"
  define second where "second = ''root 47 Exit 1''"
  have strs: "str_in (''iperf'' @ ''3'') first" "\<not> str_in ''Exit 1'' first" "listed_pid ('' -p '' @ int_str 80) first = Inr 47"
    "str_in ''Exit 1'' second" "int_str 47 \<noteq> []"
    unfolding first_def second_def by code_simp+
  have out: "dv_output listing_device tr = Inr (if length tr = 2 then first else if length tr = 4 then second else [])" for tr
    by (simp add: listing_device_def first_def second_def)
  have run: "run_cmd ?c s tr = (Inr (if length tr = 1 then first else if length tr = 3 then second else []), tr @ [Executed s (-1)])" for s tr
    by (simp add: run_cmd_def out del: One_nat_def)
  have do': "do_cmd ?c s tr = (Inr (), tr @ [Executed s (-1)])" for s tr
    by (simp only: do_cmd_def seq_def run prod.case sum.case ret_def)
  have rec: "\<exists>tr log. start_traffic_receiver [] ?c 80 b (JInt 4) False [] = (Inr (47, log), tr) \<and> length tr = 2" for b
    unfolding start_traffic_receiver_def Let_def started_pid_def if_False
    by (simp add: andthen_def seq_def do' run lift_sum_def ret_def strs del: append.simps)
  have snd': "\<exists>e tr'. start_traffic_sender [] ?c h 80 w b dir v udp t cp False tr = (Inl e, tr') \<and> is_code_error e \<and> length tr' = 4"
    if "length tr = 2" for h w b dir v udp t cp tr
    unfolding start_traffic_sender_def Let_def if_False
    by (simp add: andthen_def seq_def do' run lift_sum_def ret_def strs that throw_def is_code_error_def code_error_def py_error_def del: append.simps)
  have stop: "\<exists>tr'. stop_traffic ?c (Some 47) tr = (Inr True, tr')" if "length tr = 4" for tr
    unfolding stop_traffic_def Let_def by (simp add: andthen_def seq_def do' run ret_def strs that del: append.simps)
  obtain tr log where r: "start_traffic_receiver [] ?c 80 JNull (JInt 4) False [] = (Inr (47, log), tr)" "length tr = 2"
    using rec by blast
  obtain e tr' where s: "start_traffic_sender [] ?c ''10.0.0.1'' 80 (JInt 5) JNull None (JInt 4) False 10 JNull False tr = (Inl e, tr')"
      "is_code_error e" "length tr' = 4"
    using snd' [OF r(2)] by blast
  obtain tr'' where k: "stop_traffic ?c (Some 47) tr' = (Inr True, tr'')" using stop [OF s(3)] by blast
  have "\<exists>g. start_iperf_ipv4 ?e ?e sample_request [] = (Inr g, tr'') \<and> gn_sender_pid g = None \<and> gn_receiver_pid g = Some 47"
    using r(1) s(1,2) k
    by (simp add: start_iperf_ipv4_def start_iperf_def seq_def sample_request_def linux_endpoint_def receiver_port_def
        receive_request_def send_request_def json_text_def json_int_def catch_def andthen_def ret_def stop_iperf_traffic_def
        stop_side_def live_pid_def)
  then obtain g where g: "start_iperf_ipv4 ?e ?e sample_request [] = (Inr g, tr'')" "gn_sender_pid g = None" "gn_receiver_pid g = Some 47"
    by blast
  from failed_sender_stops_receiver [OF g(1,2)] g show ?thesis by auto
qed

end
