(* ===== verification/Compose.thy ===== *)
theory Compose
  imports Py_Values Net_Text IP_Address "HOL-Library.Multiset"
begin

text \<open>
  The compose file of the docker factory (\<^verbatim>\<open>boardfarm3/lib/docker_factory/docker_compose_generator.py\<close>). The
  templates are a parameter, \<open>template\<close>, that gives the contents of the file for a device, the base for no
  device, and nothing where there is no file; \<open>merge\<close> is \<^verbatim>\<open>jsonmerge.merge\<close>, \<open>merge_deep\<close> the same with the
  schema \<^verbatim>\<open>_merge_dicts\<close> gives it.
\<close>

section \<open>The devices an environment asks for\<close>

definition is_obj :: "json \<Rightarrow> bool" where
  "is_obj v = (case v of JObj _ \<Rightarrow> True | _ \<Rightarrow> False)"

text \<open>Sequencing computations that may raise, and collecting what they give.\<close>

definition then_append :: "raised + 'a list \<Rightarrow> raised + 'a list \<Rightarrow> raised + 'a list" where
  "then_append r s = (case r of Inl e \<Rightarrow> Inl e | Inr xs \<Rightarrow> map_sum id (\<lambda>ys. xs @ ys) s)"

text \<open>
  The names in the order of the search: every key that holds a list, in lower case, except \<^verbatim>\<open>BOARD\<close> and
  \<^verbatim>\<open>device_options\<close>, of whose lists the first entry is searched.
\<close>

fun get_devices :: "json \<Rightarrow> raised + string list" and
  devices_of_pairs :: "(string \<times> json) list \<Rightarrow> raised + string list" where
  "get_devices (JObj ps) = devices_of_pairs ps"
| "get_devices _ = Inl attribute_error"
| "devices_of_pairs [] = Inr []"
| "devices_of_pairs ((key, v) # ps) =
     then_append
       (case v of
          JObj qs \<Rightarrow> if \<not> dict_mem ''device_type'' qs \<and> key \<noteq> ''BOARD'' then devices_of_pairs qs else Inr []
        | JList [] \<Rightarrow> if key \<in> {''BOARD'', ''device_options''} then Inr [] else Inr [lower key]
        | JList (x # xs) \<Rightarrow> if key \<in> {''BOARD'', ''device_options''} then get_devices x else Inr [lower key]
        | _ \<Rightarrow> Inr [])
       (devices_of_pairs ps)"

definition py_len :: "json \<Rightarrow> raised + nat" where
  "py_len v = (case v of JList xs \<Rightarrow> Inr (length xs) | JObj ps \<Rightarrow> Inr (length ps) | JStr s \<Rightarrow> Inr (length s) | _ \<Rightarrow> Inl type_error)"

definition add_count :: "raised + nat \<Rightarrow> raised + nat \<Rightarrow> raised + nat" where
  "add_count r s = (case r of Inl e \<Rightarrow> Inl e | Inr n \<Rightarrow> map_sum id (\<lambda>m. n + m) s)"

fun recursive_count :: "string \<Rightarrow> json \<Rightarrow> raised + nat" and
  count_items :: "string \<Rightarrow> json list \<Rightarrow> raised + nat" and
  count_pairs :: "string \<Rightarrow> (string \<times> json) list \<Rightarrow> raised + nat" where
  "recursive_count name (JList xs) = count_items name xs"
| "recursive_count name (JObj ps) =
     add_count (case dict_get ps name of None \<Rightarrow> Inr 0 | Some v \<Rightarrow> py_len v) (count_pairs name ps)"
| "recursive_count name _ = Inr 0"
| "count_items name [] = Inr 0"
| "count_items name (x # xs) = add_count (recursive_count name x) (count_items name xs)"
| "count_pairs name [] = Inr 0"
| "count_pairs name ((k, v) # ps) = add_count (recursive_count name v) (count_pairs name ps)"

definition requested_device_count :: "json \<Rightarrow> string \<Rightarrow> raised + nat" where
  "requested_device_count env_config device_name = recursive_count device_name env_config"

section \<open>The service of one device\<close>

text \<open>Replacing every value that is the text, whole; the keys stay.\<close>

fun replace_value :: "string \<Rightarrow> string \<Rightarrow> json \<Rightarrow> json" and
  replace_items :: "string \<Rightarrow> string \<Rightarrow> json list \<Rightarrow> json list" and
  replace_pairs :: "string \<Rightarrow> string \<Rightarrow> (string \<times> json) list \<Rightarrow> (string \<times> json) list" where
  "replace_value a b (JList xs) = JList (replace_items a b xs)"
| "replace_value a b (JObj ps) = JObj (replace_pairs a b ps)"
| "replace_value a b v = (if v = JStr a then JStr b else v)"
| "replace_items a b [] = []"
| "replace_items a b (x # xs) = replace_value a b x # replace_items a b xs"
| "replace_pairs a b [] = []"
| "replace_pairs a b ((k, v) # ps) = (k, replace_value a b v) # replace_pairs a b ps"

definition update_port :: "int \<Rightarrow> json \<Rightarrow> raised + json" where
  "update_port increment mapping =
     (case mapping of
        JStr s \<Rightarrow>
          (case split_on (CHR '':'') s of
             [] \<Rightarrow> Inl index_error
           | host # rest \<Rightarrow>
               (case int_of_text host of
                  Inl e \<Rightarrow> Inl e
                | Inr n \<Rightarrow> (case rest of [] \<Rightarrow> Inl index_error | c # _ \<Rightarrow> Inr (JStr (int_str (n + increment) @ '':'' @ c)))))
      | _ \<Rightarrow> Inl attribute_error)"

fun update_ports :: "int \<Rightarrow> json list \<Rightarrow> raised + json list" where
  "update_ports increment [] = Inr []"
| "update_ports increment (m # ms) =
     (case update_port increment m of Inl e \<Rightarrow> Inl e | Inr p \<Rightarrow> map_sum id (\<lambda>ps. p # ps) (update_ports increment ms))"

text \<open>Reading and writing below a key; a value without keys is a \<^verbatim>\<open>TypeError\<close>.\<close>

definition entry_at :: "json \<Rightarrow> string \<Rightarrow> raised + json" where
  "entry_at v k =
     (case v of JObj ps \<Rightarrow> (case dict_get ps k of None \<Rightarrow> Inl (key_error k) | Some w \<Rightarrow> Inr w) | _ \<Rightarrow> Inl type_error)"

definition with_entry :: "json \<Rightarrow> string \<Rightarrow> json \<Rightarrow> json" where
  "with_entry v k w = (case v of JObj ps \<Rightarrow> JObj (dict_set k w ps) | _ \<Rightarrow> v)"

definition without_entry :: "json \<Rightarrow> string \<Rightarrow> json" where
  "without_entry v k = (case v of JObj ps \<Rightarrow> JObj (dict_pop k ps) | _ \<Rightarrow> v)"

definition andalso :: "raised + 'a \<Rightarrow> ('a \<Rightarrow> raised + 'b) \<Rightarrow> raised + 'b" where
  "andalso r f = (case r of Inl e \<Rightarrow> Inl e | Inr x \<Rightarrow> f x)"

definition numbered :: "string \<Rightarrow> nat \<Rightarrow> string" where
  "numbered name i = name @ nat_str (i + 1)"

text \<open>
  The service of the \<open>i\<close>-th device: its values renamed, its host ports moved by \<open>i\<close>, and the service under
  its own name. A template that is not a dictionary leaves nothing to merge.
\<close>

definition device_service :: "string \<Rightarrow> json \<Rightarrow> nat \<Rightarrow> raised + json option" where
  "device_service name tmpl i =
     (let base = replace_value name (numbered name i) tmpl
      in andalso
          (if name = ''ext_voip''
           then andalso (entry_at base ''services'') (\<lambda>services. andalso (entry_at services name) (\<lambda>s.
                Inr (with_entry base ''services'' (with_entry services name (replace_value (numbered name i) (numbered ''softphone'' i) s)))))
           else Inr base)
          (\<lambda>base.
         if \<not> is_obj base then Inr None
         else
           andalso (entry_at base ''services'') (\<lambda>services.
           andalso (entry_at services name) (\<lambda>s.
           andalso (entry_at s ''ports'') (\<lambda>ports.
           andalso (case ports of JList ps \<Rightarrow> update_ports (int i) ps | _ \<Rightarrow> Inl type_error) (\<lambda>ps.
           Inr (Some (with_entry base ''services''
                  (with_entry (without_entry services name) (numbered name i) (with_entry s ''ports'' (JList ps)))))))))))"

fun merge_services :: "(json \<Rightarrow> json \<Rightarrow> raised + json) \<Rightarrow> string \<Rightarrow> json \<Rightarrow> nat list \<Rightarrow> json \<Rightarrow> raised + json" where
  "merge_services merge name tmpl [] acc = Inr acc"
| "merge_services merge name tmpl (i # is) acc =
     andalso (device_service name tmpl i) (\<lambda>s.
     andalso (case s of None \<Rightarrow> Inr acc | Some v \<Rightarrow> merge acc v) (merge_services merge name tmpl is))"

definition generate_device_compose ::
  "(string option \<Rightarrow> json option) \<Rightarrow> (json \<Rightarrow> json \<Rightarrow> raised + json) \<Rightarrow> json \<Rightarrow> string \<Rightarrow> raised + json" where
  "generate_device_compose template merge env_config device_name =
     (case template (Some device_name) of
        None \<Rightarrow> Inr (JObj [])
      | Some tmpl \<Rightarrow>
          andalso (requested_device_count env_config (map upper_char device_name)) (\<lambda>n.
          merge_services merge device_name tmpl [0..<n] (JObj [])))"

section \<open>The whole file\<close>

definition file_missing :: raised where
  "file_missing = py_error PyException ''FileNotFoundError'' []"

text \<open>The lexicographic order of \<^verbatim>\<open>sorted\<close>.\<close>

fun text_le :: "string \<Rightarrow> string \<Rightarrow> bool" where
  "text_le [] t = True"
| "text_le (c # s) [] = False"
| "text_le (c # s) (d # t) = ((of_char c :: nat) < of_char d \<or> (c = d \<and> text_le s t))"

fun insert_text :: "string \<Rightarrow> string list \<Rightarrow> string list" where
  "insert_text s [] = [s]"
| "insert_text s (t # ts) = (if text_le s t then s # t # ts else t # insert_text s ts)"

definition sorted_texts :: "string list \<Rightarrow> string list" where
  "sorted_texts ss = foldr insert_text ss []"

definition generate_orchestrator_compose :: "(string option \<Rightarrow> json option) \<Rightarrow> string list \<Rightarrow> raised + json" where
  "generate_orchestrator_compose template device_list =
     (case template (Some ''orchestrator'') of
        None \<Rightarrow> Inl file_missing
      | Some orchestrator \<Rightarrow>
          if ''orchestrator'' \<notin> set device_list then Inl (value_error ''list.remove(x): x not in list'')
          else
            andalso (entry_at orchestrator ''services'') (\<lambda>services.
            andalso (entry_at services ''orchestrator'') (\<lambda>o'.
            Inr (with_entry orchestrator ''services'' (with_entry services ''orchestrator''
                   (with_entry o' ''depends_on'' (JList (map JStr (sorted_texts (remove1 ''orchestrator'' device_list))))))))))"

text \<open>Dictionaries are merged from the left, starting with the empty one.\<close>

definition merge_dicts :: "(json \<Rightarrow> json \<Rightarrow> raised + json) \<Rightarrow> json list \<Rightarrow> raised + json" where
  "merge_dicts merge_deep vs = fold (\<lambda>v acc. andalso acc (\<lambda>m. merge_deep m v)) vs (Inr (JObj []))"

fun merge_devices ::
  "(string option \<Rightarrow> json option) \<Rightarrow> (json \<Rightarrow> json \<Rightarrow> raised + json) \<Rightarrow> (json \<Rightarrow> json \<Rightarrow> raised + json) \<Rightarrow>
   json \<Rightarrow> string list \<Rightarrow> json \<Rightarrow> raised + json" where
  "merge_devices template merge merge_deep env_config [] acc = Inr acc"
| "merge_devices template merge merge_deep env_config (d # ds) acc =
     andalso (generate_device_compose template merge env_config d) (\<lambda>v.
     andalso (merge_dicts merge_deep [acc, v]) (merge_devices template merge merge_deep env_config ds))"

definition service_names :: "json \<Rightarrow> raised + string list" where
  "service_names v =
     andalso (entry_at v ''services'') (\<lambda>s. case s of JObj ps \<Rightarrow> Inr (dict_keys ps) | _ \<Rightarrow> Inl attribute_error)"

definition generate_docker_compose ::
  "(string option \<Rightarrow> json option) \<Rightarrow> (json \<Rightarrow> json \<Rightarrow> raised + json) \<Rightarrow> (json \<Rightarrow> json \<Rightarrow> raised + json) \<Rightarrow>
   json \<Rightarrow> raised + json" where
  "generate_docker_compose template merge merge_deep env_config =
     andalso (get_devices env_config) (\<lambda>devices.
     case template None of
       None \<Rightarrow> Inl file_missing
     | Some base \<Rightarrow>
         andalso (merge_devices template merge merge_deep env_config (sorted_texts devices) base) (\<lambda>compose.
         andalso (service_names compose) (\<lambda>names.
         andalso (generate_orchestrator_compose template names) (merge compose))))"

section \<open>Properties\<close>

lemma andalso_ok: "andalso r f = Inr y \<longleftrightarrow> (\<exists>x. r = Inr x \<and> f x = Inr y)"
  by (auto simp: andalso_def split: sum.splits)

lemma andalso_assoc: "andalso (andalso r f) g = andalso r (\<lambda>x. andalso (f x) g)"
  by (auto simp: andalso_def split: sum.splits)

lemma mset_insert_text: "mset (insert_text s ts) = add_mset s (mset ts)"
  by (induction ts) auto

lemma mset_sorted_texts: "mset (sorted_texts ss) = mset ss"
  by (induction ss) (auto simp: sorted_texts_def mset_insert_text)

lemma text_le_total: "text_le s t \<or> text_le t s"
proof (induction s t rule: text_le.induct)
  case (3 c s d t)
  have "(of_char c :: nat) = of_char d \<Longrightarrow> c = d" by simp
  then show ?case using 3 by (auto simp: not_less_iff_gr_or_eq)
qed auto

lemma text_le_trans: "text_le s t \<Longrightarrow> text_le t u \<Longrightarrow> text_le s u"
proof (induction s t arbitrary: u rule: text_le.induct)
  case (3 c s d t)
  then show ?case by (cases u) auto
qed auto

lemma sorted_insert_text: "sorted_wrt text_le ts \<Longrightarrow> sorted_wrt text_le (insert_text s ts)"
proof (induction ts)
  case (Cons t ts)
  have "set (insert_text s ts) = insert s (set ts)"
    by (metis mset_insert_text set_mset_add_mset_insert set_mset_mset)
  then show ?case using Cons text_le_total [of s t] by (auto intro: text_le_trans)
qed simp

lemma sorted_sorted_texts: "sorted_wrt text_le (sorted_texts ss)"
  by (induction ss) (auto simp: sorted_texts_def sorted_insert_text)

lemma set_insert_text: "set (insert_text s ts) = insert s (set ts)"
  by (induction ts) auto

text \<open>A port mapping: the port of the host moves, the port of the container stays.\<close>

lemma int_of_nat_str: "int_of_text (nat_str n) = Inr (int n)"
proof -
  have d: "list_all is_digit (nat_str n)" "nat_str n \<noteq> []" by (rule nat_str_is_digit nat_str_ne)+
  obtain c s where s: "nat_str n = c # s" using d(2) by (cases "nat_str n") auto
  have plain: "x \<notin> set whitespace \<and> x \<noteq> CHR ''-'' \<and> x \<noteq> CHR ''+'' \<and> x \<noteq> CHR ''_''" if "x \<in> set (nat_str n)" for x
    using d(1) that by (auto simp: list_all_iff is_digit_def whitespace_def)
  have "hd (nat_str n) \<in> set (nat_str n)" "last (nat_str n) \<in> set (nat_str n)" using d(2) by simp_all
  then have strip: "strip whitespace (nat_str n) = nat_str n"
    using plain d(2) s by (auto simp: strip_def lstrip_def rstrip_id)
  have "CHR ''_'' \<notin> set (nat_str n)" using plain by blast
  then have "split_on (CHR ''_'') (nat_str n) = [nat_str n]" by (rule split_on_single)
  then have "py_int (nat_str n) = Some (int n)"
    using strip d plain [of c] s digits_val_nat_str [of n] by (simp add: py_int_def)
  then show ?thesis by (simp add: int_of_text_def)
qed

lemma update_port_moves:
  assumes "CHR '':'' \<notin> set c"
  shows "update_port (int i) (JStr (nat_str h @ '':'' @ c)) = Inr (JStr (nat_str (h + i) @ '':'' @ c))"
proof -
  have "CHR '':'' \<notin> set (nat_str h)" using nat_str_is_digit [of h] by (auto simp: list_all_iff is_digit_def)
  then have "split_on (CHR '':'') (nat_str h @ '':'' @ c) = [nat_str h, c]"
    using split_on_append [of "CHR '':''" "nat_str h" c] split_on_single [OF assms] by simp
  moreover have "int_str (int h + int i) = nat_str (h + i)"
    using int_str_nonneg [of "int h + int i"] by (simp add: nat_add_distrib)
  ultimately show ?thesis by (simp add: update_port_def int_of_nat_str)
qed

definition mapping :: "nat \<times> string \<Rightarrow> json" where
  "mapping p = JStr (nat_str (fst p) @ '':'' @ snd p)"

lemma update_ports_move:
  "\<forall>p\<in>set ms. CHR '':'' \<notin> set (snd p) \<Longrightarrow>
   update_ports (int i) (map mapping ms) = Inr (map (\<lambda>p. mapping (fst p + i, snd p)) ms)"
  by (induction ms) (auto simp: mapping_def update_port_moves [simplified])

lemma get_replaced: "dict_get (replace_pairs a b ps) k = map_option (replace_value a b) (dict_get ps k)"
  by (induction ps) auto

lemma entry_replaced: "entry_at (replace_value a b v) k = map_sum id (replace_value a b) (entry_at v k)"
  by (cases v) (auto simp: entry_at_def get_replaced split: option.splits)

lemma replace_mappings: "CHR '':'' \<notin> set a \<Longrightarrow> replace_items a b (map mapping ms) = map mapping ms"
  by (induction ms) (auto simp: mapping_def)

lemma entry_of_dict: "entry_at v k = Inr w \<longleftrightarrow> (\<exists>ps. v = JObj ps \<and> dict_get ps k = Some w)"
  by (cases v) (auto simp: entry_at_def split: option.splits)

text \<open>the devices of one kind do not share a port of the host: the service of the \<open>i\<close>-th device has the
  container ports of the template, each at the host port of the template plus \<open>i\<close>, and stands under the
  name with its number, not under the name of the template.\<close>

theorem device_service_ports:
  assumes "device_service name tmpl i = Inr (Some v)" and "name \<noteq> ''ext_voip''" and "CHR '':'' \<notin> set name"
    and "entry_at tmpl ''services'' = Inr services" and "entry_at services name = Inr s"
    and "entry_at s ''ports'' = Inr (JList (map mapping ms))" and "\<forall>p\<in>set ms. CHR '':'' \<notin> set (snd p)"
  shows "\<exists>services' s'. entry_at v ''services'' = Inr services' \<and> entry_at services' (numbered name i) = Inr s' \<and>
    entry_at s' ''ports'' = Inr (JList (map (\<lambda>p. mapping (fst p + i, snd p)) ms)) \<and>
    entry_at services' name = Inl (key_error name)"
proof -
  let ?r = "replace_value name (numbered name i)"
  have n: "numbered name i \<noteq> name" using nat_str_ne by (simp add: numbered_def)
  have e: "entry_at (?r tmpl) ''services'' = Inr (?r services)" "entry_at (?r services) name = Inr (?r s)"
    "entry_at (?r s) ''ports'' = Inr (JList (map mapping ms))"
    using assms(4-6) replace_mappings [OF assms(3)] by (simp_all add: entry_replaced)
  then obtain ts ss ps where d: "?r tmpl = JObj ts" "?r services = JObj ss" "?r s = JObj ps" by (auto simp: entry_of_dict)
  have v: "v = with_entry (?r tmpl) ''services'' (with_entry (without_entry (?r services) name) (numbered name i)
      (with_entry (?r s) ''ports'' (JList (map (\<lambda>p. mapping (fst p + i, snd p)) ms))))"
    using assms(1,2) e d(1) update_ports_move [OF assms(7), of i]
    by (simp add: device_service_def Let_def andalso_def is_obj_def)
  show ?thesis unfolding v d using n by (simp add: with_entry_def without_entry_def entry_at_def)
qed

definition lan_template :: json where
  "lan_template =
     JObj [(''services'', JObj [(''lan'', JObj [(''hostname'', JStr ''lan''), (''ports'', JList (map mapping [(22, ''22''), (80, ''8080'')]))])])]"

theorem device_service_ports_witness:
  "\<exists>v services' s'. device_service ''lan'' lan_template 1 = Inr (Some v) \<and> entry_at v ''services'' = Inr services' \<and>
     entry_at services' ''lan2'' = Inr s' \<and> entry_at s' ''ports'' = Inr (JList [JStr ''23:22'', JStr ''81:8080''])"
proof -
  let ?ms = "[(22, ''22''), (80, ''8080'')] :: (nat \<times> string) list"
  let ?s = "JObj [(''hostname'', JStr ''lan''), (''ports'', JList (map mapping ?ms))]"
  have n: "numbered ''lan'' 1 = ''lan2''" "mapping (22 + 1, ''22'') = JStr ''23:22''" "mapping (80 + 1, ''8080'') = JStr ''81:8080''"
    by code_simp+
  have "case device_service ''lan'' lan_template 1 of Inr (Some v) \<Rightarrow> True | _ \<Rightarrow> False" by code_simp
  then obtain v where v: "device_service ''lan'' lan_template 1 = Inr (Some v)" by (simp split: sum.splits option.splits)
  have s: "''lan'' \<noteq> ''ext_voip''" "CHR '':'' \<notin> set ''lan''" by simp_all
  have e: "entry_at lan_template ''services'' = Inr (JObj [(''lan'', ?s)])" "entry_at (JObj [(''lan'', ?s)]) ''lan'' = Inr ?s"
    "entry_at ?s ''ports'' = Inr (JList (map mapping ?ms))"
    by (simp_all add: entry_at_def lan_template_def)
  have c: "\<forall>p\<in>set ?ms. CHR '':'' \<notin> set (snd p)" by simp
  obtain services' s' where r: "entry_at v ''services'' = Inr services'" "entry_at services' (numbered ''lan'' 1) = Inr s'"
      "entry_at s' ''ports'' = Inr (JList (map (\<lambda>p. mapping (fst p + 1, snd p)) ?ms))"
    using device_service_ports [OF v s e c] by blast
  have "map (\<lambda>p. mapping (fst p + 1, snd p)) ?ms = [JStr ''23:22'', JStr ''81:8080'']" using n by simp
  then show ?thesis using v r n(1) by auto
qed

end
