(* ===== verification/Sip_Phone.thy ===== *)
theory Sip_Phone
  imports Linux_WAN
begin

text \<open>
  The software phone (\<^verbatim>\<open>boardfarm3/devices/pjsip_phone.py\<close>): a \<^verbatim>\<open>pjsua\<close> process driven on the console of a Linux
  host. The object's attributes that change are the record \<open>phone_state\<close>, threaded beside the world, so a
  method keeps what it assigned when it raises. The coroutines await the steps of their methods.
\<close>

section \<open>The phone\<close>

record phone_state =
  ps_number :: json
  ps_proxy_ip :: "string option"
  ps_started :: bool
  ps_configured :: bool

text \<open>
  What is fixed: the host, its console, the port of the configuration, and the number the SIP server of the
  deployment allocates (\<^verbatim>\<open>get_device_by_type(SIPServer).allocate_number\<close>), which the phone asks for.
\<close>

record 'w pjsip_phone =
  pp_device :: linux_device
  pp_console :: "'w console"
  pp_allocate :: "json \<Rightarrow> ('w, string) io"

type_synonym ('w, 'a) phone_io = "('w \<times> phone_state, 'a) io"

definition voice_error :: "string \<Rightarrow> raised" where
  "voice_error m = py_error VoiceError ''VoiceError'' m"

definition num_port :: "'w pjsip_phone \<Rightarrow> json" where
  "num_port p = kwarg (ld_config (pp_device p)) ''num_port'' (JStr ''5060'')"

definition CONFIG_NAME :: string where "CONFIG_NAME = ''pjsip.conf''"
definition PJSIP_PROMPT :: string where "PJSIP_PROMPT = ''>>>''"
definition PHONE_IFACE :: string where "PHONE_IFACE = ''eth1''"
definition YOU_HAVE_0_ACTIVE_CALL :: string where "YOU_HAVE_0_ACTIVE_CALL = ''You have 0 active call''"

text \<open>The address the phone reports is the text of its option; a list of options that is no text raises.\<close>

definition phone_init :: "(string, json) dict \<Rightarrow> raised + linux_device \<times> phone_state \<times> string option" where
  "phone_init config =
     (case linux_init config of
        Inl e \<Rightarrow> Inl e
      | Inr d \<Rightarrow>
          (case parse_device_suboptions d of
             Inl e \<Rightarrow> Inl e
           | Inr os \<Rightarrow>
               Inr (d, \<lparr>ps_number = get_or_none config ''number'', ps_proxy_ip = None, ps_started = False, ps_configured = False\<rparr>,
                    dict_get os ''wan-static-ip'')))"

section \<open>Setting up the host\<close>

definition phone_setup :: "'w pjsip_phone \<Rightarrow> ('w, unit) io" where
  "phone_setup p =
     (let d = pp_device p; c = pp_console p
      in if \<not> dict_mem ''options'' (ld_config d) then ret ()
         else
           andthen (for_each (do_cmd c) [''ifconfig '' @ PHONE_IFACE @ '' down'', ''ifconfig '' @ PHONE_IFACE @ '' up''])
           (seq (lift_sum (parse_device_suboptions d)) (\<lambda>os.
            let field = (\<lambda>k. case dict_get os k of Some v \<Rightarrow> v | None \<Rightarrow> []);
                v4 = field ''wan-static-ip''; v6 = field ''wan-static-ipv6''
            in andthen
                (when_io (dict_mem ''lan-ip-dhcp'' os) (for_each (do_cmd c) [''ip -4 addr flush dev '' @ PHONE_IFACE, ''dhclient'']))
               (andthen
                (when_io (v6 \<noteq> [])
                  (seq (lift_sum (IPv6Interface v6)) (\<lambda>i.
                   andthen (do_cmd c (''sysctl -w net.ipv6.conf.'' @ PHONE_IFACE @ ''.accept_dad=0''))
                     (replace_address c ''-6'' (show_interface6 i) PHONE_IFACE))))
               (andthen
                (when_io (v4 \<noteq> [])
                  (seq (lift_sum (IPv4Interface v4)) (\<lambda>i. replace_address c ''-4'' (show_interface4 i) PHONE_IFACE)))
                (setup_static_routes d c))))))"

section \<open>Configuring and starting\<close>

definition newline :: "'w pjsip_phone \<Rightarrow> ('w, unit) phone_io" where
  "newline p = on_host (sp_sendline (pp_console p) [CHR 0x0A])"

definition send_keys :: "'w pjsip_phone \<Rightarrow> string \<Rightarrow> ('w, unit) phone_io" where
  "send_keys p s = on_host (sp_sendline (pp_console p) s)"

definition await_text :: "'w pjsip_phone \<Rightarrow> string \<Rightarrow> ('w, unit) phone_io" where
  "await_text p s = on_host (at_prompt (pp_console p) [s] (-1))"

definition await_shell :: "'w pjsip_phone \<Rightarrow> ('w, unit) phone_io" where
  "await_shell p = on_host (at_prompt (pp_console p) (ld_prompt (pp_device p)) (-1))"

text \<open>An empty line is sent and the prompt of the phone awaited.\<close>

definition await_menu :: "'w pjsip_phone \<Rightarrow> ('w, unit) phone_io" where
  "await_menu p = andthen (newline p) (await_text p PJSIP_PROMPT)"

definition phone_conf :: "'w pjsip_phone \<Rightarrow> string \<Rightarrow> string option \<Rightarrow> bool \<Rightarrow> string" where
  "phone_conf p number server ipv6_flag =
     join '' ''
       [''--local-port='' @ shown (num_port p), ''--id=sip:'' @ number @ ''@'' @ text_option server,
        ''--registrar=sip:'' @ text_option server, ''--realm=*'', ''--username='' @ number, ''--password=1234'',
        ''--null-audio'', ''--max-calls=1'', ''--auto-answer=180'', ''--no-tcp''] @
     (if ipv6_flag then '' --ipv6'' else [])"

definition phone_config :: "'w pjsip_phone \<Rightarrow> bool \<Rightarrow> string option \<Rightarrow> ('w, unit) phone_io" where
  "phone_config p ipv6_flag server =
     seq (\<lambda>s. on_host (pp_allocate p (ps_number (snd s))) s) (\<lambda>number.
     andthen (assign (\<lambda>st. st\<lparr>ps_number := JStr number\<rparr>))
     (let conf = phone_conf p number server ipv6_flag; c = pp_console p
      in andthen (newline p)
        (seq (on_host (sp_expect c (Text PJSIP_PROMPT # prompts (ld_prompt (pp_device p))) (-1))) (\<lambda>idx.
         andthen (when_io (idx = 0) (andthen (on_host (sp_sendcontrol c ''c'')) (await_shell p)))
        (andthen
          (catch
            (seq (on_host (run_cmd c (''cat '' @ CONFIG_NAME))) (\<lambda>out.
             assign (\<lambda>st. st\<lparr>ps_configured := (conf = py_replace [CHR 0x0D] [] out)\<rparr>)))
            is_timeout
            (\<lambda>_. assign (\<lambda>st. st\<lparr>ps_configured := False\<rparr>)))
        (andthen
          (\<lambda>s. when_io (\<not> ps_configured (snd s))
            (andthen (send_keys p (''cat >'' @ CONFIG_NAME @ ''<<EOF'' @ [CHR 0x0A] @ conf @ [CHR 0x0A] @ ''EOF'' @ [CHR 0x0A]))
            (andthen (await_shell p) (assign (\<lambda>st. st\<lparr>ps_configured := True\<rparr>)))) s)
          (assign (\<lambda>st. st\<lparr>ps_proxy_ip := server\<rparr>))))))))"

text \<open>The hook: the version of the address follows the transport of the configuration.\<close>

definition phone_configure :: "'w pjsip_phone \<Rightarrow> raised + string option \<Rightarrow> raised + string option \<Rightarrow> ('w, unit) phone_io" where
  "phone_configure p v4 v6 =
     (if dict_get (ld_config (pp_device p)) ''endpoint-transport'' = Some (JStr ''ipv6'')
      then seq (lift_sum v6) (phone_config p True)
      else seq (lift_sum v4) (phone_config p False))"

definition REGISTERED :: string where
  "REGISTERED = ''registration success, status=200 '' @ [CHR 0x5C] @ ''(OK'' @ [CHR 0x5C] @ '')''"

definition no_proxy :: "phone_state \<Rightarrow> bool" where
  "no_proxy st \<longleftrightarrow> ps_proxy_ip st = None \<or> ps_proxy_ip st = Some []"

definition phone_start :: "'w pjsip_phone \<Rightarrow> ('w, unit) phone_io" where
  "phone_start p s =
     (if no_proxy (snd s) \<or> \<not> ps_configured (snd s) then throw (voice_error ''Please configure PJSIPphone first!!'') s
      else
        catch
          (andthen (newline p)
          (andthen (on_host (at_prompt (pp_console p) [PJSIP_PROMPT] 2)) (assign (\<lambda>st. st\<lparr>ps_started := True\<rparr>))))
          is_timeout
          (\<lambda>_. catch
            (andthen (send_keys p (''pjsua --config-file='' @ CONFIG_NAME))
            (andthen (await_text p REGISTERED) (andthen (await_menu p) (assign (\<lambda>st. st\<lparr>ps_started := True\<rparr>)))))
            is_timeout
            (\<lambda>_. andthen (assign (\<lambda>st. st\<lparr>ps_started := False\<rparr>)) (throw (voice_error ''Failed to start Phone!!''))))
          s)"

section \<open>Calls\<close>

text \<open>Every operation begins with the check; a phone that was not started is refused.\<close>

definition started_phone :: "('w, 'a) phone_io \<Rightarrow> ('w, 'a) phone_io" where
  "started_phone m s = (if \<not> ps_started (snd s) then throw (voice_error ''Please start the phone first!!'') s else m s)"

definition select_make_call :: "'w pjsip_phone \<Rightarrow> ('w, unit) phone_io" where
  "select_make_call p = andthen (await_menu p) (andthen (send_keys p ''m'') (await_text p (''Make call'' @ [CHR 0x5C] @ '':'')))"

definition dial :: "'w pjsip_phone \<Rightarrow> string \<Rightarrow> ('w, unit) phone_io" where
  "dial p number =
     started_phone
       (andthen (select_make_call p)
       (andthen (\<lambda>s. case ps_proxy_ip (snd s) of
                       None \<Rightarrow> throw type_error s
                     | Some ip \<Rightarrow> send_keys p (''sip:'' @ number @ ''@'' @ ip) s)
       (andthen (await_text p ''Call [0-9]* state changed to CALLING'') (await_menu p))))"

definition answer_prompts :: "pattern list" where
  "answer_prompts =
     [Text (''Answer with code '' @ [CHR 0x5C] @ ''(100'' @ [CHR 0x5C] @ ''-699'' @ [CHR 0x5C] @ '') '' @ [CHR 0x5C] @
            ''(empty to cancel'' @ [CHR 0x5C] @ '')'' @ [CHR 0x5C] @ '':''),
      Text ''No pending incoming call'']"

definition answer_phone :: "'w pjsip_phone \<Rightarrow> ('w, bool) phone_io" where
  "answer_phone p =
     started_phone
       (andthen (await_menu p)
       (andthen (send_keys p ''a'')
       (seq (on_host (sp_expect (pp_console p) answer_prompts (-1))) (\<lambda>idx.
        if idx = 1 then ret False
        else
          andthen (send_keys p ''200'')
          (andthen (await_text p ''Call [0-9]* state changed to CONFIRMED'') (andthen (await_menu p) (ret True)))))))"

definition hangup :: "'w pjsip_phone \<Rightarrow> ('w, unit) phone_io" where
  "hangup p =
     started_phone
       (andthen (await_menu p)
       (andthen (send_keys p ''h'')
       (andthen (on_host (at_prompt (pp_console p) [''DISCON'', ''No current call''] (-1))) (await_menu p))))"

definition reinvite :: "'w pjsip_phone \<Rightarrow> ('w, unit) phone_io" where
  "reinvite p =
     started_phone
       (andthen (await_menu p)
       (andthen (send_keys p ''v'')
       (andthen (await_text p ''Sending re-INVITE on call [0-9]*'')
       (andthen (await_text p ''SDP negotiation done: Success'') (await_menu p)))))"

definition phone_offhold :: "'w pjsip_phone \<Rightarrow> ('w, unit) phone_io" where
  "phone_offhold p = started_phone (reinvite p)"

definition hold_call :: "'w pjsip_phone \<Rightarrow> ('w, unit) phone_io" where
  "hold_call p =
     started_phone
       (andthen (await_menu p)
       (andthen (send_keys p ''H'') (andthen (await_text p ''Putting call [0-9]* on hold'') (await_menu p))))"

definition phone_kill :: "'w pjsip_phone \<Rightarrow> ('w, unit) phone_io" where
  "phone_kill p =
     started_phone (andthen (send_keys p ''q'') (andthen (await_shell p) (assign (\<lambda>st. st\<lparr>ps_started := False\<rparr>))))"

definition on_hook :: "'w pjsip_phone \<Rightarrow> ('w, unit) phone_io" where
  "on_hook p = started_phone (hangup p)"

definition off_hook :: "'w pjsip_phone \<Rightarrow> ('w, unit) phone_io" where
  "off_hook p = started_phone (seq (answer_phone p) (\<lambda>_. ret ()))"

definition reply_with_code :: "'w pjsip_phone \<Rightarrow> int \<Rightarrow> ('w, unit) phone_io" where
  "reply_with_code p code =
     started_phone
       (andthen (await_menu p)
       (andthen (send_keys p ''a'')
       (seq (on_host (sp_expect (pp_console p) answer_prompts (-1))) (\<lambda>idx.
        if idx = 1 then throw (voice_error ''No incoming call to reply to!!'')
        else andthen (send_keys p (int_str code)) (await_menu p)))))"

section \<open>Questions\<close>

text \<open>A state holds when its text appears between two prompts; a timeout means it does not.\<close>

definition validate_state :: "'w pjsip_phone \<Rightarrow> string \<Rightarrow> ('w, bool) phone_io" where
  "validate_state p msg =
     started_phone
       (catch
         (andthen (await_menu p)
         (andthen (await_text p (if msg = ''INCOMING'' then ''180 Ringing'' else msg))
         (andthen (await_text p PJSIP_PROMPT) (ret True))))
         is_timeout (\<lambda>_. ret False))"

text \<open>The answer does not depend on whether the text came.\<close>

definition send_update_and_validate :: "'w pjsip_phone \<Rightarrow> string \<Rightarrow> ('w, bool) phone_io" where
  "send_update_and_validate p msg =
     andthen
       (catch (andthen (await_menu p) (andthen (send_keys p ''U'') (await_text p msg))) is_timeout (\<lambda>_. ret ()))
       (ret True)"

definition is_idle :: "'w pjsip_phone \<Rightarrow> ('w, bool) phone_io" where
  "is_idle p = started_phone (validate_state p YOU_HAVE_0_ACTIVE_CALL)"

definition dialing_text :: "string option \<Rightarrow> string" where
  "dialing_text proxy =
     ''You have 1 active call.*Current call id=[0-9]* to sip:[0-9]*@'' @ text_option proxy @ '' '' @ [CHR 0x5C] @ ''[EARLY'' @
     [CHR 0x5C] @ '']''"

definition is_dialing :: "'w pjsip_phone \<Rightarrow> ('w, bool) phone_io" where
  "is_dialing p = started_phone (\<lambda>s. validate_state p (dialing_text (ps_proxy_ip (snd s))) s)"

definition is_ringing :: "'w pjsip_phone \<Rightarrow> ('w, bool) phone_io" where
  "is_ringing p = started_phone (validate_state p ''180 Ringing'')"

definition is_connected :: "'w pjsip_phone \<Rightarrow> ('w, bool) phone_io" where
  "is_connected p = started_phone (validate_state p ''CONFIRMED'')"

definition is_incall_dialing :: "'w pjsip_phone \<Rightarrow> ('w, bool) phone_io" where
  "is_incall_dialing p = started_phone (is_connected p)"

definition is_incall_connected :: "'w pjsip_phone \<Rightarrow> ('w, bool) phone_io" where
  "is_incall_connected p = started_phone (is_connected p)"

definition is_call_waiting :: "'w pjsip_phone \<Rightarrow> ('w, bool) phone_io" where
  "is_call_waiting p = started_phone (validate_state p ''Incoming call for account [0-9]*'')"

definition local_hold :: string where
  "local_hold =
     ''PCMU '' @ [CHR 0x5C] @ ''(sendonly'' @ [CHR 0x5C] @ '').*'' @ [CHR 0x5C] @ ''[type=audio'' @ [CHR 0x5C] @ ''], status is Local hold''"

definition is_onhold :: "'w pjsip_phone \<Rightarrow> ('w, bool) phone_io" where
  "is_onhold p = started_phone (send_update_and_validate p local_hold)"

definition is_playing_dialtone :: "'w pjsip_phone \<Rightarrow> ('w, bool) phone_io" where
  "is_playing_dialtone p = started_phone (send_update_and_validate p ''No current call'')"

definition detect_dialtone :: "'w pjsip_phone \<Rightarrow> ('w, bool) phone_io" where
  "detect_dialtone p = started_phone (is_playing_dialtone p)"

definition is_code_ended :: "'w pjsip_phone \<Rightarrow> ('w, bool) phone_io" where
  "is_code_ended p =
     started_phone
       (andthen
         (catch
           (andthen (await_menu p)
           (andthen (await_text p (''Closing sound device after idle for [0-9]* second'' @ [CHR 0x5C] @ ''(s'' @ [CHR 0x5C] @ '')'')) (newline p)))
           is_timeout (\<lambda>_. ret ()))
         (ret True))"

text \<open>How a call ended is read from the text before the notice that none is left.\<close>

definition call_over_with :: "'w pjsip_phone \<Rightarrow> string \<Rightarrow> ('w, bool) phone_io" where
  "call_over_with p reason =
     started_phone
       (andthen (newline p)
       (andthen (await_text p YOU_HAVE_0_ACTIVE_CALL)
       (seq (on_host (reading (sp_before (pp_console p)))) (\<lambda>before.
        andthen (await_text p PJSIP_PROMPT) (ret (str_in (''DISCONNECTED [reason='' @ reason @ '']'') before))))))"

definition is_call_ended :: "'w pjsip_phone \<Rightarrow> ('w, bool) phone_io" where
  "is_call_ended p = call_over_with p ''200 (Normal call clearing)''"

definition is_line_busy :: "'w pjsip_phone \<Rightarrow> ('w, bool) phone_io" where
  "is_line_busy p = call_over_with p ''486 (Busy Here)''"

definition is_call_not_answered :: "'w pjsip_phone \<Rightarrow> ('w, bool) phone_io" where
  "is_call_not_answered p = call_over_with p ''408 (Request Timeout)''"

section \<open>Buttons and codes\<close>

definition phone_not_supported :: "('w, 'a) phone_io" where
  "phone_not_supported = throw not_supported"

definition press_R :: "'w pjsip_phone \<Rightarrow> ('w, unit) phone_io" where
  "press_R p = hold_call p"

definition hook_flash :: "'w pjsip_phone \<Rightarrow> ('w, unit) phone_io" where
  "hook_flash p = press_R p"

definition press_buttons :: "'w pjsip_phone \<Rightarrow> string \<Rightarrow> ('w, unit) phone_io" where
  "press_buttons p buttons =
     for_each (\<lambda>b. if b = CHR ''R'' then hold_call p else throw (key_error [b])) buttons"

definition dial_feature :: "'w pjsip_phone \<Rightarrow> string \<Rightarrow> ('w, unit) phone_io" where
  "dial_feature p code =
     andthen (select_make_call p)
     (andthen (\<lambda>s. send_keys p (''sip:'' @ code @ ''@'' @ text_option (ps_proxy_ip (snd s))) s)
     (andthen (await_text p ''Call [0-9]* state changed to CALLING'')
     (seq (is_code_ended p) (\<lambda>ended.
      if \<not> ended then throw (voice_error (''Call not ended after dialing a feature code: '' @ code)) else ret ()))))"

section \<open>Every operation as a step\<close>

datatype phone_op =
  Configure bool "string option"
| Start
| Kill
| Dial string
| Answer
| Hang_Up
| Reinvite
| Hold
| Off_Hold
| Reply int
| On_Hook
| Off_Hook
| Buttons string
| Feature string
| Ask_Idle
| Ask_Dialing
| Ask_Ringing
| Ask_Connected
| Ask_Incall_Dialing
| Ask_Incall_Connected
| Ask_Waiting
| Ask_On_Hold
| Ask_Dialtone
| Ask_Detect
| Ask_Code_Ended
| Ask_Ended
| Ask_Busy
| Ask_Not_Answered

definition silently :: "('w, 'a) phone_io \<Rightarrow> ('w, unit) phone_io" where
  "silently m = seq m (\<lambda>_. ret ())"

fun do_op :: "'w pjsip_phone \<Rightarrow> phone_op \<Rightarrow> ('w, unit) phone_io" where
  "do_op p (Configure v6 server) = phone_config p v6 server"
| "do_op p Start = phone_start p"
| "do_op p Kill = phone_kill p"
| "do_op p (Dial n) = dial p n"
| "do_op p Answer = silently (answer_phone p)"
| "do_op p Hang_Up = hangup p"
| "do_op p Reinvite = reinvite p"
| "do_op p Hold = hold_call p"
| "do_op p Off_Hold = phone_offhold p"
| "do_op p (Reply code) = reply_with_code p code"
| "do_op p On_Hook = on_hook p"
| "do_op p Off_Hook = off_hook p"
| "do_op p (Buttons bs) = press_buttons p bs"
| "do_op p (Feature code) = dial_feature p code"
| "do_op p Ask_Idle = silently (is_idle p)"
| "do_op p Ask_Dialing = silently (is_dialing p)"
| "do_op p Ask_Ringing = silently (is_ringing p)"
| "do_op p Ask_Connected = silently (is_connected p)"
| "do_op p Ask_Incall_Dialing = silently (is_incall_dialing p)"
| "do_op p Ask_Incall_Connected = silently (is_incall_connected p)"
| "do_op p Ask_Waiting = silently (is_call_waiting p)"
| "do_op p Ask_On_Hold = silently (is_onhold p)"
| "do_op p Ask_Dialtone = silently (is_playing_dialtone p)"
| "do_op p Ask_Detect = silently (detect_dialtone p)"
| "do_op p Ask_Code_Ended = silently (is_code_ended p)"
| "do_op p Ask_Ended = silently (is_call_ended p)"
| "do_op p Ask_Busy = silently (is_line_busy p)"
| "do_op p Ask_Not_Answered = silently (is_call_not_answered p)"

text \<open>A phone in use, with the servers it was configured for: none, the empty text of the default, or an
  address. Any operation, succeeding or not; the world also moves by itself.\<close>

definition servers_of :: "phone_op \<Rightarrow> string option set" where
  "servers_of o' = (case o' of Configure _ server \<Rightarrow> {server} | _ \<Rightarrow> {})"

inductive phone_reachable :: "'w pjsip_phone \<Rightarrow> string option set \<Rightarrow> 'w \<times> phone_state \<Rightarrow> bool" for p where
  fresh: "\<not> ps_started st \<Longrightarrow> ps_proxy_ip st = None \<Longrightarrow> phone_reachable p {} (w, st)"
| operate: "phone_reachable p servers s \<Longrightarrow> phone_reachable p (servers_of o' \<union> servers) (snd (do_op p o' s))"
| elapse: "phone_reachable p servers (w, st) \<Longrightarrow> phone_reachable p servers (w', st)"

section \<open>Facts\<close>

lemma keeps_started [keeping]: "reflp R \<Longrightarrow> keeps R m \<Longrightarrow> keeps R (started_phone m)"
  by (simp add: keeps_def started_phone_def throw_def reflp_def)

text \<open>All operations but configuring, starting and ending leave the attributes alone.\<close>

definition same_state :: "phone_state \<Rightarrow> phone_state \<Rightarrow> bool" where
  "same_state st st' \<longleftrightarrow> st' = st"

definition same_proxy :: "phone_state \<Rightarrow> phone_state \<Rightarrow> bool" where
  "same_proxy st st' \<longleftrightarrow> ps_proxy_ip st' = ps_proxy_ip st"

definition configured_for :: "string option \<Rightarrow> phone_state \<Rightarrow> phone_state \<Rightarrow> bool" where
  "configured_for server st st' \<longleftrightarrow>
     ps_started st' = ps_started st \<and> (ps_proxy_ip st' = ps_proxy_ip st \<or> ps_proxy_ip st' = server)"

lemma relations [simp]:
  "reflp same_state" "transp same_state" "reflp same_proxy" "transp same_proxy"
  "reflp (configured_for server)" "transp (configured_for server)"
  by (auto simp: reflp_def transp_def same_state_def same_proxy_def configured_for_def)

lemmas pieces = newline_def send_keys_def await_text_def await_shell_def await_menu_def

lemmas call_defs =
  pieces select_make_call_def dial_def answer_phone_def hangup_def reinvite_def phone_offhold_def hold_call_def on_hook_def
  off_hook_def reply_with_code_def press_buttons_def silently_def

lemmas question_defs =
  pieces validate_state_def send_update_and_validate_def is_idle_def is_dialing_def is_ringing_def is_connected_def
  is_incall_dialing_def is_incall_connected_def is_call_waiting_def is_onhold_def is_playing_dialtone_def detect_dialtone_def
  is_code_ended_def call_over_with_def is_call_ended_def is_line_busy_def is_call_not_answered_def silently_def

lemma keeps_case_proxy:
  "reflp R \<Longrightarrow> (\<And>ip. keeps R (m ip)) \<Longrightarrow>
   keeps R (\<lambda>s. case ps_proxy_ip (snd s) of None \<Rightarrow> throw e s | Some ip \<Rightarrow> m ip s)"
  by (auto simp: keeps_def throw_def reflp_def split: option.splits)

lemma menu_keeps [keeping]:
  "reflp R \<Longrightarrow> keeps R (newline p)" "reflp R \<Longrightarrow> keeps R (send_keys p t)" "reflp R \<Longrightarrow> keeps R (await_text p t)"
  "reflp R \<Longrightarrow> keeps R (await_shell p)" "reflp R \<Longrightarrow> transp R \<Longrightarrow> keeps R (await_menu p)"
  "reflp R \<Longrightarrow> transp R \<Longrightarrow> keeps R (select_make_call p)"
  unfolding select_make_call_def pieces by (intro keeping; assumption)+

lemma dial_keeps: "keeps same_state (dial p n)"
  unfolding dial_def by (intro keeps_started keeps_andthen menu_keeps keeps_case_proxy relations)

lemma calls_keep:
  "keeps same_state (answer_phone p)" "keeps same_state (hangup p)" "keeps same_state (reinvite p)"
  "keeps same_state (hold_call p)" "keeps same_state (reply_with_code p code)"
  unfolding answer_phone_def hangup_def reinvite_def hold_call_def reply_with_code_def
  by (intro keeping relations)+

lemma hook_keeps:
  "keeps same_state (phone_offhold p)" "keeps same_state (on_hook p)" "keeps same_state (off_hook p)"
  "keeps same_state (press_buttons p bs)"
  unfolding phone_offhold_def on_hook_def off_hook_def press_buttons_def
  by (intro keeping relations calls_keep)+

lemma validate_keeps: "keeps same_state (validate_state p msg)"
  unfolding validate_state_def by (intro keeping relations)

lemma update_keeps: "keeps same_state (send_update_and_validate p msg)"
  unfolding send_update_and_validate_def by (intro keeping relations)

lemma over_keeps: "keeps same_state (call_over_with p reason)"
  unfolding call_over_with_def by (intro keeping relations)

lemma dialing_keeps: "keeps same_state (is_dialing p)"
  unfolding is_dialing_def by (rule keeps_started, simp, rule keeps_with_state, rule validate_keeps)

lemma questions_keep:
  "keeps same_state (is_idle p)" "keeps same_state (is_ringing p)" "keeps same_state (is_connected p)"
  "keeps same_state (is_incall_dialing p)" "keeps same_state (is_incall_connected p)" "keeps same_state (is_call_waiting p)"
  "keeps same_state (is_onhold p)" "keeps same_state (is_playing_dialtone p)" "keeps same_state (detect_dialtone p)"
  "keeps same_state (is_code_ended p)" "keeps same_state (is_call_ended p)" "keeps same_state (is_line_busy p)"
  "keeps same_state (is_call_not_answered p)"
  unfolding is_idle_def is_ringing_def is_connected_def is_incall_dialing_def is_incall_connected_def is_call_waiting_def
    is_onhold_def is_playing_dialtone_def detect_dialtone_def is_code_ended_def is_call_ended_def is_line_busy_def
    is_call_not_answered_def
  by (intro keeping relations validate_keeps update_keeps over_keeps)+

lemma silently_keeps: "reflp R \<Longrightarrow> transp R \<Longrightarrow> keeps R m \<Longrightarrow> keeps R (silently m)"
  unfolding silently_def by (intro keeping)

text \<open>Configuring leaves the phone as started as it was, also when it interrupts its process.\<close>

lemma configure_keeps: "keeps (configured_for server) (phone_config p v6 server)"
proof -
  have a: "keeps (configured_for server) (assign f)"
    if "\<And>st. ps_started (f st) = ps_started st \<and> (ps_proxy_ip (f st) = ps_proxy_ip st \<or> ps_proxy_ip (f st) = server)" for f
    using that by (intro keeps_assign) (simp add: configured_for_def)
  have w: "keeps (configured_for server) (\<lambda>s. when_io (\<not> ps_configured (snd s)) m s)" if "keeps (configured_for server) m"
    for m :: "('w, unit) phone_io"
    by (rule keeps_with_state) (intro keeping relations that)
  have n: "keeps (configured_for server) (\<lambda>s. on_host (pp_allocate p (ps_number (snd s))) s)"
    by (rule keeps_with_state) (intro keeping relations)
  show ?thesis unfolding phone_config_def Let_def by (intro keeping relations n w a; simp)
qed

lemma start_keeps: "keeps same_proxy (phone_start p)"
proof -
  have a: "keeps same_proxy (assign (\<lambda>st. st\<lparr>ps_started := b\<rparr>))" for b
    by (intro keeps_assign) (simp add: same_proxy_def)
  have "keeps same_proxy
    (catch
      (andthen (newline p) (andthen (on_host (at_prompt (pp_console p) [PJSIP_PROMPT] 2)) (assign (\<lambda>st. st\<lparr>ps_started := True\<rparr>))))
      is_timeout
      (\<lambda>_. catch
        (andthen (send_keys p (''pjsua --config-file='' @ CONFIG_NAME))
        (andthen (await_text p REGISTERED) (andthen (await_menu p) (assign (\<lambda>st. st\<lparr>ps_started := True\<rparr>)))))
        is_timeout
        (\<lambda>_. andthen (assign (\<lambda>st. st\<lparr>ps_started := False\<rparr>)) (throw (voice_error ''Failed to start Phone!!'')))))"
    by (intro keeping relations a)
  then show ?thesis by (simp add: keeps_def phone_start_def throw_def same_proxy_def)
qed

lemma kill_keeps: "keeps same_proxy (phone_kill p)" "ps_started (snd (snd (phone_kill p s))) \<longrightarrow> ps_started (snd s)"
proof -
  have "keeps (\<lambda>st st'. ps_proxy_ip st' = ps_proxy_ip st \<and> (ps_started st' \<longrightarrow> ps_started st)) (phone_kill p)"
    unfolding phone_kill_def by (intro keeping keeps_assign) (auto simp: reflp_def transp_def)
  then show "keeps same_proxy (phone_kill p)" "ps_started (snd (snd (phone_kill p s))) \<longrightarrow> ps_started (snd s)"
    unfolding keeps_def same_proxy_def by blast+
qed

lemma feature_keeps: "keeps same_state (dial_feature p code)"
proof -
  have l: "keeps same_state (\<lambda>s. send_keys p (''sip:'' @ code @ ''@'' @ text_option (ps_proxy_ip (snd s))) s)"
    by (rule keeps_with_state) (intro keeping relations)
  show ?thesis unfolding dial_feature_def by (intro keeping relations l questions_keep)
qed

definition plain_op :: "phone_op \<Rightarrow> bool" where
  "plain_op o' = (case o' of Configure _ _ \<Rightarrow> False | Start \<Rightarrow> False | Kill \<Rightarrow> False | _ \<Rightarrow> True)"

lemma do_op_keeps: "plain_op o' \<Longrightarrow> keeps same_state (do_op p o')"
  by (cases o') (simp_all add: plain_op_def silently_keeps dial_keeps calls_keep hook_keeps dialing_keeps questions_keep feature_keeps)

text \<open>A server the phone knows is one it was given, and a started phone was given one with an address.\<close>

definition addressed :: "string option set \<Rightarrow> phone_state \<Rightarrow> bool" where
  "addressed servers st \<longleftrightarrow>
     (ps_proxy_ip st \<noteq> None \<longrightarrow> ps_proxy_ip st \<in> servers) \<and>
     (ps_started st \<longrightarrow> ps_proxy_ip st \<in> servers \<and> (\<exists>ip. ip \<noteq> [] \<and> Some ip \<in> servers))"

lemma addressed_mono: "addressed servers st \<Longrightarrow> addressed (srv \<union> servers) st"
  by (auto simp: addressed_def)

lemma op_keeps_addressed:
  assumes "addressed servers (snd s)"
  shows "addressed (servers_of o' \<union> servers) (snd (snd (do_op p o' s)))"
proof (cases "plain_op o'")
  case True
  then have "snd (snd (do_op p o' s)) = snd s" using keepsD [OF do_op_keeps [of o' p]] by (simp add: same_state_def)
  then show ?thesis using addressed_mono [OF assms] by simp
next
  case False
  then consider v6 server where "o' = Configure v6 server" | "o' = Start" | "o' = Kill"
    by (cases o') (auto simp: plain_op_def)
  then show ?thesis
  proof cases
    case 1
    have "configured_for server (snd s) (snd (snd (phone_config p v6 server s)))"
      by (rule keepsD [OF configure_keeps])
    then show ?thesis using assms 1 by (auto simp: configured_for_def addressed_def servers_of_def)
  next
    case 2
    have k: "ps_proxy_ip (snd (snd (phone_start p s))) = ps_proxy_ip (snd s)"
      using keepsD [OF start_keeps [of p]] by (simp add: same_proxy_def)
    show ?thesis
    proof (cases "no_proxy (snd s)")
      case True
      then show ?thesis using addressed_mono [OF assms] 2 by (simp add: phone_start_def throw_def)
    next
      case False
      then show ?thesis using k 2 assms by (cases "ps_proxy_ip (snd s)") (auto simp: addressed_def no_proxy_def)
    qed
  next
    case 3
    then show ?thesis using assms keepsD [OF kill_keeps(1) [of p]] kill_keeps(2) [of p s]
      by (auto simp: addressed_def same_proxy_def)
  qed
qed

lemma reachable_addressed: "phone_reachable p servers s \<Longrightarrow> addressed servers (snd s)"
proof (induction rule: phone_reachable.induct)
  case (fresh st w)
  then show ?case by (simp add: addressed_def)
next
  case (operate servers s o')
  then show ?case using op_keeps_addressed by blast
qed simp

section \<open>Properties\<close>


definition sample_phone :: "action list pjsip_phone" where
  "sample_phone = \<lparr>pp_device = sample_linux, pp_console = recorded (sample_device 0), pp_allocate = \<lambda>_. ret ''1000''\<rparr>"

definition unused_state :: phone_state where
  "unused_state = \<lparr>ps_number = JNull, ps_proxy_ip = None, ps_started = False, ps_configured = False\<rparr>"

definition started_sample :: "action list \<times> phone_state" where
  "started_sample = snd (do_op sample_phone Start (snd (do_op sample_phone (Configure False (Some ''10.0.0.5'')) ([], unused_state))))"

lemma started_sample_ready: "ps_started (snd started_sample)" "phone_reachable sample_phone {Some ''10.0.0.5''} started_sample"
proof -
  show "ps_started (snd started_sample)" by code_simp
  have "phone_reachable sample_phone {} ([], unused_state)" by (rule fresh) (simp_all add: unused_state_def)
  from operate [OF operate [OF this, of "Configure False (Some ''10.0.0.5'')"], of Start]
  show "phone_reachable sample_phone {Some ''10.0.0.5''} started_sample"
    by (simp add: started_sample_def servers_of_def)
qed


text \<open>nothing is typed on the console of a phone that was not started: every operation but configuring,
  starting, the buttons and the feature codes raises and leaves everything as it is.\<close>

definition needs_start :: "phone_op \<Rightarrow> bool" where
  "needs_start o' = (case o' of Configure _ _ \<Rightarrow> False | Start \<Rightarrow> False | Buttons _ \<Rightarrow> False | Feature _ \<Rightarrow> False | _ \<Rightarrow> True)"

lemma refused: "\<not> ps_started (snd s) \<Longrightarrow> started_phone m s = (Inl (voice_error ''Please start the phone first!!''), s)"
  by (simp add: started_phone_def throw_def)

lemma silently_refused: "m s = (Inl e, s) \<Longrightarrow> silently m s = (Inl e, s)"
  by (simp add: silently_def seq_def)

theorem unstarted_phone_silent:
  assumes "\<not> ps_started (snd s)" and "needs_start o'"
  shows "do_op p o' s = (Inl (voice_error ''Please start the phone first!!''), s)"
  using assms(2)
  by (cases o')
    (simp_all add: needs_start_def dial_def answer_phone_def hangup_def reinvite_def hold_call_def phone_offhold_def
      reply_with_code_def on_hook_def off_hook_def phone_kill_def is_idle_def is_dialing_def is_ringing_def is_connected_def
      is_incall_dialing_def is_incall_connected_def is_call_waiting_def is_onhold_def is_playing_dialtone_def
      detect_dialtone_def is_code_ended_def is_call_ended_def is_line_busy_def is_call_not_answered_def call_over_with_def
      silently_refused refused [OF assms(1)])

theorem unstarted_phone_silent_witness:
  "do_op sample_phone (Dial ''1001'') ([], unused_state) = (Inl (voice_error ''Please start the phone first!!''), ([], unused_state))"
  by (rule unstarted_phone_silent) (simp_all add: unused_state_def needs_start_def)

text \<open>three questions have one answer: a phone never says it is not on hold, that there is no dial tone,
  or that a code has not ended, so no feature code is ever reported as unfinished.\<close>

theorem questions_without_no:
  "fst (is_onhold p s) \<noteq> Inr False \<and> fst (is_playing_dialtone p s) \<noteq> Inr False \<and> fst (detect_dialtone p s) \<noteq> Inr False \<and>
   fst (is_code_ended p s) \<noteq> Inr False"
  by (auto simp: is_onhold_def is_playing_dialtone_def detect_dialtone_def is_code_ended_def send_update_and_validate_def
      started_phone_def andthen_def seq_def throw_def ret_def split: prod.splits sum.splits)

lemma then_started:
  assumes "keeps same_state m"
  shows "case andthen m (assign (\<lambda>st. st\<lparr>ps_started := True\<rparr>)) s of
    (Inr _, s') \<Rightarrow> ps_started (snd s') | (Inl _, s') \<Rightarrow> snd s' = snd s"
  using keepsD [OF assms, of s]
  by (auto simp: andthen_def seq_def assign_def same_state_def split: prod.splits sum.splits)

lemma andthen_assoc: "andthen m (andthen k l) = andthen (andthen m k) l"
  by (simp add: andthen_def seq_assoc)

text \<open>Starting decides: it ends with a started phone, or it raises something other than a timeout and the
  phone counts as started only if it did before.\<close>

lemma start_outcome:
  "case phone_start p s of
     (Inr _, s') \<Rightarrow> ps_started (snd s') \<and> \<not> no_proxy (snd s) \<and> ps_configured (snd s)
   | (Inl e, s') \<Rightarrow> \<not> is_timeout e \<and> (ps_started (snd s) \<or> \<not> ps_started (snd s'))"
proof (cases "no_proxy (snd s) \<or> \<not> ps_configured (snd s)")
  case True
  then show ?thesis by (simp add: phone_start_def throw_def voice_error_def is_timeout_def py_error_def)
next
  case False
  let ?up = "assign (\<lambda>st. st\<lparr>ps_started := True\<rparr>)"
  let ?m = "andthen (newline p) (on_host (at_prompt (pp_console p) [PJSIP_PROMPT] 2))"
  let ?k = "andthen (send_keys p (''pjsua --config-file='' @ CONFIG_NAME)) (andthen (await_text p REGISTERED) (await_menu p))"
  let ?l = "andthen (assign (\<lambda>st. st\<lparr>ps_started := False\<rparr>)) (throw (voice_error ''Failed to start Phone!!''))"
  have run: "phone_start p s = catch (andthen ?m ?up) is_timeout (\<lambda>_. catch (andthen ?k ?up) is_timeout (\<lambda>_. ?l)) s"
    using False by (simp add: phone_start_def andthen_assoc)
  have m: "keeps same_state ?m" and k: "keeps same_state ?k" by (intro keeping relations)+
  obtain r1 s1 where 1: "andthen ?m ?up s = (r1, s1)" by (cases "andthen ?m ?up s")
  show ?thesis
  proof (cases r1)
    case (Inr x)
    then show ?thesis using run 1 False then_started [OF m, of s] by (simp add: catch_def)
  next
    case (Inl e)
    have same: "snd s1 = snd s" using 1 Inl then_started [OF m, of s] by simp
    show ?thesis
    proof (cases "is_timeout e")
      case False
      then show ?thesis using run 1 Inl same by (simp add: catch_def)
    next
      case True
      obtain r2 s2 where 2: "andthen ?k ?up s1 = (r2, s2)" by (cases "andthen ?k ?up s1")
      have "phone_start p s = catch (andthen ?k ?up) is_timeout (\<lambda>_. ?l) s1" using run 1 Inl True by (simp add: catch_def)
      then show ?thesis
        using 2 False then_started [OF k, of s1] \<open>\<not> (no_proxy (snd s) \<or> \<not> ps_configured (snd s))\<close> same
        by (cases r2)
          (auto simp: catch_def andthen_def seq_def assign_def throw_def voice_error_def is_timeout_def py_error_def)
    qed
  qed
qed

end
