(* ===== verification/Voice.thy ===== *)
theory Voice
  imports Sip_Phone Net_Cases
begin

text \<open>
  The SIP server (\<^verbatim>\<open>boardfarm3/devices/kamailio.py\<close>) and the voice use cases
  (\<^verbatim>\<open>boardfarm3/use_cases/voice.py\<close>) over the interfaces of their templates, \<open>voice_client\<close> and
  \<open>voice_server\<close>, which the software phone and the server implement.
\<close>

section \<open>The server\<close>

record kamailio =
  km_device :: linux_device
  km_ipv4 :: "string option"
  km_ipv6 :: "string option"

definition vsc_dict :: "(string, string) dict" where
  "vsc_dict =
     [(''set_cf_busy'', ''CFB_SET''), (''unset_cf_busy'', ''CFB_UNSET''), (''set_cf_no_answer'', ''CFNA_SET''),
      (''unset_cf_no_answer'', ''CFNA_UNSET''), (''set_cf_unconditional'', ''CFU_SET''), (''unset_cf_unconditional'', ''CFU_UNSET'')]"

definition km_field :: "kamailio \<Rightarrow> string \<Rightarrow> string \<Rightarrow> string" where
  "km_field k key dflt = shown (kwarg (ld_config (km_device k)) key (JStr dflt))"

definition km_users :: "kamailio \<Rightarrow> json" where "km_users k = get_or_none (ld_config (km_device k)) ''numbers''"
definition user_pass :: "kamailio \<Rightarrow> string" where "user_pass k = km_field k ''user_pass'' ''1234''"
definition cfg_path :: "kamailio \<Rightarrow> string" where "cfg_path k = km_field k ''cfg_path'' ''/etc/kamailio/kamailio.cfg''"

text \<open>The addresses of the static options; a configuration without options raises.\<close>

definition interface_ip :: "string \<Rightarrow> string \<Rightarrow> raised + string" where
  "interface_ip version s =
     (if version = ''ipv4'' then map_sum id (\<lambda>i. show_ipv4 (fst i)) (IPv4Interface s)
      else map_sum id (\<lambda>i. show_ipv6 (fst i)) (IPv6Interface s))"

definition kamailio_init :: "(string, json) dict \<Rightarrow> raised + kamailio" where
  "kamailio_init config =
     (case linux_init config of
        Inl e \<Rightarrow> Inl e
      | Inr d \<Rightarrow>
          (case get_item config ''options'' of
             Inl e \<Rightarrow> Inl e
           | Inr v \<Rightarrow>
               (case get_static_ipaddress interface_ip (shown v) ''ipv4'' of
                  Inl e \<Rightarrow> Inl e
                | Inr v4 \<Rightarrow>
                    (case get_static_ipaddress interface_ip (shown v) ''ipv6'' of
                       Inl e \<Rightarrow> Inl e
                     | Inr v6 \<Rightarrow> Inr \<lparr>km_device = d, km_ipv4 = v4, km_ipv6 = v6\<rparr>))))"

definition configure_rtpengine :: "kamailio \<Rightarrow> 'w console \<Rightarrow> ('w, unit) io" where
  "configure_rtpengine k c =
     for_each (do_cmd c)
       [''killall -9 rtpengine'', '' rtpengine --listen-ng=localhost:2223 --interface='' @ text_option (km_ipv4 k)]"

definition get_online_users :: "'w console \<Rightarrow> ('w, string) io" where
  "get_online_users c = run_cmd c ''kamctl online''"

definition get_status :: "'w console \<Rightarrow> ('w, string) io" where
  "get_status c =
     seq (run_cmd c ''service kamailio status'') (\<lambda>output.
     ret (if str_in ''kamailio is running'' output then ''Running''
          else if str_in ''command not found'' output then ''Not installed'' else ''Not Running''))"

definition remove_endpoint :: "'w console \<Rightarrow> string \<Rightarrow> ('w, unit) io" where
  "remove_endpoint c endpoint =
     seq (run_cmd c (''kamctl rm '' @ endpoint)) (\<lambda>output.
     if output \<noteq> [] then throw (value_error (''Provided subscriber doesn'' @ [CHR 0x27] @ ''t exist'')) else ret ())"

definition service :: "'w console \<Rightarrow> string \<Rightarrow> ('w, unit) io" where
  "service c verb = do_cmd c (''service kamailio '' @ verb)"

definition restart :: "'w console \<Rightarrow> ('w, unit) io" where "restart c = service c ''restart''"
definition start_server :: "'w console \<Rightarrow> ('w, unit) io" where "start_server c = service c ''start''"
definition stop_server :: "'w console \<Rightarrow> ('w, unit) io" where "stop_server c = service c ''stop''"

definition expire_value :: "string \<Rightarrow> raised + int" where
  "expire_value max_expires = int_of_text (strip whitespace (filter (\<lambda>x. x \<noteq> CHR '')'') (last (split_on (CHR '','') max_expires))))"

definition get_expire_timer :: "kamailio \<Rightarrow> 'w console \<Rightarrow> ('w, int) io" where
  "get_expire_timer k c =
     seq (run_cmd c (''grep --colour=never '' @ quoted ''max_expires'' @ '' '' @ cfg_path k)) (\<lambda>out. lift_sum (expire_value out))"

definition expire_command :: "kamailio \<Rightarrow> int \<Rightarrow> string" where
  "expire_command k to_timer =
     ''sed -i -e '' @
     quoted (''s|'' @ [CHR 0x22] @ ''max_expires'' @ [CHR 0x22] @ '', [[:digit:]]'' @ [CHR 0x5C] @ ''+|'' @ [CHR 0x22] @ ''max_expires'' @
             [CHR 0x22] @ '', '' @ int_str to_timer @ ''|'') @ '' '' @ cfg_path k"

definition set_expire_timer :: "kamailio \<Rightarrow> 'w console \<Rightarrow> int \<Rightarrow> ('w, unit) io" where
  "set_expire_timer k c to_timer = andthen (do_cmd c (expire_command k to_timer)) (restart c)"

text \<open>A password is mandatory, though the interface makes it optional.\<close>

definition add_user :: "'w console \<Rightarrow> string \<Rightarrow> string option \<Rightarrow> ('w, unit) io" where
  "add_user c user pass =
     (case pass of
        None \<Rightarrow> throw (value_error ''Password is mandatory'')
      | Some p \<Rightarrow>
          if p = [] then throw (value_error ''Password is mandatory'')
          else if user = [] then throw (value_error ''User is mandatory'')
          else
            seq (run_cmd c (''kamctl add '' @ user @ '' '' @ p)) (\<lambda>output.
            if \<not> str_in (''new user '' @ quoted user @ '' added'') output then throw (value_error (user @ '' exists already'')) else ret ()))"

text \<open>The table of the database client: three lines of heading, a row for each user, a closing line.\<close>

definition row_user :: "string \<Rightarrow> raised + string" where
  "row_user line =
     (case split_on (CHR ''|'') (strip whitespace line) of _ # u # _ \<Rightarrow> Inr (strip whitespace u) | _ \<Rightarrow> Inl index_error)"

fun row_users :: "string list \<Rightarrow> raised + string list" where
  "row_users [] = Inr []"
| "row_users (l # ls) = (case row_user l of Inl e \<Rightarrow> Inl e | Inr u \<Rightarrow> map_sum id (\<lambda>us. u # us) (row_users ls))"

definition users_query :: "kamailio \<Rightarrow> string" where
  "users_query k =
     ''mysql -u '' @ km_field k ''db_user'' ''root'' @ '' -p'' @ km_field k ''db_pass'' ''test'' @ '' -e '' @ [CHR 0x22] @ ''USE '' @
     km_field k ''db_name'' ''kamailio'' @ '';SELECT username FROM subscriber;'' @ [CHR 0x22]"

definition get_all_users :: "kamailio \<Rightarrow> 'w console \<Rightarrow> ('w, string list) io" where
  "get_all_users k c =
     seq (run_cmd c (users_query k)) (\<lambda>out.
     seq (run_cmd c ''echo $?'') (\<lambda>status.
     if status \<noteq> ''0'' then seq (get_last_output c) (\<lambda>m. throw (voice_error m))
     else lift_sum (row_users (butlast (drop 3 (split_on (CHR 0x0A) (strip whitespace out)))))))"

definition vsc_char :: "char \<Rightarrow> bool" where
  "vsc_char x \<longleftrightarrow> is_digit x \<or> x = CHR ''*'' \<or> x = CHR ''%''"

text \<open>The code of a scope: wild cards and everything but digits, stars and percent signs are dropped.\<close>

definition vsc_code :: "string \<Rightarrow> string \<Rightarrow> string" where
  "vsc_code scope line =
     (let code = filter vsc_char (py_replace ''.*'' [] line)
      in if startswith scope ''set_'' then py_replace ''**'' ''*'' (py_replace ''%23'' [] code)
         else if startswith scope ''unset_'' then py_replace ''%23'' ''#'' code else code)"

definition get_vsc_prefix :: "kamailio \<Rightarrow> 'w console \<Rightarrow> string \<Rightarrow> ('w, string) io" where
  "get_vsc_prefix k c scope =
     (case dict_get vsc_dict scope of
        None \<Rightarrow> throw (value_error (''Invalid scope: '' @ scope))
      | Some v \<Rightarrow>
          (let cf_variable = ''#!define '' @ v
           in seq (run_cmd c (''cat '' @ cfg_path k @ '' | grep '' @ quoted cf_variable)) (\<lambda>code.
              if code = [] then throw (value_error (cf_variable @ '' not found in the config''))
              else if str_in ''No such file or directory'' code then throw (file_not_found ''No such file or directory'')
              else ret (vsc_code scope code))))"

text \<open>\<^verbatim>\<open>re.escape\<close>, and writing the codes of the environment into the configuration.\<close>

definition re_escape :: "string \<Rightarrow> string" where
  "re_escape s =
     concat (map (\<lambda>x. if x \<in> set (''()[]{}?*+-|^$.&~# '' @ map char_of [92, 9, 10, 11, 12, 13::nat]) then [CHR 0x5C, x] else [x]) s)"

definition set_cf_code :: "kamailio \<Rightarrow> 'w console \<Rightarrow> string \<times> json \<Rightarrow> ('w, unit) io" where
  "set_cf_code k c p =
     seq (run_cmd c (''grep '' @ quoted (''#!define '' @ fst p) @ '' '' @ cfg_path k)) (\<lambda>out.
     let current = strip whitespace out
     in if str_in ''No such file or directory'' current
        then throw (file_not_found (''Kamailio config not found in defined path: '' @ cfg_path k))
        else if current = [] then throw (value_error (fst p @ '' not found in the config. Check kamailio running config.''))
        else do_cmd c (''sed -i '' @
               quoted (''s|'' @ re_escape current @ ''|'' @
                 re_escape (''#!define '' @ fst p @ '' '' @ [CHR 0x22] @ shown (snd p) @ [CHR 0x22]) @ ''|'') @ '' '' @ cfg_path k))"

definition set_cf_vsc :: "kamailio \<Rightarrow> 'w console \<Rightarrow> ('w, unit) io" where
  "set_cf_vsc k c =
     seq (lift_sum (get_item (ld_config (km_device k)) ''cf_vsc'')) (\<lambda>v.
     case v of JObj ps \<Rightarrow> for_each (set_cf_code k c) ps | _ \<Rightarrow> throw attribute_error)"

definition list_repr :: "string list \<Rightarrow> string" where
  "list_repr ss = ''['' @ join '', '' (map py_repr ss) @ '']''"

definition allocate_number :: "kamailio \<Rightarrow> json \<Rightarrow> raised + string" where
  "allocate_number k number =
     (let fail = (\<lambda>us. Inl (voice_error (''provided number:- '' @ shown number @ '',not present in the user list '' @ us)))
      in case km_users k of
           JList vs \<Rightarrow> if truthy number \<and> number \<in> set vs then Inr (shown number) else fail (list_repr (map shown vs))
         | v \<Rightarrow> if truthy number then Inl type_error else fail (shown v))"

text \<open>
  Configuring: the users of the database are removed, those of the inventory added, the media proxy
  restarted and the timer set, which restarts the server. The users of the inventory are what iterating
  over \<^verbatim>\<open>numbers\<close> gives: the items of a list, the characters of a text, the keys of an object.
\<close>

definition iterated :: "json \<Rightarrow> raised + json list" where
  "iterated v =
     (case v of
        JList vs \<Rightarrow> Inr vs
      | JStr s \<Rightarrow> Inr (map (\<lambda>c. JStr [c]) s)
      | JObj ps \<Rightarrow> Inr (map (\<lambda>p. JStr (fst p)) ps)
      | _ \<Rightarrow> Inl type_error)"

definition server_configure :: "kamailio \<Rightarrow> 'w console \<Rightarrow> ('w, unit) io" where
  "server_configure k c =
     andthen (setup_static_routes (km_device k) c)
     (seq (get_all_users k c) (\<lambda>existing.
      andthen (for_each (remove_endpoint c) existing)
      (andthen
        (seq (lift_sum (iterated (km_users k)))
           (for_each (\<lambda>v. add_user c (if truthy v then shown v else []) (Some (user_pass k)))))
      (andthen (configure_rtpengine k c) (set_expire_timer k c 180)))))"

section \<open>The interfaces\<close>

record 'w voice_client =
  vc_id :: nat
  vc_name :: string
  vc_number :: "('w, json) io"
  vc_dial :: "json \<Rightarrow> ('w, unit) io"
  vc_start :: "('w, unit) io"
  vc_kill :: "('w, unit) io"
  vc_on_hook :: "('w, unit) io"
  vc_off_hook :: "('w, unit) io"
  vc_answer :: "('w, bool) io"
  vc_hold :: "('w, unit) io"
  vc_off_hold :: "('w, unit) io"
  vc_is_ringing :: "('w, bool) io"
  vc_is_connected :: "('w, bool) io"
  vc_is_incall_connected :: "('w, bool) io"
  vc_is_code_ended :: "('w, bool) io"
  vc_is_line_busy :: "('w, bool) io"
  vc_detect_dialtone :: "('w, bool) io"

record 'w voice_server =
  vs_start_tcpdump :: "string \<Rightarrow> string \<Rightarrow> ('w, string) io"
  vs_stop_tcpdump :: "string \<Rightarrow> ('w, unit) io"
  vs_online_users :: "('w, string) io"
  vs_user_add :: "string \<Rightarrow> string option \<Rightarrow> ('w, unit) io"
  vs_remove :: "string \<Rightarrow> ('w, unit) io"
  vs_restart :: "('w, unit) io"
  vs_status :: "('w, string) io"
  vs_set_expire :: "int \<Rightarrow> ('w, unit) io"
  vs_get_expire :: "('w, int) io"
  vs_vsc_prefix :: "string \<Rightarrow> ('w, string) io"
  vs_start :: "('w, unit) io"
  vs_stop :: "('w, unit) io"

text \<open>The phone and the server as such; a number that is no text cannot be joined to the address.\<close>

definition pjsip_client :: "nat \<Rightarrow> string \<Rightarrow> 'w pjsip_phone \<Rightarrow> ('w \<times> phone_state) voice_client" where
  "pjsip_client i name p =
     \<lparr>vc_id = i, vc_name = name, vc_number = reading (\<lambda>s. ps_number (snd s)),
      vc_dial = \<lambda>v. (case v of JStr n \<Rightarrow> dial p n | _ \<Rightarrow> started_phone (andthen (select_make_call p) (throw type_error))),
      vc_start = phone_start p, vc_kill = phone_kill p, vc_on_hook = on_hook p, vc_off_hook = off_hook p, vc_answer = answer_phone p,
      vc_hold = hold_call p, vc_off_hold = phone_offhold p, vc_is_ringing = is_ringing p, vc_is_connected = is_connected p,
      vc_is_incall_connected = is_incall_connected p, vc_is_code_ended = is_code_ended p, vc_is_line_busy = is_line_busy p,
      vc_detect_dialtone = detect_dialtone p\<rparr>"

definition kamailio_server :: "kamailio \<Rightarrow> 'w console \<Rightarrow> 'w voice_server" where
  "kamailio_server k c =
     \<lparr>vs_start_tcpdump = \<lambda>fname more_filters. start_tcpdump c ''eth1'' None fname None (Some more_filters),
      vs_stop_tcpdump = stop_tcpdump c, vs_online_users = get_online_users c, vs_user_add = add_user c,
      vs_remove = remove_endpoint c, vs_restart = restart c, vs_status = get_status c, vs_set_expire = set_expire_timer k c,
      vs_get_expire = get_expire_timer k c, vs_vsc_prefix = get_vsc_prefix k c, vs_start = start_server c, vs_stop = stop_server c\<rparr>"

section \<open>The use cases\<close>

definition voice_tcpdump :: "'w voice_server \<Rightarrow> string \<Rightarrow> string \<Rightarrow> (string \<Rightarrow> ('w, 'a) io) \<Rightarrow> ('w, 'a) io" where
  "voice_tcpdump dev fname filters body w =
     (case vs_start_tcpdump dev fname (''-s0 '' @ filters) w of
        (Inl e, w') \<Rightarrow> (Inl (unbound_local ''pid''), w')
      | (Inr pid, w') \<Rightarrow> lastly (body pid) (vs_stop_tcpdump dev pid) w')"

definition call_a_phone :: "'w voice_client \<Rightarrow> 'w voice_client \<Rightarrow> ('w, unit) io" where
  "call_a_phone caller callee =
     catch
       (if vc_id caller = vc_id callee then throw (py_error PyException ''AssertionError'' ''Caller and Callee cannot be same!'')
        else seq (vc_number callee) (vc_dial caller))
       (\<lambda>_. True)
       (\<lambda>_. throw (voice_error (''Failed to initiate a call between: '' @ vc_name caller @ '' --> '' @ vc_name callee)))"

definition answer_a_call :: "'w voice_client \<Rightarrow> ('w, bool) io" where
  "answer_a_call p =
     seq (vc_is_ringing p) (\<lambda>ringing.
     if \<not> ringing then throw (voice_error (vc_name p @ '' is not ringing!!''))
     else andthen (vc_answer p) (vc_is_connected p))"

definition disconnect_the_call :: "'w voice_client \<Rightarrow> ('w, bool) io" where
  "disconnect_the_call p =
     andthen
       (catch (vc_on_hook p) (\<lambda>_. True) (\<lambda>_. throw (voice_error (''Failed to disconnect the call: '' @ vc_name p))))
       (ret True)"

definition is_dialtone_detected :: "'w voice_client \<Rightarrow> ('w, bool) io" where
  "is_dialtone_detected p = andthen (vc_on_hook p) (vc_detect_dialtone p)"

definition line_busy_case :: "'w voice_client \<Rightarrow> 'w voice_client \<Rightarrow> ('w, bool) io" where
  "line_busy_case on_which who_is_busy =
     (if vc_id on_which = vc_id who_is_busy then throw (py_error PyException ''AssertionError'' ''Both args cannot be same'')
      else vc_is_line_busy on_which)"

definition initialize_phone :: "'w voice_client \<Rightarrow> ('w, unit) io" where
  "initialize_phone p = andthen (vc_start p) (vc_on_hook p)"

definition shutdown_phone :: "'w voice_client \<Rightarrow> ('w, unit) io" where
  "shutdown_phone p = andthen (catch (vc_on_hook p) (\<lambda>_. True) (\<lambda>_. ret ())) (vc_kill p)"

text \<open>Whether the call is also a second one is asked only when the first answer is no.\<close>

definition place_call_onhold :: "'w voice_client \<Rightarrow> ('w, unit) io" where
  "place_call_onhold p =
     seq (vc_is_connected p) (\<lambda>connected.
     seq (if connected then ret True else vc_is_incall_connected p) (\<lambda>active.
     if \<not> active then throw (voice_error ''No active call in place!!'') else vc_hold p))"

text \<open>Dialling a feature code is code of the template.\<close>

definition dial_feature_code :: "'w voice_client \<Rightarrow> string \<Rightarrow> ('w, unit) io" where
  "dial_feature_code p code =
     andthen (vc_dial p (JStr code))
     (seq (vc_is_code_ended p) (\<lambda>ended.
      if \<not> ended then throw (voice_error (''Call not ended after dialing a feature code: '' @ code)) else vc_on_hook p))"

definition forwarding_code :: "string \<Rightarrow> string \<Rightarrow> string" where
  "forwarding_code vsc number = (if endswith vsc ''#'' then butlast vsc @ number @ ''#'' else vsc @ number)"

definition enable_forwarding :: "string \<Rightarrow> 'w voice_client \<Rightarrow> 'w voice_client \<Rightarrow> 'w voice_server \<Rightarrow> ('w, unit) io" where
  "enable_forwarding scope who forward_to srv =
     seq (vs_vsc_prefix srv scope) (\<lambda>vsc.
     seq (vc_number forward_to) (\<lambda>n. dial_feature_code who (forwarding_code vsc (shown n))))"

definition disable_forwarding :: "string \<Rightarrow> 'w voice_client \<Rightarrow> 'w voice_server \<Rightarrow> ('w, unit) io" where
  "disable_forwarding scope who srv = seq (vs_vsc_prefix srv scope) (dial_feature_code who)"

definition enable_call_forwarding_busy :: "'w voice_client \<Rightarrow> 'w voice_client \<Rightarrow> 'w voice_server \<Rightarrow> ('w, unit) io" where
  "enable_call_forwarding_busy = enable_forwarding ''set_cf_busy''"

definition enable_call_forwarding_no_answer :: "'w voice_client \<Rightarrow> 'w voice_client \<Rightarrow> 'w voice_server \<Rightarrow> ('w, unit) io" where
  "enable_call_forwarding_no_answer = enable_forwarding ''set_cf_no_answer''"

definition enable_unconditional_call_forwarding :: "'w voice_client \<Rightarrow> 'w voice_client \<Rightarrow> 'w voice_server \<Rightarrow> ('w, unit) io" where
  "enable_unconditional_call_forwarding = enable_forwarding ''set_cf_unconditional''"

definition disable_call_forwarding_busy :: "'w voice_client \<Rightarrow> 'w voice_server \<Rightarrow> ('w, unit) io" where
  "disable_call_forwarding_busy = disable_forwarding ''unset_cf_busy''"

definition disable_call_forwarding_no_answer :: "'w voice_client \<Rightarrow> 'w voice_server \<Rightarrow> ('w, unit) io" where
  "disable_call_forwarding_no_answer = disable_forwarding ''unset_cf_no_answer''"

definition disable_unconditional_call_forwarding :: "'w voice_client \<Rightarrow> 'w voice_server \<Rightarrow> ('w, unit) io" where
  "disable_unconditional_call_forwarding = disable_forwarding ''unset_cf_unconditional''"

text \<open>A user counts as registered when the number occurs anywhere in the listing.\<close>

definition is_user_profile_present :: "'w voice_server \<Rightarrow> 'w voice_client \<Rightarrow> ('w, bool) io" where
  "is_user_profile_present srv p =
     seq (vc_number p) (\<lambda>n.
     seq (vs_online_users srv) (\<lambda>users. case n of JStr s \<Rightarrow> ret (str_in s users) | _ \<Rightarrow> throw type_error))"

definition remove_user_profile :: "'w voice_server \<Rightarrow> 'w voice_client \<Rightarrow> ('w, unit) io" where
  "remove_user_profile srv p =
     seq (is_user_profile_present srv p) (\<lambda>present.
     if \<not> present then throw (voice_error (''User '' @ vc_name p @ '' is not registered''))
     else seq (vc_number p) (\<lambda>n. andthen (vs_remove srv (shown n)) (vs_restart srv)))"

definition add_user_profile :: "'w voice_server \<Rightarrow> 'w voice_client \<Rightarrow> ('w, unit) io" where
  "add_user_profile srv p =
     seq (is_user_profile_present srv p) (\<lambda>present.
     if present then throw (voice_error (''User '' @ vc_name p @ '' is already registered''))
     else seq (vc_number p) (\<lambda>n. andthen (vs_user_add srv (shown n) None) (vs_restart srv)))"

definition if_installed :: "'w voice_server \<Rightarrow> ('w, 'a) io \<Rightarrow> ('w, 'a) io" where
  "if_installed srv m =
     seq (vs_status srv) (\<lambda>status.
     if status \<in> {''Not installed'', ''Not Running''} then throw (voice_error ''Install the sipserver first'') else m)"

definition set_sip_expiry_time :: "'w voice_server \<Rightarrow> int \<Rightarrow> ('w, unit) io" where
  "set_sip_expiry_time srv to_what_time = if_installed srv (vs_set_expire srv to_what_time)"

definition get_sip_expiry_time :: "'w voice_server \<Rightarrow> ('w, int) io" where
  "get_sip_expiry_time srv = if_installed srv (vs_get_expire srv)"

definition stop_and_start_sip_server :: "'w voice_server \<Rightarrow> ('w, 'a) io \<Rightarrow> ('w, 'a) io" where
  "stop_and_start_sip_server srv body = lastly (andthen (vs_stop srv) body) (vs_start srv)"

section \<open>The contract of a phone\<close>

text \<open>
  What the use cases rely on: starting ends with the phone up, putting it on hook does not change that and is
  refused while it is down, ending it takes it down, and a phone that is down never says it is ringing.
\<close>

locale voice_phone =
  fixes p :: "'w voice_client" and up :: "'w \<Rightarrow> bool"
  assumes start_up: "vc_start p w = (Inr (), w') \<Longrightarrow> up w'"
    and hook_same: "up (snd (vc_on_hook p w)) = up w"
    and kill_down: "vc_kill p w = (Inr (), w') \<Longrightarrow> up w \<and> \<not> up w'"
    and down_refused: "\<not> up w \<Longrightarrow> \<exists>e. vc_is_ringing p w = (Inl e, w) \<and> vc_on_hook p w = (Inl e, w) \<and> vc_kill p w = (Inl e, w)"
begin

lemma initialized_up: "initialize_phone p w = (Inr (), w') \<Longrightarrow> up w'"
  using hook_same start_up by (auto simp: initialize_phone_def andthen_ok) (metis snd_conv)

lemma shut_down: 
  assumes "shutdown_phone p w = (Inr (), w')"
  shows "up w \<and> \<not> up w'"
proof -
  obtain w1 where k: "vc_kill p w1 = (Inr (), w')" and c: "catch (vc_on_hook p) (\<lambda>_. True) (\<lambda>_. ret ()) w = (Inr (), w1)"
    using assms by (auto simp: shutdown_phone_def andthen_ok)
  have "w1 = snd (vc_on_hook p w)" using c by (auto simp: catch_def split: prod.splits sum.splits)
  then show ?thesis using k kill_down hook_same by metis
qed

lemma shut_down_twice: "\<not> up w \<Longrightarrow> \<exists>e. shutdown_phone p w = (Inl e, w)"
  using down_refused [of w] by (auto simp: shutdown_phone_def andthen_def seq_def catch_def ret_def)

lemma answering_up: "answer_a_call p w = (Inr b, w') \<Longrightarrow> up w"
  using down_refused [of w] by (cases "up w") (auto simp: answer_a_call_def seq_def)

end

lemma pjsip_client_simps [simp]:
  "vc_start (pjsip_client i n p) = phone_start p" "vc_kill (pjsip_client i n p) = phone_kill p"
  "vc_on_hook (pjsip_client i n p) = on_hook p" "vc_is_ringing (pjsip_client i n p) = is_ringing p"
  by (simp_all add: pjsip_client_def)

lemma killed_down: "phone_kill p s = (Inr (), s') \<Longrightarrow> ps_started (snd s) \<and> \<not> ps_started (snd s')"
  by (auto simp: phone_kill_def started_phone_def andthen_ok assign_def throw_def split: if_splits)

lemma start_ok_up: "phone_start p s = (Inr (), s') \<Longrightarrow> ps_started (snd s')"
  using start_outcome [where p = p and s = s] by simp

interpretation pjsip_voice: voice_phone "pjsip_client i n p" "\<lambda>s. ps_started (snd s)" for i :: nat and n :: string and p :: "'w pjsip_phone"
proof
  fix w w' :: "'w \<times> phone_state"
  show "vc_start (pjsip_client i n p) w = (Inr (), w') \<Longrightarrow> ps_started (snd w')" by (simp add: start_ok_up)
  show "ps_started (snd (snd (vc_on_hook (pjsip_client i n p) w))) = ps_started (snd w)"
    using keepsD [OF hook_keeps(2) [of p], of w] by (simp add: same_state_def)
  show "vc_kill (pjsip_client i n p) w = (Inr (), w') \<Longrightarrow> ps_started (snd w) \<and> \<not> ps_started (snd w')"
    by (simp add: killed_down)
  show "\<exists>e. vc_is_ringing (pjsip_client i n p) w = (Inl e, w) \<and> vc_on_hook (pjsip_client i n p) w = (Inl e, w) \<and>
      vc_kill (pjsip_client i n p) w = (Inl e, w)" if "\<not> ps_started (snd w)"
    by (simp add: is_ringing_def on_hook_def phone_kill_def refused [OF that])
qed

section \<open>Properties\<close>

text \<open>C29: the life of a phone: initialising it that returns leaves it started, shutting it down that returns
  found it started and leaves it stopped, and a call is answered only on a started phone; shutting down a
  phone that is not started raises and changes nothing.\<close>

theorem voice_phone_lifecycle:
  "(initialize_phone (pjsip_client i n p) s = (Inr (), s') \<longrightarrow> ps_started (snd s')) \<and>
   (shutdown_phone (pjsip_client i n p) s = (Inr (), s') \<longrightarrow> ps_started (snd s) \<and> \<not> ps_started (snd s')) \<and>
   (answer_a_call (pjsip_client i n p) s = (Inr b, s') \<longrightarrow> ps_started (snd s)) \<and>
   (\<not> ps_started (snd s) \<longrightarrow> (\<exists>e. shutdown_phone (pjsip_client i n p) s = (Inl e, s)))"
  using pjsip_voice.initialized_up [of i n p s s'] pjsip_voice.shut_down [of i n p s s'] pjsip_voice.answering_up [of i n p s b s']
    pjsip_voice.shut_down_twice [of s i n p] by blast

theorem voice_phone_lifecycle_witness:
  "\<exists>s. shutdown_phone (pjsip_client 0 ''sip'' sample_phone) started_sample = (Inr (), s) \<and> \<not> ps_started (snd s) \<and>
     (\<exists>e. shutdown_phone (pjsip_client 0 ''sip'' sample_phone) s = (Inl e, s))"
proof -
  have "case shutdown_phone (pjsip_client 0 ''sip'' sample_phone) started_sample of (Inr _, _) \<Rightarrow> True | _ \<Rightarrow> False" by code_simp
  then obtain s where s: "shutdown_phone (pjsip_client 0 ''sip'' sample_phone) started_sample = (Inr (), s)"
    by (simp split: prod.splits sum.splits)
  then show ?thesis using voice_phone_lifecycle [of 0 "''sip''" sample_phone] by blast
qed

text \<open>adding a user profile never succeeds: the use case gives no password, and the server takes no user
  without one.\<close>

theorem user_profile_never_added:
  "fst (add_user_profile (kamailio_server k c) who w) \<noteq> Inr ()"
  by (auto simp: add_user_profile_def kamailio_server_def add_user_def andthen_def seq_def throw_def
      split: prod.splits sum.splits)

text \<open>A number is taken for registered when it is part of a longer one.\<close>

lemma profile_of_longer_number:
  assumes "vc_number p w = (Inr (JStr n), w1)" and "vs_online_users srv w1 = (Inr (a @ n @ b), w2)"
  shows "is_user_profile_present srv p w = (Inr True, w2)"
  using assms by (simp add: is_user_profile_present_def seq_def ret_def str_in_iff) blast

text \<open>The table the database client prints.\<close>

definition user_row :: "string \<times> nat \<Rightarrow> string" where
  "user_row r = ''| '' @ fst r @ replicate (snd r) (CHR '' '') @ '' |''"

definition ruled :: "nat \<Rightarrow> string" where
  "ruled n = ''+'' @ replicate n (CHR ''-'') @ ''+''"

definition user_table :: "nat \<Rightarrow> string \<times> nat \<Rightarrow> (string \<times> nat) list \<Rightarrow> string" where
  "user_table n heading rows =
     join [CHR 0x0A] ([ruled n, user_row heading, ruled n] @ map user_row rows @ [ruled n])"

definition good_user :: "string \<Rightarrow> bool" where
  "good_user u \<longleftrightarrow> CHR ''|'' \<notin> set u \<and> CHR 0x0A \<notin> set u \<and> strip whitespace u = u"

lemma user_row_read: "good_user (fst r) \<Longrightarrow> row_user (user_row r) = Inr (fst r)"
proof -
  assume g: "good_user (fst r)"
  let ?b = "'' '' @ fst r @ replicate (snd r) (CHR '' '') @ '' ''"
  have bar: "CHR ''|'' \<notin> set whitespace" "CHR '' '' \<in> set whitespace" by code_simp+
  have row: "user_row r = ''|'' @ ?b @ ''|''" by (simp add: user_row_def)
  have "strip whitespace (user_row r) = user_row r"
    unfolding row using bar by (simp add: strip_def lstrip_def rstrip_def)
  moreover have "split_on (CHR ''|'') (user_row r) = [[], ?b, []]"
    using g split_on_append [of "CHR ''|''" ?b "[]"] unfolding row by (simp add: good_user_def)
  moreover have "strip whitespace ?b = strip whitespace (fst r)"
    using bar by (intro strip_blanks [of "'' ''" _ "replicate (snd r) (CHR '' '') @ '' ''", simplified append_assoc]) auto
  ultimately show ?thesis using g by (simp add: row_user_def good_user_def)
qed

lemma user_rows_read: "list_all (\<lambda>r. good_user (fst r)) rows \<Longrightarrow> row_users (map user_row rows) = Inr (map fst rows)"
  by (induction rows) (simp_all add: user_row_read)

lemma no_newline: "good_user (fst r) \<Longrightarrow> CHR 0x0A \<notin> set (user_row r)" "CHR 0x0A \<notin> set (ruled n)"
  by (simp_all add: good_user_def user_row_def ruled_def)

lemma table_lines:
  assumes "good_user (fst heading)" and "list_all (\<lambda>r. good_user (fst r)) rows"
  shows "split_on (CHR 0x0A) (strip whitespace (user_table n heading rows)) =
    [ruled n, user_row heading, ruled n] @ map user_row rows @ [ruled n]"
proof -
  let ?ls = "[ruled n, user_row heading, ruled n] @ map user_row rows @ [ruled n]"
  have "list_all (\<lambda>l. CHR 0x0A \<notin> set l) ?ls"
    using assms by (auto simp: list_all_iff no_newline)
  then have split: "split_on (CHR 0x0A) (join [CHR 0x0A] ?ls) = ?ls"
    by (intro split_on_join) (auto simp: list_all_iff)
  have ends: "join [c] (ls @ [l]) = (if ls = [] then l else join [c] ls @ [c] @ l)" for c l ls
    by (induction ls) (auto simp: join_Cons)
  obtain m where m: "user_table n heading rows = ''+'' @ m" by (simp add: user_table_def ruled_def)
  obtain m' where m': "user_table n heading rows = m' @ ''+''"
    using ends [of "CHR 0x0A" "[ruled n, user_row heading, ruled n] @ map user_row rows" "ruled n"]
    by (auto simp: user_table_def ruled_def)
  have plus: "CHR ''+'' \<notin> set whitespace" by code_simp
  then have "rstrip whitespace (user_table n heading rows) = user_table n heading rows"
    by (intro rstrip_id) (simp add: m')
  then have "strip whitespace (user_table n heading rows) = user_table n heading rows"
    using plus by (simp add: strip_def lstrip_def m)
  then show ?thesis using split by (simp add: user_table_def)
qed

text \<open>C30: the users the database client prints are read back: the rows of its table, each name padded to the
  width of the column, give the names in order.\<close>

theorem kamailio_users_roundtrip:
  assumes "good_user (fst heading)" and "list_all (\<lambda>r. good_user (fst r)) rows"
    and "run_cmd c (users_query k) w = (Inr (user_table n heading rows), w1)" and "run_cmd c ''echo $?'' w1 = (Inr ''0'', w2)"
  shows "get_all_users k c w = (Inr (map fst rows), w2)"
  using assms(3,4) table_lines [OF assms(1,2)] user_rows_read [OF assms(2)]
  by (simp add: get_all_users_def seq_def lift_sum_def)

definition listing_users :: answers where
  "listing_users = (sample_device 0)\<lparr>dv_output := \<lambda>tr. Inr
     (if length tr = 1 then user_table 10 (''username'', 0) [(''1000'', 4), (''1001'', 4)] else ''0'')\<rparr>"

definition sample_kamailio :: kamailio where
  "sample_kamailio = \<lparr>km_device = sample_linux, km_ipv4 = None, km_ipv6 = None\<rparr>"

theorem kamailio_users_roundtrip_witness:
  "\<exists>w. get_all_users sample_kamailio (recorded listing_users) [] = (Inr [''1000'', ''1001''], w)"
proof -
  let ?rows = "[(''1000'', 4), (''1001'', 4)] :: (string \<times> nat) list"
  have g: "good_user (fst (''username'', 0 :: nat))" "list_all (\<lambda>r. good_user (fst r)) ?rows" by code_simp+
  have 1: "run_cmd (recorded listing_users) (users_query sample_kamailio) [] =
      (Inr (user_table 10 (''username'', 0) ?rows), [Executed (users_query sample_kamailio) (-1)])"
    by (simp add: run_cmd_def listing_users_def)
  have 2: "run_cmd (recorded listing_users) ''echo $?'' [Executed (users_query sample_kamailio) (-1)] =
      (Inr ''0'', [Executed (users_query sample_kamailio) (-1), Executed ''echo $?'' (-1)])"
    by (simp add: run_cmd_def listing_users_def)
  from kamailio_users_roundtrip [OF g 1 2] show ?thesis by simp
qed

text \<open>forwarding dials what the server names: the code of a setting scope is made of digits, stars and
  percent signs, so the case of a trailing hash never arises and the dialled text is the code followed by
  the number.\<close>

lemma py_replace_set: "set (py_replace a b s) \<subseteq> set s \<union> set b"
proof (induction a b s rule: py_replace.induct)
  case (2 old new c s)
  have "set (drop (length old) (c # s)) \<subseteq> set (c # s)" by (rule set_drop_subset)
  then show ?case using 2 by auto
qed simp

lemma set_code_chars: "startswith scope ''set_'' \<Longrightarrow> list_all vsc_char (vsc_code scope line)"
proof -
  assume s: "startswith scope ''set_''"
  let ?f = "filter vsc_char (py_replace ''.*'' [] line)"
  have "set (vsc_code scope line) \<subseteq> set ?f \<union> {CHR ''*''}"
    using s py_replace_set [of "''**''" "''*''" "py_replace ''%23'' [] ?f"] py_replace_set [of "''%23''" "[]" ?f]
    by (auto simp: vsc_code_def Let_def)
  then show ?thesis by (auto simp: list_all_iff vsc_char_def)
qed

theorem forwarding_dials_code:
  assumes "scope \<in> {''set_cf_busy'', ''set_cf_no_answer'', ''set_cf_unconditional''}"
    and "get_vsc_prefix k c scope w = (Inr vsc, w1)" and "vc_number to w1 = (Inr (JStr n), w2)"
  shows "enable_forwarding scope who to (kamailio_server k c) w = dial_feature_code who (vsc @ n) w2"
proof -
  have s: "startswith scope ''set_''" using assms(1) by (auto simp: startswith_def)
  obtain line where "vsc = vsc_code scope line"
    using assms(2) by (auto simp: get_vsc_prefix_def Let_def seq_ok throw_def split: option.splits if_splits)
  then have "list_all vsc_char vsc" using set_code_chars [OF s] by simp
  then have "\<not> endswith vsc ''#''" by (auto simp: endswith_iff vsc_char_def is_digit_def)
  then have "forwarding_code vsc n = vsc @ n" by (simp add: forwarding_code_def)
  then show ?thesis using assms(2,3) by (simp add: enable_forwarding_def kamailio_server_def seq_def shown_def)
qed

definition vsc_device :: answers where
  "vsc_device = (sample_device 0)\<lparr>dv_output := \<lambda>_. Inr (''#!define CFB_SET '' @ [CHR 0x22] @ ''*90*'' @ [CHR 0x22])\<rparr>"

definition callee :: "action list voice_client" where
  "callee =
     \<lparr>vc_id = 1, vc_name = ''fxs2'', vc_number = ret (JStr ''1001''), vc_dial = \<lambda>_. ret (), vc_start = ret (), vc_kill = ret (),
      vc_on_hook = ret (), vc_off_hook = ret (), vc_answer = ret True, vc_hold = ret (), vc_off_hold = ret (), vc_is_ringing = ret True,
      vc_is_connected = ret True, vc_is_incall_connected = ret True, vc_is_code_ended = ret True, vc_is_line_busy = ret False,
      vc_detect_dialtone = ret True\<rparr>"

theorem forwarding_dials_code_witness:
  "\<exists>w. enable_forwarding ''set_cf_busy'' who callee (kamailio_server sample_kamailio (recorded vsc_device)) [] =
     dial_feature_code who ''*90*1001'' w"
proof -
  have c: "case get_vsc_prefix sample_kamailio (recorded vsc_device) ''set_cf_busy'' [] of (Inr v, _) \<Rightarrow> v = ''*90*'' | _ \<Rightarrow> False"
    by code_simp
  then obtain w1 where "get_vsc_prefix sample_kamailio (recorded vsc_device) ''set_cf_busy'' [] = (Inr ''*90*'', w1)"
    by (simp split: prod.splits sum.splits)
  moreover have "vc_number callee w1 = (Inr (JStr ''1001''), w1)" by (simp add: callee_def)
  ultimately have "enable_forwarding ''set_cf_busy'' who callee (kamailio_server sample_kamailio (recorded vsc_device)) [] =
      dial_feature_code who (''*90*'' @ ''1001'') w1"
    by (intro forwarding_dials_code) simp_all
  then show ?thesis by auto
qed

text \<open>Doubled stars are replaced once, from the left, so a code can still have two in a row.\<close>

lemma stars_remain: "vsc_code ''set_cf_busy'' ''***90***'' = ''**90**''"
  by code_simp

lemma for_each_commands:
  assumes "\<And>x tr tr'. f x tr = (Inr (), tr') \<Longrightarrow> tr' = tr @ [g x]" and "for_each f xs tr = (Inr (), tr')"
  shows "tr' = tr @ map g xs"
  using assms(2)
proof (induction xs arbitrary: tr)
  case (Cons x xs)
  then obtain tr1 where "f x tr = (Inr (), tr1)" "for_each f xs tr1 = (Inr (), tr')" by (auto simp: andthen_ok)
  then show ?case using assms(1) Cons.IH by fastforce
qed simp

lemma removed_trace: "remove_endpoint (recorded d) u tr = (Inr (), tr') \<Longrightarrow> tr' = tr @ [Executed (''kamctl rm '' @ u) (-1)]"
  by (auto simp: remove_endpoint_def run_cmd_def seq_ok split: if_splits)

lemma added_trace:
  "add_user (recorded d) u (Some p) tr = (Inr (), tr') \<Longrightarrow> tr' = tr @ [Executed (''kamctl add '' @ u @ '' '' @ p) (-1)]"
  by (auto simp: add_user_def run_cmd_def seq_ok split: if_splits)

lemma added_value:
  "add_user (recorded d) (if truthy v then shown v else []) (Some p) tr = (Inr (), tr') \<Longrightarrow>
   tr' = tr @ [Executed (''kamctl add '' @ shown v @ '' '' @ p) (-1)]"
  using added_trace [of d "shown v" p tr tr'] by (cases "truthy v") (simp_all add: add_user_def throw_def split: if_splits)

text \<open>C31: configuring the server replaces its users: when it returns, exactly the users the database listed were
  removed, then exactly those of the inventory added, in order, then the media proxy started anew, the timer
  written and the server restarted.\<close>

theorem server_configure_replaces_users:
  assumes "server_configure k (recorded d) tr = (Inr (), tr')"
  shows "\<exists>tr1 tr2 existing vs. setup_static_routes (km_device k) (recorded d) tr = (Inr (), tr1) \<and>
    get_all_users k (recorded d) tr1 = (Inr existing, tr2) \<and> iterated (km_users k) = Inr vs \<and>
    tr' = tr2 @ map (\<lambda>u. Executed (''kamctl rm '' @ u) (-1)) existing @
      map (\<lambda>v. Executed (''kamctl add '' @ shown v @ '' '' @ user_pass k) (-1)) vs @
      map (\<lambda>s. Executed s (-1))
        [''killall -9 rtpengine'', '' rtpengine --listen-ng=localhost:2223 --interface='' @ text_option (km_ipv4 k),
         expire_command k 180, ''service kamailio restart'']"
proof -
  obtain tr1 tr2 tr3 tr4 existing where r: "setup_static_routes (km_device k) (recorded d) tr = (Inr (), tr1)"
    "get_all_users k (recorded d) tr1 = (Inr existing, tr2)" "for_each (remove_endpoint (recorded d)) existing tr2 = (Inr (), tr3)"
    "seq (lift_sum (iterated (km_users k)))
       (for_each (\<lambda>v. add_user (recorded d) (if truthy v then shown v else []) (Some (user_pass k)))) tr3 = (Inr (), tr4)"
    "andthen (configure_rtpengine k (recorded d)) (set_expire_timer k (recorded d) 180) tr4 = (Inr (), tr')"
    using assms by (auto simp: server_configure_def andthen_ok seq_ok)
  obtain vs where vs: "iterated (km_users k) = Inr vs"
    "for_each (\<lambda>v. add_user (recorded d) (if truthy v then shown v else []) (Some (user_pass k))) vs tr3 = (Inr (), tr4)"
    using r(4) by (auto simp: seq_ok lift_sum_def split: sum.splits)
  have "tr3 = tr2 @ map (\<lambda>u. Executed (''kamctl rm '' @ u) (-1)) existing"
    by (rule for_each_commands [OF removed_trace r(3)])
  moreover have "tr4 = tr3 @ map (\<lambda>v. Executed (''kamctl add '' @ shown v @ '' '' @ user_pass k) (-1)) vs"
    by (rule for_each_commands [OF added_value vs(2)])
  moreover have "tr' = tr4 @ map (\<lambda>s. Executed s (-1))
        [''killall -9 rtpengine'', '' rtpengine --listen-ng=localhost:2223 --interface='' @ text_option (km_ipv4 k),
         expire_command k 180, ''service kamailio restart'']"
    using r(5) by (auto simp: configure_rtpengine_def set_expire_timer_def restart_def service_def andthen_ok do_cmd_ok)
  ultimately show ?thesis using r(1,2) vs(1) by auto
qed

definition configuring_device :: answers where
  "configuring_device = (sample_device 0)\<lparr>dv_output := \<lambda>tr.
     Inr (if last tr = Executed ''echo $?'' (-1) then ''0''
          else if last tr = Executed ''kamctl add 1000 1234'' (-1) then ''new user '' @ quoted ''1000'' @ '' added'' else [])\<rparr>"

definition listed_kamailio :: kamailio where
  "listed_kamailio = sample_kamailio\<lparr>km_device := sample_linux\<lparr>ld_config := [(''numbers'', JList [JStr ''1000''])]\<rparr>\<rparr>"

theorem server_configure_replaces_users_witness:
  "\<exists>tr' tr2. server_configure listed_kamailio (recorded configuring_device) [] = (Inr (), tr') \<and>
     tr' = tr2 @ map (\<lambda>s. Executed s (-1))
       [''kamctl add 1000 1234'', ''killall -9 rtpengine'', '' rtpengine --listen-ng=localhost:2223 --interface=None'',
        expire_command listed_kamailio 180, ''service kamailio restart'']"
proof -
  have "case server_configure listed_kamailio (recorded configuring_device) [] of (Inr _, _) \<Rightarrow> True | _ \<Rightarrow> False" by code_simp
  then obtain tr' where r: "server_configure listed_kamailio (recorded configuring_device) [] = (Inr (), tr')"
    by (simp split: prod.splits sum.splits)
  have e: "case setup_static_routes (km_device listed_kamailio) (recorded configuring_device) [] of
      (Inr _, tr1) \<Rightarrow> (case get_all_users listed_kamailio (recorded configuring_device) tr1 of (Inr us, _) \<Rightarrow> us = [] | _ \<Rightarrow> False)
    | _ \<Rightarrow> False" by code_simp
  have u: "km_users listed_kamailio = JList [JStr ''1000'']" "user_pass listed_kamailio = ''1234''" "shown (JStr ''1000'') = ''1000''"
    "text_option (km_ipv4 listed_kamailio) = ''None''" by code_simp+
  obtain tr1 tr2 existing vs where f: "setup_static_routes (km_device listed_kamailio) (recorded configuring_device) [] = (Inr (), tr1)"
    "get_all_users listed_kamailio (recorded configuring_device) tr1 = (Inr existing, tr2)" "iterated (km_users listed_kamailio) = Inr vs"
    "tr' = tr2 @ map (\<lambda>u. Executed (''kamctl rm '' @ u) (-1)) existing @
      map (\<lambda>v. Executed (''kamctl add '' @ shown v @ '' '' @ user_pass listed_kamailio) (-1)) vs @
      map (\<lambda>s. Executed s (-1))
        [''killall -9 rtpengine'', '' rtpengine --listen-ng=localhost:2223 --interface='' @ text_option (km_ipv4 listed_kamailio),
         expire_command listed_kamailio 180, ''service kamailio restart'']"
    using server_configure_replaces_users [OF r] by blast
  have "existing = []" using e f(1,2) by simp
  moreover have "vs = [JStr ''1000'']" using f(3) u(1) by (simp add: iterated_def)
  ultimately show ?thesis using r f(4) u by simp
qed

end
