(* ===== verification/Acs_Base.thy ===== *)
theory Acs_Base
  imports Linux_Tools
begin

text \<open>
  What the two auto-configuration servers share: how values show as text, joining URLs
  (\<^verbatim>\<open>urllib.parse\<close>), retrying a call on the world (\<^verbatim>\<open>lib/utils.py\<close>), and provisioning a board by a list of calls
  (\<^verbatim>\<open>provision_cpe_via_tr069\<close> of both). The HTTP client is a parameter, a function from a request to the decoded
  answer that raises what the client or a bad status raises.
\<close>

section \<open>Values as text\<close>

text \<open>\<^verbatim>\<open>repr(v)\<close> and \<^verbatim>\<open>str(v)\<close>; a real number shows as its integral part with \<^verbatim>\<open>.0\<close>, the rest of its digits is not modelled.\<close>

fun repr_json :: "json \<Rightarrow> string" and
  repr_items :: "json list \<Rightarrow> string list" and
  repr_pairs :: "(string \<times> json) list \<Rightarrow> string list" where
  "repr_json (JStr s) = py_repr s"
| "repr_json (JList vs) = ''['' @ join '', '' (repr_items vs) @ '']''"
| "repr_json (JObj ps) = ''{'' @ join '', '' (repr_pairs ps) @ ''}''"
| "repr_json (JReal r) = int_str \<lfloor>r\<rfloor> @ ''.0''"
| "repr_json v = shown v"
| "repr_items [] = []"
| "repr_items (v # vs) = repr_json v # repr_items vs"
| "repr_pairs [] = []"
| "repr_pairs ((k, v) # ps) = (py_repr k @ '': '' @ repr_json v) # repr_pairs ps"

definition py_str :: "json \<Rightarrow> string" where
  "py_str v = (case v of JStr s \<Rightarrow> s | _ \<Rightarrow> repr_json v)"

section \<open>URLs\<close>

text \<open>
  \<^verbatim>\<open>urljoin(base, ref)\<close> for a base with a scheme and a reference that is a path without dot segments: an
  absolute path replaces that of the base, a relative one replaces what follows its last slash.
\<close>

definition url_root :: "string \<Rightarrow> string" where
  "url_root base = before_first (CHR '':'') base @ ''://'' @ before_first (CHR ''/'') (drop 3 (dropWhile (\<lambda>c. c \<noteq> CHR '':'') base))"

definition url_path :: "string \<Rightarrow> string" where
  "url_path base = drop (length (url_root base)) base"

definition urljoin :: "string \<Rightarrow> string \<Rightarrow> string" where
  "urljoin base ref =
     (if ref = [] then base
      else if startswith ref ''/'' then url_root base @ ref
      else
        let dir = rev (dropWhile (\<lambda>c. c \<noteq> CHR ''/'') (rev (url_path base)))
        in url_root base @ (if dir = [] then ''/'' else dir) @ ref)"

section \<open>Retrying\<close>

text \<open>\<open>n\<close> guarded attempts, each failure followed by a pause, and a last one that may raise.\<close>

fun retry_loop_io :: "('w, unit) io \<Rightarrow> ('w, 'a) io \<Rightarrow> nat \<Rightarrow> ('w, 'a) io" where
  "retry_loop_io pause call 0 = call"
| "retry_loop_io pause call (Suc n) = catch call (\<lambda>_. True) (\<lambda>_. andthen pause (retry_loop_io pause call n))"

definition retry_io :: "('w, unit) io \<Rightarrow> ('w, 'a) io \<Rightarrow> int \<Rightarrow> ('w, 'a) io" where
  "retry_io pause call retries = retry_loop_io pause call (nat (retries - 1))"

section \<open>Provisioning\<close>

text \<open>
  Each entry names a method and the arguments to call it with, one call for each. \<open>lookup\<close> finds the method;
  a name without one raises at once, a call that raises is tried three times. A list of arguments is walked,
  a dictionary gives its keys.
\<close>

definition each_param :: "json \<Rightarrow> raised + json list" where
  "each_param params =
     (case params of
        JList vs \<Rightarrow> Inr vs
      | JObj ps \<Rightarrow> Inr (map (\<lambda>p. JStr (fst p)) ps)
      | JStr s \<Rightarrow> Inr (map (\<lambda>c. JStr [c]) s)
      | _ \<Rightarrow> Inl type_error)"

definition provision_one ::
  "('w, unit) io \<Rightarrow> (string \<Rightarrow> raised + (json \<Rightarrow> ('w, unit) io)) \<Rightarrow> string \<times> json \<Rightarrow> ('w, unit) io" where
  "provision_one pause lookup entry =
     seq (lift_sum (lookup (fst entry))) (\<lambda>call.
     seq (lift_sum (each_param (snd entry))) (for_each (\<lambda>p. retry_io pause (call p) 3)))"

definition provision_cpe_via_tr069 ::
  "('w, unit) io \<Rightarrow> (string \<Rightarrow> raised + (json \<Rightarrow> ('w, unit) io)) \<Rightarrow> (string, json) dict list \<Rightarrow> ('w, unit) io" where
  "provision_cpe_via_tr069 pause lookup api_list = for_each (provision_one pause lookup) (concat api_list)"

section \<open>Properties\<close>

lemma urljoin_absolute: "urljoin base (CHR ''/'' # p) = url_root base @ CHR ''/'' # p"
  by (simp add: urljoin_def startswith_def)

lemma drop_scheme: "CHR '':'' \<notin> set a \<Longrightarrow> dropWhile (\<lambda>c. c \<noteq> CHR '':'') (a @ '':'' @ b) = '':'' @ b"
  by (induction a) auto

lemma take_scheme: "c \<notin> set a \<Longrightarrow> takeWhile (\<lambda>x. x \<noteq> c) (a @ c # b) = a"
  by (induction a) auto

text \<open>A base that ends in a slash is kept; otherwise its last segment is replaced.\<close>

lemma urljoin_relative:
  assumes "CHR '':'' \<notin> set scheme" and "CHR ''/'' \<notin> set host" and "CHR ''/'' \<notin> set seg" and "ref \<noteq> []" and "hd ref \<noteq> CHR ''/''"
  shows "urljoin (scheme @ ''://'' @ host @ ''/'' @ p @ ''/'' @ seg) ref = scheme @ ''://'' @ host @ ''/'' @ p @ ''/'' @ ref"
proof -
  let ?base = "scheme @ ''://'' @ host @ ''/'' @ p @ ''/'' @ seg"
  have "drop 3 (dropWhile (\<lambda>c. c \<noteq> CHR '':'') ?base) = host @ ''/'' @ p @ ''/'' @ seg"
    using drop_scheme [OF assms(1), of "''//'' @ host @ ''/'' @ p @ ''/'' @ seg"] by simp
  then have root: "url_root ?base = scheme @ ''://'' @ host"
    using take_scheme [OF assms(1), of "''//'' @ host @ ''/'' @ p @ ''/'' @ seg"] take_scheme [OF assms(2), of "p @ ''/'' @ seg"]
    by (simp add: url_root_def before_first_def)
  have path: "url_path ?base = ''/'' @ p @ ''/'' @ seg"
    unfolding url_path_def root using append_eq_conv_conj [of "scheme @ ''://'' @ host" "''/'' @ p @ ''/'' @ seg" ?base] by simp
  have "dropWhile (\<lambda>c. c \<noteq> CHR ''/'') (rev seg @ ''/'' @ rev p @ ''/'') = ''/'' @ rev p @ ''/''"
    using assms(3) by (subst dropWhile_append2) auto
  moreover have "\<not> startswith ref ''/''" using assms(4,5) by (cases ref) (auto simp: startswith_def)
  ultimately show ?thesis using assms(4) unfolding urljoin_def Let_def root path by simp
qed

text \<open>A board that records what it is asked: the calls made so far, and an answer that depends on them.\<close>

definition call_log ::
  "((string \<times> json) list \<Rightarrow> raised + unit) \<Rightarrow> string \<Rightarrow> json \<Rightarrow> ((string \<times> json) list, unit) io" where
  "call_log answer api p tr = (answer (tr @ [(api, p)]), tr @ [(api, p)])"

lemma retry_logged:
  assumes "retry_loop_io (ret ()) (call_log answer api p) n tr = (r, tr')"
  shows "\<exists>k. k \<le> n \<and> tr' = tr @ replicate (Suc k) (api, p) \<and> answer tr' = r \<and> (r \<noteq> Inr () \<longrightarrow> k = n)"
  using assms
proof (induction n arbitrary: tr)
  case 0
  then show ?case by (auto simp: call_log_def)
next
  case (Suc n)
  show ?case
  proof (cases "answer (tr @ [(api, p)])")
    case (Inr u)
    then show ?thesis using Suc.prems by (intro exI [of _ 0]) (auto simp: call_log_def catch_def)
  next
    case (Inl e)
    then have "retry_loop_io (ret ()) (call_log answer api p) n (tr @ [(api, p)]) = (r, tr')"
    proof -
      have "call_log answer api p tr = (Inl e, tr @ [(api, p)])" using Inl by (simp add: call_log_def)
      then show ?thesis using Suc.prems by (simp add: catch_def andthen_def)
    qed
    then obtain k where "k \<le> n" "tr' = (tr @ [(api, p)]) @ replicate (Suc k) (api, p)" "answer tr' = r" "r \<noteq> Inr () \<longrightarrow> k = n"
      using Suc.IH by blast
    then show ?thesis by (intro exI [of _ "Suc k"]) auto
  qed
qed

definition calls_of :: "(string, json) dict list \<Rightarrow> (string \<times> json) list" where
  "calls_of api_list =
     concat (map (\<lambda>(api, params). case each_param params of Inr ps \<Rightarrow> map (\<lambda>p. (api, p)) ps | _ \<Rightarrow> []) (concat api_list))"

definition attempts_of :: "nat list \<Rightarrow> (string \<times> json) list \<Rightarrow> (string \<times> json) list" where
  "attempts_of ns cs = concat (map2 replicate ns cs)"

lemma attempts_append: "length ns = length cs \<Longrightarrow> attempts_of (ns @ ms) (cs @ ds) = attempts_of ns cs @ attempts_of ms ds"
  by (simp add: attempts_of_def)

text \<open>A loop of call_log calls that succeeds made each call between one and three times, the last time with success.\<close>

lemma params_logged:
  assumes "for_each (\<lambda>p. retry_io (ret ()) (call_log answer api p) 3) ps tr = (Inr (), tr')"
  shows "\<exists>ns. length ns = length ps \<and> (\<forall>n\<in>set ns. 1 \<le> n \<and> n \<le> 3) \<and> tr' = tr @ attempts_of ns (map (\<lambda>p. (api, p)) ps)"
  using assms
proof (induction ps arbitrary: tr)
  case Nil
  then show ?case by (auto simp: attempts_of_def)
next
  case (Cons p ps)
  then obtain tr1 where 1: "retry_loop_io (ret ()) (call_log answer api p) 2 tr = (Inr (), tr1)"
    and 2: "for_each (\<lambda>p. retry_io (ret ()) (call_log answer api p) 3) ps tr1 = (Inr (), tr')"
    by (auto simp: andthen_ok retry_io_def)
  obtain k where k: "k \<le> 2" "tr1 = tr @ replicate (Suc k) (api, p)" using retry_logged [OF 1] by blast
  obtain ns where ns: "length ns = length ps" "\<forall>n\<in>set ns. 1 \<le> n \<and> n \<le> 3" "tr' = tr1 @ attempts_of ns (map (\<lambda>p. (api, p)) ps)"
    using Cons.IH [OF 2] by blast
  show ?case using k ns by (intro exI [of _ "Suc k # ns"]) (auto simp: attempts_of_def)
qed

lemma provision_one_ok:
  "provision_one pause lookup (api, params) tr = (Inr (), tr') \<longleftrightarrow>
     (\<exists>call ps. lookup api = Inr call \<and> each_param params = Inr ps \<and> for_each (\<lambda>p. retry_io pause (call p) 3) ps tr = (Inr (), tr'))"
  by (auto simp: provision_one_def seq_ok)

lemma entries_logged:
  assumes "for_each (provision_one (ret ()) (\<lambda>api. if api \<in> apis then Inr (call_log answer api) else Inl attribute_error)) es tr = (Inr (), tr')"
  shows "\<exists>ns. length ns = length (calls_of [es]) \<and> (\<forall>n\<in>set ns. 1 \<le> n \<and> n \<le> 3) \<and> tr' = tr @ attempts_of ns (calls_of [es])"
  using assms
proof (induction es arbitrary: tr)
  case Nil
  then show ?case by (auto simp: attempts_of_def calls_of_def)
next
  case (Cons e es)
  obtain api params where e: "e = (api, params)" by (cases e)
  obtain tr1 ps where ps: "each_param params = Inr ps"
    and 1: "for_each (\<lambda>p. retry_io (ret ()) (call_log answer api p) 3) ps tr = (Inr (), tr1)"
    and 2: "for_each (provision_one (ret ()) (\<lambda>api. if api \<in> apis then Inr (call_log answer api) else Inl attribute_error)) es tr1 = (Inr (), tr')"
    using Cons.prems by (auto simp: andthen_ok e provision_one_ok split: if_splits)
  obtain ns where ns: "length ns = length ps" "\<forall>n\<in>set ns. 1 \<le> n \<and> n \<le> 3" "tr1 = tr @ attempts_of ns (map (\<lambda>p. (api, p)) ps)"
    using params_logged [OF 1] by blast
  obtain ms where ms: "length ms = length (calls_of [es])" "\<forall>n\<in>set ms. 1 \<le> n \<and> n \<le> 3" "tr' = tr1 @ attempts_of ms (calls_of [es])"
    using Cons.IH [OF 2] by blast
  have "calls_of [e # es] = map (\<lambda>p. (api, p)) ps @ calls_of [es]" by (simp add: calls_of_def e ps)
  then show ?case using ns ms by (intro exI [of _ "ns @ ms"]) (auto simp: attempts_append)
qed

text \<open>C32: provisioning that succeeds has made every call of the list, in its order, each one to three times
  without a call in between, whatever the server answers.\<close>

theorem provisioning_calls_all:
  assumes "provision_cpe_via_tr069 (ret ()) (\<lambda>api. if api \<in> apis then Inr (call_log answer api) else Inl attribute_error) api_list tr = (Inr (), tr')"
  shows "\<exists>ns. length ns = length (calls_of api_list) \<and> (\<forall>n\<in>set ns. 1 \<le> n \<and> n \<le> 3) \<and> tr' = tr @ attempts_of ns (calls_of api_list)"
  using entries_logged [OF assms [unfolded provision_cpe_via_tr069_def]] by (simp add: calls_of_def)

theorem provisioning_calls_all_witness:
  "\<exists>tr. provision_cpe_via_tr069 (ret ())
     (\<lambda>api. if api \<in> {''SPV''} then Inr (call_log (\<lambda>tr. if length tr = 1 then Inl type_error else Inr ()) api) else Inl attribute_error)
     [[(''SPV'', JList [JStr ''a'', JStr ''b''])]] [] = (Inr (), tr) \<and>
     (\<exists>ns. length ns = 2 \<and> tr = attempts_of ns [(''SPV'', JStr ''a''), (''SPV'', JStr ''b'')])"
proof -
  let ?lookup = "\<lambda>api. if api \<in> {''SPV''} then Inr (call_log (\<lambda>tr. if length tr = 1 then Inl type_error else Inr ()) api) else Inl attribute_error"
  let ?list = "[[(''SPV'', JList [JStr ''a'', JStr ''b''])]] :: (string, json) dict list"
  have "fst (provision_cpe_via_tr069 (ret ()) ?lookup ?list []) = Inr ()"
    by (simp add: provision_cpe_via_tr069_def provision_one_def each_param_def seq_def lift_sum_def retry_io_def call_log_def
        catch_def andthen_def ret_def numeral_2_eq_2)
  then obtain tr where r: "provision_cpe_via_tr069 (ret ()) ?lookup ?list [] = (Inr (), tr)"
    by (cases "provision_cpe_via_tr069 (ret ()) ?lookup ?list []") simp
  have "calls_of ?list = [(''SPV'', JStr ''a''), (''SPV'', JStr ''b'')]" by (simp add: calls_of_def each_param_def)
  then obtain ns where "length ns = 2" "tr = attempts_of ns [(''SPV'', JStr ''a''), (''SPV'', JStr ''b'')]"
    using provisioning_calls_all [OF r] by (auto simp: numeral_2_eq_2)
  then show ?thesis using r by blast
qed

end
