(* ===== verification/Axiros_ACS.thy ===== *)
theory Axiros_ACS
  imports Acs_Base
begin

text \<open>
  The Axiros auto-configuration server (\<^verbatim>\<open>boardfarm3/devices/axiros_acs.py\<close>): remote procedure calls as JSON
  requests. The client, with its credentials, is \<open>ax_post\<close>, which gives the decoded answer of a request or
  raises; reading the fault dictionary of a message (\<^verbatim>\<open>ast.literal_eval\<close>) is \<open>ax_literal\<close>.
\<close>

section \<open>The server\<close>

record 'w axiros =
  ax_config :: "(string, json) dict"
  ax_post :: "string \<Rightarrow> json \<Rightarrow> int \<Rightarrow> ('w, json) io"
  ax_literal :: "string \<Rightarrow> raised + json"
  ax_console :: "'w console option"

definition ax_field :: "(string, json) dict \<Rightarrow> string \<Rightarrow> string \<Rightarrow> string" where
  "ax_field config key dflt = shown (kwarg config key (JStr dflt))"

definition acs_rest_url :: "(string, json) dict \<Rightarrow> string" where
  "acs_rest_url config =
     ax_field config ''acs_rest_url''
       (''http://'' @ shown (get_or_none config ''ipaddr'') @ '':'' @ shown (get_or_none config ''http_port''))"

definition base_url :: "(string, json) dict \<Rightarrow> string" where
  "base_url config = urljoin (acs_rest_url config) (ax_field config ''endpoint'' ''/live/CPEManager/DMInterfaces/rest/v1/action/'')"

text \<open>The credentials come from the inventory or the environment; without them there is no server object.\<close>

definition credentials :: "(string \<Rightarrow> json) \<Rightarrow> (string, json) dict \<Rightarrow> raised + json \<times> json" where
  "credentials environ config =
     (let user = kwarg config ''http_username'' (environ ''AXIROS_USR''); pass = kwarg config ''http_password'' (environ ''AXIROS_PSW'')
      in if \<not> truthy user \<or> \<not> truthy pass
         then Inl (py_error ConfigurationFailure ''ConfigurationFailure''
           (''The credentials must be given either in the inventory http_username and http_password or the shell variables '' @
            ''AXIROS_USR and AXIROS_PSW must be defined.''))
         else Inr (user, pass))"

section \<open>Requests\<close>

definition type_conversion :: "json \<Rightarrow> raised + string" where
  "type_conversion data =
     (case data of
        JInt _ \<Rightarrow> Inr ''int''
      | JStr _ \<Rightarrow> Inr ''string''
      | JBool _ \<Rightarrow> Inr ''boolean''
      | JList vs \<Rightarrow> if length vs = 6 then Inr ''date'' else Inl (py_error PyTypeError ''TypeError'' (''Cannot detect type for '' @ py_str data))
      | _ \<Rightarrow> Inl (py_error PyTypeError ''TypeError'' (''Cannot detect type for '' @ py_str data)))"

definition lifetime :: "int option \<Rightarrow> int" where
  "lifetime timeout = (case timeout of None \<Rightarrow> 300 | Some t \<Rightarrow> if t = 0 then 300 else t)"

definition common_setup :: "string option \<Rightarrow> int option \<Rightarrow> raised + json" where
  "common_setup cpe_id timeout =
     (case cpe_id of
        None \<Rightarrow> Inl (value_error ''None - Invalid CPE-ID'')
      | Some _ \<Rightarrow> Inr (JObj [(''Lifetime'', JInt (lifetime timeout)), (''Sync'', JBool True)]))"

text \<open>
  An answer whose code is not that of success raises: a fault when its message has a fault code, with the
  dictionary read from the first brace on, otherwise a response error.
\<close>

definition fault_dict :: "'w axiros \<Rightarrow> string \<Rightarrow> raised + json" where
  "fault_dict a msg =
     (if CHR ''{'' \<notin> set msg then Inl (value_error ''substring not found'')
      else ax_literal a (dropWhile (\<lambda>c. c \<noteq> CHR ''{'') msg))"

definition check_result :: "'w axiros \<Rightarrow> json \<Rightarrow> raised + json" where
  "check_result a res =
     (case json_item res ''Result'' of
        Inl e \<Rightarrow> Inl e
      | Inr result \<Rightarrow>
          (case json_item result ''code'' of
             Inl e \<Rightarrow> Inl e
           | Inr code \<Rightarrow>
               if code = JInt 200 then Inr result
               else
                 (case json_item result ''message'' of
                    Inl e \<Rightarrow> Inl e
                  | Inr (JStr msg) \<Rightarrow>
                      if str_in ''faultcode'' msg
                      then (case fault_dict a msg of Inl e \<Rightarrow> Inl e | Inr _ \<Rightarrow> Inl (py_error TR069FaultCode ''TR069FaultCode'' msg))
                      else Inl (py_error TR069ResponseError ''TR069ResponseError'' msg)
                  | Inr _ \<Rightarrow> Inl type_error)))"

definition post_json :: "'w axiros \<Rightarrow> string \<Rightarrow> json \<Rightarrow> int \<Rightarrow> ('w, json) io" where
  "post_json a url payload timeout = seq (ax_post a url payload (timeout + 30)) (\<lambda>res. lift_sum (check_result a res))"

text \<open>Every procedure has the same frame: the options, which need a board, the action, and its parameters, if any.\<close>

definition action_request :: "'w axiros \<Rightarrow> string \<Rightarrow> string option \<Rightarrow> int option \<Rightarrow> json option \<Rightarrow> ('w, json) io" where
  "action_request a act cpe_id timeout parameters =
     seq (lift_sum (common_setup cpe_id timeout)) (\<lambda>cmd_opt.
     post_json a (urljoin (base_url (ax_config a)) act)
       (JObj ([(''CPEIdentifier'', JObj [(''cpeid'', JStr (text_option cpe_id))]), (''CommandOptions'', cmd_opt)] @
              (case parameters of None \<Rightarrow> [] | Some p \<Rightarrow> [(''Parameters'', p)])))
       (lifetime timeout))"

text \<open>The entries of an answer, copied with the type of their value; two procedures also write the value as text.\<close>

definition typed_entry :: "bool \<Rightarrow> json \<Rightarrow> raised + json" where
  "typed_entry as_text val =
     (case val of
        JObj ps \<Rightarrow>
          (case get_item ps ''value'' of
             Inl e \<Rightarrow> Inl e
           | Inr v \<Rightarrow>
               (case type_conversion v of
                  Inl e \<Rightarrow> Inl e
                | Inr t \<Rightarrow>
                    (let typed = dict_set ''type'' (JStr t) ps
                     in Inr (JObj (if as_text then dict_set ''value'' (JStr (lower (py_str v))) typed else typed)))))
      | _ \<Rightarrow> Inl type_error)"

definition untyped_entry :: "json \<Rightarrow> raised + json" where
  "untyped_entry val = (case val of JObj ps \<Rightarrow> Inr (JObj (dict_set ''type'' (JStr []) ps)) | _ \<Rightarrow> Inl type_error)"

fun each_entry :: "(json \<Rightarrow> raised + json) \<Rightarrow> json list \<Rightarrow> raised + json list" where
  "each_entry f [] = Inr []"
| "each_entry f (v # vs) = (case f v of Inl e \<Rightarrow> Inl e | Inr x \<Rightarrow> map_sum id (\<lambda>xs. x # xs) (each_entry f vs))"

definition details :: "(json \<Rightarrow> raised + json) \<Rightarrow> json \<Rightarrow> raised + json list" where
  "details f res =
     (case json_item res ''details'' of
        Inl e \<Rightarrow> Inl e
      | Inr v \<Rightarrow> (case each_param v of Inl e \<Rightarrow> Inl e | Inr vs \<Rightarrow> each_entry f vs))"

definition detailed :: "('w, json) io \<Rightarrow> (json \<Rightarrow> raised + json) \<Rightarrow> ('w, json list) io" where
  "detailed request f = seq request (\<lambda>res. lift_sum (details f res))"

section \<open>The procedures\<close>

definition as_list :: "json \<Rightarrow> json" where
  "as_list param = (case param of JList _ \<Rightarrow> param | _ \<Rightarrow> JList [param])"

definition axiros_GPV :: "'w axiros \<Rightarrow> json \<Rightarrow> int option \<Rightarrow> string option \<Rightarrow> ('w, json list) io" where
  "axiros_GPV a param timeout cpe_id =
     detailed (action_request a ''GetParameterValues'' cpe_id timeout (Some (as_list param))) (typed_entry False)"

text \<open>A list of dictionaries is one dictionary, later entries for a key replacing earlier ones in place.\<close>

fun merged_params :: "json list \<Rightarrow> raised + (string, json) dict" where
  "merged_params [] = Inr []"
| "merged_params (JObj ps # vs) = map_sum id (\<lambda>rest. ps @ rest) (merged_params vs)"
| "merged_params (_ # vs) = Inl attribute_error"

definition spv_params :: "json \<Rightarrow> raised + (string, json) dict" where
  "spv_params param_value =
     (case param_value of
        JList vs \<Rightarrow> map_sum id dict_of_list (merged_params vs)
      | JObj ps \<Rightarrow> Inr ps
      | _ \<Rightarrow> Inl attribute_error)"

definition key_values :: "(string, json) dict \<Rightarrow> json" where
  "key_values ps = JList (map (\<lambda>(k, v). JObj [(''key'', JStr k), (''value'', v)]) ps)"

definition status_value :: "json \<Rightarrow> raised + int" where
  "status_value res =
     (case json_item res ''details'' of
        Inl e \<Rightarrow> Inl e
      | Inr (JList (v # _)) \<Rightarrow> (case json_item v ''value'' of Inl e \<Rightarrow> Inl e | Inr x \<Rightarrow> int_of_json x)
      | Inr (JList []) \<Rightarrow> Inl index_error
      | Inr _ \<Rightarrow> Inl type_error)"

definition axiros_SPV :: "'w axiros \<Rightarrow> json \<Rightarrow> int option \<Rightarrow> string option \<Rightarrow> ('w, int) io" where
  "axiros_SPV a param_value timeout cpe_id =
     seq (lift_sum (common_setup cpe_id timeout)) (\<lambda>_.
     seq (lift_sum (spv_params param_value)) (\<lambda>ps.
     seq (action_request a ''SetParameterValues'' cpe_id timeout (Some (key_values ps))) (\<lambda>res. lift_sum (status_value res))))"

definition attribute_entry :: "json \<Rightarrow> raised + json" where
  "attribute_entry res =
     (case res of
        JObj ps \<Rightarrow>
          (case dict_get ps ''value'' of
             None \<Rightarrow> Inr (JObj [(''name'', get_or_none ps ''key'')])
           | Some (JObj qs) \<Rightarrow> Inr (JObj (dict_merge [(''name'', get_or_none ps ''key'')] qs))
           | Some _ \<Rightarrow> Inl type_error)
      | _ \<Rightarrow> Inl attribute_error)"

definition attribute_details :: "json \<Rightarrow> raised + json list" where
  "attribute_details res =
     (case res of
        JObj ps \<Rightarrow>
          (case kwarg ps ''details'' (JList []) of
             JList (v # vs) \<Rightarrow> each_entry attribute_entry (v # vs)
           | d \<Rightarrow> Inl (value_error (''Invalid or empty details in response '' @ py_str d)))
      | _ \<Rightarrow> Inl attribute_error)"

definition GPA :: "'w axiros \<Rightarrow> json \<Rightarrow> string option \<Rightarrow> ('w, json list) io" where
  "GPA a param cpe_id =
     seq (action_request a ''GetParameterAttributes'' cpe_id (Some 300) (Some (as_list param))) (\<lambda>res. lift_sum (attribute_details res))"

definition spa_entry :: "bool \<Rightarrow> bool \<Rightarrow> json \<Rightarrow> json \<Rightarrow> raised + json" where
  "spa_entry notification_param access_param access_list elem =
     (case elem of
        JObj ((k, v) # _) \<Rightarrow>
          Inr (JObj [(''AccessList'', access_list), (''AccessListChange'', JBool access_param), (''Name'', JStr k), (''Notification'', v),
                     (''NotificationChange'', JBool notification_param)])
      | JObj [] \<Rightarrow> Inl (py_error PyException ''StopIteration'' [])
      | _ \<Rightarrow> Inl attribute_error)"

definition SPA :: "'w axiros \<Rightarrow> json \<Rightarrow> bool \<Rightarrow> bool \<Rightarrow> json \<Rightarrow> string option \<Rightarrow> ('w, json) io" where
  "SPA a param notification_param access_param access_list cpe_id =
     seq (lift_sum (common_setup cpe_id (Some 300))) (\<lambda>_.
     seq (lift_sum (case as_list param of
                      JList vs \<Rightarrow> each_entry (spa_entry notification_param access_param (if truthy access_list then access_list else JList [])) vs
                    | _ \<Rightarrow> Inl type_error)) (\<lambda>parameters.
     seq (action_request a ''SetParameterAttributes'' cpe_id (Some 300) (Some (JList parameters))) (\<lambda>res.
     lift_sum (json_item res ''details''))))"

definition FactoryReset :: "'w axiros \<Rightarrow> string option \<Rightarrow> ('w, json list) io" where
  "FactoryReset a cpe_id = detailed (action_request a ''FactoryReset'' cpe_id (Some 120) None) (typed_entry False)"

definition Reboot :: "'w axiros \<Rightarrow> string \<Rightarrow> string option \<Rightarrow> ('w, json list) io" where
  "Reboot a CommandKey cpe_id = detailed (action_request a ''Reboot'' cpe_id (Some 120) (Some (JStr CommandKey))) (typed_entry False)"

definition object_params :: "string \<Rightarrow> string \<Rightarrow> json" where
  "object_params param param_key = JObj [(''ObjectName'', JStr param), (''ParameterKey'', JStr param_key)]"

definition axiros_AddObject :: "'w axiros \<Rightarrow> string \<Rightarrow> string \<Rightarrow> string option \<Rightarrow> ('w, json list) io" where
  "axiros_AddObject a param param_key cpe_id =
     detailed (action_request a ''AddObject'' cpe_id (Some 120) (Some (object_params param param_key))) (typed_entry False)"

definition axiros_DelObject :: "'w axiros \<Rightarrow> string \<Rightarrow> string \<Rightarrow> string option \<Rightarrow> ('w, json list) io" where
  "axiros_DelObject a param param_key cpe_id =
     detailed (action_request a ''DeleteObject'' cpe_id (Some 120) (Some (object_params param param_key))) (typed_entry False)"

definition GPN :: "'w axiros \<Rightarrow> string \<Rightarrow> bool \<Rightarrow> int option \<Rightarrow> string option \<Rightarrow> ('w, json list) io" where
  "GPN a param next_level timeout cpe_id =
     detailed
       (action_request a ''GetParameterNames'' cpe_id timeout
         (Some (JObj [(''NextLevel'', JBool next_level), (''ParameterPath'', JStr param)])))
       (typed_entry True)"

definition ScheduleInform :: "'w axiros \<Rightarrow> string \<Rightarrow> int \<Rightarrow> string option \<Rightarrow> ('w, json list) io" where
  "ScheduleInform a CommandKey DelaySeconds cpe_id =
     detailed
       (action_request a ''ScheduleInform'' cpe_id (Some 120)
         (Some (JObj [(''CommandKey'', JStr CommandKey), (''DelaySeconds'', JInt DelaySeconds)])))
       (typed_entry True)"

definition GetRPCMethods :: "'w axiros \<Rightarrow> string option \<Rightarrow> ('w, json list) io" where
  "GetRPCMethods a cpe_id = detailed (action_request a ''GetRPCMethods'' cpe_id (Some 120) None) untyped_entry"

record download =
  dl_url :: string
  dl_filetype :: string
  dl_target :: string
  dl_filesize :: int
  dl_username :: string
  dl_password :: string
  dl_commandkey :: string
  dl_delay :: int
  dl_success :: string
  dl_failure :: string

definition download_params :: "download \<Rightarrow> json" where
  "download_params d =
     JObj [(''CommandKey'', JStr (dl_commandkey d)), (''DelaySeconds'', JInt (dl_delay d)), (''FailureURL'', JStr (dl_failure d)),
           (''FileSize'', JInt (dl_filesize d)), (''FileType'', JStr (dl_filetype d)), (''Password'', JStr (dl_password d)),
           (''SuccessURL'', JStr (dl_success d)), (''TargetFileName'', JStr (dl_target d)), (''URL'', JStr (dl_url d)),
           (''Username'', JStr (dl_username d))]"

definition Download :: "'w axiros \<Rightarrow> download \<Rightarrow> string option \<Rightarrow> ('w, json list) io" where
  "Download a d cpe_id = detailed (action_request a ''Download'' cpe_id (Some 120) (Some (download_params d))) untyped_entry"

section \<open>The rest of the device\<close>

definition no_console :: "'w axiros \<Rightarrow> raised" where
  "no_console a =
     py_error NotSupportedError ''NotSupportedError'' (shown (get_or_none (ax_config a) ''name'') @ '' has no console access'')"

definition with_console :: "'w axiros \<Rightarrow> ('w console \<Rightarrow> ('w, 'a) io) \<Rightarrow> ('w, 'a) io" where
  "with_console a f = (case ax_console a of None \<Rightarrow> throw (no_console a) | Some c \<Rightarrow> f c)"

definition check_connectivity :: "'w axiros \<Rightarrow> ('w, unit) io \<Rightarrow> ('w, unit) io" where
  "check_connectivity a connect_console =
     andthen
       (seq (ax_post a (urljoin (base_url (ax_config a)) ''GetListOfCPEs'')
              (JObj [(''CPESearchOptions'', JObj []), (''CommandOptions'', JObj [])]) 30) (\<lambda>_. ret ()))
       (when_io (truthy (get_or_none (ax_config a) ''ipaddr'')) connect_console)"

section \<open>Properties\<close>

lemma each_entry_ok: "each_entry f vs = Inr xs \<longleftrightarrow> list_all2 (\<lambda>v x. f v = Inr x) vs xs"
proof (induction vs arbitrary: xs)
  case (Cons v vs)
  show ?case
  proof (cases "each_entry f vs")
    case (Inl e)
    then show ?thesis using Cons.IH by (auto simp: list_all2_Cons1 split: sum.splits)
  next
    case (Inr ys)
    then have "list_all2 (\<lambda>v x. f v = Inr x) vs zs \<longleftrightarrow> zs = ys" for zs using Cons.IH [of zs] by auto
    then show ?thesis using Inr by (auto simp: list_all2_Cons1 split: sum.splits)
  qed
qed auto

definition typed_as :: "json \<Rightarrow> json \<Rightarrow> bool" where
  "typed_as raw v \<longleftrightarrow>
     (\<exists>ps x t. raw = JObj ps \<and> dict_get ps ''value'' = Some x \<and> type_conversion x = Inr t \<and> v = JObj (dict_set ''type'' (JStr t) ps))"

lemma typed_entry_ok: "typed_entry False raw = Inr v \<longleftrightarrow> typed_as raw v"
  by (auto simp: typed_entry_def typed_as_def get_item_def Let_def split: json.splits option.splits sum.splits)

text \<open>C33: reading parameters gives the entries of a successful answer, in order, each with every field it had and
  the type of its value: one of the four the conversion knows.\<close>

theorem axiros_gpv_typed:
  assumes "axiros_GPV a param timeout cpe_id w = (Inr vs, w')"
  shows "\<exists>url payload t res raws. ax_post a url payload t w = (Inr res, w') \<and>
    (\<exists>result. json_item res ''Result'' = Inr result \<and> json_item result ''code'' = Inr (JInt 200) \<and>
      (\<exists>d. json_item result ''details'' = Inr d \<and> each_param d = Inr raws)) \<and>
    list_all2 typed_as raws vs \<and>
    (\<forall>v\<in>set vs. \<exists>ps. v = JObj ps \<and> dict_get ps ''type'' \<in> Some ` JStr ` {''int'', ''string'', ''boolean'', ''date''})"
proof -
  obtain result w1 where r: "action_request a ''GetParameterValues'' cpe_id timeout (Some (as_list param)) w = (Inr result, w1)"
    and d: "details (typed_entry False) result = Inr vs" "w1 = w'"
    using assms by (auto simp: axiros_GPV_def detailed_def seq_ok)
  obtain url payload t where "post_json a url payload t w = (Inr result, w')"
    using r d(2) by (auto simp: action_request_def seq_ok)
  then obtain res where res: "ax_post a url payload (t + 30) w = (Inr res, w')" and c: "check_result a res = Inr result"
    by (auto simp: post_json_def seq_ok)
  have code: "json_item res ''Result'' = Inr result" "json_item result ''code'' = Inr (JInt 200)"
    using c by (auto simp: check_result_def split: sum.splits if_splits json.splits)
  obtain v raws where v: "json_item result ''details'' = Inr v" "each_param v = Inr raws" "each_entry (typed_entry False) raws = Inr vs"
    using d(1) by (auto simp: details_def split: sum.splits)
  have all: "list_all2 typed_as raws vs" using v(3) by (simp add: each_entry_ok typed_entry_ok)
  have "\<exists>ps. x = JObj ps \<and> dict_get ps ''type'' \<in> Some ` JStr ` {''int'', ''string'', ''boolean'', ''date''}" if x: "x \<in> set vs" for x
  proof -
    obtain raw where "typed_as raw x" using all x by (auto simp: list_all2_conv_all_nth in_set_conv_nth)
    then obtain ps y ty where "type_conversion y = Inr ty" "x = JObj (dict_set ''type'' (JStr ty) ps)" by (auto simp: typed_as_def)
    moreover have "ty \<in> {''int'', ''string'', ''boolean'', ''date''}" if "type_conversion y = Inr ty"
      using that by (auto simp: type_conversion_def split: json.splits if_splits)
    ultimately show ?thesis by auto
  qed
  then show ?thesis using res code v(1,2) all by blast
qed

definition sample_axiros :: "json \<Rightarrow> (string \<times> json) list axiros" where
  "sample_axiros answer =
     \<lparr>ax_config = [(''acs_rest_url'', JStr ''http://acs:9676'')], ax_post = \<lambda>url payload t tr. (Inr answer, tr @ [(url, payload)]),
      ax_literal = \<lambda>_. Inr (JObj []), ax_console = None\<rparr>"

definition uptime_answer :: json where
  "uptime_answer =
     JObj [(''Result'', JObj [(''code'', JInt 200),
       (''details'', JList [JObj [(''key'', JStr ''Device.DeviceInfo.UpTime''), (''value'', JInt 7)]])])]"

theorem axiros_gpv_typed_witness:
  "\<exists>tr. axiros_GPV (sample_axiros uptime_answer) (JStr ''Device.DeviceInfo.UpTime'') None (Some ''cpe'') [] =
     (Inr [JObj [(''key'', JStr ''Device.DeviceInfo.UpTime''), (''value'', JInt 7), (''type'', JStr ''int'')]], tr) \<and>
     (\<exists>url payload t. ax_post (sample_axiros uptime_answer) url payload t [] = (Inr uptime_answer, tr))"
proof -
  let ?a = "sample_axiros uptime_answer" and ?r = "[JObj [(''key'', JStr ''Device.DeviceInfo.UpTime''), (''value'', JInt 7), (''type'', JStr ''int'')]]"
  have "fst (axiros_GPV ?a (JStr ''Device.DeviceInfo.UpTime'') None (Some ''cpe'') []) = Inr ?r" by code_simp
  then obtain tr where r: "axiros_GPV ?a (JStr ''Device.DeviceInfo.UpTime'') None (Some ''cpe'') [] = (Inr ?r, tr)"
    by (cases "axiros_GPV ?a (JStr ''Device.DeviceInfo.UpTime'') None (Some ''cpe'') []") simp
  moreover obtain url payload t res where "ax_post ?a url payload t [] = (Inr res, tr)"
    using axiros_gpv_typed [OF r] by blast
  moreover from this have "res = uptime_answer" by (simp add: sample_axiros_def)
  ultimately show ?thesis by blast
qed

text \<open>setting a list of dictionaries is setting the dictionary they merge to, later values for a name in the
  place of earlier ones.\<close>

theorem axiros_spv_merges:
  "axiros_SPV a (JList (map JObj ds)) timeout cpe_id = axiros_SPV a (JObj (dict_of_list (concat ds))) timeout cpe_id"
proof -
  have "merged_params (map JObj ds) = Inr (concat ds)" by (induction ds) auto
  then show ?thesis by (simp add: axiros_SPV_def spv_params_def)
qed

text \<open>without a board nothing is requested: every procedure raises and leaves the world as it is.\<close>

lemma no_setup: "common_setup None t = Inl (value_error ''None - Invalid CPE-ID'')"
  by (simp add: common_setup_def)

lemma no_request: "action_request a act None t p w = (Inl (value_error ''None - Invalid CPE-ID''), w)"
  by (simp add: action_request_def seq_def lift_sum_def no_setup)

theorem no_board_no_request:
  "let e = value_error ''None - Invalid CPE-ID''
   in axiros_GPV a p t None w = (Inl e, w) \<and> axiros_SPV a p t None w = (Inl e, w) \<and> GPA a p None w = (Inl e, w) \<and>
      SPA a p n x l None w = (Inl e, w) \<and> FactoryReset a None w = (Inl e, w) \<and> Reboot a k None w = (Inl e, w) \<and>
      axiros_AddObject a k k' None w = (Inl e, w) \<and> axiros_DelObject a k k' None w = (Inl e, w) \<and> GPN a k n t None w = (Inl e, w) \<and>
      ScheduleInform a k i None w = (Inl e, w) \<and> GetRPCMethods a None w = (Inl e, w) \<and> Download a d None w = (Inl e, w)"
  by (simp add: Let_def axiros_GPV_def axiros_SPV_def GPA_def SPA_def FactoryReset_def Reboot_def axiros_AddObject_def axiros_DelObject_def GPN_def
      ScheduleInform_def GetRPCMethods_def Download_def detailed_def seq_def no_request lift_sum_def no_setup)

text \<open>An answer is accepted exactly with the code of success, and a message with a fault code becomes a fault.\<close>

lemma check_result_code:
  assumes "json_item res ''Result'' = Inr result" and "json_item result ''code'' = Inr code"
  shows "check_result a res = Inr r \<longleftrightarrow> code = JInt 200 \<and> r = result"
  using assms by (auto simp: check_result_def split: sum.splits json.splits)

lemma fault_raised:
  assumes "json_item res ''Result'' = Inr result" and "json_item result ''code'' = Inr code" and "code \<noteq> JInt 200"
    and "json_item result ''message'' = Inr (JStr msg)" and "str_in ''faultcode'' msg" and "fault_dict a msg = Inr d"
  shows "check_result a res = Inl (py_error TR069FaultCode ''TR069FaultCode'' msg)"
  using assms by (simp add: check_result_def)

text \<open>An endpoint without its final slash loses its last segment.\<close>

lemma endpoint_needs_slash:
  "urljoin ''http://acs:9676/live/action'' ''Reboot'' = ''http://acs:9676/live/Reboot''"
  "urljoin ''http://acs:9676/live/action/'' ''Reboot'' = ''http://acs:9676/live/action/Reboot''"
  by code_simp+

end
