(* ===== verification/Genie_ACS.thy ===== *)
theory Genie_ACS
  imports Acs_Base
begin

text \<open>
  The GenieACS auto-configuration server (\<^verbatim>\<open>boardfarm3/devices/genie_acs.py\<close>): parameters are read by queries
  whose answer is a nested dictionary, flattened into text and cut up again. The client is \<open>ge_get\<close> and
  \<open>ge_post\<close>; what they raise, \<^verbatim>\<open>ConnectionError\<close> for the errors of httpx, is theirs.
\<close>

section \<open>The server\<close>

record 'w genie =
  ge_config :: "(string, json) dict"
  ge_cpeid :: "string option"
  ge_get :: "string \<Rightarrow> int option \<Rightarrow> ('w, json) io"
  ge_post :: "string \<Rightarrow> json \<Rightarrow> int \<Rightarrow> ('w, json) io"

definition genie_url :: "(string, json) dict \<Rightarrow> string" where
  "genie_url config = ''http://'' @ shown (get_or_none config ''ipaddr'') @ '':'' @ shown (get_or_none config ''http_port'')"

definition request_get :: "'w genie \<Rightarrow> string \<Rightarrow> int option \<Rightarrow> ('w, json) io" where
  "request_get g endpoint timeout = ge_get g (urljoin (genie_url (ge_config g)) endpoint) timeout"

definition request_post :: "'w genie \<Rightarrow> string \<Rightarrow> json option \<Rightarrow> int option \<Rightarrow> ('w, json) io" where
  "request_post g endpoint payload timeout =
     (case payload of
        None \<Rightarrow> throw type_error
      | Some d \<Rightarrow>
          ge_post g (urljoin (genie_url (ge_config g)) (endpoint @ ''?connection_request'')) d
            (case timeout of None \<Rightarrow> 120 | Some t \<Rightarrow> if t = 0 then 120 else t))"

text \<open>\<^verbatim>\<open>urllib.parse.quote\<close>: letters, digits and a few signs stay, every other byte becomes its two hexadecimal digits.\<close>

definition hex_upper :: "nat \<Rightarrow> char" where
  "hex_upper n = (''0123456789ABCDEF'' ! n)"

definition url_quote :: "string \<Rightarrow> string \<Rightarrow> string" where
  "url_quote safe s =
     concat (map (\<lambda>c. if is_alpha c \<or> is_digit c \<or> c \<in> set (''_.-~'' @ safe) then [c]
                      else (let n = (of_char c :: nat) in [CHR ''%'', hex_upper (n div 16), hex_upper (n mod 16)])) s)"

section \<open>Reading\<close>

text \<open>The leaves of a nested dictionary under their dotted names; equal names keep the last value.\<close>

definition dotted :: "string \<Rightarrow> string \<Rightarrow> string" where
  "dotted parent_key key = (if parent_key = [] then key else parent_key @ ''.'' @ key)"

fun flatten_dict :: "string \<Rightarrow> (string \<times> json) list \<Rightarrow> (string, json) dict" and
  flat_items :: "string \<Rightarrow> (string \<times> json) list \<Rightarrow> (string \<times> json) list" and
  flat_item :: "string \<Rightarrow> json \<Rightarrow> (string \<times> json) list" where
  "flatten_dict parent_key ps = dict_of_list (flat_items parent_key ps)"
| "flat_items parent_key [] = []"
| "flat_items parent_key ((k, v) # ps) = flat_item (dotted parent_key k) v @ flat_items parent_key ps"
| "flat_item new_key (JObj qs) = flatten_dict new_key qs"
| "flat_item new_key v = [(new_key, v)]"

text \<open>
  Each name with the mark of a value gives three pieces of text. The mark is taken off with \<^verbatim>\<open>strip\<close>, which removes
  every leading and trailing character that occurs in it.
\<close>

definition MARK :: string where "MARK = ''._value''"

fun value_texts :: "(string, json) dict \<Rightarrow> (string \<times> json) list \<Rightarrow> raised + string list" where
  "value_texts flat [] = Inr []"
| "value_texts flat ((k, v) # ps) =
     (if \<not> str_in ''_value'' k then value_texts flat ps
      else
        case get_item flat (py_replace ''_value'' ''_type'' k) of
          Inl e \<Rightarrow> Inl e
        | Inr t \<Rightarrow> map_sum id (\<lambda>ts. (strip MARK k @ '', '' @ py_str v @ '', '' @ py_str t) # ts) (value_texts flat ps))"

definition convert_to_string :: "json \<Rightarrow> raised + string" where
  "convert_to_string data =
     (case data of
        JObj ps \<Rightarrow> (let flat = flatten_dict [] ps in map_sum id (join '', '') (value_texts flat flat))
      | _ \<Rightarrow> Inl attribute_error)"

fun in_threes :: "'a list \<Rightarrow> 'a list list" where
  "in_threes [] = []"
| "in_threes [a] = [[a]]"
| "in_threes [a, b] = [[a, b]]"
| "in_threes (a # b # c # xs) = [a, b, c] # in_threes xs"

definition convert_response :: "json \<Rightarrow> raised + (string, string) dict list" where
  "convert_response response_data =
     (case response_data of
        JList (v # _) \<Rightarrow>
          map_sum id (\<lambda>s. map (\<lambda>es. zip [''key'', ''value'', ''type''] es) (in_threes (split_str '', '' s))) (convert_to_string v)
      | JList [] \<Rightarrow> Inl index_error
      | JObj _ \<Rightarrow> Inl (py_error PyException ''KeyError'' ''0'')
      | _ \<Rightarrow> Inl type_error)"

definition parameter_names :: "json \<Rightarrow> raised + string" where
  "parameter_names param =
     (case param of
        JStr s \<Rightarrow> Inr s
      | JList vs \<Rightarrow> if list_all (\<lambda>v. case v of JStr _ \<Rightarrow> True | _ \<Rightarrow> False) vs then Inr (join '','' (map shown vs)) else Inl type_error
      | _ \<Rightarrow> Inl type_error)"

definition gpv_task :: "json \<Rightarrow> json" where
  "gpv_task param =
     JObj [(''name'', JStr ''getParameterValues''), (''parameterNames'', case param of JList _ \<Rightarrow> param | _ \<Rightarrow> JList [param])]"

definition chosen_cpe :: "'w genie \<Rightarrow> string option \<Rightarrow> raised + string" where
  "chosen_cpe g cpe_id =
     (case (case cpe_id of Some (c # s) \<Rightarrow> Some (c # s) | _ \<Rightarrow> ge_cpeid g) of None \<Rightarrow> Inl type_error | Some i \<Rightarrow> Inr i)"

definition genie_GPV :: "'w genie \<Rightarrow> json \<Rightarrow> int option \<Rightarrow> string option \<Rightarrow> ('w, (string, string) dict list) io" where
  "genie_GPV g param timeout cpe_id =
     seq (lift_sum (chosen_cpe g cpe_id)) (\<lambda>i.
     seq (request_post g (''/devices/'' @ url_quote ''/'' i @ ''/tasks'') (Some (gpv_task param)) timeout) (\<lambda>_.
     seq (lift_sum (parameter_names param)) (\<lambda>names.
     seq (request_get g (''/devices?query='' @ url_quote [] (''{'' @ [CHR 0x22] @ ''_id'' @ [CHR 0x22] @ '':'' @ [CHR 0x22] @ i @ [CHR 0x22] @ ''}'') @
            ''&projection='' @ names) timeout)
       (\<lambda>res. lift_sum (convert_response res)))))"

section \<open>Writing\<close>

text \<open>
  The values of a dictionary in order. In a list a text is passed over, and a dictionary is turned into the
  text of an iterator and the iterator itself, which the client cannot encode: no task at all.
\<close>

definition spv_task :: "json \<Rightarrow> raised + json option" where
  "spv_task param_value =
     (let task = (\<lambda>vs. Some (JObj [(''name'', JStr ''setParameterValues''), (''parameterValues'', JList vs)]))
      in case param_value of
           JObj ps \<Rightarrow> Inr (task (map (\<lambda>(k, v). JList [JStr k, v]) ps))
         | JList vs \<Rightarrow> Inr (if list_ex (\<lambda>v. case v of JObj _ \<Rightarrow> True | _ \<Rightarrow> False) vs then None else task [])
         | JStr _ \<Rightarrow> Inr (task [])
         | _ \<Rightarrow> Inl type_error)"

definition genie_SPV :: "'w genie \<Rightarrow> json \<Rightarrow> int option \<Rightarrow> string option \<Rightarrow> ('w, bool) io" where
  "genie_SPV g param_value timeout cpe_id =
     seq (lift_sum (spv_task param_value)) (\<lambda>task.
     seq (lift_sum (chosen_cpe g cpe_id)) (\<lambda>i.
     seq (request_post g (''/devices/'' @ url_quote ''/'' i @ ''/tasks'') task timeout) (\<lambda>res. ret (truthy res))))"

section \<open>The board\<close>

text \<open>The identifier of the board, from the inventory; every part is needed.\<close>

definition cpe_identifier :: "(string, json) dict \<Rightarrow> raised + string" where
  "cpe_identifier config =
     (let oui = get_or_none config ''oui''; product_class = get_or_none config ''product_class''; serial = get_or_none config ''serial''
      in if \<not> truthy oui \<or> \<not> truthy product_class \<or> \<not> truthy serial
         then Inl (boardfarm_error ''Inventory needs to have oui, product_class and serial entries!'')
         else Inr (shown oui @ ''-'' @ shown product_class @ ''-'' @ shown serial))"

definition add_cpe_id :: "raised + (string, json) dict \<Rightarrow> 'w genie \<Rightarrow> raised + 'w genie" where
  "add_cpe_id cpe_config g =
     (case cpe_config of
        Inl e \<Rightarrow> Inl e
      | Inr config \<Rightarrow> (case cpe_identifier config of Inl e \<Rightarrow> Inl e | Inr i \<Rightarrow> Inr (g\<lparr>ge_cpeid := Some i\<rparr>)))"

text \<open>The methods provisioning can name; with three arguments the others raise, for one reason or another.\<close>

definition genie_api :: "'w genie \<Rightarrow> string \<Rightarrow> raised + (json \<Rightarrow> ('w, unit) io)" where
  "genie_api g acs_api =
     (if acs_api = ''GPV'' then Inr (\<lambda>p. seq (genie_GPV g p (Some 30) (ge_cpeid g)) (\<lambda>_. ret ()))
      else if acs_api = ''SPV'' then Inr (\<lambda>p. seq (genie_SPV g p (Some 30) (ge_cpeid g)) (\<lambda>_. ret ()))
      else if acs_api \<in> {''SPA'', ''AddObject'', ''DelObject'', ''GPN'', ''ScheduleInform'', ''Download''}
      then Inr (\<lambda>_. throw (py_error PyException ''NotImplementedError'' []))
      else if acs_api \<in> {''GPA'', ''FactoryReset'', ''Reboot'', ''GetRPCMethods''} then Inr (\<lambda>_. throw type_error)
      else Inl attribute_error)"

definition genie_provision :: "('w, unit) io \<Rightarrow> 'w genie \<Rightarrow> (string, json) dict list \<Rightarrow> ('w, unit) io" where
  "genie_provision pause g api_list = provision_cpe_via_tr069 pause (genie_api g) api_list"

text \<open>The check of the service before a test.\<close>

definition text_in_json :: "string \<Rightarrow> json \<Rightarrow> raised + bool" where
  "text_in_json s v =
     (case v of
        JObj ps \<Rightarrow> Inr (dict_mem s ps)
      | JStr t \<Rightarrow> Inr (str_in s t)
      | JList vs \<Rightarrow> Inr (JStr s \<in> set vs)
      | _ \<Rightarrow> Inl type_error)"

definition genie_contingency_check :: "('w, unit) io \<Rightarrow> 'w genie \<Rightarrow> bool \<Rightarrow> (string, json) dict \<Rightarrow> ('w, unit) io" where
  "genie_contingency_check pause g skip env_req =
     (if skip then ret ()
      else
        seq (lift_sum (text_in_json ''tr-069'' (kwarg env_req ''environment_def'' (JObj [])))) (\<lambda>asked.
        if \<not> asked then ret ()
        else
          seq (retry_io pause (genie_GPV g (JStr ''Device.DeviceInfo.SoftwareVersion'') None None) 10) (\<lambda>r.
          if r = [] then throw (py_error ContingencyCheckError ''ContingencyCheckError'' ''ACS service check Failed.'') else ret ())))"

section \<open>Properties\<close>

text \<open>Cutting at the separator undoes joining with it.\<close>

lemma split_comma: "\<not> str_in '', '' w \<Longrightarrow> split_text '', '' cur (w @ '', '' @ rest) = (rev cur @ w) # split_text '', '' [] rest"
proof (induction w arbitrary: cur)
  case Nil
  then show ?case by (simp add: startswith_def)
next
  case (Cons c w)
  have "\<not> startswith (c # w @ '', '' @ rest) '', ''"
  proof
    assume "startswith (c # w @ '', '' @ rest) '', ''"
    then have "c = CHR '',''" "take 1 (w @ '', '' @ rest) = '' ''" by (auto simp: startswith_def)
    then have "startswith (c # w) '', ''" by (cases w) (auto simp: startswith_def)
    then show False using Cons.prems by simp
  qed
  moreover have "\<not> str_in '', '' w" using Cons.prems by simp
  ultimately show ?case using Cons.IH [of "c # cur"] by simp
qed

lemma split_comma_last: "\<not> str_in '', '' w \<Longrightarrow> split_text '', '' cur w = [rev cur @ w]"
proof (induction w arbitrary: cur)
  case (Cons c w)
  then show ?case using Cons.IH [of "c # cur"] by auto
qed simp

lemma split_joined: "ws \<noteq> [] \<Longrightarrow> list_all (\<lambda>w. \<not> str_in '', '' w) ws \<Longrightarrow> split_str '', '' (join '', '' ws) = ws"
proof (induction ws rule: induct_list012)
  case (2 w)
  then show ?case by (simp add: split_str_def split_comma_last)
next
  case (3 w v ws)
  then show ?case using split_comma [of w "[]" "join '', '' (v # ws)"] by (simp add: split_str_def)
qed simp

lemma threes_concat: "in_threes (concat (map (\<lambda>(a, b, c). [a, b, c]) xs)) = map (\<lambda>(a, b, c). [a, b, c]) xs"
  by (induction xs) auto

lemma join_triples:
  "join '', '' (map (\<lambda>(a, b, c). a @ '', '' @ b @ '', '' @ c) xs) = join '', '' (concat (map (\<lambda>(a, b, c). [a, b, c]) xs))"
proof (induction xs)
  case (Cons x xs)
  then show ?case by (cases x; cases xs) (auto simp: join_Cons)
qed simp

lemma mark_replaced: "\<not> str_in ''_value'' n \<Longrightarrow> py_replace ''_value'' ''_type'' (n @ MARK) = n @ ''._type''"
proof (induction n)
  case Nil
  show ?case unfolding MARK_def by code_simp
next
  case (Cons c n)
  have "\<not> startswith (c # n @ MARK) ''_value''"
  proof
    assume s: "startswith (c # n @ MARK) ''_value''"
    show False
    proof (cases "5 \<le> length n")
      case True
      then have "startswith (c # n) ''_value''" using s by (simp add: startswith_def)
      then show False using Cons.prems by simp
    next
      case False
      then have "(n @ MARK) ! length n = CHR ''.''" "length n < 5" by (simp_all add: MARK_def nth_append)
      moreover have "take 5 (n @ MARK) = ''value''" using s by (simp add: startswith_def numeral_eq_Suc)
      ultimately have "CHR ''.'' = ''value'' ! length n" by (metis nth_take)
      then show False using \<open>length n < 5\<close> by (auto simp: numeral_eq_Suc less_Suc_eq)
    qed
  qed
  then show ?case using Cons by simp
qed

lemma strip_mark: "strip MARK (n @ MARK) = strip MARK n"
  using strip_blanks [of "[]" MARK MARK n] by simp

text \<open>What reading a parameter means: its name, the text of its value and of its type.\<close>

definition read_as :: "string \<times> json \<times> json \<Rightarrow> string \<times> string \<times> string" where
  "read_as p = (case p of (n, v, t) \<Rightarrow> (strip MARK n, py_str v, py_str t))"

definition plain_text :: "string \<times> json \<times> json \<Rightarrow> bool" where
  "plain_text p \<longleftrightarrow> (case p of (n, v, t) \<Rightarrow>
     \<not> str_in ''_value'' n \<and> \<not> str_in '', '' (strip MARK n) \<and> \<not> str_in '', '' (py_str v) \<and> \<not> str_in '', '' (py_str t))"

lemma value_texts_read:
  assumes "filter (\<lambda>p. str_in ''_value'' (fst p)) items = map (\<lambda>(n, v, t). (n @ MARK, v)) params"
    and "\<forall>(n, v, t)\<in>set params. plain_text (n, v, t) \<and> dict_get flat (n @ ''._type'') = Some t"
  shows "value_texts flat items = Inr (map (\<lambda>(a, b, c). a @ '', '' @ b @ '', '' @ c) (map read_as params))"
  using assms
proof (induction items arbitrary: params)
  case (Cons i items)
  obtain k v where i: "i = (k, v)" by (cases i)
  show ?case
  proof (cases "str_in ''_value'' k")
    case False
    then show ?thesis using Cons i by simp
  next
    case True
    then obtain n t ps where p: "params = (n, v, t) # ps" "k = n @ MARK"
        "filter (\<lambda>p. str_in ''_value'' (fst p)) items = map (\<lambda>(n, v, t). (n @ MARK, v)) ps"
      using Cons.prems(1) i by (cases params) auto
    have a: "plain_text (n, v, t)" "dict_get flat (n @ ''._type'') = Some t" using Cons.prems(2) p(1) by auto
    have "value_texts flat items = Inr (map (\<lambda>(a, b, c). a @ '', '' @ b @ '', '' @ c) (map read_as ps))"
      using Cons.IH [OF p(3)] Cons.prems(2) p(1) by simp
    then show ?thesis
      using a True p(1,2) i mark_replaced [of n] by (simp add: plain_text_def get_item_def strip_mark read_as_def)
  qed
qed simp

text \<open>C34: what a query gives is read parameter by parameter: from the answer of the server, as many entries as it
  has values, in their order, each with the text of its value and its type, as long as no text holds the
  separator. The name comes back whole exactly when it neither begins nor ends with a character of the mark
  that is taken off it.\<close>

theorem genie_response_read:
  assumes "filter (\<lambda>p. str_in ''_value'' (fst p)) (flatten_dict [] tree) = map (\<lambda>(n, v, t). (n @ MARK, v)) params"
    and "\<forall>(n, v, t)\<in>set params. plain_text (n, v, t) \<and> dict_get (flatten_dict [] tree) (n @ ''._type'') = Some t"
    and "params \<noteq> []"
  shows "convert_response (JList (JObj tree # others)) =
      Inr (map (\<lambda>(n, v, t). [(''key'', n), (''value'', v), (''type'', t)]) (map read_as params)) \<and>
    (\<forall>(n, v, t)\<in>set params. n \<noteq> [] \<longrightarrow> (fst (read_as (n, v, t)) = n \<longleftrightarrow> hd n \<notin> set MARK \<and> last n \<notin> set MARK))"
proof (intro conjI)
  let ?ts = "concat (map (\<lambda>(a, b, c). [a, b, c]) (map read_as params))"
  have "list_all (\<lambda>w. \<not> str_in '', '' w) ?ts"
    using assms(2) by (auto simp: list_all_iff plain_text_def read_as_def)
  moreover have "?ts \<noteq> []" using assms(3) by (cases params) (auto split: prod.splits)
  ultimately have "split_str '', '' (join '', '' ?ts) = ?ts" by (intro split_joined)
  moreover have "convert_to_string (JObj tree) = Inr (join '', '' ?ts)"
    unfolding convert_to_string_def Let_def json.case value_texts_read [OF assms(1,2)] map_sum.simps join_triples ..
  ultimately show "convert_response (JList (JObj tree # others)) =
      Inr (map (\<lambda>(n, v, t). [(''key'', n), (''value'', v), (''type'', t)]) (map read_as params))"
    unfolding convert_response_def json.case list.case
    by (simp only: map_sum.simps threes_concat id_apply) (simp add: case_prod_unfold comp_def)
next
  have "strip MARK n = n \<longleftrightarrow> hd n \<notin> set MARK \<and> last n \<notin> set MARK" if "n \<noteq> []" for n
  proof
    assume s: "strip MARK n = n"
    have "rstrip MARK n = n"
    proof -
      have "length (rstrip MARK n) \<le> length n" using length_dropWhile_le [of "\<lambda>c. c \<in> set MARK" "rev n"] by (simp add: rstrip_def)
      moreover have "length n \<le> length (rstrip MARK n)"
        using s length_dropWhile_le [of "\<lambda>c. c \<in> set MARK" "rstrip MARK n"] by (simp add: strip_def lstrip_def)
      moreover obtain b where "n = rstrip MARK n @ b"
        using takeWhile_dropWhile_id [of "\<lambda>c. c \<in> set MARK" "rev n"] unfolding rstrip_def by (metis rev_append rev_rev_ident)
      ultimately show ?thesis by (metis append_Nil2 append_eq_append_conv le_antisym)
    qed
    then have "last n \<notin> set MARK" using rstrip_last [of MARK n] that by simp
    moreover have "hd n \<notin> set MARK"
      using s \<open>rstrip MARK n = n\<close> that hd_dropWhile [of "\<lambda>c. c \<in> set MARK" n] by (auto simp: strip_def lstrip_def)
    ultimately show "hd n \<notin> set MARK \<and> last n \<notin> set MARK" by blast
  next
    assume "hd n \<notin> set MARK \<and> last n \<notin> set MARK"
    then show "strip MARK n = n" using that by (cases n) (simp_all add: strip_def rstrip_id lstrip_def)
  qed
  then show "\<forall>(n, v, t)\<in>set params. n \<noteq> [] \<longrightarrow> (fst (read_as (n, v, t)) = n \<longleftrightarrow> hd n \<notin> set MARK \<and> last n \<notin> set MARK)"
    by (auto simp: read_as_def)
qed

definition software_tree :: "(string \<times> json) list" where
  "software_tree =
     [(''_id'', JStr ''cpe''),
      (''Device'', JObj [(''Port'', JObj [(''_object'', JBool False), (''_type'', JStr ''xsd:int''), (''_value'', JInt 80)]),
                         (''Enable'', JObj [(''_value'', JBool True), (''_type'', JStr ''xsd:boolean'')])])]"

theorem genie_response_read_witness:
  "convert_response (JList [JObj software_tree]) =
     Inr [[(''key'', ''Device.Port''), (''value'', ''80''), (''type'', ''xsd:int'')],
          [(''key'', ''Device.Enab''), (''value'', ''True''), (''type'', ''xsd:boolean'')]]"
proof -
  let ?ps = "[(''Device.Port'', JInt 80, JStr ''xsd:int''), (''Device.Enable'', JBool True, JStr ''xsd:boolean'')]"
  have 1: "filter (\<lambda>p. str_in ''_value'' (fst p)) (flatten_dict [] software_tree) = map (\<lambda>(n, v, t). (n @ MARK, v)) ?ps"
    by code_simp
  have 2: "\<forall>(n, v, t)\<in>set ?ps. plain_text (n, v, t) \<and> dict_get (flatten_dict [] software_tree) (n @ ''._type'') = Some t"
  proof -
    have "plain_text (''Device.Port'', JInt 80, JStr ''xsd:int'')" "plain_text (''Device.Enable'', JBool True, JStr ''xsd:boolean'')"
      "dict_get (flatten_dict [] software_tree) ''Device.Port._type'' = Some (JStr ''xsd:int'')"
      "dict_get (flatten_dict [] software_tree) ''Device.Enable._type'' = Some (JStr ''xsd:boolean'')" by code_simp+
    then show ?thesis by simp
  qed
  have 3: "map (\<lambda>(n, v, t). [(''key'', n), (''value'', v), (''type'', t)]) (map read_as ?ps) =
      [[(''key'', ''Device.Port''), (''value'', ''80''), (''type'', ''xsd:int'')],
       [(''key'', ''Device.Enab''), (''value'', ''True''), (''type'', ''xsd:boolean'')]]" by code_simp
  show ?thesis using conjunct1 [OF genie_response_read [OF 1 2, of "[]"]] unfolding 3 by simp
qed

text \<open>setting parameters from a list of dictionaries, which the interface admits, never reaches the server;
  from a dictionary it posts one task with the values in order.\<close>

theorem genie_spv_list_refused:
  "genie_SPV g (JList (JObj ps # vs)) timeout cpe_id w = (Inl type_error, w) \<and>
   genie_SPV g (JObj ps) timeout (Some (c # s)) w =
     seq (request_post g (''/devices/'' @ url_quote ''/'' (c # s) @ ''/tasks'')
            (Some (JObj [(''name'', JStr ''setParameterValues''), (''parameterValues'', JList (map (\<lambda>(k, v). JList [JStr k, v]) ps))])) timeout)
       (\<lambda>res. ret (truthy res)) w"
  by (auto simp: genie_SPV_def spv_task_def Let_def seq_def lift_sum_def request_post_def throw_def chosen_cpe_def
      split: option.splits list.splits)

end
