(* ===== verification/Kea_Provisioner.thy ===== *)
theory Kea_Provisioner
  imports Linux_WAN Compose
begin

text \<open>
  The DHCP provisioner (\<^verbatim>\<open>boardfarm3/devices/kea_provisioner.py\<close>): the configuration of the two Kea servers, made
  from the templates of \<^verbatim>\<open>boardfarm3/configs\<close>, the inventory and the options of the environment, and the
  restart of the servers. The random identifiers of the subnets are arguments. Where the code writes into
  the options it was given, the definitions return them.
\<close>

section \<open>Text\<close>

text \<open>\<^verbatim>\<open>s.encode().hex()\<close>, in UTF-8, and \<^verbatim>\<open>json.dumps(v, indent=4)\<close>;
  no real number occurs in these configurations, and one would show only its integral part.\<close>

definition utf8 :: "string \<Rightarrow> nat list" where
  "utf8 s = concat (map (\<lambda>c. let n = (of_char c :: nat) in if n < 128 then [n] else [192 + n div 64, 128 + n mod 64]) s)"

definition encoded :: "string \<Rightarrow> string" where
  "encoded s = concat (map hex2 (utf8 s))"

fun dumps :: "nat \<Rightarrow> json \<Rightarrow> string" and
  dumps_items :: "nat \<Rightarrow> json list \<Rightarrow> string list" and
  dumps_pairs :: "nat \<Rightarrow> (string \<times> json) list \<Rightarrow> string list" where
  "dumps n (JObj []) = ''{}''"
| "dumps n (JObj (p # ps)) =
     ''{'' @ [CHR 0x0A] @ join ('','' @ [CHR 0x0A]) (dumps_pairs (n + 4) (p # ps)) @ [CHR 0x0A] @ replicate n (CHR '' '') @ ''}''"
| "dumps n (JList []) = ''[]''"
| "dumps n (JList (v # vs)) =
     ''['' @ [CHR 0x0A] @ join ('','' @ [CHR 0x0A]) (dumps_items (n + 4) (v # vs)) @ [CHR 0x0A] @ replicate n (CHR '' '') @ '']''"
| "dumps n (JStr s) = json_str s"
| "dumps n (JInt i) = int_str i"
| "dumps n (JBool b) = (if b then ''true'' else ''false'')"
| "dumps n JNull = ''null''"
| "dumps n (JReal r) = int_str \<lfloor>r\<rfloor> @ ''.0''"
| "dumps_items n [] = []"
| "dumps_items n (v # vs) = (replicate n (CHR '' '') @ dumps n v) # dumps_items n vs"
| "dumps_pairs n [] = []"
| "dumps_pairs n ((k, v) # ps) = (replicate n (CHR '' '') @ json_str k @ '': '' @ dumps n v) # dumps_pairs n ps"

section \<open>The templates\<close>

definition dhcp4_subnet :: "(string, json) dict" where
  "dhcp4_subnet =
     [(''subnet'', JStr ''10.1.2.0/24''), (''interface'', JStr []), (''reservations'', JList []), (''option-data'',
      JList [])]"

definition dhcp4_template :: "(string, json) dict" where
  "dhcp4_template =
     [(''valid-lifetime'', JInt 86400), (''renew-timer'', JInt 3600), (''rebind-timer'', JInt 75600),
      (''interfaces-config'', JObj [(''interfaces'', JList [])]), (''client-classes'', JList [JObj [(''name'',
      JStr ''short''), (''valid-lifetime'', JInt 600), (''min-valid-lifetime'', JInt 600), (''max-valid-lifetime'',
      JInt 700)], JObj [(''name'', JStr ''long''), (''valid-lifetime'', JInt 3600), (''min-valid-lifetime'',
      JInt 3600), (''max-valid-lifetime'', JInt 4000)]]), (''lease-database'', JObj [(''type'', JStr ''memfile''),
      (''persist'', JBool True), (''name'', JStr ''/var/lib/kea/dhcp4.leases''), (''lfc-interval'', JInt 540)]),
      (''expired-leases-processing'', JObj [(''reclaim-timer-wait-time'', JInt 3),
      (''flush-reclaimed-timer-wait-time'', JInt 5), (''hold-reclaimed-time'', JInt 600), (''max-reclaim-leases'',
      JInt 10), (''max-reclaim-time'', JInt 10), (''unwarned-reclaim-cycles'', JInt 5)]), (''option-def'',
      JList [JObj [(''code'', JInt 1), (''name'', JStr ''acs-url''), (''space'',
      JStr ''vendor-encapsulated-options-space''), (''type'', JStr ''binary''), (''array'', JBool False)],
      JObj [(''code'', JInt 2), (''name'', JStr ''provisioning-code''), (''space'',
      JStr ''vendor-encapsulated-options-space''), (''type'', JStr ''string''), (''array'', JBool False)],
      JObj [(''code'', JInt 1), (''name'', JStr ''acs-url''), (''space'', JStr ''vendor-3561''), (''type'',
      JStr ''binary''), (''array'', JBool False)], JObj [(''code'', JInt 2), (''name'', JStr ''provisioning-code''),
      (''space'', JStr ''vendor-3561''), (''type'', JStr ''string''), (''array'', JBool False)]]), (''subnet4'',
      JList [JObj dhcp4_subnet]), (''loggers'', JList [JObj [(''name'', JStr ''kea-dhcp4''), (''output_options'',
      JList [JObj [(''output'', JStr ''/var/log/kea/kea-dhcp4-info.log'')]]), (''severity'', JStr ''INFO''),
      (''debuglevel'', JInt 99)]])]"

definition dhcp6_subnet :: "(string, json) dict" where
  "dhcp6_subnet =
     [(''subnet'', JStr ''2001:dead:cafe:2::/56''), (''interface'', JStr []), (''pools'', JList []), (''pd-pools'',
      JList []), (''option-data'', JList [JObj [(''name'', JStr ''domain-search''), (''code'', JInt 24), (''data'',
      JStr ''boardfarm.com, boardfarm.upclabs.com'')], JObj [(''always-send'', JBool True), (''code'', JInt 20),
      (''name'', JStr ''reconf-accept'')], JObj [(''code'', JInt 64), (''data'', JStr ''aftr.boardfarm.com''),
      (''name'', JStr ''aftr-name'')]])]"

definition dhcp6_template :: "(string, json) dict" where
  "dhcp6_template =
     [(''valid-lifetime'', JInt 4000), (''renew-timer'', JInt 3600), (''rebind-timer'', JInt 2000), (''mac-sources'',
      JList [JStr ''duid'']), (''interfaces-config'', JObj [(''interfaces'', JList [])]), (''lease-database'',
      JObj [(''type'', JStr ''memfile''), (''persist'', JBool True), (''name'', JStr ''/var/lib/kea/dhcp6.leases''),
      (''lfc-interval'', JInt 540)]), (''client-classes'', JList [JObj [(''name'', JStr ''short''),
      (''valid-lifetime'', JInt 600), (''min-valid-lifetime'', JInt 600), (''max-valid-lifetime'', JInt 700)],
      JObj [(''name'', JStr ''long''), (''valid-lifetime'', JInt 3600), (''min-valid-lifetime'', JInt 3600),
      (''max-valid-lifetime'', JInt 4000)]]), (''expired-leases-processing'', JObj [(''reclaim-timer-wait-time'',
      JInt 10), (''flush-reclaimed-timer-wait-time'', JInt 25), (''hold-reclaimed-time'', JInt 3600),
      (''max-reclaim-leases'', JInt 100), (''max-reclaim-time'', JInt 250), (''unwarned-reclaim-cycles'', JInt 5)]),
      (''option-def'', JList [JObj [(''name'', JStr ''acs-url''), (''code'', JInt 1), (''space'',
      JStr ''vendor-3561''), (''type'', JStr ''binary''), (''array'', JBool False)], JObj [(''name'',
      JStr ''provisioning-code''), (''code'', JInt 2), (''space'', JStr ''vendor-3561''), (''type'',
      JStr ''string''), (''array'', JBool False)], JObj [(''name'', JStr ''ntp-servers''), (''code'', JInt 56),
      (''space'', JStr ''dhcp6''), (''type'', JStr ''binary''), (''array'', JBool False), (''record-types'',
      JStr []), (''encapsulate'', JStr [])]]), (''subnet6'', JList [JObj dhcp6_subnet]), (''loggers'',
      JList [JObj [(''name'', JStr ''kea-dhcp6''), (''output_options'', JList [JObj [(''output'',
      JStr ''/var/log/kea/kea-dhcp6-info.log'')]]), (''severity'', JStr ''INFO''), (''debuglevel'', JInt 99)]])]"

section \<open>Networks\<close>

text \<open>\<^verbatim>\<open>ip_interface\<close>, \<^verbatim>\<open>ip_network\<close> (which refuses host bits), and indexing a network.\<close>

definition bits :: "address \<Rightarrow> nat" where
  "bits a = (case a of V4 _ \<Rightarrow> 32 | V6 _ \<Rightarrow> 128)"

definition addr_int :: "address \<Rightarrow> int" where
  "addr_int a = (case a of V4 n \<Rightarrow> n | V6 n \<Rightarrow> n)"

definition same_version :: "address \<Rightarrow> int \<Rightarrow> address" where
  "same_version a n = (case a of V4 _ \<Rightarrow> V4 n | V6 _ \<Rightarrow> V6 n)"

definition ip_interface :: "string \<Rightarrow> raised + address \<times> nat" where
  "ip_interface s =
     (case IPv4Interface s of
        Inr (n, k) \<Rightarrow> Inr (V4 n, k)
      | Inl _ \<Rightarrow>
          (case IPv6Interface s of
             Inr (n, k) \<Rightarrow> Inr (V6 n, k)
           | Inl _ \<Rightarrow> Inl (value_error (py_repr s @ '' does not appear to be an IPv4 or IPv6 interface''))))"

definition network_size :: "address \<times> nat \<Rightarrow> int" where
  "network_size i = 2 ^ (bits (fst i) - snd i)"

definition network_base :: "address \<times> nat \<Rightarrow> int" where
  "network_base i = addr_int (fst i) - addr_int (fst i) mod network_size i"

definition network_at :: "address \<times> nat \<Rightarrow> int \<Rightarrow> raised + string" where
  "network_at i m =
     (if m < network_size i then Inr (addr_str (same_version (fst i) (network_base i + m)))
      else Inl (py_error PyException ''IndexError'' ''address out of range''))"

definition ip_network :: "string \<Rightarrow> raised + address \<times> nat" where
  "ip_network s =
     (case ip_interface s of
        Inl _ \<Rightarrow> Inl (value_error (py_repr s @ '' does not appear to be an IPv4 or IPv6 network''))
      | Inr i \<Rightarrow> if network_base i = addr_int (fst i) then Inr i else Inl (value_error (s @ '' has host bits set'')))"

definition show_interface :: "address \<times> nat \<Rightarrow> string" where
  "show_interface i = addr_str (fst i) @ ''/'' @ nat_str (snd i)"

section \<open>Vendor options\<close>

definition sub_options :: "(string \<times> json) list list" where
  "sub_options =
     [[(''name'', JStr ''acs-url''), (''sub-option-code'', JInt 1), (''data'', JStr [])],
      [(''name'', JStr ''provisioning-code''), (''sub-option-code'', JInt 2), (''data'', JStr [])]]"

definition supported_pairs :: "(json \<times> json) list" where
  "supported_pairs = map (\<lambda>o'. (get_or_none o' ''name'', get_or_none o' ''sub-option-code'')) sub_options"

fun option_pairs :: "json list \<Rightarrow> raised + (json \<times> json) list" where
  "option_pairs [] = Inr []"
| "option_pairs (v # vs) =
     andalso (json_item v ''name'') (\<lambda>n.
     andalso (json_item v ''sub-option-code'') (\<lambda>c. map_sum id (\<lambda>ps. (n, c) # ps) (option_pairs vs)))"

definition items_of :: "json \<Rightarrow> raised + json list" where
  "items_of v = (case v of JList vs \<Rightarrow> Inr vs | JObj ps \<Rightarrow> Inr (map (\<lambda>p. JStr (fst p)) ps) | _ \<Rightarrow> Inl type_error)"

definition is_env_vsio_supported :: "json \<Rightarrow> raised + bool" where
  "is_env_vsio_supported requested = andalso (items_of requested) (\<lambda>vs. map_sum id (\<lambda>ps. set ps = set supported_pairs) (option_pairs vs))"

definition is_env_vivso_supported :: "json \<Rightarrow> raised + bool" where
  "is_env_vivso_supported requested =
     (if \<not> truthy requested then Inr False
      else
        andalso (json_item requested ''sub-options'') (\<lambda>os.
        andalso (is_env_vsio_supported os) (\<lambda>same.
        if \<not> same then Inr False else map_sum id (\<lambda>i. i = JInt 3561) (json_item requested ''vendor-id''))))"

text \<open>
  The data of an \<open>acs-url\<close> is replaced by its encoding in the option itself, a blank one by that of a single
  space.
\<close>

definition encode_option :: "(string, json) dict \<Rightarrow> raised + (string, json) dict" where
  "encode_option o' =
     (case get_item o' ''data'' of
        Inl e \<Rightarrow> Inl e
      | Inr (JStr s) \<Rightarrow> Inr (dict_set ''data'' (JStr (encoded (if strip whitespace s = [] then '' '' else s))) o')
      | Inr _ \<Rightarrow> Inl attribute_error)"

definition option_entry :: "string \<Rightarrow> (string, json) dict \<Rightarrow> raised + (string, json) dict \<times> json" where
  "option_entry space o' =
     andalso (get_item o' ''name'') (\<lambda>n.
     andalso (if n = JStr ''acs-url'' then encode_option o' else Inr o') (\<lambda>o2.
     map_sum id (\<lambda>d. (o2, JObj [(''always-send'', JBool True), (''name'', n), (''space'', JStr space), (''data'', d)])) (get_item o2 ''data'')))"

fun suboption_entries :: "string \<Rightarrow> json list \<Rightarrow> raised + json list \<times> json list" where
  "suboption_entries space [] = Inr ([], [])"
| "suboption_entries space (v # vs) =
     (case v of
        JObj o' \<Rightarrow>
          andalso (option_entry space o') (\<lambda>(o2, d).
          map_sum id (\<lambda>(os, ds). (JObj o2 # os, d # ds)) (suboption_entries space vs))
      | _ \<Rightarrow> Inl type_error)"

definition vsio_configuration :: "json \<Rightarrow> raised + json \<times> json list" where
  "vsio_configuration vsio =
     andalso (items_of vsio) (\<lambda>vs.
     map_sum id (\<lambda>(os, ds). (JList os, JObj [(''always-send'', JBool True), (''name'', JStr ''vendor-encapsulated-options'')] # ds))
       (suboption_entries ''vendor-encapsulated-options-space'' vs))"

definition vivso_configuration :: "json \<Rightarrow> bool \<Rightarrow> raised + json \<times> json list" where
  "vivso_configuration vivso ipv6 =
     andalso (json_item vivso ''vendor-id'') (\<lambda>i.
     andalso (json_item vivso ''sub-options'') (\<lambda>v.
     andalso (items_of v) (\<lambda>vs.
     map_sum id
       (\<lambda>(os, ds). (with_entry vivso ''sub-options'' (JList os),
          JObj [(''always-send'', JBool True), (''data'', JStr (shown i)),
                (''name'', JStr (if ipv6 then ''vendor-opts'' else ''vivso-suboptions''))] # ds))
       (suboption_entries (''vendor-'' @ shown i) vs))))"

section \<open>The configurations\<close>

definition default_lifetime :: int where "default_lifetime = 43200"
definition renewal_time :: int where "renewal_time = 3600"
definition rebind_time :: int where "rebind_time = 5400"

definition preferred_vlan :: "(string, json) dict \<Rightarrow> raised + (string, json) dict" where
  "preferred_vlan config =
     andalso (json_path (JObj config) [''vlans'', shown (kwarg config ''preferred_vlan'' (JStr ''untagged''))])
       (\<lambda>v. case v of JObj ps \<Rightarrow> Inr ps | _ \<Rightarrow> Inl type_error)"

definition text_item :: "(string, json) dict \<Rightarrow> string \<Rightarrow> raised + string" where
  "text_item d k = map_sum id shown (get_item d k)"

definition pool :: "string \<Rightarrow> string \<Rightarrow> bool \<Rightarrow> json" where
  "pool a b cpe =
     JObj ((''pool'', JStr (a @ '' - '' @ b)) # (if cpe then [(''client-class'', JStr ''VENDOR_CLASS_BF_LAN_CPE'')] else []))"

definition add_to :: "string \<Rightarrow> json list \<Rightarrow> (string, json) dict \<Rightarrow> (string, json) dict" where
  "add_to k vs d = dict_set k (JList ((case get_or_none d k of JList xs \<Rightarrow> xs | _ \<Rightarrow> []) @ vs)) d"

definition named_data :: "string \<Rightarrow> json \<Rightarrow> json list" where
  "named_data name v = (if truthy v then [JObj [(''name'', JStr name), (''data'', v)]] else [])"

text \<open>The class of a lease goes to the reservation, so it needs one.\<close>

definition reservation :: "(string \<times> json) list \<Rightarrow> json \<Rightarrow> json list" where
  "reservation entries lease = [JObj (entries @ (if truthy lease then [(''client-classes'', JList [lease])] else []))]"

text \<open>The pools of a subnet of version 4; a network too small for them raises.\<close>

definition pools4 :: "address \<times> nat \<Rightarrow> raised + json list" where
  "pools4 subnet =
     andalso (network_at subnet 10) (\<lambda>a. andalso (network_at subnet 20) (\<lambda>b.
     andalso (network_at subnet 21) (\<lambda>c. andalso (network_at subnet 50) (\<lambda>d. Inr [pool a b True, pool c d False]))))"

definition pools6 :: "address \<times> nat \<Rightarrow> raised + json list" where
  "pools6 subnet =
     andalso (network_at subnet 512) (\<lambda>a. andalso (network_at subnet 767) (\<lambda>b.
     andalso (network_at subnet 256) (\<lambda>c. andalso (network_at subnet 511) (\<lambda>d. Inr [pool a b True, pool c d False]))))"

text \<open>A vendor option that is asked for and supported, as it is after encoding, with its entries.\<close>

definition vendor_entries ::
  "json \<Rightarrow> (json \<Rightarrow> raised + bool) \<Rightarrow> (json \<Rightarrow> raised + json \<times> json list) \<Rightarrow> raised + json \<times> json list" where
  "vendor_entries v supported build =
     (if \<not> truthy v then Inr (v, [])
      else andalso (supported v) (\<lambda>ok. if ok then build v else Inr (v, [])))"

definition updated_option :: "string \<Rightarrow> json \<Rightarrow> (string, json) dict \<Rightarrow> (string, json) dict" where
  "updated_option k v d = (if dict_mem k d then dict_set k v d else d)"

definition dhcp_ipv4_config ::
  "(string, json) dict \<Rightarrow> int \<Rightarrow> string \<Rightarrow> (string, json) dict \<Rightarrow> raised + json \<times> (string, json) dict" where
  "dhcp_ipv4_config config subnet_id cpe_mac os =
     andalso (preferred_vlan config) (\<lambda>vlan.
     andalso (get_item vlan ''iface'') (\<lambda>iface.
     andalso (text_item vlan ''ipv4'') (\<lambda>text.
     andalso (ip_interface text) (\<lambda>subnet.
     andalso (pools4 subnet) (\<lambda>pools.
     andalso (network_at subnet 1) (\<lambda>router.
     andalso (vendor_entries (get_or_none os ''vsio'') is_env_vsio_supported vsio_configuration) (\<lambda>(vsio, vsio_data).
     andalso (vendor_entries (get_or_none os ''vivso'') is_env_vivso_supported (\<lambda>v. vivso_configuration v False)) (\<lambda>(vivso, vivso_data).
     let cpe_addr = get_or_none vlan ''cpe_ipv4'';
         hosts = (if truthy cpe_addr
                  then reservation [(''hw-address'', JStr cpe_mac), (''ip-address'', cpe_addr)] (get_or_none os ''valid-lifetime'') else []);
         sub = add_to ''option-data''
                 (JObj [(''name'', JStr ''routers''), (''data'', JStr router)] #
                  named_data ''domain-name-servers'' (get_or_none os ''dns-server'') @
                  named_data ''ntp-servers'' (get_or_none os ''ntp-server'') @ vsio_data @ vivso_data)
               (add_to ''reservations'' hosts
               (dict_set ''pools'' (JList pools)
               (dict_set ''interface'' iface
               (dict_set ''id'' (JInt subnet_id) (dict_set ''subnet'' (JStr (show_interface subnet)) dhcp4_subnet)))))
     in Inr (JObj [(''Dhcp4'', JObj
               (dict_set ''subnet4'' (JList [JObj sub])
               (dict_set ''rebind-timer'' (JInt rebind_time)
               (dict_set ''renew-timer'' (JInt renewal_time)
               (dict_set ''valid-lifetime'' (JInt default_lifetime)
               (dict_set ''interfaces-config'' (JObj [(''interfaces'', JList [iface])]) dhcp4_template))))))],
             updated_option ''vivso'' vivso (updated_option ''vsio'' vsio os))))))))))"

text \<open>Version 6: the delegated prefixes, and the time servers in the encoding of the suboption.\<close>

definition duid :: "(string, json) dict \<Rightarrow> string \<Rightarrow> string" where
  "duid config cpe_mac =
     (case get_or_none config ''duid_en'' of
        JStr (c # s) \<Rightarrow> ''000200000de9'' @ encoded (c # s)
      | _ \<Rightarrow> ''00:03:00:01:'' @ cpe_mac)"

definition exploded :: "address \<Rightarrow> string" where
  "exploded a =
     (case a of
        V4 n \<Rightarrow> show_ipv4 n
      | V6 n \<Rightarrow> concat (map (\<lambda>h. hex2 (nat h div 256) @ hex2 (nat h mod 256)) (parts_of n)))"

fun ntp_hex :: "string list \<Rightarrow> raised + string" where
  "ntp_hex [] = Inr []"
| "ntp_hex (s # ss) = andalso (ip_address s) (\<lambda>a. map_sum id (\<lambda>rest. ''00010010'' @ exploded a @ rest) (ntp_hex ss))"

definition ntp_servers6 :: "json \<Rightarrow> raised + json list" where
  "ntp_servers6 v =
     (if \<not> truthy v then Inr []
      else case v of
             JStr s \<Rightarrow> map_sum id (\<lambda>h. [JObj [(''name'', JStr ''ntp-servers''), (''data'', JStr h)]]) (ntp_hex (split_on (CHR '','') s))
           | _ \<Rightarrow> Inl attribute_error)"

definition dhcp_ipv6_config ::
  "(string, json) dict \<Rightarrow> int \<Rightarrow> string \<Rightarrow> (string, json) dict \<Rightarrow> raised + json \<times> (string, json) dict" where
  "dhcp_ipv6_config config subnet_id cpe_mac os =
     andalso (preferred_vlan config) (\<lambda>vlan.
     andalso (get_item vlan ''iface'') (\<lambda>iface.
     andalso (text_item vlan ''cpe_pd'') (\<lambda>pd.
     andalso (ip_network pd) (\<lambda>pd_pool.
     andalso (text_item vlan ''ipv6'') (\<lambda>text.
     andalso (ip_interface text) (\<lambda>subnet.
     andalso (pools6 subnet) (\<lambda>pools.
     andalso (ntp_servers6 (get_or_none os ''ntp-server'')) (\<lambda>ntp.
     andalso (vendor_entries (get_or_none os ''vivso'') is_env_vivso_supported (\<lambda>v. vivso_configuration v True)) (\<lambda>(vivso, vivso_data).
     let cpe_addr6 = get_or_none vlan ''cpe_ipv6'';
         pd_entry = JObj [(''prefix'', JStr (addr_str (fst pd_pool))), (''prefix-len'', JInt 48), (''delegated-len'', JInt (int (snd pd_pool)))];
         sub1 = add_to ''pd-pools'' [pd_entry]
               (dict_set ''pools'' (JList pools)
               (dict_set ''interface'' iface
               (dict_set ''id'' (JInt subnet_id) (dict_set ''subnet'' (JStr (show_interface subnet)) dhcp6_subnet))));
         sub2 = (if truthy cpe_addr6
                 then dict_set ''reservations''
                        (JList (reservation [(''duid'', JStr (duid config cpe_mac)), (''ip-addresses'', JList [cpe_addr6])]
                                  (get_or_none os ''valid-lifetime''))) sub1
                 else sub1);
         sub = add_to ''option-data'' (named_data ''dns-servers'' (get_or_none os ''dns-server'') @ ntp @ vivso_data) sub2
     in Inr (JObj [(''Dhcp6'', JObj
               (dict_set ''subnet6'' (JList [JObj sub])
               (dict_set ''interfaces-config'' (JObj [(''interfaces'', JList [iface])])
               (dict_set ''rebind-timer'' (JInt rebind_time)
               (dict_set ''renew-timer'' (JInt renewal_time)
               (dict_set ''valid-lifetime'' (JInt default_lifetime) dhcp6_template))))))],
             updated_option ''vivso'' vivso os))))))))))"

section \<open>The device\<close>

record kea =
  kp_config :: "(string, json) dict"
  kp_dhcpv4 :: "(string, json) dict"
  kp_dhcpv6 :: "(string, json) dict"

definition kea_init :: "(string, json) dict \<Rightarrow> kea" where
  "kea_init config = \<lparr>kp_config = config, kp_dhcpv4 = [], kp_dhcpv6 = []\<rparr>"

definition KEA_PROMPT :: "string list" where
  "KEA_PROMPT = [DEFAULT_BASH_SHELL_PROMPT_PATTERN]"

definition boot_failure :: "string \<Rightarrow> raised" where
  "boot_failure m = py_error DeviceBootFailure ''DeviceBootFailure'' m"

definition started_rx :: "string \<Rightarrow> rx" where
  "started_rx version = cats [lit ''INFO/keactrl: Starting'', star dot, lit (''-'' @ version), star dot, lit (''kea-'' @ version @ ''.conf'')]"

definition start_kea :: "'w console \<Rightarrow> string \<Rightarrow> string \<Rightarrow> ('w, unit) io" where
  "start_kea c version name =
     seq (run_cmd c (''keactrl start -s '' @ version)) (\<lambda>out.
     if re_match (started_rx version) out = None then throw (boot_failure (''Failed to start '' @ name @ '' KEA provisioner: '' @ out)) else ret ())"

definition restart_dhcp_server :: "'w console \<Rightarrow> ('w, unit) io" where
  "restart_dhcp_server c =
     andthen (do_cmd c ''keactrl stop'')
     (andthen (sp_sleep c 2) (andthen (start_kea c ''dhcp4'' ''IPv4'') (start_kea c ''dhcp6'' ''IPv6'')))"

definition write_kea :: "'w console \<Rightarrow> string \<Rightarrow> json \<Rightarrow> ('w, unit) io" where
  "write_kea c version config =
     andthen (sp_sendline c (''cat > /etc/kea/kea-'' @ version @ ''.conf << EOF'' @ [CHR 0x0A] @ dumps 0 config @ [CHR 0x0A] @ ''EOF''))
       (at_prompt c KEA_PROMPT (-1))"

definition data_options :: "(string, json) dict \<Rightarrow> raised + (string, json) dict" where
  "data_options os = andalso (get_item os ''data'') (\<lambda>v. case v of JObj ps \<Rightarrow> Inr ps | _ \<Rightarrow> Inl attribute_error)"

text \<open>
  Provisioning: options that were not given are those of the device. The result is the two sets of options as
  provisioning leaves them, with their vendor data encoded.
\<close>

definition provision_cpe ::
  "kea \<Rightarrow> int \<times> int \<Rightarrow> 'w console \<Rightarrow> string \<Rightarrow> (string, json) dict \<Rightarrow> (string, json) dict \<Rightarrow>
   ('w, (string, json) dict \<times> (string, json) dict) io" where
  "provision_cpe k ids c cpe_mac dhcpv4_options dhcpv6_options =
     (let v4 = (if dhcpv4_options = [] then kp_dhcpv4 k else dhcpv4_options);
          v6 = (if dhcpv6_options = [] then kp_dhcpv6 k else dhcpv6_options)
      in seq (lift_sum (data_options v4)) (\<lambda>os4.
         seq (lift_sum (dhcp_ipv4_config (kp_config k) (fst ids) cpe_mac os4)) (\<lambda>(config4, os4').
         andthen (write_kea c ''dhcp4'' config4)
         (seq (lift_sum (data_options v6)) (\<lambda>os6.
          seq (lift_sum (dhcp_ipv6_config (kp_config k) (snd ids) cpe_mac os6)) (\<lambda>(config6, os6').
          andthen (write_kea c ''dhcp6'' config6)
          (andthen (restart_dhcp_server c)
            (ret (dict_set ''data'' (JObj os4') v4, dict_set ''data'' (JObj os6') v6)))))))))"

text \<open>
  The hook that takes the options of the environment over. The addresses of the WAN host are asked for when the
  inventory names no server, whether or not the environment does.
\<close>

definition with_default_dns :: "json \<Rightarrow> ('w, string) io \<Rightarrow> (string, json) dict \<Rightarrow> ('w, (string, json) dict) io" where
  "with_default_dns inventory ask os =
     seq (if truthy inventory then ret inventory else seq ask (\<lambda>a. ret (JStr a))) (\<lambda>dns. ret (dict_setdefault ''dns-server'' dns os))"

definition options_of :: "(string, json) dict \<Rightarrow> string \<Rightarrow> raised + (string, json) dict" where
  "options_of config key =
     (case kwarg config ''dhcp_options'' (JObj []) of
        JObj ps \<Rightarrow> (case kwarg ps key (JObj []) of JObj os \<Rightarrow> Inr os | _ \<Rightarrow> Inl attribute_error)
      | _ \<Rightarrow> Inl attribute_error)"

definition kea_configure :: "bool \<Rightarrow> ('w, string) io \<Rightarrow> ('w, string) io \<Rightarrow> kea \<Rightarrow> ('w, kea) io" where
  "kea_configure skip_boot wan_v4 wan_v6 k =
     (if skip_boot then ret k
      else
        seq (lift_sum (options_of (kp_config k) ''dhcpv4'')) (\<lambda>os4.
        seq (lift_sum (options_of (kp_config k) ''dhcpv6'')) (\<lambda>os6.
        seq (with_default_dns (get_or_none (kp_config k) ''dns-server'') wan_v4 os4) (\<lambda>os4'.
        seq (with_default_dns (get_or_none (kp_config k) ''dns-server6'') wan_v6 os6) (\<lambda>os6'.
        ret (k\<lparr>kp_dhcpv4 := [(''data'', JObj os4')], kp_dhcpv6 := [(''data'', JObj os6')]\<rparr>))))))"

definition kea_contingency_check :: "bool \<Rightarrow> 'w console \<Rightarrow> ('w, unit) io" where
  "kea_contingency_check skip c =
     (if skip then ret ()
      else
        seq (run_cmd c ''echo FOO'') (\<lambda>out.
        if \<not> str_in ''FOO'' out
        then throw (py_error ContingencyCheckError ''ContingencyCheckError'' ''KeaProvisioner device console in not responding'') else ret ()))"

section \<open>Properties\<close>

definition host_text :: "address \<times> nat \<Rightarrow> int \<Rightarrow> string" where
  "host_text i m = addr_str (same_version (fst i) (network_base i + m))"

lemma network_at_ok: "network_at i m = Inr s \<longleftrightarrow> m < network_size i \<and> s = host_text i m"
  by (auto simp: network_at_def host_text_def)

lemma pools4_ok:
  "pools4 i = Inr ps \<longleftrightarrow>
     50 < network_size i \<and> ps = [pool (host_text i 10) (host_text i 20) True, pool (host_text i 21) (host_text i 50) False]"
  by (auto simp: pools4_def andalso_ok network_at_ok)

text \<open>An address of the network stays in it as long as its index is below the size.\<close>

lemma in_network: "0 \<le> m \<Longrightarrow> m < network_size i \<Longrightarrow> (network_base i + m) div network_size i = addr_int (fst i) div network_size i"
proof -
  assume m: "0 \<le> m" "m < network_size i"
  let ?s = "network_size i" and ?a = "addr_int (fst i)"
  have s: "0 < ?s" by (simp add: network_size_def)
  have "network_base i = ?a div ?s * ?s" by (simp add: network_base_def minus_mod_eq_div_mult)
  then show ?thesis using m s by simp
qed

lemma add_to_get: "dict_get (add_to k vs d) k = Some (JList ((case get_or_none d k of JList xs \<Rightarrow> xs | _ \<Rightarrow> []) @ vs))"
  by (simp add: add_to_def)

lemma add_to_other: "j \<noteq> k \<Longrightarrow> dict_get (add_to k vs d) j = dict_get d j"
  by (simp add: add_to_def)

text \<open>C35: a configuration of version 4 that is made has its pools and its router in the network of the preferred
  VLAN: boards get the addresses ten to twenty, other clients those from there to fifty, and the router is
  the first. A network without fifty-one addresses gives no configuration.\<close>

theorem kea_ipv4_pools:
  assumes "dhcp_ipv4_config config n cpe_mac os = Inr (c, os')"
  shows "\<exists>vlan t subnet sub more_options. preferred_vlan config = Inr vlan \<and> text_item vlan ''ipv4'' = Inr t \<and>
    ip_interface t = Inr subnet \<and> 50 < network_size subnet \<and>
    json_path c [''Dhcp4'', ''subnet4''] = Inr (JList [JObj sub]) \<and>
    dict_get sub ''pools'' = Some (JList [pool (host_text subnet 10) (host_text subnet 20) True,
                                         pool (host_text subnet 21) (host_text subnet 50) False]) \<and>
    dict_get sub ''option-data'' = Some (JList (JObj [(''name'', JStr ''routers''), (''data'', JStr (host_text subnet 1))] # more_options)) \<and>
    (\<forall>m\<in>{0..50}. (network_base subnet + m) div network_size subnet = addr_int (fst subnet) div network_size subnet)"
proof -
  obtain vlan t subnet pools router vsio_data vivso_data hosts iface where r:
    "preferred_vlan config = Inr vlan" "text_item vlan ''ipv4'' = Inr t" "ip_interface t = Inr subnet"
    "pools4 subnet = Inr pools" "network_at subnet 1 = Inr router"
    and c: "c = JObj [(''Dhcp4'', JObj
               (dict_set ''subnet4'' (JList [JObj (add_to ''option-data''
                 (JObj [(''name'', JStr ''routers''), (''data'', JStr router)] #
                  named_data ''domain-name-servers'' (get_or_none os ''dns-server'') @
                  named_data ''ntp-servers'' (get_or_none os ''ntp-server'') @ vsio_data @ vivso_data)
                 (add_to ''reservations'' hosts
                 (dict_set ''pools'' (JList pools)
                 (dict_set ''interface'' iface
                 (dict_set ''id'' (JInt n) (dict_set ''subnet'' (JStr (show_interface subnet)) dhcp4_subnet))))))])
               (dict_set ''rebind-timer'' (JInt rebind_time)
               (dict_set ''renew-timer'' (JInt renewal_time)
               (dict_set ''valid-lifetime'' (JInt default_lifetime)
               (dict_set ''interfaces-config'' (JObj [(''interfaces'', JList [iface])]) dhcp4_template))))))]"
    using assms unfolding dhcp_ipv4_config_def andalso_ok Let_def case_prod_unfold by (elim exE conjE) (simp only: sum.inject prod.inject, blast)
  define sub where "sub = add_to ''option-data''
                 (JObj [(''name'', JStr ''routers''), (''data'', JStr router)] #
                  named_data ''domain-name-servers'' (get_or_none os ''dns-server'') @
                  named_data ''ntp-servers'' (get_or_none os ''ntp-server'') @ vsio_data @ vivso_data)
                 (add_to ''reservations'' hosts
                 (dict_set ''pools'' (JList pools)
                 (dict_set ''interface'' iface
                 (dict_set ''id'' (JInt n) (dict_set ''subnet'' (JStr (show_interface subnet)) dhcp4_subnet)))))"
  have pools: "50 < network_size subnet"
    "pools = [pool (host_text subnet 10) (host_text subnet 20) True, pool (host_text subnet 21) (host_text subnet 50) False]"
    using r(4) by (simp_all add: pools4_ok)
  have router: "router = host_text subnet 1" using r(5) by (simp add: network_at_ok)
  have 1: "json_path c [''Dhcp4'', ''subnet4''] = Inr (JList [JObj sub])"
    unfolding c sub_def by (simp add: json_item_def get_item_def)
  have 2: "dict_get sub ''pools'' = Some (JList [pool (host_text subnet 10) (host_text subnet 20) True,
      pool (host_text subnet 21) (host_text subnet 50) False])"
    by (simp add: sub_def add_to_other pools(2))
  have "get_or_none (add_to ''reservations'' hosts (dict_set ''pools'' (JList pools) (dict_set ''interface'' iface
      (dict_set ''id'' (JInt n) (dict_set ''subnet'' (JStr (show_interface subnet)) dhcp4_subnet))))) ''option-data'' = JList []"
    by (simp add: get_or_none_def add_to_other dhcp4_subnet_def)
  then have 3: "dict_get sub ''option-data'' = Some (JList (JObj [(''name'', JStr ''routers''), (''data'', JStr (host_text subnet 1))] #
      (named_data ''domain-name-servers'' (get_or_none os ''dns-server'') @
       named_data ''ntp-servers'' (get_or_none os ''ntp-server'') @ vsio_data @ vivso_data)))"
    unfolding sub_def add_to_get by (simp add: router)
  have 4: "\<forall>m\<in>{0..50}. (network_base subnet + m) div network_size subnet = addr_int (fst subnet) div network_size subnet"
    using in_network pools(1) by auto
  show ?thesis
    by (rule exI [of _ vlan], rule exI [of _ t], rule exI [of _ subnet], rule exI [of _ sub], rule exI, intro conjI)
      (rule r(1) r(2) r(3) pools(1) 1 2 3 4)+
qed

definition kea_inventory :: "(string, json) dict" where
  "kea_inventory =
     [(''vlans'', JObj [(''untagged'', JObj [(''iface'', JStr ''eth1''), (''ipv4'', JStr ''10.1.2.1/24''), (''ipv6'', JStr ''2001:db8::1/64''),
        (''cpe_pd'', JStr ''2001:db8:1::/56'')])])]"

theorem kea_ipv4_pools_witness:
  "\<exists>c os' sub. dhcp_ipv4_config kea_inventory 7 ''02:00:00:00:00:01'' [] = Inr (c, os') \<and>
     json_path c [''Dhcp4'', ''subnet4''] = Inr (JList [JObj sub]) \<and>
     dict_get sub ''pools'' = Some (JList [pool ''10.1.2.10'' ''10.1.2.20'' True, pool ''10.1.2.21'' ''10.1.2.50'' False])"
proof -
  have "case dhcp_ipv4_config kea_inventory 7 ''02:00:00:00:00:01'' [] of Inr _ \<Rightarrow> True | Inl _ \<Rightarrow> False" by code_simp
  then obtain c os' where r: "dhcp_ipv4_config kea_inventory 7 ''02:00:00:00:00:01'' [] = Inr (c, os')"
    by (auto split: sum.splits)
  have v: "case preferred_vlan kea_inventory of Inr v \<Rightarrow> text_item v ''ipv4'' = Inr ''10.1.2.1/24'' | _ \<Rightarrow> False" by code_simp
  have i: "ip_interface ''10.1.2.1/24'' = Inr (V4 167838209, 24)" by code_simp
  have h: "host_text (V4 167838209, 24) 10 = ''10.1.2.10''" "host_text (V4 167838209, 24) 20 = ''10.1.2.20''"
    "host_text (V4 167838209, 24) 21 = ''10.1.2.21''" "host_text (V4 167838209, 24) 50 = ''10.1.2.50''" by code_simp+
  obtain vlan t subnet sub where f: "preferred_vlan kea_inventory = Inr vlan" "text_item vlan ''ipv4'' = Inr t" "ip_interface t = Inr subnet"
    "json_path c [''Dhcp4'', ''subnet4''] = Inr (JList [JObj sub])"
    "dict_get sub ''pools'' = Some (JList [pool (host_text subnet 10) (host_text subnet 20) True,
                                         pool (host_text subnet 21) (host_text subnet 50) False])"
    using kea_ipv4_pools [OF r] by blast
  have "t = ''10.1.2.1/24''" using f(1,2) v by simp
  then have "subnet = (V4 167838209, 24)" using f(3) i by simp
  then show ?thesis using r f(4,5) h by auto
qed

text \<open>the address of the configuration server is encoded again each time: the option provisioning leaves gives,
  in the next provisioning, the encoding of the text that was already encoded, which is another text.\<close>

lemma encoded_length: "length (encoded s) = 2 * length (utf8 s)"
  by (simp add: encoded_def length_concat hex2_def comp_def sum_list_triv)

lemma utf8_length: "length s \<le> length (utf8 s)"
  by (induction s) (auto simp: utf8_def Let_def)

lemma utf8_bytes: "n \<in> set (utf8 s) \<Longrightarrow> n < 256"
proof -
  assume "n \<in> set (utf8 s)"
  then obtain c where c: "n \<in> set (let k = (of_char c :: nat) in if k < 128 then [k] else [192 + k div 64, 128 + k mod 64])"
    by (auto simp: utf8_def)
  have "(of_char c :: nat) < 256" by simp
  then have "(of_char c :: nat) div 64 < 4" by (intro less_mult_imp_div_less) simp
  moreover have "(of_char c :: nat) mod 64 < 64" by simp
  ultimately show "n < 256" using c by (auto simp: Let_def split: if_splits)
qed

lemma hex_not_space:
  assumes "c \<in> set (encoded s)"
  shows "c \<notin> set whitespace"
proof -
  obtain n where "n \<in> set (utf8 s)" "c \<in> set (hex2 n)" using assms by (auto simp: encoded_def)
  moreover from this have "n div 16 < 16" "n mod 16 < 16" using utf8_bytes [of n s] by auto
  ultimately have "48 \<le> (of_char c :: nat)" "(of_char c :: nat) \<le> 102"
    using of_hex_digit [of "n div 16"] of_hex_digit [of "n mod 16"] by (auto simp: hex2_def)
  moreover have "(of_char x :: nat) < 48 \<or> 102 < (of_char x :: nat)" if "x \<in> set whitespace" for x
    using that by (auto simp: whitespace_def of_char_of)
  ultimately show ?thesis by force
qed

lemma strip_plain: "\<forall>c\<in>set s. c \<notin> set whitespace \<Longrightarrow> strip whitespace s = s"
  by (cases s) (auto simp: strip_def lstrip_def rstrip_id)

theorem acs_url_encoded_again:
  assumes "option_entry space o' = Inr (o1, d1)" and "dict_get o' ''name'' = Some (JStr ''acs-url'')"
  shows "\<exists>t d2 o2. t \<noteq> [] \<and> json_item d1 ''data'' = Inr (JStr t) \<and> dict_get o1 ''data'' = Some (JStr t) \<and>
    option_entry space o1 = Inr (o2, d2) \<and> json_item d2 ''data'' = Inr (JStr (encoded t)) \<and> encoded t \<noteq> t"
proof -
  obtain s where s: "dict_get o' ''data'' = Some (JStr s)"
    "o1 = dict_set ''data'' (JStr (encoded (if strip whitespace s = [] then '' '' else s))) o'"
    using assms by (auto simp: option_entry_def andalso_def get_item_def encode_option_def split: option.splits sum.splits json.splits)
  define t where "t = encoded (if strip whitespace s = [] then '' '' else s)"
  have "0 < length (if strip whitespace s = [] then '' '' else s)" by (auto simp: strip_def lstrip_def rstrip_def)
  then have "0 < length t"
    unfolding t_def encoded_length using utf8_length [of "if strip whitespace s = [] then '' '' else s"] by linarith
  then have t: "t \<noteq> []" by simp
  have plain: "strip whitespace t = t" unfolding t_def by (intro strip_plain) (use hex_not_space in blast)
  have "length t < length (encoded t)" using utf8_length [of t] \<open>0 < length t\<close> unfolding encoded_length by linarith
  then have "encoded t \<noteq> t" by auto
  moreover have "json_item d1 ''data'' = Inr (JStr t)" "dict_get o1 ''data'' = Some (JStr t)"
    using assms s by (auto simp: option_entry_def andalso_def get_item_def encode_option_def json_item_def t_def split: sum.splits)
  moreover have n: "dict_get o1 ''name'' = Some (JStr ''acs-url'')" using assms(2) s(2) by simp
  moreover have "option_entry space o1 = Inr (dict_set ''data'' (JStr (encoded t)) o1,
      JObj [(''always-send'', JBool True), (''name'', JStr ''acs-url''), (''space'', JStr space), (''data'', JStr (encoded t))])"
    using n \<open>dict_get o1 ''data'' = Some (JStr t)\<close> plain t by (simp add: option_entry_def andalso_def get_item_def encode_option_def)
  ultimately show ?thesis using t by (auto simp: json_item_def get_item_def)
qed

theorem acs_url_encoded_again_witness:
  "\<exists>o1 d1 o2 d2. option_entry ''vendor-3561'' [(''name'', JStr ''acs-url''), (''data'', JStr ''a'')] = Inr (o1, d1) \<and>
     option_entry ''vendor-3561'' o1 = Inr (o2, d2) \<and> json_item d1 ''data'' \<noteq> json_item d2 ''data''"
proof -
  let ?o = "[(''name'', JStr ''acs-url''), (''data'', JStr ''a'')]"
  have "case option_entry ''vendor-3561'' ?o of Inr _ \<Rightarrow> True | _ \<Rightarrow> False" by code_simp
  then obtain o1 d1 where r: "option_entry ''vendor-3561'' ?o = Inr (o1, d1)" by (auto split: sum.splits)
  have n: "dict_get ?o ''name'' = Some (JStr ''acs-url'')" by simp
  from acs_url_encoded_again [OF r n] r show ?thesis by fastforce
qed

text \<open>provisioning that returns has restarted both servers: the last things done are stopping them, a pause and
  starting the one of version 4 and then that of version 6, each of which answered that it started from its
  configuration.\<close>

lemma start_kea_ok:
  "start_kea (recorded d) version name tr = (Inr (), tr') \<longleftrightarrow>
     tr' = tr @ [Executed (''keactrl start -s '' @ version) (-1)] \<and>
     (\<exists>out. dv_output d tr' = Inr out \<and> re_match (started_rx version) out \<noteq> None)"
  by (auto simp: start_kea_def run_cmd_def seq_ok split: if_splits)

theorem kea_servers_restarted:
  assumes "provision_cpe k ids (recorded d) cpe_mac os4 os6 tr = (Inr r, tr')"
  shows "\<exists>before started4. tr' = before @ [Executed ''keactrl stop'' (-1), Slept 2, Executed ''keactrl start -s dhcp4'' (-1),
      Executed ''keactrl start -s dhcp6'' (-1)] \<and> started4 = butlast tr' \<and>
    (\<exists>out. dv_output d started4 = Inr out \<and> re_match (started_rx ''dhcp4'') out \<noteq> None) \<and>
    (\<exists>out. dv_output d tr' = Inr out \<and> re_match (started_rx ''dhcp6'') out \<noteq> None)"
proof -
  obtain before u where "restart_dhcp_server (recorded d) before = (Inr u, tr')"
    using assms unfolding provision_cpe_def Let_def seq_ok andthen_ok case_prod_unfold ret_ok by (elim exE conjE) simp
  then have "restart_dhcp_server (recorded d) before = (Inr (), tr')" by simp
  then show ?thesis
    by (intro exI [of _ before] exI [of _ "butlast tr'"])
      (auto simp: restart_dhcp_server_def andthen_ok do_cmd_ok start_kea_ok butlast_append)
qed

definition kea_device :: answers where
  "kea_device = (sample_device 0)\<lparr>dv_output := \<lambda>tr. Inr
     (if last tr = Executed ''keactrl start -s dhcp4'' (-1) then ''INFO/keactrl: Starting kea-dhcp4 -c kea-dhcp4.conf''
      else if last tr = Executed ''keactrl start -s dhcp6'' (-1) then ''INFO/keactrl: Starting kea-dhcp6 -c kea-dhcp6.conf'' else [])\<rparr>"

lemma write_kea_recorded:
  "write_kea (recorded kea_device) version config tr =
     (Inr (), tr @ [Sent (''cat > /etc/kea/kea-'' @ version @ ''.conf << EOF'' @ [CHR 0x0A] @ dumps 0 config @ [CHR 0x0A] @ ''EOF''),
                    Expected (prompts KEA_PROMPT) (-1)])"
  by (simp add: write_kea_def at_prompt_def kea_device_def sample_device_def andthen_def seq_def)

lemma restart_recorded:
  "restart_dhcp_server (recorded kea_device) tr =
     (Inr (), tr @ [Executed ''keactrl stop'' (-1), Slept 2, Executed ''keactrl start -s dhcp4'' (-1),
                    Executed ''keactrl start -s dhcp6'' (-1)])"
proof -
  have "re_match (started_rx ''dhcp4'') ''INFO/keactrl: Starting kea-dhcp4 -c kea-dhcp4.conf'' \<noteq> None"
    "re_match (started_rx ''dhcp6'') ''INFO/keactrl: Starting kea-dhcp6 -c kea-dhcp6.conf'' \<noteq> None"
    by code_simp+
  then show ?thesis
    by (simp add: restart_dhcp_server_def andthen_ok do_cmd_ok start_kea_ok kea_device_def)
qed

theorem kea_servers_restarted_witness:
  "\<exists>r tr before. provision_cpe (kea_init kea_inventory) (7, 8) (recorded kea_device) ''02:00:00:00:00:01''
       [(''data'', JObj [])] [(''data'', JObj [])] [] = (Inr r, tr) \<and>
     tr = before @ [Executed ''keactrl stop'' (-1), Slept 2, Executed ''keactrl start -s dhcp4'' (-1), Executed ''keactrl start -s dhcp6'' (-1)]"
proof -
  let ?p = "provision_cpe (kea_init kea_inventory) (7, 8) (recorded kea_device) ''02:00:00:00:00:01'' [(''data'', JObj [])] [(''data'', JObj [])]"
  have "case dhcp_ipv4_config kea_inventory 7 ''02:00:00:00:00:01'' [] of Inr _ \<Rightarrow> True | Inl _ \<Rightarrow> False"
    "case dhcp_ipv6_config kea_inventory 8 ''02:00:00:00:00:01'' [] of Inr _ \<Rightarrow> True | Inl _ \<Rightarrow> False" by code_simp+
  then obtain c4 o4 c6 o6 where c: "dhcp_ipv4_config kea_inventory 7 ''02:00:00:00:00:01'' [] = Inr (c4, o4)"
    "dhcp_ipv6_config kea_inventory 8 ''02:00:00:00:00:01'' [] = Inr (c6, o6)" by (auto split: sum.splits)
  have "\<exists>r tr. ?p [] = (Inr r, tr)"
    by (simp add: provision_cpe_def kea_init_def data_options_def get_item_def andalso_def c seq_ok andthen_ok write_kea_recorded
        restart_recorded case_prod_unfold)
  then obtain r tr where run: "?p [] = (Inr r, tr)" by blast
  obtain before where "tr = before @ [Executed ''keactrl stop'' (-1), Slept 2, Executed ''keactrl start -s dhcp4'' (-1),
      Executed ''keactrl start -s dhcp6'' (-1)]"
    using kea_servers_restarted [OF run] by blast
  with run show ?thesis by blast
qed

end
