(* ===== verification/Cpe_Software.thy ===== *)
theory Cpe_Software
  imports Linux_WAN Linux_WLAN Json_Text
begin

text \<open>
  What the software of every board offers (\<^verbatim>\<open>boardfarm3/lib/cpe_sw.py\<close>) and the use cases over boards that
  compute on it (\<^verbatim>\<open>boardfarm3/use_cases/cpe.py\<close>). The console is the one the hardware holds at the time of the
  call. The classification of IPv6 addresses and jc's parsers are parameters.
\<close>

section \<open>Addresses\<close>

definition is_value_error :: "raised \<Rightarrow> bool" where
  "is_value_error e \<longleftrightarrow> isinstance (rx_class e) PyValueError"

definition sw_interface_addresses :: "'w console \<Rightarrow> string \<Rightarrow> bool \<Rightarrow> ('w, string list) io" where
  "sw_interface_addresses c interface_name is_ipv6 =
     seq (run_cmd c (''ifconfig '' @ interface_name)) (\<lambda>output. ret (re_findall1 (address_rx is_ipv6) output))"

definition sw_interface_ipv6_address :: "(string \<Rightarrow> int \<Rightarrow> bool option) \<Rightarrow> 'w console \<Rightarrow> string \<Rightarrow> string \<Rightarrow> ('w, string) io" where
  "sw_interface_ipv6_address flag c interface address_type =
     (let t = py_replace ''-'' ''_'' address_type
      in seq (sw_interface_addresses c interface True) (\<lambda>ips.
         seq (lift_sum (first_of_type flag t ips)) (\<lambda>ip.
         if ip = [] then throw (value_error (''Failed to get IPv6 address of '' @ interface @ '' '' @ t @ '' address'')) else ret ip)))"

definition sw_ipv4addr :: "'w console \<Rightarrow> string \<Rightarrow> ('w, string) io" where
  "sw_ipv4addr c interface =
     seq (sw_interface_addresses c interface False) (\<lambda>ips.
     case ips of
       ip # _ \<Rightarrow> ret ip
     | [] \<Rightarrow> throw (value_error (''Failed to get IPv4 address of '' @ interface @ '' interface'')))"

definition sw_ipv6addr :: "(string \<Rightarrow> int \<Rightarrow> bool option) \<Rightarrow> 'w console \<Rightarrow> string \<Rightarrow> ('w, string) io" where
  "sw_ipv6addr flag c interface = sw_interface_ipv6_address flag c interface ''global''"

definition sw_link_local_ipv6_addr :: "(string \<Rightarrow> int \<Rightarrow> bool option) \<Rightarrow> 'w console \<Rightarrow> string \<Rightarrow> ('w, string) io" where
  "sw_link_local_ipv6_addr flag c interface = sw_interface_ipv6_address flag c interface ''link-local''"

text \<open>A board is online when the interface to the operator has an address of each kind its mode asks for.\<close>

definition provisioning_mode :: "(string, json) dict \<Rightarrow> json" where
  "provisioning_mode config = kwarg config ''eRouter_Provisioning_mode'' (JStr ''dual'')"

definition mode_wants :: "string \<Rightarrow> json \<Rightarrow> bool" where
  "mode_wants family m \<longleftrightarrow> m \<in> {JStr ''dual'', JStr family}"

definition is_online :: "(string \<Rightarrow> int \<Rightarrow> bool option) \<Rightarrow> (string, json) dict \<Rightarrow> string \<Rightarrow> 'w console \<Rightarrow> ('w, bool) io" where
  "is_online flag config erouter_iface c =
     (let m = provisioning_mode config
      in if m \<notin> {JStr ''dual'', JStr ''ipv4'', JStr ''ipv6''} then throw (value_error (''Unsupported mode: '' @ shown m))
         else
           catch
             (seq (if mode_wants ''ipv4'' m then seq (sw_ipv4addr c erouter_iface) (\<lambda>ip. ret (ip \<noteq> [])) else ret True) (\<lambda>v4.
              seq (if mode_wants ''ipv6'' m then seq (sw_ipv6addr flag c erouter_iface) (\<lambda>ip. ret (ip \<noteq> [])) else ret True) (\<lambda>v6.
              ret (v4 \<and> v6))))
             is_value_error (\<lambda>_. ret False))"

text \<open>
  The netmask after the last \<^verbatim>\<open>Mask:\<close>, and \<^verbatim>\<open>IPv4Network(f"{gateway}/{mask}", strict=False)\<close>: a mask may also
  be given inverted.
\<close>

definition sw_ipv4_netmask :: "'w console \<Rightarrow> string \<Rightarrow> ('w, int) io" where
  "sw_ipv4_netmask c interface =
     seq (run_cmd c (''ifconfig '' @ interface)) (\<lambda>output.
     lift_sum
       (case split_ws (last (split_str ''Mask:'' output)) of
          [] \<Rightarrow> Inl index_error
        | m # _ \<Rightarrow> (case parse_ipv4 m of Some n \<Rightarrow> Inr n | None \<Rightarrow> Inl address_value_error)))"

definition prefix_of_mask :: "int \<Rightarrow> raised + nat" where
  "prefix_of_mask n =
     (case find (\<lambda>p. n = 2 ^ 32 - 2 ^ p) [0..<33] of
        Some p \<Rightarrow> Inr (32 - p)
      | None \<Rightarrow>
          (case find (\<lambda>p. n = 2 ^ p - 1) [0..<33] of
             Some p \<Rightarrow> Inr (32 - p)
           | None \<Rightarrow> Inl (py_error PyValueError ''NetmaskValueError'' [])))"

definition network_of :: "int \<Rightarrow> int \<Rightarrow> raised + int \<times> nat" where
  "network_of address netmask = map_sum id (\<lambda>k. (address - address mod 2 ^ (32 - k), k)) (prefix_of_mask netmask)"

definition sw_lan_network_ipv4 :: "('w, int) io \<Rightarrow> string \<Rightarrow> 'w console \<Rightarrow> ('w, int \<times> nat) io" where
  "sw_lan_network_ipv4 lan_gateway_ipv4 lan_iface c =
     seq (sw_ipv4_netmask c lan_iface) (\<lambda>netmask.
     seq lan_gateway_ipv4 (\<lambda>gateway. lift_sum (network_of gateway netmask)))"

definition sw_lan_gateway_ipv6 :: "(string \<Rightarrow> int \<Rightarrow> bool option) \<Rightarrow> string \<Rightarrow> 'w console \<Rightarrow> ('w, int) io" where
  "sw_lan_gateway_ipv6 flag lan_iface c =
     seq (sw_ipv6addr flag c lan_iface) (\<lambda>ip.
     lift_sum (case parse_ipv6 ip of Some n \<Rightarrow> Inr n | None \<Rightarrow> Inl address_value_error))"

definition sw_mac_addr :: "'w console \<Rightarrow> string \<Rightarrow> ('w, string) io" where
  "sw_mac_addr c interface = seq (run_cmd c (''cat /sys/class/net/'' @ interface @ ''/address'')) (\<lambda>out. ret (strip whitespace out))"

section \<open>State of the board\<close>

text \<open>\<^verbatim>\<open>float(s)\<close> of a decimal numeral; the names of infinities and underscores between digits are not read.\<close>

definition py_float :: "string \<Rightarrow> raised + real" where
  "py_float s =
     (let (sign, u) = scan_sign ''+-'' (strip whitespace s);
          i = takeWhile is_digit u;
          r = dropWhile is_digit u;
          (f, r') = (case r of c # t \<Rightarrow> if c = CHR ''.'' then (takeWhile is_digit t, dropWhile is_digit t) else ([], r) | [] \<Rightarrow> ([], []));
          exponent = (if r' = [] then Some 0 else case scan_exp r' of Some (e, []) \<Rightarrow> Some e | _ \<Rightarrow> None)
      in case exponent of
           Some e \<Rightarrow>
             if i = [] \<and> f = [] then Inl (value_error (''could not convert string to float: '' @ py_repr s))
             else Inr (of_int sign * decimal False (int (digits_val 0 i)) f e)
         | None \<Rightarrow> Inl (value_error (''could not convert string to float: '' @ py_repr s)))"

definition uptime_rx :: rx where
  "uptime_rx =
     cats [Grp 1 (cats [Grp 2 (plus dgt), lit ''.'', Grp 3 (times dgt 2)]), Grp 4 blank, Grp 5 (plus dgt), lit ''.'', Grp 6 (times dgt 2)]"

definition get_seconds_uptime :: "'w console \<Rightarrow> ('w, real) io" where
  "get_seconds_uptime c =
     seq (run_cmd c ''cat /proc/uptime'') (\<lambda>result.
     case re_search uptime_rx result of
       None \<Rightarrow> throw (value_error ''Failed to get the uptime'')
     | Some m \<Rightarrow> lift_sum (py_float (group 1 m)))"

definition get_load_avg :: "'w console \<Rightarrow> ('w, real) io" where
  "get_load_avg c =
     seq (run_cmd c (''cat /proc/loadavg | cut -d'' @ [CHR 0x5C] @ ''  -f1'')) (\<lambda>out. lift_sum (py_float (strip whitespace out)))"

definition memory_rx :: rx where
  "memory_rx =
     cats [lit ''Mem:'', plus blank,
       Grp 1 (cats [Grp 2 (plus dgt), Grp 3 (plus blank), Grp 4 (plus dgt), Grp 5 (plus blank), Grp 6 (plus dgt), Grp 7 (plus blank),
                    Grp 8 (plus dgt), Grp 9 (plus blank), Grp 10 (plus dgt), Grp 11 (plus blank), Grp 12 (plus dgt)])]"

definition memory_keys :: "string list" where
  "memory_keys = [''total'', ''used'', ''free'', ''shared'', ''cache'', ''available'']"

definition read_memory :: "string \<Rightarrow> raised + (string, int) dict" where
  "read_memory result =
     (case re_search memory_rx result of
        None \<Rightarrow> Inr []
      | Some m \<Rightarrow>
          (let vs = map py_int (split_ws (strip whitespace (group 1 m)))
           in if None \<in> set vs then Inl (value_error ''invalid literal for int() with base 10'') else Inr (zip memory_keys (map the vs))))"

definition get_memory_utilization :: "'w console \<Rightarrow> ('w, (string, int) dict) io" where
  "get_memory_utilization c = seq (run_cmd c ''free -m'') (\<lambda>result. lift_sum (read_memory result))"

definition get_board_logs :: "'w console option \<Rightarrow> int \<Rightarrow> ('w, string) io" where
  "get_board_logs held timeout =
     (case held of
        Some c \<Rightarrow> andthen (sp_sendline c []) (seq (sp_expect c [Timeout] timeout) (\<lambda>_. reading (sp_before c)))
      | None \<Rightarrow> throw (boardfarm_error ''Console obj is not initialized''))"

definition read_event_logs :: "(string \<Rightarrow> raised + 'r) \<Rightarrow> 'w console \<Rightarrow> ('w, 'r) io" where
  "read_event_logs syslog_bsd c = seq (run_cmd c ''logread'') (\<lambda>out. lift_sum (syslog_bsd out))"

definition sw_running_processes :: "(string \<Rightarrow> raised + 'r) \<Rightarrow> 'w console \<Rightarrow> string \<Rightarrow> ('w, 'r) io" where
  "sw_running_processes ps_parse c ps_options = seq (run_cmd c (''ps '' @ ps_options)) (\<lambda>out. lift_sum (ps_parse out))"

definition kill_process_immediately :: "'w console \<Rightarrow> int \<Rightarrow> ('w, unit) io" where
  "kill_process_immediately c pid = do_cmd c (''kill -9 '' @ int_str pid)"

definition get_file_content :: "'w console \<Rightarrow> string \<Rightarrow> int \<Rightarrow> ('w, string) io" where
  "get_file_content c fname timeout = c_execute c (''cat '' @ fname) timeout"

definition add_info_to_file :: "'w console \<Rightarrow> string \<Rightarrow> string \<Rightarrow> ('w, unit) io" where
  "add_info_to_file c to_add fname = do_cmd c (''echo '' @ to_add @ '' >> '' @ fname)"

definition sw_get_date :: "'w console \<Rightarrow> ('w, string option) io" where
  "sw_get_date c =
     seq (run_cmd c (''date '' @ quoted ''+%A, %B %d, %Y %T'')) (\<lambda>cpe_date.
     ret (found_text date_rx cpe_date))"

definition sw_set_date :: "'w console \<Rightarrow> string \<Rightarrow> ('w, bool) io" where
  "sw_set_date c date_string = seq (run_cmd c (''date -s '' @ date_string)) (\<lambda>cmd_out. ret (cmd_out \<noteq> []))"

text \<open>Any output counts as success, that of a failure as well.\<close>

lemma date_failure_is_success: "run_cmd c (''date -s '' @ s) w = (Inr ''date: invalid date'', w') \<Longrightarrow> sw_set_date c s w = (Inr True, w')"
  by (simp add: sw_set_date_def seq_def ret_def)

section \<open>Use cases over boards\<close>

text \<open>What the rules for port forwarding use of a client.\<close>

record 'w upnp_client =
  uc_iface_dut :: string
  uc_ipv4addr :: "string \<Rightarrow> ('w, string) io"
  uc_default_gateway :: "('w, string) io"
  uc_create :: "string list \<Rightarrow> ('w, string) io"
  uc_delete :: "string list \<Rightarrow> ('w, string) io"

definition upnp_url :: "'w upnp_client \<Rightarrow> string option \<Rightarrow> ('w, string) io" where
  "upnp_url device url =
     (case url of
        Some u \<Rightarrow> ret u
      | None \<Rightarrow> seq (uc_default_gateway device) (\<lambda>ip. ret (''http://'' @ ip @ '':49152/IGDdevicedesc_brlan0.xml'')))"

definition cpe_create_upnp_rule ::
  "'w upnp_client \<Rightarrow> string \<Rightarrow> string \<Rightarrow> string \<Rightarrow> string \<Rightarrow> string option \<Rightarrow> ('w, string) io" where
  "cpe_create_upnp_rule device int_port ext_port protocol extra_args url =
     seq (uc_ipv4addr device (uc_iface_dut device)) (\<lambda>ip_addr.
     seq (upnp_url device url) (\<lambda>u.
     uc_create device [uc_iface_dut device, ip_addr, int_port, ext_port, protocol, extra_args, u]))"

definition cpe_delete_upnp_rule :: "'w upnp_client \<Rightarrow> string \<Rightarrow> string \<Rightarrow> string option \<Rightarrow> ('w, string) io" where
  "cpe_delete_upnp_rule device ext_port protocol url =
     seq (upnp_url device url) (\<lambda>u. uc_delete device [uc_iface_dut device, ext_port, protocol, u])"

definition is_ntp_synchronized :: "('w, (string, json) dict list) io \<Rightarrow> ('w, bool) io" where
  "is_ntp_synchronized ntp_sync_status =
     seq ntp_sync_status (\<lambda>ntp_output.
     case ntp_output of
       [] \<Rightarrow> throw (value_error ''No NTP server available to the device'')
     | [s] \<Rightarrow> lift_sum (map_sum id (\<lambda>v. v = JStr ''*'') (get_item s ''state''))
     | _ \<Rightarrow> throw (value_error ''Unclear NTP status. There is more than one NTP server present''))"

definition board_reset_via_console :: "('w, unit) io \<Rightarrow> ('w, unit) io \<Rightarrow> ('w, unit) io" where
  "board_reset_via_console reset wait_for_boot = andthen reset wait_for_boot"

text \<open>A capture around a block: a failed start leaves the process identifier empty, and it is stopped all the same.\<close>

definition cpe_tcpdump :: "'w console \<Rightarrow> string \<Rightarrow> string \<Rightarrow> (string \<times> string) list option \<Rightarrow> (string \<Rightarrow> ('w, 'a) io) \<Rightarrow> ('w, 'a) io" where
  "cpe_tcpdump c fname interface filters body w =
     (case nw_start_tcpdump c fname interface filters w of
        (Inl e, w') \<Rightarrow> lastly (throw e) (stop_tcpdump c []) w'
      | (Inr pid, w') \<Rightarrow> lastly (body pid) (stop_tcpdump c pid) w')"

definition transfer_file_via_scp ::
  "'w console \<Rightarrow> string \<Rightarrow> string \<Rightarrow> linux_device \<Rightarrow> ('w, string) io \<Rightarrow> string \<Rightarrow> string \<Rightarrow> ('w, unit) io" where
  "transfer_file_via_scp c source_file dest_file dest_host dest_address action port =
     (let (src, dst) = (if action = ''upload'' then (source_file, dest_file) else (dest_file, source_file))
      in seq dest_address (\<lambda>ip_addr.
         nw_scp c ip_addr port (shown (username dest_host)) (shown (password dest_host)) src dst action))"

definition base_name :: "string \<Rightarrow> string" where
  "base_name s = last (split_on (CHR ''/'') s)"

definition upload_file_to_tftp ::
  "'w console \<Rightarrow> string \<Rightarrow> 'w console \<Rightarrow> ('w, string) io \<Rightarrow> string \<Rightarrow> int \<Rightarrow> ('w, unit) io" where
  "upload_file_to_tftp board source_file server server_address path_on_tftpserver timeout =
     seq server_address (\<lambda>ip.
     let filename = base_name source_file
     in seq (c_execute server ''chmod 777 /tftpboot'' timeout) (\<lambda>_.
        andthen (nw_tftp board ip source_file filename timeout)
        (seq (c_execute server (''mv /tftpboot/'' @ filename @ '' '' @ path_on_tftpserver) timeout) (\<lambda>output.
         if str_in ''No such file or directory'' output then throw (use_case_failure (''file not found '' @ output)) else ret ()))))"

section \<open>Properties\<close>

lemma map_sum_ok: "map_sum id f r = Inr y \<longleftrightarrow> (\<exists>x. r = Inr x \<and> y = f x)"
  by (cases r) auto

lemma find_mask: "k \<le> 32 \<Longrightarrow> find (\<lambda>p. (2::int) ^ 32 - 2 ^ (32 - k) = 2 ^ 32 - 2 ^ p) [0..<33] = Some (32 - k)"
proof -
  assume k: "k \<le> 32"
  have e: "(\<lambda>p. (2::int) ^ 32 - 2 ^ (32 - k) = 2 ^ 32 - 2 ^ p) = (\<lambda>p. p = 32 - k)"
    by (simp add: fun_eq_iff eq_commute [of "32 - k"])
  have "find (\<lambda>p. p = 32 - k) [0..<33] = Some (32 - k)"
    unfolding find_Some_iff by (intro exI [of _ "32 - k"]) (use k in auto)
  then show ?thesis unfolding e .
qed

lemma prefix_of_netmask: "k \<le> 32 \<Longrightarrow> prefix_of_mask (2 ^ 32 - 2 ^ (32 - k)) = Inr k"
  unfolding prefix_of_mask_def using find_mask by simp

lemma find_mask_some: "find (\<lambda>p. (n::int) = f p) [0..<33] = Some p \<Longrightarrow> p \<le> 32 \<and> n = f p"
  by (auto simp: find_Some_iff)

lemma prefix_of_mask_ok:
  "prefix_of_mask n = Inr k \<Longrightarrow> k \<le> 32 \<and> n \<in> {2 ^ 32 - 2 ^ (32 - k), 2 ^ (32 - k) - 1}"
  by (auto simp: prefix_of_mask_def split: option.splits dest!: find_mask_some)

text \<open>The network of a board's clients is the one of its gateway: the gateway lies in it, the network begins
  at a multiple of its size, and the mask that was read, plain or inverted, is the one of the prefix.\<close>

theorem lan_network_holds_gateway:
  assumes "sw_lan_network_ipv4 gateway lan_iface c w = (Inr (n, k), w')"
  shows "\<exists>netmask g w1. sw_ipv4_netmask c lan_iface w = (Inr netmask, w1) \<and> gateway w1 = (Inr g, w') \<and> k \<le> 32 \<and>
    netmask \<in> {2 ^ 32 - 2 ^ (32 - k), 2 ^ (32 - k) - 1} \<and> n \<le> g \<and> g < n + 2 ^ (32 - k) \<and> n mod 2 ^ (32 - k) = 0"
proof -
  obtain netmask g w1 where r: "sw_ipv4_netmask c lan_iface w = (Inr netmask, w1)" "gateway w1 = (Inr g, w')"
    "prefix_of_mask netmask = Inr k" "n = g - g mod 2 ^ (32 - k)"
    using assms by (auto simp: sw_lan_network_ipv4_def seq_ok network_of_def map_sum_ok)
  have s: "(0::int) < 2 ^ (32 - k)" by simp
  have "n \<le> g" "g < n + 2 ^ (32 - k)" using pos_mod_bound [OF s, of g] pos_mod_sign [OF s, of g] r(4) by simp_all
  moreover have "n mod 2 ^ (32 - k) = 0" using r(4) by (simp add: mod_diff_right_eq)
  ultimately show ?thesis using r(1,2) prefix_of_mask_ok [OF r(3)]
    by (intro exI [of _ netmask] exI [of _ g] exI [of _ w1]) simp
qed

definition lan_device :: answers where
  "lan_device = (sample_device 0)\<lparr>dv_output := \<lambda>_. Inr ''inet addr:10.0.0.1  Mask:255.255.255.0''\<rparr>"

theorem lan_network_holds_gateway_witness:
  "\<exists>w'. sw_lan_network_ipv4 (ret 167772161) ''brlan0'' (recorded lan_device) [] = (Inr (167772160, 24), w') \<and>
     (\<exists>netmask\<in>{2 ^ 32 - 2 ^ 8, 2 ^ 8 - 1}. sw_ipv4_netmask (recorded lan_device) ''brlan0'' [] = (Inr netmask, w'))"
proof -
  have "case sw_lan_network_ipv4 (ret 167772161) ''brlan0'' (recorded lan_device) [] of (Inr r, _) \<Rightarrow> r = (167772160, 24) | _ \<Rightarrow> False"
    by code_simp
  then obtain w' where run: "sw_lan_network_ipv4 (ret 167772161) ''brlan0'' (recorded lan_device) [] = (Inr (167772160, 24), w')"
    by (auto split: prod.splits sum.splits)
  from lan_network_holds_gateway [OF run] run show ?thesis by auto
qed

text \<open>Whether a board with both kinds of address is online: it is when the first listing shows an address of
  version 4 and the second one of version 6 that is global; without the first the second is not asked for.\<close>

lemma first_of_type_found:
  assumes "\<forall>ip\<in>set ips. \<exists>n b. parse_ipv6 ip = Some n \<and> flag t n = Some b" and "[] \<notin> set ips"
  shows "\<exists>x. first_of_type flag t ips = Inr x \<and> (x \<noteq> [] \<longleftrightarrow> (\<exists>ip\<in>set ips. flag t (the (parse_ipv6 ip)) = Some True))"
  using assms
proof (induction ips)
  case (Cons ip ips)
  obtain n b where n: "parse_ipv6 ip = Some n" "flag t n = Some b" using Cons.prems(1) by auto
  show ?case
  proof (cases b)
    case True
    then show ?thesis using n Cons.prems(2) by auto
  next
    case False
    then show ?thesis using n Cons.IH Cons.prems by simp
  qed
qed simp

theorem is_online_decides:
  assumes "provisioning_mode config = JStr ''dual''"
    and "run_cmd c (''ifconfig '' @ i) w = (Inr out4, w1)" and "run_cmd c (''ifconfig '' @ i) w1 = (Inr out6, w2)"
    and "[] \<notin> set (re_findall1 (address_rx False) out4)" and "[] \<notin> set (re_findall1 (address_rx True) out6)"
    and "\<forall>ip\<in>set (re_findall1 (address_rx True) out6). \<exists>n b. parse_ipv6 ip = Some n \<and> flag ''global'' n = Some b"
  shows "is_online flag config i c w =
    (if re_findall1 (address_rx False) out4 = [] then (Inr False, w1)
     else (Inr (\<exists>ip\<in>set (re_findall1 (address_rx True) out6). flag ''global'' (the (parse_ipv6 ip)) = Some True), w2))"
proof -
  have g: "py_replace ''-'' ''_'' ''global'' = ''global''" by code_simp
  have v: "is_value_error (value_error m)" for m by (simp add: is_value_error_def value_error_def py_error_def isinstance_def mro_def eval_nat_numeral)
  obtain x where x: "first_of_type flag ''global'' (re_findall1 (address_rx True) out6) = Inr x"
    "x \<noteq> [] \<longleftrightarrow> (\<exists>ip\<in>set (re_findall1 (address_rx True) out6). flag ''global'' (the (parse_ipv6 ip)) = Some True)"
    using first_of_type_found [of "re_findall1 (address_rx True) out6" flag "''global''"] assms(5,6) by blast
  have a4: "sw_ipv4addr c i w = (case re_findall1 (address_rx False) out4 of ip # _ \<Rightarrow> (Inr ip, w1) |
      [] \<Rightarrow> (Inl (value_error (''Failed to get IPv4 address of '' @ i @ '' interface'')), w1))"
    using assms(2) by (simp add: sw_ipv4addr_def sw_interface_addresses_def seq_def ret_def throw_def split: list.splits)
  have a6: "sw_ipv6addr flag c i w1 = (if x = []
      then (Inl (value_error (''Failed to get IPv6 address of '' @ i @ '' '' @ ''global'' @ '' address'')), w2) else (Inr x, w2))"
    unfolding sw_ipv6addr_def sw_interface_ipv6_address_def sw_interface_addresses_def Let_def g
    using assms(3) x(1) by (simp add: seq_def ret_def throw_def lift_sum_def)
  show ?thesis
  proof (cases "re_findall1 (address_rx False) out4")
    case Nil
    then show ?thesis using a4 assms(1) v by (simp add: is_online_def mode_wants_def catch_def seq_def ret_def)
  next
    case (Cons ip ips)
    then have "ip \<noteq> []" using assms(4) by auto
    then show ?thesis
      unfolding x(2) [symmetric] using Cons a4 a6 assms(1) v by (simp add: is_online_def mode_wants_def catch_def seq_def ret_def)
  qed
qed

definition addressed_device :: answers where
  "addressed_device = (sample_device 0)\<lparr>dv_output := \<lambda>_. Inr ''inet 10.0.0.2 inet6 2001:db8::1/64''\<rparr>"

theorem is_online_decides_witness:
  "is_online (\<lambda>_ _. Some True) [] ''erouter0'' (recorded addressed_device) [] =
     (Inr True, [Executed ''ifconfig erouter0'' (-1), Executed ''ifconfig erouter0'' (-1)])"
proof -
  let ?c = "recorded addressed_device" and ?out = "''inet 10.0.0.2 inet6 2001:db8::1/64''"
  have m: "provisioning_mode [] = JStr ''dual''" by (simp add: provisioning_mode_def kwarg_def)
  have r: "run_cmd ?c (''ifconfig '' @ ''erouter0'') tr = (Inr ?out, tr @ [Executed ''ifconfig erouter0'' (-1)])" for tr
    by (simp add: run_cmd_def addressed_device_def)
  have a: "re_findall1 (address_rx False) ?out = [''10.0.0.2'']" "re_findall1 (address_rx True) ?out = [''2001:db8::1'']" by code_simp+
  have "parse_ipv6 ''2001:db8::1'' \<noteq> None" by code_simp
  then have p: "\<exists>n. parse_ipv6 ''2001:db8::1'' = Some n" by blast
  have e: "\<exists>x::bool. x" by blast
  from is_online_decides [OF m r r, of "\<lambda>_ _. Some True"] a p e show ?thesis by simp
qed

text \<open>A file is uploaded by opening the folder, copying and moving, in this order, and the upload returns only
  if neither the copy nor the move reported a failure.\<close>

theorem upload_checked:
  assumes "upload_file_to_tftp (recorded d) source_file (recorded d) address path timeout tr = (Inr (), tr')"
  shows "\<exists>ip tr1 out_copy out_move. address tr = (Inr ip, tr1) \<and>
    tr' = tr1 @ [Executed ''chmod 777 /tftpboot'' timeout,
      Executed (''tftp -pl '' @ source_file @ '' '' @ ip @ '' -r '' @ base_name source_file) timeout,
      Executed (''mv /tftpboot/'' @ base_name source_file @ '' '' @ path) timeout] \<and>
    dv_output d (butlast tr') = Inr out_copy \<and> \<not> str_in ''No such file or directory'' out_copy \<and>
    \<not> str_in (''can'' @ [CHR 0x27] @ ''t open'') out_copy \<and>
    dv_output d tr' = Inr out_move \<and> \<not> str_in ''No such file or directory'' out_move"
proof -
  obtain ip tr1 where a: "address tr = (Inr ip, tr1)" using assms by (auto simp: upload_file_to_tftp_def seq_ok)
  then show ?thesis
    using assms by (auto simp: upload_file_to_tftp_def nw_tftp_def Let_def seq_ok andthen_ok butlast_append split: if_splits)
qed

theorem upload_checked_witness:
  "\<exists>tr. upload_file_to_tftp (recorded (sample_device 0)) ''/var/log/boot.log'' (recorded (sample_device 0)) (ret ''10.0.0.9'') ''/srv'' 60 [] =
     (Inr (), tr) \<and> last tr = Executed ''mv /tftpboot/boot.log /srv'' 60"
proof -
  have b: "base_name ''/var/log/boot.log'' = ''boot.log''" by code_simp
  have "case upload_file_to_tftp (recorded (sample_device 0)) ''/var/log/boot.log'' (recorded (sample_device 0)) (ret ''10.0.0.9'') ''/srv'' 60 []
    of (Inr _, _) \<Rightarrow> True | _ \<Rightarrow> False" by code_simp
  then obtain tr where run: "upload_file_to_tftp (recorded (sample_device 0)) ''/var/log/boot.log'' (recorded (sample_device 0))
      (ret ''10.0.0.9'') ''/srv'' 60 [] = (Inr (), tr)"
    by (auto split: prod.splits sum.splits)
  from upload_checked [OF run] run b show ?thesis by auto
qed

text \<open>A capture that could not be started is stopped all the same, with no process to name, and what the stop
  raises hides why the start failed.\<close>

lemma failed_capture_stopped:
  assumes "nw_start_tcpdump c fname interface filters w = (Inl e, w1)" and "stop_tcpdump c [] w1 = (Inl e', w2)"
  shows "cpe_tcpdump c fname interface filters body w = (Inl e', w2)"
  using assms by (simp add: cpe_tcpdump_def lastly_def throw_def)

end
