(* ===== verification/Cpe_Boards.thy ===== *)
theory Cpe_Boards
  imports Cpe_Software Power_Units Deployment Acs_Base Kea_Provisioner
begin

text \<open>
  The boards under test: \<^verbatim>\<open>boardfarm3/devices/prplos_cpe.py\<close>, \<^verbatim>\<open>rpirdkb_cpe.py\<close> and \<^verbatim>\<open>bananapirdkb_cpe.py\<close>.
  A board is its hardware, which holds the console, and its software, whose tools (\<^verbatim>\<open>NetworkUtility\<close>,
  \<^verbatim>\<open>IptablesFirewall\<close>, \<^verbatim>\<open>DMCLIAPI\<close>) keep the console the hardware held when the software was made. Consoles are
  objects that outlive being replaced, so the state lists every console ever opened and refers to them by
  position.
\<close>

section \<open>State\<close>

record 'w board_state =
  bd_consoles :: "'w console list"
  bd_console :: "nat option"
  bd_tools :: "nat option option"
  bd_mac :: "string option"
  bd_serial :: "string option"
  bd_cpe_id :: "string option"

type_synonym ('w, 'a) board_io = "('w \<times> 'w board_state, 'a) io"

text \<open>
  What is fixed: the inventory, the network to the power units, starting a session, time, the classification
  of addresses, and what the device manager finds of each kind, which raises where there is none.
\<close>

record 'w board_env =
  be_config :: "(string, json) dict"
  be_name :: string
  be_logs :: json
  be_spawn :: "connection \<Rightarrow> ('w, 'w spawn) io"
  be_sleep :: "int \<Rightarrow> ('w, unit) io"
  be_now :: "'w \<Rightarrow> int"
  be_power :: "'w power_net"
  be_flag :: "string \<Rightarrow> int \<Rightarrow> bool option"
  be_provisioner :: "raised + (json \<Rightarrow> ('w, unit) io)"
  be_acs :: "raised + (string, json) dict"
  be_router :: "raised + ('w, string) io \<times> ('w, string) io"

definition new_board :: "'w board_state" where
  "new_board = \<lparr>bd_consoles = [], bd_console = None, bd_tools = None, bd_mac = None, bd_serial = None, bd_cpe_id = None\<rparr>"

text \<open>Reading an attribute, and the console of the hardware and that of the tools; there may be none.\<close>

definition attribute :: "('w board_state \<Rightarrow> 'a) \<Rightarrow> ('w, 'a) board_io" where
  "attribute f s = (Inr (f (snd s)), s)"

definition console_at :: "nat option \<Rightarrow> ('w console \<Rightarrow> ('w, 'a) io) \<Rightarrow> ('w, 'a) board_io" where
  "console_at i f s = (case i of None \<Rightarrow> (Inl attribute_error, s) | Some n \<Rightarrow> on_host (f (bd_consoles (snd s) ! n)) s)"

definition on_console :: "('w console \<Rightarrow> ('w, 'a) io) \<Rightarrow> ('w, 'a) board_io" where
  "on_console f = seq (attribute bd_console) (\<lambda>i. console_at i f)"

definition on_tools :: "('w console \<Rightarrow> ('w, 'a) io) \<Rightarrow> ('w, 'a) board_io" where
  "on_tools f = seq (attribute bd_tools) (\<lambda>t. case t of None \<Rightarrow> throw attribute_error | Some i \<Rightarrow> console_at i f)"

definition board_sleep :: "'w board_env \<Rightarrow> int \<Rightarrow> ('w, unit) board_io" where
  "board_sleep env n = on_host (be_sleep env n)"

text \<open>\<^verbatim>\<open>PrplOSSW(self._hw)\<close>: the tools are made on the console of the moment.\<close>

definition new_software :: "('w, unit) board_io" where
  "new_software = assign (\<lambda>b. b\<lparr>bd_tools := Some (bd_console b), bd_cpe_id := None\<rparr>)"

section \<open>Consoles\<close>

definition conn_command :: "(string, json) dict \<Rightarrow> raised + json" where
  "conn_command config =
     andalso (get_item config ''conn_cmd'') (\<lambda>v.
     case v of
       JList [] \<Rightarrow> Inl index_error
     | JList (x # _) \<Rightarrow> Inr x
     | JStr [] \<Rightarrow> Inl index_error
     | JStr (x # _) \<Rightarrow> Inr (JStr [x])
     | JObj _ \<Rightarrow> Inl (key_error ''0'')
     | _ \<Rightarrow> Inl type_error)"

definition hold_console :: "'w console \<Rightarrow> ('w, unit) board_io" where
  "hold_console c = assign (\<lambda>b. b\<lparr>bd_consoles := bd_consoles b @ [c], bd_console := Some (length (bd_consoles b))\<rparr>)"

definition open_board_console :: "'w board_env \<Rightarrow> string list \<Rightarrow> ('w, unit) board_io" where
  "open_board_console env shell_prompt =
     seq (lift_sum (conn_command (be_config env))) (\<lambda>cmd.
     seq (lift_sum (connection_factory (JStr (shown (get_or_none (be_config env) ''connection_type'')))
            [(''conn_command'', cmd), (''save_console_logs'', be_logs env), (''shell_prompt'', JList (map JStr shell_prompt))])) (\<lambda>conn.
     seq (on_host (open_console (be_spawn env) conn)) hold_console))"

definition disconnect_from_consoles :: "('w, unit) board_io" where
  "disconnect_from_consoles =
     seq (attribute bd_console) (\<lambda>i. if i = None then ret () else console_at i (\<lambda>c. sp_close c True))"

definition interactive_consoles :: "'w board_state \<Rightarrow> (string, nat option) dict" where
  "interactive_consoles b = [(''console'', bd_console b)]"

definition get_console :: "string \<Rightarrow> ('w, nat option) board_io" where
  "get_console console_name =
     (if console_name = ''console'' then attribute bd_console else throw (value_error (''Unknown console name: '' @ console_name)))"

section \<open>Waiting\<close>

text \<open>A question asked at most so many times, with a pause after each no.\<close>

fun poll_board :: "('w, bool) board_io \<Rightarrow> ('w, unit) board_io \<Rightarrow> raised \<Rightarrow> nat \<Rightarrow> ('w, unit) board_io" where
  "poll_board question pause failure 0 = throw failure"
| "poll_board question pause failure (Suc n) =
     seq question (\<lambda>yes. if yes then ret () else andthen pause (poll_board question pause failure n))"

definition wait_for_hw_boot :: "'w board_env \<Rightarrow> string \<Rightarrow> ('w, unit) board_io" where
  "wait_for_hw_boot env iface =
     poll_board (on_console (\<lambda>c. seq (run_cmd c ''ip a'') (\<lambda>out. ret (str_in iface out)))) (board_sleep env 5)
       (boot_failure (''CPE failed to bring up WAN interface: '' @ iface)) 20"

definition board_online :: "'w board_env \<Rightarrow> string \<Rightarrow> ('w, bool) board_io" where
  "board_online env erouter_iface = on_console (is_online (be_flag env) (be_config env) erouter_iface)"

section \<open>Shared properties of the software\<close>

text \<open>\<^verbatim>\<open>uci show\<close>, a line of which may have one equals sign only.\<close>

fun read_uci :: "string list \<Rightarrow> (string, string) dict \<Rightarrow> raised + (string, string) dict" where
  "read_uci [] d = Inr d"
| "read_uci (line # ls) d =
     (if CHR ''='' \<in> set line then
        (case split_on (CHR ''='') (strip whitespace line) of
           [k, v] \<Rightarrow> read_uci ls (dict_set k v d)
         | _ \<Rightarrow> Inl (value_error ''too many values to unpack (expected 2)''))
      else read_uci ls d)"

definition json_values :: "('w, (string, string) dict) board_io" where
  "json_values = seq (on_console (\<lambda>c. run_cmd c ''uci show'')) (\<lambda>out. lift_sum (read_uci (splitlines out) []))"

definition gui_password :: "'w board_env \<Rightarrow> json" where
  "gui_password env = kwarg (be_config env) ''gui_password'' (JStr ''admin'')"

text \<open>The address of the bridge, and the broadcast address where the text shows none.\<close>

definition lan_gateway_ipv4 :: "string \<Rightarrow> ('w, int) board_io" where
  "lan_gateway_ipv4 lan_iface =
     seq (on_console (\<lambda>c. run_cmd c (''ifconfig '' @ lan_iface @ ''|grep '' @ quoted ''inet addr:'' @ '' | tr '' @ quoted '':'' @ '' '' @
       quoted '' '' @ ''| awk '' @ quoted ''{print $3}''))) (\<lambda>out.
     ret (case parse_ipv4 out of Some n \<Rightarrow> n | None \<Rightarrow> 4294967295))"

definition board_mtu_size :: "(string \<Rightarrow> raised + 'm option) \<Rightarrow> string \<Rightarrow> ('w, 'm) board_io" where
  "board_mtu_size parse interface =
     seq (on_console (\<lambda>c. run_cmd c (''ifconfig '' @ interface))) (\<lambda>out.
     seq (lift_sum (parse out)) (\<lambda>d.
     case d of Some m \<Rightarrow> ret m | None \<Rightarrow> throw (value_error (''ifconfig '' @ interface @ '' is not available''))))"

text \<open>The provisioner is told the address of the board, without options of its own; there is no board without one.\<close>

definition provision_board :: "'w board_env \<Rightarrow> ('w, json) board_io \<Rightarrow> ('w, unit) board_io" where
  "provision_board env mac = seq (lift_sum (be_provisioner env)) (\<lambda>provision. seq mac (\<lambda>m. on_host (provision m)))"

section \<open>prplOS\<close>

definition PRPL_PROMPT :: "string list" where
  "PRPL_PROMPT = [''/[a-zA-Z]* #'']"

text \<open>\<^verbatim>\<open>re.findall('"([^"]*)"', output).pop()\<close>.\<close>

definition last_quoted :: "string \<Rightarrow> raised + string" where
  "last_quoted output =
     (case re_findall1 (cats [chr (CHR 0x22), Grp 1 (star (Cls (\<lambda>c. c \<noteq> CHR 0x22))), chr (CHR 0x22)]) output of
        [] \<Rightarrow> Inl index_error
      | vs \<Rightarrow> Inr (last vs))"

definition environment_value :: "string \<Rightarrow> 'w console \<Rightarrow> ('w, string) io" where
  "environment_value name c = seq (run_cmd c (''grep '' @ name @ '' /etc/environment'')) (\<lambda>out. lift_sum (last_quoted out))"

text \<open>From the board when there is a console, else from the inventory.\<close>

definition prpl_value :: "'w board_env \<Rightarrow> string \<Rightarrow> string \<Rightarrow> ('w, json) board_io" where
  "prpl_value env name key =
     seq (attribute bd_console) (\<lambda>i.
     if i = None then ret (get_or_none (be_config env) key)
     else seq (on_console (environment_value name)) (\<lambda>s. ret (JStr s)))"

definition prpl_mac_address :: "'w board_env \<Rightarrow> ('w, json) board_io" where
  "prpl_mac_address env = prpl_value env ''HWMACADDRESS'' ''mac''"

definition prpl_serial_number :: "'w board_env \<Rightarrow> ('w, json) board_io" where
  "prpl_serial_number env = prpl_value env ''SERIALNUMBER'' ''serial''"

definition prpl_connect :: "'w board_env \<Rightarrow> ('w, unit) board_io" where
  "prpl_connect env = andthen (open_board_console env PRPL_PROMPT) (on_console (\<lambda>c. c_login c None))"

definition prpl_power_cycle :: "'w board_env \<Rightarrow> ('w, unit) board_io" where
  "prpl_power_cycle env =
     andthen (on_console (\<lambda>c. do_cmd c ''reboot -f -d 5''))
     (andthen (board_sleep env 10) (andthen disconnect_from_consoles (prpl_connect env)))"

text \<open>A cached property: the two reads are made once for each software.\<close>

definition cached_cpe_id :: "('w, string) board_io \<Rightarrow> ('w, string) board_io" where
  "cached_cpe_id compute =
     seq (attribute bd_cpe_id) (\<lambda>v.
     case v of
       Some s \<Rightarrow> ret s
     | None \<Rightarrow> seq compute (\<lambda>s. andthen (assign (\<lambda>b. b\<lparr>bd_cpe_id := Some s\<rparr>)) (ret s)))"

definition prpl_cpe_id :: "('w, string) board_io" where
  "prpl_cpe_id =
     cached_cpe_id
       (seq (on_console (environment_value ''SERIALNUMBER'')) (\<lambda>serial.
        seq (on_console (environment_value ''MANUFACTUREROUI'')) (\<lambda>oui. ret (oui @ ''-'' @ serial))))"

definition prpl_wait_device_online :: "'w board_env \<Rightarrow> ('w, unit) board_io" where
  "prpl_wait_device_online env = poll_board (board_online env ''eth1'') (board_sleep env 20) (boot_failure ''Board not online'') 20"

definition ubus_line :: "'w console \<Rightarrow> string \<Rightarrow> ('w, unit) io" where
  "ubus_line c s = andthen (sp_sendline c s) (at_prompt c ['' > ''] (-1))"

definition double_quoted :: "string \<Rightarrow> string" where
  "double_quoted s = [CHR 0x22] @ s @ [CHR 0x22]"

definition prpl_management_server :: "string \<Rightarrow> string \<Rightarrow> string \<Rightarrow> ('w, unit) board_io" where
  "prpl_management_server url user pass =
     on_console (\<lambda>c.
       andthen (for_each (ubus_line c)
         ([''ubus-cli'', ''Device.ManagementServer.URL='' @ double_quoted url,
           ''Device.ManagementServer.Username='' @ double_quoted user] @
          (if pass = [] then [] else [''Device.ManagementServer.Password='' @ double_quoted pass]) @
          [''Device.ManagementServer.EnableCWMP=0'', ''Device.ManagementServer.EnableCWMP=1'']))
       (andthen (sp_sendline c ''exit'') (at_prompt c [''/[a-zA-Z]* #''] (-1))))"

definition prpl_bring_up :: "'w board_env \<Rightarrow> ('w, unit) board_io" where
  "prpl_bring_up env =
     andthen (wait_for_hw_boot env ''eth1'')
     (andthen (prpl_wait_device_online env)
     (seq (lift_sum (be_acs env)) (\<lambda>acs.
      andthen (prpl_management_server (shown (kwarg acs ''acs_mib'' (JStr ''acs_server.boardfarm.com:7545''))) [] [])
        (seq prpl_cpe_id (\<lambda>_. ret ())))))"

definition prpl_boot :: "'w board_env \<Rightarrow> ('w, unit) board_io" where
  "prpl_boot env =
     andthen (prpl_connect env)
     (andthen new_software
     (andthen (provision_board env (prpl_mac_address env))
     (andthen new_software
     (andthen (prpl_power_cycle env) (prpl_bring_up env)))))"

definition prpl_skip_boot :: "'w board_env \<Rightarrow> ('w, unit) board_io" where
  "prpl_skip_boot env = andthen (prpl_connect env) new_software"

text \<open>The web interface; \<open>retry\<close> asks four times with pauses, and the answer of a fifth time is the last.\<close>

definition prpl_gui_running :: "('w, bool) board_io" where
  "prpl_gui_running =
     seq (lan_gateway_ipv4 ''br-lan'') (\<lambda>ip.
     seq (on_console (\<lambda>c. run_cmd c (''netstat -nlp |grep '' @ show_ipv4 ip @ '':80''))) (\<lambda>out. ret (out \<noteq> [])))"

fun retry_true :: "('w, bool) board_io \<Rightarrow> ('w, unit) board_io \<Rightarrow> nat \<Rightarrow> ('w, bool) board_io" where
  "retry_true question pause 0 = question"
| "retry_true question pause (Suc n) =
     seq question (\<lambda>yes. if yes then ret True else andthen pause (retry_true question pause n))"

definition prpl_configure :: "'w board_env \<Rightarrow> ('w, unit) board_io" where
  "prpl_configure env =
     (let running = retry_true prpl_gui_running (board_sleep env 5) 4
      in seq running (\<lambda>up.
         if up then ret ()
         else
           andthen (on_console (\<lambda>c. do_cmd c ''/etc/init.d/tr181-httpaccess stop''))
           (andthen (board_sleep env 5)
           (andthen (on_console (\<lambda>c. do_cmd c ''/etc/init.d/tr181-httpaccess start''))
           (seq running (\<lambda>up. if up then ret () else throw (configuration_failure ''Failed to start the GUI http daemon'')))))))"

section \<open>RDK-B on a Raspberry Pi\<close>

definition RPI_PROMPT :: "string list" where
  "RPI_PROMPT = [''root@RaspberryPi-Gateway:.*#'']"

text \<open>A falsy address in the inventory is none; the address is cached.\<close>

definition rpi_mac_address :: "'w board_env \<Rightarrow> ('w, json) board_io" where
  "rpi_mac_address env =
     seq (attribute bd_mac) (\<lambda>v.
     case v of
       Some m \<Rightarrow> ret (JStr m)
     | None \<Rightarrow>
        (let mac = get_or_none (be_config env) ''mac''
         in if truthy mac then ret mac
            else
              seq (attribute bd_console) (\<lambda>i.
              if i = None then throw (value_error ''Failed to get mac address'')
              else
                seq (on_console (\<lambda>c. run_cmd c ''cat `find /sys/devices/ -type d -name erouter0`/address'')) (\<lambda>m.
                andthen (assign (\<lambda>b. b\<lparr>bd_mac := Some m\<rparr>)) (ret (JStr m))))))"

definition rpi_serial_number :: "'w board_env \<Rightarrow> ('w, json) board_io" where
  "rpi_serial_number env =
     seq (attribute bd_serial) (\<lambda>v.
     case v of
       Some s \<Rightarrow> ret (JStr s)
     | None \<Rightarrow>
        seq (attribute bd_console) (\<lambda>i.
        if i = None then ret (get_or_none (be_config env) ''serial'')
        else
          seq (on_console (\<lambda>c. run_cmd c (''grep Serial /proc/cpuinfo |awk '' @ quoted ''{print $3}''))) (\<lambda>s.
          andthen (assign (\<lambda>b. b\<lparr>bd_serial := Some s\<rparr>)) (ret (JStr s)))))"

text \<open>What a serial line holds before the first prompt is read away, if there is any.\<close>

definition rpi_connect_as :: "string list \<Rightarrow> 'w board_env \<Rightarrow> ('w, unit) board_io" where
  "rpi_connect_as shell_prompt env =
     andthen (open_board_console env shell_prompt)
     (andthen (on_console (\<lambda>c. c_login c None))
       (catch (on_console (\<lambda>c. andthen (sp_sendline c []) (at_prompt c [''.+''] 3))) is_timeout (\<lambda>_. ret ())))"

definition rpi_connect :: "'w board_env \<Rightarrow> ('w, unit) board_io" where
  "rpi_connect = rpi_connect_as RPI_PROMPT"

definition await_reboot :: "('w, unit) board_io" where
  "await_reboot =
     on_console (\<lambda>c. andthen (at_prompt c [''Booting Linux on physical CPU''] (-1)) (at_prompt c [''automatic login''] (-1)))"

definition rpi_power_cycle :: "'w board_env \<Rightarrow> ('w, unit) board_io" where
  "rpi_power_cycle env =
     seq (lift_sum (case get_or_none (be_config env) ''powerport'' of JStr u \<Rightarrow> get_pdu u | _ \<Rightarrow> Inl attribute_error)) (\<lambda>p.
     seq (on_host (power_cycle (be_power env) p)) (\<lambda>ok.
     if ok then await_reboot else throw (boardfarm_error ''Failed to power cylce CPE via PDU'')))"

definition set_up_terminal :: "('w, unit) board_io" where
  "set_up_terminal = on_console (\<lambda>c. do_cmd c ''stty columns 200; export TERM=xterm'')"

definition board_spv :: "string \<Rightarrow> string \<Rightarrow> string \<Rightarrow> ('w, unit) board_io" where
  "board_spv param value type_set = on_tools (\<lambda>c. seq (SPV c param value type_set 0) (\<lambda>_. ret ()))"

definition persistently :: "'w board_env \<Rightarrow> ('w, 'a) board_io \<Rightarrow> ('w, 'a) board_io" where
  "persistently env call = retry_io (board_sleep env 5) call 10"

text \<open>\<^verbatim>\<open>_use_oui\<close> is false for good: it is only ever set to false.\<close>

definition rpi_cpe_id :: "'w board_env \<Rightarrow> ('w, string) board_io" where
  "rpi_cpe_id env = cached_cpe_id (seq (rpi_serial_number env) (\<lambda>v. ret (shown v)))"

definition rpi_factory_reset :: "('w, unit) board_io" where
  "rpi_factory_reset =
     andthen set_up_terminal
     (andthen (board_spv ''Device.X_CISCO_COM_DeviceControl.FactoryReset'' ''Router,Wifi,Firewall'' ''string'') await_reboot)"

definition rpi_wait_device_online :: "'w board_env \<Rightarrow> ('w, unit) board_io" where
  "rpi_wait_device_online env =
     andthen set_up_terminal
       (poll_board (persistently env (board_online env ''erouter0'')) (board_sleep env 20) (boot_failure ''Board not online'') 20)"

text \<open>After the four values \<^verbatim>\<open>"7547" not in url\<close>, which raises where the inventory of the server names no address.\<close>

definition rpi_management_server :: "'w board_env \<Rightarrow> json \<Rightarrow> ('w, unit) board_io" where
  "rpi_management_server env url =
     andthen (for_each (\<lambda>(param, value, type_set). persistently env (board_spv param value type_set))
       [(''Device.ManagementServer.URL'', shown url, ''string''),
        (''Device.ManagementServer.PeriodicInformInterval'', ''10'', ''uint''),
        (''Device.ManagementServer.EnableCWMP'', ''false'', ''bool''),
        (''Device.ManagementServer.EnableCWMP'', ''true'', ''bool'')])
     (case url of JStr _ \<Rightarrow> ret () | JList _ \<Rightarrow> ret () | JObj _ \<Rightarrow> ret () | _ \<Rightarrow> throw type_error)"

definition wants_factory_reset :: "(string, json) dict \<Rightarrow> raised + bool" where
  "wants_factory_reset config =
     (let software = get_or_none config ''software''
      in if \<not> truthy software then Inr False
         else case software of JObj d \<Rightarrow> Inr (truthy (get_or_none d ''factory_reset'')) | _ \<Rightarrow> Inl attribute_error)"

definition rpi_bring_up :: "'w board_env \<Rightarrow> ('w, unit) board_io" where
  "rpi_bring_up env =
     andthen (wait_for_hw_boot env ''erouter0'')
     (seq (lift_sum (wants_factory_reset (be_config env))) (\<lambda>wanted.
      andthen (when_io wanted (andthen (board_sleep env 60) rpi_factory_reset))
     (andthen (rpi_wait_device_online env)
     (seq (lift_sum (be_acs env)) (\<lambda>acs.
      andthen (rpi_management_server env (get_or_none acs ''acs_mib''))
        (seq (rpi_cpe_id env) (\<lambda>_. ret ())))))))"

definition rpi_boot :: "'w board_env \<Rightarrow> ('w, unit) board_io" where
  "rpi_boot env =
     andthen (rpi_connect env)
     (andthen new_software
     (andthen (provision_board env (rpi_mac_address env))
     (andthen new_software
     (andthen (rpi_power_cycle env) (rpi_bring_up env)))))"

definition rpi_skip_boot :: "'w board_env \<Rightarrow> ('w, unit) board_io" where
  "rpi_skip_boot env = andthen (rpi_connect env) new_software"

definition rpi_configure :: "'w board_env \<Rightarrow> ('w, unit) board_io" where
  "rpi_configure env =
     seq (on_console (\<lambda>c. run_cmd c (''netstat -nlp |grep '' @ quoted '':::80''))) (\<lambda>out.
     if out = [] then throw (configuration_failure ''http daemon failed to start'')
     else
       andthen (persistently env (board_spv ''Device.Users.User.3.Password'' ''bigfoot1'' ''string''))
       (andthen (persistently env (on_console (\<lambda>c. seq (c_execute c ''ip link set eth0 master brlan0'' 5) (\<lambda>_. ret ()))))
         (persistently env (on_console (\<lambda>c. seq (c_execute c ''ifconfig eth0 up'' 5) (\<lambda>_. ret ()))))))"

section \<open>RDK-B on a Banana Pi\<close>

definition BANANA_PROMPT :: "string list" where
  "BANANA_PROMPT = [''root@Filogic-GW:.*#'']"

definition log_back_in :: "'w console \<Rightarrow> ('w, unit) io" where
  "log_back_in c = andthen (sp_sendline c ''root'') (at_prompt c BANANA_PROMPT (-1))"

definition banana_connect :: "'w board_env \<Rightarrow> ('w, unit) board_io" where
  "banana_connect env =
     andthen (open_board_console env BANANA_PROMPT)
     (on_console (\<lambda>c.
        andthen (catch (at_prompt c [''To detach from the console''] 5) is_timeout (\<lambda>_. ret ()))
        (andthen (sp_sendline c [])
        (seq (sp_expect c (prompts (''Filogic-GW login:'' # BANANA_PROMPT)) 10) (\<lambda>idx.
         when_io (idx = 0) (log_back_in c))))))"

text \<open>
  Reconnecting until the deadline. Each round sleeps five seconds, so \<open>rounds\<close> bounds the loop of the code
  once it reaches the seconds until the deadline divided by five.
\<close>

definition reconnect_attempt :: "'w board_env \<Rightarrow> ('w, bool) board_io" where
  "reconnect_attempt env =
     catch (andthen (banana_connect env) (ret True)) (\<lambda>e. is_timeout e \<or> is_eof e) (\<lambda>_. ret False)"

fun reconnect :: "'w board_env \<Rightarrow> int \<Rightarrow> raised \<Rightarrow> nat \<Rightarrow> ('w, unit) board_io" where
  "reconnect env deadline failure 0 = throw failure"
| "reconnect env deadline failure (Suc n) =
     seq (on_host (reading (be_now env))) (\<lambda>now.
     if deadline \<le> now then throw failure
     else
       seq (reconnect_attempt env) (\<lambda>ok.
       if ok then ret ()
       else andthen disconnect_from_consoles (andthen (board_sleep env 5) (reconnect env deadline failure n))))"

definition banana_failure :: "'w board_env \<Rightarrow> raised" where
  "banana_failure env =
     boot_failure (shown (kwarg (be_config env) ''name'' (JStr ''board'')) @ '': container did not come back up within 120 s after reboot'')"

definition banana_power_cycle :: "'w board_env \<Rightarrow> ('w, unit) board_io" where
  "banana_power_cycle env =
     (if truthy (get_or_none (be_config env) ''powerport'') then rpi_power_cycle env
      else
        seq (on_console (\<lambda>c. andthen (sp_sendline c ''reboot'') (sp_expect c [Eof, Text ''Filogic-GW login:''] 120))) (\<lambda>idx.
        if idx = 1 then on_console log_back_in
        else
          andthen disconnect_from_consoles
          (seq (on_host (reading (be_now env))) (\<lambda>now. reconnect env (now + 120) (banana_failure env) 25))))"

definition banana_tr69_cpe_id :: "('w, string) board_io" where
  "banana_tr69_cpe_id = on_tools (\<lambda>c. seq (GPV c ''Device.DeviceInfo.SerialNumber'') (\<lambda>v. ret (dm_rval v)))"

definition default_route :: "string \<Rightarrow> string \<Rightarrow> string \<Rightarrow> ('w, unit) board_io" where
  "default_route shows adds hop =
     on_console (\<lambda>c.
       seq (run_cmd c shows) (\<lambda>out.
       if str_in ''default'' out then ret () else do_cmd c (adds @ '' route add default via '' @ hop)))"

definition prep_device :: "'w board_env \<Rightarrow> (string, json) dict \<Rightarrow> ('w, unit) board_io" where
  "prep_device env acs =
     seq (lift_sum (be_router env)) (\<lambda>(v4, v6).
     seq (on_host v4) (\<lambda>ipv4_hop.
     andthen (default_route ''ip -4 route show default'' ''ip'' ipv4_hop)
     (seq (on_host v6) (\<lambda>ipv6_hop.
     andthen (default_route ''ip -6 route show default'' ''ip -6'' ipv6_hop)
     (andthen (board_spv ''Device.ManagementServer.EnableCWMP'' ''false'' ''bool'')
     (seq (lift_sum (get_item acs ''acs_mib'')) (\<lambda>url.
      andthen (board_spv ''Device.ManagementServer.URL'' (shown url) ''string'')
      (andthen (board_spv ''Device.ManagementServer.PeriodicInformInterval'' ''10'' ''uint'')
        (board_spv ''Device.ManagementServer.EnableCWMP'' ''true'' ''bool'')))))))))"

definition banana_bring_up :: "'w board_env \<Rightarrow> ('w, unit) board_io" where
  "banana_bring_up env =
     andthen (wait_for_hw_boot env ''erouter0'')
     (andthen (rpi_wait_device_online env)
     (seq (lift_sum (be_acs env)) (\<lambda>acs.
      andthen (prep_device env acs) (seq (rpi_cpe_id env) (\<lambda>_. ret ())))))"

definition banana_boot :: "'w board_env \<Rightarrow> ('w, unit) board_io" where
  "banana_boot env =
     andthen (banana_connect env)
     (andthen new_software
     (andthen (provision_board env (rpi_mac_address env))
     (seq (attribute bd_console) (\<lambda>console_before.
      andthen (banana_power_cycle env)
     (seq (attribute bd_console) (\<lambda>console_after.
      andthen (if console_after \<noteq> console_before then new_software else ret ()) (banana_bring_up env)))))))"

definition banana_skip_boot :: "'w board_env \<Rightarrow> ('w, unit) board_io" where
  "banana_skip_boot env = andthen (banana_connect env) new_software"

section \<open>What the operations keep\<close>

text \<open>
  The handles of a board: most operations leave them alone; connecting and cycling may open consoles and move
  the hardware to a fresh one, and never touch what the tools hold.
\<close>

definition same_handles :: "'w board_state \<Rightarrow> 'w board_state \<Rightarrow> bool" where
  "same_handles b b' \<longleftrightarrow> bd_consoles b' = bd_consoles b \<and> bd_console b' = bd_console b \<and> bd_tools b' = bd_tools b"

definition moved :: "'w board_state \<Rightarrow> 'w board_state \<Rightarrow> bool" where
  "moved b b' \<longleftrightarrow>
     bd_tools b' = bd_tools b \<and> (\<exists>more. bd_consoles b' = bd_consoles b @ more) \<and>
     (bd_console b' = bd_console b \<or>
      (\<exists>i. bd_console b' = Some i \<and> length (bd_consoles b) \<le> i \<and> i < length (bd_consoles b')))"

definition tools_current :: "'w board_state \<Rightarrow> bool" where
  "tools_current b \<longleftrightarrow> bd_tools b = Some (bd_console b)"

lemma handle_relations [simp]: "reflp same_handles" "transp same_handles" "reflp moved" "transp moved"
  by (auto simp: reflp_def transp_def same_handles_def moved_def)

lemma same_moved: "same_handles b b' \<Longrightarrow> moved b b'"
  by (simp add: same_handles_def moved_def)

lemma keeps_weaker: "keeps R m \<Longrightarrow> (\<And>b b'. R b b' \<Longrightarrow> S b b') \<Longrightarrow> keeps S m"
  by (simp add: keeps_def)

lemma keeps_ok: "keeps R m \<Longrightarrow> m s = (r, s') \<Longrightarrow> R (snd s) (snd s')"
  using keepsD [of R m s] by simp

lemma keeps_attribute [keeping]: "reflp R \<Longrightarrow> keeps R (attribute f)"
  by (simp add: keeps_def attribute_def reflp_def)

lemma keeps_console_at [keeping]: "reflp R \<Longrightarrow> keeps R (console_at i f)"
  by (auto simp: keeps_def console_at_def on_host_def reflp_def split: option.splits prod.splits)

lemma keeps_on_console [keeping]: "reflp R \<Longrightarrow> transp R \<Longrightarrow> keeps R (on_console f)"
  unfolding on_console_def by (intro keeps_seq keeps_attribute keeps_console_at)

lemma keeps_on_tools [keeping]: "reflp R \<Longrightarrow> transp R \<Longrightarrow> keeps R (on_tools f)"
  unfolding on_tools_def by (intro keeps_seq keeps_attribute) (auto intro: keeps_throw keeps_console_at split: option.splits)

lemma keeps_sleep [keeping]: "reflp R \<Longrightarrow> keeps R (board_sleep env n)"
  unfolding board_sleep_def by (rule keeps_on_host)

lemma keeps_disconnect [keeping]: "reflp R \<Longrightarrow> transp R \<Longrightarrow> keeps R disconnect_from_consoles"
  unfolding disconnect_from_consoles_def by (intro keeps_seq keeps_attribute keeps_if keeps_ret keeps_console_at)

lemma keeps_poll [keeping]:
  assumes "reflp R" "transp R" "keeps R question" "keeps R pause"
  shows "keeps R (poll_board question pause failure n)"
  by (induction n) (auto intro!: keeps_seq keeps_if keeps_andthen keeps_ret keeps_throw assms)

lemma keeps_retry [keeping]:
  assumes "reflp R" "transp R" "keeps R call" "keeps R pause"
  shows "keeps R (retry_loop_io pause call n)"
  by (induction n) (auto intro!: keeps_catch keeps_andthen assms)

lemma keeps_persistently [keeping]: "reflp R \<Longrightarrow> transp R \<Longrightarrow> keeps R call \<Longrightarrow> keeps R (persistently env call)"
  unfolding persistently_def retry_io_def by (intro keeps_retry keeps_sleep)

lemma keeps_cached_id [keeping]: "keeps same_handles m \<Longrightarrow> keeps same_handles (cached_cpe_id m)"
  unfolding cached_cpe_id_def
  by (intro keeps_seq keeps_attribute) (auto intro!: keeps_seq keeps_andthen keeps_ret keeps_assign simp: same_handles_def split: option.splits)

lemma steps_keep [keeping]:
  "keeps same_handles (wait_for_hw_boot env i)" "keeps same_handles (prpl_wait_device_online env)"
  "keeps same_handles (rpi_wait_device_online env)" "keeps same_handles (prpl_management_server u v x)"
  "keeps same_handles (board_spv a b d)" "keeps same_handles await_reboot" "keeps same_handles rpi_factory_reset"
  "keeps same_handles prpl_cpe_id" "keeps same_handles (rpi_power_cycle env)" "keeps same_handles (default_route x y z)"
  unfolding wait_for_hw_boot_def prpl_wait_device_online_def rpi_wait_device_online_def prpl_management_server_def board_spv_def
    await_reboot_def rpi_factory_reset_def prpl_cpe_id_def rpi_power_cycle_def default_route_def board_online_def set_up_terminal_def
  by (auto intro!: keeping)

lemma mac_keeps [keeping]: "keeps same_handles (prpl_mac_address env)" "keeps same_handles (rpi_mac_address env)"
  "keeps same_handles (rpi_serial_number env)"
  unfolding prpl_mac_address_def prpl_value_def rpi_mac_address_def rpi_serial_number_def Let_def
  by (auto intro!: keeping keeps_assign simp: same_handles_def split: option.splits)

lemma more_keep [keeping]: "keeps same_handles (rpi_cpe_id env)" "keeps same_handles (provision_board env (prpl_mac_address env))"
  "keeps same_handles (provision_board env (rpi_mac_address env))" "keeps same_handles (rpi_management_server env url)"
  "keeps same_handles (prep_device env acs)"
  unfolding rpi_cpe_id_def provision_board_def rpi_management_server_def prep_device_def
  by (auto intro!: keeping split: json.splits prod.splits)

text \<open>Connecting that returns has moved the hardware to a console opened in between.\<close>

definition fresh_console :: "'w board_state \<Rightarrow> 'w board_state \<Rightarrow> bool" where
  "fresh_console b b' \<longleftrightarrow>
     moved b b' \<and> (\<exists>i. bd_console b' = Some i \<and> length (bd_consoles b) \<le> i \<and> i < length (bd_consoles b'))"

lemma keeps_hold: "keeps moved (hold_console c)"
  unfolding hold_console_def by (rule keeps_assign) (auto simp: moved_def)

lemma keeps_open [keeping]: "keeps moved (open_board_console env ps)"
  unfolding open_board_console_def by (intro keeps_seq keeps_lift keeps_on_host keeps_hold) simp_all

lemma on_host_ok: "on_host m s = (Inr y, s') \<longleftrightarrow> (\<exists>w. m (fst s) = (Inr y, w) \<and> s' = (w, snd s))"
  by (auto simp: on_host_def split: prod.splits)

lemma open_fresh: "open_board_console env ps s = (Inr (), s') \<Longrightarrow> fresh_console (snd s) (snd s')"
  by (auto simp: open_board_console_def seq_ok hold_console_def assign_def on_host_ok fresh_console_def moved_def)

lemma fresh_then: "fresh_console b b1 \<Longrightarrow> same_handles b1 b' \<Longrightarrow> fresh_console b b'"
  by (auto simp: fresh_console_def same_handles_def moved_def)

lemma connect_fresh:
  assumes "andthen (open_board_console env ps) k s = (Inr (), s')" and "keeps same_handles k"
  shows "fresh_console (snd s) (snd s')"
proof -
  obtain s1 where s1: "open_board_console env ps s = (Inr (), s1)" "k s1 = (Inr (), s')" using assms(1) by (auto simp: andthen_ok)
  show ?thesis by (rule fresh_then [OF open_fresh [OF s1(1)] keeps_ok [OF assms(2) s1(2)]])
qed

lemma connects_fresh:
  "prpl_connect env s = (Inr (), s') \<Longrightarrow> fresh_console (snd s) (snd s')"
  "rpi_connect env s = (Inr (), s') \<Longrightarrow> fresh_console (snd s) (snd s')"
  "banana_connect env s = (Inr (), s') \<Longrightarrow> fresh_console (snd s) (snd s')"
  unfolding prpl_connect_def rpi_connect_def rpi_connect_as_def banana_connect_def
  by (erule connect_fresh, intro keeping; simp)+

lemma connects_move [keeping]: "keeps moved (prpl_connect env)" "keeps moved (rpi_connect env)" "keeps moved (banana_connect env)"
  unfolding prpl_connect_def rpi_connect_def rpi_connect_as_def banana_connect_def
  by (intro keeping; simp)+

lemma keeps_reconnect [keeping]: "keeps moved (reconnect env deadline e n)"
  by (induction n) (auto intro!: keeping simp: reconnect_attempt_def)

lemma cycles_move: "keeps moved (prpl_power_cycle env)" "keeps moved (rpi_power_cycle env)" "keeps moved (banana_power_cycle env)"
proof -
  show r: "keeps moved (rpi_power_cycle env)" using steps_keep(9) same_moved by (rule keeps_weaker)
  show "keeps moved (prpl_power_cycle env)" unfolding prpl_power_cycle_def by (auto intro!: keeping)
  show "keeps moved (banana_power_cycle env)" unfolding banana_power_cycle_def by (auto intro!: keeping r)
qed

lemma prpl_cycle_fresh: "prpl_power_cycle env s = (Inr (), s') \<Longrightarrow> fresh_console (snd s) (snd s')"
proof -
  assume "prpl_power_cycle env s = (Inr (), s')"
  then obtain s1 where s1: "andthen (on_console (\<lambda>c. do_cmd c ''reboot -f -d 5'')) (andthen (board_sleep env 10) disconnect_from_consoles) s = (Inr (), s1)"
    "prpl_connect env s1 = (Inr (), s')"
    by (auto simp: prpl_power_cycle_def andthen_ok)
  have "keeps same_handles (andthen (on_console (\<lambda>c. do_cmd c ''reboot -f -d 5'')) (andthen (board_sleep env 10) disconnect_from_consoles))"
    by (auto intro!: keeping)
  from keeps_ok [OF this s1(1)] connects_fresh(1) [OF s1(2)] show ?thesis
    by (auto simp: fresh_console_def same_handles_def moved_def)
qed

section \<open>Hardware as the software relies on it\<close>

text \<open>
  What a board asks of its hardware: connecting gives a fresh console, and cycling the power keeps the console
  or moves to a fresh one. Software made before the cycle is current after it exactly when the console stayed.
\<close>

locale board_hardware =
  fixes connect cycle :: "('w, unit) board_io"
  assumes connected: "connect s = (Inr (), s') \<Longrightarrow> fresh_console (snd s) (snd s')"
    and cycled: "cycle s = (Inr (), s') \<Longrightarrow> moved (snd s) (snd s')"
begin

lemma software_holds:
  assumes "connect s = (Inr (), s1)" and "new_software s1 = (Inr (), s2)" and "same_handles (snd s2) (snd s3)"
  shows "\<exists>i. bd_console (snd s3) = Some i \<and> bd_tools (snd s3) = Some (Some i) \<and> i < length (bd_consoles (snd s3))"
  using connected [OF assms(1)] assms(2,3) by (auto simp: fresh_console_def new_software_def assign_def same_handles_def)

lemma tools_after_cycle:
  assumes "connect s = (Inr (), s1)" and "new_software s1 = (Inr (), s2)" and "same_handles (snd s2) (snd s3)"
    and "cycle s3 = (Inr (), s4)"
  shows "\<exists>i j. bd_tools (snd s4) = Some (Some i) \<and> bd_console (snd s4) = Some j \<and> bd_console (snd s3) = Some i \<and> i \<le> j \<and>
    (tools_current (snd s4) \<longleftrightarrow> i = j)"
  using software_holds [OF assms(1-3)] cycled [OF assms(4)] by (fastforce simp: moved_def tools_current_def)

end

interpretation prpl_hw: board_hardware "prpl_connect env" "prpl_power_cycle env" for env
  by unfold_locales (rule connects_fresh keeps_ok [OF cycles_move(1)], assumption)+

interpretation rpi_hw: board_hardware "rpi_connect env" "rpi_power_cycle env" for env
  by unfold_locales (rule connects_fresh keeps_ok [OF cycles_move(2)], assumption)+

interpretation banana_hw: board_hardware "banana_connect env" "banana_power_cycle env" for env
  by unfold_locales (rule connects_fresh keeps_ok [OF cycles_move(3)], assumption)+

section \<open>Properties\<close>

lemma bring_up_keeps: "keeps same_handles (prpl_bring_up env)" "keeps same_handles (rpi_bring_up env)"
  "keeps same_handles (banana_bring_up env)"
  unfolding prpl_bring_up_def rpi_bring_up_def banana_bring_up_def by (auto intro!: keeping)

lemma andthen_unit: "andthen (m :: ('w, unit) io) k w = (Inr y, w') \<longleftrightarrow> (\<exists>w1. m w = (Inr (), w1) \<and> k w1 = (Inr y, w'))"
  by (simp add: andthen_ok)

lemma new_software_ok: "new_software s = (Inr u, s') \<Longrightarrow> bd_tools (snd s') = Some (bd_console (snd s)) \<and>
    bd_console (snd s') = bd_console (snd s) \<and> bd_consoles (snd s') = bd_consoles (snd s)"
  by (auto simp: new_software_def assign_def)

text \<open>C24: a prplOS board that has booted has tools on a console that is not its own any more: the software is made
  before the power is cycled, and the cycle replaces the console.\<close>

theorem prpl_boot_strands_tools:
  assumes "prpl_boot env s = (Inr (), s')"
  shows "\<exists>i j. bd_tools (snd s') = Some (Some i) \<and> bd_console (snd s') = Some j \<and> i < j \<and> j < length (bd_consoles (snd s'))"
proof -
  obtain s1 s2 s3 s4 s5 where r: "prpl_connect env s = (Inr (), s1)" "new_software s1 = (Inr (), s2)"
    "provision_board env (prpl_mac_address env) s2 = (Inr (), s3)" "new_software s3 = (Inr (), s4)" "prpl_power_cycle env s4 = (Inr (), s5)"
    "prpl_bring_up env s5 = (Inr (), s')"
    using assms unfolding prpl_boot_def andthen_unit by blast
  have 3: "same_handles (snd s2) (snd s3)" by (rule keeps_ok [OF more_keep(2) r(3)])
  have 4: "same_handles (snd s2) (snd s4)"
    using 3 new_software_ok [OF r(2)] new_software_ok [OF r(4)] by (simp add: same_handles_def)
  obtain i where i: "bd_console (snd s4) = Some i" "bd_tools (snd s4) = Some (Some i)" "i < length (bd_consoles (snd s4))"
    using prpl_hw.software_holds [OF r(1,2) 4] by blast
  show ?thesis
    using i prpl_cycle_fresh [OF r(5)] keeps_ok [OF bring_up_keeps(1) r(6)]
    by (fastforce simp: fresh_console_def moved_def same_handles_def)
qed

text \<open>A board that answers everything at once, on consoles that show all its values, beside a provisioner and a server.\<close>

definition showing_device :: answers where
  "showing_device = (sample_device 0)\<lparr>
     dv_index := \<lambda>tr. Inr (case last tr of Expected (Eof # Timeout # _) _ \<Rightarrow> 2 | _ \<Rightarrow> 0),
     dv_before := \<lambda>_.
     double_quoted ''02:00:00:00:00:01'' @ '' eth1 erouter0 default inet 10.0.0.2 inet6 2001:db8::1 Execution succeed.''\<rparr>"

definition sample_env :: "(string, json) dict \<Rightarrow> action list board_env" where
  "sample_env more_config =
     \<lparr>be_config = [(''connection_type'', JStr ''local_cmd''), (''conn_cmd'', JList [JStr ''lxc-attach'']),
        (''mac'', JStr ''02:00:00:00:00:01'')] @ more_config,
      be_name = ''board'', be_logs = JStr [], be_spawn = \<lambda>_. ret (spawn.truncate (recorded showing_device)),
      be_sleep = \<lambda>n. record_action (Slept n), be_now = \<lambda>_. 0,
      be_power = \<lparr>pn_http = \<lambda>_ _. ret ''OK'', pn_snmp = \<lambda>_ _ _. ret (None, None)\<rparr>,
      be_flag = \<lambda>_ _. Some True, be_provisioner = Inr (\<lambda>_. ret ()), be_acs = Inr [(''acs_mib'', JStr ''acs:7547'')],
      be_router = Inr (ret ''10.0.0.1'', ret ''2001:db8::2'')\<rparr>"

theorem prpl_boot_strands_tools_witness:
  "\<exists>s'. prpl_boot (sample_env []) ([], new_board) = (Inr (), s') \<and> \<not> tools_current (snd s')"
proof -
  have "case prpl_boot (sample_env []) ([], new_board) of (Inr _, _) \<Rightarrow> True | _ \<Rightarrow> False" by code_simp
  then obtain s' where run: "prpl_boot (sample_env []) ([], new_board) = (Inr (), s')" by (simp split: prod.splits sum.splits)
  from prpl_boot_strands_tools [OF run] run show ?thesis by (auto simp: tools_current_def)
qed

text \<open>C23: the other boards come up with tools on their own console: one keeps the console over the power cycle, the
  other makes its software again when the cycle replaced it.\<close>

theorem rdkb_boots_keep_tools:
  "(rpi_boot env s = (Inr (), s') \<longrightarrow> tools_current (snd s')) \<and> (banana_boot env s = (Inr (), s') \<longrightarrow> tools_current (snd s'))"
proof (intro conjI impI)
  assume "rpi_boot env s = (Inr (), s')"
  then obtain s1 s2 s3 where r: "new_software s1 = (Inr (), s2)" "rpi_power_cycle env s2 = (Inr (), s3)" "rpi_bring_up env s3 = (Inr (), s')"
    unfolding rpi_boot_def andthen_unit by blast
  show "tools_current (snd s')"
    using new_software_ok [OF r(1)] keeps_ok [OF steps_keep(9) r(2)] keeps_ok [OF bring_up_keeps(2) r(3)]
    by (simp add: tools_current_def same_handles_def)
next
  assume "banana_boot env s = (Inr (), s')"
  then obtain s1 s2 s3 s4 s5 where r: "banana_connect env s = (Inr (), s1)" "new_software s1 = (Inr (), s2)"
    "provision_board env (rpi_mac_address env) s2 = (Inr (), s3)" "banana_power_cycle env s3 = (Inr (), s4)"
    "(if bd_console (snd s4) \<noteq> bd_console (snd s3) then new_software else ret ()) s4 = (Inr (), s5)" "banana_bring_up env s5 = (Inr (), s')"
    unfolding banana_boot_def andthen_unit seq_ok attribute_def by auto
  have "same_handles (snd s2) (snd s3)" by (rule keeps_ok [OF more_keep(3) r(3)])
  from banana_hw.tools_after_cycle [OF r(1,2) this r(4)] have "tools_current (snd s5)"
    using r(5) new_software_ok [of s4 "()" s5] by (cases "bd_console (snd s4) = bd_console (snd s3)") (auto simp: tools_current_def)
  then show "tools_current (snd s')" using keeps_ok [OF bring_up_keeps(3) r(6)] by (simp add: tools_current_def same_handles_def)
qed

theorem rdkb_boots_keep_tools_witness:
  "\<exists>s1 s2. rpi_boot (sample_env [(''powerport'', JStr ''netio://10.0.0.9;3'')]) ([], new_board) = (Inr (), s1) \<and> tools_current (snd s1) \<and>
     banana_boot (sample_env []) ([], new_board) = (Inr (), s2) \<and> tools_current (snd s2)"
proof -
  have "case rpi_boot (sample_env [(''powerport'', JStr ''netio://10.0.0.9;3'')]) ([], new_board) of (Inr _, _) \<Rightarrow> True | _ \<Rightarrow> False"
    by code_simp
  then obtain s1 where 1: "rpi_boot (sample_env [(''powerport'', JStr ''netio://10.0.0.9;3'')]) ([], new_board) = (Inr (), s1)"
    by (simp split: prod.splits sum.splits)
  have "case banana_boot (sample_env []) ([], new_board) of (Inr _, _) \<Rightarrow> True | _ \<Rightarrow> False" by code_simp
  then obtain s2 where 2: "banana_boot (sample_env []) ([], new_board) = (Inr (), s2)" by (simp split: prod.splits sum.splits)
  show ?thesis using 1 2 rdkb_boots_keep_tools by blast
qed

lemma provision_missing:
  assumes "be_provisioner env = map_sum id provision (get_device_by_type is_provisioner label m)"
    and "\<forall>v. Some v \<in> snd ` set (dm_plugins m) \<longrightarrow> \<not> is_provisioner v"
  shows "\<exists>e. rx_class e = DeviceNotFound \<and> (\<forall>mac s. provision_board env mac s = (Inl e, s))"
proof -
  have "get_devices_by_type is_provisioner m = []"
    using assms(2) by (force simp: get_devices_by_type_def split: option.splits)
  then have "be_provisioner env = Inl (not_found (''No device available of type '' @ label))"
    using assms(1) by (simp add: get_device_by_type_def)
  then show ?thesis
    by (intro exI [of _ "not_found (''No device available of type '' @ label)"])
      (simp add: provision_board_def seq_def lift_sum_def not_found_def py_error_def)
qed

text \<open>C27: a board boots only beside a provisioner: where no registered device is one, the boot of a board that was
  reached ends with the exception of the device manager, although the code means to go on without it.\<close>

theorem boot_needs_provisioner:
  assumes "be_provisioner env = map_sum id provision (get_device_by_type is_provisioner label m)"
    and "\<forall>v. Some v \<in> snd ` set (dm_plugins m) \<longrightarrow> \<not> is_provisioner v"
    and "(boot, reach) \<in> {(prpl_boot, prpl_connect), (rpi_boot, rpi_connect), (banana_boot, banana_connect)}"
    and "reach env s = (Inr (), s1)"
  shows "\<exists>e s2. boot env s = (Inl e, s2) \<and> rx_class e = DeviceNotFound \<and> tools_current (snd s2)"
proof -
  obtain e where e: "rx_class e = DeviceNotFound" "\<And>mac s. provision_board env mac s = (Inl e, s)"
    using provision_missing [OF assms(1,2)] by blast
  obtain s2 where s2: "new_software s1 = (Inr (), s2)" by (simp add: new_software_def assign_def)
  have "tools_current (snd s2)" using new_software_ok [OF s2] by (simp add: tools_current_def)
  moreover have "boot env s = (Inl e, s2)"
    using assms(3,4) s2 by (auto simp: e(2) [of _ s2] prpl_boot_def rpi_boot_def banana_boot_def andthen_def seq_def)
  ultimately show ?thesis using e(1) by blast
qed

theorem boot_needs_provisioner_witness:
  "\<exists>e s2. prpl_boot ((sample_env [])\<lparr>be_provisioner := map_sum id (\<lambda>_ _. ret ()) (get_device_by_type (\<lambda>_. False) ''Provisioner''
       \<lparr>dm_initialized = True, dm_plugins = [(''wan'', Some ())]\<rparr>)\<rparr>) ([], new_board) = (Inl e, s2) \<and> rx_class e = DeviceNotFound"
proof -
  let ?m = "\<lparr>dm_initialized = True, dm_plugins = [(''wan'', Some ())]\<rparr>"
  let ?env = "(sample_env [])\<lparr>be_provisioner := map_sum id (\<lambda>_ _. ret ()) (get_device_by_type (\<lambda>_. False) ''Provisioner'' ?m)\<rparr>"
  have p: "be_provisioner ?env = map_sum id (\<lambda>_ _. ret ()) (get_device_by_type (\<lambda>_. False) ''Provisioner'' ?m)" by simp
  have none: "\<forall>v. Some v \<in> snd ` set (dm_plugins ?m) \<longrightarrow> \<not> False" by simp
  have "case prpl_connect ?env ([], new_board) of (Inr _, _) \<Rightarrow> True | _ \<Rightarrow> False" by code_simp
  then obtain s1 where run: "prpl_connect ?env ([], new_board) = (Inr (), s1)" by (simp split: prod.splits sum.splits)
  have "(prpl_boot, prpl_connect) \<in> {(prpl_boot, prpl_connect), (rpi_boot, rpi_connect), (banana_boot, banana_connect)}" by simp
  from boot_needs_provisioner [OF p none this run] show ?thesis by blast
qed

text \<open>Rounds of a poll that were all answered with no.\<close>

inductive unanswered :: "('s, bool) io \<Rightarrow> ('s, unit) io \<Rightarrow> nat \<Rightarrow> 's \<Rightarrow> 's \<Rightarrow> bool" for question pause where
  none: "unanswered question pause 0 s s"
| again: "question s = (Inr False, s1) \<Longrightarrow> pause s1 = (Inr (), s2) \<Longrightarrow> unanswered question pause n s2 s' \<Longrightarrow>
    unanswered question pause (Suc n) s s'"

inductive_cases unanswered_Suc: "unanswered question pause (Suc n) s s'"
inductive_cases unanswered_0: "unanswered question pause 0 s s'"

lemma poll_ok:
  "poll_board question pause failure n s = (Inr (), s') \<longleftrightarrow>
     (\<exists>k s1. k < n \<and> unanswered question pause k s s1 \<and> question s1 = (Inr True, s'))"
proof (induction n arbitrary: s)
  case (Suc n)
  show ?case
  proof
    assume "poll_board question pause failure (Suc n) s = (Inr (), s')"
    then obtain b s1 where q: "question s = (Inr b, s1)"
      "(if b then ret () else andthen pause (poll_board question pause failure n)) s1 = (Inr (), s')"
      by (auto simp: seq_ok)
    show "\<exists>k s1. k < Suc n \<and> unanswered question pause k s s1 \<and> question s1 = (Inr True, s')"
    proof (cases b)
      case True
      then show ?thesis using q by (intro exI [of _ 0] exI [of _ s]) (simp add: none)
    next
      case False
      then obtain s2 where "pause s1 = (Inr (), s2)" "poll_board question pause failure n s2 = (Inr (), s')"
        using q(2) by (auto simp: andthen_ok)
      then obtain k s3 where "k < n" "unanswered question pause k s2 s3" "question s3 = (Inr True, s')" using Suc.IH by blast
      moreover have "unanswered question pause (Suc k) s s3"
        using again [of question s s1 pause s2 k s3] q(1) False \<open>pause s1 = (Inr (), s2)\<close> calculation(2) by simp
      ultimately show ?thesis by (intro exI [of _ "Suc k"] exI [of _ s3]) simp
    qed
  next
    assume "\<exists>k s1. k < Suc n \<and> unanswered question pause k s s1 \<and> question s1 = (Inr True, s')"
    then obtain k s1 where k: "k < Suc n" "unanswered question pause k s s1" "question s1 = (Inr True, s')" by blast
    show "poll_board question pause failure (Suc n) s = (Inr (), s')"
    proof (cases k)
      case 0
      then show ?thesis using k(2,3) by (auto simp: seq_def ret_def elim: unanswered_0)
    next
      case (Suc m)
      then obtain t1 t2 where "question s = (Inr False, t1)" "pause t1 = (Inr (), t2)" "unanswered question pause m t2 s1"
        using k(2) by (auto elim: unanswered_Suc)
      moreover have "m < n" using k(1) Suc by simp
      ultimately have "poll_board question pause failure n t2 = (Inr (), s')" using Suc.IH [of t2] k(3) by blast
      moreover note \<open>question s = (Inr False, t1)\<close> \<open>pause t1 = (Inr (), t2)\<close>
      ultimately show ?thesis by (simp add: seq_def andthen_def)
    qed
  qed
qed simp

lemma poll_gives_up: "unanswered question pause n s s' \<Longrightarrow> poll_board question pause failure n s = (Inl failure, s')"
  by (induction rule: unanswered.induct) (simp_all add: throw_def seq_def andthen_def)

text \<open>C25: waiting for a board to come online returns exactly when one of at most twenty questions, each no before it
  followed by a pause, is answered with yes, and fails with the boot failure when all twenty are answered with no.\<close>

theorem online_wait_decides:
  "(prpl_wait_device_online env s = (Inr (), s') \<longleftrightarrow>
     (\<exists>k s1. k < 20 \<and> unanswered (board_online env ''eth1'') (board_sleep env 20) k s s1 \<and> board_online env ''eth1'' s1 = (Inr True, s'))) \<and>
   (unanswered (board_online env ''eth1'') (board_sleep env 20) 20 s s' \<longrightarrow>
     prpl_wait_device_online env s = (Inl (boot_failure ''Board not online''), s'))"
  unfolding prpl_wait_device_online_def using poll_ok poll_gives_up by blast

theorem online_wait_decides_witness:
  "prpl_wait_device_online (sample_env []) ([], new_board\<lparr>bd_consoles := [recorded addressed_device], bd_console := Some 0\<rparr>) =
     (Inr (), ([Executed ''ifconfig eth1'' (-1), Executed ''ifconfig eth1'' (-1)],
        new_board\<lparr>bd_consoles := [recorded addressed_device], bd_console := Some 0\<rparr>))"
proof -
  let ?s = "([], new_board\<lparr>bd_consoles := [recorded addressed_device], bd_console := Some 0\<rparr>) :: action list \<times> action list board_state"
  have "case is_online (\<lambda>_ _. Some True) (be_config (sample_env [])) ''eth1'' (recorded addressed_device) [] of
     (Inr b, tr) \<Rightarrow> b \<and> tr = [Executed ''ifconfig eth1'' (-1), Executed ''ifconfig eth1'' (-1)] | _ \<Rightarrow> False" by code_simp
  then have "is_online (\<lambda>_ _. Some True) (be_config (sample_env [])) ''eth1'' (recorded addressed_device) [] =
      (Inr True, [Executed ''ifconfig eth1'' (-1), Executed ''ifconfig eth1'' (-1)])"
    by (auto split: prod.splits sum.splits)
  then have "board_online (sample_env []) ''eth1'' ?s = (Inr True, ([Executed ''ifconfig eth1'' (-1), Executed ''ifconfig eth1'' (-1)], snd ?s))"
    by (simp add: board_online_def on_console_def seq_def attribute_def console_at_def on_host_def sample_env_def)
  then have "\<exists>k s1. k < 20 \<and> unanswered (board_online (sample_env []) ''eth1'') (board_sleep (sample_env []) 20) k ?s s1 \<and>
      board_online (sample_env []) ''eth1'' s1 = (Inr True, ([Executed ''ifconfig eth1'' (-1), Executed ''ifconfig eth1'' (-1)], snd ?s))"
    by (intro exI [of _ 0] exI [of _ ?s]) (simp add: unanswered.none)
  then show ?thesis using online_wait_decides [of "sample_env []" ?s] by simp
qed

text \<open>
  Time that passes: in the states a loop meets, an attempt and a disconnection do not turn the clock back, and
  a pause of five seconds takes five.
\<close>

definition clock_runs :: "'w board_env \<Rightarrow> ('w \<times> 'w board_state \<Rightarrow> bool) \<Rightarrow> bool" where
  "clock_runs env P \<longleftrightarrow>
     (\<forall>s r s'. P s \<longrightarrow> reconnect_attempt env s = (r, s') \<longrightarrow> P s' \<and> be_now env (fst s) \<le> be_now env (fst s')) \<and>
     (\<forall>s r s'. P s \<longrightarrow> disconnect_from_consoles s = (r, s') \<longrightarrow> P s' \<and> be_now env (fst s) \<le> be_now env (fst s')) \<and>
     (\<forall>s r s'. P s \<longrightarrow> board_sleep env 5 s = (r, s') \<longrightarrow> P s' \<and> be_now env (fst s) + 5 \<le> be_now env (fst s'))"

lemma clock_read: "on_host (reading f) s = (Inr (f (fst s)), s)"
  by (simp add: on_host_def reading_def)

lemma reconnect_over: "deadline \<le> be_now env (fst s) \<Longrightarrow> reconnect env deadline failure n s = (Inl failure, s)"
  by (cases n) (simp_all add: throw_def seq_def clock_read)

text \<open>C26: the loop that waits for a rebooted board ends: once the rounds cover the seconds that are left, more of
  them change nothing, so the twenty-five given are as good as any number.\<close>

theorem reconnect_ends:
  assumes "clock_runs env P" and "P s" and "deadline \<le> be_now env (fst s) + 5 * int n"
  shows "reconnect env deadline failure (n + m) s = reconnect env deadline failure n s"
  using assms(2,3)
proof (induction n arbitrary: s)
  case 0
  then show ?case by (simp add: reconnect_over throw_def)
next
  case (Suc n)
  show ?case
  proof (cases "deadline \<le> be_now env (fst s)")
    case False
    obtain r1 s1 where 1: "reconnect_attempt env s = (r1, s1)" by (cases "reconnect_attempt env s")
    obtain r2 s2 where 2: "disconnect_from_consoles s1 = (r2, s2)" by (cases "disconnect_from_consoles s1")
    obtain r3 s3 where 3: "board_sleep env 5 s2 = (r3, s3)" by (cases "board_sleep env 5 s2")
    have c1: "P s1" "be_now env (fst s) \<le> be_now env (fst s1)" using assms(1) Suc.prems(1) 1 unfolding clock_runs_def by blast+
    have c2: "P s2" "be_now env (fst s1) \<le> be_now env (fst s2)" using assms(1) c1(1) 2 unfolding clock_runs_def by blast+
    have c3: "P s3" "be_now env (fst s2) + 5 \<le> be_now env (fst s3)" using assms(1) c2(1) 3 unfolding clock_runs_def by blast+
    have "reconnect env deadline failure (n + m) s3 = reconnect env deadline failure n s3"
      using Suc.prems(2) c1(2) c2(2) c3 by (intro Suc.IH) simp_all
    then show ?thesis
      using 1 2 3 False by (simp add: seq_def andthen_def ret_def clock_read split: sum.splits)
  next
    case True
    then show ?thesis
      using reconnect_over [OF True, of failure "Suc n + m"] reconnect_over [OF True, of failure "Suc n"] by (simp only:)
  qed
qed

definition silent_env :: "int board_env" where
  "silent_env =
     \<lparr>be_config = [(''connection_type'', JStr ''local_cmd''), (''conn_cmd'', JList [JStr ''lxc-attach''])],
      be_name = ''board'', be_logs = JStr [], be_spawn = \<lambda>_. throw (py_error PexpectTimeout ''TIMEOUT'' []),
      be_sleep = \<lambda>n w. (Inr (), w + n), be_now = \<lambda>w. w,
      be_power = \<lparr>pn_http = \<lambda>_ _. ret [], pn_snmp = \<lambda>_ _ _. ret (None, None)\<rparr>,
      be_flag = \<lambda>_ _. None, be_provisioner = Inl type_error, be_acs = Inl type_error, be_router = Inl type_error\<rparr>"

lemma silent_attempt: "reconnect_attempt silent_env s = (Inr False, s)"
proof -
  let ?conn = "connection_factory (JStr (shown (get_or_none (be_config silent_env) ''connection_type'')))
            [(''conn_command'', JStr ''lxc-attach''), (''save_console_logs'', be_logs silent_env), (''shell_prompt'', JList (map JStr BANANA_PROMPT))]"
  have "conn_command (be_config silent_env) = Inr (JStr ''lxc-attach'')" by code_simp
  moreover have "case ?conn of Inr _ \<Rightarrow> True | _ \<Rightarrow> False" by code_simp
  then obtain conn where "?conn = Inr conn" by (auto split: sum.splits)
  moreover have "be_spawn silent_env conn = throw (py_error PexpectTimeout ''TIMEOUT'' [])" by (simp add: silent_env_def)
  ultimately have "open_board_console silent_env BANANA_PROMPT s = (Inl (py_error PexpectTimeout ''TIMEOUT'' []), s)"
    by (simp add: open_board_console_def open_console_def seq_def lift_sum_def on_host_def throw_def)
  then show ?thesis
    by (simp add: reconnect_attempt_def banana_connect_def catch_def andthen_def seq_def is_timeout_def py_error_def ret_def)
qed

theorem reconnect_ends_witness:
  "reconnect silent_env 120 type_error 30 (0, new_board) = reconnect silent_env 120 type_error 24 (0, new_board)"
proof -
  have now: "be_now silent_env w = w" for w by (simp add: silent_env_def)
  have rest: "board_sleep silent_env n s = (Inr (), (fst s + n, snd s))" for n s
    by (simp add: board_sleep_def on_host_def silent_env_def)
  have "clock_runs silent_env (\<lambda>s. bd_console (snd s) = None)"
    by (auto simp: clock_runs_def silent_attempt disconnect_from_consoles_def attribute_def seq_def ret_def rest now)
  then show ?thesis using reconnect_ends [of silent_env "\<lambda>s. bd_console (snd s) = None" "(0, new_board)" 120 24 type_error 6]
    by (simp add: new_board_def now)
qed

text \<open>A value of the configuration that holds an equals sign itself makes reading all of them fail.\<close>

lemma uci_value_with_equals:
  "read_uci [''network.lan=interface'', ''dhcp.option=tag=1''] [] = Inl (value_error ''too many values to unpack (expected 2)'') \<and>
   read_uci [''network.lan=interface'', ''# none''] [] = Inr [(''network.lan'', ''interface'')]"
  by code_simp

end
