(* ===== verification/Infra_Devices.thy ===== *)
theory Infra_Devices
  imports Cpe_Software Linux_LAN Kea_Provisioner
begin

text \<open>
  The small hosts around a board: the router (\<^verbatim>\<open>devices/linux_router.py\<close>), the TFTP server
  (\<^verbatim>\<open>devices/linux_tftp.py\<close>), the dictionary of compiled MIBs (\<^verbatim>\<open>lib/mibs_compiler.py\<close>), captured RIP
  packets (\<^verbatim>\<open>use_cases/ripv2.py\<close>), dates (\<^verbatim>\<open>use_cases/device_utilities.py\<close>) and the renewal of addresses
  (\<^verbatim>\<open>use_cases/dhcp.py\<close>). The compiler of MIBs is a parameter.
\<close>

section \<open>The router\<close>

definition router_configure :: "'w console \<Rightarrow> string \<Rightarrow> ('w, unit) io" where
  "router_configure c name =
     seq (run_cmd c ''service frr status'') (\<lambda>output.
     if \<not> str_in ''running'' output \<or> str_in ''FAILED'' output
     then throw (configuration_failure (name @ '': frr service is not running. Output: '' @ py_repr output)) else ret ())"

definition router_add_route :: "'w console \<Rightarrow> string \<Rightarrow> string \<Rightarrow> string option \<Rightarrow> ('w, unit) io" where
  "router_add_route c destination hop gw_interface =
     do_cmd c (''ip route add '' @ destination @ '' via '' @ hop @
       (case gw_interface of None \<Rightarrow> [] | Some i \<Rightarrow> if i = [] then [] else '' dev '' @ i))"

definition router_delete_route :: "'w console \<Rightarrow> string \<Rightarrow> ('w, unit) io" where
  "router_delete_route c destination = do_cmd c (''ip route del '' @ destination)"

section \<open>The TFTP server\<close>

text \<open>The next address belongs to the class: every server that boots takes one and moves it on.\<close>

definition FIRST_TFTP_ADDRESS :: int where "FIRST_TFTP_ADDRESS = 3232235786"

definition set_tftp_address :: "linux_device \<Rightarrow> 'w console \<Rightarrow> int \<Rightarrow> ('w, unit) io" where
  "set_tftp_address d c static_ip =
     andthen (do_cmd c (''ifconfig '' @ ld_eth d @ '' '' @ show_ipv4 static_ip @ '' netmask 255.255.255.0 up''))
     (seq (get_nw_interface_ipv4_address (Some c) (ld_eth d)) (\<lambda>ip.
      if show_ipv4 static_ip \<noteq> ip
      then throw (configuration_failure (''Failed to configure '' @ ld_eth d @ '' with '' @ show_ipv4 static_ip)) else ret ()))"

definition tftp_service :: "'w console \<Rightarrow> ('w, unit) io" where
  "tftp_service c =
     seq (run_cmd c ''/etc/init.d/tftpd-hpa restart'') (\<lambda>out.
     if \<not> str_in ''Restarting'' out then throw (py_error DeviceBootFailure ''DeviceBootFailure'' ''Failed to restart tftpd-hpa'')
     else
       seq (run_cmd c ''/etc/init.d/tftpd-hpa status'') (\<lambda>out.
       if \<not> str_in ''in.tftpd is running'' out
       then throw (py_error DeviceBootFailure ''DeviceBootFailure'' ''Failed tftpd-hpa not running'') else ret ()))"

text \<open>Booting a server that is connected; the state beside the world is the next address.\<close>

definition tftp_boot :: "linux_device \<Rightarrow> 'w console \<Rightarrow> ('w \<times> int, unit) io" where
  "tftp_boot d c s =
     andthen (on_host (set_tftp_address d c (snd s)))
     (andthen (assign (\<lambda>ip. ip + 1)) (on_host (tftp_service c))) s"

definition tftp_post_deploy :: "'w console \<Rightarrow> ('w, unit) io \<Rightarrow> ('w, unit) io \<Rightarrow> ('w, unit) io" where
  "tftp_post_deploy c leave unregister = andthen (do_cmd c ''/etc/init.d/tftpd-hpa stop'') (andthen leave unregister)"

definition download_image_from_uri ::
  "(string \<Rightarrow> string list \<Rightarrow> ('w, 'w spawn) io) \<Rightarrow> linux_device \<Rightarrow> 'w console \<Rightarrow> string \<Rightarrow> ('w, string) io" where
  "download_image_from_uri run_local d c image_uri = download_file_from_uri run_local d c image_uri ''/tftpboot'' ''mgmt''"

text \<open>A context manager without \<^verbatim>\<open>finally\<close>: what follows the block is not reached when the block raises.\<close>

definition with_tmp_static_ip :: "linux_device \<Rightarrow> 'w console \<Rightarrow> int \<Rightarrow> ('w, 'a) io \<Rightarrow> ('w, 'a) io" where
  "with_tmp_static_ip d c static_address body =
     (let a = show_ipv4 static_address; i = ld_eth d
      in andthen (for_each (do_cmd c)
           [''ip a flush dev '' @ i, ''ip a add '' @ a @ ''/32 dev '' @ i, ''ip link set '' @ i @ '' up'', ''ip route del default'',
            ''ip route add default via '' @ a @ '' dev '' @ i, ''ip a''])
         (seq body (\<lambda>r. andthen (for_each (do_cmd c) [''ip route del default'', ''ip a flush dev '' @ i]) (ret r))))"

definition lighttpd :: "'w console \<Rightarrow> string \<Rightarrow> ('w, unit) io" where
  "lighttpd c what = do_cmd c (''service lighttpd '' @ what)"

section \<open>Compiled MIBs\<close>

text \<open>What the compiler hands over for each MIB; items without an identifier, and tables of objects, are left out.\<close>

definition add_mibs :: "(string, json) dict \<Rightarrow> (string, json) dict \<Rightarrow> (string, json) dict" where
  "add_mibs compiled mibs =
     fold (\<lambda>(item, v) d. case v of JObj ps \<Rightarrow> if dict_mem ''oid'' ps \<and> \<not> dict_mem ''objects'' ps then dict_set item v d else d | _ \<Rightarrow> d)
       compiled mibs"

definition compile_mibs :: "(string \<Rightarrow> (string, json) dict) \<Rightarrow> string list \<Rightarrow> (string, json) dict" where
  "compile_mibs compiler mib_names = fold (\<lambda>n. add_mibs (compiler n)) mib_names []"

definition mib_oid :: "(string, json) dict \<Rightarrow> string \<Rightarrow> raised + json" where
  "mib_oid mibs mib_name =
     (case dict_get mibs mib_name of
        Some (JObj ps) \<Rightarrow>
          (case dict_get ps ''oid'' of
             Some v \<Rightarrow> Inr v
           | None \<Rightarrow> Inl (value_error (''Unable to find OID of '' @ py_repr mib_name @ '' MIB'')))
      | _ \<Rightarrow> Inl (value_error (''Unable to find OID of '' @ py_repr mib_name @ '' MIB'')))"

section \<open>Captured RIP packets\<close>

record rip_packet =
  rp_source :: int
  rp_destination :: int
  rp_ip_address :: "int list"
  rp_subnet :: "(address \<times> nat) list"
  rp_frame_time :: "real option"

definition ipv4_value :: "string \<Rightarrow> raised + int" where
  "ipv4_value s = (case parse_ipv4 s of Some n \<Rightarrow> Inr n | None \<Rightarrow> Inl address_value_error)"

fun each_right :: "(raised + 'a) list \<Rightarrow> raised + 'a list" where
  "each_right [] = Inr []"
| "each_right (r # rs) = andalso r (\<lambda>x. map_sum id (\<lambda>xs. x # xs) (each_right rs))"

definition no_rip_trace :: "string \<Rightarrow> raised" where
  "no_rip_trace fname = use_case_failure (''No RIPv2 trace found in PCAP file '' @ fname)"

text \<open>
  A line that has fewer than four fields, or whose time is no number, ends the parsing; one that advertises
  nothing is skipped; a malformed address raises its own exception.
\<close>

definition rip_row :: "string \<Rightarrow> bool \<Rightarrow> string \<Rightarrow> raised + rip_packet list" where
  "rip_row fname frame_time packet =
     (let fs = split_on (CHR 0x09) packet
      in case take 4 fs of
           [src, dst, advertised_ips, netmask] \<Rightarrow>
             (case (if frame_time then (case py_float (last fs) of Inr t \<Rightarrow> Inr (Some t) | Inl e \<Rightarrow> Inl (no_rip_trace fname)) else Inr None) of
                Inl e \<Rightarrow> Inl e
              | Inr t \<Rightarrow>
                 if advertised_ips = [] then Inr []
                 else
                   andalso (ipv4_value src) (\<lambda>s.
                   andalso (ipv4_value dst) (\<lambda>d.
                   andalso (each_right (map ipv4_value (split_on (CHR '','') advertised_ips))) (\<lambda>ips.
                   andalso (each_right (map ip_interface (split_on (CHR '','') netmask))) (\<lambda>masks.
                   Inr [\<lparr>rp_source = s, rp_destination = d, rp_ip_address = ips, rp_subnet = masks, rp_frame_time = t\<rparr>])))))
         | _ \<Rightarrow> Inl (no_rip_trace fname))"

definition rip_fields :: "bool \<Rightarrow> string" where
  "rip_fields frame_time =
     '' -Y rip -T fields -e ip.src -e ip.dst -e rip.ip -e rip.netmask '' @ (if frame_time then ''-e frame.time_epoch'' else [])"

definition rip_rows :: "string \<Rightarrow> bool \<Rightarrow> string \<Rightarrow> raised + rip_packet list" where
  "rip_rows fname frame_time raw =
     (let rip_packets = last (split_str (''This could be dangerous.'' @ [CHR 0x0D, CHR 0x0A]) raw)
      in if rip_packets = []
         then Inl (use_case_failure (''No trace found in PCAP file '' @ fname @ '' with filters: '' @ rip_fields frame_time))
         else map_sum id concat (each_right (map (rip_row fname frame_time) (splitlines rip_packets))))"

definition parse_rip_trace ::
  "(string \<Rightarrow> string option \<Rightarrow> bool \<Rightarrow> ('w, string) io) \<Rightarrow> string \<Rightarrow> bool \<Rightarrow> bool \<Rightarrow>
   ('w, rip_packet list) io" where
  "parse_rip_trace read_pcap fname frame_time rm_pcap =
     seq (read_pcap fname (Some (rip_fields frame_time)) rm_pcap) (\<lambda>raw. lift_sum (rip_rows fname frame_time raw))"

section \<open>Dates and addresses\<close>

datatype 'w dated = BoardDated "'w console" | HostDated "'w console"

definition get_device_date :: "'w dated \<Rightarrow> ('w, string option) io" where
  "get_device_date device = (case device of BoardDated c \<Rightarrow> sw_get_date c | HostDated c \<Rightarrow> get_date c)"

definition set_device_date :: "'w dated \<Rightarrow> string \<Rightarrow> string \<Rightarrow> ('w, unit) io" where
  "set_device_date device shown_device date =
     seq (case device of BoardDated c \<Rightarrow> sw_set_date c date | HostDated c \<Rightarrow> set_date c ''-s'' date) (\<lambda>out.
     if out then ret ()
     else throw (use_case_failure (''Can'' @ [CHR 0x27] @ ''t set the date '' @ quoted date @ '' on '' @ quoted shown_device)))"

text \<open>The renewals of a client, as the Linux device does them; the interface is the one to the board.\<close>

definition dhcp_renew_ipv4 :: "linux_device \<Rightarrow> 'w console \<Rightarrow> string \<Rightarrow> ('w, string) io \<Rightarrow> ('w, int) io" where
  "dhcp_renew_ipv4 d c i address =
     andthen (release_dhcp d c i) (andthen (renew_dhcp d c i) (seq address (\<lambda>a. lift_sum (ipv4_value a))))"

definition ipv6_value :: "string \<Rightarrow> raised + int" where
  "ipv6_value s = (case parse_ipv6 s of Some n \<Rightarrow> Inr n | None \<Rightarrow> Inl address_value_error)"

definition dhcp_renew_stateful_ipv6 :: "linux_device \<Rightarrow> 'w console \<Rightarrow> string \<Rightarrow> ('w, string) io \<Rightarrow> ('w, int) io" where
  "dhcp_renew_stateful_ipv6 d c i address =
     andthen (release_ipv6 d c i False) (andthen (renew_ipv6 d c i False) (seq address (\<lambda>a. lift_sum (ipv6_value a))))"

definition dhcp_renew_stateless_ipv6 :: "linux_device \<Rightarrow> 'w console \<Rightarrow> string \<Rightarrow> ('w, string) io \<Rightarrow> ('w, int) io" where
  "dhcp_renew_stateless_ipv6 d c i address =
     andthen (release_ipv6 d c i True)
     (andthen (set_link_state d c i ''down'')
     (andthen (set_link_state d c i ''up'')
     (andthen (renew_ipv6 d c i True)
     (andthen (sp_sleep c 10) (seq address (\<lambda>a. lift_sum (ipv6_value a)))))))"

section \<open>Properties\<close>

text \<open>servers that boot one after the other get addresses of their own: the first of them the address the class
  held, each next one the following address, and the class is left holding the one after the last.\<close>

lemma tftp_boot_ok:
  "tftp_boot d (recorded v) (tr, ip) = (Inr (), s') \<Longrightarrow>
     snd s' = ip + 1 \<and> (\<exists>more. fst s' = tr @ Executed (''ifconfig '' @ ld_eth d @ '' '' @ show_ipv4 ip @ '' netmask 255.255.255.0 up'') (-1) # more)"
  by (auto simp: tftp_boot_def set_tftp_address_def tftp_service_def on_host_def assign_def andthen_ok seq_ok do_cmd_ok run_cmd_def
      get_nw_interface_ipv4_address_def get_nw_interface_ip_address_def split: prod.splits if_splits)

fun tftp_boots :: "answers \<Rightarrow> linux_device list \<Rightarrow> (action list \<times> int, unit) io" where
  "tftp_boots v [] = ret ()"
| "tftp_boots v (d # ds) = andthen (tftp_boot d (recorded v)) (tftp_boots v ds)"

theorem tftp_addresses_distinct:
  assumes "tftp_boots v ds (tr, ip) = (Inr (), (tr', ip'))"
  shows "ip' = ip + int (length ds) \<and>
    (\<forall>k < length ds. Executed (''ifconfig '' @ ld_eth (ds ! k) @ '' '' @ show_ipv4 (ip + int k) @ '' netmask 255.255.255.0 up'') (-1) \<in> set tr') \<and>
    set tr \<subseteq> set tr'"
  using assms
proof (induction ds arbitrary: tr ip)
  case (Cons d ds)
  then obtain tr1 ip1 where 1: "tftp_boot d (recorded v) (tr, ip) = (Inr (), (tr1, ip1))" "tftp_boots v ds (tr1, ip1) = (Inr (), (tr', ip'))"
    by (auto simp: andthen_ok)
  note b = tftp_boot_ok [OF 1(1)] and IH = Cons.IH [OF 1(2)]
  have "Executed (''ifconfig '' @ ld_eth ((d # ds) ! k) @ '' '' @ show_ipv4 (ip + int k) @ '' netmask 255.255.255.0 up'') (-1) \<in> set tr'"
    if k: "k < length (d # ds)" for k
  proof (cases k)
    case 0
    then show ?thesis using b IH by auto
  next
    case (Suc m)
    then show ?thesis using b IH k by (auto simp: algebra_simps)
  qed
  then show ?case using b IH by auto
qed (simp add: ret_def)

definition tftp_device :: answers where
  "tftp_device = (sample_device 0)\<lparr>dv_output := \<lambda>tr. Inr
     (if length tr mod 4 = 2 then (if length tr < 4 then ''inet 192.168.1.10'' else ''inet 192.168.1.11'')
      else ''Restarting: in.tftpd is running'')\<rparr>"

theorem tftp_addresses_distinct_witness:
  "\<exists>tr. tftp_boots tftp_device [sample_linux, sample_linux] ([], FIRST_TFTP_ADDRESS) = (Inr (), (tr, FIRST_TFTP_ADDRESS + 2)) \<and>
     Executed (''ifconfig '' @ ld_eth sample_linux @ '' 192.168.1.11 netmask 255.255.255.0 up'') (-1) \<in> set tr"
proof -
  have "case tftp_boots tftp_device [sample_linux, sample_linux] ([], FIRST_TFTP_ADDRESS) of (Inr _, _) \<Rightarrow> True | _ \<Rightarrow> False" by code_simp
  then obtain tr ip where run: "tftp_boots tftp_device [sample_linux, sample_linux] ([], FIRST_TFTP_ADDRESS) = (Inr (), (tr, ip))"
    by (auto split: prod.splits sum.splits)
  have a: "show_ipv4 (FIRST_TFTP_ADDRESS + int 1) = ''192.168.1.11''" by code_simp
  have "ip = FIRST_TFTP_ADDRESS + 2" using tftp_addresses_distinct [OF run] by simp
  moreover have "\<forall>k<2. Executed (''ifconfig '' @ ld_eth ([sample_linux, sample_linux] ! k) @ '' '' @ show_ipv4 (FIRST_TFTP_ADDRESS + int k) @
      '' netmask 255.255.255.0 up'') (-1) \<in> set tr"
    using tftp_addresses_distinct [OF run] by (simp only: length_Cons list.size numeral_2_eq_2 One_nat_def add_0 plus_1_eq_Suc add_Suc add_Suc_right) auto
  ultimately show ?thesis using run a by (auto dest: spec [of _ 1])
qed

text \<open>When the block raises, the route and the address of the block stay: nothing is run after it.\<close>

lemma tmp_static_ip_left:
  assumes "body w1 = (Inl e, w2)"
    and "for_each (do_cmd c)
       [''ip a flush dev '' @ ld_eth d, ''ip a add '' @ show_ipv4 a @ ''/32 dev '' @ ld_eth d, ''ip link set '' @ ld_eth d @ '' up'',
        ''ip route del default'', ''ip route add default via '' @ show_ipv4 a @ '' dev '' @ ld_eth d, ''ip a''] w = (Inr (), w1)"
  shows "with_tmp_static_ip d c a body w = (Inl e, w2)"
  using assms unfolding with_tmp_static_ip_def Let_def andthen_def [of "for_each (do_cmd c) (_ # _ # _ # _)"] by (simp add: seq_def)

text \<open>a captured line that prints a packet is read back as that packet, with the addresses it advertises and the
  masks as the interfaces their texts name.\<close>

lemma each_right_all: "list_all2 (\<lambda>r x. r = Inr x) rs xs \<Longrightarrow> each_right rs = Inr xs"
  by (induction rule: list_all2_induct) (simp_all add: andalso_def)

definition good_ipv4 :: "int \<Rightarrow> bool" where
  "good_ipv4 n \<longleftrightarrow> 0 \<le> n \<and> n < 2 ^ 32"

lemma plain_ipv4: "good_ipv4 n \<Longrightarrow> c \<in> set (show_ipv4 n) \<Longrightarrow> is_digit c \<or> c = CHR ''.''"
  using nat_str_is_digit by (fastforce simp: show_ipv4_def int_str_nonneg good_ipv4_def list_all_iff)

lemma ipv4_value_shown: "good_ipv4 n \<Longrightarrow> ipv4_value (show_ipv4 n) = Inr n"
  by (simp add: ipv4_value_def good_ipv4_def parse_show_ipv4)

lemma set_join: "set (join sep ws) \<subseteq> set sep \<union> \<Union> (set ` set ws)"
  by (induction sep ws rule: join.induct) auto

definition rip_line :: "int \<Rightarrow> int \<Rightarrow> int list \<Rightarrow> string list \<Rightarrow> string" where
  "rip_line src dst ips masks =
     join [CHR 0x09] [show_ipv4 src, show_ipv4 dst, join '','' (map show_ipv4 ips), join '','' masks]"

theorem rip_row_roundtrip:
  assumes "good_ipv4 src" and "good_ipv4 dst" and "ips \<noteq> []" and "list_all good_ipv4 ips"
    and "masks \<noteq> []" and "list_all (\<lambda>m. CHR '','' \<notin> set m \<and> CHR 0x09 \<notin> set m) masks"
    and "list_all2 (\<lambda>m s. ip_interface m = Inr s) masks subnets"
  shows "rip_row fname False (rip_line src dst ips masks) =
    Inr [\<lparr>rp_source = src, rp_destination = dst, rp_ip_address = ips, rp_subnet = subnets, rp_frame_time = None\<rparr>]"
proof -
  have dig: "\<not> is_digit CHR 0x09" "\<not> is_digit CHR '',''" by (simp_all add: is_digit_def)
  have no: "CHR 0x09 \<notin> set (show_ipv4 n)" "CHR '','' \<notin> set (show_ipv4 n)" if "good_ipv4 n" for n
    using plain_ipv4 [OF that, of "CHR 0x09"] plain_ipv4 [OF that, of "CHR '',''"] dig by auto
  let ?a = "join '','' (map show_ipv4 ips)" and ?m = "join '','' masks"
  have a: "CHR 0x09 \<notin> set ?a"
    using set_join [of "'',''" "map show_ipv4 ips"] no(1) assms(4) by (auto simp: list_all_iff)
  have m: "CHR 0x09 \<notin> set ?m" using set_join [of "'',''" masks] assms(6) by (auto simp: list_all_iff)
  have fs: "split_on (CHR 0x09) (rip_line src dst ips masks) = [show_ipv4 src, show_ipv4 dst, ?a, ?m]"
    unfolding rip_line_def using no(1) assms(1,2) a m by (intro split_on_join) auto
  have sa: "split_on (CHR '','') ?a = map show_ipv4 ips"
    by (intro split_on_join ballI) (use no(2) assms(3,4) in \<open>force simp: list_all_iff\<close>)+
  have sm: "split_on (CHR '','') ?m = masks" using assms(5,6) by (intro split_on_join) (auto simp: list_all_iff)
  have ips: "each_right (map ipv4_value (map show_ipv4 ips)) = Inr ips"
    by (rule each_right_all) (use assms(4) ipv4_value_shown in \<open>auto simp: list_all2_conv_all_nth list_all_iff\<close>)
  have subnets: "each_right (map ip_interface masks) = Inr subnets"
    by (rule each_right_all) (use assms(7) in \<open>auto simp: list_all2_conv_all_nth\<close>)
  have "?a \<noteq> []"
  proof
    assume "?a = []"
    then have "map show_ipv4 ips = split_on (CHR '','') []" using sa by simp
    then have "show_ipv4 (hd ips) = []" using assms(3) by (cases ips) auto
    moreover have "good_ipv4 (hd ips)" using assms(3,4) by (cases ips) auto
    moreover have "parse_ipv4 [] = None" by code_simp
    ultimately show False using ipv4_value_shown [of "hd ips"] by (simp add: ipv4_value_def)
  qed
  then show ?thesis
    unfolding rip_row_def Let_def fs using sa sm ips subnets assms(1,2) by (simp add: ipv4_value_shown andalso_def)
qed

theorem rip_row_roundtrip_witness:
  "rip_row ''rip.pcap'' False (rip_line 167772161 3758096393 [167772416] [''255.255.255.0'']) =
     Inr [\<lparr>rp_source = 167772161, rp_destination = 3758096393, rp_ip_address = [167772416],
           rp_subnet = [(V4 4294967040, 32)], rp_frame_time = None\<rparr>]"
proof -
  have "ip_interface ''255.255.255.0'' = Inr (V4 4294967040, 32)" by code_simp
  then show ?thesis by (intro rip_row_roundtrip) (simp_all add: good_ipv4_def)
qed

end
