(* ===== verification/Interactive_Shell.thy ===== *)
theory Interactive_Shell
  imports IP_Address "HOL-Library.List_Lexorder" "HOL-Library.Char_ord"
begin

text \<open>
  The shell a user gets after the deployment (\<^verbatim>\<open>boardfarm3/lib/interactive_shell.py\<close>): the table of devices
  and tools, what a choice does, and the arguments of a test run. Drawing tables, the terminal sessions, the
  Python shell and pytest are not modelled; what the user types is a list of answers.
\<close>

section \<open>Tables of options\<close>

record 'a options_table =
  ot_rows :: "string list list"
  ot_actions :: "(string, 'a) dict"

definition empty_table :: "'a options_table" where
  "empty_table = \<lparr>ot_rows = [], ot_actions = []\<rparr>"

definition add_option :: "string list \<Rightarrow> 'a \<Rightarrow> 'a options_table \<Rightarrow> 'a options_table" where
  "add_option column_data a t =
     t\<lparr>ot_rows := ot_rows t @ [column_data], ot_actions := dict_set (hd column_data) a (ot_actions t)\<rparr>"

text \<open>
  Asking until the exit is chosen; the prompt takes no other answer than a choice. The result is what was
  done, and whether the table was left.
\<close>

fun show_table :: "(string, 'a) dict \<Rightarrow> string \<Rightarrow> string list \<Rightarrow> 'a list \<times> bool" where
  "show_table actions exit_option [] = ([], False)"
| "show_table actions exit_option (a # as) =
     (if a = exit_option then ([], True)
      else
        (let (done, left) = show_table actions exit_option as
         in case dict_get actions a of Some f \<Rightarrow> (f # done, left) | None \<Rightarrow> (done, left)))"

section \<open>Consoles\<close>

record shell_device =
  sd_name :: string
  sd_type :: string
  sd_consoles :: "string list"

datatype console_start = NoConsole | Session string | ChooseFrom "string options_table"

definition choose_console :: "string list \<Rightarrow> string options_table" where
  "choose_console consoles = fold (\<lambda>(i, c). add_option [nat_str i, c] c) (enumerate 1 consoles) empty_table"

definition start_interactive_console :: "shell_device \<Rightarrow> console_start" where
  "start_interactive_console device =
     (case sd_consoles device of
        [] \<Rightarrow> NoConsole
      | [c] \<Rightarrow> Session c
      | cs \<Rightarrow> ChooseFrom (choose_console cs))"

section \<open>The main table\<close>

datatype shell_action = ConsoleOf shell_device | PythonShell | RunTests | AddMarker

definition device_console_options :: "shell_device list \<Rightarrow> (string list \<times> shell_action) list" where
  "device_console_options devices =
     map (\<lambda>(i, d). ([nat_str i, sd_name d @ '' ('' @ sd_type d @ '')'', nat_str (length (sd_consoles d))], ConsoleOf d))
       (enumerate 1 (sort_key sd_name devices))"

definition interactive_console_options :: "shell_device list \<Rightarrow> bool \<Rightarrow> bool \<Rightarrow> shell_action options_table" where
  "interactive_console_options devices tests_installed save_console_logs =
     fold (\<lambda>(cols, a). add_option cols a)
       (device_console_options devices @
        [([''p'', ''python interactive shell (ptpython)''], PythonShell)] @
        (if tests_installed then [([''e'', ''execute boardfarm automated test(s)''], RunTests)] else []) @
        (if save_console_logs then [([''m'', ''add custom marker in console logs''], AddMarker)] else []))
       empty_table"

section \<open>Running tests\<close>

text \<open>\<^verbatim>\<open>^MVX_TST-\d+$\<close>, on the text without blanks; what goes into the file name keeps them.\<close>

definition is_test_id :: "string \<Rightarrow> bool" where
  "is_test_id s \<longleftrightarrow>
     (let t = strip whitespace s; d = drop (length ''MVX_TST-'') t
      in startswith t ''MVX_TST-'' \<and> d \<noteq> [] \<and> list_all is_digit d)"

definition test_arguments :: "int \<Rightarrow> string \<Rightarrow> string list" where
  "test_arguments now tests =
     (let ts = split_on (CHR '','') tests
      in [''--self-contained-html'', ''--html=report-'' @ int_str now @ ''.html''] @ filter (\<lambda>t. \<not> is_test_id t) ts @
         [''-k'', join '' or '' (map (\<lambda>t. ''test_'' @ t @ ''.py'') (filter is_test_id ts))])"

text \<open>
  What a marker writes into the log of every session: the text is passed as an extra attribute, and the
  message is the placeholder.
\<close>

definition marker_lines :: "string \<Rightarrow> string list" where
  "marker_lines message = [replicate 80 (CHR ''#''), ''{log_msg}'', replicate 80 (CHR ''#'')]"

section \<open>Properties\<close>

lemma fold_add_actions:
  "ot_actions (fold (\<lambda>(cols, a). add_option cols a) os t) = fold (\<lambda>(cols, a) d. dict_set (hd cols) a d) os (ot_actions t)"
  by (induction os arbitrary: t) (auto simp: add_option_def)

lemma dict_get_fold:
  "distinct (map (\<lambda>(cols, a). hd cols) os) \<Longrightarrow>
   dict_get (fold (\<lambda>(cols, a) d. dict_set (hd cols) a d) os d) k =
     (case map_of (map (\<lambda>(cols, a). (hd cols, a)) os) k of Some a \<Rightarrow> Some a | None \<Rightarrow> dict_get d k)"
proof (induction os arbitrary: d)
  case (Cons p os)
  obtain cols a where p: "p = (cols, a)" by (cases p)
  have "map_of (map (\<lambda>(cols, a). (hd cols, a)) os) (hd cols) = None"
    using Cons.prems p by (force simp: map_of_eq_None_iff)
  then show ?case using Cons p by (auto split: option.splits)
qed simp

lemma nat_str_no_letter: "nat_str n = [c] \<Longrightarrow> is_digit c"
  using nat_str_is_digit [of n] by simp

text \<open>in the table of the shell every choice does one thing: the number i opens the console of the device that
  comes i-th by name, and the three letters the tools, the last two only where they are offered.\<close>

theorem shell_choices:
  assumes "1 \<le> i" and "i \<le> length devices"
  shows "dict_get (ot_actions (interactive_console_options devices e m)) (nat_str i) = Some (ConsoleOf (sort_key sd_name devices ! (i - 1))) \<and>
    dict_get (ot_actions (interactive_console_options devices e m)) ''p'' = Some PythonShell \<and>
    dict_get (ot_actions (interactive_console_options devices e m)) ''e'' = (if e then Some RunTests else None) \<and>
    dict_get (ot_actions (interactive_console_options devices e m)) ''m'' = (if m then Some AddMarker else None)"
proof -
  let ?devs = "device_console_options devices" and ?n = "length devices"
  define os where "os = ?devs @ [([''p'', ''python interactive shell (ptpython)''], PythonShell)] @
        (if e then [([''e'', ''execute boardfarm automated test(s)''], RunTests)] else []) @
        (if m then [([''m'', ''add custom marker in console logs''], AddMarker)] else [])"
  have keys: "map (\<lambda>(cols, a). hd cols) os = map nat_str [1..<Suc ?n] @ [''p''] @ (if e then [''e''] else []) @ (if m then [''m''] else [])"
  proof -
    have "map (\<lambda>(cols, a). hd cols) ?devs = map nat_str (map fst (enumerate 1 (sort_key sd_name devices)))"
      unfolding device_console_options_def map_map by (simp only: comp_def case_prod_unfold prod.sel list.sel)
    also have "map fst (enumerate 1 (sort_key sd_name devices)) = [1..<Suc ?n]" by (simp del: upt_Suc)
    finally have "map (\<lambda>(cols, a). hd cols) ?devs = map nat_str [1..<Suc ?n]" .
    then show ?thesis unfolding os_def by (simp del: upt_Suc)
  qed
  have letters: "nat_str k \<noteq> ''p''" "nat_str k \<noteq> ''e''" "nat_str k \<noteq> ''m''" for k
    using nat_str_no_letter [of k] by (auto simp: is_digit_def)
  note letters' = letters [THEN not_sym]
  have dist: "distinct (map (\<lambda>(cols, a). hd cols) os)"
    unfolding keys by (auto simp: letters letters' distinct_map inj_on_def simp del: upt_Suc dest: nat_str_inj)
  have opts: "dict_get (ot_actions (interactive_console_options devices e m)) k = map_of (map (\<lambda>(cols, a). (hd cols, a)) os) k" for k
    unfolding interactive_console_options_def os_def [symmetric] fold_add_actions
    by (simp add: dict_get_fold [OF dist] empty_table_def split: option.splits)
  have at: "map_of (map (\<lambda>(cols, a). (hd cols, a)) os) k = Some a" if "(cols, a) \<in> set os" "hd cols = k" for cols a k
    using that dist by (intro map_of_is_SomeI) (force simp: comp_def case_prod_unfold)+
  have none: "map_of (map (\<lambda>(cols, a). (hd cols, a)) os) k = None" if "k \<notin> set (map (\<lambda>(cols, a). hd cols) os)" for k
    using that by (force simp: map_of_eq_None_iff)
  have "([nat_str i, sd_name (sort_key sd_name devices ! (i - 1)) @ '' ('' @ sd_type (sort_key sd_name devices ! (i - 1)) @ '')'',
      nat_str (length (sd_consoles (sort_key sd_name devices ! (i - 1))))], ConsoleOf (sort_key sd_name devices ! (i - 1))) \<in> set ?devs"
    unfolding device_console_options_def set_map
    by (rule image_eqI [of _ _ "(i, sort_key sd_name devices ! (i - 1))"]) (use assms in \<open>simp_all add: in_set_enumerate_eq\<close>)
  then have "map_of (map (\<lambda>(cols, a). (hd cols, a)) os) (nat_str i) = Some (ConsoleOf (sort_key sd_name devices ! (i - 1)))"
    by (intro at) (auto simp: os_def)
  moreover have "map_of (map (\<lambda>(cols, a). (hd cols, a)) os) ''p'' = Some PythonShell"
    by (rule at [of "[''p'', ''python interactive shell (ptpython)'']"]) (auto simp: os_def)
  moreover have "map_of (map (\<lambda>(cols, a). (hd cols, a)) os) ''e'' = (if e then Some RunTests else None)"
  proof (cases e)
    case True
    then show ?thesis using at [of "[''e'', ''execute boardfarm automated test(s)'']" RunTests "''e''"] by (simp add: os_def)
  next
    case False
    then show ?thesis using none [of "''e''"] letters' unfolding keys by (auto simp del: upt_Suc)
  qed
  moreover have "map_of (map (\<lambda>(cols, a). (hd cols, a)) os) ''m'' = (if m then Some AddMarker else None)"
  proof (cases m)
    case True
    then show ?thesis using at [of "[''m'', ''add custom marker in console logs'']" AddMarker "''m''"] by (simp add: os_def)
  next
    case False
    then show ?thesis using none [of "''m''"] letters' unfolding keys by (auto simp del: upt_Suc)
  qed
  ultimately show ?thesis unfolding opts by simp
qed

definition two_devices :: "shell_device list" where
  "two_devices = [\<lparr>sd_name = ''wan'', sd_type = ''linux_wan'', sd_consoles = [''console'']\<rparr>,
                  \<lparr>sd_name = ''board'', sd_type = ''prplos'', sd_consoles = [''console'']\<rparr>]"

theorem shell_choices_witness:
  "dict_get (ot_actions (interactive_console_options two_devices True False)) (nat_str 1) = Some (ConsoleOf (two_devices ! 1))"
proof -
  have "map sd_name (sort_key sd_name two_devices) = [''board'', ''wan'']" by code_simp
  have s: "sort_key sd_name two_devices ! (1 - 1) = two_devices ! 1" by code_simp
  have l: "1 \<le> length two_devices" by (simp add: two_devices_def)
  show ?thesis using shell_choices [OF order_refl l, of True False] s by simp
qed

text \<open>What is typed as a marker is not in the lines that are written.\<close>

lemma marker_without_message: "marker_lines message = marker_lines message'"
  by (simp add: marker_lines_def)

text \<open>A test that is named with a blank before it runs as a file whose name holds the blank.\<close>

lemma blank_in_test_name:
  "test_arguments 0 ''MVX_TST-1, MVX_TST-2,lan'' =
     [''--self-contained-html'', ''--html=report-0.html'', ''lan'', ''-k'', ''test_MVX_TST-1.py or test_ MVX_TST-2.py'']"
  by code_simp

end
