(* ===== verification/Spec2Isabelle.thy ===== *)
theory Spec2Isabelle
  imports BF_Prelude PyString Json_Value Control_Models Lease Registry Diag_Store Launchers
    Process_Launcher Docker_Launcher Proxy Teardown Reaper Control_App Control_System Console API_Errors Job_Queue
    Agent_Session Agent_App Annotations Route_Gen Usecase_Gen Lib_Utils Board_Config Deployment
    Py_Values Plugin_Routes Api_Plugin Json_Text Dhcp_Trace Py_Regex Device_IO Console_Text Connections Power_Units
    Net_Text IP_Address Networking Linux_Device Linux_Tools Packet_Scan Multicast Snmp
    Linux_LAN Linux_WAN Linux_WLAN Net_Cases Traffic Compose Sip_Phone Voice
    Acs_Base Axiros_ACS Genie_ACS Kea_Provisioner
    Cpe_Software Cpe_Boards Infra_Devices Interactive_Shell
begin

text \<open>
  A model of boardfarm, in four parts: the control plane that leases boards and runs one agent for each
  session (\<^verbatim>\<open>boardfarm3_control\<close>), the agent that owns one board (\<^verbatim>\<open>boardfarm3/api\<close>), the deployment of
  the devices a configuration names (\<^verbatim>\<open>boardfarm3/lib\<close>, \<^verbatim>\<open>plugins\<close>, \<^verbatim>\<open>main.py\<close>), and the libraries and use
  cases that read what devices print (\<^verbatim>\<open>boardfarm3/lib\<close>, \<^verbatim>\<open>use_cases\<close>).

  Conventions. A dictionary is an association list in insertion order, a JSON value the datatype
  \<open>json\<close>, a text a list of characters below 256, a time a real number. An exception is the left side
  of a sum: \<open>exc\<close> and \<open>failure\<close> in the control plane, \<open>raised\<close> with its class elsewhere. State is passed
  and returned; a coroutine that suspends is split at its suspensions, and the pieces are interleaved by
  a step relation where it matters. Third-party libraries (httpx, docker, pluggy, FastAPI, jsonmerge) and
  the world outside (the operating system, a device's shell) are arguments of the definitions.

  \<^bold>\<open>Foundations.\<close> \<open>BF_Prelude\<close> (dictionaries, slices), \<open>PyString\<close> (text), \<open>Json_Value\<close> (values, redaction
  of \<^verbatim>\<open>api/redact.py\<close>), \<open>Json_Text\<close> (the decoder of the standard library), \<open>Py_Values\<close> (exceptions of the
  language, nested access, numbers).

  \<^bold>\<open>Control plane.\<close> \<open>Control_Models\<close> (\<^verbatim>\<open>models.py\<close>), \<open>Lease\<close> (\<^verbatim>\<open>lease.py\<close>), \<open>Registry\<close> (\<^verbatim>\<open>registry.py\<close>),
  \<open>Diag_Store\<close> (\<^verbatim>\<open>store.py\<close>), \<open>Launchers\<close>, \<open>Process_Launcher\<close> and \<open>Docker_Launcher\<close> (\<^verbatim>\<open>launcher.py\<close>),
  \<open>Proxy\<close> (\<^verbatim>\<open>proxy.py\<close>), \<open>Teardown\<close> (\<^verbatim>\<open>teardown.py\<close>), \<open>Reaper\<close> (\<^verbatim>\<open>reaper.py\<close>), \<open>Control_App\<close> (\<^verbatim>\<open>app.py\<close>,
  \<^verbatim>\<open>__main__.py\<close>), \<open>Plugin_Routes\<close> (\<^verbatim>\<open>openapi.py\<close>), and \<open>Control_System\<close>, the handlers and the reaper
  interleaved. Creation takes a lease, starts an agent, waits for its health, configures and boots it,
  and registers it; every failure after the lease goes through the one teardown. The interfaces are
  locales, interpreted on the model: \<open>lease_iface\<close>, \<open>registry_iface\<close>, \<open>launcher_starts\<close> and
  \<open>launcher_table\<close> (all three launchers), \<open>byte_store\<close>. In \<open>Control_System\<close> a handler or a reaper pass is as
  many steps as it has suspensions, each creation, teardown and purge a task with the point it has reached.
  The lemmas show that a board never has two live sessions, when a lease can be lost, what a failed
  creation leaves, what the reaper purges and deletes, and what crosses the proxy.

  \<^bold>\<open>Agent.\<close> \<open>Console\<close> (\<^verbatim>\<open>console.py\<close>), \<open>API_Errors\<close> (\<^verbatim>\<open>errors.py\<close>, \<^verbatim>\<open>exceptions.py\<close>), \<open>Job_Queue\<close>
  (\<^verbatim>\<open>execution.py\<close>), \<open>Agent_Session\<close> (\<^verbatim>\<open>runtime.py\<close>, \<^verbatim>\<open>session.py\<close>), \<open>Agent_App\<close> (\<^verbatim>\<open>app.py\<close>, \<^verbatim>\<open>bundle.py\<close>,
  \<^verbatim>\<open>logs.py\<close>, \<^verbatim>\<open>diagnostics.py\<close>), \<open>Annotations\<close> and \<open>Route_Gen\<close> (\<^verbatim>\<open>routers/_generator.py\<close>,
  \<^verbatim>\<open>routers/__init__.py\<close>), \<open>Usecase_Gen\<close> (\<^verbatim>\<open>routers/_usecase_generator.py\<close>), \<open>Api_Plugin\<close>
  (\<^verbatim>\<open>plugin.py\<close>). All work on devices is queued to one worker; the session follows its jobs
  (\<open>jq_step\<close> are the steps of the queue, \<open>boot_step\<close> those of a session that waits for its boot: the two
  assignments of a failure, cancellations, other jobs and handlers in between). They show that jobs run
  one at a time in order, what each poll makes of a boot, how often a stream client gets each line, and
  what generated routes call use cases and devices with. A handler that waits for its own job on an
  otherwise idle worker (configuring, releasing, calling) is one operation, \<open>run_idle\<close>.

  \<^bold>\<open>Deployment.\<close> \<open>Lib_Utils\<close> (\<^verbatim>\<open>lib/utils.py\<close>), \<open>Board_Config\<close> (\<^verbatim>\<open>lib/boardfarm_config.py\<close>), \<open>Deployment\<close>
  (\<^verbatim>\<open>lib/device_manager.py\<close>, \<^verbatim>\<open>plugins\<close>, \<^verbatim>\<open>main.py\<close>, \<^verbatim>\<open>use_cases/device_getters.py\<close>): selecting and merging
  the configuration, matching the requested clients to devices, registering the devices and running the
  boot stages.

  \<^bold>\<open>Libraries.\<close> \<open>Py_Regex\<close> gives the regular expressions the code uses a backtracking matcher (first
  outcome first, as Python's). \<open>Net_Text\<close> (\<^verbatim>\<open>lib/parsers\<close>, \<^verbatim>\<open>lib/regexlib.py\<close>), \<open>IP_Address\<close> (the part of
  \<^verbatim>\<open>ipaddress\<close> that is used), \<open>Console_Text\<close> (\<^verbatim>\<open>lib/boardfarm_pexpect.py\<close>) and \<open>Dhcp_Trace\<close>
  (\<^verbatim>\<open>use_cases/dhcp.py\<close>, \<^verbatim>\<open>lib/dataclass/dhcp.py\<close>) are pure. What talks to a device is a program of the monad of
  \<open>Device_IO\<close>: \<open>('w, 'a) io\<close> takes a world of any type to a world and a value or an exception, and a
  console is a record of such programs (\<open>spawn\<close>, \<open>console\<close>), so pexpect and the device stay
  parameters. \<open>recorded\<close> is one such console: it writes down every action and answers from a function of
  the actions so far, and the properties about consoles hold for all answers. \<open>Connections\<close>
  (\<^verbatim>\<open>lib/connections\<close>, \<^verbatim>\<open>lib/connection_factory.py\<close>, \<^verbatim>\<open>lib/python_executor.py\<close>) models the kinds of
  console over one \<open>spawn\<close>; its locale \<open>shell\<close> is the contract of \<^verbatim>\<open>execute_command\<close>, interpreted on the SSH,
  the local and the telnet connection. \<open>Power_Units\<close> (\<^verbatim>\<open>lib/power.py\<close>, \<^verbatim>\<open>devices/power\<close>), \<open>Networking\<close>
  (\<^verbatim>\<open>lib/networking.py\<close>, \<^verbatim>\<open>lib/network_utils.py\<close>, \<^verbatim>\<open>lib/dmcli.py\<close>), \<open>Linux_Device\<close> and \<open>Linux_Tools\<close>
  (\<^verbatim>\<open>devices/base_devices/linux_device.py\<close>) stand on it. The lemmas show what a parser recovers from a
  listing (in the layout the tools print, padded columns and blank lines included), what order the commands of
  an operation have, and which answers of the device make it succeed.

  \<^bold>\<open>Devices.\<close> On the Linux device stand the clients and servers: \<open>Linux_LAN\<close>, \<open>Linux_WAN\<close>, \<open>Linux_WLAN\<close>
  (\<^verbatim>\<open>devices/linux_lan.py\<close>, \<^verbatim>\<open>linux_wan.py\<close>, \<^verbatim>\<open>linux_wlan.py\<close>, \<^verbatim>\<open>use_cases/wifi.py\<close>, \<^verbatim>\<open>lib/hal/cpe_wifi.py\<close>),
  \<open>Infra_Devices\<close> (\<^verbatim>\<open>linux_router.py\<close>, \<^verbatim>\<open>linux_tftp.py\<close>, \<^verbatim>\<open>lib/mibs_compiler.py\<close> and small use cases), \<open>Sip_Phone\<close>
  (\<^verbatim>\<open>pjsip_phone.py\<close>, whose reachable states are an inductive predicate) and \<open>Voice\<close> (\<^verbatim>\<open>kamailio.py\<close>,
  \<^verbatim>\<open>use_cases/voice.py\<close>). \<open>Kea_Provisioner\<close> (\<^verbatim>\<open>kea_provisioner.py\<close>) builds the configurations of the DHCP servers;
  \<open>Acs_Base\<close>, \<open>Axiros_ACS\<close> and \<open>Genie_ACS\<close> (\<^verbatim>\<open>axiros_acs.py\<close>, \<^verbatim>\<open>genie_acs.py\<close>) are the configuration servers, with
  the HTTP client as a parameter. \<open>Cpe_Software\<close> (\<^verbatim>\<open>lib/cpe_sw.py\<close>, \<^verbatim>\<open>use_cases/cpe.py\<close>) and \<open>Cpe_Boards\<close>
  (\<^verbatim>\<open>prplos_cpe.py\<close>, \<^verbatim>\<open>rpirdkb_cpe.py\<close>, \<^verbatim>\<open>bananapirdkb_cpe.py\<close>) are the boards under test. A board's consoles are
  objects with identity, a list of all ever opened to which hardware and tools refer by position, since the
  tools of a board can keep a console its hardware has replaced. The state of a device is a component beside
  the world (\<open>keeps\<close> in \<open>Device_IO\<close>). The interfaces are locales: \<open>voice_phone\<close>, what the voice use cases ask of
  a phone, interpreted on the pjsip phone; \<open>board_hardware\<close>, what a board's software relies on, interpreted on
  all three boards. The lemmas show which states a phone and a board reach, what a configuration contains, how
  often a call is repeated, and what a listing or an answer is read as.

  \<^bold>\<open>Use cases.\<close> \<open>Packet_Scan\<close>, \<open>Net_Cases\<close> (\<^verbatim>\<open>use_cases/networking.py\<close>, \<^verbatim>\<open>lib/dataclass/packets.py\<close>), \<open>Multicast\<close>
  (\<^verbatim>\<open>lib/multicast.py\<close>, \<^verbatim>\<open>use_cases/multicast.py\<close>; both are specified by \<open>lies_in_order\<close>, expected packets at
  places of a capture that strictly increase, which their scan decides only when no packet fits two
  successive ones), \<open>Snmp\<close> (\<^verbatim>\<open>lib/SNMPv2.py\<close>) and \<open>Traffic\<close> (\<^verbatim>\<open>use_cases/iperf.py\<close>),
  whose locale \<open>traffic_device\<close> is interpreted on the Linux device. \<open>Compose\<close>
  (\<^verbatim>\<open>lib/docker_factory/docker_compose_generator.py\<close>) makes the compose file of a testbed, \<open>Interactive_Shell\<close>
  (\<^verbatim>\<open>lib/interactive_shell.py\<close>) the tables of the shell.

  \<^bold>\<open>Bounds and fuel.\<close> The JSON parser has fuel twice the length of its text; more changes nothing
  (\<open>decode_fuel\<close>). Loops that wait (health polls, streams, the reaper) run over the list of what they
  will meet, and loops with a bound in the code count it down. The loop that reconnects to a rebooted board
  has a deadline of 120 seconds and pauses five in every round: 25 rounds are given, and \<open>reconnect_ends\<close> shows
  that more change nothing when the clock runs.

  \<^bold>\<open>Not modelled.\<close> HTTP framing, pydantic and FastAPI beyond the data they hand over, asyncio's
  scheduler beyond the interleaving of steps, tar and gzip; the driver of web pages and the comparison of
  images (\<^verbatim>\<open>lib/gui\<close>, \<^verbatim>\<open>use_cases/image_comparison.py\<close>), which call selenium, PIL and OpenCV; the Kafka client;
  the templates and hook specifications, which have no code; drawing and terminals of the shell; and use cases
  that only call one device method.
\<close>

end
